(* ===== verification/Prelude.thy ===== *)
theory Prelude
  imports Main "HOL-Library.Word" "HOL-Library.Monad_Syntax"
begin

unbundle bit_operations_syntax

section \<open>Prelude\<close>

text \<open>
  What every component of the development shares: the machine types of the C sources, the
  result type of an operation that may run into undefined behaviour together with its weakest
  precondition, the node lists that stand for the \<open>list_head\<close> queues, and little-endian reads.

  The C code is modelled by explicit state passing. An operation on the state \<open>'s\<close> has the result
  type \<open>('a \<times> 's) option\<close>: \<open>Some (r, s)\<close> is a normal return, \<open>None\<close> is undefined behaviour
  (a dangling or NULL pointer is dereferenced, a buffer is read past its end). A theorem that an
  operation is safe therefore states that it returns \<open>Some\<close>.
\<close>

named_theorems wp_intro "weakest-precondition rules, one per operation"
named_theorems codec_simps "unfolding rules of the message encoders and decoders"

subsection \<open>Machine types\<close>

type_synonym u8 = "8 word"
type_synonym u16 = "16 word"
type_synonym u32 = "32 word"
type_synonym addr = nat
type_synonym ril_token = nat \<comment> \<open>\<open>RIL_Token\<close>, an opaque pointer; 0 is NULL\<close>

text \<open>A C string is its list of characters without the terminating NUL.\<close>

definition char_byte :: "char \<Rightarrow> u8" where
  "char_byte c = of_nat (of_char c)"

definition byte_char :: "u8 \<Rightarrow> char" where
  "byte_char b = char_of (unat b)"

lemma byte_char_byte [simp]: "byte_char (char_byte c) = c"
proof -
  have "(of_char c :: nat) < 2 ^ LENGTH(8)"
    by simp
  then have "unat (of_nat (of_char c) :: u8) = of_char c"
    by (simp add: unat_of_nat take_bit_nat_eq_self)
  then show ?thesis
    by (simp add: byte_char_def char_byte_def)
qed

lemma char_byte_inj [simp]: "char_byte c = char_byte d \<longleftrightarrow> c = d"
  by (metis byte_char_byte)

definition string_bytes :: "string \<Rightarrow> u8 list" where
  "string_bytes cs = map char_byte cs"

lemma length_string_bytes [simp]: "length (string_bytes cs) = length cs"
  by (simp add: string_bytes_def)

lemma takeWhile_nonzero: "0 \<notin> set bs \<Longrightarrow> takeWhile (\<lambda>b. b \<noteq> (0 :: u8)) bs = bs"
  by (induction bs) auto

text \<open>\<open>%d\<close> of \<open>printf\<close>.\<close>

fun decimal :: "nat \<Rightarrow> string" where
  "decimal n = (if n < 10 then [char_of (48 + n)] else decimal (n div 10) @ [char_of (48 + n mod 10)])"

declare decimal.simps [simp del]

definition print_int :: "int \<Rightarrow> string" where
  "print_int i = (if i < 0 then ''-'' @ decimal (nat (- i)) else decimal (nat i))"

text \<open>Little-endian values: all packed structures of the protocol are read and written so.\<close>

definition le16 :: "u8 \<Rightarrow> u8 \<Rightarrow> u16" where
  "le16 lo hi = push_bit 8 (ucast hi) OR ucast lo"

definition bytes16 :: "u16 \<Rightarrow> u8 list" where
  "bytes16 w = [ucast w, ucast (drop_bit 8 w)]"

definition le32 :: "u8 \<Rightarrow> u8 \<Rightarrow> u8 \<Rightarrow> u8 \<Rightarrow> u32" where
  "le32 a b c d = push_bit 24 (ucast d) OR push_bit 16 (ucast c) OR push_bit 8 (ucast b) OR ucast a"

definition bytes32 :: "u32 \<Rightarrow> u8 list" where
  "bytes32 w = [ucast w, ucast (drop_bit 8 w), ucast (drop_bit 16 w), ucast (drop_bit 24 w)]"

lemma length_bytes16 [simp]: "length (bytes16 w) = 2"
  by (simp add: bytes16_def)

lemma length_bytes32 [simp]: "length (bytes32 w) = 4"
  by (simp add: bytes32_def)

lemma le16_bytes16 [simp]: "le16 (ucast w) (ucast (drop_bit 8 w)) = w"
  unfolding le16_def
  by (rule bit_word_eqI) (auto simp: bit_simps)

lemma le32_bytes32 [simp]:
  "le32 (ucast w) (ucast (drop_bit 8 w)) (ucast (drop_bit 16 w)) (ucast (drop_bit 24 w)) = w"
  unfolding le32_def
proof (rule bit_word_eqI, goal_cases)
  case (1 n)
  consider "n < 8" | "8 \<le> n" "n < 16" | "16 \<le> n" "n < 24" | "24 \<le> n"
    by linarith
  then show ?case
    using 1 by cases (auto simp: bit_simps)
qed

lemma and_0xff [simp]: "w AND 0xff = take_bit 8 (w :: u16)"
  by (simp add: take_bit_eq_mask mask_eq_exp_minus_1)

lemma and_0x0f [simp]: "b AND 0x0f = take_bit 4 (b :: u8)"
  by (simp add: take_bit_eq_mask mask_eq_exp_minus_1)

lemma unat_u8_less [simp]: "unat (b :: u8) < 256"
  using unsigned_less [of b, where ?'a = nat] by simp

text \<open>\<open>*(int *) p\<close> on the bytes at \<open>p\<close>: \<open>None\<close> when fewer than four bytes are there.\<close>

fun read_int :: "u8 list \<Rightarrow> int option" where
  "read_int (a # b # c # d # _) = Some (sint (le32 a b c d))"
| "read_int _ = None"

lemma read_int_bytes32 [simp]: "read_int (bytes32 w @ bs) = Some (sint w)"
  by (simp add: bytes32_def)

lemma read_int_bytes32_Nil [simp]: "read_int (bytes32 w) = Some (sint w)"
  using read_int_bytes32 [of w "[]"] by simp

lemma read_int_Some: "4 \<le> length bs \<Longrightarrow> \<exists>i. read_int bs = Some i"
  by (cases bs rule: read_int.cases) auto

subsection \<open>Weakest preconditions of operations that may fail\<close>

definition wp :: "('a \<times> 's) option \<Rightarrow> ('a \<Rightarrow> 's \<Rightarrow> bool) \<Rightarrow> bool" where
  "wp m Q \<longleftrightarrow> (\<exists>r s. m = Some (r, s) \<and> Q r s)"

lemma wp_Some [simp]: "wp (Some (r, s)) Q = Q r s"
  by (simp add: wp_def)

lemma wp_None [simp]: "wp None Q = False"
  by (simp add: wp_def)

lemma wp_bind [simp]: "wp (Option.bind m f) Q = wp m (\<lambda>r s. wp (f (r, s)) Q)"
  by (cases m) (auto simp: wp_def)

lemma wp_if [simp]: "wp (if b then m else m') Q = (if b then wp m Q else wp m' Q)"
  by simp

lemma wp_Let [simp]: "wp (Let x f) Q = wp (f x) Q"
  by simp

lemma wp_mono: "wp m P \<Longrightarrow> (\<And>r s. P r s \<Longrightarrow> Q r s) \<Longrightarrow> wp m Q"
  by (auto simp: wp_def)

lemma wp_conj: "wp m P \<Longrightarrow> wp m Q \<Longrightarrow> wp m (\<lambda>r s. P r s \<and> Q r s)"
  by (auto simp: wp_def)

lemma wpI: "m = Some (r, s) \<Longrightarrow> Q r s \<Longrightarrow> wp m Q"
  by (simp add: wp_def)

lemma wpE: "wp m Q \<Longrightarrow> (\<And>r s. m = Some (r, s) \<Longrightarrow> Q r s \<Longrightarrow> thesis) \<Longrightarrow> thesis"
  by (auto simp: wp_def)

lemma wp_the: "wp m Q \<longleftrightarrow> m \<noteq> None \<and> Q (fst (the m)) (snd (the m))"
  by (cases m) (auto simp: wp_def)

subsection \<open>Node lists\<close>

text \<open>
  A queue built from \<open>list_head\<close> cells is the list of its nodes in order, each an address (the
  \<open>data\<close> pointer of the cell) and the object there. That the pointer manipulations of the code
  implement exactly these list operations is the refinement proved in theory \<open>List_Head\<close>.
\<close>

type_synonym 'a nodes = "(addr \<times> 'a) list"

definition node_append :: "addr \<Rightarrow> 'a \<Rightarrow> 'a nodes \<Rightarrow> 'a nodes" where
  "node_append p x ns = ns @ [(p, x)]"

definition node_remove :: "addr \<Rightarrow> 'a nodes \<Rightarrow> 'a nodes" where
  "node_remove p ns = filter (\<lambda>n. fst n \<noteq> p) ns"

definition node_find :: "('a \<Rightarrow> bool) \<Rightarrow> 'a nodes \<Rightarrow> addr option" where
  "node_find P ns = map_option fst (find (\<lambda>n. P (snd n)) ns)"

definition node_update :: "addr \<Rightarrow> ('a \<Rightarrow> 'a) \<Rightarrow> 'a nodes \<Rightarrow> 'a nodes" where
  "node_update p f ns = map (\<lambda>(q, x). (q, if q = p then f x else x)) ns"

abbreviation node_get :: "'a nodes \<Rightarrow> addr \<Rightarrow> 'a option" where
  "node_get \<equiv> map_of"

lemma node_find_None: "node_find P ns = None \<longleftrightarrow> (\<forall>x \<in> snd ` set ns. \<not> P x)"
  by (auto simp: node_find_def find_None_iff)

lemma node_find_Some_get:
  assumes "distinct (map fst ns)" and "node_find P ns = Some p"
  shows "\<exists>x. node_get ns p = Some x \<and> (p, x) \<in> set ns \<and> P x"
proof -
  from assms(2) obtain n where n: "find (\<lambda>n. P (snd n)) ns = Some n" and "p = fst n"
    by (auto simp: node_find_def)
  from n have "n \<in> set ns" and "P (snd n)"
    by (auto simp: find_Some_iff)
  with assms(1) \<open>p = fst n\<close> show ?thesis
    by (intro exI [of _ "snd n"]) simp
qed

lemma node_find_Nil [simp]: "node_find P [] = None"
  by (simp add: node_find_def)

lemma node_find_Cons [simp]:
  "node_find P (n # ns) = (if P (snd n) then Some (fst n) else node_find P ns)"
  by (simp add: node_find_def)

lemma node_find_Some_in: "node_find P ns = Some p \<Longrightarrow> \<exists>x. (p, x) \<in> set ns \<and> P x"
  by (induction ns) (auto split: if_splits)

lemma node_find_Some_fst: "node_find P ns = Some p \<Longrightarrow> p \<in> fst ` set ns"
  by (induction ns) (auto split: if_splits)

lemma node_find_Some_get_ex: "node_find P ns = Some p \<Longrightarrow> \<exists>x. node_get ns p = Some x"
  by (induction ns) (auto split: if_splits)

lemma node_find_cong: "(\<And>x. x \<in> snd ` set ns \<Longrightarrow> P x = Q x) \<Longrightarrow> node_find P ns = node_find Q ns"
  by (induction ns) auto

lemma node_remove_Nil [simp]: "node_remove p [] = []"
  by (simp add: node_remove_def)

lemma node_remove_Cons [simp]:
  "node_remove p (n # ns) = (if fst n = p then node_remove p ns else n # node_remove p ns)"
  by (simp add: node_remove_def)

lemma node_remove_notin: "p \<notin> fst ` set ns \<Longrightarrow> node_remove p ns = ns"
  by (induction ns) auto

lemma distinct_map_eqD: "distinct (map f xs) \<Longrightarrow> x \<in> set xs \<Longrightarrow> y \<in> set xs \<Longrightarrow> f x = f y \<Longrightarrow> x = y"
  by (auto simp: distinct_map inj_on_def)

text \<open>A node that is found by a key that no other node has is the one that a filter on the key drops.\<close>

lemma node_remove_key:
  assumes "distinct (map fst ns)" and "distinct (map (\<lambda>n. key (snd n)) ns)"
    and "node_find (\<lambda>x. key x = k) ns = Some p"
  shows "node_remove p ns = filter (\<lambda>n. key (snd n) \<noteq> k) ns"
  using assms
proof (induction ns)
  case (Cons n ns)
  have rest: "distinct (map fst ns)" "distinct (map (\<lambda>n. key (snd n)) ns)"
    using Cons.prems by simp_all
  show ?case
  proof (cases "key (snd n) = k")
    case True
    then have "p = fst n" and "k \<notin> (\<lambda>n. key (snd n)) ` set ns"
      using Cons.prems by simp_all
    moreover from this(2) have "filter (\<lambda>n. key (snd n) \<noteq> k) ns = ns"
      by (intro filter_True) blast
    moreover have "fst n \<notin> fst ` set ns"
      using Cons.prems(1) by simp
    ultimately show ?thesis
      using True by (simp add: node_remove_notin)
  next
    case False
    then have find: "node_find (\<lambda>x. key x = k) ns = Some p"
      using Cons.prems(3) by simp
    then have "p \<in> fst ` set ns"
      by (rule node_find_Some_fst)
    then have "fst n \<noteq> p"
      using Cons.prems(1) by auto
    then show ?thesis
      using False Cons.IH [OF rest find] by simp
  qed
qed simp

lemma node_find_append:
  "node_find P (xs @ ys) = (case node_find P xs of None \<Rightarrow> node_find P ys | Some p \<Rightarrow> Some p)"
  by (induction xs) auto

lemma node_remove_append [simp]:
  "node_remove p (xs @ ys) = node_remove p xs @ node_remove p ys"
  by (simp add: node_remove_def)

lemma set_node_remove: "set (node_remove p ns) = {n \<in> set ns. fst n \<noteq> p}"
  by (auto simp: node_remove_def)

lemma map_fst_node_remove [simp]: "map fst (node_remove p ns) = filter (\<lambda>q. q \<noteq> p) (map fst ns)"
  by (induction ns) auto

lemma map_fst_node_update [simp]: "map fst (node_update p f ns) = map fst ns"
  by (auto simp: node_update_def)

lemma length_node_update [simp]: "length (node_update p f ns) = length ns"
  by (simp add: node_update_def)

lemma node_update_Nil [simp]: "node_update p f [] = []"
  by (simp add: node_update_def)

lemma node_update_Cons [simp]:
  "node_update p f (n # ns) = (fst n, if fst n = p then f (snd n) else snd n) # node_update p f ns"
  by (simp add: node_update_def split_beta)

lemma node_get_update [simp]:
  "node_get (node_update p f ns) q = (if q = p then map_option f (node_get ns p) else node_get ns q)"
  by (induction ns) auto

lemma node_get_remove [simp]: "node_get (node_remove p ns) q = (if q = p then None else node_get ns q)"
  by (induction ns) auto

text \<open>In a list without repeated addresses, removing a node removes exactly one.\<close>

lemma length_node_remove:
  "distinct (map fst ns) \<Longrightarrow> p \<in> fst ` set ns \<Longrightarrow> Suc (length (node_remove p ns)) = length ns"
  by (induction ns) (auto simp: node_remove_notin)

end
