(* ===== verification/List_Head.thy ===== *)
theory List_Head
  imports Prelude
begin

section \<open>Doubly linked lists on the heap\<close>

text \<open>
  \<open>utils.c\<close> of samsung-ril implements one doubly linked list, \<open>struct list_head\<close>, and every queue
  of the program (requests, request data, data connections, IPC requests, expected responses) is
  such a list with the same three pieces of pointer code written out in each module: append at the
  end (\<open>*_register\<close>), unlink the cell of an object (\<open>*_unregister\<close>), free all cells (\<open>*_flush\<close>).

  The cells live in a heap that maps an address to a cell, \<open>None\<close> when it is not allocated.
  Reading or writing a cell that is not allocated is undefined behaviour. The theory proves that
  on a well-formed list the code never touches a freed cell, terminates, and implements the list
  operations append, remove-first and clear. The interface locale \<open>cell_queue\<close> states these laws
  once; it is interpreted on the pointer code and on plain lists, and the simulation between the
  two follows for every sequence of operations.
\<close>

subsection \<open>Cells and the two primitives of utils.c\<close>

type_synonym ptr = "addr option" \<comment> \<open>\<open>None\<close> is NULL\<close>

record list_head =
  prev :: ptr
  "next" :: ptr
  data :: ptr

type_synonym heap = "addr \<rightharpoonup> list_head"

definition set_next :: "ptr \<Rightarrow> ptr \<Rightarrow> heap \<Rightarrow> heap option" where
  "set_next p v h = (case p of None \<Rightarrow> Some h
     | Some a \<Rightarrow> (case h a of None \<Rightarrow> None | Some c \<Rightarrow> Some (h(a \<mapsto> c\<lparr>next := v\<rparr>))))"

definition set_prev :: "ptr \<Rightarrow> ptr \<Rightarrow> heap \<Rightarrow> heap option" where
  "set_prev p v h = (case p of None \<Rightarrow> Some h
     | Some a \<Rightarrow> (case h a of None \<Rightarrow> None | Some c \<Rightarrow> Some (h(a \<mapsto> c\<lparr>prev := v\<rparr>))))"

text \<open>\<open>new\<close> is the address \<open>calloc\<close> returns.\<close>

definition list_head_alloc :: "addr \<Rightarrow> ptr \<Rightarrow> ptr \<Rightarrow> ptr \<Rightarrow> heap \<Rightarrow> heap option" where
  "list_head_alloc new p n d h = do {
     let h = h(new \<mapsto> \<lparr>prev = p, next = n, data = d\<rparr>);
     h \<leftarrow> set_next p (Some new) h;
     set_prev n (Some new) h
   }"

definition list_head_free :: "ptr \<Rightarrow> heap \<Rightarrow> heap option" where
  "list_head_free l h = (case l of None \<Rightarrow> Some h
     | Some a \<Rightarrow> do {
         c \<leftarrow> h a;
         h \<leftarrow> set_prev (next c) (prev c) h;
         c \<leftarrow> h a;
         h \<leftarrow> set_next (prev c) (next c) h;
         Some (h(a := None))
       })"

subsection \<open>The list code of the modules\<close>

text \<open>
  The loop \<open>while (list_end != NULL && list_end->next != NULL) list_end = list_end->next\<close>, the
  search \<open>while (list != NULL)\<close> for the cell of an object, and the flush loop. \<open>None\<close> is
  undefined behaviour or a loop that does not end.
\<close>

partial_function (option) list_end :: "heap \<Rightarrow> ptr \<Rightarrow> ptr option" where
  "list_end h p = (case p of None \<Rightarrow> Some None
     | Some a \<Rightarrow> (case h a of None \<Rightarrow> None
        | Some c \<Rightarrow> (case next c of None \<Rightarrow> Some (Some a) | Some n \<Rightarrow> list_end h (Some n))))"

partial_function (option) list_find_data :: "heap \<Rightarrow> ptr \<Rightarrow> ptr \<Rightarrow> ptr option" where
  "list_find_data h p d = (case p of None \<Rightarrow> Some None
     | Some a \<Rightarrow> (case h a of None \<Rightarrow> None
        | Some c \<Rightarrow> (if data c = d then Some (Some a) else list_find_data h (next c) d)))"

type_synonym queue = "heap \<times> ptr" \<comment> \<open>the heap and the head pointer the module keeps\<close>

definition list_register :: "addr \<Rightarrow> ptr \<Rightarrow> queue \<Rightarrow> queue option" where
  "list_register new d q = (case q of (h, head) \<Rightarrow> do {
     e \<leftarrow> list_end h head;
     h \<leftarrow> list_head_alloc new e None d h;
     Some (h, if head = None then Some new else head)
   })"

definition list_unregister :: "ptr \<Rightarrow> queue \<Rightarrow> queue option" where
  "list_unregister d q = (case q of (h, head) \<Rightarrow> do {
     l \<leftarrow> list_find_data h head d;
     (case l of None \<Rightarrow> Some (h, head)
      | Some a \<Rightarrow> do {
          c \<leftarrow> h a;
          let head = (if l = head then next c else head);
          h \<leftarrow> list_head_free l h;
          Some (h, head)
        })
   })"

partial_function (option) list_flush_from :: "ptr \<Rightarrow> heap \<Rightarrow> ptr \<Rightarrow> queue option" where
  "list_flush_from l h head = (case l of None \<Rightarrow> Some (h, head)
     | Some a \<Rightarrow> (case h a of None \<Rightarrow> None
        | Some c \<Rightarrow> (case list_head_free l h of None \<Rightarrow> None
           | Some h' \<Rightarrow> list_flush_from (next c) h' (if l = head then next c else head))))"

definition list_flush :: "queue \<Rightarrow> queue option" where
  "list_flush q = (case q of (h, head) \<Rightarrow> list_flush_from head h head)"

subsection \<open>Well-formed lists\<close>

text \<open>
  \<open>lseg h p head xs tail\<close>: following \<open>next\<close> from \<open>head\<close> visits the cells \<open>xs\<close> (address and data pointer)
  and ends at \<open>tail\<close>; the first cell's \<open>prev\<close> is \<open>p\<close> and every other \<open>prev\<close> points back.
\<close>

type_synonym cells = "(addr \<times> ptr) list"

primrec lseg :: "heap \<Rightarrow> ptr \<Rightarrow> ptr \<Rightarrow> cells \<Rightarrow> ptr \<Rightarrow> bool" where
  "lseg h p head [] tail \<longleftrightarrow> head = tail"
| "lseg h p head (x # xs) tail \<longleftrightarrow> head = Some (fst x) \<and>
     (\<exists>c. h (fst x) = Some c \<and> prev c = p \<and> data c = snd x \<and> lseg h (Some (fst x)) (next c) xs tail)"

definition last_ptr :: "ptr \<Rightarrow> cells \<Rightarrow> ptr" where
  "last_ptr p xs = (if xs = [] then p else Some (fst (last xs)))"

definition dlist :: "queue \<Rightarrow> cells \<Rightarrow> bool" where
  "dlist q xs \<longleftrightarrow> lseg (fst q) None (snd q) xs None \<and> distinct (map fst xs)"

lemma last_ptr_simps [simp]:
  "last_ptr p [] = p" "last_ptr p (x # xs) = last_ptr (Some (fst x)) xs"
  by (auto simp: last_ptr_def)

lemma lseg_append:
  "lseg h p head (xs @ ys) tail \<longleftrightarrow> (\<exists>m. lseg h p head xs m \<and> lseg h (last_ptr p xs) m ys tail)"
  by (induction xs arbitrary: p head) auto

lemma lseg_update [simp]: "a \<notin> fst ` set xs \<Longrightarrow> lseg (h(a := v)) p head xs tail = lseg h p head xs tail"
  by (induction xs arbitrary: p head) auto

lemma lseg_Some_alloc: "lseg h p head xs tail \<Longrightarrow> x \<in> set xs \<Longrightarrow> h (fst x) \<noteq> None"
  by (induction xs arbitrary: p head) auto

lemma lseg_last_alloc: "lseg h p head xs tail \<Longrightarrow> xs \<noteq> [] \<Longrightarrow> h (fst (last xs)) \<noteq> None"
  by (rule lseg_Some_alloc) auto


lemma lseg_set_last_next:
  assumes "lseg h p head (xs @ [x]) tail" and "distinct (map fst (xs @ [x]))"
    and "h (fst x) = Some c"
  shows "lseg (h(fst x \<mapsto> c\<lparr>next := v\<rparr>)) p head (xs @ [x]) v"
  using assms by (auto simp: lseg_append)

lemma lseg_set_first_prev:
  assumes "lseg h p head (x # xs) tail" and "fst x \<notin> fst ` set xs" and "h (fst x) = Some c"
  shows "lseg (h(fst x \<mapsto> c\<lparr>prev := v\<rparr>)) v head (x # xs) tail"
  using assms by auto

subsection \<open>Appending\<close>

lemma list_end_lseg: "lseg h p head xs None \<Longrightarrow> list_end h head = Some (last_ptr None xs)"
proof (induction xs arbitrary: p head)
  case Nil
  then show ?case by (simp add: list_end.simps)
next
  case (Cons x xs)
  then obtain c where c: "head = Some (fst x)" "h (fst x) = Some c"
    and rest: "lseg h (Some (fst x)) (next c) xs None"
    by auto
  show ?case
  proof (cases xs)
    case Nil
    with c rest show ?thesis by (simp add: list_end.simps)
  next
    case (Cons y ys)
    with rest have "next c = Some (fst y)" by simp
    moreover from rest have "list_end h (next c) = Some (last_ptr None xs)"
      by (rule Cons.IH)
    ultimately show ?thesis
      using c Cons by (simp add: list_end.simps [of h "Some (fst x)"])
  qed
qed

lemma list_register_dlist:
  assumes wf: "dlist q xs" and new: "fst q new = None"
  shows "\<exists>q'. list_register new d q = Some q' \<and> dlist q' (xs @ [(new, d)]) \<and>
    (\<forall>b. b \<noteq> new \<longrightarrow> b \<notin> fst ` set xs \<longrightarrow> fst q' b = fst q b)"
proof -
  obtain h head where q: "q = (h, head)" by (cases q)
  from wf q have seg: "lseg h None head xs None" and dist: "distinct (map fst xs)"
    by (auto simp: dlist_def)
  from seg new q have notin: "new \<notin> fst ` set xs"
    by (auto dest: lseg_Some_alloc)
  have end_: "list_end h head = Some (last_ptr None xs)"
    using seg by (rule list_end_lseg)
  show ?thesis
  proof (cases xs rule: rev_cases)
    case Nil
    with seg q end_ show ?thesis
      by (simp add: list_register_def list_head_alloc_def set_next_def set_prev_def dlist_def)
  next
    case (snoc ys y)
    let ?h = "h(new \<mapsto> \<lparr>prev = Some (fst y), next = None, data = d\<rparr>)"
    from seg snoc obtain c where c: "h (fst y) = Some c"
      by (auto simp: lseg_append)
    have ne: "fst y \<noteq> new" using notin snoc by auto
    let ?h' = "?h(fst y \<mapsto> c\<lparr>next := Some new\<rparr>)"
    have "lseg ?h None head (ys @ [y]) None"
      using seg snoc notin by simp
    then have "lseg ?h' None head (ys @ [y]) (Some new)"
      using dist snoc c ne by (intro lseg_set_last_next) auto
    then have "lseg ?h' None head (xs @ [(new, d)]) None"
      using snoc ne by (simp add: lseg_append)
    moreover have "head \<noteq> None"
      using seg snoc by (cases ys) auto
    ultimately show ?thesis
      using q end_ snoc c ne dist notin
      by (auto simp: list_register_def list_head_alloc_def set_next_def set_prev_def dlist_def last_ptr_def)
  qed
qed

subsection \<open>Unlinking\<close>

lemma list_find_data_hit:
  assumes "lseg h p head (ys @ x # zs) tail" and "snd x \<notin> snd ` set ys"
  shows "list_find_data h head (snd x) = Some (Some (fst x))"
  using assms
  by (induction ys arbitrary: p head) (auto simp: list_find_data.simps)

lemma list_find_data_miss:
  assumes "lseg h p head xs None" and "d \<notin> snd ` set xs"
  shows "list_find_data h head d = Some None"
  using assms
  by (induction xs arbitrary: p head) (auto simp: list_find_data.simps)

lemma list_head_free_dlist:
  assumes seg: "lseg h p head (ys @ x # zs) None" and dist: "distinct (map fst (ys @ x # zs))"
    and p: "p = None" and c: "h (fst x) = Some c"
  shows "\<exists>h'. list_head_free (Some (fst x)) h = Some h' \<and>
     lseg h' None (if ys = [] then next c else head) (ys @ zs) None \<and>
     h' (fst x) = None \<and> (\<forall>b. b \<notin> fst ` set (ys @ x # zs) \<longrightarrow> h' b = h b)"
proof -
  have prevc: "prev c = last_ptr None ys" and tailseg: "lseg h (Some (fst x)) (next c) zs None"
    and front: "lseg h None head ys (Some (fst x))"
    using seg c p by (auto simp: lseg_append)
  have "\<exists>h1. set_prev (next c) (prev c) h = Some h1 \<and> lseg h1 None head ys (Some (fst x)) \<and>
      lseg h1 (prev c) (next c) zs None \<and> h1 (fst x) = Some c \<and>
      (\<forall>b. b \<notin> fst ` set zs \<longrightarrow> h1 b = h b)"
  proof (cases zs)
    case Nil
    with tailseg front c show ?thesis by (simp add: set_prev_def)
  next
    case (Cons z zs')
    with tailseg obtain cz where "next c = Some (fst z)" "h (fst z) = Some cz"
      by auto
    moreover have "lseg (h(fst z \<mapsto> cz\<lparr>prev := prev c\<rparr>)) (prev c) (next c) zs None"
      using tailseg dist Cons calculation by auto
    ultimately show ?thesis
      using front c dist Cons by (auto simp: set_prev_def)
  qed
  then obtain h1 where h1: "set_prev (next c) (prev c) h = Some h1"
    "lseg h1 None head ys (Some (fst x))" "lseg h1 (prev c) (next c) zs None" "h1 (fst x) = Some c"
    "\<forall>b. b \<notin> fst ` set zs \<longrightarrow> h1 b = h b"
    by blast
  have "\<exists>h2. set_next (prev c) (next c) h1 = Some h2 \<and>
      lseg h2 None (if ys = [] then next c else head) ys (next c) \<and>
      lseg h2 (prev c) (next c) zs None \<and> (\<forall>b. b \<notin> fst ` set ys \<longrightarrow> h2 b = h1 b)"
  proof (cases ys rule: rev_cases)
    case Nil
    with h1 prevc show ?thesis by (simp add: set_next_def)
  next
    case (snoc ys' y)
    then obtain cy where cy: "h1 (fst y) = Some cy"
      using h1(2) by (auto simp: lseg_append)
    have "lseg (h1(fst y \<mapsto> cy\<lparr>next := next c\<rparr>)) None head (ys' @ [y]) (next c)"
      using h1(2) dist snoc cy by (intro lseg_set_last_next) auto
    then show ?thesis
      using h1 prevc snoc cy dist by (auto simp: set_next_def last_ptr_def)
  qed
  then obtain h2 where h2: "set_next (prev c) (next c) h1 = Some h2"
    "lseg h2 None (if ys = [] then next c else head) ys (next c)"
    "lseg h2 (prev c) (next c) zs None" "\<forall>b. b \<notin> fst ` set ys \<longrightarrow> h2 b = h1 b"
    by blast
  have "lseg (h2(fst x := None)) None (if ys = [] then next c else head) (ys @ zs) None"
    using h2(2,3) dist prevc by (auto simp: lseg_append)
  then show ?thesis
    using c h1 h2 by (auto simp: list_head_free_def image_Un)
qed

text \<open>The list after the first cell whose data pointer is \<open>d\<close> is gone.\<close>

definition cells_remove :: "ptr \<Rightarrow> cells \<Rightarrow> cells" where
  "cells_remove d xs = takeWhile (\<lambda>x. snd x \<noteq> d) xs @ drop 1 (dropWhile (\<lambda>x. snd x \<noteq> d) xs)"

lemma cells_remove_notin: "d \<notin> snd ` set xs \<Longrightarrow> cells_remove d xs = xs"
  by (induction xs) (auto simp: cells_remove_def)

lemma cells_remove_split:
  "snd x \<notin> snd ` set ys \<Longrightarrow> cells_remove (snd x) (ys @ x # zs) = ys @ zs"
  by (induction ys) (auto simp: cells_remove_def)

lemma first_data_split:
  "d \<in> snd ` set xs \<Longrightarrow> \<exists>ys x zs. xs = ys @ x # zs \<and> snd x = d \<and> d \<notin> snd ` set ys"
  using split_list_first_prop [of xs "\<lambda>x. snd x = d"] by fastforce

lemma list_unregister_dlist:
  assumes wf: "dlist q xs"
  shows "\<exists>q'. list_unregister d q = Some q' \<and> dlist q' (cells_remove d xs) \<and>
    (\<forall>b. b \<notin> fst ` set xs \<longrightarrow> fst q' b = fst q b) \<and>
    (\<forall>x \<in> set xs - set (cells_remove d xs). fst q' (fst x) = None)"
proof -
  obtain h head where q: "q = (h, head)" by (cases q)
  from wf q have seg: "lseg h None head xs None" and dist: "distinct (map fst xs)"
    by (auto simp: dlist_def)
  show ?thesis
  proof (cases "d \<in> snd ` set xs")
    case False
    with seg have "list_find_data h head d = Some None"
      by (rule list_find_data_miss)
    with False wf q show ?thesis
      by (simp add: list_unregister_def cells_remove_notin)
  next
    case True
    from first_data_split [OF this]
    obtain ys x zs where xs: "xs = ys @ x # zs" and d: "snd x = d" "d \<notin> snd ` set ys"
      by (elim exE conjE)
    have find: "list_find_data h head d = Some (Some (fst x))"
      using list_find_data_hit [of h None head ys x zs None] seg xs d by simp
    obtain c where c: "h (fst x) = Some c"
      using seg xs by (auto simp: lseg_append)
    then obtain h' where h': "list_head_free (Some (fst x)) h = Some h'"
      "lseg h' None (if ys = [] then next c else head) (ys @ zs) None" "h' (fst x) = None"
      "\<forall>b. b \<notin> fst ` set xs \<longrightarrow> h' b = h b"
      using list_head_free_dlist [of h None head ys x zs c] seg dist xs by auto
    have "Some (fst x) = head \<longleftrightarrow> ys = []"
      using seg xs dist by (cases ys) auto
    moreover have "cells_remove d xs = ys @ zs"
      using cells_remove_split [of x ys zs] xs d by simp
    ultimately show ?thesis
      using q find c h' dist xs by (auto simp: list_unregister_def dlist_def)
  qed
qed

subsection \<open>Flushing\<close>

lemma list_flush_from_lseg:
  assumes "lseg h None head xs None" and "distinct (map fst xs)"
  shows "\<exists>h'. list_flush_from head h head = Some (h', None) \<and> (\<forall>x \<in> set xs. h' (fst x) = None) \<and>
    (\<forall>b. b \<notin> fst ` set xs \<longrightarrow> h' b = h b)"
  using assms
proof (induction xs arbitrary: h head)
  case Nil
  then show ?case by (simp add: list_flush_from.simps)
next
  case (Cons x xs)
  then obtain c where c: "head = Some (fst x)" "h (fst x) = Some c"
    by auto
  then obtain h1 where h1: "list_head_free (Some (fst x)) h = Some h1"
    "lseg h1 None (next c) xs None" "h1 (fst x) = None"
    "\<forall>b. b \<notin> fst ` set (x # xs) \<longrightarrow> h1 b = h b"
    using list_head_free_dlist [of h None head "[]" x xs c] Cons.prems by auto
  then obtain h' where h': "list_flush_from (next c) h1 (next c) = Some (h', None)"
    "\<forall>x \<in> set xs. h' (fst x) = None" "\<forall>b. b \<notin> fst ` set xs \<longrightarrow> h' b = h1 b"
    using Cons.IH Cons.prems by (metis distinct.simps(2) list.simps(9))
  have "list_flush_from head h head = Some (h', None)"
    using c h1 h' by (simp add: list_flush_from.simps [of "Some (fst x)"])
  moreover have "h' (fst x) = None"
    using h' h1 Cons.prems by auto
  ultimately show ?case
    using h' h1 by auto
qed

lemma list_flush_dlist:
  assumes "dlist q xs"
  shows "\<exists>q'. list_flush q = Some q' \<and> dlist q' [] \<and> (\<forall>x \<in> set xs. fst q' (fst x) = None) \<and>
    (\<forall>b. b \<notin> fst ` set xs \<longrightarrow> fst q' b = fst q b)"
  using assms list_flush_from_lseg [of "fst q" "snd q" xs]
  by (cases q) (auto simp: list_flush_def dlist_def)

subsection \<open>The interface of a cell queue and its two implementations\<close>

text \<open>
  The laws the modules rely on. \<open>rep q xs\<close> says that \<open>q\<close> holds the cells \<open>xs\<close> in order,
  \<open>fresh new q\<close> that the allocator may hand out \<open>new\<close>.
\<close>

datatype list_op = Register addr ptr | Unregister ptr | Flush

fun run_list_ops :: "(addr \<Rightarrow> ptr \<Rightarrow> 'q \<Rightarrow> 'q option) \<Rightarrow> (ptr \<Rightarrow> 'q \<Rightarrow> 'q option) \<Rightarrow>
    ('q \<Rightarrow> 'q option) \<Rightarrow> list_op list \<Rightarrow> 'q \<Rightarrow> 'q option" where
  "run_list_ops reg unreg fl [] q = Some q"
| "run_list_ops reg unreg fl (Register a d # ops) q =
     Option.bind (reg a d q) (run_list_ops reg unreg fl ops)"
| "run_list_ops reg unreg fl (Unregister d # ops) q =
     Option.bind (unreg d q) (run_list_ops reg unreg fl ops)"
| "run_list_ops reg unreg fl (Flush # ops) q =
     Option.bind (fl q) (run_list_ops reg unreg fl ops)"

fun cells_op :: "list_op \<Rightarrow> cells \<Rightarrow> cells" where
  "cells_op (Register a d) xs = xs @ [(a, d)]"
| "cells_op (Unregister d) xs = cells_remove d xs"
| "cells_op Flush xs = []"

text \<open>
  The addresses \<open>calloc\<close> returns along a run: each is new with respect to the cells allocated
  outside the list (\<open>used\<close>) and to the cells then in the list.
\<close>

fun fresh_ops :: "addr set \<Rightarrow> list_op list \<Rightarrow> cells \<Rightarrow> bool" where
  "fresh_ops used [] xs = True"
| "fresh_ops used (Register a d # ops) xs =
     (a \<notin> used \<and> a \<notin> fst ` set xs \<and> fresh_ops used ops (xs @ [(a, d)]))"
| "fresh_ops used (Unregister d # ops) xs = fresh_ops used ops (cells_remove d xs)"
| "fresh_ops used (Flush # ops) xs = fresh_ops used ops []"

locale cell_queue =
  fixes reg :: "addr \<Rightarrow> ptr \<Rightarrow> 'q \<Rightarrow> 'q option"
    and unreg :: "ptr \<Rightarrow> 'q \<Rightarrow> 'q option"
    and fl :: "'q \<Rightarrow> 'q option"
    and rep :: "addr set \<Rightarrow> 'q \<Rightarrow> cells \<Rightarrow> bool"
  assumes reg_law: "rep used q xs \<Longrightarrow> a \<notin> used \<Longrightarrow> a \<notin> fst ` set xs \<Longrightarrow>
      \<exists>q'. reg a d q = Some q' \<and> rep used q' (xs @ [(a, d)])"
    and unreg_law: "rep used q xs \<Longrightarrow> \<exists>q'. unreg d q = Some q' \<and> rep used q' (cells_remove d xs)"
    and fl_law: "rep used q xs \<Longrightarrow> \<exists>q'. fl q = Some q' \<and> rep used q' []"
begin

lemma run_simulates:
  "rep used q xs \<Longrightarrow> fresh_ops used ops xs \<Longrightarrow>
    \<exists>q'. run_list_ops reg unreg fl ops q = Some q' \<and> rep used q' (fold cells_op ops xs)"
proof (induction ops arbitrary: q xs)
  case Nil
  then show ?case by simp
next
  case (Cons op ops)
  show ?case
  proof (cases op)
    case (Register a d)
    with Cons.prems obtain q' where "reg a d q = Some q'" "rep used q' (xs @ [(a, d)])"
      using reg_law by fastforce
    with Cons.IH [of q'] Cons.prems Register show ?thesis by simp
  next
    case (Unregister d)
    with Cons.prems obtain q' where "unreg d q = Some q'" "rep used q' (cells_remove d xs)"
      using unreg_law by blast
    with Cons.IH [of q'] Cons.prems Unregister show ?thesis by simp
  next
    case Flush
    with Cons.prems obtain q' where "fl q = Some q'" "rep used q' []"
      using fl_law by blast
    with Cons.IH [of q'] Cons.prems Flush show ?thesis by simp
  qed
qed

end

text \<open>
  The pointer code: the list's cells are allocated, the rest of the heap is exactly \<open>used\<close>, so
  no cell leaks and none outside the list is touched.
\<close>

definition heap_rep :: "addr set \<Rightarrow> queue \<Rightarrow> cells \<Rightarrow> bool" where
  "heap_rep used q xs \<longleftrightarrow> dlist q xs \<and> dom (fst q) = used \<union> fst ` set xs \<and> used \<inter> fst ` set xs = {}"

lemma cells_remove_subset: "set (cells_remove d xs) \<subseteq> set xs"
  by (auto simp: cells_remove_def dest: set_takeWhileD in_set_dropD set_dropWhileD)

lemma list_register_heap_rep:
  assumes "heap_rep used q xs" and "a \<notin> used" and "a \<notin> fst ` set xs"
  shows "\<exists>q'. list_register a d q = Some q' \<and> heap_rep used q' (xs @ [(a, d)])"
proof -
  from assms have "fst q a = None" and wf: "dlist q xs"
    by (auto simp: heap_rep_def)
  from list_register_dlist [OF wf this(1), of d]
  obtain q' where q': "list_register a d q = Some q'" "dlist q' (xs @ [(a, d)])"
    "\<forall>b. b \<noteq> a \<longrightarrow> b \<notin> fst ` set xs \<longrightarrow> fst q' b = fst q b"
    by (elim exE conjE)
  have "b \<in> dom (fst q') \<longleftrightarrow> b \<in> used \<union> fst ` set (xs @ [(a, d)])" for b
  proof (cases "b \<in> fst ` set (xs @ [(a, d)])")
    case True
    then show ?thesis
      using q'(2) by (auto simp: dlist_def dest: lseg_Some_alloc)
  next
    case False
    then show ?thesis
      using q'(3) assms(1) by (auto simp: heap_rep_def dom_def)
  qed
  then have "dom (fst q') = used \<union> fst ` set (xs @ [(a, d)])"
    by blast
  with q'(1,2) assms show ?thesis
    by (simp add: heap_rep_def)
qed

lemma list_unregister_heap_rep:
  assumes "heap_rep used q xs"
  shows "\<exists>q'. list_unregister d q = Some q' \<and> heap_rep used q' (cells_remove d xs)"
proof -
  from assms have wf: "dlist q xs" by (simp add: heap_rep_def)
  from list_unregister_dlist [OF this, of d]
  obtain q' where q': "list_unregister d q = Some q'" "dlist q' (cells_remove d xs)"
    "\<forall>b. b \<notin> fst ` set xs \<longrightarrow> fst q' b = fst q b"
    "\<forall>x \<in> set xs - set (cells_remove d xs). fst q' (fst x) = None"
    by (elim exE conjE)
  have "b \<in> dom (fst q') \<longleftrightarrow> b \<in> used \<union> fst ` set (cells_remove d xs)" for b
  proof (cases "b \<in> fst ` set (cells_remove d xs)")
    case True
    then show ?thesis
      using q'(2) by (auto simp: dlist_def dest: lseg_Some_alloc)
  next
    case False
    show ?thesis
    proof (cases "b \<in> fst ` set xs")
      case True
      then obtain x where x: "x \<in> set xs" "fst x = b" by auto
      with False have "x \<in> set xs - set (cells_remove d xs)" by auto
      with q'(4) have "fst q' (fst x) = None" by (rule bspec)
      with x have "fst q' b = None" by simp
      moreover have "b \<notin> used" using assms True by (auto simp: heap_rep_def)
      ultimately show ?thesis using False by auto
    next
      case nb: False
      with False q'(3) assms show ?thesis
        by (auto simp: heap_rep_def dom_def)
    qed
  qed
  then have "dom (fst q') = used \<union> fst ` set (cells_remove d xs)"
    by blast
  moreover have "used \<inter> fst ` set (cells_remove d xs) = {}"
    using assms cells_remove_subset [of d xs] by (auto simp: heap_rep_def)
  ultimately show ?thesis
    using q'(1,2) by (simp add: heap_rep_def)
qed

lemma list_flush_heap_rep:
  assumes "heap_rep used q xs"
  shows "\<exists>q'. list_flush q = Some q' \<and> heap_rep used q' []"
proof -
  from assms have "dlist q xs" by (simp add: heap_rep_def)
  from list_flush_dlist [OF this]
  obtain q' where q': "list_flush q = Some q'" "dlist q' []"
    "\<forall>x \<in> set xs. fst q' (fst x) = None" "\<forall>b. b \<notin> fst ` set xs \<longrightarrow> fst q' b = fst q b"
    by (elim exE conjE)
  have "b \<in> dom (fst q') \<longleftrightarrow> b \<in> used" for b
    using q'(3,4) assms by (cases "b \<in> fst ` set xs") (auto simp: heap_rep_def dom_def)
  then have "dom (fst q') = used"
    by blast
  with q'(1,2) show ?thesis
    by (simp add: heap_rep_def)
qed

interpretation heap_queue: cell_queue list_register list_unregister list_flush heap_rep
  by unfold_locales
    (rule list_register_heap_rep list_unregister_heap_rep list_flush_heap_rep; assumption)+

text \<open>
  The abstract side: the same interface on node lists, the representation every other theory of
  the development uses. A node's address is its data pointer, so unlinking the cell of an object
  is removing the node with that address.
\<close>

definition nodes_register :: "addr \<Rightarrow> ptr \<Rightarrow> cells \<Rightarrow> cells option" where
  "nodes_register a d xs = Some (xs @ [(a, d)])"

definition nodes_unregister :: "ptr \<Rightarrow> cells \<Rightarrow> cells option" where
  "nodes_unregister d xs = Some (cells_remove d xs)"

definition nodes_flush :: "cells \<Rightarrow> cells option" where
  "nodes_flush xs = Some []"

interpretation node_queue: cell_queue nodes_register nodes_unregister nodes_flush "\<lambda>used xs ys. xs = ys"
  by unfold_locales (simp_all add: nodes_register_def nodes_unregister_def nodes_flush_def)

lemma nodes_run_fold:
  "run_list_ops nodes_register nodes_unregister nodes_flush ops xs = Some (fold cells_op ops xs)"
proof (induction ops arbitrary: xs)
  case Nil
  then show ?case by simp
next
  case (Cons op ops)
  then show ?case
    by (cases op) (auto simp: nodes_register_def nodes_unregister_def nodes_flush_def)
qed

lemma cells_remove_node_remove:
  assumes "distinct (map fst ns)"
  shows "map snd (cells_remove (Some p) (map (\<lambda>n. (f n, Some (fst n))) ns)) =
    map (\<lambda>n. Some (fst n)) (node_remove p ns)"
  using assms
proof (induction ns)
  case Nil
  then show ?case by (simp add: cells_remove_def)
next
  case (Cons n ns)
  then show ?case
    by (auto simp: cells_remove_def node_remove_notin)
qed

subsection \<open>Properties\<close>

text \<open>C11. The pointer code of the queues refines list operations: from a well-formed list, any
  sequence of register, unregister and flush calls runs to the end without touching a cell that
  is not allocated, and leaves exactly the cells that append, remove-first-match and clear give,
  correctly linked in both directions, with every unlinked cell freed and every cell outside the
  list untouched. The abstract run on node lists is the same fold.\<close>

theorem list_ops_refine_nodes:
  assumes "heap_rep used q xs" and "fresh_ops used ops xs"
  shows "\<exists>q' ys. run_list_ops list_register list_unregister list_flush ops q = Some q' \<and>
    run_list_ops nodes_register nodes_unregister nodes_flush ops xs = Some ys \<and> heap_rep used q' ys"
  using heap_queue.run_simulates [OF assms] by (simp add: nodes_run_fold)

theorem list_ops_refine_nodes_witness:
  "\<exists>q' ys. run_list_ops list_register list_unregister list_flush
      [Register 1 (Some 10), Register 2 (Some 20), Register 3 (Some 30), Unregister (Some 20)]
      (Map.empty, None) = Some q' \<and>
    run_list_ops nodes_register nodes_unregister nodes_flush
      [Register 1 (Some 10), Register 2 (Some 20), Register 3 (Some 30), Unregister (Some 20)]
      [] = Some ys \<and> heap_rep {} q' ys"
proof (rule list_ops_refine_nodes)
  show "heap_rep {} (Map.empty, None) []"
    by (simp add: heap_rep_def dlist_def)
  show "fresh_ops {} [Register 1 (Some 10), Register 2 (Some 20), Register 3 (Some 30),
      Unregister (Some 20)] []"
    by simp
qed

text \<open>A cell that \<open>list_head_free\<close> released is gone: freeing a list element twice is
  undefined behaviour, and so is unlinking through a freed cell.\<close>

lemma list_head_free_twice:
  assumes "list_head_free (Some a) h = Some h'"
  shows "h' a = None \<and> list_head_free (Some a) h' = None"
  using assms by (auto simp: list_head_free_def split: Option.bind_splits)

end
