(* ===== verification/Ipc_Utils.thy ===== *)
theory Ipc_Utils
  imports Prelude
begin

section \<open>libsamsung-ipc: sequence numbers, headers and hexadecimal strings\<close>

text \<open>
  The helpers of \<open>samsung-ipc/ipc_utils.c\<close> and \<open>samsung-ipc/utils.c\<close> that the RIL calls, and the
  types and macros of \<open>include/samsung-ipc.h\<close> and \<open>include/protocol.h\<close>.
  A pair of a pointer and a size is the list of the bytes there, so NULL and size 0 are both the
  empty list; a C string pointer that may be NULL is a \<open>string option\<close>.
\<close>

subsection \<open>Messages\<close>

record ipc_message =
  msg_mseq :: u8
  msg_aseq :: u8
  msg_command :: u16
  msg_type :: u8
  msg_data :: "u8 list"

definition IPC_TYPE_EXEC :: u8 where "IPC_TYPE_EXEC = 0x01"
definition IPC_TYPE_GET :: u8 where "IPC_TYPE_GET = 0x02"
definition IPC_TYPE_SET :: u8 where "IPC_TYPE_SET = 0x03"
definition IPC_TYPE_INDI :: u8 where "IPC_TYPE_INDI = 0x01"
definition IPC_TYPE_RESP :: u8 where "IPC_TYPE_RESP = 0x02"
definition IPC_TYPE_NOTI :: u8 where "IPC_TYPE_NOTI = 0x03"

definition IPC_GROUP_RFS :: u8 where "IPC_GROUP_RFS = 0x42"

definition IPC_COMMAND :: "u8 \<Rightarrow> u8 \<Rightarrow> u16" where
  "IPC_COMMAND g i = push_bit 8 (ucast g) OR ucast i"

definition IPC_GROUP :: "u16 \<Rightarrow> u8" where
  "IPC_GROUP cmd = ucast (drop_bit 8 cmd)"

definition IPC_INDEX :: "u16 \<Rightarrow> u8" where
  "IPC_INDEX cmd = ucast (cmd AND 0xff)"

definition ipc_seq_valid :: "u8 \<Rightarrow> bool" where
  "ipc_seq_valid seq \<longleftrightarrow> \<not> (seq = 0x00 \<or> seq = 0xff)"

lemma IPC_COMMAND_group_index [simp]: "IPC_COMMAND (IPC_GROUP cmd) (IPC_INDEX cmd) = cmd"
  unfolding IPC_COMMAND_def IPC_GROUP_def IPC_INDEX_def
  by (rule bit_word_eqI) (auto simp: bit_simps)

lemma IPC_GROUP_COMMAND [simp]: "IPC_GROUP (IPC_COMMAND g i) = g"
  unfolding IPC_COMMAND_def IPC_GROUP_def
  by (rule bit_word_eqI) (auto simp: bit_simps dest: bit_imp_le_length)

lemma IPC_INDEX_COMMAND [simp]: "IPC_INDEX (IPC_COMMAND g i) = i"
  unfolding IPC_COMMAND_def IPC_INDEX_def
  by (rule bit_word_eqI) (auto simp: bit_simps)

subsection \<open>Headers\<close>

record ipc_fmt_header =
  fh_length :: u16
  fh_mseq :: u8
  fh_aseq :: u8
  fh_group :: u8
  fh_index :: u8
  fh_type :: u8

record ipc_rfs_header =
  rh_length :: u32
  rh_index :: u8
  rh_id :: u8

definition ipc_fmt_header_setup :: "ipc_message \<Rightarrow> ipc_fmt_header" where
  "ipc_fmt_header_setup message = \<lparr>fh_length = of_nat (length (msg_data message) + 7),
     fh_mseq = msg_mseq message, fh_aseq = msg_aseq message, fh_group = IPC_GROUP (msg_command message),
     fh_index = IPC_INDEX (msg_command message), fh_type = msg_type message\<rparr>"

definition ipc_fmt_message_setup :: "ipc_fmt_header \<Rightarrow> ipc_message" where
  "ipc_fmt_message_setup header = \<lparr>msg_mseq = fh_mseq header, msg_aseq = fh_aseq header,
     msg_command = IPC_COMMAND (fh_group header) (fh_index header), msg_type = fh_type header, msg_data = []\<rparr>"

definition ipc_rfs_header_setup :: "ipc_message \<Rightarrow> ipc_rfs_header" where
  "ipc_rfs_header_setup message = \<lparr>rh_length = of_nat (length (msg_data message) + 6),
     rh_index = IPC_INDEX (msg_command message), rh_id = msg_mseq message\<rparr>"

definition ipc_rfs_message_setup :: "ipc_rfs_header \<Rightarrow> ipc_message" where
  "ipc_rfs_message_setup header = \<lparr>msg_mseq = 0, msg_aseq = rh_id header,
     msg_command = IPC_COMMAND IPC_GROUP_RFS (rh_index header), msg_type = 0, msg_data = []\<rparr>"

subsection \<open>Hexadecimal strings\<close>

definition hex_digit :: "nat \<Rightarrow> char" where
  "hex_digit n = ''0123456789abcdef'' ! n"

definition hex_value :: "char \<Rightarrow> nat option" where
  "hex_value c = (let n = of_char c :: nat in
     if 48 \<le> n \<and> n \<le> 57 then Some (n - 48)
     else if 97 \<le> n \<and> n \<le> 102 then Some (n - 87)
     else if 65 \<le> n \<and> n \<le> 70 then Some (n - 55)
     else None)"

definition isspace :: "char \<Rightarrow> bool" where
  "isspace c \<longleftrightarrow> (let n = of_char c :: nat in n = 32 \<or> (9 \<le> n \<and> n \<le> 13))"

definition NUL :: char where "NUL = CHR 0x00"

definition isprint :: "u8 \<Rightarrow> bool" where
  "isprint b \<longleftrightarrow> 32 \<le> unat b \<and> unat b \<le> 126"

text \<open>\<open>%x\<close>.\<close>

fun hexadecimal :: "nat \<Rightarrow> string" where
  "hexadecimal n = (if n < 16 then [hex_digit n] else hexadecimal (n div 16) @ [hex_digit (n mod 16)])"

declare hexadecimal.simps [simp del]

text \<open>\<open>sscanf(s, "%01x", &b)\<close>: white space is skipped, then one hexadecimal digit is read;
  \<open>None\<close> is a return value below 1.\<close>

fun sscanf_01x :: "string \<Rightarrow> nat option" where
  "sscanf_01x [] = None"
| "sscanf_01x (c # cs) = (if isspace c then sscanf_01x cs else hex_value c)"

text \<open>\<open>rc = sscanf(...); if (rc < 1) b = 0;\<close>\<close>

definition scan_nibble :: "string \<Rightarrow> u8" where
  "scan_nibble cs = (case sscanf_01x cs of None \<Rightarrow> 0 | Some n \<Rightarrow> of_nat n)"

definition data2string_length :: "u8 list \<Rightarrow> nat" where
  "data2string_length bs = (if bs = [] then 0 else length bs * 2 + 1)"

definition sprintf_02x :: "u8 \<Rightarrow> string" where
  "sprintf_02x b = [hex_digit (unat b div 16), hex_digit (unat b mod 16)]"

definition data2string :: "u8 list \<Rightarrow> string option" where
  "data2string bs = (if bs = [] then None else Some (concat (map sprintf_02x bs)))"

definition string2data_size :: "string option \<Rightarrow> nat" where
  "string2data_size str = (case str of None \<Rightarrow> 0
     | Some cs \<Rightarrow> (let length = length cs in
         if length = 0 then 0
         else if length mod 2 = 0 then length div 2
         else (length - length mod 2) div 2 + 1))"

text \<open>The conversion loop: \<open>buf\<close> is the zeroed buffer, \<open>p\<close> the offset of the byte being
  written; a write at or past the end of the buffer is undefined.\<close>

fun string2data_loop :: "string \<Rightarrow> nat \<Rightarrow> u8 list \<Rightarrow> nat \<Rightarrow> u8 list option" where
  "string2data_loop [] shift buf p = Some buf"
| "string2data_loop (c # cs) shift buf p =
     (let b = scan_nibble (c # cs) in
      if p \<ge> length buf then None
      else if shift mod 2 = 0
      then string2data_loop cs (shift + 1) (buf[p := buf ! p OR push_bit 4 (b AND 0x0f)]) p
      else string2data_loop cs (shift + 1) (buf[p := buf ! p OR (b AND 0x0f)]) (p + 1))"

definition string2data :: "string option \<Rightarrow> u8 list option option" where
  "string2data str = (case str of None \<Rightarrow> Some None
     | Some cs \<Rightarrow>
        if length cs = 0 then Some None
        else if string2data_size (Some cs) = 0 then Some None
        else map_option Some
          (string2data_loop cs (length cs mod 2) (replicate (string2data_size (Some cs)) 0) 0))"

subsection \<open>What the conversion computes\<close>

fun nibbles :: "string \<Rightarrow> u8 list" where
  "nibbles [] = []"
| "nibbles (c # cs) = scan_nibble (c # cs) # nibbles cs"

fun pack_nibbles :: "u8 list \<Rightarrow> u8 list" where
  "pack_nibbles (hi # lo # ns) = (push_bit 4 (hi AND 0x0f) OR (lo AND 0x0f)) # pack_nibbles ns"
| "pack_nibbles _ = []"

definition hex_decode :: "string \<Rightarrow> u8 list" where
  "hex_decode cs = pack_nibbles (if odd (length cs) then 0 # nibbles cs else nibbles cs)"

lemma length_nibbles [simp]: "length (nibbles cs) = length cs"
  by (induction cs) auto

lemma length_pack_nibbles: "length (pack_nibbles ns) = length ns div 2"
  by (induction ns rule: pack_nibbles.induct) auto

lemma string2data_size_eq: "string2data_size (Some cs) = (length cs + 1) div 2"
  by (auto simp: string2data_size_def Let_def)

text \<open>From an even position, two characters fill the next byte.\<close>

lemma string2data_loop_even:
  assumes "length cs = 2 * k" and "shift mod 2 = 0"
  shows "string2data_loop cs shift (bs @ replicate k 0) (length bs) = Some (bs @ pack_nibbles (nibbles cs))"
  using assms
proof (induction k arbitrary: cs shift bs)
  case 0
  then show ?case by simp
next
  case (Suc k)
  then obtain a b ds where cs: "cs = a # b # ds" and len: "length ds = 2 * k"
    by (auto simp: length_Suc_conv)
  let ?hi = "scan_nibble (a # b # ds)"
  let ?lo = "scan_nibble (b # ds)"
  let ?byte = "push_bit 4 (?hi AND 0x0f) OR (?lo AND 0x0f)"
  have "string2data_loop cs shift (bs @ replicate (Suc k) 0) (length bs) =
      string2data_loop ds (shift + 2) ((bs @ [?byte]) @ replicate k 0) (length (bs @ [?byte]))"
    using Suc.prems(2) by (simp add: cs Let_def nth_append list_update_append mod_Suc)
  also have "\<dots> = Some ((bs @ [?byte]) @ pack_nibbles (nibbles ds))"
    using len Suc.prems(2) by (intro Suc.IH) (auto simp: mod_Suc)
  also have "\<dots> = Some (bs @ pack_nibbles (nibbles cs))"
    by (simp add: cs)
  finally show ?case .
qed

text \<open>From an odd position, one character completes the byte first.\<close>

lemma string2data_loop_odd:
  assumes "length cs = Suc (2 * k)"
  shows "string2data_loop cs 1 (replicate (Suc k) 0) 0 = Some (pack_nibbles (0 # nibbles cs))"
proof -
  from assms obtain c ds where cs: "cs = c # ds" and len: "length ds = 2 * k"
    by (auto simp: length_Suc_conv)
  let ?lo = "scan_nibble (c # ds)"
  have "string2data_loop cs 1 (replicate (Suc k) 0) 0 =
      string2data_loop ds 2 ([?lo AND 0x0f] @ replicate k 0) (length [?lo AND 0x0f])"
    by (simp add: cs Let_def numeral_2_eq_2)
  also have "\<dots> = Some ([?lo AND 0x0f] @ pack_nibbles (nibbles ds))"
    using len by (intro string2data_loop_even) auto
  finally show ?thesis
    by (simp add: cs)
qed

lemma string2data_hex_decode:
  assumes "cs \<noteq> []"
  shows "string2data (Some cs) = Some (Some (hex_decode cs))"
proof (cases "even (length cs)")
  case True
  then obtain k where k: "length cs = 2 * k" by (auto elim: evenE)
  with assms have "0 < k" by (cases k) auto
  with string2data_loop_even [OF k, of 0 "[]"] k show ?thesis
    by (auto simp: string2data_def string2data_size_eq hex_decode_def)
next
  case False
  then obtain k where k: "length cs = Suc (2 * k)" by (auto elim: oddE)
  with string2data_loop_odd [OF this] show ?thesis
    by (auto simp: string2data_def string2data_size_eq hex_decode_def)
qed

lemma length_hex_decode: "length (hex_decode cs) = string2data_size (Some cs)"
  by (auto simp: hex_decode_def length_pack_nibbles string2data_size_eq)

subsection \<open>Round trip\<close>

lemma hex_digit_parse_all:
  "\<forall>n \<in> set [0..<16]. \<not> isspace (hex_digit n) \<and> hex_value (hex_digit n) = Some n"
  by code_simp

lemma hex_digit_parse: "n < 16 \<Longrightarrow> \<not> isspace (hex_digit n) \<and> hex_value (hex_digit n) = Some n"
  using hex_digit_parse_all by simp

lemma nibbles_byte:
  "push_bit 4 (of_nat (unat b div 16) AND 0x0f) OR (of_nat (unat b mod 16) AND 0x0f) = (b :: u8)"
proof -
  have hi: "of_nat (unat b div 16) = (drop_bit 4 b :: u8)"
    using unat_u8_less [of b]
    by (simp add: word_unat_eq_iff unat_of_nat drop_bit_eq_div unat_div_distrib take_bit_nat_eq_self
        del: unat_u8_less)
  have lo: "of_nat (unat b mod 16) = (take_bit 4 b :: u8)"
    using take_bit_of_nat [of 4 "unat b", where 'a = u8] by (simp add: take_bit_eq_mod)
  show ?thesis
    unfolding hi lo by (rule bit_word_eqI) (auto simp: bit_simps)
qed

lemma scan_nibble_digit [simp]: "n < 16 \<Longrightarrow> scan_nibble (hex_digit n # cs) = of_nat n"
  by (simp add: scan_nibble_def hex_digit_parse)

lemma nibbles_sprintf:
  "pack_nibbles (nibbles (concat (map sprintf_02x bs))) = bs"
proof (induction bs)
  case (Cons b bs)
  have "unat b div 16 < 16" using unat_u8_less [of b] by linarith
  then show ?case
    using Cons by (simp add: sprintf_02x_def nibbles_byte [simplified])
qed simp

lemma length_sprintf_concat: "length (concat (map sprintf_02x bs)) = 2 * length bs"
  by (induction bs) (auto simp: sprintf_02x_def)

subsection \<open>Properties\<close>

text \<open>\<open>string2data\<close> never writes past its buffer and computes the hexadecimal value of the
  string: \<open>string2data_size\<close> bytes, two characters per byte, an odd string read as if a 0 stood
  in front, a character that is no digit counting as 0.\<close>

theorem string2data_total:
  assumes "cs \<noteq> []"
  shows "string2data (Some cs) = Some (Some (hex_decode cs)) \<and>
    length (hex_decode cs) = string2data_size (Some cs)"
  using assms by (simp add: string2data_hex_decode length_hex_decode)

theorem string2data_total_witness:
  "string2data (Some ''12x'') = Some (Some (hex_decode ''12x'')) \<and>
    length (hex_decode ''12x'') = string2data_size (Some ''12x'')"
  by (rule string2data_total) simp

text \<open>Encoding bytes with \<open>data2string\<close> and decoding them with \<open>string2data\<close> gives the same
  bytes back; the string has two characters per byte and fits the buffer \<open>data2string\<close> allocates.\<close>

theorem data2string_string2data:
  assumes "bs \<noteq> []"
  shows "\<exists>cs. data2string bs = Some cs \<and> string2data (Some cs) = Some (Some bs) \<and>
    length cs + 1 = data2string_length bs"
proof -
  have "concat (map sprintf_02x bs) \<noteq> []"
    using assms by (cases bs) (auto simp: sprintf_02x_def)
  then show ?thesis
    using assms
    by (simp add: data2string_def string2data_hex_decode hex_decode_def length_sprintf_concat
        nibbles_sprintf data2string_length_def)
qed

theorem data2string_string2data_witness:
  "\<exists>cs. data2string [0x0a, 0xff] = Some cs \<and> string2data (Some cs) = Some (Some [0x0a, 0xff]) \<and>
    length cs + 1 = data2string_length [0x0a, 0xff]"
  by (rule data2string_string2data) simp

text \<open>A message survives the FMT header: what \<open>ipc_fmt_message_setup\<close> reads from the header
  that \<open>ipc_fmt_header_setup\<close> wrote is the message without its payload, and the length field is
  the payload size plus the seven header bytes as long as that fits sixteen bits.\<close>

lemma ipc_fmt_header_roundtrip:
  assumes "length (msg_data m) + 7 < 2 ^ 16"
  shows "ipc_fmt_message_setup (ipc_fmt_header_setup m) = m\<lparr>msg_data := []\<rparr> \<and>
    unat (fh_length (ipc_fmt_header_setup m)) = length (msg_data m) + 7"
  using assms
  by (cases m) (simp add: ipc_fmt_message_setup_def ipc_fmt_header_setup_def unat_of_nat
      take_bit_nat_eq_self flip: of_nat_add)

end
