(* ===== verification/Ipc_Call.thy ===== *)
theory Ipc_Call
  imports Ipc_Utils
begin

section \<open>libsamsung-ipc: call and generic-response messages\<close>

text \<open>
  \<open>samsung-ipc/call.c\<close> and \<open>samsung-ipc/gen.c\<close> with the packed structures of \<open>include/call.h\<close> and
  \<open>include/gen.h\<close>. A packed structure is written as its bytes; a pointer into a message is the
  offset of the byte it points to, and reading a byte past the end of the message is undefined
  (outer \<open>None\<close>).
\<close>

subsection \<open>Values\<close>

definition IPC_CALL_OUTGOING :: u16 where "IPC_CALL_OUTGOING = 0x0201"
definition IPC_CALL_INCOMING :: u16 where "IPC_CALL_INCOMING = 0x0202"
definition IPC_CALL_RELEASE :: u16 where "IPC_CALL_RELEASE = 0x0203"
definition IPC_CALL_ANSWER :: u16 where "IPC_CALL_ANSWER = 0x0204"
definition IPC_CALL_STATUS :: u16 where "IPC_CALL_STATUS = 0x0205"
definition IPC_CALL_LIST :: u16 where "IPC_CALL_LIST = 0x0206"
definition IPC_CALL_BURST_DTMF :: u16 where "IPC_CALL_BURST_DTMF = 0x0207"
definition IPC_CALL_CONT_DTMF :: u16 where "IPC_CALL_CONT_DTMF = 0x0208"

definition IPC_CALL_TYPE_VOICE :: u8 where "IPC_CALL_TYPE_VOICE = 0x01"
definition IPC_CALL_IDENTITY_DEFAULT :: u8 where "IPC_CALL_IDENTITY_DEFAULT = 0x00"
definition IPC_CALL_IDENTITY_HIDE :: u8 where "IPC_CALL_IDENTITY_HIDE = 0x01"
definition IPC_CALL_IDENTITY_SHOW :: u8 where "IPC_CALL_IDENTITY_SHOW = 0x02"
definition IPC_CALL_PREFIX_NONE :: u8 where "IPC_CALL_PREFIX_NONE = 0x00"
definition IPC_CALL_PREFIX_INTL :: u8 where "IPC_CALL_PREFIX_INTL = 0x11"
definition IPC_CALL_STATUS_RELEASED :: u8 where "IPC_CALL_STATUS_RELEASED = 0x04"
definition IPC_CALL_END_CAUSE_NORMAL :: u8 where "IPC_CALL_END_CAUSE_NORMAL = 0x05"
definition IPC_CALL_END_CAUSE_REJECTED :: u8 where "IPC_CALL_END_CAUSE_REJECTED = 0x2F"
definition IPC_CALL_TERM_MT :: u8 where "IPC_CALL_TERM_MT = 0x02"
definition IPC_CALL_DTMF_STATUS_START :: u8 where "IPC_CALL_DTMF_STATUS_START = 0x01"
definition IPC_CALL_DTMF_STATUS_STOP :: u8 where "IPC_CALL_DTMF_STATUS_STOP = 0x02"

subsection \<open>Outgoing calls\<close>

text \<open>\<open>sizeof(struct ipc_call_outgoing_data)\<close> is 91: five bytes and the number's 86.\<close>

definition ipc_call_outgoing_setup :: "u8 \<Rightarrow> u8 \<Rightarrow> u8 \<Rightarrow> string option \<Rightarrow> u8 list option" where
  "ipc_call_outgoing_setup type identity prefix number = (case number of None \<Rightarrow> None
     | Some cs \<Rightarrow>
        (let number_length = (if length cs > 86 then 86 else length cs) in
         Some ([0, type, identity, of_nat number_length, prefix] @
           take number_length (string_bytes cs) @ replicate (86 - number_length) 0)))"

subsection \<open>The call list\<close>

definition ipc_call_list_count_extract :: "u8 list \<Rightarrow> u8" where
  "ipc_call_list_count_extract bs = (case bs of [] \<Rightarrow> 0 | count # _ \<Rightarrow> count)"

text \<open>The loop of \<open>ipc_call_list_entry_extract\<close>: each round sets \<open>entry\<close> to the current offset and
  advances it by the eight bytes of the entry and its \<open>number_length\<close> (the seventh byte).\<close>

fun call_list_walk :: "u8 list \<Rightarrow> nat \<Rightarrow> nat \<Rightarrow> nat \<Rightarrow> (nat \<times> nat) option" where
  "call_list_walk bs 0 entry offset = Some (entry, offset)"
| "call_list_walk bs (Suc n) entry offset =
     (if offset + 6 < length bs
      then call_list_walk bs n offset (offset + 8 + unat (bs ! (offset + 6)))
      else None)"

definition ipc_call_list_entry_extract :: "u8 list \<Rightarrow> nat \<Rightarrow> nat option option" where
  "ipc_call_list_entry_extract bs index =
     (let count = unat (ipc_call_list_count_extract bs) in
      if count = 0 \<or> index \<ge> count then Some None
      else (case call_list_walk bs (index + 1) 0 1 of None \<Rightarrow> None
        | Some (entry, offset) \<Rightarrow> Some (if offset > length bs then None else Some entry)))"

record ipc_call_list_entry =
  ce_type :: u8
  ce_id :: u8
  ce_term :: u8
  ce_status :: u8
  ce_mpty :: u8
  ce_number_length :: u8

definition call_list_entry_at :: "u8 list \<Rightarrow> nat \<Rightarrow> ipc_call_list_entry" where
  "call_list_entry_at bs e = \<lparr>ce_type = bs ! (e + 1), ce_id = bs ! (e + 2), ce_term = bs ! (e + 3),
     ce_status = bs ! (e + 4), ce_mpty = bs ! (e + 5), ce_number_length = bs ! (e + 6)\<rparr>"

text \<open>\<open>strncpy\<close> of \<open>number_length\<close> bytes into a zeroed buffer: the C string ends at the first NUL.\<close>

definition ipc_call_list_entry_number_extract :: "u8 list \<Rightarrow> nat \<Rightarrow> string" where
  "ipc_call_list_entry_number_extract bs e =
     map byte_char (takeWhile (\<lambda>b. b \<noteq> 0) (take (unat (bs ! (e + 6))) (drop (e + 8) bs)))"

subsection \<open>DTMF\<close>

definition ipc_call_burst_dtmf_size_setup :: "(u8 \<times> u8) list \<Rightarrow> u8 \<Rightarrow> nat" where
  "ipc_call_burst_dtmf_size_setup entries count = 1 + unat count * 2"

definition ipc_call_burst_dtmf_setup :: "(u8 \<times> u8) list \<Rightarrow> u8 \<Rightarrow> u8 list option" where
  "ipc_call_burst_dtmf_setup entries count =
     (if ipc_call_burst_dtmf_size_setup entries count = 0 then None
      else Some (count # concat (map (\<lambda>(status, tone). [status, tone]) (take (unat count) entries))))"

subsection \<open>Generic responses\<close>

definition IPC_GEN_PHONE_RES :: u16 where "IPC_GEN_PHONE_RES = 0x8001"

record ipc_gen_phone_res_data =
  gp_group :: u8
  gp_index :: u8
  gp_type :: u8
  gp_code :: u16

fun gen_phone_res_data :: "u8 list \<Rightarrow> ipc_gen_phone_res_data option" where
  "gen_phone_res_data (g # i # t # lo # hi # _) =
     Some \<lparr>gp_group = g, gp_index = i, gp_type = t, gp_code = le16 lo hi\<rparr>"
| "gen_phone_res_data _ = None"

definition ipc_gen_phone_res_check :: "ipc_gen_phone_res_data \<Rightarrow> int" where
  "ipc_gen_phone_res_check d = (if gp_code d AND 0x8000 \<noteq> 0 then 0 else -1)"

lemma gen_phone_res_data_Some: "5 \<le> length bs \<Longrightarrow> \<exists>d. gen_phone_res_data bs = Some d"
  by (cases bs rule: gen_phone_res_data.cases) auto

lemma ipc_gen_phone_res_check_range: "ipc_gen_phone_res_check d = 0 \<or> ipc_gen_phone_res_check d = -1"
  by (simp add: ipc_gen_phone_res_check_def)

subsection \<open>What the modem sends: an encoder for call lists\<close>

text \<open>An entry on the wire, with the bytes of its number; \<open>unknown1\<close> and \<open>unknown2\<close> are free.\<close>

definition encode_entry :: "ipc_call_list_entry \<times> u8 list \<Rightarrow> u8 list" where
  "encode_entry en = (case en of (e, number) \<Rightarrow>
     [0, ce_type e, ce_id e, ce_term e, ce_status e, ce_mpty e, of_nat (length number), 0] @ number)"

definition encode_call_list :: "(ipc_call_list_entry \<times> u8 list) list \<Rightarrow> u8 list" where
  "encode_call_list es = of_nat (length es) # concat (map encode_entry es)"

lemma length_encode_entry: "length (encode_entry en) = 8 + length (snd en)"
  by (simp add: encode_entry_def split_beta)

lemma unat_of_nat_u8 [simp]: "n < 256 \<Longrightarrow> unat (of_nat n :: u8) = n"
  by (simp add: unat_of_nat take_bit_nat_eq_self)

lemma call_list_walk_encoded:
  assumes "i < length es" and "\<forall>en \<in> set es. length (snd en) < 256"
  shows "call_list_walk (pre @ concat (map encode_entry es)) (Suc i) e (length pre) =
    Some (length pre + length (concat (map encode_entry (take i es))),
      length pre + length (concat (map encode_entry (take (Suc i) es))))"
  using assms
proof (induction es arbitrary: i pre e)
  case Nil
  then show ?case by simp
next
  case (Cons en es)
  have number: "unat ((pre @ encode_entry en @ concat (map encode_entry es)) ! (length pre + 6)) =
      length (snd en)"
    using Cons.prems(2) by (simp add: nth_append encode_entry_def split_beta)
  show ?case
  proof (cases i)
    case 0
    then show ?thesis
      using number by (simp add: length_encode_entry)
  next
    case (Suc j)
    have "call_list_walk ((pre @ encode_entry en) @ concat (map encode_entry es)) (Suc j) (length pre)
        (length (pre @ encode_entry en)) =
      Some (length (pre @ encode_entry en) + length (concat (map encode_entry (take j es))),
        length (pre @ encode_entry en) + length (concat (map encode_entry (take (Suc j) es))))"
      using Cons.prems Suc by (intro Cons.IH [of j "pre @ encode_entry en" "length pre"]) simp_all
    moreover have "call_list_walk (pre @ concat (map encode_entry (en # es))) (Suc (Suc j)) e (length pre) =
      call_list_walk ((pre @ encode_entry en) @ concat (map encode_entry es)) (Suc j) (length pre)
        (length (pre @ encode_entry en))"
      using number
      by (subst call_list_walk.simps(2)) (simp add: length_encode_entry add.assoc del: call_list_walk.simps)
    ultimately show ?thesis
      using Suc by (simp add: length_encode_entry add.assoc del: call_list_walk.simps)
  qed
qed

text \<open>The bytes of entry \<open>i\<close> are where the walk ends.\<close>

lemma nth_concat_offset:
  assumes "i < length xss" and "k < length (xss ! i)"
  shows "concat xss ! (length (concat (take i xss)) + k) = xss ! i ! k"
proof -
  have "concat xss = concat (take i xss) @ (xss ! i) @ concat (drop (Suc i) xss)"
    using assms(1) by (metis concat.simps(2) concat_append id_take_nth_drop)
  then show ?thesis
    using assms(2) by (simp add: nth_append)
qed

lemma drop_concat_offset:
  assumes "i < length xss"
  shows "drop (length (concat (take i xss))) (concat xss) = (xss ! i) @ concat (drop (Suc i) xss)"
proof -
  have "concat xss = concat (take i xss) @ (xss ! i) @ concat (drop (Suc i) xss)"
    using assms by (metis concat.simps(2) concat_append id_take_nth_drop)
  then show ?thesis
    by (metis append_eq_conv_conj)
qed

lemma length_concat_take_le: "length (concat (take i xss)) \<le> length (concat xss)"
  by (metis append_take_drop_id concat_append le_add1 length_append)

lemma drop_encoded_entry:
  assumes "i < length es"
  shows "drop (Suc (length (concat (map encode_entry (take i es))))) (encode_call_list es) =
    encode_entry (es ! i) @ concat (map encode_entry (drop (Suc i) es))"
  using drop_concat_offset [of i "map encode_entry es"] assms
  by (simp add: encode_call_list_def take_map drop_map)

lemma nth_from_drop: "n \<le> length xs \<Longrightarrow> xs ! (n + k) = drop n xs ! k"
  by simp

lemma entry_extract_encoded:
  assumes "i < length es" and "length es < 256" and "\<forall>en \<in> set es. length (snd en) < 256"
  shows "ipc_call_list_entry_extract (encode_call_list es) i =
    Some (Some (Suc (length (concat (map encode_entry (take i es))))))"
proof -
  have "call_list_walk (encode_call_list es) (Suc i) 0 1 =
    Some (Suc (length (concat (map encode_entry (take i es)))),
      Suc (length (concat (map encode_entry (take (Suc i) es)))))"
    using call_list_walk_encoded [OF assms(1,3), of "[of_nat (length es)]" 0]
    by (simp add: encode_call_list_def del: call_list_walk.simps take_Suc_conv_app_nth)
  moreover have "Suc (length (concat (map encode_entry (take (Suc i) es)))) \<le> length (encode_call_list es)"
    using length_concat_take_le [of "Suc i" "map encode_entry es"]
    by (simp add: encode_call_list_def take_map)
  moreover have "unat (ipc_call_list_count_extract (encode_call_list es)) = length es"
    using assms(2) by (simp add: encode_call_list_def ipc_call_list_count_extract_def)
  ultimately show ?thesis
    using assms(1) unfolding ipc_call_list_entry_extract_def
    by (auto simp del: call_list_walk.simps)
qed

lemma entry_fields_encoded:
  assumes "drop p bs = encode_entry en @ rest" and "length (snd en) < 256"
  shows "call_list_entry_at bs p = (fst en)\<lparr>ce_number_length := of_nat (length (snd en))\<rparr>"
    and "unat (bs ! (p + 6)) = length (snd en)"
    and "take (length (snd en)) (drop (p + 8) bs) = snd en"
proof -
  have "p \<le> length bs"
    using assms(1) by (metis append_is_Nil_conv drop_all encode_entry_def length_encode_entry
      list.size(3) nat_le_linear not_add_less1 zero_less_numeral linorder_not_less add_is_0 zero_neq_numeral)
  note at = nth_from_drop [OF this, unfolded assms(1)]
  show "call_list_entry_at bs p = (fst en)\<lparr>ce_number_length := of_nat (length (snd en))\<rparr>"
    using at [of 1] at [of 2]
    by (cases "fst en") (simp add: call_list_entry_at_def at encode_entry_def split_beta nth_append)
  show "unat (bs ! (p + 6)) = length (snd en)"
    using assms(2) by (simp add: at encode_entry_def split_beta nth_append)
  have "drop (p + 8) bs = drop 8 (drop p bs)"
    by (simp add: add.commute)
  then show "take (length (snd en)) (drop (p + 8) bs) = snd en"
    by (simp add: assms(1) encode_entry_def split_beta)
qed

text \<open>A call list sent by the modem is read back entry by entry.\<close>

lemma call_list_roundtrip:
  assumes "i < length es" and "length es < 256"
    and "\<forall>en \<in> set es. length (snd en) < 256 \<and> 0 \<notin> set (snd en)"
  shows "unat (ipc_call_list_count_extract (encode_call_list es)) = length es \<and>
    (\<exists>p. ipc_call_list_entry_extract (encode_call_list es) i = Some (Some p) \<and>
      call_list_entry_at (encode_call_list es) p =
        (fst (es ! i))\<lparr>ce_number_length := of_nat (length (snd (es ! i)))\<rparr> \<and>
      ipc_call_list_entry_number_extract (encode_call_list es) p = map byte_char (snd (es ! i)))"
proof -
  have number: "length (snd (es ! i)) < 256" "0 \<notin> set (snd (es ! i))"
    using assms(1,3) by auto
  have whole: "map byte_char (takeWhile (\<lambda>b. b \<noteq> 0) (snd (es ! i))) = map byte_char (snd (es ! i))"
    by (simp only: takeWhile_nonzero [OF number(2)])
  have pointer: "ipc_call_list_entry_extract (encode_call_list es) i =
    Some (Some (Suc (length (concat (map encode_entry (take i es))))))"
    using assms by (intro entry_extract_encoded) auto
  note fields = entry_fields_encoded [OF drop_encoded_entry [OF assms(1)] number(1)]
  have "unat (ipc_call_list_count_extract (encode_call_list es)) = length es"
    using assms(2) by (simp add: encode_call_list_def ipc_call_list_count_extract_def)
  with pointer fields whole show ?thesis
    unfolding ipc_call_list_entry_number_extract_def
    by (intro conjI exI [of _ "Suc (length (concat (map encode_entry (take i es))))"])
      (simp_all only:)
qed

subsection \<open>Properties\<close>

text \<open>The size check of \<open>ipc_call_list_entry_extract\<close> comes too late: a message that announces
  at least one call but is too short to hold the number length of the first entry is read past its
  end, for every index that the announced count admits.\<close>

theorem call_list_entry_reads_past_end:
  assumes "length bs < 8" and "index < unat (ipc_call_list_count_extract bs)"
  shows "ipc_call_list_entry_extract bs index = None"
  using assms by (simp add: ipc_call_list_entry_extract_def)

theorem call_list_entry_reads_past_end_witness: "ipc_call_list_entry_extract [1] 0 = None"
  using call_list_entry_reads_past_end [of "[1]" 0] by (simp add: ipc_call_list_count_extract_def)

text \<open>\<open>ipc_call_outgoing_setup\<close> fills exactly the 91 bytes of \<open>struct ipc_call_outgoing_data\<close> for a
  number of any length: the number is truncated to the 86 bytes of its field, the length byte says
  how many of them are used and never wraps, the used bytes are the start of the number and the rest
  is zero.\<close>

lemma call_outgoing_layout:
  assumes "ipc_call_outgoing_setup type identity prefix (Some number) = Some bs"
  shows "length bs = 91 \<and> unat (bs ! 3) = min 86 (length number) \<and>
    take (unat (bs ! 3)) (drop 5 bs) = take 86 (string_bytes number) \<and>
    drop (5 + unat (bs ! 3)) bs = replicate (86 - unat (bs ! 3)) 0"
  using assms by (auto simp: ipc_call_outgoing_setup_def Let_def drop_Cons' split: if_splits)

end
