(* ===== verification/Ipc_Sms.thy ===== *)
theory Ipc_Sms
  imports Ipc_Utils
begin

section \<open>libsamsung-ipc: SMS messages\<close>

text \<open>
  \<open>samsung-ipc/sms.c\<close> with the packed structures of \<open>include/sms.h\<close>. The encoders for sending and
  saving a message put the service centre and the PDU, each behind a length byte, after a fixed
  header; the decoders return the payload that follows the header of an incoming message or of a
  service-centre address. A pointer into a message is its offset, a \<open>NULL\<close> result is \<open>None\<close>, and a
  decoder that reads past the message is undefined. The contract of a decoder is the locale
  \<open>payload_message\<close>, which theory \<open>Ipc_Codecs\<close> also interprets.
\<close>

definition IPC_SMS_SEND_MSG :: u16 where "IPC_SMS_SEND_MSG = 0x0401"
definition IPC_SMS_INCOMING_MSG :: u16 where "IPC_SMS_INCOMING_MSG = 0x0402"
definition IPC_SMS_SAVE_MSG :: u16 where "IPC_SMS_SAVE_MSG = 0x0404"
definition IPC_SMS_DEL_MSG :: u16 where "IPC_SMS_DEL_MSG = 0x0405"
definition IPC_SMS_DELIVER_REPORT :: u16 where "IPC_SMS_DELIVER_REPORT = 0x0406"
definition IPC_SMS_DEVICE_READY :: u16 where "IPC_SMS_DEVICE_READY = 0x0407"
definition IPC_SMS_SVC_CENTER_ADDR :: u16 where "IPC_SMS_SVC_CENTER_ADDR = 0x040A"

definition IPC_SMS_TYPE_POINT_TO_POINT :: u8 where "IPC_SMS_TYPE_POINT_TO_POINT = 0x01"
definition IPC_SMS_TYPE_STATUS_REPORT :: u8 where "IPC_SMS_TYPE_STATUS_REPORT = 0x02"
definition IPC_SMS_TYPE_OUTGOING :: u8 where "IPC_SMS_TYPE_OUTGOING = 0x02"
definition IPC_SMS_MSG_TYPE_MULTIPLE :: u8 where "IPC_SMS_MSG_TYPE_MULTIPLE = 0x01"
definition IPC_SMS_MSG_TYPE_SINGLE :: u8 where "IPC_SMS_MSG_TYPE_SINGLE = 0x02"
definition IPC_SMS_ACK_NO_ERROR :: u16 where "IPC_SMS_ACK_NO_ERROR = 0x0000"
definition IPC_SMS_ACK_PDA_FULL_ERROR :: u16 where "IPC_SMS_ACK_PDA_FULL_ERROR = 0x8080"
definition IPC_SMS_ACK_MALFORMED_REQ_ERROR :: u16 where "IPC_SMS_ACK_MALFORMED_REQ_ERROR = 0x8061"
definition IPC_SMS_ACK_UNSPEC_ERROR :: u16 where "IPC_SMS_ACK_UNSPEC_ERROR = 0x806F"
definition IPC_SMS_STATUS_REC_UNREAD :: u8 where "IPC_SMS_STATUS_REC_UNREAD = 0x01"
definition IPC_SMS_STATUS_REC_READ :: u8 where "IPC_SMS_STATUS_REC_READ = 0x02"
definition IPC_SMS_STATUS_STO_UNSENT :: u8 where "IPC_SMS_STATUS_STO_UNSENT = 0x03"
definition IPC_SMS_STATUS_STO_SENT :: u8 where "IPC_SMS_STATUS_STO_SENT = 0x04"

subsection \<open>Sending and saving\<close>

record ipc_sms_send_msg_request_header =
  ss_type :: u8
  ss_msg_type :: u8
  ss_unknown :: u8
  ss_length :: u8

record ipc_sms_save_msg_request_header =
  sv_magic :: u8
  sv_index :: u16
  sv_status :: u8
  sv_length :: u8

definition send_header_bytes :: "ipc_sms_send_msg_request_header \<Rightarrow> u8 list" where
  "send_header_bytes h = [ss_type h, ss_msg_type h, ss_unknown h, ss_length h]"

definition save_header_bytes :: "ipc_sms_save_msg_request_header \<Rightarrow> u8 list" where
  "save_header_bytes h = [sv_magic h] @ bytes16 (sv_index h) @ [sv_status h, sv_length h]"

text \<open>The first argument of the size functions is only compared with \<open>NULL\<close>; the callers pass the
  address of a local variable. A \<open>NULL\<close> service centre and an empty one are both the empty list.\<close>

definition ipc_sms_send_msg_size_setup :: "u8 list \<Rightarrow> u8 list \<Rightarrow> nat" where
  "ipc_sms_send_msg_size_setup smsc pdu =
     (if smsc = [] \<or> pdu = [] then 0 else 4 + 1 + length smsc + length pdu)"

definition ipc_sms_send_msg_setup ::
  "ipc_sms_send_msg_request_header \<Rightarrow> u8 list \<Rightarrow> u8 list \<Rightarrow> u8 list option" where
  "ipc_sms_send_msg_setup header smsc pdu =
     (if smsc = [] \<or> pdu = [] then None
      else if ipc_sms_send_msg_size_setup smsc pdu = 0 then None
      else Some (send_header_bytes (header\<lparr>ss_length := of_nat (1 + length smsc + length pdu)\<rparr>) @
        [of_nat (length smsc)] @ smsc @ pdu))"

definition ipc_sms_save_msg_size_setup :: "u8 list \<Rightarrow> u8 list \<Rightarrow> nat" where
  "ipc_sms_save_msg_size_setup smsc pdu = (if pdu = [] then 0 else 5 + 1 + length smsc + length pdu)"

definition ipc_sms_save_msg_setup ::
  "ipc_sms_save_msg_request_header \<Rightarrow> u8 list \<Rightarrow> u8 list \<Rightarrow> u8 list option" where
  "ipc_sms_save_msg_setup header smsc pdu =
     (if pdu = [] then None
      else if ipc_sms_save_msg_size_setup smsc pdu = 0 then None
      else Some (save_header_bytes (header\<lparr>sv_magic := 2, sv_index := 12 - 1,
          sv_length := of_nat (1 + length smsc + length pdu)\<rparr>) @
        [of_nat (length smsc)] @ smsc @ pdu))"

definition ipc_sms_del_msg_setup :: "u16 \<Rightarrow> u8 list" where
  "ipc_sms_del_msg_setup index = [2] @ bytes16 index"

subsection \<open>Incoming messages and the service-centre address\<close>

text \<open>\<open>sizeof(struct ipc_sms_incoming_msg_header)\<close> is 6 and its last byte is the length. The size
  extraction has no guard, so it reads the length byte of a shorter message past its end.\<close>

definition ipc_sms_incoming_msg_pdu_size_extract :: "u8 list \<Rightarrow> nat option" where
  "ipc_sms_incoming_msg_pdu_size_extract bs =
     (if length bs < 6 then None
      else Some (if unat (bs ! 5) = 0 \<or> unat (bs ! 5) > length bs - 6 then 0 else unat (bs ! 5)))"

definition ipc_sms_incoming_msg_pdu_extract :: "u8 list \<Rightarrow> nat option" where
  "ipc_sms_incoming_msg_pdu_extract bs =
     (if length bs < 6 then None
      else if unat (bs ! 5) = 0 \<or> unat (bs ! 5) > length bs - 6 then None
      else Some 6)"

definition ipc_sms_svc_center_addr_smsc_size_extract :: "u8 list \<Rightarrow> nat" where
  "ipc_sms_svc_center_addr_smsc_size_extract bs =
     (if length bs < 1 then 0
      else if unat (bs ! 0) = 0 \<or> unat (bs ! 0) > length bs - 1 then 0
      else unat (bs ! 0))"

definition ipc_sms_svc_center_addr_smsc_extract :: "u8 list \<Rightarrow> nat option" where
  "ipc_sms_svc_center_addr_smsc_extract bs =
     (if length bs < 1 then None
      else if unat (bs ! 0) = 0 \<or> unat (bs ! 0) > length bs - 1 then None
      else Some 1)"

subsection \<open>The contract of the payload decoders\<close>

text \<open>
  A decoder pair for a header of \<open>hsize\<close> bytes whose last byte is the payload length: the size
  function and the pointer function, and the laws that a message holding the announced payload is
  decoded and that a decoded message has that shape.
\<close>

locale payload_message =
  fixes hsize :: nat
    and size_of_payload :: "u8 list \<Rightarrow> nat option"
    and payload_at :: "u8 list \<Rightarrow> nat option"
  assumes hsize_pos: "0 < hsize"
    and accepts: "hsize \<le> length bs \<Longrightarrow> unat (bs ! (hsize - 1)) \<noteq> 0 \<Longrightarrow>
      unat (bs ! (hsize - 1)) \<le> length bs - hsize \<Longrightarrow>
      size_of_payload bs = Some (unat (bs ! (hsize - 1))) \<and> payload_at bs = Some hsize"
    and rejects: "length bs < hsize \<or> unat (bs ! (hsize - 1)) = 0 \<or>
      unat (bs ! (hsize - 1)) > length bs - hsize \<Longrightarrow> payload_at bs = None"
begin

lemma payload_in_bounds:
  assumes "payload_at bs = Some p"
  shows "\<exists>n. size_of_payload bs = Some n \<and> 0 < n \<and> p + n \<le> length bs"
proof -
  have "\<not> (length bs < hsize \<or> unat (bs ! (hsize - 1)) = 0 \<or> unat (bs ! (hsize - 1)) > length bs - hsize)"
    using rejects assms by force
  then show ?thesis
    using accepts [of bs] assms by auto
qed

lemma payload_decoded:
  assumes "length h = hsize - 1" and "payload \<noteq> []" and "length payload < 256"
  shows "\<exists>p n. payload_at (h @ of_nat (length payload) # payload @ rest) = Some p \<and>
    size_of_payload (h @ of_nat (length payload) # payload @ rest) = Some n \<and>
    take n (drop p (h @ of_nat (length payload) # payload @ rest)) = payload"
proof -
  have len: "unat (of_nat (length payload) :: u8) = length payload"
    using assms(3) by (simp add: unat_of_nat take_bit_nat_eq_self)
  have "(h @ of_nat (length payload) # payload @ rest) ! (hsize - 1) = of_nat (length payload)"
    using assms(1) by (metis nth_append_length)
  with len have "size_of_payload (h @ of_nat (length payload) # payload @ rest) = Some (length payload) \<and>
      payload_at (h @ of_nat (length payload) # payload @ rest) = Some hsize"
    using accepts [of "h @ of_nat (length payload) # payload @ rest"] assms hsize_pos by auto
  moreover have "take (length payload) (drop hsize (h @ of_nat (length payload) # payload @ rest)) = payload"
    using assms(1) hsize_pos by (cases hsize) auto
  ultimately show ?thesis
    by blast
qed

end

interpretation incoming: payload_message 6 ipc_sms_incoming_msg_pdu_size_extract
    ipc_sms_incoming_msg_pdu_extract
  by unfold_locales
    (auto simp: ipc_sms_incoming_msg_pdu_size_extract_def ipc_sms_incoming_msg_pdu_extract_def)

interpretation svc_center: payload_message 1 "\<lambda>bs. Some (ipc_sms_svc_center_addr_smsc_size_extract bs)"
    ipc_sms_svc_center_addr_smsc_extract
  by unfold_locales
    (auto simp: ipc_sms_svc_center_addr_smsc_size_extract_def ipc_sms_svc_center_addr_smsc_extract_def)

subsection \<open>Properties\<close>

text \<open>A PDU delivered by the modem is recovered: whatever the five header bytes before the length,
  a message carrying a non-empty PDU of at most 255 bytes behind its length byte is decoded by
  \<open>ipc_sms_incoming_msg_pdu_size_extract\<close> and \<open>ipc_sms_incoming_msg_pdu_extract\<close> to exactly that PDU,
  also when bytes follow it.\<close>

theorem incoming_pdu_roundtrip:
  assumes "length h = 5" and "pdu \<noteq> []" and "length pdu < 256"
  shows "\<exists>p n. ipc_sms_incoming_msg_pdu_extract (h @ of_nat (length pdu) # pdu @ rest) = Some p \<and>
    ipc_sms_incoming_msg_pdu_size_extract (h @ of_nat (length pdu) # pdu @ rest) = Some n \<and>
    take n (drop p (h @ of_nat (length pdu) # pdu @ rest)) = pdu"
  using incoming.payload_decoded [of h pdu rest] assms by simp

theorem incoming_pdu_roundtrip_witness:
  "\<exists>p n. ipc_sms_incoming_msg_pdu_extract [2, 1, 0, 0, 9, 2, 0x07, 0x91, 5] = Some p \<and>
    ipc_sms_incoming_msg_pdu_size_extract [2, 1, 0, 0, 9, 2, 0x07, 0x91, 5] = Some n \<and>
    take n (drop p [2, 1, 0, 0, 9, 2, 0x07, 0x91, 5]) = [0x07, 0x91 :: u8]"
  using incoming_pdu_roundtrip [of "[2, 1, 0, 0, 9]" "[0x07, 0x91]" "[5]"] by simp

text \<open>\<open>ipc_sms_send_msg_setup\<close> writes the bytes that \<open>ipc_sms_send_msg_size_setup\<close> announces, with
  the service centre behind its length byte and then the PDU; its header says how many bytes follow
  it exactly when service centre and PDU have at most 254 bytes together, since the length field is
  one byte and the sum is truncated to it.\<close>

theorem sms_send_framing:
  assumes "ipc_sms_send_msg_setup header smsc pdu = Some bs"
  shows "length bs = ipc_sms_send_msg_size_setup smsc pdu \<and>
    drop 5 bs = smsc @ pdu \<and>
    (unat (bs ! 3) = length (drop 4 bs) \<longleftrightarrow> length smsc + length pdu \<le> 254)"
proof -
  have bs: "bs = [ss_type header, ss_msg_type header, ss_unknown header,
      of_nat (Suc (length smsc + length pdu)), of_nat (length smsc)] @ smsc @ pdu"
    and ne: "smsc \<noteq> []" "pdu \<noteq> []"
    using assms by (auto simp: ipc_sms_send_msg_setup_def send_header_bytes_def split: if_splits)
  have "unat (of_nat (Suc n) :: u8) = Suc n \<longleftrightarrow> n \<le> 254" for n
  proof
    show "n \<le> 254 \<Longrightarrow> unat (of_nat (Suc n) :: u8) = Suc n"
      by (simp only: unat_of_nat) (simp add: take_bit_nat_eq_self)
    show "unat (of_nat (Suc n) :: u8) = Suc n \<Longrightarrow> n \<le> 254"
      using unat_u8_less [of "of_nat (Suc n)"] by linarith
  qed
  with bs ne show ?thesis
    by (simp add: ipc_sms_send_msg_size_setup_def del: of_nat_Suc)
qed

theorem sms_send_framing_witness:
  "unat (the (ipc_sms_send_msg_setup \<lparr>ss_type = 2, ss_msg_type = 2, ss_unknown = 0, ss_length = 0\<rparr>
      [0x91] [1, 0]) ! 3) = 4"
  using sms_send_framing [of "\<lparr>ss_type = 2, ss_msg_type = 2, ss_unknown = 0, ss_length = 0\<rparr>" "[0x91]" "[1, 0]"
      "the (ipc_sms_send_msg_setup \<lparr>ss_type = 2, ss_msg_type = 2, ss_unknown = 0, ss_length = 0\<rparr> [0x91] [1, 0])"]
  by (simp add: ipc_sms_send_msg_setup_def ipc_sms_send_msg_size_setup_def send_header_bytes_def)

end
