(* ===== verification/Ipc_Codecs.thy ===== *)
theory Ipc_Codecs
  imports Ipc_Sms
begin

section \<open>libsamsung-ipc: security, network, GPRS, miscellaneous and service-mode messages\<close>

text \<open>
  \<open>samsung-ipc/sec.c\<close>, \<open>net.c\<close>, \<open>gprs.c\<close>, \<open>misc.c\<close> and \<open>svc.c\<close> with the packed structures of their
  headers. A setup function that fills a structure is the list of the structure's bytes (its
  structure argument is the address of a local variable in every caller, so the \<open>-1\<close> of a \<open>NULL\<close>
  structure is left out unless another argument can cause it). The contract of the two
  fixed-size entry lists (PLMN list, display screen) is the locale \<open>entry_list\<close>.
\<close>

subsection \<open>String fields\<close>

text \<open>\<open>strncpy(field, s, sizeof(field))\<close> into a zeroed field of \<open>n\<close> bytes.\<close>

definition string_field :: "nat \<Rightarrow> string \<Rightarrow> u8 list" where
  "string_field n s = take n (string_bytes s) @ replicate (n - length s) 0"

lemma length_string_field [simp]: "length (string_field n s) = n"
  by (simp add: string_field_def)

lemma take_string_field: "take (min n (length s)) (string_field n s) = take n (string_bytes s)"
  by (simp add: string_field_def min_def)

text \<open>The length byte the code computes next to such a field: \<open>strlen\<close> cut to the field's size.\<close>

definition field_length :: "nat \<Rightarrow> string \<Rightarrow> u8" where
  "field_length n s = of_nat (if length s > n then n else length s)"

lemma unat_field_length: "n < 256 \<Longrightarrow> unat (field_length n s) = min n (length s)"
  by (simp add: field_length_def unat_of_nat take_bit_nat_eq_self min_def)

subsection \<open>sec.c\<close>

definition IPC_SEC_PIN_STATUS :: u16 where "IPC_SEC_PIN_STATUS = 0x0501"
definition IPC_SEC_PHONE_LOCK :: u16 where "IPC_SEC_PHONE_LOCK = 0x0502"
definition IPC_SEC_CHANGE_LOCKING_PW :: u16 where "IPC_SEC_CHANGE_LOCKING_PW = 0x0503"
definition IPC_SEC_RSIM_ACCESS :: u16 where "IPC_SEC_RSIM_ACCESS = 0x0505"
definition IPC_SEC_SIM_ICC_TYPE :: u16 where "IPC_SEC_SIM_ICC_TYPE = 0x0507"
definition IPC_SEC_LOCK_INFOMATION :: u16 where "IPC_SEC_LOCK_INFOMATION = 0x0508"

definition ipc_sec_pin_status_setup :: "u8 \<Rightarrow> string option \<Rightarrow> string option \<Rightarrow> u8 list" where
  "ipc_sec_pin_status_setup type pin1 pin2 =
     [type,
      (case pin1 of None \<Rightarrow> 0 | Some p \<Rightarrow> field_length 8 p),
      (case pin2 of None \<Rightarrow> 0 | Some p \<Rightarrow> field_length 8 p)] @
     (case pin1 of None \<Rightarrow> replicate 8 0 | Some p \<Rightarrow> string_field 8 p) @
     (case pin2 of None \<Rightarrow> replicate 8 0 | Some p \<Rightarrow> string_field 8 p)"

definition ipc_sec_phone_lock_request_set_setup :: "u8 \<Rightarrow> u8 \<Rightarrow> string option \<Rightarrow> u8 list" where
  "ipc_sec_phone_lock_request_set_setup facility_type active password =
     [facility_type, active, (case password of None \<Rightarrow> 0 | Some p \<Rightarrow> field_length 39 p)] @
     (case password of None \<Rightarrow> replicate 39 0 | Some p \<Rightarrow> string_field 39 p)"

definition ipc_sec_change_locking_pw_setup :: "u8 \<Rightarrow> string option \<Rightarrow> string option \<Rightarrow> u8 list" where
  "ipc_sec_change_locking_pw_setup facility_type password_old password_new =
     [facility_type,
      (case password_old of None \<Rightarrow> 0 | Some p \<Rightarrow> field_length 39 p),
      (case password_new of None \<Rightarrow> 0 | Some p \<Rightarrow> field_length 39 p)] @
     (case password_old of None \<Rightarrow> replicate 39 0 | Some p \<Rightarrow> string_field 39 p) @
     (case password_new of None \<Rightarrow> replicate 39 0 | Some p \<Rightarrow> string_field 39 p)"

record ipc_sec_rsim_access_request_header =
  rq_command :: u8
  rq_file_id :: u16
  rq_p1 :: u8
  rq_p2 :: u8
  rq_p3 :: u8

definition rsim_header_bytes :: "ipc_sec_rsim_access_request_header \<Rightarrow> u8 list" where
  "rsim_header_bytes h = [rq_command h] @ bytes16 (rq_file_id h) @ [rq_p1 h, rq_p2 h, rq_p3 h]"

definition ipc_sec_rsim_access_size_setup :: "u8 list \<Rightarrow> nat" where
  "ipc_sec_rsim_access_size_setup sim_io_data = 6 + length sim_io_data"

definition ipc_sec_rsim_access_setup ::
  "ipc_sec_rsim_access_request_header \<Rightarrow> u8 list \<Rightarrow> u8 list option" where
  "ipc_sec_rsim_access_setup header sim_io_data =
     (if ipc_sec_rsim_access_size_setup sim_io_data = 0 then None
      else Some (rsim_header_bytes header @ sim_io_data))"

definition ipc_sec_rsim_access_size_extract :: "u8 list \<Rightarrow> nat" where
  "ipc_sec_rsim_access_size_extract bs =
     (if length bs < 3 then 0
      else if unat (bs ! 2) = 0 \<or> unat (bs ! 2) > length bs - 3 then 0
      else unat (bs ! 2))"

definition ipc_sec_rsim_access_extract :: "u8 list \<Rightarrow> nat option" where
  "ipc_sec_rsim_access_extract bs =
     (if length bs < 3 then None
      else if unat (bs ! 2) = 0 \<or> unat (bs ! 2) > length bs - 3 then None
      else Some 3)"

definition ipc_sec_lock_infomation_setup :: "u8 \<Rightarrow> u8 list" where
  "ipc_sec_lock_infomation_setup type = [0x01, type]"

interpretation rsim: payload_message 3 "\<lambda>bs. Some (ipc_sec_rsim_access_size_extract bs)"
    ipc_sec_rsim_access_extract
  by unfold_locales
    (auto simp: ipc_sec_rsim_access_size_extract_def ipc_sec_rsim_access_extract_def)

subsection \<open>net.c\<close>

definition IPC_NET_PLMN_SEL :: u16 where "IPC_NET_PLMN_SEL = 0x0802"
definition IPC_NET_SERVING_NETWORK :: u16 where "IPC_NET_SERVING_NETWORK = 0x0803"
definition IPC_NET_PLMN_LIST :: u16 where "IPC_NET_PLMN_LIST = 0x0804"
definition IPC_NET_REGIST :: u16 where "IPC_NET_REGIST = 0x0805"
definition IPC_NET_MODE_SEL :: u16 where "IPC_NET_MODE_SEL = 0x080A"
definition IPC_NET_PLMN_SEL_AUTO :: u8 where "IPC_NET_PLMN_SEL_AUTO = 0x02"
definition IPC_NET_PLMN_SEL_MANUAL :: u8 where "IPC_NET_PLMN_SEL_MANUAL = 0x03"
definition IPC_NET_ACCESS_TECHNOLOGY_UNKNOWN :: u8 where "IPC_NET_ACCESS_TECHNOLOGY_UNKNOWN = 0xFF"

text \<open>\<open>strlen\<close> of a \<open>NULL\<close> PLMN is undefined in the manual case; a short PLMN is filled with \<open>#\<close>.\<close>

definition ipc_net_plmn_sel_setup :: "u8 \<Rightarrow> string option \<Rightarrow> u8 \<Rightarrow> u8 list option" where
  "ipc_net_plmn_sel_setup mode_sel plmn act =
     (if mode_sel = IPC_NET_PLMN_SEL_AUTO
      then Some ([mode_sel] @ replicate 6 0 @ [IPC_NET_ACCESS_TECHNOLOGY_UNKNOWN])
      else (case plmn of None \<Rightarrow> None
        | Some p \<Rightarrow>
           let plmn_length = (if length p > 6 then 6 else length p) in
           Some ([mode_sel] @ take plmn_length (string_bytes p) @
             replicate (6 - plmn_length) (char_byte CHR ''#'') @ [act])))"

definition ipc_net_regist_setup :: "u8 \<Rightarrow> u8 list" where
  "ipc_net_regist_setup service = [IPC_NET_ACCESS_TECHNOLOGY_UNKNOWN, service]"

definition ipc_net_plmn_list_count_extract :: "u8 list \<Rightarrow> u8" where
  "ipc_net_plmn_list_count_extract bs = (case bs of [] \<Rightarrow> 0 | count # _ \<Rightarrow> count)"

text \<open>The loop over entries of \<open>esize\<close> bytes: each round sets \<open>entry\<close> and advances the offset. Its
  counter is an \<open>unsigned char\<close>; the index is below the count, so \<open>index + 1\<close> does not exceed 255.\<close>

fun entry_walk :: "nat \<Rightarrow> nat \<Rightarrow> nat \<Rightarrow> nat \<Rightarrow> nat \<times> nat" where
  "entry_walk esize 0 entry offset = (entry, offset)"
| "entry_walk esize (Suc n) entry offset = entry_walk esize n offset (offset + esize)"

lemma entry_walk_Suc: "entry_walk esize (Suc n) entry offset = (offset + n * esize, offset + Suc n * esize)"
  by (induction n arbitrary: entry offset) auto

definition ipc_net_plmn_list_entry_extract :: "u8 list \<Rightarrow> nat \<Rightarrow> nat option" where
  "ipc_net_plmn_list_entry_extract bs index =
     (let count = unat (ipc_net_plmn_list_count_extract bs) in
      if count = 0 \<or> index \<ge> count then None
      else (case entry_walk 10 (index + 1) 0 1 of (entry, offset) \<Rightarrow>
        if offset > length bs then None else Some entry))"

record ipc_net_plmn_list_entry =
  pl_status :: u8
  pl_plmn :: "u8 list"
  pl_type :: u8

definition plmn_list_entry_at :: "u8 list \<Rightarrow> nat \<Rightarrow> ipc_net_plmn_list_entry" where
  "plmn_list_entry_at bs e = \<lparr>pl_status = bs ! e, pl_plmn = take 6 (drop (e + 1) bs), pl_type = bs ! (e + 7)\<rparr>"

subsection \<open>gprs.c\<close>

definition IPC_GPRS_DEFINE_PDP_CONTEXT :: u16 where "IPC_GPRS_DEFINE_PDP_CONTEXT = 0x0D01"
definition IPC_GPRS_PS :: u16 where "IPC_GPRS_PS = 0x0D03"
definition IPC_GPRS_PDP_CONTEXT :: u16 where "IPC_GPRS_PDP_CONTEXT = 0x0D04"
definition IPC_GPRS_IP_CONFIGURATION :: u16 where "IPC_GPRS_IP_CONFIGURATION = 0x0D09"
definition IPC_GPRS_HSDPA_STATUS :: u16 where "IPC_GPRS_HSDPA_STATUS = 0x0D0C"
definition IPC_GPRS_CALL_STATUS :: u16 where "IPC_GPRS_CALL_STATUS = 0x0D10"
definition IPC_GPRS_PORT_LIST :: u16 where "IPC_GPRS_PORT_LIST = 0x0D11"
definition IPC_GPRS_STATUS_NOT_ENABLED :: u8 where "IPC_GPRS_STATUS_NOT_ENABLED = 0x00"
definition IPC_GPRS_STATUS_ENABLED :: u8 where "IPC_GPRS_STATUS_ENABLED = 0x01"
definition IPC_GPRS_STATUS_DISABLED :: u8 where "IPC_GPRS_STATUS_DISABLED = 0x03"

definition ipc_gprs_define_pdp_context_setup :: "u8 \<Rightarrow> u8 \<Rightarrow> string option \<Rightarrow> u8 list option" where
  "ipc_gprs_define_pdp_context_setup enable cid apn = (case apn of None \<Rightarrow> None
     | Some a \<Rightarrow> Some ([enable, cid, 0x02] @ string_field 124 a))"

definition ipc_gprs_pdp_context_request_set_setup ::
  "u8 \<Rightarrow> u8 \<Rightarrow> string option \<Rightarrow> string option \<Rightarrow> u8 list" where
  "ipc_gprs_pdp_context_request_set_setup enable cid username password =
     (case (username, password) of
        (Some u, Some p) \<Rightarrow>
          if enable \<noteq> 0
          then [enable, cid, 0, 0, 0x13, 0] @ string_field 32 u @ string_field 32 p @ replicate 32 0 @ [0x01]
          else [enable, cid] @ replicate 101 0
      | _ \<Rightarrow> [enable, cid] @ replicate 101 0)"

definition ipc_gprs_port_list_setup :: "u8 list" where
  "ipc_gprs_port_list_setup =
     [0x02, 0x04, 0x16, 0x00, 0x17, 0x00, 0x87, 0x00, 0xBD, 0x01] @ replicate 794 0"

subsection \<open>misc.c\<close>

definition IPC_MISC_ME_VERSION :: u16 where "IPC_MISC_ME_VERSION = 0x0A01"
definition IPC_MISC_ME_IMSI :: u16 where "IPC_MISC_ME_IMSI = 0x0A02"
definition IPC_MISC_ME_SN :: u16 where "IPC_MISC_ME_SN = 0x0A03"
definition IPC_MISC_TIME_INFO :: u16 where "IPC_MISC_TIME_INFO = 0x0A05"

definition ipc_misc_me_version_setup :: "u8 list" where
  "ipc_misc_me_version_setup = [0xff]"

text \<open>\<open>strncpy\<close> stops at a NUL or after \<open>header->length\<close> bytes; nothing compares the length with the
  size of the message.\<close>

definition ipc_misc_me_imsi_imsi_extract :: "u8 list \<Rightarrow> string option option" where
  "ipc_misc_me_imsi_imsi_extract bs = (case bs of [] \<Rightarrow> Some None
     | len # rest \<Rightarrow>
        if unat len \<le> length rest \<or> 0 \<in> set rest
        then Some (Some (map byte_char (takeWhile (\<lambda>b. b \<noteq> 0) (take (unat len) rest))))
        else None)"

text \<open>The argument is the response structure: type, length and the 32 data bytes.\<close>

definition ipc_misc_me_sn_extract :: "u8 \<Rightarrow> u8 \<Rightarrow> u8 list \<Rightarrow> string option" where
  "ipc_misc_me_sn_extract type len dat =
     (if unat len > 32 then None
      else Some (map byte_char (takeWhile (\<lambda>b. b \<noteq> 0) (take (unat len) dat))))"

subsection \<open>svc.c\<close>

definition IPC_SVC_ENTER :: u16 where "IPC_SVC_ENTER = 0x0B01"
definition IPC_SVC_END :: u16 where "IPC_SVC_END = 0x0B02"
definition IPC_SVC_PRO_KEYCODE :: u16 where "IPC_SVC_PRO_KEYCODE = 0x0B03"
definition IPC_SVC_SCREEN_CFG :: u16 where "IPC_SVC_SCREEN_CFG = 0x0B04"
definition IPC_SVC_DISPLAY_SCREEN :: u16 where "IPC_SVC_DISPLAY_SCREEN = 0x0B05"
definition IPC_SVC_CHANGE_SVC_MODE :: u16 where "IPC_SVC_CHANGE_SVC_MODE = 0x0B06"
definition IPC_SVC_MODE_MONITOR :: u8 where "IPC_SVC_MODE_MONITOR = 0x04"

definition ipc_svc_enter_setup :: "u8 \<Rightarrow> u8 \<Rightarrow> u8 list" where
  "ipc_svc_enter_setup mode type = [mode, type, (if mode = IPC_SVC_MODE_MONITOR then 0x00 else 0x10)]"

definition ipc_svc_display_screen_count_extract :: "u8 list \<Rightarrow> u8" where
  "ipc_svc_display_screen_count_extract bs = (case bs of [] \<Rightarrow> 0 | count # _ \<Rightarrow> count)"

definition ipc_svc_display_screen_extract :: "u8 list \<Rightarrow> nat \<Rightarrow> nat option" where
  "ipc_svc_display_screen_extract bs index =
     (let count = unat (ipc_svc_display_screen_count_extract bs) in
      if count = 0 \<or> index \<ge> count then None
      else (case entry_walk 34 (index + 1) 0 1 of (entry, offset) \<Rightarrow>
        if offset > length bs then None else Some entry))"

subsection \<open>The contract of the entry lists\<close>

locale entry_list =
  fixes esize :: nat
    and count :: "u8 list \<Rightarrow> u8"
    and entry :: "u8 list \<Rightarrow> nat \<Rightarrow> nat option"
  assumes count_head: "count (c # bs) = c"
    and entry_iff: "entry bs i = Some p \<longleftrightarrow>
      i < unat (count bs) \<and> p = 1 + i * esize \<and> p + esize \<le> length bs"
begin

lemma entry_in_bounds: "entry bs i = Some p \<Longrightarrow> p + esize \<le> length bs"
  by (simp add: entry_iff)

lemma entries_disjoint: "entry bs i = Some p \<Longrightarrow> entry bs j = Some q \<Longrightarrow> i < j \<Longrightarrow> p + esize \<le> q"
  by (metis Suc_leI add.commute add_le_cancel_left add.assoc entry_iff mult_Suc mult_le_mono1)

lemma concat_entry:
  assumes "\<forall>e \<in> set es. length e = esize" and "i < length es"
  shows "take esize (drop (i * esize) (concat es)) = es ! i"
    and "i * esize + esize \<le> length (concat es)"
  using assms
proof (induction es arbitrary: i)
  case (Cons e es)
  { case 1 then show ?case using Cons.IH(1) [of "i - 1"] by (cases i) auto }
  { case 2 then show ?case using Cons.IH(2) [of "i - 1"] by (cases i) auto }
qed auto

lemma entries_decoded:
  assumes "\<forall>e \<in> set es. length e = esize" and "i < length es" and "length es < 256"
  shows "\<exists>p. entry (of_nat (length es) # concat es) i = Some p \<and>
    take esize (drop p (of_nat (length es) # concat es)) = es ! i"
proof -
  have "unat (of_nat (length es) :: u8) = length es"
    using assms(3) by (simp add: unat_of_nat take_bit_nat_eq_self)
  then have "entry (of_nat (length es) # concat es) i = Some (1 + i * esize)"
    using assms concat_entry(2) [OF assms(1,2)] by (subst entry_iff) (auto simp: count_head)
  then show ?thesis
    using concat_entry(1) [OF assms(1,2)] by auto
qed

end

interpretation plmn_list: entry_list 10 ipc_net_plmn_list_count_extract ipc_net_plmn_list_entry_extract
  by unfold_locales (auto simp: ipc_net_plmn_list_count_extract_def ipc_net_plmn_list_entry_extract_def
    entry_walk_Suc Let_def simp del: entry_walk.simps split: if_splits list.splits)

interpretation display_screen: entry_list 34 ipc_svc_display_screen_count_extract ipc_svc_display_screen_extract
  by unfold_locales (auto simp: ipc_svc_display_screen_count_extract_def ipc_svc_display_screen_extract_def
    entry_walk_Suc Let_def simp del: entry_walk.simps split: if_splits list.splits)

subsection \<open>Properties\<close>

text \<open>The PIN status request always has the 19 bytes of its structure, and each of the two PINs
  is sent cut to the eight bytes of its field, with a length byte that counts exactly the
  bytes sent; an absent PIN has length zero. No PIN, however long, writes outside its field.\<close>

lemma pin_status_layout:
  "length (ipc_sec_pin_status_setup type pin1 pin2) = 19 \<and>
   (case pin1 of None \<Rightarrow> ipc_sec_pin_status_setup type pin1 pin2 ! 1 = 0
     | Some p \<Rightarrow> unat (ipc_sec_pin_status_setup type pin1 pin2 ! 1) = min 8 (length p) \<and>
         take (min 8 (length p)) (drop 3 (ipc_sec_pin_status_setup type pin1 pin2)) = take 8 (string_bytes p)) \<and>
   (case pin2 of None \<Rightarrow> ipc_sec_pin_status_setup type pin1 pin2 ! 2 = 0
     | Some p \<Rightarrow> unat (ipc_sec_pin_status_setup type pin1 pin2 ! 2) = min 8 (length p) \<and>
         take (min 8 (length p)) (drop 11 (ipc_sec_pin_status_setup type pin1 pin2)) = take 8 (string_bytes p))"
  by (simp add: ipc_sec_pin_status_setup_def unat_field_length take_string_field split: option.split)

text \<open>Every answer to a PLMN scan that holds at most 255 ten-byte entries is read back entry by
  entry by \<open>ipc_net_plmn_list_entry_extract\<close>, at distinct in-bounds positions.\<close>

lemma plmn_list_roundtrip:
  assumes "\<forall>e \<in> set es. length e = 10" and "length es < 256" and "i < length es"
  shows "\<exists>p. ipc_net_plmn_list_entry_extract (of_nat (length es) # concat es) i = Some p \<and>
    take 10 (drop p (of_nat (length es) # concat es)) = es ! i \<and> p + 10 \<le> length (concat es) + 1"
proof -
  obtain p where "ipc_net_plmn_list_entry_extract (of_nat (length es) # concat es) i = Some p"
    and "take 10 (drop p (of_nat (length es) # concat es)) = es ! i"
    using plmn_list.entries_decoded [OF assms(1,3,2)] by blast
  moreover from this(1) have "p + 10 \<le> length (of_nat (length es) # concat es)"
    by (rule plmn_list.entry_in_bounds)
  ultimately show ?thesis
    by simp
qed

end
