(* ===== verification/Ril_State.thy ===== *)
theory Ril_State
  imports Ipc_Call Ipc_Sms Ipc_Codecs
begin

section \<open>samsung-ril: state, values and payloads\<close>

text \<open>
  The global state of the RIL: \<open>struct ril_data\<close>, \<open>struct ril_client\<close> and \<open>struct ipc_fmt_data\<close> of
  \<open>samsung-ril.h\<close> and \<open>ipc.h\<close>, flattened into one record, together with what lies outside the
  program: the results of calls into the modem driver and the kernel (\<open>io\<close>, a script of results in
  the order of the calls, success when it is used up), the GPRS capabilities and interface names the
  modem driver reports (\<open>gprs_cid_count\<close>, \<open>gprs_iface\<close>), and the calls the RIL makes to its environment
  (\<open>trace\<close>).

  The three \<open>list_head\<close> queues of \<open>struct ril_data\<close> and the two of \<open>struct ipc_fmt_data\<close> are node lists;
  \<open>next_addr\<close> is the allocator. All mutexes but one only serialise the operations that the model
  takes as atomic steps; the exception, \<open>request_loop_mutex\<close>, is used as a binary semaphore that
  wakes the request loop and is the field \<open>loop_locked\<close>.
\<close>

subsection \<open>Values of ril.h\<close>

definition RIL_E_SUCCESS :: int where "RIL_E_SUCCESS = 0"
definition RIL_E_RADIO_NOT_AVAILABLE :: int where "RIL_E_RADIO_NOT_AVAILABLE = 1"
definition RIL_E_GENERIC_FAILURE :: int where "RIL_E_GENERIC_FAILURE = 2"
definition RIL_E_PASSWORD_INCORRECT :: int where "RIL_E_PASSWORD_INCORRECT = 3"
definition RIL_E_SIM_PIN2 :: int where "RIL_E_SIM_PIN2 = 4"
definition RIL_E_REQUEST_NOT_SUPPORTED :: int where "RIL_E_REQUEST_NOT_SUPPORTED = 6"
definition RIL_E_OP_NOT_ALLOWED_BEFORE_REG_TO_NW :: int where "RIL_E_OP_NOT_ALLOWED_BEFORE_REG_TO_NW = 9"
definition RIL_E_SMS_SEND_FAIL_RETRY :: int where "RIL_E_SMS_SEND_FAIL_RETRY = 10"

definition RIL_E_MODE_NOT_SUPPORTED :: int where "RIL_E_MODE_NOT_SUPPORTED = 13"
definition RIL_E_ILLEGAL_SIM_OR_ME :: int where "RIL_E_ILLEGAL_SIM_OR_ME = 15"

definition RADIO_STATE_OFF :: int where "RADIO_STATE_OFF = 0"
definition RADIO_STATE_UNAVAILABLE :: int where "RADIO_STATE_UNAVAILABLE = 1"
definition RADIO_STATE_SIM_NOT_READY :: int where "RADIO_STATE_SIM_NOT_READY = 2"
definition RADIO_STATE_SIM_LOCKED_OR_ABSENT :: int where "RADIO_STATE_SIM_LOCKED_OR_ABSENT = 3"
definition RADIO_STATE_SIM_READY :: int where "RADIO_STATE_SIM_READY = 4"
definition RADIO_STATE_NV_NOT_READY :: int where "RADIO_STATE_NV_NOT_READY = 8"
definition RADIO_STATE_NV_READY :: int where "RADIO_STATE_NV_READY = 9"
definition RADIO_STATE_ON :: int where "RADIO_STATE_ON = 10"

lemmas radio_state_defs = RADIO_STATE_OFF_def RADIO_STATE_UNAVAILABLE_def RADIO_STATE_SIM_NOT_READY_def
  RADIO_STATE_SIM_LOCKED_OR_ABSENT_def RADIO_STATE_SIM_READY_def RADIO_STATE_NV_NOT_READY_def
  RADIO_STATE_NV_READY_def RADIO_STATE_ON_def

definition RIL_REQUEST_GET_SIM_STATUS :: int where "RIL_REQUEST_GET_SIM_STATUS = 1"
definition RIL_REQUEST_GET_IMSI :: int where "RIL_REQUEST_GET_IMSI = 11"
definition RIL_REQUEST_SIGNAL_STRENGTH :: int where "RIL_REQUEST_SIGNAL_STRENGTH = 19"
definition RIL_REQUEST_VOICE_REGISTRATION_STATE :: int where "RIL_REQUEST_VOICE_REGISTRATION_STATE = 20"
definition RIL_REQUEST_DATA_REGISTRATION_STATE :: int where "RIL_REQUEST_DATA_REGISTRATION_STATE = 21"
definition RIL_REQUEST_OPERATOR :: int where "RIL_REQUEST_OPERATOR = 22"
definition RIL_REQUEST_GET_IMEI :: int where "RIL_REQUEST_GET_IMEI = 38"
definition RIL_REQUEST_GET_IMEISV :: int where "RIL_REQUEST_GET_IMEISV = 39"
definition RIL_REQUEST_QUERY_NETWORK_SELECTION_MODE :: int where "RIL_REQUEST_QUERY_NETWORK_SELECTION_MODE = 45"
definition RIL_REQUEST_SET_NETWORK_SELECTION_AUTOMATIC :: int where "RIL_REQUEST_SET_NETWORK_SELECTION_AUTOMATIC = 46"
definition RIL_REQUEST_SET_NETWORK_SELECTION_MANUAL :: int where "RIL_REQUEST_SET_NETWORK_SELECTION_MANUAL = 47"
definition RIL_REQUEST_QUERY_AVAILABLE_NETWORKS :: int where "RIL_REQUEST_QUERY_AVAILABLE_NETWORKS = 48"
definition RIL_REQUEST_BASEBAND_VERSION :: int where "RIL_REQUEST_BASEBAND_VERSION = 51"
definition RIL_REQUEST_SET_MUTE :: int where "RIL_REQUEST_SET_MUTE = 53"
definition RIL_REQUEST_OEM_HOOK_RAW :: int where "RIL_REQUEST_OEM_HOOK_RAW = 59"
definition RIL_REQUEST_SCREEN_STATE :: int where "RIL_REQUEST_SCREEN_STATE = 61"
definition RIL_REQUEST_SET_PREFERRED_NETWORK_TYPE :: int where "RIL_REQUEST_SET_PREFERRED_NETWORK_TYPE = 73"
definition RIL_REQUEST_GET_PREFERRED_NETWORK_TYPE :: int where "RIL_REQUEST_GET_PREFERRED_NETWORK_TYPE = 74"
definition RIL_REQUEST_ENTER_SIM_PIN :: int where "RIL_REQUEST_ENTER_SIM_PIN = 2"
definition RIL_REQUEST_ENTER_SIM_PUK :: int where "RIL_REQUEST_ENTER_SIM_PUK = 3"
definition RIL_REQUEST_ENTER_SIM_PIN2 :: int where "RIL_REQUEST_ENTER_SIM_PIN2 = 4"
definition RIL_REQUEST_ENTER_SIM_PUK2 :: int where "RIL_REQUEST_ENTER_SIM_PUK2 = 5"
definition RIL_REQUEST_CHANGE_SIM_PIN :: int where "RIL_REQUEST_CHANGE_SIM_PIN = 6"
definition RIL_REQUEST_CHANGE_SIM_PIN2 :: int where "RIL_REQUEST_CHANGE_SIM_PIN2 = 7"
definition RIL_REQUEST_GET_CURRENT_CALLS :: int where "RIL_REQUEST_GET_CURRENT_CALLS = 9"
definition RIL_REQUEST_DIAL :: int where "RIL_REQUEST_DIAL = 10"
definition RIL_REQUEST_HANGUP :: int where "RIL_REQUEST_HANGUP = 12"
definition RIL_REQUEST_HANGUP_WAITING_OR_BACKGROUND :: int where
  "RIL_REQUEST_HANGUP_WAITING_OR_BACKGROUND = 13"
definition RIL_REQUEST_HANGUP_FOREGROUND_RESUME_BACKGROUND :: int where
  "RIL_REQUEST_HANGUP_FOREGROUND_RESUME_BACKGROUND = 14"
definition RIL_REQUEST_LAST_CALL_FAIL_CAUSE :: int where "RIL_REQUEST_LAST_CALL_FAIL_CAUSE = 18"
definition RIL_REQUEST_RADIO_POWER :: int where "RIL_REQUEST_RADIO_POWER = 23"
definition RIL_REQUEST_DTMF :: int where "RIL_REQUEST_DTMF = 24"
definition RIL_REQUEST_SEND_SMS :: int where "RIL_REQUEST_SEND_SMS = 25"
definition RIL_REQUEST_SEND_SMS_EXPECT_MORE :: int where "RIL_REQUEST_SEND_SMS_EXPECT_MORE = 26"
definition RIL_REQUEST_SETUP_DATA_CALL :: int where "RIL_REQUEST_SETUP_DATA_CALL = 27"
definition RIL_REQUEST_SIM_IO :: int where "RIL_REQUEST_SIM_IO = 28"
definition RIL_REQUEST_SMS_ACKNOWLEDGE :: int where "RIL_REQUEST_SMS_ACKNOWLEDGE = 37"
definition RIL_REQUEST_ANSWER :: int where "RIL_REQUEST_ANSWER = 40"
definition RIL_REQUEST_DEACTIVATE_DATA_CALL :: int where "RIL_REQUEST_DEACTIVATE_DATA_CALL = 41"
definition RIL_REQUEST_QUERY_FACILITY_LOCK :: int where "RIL_REQUEST_QUERY_FACILITY_LOCK = 42"
definition RIL_REQUEST_SET_FACILITY_LOCK :: int where "RIL_REQUEST_SET_FACILITY_LOCK = 43"
definition RIL_REQUEST_DTMF_START :: int where "RIL_REQUEST_DTMF_START = 49"
definition RIL_REQUEST_DTMF_STOP :: int where "RIL_REQUEST_DTMF_STOP = 50"
definition RIL_REQUEST_LAST_DATA_CALL_FAIL_CAUSE :: int where "RIL_REQUEST_LAST_DATA_CALL_FAIL_CAUSE = 56"
definition RIL_REQUEST_DATA_CALL_LIST :: int where "RIL_REQUEST_DATA_CALL_LIST = 57"
definition RIL_REQUEST_WRITE_SMS_TO_SIM :: int where "RIL_REQUEST_WRITE_SMS_TO_SIM = 63"
definition RIL_REQUEST_DELETE_SMS_ON_SIM :: int where "RIL_REQUEST_DELETE_SMS_ON_SIM = 64"

lemmas request_number_defs = RIL_REQUEST_ENTER_SIM_PIN_def RIL_REQUEST_ENTER_SIM_PUK_def
  RIL_REQUEST_ENTER_SIM_PIN2_def RIL_REQUEST_ENTER_SIM_PUK2_def RIL_REQUEST_CHANGE_SIM_PIN_def
  RIL_REQUEST_CHANGE_SIM_PIN2_def RIL_REQUEST_GET_CURRENT_CALLS_def RIL_REQUEST_DIAL_def
  RIL_REQUEST_HANGUP_def RIL_REQUEST_HANGUP_WAITING_OR_BACKGROUND_def
  RIL_REQUEST_HANGUP_FOREGROUND_RESUME_BACKGROUND_def RIL_REQUEST_LAST_CALL_FAIL_CAUSE_def
  RIL_REQUEST_RADIO_POWER_def RIL_REQUEST_DTMF_def RIL_REQUEST_SEND_SMS_def
  RIL_REQUEST_SEND_SMS_EXPECT_MORE_def RIL_REQUEST_SETUP_DATA_CALL_def RIL_REQUEST_SIM_IO_def
  RIL_REQUEST_SMS_ACKNOWLEDGE_def RIL_REQUEST_ANSWER_def RIL_REQUEST_DEACTIVATE_DATA_CALL_def
  RIL_REQUEST_QUERY_FACILITY_LOCK_def RIL_REQUEST_SET_FACILITY_LOCK_def RIL_REQUEST_DTMF_START_def
  RIL_REQUEST_DTMF_STOP_def RIL_REQUEST_LAST_DATA_CALL_FAIL_CAUSE_def RIL_REQUEST_DATA_CALL_LIST_def
  RIL_REQUEST_WRITE_SMS_TO_SIM_def RIL_REQUEST_DELETE_SMS_ON_SIM_def
  RIL_REQUEST_GET_SIM_STATUS_def RIL_REQUEST_GET_IMSI_def RIL_REQUEST_SIGNAL_STRENGTH_def
  RIL_REQUEST_VOICE_REGISTRATION_STATE_def RIL_REQUEST_DATA_REGISTRATION_STATE_def RIL_REQUEST_OPERATOR_def
  RIL_REQUEST_GET_IMEI_def RIL_REQUEST_GET_IMEISV_def RIL_REQUEST_QUERY_NETWORK_SELECTION_MODE_def
  RIL_REQUEST_SET_NETWORK_SELECTION_AUTOMATIC_def RIL_REQUEST_SET_NETWORK_SELECTION_MANUAL_def
  RIL_REQUEST_QUERY_AVAILABLE_NETWORKS_def RIL_REQUEST_BASEBAND_VERSION_def RIL_REQUEST_SET_MUTE_def
  RIL_REQUEST_OEM_HOOK_RAW_def RIL_REQUEST_SCREEN_STATE_def RIL_REQUEST_SET_PREFERRED_NETWORK_TYPE_def
  RIL_REQUEST_GET_PREFERRED_NETWORK_TYPE_def

definition RIL_UNSOL_RESPONSE_RADIO_STATE_CHANGED :: int where "RIL_UNSOL_RESPONSE_RADIO_STATE_CHANGED = 1000"
definition RIL_UNSOL_RESPONSE_CALL_STATE_CHANGED :: int where "RIL_UNSOL_RESPONSE_CALL_STATE_CHANGED = 1001"
definition RIL_UNSOL_RESPONSE_VOICE_NETWORK_STATE_CHANGED :: int where
  "RIL_UNSOL_RESPONSE_VOICE_NETWORK_STATE_CHANGED = 1002"
definition RIL_UNSOL_RESPONSE_NEW_SMS :: int where "RIL_UNSOL_RESPONSE_NEW_SMS = 1003"
definition RIL_UNSOL_RESPONSE_NEW_SMS_STATUS_REPORT :: int where
  "RIL_UNSOL_RESPONSE_NEW_SMS_STATUS_REPORT = 1004"
definition RIL_UNSOL_NITZ_TIME_RECEIVED :: int where "RIL_UNSOL_NITZ_TIME_RECEIVED = 1008"
definition RIL_UNSOL_SIGNAL_STRENGTH :: int where "RIL_UNSOL_SIGNAL_STRENGTH = 1009"
definition RIL_UNSOL_DATA_CALL_LIST_CHANGED :: int where "RIL_UNSOL_DATA_CALL_LIST_CHANGED = 1010"
definition RIL_UNSOL_CALL_RING :: int where "RIL_UNSOL_CALL_RING = 1018"
definition RIL_UNSOL_RESPONSE_SIM_STATUS_CHANGED :: int where "RIL_UNSOL_RESPONSE_SIM_STATUS_CHANGED = 1019"

text \<open>The status values of \<open>samsung-ril.h\<close>.\<close>

definition RIL_REQUEST_PENDING :: int where "RIL_REQUEST_PENDING = 0"
definition RIL_REQUEST_HANDLED :: int where "RIL_REQUEST_HANDLED = 1"
definition RIL_REQUEST_UNHANDLED :: int where "RIL_REQUEST_UNHANDLED = 2"
definition RIL_REQUEST_COMPLETED :: int where "RIL_REQUEST_COMPLETED = 3"

lemmas status_defs = RIL_REQUEST_PENDING_def RIL_REQUEST_HANDLED_def RIL_REQUEST_UNHANDLED_def
  RIL_REQUEST_COMPLETED_def

lemma status_distinct [simp]:
  "RIL_REQUEST_PENDING \<noteq> RIL_REQUEST_HANDLED" "RIL_REQUEST_HANDLED \<noteq> RIL_REQUEST_PENDING"
  "RIL_REQUEST_PENDING \<noteq> RIL_REQUEST_UNHANDLED" "RIL_REQUEST_UNHANDLED \<noteq> RIL_REQUEST_PENDING"
  "RIL_REQUEST_PENDING \<noteq> RIL_REQUEST_COMPLETED" "RIL_REQUEST_COMPLETED \<noteq> RIL_REQUEST_PENDING"
  "RIL_REQUEST_HANDLED \<noteq> RIL_REQUEST_UNHANDLED" "RIL_REQUEST_UNHANDLED \<noteq> RIL_REQUEST_HANDLED"
  "RIL_REQUEST_HANDLED \<noteq> RIL_REQUEST_COMPLETED" "RIL_REQUEST_COMPLETED \<noteq> RIL_REQUEST_HANDLED"
  "RIL_REQUEST_UNHANDLED \<noteq> RIL_REQUEST_COMPLETED" "RIL_REQUEST_COMPLETED \<noteq> RIL_REQUEST_UNHANDLED"
  by (simp_all add: status_defs)

subsection \<open>Payloads and responses\<close>

text \<open>
  What a \<open>void *\<close> of a request points to: raw bytes, an array of string pointers, or one of the
  structures of \<open>ril.h\<close> that hold pointers. \<open>NULL\<close> is \<open>None\<close> of the option type around it. The sizes
  are those of the 32-bit targets.
\<close>

datatype payload =
    PBytes "u8 list"
  | PStrings "string option list"
  | PDial "string option" int                             \<comment> \<open>\<open>RIL_Dial\<close>: address, clir\<close>
  | PSmsWrite int "string option" "string option"         \<comment> \<open>\<open>RIL_SMS_WriteArgs\<close>: status, pdu, smsc\<close>
  | PSimIo "int list" "string option" "string option" "string option" "string option"
      \<comment> \<open>\<open>RIL_SIM_IO_v6\<close>: command, fileid, p1, p2, p3, then path, data, pin2, aidPtr\<close>

definition payload_size :: "payload \<Rightarrow> nat" where
  "payload_size p = (case p of
       PBytes bs \<Rightarrow> length bs
     | PStrings ss \<Rightarrow> 4 * length ss
     | PDial _ _ \<Rightarrow> 12
     | PSmsWrite _ _ _ \<Rightarrow> 12
     | PSimIo _ _ _ _ _ \<Rightarrow> 36)"

text \<open>\<open>memcpy(copy, data, size)\<close>: undefined when \<open>size\<close> exceeds the object. A structure cut short is
  kept, since every handler compares the size with the structure's before it reads a member.\<close>

definition payload_copy :: "nat \<Rightarrow> payload \<Rightarrow> payload option" where
  "payload_copy sz p = (if sz > payload_size p then None
     else Some (case p of
         PBytes bs \<Rightarrow> PBytes (take sz bs)
       | PStrings ss \<Rightarrow> PStrings (take (sz div 4) ss)
       | _ \<Rightarrow> p))"

lemma payload_copy_full [simp]: "payload_copy (payload_size p) p = Some p"
  by (simp add: payload_copy_def payload_size_def split: payload.split)

definition bytes_payload :: "payload option \<Rightarrow> nat \<Rightarrow> bool" where
  "bytes_payload data sz = (case data of None \<Rightarrow> True | Some (PBytes bs) \<Rightarrow> sz \<le> length bs | Some _ \<Rightarrow> False)"

lemma bytes_payload_size: "bytes_payload (Some d) sz \<Longrightarrow> sz \<le> payload_size d"
  by (auto simp: bytes_payload_def payload_size_def split: payload.splits)

lemma bytes_payload_PBytes: "bytes_payload (Some d) sz \<Longrightarrow> \<exists>bs. d = PBytes bs \<and> sz \<le> length bs"
  by (cases d) (auto simp: bytes_payload_def)

lemma bytes_payload_None [simp]: "bytes_payload None sz"
  by (simp add: bytes_payload_def)

lemma bytes_payload_copy:
  "bytes_payload (Some d) sz \<Longrightarrow> \<exists>c. payload_copy sz d = Some c \<and> bytes_payload (Some c) sz"
  by (auto simp: bytes_payload_def payload_copy_def payload_size_def split: payload.splits)

definition strings_payload :: "payload option \<Rightarrow> nat \<Rightarrow> bool" where
  "strings_payload data sz = (case data of None \<Rightarrow> True | Some (PStrings ss) \<Rightarrow> sz \<le> 4 * length ss | Some _ \<Rightarrow> False)"

lemma strings_payload_None [simp]: "strings_payload None sz"
  by (simp add: strings_payload_def)

lemma strings_payload_copy:
  "strings_payload (Some d) sz \<Longrightarrow> \<exists>c. payload_copy sz d = Some c \<and> (4 dvd sz \<longrightarrow> strings_payload (Some c) sz)"
  by (auto simp: strings_payload_def payload_copy_def payload_size_def split: payload.splits)

text \<open>What handlers leave for each other under a request number: the registration state and the operator are
  arrays of strings, everything else is raw bytes.\<close>

definition stored_payload :: "int \<Rightarrow> payload option \<Rightarrow> nat \<Rightarrow> bool" where
  "stored_payload request data sz =
     (if request \<in> {RIL_REQUEST_OPERATOR, RIL_REQUEST_VOICE_REGISTRATION_STATE, RIL_REQUEST_DATA_REGISTRATION_STATE}
      then 4 dvd sz \<and> strings_payload data sz else bytes_payload data sz)"

lemma stored_payload_strings [simp]:
  "stored_payload RIL_REQUEST_OPERATOR data sz \<longleftrightarrow> 4 dvd sz \<and> strings_payload data sz"
  "stored_payload RIL_REQUEST_VOICE_REGISTRATION_STATE data sz \<longleftrightarrow> 4 dvd sz \<and> strings_payload data sz"
  "stored_payload RIL_REQUEST_DATA_REGISTRATION_STATE data sz \<longleftrightarrow> 4 dvd sz \<and> strings_payload data sz"
  by (simp_all add: stored_payload_def)

lemma stored_payload_bytes [simp]:
  "stored_payload RIL_REQUEST_GET_SIM_STATUS = bytes_payload" "stored_payload RIL_REQUEST_ENTER_SIM_PIN = bytes_payload"
  "stored_payload RIL_REQUEST_CHANGE_SIM_PIN = bytes_payload" "stored_payload RIL_REQUEST_ENTER_SIM_PIN2 = bytes_payload"
  "stored_payload RIL_REQUEST_CHANGE_SIM_PIN2 = bytes_payload" "stored_payload RIL_REQUEST_SET_FACILITY_LOCK = bytes_payload"
  "stored_payload RIL_REQUEST_HANGUP = bytes_payload"
  "stored_payload RIL_REQUEST_LAST_CALL_FAIL_CAUSE = bytes_payload" "stored_payload RIL_REQUEST_DTMF = bytes_payload"
  "stored_payload RIL_REQUEST_DTMF_START = bytes_payload" "stored_payload RIL_REQUEST_SEND_SMS = bytes_payload"
  "stored_payload RIL_REQUEST_SIM_IO = bytes_payload" "stored_payload RIL_REQUEST_SMS_ACKNOWLEDGE = bytes_payload"
  "stored_payload RIL_REQUEST_LAST_DATA_CALL_FAIL_CAUSE = bytes_payload" "stored_payload RIL_REQUEST_OEM_HOOK_RAW = bytes_payload"
  by (intro ext; simp add: stored_payload_def request_number_defs)+

lemma stored_payload_copy:
  "stored_payload request (Some d) sz \<Longrightarrow> \<exists>c. payload_copy sz d = Some c \<and> stored_payload request (Some c) sz"
  using bytes_payload_copy [of d sz] strings_payload_copy [of d sz] by (auto simp: stored_payload_def split: if_splits)

record RIL_Call =
  rc_state :: int
  rc_index :: int
  rc_toa :: int
  rc_isMpty :: u8
  rc_isMT :: bool
  rc_isVoice :: bool
  rc_number :: string
  rc_numberPresentation :: int

record RIL_Data_Call_Response =
  dr_status :: int
  dr_cid :: int
  dr_active :: int
  dr_type :: "string option"
  dr_ifname :: "string option"
  dr_addresses :: "string option"
  dr_dnses :: "string option"
  dr_gateways :: "string option"

text \<open>What the RIL hands to its environment with a completion or an unsolicited response.\<close>

datatype response =
    RNull
  | RInt int
  | RString string
  | RSmsResponse int          \<comment> \<open>\<open>RIL_SMS_Response\<close> with its message reference; no PDU, error code 0\<close>
  | RBytes "u8 list"          \<comment> \<open>a structure without pointers, or whose pointers are all \<open>NULL\<close>\<close>
  | RInts "int list"
  | RStrings "string option list"
  | RSimIo int int "string option"    \<comment> \<open>\<open>RIL_SIM_IO_Response\<close>: sw1, sw2, simResponse\<close>
  | RCalls "RIL_Call list"
  | RDataCalls "RIL_Data_Call_Response list"

text \<open>Stored data as a response.\<close>

definition payload_response :: "payload option \<Rightarrow> response" where
  "payload_response data = (case data of
      Some (PBytes bs) \<Rightarrow> RBytes bs
    | Some (PStrings ss) \<Rightarrow> RStrings ss
    | _ \<Rightarrow> RNull)"

subsection \<open>Queued objects\<close>

record ril_request =
  rq_request :: int
  rq_data :: "payload option"
  rq_size :: nat
  rq_token :: ril_token
  rq_status :: int

record ril_request_data =
  rd_request :: int
  rd_data :: payload
  rd_size :: nat

record ril_data_connection =
  dc_cid :: u32
  dc_enabled :: bool
  dc_attached :: bool
  dc_apn :: "string option"
  dc_username :: "string option"
  dc_password :: "string option"
  dc_iface :: "string option"
  dc_ip :: "string option"
  dc_gateway :: "string option"
  dc_subnet_mask :: "string option"
  dc_dns1 :: "string option"
  dc_dns2 :: "string option"
  dc_token :: ril_token

text \<open>The function pointers that \<open>ipc_gen_phone_res_expect_callback\<close> is given, by name.\<close>

datatype ipc_callback =
    Cb_call_cont_dtmf
  | Cb_sec_pin_status
  | Cb_sec
  | Cb_net_plmn_sel
  | Cb_gprs_define_pdp_context
  | Cb_gprs_pdp_context

record ipc_gen_phone_res_expect =
  ex_aseq :: u8
  ex_command :: u16
  ex_callback :: "ipc_callback option"
  ex_complete :: bool
  ex_abort :: bool

record ipc_fmt_request =
  fr_request :: int
  fr_token :: ril_token
  fr_seq :: u8

subsection \<open>The state\<close>

datatype event =
    Complete ril_token int response nat        \<comment> \<open>\<open>env->OnRequestComplete(token, error, data, size)\<close>\<close>
  | Unsol int response nat                     \<comment> \<open>\<open>env->OnUnsolicitedResponse(request, data, size)\<close>\<close>
  | Sent u8 u16 u8 "u8 list"                   \<comment> \<open>a message written by \<open>ipc_client_send\<close>\<close>
  | Ifc string "string option"                 \<comment> \<open>a network interface call by name\<close>
  | Modem string                               \<comment> \<open>a call into the modem driver by name\<close>

record ril_world =
  ril_data_alive :: bool
  env_complete :: bool
  env_unsolicited :: bool
  radio_state :: int
  sim_pin :: "string option"
  requests :: "ril_request nodes"
  requests_data :: "ril_request_data nodes"
  data_connections :: "ril_data_connection nodes"
  loop_locked :: bool
  next_addr :: addr
  fmt_failures :: int
  fmt_available :: bool
  fmt_data :: bool
  fmt_ipc_client :: bool
  fmt_event_fd :: int
  fmt_event :: nat
  gen_phone_res_expect :: "ipc_gen_phone_res_expect nodes"
  sim_icc_type :: u8
  hsdpa_status :: u8
  svc_session :: int
  fmt_requests :: "ipc_fmt_request nodes"
  fmt_seq :: u8
  gprs_cid_count :: "nat option"
  gprs_iface :: "u32 \<Rightarrow> string option"
  io :: "int list"
  trace :: "event list"

definition emit :: "event \<Rightarrow> ril_world \<Rightarrow> ril_world" where
  "emit e s = s\<lparr>trace := trace s @ [e]\<rparr>"

text \<open>The result of the next call into the driver or the kernel.\<close>

definition io_result :: "ril_world \<Rightarrow> int" where
  "io_result s = (case io s of [] \<Rightarrow> 0 | r # _ \<Rightarrow> r)"

definition io_next :: "ril_world \<Rightarrow> ril_world" where
  "io_next s = s\<lparr>io := drop 1 (io s)\<rparr>"

definition alloc :: "ril_world \<Rightarrow> addr \<times> ril_world" where
  "alloc s = (next_addr s, s\<lparr>next_addr := Suc (next_addr s)\<rparr>)"

text \<open>A world before \<open>RIL_Init\<close>: the fields as left by the static initialisers, and a driver with three
  contexts.\<close>

definition initial_world :: "int list \<Rightarrow> ril_world" where
  "initial_world script = \<lparr>ril_data_alive = False, env_complete = False, env_unsolicited = False,
     radio_state = 0, sim_pin = None, requests = [], requests_data = [], data_connections = [],
     loop_locked = False, next_addr = 1, fmt_failures = 0, fmt_available = False, fmt_data = False,
     fmt_ipc_client = False, fmt_event_fd = 0, fmt_event = 0, gen_phone_res_expect = [], sim_icc_type = 0,
     hsdpa_status = 0, svc_session = 0, fmt_requests = [], fmt_seq = 0,
     gprs_cid_count = Some 3, gprs_iface = (\<lambda>_. Some ''rmnet0''), io = script, trace = []\<rparr>"

subsection \<open>Completions in a trace\<close>

fun completions :: "event list \<Rightarrow> ril_token list" where
  "completions [] = []"
| "completions (Complete token _ _ _ # es) = token # completions es"
| "completions (_ # es) = completions es"

lemma completions_append [simp]: "completions (xs @ ys) = completions xs @ completions ys"
  by (induction xs rule: completions.induct) auto

lemma emit_simps [simp]:
  "ril_data_alive (emit e s) = ril_data_alive s" "env_complete (emit e s) = env_complete s"
  "env_unsolicited (emit e s) = env_unsolicited s" "radio_state (emit e s) = radio_state s"
  "sim_pin (emit e s) = sim_pin s"
  "requests (emit e s) = requests s" "requests_data (emit e s) = requests_data s"
  "data_connections (emit e s) = data_connections s" "loop_locked (emit e s) = loop_locked s"
  "next_addr (emit e s) = next_addr s" "fmt_failures (emit e s) = fmt_failures s"
  "fmt_available (emit e s) = fmt_available s" "fmt_data (emit e s) = fmt_data s"
  "fmt_ipc_client (emit e s) = fmt_ipc_client s" "fmt_event_fd (emit e s) = fmt_event_fd s"
  "fmt_event (emit e s) = fmt_event s" "gen_phone_res_expect (emit e s) = gen_phone_res_expect s"
  "sim_icc_type (emit e s) = sim_icc_type s" "hsdpa_status (emit e s) = hsdpa_status s"
  "svc_session (emit e s) = svc_session s" "fmt_requests (emit e s) = fmt_requests s"
  "fmt_seq (emit e s) = fmt_seq s" "gprs_cid_count (emit e s) = gprs_cid_count s"
  "gprs_iface (emit e s) = gprs_iface s" "io (emit e s) = io s" "trace (emit e s) = trace s @ [e]"
  by (simp_all add: emit_def)

lemma io_next_simps [simp]:
  "ril_data_alive (io_next s) = ril_data_alive s" "env_complete (io_next s) = env_complete s"
  "env_unsolicited (io_next s) = env_unsolicited s" "radio_state (io_next s) = radio_state s"
  "sim_pin (io_next s) = sim_pin s"
  "requests (io_next s) = requests s" "requests_data (io_next s) = requests_data s"
  "data_connections (io_next s) = data_connections s" "loop_locked (io_next s) = loop_locked s"
  "next_addr (io_next s) = next_addr s" "fmt_failures (io_next s) = fmt_failures s"
  "fmt_available (io_next s) = fmt_available s" "fmt_data (io_next s) = fmt_data s"
  "fmt_ipc_client (io_next s) = fmt_ipc_client s" "fmt_event_fd (io_next s) = fmt_event_fd s"
  "fmt_event (io_next s) = fmt_event s" "gen_phone_res_expect (io_next s) = gen_phone_res_expect s"
  "sim_icc_type (io_next s) = sim_icc_type s" "hsdpa_status (io_next s) = hsdpa_status s"
  "svc_session (io_next s) = svc_session s" "fmt_requests (io_next s) = fmt_requests s"
  "fmt_seq (io_next s) = fmt_seq s" "gprs_cid_count (io_next s) = gprs_cid_count s"
  "gprs_iface (io_next s) = gprs_iface s" "trace (io_next s) = trace s"
  by (simp_all add: io_next_def)

subsection \<open>The state invariant\<close>

text \<open>
  Well-formed states: every queue has distinct live addresses below the allocator, and the FMT
  client mirrors the request queue, entry for entry and in order, by request number and token (when its
  data exists; it has none otherwise). The scratch data handlers leave for each other is of the kind that its
  request number has, at least as large as its recorded size. \<open>fmt_mirror\<close> is what makes sequence numbers and tokens of outstanding requests
  correspond.
\<close>

definition nodes_ok :: "addr \<Rightarrow> 'a nodes \<Rightarrow> bool" where
  "nodes_ok bound ns \<longleftrightarrow> distinct (map fst ns) \<and> (\<forall>p \<in> set (map fst ns). p < bound)"

definition fmt_mirror :: "ril_request nodes \<Rightarrow> ipc_fmt_request nodes \<Rightarrow> bool" where
  "fmt_mirror rs fs \<longleftrightarrow>
     map (\<lambda>n. (fr_request (snd n), fr_token (snd n))) fs = map (\<lambda>n. (rq_request (snd n), rq_token (snd n))) rs"

definition ril_inv :: "ril_world \<Rightarrow> bool" where
  "ril_inv s \<longleftrightarrow> nodes_ok (next_addr s) (requests s) \<and> nodes_ok (next_addr s) (requests_data s) \<and>
     nodes_ok (next_addr s) (data_connections s) \<and> nodes_ok (next_addr s) (gen_phone_res_expect s) \<and>
     nodes_ok (next_addr s) (fmt_requests s) \<and>
     distinct (map (\<lambda>n. rq_token (snd n)) (requests s)) \<and>
     (\<forall>n \<in> set (requests_data s). stored_payload (rd_request (snd n)) (Some (rd_data (snd n))) (rd_size (snd n))) \<and>
     (fmt_data s \<longrightarrow> fmt_mirror (requests s) (fmt_requests s))"

lemma nodes_ok_Nil [simp]: "nodes_ok n []"
  by (simp add: nodes_ok_def)

lemma nodes_ok_append_fresh: "nodes_ok n ns \<Longrightarrow> nodes_ok (Suc n) (node_append n x ns)"
  by (auto simp: nodes_ok_def node_append_def less_Suc_eq)

lemma nodes_ok_mono: "nodes_ok n ns \<Longrightarrow> n \<le> m \<Longrightarrow> nodes_ok m ns"
  by (auto simp: nodes_ok_def)

lemma nodes_ok_Suc: "nodes_ok n ns \<Longrightarrow> nodes_ok (Suc n) ns"
  by (auto simp: nodes_ok_def less_Suc_eq)

lemma nodes_ok_remove: "nodes_ok n ns \<Longrightarrow> nodes_ok n (node_remove p ns)"
  by (auto simp: nodes_ok_def set_node_remove)

lemma nodes_ok_update: "nodes_ok n (node_update p f ns) = nodes_ok n ns"
  by (simp only: nodes_ok_def map_fst_node_update)

end
