(* ===== verification/Ipc_Fmt.thy ===== *)
theory Ipc_Fmt
  imports Ril_State
begin

section \<open>samsung-ril: the IPC FMT client's bookkeeping\<close>

text \<open>
  The part of \<open>ipc.c\<close> that keeps the FMT client's own request list and sequence counter, the expectation
  list of \<open>gen.c\<close>, sending, and the per-client callbacks of \<open>client.c\<close> that the request queue invokes.
  The client argument of these functions is always the static \<open>ipc_fmt_client\<close>, whose \<open>data\<close> pointer may
  be \<open>NULL\<close> (field \<open>fmt_data\<close>).
\<close>

subsection \<open>Event file descriptors (utils.c)\<close>

text \<open>The counter of a non-blocking eventfd: a read fails on zero and otherwise resets it, a write adds.\<close>

definition eventfd_read :: "nat \<Rightarrow> (nat \<times> nat) option" where
  "eventfd_read c = (if c = 0 then None else Some (c, 0))"

definition eventfd_flush :: "nat \<Rightarrow> int \<times> nat" where
  "eventfd_flush c = (case eventfd_read c of None \<Rightarrow> (-1, c) | Some (_, c') \<Rightarrow> (0, c'))"

definition eventfd_recv :: "nat \<Rightarrow> int \<times> nat option \<times> nat" where
  "eventfd_recv c = (case eventfd_read c of None \<Rightarrow> (-1, None, c) | Some (v, c') \<Rightarrow> (0, Some v, c'))"

definition eventfd_send :: "nat \<Rightarrow> nat \<Rightarrow> int \<times> nat" where
  "eventfd_send event c = (0, snd (eventfd_flush c) + event)"

definition IPC_CLIENT_CLOSE :: nat where "IPC_CLIENT_CLOSE = 0x00"
definition IPC_CLIENT_IO_ERROR :: nat where "IPC_CLIENT_IO_ERROR = 0x01"

subsection \<open>Sending\<close>

definition ipc_fmt_send :: "u8 \<Rightarrow> u16 \<Rightarrow> u8 \<Rightarrow> u8 list \<Rightarrow> ril_world \<Rightarrow> int \<times> ril_world" where
  "ipc_fmt_send mseq command type data s =
     (if \<not> fmt_data s then (-1, s)
      else if \<not> fmt_ipc_client s \<or> fmt_event_fd s < 0 then (-1, s)
      else if \<not> fmt_available s then (-1, s)
      else
        let rc = io_result s; s = io_next s in
        if rc < 0 then (-1, s\<lparr>fmt_event := snd (eventfd_send IPC_CLIENT_IO_ERROR (fmt_event s))\<rparr>)
        else (0, emit (Sent mseq command type data) s))"

subsection \<open>The FMT request list\<close>

definition ipc_fmt_request_register :: "int \<Rightarrow> ril_token \<Rightarrow> ril_world \<Rightarrow> int \<times> ril_world" where
  "ipc_fmt_request_register request token s =
     (if \<not> fmt_data s then (-1, s)
      else
        let (p, s) = alloc s in
        (0, s\<lparr>fmt_requests := node_append p \<lparr>fr_request = request, fr_token = token, fr_seq = 0xff\<rparr> (fmt_requests s)\<rparr>))"

definition ipc_fmt_request_unregister :: "int \<Rightarrow> ril_token \<Rightarrow> ril_world \<Rightarrow> int \<times> ril_world" where
  "ipc_fmt_request_unregister request token s =
     (if \<not> fmt_data s then (-1, s)
      else (case node_find (\<lambda>f. fr_request f = request \<and> fr_token f = token) (fmt_requests s) of
          None \<Rightarrow> (0, s)
        | Some p \<Rightarrow> (0, s\<lparr>fmt_requests := node_remove p (fmt_requests s)\<rparr>)))"

definition ipc_fmt_request_flush :: "ril_world \<Rightarrow> int \<times> ril_world" where
  "ipc_fmt_request_flush s = (if \<not> fmt_data s then (-1, s) else (0, s\<lparr>fmt_requests := []\<rparr>))"

definition ipc_fmt_request_find_token :: "ril_token \<Rightarrow> ril_world \<Rightarrow> addr option" where
  "ipc_fmt_request_find_token token s =
     (if \<not> fmt_data s then None else node_find (\<lambda>f. fr_token f = token) (fmt_requests s))"

definition ipc_fmt_request_find_seq :: "u8 \<Rightarrow> ril_world \<Rightarrow> addr option" where
  "ipc_fmt_request_find_seq seq s =
     (if \<not> fmt_data s then None else node_find (\<lambda>f. fr_seq f = seq) (fmt_requests s))"

subsection \<open>Sequence numbers\<close>

definition ipc_fmt_seq :: "ril_world \<Rightarrow> u8 \<times> ril_world" where
  "ipc_fmt_seq s =
     (if \<not> fmt_data s then (0xff, s)
      else
        let seq = fmt_seq s + 1;
            seq = (if seq mod 0xff = 0x00 then 0x01 else seq) in
        (seq, s\<lparr>fmt_seq := seq\<rparr>))"

definition ipc_fmt_request_seq :: "ril_token \<Rightarrow> ril_world \<Rightarrow> u8 \<times> ril_world" where
  "ipc_fmt_request_seq token s =
     (case ipc_fmt_request_find_token token s of
        None \<Rightarrow> (0xff, s)
      | Some p \<Rightarrow> (case node_get (fmt_requests s) p of
          None \<Rightarrow> (0xff, s)
        | Some request \<Rightarrow>
            if fr_seq request = 0xff then
              (case ipc_fmt_seq s of (seq, s) \<Rightarrow>
                (seq, s\<lparr>fmt_requests := node_update p (\<lambda>f. f\<lparr>fr_seq := seq\<rparr>) (fmt_requests s)\<rparr>))
            else (fr_seq request, s)))"

definition ipc_fmt_request_token :: "u8 \<Rightarrow> ril_world \<Rightarrow> ril_token" where
  "ipc_fmt_request_token seq s =
     (case ipc_fmt_request_find_seq seq s of
        None \<Rightarrow> 0
      | Some p \<Rightarrow> (case node_get (fmt_requests s) p of None \<Rightarrow> 0 | Some request \<Rightarrow> fr_token request))"

subsection \<open>Expected generic responses (gen.c)\<close>

definition ipc_gen_phone_res_expect_register ::
  "u8 \<Rightarrow> u16 \<Rightarrow> ipc_callback option \<Rightarrow> bool \<Rightarrow> bool \<Rightarrow> ril_world \<Rightarrow> int \<times> ril_world" where
  "ipc_gen_phone_res_expect_register aseq command callback complete abort s =
     (if \<not> fmt_data s then (-1, s)
      else
        let (p, s) = alloc s in
        (0, s\<lparr>gen_phone_res_expect := node_append p \<lparr>ex_aseq = aseq, ex_command = command,
          ex_callback = callback, ex_complete = complete, ex_abort = abort\<rparr> (gen_phone_res_expect s)\<rparr>))"

definition ipc_gen_phone_res_expect_unregister :: "addr \<Rightarrow> ril_world \<Rightarrow> int \<times> ril_world" where
  "ipc_gen_phone_res_expect_unregister expect s =
     (if \<not> fmt_data s then (-1, s)
      else (0, s\<lparr>gen_phone_res_expect := node_remove expect (gen_phone_res_expect s)\<rparr>))"

definition ipc_gen_phone_res_expect_flush :: "ril_world \<Rightarrow> int \<times> ril_world" where
  "ipc_gen_phone_res_expect_flush s =
     (if \<not> fmt_data s then (-1, s) else (0, s\<lparr>gen_phone_res_expect := []\<rparr>))"

definition ipc_gen_phone_res_expect_find_aseq :: "u8 \<Rightarrow> ril_world \<Rightarrow> addr option" where
  "ipc_gen_phone_res_expect_find_aseq aseq s =
     (if \<not> fmt_data s then None else node_find (\<lambda>e. ex_aseq e = aseq) (gen_phone_res_expect s))"

definition ipc_gen_phone_res_expect_callback :: "u8 \<Rightarrow> u16 \<Rightarrow> ipc_callback \<Rightarrow> ril_world \<Rightarrow> int \<times> ril_world" where
  "ipc_gen_phone_res_expect_callback aseq command callback s =
     (case ipc_gen_phone_res_expect_register aseq command (Some callback) False False s of
        (rc, s) \<Rightarrow> (if rc < 0 then -1 else 0, s))"

definition ipc_gen_phone_res_expect_complete :: "u8 \<Rightarrow> u16 \<Rightarrow> ril_world \<Rightarrow> int \<times> ril_world" where
  "ipc_gen_phone_res_expect_complete aseq command s =
     (case ipc_gen_phone_res_expect_register aseq command None True False s of
        (rc, s) \<Rightarrow> (if rc < 0 then -1 else 0, s))"

definition ipc_gen_phone_res_expect_abort :: "u8 \<Rightarrow> u16 \<Rightarrow> ril_world \<Rightarrow> int \<times> ril_world" where
  "ipc_gen_phone_res_expect_abort aseq command s =
     (case ipc_gen_phone_res_expect_register aseq command None False True s of
        (rc, s) \<Rightarrow> (if rc < 0 then -1 else 0, s))"

definition ipc_fmt_flush :: "ril_world \<Rightarrow> int \<times> ril_world" where
  "ipc_fmt_flush s =
     (if \<not> fmt_data s then (-1, s)
      else
        let (_, s) = ipc_fmt_request_flush s;
            (_, s) = ipc_gen_phone_res_expect_flush s in
        (0, s\<lparr>sim_icc_type := 0, hsdpa_status := 0, svc_session := 0, fmt_seq := 0x00\<rparr>))"

subsection \<open>Clients (client.c)\<close>

datatype ril_client = RIL_CLIENT_IPC_FMT | RIL_CLIENT_IPC_RFS | RIL_CLIENT_SRS

definition ril_clients :: "ril_client list" where
  "ril_clients = [RIL_CLIENT_IPC_FMT, RIL_CLIENT_IPC_RFS, RIL_CLIENT_SRS]"

definition ril_client_find_id :: "ril_client \<Rightarrow> ril_client option" where
  "ril_client_find_id client_id = find (\<lambda>c. c = client_id) ril_clients"

text \<open>The callbacks of the RFS and SRS clients are \<open>NULL\<close>.\<close>

definition ril_client_request_register :: "ril_client \<Rightarrow> int \<Rightarrow> ril_token \<Rightarrow> ril_world \<Rightarrow> int \<times> ril_world" where
  "ril_client_request_register client request token s = (case client of
      RIL_CLIENT_IPC_FMT \<Rightarrow> (case ipc_fmt_request_register request token s of (rc, s) \<Rightarrow> (if rc < 0 then -1 else 0, s))
    | _ \<Rightarrow> (-1, s))"

definition ril_client_request_unregister :: "ril_client \<Rightarrow> int \<Rightarrow> ril_token \<Rightarrow> ril_world \<Rightarrow> int \<times> ril_world" where
  "ril_client_request_unregister client request token s = (case client of
      RIL_CLIENT_IPC_FMT \<Rightarrow> (case ipc_fmt_request_unregister request token s of (rc, s) \<Rightarrow> (if rc < 0 then -1 else 0, s))
    | _ \<Rightarrow> (-1, s))"

definition ril_client_flush :: "ril_client \<Rightarrow> ril_world \<Rightarrow> int \<times> ril_world" where
  "ril_client_flush client s = (case client of
      RIL_CLIENT_IPC_FMT \<Rightarrow> (case ipc_fmt_flush s of (rc, s) \<Rightarrow> (if rc < 0 then -1 else 0, s))
    | _ \<Rightarrow> (-1, s))"

text \<open>\<open>for (i = 0; i < ril_clients_count; i++) f(ril_clients[i], ...)\<close>, the results ignored.\<close>

definition for_clients :: "(ril_client \<Rightarrow> ril_world \<Rightarrow> int \<times> ril_world) \<Rightarrow> ril_world \<Rightarrow> ril_world" where
  "for_clients f s = fold (\<lambda>c s. snd (f c s)) ril_clients s"

lemma for_clients_register:
  "for_clients (\<lambda>c. ril_client_request_register c request token) s = snd (ipc_fmt_request_register request token s)"
  by (simp add: for_clients_def ril_clients_def ril_client_request_register_def split_beta)

lemma for_clients_unregister:
  "for_clients (\<lambda>c. ril_client_request_unregister c request token) s = snd (ipc_fmt_request_unregister request token s)"
  by (simp add: for_clients_def ril_clients_def ril_client_request_unregister_def split_beta)

lemma for_clients_flush: "for_clients ril_client_flush s = snd (ipc_fmt_flush s)"
  by (simp add: for_clients_def ril_clients_def ril_client_flush_def split_beta)

subsection \<open>Lemmas\<close>

text \<open>One step of the counter, as a function on the byte alone.\<close>

definition seq_step :: "u8 \<Rightarrow> u8" where
  "seq_step q = (if (q + 1) mod 0xff = 0x00 then 0x01 else q + 1)"

lemma ipc_fmt_seq_step: "fmt_data s \<Longrightarrow> ipc_fmt_seq s = (seq_step (fmt_seq s), s\<lparr>fmt_seq := seq_step (fmt_seq s)\<rparr>)"
  by (simp add: ipc_fmt_seq_def seq_step_def Let_def)

lemma u8_cases: "P (q :: u8)" if "\<And>n. n < 256 \<Longrightarrow> P (of_nat n)"
  using that [of "unat q"] by simp

lemma seq_step_unat: "unat (seq_step q) = (if unat q \<ge> 254 then 1 else unat q + 1)"
proof -
  have "unat (q + 1) = (if unat q = 255 then 0 else unat q + 1)"
    using unat_u8_less [of q] by (auto simp: unat_plus_if_size word_size simp del: unat_u8_less)
  moreover have "unat ((q + 1) mod 0xff) = unat (q + 1) mod 255"
    by (simp add: unat_mod_distrib)
  moreover have "(q + 1) mod 0xff = 0 \<longleftrightarrow> unat ((q + 1) mod 0xff) = 0"
    by (simp add: unat_eq_zero)
  moreover have "unat q = 255 \<or> unat q = 254 \<or> unat q < 254"
    using unat_u8_less [of q] by linarith
  ultimately show ?thesis
    by (auto simp: seq_step_def)
qed

lemma seq_step_valid: "ipc_seq_valid (seq_step q)"
proof -
  have "1 \<le> unat (seq_step q)" and "unat (seq_step q) \<le> 254"
    using unat_u8_less [of q] by (auto simp: seq_step_unat)
  then have "unat (seq_step q) \<noteq> unat (0 :: u8)" and "unat (seq_step q) \<noteq> unat (0xff :: u8)"
    by auto
  then show ?thesis
    unfolding ipc_seq_valid_def by metis
qed

lemma seq_step_iter:
  "1 \<le> unat q \<Longrightarrow> unat q \<le> 254 \<Longrightarrow> unat ((seq_step ^^ n) q) = (unat q - 1 + n) mod 254 + 1"
proof (induction n)
  case (Suc n)
  define m where "m = (unat q - 1 + n) mod 254"
  have "m < 254"
    by (simp add: m_def)
  moreover have "(unat q - 1 + Suc n) mod 254 = (if m = 253 then 0 else Suc m)"
    by (simp only: m_def add_Suc_right mod_Suc) simp
  moreover have "unat ((seq_step ^^ n) q) = m + 1"
    using Suc by (simp only: m_def)
  ultimately show ?case
    by (simp only: funpow.simps o_apply seq_step_unat) simp
qed simp

lemma seq_step_iter_inj:
  assumes "1 \<le> unat q" "unat q \<le> 254" "m < n" "n < m + 254"
  shows "(seq_step ^^ m) q \<noteq> (seq_step ^^ n) q"
proof
  assume "(seq_step ^^ m) q = (seq_step ^^ n) q"
  then have "(unat q - 1 + m) mod 254 = (unat q - 1 + n) mod 254"
    using seq_step_iter [OF assms(1,2)] by (metis add_right_cancel)
  then have "254 dvd (unat q - 1 + n) - (unat q - 1 + m)"
    using assms(3) by (metis add_le_cancel_left less_imp_le mod_eq_dvd_iff_nat)
  then show False
    using assms(3,4) by (auto dest: dvd_imp_le)
qed

text \<open>Frames: what the FMT operations leave alone.\<close>

lemma ipc_fmt_seq_frame [simp]:
  "fmt_requests (snd (ipc_fmt_seq s)) = fmt_requests s" "fmt_data (snd (ipc_fmt_seq s)) = fmt_data s"
  by (simp_all add: ipc_fmt_seq_def Let_def)

lemma ipc_fmt_request_seq_cases:
  assumes "ipc_fmt_request_seq token s = (q, s')"
  shows "s' = s \<or> (fmt_data s \<and> q = seq_step (fmt_seq s) \<and>
    (\<exists>p. s' = s\<lparr>fmt_seq := q, fmt_requests := node_update p (\<lambda>f. f\<lparr>fr_seq := q\<rparr>) (fmt_requests s)\<rparr>))"
proof (cases "fmt_data s")
  case True
  then show ?thesis
    using assms
    by (auto simp: ipc_fmt_request_seq_def ipc_fmt_seq_step split: option.splits if_splits)
next
  case False
  then show ?thesis
    using assms by (simp add: ipc_fmt_request_seq_def ipc_fmt_request_find_token_def)
qed

lemma node_update_fr_seq [simp]:
  "map (\<lambda>n. (fr_request (snd n), fr_token (snd n))) (node_update p (\<lambda>f. f\<lparr>fr_seq := q\<rparr>) fs) =
   map (\<lambda>n. (fr_request (snd n), fr_token (snd n))) fs"
  by (induction fs) auto

lemma node_find_token_update [simp]:
  "node_find (\<lambda>f. fr_token f = t) (node_update p (\<lambda>f. f\<lparr>fr_seq := q\<rparr>) fs) = node_find (\<lambda>f. fr_token f = t) fs"
  by (induction fs) auto

lemma node_find_unique:
  assumes "distinct (map fst ns)" and "node_get ns p = Some x" and "P x"
    and "\<And>r y. (r, y) \<in> set ns \<Longrightarrow> r \<noteq> p \<Longrightarrow> \<not> P y"
  shows "node_find P ns = Some p"
  using assms
proof (induction ns)
  case (Cons n ns)
  show ?case
  proof (cases "fst n = p")
    case True
    with Cons.prems show ?thesis
      by (cases n) auto
  next
    case False
    with Cons.prems(4) [of "fst n" "snd n"] have "\<not> P (snd n)"
      by simp
    moreover have "node_find P ns = Some p"
      using Cons.prems False by (intro Cons.IH) (auto split: if_splits)
    ultimately show ?thesis
      by simp
  qed
qed simp

subsection \<open>Properties\<close>

text \<open>The world after \<open>n\<close> sequence numbers have been taken, and the next one.\<close>

definition seq_after :: "nat \<Rightarrow> ril_world \<Rightarrow> ril_world" where
  "seq_after n s = ((\<lambda>s. snd (ipc_fmt_seq s)) ^^ n) s"

lemma seq_after_step:
  assumes "fmt_data s"
  shows "fmt_data (seq_after n s) \<and> fmt_seq (seq_after n s) = (seq_step ^^ n) (fmt_seq s)"
  using assms by (induction n) (simp_all add: seq_after_def ipc_fmt_seq_step)

text \<open>The FMT sequence counter never produces the two reserved values \<open>0x00\<close> and \<open>0xff\<close>, from whatever
  byte it starts, and any 254 consecutive numbers it hands out are pairwise distinct: a number
  is reused only after all the 253 others.\<close>

theorem fmt_seq_cycle:
  assumes "fmt_data s" and "m < n" and "n < m + 254"
  shows "ipc_seq_valid (fst (ipc_fmt_seq (seq_after n s))) \<and>
    fst (ipc_fmt_seq (seq_after m s)) \<noteq> fst (ipc_fmt_seq (seq_after n s))"
proof -
  have out: "fst (ipc_fmt_seq (seq_after k s)) = (seq_step ^^ k) (seq_step (fmt_seq s))" for k
    using seq_after_step [OF assms(1), of k]
    by (simp add: ipc_fmt_seq_step) (metis comp_apply funpow_Suc_right funpow.simps(2))
  have start: "1 \<le> unat (seq_step (fmt_seq s))" "unat (seq_step (fmt_seq s)) \<le> 254"
    by (simp_all add: seq_step_unat)
  have "ipc_seq_valid ((seq_step ^^ k) (seq_step (fmt_seq s)))" for k
    by (cases k) (simp_all add: seq_step_valid)
  moreover have "(seq_step ^^ m) (seq_step (fmt_seq s)) \<noteq> (seq_step ^^ n) (seq_step (fmt_seq s))"
    using seq_step_iter_inj [OF start] assms(2,3) by simp
  ultimately show ?thesis
    by (simp add: out)
qed

theorem fmt_seq_cycle_witness:
  "ipc_seq_valid (fst (ipc_fmt_seq (seq_after 2 ((initial_world [])\<lparr>fmt_data := True, fmt_seq := 254\<rparr>))))"
  using fmt_seq_cycle [of "(initial_world [])\<lparr>fmt_data := True, fmt_seq := 254\<rparr>" 1 2] by simp

text \<open>C20. Sequence numbers and tokens correspond: once a sequence number has been taken for an
  outstanding request, asking again gives the same number without changing the state, and the
  modem's answer with that number is attributed to the same token, provided no other
  outstanding request holds that number.\<close>

theorem fmt_seq_token_roundtrip:
  assumes "fmt_data s" and "distinct (map fst (fmt_requests s))"
    and "ipc_fmt_request_find_token token s = Some p"
    and "ipc_fmt_request_seq token s = (q, s')"
    and "\<forall>(r, f) \<in> set (fmt_requests s). r \<noteq> p \<longrightarrow> fr_seq f \<noteq> q"
  shows "ipc_fmt_request_token q s' = token \<and> ipc_fmt_request_seq token s' = (q, s')"
proof -
  from assms(1,3) have "node_find (\<lambda>f. fr_token f = token) (fmt_requests s) = Some p"
    by (simp add: ipc_fmt_request_find_token_def)
  from node_find_Some_get [OF assms(2) this] obtain f
    where f: "node_get (fmt_requests s) p = Some f" "fr_token f = token"
    by blast
  have seq: "q = (if fr_seq f = 0xff then seq_step (fmt_seq s) else fr_seq f)" and "q \<noteq> 0xff"
    and s': "s' = (if fr_seq f = 0xff then s\<lparr>fmt_seq := q,
        fmt_requests := node_update p (\<lambda>f. f\<lparr>fr_seq := q\<rparr>) (fmt_requests s)\<rparr> else s)"
    using assms(1,3,4) f(1) seq_step_valid [of "fmt_seq s"]
    by (auto simp: ipc_fmt_request_seq_def ipc_fmt_seq_step ipc_seq_valid_def split: if_splits)
  have get': "\<exists>f'. node_get (fmt_requests s') p = Some f' \<and> fr_token f' = token \<and> fr_seq f' = q"
    using f s' seq by auto
  have "distinct (map fst (fmt_requests s'))"
    using assms(2) s' by simp
  moreover have "\<not> fr_seq y = q" if "(r, y) \<in> set (fmt_requests s')" "r \<noteq> p" for r y
    using that assms(5) s' by (auto simp: node_update_def split: if_splits)
  ultimately have "node_find (\<lambda>f. fr_seq f = q) (fmt_requests s') = Some p"
    using get' by (blast intro: node_find_unique)
  moreover have "fmt_data s'" and "ipc_fmt_request_find_token token s' = Some p"
    using assms(1,3) s' by (simp_all add: ipc_fmt_request_find_token_def)
  ultimately show ?thesis
    using get' \<open>q \<noteq> 0xff\<close>
    by (auto simp: ipc_fmt_request_token_def ipc_fmt_request_find_seq_def ipc_fmt_request_seq_def)
qed

theorem fmt_seq_token_roundtrip_witness:
  "ipc_fmt_request_token 1 (snd (ipc_fmt_request_seq 7
     ((initial_world [])\<lparr>fmt_data := True,
        fmt_requests := [(1, \<lparr>fr_request = 12, fr_token = 7, fr_seq = 0xff\<rparr>)]\<rparr>))) = 7"
  using fmt_seq_token_roundtrip
    [of "(initial_world [])\<lparr>fmt_data := True,
        fmt_requests := [(1, \<lparr>fr_request = 12, fr_token = 7, fr_seq = 0xff\<rparr>)]\<rparr>" 7 1 1
      "snd (ipc_fmt_request_seq 7 ((initial_world [])\<lparr>fmt_data := True,
        fmt_requests := [(1, \<lparr>fr_request = 12, fr_token = 7, fr_seq = 0xff\<rparr>)]\<rparr>))"]
  by (simp add: ipc_fmt_request_find_token_def ipc_fmt_request_seq_def ipc_fmt_seq_def Let_def initial_world_def)

text \<open>The close event of a client cannot be observed: \<open>ipc_fmt_close\<close> and \<open>ipc_rfs_close\<close> notify the loop
  with \<open>eventfd_send(fd, IPC_CLIENT_CLOSE)\<close>, but that value is zero, and after it every
  \<open>eventfd_recv\<close> fails, whatever the counter was; the I/O error event is received as sent.\<close>

lemma eventfd_close_unobservable:
  "fst (eventfd_recv (snd (eventfd_send IPC_CLIENT_CLOSE c))) = -1 \<and>
   fst (snd (eventfd_recv (snd (eventfd_send IPC_CLIENT_IO_ERROR c)))) = Some IPC_CLIENT_IO_ERROR"
  by (simp add: eventfd_recv_def eventfd_send_def eventfd_flush_def eventfd_read_def
    IPC_CLIENT_CLOSE_def IPC_CLIENT_IO_ERROR_def)

end
