(* ===== verification/Ril_Request.thy ===== *)
theory Ril_Request
  imports Ipc_Fmt
begin

section \<open>samsung-ril: the request queue and the request data\<close>

text \<open>
  The \<open>RIL request\<close> and \<open>RIL request data\<close> groups of \<open>samsung-ril.c\<close>: registering, finding, completing and
  removing requests, unsolicited responses, and the typed scratch storage (\<open>requests_data\<close>) by which
  handlers pass values to later handlers. A request pointer is the address of its node; removing a
  request through a dangling pointer is undefined (\<open>None\<close>), since \<open>ril_request_unregister\<close> reads the request
  before it looks for it in the queue.
\<close>

subsection \<open>The queue\<close>

definition ril_request_register ::
  "int \<Rightarrow> payload option \<Rightarrow> nat \<Rightarrow> ril_token \<Rightarrow> ril_world \<Rightarrow> (int \<times> ril_world) option" where
  "ril_request_register request data sz token s =
     (if \<not> ril_data_alive s then Some (-1, s)
      else do {
        copy \<leftarrow> (if sz > 0 then (case data of None \<Rightarrow> None | Some d \<Rightarrow> map_option Some (payload_copy sz d))
                 else Some None);
        let (p, s) = alloc s;
        let s = s\<lparr>requests := node_append p \<lparr>rq_request = request, rq_data = copy, rq_size = sz,
                    rq_token = token, rq_status = RIL_REQUEST_PENDING\<rparr> (requests s)\<rparr>;
        Some (0, for_clients (\<lambda>c. ril_client_request_register c request token) s)
      })"

definition ril_request_unregister :: "addr \<Rightarrow> ril_world \<Rightarrow> (int \<times> ril_world) option" where
  "ril_request_unregister p s =
     (if \<not> ril_data_alive s then Some (-1, s)
      else (case node_get (requests s) p of
          None \<Rightarrow> None
        | Some request \<Rightarrow>
            let s = for_clients (\<lambda>c. ril_client_request_unregister c (rq_request request) (rq_token request)) s in
            Some (0, s\<lparr>requests := node_remove p (requests s)\<rparr>)))"

definition ril_request_flush :: "ril_world \<Rightarrow> int \<times> ril_world" where
  "ril_request_flush s = (if \<not> ril_data_alive s then (-1, s) else (0, s\<lparr>requests := []\<rparr>))"

definition ril_request_find :: "ril_world \<Rightarrow> addr option" where
  "ril_request_find s = (if \<not> ril_data_alive s then None else node_find (\<lambda>r. True) (requests s))"

definition ril_request_find_request_status :: "int \<Rightarrow> int \<Rightarrow> ril_world \<Rightarrow> addr option" where
  "ril_request_find_request_status request status s =
     (if \<not> ril_data_alive s then None
      else node_find (\<lambda>r. rq_request r = request \<and> rq_status r = status) (requests s))"

definition ril_request_find_request :: "int \<Rightarrow> ril_world \<Rightarrow> addr option" where
  "ril_request_find_request request s =
     (if \<not> ril_data_alive s then None else node_find (\<lambda>r. rq_request r = request) (requests s))"

definition ril_request_find_token :: "ril_token \<Rightarrow> ril_world \<Rightarrow> addr option" where
  "ril_request_find_token token s =
     (if \<not> ril_data_alive s then None else node_find (\<lambda>r. rq_token r = token) (requests s))"

definition ril_request_find_status :: "int \<Rightarrow> ril_world \<Rightarrow> addr option" where
  "ril_request_find_status status s =
     (if \<not> ril_data_alive s then None else node_find (\<lambda>r. rq_status r = status) (requests s))"

definition ril_request_complete ::
  "ril_token \<Rightarrow> int \<Rightarrow> response \<Rightarrow> nat \<Rightarrow> ril_world \<Rightarrow> (int \<times> ril_world) option" where
  "ril_request_complete token error data sz s =
     (if \<not> ril_data_alive s \<or> \<not> env_complete s then Some (-1, s)
      else if token = 0 then Some (0, s)
      else do {
        (_, s) \<leftarrow> (case ril_request_find_token token s of
            None \<Rightarrow> Some (0, s)
          | Some request \<Rightarrow> ril_request_unregister request s);
        let s = emit (Complete token error data sz) s;
        Some (0, s\<lparr>loop_locked := False\<rparr>)
      })"

definition ril_request_unsolicited :: "int \<Rightarrow> response \<Rightarrow> nat \<Rightarrow> ril_world \<Rightarrow> int \<times> ril_world" where
  "ril_request_unsolicited request data sz s =
     (if \<not> ril_data_alive s \<or> \<not> env_unsolicited s then (-1, s) else (0, emit (Unsol request data sz) s))"

subsection \<open>Request data\<close>

definition ril_request_data_register :: "int \<Rightarrow> payload option \<Rightarrow> nat \<Rightarrow> ril_world \<Rightarrow> int \<times> ril_world" where
  "ril_request_data_register request data sz s = (case data of
      None \<Rightarrow> (-1, s)
    | Some d \<Rightarrow>
        if \<not> ril_data_alive s then (-1, s)
        else
          let (p, s) = alloc s in
          (0, s\<lparr>requests_data := node_append p \<lparr>rd_request = request, rd_data = d, rd_size = sz\<rparr> (requests_data s)\<rparr>))"

definition ril_request_data_unregister :: "addr \<Rightarrow> ril_world \<Rightarrow> int \<times> ril_world" where
  "ril_request_data_unregister p s =
     (if \<not> ril_data_alive s then (-1, s) else (0, s\<lparr>requests_data := node_remove p (requests_data s)\<rparr>))"

definition ril_request_data_flush :: "ril_world \<Rightarrow> int \<times> ril_world" where
  "ril_request_data_flush s = (if \<not> ril_data_alive s then (-1, s) else (0, s\<lparr>requests_data := []\<rparr>))"

definition ril_request_data_find_request :: "int \<Rightarrow> ril_world \<Rightarrow> addr option" where
  "ril_request_data_find_request request s =
     (if \<not> ril_data_alive s then None else node_find (\<lambda>d. rd_request d = request) (requests_data s))"

text \<open>The loop that removes the first matching entry until there is none; every round shortens the
  list, whose length bounds the number of rounds.\<close>

function ril_request_data_free :: "int \<Rightarrow> ril_world \<Rightarrow> ril_world" where
  "ril_request_data_free request s = (case ril_request_data_find_request request s of
      None \<Rightarrow> s
    | Some p \<Rightarrow> ril_request_data_free request (snd (ril_request_data_unregister p s)))"
  by pat_completeness auto
termination
proof (relation "measure (\<lambda>(_, s). length (requests_data s))", simp, goal_cases)
  case (1 request s p)
  then have "ril_data_alive s" and "p \<in> fst ` set (requests_data s)"
    by (auto simp: ril_request_data_find_request_def split: if_splits
      dest!: node_find_Some_in intro: rev_image_eqI)
  then have "length (filter (\<lambda>n. fst n \<noteq> p) (requests_data s)) < length (requests_data s)"
    by (auto intro: length_filter_less)
  with \<open>ril_data_alive s\<close> show ?case
    by (simp add: ril_request_data_unregister_def node_remove_def)
qed

declare ril_request_data_free.simps [simp del]

definition ril_request_data_set :: "int \<Rightarrow> payload option \<Rightarrow> nat \<Rightarrow> ril_world \<Rightarrow> (int \<times> ril_world) option" where
  "ril_request_data_set request data sz s = (case data of
      None \<Rightarrow> Some (-1, s)
    | Some d \<Rightarrow>
        if sz = 0 then Some (-1, s)
        else do {
          buffer \<leftarrow> payload_copy sz d;
          let (rc, s) = ril_request_data_register request (Some buffer) sz s;
          Some (if rc < 0 then -1 else 0, s)
        })"

definition ril_request_data_set_uniq :: "int \<Rightarrow> payload option \<Rightarrow> nat \<Rightarrow> ril_world \<Rightarrow> (int \<times> ril_world) option" where
  "ril_request_data_set_uniq request data sz s = do {
     (rc, s) \<leftarrow> ril_request_data_set request data sz (ril_request_data_free request s);
     Some (if rc < 0 then -1 else 0, s)
   }"

definition ril_request_data_size_get :: "int \<Rightarrow> ril_world \<Rightarrow> nat" where
  "ril_request_data_size_get request s = (case ril_request_data_find_request request s of
      None \<Rightarrow> 0
    | Some p \<Rightarrow> (case node_get (requests_data s) p of None \<Rightarrow> 0 | Some d \<Rightarrow> rd_size d))"

definition ril_request_data_get :: "int \<Rightarrow> ril_world \<Rightarrow> payload option \<times> ril_world" where
  "ril_request_data_get request s = (case ril_request_data_find_request request s of
      None \<Rightarrow> (None, s)
    | Some p \<Rightarrow> (map_option rd_data (node_get (requests_data s) p), snd (ril_request_data_unregister p s)))"

subsection \<open>What the queue operations do\<close>

text \<open>Removing a token from the queue and from its mirror in the FMT client.\<close>

definition remove_token :: "ril_token \<Rightarrow> ril_world \<Rightarrow> ril_world" where
  "remove_token token s = s\<lparr>requests := filter (\<lambda>n. rq_token (snd n) \<noteq> token) (requests s),
     fmt_requests := (if fmt_data s then filter (\<lambda>n. fr_token (snd n) \<noteq> token) (fmt_requests s) else fmt_requests s)\<rparr>"

lemma remove_token_simps [simp]:
  "requests (remove_token token s) = filter (\<lambda>n. rq_token (snd n) \<noteq> token) (requests s)"
  "ril_data_alive (remove_token token s) = ril_data_alive s" "env_complete (remove_token token s) = env_complete s"
  "env_unsolicited (remove_token token s) = env_unsolicited s" "radio_state (remove_token token s) = radio_state s"
  "sim_pin (remove_token token s) = sim_pin s"
  "requests_data (remove_token token s) = requests_data s"
  "data_connections (remove_token token s) = data_connections s"
  "loop_locked (remove_token token s) = loop_locked s" "next_addr (remove_token token s) = next_addr s"
  "fmt_data (remove_token token s) = fmt_data s" "trace (remove_token token s) = trace s"
  "gen_phone_res_expect (remove_token token s) = gen_phone_res_expect s"
  "fmt_available (remove_token token s) = fmt_available s" "fmt_ipc_client (remove_token token s) = fmt_ipc_client s"
  "fmt_event_fd (remove_token token s) = fmt_event_fd s" "io (remove_token token s) = io s"
  "fmt_seq (remove_token token s) = fmt_seq s"
  by (simp_all add: remove_token_def)

lemma mirror_tokens:
  assumes "fmt_mirror rs fs"
  shows "map (\<lambda>n. fr_token (snd n)) fs = map (\<lambda>n. rq_token (snd n)) rs"
  using arg_cong [OF assms [unfolded fmt_mirror_def], of "map snd"] by (simp add: comp_def)

lemma mirror_filter:
  "fmt_mirror rs fs \<Longrightarrow>
   fmt_mirror (filter (\<lambda>n. rq_token (snd n) \<noteq> t) rs) (filter (\<lambda>n. fr_token (snd n) \<noteq> t) fs)"
  unfolding fmt_mirror_def
proof (induction fs arbitrary: rs)
  case (Cons f fs)
  then show ?case
    by (cases rs) auto
qed simp

lemma mirror_unregister:
  assumes "fmt_mirror rs fs" and "distinct (map (\<lambda>n. rq_token (snd n)) rs)"
    and "(p, r) \<in> set rs"
  shows "node_find (\<lambda>f. fr_request f = rq_request r \<and> fr_token f = rq_token r) fs =
    node_find (\<lambda>f. fr_token f = rq_token r) fs"
proof (rule node_find_cong)
  fix f assume "f \<in> snd ` set fs"
  then have "(fr_request f, fr_token f) \<in> set (map (\<lambda>n. (fr_request (snd n), fr_token (snd n))) fs)"
    by (auto intro: rev_image_eqI)
  then obtain n where n: "n \<in> set rs" "fr_request f = rq_request (snd n)" "fr_token f = rq_token (snd n)"
    unfolding assms(1) [unfolded fmt_mirror_def] by auto
  show "(fr_request f = rq_request r \<and> fr_token f = rq_token r) = (fr_token f = rq_token r)"
  proof
    assume "fr_token f = rq_token r"
    then have "n = (p, r)"
      using n(1,3) by (intro distinct_map_eqD [OF assms(2) _ assms(3)]) simp_all
    then show "fr_request f = rq_request r \<and> fr_token f = rq_token r"
      using n by simp
  qed simp
qed

lemma mirror_remove:
  assumes "fmt_mirror rs fs" and "distinct (map (\<lambda>n. rq_token (snd n)) rs)" and "distinct (map fst fs)"
  shows "(case node_find (\<lambda>f. fr_token f = t) fs of None \<Rightarrow> fs | Some q \<Rightarrow> node_remove q fs) =
    filter (\<lambda>n. fr_token (snd n) \<noteq> t) fs"
proof (cases "node_find (\<lambda>f. fr_token f = t) fs")
  case None
  then have "filter (\<lambda>n. fr_token (snd n) \<noteq> t) fs = fs"
    by (intro filter_True) (auto simp: node_find_None)
  with None show ?thesis
    by simp
next
  case (Some q)
  have "distinct (map (\<lambda>n. fr_token (snd n)) fs)"
    using assms(1,2) by (simp add: mirror_tokens)
  with Some show ?thesis
    using node_remove_key [OF assms(3), of fr_token t q] by simp
qed

lemma ril_request_unregister_eq:
  assumes "ril_inv s" and "ril_data_alive s" and "node_get (requests s) p = Some r"
  shows "ril_request_unregister p s = Some (0, remove_token (rq_token r) s)"
proof -
  have inv: "distinct (map fst (requests s))" "distinct (map (\<lambda>n. rq_token (snd n)) (requests s))"
      "distinct (map fst (fmt_requests s))" "fmt_data s \<Longrightarrow> fmt_mirror (requests s) (fmt_requests s)"
    using assms(1) by (simp_all add: ril_inv_def nodes_ok_def)
  have mem: "(p, r) \<in> set (requests s)"
    using assms(3) by (rule map_of_SomeD)
  have "node_find (\<lambda>x. rq_token x = rq_token r) (requests s) = Some p"
    using inv(1) assms(3)
    by (rule node_find_unique) (use distinct_map_eqD [OF inv(2) mem] in auto)
  then have rs: "node_remove p (requests s) = filter (\<lambda>n. rq_token (snd n) \<noteq> rq_token r) (requests s)"
    by (rule node_remove_key [OF inv(1,2)])
  have "snd (ipc_fmt_request_unregister (rq_request r) (rq_token r) s) =
      s\<lparr>fmt_requests := (if fmt_data s then filter (\<lambda>n. fr_token (snd n) \<noteq> rq_token r) (fmt_requests s) else fmt_requests s)\<rparr>"
  proof (cases "fmt_data s")
    case True
    then show ?thesis
      using mirror_remove [OF inv(4) inv(2,3), of "rq_token r"] mirror_unregister [OF inv(4) inv(2) mem]
      by (auto simp: ipc_fmt_request_unregister_def split: option.splits)
  qed (simp add: ipc_fmt_request_unregister_def)
  then show ?thesis
    using assms(2,3) rs
    by (simp add: ril_request_unregister_def for_clients_unregister remove_token_def Let_def)
qed

lemma remove_token_absent:
  assumes "ril_inv s" and "\<forall>n \<in> set (requests s). rq_token (snd n) \<noteq> t"
  shows "remove_token t s = s"
proof -
  have "filter (\<lambda>n. rq_token (snd n) \<noteq> t) (requests s) = requests s"
    using assms(2) by (intro filter_True) blast
  moreover have "filter (\<lambda>n. fr_token (snd n) \<noteq> t) (fmt_requests s) = fmt_requests s" if "fmt_data s"
  proof (rule filter_True, rule ballI)
    fix n assume "n \<in> set (fmt_requests s)"
    then have "fr_token (snd n) \<in> set (map (\<lambda>n. fr_token (snd n)) (fmt_requests s))"
      by simp
    also have "\<dots> = set (map (\<lambda>n. rq_token (snd n)) (requests s))"
      using assms(1) that by (subst mirror_tokens) (auto simp: ril_inv_def)
    finally show "fr_token (snd n) \<noteq> t"
      using assms(2) by auto
  qed
  ultimately show ?thesis
    by (simp add: remove_token_def)
qed

text \<open>Finding a request by its token and removing it, as \<open>ril_request_complete\<close>, \<open>ril_on_request\<close> and \<open>ril_on_cancel\<close> do.\<close>

lemma unregister_token_eq:
  assumes "ril_inv s" and "ril_data_alive s"
  shows "(case ril_request_find_token token s of None \<Rightarrow> Some (0, s) | Some p \<Rightarrow> ril_request_unregister p s) =
    Some (0, remove_token token s)"
proof (cases "ril_request_find_token token s")
  case None
  then have "\<forall>n \<in> set (requests s). rq_token (snd n) \<noteq> token"
    using assms(2) by (auto simp: ril_request_find_token_def node_find_None)
  then show ?thesis
    using assms None by (simp add: remove_token_absent)
next
  case (Some p)
  then have find: "node_find (\<lambda>r. rq_token r = token) (requests s) = Some p"
    using assms(2) by (simp add: ril_request_find_token_def)
  have "distinct (map fst (requests s))"
    using assms(1) by (simp add: ril_inv_def nodes_ok_def)
  from node_find_Some_get [OF this find] obtain r
    where r: "node_get (requests s) p = Some r" "rq_token r = token"
    by blast
  with ril_request_unregister_eq [OF assms(1,2) r(1)] show ?thesis
    using Some by simp
qed

text \<open>\<open>ril_request_complete\<close> in closed form: it never runs into undefined behaviour.\<close>

lemma ril_request_complete_eq:
  assumes "ril_inv s" and "ril_data_alive s" and "env_complete s" and "token \<noteq> 0"
  shows "ril_request_complete token error data sz s =
    Some (0, (emit (Complete token error data sz) (remove_token token s))\<lparr>loop_locked := False\<rparr>)"
  using assms by (simp add: ril_request_complete_def unregister_token_eq)

lemma ril_inv_remove_token: "ril_inv s \<Longrightarrow> ril_inv (remove_token t s)"
  by (auto simp: ril_inv_def remove_token_def nodes_ok_def mirror_filter distinct_map_filter split: if_splits)

text \<open>The tokens of the queued requests. A sequence number leads to one of them or to none.\<close>

definition tokens :: "ril_world \<Rightarrow> ril_token set" where
  "tokens s = (\<lambda>n. rq_token (snd n)) ` set (requests s)"

lemma tokens_remove [simp]: "tokens (remove_token token s) = tokens s - {token}"
  by (auto simp: tokens_def)

lemma tokens_get: "node_get (requests s) p = Some r \<Longrightarrow> rq_token r \<in> tokens s"
  by (auto simp: tokens_def dest!: map_of_SomeD intro: rev_image_eqI)

lemma fmt_request_token_queued:
  assumes "ril_inv s" and "ipc_fmt_request_token q s \<noteq> 0"
  shows "ipc_fmt_request_token q s \<in> tokens s"
proof -
  obtain p where p: "ipc_fmt_request_find_seq q s = Some p"
    using assms(2) by (auto simp: ipc_fmt_request_token_def split: option.splits)
  then have data: "fmt_data s"
    by (simp add: ipc_fmt_request_find_seq_def split: if_splits)
  obtain f where "node_get (fmt_requests s) p = Some f"
    using p data by (auto simp: ipc_fmt_request_find_seq_def dest: node_find_Some_get_ex)
  with p assms(2) have "ipc_fmt_request_token q s \<in> set (map (\<lambda>n. fr_token (snd n)) (fmt_requests s))"
    by (auto simp: ipc_fmt_request_token_def dest!: map_of_SomeD intro: rev_image_eqI)
  moreover have "map (\<lambda>n. fr_token (snd n)) (fmt_requests s) = map (\<lambda>n. rq_token (snd n)) (requests s)"
    using assms(1) data by (intro mirror_tokens) (simp add: ril_inv_def)
  ultimately show ?thesis
    by (simp only: tokens_def set_map [symmetric])
qed

subsection \<open>Operations that leave the queue alone\<close>

text \<open>
  \<open>quiet s s'\<close>: between the two states no request was queued, removed or completed, the radio state and
  the environment are the same and the invariant is kept. Every primitive that a handler uses
  besides \<open>ril_request_complete\<close> is quiet; the rules are collected in \<open>wp_intro\<close>.
\<close>

definition quiet :: "ril_world \<Rightarrow> ril_world \<Rightarrow> bool" where
  "quiet s s' \<longleftrightarrow> requests s' = requests s \<and> ril_data_alive s' = ril_data_alive s \<and>
     env_complete s' = env_complete s \<and> env_unsolicited s' = env_unsolicited s \<and>
     radio_state s' = radio_state s \<and> loop_locked s' = loop_locked s \<and> fmt_data s' = fmt_data s \<and>
     completions (trace s') = completions (trace s) \<and> (ril_inv s \<longrightarrow> ril_inv s')"

lemma quiet_refl: "quiet s s"
  by (simp add: quiet_def)

lemma quiet_trans: "quiet s t \<Longrightarrow> quiet t u \<Longrightarrow> quiet s u"
  by (auto simp: quiet_def)

lemma quiet_wp:
  assumes "quiet base s" and "quiet s (snd p)" and "\<And>r s'. quiet base s' \<Longrightarrow> wp (f r s') Q"
  shows "wp (case p of (r, s') \<Rightarrow> f r s') Q"
  using assms quiet_trans by (cases p) fastforce

lemma quiet_unsolicited: "quiet s (snd (ril_request_unsolicited request data sz s))"
  by (simp add: quiet_def ril_request_unsolicited_def ril_inv_def)

lemma quiet_send: "quiet s (snd (ipc_fmt_send mseq cmd type data s))"
  by (simp add: quiet_def ipc_fmt_send_def ril_inv_def Let_def)

lemma quiet_expect_register: "quiet s (snd (ipc_gen_phone_res_expect_register aseq cmd cb c a s))"
  by (auto simp: quiet_def ipc_gen_phone_res_expect_register_def ril_inv_def alloc_def
    intro: nodes_ok_append_fresh nodes_ok_Suc)

lemma quiet_expect:
  "quiet s (snd (ipc_gen_phone_res_expect_callback aseq cmd cb s))"
  "quiet s (snd (ipc_gen_phone_res_expect_complete aseq cmd s))"
  "quiet s (snd (ipc_gen_phone_res_expect_abort aseq cmd s))"
  using quiet_expect_register [of s aseq cmd]
  by (simp_all add: ipc_gen_phone_res_expect_callback_def ipc_gen_phone_res_expect_complete_def
    ipc_gen_phone_res_expect_abort_def split_beta)

lemma quiet_expect_unregister: "quiet s (snd (ipc_gen_phone_res_expect_unregister p s))"
  by (simp add: quiet_def ipc_gen_phone_res_expect_unregister_def ril_inv_def nodes_ok_remove)

lemma quiet_seq: "quiet s (snd (ipc_fmt_request_seq token s))"
proof (cases "ipc_fmt_request_seq token s")
  case (Pair q s')
  from ipc_fmt_request_seq_cases [OF Pair] show ?thesis
    by (auto simp: Pair quiet_def ril_inv_def fmt_mirror_def nodes_ok_update)
qed

lemma quiet_data_register:
  "stored_payload request data sz \<Longrightarrow> quiet s (snd (ril_request_data_register request data sz s))"
  by (auto simp: quiet_def ril_request_data_register_def ril_inv_def alloc_def node_append_def
    intro: nodes_ok_append_fresh [unfolded node_append_def] nodes_ok_Suc split: option.split)

lemma quiet_data_unregister: "quiet s (snd (ril_request_data_unregister p s))"
  by (simp add: quiet_def ril_request_data_unregister_def ril_inv_def nodes_ok_remove set_node_remove)

lemma quiet_data_get: "quiet s (snd (ril_request_data_get request s))"
  by (simp add: ril_request_data_get_def quiet_data_unregister quiet_refl split: option.split)

lemma quiet_data_free: "quiet s (ril_request_data_free request s)"
proof (induction request s rule: ril_request_data_free.induct)
  case (1 request s)
  then show ?case
    by (subst ril_request_data_free.simps)
      (auto split: option.split intro: quiet_refl quiet_trans [OF quiet_data_unregister])
qed

lemma wp_data_set:
  assumes "quiet base s" and "stored_payload request data sz" and "\<And>r s'. quiet base s' \<Longrightarrow> Q r s'"
  shows "wp (ril_request_data_set request data sz s) Q"
proof (cases data)
  case (Some d)
  then obtain c where c: "payload_copy sz d = Some c" "stored_payload request (Some c) sz"
    using assms(2) stored_payload_copy by blast
  then have "quiet base (snd (ril_request_data_register request (Some c) sz s))"
    using assms(1) quiet_data_register quiet_trans by blast
  then show ?thesis
    using Some c assms(1,3) by (simp add: ril_request_data_set_def split_beta)
qed (use assms in \<open>simp add: ril_request_data_set_def\<close>)

lemma wp_data_set_uniq:
  assumes "quiet base s" and "stored_payload request data sz" and "\<And>r s'. quiet base s' \<Longrightarrow> Q r s'"
  shows "wp (ril_request_data_set_uniq request data sz s) Q"
  unfolding ril_request_data_set_uniq_def wp_bind
  by (rule wp_data_set [where base = base])
    (use assms quiet_data_free quiet_trans in \<open>auto\<close>)

lemma stored_payload_None: "stored_payload request None 0"
  by (simp add: stored_payload_def)

lemma data_get_bytes:
  "ril_inv s \<Longrightarrow> stored_payload request (fst (ril_request_data_get request s)) (ril_request_data_size_get request s)"
proof (cases "ril_request_data_find_request request s")
  case (Some p)
  assume inv: "ril_inv s"
  then have "distinct (map fst (requests_data s))"
    by (simp add: ril_inv_def nodes_ok_def)
  moreover have "node_find (\<lambda>d. rd_request d = request) (requests_data s) = Some p"
    using Some by (simp add: ril_request_data_find_request_def split: if_splits)
  ultimately obtain d where "node_get (requests_data s) p = Some d" "(p, d) \<in> set (requests_data s)" "rd_request d = request"
    by (blast dest: node_find_Some_get)
  with Some inv show ?thesis
    by (auto simp: ril_request_data_get_def ril_request_data_size_get_def ril_inv_def)
qed (simp add: ril_request_data_get_def ril_request_data_size_get_def stored_payload_None)

lemma wp_data_get:
  assumes "quiet base s" and "ril_inv base"
    and "\<And>d s'. quiet base s' \<Longrightarrow> stored_payload request d (ril_request_data_size_get request s) \<Longrightarrow> wp (f d s') Q"
  shows "wp (case ril_request_data_get request s of (d, s') \<Rightarrow> f d s') Q"
proof -
  have "ril_inv s"
    using assms(1,2) by (simp add: quiet_def)
  moreover have "quiet base (snd (ril_request_data_get request s))"
    using assms(1) quiet_data_get quiet_trans by blast
  ultimately show ?thesis
    using assms(3) data_get_bytes [of s request] by (cases "ril_request_data_get request s") simp
qed

lemmas wp_quiet [wp_intro] =
  quiet_wp [OF _ quiet_unsolicited] quiet_wp [OF _ quiet_send] quiet_wp [OF _ quiet_expect(1)]
  quiet_wp [OF _ quiet_expect(2)] quiet_wp [OF _ quiet_expect(3)] quiet_wp [OF _ quiet_expect_unregister]
  quiet_wp [OF _ quiet_seq] wp_data_get wp_data_set wp_data_set_uniq

lemma ril_inv_loop_locked [simp]: "ril_inv (s\<lparr>loop_locked := b\<rparr>) = ril_inv s"
  by (simp add: ril_inv_def)

lemma ril_inv_emit [simp]: "ril_inv (emit e s) = ril_inv s"
  by (simp add: ril_inv_def)

lemma ril_request_register_inv:
  assumes "ril_inv s" and "ril_data_alive s" and "\<forall>n \<in> set (requests s). rq_token (snd n) \<noteq> token"
    and "(if sz > 0 then (case data of None \<Rightarrow> None | Some d \<Rightarrow> map_option Some (payload_copy sz d)) else Some None) = Some d"
  shows "\<exists>s' p. ril_request_register request data sz token s = Some (0, s') \<and> ril_inv s' \<and> trace s' = trace s \<and>
    ril_data_alive s' \<and> env_complete s' = env_complete s \<and> radio_state s' = radio_state s \<and>
    requests s' = requests s @ [(p, \<lparr>rq_request = request, rq_data = d,
      rq_size = sz, rq_token = token, rq_status = RIL_REQUEST_PENDING\<rparr>)]"
proof -
  let ?r = "\<lparr>rq_request = request, rq_data = d, rq_size = sz, rq_token = token, rq_status = RIL_REQUEST_PENDING\<rparr>"
  let ?s' = "snd (ipc_fmt_request_register request token (s\<lparr>next_addr := Suc (next_addr s),
      requests := node_append (next_addr s) ?r (requests s)\<rparr>))"
  have reg: "ril_request_register request data sz token s = Some (0, ?s')"
    using assms(2,4) by (simp add: ril_request_register_def alloc_def for_clients_register)
  have ok: "\<forall>n \<in> set (requests_data s). stored_payload (rd_request (snd n)) (Some (rd_data (snd n))) (rd_size (snd n))"
    using assms(1) by (simp add: ril_inv_def)
  have nodes: "nodes_ok (next_addr s) (requests s)" "nodes_ok (next_addr s) (requests_data s)"
      "nodes_ok (next_addr s) (data_connections s)" "nodes_ok (next_addr s) (gen_phone_res_expect s)"
      "nodes_ok (next_addr s) (fmt_requests s)" "distinct (map (\<lambda>n. rq_token (snd n)) (requests s))"
      "fmt_data s \<Longrightarrow> fmt_mirror (requests s) (fmt_requests s)"
    using assms(1) by (simp_all add: ril_inv_def)
  have "distinct (map (\<lambda>n. rq_token (snd n)) (requests s @ [(next_addr s, ?r)]))"
    using nodes(6) assms(3) by auto
  then have "ril_inv ?s'"
    using ok nodes
    by (auto simp: ril_inv_def ipc_fmt_request_register_def alloc_def node_append_def fmt_mirror_def
      nodes_ok_Suc nodes_ok_append_fresh [unfolded node_append_def])
  moreover have "requests ?s' = requests s @ [(next_addr s, ?r)]"
    by (simp add: ipc_fmt_request_register_def alloc_def node_append_def)
  ultimately show ?thesis
    using reg assms(2) by (auto simp: ipc_fmt_request_register_def alloc_def)
qed

lemma node_remove_first_filter:
  assumes "distinct (map fst ns)" and "node_find P ns = Some p"
  shows "filter (\<lambda>n. \<not> P (snd n)) (node_remove p ns) = filter (\<lambda>n. \<not> P (snd n)) ns"
  using assms
proof (induction ns)
  case (Cons n ns)
  then show ?case
    by (cases "P (snd n)") (auto simp: node_remove_notin dest: node_find_Some_fst)
qed simp

lemma ril_request_data_free_eq:
  "ril_data_alive s \<Longrightarrow> distinct (map fst (requests_data s)) \<Longrightarrow>
   requests_data (ril_request_data_free request s) = filter (\<lambda>n. rd_request (snd n) \<noteq> request) (requests_data s)"
proof (induction request s rule: ril_request_data_free.induct)
  case (1 request s)
  show ?case
  proof (cases "node_find (\<lambda>d. rd_request d = request) (requests_data s)")
    case None
    then have "filter (\<lambda>n. rd_request (snd n) \<noteq> request) (requests_data s) = requests_data s"
      by (intro filter_True) (auto simp: node_find_None)
    with None 1 show ?thesis
      by (subst ril_request_data_free.simps) (simp add: ril_request_data_find_request_def)
  next
    case (Some p)
    have "requests_data (ril_request_data_free request (snd (ril_request_data_unregister p s))) =
        filter (\<lambda>n. rd_request (snd n) \<noteq> request) (node_remove p (requests_data s))"
      using Some 1 by (auto simp: ril_request_data_find_request_def ril_request_data_unregister_def)
    with Some show ?thesis
      using 1 node_remove_first_filter [OF 1(3) Some]
      by (subst ril_request_data_free.simps) (simp add: ril_request_data_find_request_def)
  qed
qed

lemma ril_request_data_free_alive [simp]: "ril_data_alive (ril_request_data_free request s) = ril_data_alive s"
  using quiet_data_free [of s request] by (simp add: quiet_def)

lemma node_find_last:
  assumes "\<forall>n \<in> set ns. \<not> P (snd n)" and "P x" and "p \<notin> fst ` set ns"
  shows "node_find P (node_append p x ns) = Some p" and "node_get (node_append p x ns) p = Some x"
    and "node_remove p (node_append p x ns) = ns"
  using assms by (induction ns) (auto simp: node_append_def)

lemma data_free_frame: "\<exists>ns. ril_request_data_free request s = s\<lparr>requests_data := ns\<rparr>"
proof (induction request s rule: ril_request_data_free.induct)
  case (1 request s)
  show ?case
  proof (cases "ril_request_data_find_request request s")
    case None
    then have "ril_request_data_free request s = s\<lparr>requests_data := requests_data s\<rparr>"
      by (subst ril_request_data_free.simps) simp
    then show ?thesis
      by blast
  next
    case (Some p)
    have "\<exists>ns. snd (ril_request_data_unregister p s) = s\<lparr>requests_data := ns\<rparr>"
    proof (cases "ril_data_alive s")
      case True
      then show ?thesis
        by (auto simp: ril_request_data_unregister_def)
    next
      case False
      then have "snd (ril_request_data_unregister p s) = s\<lparr>requests_data := requests_data s\<rparr>"
        by (simp add: ril_request_data_unregister_def)
      then show ?thesis
        by blast
    qed
    with Some 1 [OF Some] show ?thesis
      by (subst ril_request_data_free.simps) auto
  qed
qed

text \<open>Storing uniquely and fetching in closed form.\<close>

definition data_stored :: "int \<Rightarrow> payload \<Rightarrow> nat \<Rightarrow> ril_world \<Rightarrow> ril_world" where
  "data_stored request buffer sz s = s\<lparr>next_addr := Suc (next_addr s),
     requests_data := node_append (next_addr s) \<lparr>rd_request = request, rd_data = buffer, rd_size = sz\<rparr>
       (filter (\<lambda>n. rd_request (snd n) \<noteq> request) (requests_data s))\<rparr>"

definition data_fetched :: "int \<Rightarrow> ril_world \<Rightarrow> ril_world" where
  "data_fetched request s = s\<lparr>next_addr := Suc (next_addr s),
     requests_data := filter (\<lambda>n. rd_request (snd n) \<noteq> request) (requests_data s)\<rparr>"

lemma data_stored_emit: "data_stored request buffer sz (emit e s) = emit e (data_stored request buffer sz s)"
  "data_fetched request (emit e s) = emit e (data_fetched request s)"
  by (simp_all add: data_stored_def data_fetched_def emit_def)

lemma data_stored_inv:
  assumes "ril_inv s" and "stored_payload request (Some buffer) sz"
  shows "ril_inv (data_stored request buffer sz s)"
proof -
  have "nodes_ok (next_addr s) (filter (\<lambda>n. rd_request (snd n) \<noteq> request) (requests_data s))"
    using assms(1) by (auto simp: ril_inv_def nodes_ok_def distinct_map_filter)
  from nodes_ok_append_fresh [OF this] show ?thesis
    using assms by (auto simp: ril_inv_def data_stored_def nodes_ok_Suc node_append_def)
qed

lemma data_fetched_inv: "ril_inv s \<Longrightarrow> ril_inv (data_fetched request s)"
  by (auto simp: ril_inv_def data_fetched_def nodes_ok_def distinct_map_filter less_Suc_eq)

lemma data_set_uniq_eq:
  assumes "ril_inv s" and "ril_data_alive s" and "0 < sz" and "payload_copy sz d = Some buffer"
  shows "ril_request_data_set_uniq request (Some d) sz s = Some (0, data_stored request buffer sz s)"
proof -
  obtain ns where f: "ril_request_data_free request s = s\<lparr>requests_data := ns\<rparr>"
    using data_free_frame by blast
  have "distinct (map fst (requests_data s))"
    using assms(1) by (simp add: ril_inv_def nodes_ok_def)
  then have "ns = filter (\<lambda>n. rd_request (snd n) \<noteq> request) (requests_data s)"
    using ril_request_data_free_eq [OF assms(2), of request] f by simp
  with f show ?thesis
    using assms(2-4)
    by (simp add: ril_request_data_set_uniq_def ril_request_data_set_def ril_request_data_register_def
      alloc_def data_stored_def)
qed

lemma data_get_stored:
  assumes "ril_inv s" and "ril_data_alive t"
    and "requests_data t = requests_data (data_stored request buffer sz s)"
  shows "ril_request_data_size_get request t = sz"
    and "ril_request_data_get request t = (Some buffer,
      t\<lparr>requests_data := filter (\<lambda>n. rd_request (snd n) \<noteq> request) (requests_data s)\<rparr>)"
proof -
  have fresh: "next_addr s \<notin> fst ` set (filter (\<lambda>n. rd_request (snd n) \<noteq> request) (requests_data s))"
    using assms(1) by (auto simp: ril_inv_def nodes_ok_def)
  note last = node_find_last [where P = "\<lambda>d. rd_request d = request" and
    x = "\<lparr>rd_request = request, rd_data = buffer, rd_size = sz\<rparr>", OF _ _ fresh]
  show "ril_request_data_size_get request t = sz"
    and "ril_request_data_get request t = (Some buffer,
      t\<lparr>requests_data := filter (\<lambda>n. rd_request (snd n) \<noteq> request) (requests_data s)\<rparr>)"
    using assms(2,3) last
    by (simp_all add: ril_request_data_size_get_def ril_request_data_get_def ril_request_data_find_request_def
      ril_request_data_unregister_def data_stored_def)
qed

lemma data_get_eq:
  assumes "ril_inv s" and "ril_data_alive s"
  shows "ril_request_data_size_get request (data_stored request buffer sz s) = sz"
    and "ril_request_data_get request (data_stored request buffer sz s) = (Some buffer, data_fetched request s)"
  using assms data_get_stored [of s "data_stored request buffer sz s" request buffer sz]
  by (simp_all add: data_stored_def data_fetched_def)

subsection \<open>Properties\<close>

text \<open>C9. Completing a queued request is safe and happens exactly once: under the state invariant
  \<open>ril_request_complete\<close> returns normally, removes exactly that request from the queue, calls
  \<open>OnRequestComplete\<close> once with the given error and data, wakes the request loop and keeps the
  invariant; afterwards no sequence number is attributed to the token any more, so a late answer of the modem
  cannot complete it again.\<close>

theorem request_complete_exactly_once:
  assumes "ril_inv s" and "ril_data_alive s" and "env_complete s" and "token \<noteq> 0" and "fmt_data s"
    and "ril_request_find_token token s \<noteq> None"
  shows "\<exists>s'. ril_request_complete token error data sz s = Some (0, s') \<and> ril_inv s' \<and>
    requests s' = filter (\<lambda>n. rq_token (snd n) \<noteq> token) (requests s) \<and>
    Suc (length (requests s')) = length (requests s) \<and>
    trace s' = trace s @ [Complete token error data sz] \<and> \<not> loop_locked s' \<and>
    (\<forall>q. ipc_fmt_request_token q s' \<noteq> token)"
proof -
  let ?s' = "(emit (Complete token error data sz) (remove_token token s))\<lparr>loop_locked := False\<rparr>"
  obtain p where p: "node_find (\<lambda>r. rq_token r = token) (requests s) = Some p"
    using assms(2,6) by (auto simp: ril_request_find_token_def)
  have ds: "distinct (map fst (requests s))" "distinct (map (\<lambda>n. rq_token (snd n)) (requests s))"
    using assms(1) by (simp_all add: ril_inv_def nodes_ok_def)
  have "Suc (length (requests ?s')) = length (requests s)"
    using length_node_remove [OF ds(1) node_find_Some_fst [OF p]] node_remove_key [OF ds p] by simp
  moreover have "ipc_fmt_request_token q ?s' \<noteq> token" for q
    using assms(4,5)
    by (auto simp: ipc_fmt_request_token_def ipc_fmt_request_find_seq_def remove_token_def
      dest: map_of_SomeD split: option.split)
  ultimately show ?thesis
    using ril_request_complete_eq [OF assms(1-4)] ril_inv_remove_token [OF assms(1)] by simp
qed

theorem request_complete_exactly_once_witness:
  "\<exists>s'. ril_request_complete 7 RIL_E_SUCCESS RNull 0
      ((initial_world [])\<lparr>ril_data_alive := True, env_complete := True, fmt_data := True, next_addr := 3,
        requests := [(1, \<lparr>rq_request = 12, rq_data = None, rq_size = 0, rq_token = 7, rq_status = 1\<rparr>)],
        fmt_requests := [(2, \<lparr>fr_request = 12, fr_token = 7, fr_seq = 1\<rparr>)]\<rparr>) = Some (0, s') \<and>
    requests s' = []"
  using request_complete_exactly_once [of
      "(initial_world [])\<lparr>ril_data_alive := True, env_complete := True, fmt_data := True, next_addr := 3,
        requests := [(1, \<lparr>rq_request = 12, rq_data = None, rq_size = 0, rq_token = 7, rq_status = 1\<rparr>)],
        fmt_requests := [(2, \<lparr>fr_request = 12, fr_token = 7, fr_seq = 1\<rparr>)]\<rparr>" 7 RIL_E_SUCCESS RNull 0]
  by (auto simp: ril_inv_def nodes_ok_def fmt_mirror_def ril_request_find_token_def initial_world_def)

text \<open>Request data is delivered once: what \<open>ril_request_data_set_uniq\<close> stores for a request number
  replaces everything stored for it before, is returned unchanged with its size by \<open>ril_request_data_size_get\<close>
  and \<open>ril_request_data_get\<close>, and is gone afterwards; the data of other request numbers is untouched.\<close>

theorem request_data_roundtrip:
  assumes "ril_inv s" and "ril_data_alive s" and "0 < sz" and "payload_copy sz d = Some buffer"
  shows "\<exists>s' s''. ril_request_data_set_uniq request (Some d) sz s = Some (0, s') \<and>
    ril_request_data_size_get request s' = sz \<and>
    ril_request_data_get request s' = (Some buffer, s'') \<and>
    ril_request_data_find_request request s'' = None \<and>
    requests_data s'' = filter (\<lambda>n. rd_request (snd n) \<noteq> request) (requests_data s)"
  using data_set_uniq_eq [OF assms] data_get_eq [OF assms(1,2), of request buffer sz] assms(2)
  by (simp add: ril_request_data_find_request_def data_fetched_def node_find_None)

theorem request_data_roundtrip_witness:
  "\<exists>s' s''. ril_request_data_set_uniq RIL_REQUEST_HANGUP (Some (PBytes [1, 0, 0, 0])) 4
      ((initial_world [])\<lparr>ril_data_alive := True\<rparr>) = Some (0, s') \<and>
    ril_request_data_get RIL_REQUEST_HANGUP s' = (Some (PBytes [1, 0, 0, 0]), s'')"
  using request_data_roundtrip [of "(initial_world [])\<lparr>ril_data_alive := True\<rparr>" 4 "PBytes [1, 0, 0, 0]"
      "PBytes [1, 0, 0, 0]" RIL_REQUEST_HANGUP]
  by (auto simp: ril_inv_def initial_world_def payload_copy_def payload_size_def)

end
