(* ===== verification/Ril_Radio.thy ===== *)
theory Ril_Radio
  imports Ril_Request
begin

section \<open>samsung-ril: data connections and the radio state\<close>

text \<open>
  The connection list of \<open>data.c\<close> (its request and message handlers are in theory \<open>Ril_Data\<close>) and the
  \<open>RIL radio state\<close> group of \<open>samsung-ril.c\<close>, which flushes it. A data-connection pointer is the address of its node;
  reading or writing through a dangling one is undefined.
\<close>

subsection \<open>Data connections\<close>

definition ril_data_connection_register ::
  "u32 \<Rightarrow> string option \<Rightarrow> string option \<Rightarrow> string option \<Rightarrow> string option \<Rightarrow> ril_world \<Rightarrow> int \<times> ril_world" where
  "ril_data_connection_register cid apn username password iface s =
     (if apn = None \<or> \<not> ril_data_alive s then (-1, s)
      else
        let (p, s) = alloc s in
        (0, s\<lparr>data_connections := node_append p \<lparr>dc_cid = cid, dc_enabled = False, dc_attached = False,
          dc_apn = apn, dc_username = username, dc_password = password, dc_iface = iface, dc_ip = None,
          dc_gateway = None, dc_subnet_mask = None, dc_dns1 = None, dc_dns2 = None, dc_token = 0\<rparr>
          (data_connections s)\<rparr>))"

definition ril_data_connection_unregister :: "addr \<Rightarrow> ril_world \<Rightarrow> int \<times> ril_world" where
  "ril_data_connection_unregister p s =
     (if \<not> ril_data_alive s then (-1, s) else (0, s\<lparr>data_connections := node_remove p (data_connections s)\<rparr>))"

definition ril_data_connection_find_cid :: "u32 \<Rightarrow> ril_world \<Rightarrow> addr option" where
  "ril_data_connection_find_cid cid s =
     (if \<not> ril_data_alive s then None else node_find (\<lambda>c. dc_cid c = cid) (data_connections s))"

definition ril_data_connection_find_token :: "ril_token \<Rightarrow> ril_world \<Rightarrow> addr option" where
  "ril_data_connection_find_token token s =
     (if \<not> ril_data_alive s then None else node_find (\<lambda>c. dc_token c = token) (data_connections s))"

text \<open>The first free context number: the loop over \<open>i\<close>, which stops at the first \<open>i + 1\<close> in no use.\<close>

fun free_cid :: "nat \<Rightarrow> nat \<Rightarrow> ril_world \<Rightarrow> nat" where
  "free_cid 0 i s = i"
| "free_cid (Suc n) i s =
     (if ril_data_connection_find_cid (of_nat (i + 1)) s = None then i else free_cid n (i + 1) s)"

definition ril_data_connection_start ::
  "string option \<Rightarrow> string option \<Rightarrow> string option \<Rightarrow> ril_world \<Rightarrow> addr option \<times> ril_world" where
  "ril_data_connection_start apn username password s =
     (if apn = None \<or> \<not> fmt_data s \<or> \<not> fmt_ipc_client s then (None, s)
      else (case gprs_cid_count s of
          None \<Rightarrow> (None, s)
        | Some cid_count \<Rightarrow>
            let cid = free_cid cid_count 0 s + 1 in
            if cid > cid_count then (None, s)
            else (case gprs_iface s (of_nat cid) of
                None \<Rightarrow> (None, s)
              | Some iface \<Rightarrow>
                  let (rc, s) = ril_data_connection_register (of_nat cid) apn username password (Some iface) s in
                  if rc < 0 then (None, s) else (ril_data_connection_find_cid (of_nat cid) s, s))))"

definition ril_data_connection_stop :: "addr \<Rightarrow> ril_world \<Rightarrow> (int \<times> ril_world) option" where
  "ril_data_connection_stop p s = (case node_get (data_connections s) p of
      None \<Rightarrow> None
    | Some _ \<Rightarrow> (case ril_data_connection_unregister p s of (rc, s) \<Rightarrow> Some (if rc < 0 then -1 else 0, s)))"

text \<open>The loop of \<open>ril_data_connection_flush\<close>: stop the connection, then clear and free its memory, which
  is undefined unless it is still there, then drop its cell.\<close>

fun data_connection_flush_cells :: "addr list \<Rightarrow> ril_world \<Rightarrow> (int \<times> ril_world) option" where
  "data_connection_flush_cells [] s = Some (0, s)"
| "data_connection_flush_cells (p # ps) s = do {
     (_, s) \<leftarrow> ril_data_connection_stop p s;
     (case node_get (data_connections s) p of
        None \<Rightarrow> None
      | Some _ \<Rightarrow> data_connection_flush_cells ps (s\<lparr>data_connections := node_remove p (data_connections s)\<rparr>))
   }"

definition ril_data_connection_flush :: "ril_world \<Rightarrow> (int \<times> ril_world) option" where
  "ril_data_connection_flush s =
     (if \<not> ril_data_alive s then Some (-1, s) else data_connection_flush_cells (map fst (data_connections s)) s)"

text \<open>Activation and the network interface calls go to the driver and to libnetutils.\<close>

definition ril_data_connection_enable :: "addr \<Rightarrow> ril_world \<Rightarrow> (int \<times> ril_world) option" where
  "ril_data_connection_enable p s = (case node_get (data_connections s) p of
      None \<Rightarrow> None
    | Some c \<Rightarrow>
        if dc_iface c = None \<or> dc_ip c = None \<or> dc_gateway c = None \<or> dc_subnet_mask c = None then Some (-1, s)
        else if \<not> fmt_data s \<or> \<not> fmt_ipc_client s then Some (-1, s)
        else
          let rc = io_result s; s = emit (Modem ''gprs_activate'') (io_next s) in
          if rc < 0 then Some (-1, s)
          else
            let rc = io_result s; s = emit (Ifc ''ifc_configure'' (dc_iface c)) (io_next s) in
            if rc < 0 then Some (-1, s)
            else Some (0, s\<lparr>data_connections := node_update p (\<lambda>c. c\<lparr>dc_enabled := True\<rparr>) (data_connections s)\<rparr>))"

definition ril_data_connection_disable :: "addr \<Rightarrow> ril_world \<Rightarrow> (int \<times> ril_world) option" where
  "ril_data_connection_disable p s = (case node_get (data_connections s) p of
      None \<Rightarrow> None
    | Some c \<Rightarrow>
        if dc_iface c = None then Some (-1, s)
        else if \<not> fmt_data s \<or> \<not> fmt_ipc_client s then Some (-1, s)
        else
          let rc = io_result s; s = emit (Ifc ''ifc_reset_connections'' (dc_iface c)) (io_next s) in
          if rc < 0 then Some (-1, s)
          else
            let rc = io_result s; s = emit (Ifc ''ifc_disable'' (dc_iface c)) (io_next s) in
            if rc < 0 then Some (-1, s)
            else
              let rc = io_result s; s = emit (Modem ''gprs_deactivate'') (io_next s) in
              if rc < 0 then Some (-1, s)
              else Some (0, s\<lparr>data_connections := node_update p (\<lambda>c. c\<lparr>dc_enabled := False\<rparr>) (data_connections s)\<rparr>))"

subsection \<open>The radio state\<close>

definition radio_states :: "int list" where
  "radio_states = [RADIO_STATE_UNAVAILABLE, RADIO_STATE_OFF, RADIO_STATE_ON, RADIO_STATE_NV_NOT_READY,
     RADIO_STATE_NV_READY, RADIO_STATE_SIM_NOT_READY, RADIO_STATE_SIM_LOCKED_OR_ABSENT, RADIO_STATE_SIM_READY]"

text \<open>The position of a state in the array, its size when the state is not there.\<close>

fun state_index :: "int \<Rightarrow> int list \<Rightarrow> nat" where
  "state_index st [] = 0"
| "state_index st (x # xs) = (if x = st then 0 else Suc (state_index st xs))"

definition ril_radio_state_check :: "int \<Rightarrow> ril_world \<Rightarrow> int" where
  "ril_radio_state_check st s =
     (if \<not> ril_data_alive s then -1
      else if state_index (radio_state s) radio_states < state_index st radio_states then -1 else 0)"

text \<open>The loop that completes every queued request when the radio becomes unavailable: it completes the
  first request of the queue and then removes it from the queue through the same pointer.\<close>

partial_function (option) fail_all_requests :: "ril_world \<Rightarrow> (int \<times> ril_world) option" where
  "fail_all_requests s = (case ril_request_find s of
      None \<Rightarrow> Some (0, s)
    | Some p \<Rightarrow> (case node_get (requests s) p of
        None \<Rightarrow> None
      | Some request \<Rightarrow>
          Option.bind (ril_request_complete (rq_token request) RIL_E_RADIO_NOT_AVAILABLE RNull 0 s) (\<lambda>(_, s).
          Option.bind (ril_request_unregister p s) (\<lambda>(_, s). fail_all_requests s))))"

definition radio_off_tail :: "ril_world \<Rightarrow> (int \<times> ril_world) option" where
  "radio_off_tail s = do {
     (_, s) \<leftarrow> ril_data_connection_flush s;
     (_, s) \<leftarrow> Some (ril_request_unsolicited RIL_UNSOL_RESPONSE_CALL_STATE_CHANGED RNull 0 s);
     (_, s) \<leftarrow> Some (ril_request_unsolicited RIL_UNSOL_RESPONSE_VOICE_NETWORK_STATE_CHANGED RNull 0 s);
     (_, s) \<leftarrow> Some (ril_request_unsolicited RIL_UNSOL_DATA_CALL_LIST_CHANGED RNull 0 s);
     (_, s) \<leftarrow> Some (ril_request_unsolicited RIL_UNSOL_RESPONSE_SIM_STATUS_CHANGED RNull 0 s);
     Some (0, s)
   }"

definition ril_radio_state_update :: "int \<Rightarrow> ril_world \<Rightarrow> (int \<times> ril_world) option" where
  "ril_radio_state_update st s =
     (if \<not> ril_data_alive s then Some (-1, s)
      else if radio_state s = st then Some (0, s)
      else do {
        let s = s\<lparr>radio_state := st\<rparr>;
        (_, s) \<leftarrow> Some (ril_request_unsolicited RIL_UNSOL_RESPONSE_RADIO_STATE_CHANGED RNull 0 s);
        if st = RADIO_STATE_UNAVAILABLE then do {
          (_, s) \<leftarrow> fail_all_requests s;
          (_, s) \<leftarrow> Some (ril_request_flush s);
          (_, s) \<leftarrow> Some (ril_request_data_flush s);
          radio_off_tail (for_clients ril_client_flush s)
        }
        else if st = RADIO_STATE_OFF then radio_off_tail s
        else Some (0, s\<lparr>loop_locked := False\<rparr>)
      })"

definition ril_data_create :: "ril_world \<Rightarrow> int \<times> ril_world" where
  "ril_data_create s = (0, s\<lparr>ril_data_alive := True, env_complete := False, env_unsolicited := False,
     sim_pin := None, requests := [], requests_data := [], data_connections := [], loop_locked := True,
     radio_state := RADIO_STATE_UNAVAILABLE\<rparr>)"

definition ril_data_destroy :: "ril_world \<Rightarrow> int \<times> ril_world" where
  "ril_data_destroy s = (if \<not> ril_data_alive s then (-1, s) else (0, s\<lparr>ril_data_alive := False\<rparr>))"

definition ril_on_state_request :: "ril_world \<Rightarrow> int" where
  "ril_on_state_request s = (if \<not> ril_data_alive s then RADIO_STATE_UNAVAILABLE else radio_state s)"

subsection \<open>Lemmas\<close>

lemma radio_state_check_frame:
  "ril_data_alive t = ril_data_alive s \<Longrightarrow> radio_state t = radio_state s \<Longrightarrow>
   ril_radio_state_check state t = ril_radio_state_check state s"
  by (simp add: ril_radio_state_check_def)

lemma fail_all_requests_Nil: "requests s = [] \<Longrightarrow> fail_all_requests s = Some (0, s)"
  by (subst fail_all_requests.simps) (simp add: ril_request_find_def)

lemma ril_data_connection_flush_Nil:
  "data_connections s = [] \<Longrightarrow> ril_data_connection_flush s = Some (if ril_data_alive s then 0 else -1, s)"
  by (simp add: ril_data_connection_flush_def)

lemma ril_data_connection_flush_Cons:
  assumes "ril_data_alive s" and "data_connections s \<noteq> []"
  shows "ril_data_connection_flush s = None"
proof (cases "data_connections s")
  case (Cons n ns)
  with assms(1) show ?thesis
    by (cases n) (simp add: ril_data_connection_flush_def ril_data_connection_stop_def
      ril_data_connection_unregister_def)
qed (use assms(2) in simp)

lemma quiet_connection_register: "quiet s (snd (ril_data_connection_register cid a u p i s))"
  by (auto simp: quiet_def ril_data_connection_register_def ril_inv_def alloc_def
    intro: nodes_ok_append_fresh nodes_ok_Suc)

lemma quiet_connection_start: "quiet s (snd (ril_data_connection_start a u p s))"
  using quiet_connection_register [of s] quiet_refl [of s]
  by (simp add: ril_data_connection_start_def Let_def split_beta split: option.split)

lemma quiet_connection_unregister: "quiet s (snd (ril_data_connection_unregister p s))"
  by (simp add: quiet_def ril_data_connection_unregister_def ril_inv_def nodes_ok_remove)

lemma quiet_connection_update:
  "quiet s (s\<lparr>data_connections := node_update p f (data_connections s)\<rparr>)"
  by (simp add: quiet_def ril_inv_def nodes_ok_update)

text \<open>The context chosen by the search: either none is free or the chosen one is.\<close>

lemma free_cid_free:
  "free_cid n i s < i + n \<Longrightarrow> ril_data_connection_find_cid (of_nat (free_cid n i s + 1)) s = None"
proof (induction n arbitrary: i)
  case (Suc n)
  then show ?case
    by (cases "ril_data_connection_find_cid (of_nat (i + 1)) s = None") auto
qed simp

lemma ril_data_connection_start_new:
  assumes "ril_inv s" and "ril_data_alive s" and "ril_data_connection_start apn username password s = (Some p, s')"
  shows "\<exists>cid count. gprs_cid_count s = Some count \<and> 1 \<le> cid \<and> cid \<le> count \<and>
    ril_data_connection_find_cid (of_nat cid) s = None \<and>
    data_connections s' = data_connections s @ [(p, \<lparr>dc_cid = of_nat cid, dc_enabled = False, dc_attached = False,
          dc_apn = apn, dc_username = username, dc_password = password, dc_iface = gprs_iface s (of_nat cid),
          dc_ip = None, dc_gateway = None, dc_subnet_mask = None, dc_dns1 = None, dc_dns2 = None, dc_token = 0\<rparr>)]"
proof -
  obtain count where count: "gprs_cid_count s = Some count"
    using assms(3) by (auto simp: ril_data_connection_start_def split: if_splits option.splits)
  define cid where "cid = free_cid count 0 s + 1"
  have apn: "apn \<noteq> None" "fmt_data s" "fmt_ipc_client s"
    using assms(3) by (auto simp: ril_data_connection_start_def split: if_splits)
  have le: "cid \<le> count"
    using assms(3) apn count
    by (auto simp: ril_data_connection_start_def cid_def Let_def split: if_splits)
  obtain iface where iface: "gprs_iface s (of_nat cid) = Some iface"
    using assms(3) apn count le
    by (auto simp: ril_data_connection_start_def cid_def Let_def split: if_splits option.splits)
  have free: "ril_data_connection_find_cid (of_nat cid) s = None"
    using free_cid_free [of count 0 s] le by (simp add: cid_def)
  then have none: "\<forall>n \<in> set (data_connections s). dc_cid (snd n) \<noteq> of_nat cid"
    using assms(2) by (auto simp: ril_data_connection_find_cid_def node_find_None)
  have fresh: "next_addr s \<notin> fst ` set (data_connections s)"
    using assms(1) by (auto simp: ril_inv_def nodes_ok_def)
  let ?c = "\<lparr>dc_cid = of_nat cid, dc_enabled = False, dc_attached = False,
          dc_apn = apn, dc_username = username, dc_password = password, dc_iface = Some iface,
          dc_ip = None, dc_gateway = None, dc_subnet_mask = None, dc_dns1 = None, dc_dns2 = None, dc_token = 0\<rparr>"
  have "ril_data_connection_start apn username password s =
      (node_find (\<lambda>c. dc_cid c = of_nat cid) (node_append (next_addr s) ?c (data_connections s)),
       s\<lparr>next_addr := Suc (next_addr s), data_connections := node_append (next_addr s) ?c (data_connections s)\<rparr>)"
    using apn count le iface assms(2) cid_def [symmetric, simplified]
    by (auto simp: ril_data_connection_start_def ril_data_connection_register_def ril_data_connection_find_cid_def
      alloc_def Let_def)
  with node_find_last(1) [where P = "\<lambda>c. dc_cid c = of_nat cid" and x = ?c, OF none _ fresh] assms(3)
  have "p = next_addr s" and "data_connections s' = data_connections s @ [(next_addr s, ?c)]"
    by (auto simp: node_append_def)
  then show ?thesis
    using count le free iface by (intro exI [of _ cid] exI [of _ count]) (simp add: cid_def)
qed

subsection \<open>Properties\<close>

text \<open>C23. A new data connection gets a context of its own: when \<open>ril_data_connection_start\<close> succeeds, the
  context number lies between 1 and the number of contexts the modem has, no existing connection
  uses it, and the connection list stays free of duplicate context numbers.\<close>

theorem data_connection_cid_unique:
  assumes "ril_inv s" and "ril_data_alive s" and "ril_data_connection_start apn username password s = (Some p, s')"
    and "distinct (map (\<lambda>n. dc_cid (snd n)) (data_connections s))" and "the (gprs_cid_count s) < 2 ^ 32"
  shows "distinct (map (\<lambda>n. dc_cid (snd n)) (data_connections s')) \<and>
    (\<exists>c. node_get (data_connections s') p = Some c \<and> 1 \<le> unat (dc_cid c) \<and>
      unat (dc_cid c) \<le> the (gprs_cid_count s) \<and> ril_data_connection_find_cid (dc_cid c) s = None)"
proof -
  from ril_data_connection_start_new [OF assms(1-3)] obtain cid c where
    cid: "1 \<le> cid" "cid \<le> the (gprs_cid_count s)" "ril_data_connection_find_cid (of_nat cid) s = None"
    and dcs: "data_connections s' = data_connections s @ [(p, c)]" "dc_cid c = of_nat cid"
    by auto
  have none: "\<forall>n \<in> set (data_connections s). dc_cid (snd n) \<noteq> of_nat cid"
    using cid(3) assms(2) by (auto simp: ril_data_connection_find_cid_def node_find_None)
  have "unat (of_nat cid :: u32) = cid"
    using cid(2) assms(5) by (simp add: unat_of_nat take_bit_nat_eq_self)
  moreover have "ril_inv s'"
    using quiet_connection_start [of s apn username password] assms(1,3) by (simp add: quiet_def)
  then have "p \<notin> fst ` set (data_connections s)"
    using dcs by (auto simp: ril_inv_def nodes_ok_def)
  then have "node_get (data_connections s') p = Some c"
    by (auto simp: dcs map_add_Some_iff map_of_eq_None_iff)
  ultimately show ?thesis
    using cid none assms(4) dcs by auto
qed

theorem data_connection_cid_unique_witness:
  "distinct (map (\<lambda>n. dc_cid (snd n)) (data_connections (snd (ril_data_connection_start (Some ''net'') None None
     ((initial_world [])\<lparr>ril_data_alive := True, fmt_data := True, fmt_ipc_client := True\<rparr>)))))"
  using data_connection_cid_unique [of "(initial_world [])\<lparr>ril_data_alive := True, fmt_data := True, fmt_ipc_client := True\<rparr>"
      "Some ''net''" None None 1 "snd (ril_data_connection_start (Some ''net'') None None
     ((initial_world [])\<lparr>ril_data_alive := True, fmt_data := True, fmt_ipc_client := True\<rparr>))"]
  by (simp add: ril_data_connection_start_def ril_data_connection_register_def ril_data_connection_find_cid_def
    ril_inv_def initial_world_def alloc_def node_append_def numeral_3_eq_3)

text \<open>Flushing data connections is undefined as soon as there is one: \<open>ril_data_connection_flush\<close>
  clears and frees each connection after \<open>ril_data_connection_stop\<close> has already freed it together with its
  list cell. It returns exactly when the list is empty.\<close>

lemma data_connection_flush_double_free:
  assumes "ril_data_alive s"
  shows "ril_data_connection_flush s = None \<longleftrightarrow> data_connections s \<noteq> []"
  using ril_data_connection_flush_Cons [OF assms] ril_data_connection_flush_Nil [of s] by auto

lemma fail_all_requests_dangling:
  assumes "ril_inv s" and "ril_data_alive s" and "env_complete s" and "requests s = (p, r) # rs" and "rq_token r \<noteq> 0"
  shows "fail_all_requests s = None"
proof -
  have "ril_request_complete (rq_token r) RIL_E_RADIO_NOT_AVAILABLE RNull 0 s =
      Some (0, (emit (Complete (rq_token r) RIL_E_RADIO_NOT_AVAILABLE RNull 0) (remove_token (rq_token r) s))
        \<lparr>loop_locked := False\<rparr>)"
    by (rule ril_request_complete_eq [OF assms(1-3,5)])
  moreover have "p \<notin> fst ` set rs"
    using assms(1,4) by (simp add: ril_inv_def nodes_ok_def)
  then have "map_of (filter (\<lambda>n. rq_token (snd n) \<noteq> rq_token r) (requests s)) p = None"
    using assms(4) by (auto simp: map_of_eq_None_iff)
  ultimately show ?thesis
    using assms(2,4)
    by (subst fail_all_requests.simps) (simp add: ril_request_find_def ril_request_unregister_def)
qed

text \<open>When the radio becomes unavailable while a request is queued, the RIL uses freed memory:
  \<open>ril_radio_state_update\<close> completes the first request, which removes and frees it, and then passes the
  same pointer to \<open>ril_request_unregister\<close>, which reads the request before it searches the queue.\<close>

lemma radio_unavailable_dangling:
  assumes "ril_inv s" and "ril_data_alive s" and "env_complete s"
    and "radio_state s \<noteq> RADIO_STATE_UNAVAILABLE" and "requests s = (p, r) # rs" and "rq_token r \<noteq> 0"
  shows "ril_radio_state_update RADIO_STATE_UNAVAILABLE s = None"
proof -
  let ?t = "snd (ril_request_unsolicited RIL_UNSOL_RESPONSE_RADIO_STATE_CHANGED RNull 0
    (s\<lparr>radio_state := RADIO_STATE_UNAVAILABLE\<rparr>))"
  have "fail_all_requests ?t = None"
    using assms by (intro fail_all_requests_dangling [of _ p r rs])
      (auto simp: ril_request_unsolicited_def ril_inv_def)
  then show ?thesis
    using assms by (simp add: ril_radio_state_update_def split_beta)
qed

text \<open>With no request queued and no data connection, a radio that becomes unavailable or is
  switched off is handled as intended: the call returns, the FMT client's request list, expectations and
  sequence counter and the request data are reset (when it became unavailable), and the environment is told of the radio, call,
  network, data-call and SIM changes, in this order.\<close>

theorem radio_down_idle:
  assumes "ril_data_alive s" and "env_unsolicited s" and "requests s = []" and "data_connections s = []"
    and "st = RADIO_STATE_UNAVAILABLE \<or> st = RADIO_STATE_OFF" and "radio_state s \<noteq> st" and "fmt_data s"
  shows "\<exists>s'. ril_radio_state_update st s = Some (0, s') \<and> radio_state s' = st \<and>
    trace s' = trace s @ [Unsol RIL_UNSOL_RESPONSE_RADIO_STATE_CHANGED RNull 0,
      Unsol RIL_UNSOL_RESPONSE_CALL_STATE_CHANGED RNull 0,
      Unsol RIL_UNSOL_RESPONSE_VOICE_NETWORK_STATE_CHANGED RNull 0,
      Unsol RIL_UNSOL_DATA_CALL_LIST_CHANGED RNull 0,
      Unsol RIL_UNSOL_RESPONSE_SIM_STATUS_CHANGED RNull 0] \<and>
    (st = RADIO_STATE_UNAVAILABLE \<longrightarrow> fmt_requests s' = [] \<and> gen_phone_res_expect s' = [] \<and> fmt_seq s' = 0 \<and>
      requests_data s' = []) \<and> (ril_inv s \<longrightarrow> ril_inv s')"
  using assms(5)
proof
  assume "st = RADIO_STATE_OFF"
  then show ?thesis
    using assms by (simp add: ril_radio_state_update_def radio_off_tail_def ril_data_connection_flush_Nil
        ril_request_unsolicited_def radio_state_defs ril_inv_def)
next
  assume "st = RADIO_STATE_UNAVAILABLE"
  then show ?thesis
    using assms by (simp add: ril_radio_state_update_def radio_off_tail_def ril_data_connection_flush_Nil
        fail_all_requests_Nil ril_request_flush_def ril_request_data_flush_def for_clients_flush ipc_fmt_flush_def
        ipc_fmt_request_flush_def ipc_gen_phone_res_expect_flush_def ril_request_unsolicited_def
        radio_state_defs ril_inv_def fmt_mirror_def)
qed

theorem radio_down_idle_witness:
  "\<exists>s'. ril_radio_state_update RADIO_STATE_UNAVAILABLE
     ((initial_world [])\<lparr>ril_data_alive := True, env_unsolicited := True, fmt_data := True, fmt_seq := 9\<rparr>) = Some (0, s') \<and>
     fmt_seq s' = 0"
  using radio_down_idle [of "(initial_world [])\<lparr>ril_data_alive := True, env_unsolicited := True, fmt_data := True, fmt_seq := 9\<rparr>"
      RADIO_STATE_UNAVAILABLE]
  by (auto simp: radio_state_defs initial_world_def)

text \<open>The order on radio states that the handlers rely on: a check against a state passes exactly
  when every check against a state earlier in the list passes too; in particular calls, which need the SIM
  interface, are held back in exactly the five states before it, and a state outside the list, such as
  a RUIM state, passes every check.\<close>

lemma radio_state_check_order:
  assumes "ril_data_alive s" and "st \<in> set radio_states"
  shows "(ril_radio_state_check st s = 0 \<longleftrightarrow>
      (\<forall>st' \<in> set (take (Suc (state_index st radio_states)) radio_states). ril_radio_state_check st' s = 0)) \<and>
    (ril_radio_state_check RADIO_STATE_SIM_NOT_READY s < 0 \<longleftrightarrow>
      radio_state s \<in> {RADIO_STATE_UNAVAILABLE, RADIO_STATE_OFF, RADIO_STATE_ON, RADIO_STATE_NV_NOT_READY,
        RADIO_STATE_NV_READY}) \<and>
    (radio_state s \<notin> set radio_states \<longrightarrow> ril_radio_state_check st s = 0)"
proof (intro conjI impI)
  let ?cur = "state_index (radio_state s) radio_states"
  have check: "ril_radio_state_check x s = 0 \<longleftrightarrow> state_index x radio_states \<le> ?cur" for x
    using assms(1) by (simp add: ril_radio_state_check_def linorder_not_less)
  have all: "\<forall>x \<in> set radio_states. state_index x radio_states < length radio_states \<and>
      (\<forall>y \<in> set (take (Suc (state_index x radio_states)) radio_states).
        state_index y radio_states \<le> state_index x radio_states) \<and>
      x \<in> set (take (Suc (state_index x radio_states)) radio_states)"
    by (simp add: radio_states_def radio_state_defs)
  show "ril_radio_state_check st s = 0 \<longleftrightarrow>
      (\<forall>st' \<in> set (take (Suc (state_index st radio_states)) radio_states). ril_radio_state_check st' s = 0)"
    using bspec [OF all assms(2)] unfolding check by (blast intro: order_trans)
  have "?cur < 5 \<longleftrightarrow> radio_state s \<in> {RADIO_STATE_UNAVAILABLE, RADIO_STATE_OFF, RADIO_STATE_ON,
      RADIO_STATE_NV_NOT_READY, RADIO_STATE_NV_READY}"
    by (auto simp: radio_states_def)
  moreover have "state_index RADIO_STATE_SIM_NOT_READY radio_states = 5"
    by (simp add: radio_states_def radio_state_defs)
  ultimately show "ril_radio_state_check RADIO_STATE_SIM_NOT_READY s < 0 \<longleftrightarrow>
      radio_state s \<in> {RADIO_STATE_UNAVAILABLE, RADIO_STATE_OFF, RADIO_STATE_ON, RADIO_STATE_NV_NOT_READY,
        RADIO_STATE_NV_READY}"
    using assms(1) by (simp add: ril_radio_state_check_def)
  assume "radio_state s \<notin> set radio_states"
  then have "?cur = length radio_states"
    by (auto simp: radio_states_def)
  with bspec [OF all assms(2)] show "ril_radio_state_check st s = 0"
    unfolding check by simp
qed

end
