(* ===== verification/Ril_Handler.thy ===== *)
theory Ril_Handler
  imports Ril_Radio
begin

section \<open>samsung-ril: the contracts of request and message handlers\<close>

text \<open>
  A request handler gets the payload, its size and the token of a queued request, a message handler
  gets a message from the modem. The contract of the first is the locale \<open>request_handler\<close>: the handler returns a
  status; \<open>HANDLED\<close> and \<open>UNHANDLED\<close> leave the queue and the completions as they were, \<open>COMPLETED\<close> means that
  exactly this request was completed. The contract of the second is the locale \<open>message_handler\<close>: at most
  the request with the message's sequence number is completed. The component theories
  interpret the locales on their handlers; the request loop and the dispatcher rest on them. The generic response
  handler of \<open>gen.c\<close>, which runs the callbacks of other components, is here too.
\<close>

type_synonym req_handler = "payload option \<Rightarrow> nat \<Rightarrow> ril_token \<Rightarrow> ril_world \<Rightarrow> (int \<times> ril_world) option"
type_synonym msg_handler = "ipc_message \<Rightarrow> ril_world \<Rightarrow> (int \<times> ril_world) option"

subsection \<open>Request handlers\<close>

text \<open>The common error exit: \<open>ril_request_complete(token, error, NULL, 0)\<close>, then \<open>RIL_REQUEST_COMPLETED\<close>.\<close>

definition request_failed :: "ril_token \<Rightarrow> int \<Rightarrow> ril_world \<Rightarrow> (int \<times> ril_world) option" where
  "request_failed token error s = do {
     (_, s) \<leftarrow> ril_request_complete token error RNull 0 s;
     Some (RIL_REQUEST_COMPLETED, s)
   }"

definition handler_pre :: "ril_token \<Rightarrow> ril_world \<Rightarrow> bool" where
  "handler_pre token s \<longleftrightarrow> ril_inv s \<and> ril_data_alive s \<and> env_complete s \<and> token \<noteq> 0"

definition handler_post :: "ril_token \<Rightarrow> ril_world \<Rightarrow> int \<Rightarrow> ril_world \<Rightarrow> bool" where
  "handler_post token s status s' \<longleftrightarrow>
     (status \<in> {RIL_REQUEST_HANDLED, RIL_REQUEST_UNHANDLED} \<and> quiet s s') \<or>
     (status = RIL_REQUEST_COMPLETED \<and>
       (\<exists>t error data sz. quiet s t \<and> ril_request_complete token error data sz t = Some (0, s')))"

lemma handler_pre_inv: "handler_pre token s \<Longrightarrow> ril_inv s"
  by (simp add: handler_pre_def)

lemma handler_pre_quiet: "handler_pre token s \<Longrightarrow> quiet s t \<Longrightarrow> handler_pre token t"
  by (simp add: handler_pre_def quiet_def)

lemma wp_request_complete:
  assumes "quiet base s" and "handler_pre token base"
    and "\<And>s'. ril_request_complete token error data sz s = Some (0, s') \<Longrightarrow> Q 0 s'"
  shows "wp (ril_request_complete token error data sz s) Q"
  using handler_pre_quiet [OF assms(2,1)] assms(3)
  by (simp add: handler_pre_def ril_request_complete_eq)

lemma handler_post_quiet [simp]:
  "handler_post token s RIL_REQUEST_HANDLED s' = quiet s s'"
  "handler_post token s RIL_REQUEST_UNHANDLED s' = quiet s s'"
  by (simp_all add: handler_post_def)

lemma handler_post_completed:
  "quiet s t \<Longrightarrow> ril_request_complete token error data sz t = Some (0, s') \<Longrightarrow>
   handler_post token s RIL_REQUEST_COMPLETED s'"
  by (auto simp: handler_post_def)

lemma wp_request_failed [wp_intro]:
  assumes "quiet base s" and "handler_pre token base"
  shows "wp (request_failed token error s) (handler_post token base)"
  unfolding request_failed_def wp_bind
  by (rule wp_request_complete [OF assms]) (auto intro: handler_post_completed [OF assms(1)])

lemma handler_post_effect:
  assumes "handler_pre token s" and "handler_post token s status s'"
  shows "status \<in> {RIL_REQUEST_HANDLED, RIL_REQUEST_UNHANDLED, RIL_REQUEST_COMPLETED} \<and> ril_inv s' \<and>
    ril_data_alive s' \<and> env_complete s' \<and> radio_state s' = radio_state s \<and> fmt_data s' = fmt_data s \<and>
    (if status = RIL_REQUEST_COMPLETED
     then requests s' = filter (\<lambda>n. rq_token (snd n) \<noteq> token) (requests s) \<and>
       completions (trace s') = completions (trace s) @ [token]
     else requests s' = requests s \<and> completions (trace s') = completions (trace s))"
proof (cases "status = RIL_REQUEST_COMPLETED")
  case True
  then obtain t error data sz where t: "quiet s t" "ril_request_complete token error data sz t = Some (0, s')"
    using assms(2) by (auto simp: handler_post_def)
  have pre: "ril_inv t" "ril_data_alive t" "env_complete t" "token \<noteq> 0"
    using handler_pre_quiet [OF assms(1) t(1)] by (simp_all add: handler_pre_def)
  have "s' = (emit (Complete token error data sz) (remove_token token t))\<lparr>loop_locked := False\<rparr>"
    using t(2) ril_request_complete_eq [OF pre] by simp
  then show ?thesis
    using True t(1) pre by (simp add: quiet_def ril_inv_remove_token)
next
  case False
  then show ?thesis
    using assms by (auto simp: handler_post_def handler_pre_def quiet_def)
qed

lemma wp_request_complete_post [wp_intro]:
  assumes "quiet base s" and "handler_pre token base"
  shows "wp (ril_request_complete token error data sz s) (\<lambda>r. handler_post token base RIL_REQUEST_COMPLETED)"
  by (rule wp_request_complete [OF assms]) (auto intro: handler_post_completed [OF assms(1)])

locale request_handler =
  fixes handler :: req_handler
    and accepts :: "payload option \<Rightarrow> nat \<Rightarrow> bool"
  assumes correct: "handler_pre token s \<Longrightarrow> accepts data sz \<Longrightarrow> wp (handler data sz token s) (handler_post token s)"
begin

lemma effect:
  assumes "handler_pre token s" and "accepts data sz"
  shows "\<exists>status s'. handler data sz token s = Some (status, s') \<and> handler_post token s status s'"
  using correct [OF assms] by (auto simp: wp_def)

end

text \<open>Reading the payload of a request: \<open>*((int *) data)\<close> and \<open>*((char *) data)\<close>. Which kind of object the
  payload is, and that it is as large as the size says, is up to the caller of the RIL.\<close>

definition payload_int :: "payload \<Rightarrow> int option" where
  "payload_int p = (case p of PBytes bs \<Rightarrow> read_int bs | _ \<Rightarrow> None)"

definition payload_byte :: "payload \<Rightarrow> u8 option" where
  "payload_byte p = (case p of PBytes (b # bs) \<Rightarrow> Some b | _ \<Rightarrow> None)"

definition any_payload :: "payload option \<Rightarrow> nat \<Rightarrow> bool" where
  "any_payload data sz = True"

lemma bytes_payload_int: "bytes_payload (Some d) sz \<Longrightarrow> payload_int d = None \<Longrightarrow> sz < 4"
proof (cases d)
  case (PBytes bs)
  moreover assume "bytes_payload (Some d) sz" and "payload_int d = None"
  ultimately have "sz \<le> length bs" and "read_int bs = None"
    by (simp_all add: bytes_payload_def payload_int_def)
  then show "sz < 4"
    using read_int_Some [of bs] by fastforce
qed (simp_all add: bytes_payload_def)

lemma bytes_payload_byte: "bytes_payload (Some d) sz \<Longrightarrow> payload_byte d = None \<Longrightarrow> sz = 0"
  by (auto simp: bytes_payload_def payload_byte_def split: payload.splits list.splits)

text \<open>The calls nested in the handlers: \<open>f(ipc_fmt_request_seq(token), ...)\<close>.\<close>

definition fmt_send_for :: "ril_token \<Rightarrow> u16 \<Rightarrow> u8 \<Rightarrow> u8 list \<Rightarrow> ril_world \<Rightarrow> int \<times> ril_world" where
  "fmt_send_for token cmd type data s =
     (case ipc_fmt_request_seq token s of (seq, s) \<Rightarrow> ipc_fmt_send seq cmd type data s)"

definition expect_abort_for :: "ril_token \<Rightarrow> u16 \<Rightarrow> ril_world \<Rightarrow> int \<times> ril_world" where
  "expect_abort_for token cmd s =
     (case ipc_fmt_request_seq token s of (seq, s) \<Rightarrow> ipc_gen_phone_res_expect_abort seq cmd s)"

definition expect_complete_for :: "ril_token \<Rightarrow> u16 \<Rightarrow> ril_world \<Rightarrow> int \<times> ril_world" where
  "expect_complete_for token cmd s =
     (case ipc_fmt_request_seq token s of (seq, s) \<Rightarrow> ipc_gen_phone_res_expect_complete seq cmd s)"

definition expect_callback_for :: "ril_token \<Rightarrow> u16 \<Rightarrow> ipc_callback \<Rightarrow> ril_world \<Rightarrow> int \<times> ril_world" where
  "expect_callback_for token cmd cb s =
     (case ipc_fmt_request_seq token s of (seq, s) \<Rightarrow> ipc_gen_phone_res_expect_callback seq cmd cb s)"

lemma quiet_for:
  "quiet s (snd (fmt_send_for token cmd type data s))" "quiet s (snd (expect_abort_for token cmd s))"
  "quiet s (snd (expect_complete_for token cmd s))" "quiet s (snd (expect_callback_for token cmd cb s))"
  by (simp_all add: fmt_send_for_def expect_abort_for_def expect_complete_for_def expect_callback_for_def
    split_beta quiet_trans [OF quiet_seq quiet_send] quiet_trans [OF quiet_seq quiet_expect(1)]
    quiet_trans [OF quiet_seq quiet_expect(2)] quiet_trans [OF quiet_seq quiet_expect(3)])

lemmas wp_quiet_for [wp_intro] =
  quiet_wp [OF _ quiet_for(1)] quiet_wp [OF _ quiet_for(2)] quiet_wp [OF _ quiet_for(3)] quiet_wp [OF _ quiet_for(4)]

lemma quiet_data_free_trans [wp_intro]: "quiet base s \<Longrightarrow> quiet base (ril_request_data_free request s)"
  using quiet_data_free quiet_trans by blast

text \<open>The same calls in closed form when the FMT client can send.\<close>

definition fmt_ready :: "ril_world \<Rightarrow> bool" where
  "fmt_ready s \<longleftrightarrow> fmt_data s \<and> fmt_ipc_client s \<and> 0 \<le> fmt_event_fd s \<and> fmt_available s \<and> 0 \<le> io_result s"

definition expecting :: "ipc_gen_phone_res_expect \<Rightarrow> ril_world \<Rightarrow> ril_world" where
  "expecting e s = s\<lparr>next_addr := Suc (next_addr s),
     gen_phone_res_expect := node_append (next_addr s) e (gen_phone_res_expect s)\<rparr>"

lemma ipc_fmt_request_seq_again:
  assumes "ipc_fmt_request_seq token s = (q, s')"
  shows "ipc_fmt_request_seq token s' = (q, s')"
proof (cases "ipc_fmt_request_find_token token s")
  case (Some p)
  then have data: "fmt_data s"
    by (simp add: ipc_fmt_request_find_token_def split: if_splits)
  with Some obtain f where f: "node_get (fmt_requests s) p = Some f"
    by (auto simp: ipc_fmt_request_find_token_def dest: node_find_Some_get_ex)
  show ?thesis
  proof (cases "fr_seq f = 0xff")
    case True
    then have "q = seq_step (fmt_seq s)" and "s' = s\<lparr>fmt_seq := q,
        fmt_requests := node_update p (\<lambda>f. f\<lparr>fr_seq := q\<rparr>) (fmt_requests s)\<rparr>"
      using assms Some f data by (auto simp: ipc_fmt_request_seq_def ipc_fmt_seq_step)
    moreover have "q \<noteq> 0xff"
      using calculation(1) seq_step_valid [of "fmt_seq s"] by (simp add: ipc_seq_valid_def)
    ultimately show ?thesis
      using Some f data by (simp add: ipc_fmt_request_seq_def ipc_fmt_request_find_token_def)
  qed (use assms Some f in \<open>auto simp: ipc_fmt_request_seq_def\<close>)
qed (use assms in \<open>auto simp: ipc_fmt_request_seq_def\<close>)

lemma ipc_fmt_request_seq_expecting [simp]:
  "ipc_fmt_request_seq token (expecting e s) = apsnd (expecting e) (ipc_fmt_request_seq token s)"
  by (simp add: ipc_fmt_request_seq_def expecting_def ipc_fmt_request_find_token_def ipc_fmt_seq_def Let_def
    split: option.split)

lemma expect_eq:
  assumes "fmt_data s"
  shows "ipc_gen_phone_res_expect_abort q cmd s = (0, expecting \<lparr>ex_aseq = q, ex_command = cmd, ex_callback = None,
      ex_complete = False, ex_abort = True\<rparr> s)"
    and "ipc_gen_phone_res_expect_complete q cmd s = (0, expecting \<lparr>ex_aseq = q, ex_command = cmd, ex_callback = None,
      ex_complete = True, ex_abort = False\<rparr> s)"
    and "ipc_gen_phone_res_expect_callback q cmd cb s = (0, expecting \<lparr>ex_aseq = q, ex_command = cmd,
      ex_callback = Some cb, ex_complete = False, ex_abort = False\<rparr> s)"
  using assms by (simp_all add: ipc_gen_phone_res_expect_abort_def ipc_gen_phone_res_expect_complete_def
    ipc_gen_phone_res_expect_callback_def ipc_gen_phone_res_expect_register_def alloc_def expecting_def)

lemma expect_for_eq:
  assumes "ipc_fmt_request_seq token s = (q, s')" and "fmt_data s'"
  shows "expect_abort_for token cmd s = (0, expecting \<lparr>ex_aseq = q, ex_command = cmd, ex_callback = None,
      ex_complete = False, ex_abort = True\<rparr> s')"
    and "expect_complete_for token cmd s = (0, expecting \<lparr>ex_aseq = q, ex_command = cmd, ex_callback = None,
      ex_complete = True, ex_abort = False\<rparr> s')"
  using assms by (simp_all add: expect_abort_for_def expect_complete_for_def expect_eq)

lemma fmt_ready_simps [simp]:
  "fmt_ready (expecting e s) = fmt_ready s" "fmt_ready (s\<lparr>requests_data := rd, next_addr := n\<rparr>) = fmt_ready s"
  "fmt_ready (emit ev s) = fmt_ready s"
  by (simp_all add: fmt_ready_def expecting_def io_result_def)

lemma ipc_fmt_send_eq:
  "fmt_ready s \<Longrightarrow> ipc_fmt_send q cmd ty data s = (0, emit (Sent q cmd ty data) (io_next s))"
  by (simp add: ipc_fmt_send_def fmt_ready_def Let_def)

lemma fmt_ready_seq:
  "ipc_fmt_request_seq token s = (q, s') \<Longrightarrow> fmt_ready s' = fmt_ready s"
  by (drule ipc_fmt_request_seq_cases) (auto simp: fmt_ready_def io_result_def)

lemma fmt_ready_data: "fmt_ready s \<Longrightarrow> fmt_data s"
  by (simp add: fmt_ready_def)

lemma trace_seq: "ipc_fmt_request_seq token s = (q, s') \<Longrightarrow> trace s' = trace s"
  by (drule ipc_fmt_request_seq_cases) auto

lemma expect_send_eq:
  assumes "ipc_fmt_request_seq token s = (q, s')" and "fmt_ready s"
  shows "fmt_send_for token cmd ty data s = (0, emit (Sent q cmd ty data) (io_next s'))"
    and "fmt_send_for token cmd ty data (expecting e s') = (0, emit (Sent q cmd ty data) (io_next (expecting e s')))"
  using assms ipc_fmt_request_seq_again [OF assms(1)] fmt_ready_seq [OF assms(1)]
  by (simp_all add: fmt_send_for_def ipc_fmt_send_eq)

lemma expecting_simps [simp]:
  "trace (expecting e s) = trace s" "requests (expecting e s) = requests s"
  "fmt_requests (expecting e s) = fmt_requests s" "fmt_data (expecting e s) = fmt_data s"
  "requests_data (expecting e s) = requests_data s" "ril_data_alive (expecting e s) = ril_data_alive s"
  by (simp_all add: expecting_def)

subsection \<open>Message handlers\<close>

definition message_pre :: "ril_world \<Rightarrow> bool" where
  "message_pre s \<longleftrightarrow> ril_inv s \<and> ril_data_alive s \<and> env_complete s"

definition message_post :: "u8 \<Rightarrow> ril_world \<Rightarrow> int \<Rightarrow> ril_world \<Rightarrow> bool" where
  "message_post q s rc s' \<longleftrightarrow> (rc = 0 \<or> rc = -1) \<and>
     (quiet s s' \<or>
      (\<exists>t u error data sz. quiet s t \<and> ril_request_complete (ipc_fmt_request_token q t) error data sz t = Some (0, u) \<and>
        quiet u s'))"

lemma message_pre_inv: "message_pre s \<Longrightarrow> ril_inv s"
  by (simp add: message_pre_def)

lemma message_pre_quiet: "message_pre s \<Longrightarrow> quiet s t \<Longrightarrow> message_pre t"
  by (simp add: message_pre_def quiet_def)

lemma message_post_quiet: "quiet s s' \<Longrightarrow> message_post q s 0 s'" "quiet s s' \<Longrightarrow> message_post q s (-1) s'"
  by (simp_all add: message_post_def)

lemma ril_request_complete_Some:
  assumes "message_pre s"
  shows "\<exists>s'. ril_request_complete token error data sz s = Some (0, s') \<and> message_pre s'"
proof (cases "token = 0")
  case True
  then show ?thesis
    using assms by (simp add: message_pre_def ril_request_complete_def)
next
  case False
  then show ?thesis
    using assms ril_request_complete_eq [of s token error data sz] ril_inv_remove_token [of s token]
    by (simp add: message_pre_def)
qed

lemma wp_message_complete:
  assumes "quiet base s" and "message_pre base"
    and "\<And>s'. ril_request_complete token error data sz s = Some (0, s') \<Longrightarrow> message_pre s' \<Longrightarrow> Q 0 s'"
  shows "wp (ril_request_complete token error data sz s) Q"
  using ril_request_complete_Some [OF message_pre_quiet [OF assms(2,1)], of token error data sz] assms(3)
  by (auto simp: wp_def)

lemma message_post_completed:
  "quiet s t \<Longrightarrow> ril_request_complete (ipc_fmt_request_token q t) error data sz t = Some (0, u) \<Longrightarrow> quiet u s' \<Longrightarrow>
   message_post q s 0 s'"
  unfolding message_post_def by blast

text \<open>The common exit of message handlers: complete the request with the message's sequence number.\<close>

definition message_complete :: "u8 \<Rightarrow> int \<Rightarrow> response \<Rightarrow> nat \<Rightarrow> ril_world \<Rightarrow> (int \<times> ril_world) option" where
  "message_complete aseq error data sz s = do {
     (_, s) \<leftarrow> ril_request_complete (ipc_fmt_request_token aseq s) error data sz s;
     Some (0, s)
   }"

lemma wp_message_complete_post [wp_intro]:
  assumes "quiet base s" and "message_pre base"
  shows "wp (message_complete q error data sz s) (message_post q base)"
  unfolding message_complete_def wp_bind
  by (rule wp_message_complete [OF assms]) (auto intro: message_post_completed [OF assms(1)] quiet_refl)

text \<open>The weaker contract that also covers handlers which complete a request they find in another way than by the
  message's sequence number: at most one request is completed, and it is a queued one.\<close>

definition completing_post :: "ril_world \<Rightarrow> int \<Rightarrow> ril_world \<Rightarrow> bool" where
  "completing_post s rc s' \<longleftrightarrow> (rc = 0 \<or> rc = -1) \<and>
     (quiet s s' \<or>
      (\<exists>t u token error data sz. quiet s t \<and> token \<in> tokens t \<and> ril_request_complete token error data sz t = Some (0, u) \<and>
        quiet u s'))"

lemma quiet_tokens: "quiet s t \<Longrightarrow> tokens t = tokens s"
  by (simp add: quiet_def tokens_def)

lemma completing_post_done:
  "quiet s t \<Longrightarrow> token \<in> tokens t \<Longrightarrow> ril_request_complete token error data sz t = Some (0, u) \<Longrightarrow> quiet u s' \<Longrightarrow>
   completing_post s 0 s'"
  unfolding completing_post_def by blast

lemma completing_post_quiet: "quiet s s' \<Longrightarrow> completing_post s 0 s'" "quiet s s' \<Longrightarrow> completing_post s (-1) s'"
  by (simp_all add: completing_post_def)

lemma message_post_completing:
  assumes "message_pre s" and "message_post q s rc s'"
  shows "completing_post s rc s'"
proof (cases "quiet s s'")
  case False
  then obtain t u error data sz where t: "quiet s t" "quiet u s'"
      "ril_request_complete (ipc_fmt_request_token q t) error data sz t = Some (0, u)"
    using assms(2) by (auto simp: message_post_def)
  have pre: "message_pre t"
    using assms(1) t(1) by (rule message_pre_quiet)
  have "ipc_fmt_request_token q t \<noteq> 0"
  proof
    assume "ipc_fmt_request_token q t = 0"
    then have "u = t"
      using t(3) pre by (simp add: ril_request_complete_def message_pre_def)
    with t(1,2) False quiet_trans show False
      by blast
  qed
  then have "ipc_fmt_request_token q t \<in> tokens t"
    using pre by (simp add: fmt_request_token_queued message_pre_def)
  with t assms(2) show ?thesis
    unfolding completing_post_def message_post_def by blast
qed (use assms(2) in \<open>auto simp: completing_post_def message_post_def\<close>)

text \<open>The weakest contract, that of every message handler: the state stays well formed, and some queued requests are
  completed, each once.\<close>

definition safe_post :: "ril_world \<Rightarrow> int \<Rightarrow> ril_world \<Rightarrow> bool" where
  "safe_post s rc s' \<longleftrightarrow> (rc = 0 \<or> rc = -1) \<and> message_pre s' \<and> fmt_data s' = fmt_data s \<and>
     (\<exists>ts. distinct ts \<and> set ts \<subseteq> tokens s \<and> requests s' = filter (\<lambda>n. rq_token (snd n) \<notin> set ts) (requests s) \<and>
       completions (trace s') = completions (trace s) @ ts)"

lemma safe_post_quiet:
  assumes "message_pre s" and "quiet s s'" and "rc = 0 \<or> rc = -1"
  shows "safe_post s rc s'"
  using assms message_pre_quiet [OF assms(1,2)] unfolding safe_post_def quiet_def
  by (auto intro: exI [of _ "[]"])

lemma complete_effect:
  assumes "message_pre s" and "ril_request_complete token error data sz s = Some (rc, u)" and "token \<noteq> 0"
  shows "message_pre u \<and> radio_state u = radio_state s \<and> fmt_data u = fmt_data s \<and> data_connections u = data_connections s \<and>
    requests u = filter (\<lambda>n. rq_token (snd n) \<noteq> token) (requests s) \<and>
    completions (trace u) = completions (trace s) @ [token]"
  using assms ril_request_complete_eq [of s token error data sz]
  by (auto simp: message_pre_def ril_inv_remove_token)

lemma safe_post_trans:
  assumes "safe_post s rc t" and "safe_post t rc' u"
  shows "safe_post s rc' u"
proof -
  obtain ts where ts: "distinct ts" "set ts \<subseteq> tokens s" "requests t = filter (\<lambda>n. rq_token (snd n) \<notin> set ts) (requests s)"
      "completions (trace t) = completions (trace s) @ ts"
    using assms(1) by (auto simp: safe_post_def)
  obtain us where us: "distinct us" "set us \<subseteq> tokens t" "requests u = filter (\<lambda>n. rq_token (snd n) \<notin> set us) (requests t)"
      "completions (trace u) = completions (trace t) @ us"
    using assms(2) by (auto simp: safe_post_def)
  have disj: "set ts \<inter> set us = {}" and sub: "set us \<subseteq> tokens s"
    using us(2) ts(3) by (auto simp: tokens_def)
  have "requests u = filter (\<lambda>n. rq_token (snd n) \<notin> set (ts @ us)) (requests s)"
    using us(3) ts(3) by (auto intro: filter_cong)
  then show ?thesis
    using assms ts us disj sub unfolding safe_post_def by (auto intro!: exI [of _ "ts @ us"])
qed

lemma safe_post_complete:
  assumes "message_pre s" and "ril_request_complete token error data sz s = Some (rc, u)" and "token \<in> tokens s \<or> token = 0"
  shows "safe_post s 0 u"
proof (cases "token = 0")
  case True
  then have "u = s"
    using assms(1,2) by (simp add: ril_request_complete_def message_pre_def)
  with assms(1) show ?thesis
    by (simp add: safe_post_quiet quiet_refl)
next
  case False
  then show ?thesis
    using assms complete_effect [OF assms(1,2)] by (auto simp: safe_post_def intro!: exI [of _ "[token]"])
qed

lemma completing_post_effect:
  assumes "message_pre s" and "completing_post s rc s'"
  shows "safe_post s rc s'"
proof (cases "quiet s s'")
  case True
  then show ?thesis
    using safe_post_quiet [OF assms(1)] assms(2) by (simp add: completing_post_def)
next
  case False
  then obtain t u token error data sz where t: "quiet s t" "quiet u s'" "token \<in> tokens t"
      "ril_request_complete token error data sz t = Some (0, u)"
    using assms(2) by (auto simp: completing_post_def)
  have rc: "rc = 0 \<or> rc = -1"
    using assms(2) by (simp add: completing_post_def)
  have t': "safe_post s 0 t" "message_pre t"
    using safe_post_quiet [OF assms(1) t(1)] message_pre_quiet [OF assms(1) t(1)] by simp_all
  have u: "safe_post t 0 u"
    using safe_post_complete [OF t'(2) t(4)] t(3) by simp
  then have "message_pre u"
    by (simp add: safe_post_def)
  from safe_post_quiet [OF this t(2) rc] have "safe_post u rc s'" .
  with t'(1) u show ?thesis
    using safe_post_trans by blast
qed

lemma message_post_safe: "message_pre s \<Longrightarrow> message_post q s rc s' \<Longrightarrow> safe_post s rc s'"
  by (intro completing_post_effect message_post_completing)

lemma wp_safe_trans:
  assumes "safe_post s rc t" and "wp m (safe_post t)"
  shows "wp m (safe_post s)"
  by (rule wp_mono [OF assms(2)]) (rule safe_post_trans [OF assms(1)])

text \<open>Raising the radio state changes nothing but that state, and wakes the request loop.\<close>

lemma radio_state_update_up:
  assumes "message_pre s" and "st \<noteq> RADIO_STATE_UNAVAILABLE" and "st \<noteq> RADIO_STATE_OFF"
  shows "\<exists>s'. ril_radio_state_update st s = Some (0, s') \<and> safe_post s 0 s' \<and> radio_state s' = st \<and>
    requests s' = requests s \<and> fmt_requests s' = fmt_requests s \<and> requests_data s' = requests_data s \<and>
    next_addr s' = next_addr s \<and> env_unsolicited s' = env_unsolicited s \<and>
    trace s' = trace s @ (if radio_state s \<noteq> st \<and> env_unsolicited s
      then [Unsol RIL_UNSOL_RESPONSE_RADIO_STATE_CHANGED RNull 0] else [])"
proof (cases "radio_state s = st")
  case True
  then show ?thesis
    using assms(1) safe_post_quiet [OF assms(1) quiet_refl] by (simp add: ril_radio_state_update_def message_pre_def)
next
  case False
  let ?t = "snd (ril_request_unsolicited RIL_UNSOL_RESPONSE_RADIO_STATE_CHANGED RNull 0 (s\<lparr>radio_state := st\<rparr>))\<lparr>loop_locked := False\<rparr>"
  have "ril_radio_state_update st s = Some (0, ?t)"
    using assms False by (simp add: ril_radio_state_update_def message_pre_def Let_def split_beta)
  moreover have "safe_post s 0 ?t"
    using assms(1) unfolding safe_post_def
    by (intro conjI exI [of _ "[]"]) (auto simp: message_pre_def ril_inv_def ril_request_unsolicited_def)
  ultimately show ?thesis
    using False assms(1) by (auto simp: ril_request_unsolicited_def message_pre_def)
qed

locale safe_handler =
  fixes handler :: msg_handler
    and accepts :: "ipc_message \<Rightarrow> ril_world \<Rightarrow> bool"
  assumes safe: "message_pre s \<Longrightarrow> accepts m s \<Longrightarrow> wp (handler m s) (safe_post s)"
begin

lemma keeps_invariant:
  assumes "message_pre s" and "accepts m s"
  shows "\<exists>rc s'. handler m s = Some (rc, s') \<and> message_pre s' \<and> length (requests s') \<le> length (requests s) \<and>
    tokens s' \<subseteq> tokens s"
proof -
  obtain rc s' where h: "handler m s = Some (rc, s')" "safe_post s rc s'"
    using safe [OF assms] by (auto simp: wp_def)
  then show ?thesis
    by (auto simp: safe_post_def tokens_def intro: length_filter_le)
qed

end

locale completing_handler =
  fixes handler :: msg_handler
    and accepts :: "ipc_message \<Rightarrow> ril_world \<Rightarrow> bool"
  assumes completes: "message_pre s \<Longrightarrow> accepts m s \<Longrightarrow> wp (handler m s) (completing_post s)"

sublocale completing_handler \<subseteq> safe_handler handler accepts
proof
  fix s m
  assume "message_pre s" and "accepts m s"
  then show "wp (handler m s) (safe_post s)"
    using completing_post_effect by (blast intro: wp_mono [OF completes])
qed

locale message_handler =
  fixes handler :: msg_handler
    and accepts :: "ipc_message \<Rightarrow> ril_world \<Rightarrow> bool"
  assumes correct: "message_pre s \<Longrightarrow> accepts m s \<Longrightarrow> wp (handler m s) (message_post (msg_aseq m) s)"
begin

lemma effect:
  assumes "message_pre s" and "accepts m s"
  shows "\<exists>rc s'. handler m s = Some (rc, s') \<and> message_post (msg_aseq m) s rc s'"
  using correct [OF assms] by (auto simp: wp_def)

end

sublocale message_handler \<subseteq> completing_handler handler accepts
proof
  fix s m
  assume "message_pre s" and "accepts m s"
  then show "wp (handler m s) (completing_post s)"
    using message_post_completing by (blast intro: wp_mono [OF correct])
qed

definition any_message :: "ipc_message \<Rightarrow> ril_world \<Rightarrow> bool" where
  "any_message m s = True"

subsection \<open>Generic responses\<close>

definition ipc_gen_phone_res ::
  "(ipc_callback \<Rightarrow> msg_handler) \<Rightarrow> ipc_message \<Rightarrow> ril_world \<Rightarrow> (int \<times> ril_world) option" where
  "ipc_gen_phone_res run message s = (case gen_phone_res_data (msg_data message) of
      None \<Rightarrow> Some (-1, s)
    | Some data \<Rightarrow> (case ipc_gen_phone_res_expect_find_aseq (msg_aseq message) s of
        None \<Rightarrow> Some (0, s)
      | Some expect \<Rightarrow> (case node_get (gen_phone_res_expect s) expect of
          None \<Rightarrow> None
        | Some e \<Rightarrow> do {
            (rc, s) \<leftarrow>
              (if IPC_COMMAND (gp_group data) (gp_index data) \<noteq> ex_command e then Some (-1, s)
               else (case ex_callback e of
                   Some callback \<Rightarrow> run callback message s
                 | None \<Rightarrow>
                     let error = (if ipc_gen_phone_res_check data < 0 then RIL_E_GENERIC_FAILURE else RIL_E_SUCCESS) in
                     if ex_complete e \<or> (ex_abort e \<and> error = RIL_E_GENERIC_FAILURE)
                     then message_complete (msg_aseq message) error RNull 0 s
                     else Some (0, s)));
            (_, s) \<leftarrow> Some (ipc_gen_phone_res_expect_unregister expect s);
            Some (rc, s)
          })))"

text \<open>A generic response is as safe as the callback of the expectation it meets.\<close>

lemma wp_gen_phone_res:
  assumes "message_pre s"
    and "\<And>p e callback. ipc_gen_phone_res_expect_find_aseq (msg_aseq message) s = Some p \<Longrightarrow>
      node_get (gen_phone_res_expect s) p = Some e \<Longrightarrow> ex_callback e = Some callback \<Longrightarrow> wp (run callback message s) (safe_post s)"
  shows "wp (ipc_gen_phone_res run message s) (safe_post s)"
proof (cases "gen_phone_res_data (msg_data message)")
  case (Some data)
  show ?thesis
  proof (cases "ipc_gen_phone_res_expect_find_aseq (msg_aseq message) s")
    case (Some expect)
    then obtain e where e: "node_get (gen_phone_res_expect s) expect = Some e"
      by (auto simp: ipc_gen_phone_res_expect_find_aseq_def dest: node_find_Some_get_ex split: if_splits)
    have done_: "wp (case ipc_gen_phone_res_expect_unregister expect t of (_, t') \<Rightarrow> Some (rc, t')) (safe_post s)"
      if "safe_post s rc t" for rc t
      using that safe_post_trans [OF that safe_post_quiet [OF _ quiet_expect_unregister [of t expect], of rc]]
      by (simp add: split_beta safe_post_def)
    have complete: "wp (message_complete (msg_aseq message) error RNull 0 s) (safe_post s)" for error
      by (rule wp_mono [OF wp_message_complete_post [OF quiet_refl assms(1)]]) (rule message_post_safe [OF assms(1)])
    show ?thesis
      using \<open>gen_phone_res_data (msg_data message) = Some data\<close> Some e safe_post_quiet [OF assms(1) quiet_refl]
      by (auto simp: ipc_gen_phone_res_def Let_def split: option.split
        intro!: done_ wp_mono [OF assms(2) [OF Some e]] wp_mono [OF complete])
  qed (use Some safe_post_quiet [OF assms(1) quiet_refl] in \<open>auto simp: ipc_gen_phone_res_def\<close>)
qed (use safe_post_quiet [OF assms(1) quiet_refl] in \<open>auto simp: ipc_gen_phone_res_def\<close>)

subsection \<open>Properties\<close>

text \<open>C10. A generic response settles the request that expected it. When the modem answers with the
  sequence number of an outstanding request for which a completing or aborting expectation is registered: a
  response to a different command is an error that completes nothing; a matching response completes
  the request with success or generic failure according to bit 15 of its code (an aborting expectation only on failure); in
  every case the expectation is consumed.\<close>

theorem gen_phone_res_outcome:
  assumes "message_pre s" and "ipc_gen_phone_res_expect_find_aseq (msg_aseq m) s = Some p"
    and "node_get (gen_phone_res_expect s) p = Some e" and "ex_callback e = None"
    and "gen_phone_res_data (msg_data m) = Some d" and "ipc_fmt_request_token (msg_aseq m) s = token" and "token \<noteq> 0"
  shows "\<exists>rc s'. ipc_gen_phone_res run m s = Some (rc, s') \<and> node_get (gen_phone_res_expect s') p = None \<and>
    (if IPC_COMMAND (gp_group d) (gp_index d) \<noteq> ex_command e
     then rc = -1 \<and> requests s' = requests s \<and> trace s' = trace s
     else rc = 0 \<and>
       (if ex_complete e \<or> (ex_abort e \<and> gp_code d AND 0x8000 = 0)
        then requests s' = filter (\<lambda>n. rq_token (snd n) \<noteq> token) (requests s) \<and>
          trace s' = trace s @ [Complete token
            (if gp_code d AND 0x8000 \<noteq> 0 then RIL_E_SUCCESS else RIL_E_GENERIC_FAILURE) RNull 0]
        else requests s' = requests s \<and> trace s' = trace s))"
proof -
  have data: "fmt_data s"
    using assms(2) by (simp add: ipc_gen_phone_res_expect_find_aseq_def split: if_splits)
  have complete: "message_complete (msg_aseq m) error RNull 0 s =
      Some (0, (emit (Complete token error RNull 0) (remove_token token s))\<lparr>loop_locked := False\<rparr>)" for error
    using assms(1,6,7) ril_request_complete_eq [of s token error RNull 0]
    by (simp add: message_complete_def message_pre_def)
  show ?thesis
    using assms(2-5) data
    by (auto simp: ipc_gen_phone_res_def complete ipc_gen_phone_res_check_def RIL_E_GENERIC_FAILURE_def
      RIL_E_SUCCESS_def ipc_gen_phone_res_expect_unregister_def)
qed

theorem gen_phone_res_outcome_witness:
  "\<exists>rc s'. ipc_gen_phone_res (\<lambda>_ _ _. None)
      \<lparr>msg_mseq = 0, msg_aseq = 5, msg_command = IPC_GEN_PHONE_RES, msg_type = 2, msg_data = [2, 3, 1, 0, 0x80]\<rparr>
      ((initial_world [])\<lparr>ril_data_alive := True, env_complete := True, fmt_data := True, next_addr := 4,
        requests := [(1, \<lparr>rq_request = 12, rq_data = None, rq_size = 0, rq_token = 7, rq_status = 1\<rparr>)],
        fmt_requests := [(2, \<lparr>fr_request = 12, fr_token = 7, fr_seq = 5\<rparr>)],
        gen_phone_res_expect := [(3, \<lparr>ex_aseq = 5, ex_command = 0x0203, ex_callback = None, ex_complete = True, ex_abort = False\<rparr>)]\<rparr>)
    = Some (rc, s') \<and> trace s' = [Complete 7 RIL_E_SUCCESS RNull 0]"
  using gen_phone_res_outcome [of
      "(initial_world [])\<lparr>ril_data_alive := True, env_complete := True, fmt_data := True, next_addr := 4,
        requests := [(1, \<lparr>rq_request = 12, rq_data = None, rq_size = 0, rq_token = 7, rq_status = 1\<rparr>)],
        fmt_requests := [(2, \<lparr>fr_request = 12, fr_token = 7, fr_seq = 5\<rparr>)],
        gen_phone_res_expect := [(3, \<lparr>ex_aseq = 5, ex_command = 0x0203, ex_callback = None, ex_complete = True, ex_abort = False\<rparr>)]\<rparr>"
      "\<lparr>msg_mseq = 0, msg_aseq = 5, msg_command = IPC_GEN_PHONE_RES, msg_type = 2, msg_data = [2, 3, 1, 0, 0x80]\<rparr>"
      3 "\<lparr>ex_aseq = 5, ex_command = 0x0203, ex_callback = None, ex_complete = True, ex_abort = False\<rparr>"
      "\<lparr>gp_group = 2, gp_index = 3, gp_type = 1, gp_code = 0x8000\<rparr>" 7 "\<lambda>_ _ _. None"]
  by (auto simp: message_pre_def ril_inv_def nodes_ok_def fmt_mirror_def ipc_gen_phone_res_expect_find_aseq_def
    ipc_fmt_request_token_def ipc_fmt_request_find_seq_def le16_def IPC_COMMAND_def initial_world_def)

end
