(* ===== verification/Ril_Loop.thy ===== *)
theory Ril_Loop
  imports Ril_Handler
begin

section \<open>samsung-ril: dispatching requests\<close>

text \<open>
  \<open>ril_request_dispatch\<close>, the body of \<open>ril_request_loop\<close> and the functions of \<open>RIL_RadioFunctions\<close> in
  \<open>samsung-ril.c\<close>, over a table of request handlers. The table itself is in theory \<open>Ril_Dispatch\<close>. What the loop relies on is
  the locale \<open>handler_table\<close>: every handler of the table keeps the contract of theory \<open>Ril_Handler\<close> on the payloads that
  its request may have. The loop terminates because every dispatch takes the request out of the pending state or out of the
  queue.
\<close>

type_synonym handler_table = "(int \<times> req_handler) list"

definition ril_request_dispatch :: "handler_table \<Rightarrow> addr \<Rightarrow> ril_world \<Rightarrow> (int \<times> ril_world) option" where
  "ril_request_dispatch handlers p s =
     (if \<not> ril_data_alive s then Some (-1, s)
      else (case node_get (requests s) p of
          None \<Rightarrow> None
        | Some request \<Rightarrow> (case map_of handlers (rq_request request) of
            None \<Rightarrow> do {
              (_, s) \<leftarrow> ril_request_complete (rq_token request) RIL_E_REQUEST_NOT_SUPPORTED RNull 0 s;
              Some (0, s)
            }
          | Some handler \<Rightarrow> do {
              (status, s) \<leftarrow> handler (rq_data request) (rq_size request) (rq_token request) s;
              if status \<in> {RIL_REQUEST_PENDING, RIL_REQUEST_HANDLED, RIL_REQUEST_UNHANDLED}
              then (case node_get (requests s) p of
                  None \<Rightarrow> None
                | Some _ \<Rightarrow> Some (0, s\<lparr>requests := node_update p (\<lambda>r. r\<lparr>rq_status := status\<rparr>) (requests s)\<rparr>))
              else if status = RIL_REQUEST_COMPLETED then Some (0, s)
              else Some (-1, s)
            })))"

text \<open>How many requests have a status; setting another one through a pointer to such a request makes it fewer.\<close>

definition with_status :: "int \<Rightarrow> ril_request nodes \<Rightarrow> nat" where
  "with_status st ns = length (filter (\<lambda>n. rq_status (snd n) = st) ns)"

lemma with_status_update_le: "new \<noteq> st \<Longrightarrow> with_status st (node_update p (\<lambda>r. r\<lparr>rq_status := new\<rparr>) ns) \<le> with_status st ns"
  by (induction ns) (auto simp: with_status_def)

lemma with_status_update_less:
  assumes "new \<noteq> st" and "(p, r) \<in> set ns" and "rq_status r = st"
  shows "with_status st (node_update p (\<lambda>r. r\<lparr>rq_status := new\<rparr>) ns) < with_status st ns"
  using assms(2)
proof (induction ns)
  case (Cons n ns)
  then show ?case
    using with_status_update_le [OF assms(1), of p ns] assms(1,3)
    by (cases n) (auto simp: with_status_def le_imp_less_Suc)
qed simp

lemma find_status_in:
  assumes "ril_request_find_status st s = Some p"
  obtains r where "(p, r) \<in> set (requests s)" "rq_status r = st" "ril_data_alive s"
  using assms by (auto simp: ril_request_find_status_def split: if_splits dest!: node_find_Some_in)

text \<open>The first inner loop: every unhandled request becomes pending again.\<close>

function retry_unhandled :: "ril_world \<Rightarrow> ril_world" where
  "retry_unhandled s = (case ril_request_find_status RIL_REQUEST_UNHANDLED s of
      None \<Rightarrow> s
    | Some p \<Rightarrow> retry_unhandled
        (s\<lparr>requests := node_update p (\<lambda>r. r\<lparr>rq_status := RIL_REQUEST_PENDING\<rparr>) (requests s)\<rparr>))"
  by pat_completeness auto
termination
  by (relation "measure (\<lambda>s. with_status RIL_REQUEST_UNHANDLED (requests s))")
    (auto elim!: find_status_in intro: with_status_update_less)

declare retry_unhandled.simps [simp del]

text \<open>The second inner loop: dispatch the first pending request until there is none; a request whose dispatch fails is
  removed. Whether the loop ends depends on the handlers.\<close>

partial_function (option) dispatch_pending :: "handler_table \<Rightarrow> ril_world \<Rightarrow> (int \<times> ril_world) option" where
  "dispatch_pending handlers s = (case ril_request_find_status RIL_REQUEST_PENDING s of
      None \<Rightarrow> Some (0, s)
    | Some p \<Rightarrow> Option.bind (ril_request_dispatch handlers p s) (\<lambda>(rc, s).
        if rc < 0 then Option.bind (ril_request_unregister p s) (\<lambda>(_, s). dispatch_pending handlers s)
        else dispatch_pending handlers s))"

text \<open>One round of \<open>ril_request_loop\<close>, from the moment the lock of the loop has been taken.\<close>

definition ril_request_loop :: "handler_table \<Rightarrow> ril_world \<Rightarrow> (int \<times> ril_world) option" where
  "ril_request_loop handlers s =
     (let s = s\<lparr>loop_locked := True\<rparr> in
      if ril_radio_state_check RADIO_STATE_OFF s < 0 then Some (0, s)
      else dispatch_pending handlers (retry_unhandled s))"

subsection \<open>The RIL interface\<close>

text \<open>Requests whose payload is an array of strings.\<close>

definition string_requests :: "int list" where
  "string_requests = [RIL_REQUEST_SEND_SMS, RIL_REQUEST_SEND_SMS_EXPECT_MORE, RIL_REQUEST_QUERY_FACILITY_LOCK,
     RIL_REQUEST_SET_FACILITY_LOCK, RIL_REQUEST_ENTER_SIM_PIN, RIL_REQUEST_ENTER_SIM_PUK, RIL_REQUEST_ENTER_SIM_PIN2,
     RIL_REQUEST_ENTER_SIM_PUK2, RIL_REQUEST_CHANGE_SIM_PIN, RIL_REQUEST_CHANGE_SIM_PIN2,
     RIL_REQUEST_SETUP_DATA_CALL, RIL_REQUEST_DEACTIVATE_DATA_CALL]"

text \<open>The size under which a payload of four bytes is queued: a text that ends within the object counts as a string. The
  scan is undefined when it leaves the object.\<close>

definition detect_string :: "u8 list \<Rightarrow> nat option" where
  "detect_string bs =
     (let i = length (takeWhile isprint bs) in
      if i \<ge> length bs then None
      else Some (if i > 0 \<and> bs ! i = 0 then i + 1 else 4))"

text \<open>The deep copy that is queued, with its size. Reading the object as another type than it is is undefined.\<close>

definition request_copy :: "int \<Rightarrow> payload option \<Rightarrow> nat \<Rightarrow> (payload option \<times> nat) option" where
  "request_copy request data sz = (case data of
      None \<Rightarrow> Some (None, sz)
    | Some d \<Rightarrow>
        if request = RIL_REQUEST_DIAL then
          (if sz < 12 then Some (data, sz) else (case d of PDial _ _ \<Rightarrow> Some (data, sz) | _ \<Rightarrow> None))
        else if request = RIL_REQUEST_WRITE_SMS_TO_SIM then
          (if sz < 12 then Some (data, sz) else (case d of PSmsWrite _ _ _ \<Rightarrow> Some (data, sz) | _ \<Rightarrow> None))
        else if request = RIL_REQUEST_SIM_IO then
          (if sz < 36 then Some (data, sz) else (case d of PSimIo _ _ _ _ _ \<Rightarrow> Some (data, sz) | _ \<Rightarrow> None))
        else if request \<in> set string_requests then
          (if sz div 4 = 0 then Some (data, sz)
           else (case d of
               PStrings ss \<Rightarrow> if sz div 4 > length ss then None else Some (Some (PStrings (take (sz div 4) ss)), sz)
             | _ \<Rightarrow> None))
        else if sz \<noteq> 4 then Some (data, sz)
        else (case d of
            PBytes bs \<Rightarrow> (case detect_string bs of None \<Rightarrow> None | Some n \<Rightarrow> Some (data, n))
          | _ \<Rightarrow> None))"

definition ril_on_request :: "int \<Rightarrow> payload option \<Rightarrow> nat \<Rightarrow> ril_token \<Rightarrow> ril_world \<Rightarrow> (int \<times> ril_world) option" where
  "ril_on_request request data sz token s = do {
     (_, s) \<leftarrow> (case ril_request_find_token token s of
         None \<Rightarrow> Some (0, s)
       | Some p \<Rightarrow> ril_request_unregister p s);
     (data, sz) \<leftarrow> request_copy request data sz;
     (_, s) \<leftarrow> ril_request_register request data sz token s;
     Some (0, s\<lparr>loop_locked := False\<rparr>)
   }"

definition ril_on_cancel :: "ril_token \<Rightarrow> ril_world \<Rightarrow> (int \<times> ril_world) option" where
  "ril_on_cancel token s = (case ril_request_find_token token s of
      None \<Rightarrow> Some (0, s)
    | Some p \<Rightarrow> ril_request_unregister p s)"

definition ril_supports :: "handler_table \<Rightarrow> int \<Rightarrow> int" where
  "ril_supports handlers request = (if map_of handlers request = None then 0 else 1)"

subsection \<open>What the loop relies on\<close>

locale handler_table =
  fixes handlers :: handler_table
    and accepts :: "int \<Rightarrow> payload option \<Rightarrow> nat \<Rightarrow> bool"
  assumes handler_correct: "(request, handler) \<in> set handlers \<Longrightarrow> handler_pre token s \<Longrightarrow> accepts request data sz \<Longrightarrow>
    wp (handler data sz token s) (handler_post token s)"

text \<open>States in which the loop may run: the invariant, and every queued request has a token and a payload that its
  handler accepts.\<close>

definition loop_pre :: "(int \<Rightarrow> payload option \<Rightarrow> nat \<Rightarrow> bool) \<Rightarrow> ril_world \<Rightarrow> bool" where
  "loop_pre accepts s \<longleftrightarrow> ril_inv s \<and> ril_data_alive s \<and> env_complete s \<and>
     (\<forall>n \<in> set (requests s). rq_token (snd n) \<noteq> 0 \<and> accepts (rq_request (snd n)) (rq_data (snd n)) (rq_size (snd n)))"

text \<open>What became of a queue: nothing is pending, each remaining request is one of the old ones, in order, with a status
  that only a dispatch may have changed, and the others have been completed, each once.\<close>

definition same_request :: "ril_request \<Rightarrow> ril_request \<Rightarrow> bool" where
  "same_request r r' \<longleftrightarrow> rq_request r' = rq_request r \<and> rq_data r' = rq_data r \<and> rq_size r' = rq_size r \<and>
     rq_token r' = rq_token r \<and>
     (rq_status r' = rq_status r \<or> rq_status r = RIL_REQUEST_PENDING \<and> rq_status r' \<in> {RIL_REQUEST_HANDLED, RIL_REQUEST_UNHANDLED})"

definition settled :: "ril_world \<Rightarrow> ril_world \<Rightarrow> ril_token list \<Rightarrow> bool" where
  "settled s s' ts \<longleftrightarrow> completions (trace s') = completions (trace s) @ ts \<and> distinct ts \<and>
     (\<forall>t \<in> set ts. \<exists>n \<in> set (requests s). rq_token (snd n) = t \<and> rq_status (snd n) = RIL_REQUEST_PENDING) \<and>
     list_all2 (\<lambda>n n'. fst n' = fst n \<and> same_request (snd n) (snd n'))
       (filter (\<lambda>n. rq_token (snd n) \<notin> set ts) (requests s)) (requests s')"

lemma same_request_refl: "same_request r r"
  by (simp add: same_request_def)

lemma same_request_trans: "same_request a b \<Longrightarrow> same_request b c \<Longrightarrow> same_request a c"
  by (auto simp: same_request_def)

lemma settled_refl: "settled s s []"
  by (auto simp: settled_def same_request_refl intro: list_all2_refl)

lemma list_all2_filter:
  assumes "list_all2 P xs ys" and "\<And>x y. P x y \<Longrightarrow> Q x = R y"
  shows "list_all2 P (filter Q xs) (filter R ys)"
  using assms(1) by (induction rule: list_all2_induct) (auto simp: assms(2))

lemma settled_trans:
  assumes "settled s t ts" and "settled t u us"
  shows "settled s u (ts @ us)"
proof -
  let ?same = "\<lambda>n n' :: addr \<times> ril_request. fst n' = fst n \<and> same_request (snd n) (snd n')"
  have st: "list_all2 ?same (filter (\<lambda>n. rq_token (snd n) \<notin> set ts) (requests s)) (requests t)"
    and tu: "list_all2 ?same (filter (\<lambda>n. rq_token (snd n) \<notin> set us) (requests t)) (requests u)"
    using assms(1,2) by (simp_all add: settled_def)
  from list_all2_filter [OF st, of "\<lambda>n. rq_token (snd n) \<notin> set us" "\<lambda>n. rq_token (snd n) \<notin> set us"]
  have "list_all2 ?same (filter (\<lambda>n. rq_token (snd n) \<notin> set (ts @ us)) (requests s))
      (filter (\<lambda>n. rq_token (snd n) \<notin> set us) (requests t))"
    by (auto simp: same_request_def conj_commute)
  from list_all2_trans [OF _ this tu, of ?same]
  have rest: "list_all2 ?same (filter (\<lambda>n. rq_token (snd n) \<notin> set (ts @ us)) (requests s)) (requests u)"
    using same_request_trans by auto
  have from_t: "\<exists>m \<in> set (requests s). rq_token (snd m) = rq_token (snd n) \<and> rq_token (snd m) \<notin> set ts \<and>
      (rq_status (snd n) = RIL_REQUEST_PENDING \<longrightarrow> rq_status (snd m) = RIL_REQUEST_PENDING)" if "n \<in> set (requests t)" for n
  proof -
    from that obtain i where i: "i < length (requests t)" "n = requests t ! i"
      by (auto simp: in_set_conv_nth)
    let ?m = "filter (\<lambda>n. rq_token (snd n) \<notin> set ts) (requests s) ! i"
    have "?same ?m n" and "i < length (filter (\<lambda>n. rq_token (snd n) \<notin> set ts) (requests s))"
      using st i by (auto simp: list_all2_conv_all_nth)
    moreover have "?m \<in> set (filter (\<lambda>n. rq_token (snd n) \<notin> set ts) (requests s))"
      using calculation(2) by (rule nth_mem)
    ultimately show ?thesis
      by (intro bexI [of _ ?m]) (auto simp: same_request_def)
  qed
  have "set ts \<inter> set us = {}" and "\<forall>t \<in> set us. \<exists>n \<in> set (requests s). rq_token (snd n) = t \<and> rq_status (snd n) = RIL_REQUEST_PENDING"
    using from_t assms(2) unfolding settled_def by fastforce+
  with rest show ?thesis
    using assms(1,2) unfolding settled_def by auto
qed

lemma ril_inv_set_status: "ril_inv (s\<lparr>requests := node_update p (\<lambda>r. r\<lparr>rq_status := st\<rparr>) (requests s)\<rparr>) = ril_inv s"
proof -
  have "map (\<lambda>n. rq_token (snd n)) (node_update p (\<lambda>r. r\<lparr>rq_status := st\<rparr>) (requests s)) =
      map (\<lambda>n. rq_token (snd n)) (requests s)"
    and "map (\<lambda>n. (rq_request (snd n), rq_token (snd n))) (node_update p (\<lambda>r. r\<lparr>rq_status := st\<rparr>) (requests s)) =
      map (\<lambda>n. (rq_request (snd n), rq_token (snd n))) (requests s)"
    by (induction "requests s") (auto simp: node_update_def split: prod.splits)
  then show ?thesis
    by (simp add: ril_inv_def fmt_mirror_def nodes_ok_update)
qed

lemma list_all2_update:
  assumes "distinct (map fst ns)" and "node_get ns p = Some r" and "same_request r (r\<lparr>rq_status := st\<rparr>)"
  shows "list_all2 (\<lambda>n n'. fst n' = fst n \<and> same_request (snd n) (snd n')) ns (node_update p (\<lambda>r. r\<lparr>rq_status := st\<rparr>) ns)"
  using assms
proof (induction ns)
  case (Cons n ns)
  have rest: "node_update p (\<lambda>r. r\<lparr>rq_status := st\<rparr>) ns = ns" if "p \<notin> fst ` set ns"
    using that by (induction ns) auto
  show ?case
  proof (cases "fst n = p")
    case True
    then show ?thesis
      using Cons.prems rest by (cases n) (auto intro!: list_all2_refl simp: same_request_refl)
  next
    case False
    then show ?thesis
      using Cons by (cases n) (auto simp: same_request_refl)
  qed
qed simp

lemma loop_pre_settled:
  assumes "loop_pre accepts s" and "settled s t ts" and "ril_inv t" and "ril_data_alive t" and "env_complete t"
  shows "loop_pre accepts t"
proof -
  have "rq_token (snd n) \<noteq> 0 \<and> accepts (rq_request (snd n)) (rq_data (snd n)) (rq_size (snd n))" if "n \<in> set (requests t)" for n
  proof -
    from that obtain i where i: "i < length (requests t)" "n = requests t ! i"
      by (auto simp: in_set_conv_nth)
    let ?ms = "filter (\<lambda>n. rq_token (snd n) \<notin> set ts) (requests s)"
    have "same_request (snd (?ms ! i)) (snd n)" and len: "i < length ?ms"
      using assms(2) i by (auto simp: settled_def list_all2_conv_all_nth)
    moreover have "?ms ! i \<in> set (requests s)"
      using nth_mem [OF len] by simp
    ultimately show ?thesis
      using assms(1) unfolding loop_pre_def same_request_def by fastforce
  qed
  with assms(3-5) show ?thesis
    by (simp add: loop_pre_def)
qed

text \<open>A completed request leaves the queue; the others stay as they are.\<close>

lemma settled_completed:
  assumes "requests s' = filter (\<lambda>n. rq_token (snd n) \<noteq> token) (requests s)"
    and "completions (trace s') = completions (trace s) @ [token]"
    and "n \<in> set (requests s)" and "rq_token (snd n) = token" and "rq_status (snd n) = RIL_REQUEST_PENDING"
  shows "settled s s' [token]"
  using assms by (auto simp: settled_def same_request_refl intro!: list_all2_refl)

lemma with_status_removed:
  assumes "n \<in> set ns" and "rq_token (snd n) = token" and "rq_status (snd n) = st"
  shows "with_status st (filter (\<lambda>n. rq_token (snd n) \<noteq> token) ns) < with_status st ns"
  using assms
proof (induction ns)
  case (Cons m ns)
  have "with_status st (filter (\<lambda>n. rq_token (snd n) \<noteq> token) ns) \<le> with_status st ns"
    by (induction ns) (auto simp: with_status_def)
  with Cons show ?case
    by (auto simp: with_status_def)
qed simp

context handler_table
begin

lemma dispatch_one:
  assumes "loop_pre accepts s" and "ril_request_find_status RIL_REQUEST_PENDING s = Some p"
  shows "\<exists>s' ts. ril_request_dispatch handlers p s = Some (0, s') \<and> settled s s' ts \<and> loop_pre accepts s' \<and>
    with_status RIL_REQUEST_PENDING (requests s') < with_status RIL_REQUEST_PENDING (requests s) \<and>
    radio_state s' = radio_state s"
proof -
  obtain r where r: "(p, r) \<in> set (requests s)" "rq_status r = RIL_REQUEST_PENDING"
    using assms(2) by (rule find_status_in)
  have inv: "ril_inv s" "ril_data_alive s" "env_complete s"
    and acc: "rq_token r \<noteq> 0" "accepts (rq_request r) (rq_data r) (rq_size r)"
    using assms(1) r by (auto simp: loop_pre_def)
  have "distinct (map fst (requests s))"
    using inv(1) by (simp add: ril_inv_def nodes_ok_def)
  then have get: "node_get (requests s) p = Some r"
    using r(1) by (simp add: map_of_eq_Some_iff)
  have pre: "handler_pre (rq_token r) s"
    using inv acc by (simp add: handler_pre_def)
  have done_completed: "settled s s' [rq_token r] \<and> loop_pre accepts s' \<and>
      with_status RIL_REQUEST_PENDING (requests s') < with_status RIL_REQUEST_PENDING (requests s)"
    if "requests s' = filter (\<lambda>n. rq_token (snd n) \<noteq> rq_token r) (requests s)"
      "completions (trace s') = completions (trace s) @ [rq_token r]" "ril_inv s'" "ril_data_alive s'" "env_complete s'" for s'
    using settled_completed [OF that(1,2) r(1)] r(2) with_status_removed [OF r(1)] that
    by (auto intro: loop_pre_settled [OF assms(1)])
  show ?thesis
  proof (cases "map_of handlers (rq_request r)")
    case None
    then show ?thesis
      using get inv(2) ril_request_complete_eq [OF inv acc(1)] ril_inv_remove_token [OF inv(1)]
        done_completed [of "(emit (Complete (rq_token r) RIL_E_REQUEST_NOT_SUPPORTED RNull 0) (remove_token (rq_token r) s))\<lparr>loop_locked := False\<rparr>"] inv
      by (auto simp: ril_request_dispatch_def)
  next
    case (Some handler)
    then obtain status t where t: "handler (rq_data r) (rq_size r) (rq_token r) s = Some (status, t)"
        "handler_post (rq_token r) s status t"
      using handler_correct [OF map_of_SomeD pre acc(2)] by (auto simp: wp_def)
    note eff = handler_post_effect [OF pre t(2)]
    show ?thesis
    proof (cases "status = RIL_REQUEST_COMPLETED")
      case True
      then show ?thesis
        using Some t get inv(2) eff done_completed [of t] by (auto simp: ril_request_dispatch_def)
    next
      case False
      let ?u = "t\<lparr>requests := node_update p (\<lambda>r. r\<lparr>rq_status := status\<rparr>) (requests t)\<rparr>"
      have st: "status \<in> {RIL_REQUEST_HANDLED, RIL_REQUEST_UNHANDLED}"
        and kept: "requests t = requests s" "completions (trace t) = completions (trace s)"
        using eff False by auto
      then have "same_request r (r\<lparr>rq_status := status\<rparr>)"
        using r(2) by (auto simp: same_request_def)
      then have "settled s ?u []"
        using list_all2_update [OF \<open>distinct (map fst (requests s))\<close> get] kept by (simp add: settled_def)
      moreover have "ril_inv ?u"
        using eff ril_inv_set_status [of p status t] by simp
      moreover have "with_status RIL_REQUEST_PENDING (requests ?u) < with_status RIL_REQUEST_PENDING (requests s)"
        using with_status_update_less [OF _ r, of status] st kept by auto
      ultimately show ?thesis
        using Some t get inv(2) eff st kept loop_pre_settled [OF assms(1), of ?u]
        by (auto simp: ril_request_dispatch_def)
    qed
  qed
qed

lemma dispatch_all:
  "loop_pre accepts s \<Longrightarrow>
   \<exists>s' ts. dispatch_pending handlers s = Some (0, s') \<and> settled s s' ts \<and> loop_pre accepts s' \<and>
     with_status RIL_REQUEST_PENDING (requests s') = 0 \<and> radio_state s' = radio_state s"
proof (induction "with_status RIL_REQUEST_PENDING (requests s)" arbitrary: s rule: less_induct)
  case less
  show ?case
  proof (cases "ril_request_find_status RIL_REQUEST_PENDING s")
    case None
    then have "with_status RIL_REQUEST_PENDING (requests s) = 0"
      using less.prems
      by (auto simp: ril_request_find_status_def loop_pre_def node_find_None with_status_def filter_empty_conv)
    with None less.prems settled_refl show ?thesis
      by (subst dispatch_pending.simps) auto
  next
    case (Some p)
    from dispatch_one [OF less.prems Some] obtain t ts where t: "ril_request_dispatch handlers p s = Some (0, t)"
        "settled s t ts" "loop_pre accepts t" "radio_state t = radio_state s"
        "with_status RIL_REQUEST_PENDING (requests t) < with_status RIL_REQUEST_PENDING (requests s)"
      by blast
    from less.hyps [OF t(5,3)] obtain u us where u: "dispatch_pending handlers t = Some (0, u)" "settled t u us"
        "loop_pre accepts u" "with_status RIL_REQUEST_PENDING (requests u) = 0" "radio_state u = radio_state t"
      by blast
    have "dispatch_pending handlers s = Some (0, u)"
      using Some t(1) u(1) by (subst dispatch_pending.simps) simp
    with settled_trans [OF t(2) u(2)] u t(4) show ?thesis
      by auto
  qed
qed

text \<open>The first loop in closed form.\<close>

end

definition retried :: "ril_request nodes \<Rightarrow> ril_request nodes" where
  "retried ns = map (\<lambda>(q, r). (q, if rq_status r = RIL_REQUEST_UNHANDLED then r\<lparr>rq_status := RIL_REQUEST_PENDING\<rparr> else r)) ns"

lemma retried_update:
  assumes "distinct (map fst ns)" and "node_find (\<lambda>r. rq_status r = RIL_REQUEST_UNHANDLED) ns = Some p"
  shows "retried (node_update p (\<lambda>r. r\<lparr>rq_status := RIL_REQUEST_PENDING\<rparr>) ns) = retried ns"
  using assms
proof (induction ns)
  case (Cons n ns)
  have rest: "node_update p f ns = ns" if "p \<notin> fst ` set ns" for f :: "ril_request \<Rightarrow> ril_request"
    using that by (induction ns) auto
  show ?case
  proof (cases "rq_status (snd n) = RIL_REQUEST_UNHANDLED")
    case True
    then show ?thesis
      using Cons.prems rest by (cases n) (auto simp: retried_def)
  next
    case False
    then have "node_find (\<lambda>r. rq_status r = RIL_REQUEST_UNHANDLED) ns = Some p"
      using Cons.prems by simp
    moreover from node_find_Some_fst [OF this] have "fst n \<noteq> p"
      using Cons.prems by auto
    ultimately show ?thesis
      using Cons by (cases n) (auto simp: retried_def)
  qed
qed simp

lemma retry_unhandled_eq:
  "ril_inv s \<Longrightarrow> ril_data_alive s \<Longrightarrow> retry_unhandled s = s\<lparr>requests := retried (requests s)\<rparr>"
proof (induction s rule: retry_unhandled.induct)
  case (1 s)
  show ?case
  proof (cases "ril_request_find_status RIL_REQUEST_UNHANDLED s")
    case None
    then have "retried (requests s) = requests s"
      using 1(3) by (auto simp: ril_request_find_status_def node_find_None retried_def intro!: map_idI)
    with None show ?thesis
      by (subst retry_unhandled.simps) simp
  next
    case (Some p)
    let ?t = "s\<lparr>requests := node_update p (\<lambda>r. r\<lparr>rq_status := RIL_REQUEST_PENDING\<rparr>) (requests s)\<rparr>"
    have "retry_unhandled s = ?t\<lparr>requests := retried (requests ?t)\<rparr>"
      using 1 Some ril_inv_set_status [of p RIL_REQUEST_PENDING s] by (subst retry_unhandled.simps) simp
    moreover have "retried (requests ?t) = retried (requests s)"
      using Some 1(2,3) retried_update [of "requests s" p]
      by (simp add: ril_request_find_status_def ril_inv_def nodes_ok_def)
    ultimately show ?thesis
      by simp
  qed
qed

lemma retried_maps:
  "map fst (retried ns) = map fst ns" "map (\<lambda>n. rq_token (snd n)) (retried ns) = map (\<lambda>n. rq_token (snd n)) ns"
  "map (\<lambda>n. (rq_request (snd n), rq_token (snd n))) (retried ns) = map (\<lambda>n. (rq_request (snd n), rq_token (snd n))) ns"
  by (auto simp: retried_def)

lemma loop_pre_retried: "loop_pre accepts s \<Longrightarrow> loop_pre accepts (s\<lparr>requests := retried (requests s)\<rparr>)"
  using retried_maps [of "requests s"]
  by (auto simp: loop_pre_def ril_inv_def nodes_ok_def fmt_mirror_def) (auto simp: retried_def)

context handler_table
begin

lemma loop_round:
  assumes "loop_pre accepts s" and "ril_radio_state_check RADIO_STATE_OFF s = 0"
  shows "\<exists>s' ts. ril_request_loop handlers s = Some (0, s') \<and> settled (s\<lparr>requests := retried (requests s)\<rparr>) s' ts \<and>
    loop_pre accepts s' \<and> with_status RIL_REQUEST_PENDING (requests s') = 0"
proof -
  let ?s = "s\<lparr>loop_locked := True\<rparr>"
  have pre: "loop_pre accepts ?s"
    using assms(1) by (simp add: loop_pre_def)
  then have retry: "retry_unhandled ?s = ?s\<lparr>requests := retried (requests ?s)\<rparr>"
    by (simp add: retry_unhandled_eq loop_pre_def)
  from dispatch_all [OF loop_pre_retried [OF pre]] obtain s' ts where
    "dispatch_pending handlers (?s\<lparr>requests := retried (requests ?s)\<rparr>) = Some (0, s')"
    "settled (?s\<lparr>requests := retried (requests ?s)\<rparr>) s' ts" "loop_pre accepts s'"
    "with_status RIL_REQUEST_PENDING (requests s') = 0"
    by blast
  moreover have "ril_radio_state_check RADIO_STATE_OFF ?s = 0"
    using assms(2) radio_state_check_frame [of ?s s] by simp
  ultimately show ?thesis
    using retry by (simp add: ril_request_loop_def settled_def)
qed

end

subsection \<open>Queueing\<close>

text \<open>The payload object is at least as large as the size under which it is queued.\<close>

definition copy_whole :: "payload option \<Rightarrow> nat \<Rightarrow> bool" where
  "copy_whole d n \<longleftrightarrow> n = 0 \<or> (\<exists>d'. d = Some d' \<and> n \<le> payload_size d')"

definition queued_payload :: "payload option \<Rightarrow> nat \<Rightarrow> payload option" where
  "queued_payload d n = (if n > 0 then payload_copy n (the d) else None)"

lemma on_request_queued:
  assumes "ril_inv s" and "ril_data_alive s" and "request_copy request data sz = Some (d, n)" and "copy_whole d n"
  shows "\<exists>s' p. ril_on_request request data sz token s = Some (0, s') \<and> ril_inv s' \<and> \<not> loop_locked s' \<and>
    trace s' = trace s \<and> ril_data_alive s' \<and> env_complete s' = env_complete s \<and> radio_state s' = radio_state s \<and>
    requests s' = filter (\<lambda>n. rq_token (snd n) \<noteq> token) (requests s) @ [(p, \<lparr>rq_request = request,
      rq_data = queued_payload d n, rq_size = n, rq_token = token, rq_status = RIL_REQUEST_PENDING\<rparr>)]"
proof -
  have copy: "(if n > 0 then (case d of None \<Rightarrow> None | Some d \<Rightarrow> map_option Some (payload_copy n d)) else Some None) =
      Some (queued_payload d n)"
    using assms(4) by (auto simp: copy_whole_def queued_payload_def payload_copy_def split: payload.splits)
  have "\<forall>n \<in> set (requests (remove_token token s)). rq_token (snd n) \<noteq> token"
    by simp
  from ril_request_register_inv [OF ril_inv_remove_token [OF assms(1)] _ this copy, of request]
  obtain t p where t: "ril_request_register request d n token (remove_token token s) = Some (0, t)" "ril_inv t"
    "trace t = trace s" "ril_data_alive t" "env_complete t = env_complete s" "radio_state t = radio_state s"
    "requests t = filter (\<lambda>n. rq_token (snd n) \<noteq> token) (requests s) @ [(p, \<lparr>rq_request = request,
      rq_data = queued_payload d n, rq_size = n, rq_token = token, rq_status = RIL_REQUEST_PENDING\<rparr>)]"
    using assms(2) by auto
  have "ril_on_request request data sz token s = Some (0, t\<lparr>loop_locked := False\<rparr>)"
    using unregister_token_eq [OF assms(1,2), of token] assms(3) t(1) by (simp add: ril_on_request_def)
  with t show ?thesis
    by auto
qed

lemma on_cancel_eq: "ril_inv s \<Longrightarrow> ril_data_alive s \<Longrightarrow> ril_on_cancel token s = Some (0, remove_token token s)"
  unfolding ril_on_cancel_def by (rule unregister_token_eq)

end
