(* ===== verification/Ril_Power.thy ===== *)
theory Ril_Power
  imports Ril_Handler
begin

section \<open>samsung-ril: power.c\<close>

text \<open>
  The power component: the radio-power request and the messages by which the modem announces that it has
  started, was reset or changed its power state. The message handlers change the radio state, so
  they keep only the weakest contract, \<open>safe_handler\<close>, and that only while no data connection is open.
\<close>

definition IPC_PWR_PHONE_PWR_UP :: u16 where "IPC_PWR_PHONE_PWR_UP = 0x0101"
definition IPC_PWR_PHONE_RESET :: u16 where "IPC_PWR_PHONE_RESET = 0x0103"
definition IPC_PWR_PHONE_STATE :: u16 where "IPC_PWR_PHONE_STATE = 0x0107"
definition IPC_PWR_PHONE_STATE_REQUEST_LPM :: u16 where "IPC_PWR_PHONE_STATE_REQUEST_LPM = 0x0001"
definition IPC_PWR_PHONE_STATE_REQUEST_NORMAL :: u16 where "IPC_PWR_PHONE_STATE_REQUEST_NORMAL = 0x0202"
definition IPC_PWR_PHONE_STATE_RESPONSE_LPM :: u8 where "IPC_PWR_PHONE_STATE_RESPONSE_LPM = 0x01"
definition IPC_PWR_PHONE_STATE_RESPONSE_NORMAL :: u8 where "IPC_PWR_PHONE_STATE_RESPONSE_NORMAL = 0x02"

definition ipc_pwr_phone_pwr_up :: msg_handler where
  "ipc_pwr_phone_pwr_up message s = do {
     (_, s) \<leftarrow> ril_radio_state_update RADIO_STATE_OFF s;
     Some (0, s)
   }"

definition ipc_pwr_phone_reset :: msg_handler where
  "ipc_pwr_phone_reset message s = do {
     (_, s) \<leftarrow> ril_radio_state_update RADIO_STATE_OFF s;
     Some (0, s)
   }"

definition ipc_pwr_phone_state :: msg_handler where
  "ipc_pwr_phone_state message s = (case msg_data message of
      [] \<Rightarrow> Some (-1, s)
    | state # _ \<Rightarrow>
        if \<not> ipc_seq_valid (msg_aseq message) then Some (0, s)
        else if state = IPC_PWR_PHONE_STATE_RESPONSE_LPM then do {
          (_, s) \<leftarrow> ril_request_complete (ipc_fmt_request_token (msg_aseq message) s) RIL_E_SUCCESS RNull 0 s;
          (_, s) \<leftarrow> ril_radio_state_update RADIO_STATE_OFF s;
          Some (0, s)
        }
        else if state = IPC_PWR_PHONE_STATE_RESPONSE_NORMAL then do {
          (_, s) \<leftarrow> ril_request_complete (ipc_fmt_request_token (msg_aseq message) s) RIL_E_SUCCESS RNull 0 s;
          (_, s) \<leftarrow> ril_radio_state_update RADIO_STATE_SIM_NOT_READY s;
          Some (0, s)
        }
        else Some (0, s))"

definition ril_request_radio_power :: req_handler where
  "ril_request_radio_power data sz token s = (case data of
      None \<Rightarrow> request_failed token RIL_E_GENERIC_FAILURE s
    | Some d \<Rightarrow>
        if sz < 4 then request_failed token RIL_E_GENERIC_FAILURE s
        else if ril_request_find_request_status RIL_REQUEST_RADIO_POWER RIL_REQUEST_HANDLED s \<noteq> None
        then Some (RIL_REQUEST_UNHANDLED, s)
        else (case payload_int d of
            None \<Rightarrow> None
          | Some power_state \<Rightarrow> do {
              let request_data = bytes16 (if power_state > 0 then IPC_PWR_PHONE_STATE_REQUEST_NORMAL
                                          else IPC_PWR_PHONE_STATE_REQUEST_LPM);
              (rc, s) \<leftarrow> Some (expect_abort_for token IPC_PWR_PHONE_STATE s);
              if rc < 0 then request_failed token RIL_E_GENERIC_FAILURE s
              else do {
                (rc, s) \<leftarrow> Some (fmt_send_for token IPC_PWR_PHONE_STATE IPC_TYPE_EXEC request_data s);
                if rc < 0 then request_failed token RIL_E_GENERIC_FAILURE s
                else Some (RIL_REQUEST_HANDLED, s)
              }
            }))"

interpretation radio_power: request_handler ril_request_radio_power bytes_payload
proof
  fix token s data sz
  assume "handler_pre token s" and "bytes_payload data sz"
  with quiet_refl [of s] show "wp (ril_request_radio_power data sz token s) (handler_post token s)"
    by (auto simp: ril_request_radio_power_def Let_def split: option.split intro!: wp_intro
      dest: bytes_payload_int)
qed

text \<open>The message handlers are safe while there is no data connection to flush.\<close>

definition no_connections :: "ipc_message \<Rightarrow> ril_world \<Rightarrow> bool" where
  "no_connections m s \<longleftrightarrow> data_connections s = []"

lemma wp_radio_off:
  assumes "message_pre s" and "data_connections s = []"
  shows "wp (do {(_, s) \<leftarrow> ril_radio_state_update RADIO_STATE_OFF s; Some (0, s)}) (safe_post s)"
proof (cases "radio_state s = RADIO_STATE_OFF")
  case True
  then show ?thesis
    using assms(1) safe_post_quiet [OF assms(1) quiet_refl] by (simp add: ril_radio_state_update_def message_pre_def)
next
  case False
  define off where "off = s\<lparr>radio_state := RADIO_STATE_OFF\<rparr>"
  define unsol where "unsol = (\<lambda>n s. snd (ril_request_unsolicited n RNull 0 s))"
  have off: "safe_post s 0 off"
    using assms(1) unfolding safe_post_def
    by (intro conjI exI [of _ "[]"]) (auto simp: off_def message_pre_def ril_inv_def)
  then have pre: "message_pre off" "data_connections off = []"
    using assms(2) by (simp_all add: safe_post_def off_def)
  have q: "quiet off (unsol n t)" if "quiet off t" for n t
    using quiet_trans [OF that quiet_unsolicited] by (simp add: unsol_def)
  have conn: "data_connections (unsol n t) = data_connections t" "ril_data_alive (unsol n t) = ril_data_alive t" for n t
    by (simp_all add: unsol_def ril_request_unsolicited_def)
  have "ril_radio_state_update RADIO_STATE_OFF s = Some (0, unsol RIL_UNSOL_RESPONSE_SIM_STATUS_CHANGED
      (unsol RIL_UNSOL_DATA_CALL_LIST_CHANGED (unsol RIL_UNSOL_RESPONSE_VOICE_NETWORK_STATE_CHANGED
      (unsol RIL_UNSOL_RESPONSE_CALL_STATE_CHANGED (unsol RIL_UNSOL_RESPONSE_RADIO_STATE_CHANGED off)))))"
    (is "_ = Some (0, ?t)")
    using assms(1) False pre(2) conn
    by (simp add: ril_radio_state_update_def radio_off_tail_def ril_data_connection_flush_Nil message_pre_def off_def
      unsol_def split_beta radio_state_defs)
  moreover have "safe_post off 0 ?t"
    by (rule safe_post_quiet [OF pre(1)]) (intro q quiet_refl, simp)
  ultimately show ?thesis
    using safe_post_trans [OF off] by simp
qed

lemma wp_complete_then:
  assumes "message_pre s"
    and "\<And>t. safe_post s 0 t \<Longrightarrow> message_pre t \<Longrightarrow> data_connections t = data_connections s \<Longrightarrow> wp (f t) (safe_post t)"
  shows "wp (do {(_, t) \<leftarrow> ril_request_complete (ipc_fmt_request_token q s) error data sz s; f t}) (safe_post s)"
proof -
  let ?token = "ipc_fmt_request_token q s"
  obtain t where t: "ril_request_complete ?token error data sz s = Some (0, t)"
    using ril_request_complete_Some [OF assms(1)] by blast
  have "?token \<in> tokens s \<or> ?token = 0"
    using assms(1) by (auto simp: message_pre_def intro: fmt_request_token_queued)
  with safe_post_complete [OF assms(1) t] have post: "safe_post s 0 t"
    by simp
  moreover have "data_connections t = data_connections s"
    using complete_effect [OF assms(1) t] t assms(1)
    by (cases "?token = 0") (auto simp: ril_request_complete_def message_pre_def)
  moreover have "message_pre t"
    using post by (simp add: safe_post_def)
  ultimately show ?thesis
    using t wp_safe_trans [OF post assms(2)] by simp
qed

interpretation pwr_phone_pwr_up: safe_handler ipc_pwr_phone_pwr_up no_connections
proof
  fix s m
  assume "message_pre s" and "no_connections m s"
  then show "wp (ipc_pwr_phone_pwr_up m s) (safe_post s)"
    unfolding ipc_pwr_phone_pwr_up_def by (intro wp_radio_off) (simp_all add: no_connections_def)
qed

interpretation pwr_phone_reset: safe_handler ipc_pwr_phone_reset no_connections
proof
  fix s m
  assume "message_pre s" and "no_connections m s"
  then show "wp (ipc_pwr_phone_reset m s) (safe_post s)"
    unfolding ipc_pwr_phone_reset_def by (intro wp_radio_off) (simp_all add: no_connections_def)
qed

interpretation pwr_phone_state: safe_handler ipc_pwr_phone_state no_connections
proof
  fix s m
  assume a: "message_pre s" "no_connections m s"
  have up: "wp (do {(_, t) \<leftarrow> ril_radio_state_update RADIO_STATE_SIM_NOT_READY t; Some (0, t)}) (safe_post t)"
    if "message_pre t" for t
    using radio_state_update_up [OF that, of RADIO_STATE_SIM_NOT_READY] by (auto simp: radio_state_defs)
  show "wp (ipc_pwr_phone_state m s) (safe_post s)"
    using a safe_post_quiet [OF a(1) quiet_refl] wp_radio_off up
    by (auto simp: ipc_pwr_phone_state_def no_connections_def simp del: wp_bind split: list.split intro!: wp_complete_then)
qed

subsection \<open>Properties\<close>

text \<open>Powering on: when the modem answers a power request with the normal state, the request with
  that sequence number is completed with success, then the radio state becomes \<open>SIM_NOT_READY\<close>, the environment is told so,
  and the request loop is woken so that requests held back until then are tried again.\<close>

theorem power_normal_response:
  assumes "message_pre s" and "env_unsolicited s" and "radio_state s \<noteq> RADIO_STATE_SIM_NOT_READY"
    and "msg_data m = IPC_PWR_PHONE_STATE_RESPONSE_NORMAL # rest" and "ipc_seq_valid (msg_aseq m)"
    and "ipc_fmt_request_token (msg_aseq m) s = token" and "token \<noteq> 0"
  shows "\<exists>s'. ipc_pwr_phone_state m s = Some (0, s') \<and> radio_state s' = RADIO_STATE_SIM_NOT_READY \<and>
    \<not> loop_locked s' \<and> requests s' = filter (\<lambda>n. rq_token (snd n) \<noteq> token) (requests s) \<and>
    trace s' = trace s @ [Complete token RIL_E_SUCCESS RNull 0, Unsol RIL_UNSOL_RESPONSE_RADIO_STATE_CHANGED RNull 0] \<and>
    message_pre s'"
proof -
  have "ril_request_complete token RIL_E_SUCCESS RNull 0 s =
      Some (0, (emit (Complete token RIL_E_SUCCESS RNull 0) (remove_token token s))\<lparr>loop_locked := False\<rparr>)"
    using assms(1,7) by (intro ril_request_complete_eq) (simp_all add: message_pre_def)
  moreover have "ril_inv (remove_token token s)"
    using assms(1) by (simp add: message_pre_def ril_inv_remove_token)
  moreover have "ril_data_alive s" "env_complete s"
    using assms(1) by (simp_all add: message_pre_def)
  ultimately show ?thesis
    using assms(2-7)
    by (simp add: ipc_pwr_phone_state_def ril_radio_state_update_def ril_request_unsolicited_def radio_state_defs
      IPC_PWR_PHONE_STATE_RESPONSE_NORMAL_def IPC_PWR_PHONE_STATE_RESPONSE_LPM_def message_pre_def ril_inv_def)
qed

theorem power_normal_response_witness:
  "\<exists>s'. ipc_pwr_phone_state
      \<lparr>msg_mseq = 0, msg_aseq = 5, msg_command = IPC_PWR_PHONE_STATE, msg_type = 2, msg_data = [2]\<rparr>
      ((initial_world [])\<lparr>ril_data_alive := True, env_complete := True, env_unsolicited := True, fmt_data := True, next_addr := 4,
        requests := [(1, \<lparr>rq_request = 23, rq_data = None, rq_size = 0, rq_token = 7, rq_status = 1\<rparr>)],
        fmt_requests := [(2, \<lparr>fr_request = 23, fr_token = 7, fr_seq = 5\<rparr>)]\<rparr>) = Some (0, s') \<and>
    radio_state s' = RADIO_STATE_SIM_NOT_READY"
  using power_normal_response [of
      "(initial_world [])\<lparr>ril_data_alive := True, env_complete := True, env_unsolicited := True, fmt_data := True, next_addr := 4,
        requests := [(1, \<lparr>rq_request = 23, rq_data = None, rq_size = 0, rq_token = 7, rq_status = 1\<rparr>)],
        fmt_requests := [(2, \<lparr>fr_request = 23, fr_token = 7, fr_seq = 5\<rparr>)]\<rparr>"
      "\<lparr>msg_mseq = 0, msg_aseq = 5, msg_command = IPC_PWR_PHONE_STATE, msg_type = 2, msg_data = [2]\<rparr>" "[]" 7]
  by (auto simp: message_pre_def ril_inv_def nodes_ok_def fmt_mirror_def ipc_seq_valid_def radio_state_defs
    ipc_fmt_request_token_def ipc_fmt_request_find_seq_def initial_world_def IPC_PWR_PHONE_STATE_RESPONSE_NORMAL_def)

text \<open>Switching the radio off with a data connection open is undefined: when the modem
  confirms low power mode, \<open>ipc_pwr_phone_state\<close> flushes the data connections, and the flush frees the
  first connection twice, whatever else is in the state.\<close>

theorem power_lpm_with_connection_undefined:
  assumes "message_pre s" and "radio_state s \<noteq> RADIO_STATE_OFF" and "data_connections s \<noteq> []"
    and "msg_data m = IPC_PWR_PHONE_STATE_RESPONSE_LPM # rest" and "ipc_seq_valid (msg_aseq m)"
  shows "ipc_pwr_phone_state m s = None"
proof -
  let ?token = "ipc_fmt_request_token (msg_aseq m) s"
  obtain t where t: "ril_request_complete ?token RIL_E_SUCCESS RNull 0 s = Some (0, t)"
    using ril_request_complete_Some [OF assms(1)] by blast
  have t': "ril_data_alive t" "radio_state t = radio_state s" "data_connections t = data_connections s"
    using assms(1) t ril_request_complete_eq [of s ?token RIL_E_SUCCESS RNull 0]
    by (cases "?token = 0"; auto simp: message_pre_def ril_request_complete_def)+
  have "ril_radio_state_update RADIO_STATE_OFF t = None"
    using t' assms(2,3)
    by (cases "env_unsolicited t") (simp_all add: ril_radio_state_update_def radio_off_tail_def Let_def
      ril_request_unsolicited_def ril_data_connection_flush_Cons radio_state_defs)
  then show ?thesis
    using t assms(4,5) by (simp add: ipc_pwr_phone_state_def)
qed

theorem power_lpm_with_connection_undefined_witness:
  "ipc_pwr_phone_state
      \<lparr>msg_mseq = 0, msg_aseq = 5, msg_command = IPC_PWR_PHONE_STATE, msg_type = 2, msg_data = [1]\<rparr>
      (snd (ril_data_connection_register 1 (Some ''net'') None None (Some ''rmnet0'')
        ((initial_world [])\<lparr>ril_data_alive := True, env_complete := True, radio_state := RADIO_STATE_SIM_READY\<rparr>))) = None"
  using power_lpm_with_connection_undefined [of "snd (ril_data_connection_register 1 (Some ''net'') None None (Some ''rmnet0'')
        ((initial_world [])\<lparr>ril_data_alive := True, env_complete := True, radio_state := RADIO_STATE_SIM_READY\<rparr>))"
      "\<lparr>msg_mseq = 0, msg_aseq = 5, msg_command = IPC_PWR_PHONE_STATE, msg_type = 2, msg_data = [1]\<rparr>" "[]"]
  by (simp add: message_pre_def ril_inv_def nodes_ok_def ril_data_connection_register_def alloc_def node_append_def
    radio_state_defs ipc_seq_valid_def initial_world_def IPC_PWR_PHONE_STATE_RESPONSE_LPM_def)

end
