(* ===== verification/Ril_Call.thy ===== *)
theory Ril_Call
  imports Ril_Handler
begin

section \<open>samsung-ril: call.c\<close>

text \<open>
  Voice calls and DTMF: the request handlers for dialling, hanging up, answering, the call list, the failure cause and tones,
  the handlers of the modem's call messages, and the callback that continues a tone request once the previous
  tone has stopped. A tone that is playing is remembered as request data of \<open>RIL_REQUEST_DTMF_START\<close>.
\<close>

subsection \<open>Translations\<close>

definition IPC_CALL_END_CAUSE_UNSPECIFIED :: u8 where "IPC_CALL_END_CAUSE_UNSPECIFIED = 0x10"
definition CALL_FAIL_NORMAL :: int where "CALL_FAIL_NORMAL = 16"
definition CALL_FAIL_ERROR_UNSPECIFIED :: int where "CALL_FAIL_ERROR_UNSPECIFIED = 0xffff"

definition ril2ipc_call_identity :: "int \<Rightarrow> u8" where
  "ril2ipc_call_identity clir =
     (if clir = 0 then IPC_CALL_IDENTITY_DEFAULT
      else if clir = 1 then IPC_CALL_IDENTITY_SHOW
      else if clir = 2 then IPC_CALL_IDENTITY_HIDE
      else IPC_CALL_IDENTITY_DEFAULT)"

text \<open>The function returns an \<open>unsigned char\<close>, so its \<open>-1\<close> for an unknown status is 255.\<close>

definition ipc2ril_call_list_entry_state :: "u8 \<Rightarrow> u8" where
  "ipc2ril_call_list_entry_state status =
     (if status = 0x01 then 0 else if status = 0x02 then 1 else if status = 0x03 then 2
      else if status = 0x04 then 3 else if status = 0x05 then 4 else if status = 0x06 then 5
      else -1)"

definition ipc2ril_call_fail_cause :: "u8 \<Rightarrow> int" where
  "ipc2ril_call_fail_cause end_cause =
     (if end_cause = IPC_CALL_END_CAUSE_NORMAL \<or> end_cause = IPC_CALL_END_CAUSE_REJECTED then CALL_FAIL_NORMAL
      else CALL_FAIL_ERROR_UNSPECIFIED)"

subsection \<open>Dialling, hanging up, answering\<close>

definition ril_request_dial :: req_handler where
  "ril_request_dial data sz token s = (case data of
      None \<Rightarrow> request_failed token RIL_E_GENERIC_FAILURE s
    | Some d \<Rightarrow>
        if sz < 12 then request_failed token RIL_E_GENERIC_FAILURE s
        else if ril_radio_state_check RADIO_STATE_SIM_NOT_READY s < 0 then Some (RIL_REQUEST_UNHANDLED, s)
        else (case d of
            PDial address clir \<Rightarrow>
             (case address of
                None \<Rightarrow> request_failed token RIL_E_GENERIC_FAILURE s
              | Some number \<Rightarrow>
                  let identity = ril2ipc_call_identity clir;
                      prefix = (case number of [] \<Rightarrow> IPC_CALL_PREFIX_NONE
                        | c # _ \<Rightarrow> if c = CHR ''+'' then IPC_CALL_PREFIX_INTL else IPC_CALL_PREFIX_NONE) in
                  (case ipc_call_outgoing_setup IPC_CALL_TYPE_VOICE identity prefix (Some number) of
                     None \<Rightarrow> request_failed token RIL_E_GENERIC_FAILURE s
                   | Some request_data \<Rightarrow> do {
                       (rc, s) \<leftarrow> Some (expect_complete_for token IPC_CALL_OUTGOING s);
                       if rc < 0 then request_failed token RIL_E_GENERIC_FAILURE s
                       else do {
                         (rc, s) \<leftarrow> Some (fmt_send_for token IPC_CALL_OUTGOING IPC_TYPE_EXEC request_data s);
                         if rc < 0 then request_failed token RIL_E_GENERIC_FAILURE s
                         else Some (RIL_REQUEST_HANDLED, s)
                       }
                     }))
          | _ \<Rightarrow> None))"

definition ipc_call_incoming :: msg_handler where
  "ipc_call_incoming message s = do {
     (_, s) \<leftarrow> Some (ril_request_unsolicited RIL_UNSOL_CALL_RING RNull 0 s);
     (_, s) \<leftarrow> Some (ril_request_unsolicited RIL_UNSOL_RESPONSE_CALL_STATE_CHANGED RNull 0 s);
     Some (0, s)
   }"

text \<open>A local \<open>int\<close> handed to the request data.\<close>

definition int_payload :: "int \<Rightarrow> payload" where
  "int_payload i = PBytes (bytes32 (word_of_int i))"

lemma payload_size_int [simp]: "payload_size (int_payload i) = 4"
  by (simp add: int_payload_def payload_size_def)

definition ril_request_hangup :: req_handler where
  "ril_request_hangup data sz token s =
     (if ril_radio_state_check RADIO_STATE_SIM_NOT_READY s < 0 then Some (RIL_REQUEST_UNHANDLED, s)
      else do {
        (_, s) \<leftarrow> ril_request_data_set_uniq RIL_REQUEST_HANGUP (Some (int_payload 1)) 4 s;
        (rc, s) \<leftarrow> Some (expect_complete_for token IPC_CALL_RELEASE s);
        if rc < 0 then request_failed token RIL_E_GENERIC_FAILURE (ril_request_data_free RIL_REQUEST_HANGUP s)
        else do {
          (rc, s) \<leftarrow> Some (fmt_send_for token IPC_CALL_RELEASE IPC_TYPE_EXEC [] s);
          if rc < 0 then request_failed token RIL_E_GENERIC_FAILURE (ril_request_data_free RIL_REQUEST_HANGUP s)
          else do {
            (_, s) \<leftarrow> Some (ril_request_unsolicited RIL_UNSOL_RESPONSE_CALL_STATE_CHANGED RNull 0 s);
            Some (RIL_REQUEST_HANDLED, s)
          }
        }
      })"

definition ril_request_answer :: req_handler where
  "ril_request_answer data sz token s =
     (if ril_radio_state_check RADIO_STATE_SIM_NOT_READY s < 0 then Some (RIL_REQUEST_UNHANDLED, s)
      else do {
        (rc, s) \<leftarrow> Some (expect_complete_for token IPC_CALL_ANSWER s);
        if rc < 0 then request_failed token RIL_E_GENERIC_FAILURE s
        else do {
          (rc, s) \<leftarrow> Some (fmt_send_for token IPC_CALL_ANSWER IPC_TYPE_EXEC [] s);
          if rc < 0 then request_failed token RIL_E_GENERIC_FAILURE s
          else do {
            (_, s) \<leftarrow> Some (ril_request_unsolicited RIL_UNSOL_RESPONSE_CALL_STATE_CHANGED RNull 0 s);
            Some (RIL_REQUEST_HANDLED, s)
          }
        }
      })"

subsection \<open>Call status and failure cause\<close>

text \<open>\<open>struct ipc_call_status_data\<close> has six bytes; status is the fourth and the end cause the last.\<close>

definition ipc_call_status :: msg_handler where
  "ipc_call_status message s =
     (if length (msg_data message) < 6 then Some (-1, s)
      else do {
        let hangup_size = ril_request_data_size_get RIL_REQUEST_HANGUP s;
        (hangup_data, s) \<leftarrow> Some (ril_request_data_get RIL_REQUEST_HANGUP s);
        (_, s) \<leftarrow>
          (if msg_data message ! 3 = IPC_CALL_STATUS_RELEASED \<and> (hangup_data = None \<or> hangup_size = 0)
           then ril_request_data_set_uniq RIL_REQUEST_LAST_CALL_FAIL_CAUSE
                  (Some (int_payload (ipc2ril_call_fail_cause (msg_data message ! 5)))) 4 s
           else Some (0, s));
        (_, s) \<leftarrow> Some (ril_request_unsolicited RIL_UNSOL_RESPONSE_CALL_STATE_CHANGED RNull 0 s);
        Some (0, s)
      })"

definition ril_request_last_call_fail_cause :: req_handler where
  "ril_request_last_call_fail_cause data sz token s =
     (if ril_radio_state_check RADIO_STATE_SIM_NOT_READY s < 0 then Some (RIL_REQUEST_UNHANDLED, s)
      else do {
        let fail_cause_size = ril_request_data_size_get RIL_REQUEST_LAST_CALL_FAIL_CAUSE s;
        (fail_cause_data, s) \<leftarrow> Some (ril_request_data_get RIL_REQUEST_LAST_CALL_FAIL_CAUSE s);
        (case fail_cause_data of
           None \<Rightarrow> request_failed token RIL_E_GENERIC_FAILURE s
         | Some d \<Rightarrow>
             if fail_cause_size < 4 then request_failed token RIL_E_GENERIC_FAILURE s
             else (case payload_int d of
                 None \<Rightarrow> None
               | Some fail_cause \<Rightarrow> do {
                   (_, s) \<leftarrow> ril_request_complete token RIL_E_SUCCESS (RInt fail_cause) 4 s;
                   Some (RIL_REQUEST_COMPLETED, s)
                 }))
      })"

subsection \<open>The call list\<close>

definition call_of_entry :: "u8 list \<Rightarrow> nat \<Rightarrow> RIL_Call" where
  "call_of_entry bs p =
     (let entry = call_list_entry_at bs p; number = ipc_call_list_entry_number_extract bs p in
      \<lparr>rc_state = uint (ipc2ril_call_list_entry_state (ce_status entry)),
       rc_index = uint (ce_id entry),
       rc_toa = (if unat (ce_number_length entry) > 0 \<and> (case number of [] \<Rightarrow> False | c # _ \<Rightarrow> c = CHR ''+'') then 145 else 129),
       rc_isMpty = ce_mpty entry,
       rc_isMT = (ce_term entry = IPC_CALL_TERM_MT),
       rc_isVoice = (ce_type entry = IPC_CALL_TYPE_VOICE),
       rc_number = number,
       rc_numberPresentation = (if unat (ce_number_length entry) > 0 then 0 else 2)\<rparr>)"

text \<open>The loop over the entries: undefined when an entry is read past the message, \<open>Some None\<close> for its
  jump to \<open>error\<close>.\<close>

fun collect_calls :: "u8 list \<Rightarrow> nat list \<Rightarrow> RIL_Call list option option" where
  "collect_calls bs [] = Some (Some [])"
| "collect_calls bs (i # is) = (case ipc_call_list_entry_extract bs i of
      None \<Rightarrow> None
    | Some None \<Rightarrow> Some None
    | Some (Some p) \<Rightarrow> (case collect_calls bs is of
        None \<Rightarrow> None
      | Some None \<Rightarrow> Some None
      | Some (Some calls) \<Rightarrow> Some (Some (call_of_entry bs p # calls))))"

definition ipc_call_list :: msg_handler where
  "ipc_call_list message s =
     (if msg_data message = [] then Some (-1, s)
      else if msg_type message \<noteq> IPC_TYPE_RESP \<or> \<not> ipc_seq_valid (msg_aseq message) then Some (0, s)
      else
        let count = ipc_call_list_count_extract (msg_data message) in
        if count = 0 then message_complete (msg_aseq message) RIL_E_SUCCESS RNull 0 s
        else (case collect_calls (msg_data message) [0..<unat count] of
            None \<Rightarrow> None
          | Some None \<Rightarrow> message_complete (msg_aseq message) RIL_E_GENERIC_FAILURE RNull 0 s
          | Some (Some calls) \<Rightarrow>
              message_complete (msg_aseq message) RIL_E_SUCCESS (RCalls calls) (length calls * 4) s))"

definition ril_request_get_current_calls :: req_handler where
  "ril_request_get_current_calls data sz token s =
     (if ril_radio_state_check RADIO_STATE_SIM_NOT_READY s < 0 then request_failed token RIL_E_SUCCESS s
      else do {
        (rc, s) \<leftarrow> Some (fmt_send_for token IPC_CALL_LIST IPC_TYPE_GET [] s);
        if rc < 0 then request_failed token RIL_E_GENERIC_FAILURE s
        else Some (RIL_REQUEST_HANDLED, s)
      })"

subsection \<open>DTMF\<close>

definition ipc_call_burst_dtmf :: msg_handler where
  "ipc_call_burst_dtmf message s =
     (if msg_data message = [] then Some (-1, s)
      else if \<not> ipc_seq_valid (msg_aseq message) then Some (0, s)
      else message_complete (msg_aseq message) RIL_E_SUCCESS RNull 0 s)"

definition ril_request_dtmf_complete :: "u8 \<Rightarrow> u8 \<Rightarrow> ril_world \<Rightarrow> int \<times> ril_world" where
  "ril_request_dtmf_complete aseq tone s =
     (let entry = (IPC_CALL_DTMF_STATUS_START, tone) in
      if ipc_call_burst_dtmf_size_setup [entry] 1 = 0 then (-1, s)
      else (case ipc_call_burst_dtmf_setup [entry] 1 of
          None \<Rightarrow> (-1, s)
        | Some request_data \<Rightarrow>
            (case ipc_gen_phone_res_expect_abort aseq IPC_CALL_BURST_DTMF s of (rc, s) \<Rightarrow>
              if rc < 0 then (-1, s)
              else (case ipc_fmt_send aseq IPC_CALL_BURST_DTMF IPC_TYPE_EXEC request_data s of (rc, s) \<Rightarrow>
                if rc < 0 then (-1, s) else (0, s)))))"

definition ril_request_dtmf_start_complete :: "u8 \<Rightarrow> u8 \<Rightarrow> ril_world \<Rightarrow> int \<times> ril_world" where
  "ril_request_dtmf_start_complete aseq tone s =
     (case ipc_gen_phone_res_expect_complete aseq IPC_CALL_CONT_DTMF s of (rc, s) \<Rightarrow>
        if rc < 0 then (-1, s)
        else (case ipc_fmt_send aseq IPC_CALL_CONT_DTMF IPC_TYPE_SET [IPC_CALL_DTMF_STATUS_START, tone] s of (rc, s) \<Rightarrow>
          if rc < 0 then (-1, s) else (0, s)))"

definition ril_request_dtmf_stop_complete :: "u8 \<Rightarrow> bool \<Rightarrow> ril_world \<Rightarrow> int \<times> ril_world" where
  "ril_request_dtmf_stop_complete aseq callback s =
     (case (if callback then ipc_gen_phone_res_expect_callback aseq IPC_CALL_CONT_DTMF Cb_call_cont_dtmf s
            else ipc_gen_phone_res_expect_complete aseq IPC_CALL_CONT_DTMF s) of (rc, s) \<Rightarrow>
        if rc < 0 then (-1, s)
        else (case ipc_fmt_send aseq IPC_CALL_CONT_DTMF IPC_TYPE_SET [IPC_CALL_DTMF_STATUS_STOP, 0] s of (rc, s) \<Rightarrow>
          if rc < 0 then (-1, s) else (0, s)))"

text \<open>The second half of the callback: a burst tone waiting for the previous tone to stop.\<close>

definition cont_dtmf_burst :: "ipc_message \<Rightarrow> ril_world \<Rightarrow> (int \<times> ril_world) option" where
  "cont_dtmf_burst message s = do {
     let dtmf_size = ril_request_data_size_get RIL_REQUEST_DTMF s;
     (dtmf_data, s) \<leftarrow> Some (ril_request_data_get RIL_REQUEST_DTMF s);
     (case dtmf_data of
        None \<Rightarrow> Some (0, s)
      | Some d \<Rightarrow>
          if dtmf_size < 1 then Some (0, s)
          else (case payload_byte d of
              None \<Rightarrow> None
            | Some tone \<Rightarrow> do {
                (rc, s) \<leftarrow> Some (ril_request_dtmf_complete (msg_aseq message) tone s);
                if rc < 0 then message_complete (msg_aseq message) RIL_E_GENERIC_FAILURE RNull 0 s
                else Some (0, s)
              }))
   }"

definition ipc_call_cont_dtmf_callback :: msg_handler where
  "ipc_call_cont_dtmf_callback message s = (case gen_phone_res_data (msg_data message) of
      None \<Rightarrow> Some (-1, s)
    | Some data \<Rightarrow>
        if ipc_gen_phone_res_check data < 0
        then message_complete (msg_aseq message) RIL_E_GENERIC_FAILURE RNull 0 s
        else do {
          let dtmf_size = ril_request_data_size_get RIL_REQUEST_DTMF_START s;
          (dtmf_data, s) \<leftarrow> Some (ril_request_data_get RIL_REQUEST_DTMF_START s);
          (case dtmf_data of
             None \<Rightarrow> cont_dtmf_burst message s
           | Some d \<Rightarrow>
               if dtmf_size < 1 then cont_dtmf_burst message s
               else (case payload_byte d of
                   None \<Rightarrow> None
                 | Some tone \<Rightarrow> do {
                     (_, s) \<leftarrow> ril_request_data_set RIL_REQUEST_DTMF_START (Some d) dtmf_size s;
                     (rc, s) \<leftarrow> Some (ril_request_dtmf_start_complete (msg_aseq message) tone s);
                     if rc < 0
                     then message_complete (msg_aseq message) RIL_E_GENERIC_FAILURE RNull 0
                            (ril_request_data_free RIL_REQUEST_DTMF_START s)
                     else cont_dtmf_burst message s
                   }))
        })"

text \<open>The three checks at the start of the tone handlers: no other tone request is being handled.\<close>

definition dtmf_busy :: "ril_world \<Rightarrow> bool" where
  "dtmf_busy s \<longleftrightarrow>
     ril_request_find_request_status RIL_REQUEST_DTMF RIL_REQUEST_HANDLED s \<noteq> None \<or>
     ril_request_find_request_status RIL_REQUEST_DTMF_START RIL_REQUEST_HANDLED s \<noteq> None \<or>
     ril_request_find_request_status RIL_REQUEST_DTMF_STOP RIL_REQUEST_HANDLED s \<noteq> None"

definition ril_request_dtmf :: req_handler where
  "ril_request_dtmf data sz token s = (case data of
      None \<Rightarrow> request_failed token RIL_E_GENERIC_FAILURE s
    | Some d \<Rightarrow>
        if sz < 1 then request_failed token RIL_E_GENERIC_FAILURE s
        else if ril_radio_state_check RADIO_STATE_SIM_NOT_READY s < 0 then Some (RIL_REQUEST_UNHANDLED, s)
        else if dtmf_busy s then Some (RIL_REQUEST_UNHANDLED, s)
        else (case payload_byte d of
            None \<Rightarrow> None
          | Some tone \<Rightarrow> do {
              let dtmf_size = ril_request_data_size_get RIL_REQUEST_DTMF_START s;
              (dtmf_data, s) \<leftarrow> Some (ril_request_data_get RIL_REQUEST_DTMF_START s);
              if dtmf_data \<noteq> None \<and> dtmf_size \<ge> 1 then do {
                (_, s) \<leftarrow> ril_request_data_set RIL_REQUEST_DTMF (Some d) sz s;
                (seq, s) \<leftarrow> Some (ipc_fmt_request_seq token s);
                (rc, s) \<leftarrow> Some (ril_request_dtmf_stop_complete seq True s);
                if rc < 0
                then request_failed token RIL_E_GENERIC_FAILURE (ril_request_data_free RIL_REQUEST_DTMF s)
                else Some (RIL_REQUEST_HANDLED, s)
              }
              else do {
                (seq, s) \<leftarrow> Some (ipc_fmt_request_seq token s);
                (rc, s) \<leftarrow> Some (ril_request_dtmf_complete seq tone s);
                if rc < 0 then request_failed token RIL_E_GENERIC_FAILURE s
                else Some (RIL_REQUEST_HANDLED, s)
              }
            }))"

definition ril_request_dtmf_start :: req_handler where
  "ril_request_dtmf_start data sz token s = (case data of
      None \<Rightarrow> request_failed token RIL_E_GENERIC_FAILURE s
    | Some d \<Rightarrow>
        if sz < 1 then request_failed token RIL_E_GENERIC_FAILURE s
        else if ril_radio_state_check RADIO_STATE_SIM_NOT_READY s < 0 then Some (RIL_REQUEST_UNHANDLED, s)
        else if dtmf_busy s then Some (RIL_REQUEST_UNHANDLED, s)
        else (case payload_byte d of
            None \<Rightarrow> None
          | Some tone \<Rightarrow> do {
              let dtmf_size = ril_request_data_size_get RIL_REQUEST_DTMF_START s;
              (dtmf_data, s) \<leftarrow> Some (ril_request_data_get RIL_REQUEST_DTMF_START s);
              (_, s) \<leftarrow> ril_request_data_set RIL_REQUEST_DTMF_START (Some d) sz s;
              (seq, s) \<leftarrow> Some (ipc_fmt_request_seq token s);
              (rc, s) \<leftarrow> Some (if dtmf_data \<noteq> None \<and> dtmf_size \<ge> 1
                then ril_request_dtmf_stop_complete seq True s
                else ril_request_dtmf_start_complete seq tone s);
              if rc < 0
              then request_failed token RIL_E_GENERIC_FAILURE (ril_request_data_free RIL_REQUEST_DTMF_START s)
              else Some (RIL_REQUEST_HANDLED, s)
            }))"

definition ril_request_dtmf_stop :: req_handler where
  "ril_request_dtmf_stop data sz token s =
     (if dtmf_busy s then Some (RIL_REQUEST_UNHANDLED, s)
      else do {
        (_, s) \<leftarrow> Some (ril_request_data_get RIL_REQUEST_DTMF_START s);
        (seq, s) \<leftarrow> Some (ipc_fmt_request_seq token s);
        (rc, s) \<leftarrow> Some (ril_request_dtmf_stop_complete seq False s);
        if rc < 0 then request_failed token RIL_E_GENERIC_FAILURE s
        else Some (RIL_REQUEST_HANDLED, s)
      })"

subsection \<open>The handlers keep their contracts\<close>

lemma bytes_payload_int_payload [simp]: "bytes_payload (Some (int_payload i)) 4"
  by (simp add: bytes_payload_def int_payload_def)

lemma quiet_dtmf:
  "quiet s (snd (ril_request_dtmf_complete aseq tone s))"
  "quiet s (snd (ril_request_dtmf_start_complete aseq tone s))"
  "quiet s (snd (ril_request_dtmf_stop_complete aseq callback s))"
  using quiet_trans [OF quiet_expect(1) quiet_send] quiet_trans [OF quiet_expect(2) quiet_send]
    quiet_trans [OF quiet_expect(3) quiet_send]
  by (simp_all add: ril_request_dtmf_complete_def ril_request_dtmf_start_complete_def Let_def
    ril_request_dtmf_stop_complete_def split_beta quiet_expect quiet_refl split: option.split)

lemmas wp_dtmf [wp_intro] =
  quiet_wp [OF _ quiet_dtmf(1)] quiet_wp [OF _ quiet_dtmf(2)] quiet_wp [OF _ quiet_dtmf(3)]

definition dial_payload :: "payload option \<Rightarrow> nat \<Rightarrow> bool" where
  "dial_payload data sz = (case data of None \<Rightarrow> True | Some (PDial _ _) \<Rightarrow> True | Some _ \<Rightarrow> sz < 12)"

interpretation dial: request_handler ril_request_dial dial_payload
proof
  fix token s data sz
  assume "handler_pre token s" and "dial_payload data sz"
  with quiet_refl [of s] show "wp (ril_request_dial data sz token s) (handler_post token s)"
    by (auto simp: ril_request_dial_def dial_payload_def Let_def split: option.split payload.splits
      intro!: wp_intro)
qed

interpretation hangup: request_handler ril_request_hangup any_payload
proof
  fix token s data sz
  assume "handler_pre token s"
  with quiet_refl [of s] show "wp (ril_request_hangup data sz token s) (handler_post token s)"
    by (auto simp: ril_request_hangup_def intro!: wp_intro)
qed

interpretation answer: request_handler ril_request_answer any_payload
proof
  fix token s data sz
  assume "handler_pre token s"
  with quiet_refl [of s] show "wp (ril_request_answer data sz token s) (handler_post token s)"
    by (auto simp: ril_request_answer_def intro!: wp_intro)
qed

interpretation last_call_fail_cause: request_handler ril_request_last_call_fail_cause any_payload
proof
  fix token s data sz
  assume "handler_pre token s"
  with quiet_refl [of s] handler_pre_inv show
    "wp (ril_request_last_call_fail_cause data sz token s) (handler_post token s)"
    by (auto simp: ril_request_last_call_fail_cause_def split: option.split intro!: wp_intro dest: bytes_payload_int)
qed

interpretation get_current_calls: request_handler ril_request_get_current_calls any_payload
proof
  fix token s data sz
  assume "handler_pre token s"
  with quiet_refl [of s] show "wp (ril_request_get_current_calls data sz token s) (handler_post token s)"
    by (auto simp: ril_request_get_current_calls_def intro!: wp_intro)
qed

interpretation dtmf: request_handler ril_request_dtmf bytes_payload
proof
  fix token s data sz
  assume "handler_pre token s" and "bytes_payload data sz"
  with quiet_refl [of s] handler_pre_inv show "wp (ril_request_dtmf data sz token s) (handler_post token s)"
    by (auto simp: ril_request_dtmf_def split: option.split intro!: wp_intro dest: bytes_payload_byte)
qed

interpretation dtmf_start: request_handler ril_request_dtmf_start bytes_payload
proof
  fix token s data sz
  assume "handler_pre token s" and "bytes_payload data sz"
  with quiet_refl [of s] handler_pre_inv show "wp (ril_request_dtmf_start data sz token s) (handler_post token s)"
    by (auto simp: ril_request_dtmf_start_def split: option.split intro!: wp_intro dest: bytes_payload_byte)
qed

interpretation dtmf_stop: request_handler ril_request_dtmf_stop any_payload
proof
  fix token s data sz
  assume "handler_pre token s"
  with quiet_refl [of s] handler_pre_inv show "wp (ril_request_dtmf_stop data sz token s) (handler_post token s)"
    by (auto simp: ril_request_dtmf_stop_def intro!: wp_intro)
qed

text \<open>The message handlers accept every message, except that a call list must hold what it announces.\<close>

definition call_list_whole :: "ipc_message \<Rightarrow> ril_world \<Rightarrow> bool" where
  "call_list_whole m s \<longleftrightarrow>
     collect_calls (msg_data m) [0..<unat (ipc_call_list_count_extract (msg_data m))] \<noteq> None"

interpretation call_incoming: message_handler ipc_call_incoming any_message
proof
  fix s m
  assume "message_pre s"
  with quiet_refl [of s] show "wp (ipc_call_incoming m s) (message_post (msg_aseq m) s)"
    by (auto simp: ipc_call_incoming_def intro!: wp_intro message_post_quiet)
qed

interpretation call_status: message_handler ipc_call_status any_message
proof
  fix s m
  assume "message_pre s"
  with quiet_refl [of s] message_pre_inv show "wp (ipc_call_status m s) (message_post (msg_aseq m) s)"
    by (auto simp: ipc_call_status_def intro!: wp_intro message_post_quiet)
qed

interpretation call_list: message_handler ipc_call_list call_list_whole
proof
  fix s m
  assume "message_pre s" and "call_list_whole m s"
  with quiet_refl [of s] show "wp (ipc_call_list m s) (message_post (msg_aseq m) s)"
    by (auto simp: ipc_call_list_def call_list_whole_def Let_def split: option.split
      intro!: wp_intro message_post_quiet)
qed

interpretation call_burst_dtmf: message_handler ipc_call_burst_dtmf any_message
proof
  fix s m
  assume "message_pre s"
  with quiet_refl [of s] show "wp (ipc_call_burst_dtmf m s) (message_post (msg_aseq m) s)"
    by (auto simp: ipc_call_burst_dtmf_def intro!: wp_intro message_post_quiet)
qed

lemma wp_cont_dtmf_burst [wp_intro]:
  assumes "quiet base s" and "message_pre base"
  shows "wp (cont_dtmf_burst m s) (message_post (msg_aseq m) base)"
  using assms message_pre_inv
  by (auto simp: cont_dtmf_burst_def split: option.split intro!: wp_intro message_post_quiet dest!: bytes_payload_byte)

interpretation call_cont_dtmf_callback: message_handler ipc_call_cont_dtmf_callback any_message
proof
  fix s m
  assume "message_pre s"
  with quiet_refl [of s] message_pre_inv show "wp (ipc_call_cont_dtmf_callback m s) (message_post (msg_aseq m) s)"
    by (auto simp: ipc_call_cont_dtmf_callback_def split: option.split intro!: wp_intro message_post_quiet
      dest: bytes_payload_byte) (auto dest!: bytes_payload_byte)
qed

subsection \<open>Properties\<close>

text \<open>What the environment should be told of a call that the modem lists.\<close>

definition call_of_sent :: "ipc_call_list_entry \<times> u8 list \<Rightarrow> RIL_Call" where
  "call_of_sent en = (case en of (entry, number) \<Rightarrow>
     \<lparr>rc_state = uint (ipc2ril_call_list_entry_state (ce_status entry)), rc_index = uint (ce_id entry),
      rc_toa = (if number \<noteq> [] \<and> byte_char (hd number) = CHR ''+'' then 145 else 129),
      rc_isMpty = ce_mpty entry, rc_isMT = (ce_term entry = IPC_CALL_TERM_MT),
      rc_isVoice = (ce_type entry = IPC_CALL_TYPE_VOICE), rc_number = map byte_char number,
      rc_numberPresentation = (if number \<noteq> [] then 0 else 2)\<rparr>)"

lemma call_of_entry_sent:
  assumes "call_list_entry_at bs p = (fst en)\<lparr>ce_number_length := of_nat (length (snd en))\<rparr>"
    and "ipc_call_list_entry_number_extract bs p = map byte_char (snd en)" and "length (snd en) < 256"
  shows "call_of_entry bs p = call_of_sent en"
  using assms by (cases en; cases "snd en") (auto simp: call_of_entry_def call_of_sent_def Let_def simp del: of_nat_Suc)

lemma collect_calls_map:
  assumes "\<forall>i \<in> set is. \<exists>p. ipc_call_list_entry_extract bs i = Some (Some p) \<and> call_of_entry bs p = g i"
  shows "collect_calls bs is = Some (Some (map g is))"
  using assms by (induction "is") auto

text \<open>C21. The environment gets the modem's call list: for an outstanding request, a response that
  carries the encoding of one to 255 calls (numbers of fewer than 256 bytes without NUL) completes it
  with success and with exactly these calls, in order, each with its translated state, index, number,
  type of address and presentation.\<close>

theorem call_list_delivered:
  assumes "message_pre s" and "msg_type m = IPC_TYPE_RESP" and "ipc_seq_valid (msg_aseq m)"
    and "ipc_fmt_request_token (msg_aseq m) s = token" and "token \<noteq> 0"
    and "msg_data m = encode_call_list es" and "es \<noteq> []" and "length es < 256"
    and "\<forall>en \<in> set es. length (snd en) < 256 \<and> 0 \<notin> set (snd en)"
  shows "\<exists>s'. ipc_call_list m s = Some (0, s') \<and>
    trace s' = trace s @ [Complete token RIL_E_SUCCESS (RCalls (map call_of_sent es)) (length es * 4)] \<and>
    requests s' = filter (\<lambda>n. rq_token (snd n) \<noteq> token) (requests s)"
proof -
  have count: "unat (ipc_call_list_count_extract (encode_call_list es)) = length es"
    using assms(8) by (simp add: encode_call_list_def ipc_call_list_count_extract_def)
  have "\<exists>p. ipc_call_list_entry_extract (encode_call_list es) i = Some (Some p) \<and>
      call_of_entry (encode_call_list es) p = call_of_sent (es ! i)" if "i < length es" for i
  proof -
    have "length (snd (es ! i)) < 256"
      using assms(9) that by simp
    with call_list_roundtrip [OF that assms(8,9)] show ?thesis
      by (blast intro: call_of_entry_sent)
  qed
  then have "collect_calls (encode_call_list es) [0..<length es] =
      Some (Some (map (\<lambda>i. call_of_sent (es ! i)) [0..<length es]))"
    by (intro collect_calls_map) simp
  also have "map (\<lambda>i. call_of_sent (es ! i)) [0..<length es] = map call_of_sent es"
    by (rule nth_equalityI) simp_all
  finally have calls: "collect_calls (encode_call_list es) [0..<length es] = Some (Some (map call_of_sent es))" .
  have complete: "message_complete (msg_aseq m) e d n s =
      Some (0, (emit (Complete token e d n) (remove_token token s))\<lparr>loop_locked := False\<rparr>)" for e d n
    using assms(1,4,5) ril_request_complete_eq [of s token e d n]
    by (simp add: message_complete_def message_pre_def)
  have "ipc_call_list_count_extract (encode_call_list es) \<noteq> 0"
    using count assms(7) by (metis length_0_conv unat_0)
  moreover have "encode_call_list es \<noteq> []"
    by (simp add: encode_call_list_def)
  ultimately show ?thesis
    using assms(2,3,6) calls by (simp add: ipc_call_list_def complete count)
qed

theorem call_list_delivered_witness:
  "\<exists>s'. ipc_call_list \<lparr>msg_mseq = 0, msg_aseq = 5, msg_command = IPC_CALL_LIST, msg_type = IPC_TYPE_RESP,
      msg_data = encode_call_list [(\<lparr>ce_type = 1, ce_id = 1, ce_term = 1, ce_status = 1, ce_mpty = 0, ce_number_length = 0\<rparr>, [0x31])]\<rparr>
      ((initial_world [])\<lparr>ril_data_alive := True, env_complete := True, fmt_data := True, next_addr := 4,
        requests := [(1, \<lparr>rq_request = 9, rq_data = None, rq_size = 0, rq_token = 7, rq_status = 1\<rparr>)],
        fmt_requests := [(2, \<lparr>fr_request = 9, fr_token = 7, fr_seq = 5\<rparr>)]\<rparr>) = Some (0, s') \<and> requests s' = []"
  using call_list_delivered [of
      "(initial_world [])\<lparr>ril_data_alive := True, env_complete := True, fmt_data := True, next_addr := 4,
        requests := [(1, \<lparr>rq_request = 9, rq_data = None, rq_size = 0, rq_token = 7, rq_status = 1\<rparr>)],
        fmt_requests := [(2, \<lparr>fr_request = 9, fr_token = 7, fr_seq = 5\<rparr>)]\<rparr>"
      "\<lparr>msg_mseq = 0, msg_aseq = 5, msg_command = IPC_CALL_LIST, msg_type = IPC_TYPE_RESP,
      msg_data = encode_call_list [(\<lparr>ce_type = 1, ce_id = 1, ce_term = 1, ce_status = 1, ce_mpty = 0, ce_number_length = 0\<rparr>, [0x31])]\<rparr>"
      7 "[(\<lparr>ce_type = 1, ce_id = 1, ce_term = 1, ce_status = 1, ce_mpty = 0, ce_number_length = 0\<rparr>, [0x31])]"]
  by (auto simp: message_pre_def ril_inv_def nodes_ok_def fmt_mirror_def ipc_seq_valid_def
    ipc_fmt_request_token_def ipc_fmt_request_find_seq_def initial_world_def)

text \<open>Why a call ended: when a call is released and the user did not ask to hang up, the end cause
  of \<open>ipc_call_status\<close>, translated, is what the next \<open>RIL_REQUEST_LAST_CALL_FAIL_CAUSE\<close> is completed with; the
  call-state change has been announced before.\<close>

theorem call_fail_cause_reported:
  assumes "message_pre s" and "env_unsolicited s" and "6 \<le> length (msg_data m)"
    and "msg_data m ! 3 = IPC_CALL_STATUS_RELEASED"
    and "ril_request_data_find_request RIL_REQUEST_HANGUP s = None"
    and "ril_radio_state_check RADIO_STATE_SIM_NOT_READY s = 0" and "token \<noteq> 0"
  shows "\<exists>s1 s2. ipc_call_status m s = Some (0, s1) \<and>
    ril_request_last_call_fail_cause data sz token s1 = Some (RIL_REQUEST_COMPLETED, s2) \<and>
    trace s2 = trace s @ [Unsol RIL_UNSOL_RESPONSE_CALL_STATE_CHANGED RNull 0,
      Complete token RIL_E_SUCCESS (RInt (ipc2ril_call_fail_cause (msg_data m ! 5))) 4]"
proof -
  let ?cause = "ipc2ril_call_fail_cause (msg_data m ! 5)"
  let ?t = "data_stored RIL_REQUEST_LAST_CALL_FAIL_CAUSE (int_payload ?cause) 4 s"
  let ?s1 = "emit (Unsol RIL_UNSOL_RESPONSE_CALL_STATE_CHANGED RNull 0) ?t"
  let ?u = "emit (Unsol RIL_UNSOL_RESPONSE_CALL_STATE_CHANGED RNull 0) (data_fetched RIL_REQUEST_LAST_CALL_FAIL_CAUSE s)"
  have pre: "ril_inv s" "ril_data_alive s" "env_complete s"
    using assms(1) by (simp_all add: message_pre_def)
  have "payload_copy 4 (int_payload ?cause) = Some (int_payload ?cause)"
    using payload_copy_full [of "int_payload ?cause"] by simp
  from data_set_uniq_eq [OF pre(1,2) _ this, of RIL_REQUEST_LAST_CALL_FAIL_CAUSE]
  have set: "ril_request_data_set_uniq RIL_REQUEST_LAST_CALL_FAIL_CAUSE (Some (int_payload ?cause)) 4 s =
      Some (0, ?t)"
    by simp
  have get: "ril_request_data_get RIL_REQUEST_HANGUP s = (None, s)"
    using assms(5) by (simp add: ril_request_data_get_def)
  have status: "ipc_call_status m s = Some (0, ?s1)"
    using assms(2-4) pre set get
    by (simp add: ipc_call_status_def ril_request_unsolicited_def data_stored_def)
  have fetch: "ril_request_data_size_get RIL_REQUEST_LAST_CALL_FAIL_CAUSE ?s1 = 4"
    "ril_request_data_get RIL_REQUEST_LAST_CALL_FAIL_CAUSE ?s1 = (Some (int_payload ?cause), ?u)"
    using data_get_eq [of "emit (Unsol RIL_UNSOL_RESPONSE_CALL_STATE_CHANGED RNull 0) s"
      RIL_REQUEST_LAST_CALL_FAIL_CAUSE "int_payload ?cause" 4] pre
    by (simp_all add: data_stored_emit)
  have "ril_inv ?u"
    using pre(1) by (auto simp: ril_inv_def data_fetched_def nodes_ok_def less_Suc_eq distinct_map_filter)
  then have "ril_request_complete token RIL_E_SUCCESS (RInt ?cause) 4 ?u =
      Some (0, (emit (Complete token RIL_E_SUCCESS (RInt ?cause) 4) (remove_token token ?u))\<lparr>loop_locked := False\<rparr>)"
    using pre assms(7) by (intro ril_request_complete_eq) (simp_all add: data_fetched_def)
  moreover have "payload_int (int_payload ?cause) = Some ?cause"
    by (simp add: payload_int_def int_payload_def ipc2ril_call_fail_cause_def CALL_FAIL_NORMAL_def
      CALL_FAIL_ERROR_UNSPECIFIED_def)
  moreover have "ril_radio_state_check RADIO_STATE_SIM_NOT_READY ?s1 = 0"
    using assms(6) by (simp add: ril_radio_state_check_def data_stored_def split: if_splits)
  ultimately have "ril_request_last_call_fail_cause data sz token ?s1 = Some (RIL_REQUEST_COMPLETED,
      (emit (Complete token RIL_E_SUCCESS (RInt ?cause) 4) (remove_token token ?u))\<lparr>loop_locked := False\<rparr>)"
    by (simp add: ril_request_last_call_fail_cause_def fetch)
  with status show ?thesis
    by (simp add: data_fetched_def)
qed

theorem call_fail_cause_reported_witness:
  "\<exists>s1 s2. ipc_call_status \<lparr>msg_mseq = 0, msg_aseq = 255, msg_command = IPC_CALL_STATUS, msg_type = 3,
      msg_data = [0, 1, 1, 4, 0, 5]\<rparr>
      ((initial_world [])\<lparr>ril_data_alive := True, env_complete := True, env_unsolicited := True,
        radio_state := RADIO_STATE_SIM_READY\<rparr>) = Some (0, s1) \<and>
    ril_request_last_call_fail_cause None 0 7 s1 = Some (RIL_REQUEST_COMPLETED, s2)"
  using call_fail_cause_reported [of "(initial_world [])\<lparr>ril_data_alive := True, env_complete := True,
        env_unsolicited := True, radio_state := RADIO_STATE_SIM_READY\<rparr>"
      "\<lparr>msg_mseq = 0, msg_aseq = 255, msg_command = IPC_CALL_STATUS, msg_type = 3, msg_data = [0, 1, 1, 4, 0, 5]\<rparr>" 7 None 0]
  by (auto simp: message_pre_def ril_inv_def initial_world_def ril_request_data_find_request_def
    IPC_CALL_STATUS_RELEASED_def ril_radio_state_check_def radio_states_def radio_state_defs)

end
