(* ===== verification/Ril_Sms.thy ===== *)
theory Ril_Sms
  imports Ril_Call
begin

section \<open>samsung-ril: sms.c\<close>

text \<open>
  Short messages: sending (directly, or after asking the modem for its service centre, with the PDU kept as request data
  meanwhile), receiving and acknowledging (the identifier of the message to acknowledge is request data of
  \<open>RIL_REQUEST_SMS_ACKNOWLEDGE\<close>), saving to and deleting from the SIM. A buffer that C code reads through a
  pointer is the list of bytes that may be read from it; reading past it is undefined.
\<close>

subsection \<open>Translations\<close>

definition ril2ipc_sms_ack :: "int \<Rightarrow> int \<Rightarrow> u16" where
  "ril2ipc_sms_ack success fail_cause =
     (if success \<noteq> 0 then IPC_SMS_ACK_NO_ERROR
      else if fail_cause = 0xD3 then IPC_SMS_ACK_PDA_FULL_ERROR
      else IPC_SMS_ACK_UNSPEC_ERROR)"

definition ipc2ril_sms_ack_error :: "u16 \<Rightarrow> int" where
  "ipc2ril_sms_ack_error ack = (if ack = IPC_SMS_ACK_NO_ERROR then RIL_E_SUCCESS else RIL_E_GENERIC_FAILURE)"

definition ipc2ril_sms_ack_error_code :: "u16 \<Rightarrow> int" where
  "ipc2ril_sms_ack_error_code ack = (if ack = IPC_SMS_ACK_NO_ERROR then -1 else 500)"

definition ril2ipc_sms_status :: "int \<Rightarrow> u8" where
  "ril2ipc_sms_status status =
     (if status = 0 then IPC_SMS_STATUS_REC_UNREAD
      else if status = 1 then IPC_SMS_STATUS_REC_READ
      else if status = 2 then IPC_SMS_STATUS_STO_UNSENT
      else if status = 3 then IPC_SMS_STATUS_STO_SENT
      else 0)"

subsection \<open>Sending\<close>

definition ipc_sms_send_msg :: msg_handler where
  "ipc_sms_send_msg message s =
     (if length (msg_data message) < 5 then Some (-1, s)
      else if \<not> ipc_seq_valid (msg_aseq message) then Some (0, s)
      else message_complete (msg_aseq message)
        (ipc2ril_sms_ack_error (le16 (msg_data message ! 1) (msg_data message ! 2)))
        (RSmsResponse (uint (msg_data message ! 3))) 12 s)"

text \<open>The walk through the PDU that tells a part of a longer message from a single one: from the length of
  the destination address to the user-data header, its count and its index. Nothing compares the pointer
  with the size of the PDU.\<close>

definition pdu_msg_type :: "u8 list \<Rightarrow> u8 option" where
  "pdu_msg_type mem =
     (if length mem \<le> 2 then None
      else let p = 2 in
        if unat (mem ! p) > 255 div 2 then Some IPC_SMS_MSG_TYPE_SINGLE
        else let p = p + unat (mem ! p) in
          if length mem \<le> p then None
          else if unat (mem ! p) > 255 div 2 \<or> unat (mem ! p) < 5 then Some IPC_SMS_MSG_TYPE_SINGLE
          else let p = p + 4 in
            if length mem \<le> p then None
            else let count = unat (mem ! p) in
              if count > 0x0f then Some IPC_SMS_MSG_TYPE_SINGLE
              else let p = p + 1 in
                if length mem \<le> p then None
                else let index = unat (mem ! p) in
                  if index > count then Some IPC_SMS_MSG_TYPE_SINGLE
                  else if count > 1 then Some IPC_SMS_MSG_TYPE_MULTIPLE
                  else Some IPC_SMS_MSG_TYPE_SINGLE)"

text \<open>\<open>pdu\<close> is the memory at the pointer and \<open>pdu_size\<close> the size that is passed beside it.\<close>

definition ril_request_send_sms_complete ::
  "u8 \<Rightarrow> u8 list \<Rightarrow> u8 list \<Rightarrow> nat \<Rightarrow> ril_world \<Rightarrow> (int \<times> ril_world) option" where
  "ril_request_send_sms_complete seq smsc pdu pdu_size s =
     (if smsc = [] \<or> pdu_size = 0 then Some (-1, s)
      else if \<not> ipc_seq_valid seq then Some (-1, s)
      else (case pdu_msg_type pdu of
          None \<Rightarrow> None
        | Some part \<Rightarrow>
            if pdu_size > length pdu then None
            else
              let request_header = \<lparr>ss_type = IPC_SMS_TYPE_OUTGOING, ss_msg_type = part, ss_unknown = 0,
                    ss_length = 0\<rparr> in
              if ipc_sms_send_msg_size_setup smsc (take pdu_size pdu) = 0 then Some (-1, s)
              else (case ipc_sms_send_msg_setup request_header smsc (take pdu_size pdu) of
                  None \<Rightarrow> Some (-1, s)
                | Some data \<Rightarrow> do {
                    (rc, s) \<leftarrow> Some (ipc_gen_phone_res_expect_abort seq IPC_SMS_SEND_MSG s);
                    if rc < 0 then Some (-1, s)
                    else do {
                      (rc, s) \<leftarrow> Some (ipc_fmt_send seq IPC_SMS_SEND_MSG IPC_TYPE_EXEC data s);
                      if rc < 0 then Some (-1, s) else Some (0, s)
                    }
                  })))"

text \<open>\<open>values\<close> is an array of two strings, the service centre and the PDU. The call with a service
  centre passes its arguments as the code does: the PDU first, then what follows the first byte of the
  service centre, with that byte as its size.\<close>

definition ril_request_send_sms :: req_handler where
  "ril_request_send_sms data sz token s = (case data of
      None \<Rightarrow> request_failed token RIL_E_SMS_SEND_FAIL_RETRY s
    | Some d \<Rightarrow>
        if sz < 8 then request_failed token RIL_E_SMS_SEND_FAIL_RETRY s
        else if ril_radio_state_check RADIO_STATE_SIM_NOT_READY s < 0 then Some (RIL_REQUEST_UNHANDLED, s)
        else if ril_request_find_request_status RIL_REQUEST_SEND_SMS RIL_REQUEST_HANDLED s \<noteq> None
        then Some (RIL_REQUEST_UNHANDLED, s)
        else (case d of
            PStrings (value0 # value1 # _) \<Rightarrow>
             (if value1 = None then request_failed token RIL_E_SMS_SEND_FAIL_RETRY s
              else if string2data_size value1 = 0 then request_failed token RIL_E_SMS_SEND_FAIL_RETRY s
              else (case string2data value1 of
                  None \<Rightarrow> None
                | Some None \<Rightarrow> request_failed token RIL_E_SMS_SEND_FAIL_RETRY s
                | Some (Some pdu) \<Rightarrow>
                    (case value0 of
                       Some _ \<Rightarrow>
                        (if string2data_size value0 = 0 then request_failed token RIL_E_SMS_SEND_FAIL_RETRY s
                         else (case string2data value0 of
                             None \<Rightarrow> None
                           | Some None \<Rightarrow> request_failed token RIL_E_SMS_SEND_FAIL_RETRY s
                           | Some (Some smsc) \<Rightarrow> do {
                               (seq, s) \<leftarrow> Some (ipc_fmt_request_seq token s);
                               (rc, s) \<leftarrow> ril_request_send_sms_complete seq pdu (drop 1 smsc) (unat (smsc ! 0)) s;
                               if rc < 0 then request_failed token RIL_E_SMS_SEND_FAIL_RETRY s
                               else Some (RIL_REQUEST_HANDLED, s)
                             }))
                     | None \<Rightarrow> do {
                         (_, s) \<leftarrow> ril_request_data_set_uniq RIL_REQUEST_SEND_SMS (Some (PBytes pdu)) (length pdu) s;
                         (rc, s) \<leftarrow> Some (fmt_send_for token IPC_SMS_SVC_CENTER_ADDR IPC_TYPE_GET [] s);
                         if rc < 0
                         then request_failed token RIL_E_SMS_SEND_FAIL_RETRY (ril_request_data_free RIL_REQUEST_SEND_SMS s)
                         else Some (RIL_REQUEST_HANDLED, s)
                       })))
          | _ \<Rightarrow> None))"

text \<open>The answer of the modem with its service centre; the PDU was kept as bytes.\<close>

definition ipc_sms_svc_center_addr :: msg_handler where
  "ipc_sms_svc_center_addr message s =
     (let bs = msg_data message; aseq = msg_aseq message in
      if length bs < 1 then Some (-1, s)
      else if msg_type message \<noteq> IPC_TYPE_RESP \<or> \<not> ipc_seq_valid aseq then Some (0, s)
      else if unat (bs ! 0) = 0 \<or> unat (bs ! 0) > length bs - 1
      then message_complete aseq RIL_E_SMS_SEND_FAIL_RETRY RNull 0 s
      else
        let pdu_size = ril_request_data_size_get RIL_REQUEST_SEND_SMS s in
        if pdu_size = 0 then message_complete aseq RIL_E_SMS_SEND_FAIL_RETRY RNull 0 s
        else do {
          (pdu, s) \<leftarrow> Some (ril_request_data_get RIL_REQUEST_SEND_SMS s);
          (case pdu of
             None \<Rightarrow> message_complete aseq RIL_E_SMS_SEND_FAIL_RETRY RNull 0 s
           | Some (PBytes mem) \<Rightarrow>
              (let smsc_size = ipc_sms_svc_center_addr_smsc_size_extract bs in
               if smsc_size = 0 then message_complete aseq RIL_E_SMS_SEND_FAIL_RETRY RNull 0 s
               else (case ipc_sms_svc_center_addr_smsc_extract bs of
                   None \<Rightarrow> message_complete aseq RIL_E_SMS_SEND_FAIL_RETRY RNull 0 s
                 | Some p \<Rightarrow> do {
                     (rc, s) \<leftarrow> ril_request_send_sms_complete aseq (take smsc_size (drop p bs)) mem pdu_size s;
                     if rc < 0 then message_complete aseq RIL_E_SMS_SEND_FAIL_RETRY RNull 0 s
                     else Some (0, s)
                   }))
           | Some _ \<Rightarrow> None)
        })"

subsection \<open>Receiving and acknowledging\<close>

text \<open>\<open>struct ipc_sms_incoming_msg_header\<close>: the type is the second byte, the identifier the fifth.\<close>

definition ipc_sms_incoming_msg :: msg_handler where
  "ipc_sms_incoming_msg message s =
     (let bs = msg_data message in
      if length bs < 6 then Some (-1, s)
      else (case ipc_sms_incoming_msg_pdu_size_extract bs of
          None \<Rightarrow> None
        | Some pdu_size \<Rightarrow>
            if pdu_size = 0 then Some (0, s)
            else (case ipc_sms_incoming_msg_pdu_extract bs of
                None \<Rightarrow> Some (0, s)
              | Some p \<Rightarrow> (case data2string (take pdu_size (drop p bs)) of
                  None \<Rightarrow> Some (0, s)
                | Some pdu_string \<Rightarrow> do {
                    (_, s) \<leftarrow> ril_request_data_set_uniq RIL_REQUEST_SMS_ACKNOWLEDGE (Some (PBytes [bs ! 4])) 1 s;
                    (_, s) \<leftarrow> Some (ril_request_unsolicited
                      (if bs ! 1 = IPC_SMS_TYPE_STATUS_REPORT then RIL_UNSOL_RESPONSE_NEW_SMS_STATUS_REPORT
                       else RIL_UNSOL_RESPONSE_NEW_SMS) (RString pdu_string) 4 s);
                    Some (0, s)
                  }))))"

definition ipc_sms_deliver_report :: msg_handler where
  "ipc_sms_deliver_report message s =
     (if length (msg_data message) < 2 then Some (-1, s)
      else if \<not> ipc_seq_valid (msg_aseq message) then Some (0, s)
      else message_complete (msg_aseq message)
        (ipc2ril_sms_ack_error (le16 (msg_data message ! 0) (msg_data message ! 1))) RNull 0 s)"

text \<open>Two integers: \<open>values[0]\<close> and \<open>values[1]\<close>.\<close>

definition payload_ints2 :: "payload \<Rightarrow> (int \<times> int) option" where
  "payload_ints2 p = (case p of
      PBytes bs \<Rightarrow> (case read_int bs of None \<Rightarrow> None
        | Some i \<Rightarrow> (case read_int (drop 4 bs) of None \<Rightarrow> None | Some j \<Rightarrow> Some (i, j)))
    | _ \<Rightarrow> None)"

definition ril_request_sms_acknowledge :: req_handler where
  "ril_request_sms_acknowledge data sz token s = (case data of
      None \<Rightarrow> request_failed token RIL_E_GENERIC_FAILURE s
    | Some d \<Rightarrow>
        if sz < 8 then request_failed token RIL_E_GENERIC_FAILURE s
        else if ril_radio_state_check RADIO_STATE_SIM_READY s < 0 then Some (RIL_REQUEST_UNHANDLED, s)
        else do {
          let id_size = ril_request_data_size_get RIL_REQUEST_SMS_ACKNOWLEDGE s;
          (id_data, s) \<leftarrow> Some (ril_request_data_get RIL_REQUEST_SMS_ACKNOWLEDGE s);
          (case id_data of
             None \<Rightarrow> request_failed token RIL_E_GENERIC_FAILURE s
           | Some i \<Rightarrow>
               if id_size = 0 then request_failed token RIL_E_GENERIC_FAILURE s
               else (case payload_byte i of
                   None \<Rightarrow> None
                 | Some ident \<Rightarrow> (case payload_ints2 d of
                     None \<Rightarrow> None
                   | Some (success, fail_cause) \<Rightarrow> do {
                       let report_data = [IPC_SMS_TYPE_STATUS_REPORT] @ bytes16 (ril2ipc_sms_ack success fail_cause) @ [ident, 0];
                       (rc, s) \<leftarrow> Some (expect_abort_for token IPC_SMS_DELIVER_REPORT s);
                       if rc < 0 then request_failed token RIL_E_GENERIC_FAILURE s
                       else do {
                         (rc, s) \<leftarrow> Some (fmt_send_for token IPC_SMS_DELIVER_REPORT IPC_TYPE_EXEC report_data s);
                         if rc < 0 then request_failed token RIL_E_GENERIC_FAILURE s
                         else Some (RIL_REQUEST_HANDLED, s)
                       }
                     })))
        })"

subsection \<open>Messages on the SIM\<close>

text \<open>\<open>struct ipc_sms_save_msg_response_data\<close> and \<open>struct ipc_sms_del_msg_response_data\<close>: five bytes, the error
  after the first.\<close>

definition ipc_sms_save_msg :: msg_handler where
  "ipc_sms_save_msg message s =
     (if length (msg_data message) < 5 then Some (-1, s)
      else if \<not> ipc_seq_valid (msg_aseq message) then Some (0, s)
      else if le16 (msg_data message ! 1) (msg_data message ! 2) \<noteq> 0
      then message_complete (msg_aseq message) RIL_E_GENERIC_FAILURE RNull 0 s
      else message_complete (msg_aseq message) RIL_E_SUCCESS RNull 0 s)"

definition ipc_sms_del_msg :: msg_handler where
  "ipc_sms_del_msg message s =
     (if length (msg_data message) < 5 then Some (-1, s)
      else if \<not> ipc_seq_valid (msg_aseq message) then Some (0, s)
      else if le16 (msg_data message ! 1) (msg_data message ! 2) \<noteq> 0
      then message_complete (msg_aseq message) RIL_E_GENERIC_FAILURE RNull 0 s
      else message_complete (msg_aseq message) RIL_E_SUCCESS RNull 0 s)"

text \<open>The code after the label \<open>setup\<close>; a \<open>NULL\<close> service centre is the empty list.\<close>

definition write_sms_setup :: "int \<Rightarrow> u8 list \<Rightarrow> u8 list \<Rightarrow> ril_token \<Rightarrow> ril_world \<Rightarrow> (int \<times> ril_world) option" where
  "write_sms_setup status smsc pdu token s =
     (let request_header = \<lparr>sv_magic = 0, sv_index = 0, sv_status = ril2ipc_sms_status status, sv_length = 0\<rparr> in
      if ipc_sms_save_msg_size_setup smsc pdu = 0 then request_failed token RIL_E_GENERIC_FAILURE s
      else (case ipc_sms_save_msg_setup request_header smsc pdu of
          None \<Rightarrow> request_failed token RIL_E_GENERIC_FAILURE s
        | Some request_data \<Rightarrow> do {
            (rc, s) \<leftarrow> Some (expect_abort_for token IPC_SMS_SAVE_MSG s);
            if rc < 0 then request_failed token RIL_E_GENERIC_FAILURE s
            else do {
              (rc, s) \<leftarrow> Some (fmt_send_for token IPC_SMS_SAVE_MSG IPC_TYPE_EXEC request_data s);
              if rc < 0 then request_failed token RIL_E_GENERIC_FAILURE s
              else Some (RIL_REQUEST_HANDLED, s)
            }
          }))"

definition ril_request_write_sms_to_sim :: req_handler where
  "ril_request_write_sms_to_sim data sz token s = (case data of
      None \<Rightarrow> request_failed token RIL_E_GENERIC_FAILURE s
    | Some d \<Rightarrow>
        if sz < 12 then request_failed token RIL_E_GENERIC_FAILURE s
        else if ril_radio_state_check RADIO_STATE_SIM_READY s < 0 then Some (RIL_REQUEST_UNHANDLED, s)
        else (case d of
            PSmsWrite status pdu_string smsc_string \<Rightarrow>
             (if pdu_string = None then request_failed token RIL_E_GENERIC_FAILURE s
              else if string2data_size pdu_string = 0 then request_failed token RIL_E_GENERIC_FAILURE s
              else (case string2data pdu_string of
                  None \<Rightarrow> None
                | Some None \<Rightarrow> request_failed token RIL_E_GENERIC_FAILURE s
                | Some (Some pdu) \<Rightarrow>
                    if smsc_string = None then write_sms_setup status [] pdu token s
                    else if string2data_size smsc_string = 0 then request_failed token RIL_E_GENERIC_FAILURE s
                    else (case string2data smsc_string of
                        None \<Rightarrow> None
                      | Some None \<Rightarrow> request_failed token RIL_E_GENERIC_FAILURE s
                      | Some (Some smsc) \<Rightarrow> write_sms_setup status smsc pdu token s)))
          | _ \<Rightarrow> None))"

definition ril_request_delete_sms_on_sim :: req_handler where
  "ril_request_delete_sms_on_sim data sz token s = (case data of
      None \<Rightarrow> request_failed token RIL_E_GENERIC_FAILURE s
    | Some d \<Rightarrow>
        if sz < 4 then request_failed token RIL_E_GENERIC_FAILURE s
        else (case payload_int d of
            None \<Rightarrow> None
          | Some index \<Rightarrow>
              if index = 0 then request_failed token RIL_E_GENERIC_FAILURE s
              else do {
                let request_data = ipc_sms_del_msg_setup (word_of_int (index - 1));
                (rc, s) \<leftarrow> Some (expect_abort_for token IPC_SMS_DEL_MSG s);
                if rc < 0 then request_failed token RIL_E_GENERIC_FAILURE s
                else do {
                  (rc, s) \<leftarrow> Some (fmt_send_for token IPC_SMS_DEL_MSG IPC_TYPE_EXEC request_data s);
                  if rc < 0 then request_failed token RIL_E_GENERIC_FAILURE s
                  else Some (RIL_REQUEST_HANDLED, s)
                }
              }))"

subsection \<open>The handlers keep their contracts\<close>

lemma wp_send_sms_complete [wp_intro]:
  assumes "quiet base s" and "pdu_msg_type pdu \<noteq> None" and "pdu_size \<le> length pdu"
    and "\<And>r s'. quiet base s' \<Longrightarrow> Q r s'"
  shows "wp (ril_request_send_sms_complete seq smsc pdu pdu_size s) Q"
  using assms by (auto simp: ril_request_send_sms_complete_def Let_def split: option.split intro!: wp_intro)

lemma string2data_nonempty:
  assumes "0 < string2data_size (Some cs)"
  shows "string2data (Some cs) = Some (Some (hex_decode cs))"
  using assms by (intro string2data_hex_decode) (auto simp: string2data_size_eq)

text \<open>What the sending handlers rely on: two strings, and a PDU walk that stays in its buffer. With a
  service centre the walk runs, because of the swapped arguments, over the service centre.\<close>

definition sms_strings :: "payload option \<Rightarrow> nat \<Rightarrow> bool" where
  "sms_strings data sz = (case data of
      None \<Rightarrow> True
    | Some (PStrings (smsc # pdu # _)) \<Rightarrow> (case smsc of
        None \<Rightarrow> True
      | Some cs \<Rightarrow> pdu_msg_type (drop 1 (hex_decode cs)) \<noteq> None \<and>
          unat (hex_decode cs ! 0) < length (hex_decode cs))
    | Some _ \<Rightarrow> sz < 8)"

definition pdu_whole :: "ipc_message \<Rightarrow> ril_world \<Rightarrow> bool" where
  "pdu_whole m s = (case fst (ril_request_data_get RIL_REQUEST_SEND_SMS s) of
      Some (PBytes mem) \<Rightarrow> pdu_msg_type mem \<noteq> None
    | _ \<Rightarrow> True)"

lemma less_eq_diff_one: "m < n \<Longrightarrow> m \<le> n - Suc 0"
  by simp

lemma send_sms_strings:
  assumes "handler_pre token s" and "sms_strings (Some (PStrings (smsc # pdu # rest))) sz"
  shows "wp (ril_request_send_sms (Some (PStrings (smsc # pdu # rest))) sz token s) (handler_post token s)"
proof (cases smsc)
  case None
  then show ?thesis
    using quiet_refl [of s] assms handler_pre_inv
    by (auto simp: ril_request_send_sms_def bytes_payload_def string2data_nonempty intro!: wp_intro)
next
  case (Some c)
  then show ?thesis
    using quiet_refl [of s] assms
    by (auto simp: ril_request_send_sms_def sms_strings_def string2data_nonempty less_eq_diff_one intro!: wp_intro)
qed

interpretation send_sms: request_handler ril_request_send_sms sms_strings
proof
  fix token s data sz
  assume a: "handler_pre token s" "sms_strings data sz"
  then show "wp (ril_request_send_sms data sz token s) (handler_post token s)"
  proof (cases "\<exists>smsc pdu rest. data = Some (PStrings (smsc # pdu # rest))")
    case True
    with a show ?thesis
      by (auto intro: send_sms_strings)
  next
    case False
    with a(2) have "data = None \<or> sz < 8"
      by (auto simp: sms_strings_def split: option.splits payload.splits list.splits)
    with a(1) quiet_refl [of s] show ?thesis
      by (auto simp: ril_request_send_sms_def split: option.split intro!: wp_intro)
  qed
qed

lemma bytes_payload_ints2: "bytes_payload (Some d) sz \<Longrightarrow> payload_ints2 d = None \<Longrightarrow> sz < 8"
proof (cases d)
  case (PBytes bs)
  moreover assume "bytes_payload (Some d) sz" and "payload_ints2 d = None"
  ultimately show "sz < 8"
    using read_int_Some [of bs] read_int_Some [of "drop 4 bs"]
    by (force simp: bytes_payload_def payload_ints2_def split: option.splits)
qed (simp_all add: bytes_payload_def)

interpretation sms_acknowledge: request_handler ril_request_sms_acknowledge bytes_payload
proof
  fix token s data sz
  assume "handler_pre token s" and "bytes_payload data sz"
  with quiet_refl [of s] handler_pre_inv show
    "wp (ril_request_sms_acknowledge data sz token s) (handler_post token s)"
    by (auto simp: ril_request_sms_acknowledge_def split: option.split intro!: wp_intro)
      (fastforce dest: bytes_payload_byte bytes_payload_ints2)+
qed

lemma wp_write_sms_setup [wp_intro]:
  assumes "quiet base s" and "handler_pre token base"
  shows "wp (write_sms_setup status smsc pdu token s) (handler_post token base)"
  using assms by (auto simp: write_sms_setup_def Let_def split: option.split intro!: wp_intro)

definition sms_write_payload :: "payload option \<Rightarrow> nat \<Rightarrow> bool" where
  "sms_write_payload data sz = (case data of None \<Rightarrow> True | Some (PSmsWrite _ _ _) \<Rightarrow> True | Some _ \<Rightarrow> sz < 12)"

interpretation write_sms_to_sim: request_handler ril_request_write_sms_to_sim sms_write_payload
proof
  fix token s data sz
  assume "handler_pre token s" and "sms_write_payload data sz"
  with quiet_refl [of s] show "wp (ril_request_write_sms_to_sim data sz token s) (handler_post token s)"
    by (auto simp: ril_request_write_sms_to_sim_def sms_write_payload_def split: option.split payload.splits
      intro!: wp_intro simp: string2data_nonempty)
qed

interpretation delete_sms_on_sim: request_handler ril_request_delete_sms_on_sim bytes_payload
proof
  fix token s data sz
  assume "handler_pre token s" and "bytes_payload data sz"
  with quiet_refl [of s] show "wp (ril_request_delete_sms_on_sim data sz token s) (handler_post token s)"
    by (auto simp: ril_request_delete_sms_on_sim_def Let_def split: option.split intro!: wp_intro dest: bytes_payload_int)
qed

interpretation sms_send_msg: message_handler ipc_sms_send_msg any_message
proof
  fix s m
  assume "message_pre s"
  with quiet_refl [of s] show "wp (ipc_sms_send_msg m s) (message_post (msg_aseq m) s)"
    by (auto simp: ipc_sms_send_msg_def intro!: wp_intro message_post_quiet)
qed

interpretation sms_incoming_msg: message_handler ipc_sms_incoming_msg any_message
proof
  fix s m
  assume "message_pre s"
  with quiet_refl [of s] show "wp (ipc_sms_incoming_msg m s) (message_post (msg_aseq m) s)"
    by (auto simp: ipc_sms_incoming_msg_def ipc_sms_incoming_msg_pdu_size_extract_def Let_def bytes_payload_def
      split: option.split intro!: wp_intro message_post_quiet)
qed

interpretation sms_save_msg: message_handler ipc_sms_save_msg any_message
proof
  fix s m
  assume "message_pre s"
  with quiet_refl [of s] show "wp (ipc_sms_save_msg m s) (message_post (msg_aseq m) s)"
    by (auto simp: ipc_sms_save_msg_def intro!: wp_intro message_post_quiet)
qed

interpretation sms_del_msg: message_handler ipc_sms_del_msg any_message
proof
  fix s m
  assume "message_pre s"
  with quiet_refl [of s] show "wp (ipc_sms_del_msg m s) (message_post (msg_aseq m) s)"
    by (auto simp: ipc_sms_del_msg_def intro!: wp_intro message_post_quiet)
qed

interpretation sms_deliver_report: message_handler ipc_sms_deliver_report any_message
proof
  fix s m
  assume "message_pre s"
  with quiet_refl [of s] show "wp (ipc_sms_deliver_report m s) (message_post (msg_aseq m) s)"
    by (auto simp: ipc_sms_deliver_report_def intro!: wp_intro message_post_quiet)
qed

interpretation sms_svc_center_addr: message_handler ipc_sms_svc_center_addr pdu_whole
proof
  fix s m
  assume a: "message_pre s" "pdu_whole m s"
  let ?get = "ril_request_data_get RIL_REQUEST_SEND_SMS s"
  have q: "quiet s (snd ?get)"
    by (rule quiet_data_get)
  have b: "bytes_payload (fst ?get) (ril_request_data_size_get RIL_REQUEST_SEND_SMS s)"
    using data_get_bytes [OF message_pre_inv [OF a(1)], of RIL_REQUEST_SEND_SMS] by simp
  show "wp (ipc_sms_svc_center_addr m s) (message_post (msg_aseq m) s)"
    using a q b quiet_refl [of s]
    by (auto simp: ipc_sms_svc_center_addr_def Let_def pdu_whole_def split_beta bytes_payload_def
      split: option.split payload.splits intro!: wp_intro message_post_quiet)
qed

subsection \<open>Properties\<close>

lemma fmt_ready_frame [simp]:
  "fmt_ready (data_stored request buffer n s) = fmt_ready s" "fmt_ready (data_fetched request s) = fmt_ready s"
  by (simp_all add: data_stored_def data_fetched_def fmt_ready_def io_result_def)

lemma data_frame [simp]:
  "trace (data_stored request buffer n s) = trace s" "trace (data_fetched request s) = trace s"
  "ril_data_alive (data_stored request buffer n s) = ril_data_alive s"
  "ril_data_alive (data_fetched request s) = ril_data_alive s"
  "radio_state (data_stored request buffer n s) = radio_state s"
  "env_unsolicited (data_stored request buffer n s) = env_unsolicited s"
  by (simp_all add: data_stored_def data_fetched_def)

lemma seq_data_frame:
  "fst (ipc_fmt_request_seq token (data_stored request buffer n s)) = fst (ipc_fmt_request_seq token s)"
  "fst (ipc_fmt_request_seq token (data_fetched request s)) = fst (ipc_fmt_request_seq token s)"
  "fst (ipc_fmt_request_seq token (emit e s)) = fst (ipc_fmt_request_seq token s)"
  by (simp_all add: ipc_fmt_request_seq_def data_stored_def data_fetched_def ipc_fmt_request_find_token_def
    ipc_fmt_seq_def Let_def split: option.split)

lemma incoming_sms_effect:
  assumes "message_pre s" and "env_unsolicited s" and "msg_data m = h @ of_nat (length pdu) # pdu @ rest"
    and "length h = 5" and "pdu \<noteq> []" and "length pdu < 256"
  shows "ipc_sms_incoming_msg m s = Some (0,
    emit (Unsol (if h ! 1 = IPC_SMS_TYPE_STATUS_REPORT then RIL_UNSOL_RESPONSE_NEW_SMS_STATUS_REPORT
        else RIL_UNSOL_RESPONSE_NEW_SMS) (RString (concat (map sprintf_02x pdu))) 4)
      (data_stored RIL_REQUEST_SMS_ACKNOWLEDGE (PBytes [h ! 4]) 1 s))"
proof -
  obtain p n where p: "ipc_sms_incoming_msg_pdu_extract (msg_data m) = Some p"
      "ipc_sms_incoming_msg_pdu_size_extract (msg_data m) = Some n" "take n (drop p (msg_data m)) = pdu"
    using incoming.payload_decoded [of h pdu rest] assms(3-6) by auto
  have "n \<noteq> 0"
    using p(3) assms(5) by auto
  have h: "msg_data m ! 4 = h ! 4" "msg_data m ! 1 = h ! 1"
    using assms(3,4) by (simp_all add: nth_append)
  have "payload_copy 1 (PBytes [h ! 4]) = Some (PBytes [h ! 4])"
    by (simp add: payload_copy_def payload_size_def)
  then have "ril_request_data_set_uniq RIL_REQUEST_SMS_ACKNOWLEDGE (Some (PBytes [h ! 4])) 1 s =
      Some (0, data_stored RIL_REQUEST_SMS_ACKNOWLEDGE (PBytes [h ! 4]) 1 s)"
    using assms(1) by (intro data_set_uniq_eq) (simp_all add: message_pre_def)
  then show ?thesis
    using assms p \<open>n \<noteq> 0\<close> h
    by (simp add: ipc_sms_incoming_msg_def Let_def data2string_def ril_request_unsolicited_def message_pre_def)
qed

text \<open>An incoming message is delivered and acknowledged under its own identifier: a modem
  message with a PDU of one to 255 bytes is announced to the environment as the PDU's hexadecimal text (as a
  status report exactly when its type says so); the environment's next acknowledgement makes the RIL send a delivery
  report with the translated result and the identifier of that message, and the identifier is used up.\<close>

theorem incoming_sms_acknowledged:
  assumes "message_pre s" and "env_unsolicited s" and "fmt_ready s"
    and "ril_radio_state_check RADIO_STATE_SIM_READY s = 0"
    and "msg_data m = h @ of_nat (length pdu) # pdu @ rest" and "length h = 5" and "pdu \<noteq> []" and "length pdu < 256"
    and "payload_ints2 d = Some (success, fail_cause)" and "8 \<le> sz"
  shows "\<exists>s1 s2. ipc_sms_incoming_msg m s = Some (0, s1) \<and>
    ril_request_sms_acknowledge (Some d) sz token s1 = Some (RIL_REQUEST_HANDLED, s2) \<and>
    trace s2 = trace s @
      [Unsol (if h ! 1 = IPC_SMS_TYPE_STATUS_REPORT then RIL_UNSOL_RESPONSE_NEW_SMS_STATUS_REPORT
         else RIL_UNSOL_RESPONSE_NEW_SMS) (RString (the (data2string pdu))) 4,
       Sent (fst (ipc_fmt_request_seq token s)) IPC_SMS_DELIVER_REPORT IPC_TYPE_EXEC
         ([IPC_SMS_TYPE_STATUS_REPORT] @ bytes16 (ril2ipc_sms_ack success fail_cause) @ [h ! 4, 0])] \<and>
    ril_request_data_find_request RIL_REQUEST_SMS_ACKNOWLEDGE s2 = None"
proof -
  define e where "e = Unsol (if h ! 1 = IPC_SMS_TYPE_STATUS_REPORT then RIL_UNSOL_RESPONSE_NEW_SMS_STATUS_REPORT
         else RIL_UNSOL_RESPONSE_NEW_SMS) (RString (the (data2string pdu))) 4"
  let ?s1 = "data_stored RIL_REQUEST_SMS_ACKNOWLEDGE (PBytes [h ! 4]) 1 (emit e s)"
  let ?u = "data_fetched RIL_REQUEST_SMS_ACKNOWLEDGE (emit e s)"
  have pre: "ril_inv (emit e s)" "ril_data_alive (emit e s)"
    using assms(1) by (simp_all add: message_pre_def)
  have s1: "ipc_sms_incoming_msg m s = Some (0, ?s1)"
    using incoming_sms_effect [OF assms(1,2,5-8)] assms(7) by (simp add: data_stored_emit data2string_def e_def)
  obtain q v where seq: "ipc_fmt_request_seq token ?u = (q, v)"
    by (cases "ipc_fmt_request_seq token ?u")
  have q: "q = fst (ipc_fmt_request_seq token s)"
    using seq seq_data_frame(2) [of token RIL_REQUEST_SMS_ACKNOWLEDGE "emit e s"] by (simp add: seq_data_frame(3))
  have ready: "fmt_ready ?u"
    using assms(3) by simp
  then have "fmt_ready v"
    using fmt_ready_seq [OF seq] by blast
  have frame: "requests_data v = requests_data ?u" "ril_data_alive v"
    using ipc_fmt_request_seq_cases [OF seq] pre(2) by auto
  have gone: "node_find (\<lambda>d. rd_request d = RIL_REQUEST_SMS_ACKNOWLEDGE) (requests_data v) = None"
    unfolding frame by (simp add: node_find_None data_fetched_def)
  have check: "ril_radio_state_check RADIO_STATE_SIM_READY ?s1 = 0"
    using assms(4) radio_state_check_frame [of ?s1 s] by simp
  show ?thesis
    using s1 check data_get_eq [OF pre] assms(9,10) q trace_seq [OF seq] frame(2) gone
    by (simp add: ril_request_sms_acknowledge_def payload_byte_def Let_def
      expect_for_eq(1) [OF seq fmt_ready_data [OF \<open>fmt_ready v\<close>]] expect_send_eq(2) [OF seq ready]
      ril_request_data_find_request_def) (simp add: e_def)
qed

text \<open>A state with one request of number \<open>request\<close> and token 7 in the queue and a modem that takes messages.\<close>

definition sms_world :: "int \<Rightarrow> ril_world" where
  "sms_world request = (initial_world [])\<lparr>ril_data_alive := True, env_complete := True, env_unsolicited := True,
     radio_state := RADIO_STATE_SIM_READY, fmt_data := True, fmt_ipc_client := True, fmt_available := True, next_addr := 4,
     requests := [(1, \<lparr>rq_request = request, rq_data = None, rq_size = 0, rq_token = 7, rq_status = RIL_REQUEST_PENDING\<rparr>)],
     fmt_requests := [(2, \<lparr>fr_request = request, fr_token = 7, fr_seq = 0xff\<rparr>)]\<rparr>"

lemma sms_world_simps [simp]:
  "message_pre (sms_world request)" "handler_pre 7 (sms_world request)" "fmt_ready (sms_world request)"
  "env_unsolicited (sms_world request)" "ril_radio_state_check RADIO_STATE_SIM_READY (sms_world request) = 0"
  "ril_radio_state_check RADIO_STATE_SIM_NOT_READY (sms_world request) = 0"
  "ril_request_find_request_status r RIL_REQUEST_HANDLED (sms_world request) = None"
  "fst (ipc_fmt_request_seq 7 (sms_world request)) = 1" "trace (sms_world request) = []"
  "io_result (io_next (sms_world request)) = 0"
  by (simp_all add: sms_world_def message_pre_def handler_pre_def ril_inv_def nodes_ok_def fmt_mirror_def fmt_ready_def
    io_result_def io_next_def ril_radio_state_check_def radio_states_def radio_state_defs ril_request_find_request_status_def
    ipc_fmt_request_seq_def ipc_fmt_request_find_token_def ipc_fmt_seq_def initial_world_def)

theorem incoming_sms_acknowledged_witness:
  "\<exists>s1 s2. ipc_sms_incoming_msg
      \<lparr>msg_mseq = 0, msg_aseq = 0, msg_command = IPC_SMS_INCOMING_MSG, msg_type = 3, msg_data = [2, 1, 0, 0, 9, 2, 0x07, 0x91]\<rparr>
      (sms_world RIL_REQUEST_SMS_ACKNOWLEDGE) = Some (0, s1) \<and>
    ril_request_sms_acknowledge (Some (PBytes [1, 0, 0, 0, 0, 0, 0, 0])) 8 7 s1 = Some (RIL_REQUEST_HANDLED, s2) \<and>
    last (trace s2) = Sent 1 IPC_SMS_DELIVER_REPORT IPC_TYPE_EXEC [2, 0, 0, 9, 0]"
  using incoming_sms_acknowledged [of "sms_world RIL_REQUEST_SMS_ACKNOWLEDGE"
      "\<lparr>msg_mseq = 0, msg_aseq = 0, msg_command = IPC_SMS_INCOMING_MSG, msg_type = 3, msg_data = [2, 1, 0, 0, 9, 2, 0x07, 0x91]\<rparr>"
      "[2, 1, 0, 0, 9]" "[0x07, 0x91]" "[]" "PBytes [1, 0, 0, 0, 0, 0, 0, 0]" 1 0 8 7]
  by (auto simp: payload_ints2_def le32_def ril2ipc_sms_ack_def IPC_SMS_ACK_NO_ERROR_def IPC_SMS_TYPE_STATUS_REPORT_def
    bytes16_def)

lemma send_sms_complete_eq:
  assumes "fmt_ready s" and "ipc_seq_valid q" and "smsc \<noteq> []" and "pdu_msg_type pdu = Some part"
    and "0 < n" and "n \<le> length pdu"
  shows "ril_request_send_sms_complete q smsc pdu n s = Some (0,
    emit (Sent q IPC_SMS_SEND_MSG IPC_TYPE_EXEC
        ([IPC_SMS_TYPE_OUTGOING, part, 0, of_nat (1 + length smsc + n)] @ [of_nat (length smsc)] @ smsc @ take n pdu))
      (io_next (expecting \<lparr>ex_aseq = q, ex_command = IPC_SMS_SEND_MSG, ex_callback = None, ex_complete = False,
        ex_abort = True\<rparr> s)))"
  using assms fmt_ready_data [OF assms(1)]
  by (auto simp: ril_request_send_sms_complete_def ipc_sms_send_msg_size_setup_def ipc_sms_send_msg_setup_def
    send_header_bytes_def expect_eq ipc_fmt_send_eq)

text \<open>C22. A message without a service centre is sent once the modem has named its own: \<open>ril_request_send_sms\<close>
  with a \<open>NULL\<close> service centre asks the modem for it and keeps the PDU; the modem's response
  under the request's sequence number (a length byte, that many bytes, anything after) makes the RIL send exactly one message
  that carries this service centre and then this PDU, marked as part of a longer message as the PDU's header says, and
  the request stays outstanding for the modem's report.\<close>

theorem sms_sent_after_service_centre:
  assumes "handler_pre token s" and "fmt_ready s" and "0 \<le> io_result (io_next s)"
    and "ril_radio_state_check RADIO_STATE_SIM_NOT_READY s = 0"
    and "ril_request_find_request_status RIL_REQUEST_SEND_SMS RIL_REQUEST_HANDLED s = None"
    and "digits \<noteq> []" and "8 \<le> sz" and "fst (ipc_fmt_request_seq token s) = q" and "ipc_seq_valid q"
    and "msg_type m = IPC_TYPE_RESP" and "msg_aseq m = q" and "msg_data m = of_nat (length smsc) # smsc @ rest"
    and "smsc \<noteq> []" and "length smsc < 256" and "pdu_msg_type (hex_decode digits) = Some part"
  shows "\<exists>s1 s2. ril_request_send_sms (Some (PStrings [None, Some digits])) sz token s = Some (RIL_REQUEST_HANDLED, s1) \<and>
    ipc_sms_svc_center_addr m s1 = Some (0, s2) \<and> requests s2 = requests s \<and>
    trace s2 = trace s @
      [Sent q IPC_SMS_SVC_CENTER_ADDR IPC_TYPE_GET [],
       Sent q IPC_SMS_SEND_MSG IPC_TYPE_EXEC
         ([IPC_SMS_TYPE_OUTGOING, part, 0, of_nat (1 + length smsc + length (hex_decode digits))] @
          [of_nat (length smsc)] @ smsc @ hex_decode digits)]"
proof -
  define pdu where "pdu = hex_decode digits"
  let ?t = "data_stored RIL_REQUEST_SEND_SMS (PBytes pdu) (length pdu) s"
  have pre: "ril_inv s" "ril_data_alive s"
    using assms(1) by (simp_all add: handler_pre_def)
  have size: "string2data_size (Some digits) = length pdu" "0 < length pdu"
    using assms(6) length_hex_decode [of digits] by (simp_all add: pdu_def string2data_size_eq)
  have conv: "string2data (Some digits) = Some (Some pdu)"
    using assms(6) by (simp add: string2data_hex_decode pdu_def)
  have copy: "payload_copy (length pdu) (PBytes pdu) = Some (PBytes pdu)"
    using payload_copy_full [of "PBytes pdu"] by (simp add: payload_size_def)
  note store = data_set_uniq_eq [OF pre size(2) copy, of RIL_REQUEST_SEND_SMS]
  obtain v where seq: "ipc_fmt_request_seq token ?t = (q, v)"
    using assms(8) seq_data_frame(1) [of token RIL_REQUEST_SEND_SMS "PBytes pdu" "length pdu" s]
    by (cases "ipc_fmt_request_seq token ?t") auto
  let ?s1 = "emit (Sent q IPC_SMS_SVC_CENTER_ADDR IPC_TYPE_GET []) (io_next v)"
  let ?w = "?s1\<lparr>requests_data := requests_data (data_fetched RIL_REQUEST_SEND_SMS s)\<rparr>"
  let ?bytes = "[IPC_SMS_TYPE_OUTGOING, part, 0, of_nat (1 + length smsc + length pdu)] @ [of_nat (length smsc)] @ smsc @ pdu"
  let ?s2 = "emit (Sent q IPC_SMS_SEND_MSG IPC_TYPE_EXEC ?bytes) (io_next (expecting \<lparr>ex_aseq = q,
    ex_command = IPC_SMS_SEND_MSG, ex_callback = None, ex_complete = False, ex_abort = True\<rparr> ?w))"
  have sent: "ril_request_send_sms (Some (PStrings [None, Some digits])) sz token s = Some (RIL_REQUEST_HANDLED, ?s1)"
    using assms(2,4,5,7) size conv store expect_send_eq(1) [OF seq] by (simp add: ril_request_send_sms_def)
  have "requests_data ?s1 = requests_data ?t" "ril_data_alive ?s1"
    using ipc_fmt_request_seq_cases [OF seq] pre(2) by auto
  from data_get_stored [OF pre(1) this(2,1)]
  have get: "ril_request_data_get RIL_REQUEST_SEND_SMS ?s1 = (Some (PBytes pdu), ?w)"
      "ril_request_data_size_get RIL_REQUEST_SEND_SMS ?s1 = length pdu"
    by (simp_all add: data_fetched_def)
  have w: "trace ?w = trace ?s1" "requests ?w = requests s" "fmt_ready ?w"
    using ipc_fmt_request_seq_cases [OF seq] assms(2,3)
    by (auto simp: fmt_ready_def io_result_def io_next_def data_stored_def emit_def)
  have addr: "ipc_sms_svc_center_addr_smsc_extract (msg_data m) = Some 1"
      "ipc_sms_svc_center_addr_smsc_size_extract (msg_data m) = length smsc"
    using assms(12-14) by (simp_all add: ipc_sms_svc_center_addr_smsc_extract_def
      ipc_sms_svc_center_addr_smsc_size_extract_def)
  have "ril_request_send_sms_complete q smsc pdu (length pdu) ?w = Some (0, ?s2)"
    using send_sms_complete_eq [OF w(3) assms(9,13), of pdu part "length pdu"] assms(15) size(2) by (simp add: pdu_def)
  then have "ipc_sms_svc_center_addr m ?s1 = Some (0, ?s2)"
    using assms(9-14) get addr size(2) by (simp add: ipc_sms_svc_center_addr_def Let_def)
  with sent show ?thesis
    using w(1,2) trace_seq [OF seq] unfolding pdu_def [symmetric] by simp
qed

theorem sms_sent_after_service_centre_witness:
  "\<exists>s1 s2. ril_request_send_sms (Some (PStrings [None, Some ''0100029100''])) 8 7 (sms_world RIL_REQUEST_SEND_SMS) =
      Some (RIL_REQUEST_HANDLED, s1) \<and>
    ipc_sms_svc_center_addr \<lparr>msg_mseq = 0, msg_aseq = 1, msg_command = IPC_SMS_SVC_CENTER_ADDR, msg_type = IPC_TYPE_RESP,
      msg_data = [2, 0x91, 0x44]\<rparr> s1 = Some (0, s2) \<and>
    last (trace s2) = Sent 1 IPC_SMS_SEND_MSG IPC_TYPE_EXEC [2, 2, 0, 8, 2, 0x91, 0x44, 1, 0, 2, 0x91, 0]"
proof -
  have pdu: "hex_decode ''0100029100'' = [1, 0, 2, 0x91, 0]"
    by code_simp
  then have "pdu_msg_type (hex_decode ''0100029100'') = Some IPC_SMS_MSG_TYPE_SINGLE"
    by (simp add: pdu_msg_type_def)
  with pdu show ?thesis
    using sms_sent_after_service_centre [of 7 "sms_world RIL_REQUEST_SEND_SMS" "''0100029100''" 8 1
        "\<lparr>msg_mseq = 0, msg_aseq = 1, msg_command = IPC_SMS_SVC_CENTER_ADDR, msg_type = IPC_TYPE_RESP, msg_data = [2, 0x91, 0x44]\<rparr>"
        "[0x91, 0x44]" "[]" IPC_SMS_MSG_TYPE_SINGLE]
    by (auto simp: ipc_seq_valid_def IPC_SMS_TYPE_OUTGOING_def IPC_SMS_MSG_TYPE_SINGLE_def)
qed

text \<open>A message with a service centre is sent wrongly. When the environment gives both strings,
  \<open>ril_request_send_sms\<close> swaps them in its call of \<open>ril_request_send_sms_complete\<close>: it walks through the service
  centre (after its length byte) as if it were the PDU, which is undefined behaviour when the walk leaves those few
  bytes; otherwise the modem gets the PDU in the place of the service centre and the service centre
  in the place of the PDU.\<close>

theorem sms_with_service_centre_swapped:
  assumes "handler_pre token s" and "fmt_ready s" and "ril_radio_state_check RADIO_STATE_SIM_NOT_READY s = 0"
    and "ril_request_find_request_status RIL_REQUEST_SEND_SMS RIL_REQUEST_HANDLED s = None"
    and "digits \<noteq> []" and "8 \<le> sz" and "fst (ipc_fmt_request_seq token s) = q" and "ipc_seq_valid q"
    and "hex_decode smsc_digits = n # smsc" and "0 < unat n" and "unat n \<le> length smsc"
  shows "case pdu_msg_type smsc of
      None \<Rightarrow> ril_request_send_sms (Some (PStrings [Some smsc_digits, Some digits])) sz token s = None
    | Some part \<Rightarrow> \<exists>s'.
        ril_request_send_sms (Some (PStrings [Some smsc_digits, Some digits])) sz token s = Some (RIL_REQUEST_HANDLED, s') \<and>
        trace s' = trace s @ [Sent q IPC_SMS_SEND_MSG IPC_TYPE_EXEC
          ([IPC_SMS_TYPE_OUTGOING, part, 0, of_nat (1 + length (hex_decode digits) + unat n)] @
           [of_nat (length (hex_decode digits))] @ hex_decode digits @ take (unat n) smsc)]"
proof -
  have size: "string2data_size (Some digits) = length (hex_decode digits)" "hex_decode digits \<noteq> []"
    using assms(5) length_hex_decode [of digits] by (cases digits; auto simp: string2data_size_eq)+
  have size': "string2data_size (Some smsc_digits) = Suc (length smsc)"
    using assms(9) length_hex_decode [of smsc_digits] by simp
  then have conv: "string2data (Some digits) = Some (Some (hex_decode digits))"
      "string2data (Some smsc_digits) = Some (Some (n # smsc))"
    using size assms(9) by (simp_all add: string2data_nonempty)
  obtain v where seq: "ipc_fmt_request_seq token s = (q, v)"
    using assms(7) by (cases "ipc_fmt_request_seq token s") auto
  have ready: "fmt_ready v"
    using fmt_ready_seq [OF seq] assms(2) by simp
  show ?thesis
  proof (cases "pdu_msg_type smsc")
    case None
    then have "ril_request_send_sms_complete q (hex_decode digits) smsc (unat n) v = None"
      using assms(8,10) size(2) by (simp add: ril_request_send_sms_complete_def)
    with None show ?thesis
      using assms(3,4,6) size size' conv seq by (simp add: ril_request_send_sms_def)
  next
    case (Some part)
    with send_sms_complete_eq [OF ready assms(8) size(2) Some assms(10,11)] show ?thesis
      using assms(3,4,6) size size' conv seq trace_seq [OF seq] by (simp add: ril_request_send_sms_def)
  qed
qed

theorem sms_with_service_centre_swapped_witness:
  "ril_request_send_sms (Some (PStrings [Some ''0791447758100650'', Some ''0100029100''])) 8 7
     (sms_world RIL_REQUEST_SEND_SMS) = None"
proof -
  have smsc: "hex_decode ''0791447758100650'' = 7 # [0x91, 0x44, 0x77, 0x58, 0x10, 0x06, 0x50]"
    by code_simp
  have "pdu_msg_type [0x91, 0x44, 0x77, 0x58, 0x10, 0x06, 0x50] = None"
    by (simp add: pdu_msg_type_def)
  with smsc show ?thesis
    using sms_with_service_centre_swapped [of 7 "sms_world RIL_REQUEST_SEND_SMS" "''0100029100''" 8 1
        "''0791447758100650''" 7 "[0x91, 0x44, 0x77, 0x58, 0x10, 0x06, 0x50]"]
    by (simp add: ipc_seq_valid_def)
qed

text \<open>The unguarded walk through a PDU stays inside every buffer of at least 135 bytes; it leaves shorter ones
  for some contents, whatever their length.\<close>

theorem pdu_walk_bound:
  "(\<forall>mem. length mem \<ge> 135 \<longrightarrow> pdu_msg_type mem \<noteq> None) \<and>
   (\<forall>n < 135. \<exists>mem. length mem = n \<and> pdu_msg_type mem = None)"
proof (intro conjI allI impI)
  fix mem :: "u8 list"
  assume "length mem \<ge> 135"
  then show "pdu_msg_type mem \<noteq> None"
    by (auto simp: pdu_msg_type_def Let_def)
next
  fix n :: nat
  assume n: "n < 135"
  define mem :: "u8 list" where "mem = take n ([0, 0, 127] @ replicate 126 0 @ [5, 0, 0, 0, 1, 0])"
  have "length mem = n"
    using n by (simp add: mem_def)
  moreover have "pdu_msg_type mem = None"
  proof (cases "n \<le> 2")
    case False
    then have "mem ! 2 = 127"
      by (simp add: mem_def)
    moreover have "mem ! 129 = 5" if "129 < n"
      using that by (simp add: mem_def nth_append)
    moreover have "mem ! 133 = 1" if "133 < n"
      using that by (simp add: mem_def nth_append)
    ultimately show ?thesis
      using \<open>length mem = n\<close> n False by (auto simp: pdu_msg_type_def Let_def)
  qed (use \<open>length mem = n\<close> in \<open>simp add: pdu_msg_type_def\<close>)
  ultimately show "\<exists>mem. length mem = n \<and> pdu_msg_type mem = None"
    by blast
qed

theorem pdu_walk_bound_witness:
  "pdu_msg_type (replicate 140 3) \<noteq> None \<and> (\<exists>mem. length mem = 12 \<and> pdu_msg_type mem = None)"
  using pdu_walk_bound by (auto dest: spec [where x = "replicate 140 3"])

end
