(* ===== verification/Ril_Sim.thy ===== *)
theory Ril_Sim
  imports Ril_Sms
begin

section \<open>samsung-ril: sim.c\<close>

text \<open>
  The SIM: its status (which also moves the radio state), facility locks, the PIN and PUK requests, and file access with the
  translation of USIM answers to the SIM format (\<open>include/sim.h\<close>). Answers that need two messages keep what the second
  step needs as request data: the status of the card while the stored PIN is tried, the generic response while the
  number of remaining tries is asked for, the message to send after a PIN2 has been accepted.

  The strings of a request's payload are freed by the handlers when they are done with them while the array that holds the pointers
  stays in the queue; since no code reads such a string again the model keeps it.
\<close>

subsection \<open>Values\<close>

definition IPC_SEC_PIN_STATUS_READY :: u8 where "IPC_SEC_PIN_STATUS_READY = 0x00"
definition IPC_SEC_PIN_STATUS_LOCK_SC :: u8 where "IPC_SEC_PIN_STATUS_LOCK_SC = 0x03"
definition IPC_SEC_PIN_STATUS_LOCK_FD :: u8 where "IPC_SEC_PIN_STATUS_LOCK_FD = 0x04"
definition IPC_SEC_PIN_STATUS_LOCK_PN :: u8 where "IPC_SEC_PIN_STATUS_LOCK_PN = 0x05"
definition IPC_SEC_PIN_STATUS_LOCK_PU :: u8 where "IPC_SEC_PIN_STATUS_LOCK_PU = 0x06"
definition IPC_SEC_PIN_STATUS_LOCK_PP :: u8 where "IPC_SEC_PIN_STATUS_LOCK_PP = 0x07"
definition IPC_SEC_PIN_STATUS_LOCK_PC :: u8 where "IPC_SEC_PIN_STATUS_LOCK_PC = 0x08"
definition IPC_SEC_PIN_STATUS_INIT_COMPLETE :: u8 where "IPC_SEC_PIN_STATUS_INIT_COMPLETE = 0x82"
definition IPC_SEC_PIN_STATUS_PB_INIT_COMPLETE :: u8 where "IPC_SEC_PIN_STATUS_PB_INIT_COMPLETE = 0x83"
definition IPC_SEC_FACILITY_LOCK_TYPE_SC_UNLOCKED :: u8 where "IPC_SEC_FACILITY_LOCK_TYPE_SC_UNLOCKED = 0x00"
definition IPC_SEC_FACILITY_LOCK_TYPE_SC_PIN1_REQ :: u8 where "IPC_SEC_FACILITY_LOCK_TYPE_SC_PIN1_REQ = 0x01"
definition IPC_SEC_FACILITY_LOCK_TYPE_SC_PUK_REQ :: u8 where "IPC_SEC_FACILITY_LOCK_TYPE_SC_PUK_REQ = 0x02"
definition IPC_SEC_FACILITY_LOCK_TYPE_SC_CARD_BLOCKED :: u8 where "IPC_SEC_FACILITY_LOCK_TYPE_SC_CARD_BLOCKED = 0x05"
definition IPC_SEC_PIN_TYPE_PIN1 :: u8 where "IPC_SEC_PIN_TYPE_PIN1 = 0x03"
definition IPC_SEC_PIN_TYPE_PIN2 :: u8 where "IPC_SEC_PIN_TYPE_PIN2 = 0x09"
definition IPC_SEC_FACILITY_TYPE_SC :: u8 where "IPC_SEC_FACILITY_TYPE_SC = 0x03"
definition IPC_SEC_FACILITY_TYPE_FD :: u8 where "IPC_SEC_FACILITY_TYPE_FD = 0x04"
definition IPC_SEC_FACILITY_TYPE_PN :: u8 where "IPC_SEC_FACILITY_TYPE_PN = 0x05"
definition IPC_SEC_FACILITY_TYPE_PU :: u8 where "IPC_SEC_FACILITY_TYPE_PU = 0x06"
definition IPC_SEC_FACILITY_TYPE_PP :: u8 where "IPC_SEC_FACILITY_TYPE_PP = 0x07"
definition IPC_SEC_FACILITY_TYPE_PC :: u8 where "IPC_SEC_FACILITY_TYPE_PC = 0x08"
definition IPC_SEC_RSIM_FILE_STRUCTURE_TRANSPARENT :: u8 where "IPC_SEC_RSIM_FILE_STRUCTURE_TRANSPARENT = 0x83"

lemmas sec_status_defs = IPC_SEC_PIN_STATUS_READY_def IPC_SEC_PIN_STATUS_LOCK_SC_def IPC_SEC_PIN_STATUS_LOCK_FD_def
  IPC_SEC_PIN_STATUS_LOCK_PN_def IPC_SEC_PIN_STATUS_LOCK_PU_def IPC_SEC_PIN_STATUS_LOCK_PP_def
  IPC_SEC_PIN_STATUS_LOCK_PC_def IPC_SEC_PIN_STATUS_INIT_COMPLETE_def IPC_SEC_PIN_STATUS_PB_INIT_COMPLETE_def
  IPC_SEC_FACILITY_LOCK_TYPE_SC_UNLOCKED_def IPC_SEC_FACILITY_LOCK_TYPE_SC_PIN1_REQ_def
  IPC_SEC_FACILITY_LOCK_TYPE_SC_PUK_REQ_def IPC_SEC_FACILITY_LOCK_TYPE_SC_CARD_BLOCKED_def

lemmas facility_type_defs = IPC_SEC_FACILITY_TYPE_SC_def IPC_SEC_FACILITY_TYPE_FD_def IPC_SEC_FACILITY_TYPE_PN_def
  IPC_SEC_FACILITY_TYPE_PU_def IPC_SEC_FACILITY_TYPE_PP_def IPC_SEC_FACILITY_TYPE_PC_def

definition RIL_CARDSTATE_ABSENT :: int where "RIL_CARDSTATE_ABSENT = 0"
definition RIL_CARDSTATE_PRESENT :: int where "RIL_CARDSTATE_PRESENT = 1"
definition RIL_PERSOSUBSTATE_UNKNOWN :: int where "RIL_PERSOSUBSTATE_UNKNOWN = 0"
definition RIL_PERSOSUBSTATE_READY :: int where "RIL_PERSOSUBSTATE_READY = 2"
definition RIL_PERSOSUBSTATE_SIM_NETWORK :: int where "RIL_PERSOSUBSTATE_SIM_NETWORK = 3"
definition RIL_PERSOSUBSTATE_SIM_NETWORK_SUBSET :: int where "RIL_PERSOSUBSTATE_SIM_NETWORK_SUBSET = 4"
definition RIL_PERSOSUBSTATE_SIM_CORPORATE :: int where "RIL_PERSOSUBSTATE_SIM_CORPORATE = 5"
definition RIL_PERSOSUBSTATE_SIM_SERVICE_PROVIDER :: int where "RIL_PERSOSUBSTATE_SIM_SERVICE_PROVIDER = 6"
definition RIL_APPSTATE_UNKNOWN :: int where "RIL_APPSTATE_UNKNOWN = 0"
definition RIL_APPSTATE_DETECTED :: int where "RIL_APPSTATE_DETECTED = 1"
definition RIL_APPSTATE_PIN :: int where "RIL_APPSTATE_PIN = 2"
definition RIL_APPSTATE_PUK :: int where "RIL_APPSTATE_PUK = 3"
definition RIL_APPSTATE_SUBSCRIPTION_PERSO :: int where "RIL_APPSTATE_SUBSCRIPTION_PERSO = 4"
definition RIL_APPSTATE_READY :: int where "RIL_APPSTATE_READY = 5"
definition RIL_PINSTATE_UNKNOWN :: int where "RIL_PINSTATE_UNKNOWN = 0"
definition RIL_PINSTATE_ENABLED_NOT_VERIFIED :: int where "RIL_PINSTATE_ENABLED_NOT_VERIFIED = 1"
definition RIL_PINSTATE_ENABLED_BLOCKED :: int where "RIL_PINSTATE_ENABLED_BLOCKED = 4"
definition RIL_PINSTATE_ENABLED_PERM_BLOCKED :: int where "RIL_PINSTATE_ENABLED_PERM_BLOCKED = 5"
definition RIL_APPTYPE_UNKNOWN :: int where "RIL_APPTYPE_UNKNOWN = 0"
definition RIL_APPTYPE_SIM :: int where "RIL_APPTYPE_SIM = 1"
definition RIL_CARD_MAX_APPS :: nat where "RIL_CARD_MAX_APPS = 8"

lemmas card_value_defs = RIL_CARDSTATE_ABSENT_def RIL_CARDSTATE_PRESENT_def RIL_PERSOSUBSTATE_UNKNOWN_def
  RIL_PERSOSUBSTATE_READY_def RIL_PERSOSUBSTATE_SIM_NETWORK_def RIL_PERSOSUBSTATE_SIM_NETWORK_SUBSET_def
  RIL_PERSOSUBSTATE_SIM_CORPORATE_def RIL_PERSOSUBSTATE_SIM_SERVICE_PROVIDER_def RIL_APPSTATE_UNKNOWN_def
  RIL_APPSTATE_DETECTED_def RIL_APPSTATE_PIN_def RIL_APPSTATE_PUK_def RIL_APPSTATE_SUBSCRIPTION_PERSO_def
  RIL_APPSTATE_READY_def RIL_PINSTATE_UNKNOWN_def RIL_PINSTATE_ENABLED_NOT_VERIFIED_def
  RIL_PINSTATE_ENABLED_BLOCKED_def RIL_PINSTATE_ENABLED_PERM_BLOCKED_def RIL_APPTYPE_UNKNOWN_def RIL_APPTYPE_SIM_def

subsection \<open>The status of the card\<close>

text \<open>\<open>RIL_AppStatus\<close> and \<open>RIL_CardStatus_v6\<close>; the two string pointers of an application are \<open>NULL\<close> in every
  row of the table, so a status is the bytes of its 32-bit members.\<close>

record RIL_AppStatus =
  as_app_type :: int
  as_app_state :: int
  as_perso_substate :: int
  as_pin1_replaced :: int
  as_pin1 :: int
  as_pin2 :: int

record RIL_CardStatus_v6 =
  cs_card_state :: int
  cs_universal_pin_state :: int
  cs_gsm_umts_subscription_app_index :: int
  cs_cdma_subscription_app_index :: int
  cs_ims_subscription_app_index :: int
  cs_num_applications :: int
  cs_applications :: "RIL_AppStatus list"

definition app_status_bytes :: "RIL_AppStatus \<Rightarrow> u8 list" where
  "app_status_bytes a = concat (map (\<lambda>i. bytes32 (word_of_int i))
     [as_app_type a, as_app_state a, as_perso_substate a, 0, 0, as_pin1_replaced a, as_pin1 a, as_pin2 a])"

definition card_status_bytes :: "RIL_CardStatus_v6 \<Rightarrow> u8 list" where
  "card_status_bytes c = concat (map (\<lambda>i. bytes32 (word_of_int i))
     [cs_card_state c, cs_universal_pin_state c, cs_gsm_umts_subscription_app_index c,
      cs_cdma_subscription_app_index c, cs_ims_subscription_app_index c, cs_num_applications c]) @
     concat (map app_status_bytes (cs_applications c))"

definition app_statuses :: "RIL_AppStatus list" where
  "app_statuses = map (\<lambda>(t, st, sub, pin1). \<lparr>as_app_type = t, as_app_state = st, as_perso_substate = sub,
       as_pin1_replaced = 0, as_pin1 = pin1, as_pin2 = RIL_PINSTATE_UNKNOWN\<rparr>)
     [(RIL_APPTYPE_UNKNOWN, RIL_APPSTATE_UNKNOWN, RIL_PERSOSUBSTATE_UNKNOWN, RIL_PINSTATE_UNKNOWN),
      (RIL_APPTYPE_SIM, RIL_APPSTATE_DETECTED, RIL_PERSOSUBSTATE_UNKNOWN, RIL_PINSTATE_UNKNOWN),
      (RIL_APPTYPE_SIM, RIL_APPSTATE_READY, RIL_PERSOSUBSTATE_READY, RIL_PINSTATE_UNKNOWN),
      (RIL_APPTYPE_SIM, RIL_APPSTATE_PIN, RIL_PERSOSUBSTATE_UNKNOWN, RIL_PINSTATE_ENABLED_NOT_VERIFIED),
      (RIL_APPTYPE_SIM, RIL_APPSTATE_PUK, RIL_PERSOSUBSTATE_UNKNOWN, RIL_PINSTATE_ENABLED_BLOCKED),
      (RIL_APPTYPE_SIM, RIL_APPSTATE_PUK, RIL_PERSOSUBSTATE_UNKNOWN, RIL_PINSTATE_ENABLED_PERM_BLOCKED),
      (RIL_APPTYPE_SIM, RIL_APPSTATE_SUBSCRIPTION_PERSO, RIL_PERSOSUBSTATE_SIM_NETWORK, RIL_PINSTATE_ENABLED_NOT_VERIFIED),
      (RIL_APPTYPE_SIM, RIL_APPSTATE_SUBSCRIPTION_PERSO, RIL_PERSOSUBSTATE_SIM_NETWORK_SUBSET, RIL_PINSTATE_ENABLED_NOT_VERIFIED),
      (RIL_APPTYPE_SIM, RIL_APPSTATE_SUBSCRIPTION_PERSO, RIL_PERSOSUBSTATE_SIM_CORPORATE, RIL_PINSTATE_ENABLED_NOT_VERIFIED),
      (RIL_APPTYPE_SIM, RIL_APPSTATE_SUBSCRIPTION_PERSO, RIL_PERSOSUBSTATE_SIM_SERVICE_PROVIDER, RIL_PINSTATE_ENABLED_NOT_VERIFIED)]"

definition pin_status_index :: "u8 \<Rightarrow> u8 \<Rightarrow> nat" where
  "pin_status_index status facility_lock =
     (if status = IPC_SEC_PIN_STATUS_LOCK_SC then
        (if facility_lock = IPC_SEC_FACILITY_LOCK_TYPE_SC_UNLOCKED then 2
         else if facility_lock = IPC_SEC_FACILITY_LOCK_TYPE_SC_PIN1_REQ then 3
         else if facility_lock = IPC_SEC_FACILITY_LOCK_TYPE_SC_PUK_REQ then 4
         else if facility_lock = IPC_SEC_FACILITY_LOCK_TYPE_SC_CARD_BLOCKED then 5
         else 0)
      else if status = IPC_SEC_PIN_STATUS_LOCK_FD then 0
      else if status = IPC_SEC_PIN_STATUS_LOCK_PN then 6
      else if status = IPC_SEC_PIN_STATUS_LOCK_PU then 7
      else if status = IPC_SEC_PIN_STATUS_LOCK_PP then 9
      else if status = IPC_SEC_PIN_STATUS_LOCK_PC then 8
      else if status = IPC_SEC_PIN_STATUS_READY \<or> status = IPC_SEC_PIN_STATUS_INIT_COMPLETE \<or>
        status = IPC_SEC_PIN_STATUS_PB_INIT_COMPLETE then 2
      else 0)"

definition ipc2ril_sec_pin_status_response :: "u8 \<Rightarrow> u8 \<Rightarrow> int \<times> RIL_CardStatus_v6" where
  "ipc2ril_sec_pin_status_response status facility_lock =
     (let index = pin_status_index status facility_lock;
          zero = \<lparr>as_app_type = 0, as_app_state = 0, as_perso_substate = 0, as_pin1_replaced = 0, as_pin1 = 0, as_pin2 = 0\<rparr> in
      (if index = 1 then RADIO_STATE_SIM_NOT_READY
       else if index = 2 then RADIO_STATE_SIM_READY
       else RADIO_STATE_SIM_LOCKED_OR_ABSENT,
       \<lparr>cs_card_state = (if index = 0 then RIL_CARDSTATE_ABSENT else RIL_CARDSTATE_PRESENT),
        cs_universal_pin_state = RIL_PINSTATE_UNKNOWN, cs_gsm_umts_subscription_app_index = 0,
        cs_cdma_subscription_app_index = -1, cs_ims_subscription_app_index = -1, cs_num_applications = 1,
        cs_applications = (app_statuses ! index) # replicate (RIL_CARD_MAX_APPS - 1) zero\<rparr>))"

definition ril2ipc_sec_facility_type :: "string option \<Rightarrow> u8" where
  "ril2ipc_sec_facility_type facility =
     (if facility = Some ''SC'' then IPC_SEC_FACILITY_TYPE_SC
      else if facility = Some ''FD'' then IPC_SEC_FACILITY_TYPE_FD
      else if facility = Some ''PN'' then IPC_SEC_FACILITY_TYPE_PN
      else if facility = Some ''PU'' then IPC_SEC_FACILITY_TYPE_PU
      else if facility = Some ''PP'' then IPC_SEC_FACILITY_TYPE_PP
      else if facility = Some ''PC'' then IPC_SEC_FACILITY_TYPE_PC
      else 0)"

definition ipc_sec_pin_status_callback :: msg_handler where
  "ipc_sec_pin_status_callback message s = (case gen_phone_res_data (msg_data message) of
      None \<Rightarrow> Some (-1, s)
    | Some data \<Rightarrow>
        if ipc_gen_phone_res_check data < 0 then do {
          (_, s) \<leftarrow> Some (ril_request_unsolicited RIL_UNSOL_RESPONSE_SIM_STATUS_CHANGED RNull 0 s);
          Some (0, s)
        }
        else Some (0, ril_request_data_free RIL_REQUEST_GET_SIM_STATUS s))"

definition ipc_sec_pin_status :: msg_handler where
  "ipc_sec_pin_status message s =
     (let bs = msg_data message; aseq = msg_aseq message in
      if length bs < 2 then Some (-1, s)
      else if ril_radio_state_check RADIO_STATE_SIM_NOT_READY s < 0 then Some (0, s)
      else (case ipc2ril_sec_pin_status_response (bs ! 0) (bs ! 1) of (state, card_status) \<Rightarrow>
        if state = 0 then Some (0, s)
        else if as_app_type (cs_applications card_status ! 0) = RIL_APPTYPE_SIM \<and>
          as_app_state (cs_applications card_status ! 0) = RIL_APPSTATE_PIN \<and> sim_pin s \<noteq> None
        then do {
          (_, s) \<leftarrow> ril_request_data_set_uniq RIL_REQUEST_GET_SIM_STATUS (Some (PBytes (card_status_bytes card_status))) 280 s;
          let request_data = ipc_sec_pin_status_setup IPC_SEC_PIN_TYPE_PIN1 (sim_pin s) None;
          (rc, s) \<leftarrow> Some (ipc_gen_phone_res_expect_callback aseq IPC_SEC_PIN_STATUS Cb_sec_pin_status s);
          if rc < 0 then Some (0, ril_request_data_free RIL_REQUEST_GET_SIM_STATUS s)
          else do {
            (rc, s) \<leftarrow> Some (ipc_fmt_send aseq IPC_SEC_PIN_STATUS IPC_TYPE_SET request_data s);
            if rc < 0 then Some (0, ril_request_data_free RIL_REQUEST_GET_SIM_STATUS s)
            else Some (0, s)
          }
        }
        else do {
          (_, s) \<leftarrow> ril_radio_state_update state s;
          if msg_type message = IPC_TYPE_RESP \<and> ipc_seq_valid aseq
          then message_complete aseq RIL_E_SUCCESS (RBytes (card_status_bytes card_status)) 280 s
          else do {
            (_, s) \<leftarrow> ril_request_data_set_uniq RIL_REQUEST_GET_SIM_STATUS (Some (PBytes (card_status_bytes card_status))) 280 s;
            (_, s) \<leftarrow> Some (ril_request_unsolicited RIL_UNSOL_RESPONSE_SIM_STATUS_CHANGED RNull 0 s);
            Some (0, s)
          }
        }))"

text \<open>The stored status is fetched twice; the second time whatever else is stored under the request is dropped.\<close>

definition ril_request_get_sim_status :: req_handler where
  "ril_request_get_sim_status data sz token s =
     (if ril_radio_state_check RADIO_STATE_SIM_NOT_READY s < 0 then Some (RIL_REQUEST_UNHANDLED, s)
      else if ril_request_find_request_status RIL_REQUEST_GET_SIM_STATUS RIL_REQUEST_HANDLED s \<noteq> None
      then Some (RIL_REQUEST_UNHANDLED, s)
      else do {
        let card_status_size = ril_request_data_size_get RIL_REQUEST_GET_SIM_STATUS s;
        (card_status_data, s) \<leftarrow> Some (ril_request_data_get RIL_REQUEST_GET_SIM_STATUS s);
        if card_status_data \<noteq> None \<and> card_status_size \<ge> 280 then do {
          (_, s) \<leftarrow> Some (ril_request_data_get RIL_REQUEST_GET_SIM_STATUS s);
          (_, s) \<leftarrow> ril_request_complete token RIL_E_SUCCESS (payload_response card_status_data) card_status_size s;
          Some (RIL_REQUEST_COMPLETED, s)
        }
        else do {
          (rc, s) \<leftarrow> Some (fmt_send_for token IPC_SEC_PIN_STATUS IPC_TYPE_GET [] s);
          if rc < 0 then request_failed token RIL_E_GENERIC_FAILURE s
          else Some (RIL_REQUEST_HANDLED, s)
        }
      })"

subsection \<open>Facility locks\<close>

definition ipc_sec_phone_lock :: msg_handler where
  "ipc_sec_phone_lock message s =
     (let bs = msg_data message in
      if length bs < 2 then Some (-1, s)
      else if msg_type message \<noteq> IPC_TYPE_RESP \<or> \<not> ipc_seq_valid (msg_aseq message) then Some (0, s)
      else message_complete (msg_aseq message) RIL_E_SUCCESS (RInt (if bs ! 1 \<noteq> 0 then 1 else 0)) 4 s)"

definition ril_request_query_facility_lock :: req_handler where
  "ril_request_query_facility_lock data sz token s = (case data of
      None \<Rightarrow> request_failed token RIL_E_GENERIC_FAILURE s
    | Some d \<Rightarrow>
        if sz < 16 then request_failed token RIL_E_GENERIC_FAILURE s
        else if ril_radio_state_check RADIO_STATE_SIM_READY s < 0 then Some (RIL_REQUEST_UNHANDLED, s)
        else (case d of
            PStrings (value0 # _) \<Rightarrow>
             (let facility_type = ril2ipc_sec_facility_type value0 in
              if facility_type = 0 then request_failed token RIL_E_GENERIC_FAILURE s
              else do {
                (rc, s) \<leftarrow> Some (fmt_send_for token IPC_SEC_PHONE_LOCK IPC_TYPE_GET [facility_type] s);
                if rc < 0 then request_failed token RIL_E_GENERIC_FAILURE s
                else Some (RIL_REQUEST_HANDLED, s)
              })
          | _ \<Rightarrow> None))"

text \<open>The labels of \<open>ipc_sec_callback\<close> with \<open>request\<close> the pointer \<open>p\<close>: \<open>error\<close>, and the code before \<open>goto complete\<close>, which
  reads the request number again.\<close>

definition sec_callback_error :: "addr \<Rightarrow> ril_world \<Rightarrow> (int \<times> ril_world) option" where
  "sec_callback_error p s = (case node_get (requests s) p of
      None \<Rightarrow> None
    | Some request \<Rightarrow> do {
        (_, s) \<leftarrow> ril_request_complete (rq_token request) RIL_E_GENERIC_FAILURE RNull 0 s;
        Some (0, s)
      })"

definition sec_callback_end :: "addr \<Rightarrow> ril_world \<Rightarrow> (int \<times> ril_world) option" where
  "sec_callback_end p s = (case node_get (requests s) p of
      None \<Rightarrow> None
    | Some request \<Rightarrow>
        if rq_request request = RIL_REQUEST_ENTER_SIM_PUK \<or> rq_request request = RIL_REQUEST_ENTER_SIM_PUK2
        then do {
          (_, s) \<leftarrow> Some (ril_request_unsolicited RIL_UNSOL_RESPONSE_SIM_STATUS_CHANGED RNull 0 s);
          Some (0, s)
        }
        else Some (0, s))"

text \<open>Keep the generic response and ask for the remaining tries.\<close>

definition sec_callback_tries :: "addr \<Rightarrow> int \<Rightarrow> u8 \<Rightarrow> ipc_message \<Rightarrow> ril_world \<Rightarrow> (int \<times> ril_world) option" where
  "sec_callback_tries p number pin_type message s = do {
     (_, s) \<leftarrow> ril_request_data_set_uniq number (Some (PBytes (take 5 (msg_data message)))) 5 s;
     (rc, s) \<leftarrow> Some (ipc_fmt_send (msg_aseq message) IPC_SEC_LOCK_INFOMATION IPC_TYPE_GET
       (ipc_sec_lock_infomation_setup pin_type) s);
     if rc < 0 then sec_callback_error p (ril_request_data_free number s)
     else sec_callback_end p s
   }"

definition sec_callback_facility ::
  "addr \<Rightarrow> ril_request \<Rightarrow> ipc_gen_phone_res_data \<Rightarrow> ipc_message \<Rightarrow> ril_world \<Rightarrow> (int \<times> ril_world) option" where
  "sec_callback_facility p request data message s = do {
     let complete_size = ril_request_data_size_get RIL_REQUEST_SET_FACILITY_LOCK s;
     (complete_data, s) \<leftarrow> Some (ril_request_data_get RIL_REQUEST_SET_FACILITY_LOCK s);
     if complete_data \<noteq> None \<and> complete_size > 0 \<and> ipc_gen_phone_res_check data \<ge> 0 then do {
       (rc, s) \<leftarrow> Some (ipc_gen_phone_res_expect_callback (msg_aseq message) IPC_SEC_PHONE_LOCK Cb_sec s);
       if rc < 0 then sec_callback_error p s
       else (case complete_data of
           Some (PBytes bs) \<Rightarrow>
            (if complete_size > length bs then None
             else do {
               (rc, s) \<leftarrow> Some (ipc_fmt_send (msg_aseq message) IPC_SEC_PHONE_LOCK IPC_TYPE_SET (take complete_size bs) s);
               if rc < 0 then sec_callback_error p s
               else sec_callback_end p s
             })
         | _ \<Rightarrow> None)
     }
     else (case rq_data request of
         Some (PStrings (value0 # _)) \<Rightarrow>
           sec_callback_tries p RIL_REQUEST_SET_FACILITY_LOCK
             (if ril2ipc_sec_facility_type value0 = IPC_SEC_FACILITY_TYPE_FD then IPC_SEC_PIN_TYPE_PIN2
              else IPC_SEC_PIN_TYPE_PIN1) message s
       | _ \<Rightarrow> None)
   }"

definition sec_callback_sim_io ::
  "addr \<Rightarrow> ril_request \<Rightarrow> ipc_gen_phone_res_data \<Rightarrow> ipc_message \<Rightarrow> ril_world \<Rightarrow> (int \<times> ril_world) option" where
  "sec_callback_sim_io p request data message s = do {
     let complete_size = ril_request_data_size_get RIL_REQUEST_SIM_IO s;
     (complete_data, s) \<leftarrow> Some (ril_request_data_get RIL_REQUEST_SIM_IO s);
     if ipc_gen_phone_res_check data < 0 then do {
       (_, s) \<leftarrow> ril_request_complete (rq_token request) RIL_E_SIM_PIN2 RNull 0 s;
       Some (0, s)
     }
     else if complete_data \<noteq> None \<and> complete_size > 0 then (case complete_data of
         Some (PBytes bs) \<Rightarrow>
          (if complete_size > length bs then None
           else do {
             (rc, s) \<leftarrow> Some (ipc_fmt_send (msg_aseq message) IPC_SEC_RSIM_ACCESS IPC_TYPE_GET (take complete_size bs) s);
             if rc < 0 then sec_callback_error p s
             else sec_callback_end p s
           })
       | _ \<Rightarrow> None)
     else sec_callback_error p s
   }"

text \<open>The error and the number of remaining tries that a generic response stands for.\<close>

definition sec_result :: "ipc_gen_phone_res_data \<Rightarrow> int \<Rightarrow> int \<times> int" where
  "sec_result data retry_count =
     (if ipc_gen_phone_res_check data < 0 then
        (if gp_code data AND 0xff = 0x10 then (RIL_E_PASSWORD_INCORRECT, retry_count)
         else if gp_code data AND 0xff = 0x0c then (RIL_E_PASSWORD_INCORRECT, 0)
         else (RIL_E_GENERIC_FAILURE, retry_count))
      else (RIL_E_SUCCESS, retry_count))"

definition sec_callback_other :: "addr \<Rightarrow> ipc_gen_phone_res_data \<Rightarrow> ipc_message \<Rightarrow> ril_world \<Rightarrow> (int \<times> ril_world) option" where
  "sec_callback_other p data message s = (case sec_result data (-1) of (error, retry_count) \<Rightarrow> do {
     (_, s) \<leftarrow> ril_request_complete (ipc_fmt_request_token (msg_aseq message) s) error (RInt retry_count) 4 s;
     sec_callback_end p s
   })"

definition ipc_sec_callback :: msg_handler where
  "ipc_sec_callback message s = (case gen_phone_res_data (msg_data message) of
      None \<Rightarrow> Some (-1, s)
    | Some data \<Rightarrow> (case ril_request_find_token (ipc_fmt_request_token (msg_aseq message) s) s of
        None \<Rightarrow> Some (0, s)
      | Some p \<Rightarrow> (case node_get (requests s) p of
          None \<Rightarrow> None
        | Some request \<Rightarrow>
            if rq_request request = RIL_REQUEST_ENTER_SIM_PIN \<or> rq_request request = RIL_REQUEST_CHANGE_SIM_PIN
            then sec_callback_tries p (rq_request request) IPC_SEC_PIN_TYPE_PIN1 message s
            else if rq_request request = RIL_REQUEST_ENTER_SIM_PIN2 \<or> rq_request request = RIL_REQUEST_CHANGE_SIM_PIN2
            then sec_callback_tries p (rq_request request) IPC_SEC_PIN_TYPE_PIN2 message s
            else if rq_request request = RIL_REQUEST_SET_FACILITY_LOCK then sec_callback_facility p request data message s
            else if rq_request request = RIL_REQUEST_SIM_IO then sec_callback_sim_io p request data message s
            else sec_callback_other p data message s)))"

text \<open>The common end of the handlers that answer through \<open>ipc_sec_callback\<close>: expect the generic response, send, and fail the
  request when either is refused.\<close>

definition sec_request :: "ril_token \<Rightarrow> u16 \<Rightarrow> u8 list \<Rightarrow> ril_world \<Rightarrow> (int \<times> ril_world) option" where
  "sec_request token command request_data s = do {
     (rc, s) \<leftarrow> Some (expect_callback_for token command Cb_sec s);
     if rc < 0 then request_failed token RIL_E_GENERIC_FAILURE s
     else do {
       (rc, s) \<leftarrow> Some (fmt_send_for token command IPC_TYPE_SET request_data s);
       if rc < 0 then request_failed token RIL_E_GENERIC_FAILURE s
       else Some (RIL_REQUEST_HANDLED, s)
     }
   }"

text \<open>The same when a PIN2 has to be accepted first: what is to be sent then is kept as data of request \<open>number\<close>.\<close>

definition sec_request_pin2 ::
  "ril_token \<Rightarrow> int \<Rightarrow> u8 list \<Rightarrow> u8 list \<Rightarrow> ril_world \<Rightarrow> (int \<times> ril_world) option" where
  "sec_request_pin2 token number later pin_request_data s = do {
     (_, s) \<leftarrow> ril_request_data_set_uniq number (Some (PBytes later)) (length later) s;
     (rc, s) \<leftarrow> Some (expect_callback_for token IPC_SEC_PIN_STATUS Cb_sec s);
     if rc < 0 then request_failed token RIL_E_GENERIC_FAILURE (ril_request_data_free number s)
     else do {
       (rc, s) \<leftarrow> Some (fmt_send_for token IPC_SEC_PIN_STATUS IPC_TYPE_SET pin_request_data s);
       if rc < 0 then request_failed token RIL_E_GENERIC_FAILURE (ril_request_data_free number s)
       else Some (RIL_REQUEST_HANDLED, s)
     }
   }"

text \<open>\<open>values[1][0]\<close> is read without a test of \<open>values[1]\<close>.\<close>

definition ril_request_set_facility_lock :: req_handler where
  "ril_request_set_facility_lock data sz token s = (case data of
      None \<Rightarrow> request_failed token RIL_E_GENERIC_FAILURE s
    | Some d \<Rightarrow>
        if sz < 16 then request_failed token RIL_E_GENERIC_FAILURE s
        else if ril_radio_state_check RADIO_STATE_SIM_READY s < 0 then Some (RIL_REQUEST_UNHANDLED, s)
        else if ril_request_find_request_status RIL_REQUEST_SET_FACILITY_LOCK RIL_REQUEST_HANDLED s \<noteq> None
        then Some (RIL_REQUEST_UNHANDLED, s)
        else (case d of
            PStrings (value0 # value1 # value2 # _) \<Rightarrow>
             (let facility_type = ril2ipc_sec_facility_type value0 in
              if facility_type = 0 then request_failed token RIL_E_GENERIC_FAILURE s
              else (case value1 of
                  None \<Rightarrow> None
                | Some v \<Rightarrow>
                    let active = (if v \<noteq> [] \<and> v ! 0 = CHR ''1'' then 1 else 0);
                        request_data = ipc_sec_phone_lock_request_set_setup facility_type active value2 in
                    if facility_type = IPC_SEC_FACILITY_TYPE_FD
                    then sec_request_pin2 token RIL_REQUEST_SET_FACILITY_LOCK request_data
                      (ipc_sec_pin_status_setup IPC_SEC_PIN_TYPE_PIN2 value2 None) s
                    else sec_request token IPC_SEC_PHONE_LOCK request_data s))
          | _ \<Rightarrow> None))"

subsection \<open>PIN and PUK\<close>

definition ril_request_enter_sim_pin :: req_handler where
  "ril_request_enter_sim_pin data sz token s = (case data of
      None \<Rightarrow> request_failed token RIL_E_GENERIC_FAILURE s
    | Some d \<Rightarrow>
        if sz < 8 \<or> \<not> ril_data_alive s then request_failed token RIL_E_GENERIC_FAILURE s
        else if ril_radio_state_check RADIO_STATE_SIM_NOT_READY s < 0 then Some (RIL_REQUEST_UNHANDLED, s)
        else if ril_request_find_request_status RIL_REQUEST_ENTER_SIM_PIN RIL_REQUEST_HANDLED s \<noteq> None
        then Some (RIL_REQUEST_UNHANDLED, s)
        else (case d of
            PStrings (value0 # _) \<Rightarrow>
             (if value0 = None then request_failed token RIL_E_GENERIC_FAILURE s
              else sec_request token IPC_SEC_PIN_STATUS
                (ipc_sec_pin_status_setup IPC_SEC_PIN_TYPE_PIN1 value0 None) (s\<lparr>sim_pin := value0\<rparr>))
          | _ \<Rightarrow> None))"

definition ril_request_enter_sim_puk :: req_handler where
  "ril_request_enter_sim_puk data sz token s = (case data of
      None \<Rightarrow> request_failed token RIL_E_GENERIC_FAILURE s
    | Some d \<Rightarrow>
        if sz < 8 then request_failed token RIL_E_GENERIC_FAILURE s
        else if ril_radio_state_check RADIO_STATE_SIM_NOT_READY s < 0 then Some (RIL_REQUEST_UNHANDLED, s)
        else if ril_request_find_request_status RIL_REQUEST_ENTER_SIM_PUK RIL_REQUEST_HANDLED s \<noteq> None
        then Some (RIL_REQUEST_UNHANDLED, s)
        else (case d of
            PStrings (value0 # value1 # _) \<Rightarrow> sec_request token IPC_SEC_PIN_STATUS
              (ipc_sec_pin_status_setup IPC_SEC_PIN_TYPE_PIN1 value1 value0) s
          | _ \<Rightarrow> None))"

definition ril_request_enter_sim_pin2 :: req_handler where
  "ril_request_enter_sim_pin2 data sz token s = (case data of
      None \<Rightarrow> request_failed token RIL_E_GENERIC_FAILURE s
    | Some d \<Rightarrow>
        if sz < 8 then request_failed token RIL_E_GENERIC_FAILURE s
        else if ril_radio_state_check RADIO_STATE_SIM_NOT_READY s < 0 then Some (RIL_REQUEST_UNHANDLED, s)
        else if ril_request_find_request_status RIL_REQUEST_ENTER_SIM_PIN2 RIL_REQUEST_HANDLED s \<noteq> None
        then Some (RIL_REQUEST_UNHANDLED, s)
        else (case d of
            PStrings (value0 # _) \<Rightarrow> sec_request token IPC_SEC_PIN_STATUS
              (ipc_sec_pin_status_setup IPC_SEC_PIN_TYPE_PIN2 value0 None) s
          | _ \<Rightarrow> None))"

definition ril_request_enter_sim_puk2 :: req_handler where
  "ril_request_enter_sim_puk2 data sz token s = (case data of
      None \<Rightarrow> request_failed token RIL_E_GENERIC_FAILURE s
    | Some d \<Rightarrow>
        if sz < 8 then request_failed token RIL_E_GENERIC_FAILURE s
        else if ril_radio_state_check RADIO_STATE_SIM_NOT_READY s < 0 then Some (RIL_REQUEST_UNHANDLED, s)
        else if ril_request_find_request_status RIL_REQUEST_ENTER_SIM_PUK2 RIL_REQUEST_HANDLED s \<noteq> None
        then Some (RIL_REQUEST_UNHANDLED, s)
        else (case d of
            PStrings (value0 # value1 # _) \<Rightarrow> sec_request token IPC_SEC_PIN_STATUS
              (ipc_sec_pin_status_setup IPC_SEC_PIN_TYPE_PIN2 value1 value0) s
          | _ \<Rightarrow> None))"

definition ril_request_change_sim_pin :: req_handler where
  "ril_request_change_sim_pin data sz token s = (case data of
      None \<Rightarrow> request_failed token RIL_E_GENERIC_FAILURE s
    | Some d \<Rightarrow>
        if sz < 12 then request_failed token RIL_E_GENERIC_FAILURE s
        else if ril_request_find_request_status RIL_REQUEST_CHANGE_SIM_PIN RIL_REQUEST_HANDLED s \<noteq> None
        then Some (RIL_REQUEST_UNHANDLED, s)
        else if ril_radio_state_check RADIO_STATE_SIM_READY s < 0 then Some (RIL_REQUEST_UNHANDLED, s)
        else (case d of
            PStrings (value0 # value1 # _) \<Rightarrow> sec_request token IPC_SEC_CHANGE_LOCKING_PW
              (ipc_sec_change_locking_pw_setup IPC_SEC_FACILITY_TYPE_SC value0 value1) s
          | _ \<Rightarrow> None))"

text \<open>As in the code, a pending request to change PIN1 is looked for.\<close>

definition ril_request_change_sim_pin2 :: req_handler where
  "ril_request_change_sim_pin2 data sz token s = (case data of
      None \<Rightarrow> request_failed token RIL_E_GENERIC_FAILURE s
    | Some d \<Rightarrow>
        if sz < 12 then request_failed token RIL_E_GENERIC_FAILURE s
        else if ril_request_find_request_status RIL_REQUEST_CHANGE_SIM_PIN RIL_REQUEST_HANDLED s \<noteq> None
        then Some (RIL_REQUEST_UNHANDLED, s)
        else if ril_radio_state_check RADIO_STATE_SIM_READY s < 0 then Some (RIL_REQUEST_UNHANDLED, s)
        else (case d of
            PStrings (value0 # value1 # _) \<Rightarrow> sec_request token IPC_SEC_CHANGE_LOCKING_PW
              (ipc_sec_change_locking_pw_setup IPC_SEC_FACILITY_TYPE_FD value0 value1) s
          | _ \<Rightarrow> None))"

text \<open>The loop over the requests for which a generic response may be kept.\<close>

fun kept_response :: "int list \<Rightarrow> ril_world \<Rightarrow> payload option \<times> ril_world" where
  "kept_response [] s = (None, s)"
| "kept_response (number # numbers) s =
     (if ril_request_data_size_get number s < 5 then kept_response numbers s
      else (case ril_request_data_get number s of (d, s) \<Rightarrow>
        if d = None then kept_response numbers s else (d, s)))"

definition ipc_sec_lock_infomation :: msg_handler where
  "ipc_sec_lock_infomation message s =
     (let bs = msg_data message; aseq = msg_aseq message in
      if length bs < 4 then Some (-1, s)
      else if ril_radio_state_check RADIO_STATE_SIM_NOT_READY s < 0 then Some (0, s)
      else if msg_type message \<noteq> IPC_TYPE_RESP \<or> \<not> ipc_seq_valid aseq then Some (0, s)
      else if bs ! 1 \<noteq> IPC_SEC_PIN_TYPE_PIN1 \<and> bs ! 1 \<noteq> IPC_SEC_PIN_TYPE_PIN2 then Some (0, s)
      else (case kept_response [RIL_REQUEST_ENTER_SIM_PIN, RIL_REQUEST_CHANGE_SIM_PIN, RIL_REQUEST_ENTER_SIM_PIN2,
          RIL_REQUEST_CHANGE_SIM_PIN2, RIL_REQUEST_SET_FACILITY_LOCK] s of
          (None, s) \<Rightarrow> Some (0, s)
        | (Some (PBytes kept), s) \<Rightarrow> (case gen_phone_res_data kept of
              None \<Rightarrow> None
            | Some gen_phone_res \<Rightarrow> (case sec_result gen_phone_res (uint (bs ! 3)) of
                (error, retry_count) \<Rightarrow> message_complete aseq error (RInt retry_count) 4 s))
        | (Some _, s) \<Rightarrow> None))"

subsection \<open>SIM files\<close>

definition SIM_COMMAND_READ_BINARY :: int where "SIM_COMMAND_READ_BINARY = 0xB0"
definition SIM_COMMAND_READ_RECORD :: int where "SIM_COMMAND_READ_RECORD = 0xB2"
definition SIM_COMMAND_GET_RESPONSE :: int where "SIM_COMMAND_GET_RESPONSE = 0xC0"
definition SIM_FILE_STRUCTURE_TRANSPARENT :: u8 where "SIM_FILE_STRUCTURE_TRANSPARENT = 0x00"
definition SIM_FILE_STRUCTURE_LINEAR_FIXED :: u8 where "SIM_FILE_STRUCTURE_LINEAR_FIXED = 0x01"
definition SIM_FILE_TYPE_MF :: u8 where "SIM_FILE_TYPE_MF = 0x01"
definition SIM_FILE_TYPE_DF :: u8 where "SIM_FILE_TYPE_DF = 0x02"
definition SIM_FILE_TYPE_EF :: u8 where "SIM_FILE_TYPE_EF = 0x04"

definition sim_file_ids :: "(int \<times> u8) list" where
  "sim_file_ids =
     [(0x2F05, SIM_FILE_TYPE_EF), (0x2FE2, SIM_FILE_TYPE_EF), (0x3F00, SIM_FILE_TYPE_MF), (0x4F20, SIM_FILE_TYPE_EF),
      (0x5F3A, SIM_FILE_TYPE_DF), (0x6F05, SIM_FILE_TYPE_EF), (0x6F06, SIM_FILE_TYPE_EF), (0x6F07, SIM_FILE_TYPE_EF),
      (0x6F11, SIM_FILE_TYPE_EF), (0x6F13, SIM_FILE_TYPE_EF), (0x6F14, SIM_FILE_TYPE_EF), (0x6F15, SIM_FILE_TYPE_EF),
      (0x6F16, SIM_FILE_TYPE_EF), (0x6F17, SIM_FILE_TYPE_EF), (0x6F18, SIM_FILE_TYPE_EF), (0x6F38, SIM_FILE_TYPE_EF),
      (0x6F38, SIM_FILE_TYPE_EF), (0x6F3A, SIM_FILE_TYPE_EF), (0x6F40, SIM_FILE_TYPE_EF), (0x6F42, SIM_FILE_TYPE_EF),
      (0x6F45, SIM_FILE_TYPE_EF), (0x6F46, SIM_FILE_TYPE_EF), (0x6F48, SIM_FILE_TYPE_EF), (0x6F49, SIM_FILE_TYPE_EF),
      (0x6F4A, SIM_FILE_TYPE_EF), (0x6F4D, SIM_FILE_TYPE_EF), (0x6F50, SIM_FILE_TYPE_EF), (0x6F56, SIM_FILE_TYPE_EF),
      (0x6FAD, SIM_FILE_TYPE_EF), (0x6FAE, SIM_FILE_TYPE_EF), (0x6FB7, SIM_FILE_TYPE_EF), (0x6FC5, SIM_FILE_TYPE_EF),
      (0x6FC6, SIM_FILE_TYPE_EF), (0x6FC7, SIM_FILE_TYPE_EF), (0x6FC9, SIM_FILE_TYPE_EF), (0x6FCA, SIM_FILE_TYPE_EF),
      (0x6FCB, SIM_FILE_TYPE_EF), (0x6FCD, SIM_FILE_TYPE_EF), (0x7F10, SIM_FILE_TYPE_DF), (0x7F20, SIM_FILE_TYPE_DF)]"

definition sim_file_type :: "int \<Rightarrow> u8" where
  "sim_file_type fileid = (case map_of sim_file_ids fileid of None \<Rightarrow> SIM_FILE_TYPE_EF | Some t \<Rightarrow> t)"

text \<open>The loop that looks backwards for the byte 0x88 and stops two bytes before it.\<close>

fun usim_scan :: "u8 list \<Rightarrow> nat \<Rightarrow> nat" where
  "usim_scan h offset =
     (if offset \<le> 2 then offset
      else if h ! offset = 0x88 then offset - 2
      else usim_scan h (offset - 1))"

declare usim_scan.simps [simp del]

text \<open>\<open>h\<close> is the data of the answer, starting with \<open>struct ipc_sec_rsim_access_usim_response_header\<close>. Moving the pointer by
  \<open>usim_header->offset - 2\<close> leaves the object when the offset is below two.\<close>

definition usim_file_response :: "int \<Rightarrow> u8 list \<Rightarrow> string option option" where
  "usim_file_response fileid h =
     (let off = unat (h ! 3) in
      if 8 + off > length h then Some None
      else if off < 2 then None
      else
        let file_id = [h ! (off - 2), h ! (off - 1)]; offset = usim_scan h (length h - 2) in
        if offset \<le> 2 then Some None
        else Some (data2string ([0, 0] @ [h ! offset, h ! (offset + 1)] @ file_id @ [sim_file_type fileid, 0, 0x00, 0xff, 0xff,
          0x01, 0x02,
          (if h ! 6 = IPC_SEC_RSIM_FILE_STRUCTURE_TRANSPARENT then SIM_FILE_STRUCTURE_TRANSPARENT
           else SIM_FILE_STRUCTURE_LINEAR_FIXED),
          h ! 7])))"

definition rsim_response :: "int \<Rightarrow> int \<Rightarrow> u8 \<Rightarrow> u8 list \<Rightarrow> string option option" where
  "rsim_response command fileid icc_type bs =
     (let len = unat (bs ! 2);
          as_string = (case ipc_sec_rsim_access_extract bs of
              None \<Rightarrow> None | Some p \<Rightarrow> data2string (take len (drop p bs))) in
      if command = SIM_COMMAND_READ_BINARY \<or> command = SIM_COMMAND_READ_RECORD
      then (if len = 0 then Some None else Some as_string)
      else if command = SIM_COMMAND_GET_RESPONSE
      then
        (if len = 0 then Some None
         else if icc_type = 0x01 then Some as_string
         else if len < 8 then Some None
         else (case ipc_sec_rsim_access_extract bs of
             None \<Rightarrow> None
           | Some p \<Rightarrow> usim_file_response fileid (take len (drop p bs))))
      else Some None)"

definition ipc_sec_rsim_access :: msg_handler where
  "ipc_sec_rsim_access message s =
     (let bs = msg_data message; aseq = msg_aseq message in
      if length bs < 3 then Some (-1, s)
      else if \<not> fmt_data s then Some (0, s)
      else if msg_type message \<noteq> IPC_TYPE_RESP \<or> \<not> ipc_seq_valid aseq then Some (0, s)
      else (case ril_request_find_token (ipc_fmt_request_token aseq s) s of
          None \<Rightarrow> Some (0, s)
        | Some p \<Rightarrow> (case node_get (requests s) p of
            None \<Rightarrow> None
          | Some request \<Rightarrow>
              if rq_data request = None \<or> rq_size request < 36 then Some (0, s)
              else (case rq_data request of
                  Some (PSimIo (command # fileid # _) _ _ _ _) \<Rightarrow>
                   (case rsim_response command fileid (sim_icc_type s) bs of
                      None \<Rightarrow> None
                    | Some simResponse \<Rightarrow> message_complete aseq RIL_E_SUCCESS
                        (RSimIo (uint (bs ! 0)) (uint (bs ! 1)) simResponse) 12 s)
                | _ \<Rightarrow> None))))"

text \<open>The part of \<open>ril_request_sim_io\<close> after the payload has been read; \<open>NULL\<close> data is the empty list.\<close>

definition sim_io_send ::
  "int \<Rightarrow> int \<Rightarrow> int \<Rightarrow> int \<Rightarrow> int \<Rightarrow> u8 list \<Rightarrow> string option \<Rightarrow> ril_token \<Rightarrow> ril_world \<Rightarrow> (int \<times> ril_world) option" where
  "sim_io_send command fileid p1 p2 p3 sim_io_data pin2 token s =
     (let request_header = \<lparr>rq_command = word_of_int command, rq_file_id = word_of_int fileid,
            rq_p1 = word_of_int p1, rq_p2 = word_of_int p2, rq_p3 = word_of_int p3\<rparr> in
      if ipc_sec_rsim_access_size_setup sim_io_data = 0 then request_failed token RIL_E_GENERIC_FAILURE s
      else (case ipc_sec_rsim_access_setup request_header sim_io_data of
          None \<Rightarrow> request_failed token RIL_E_GENERIC_FAILURE s
        | Some request_data \<Rightarrow>
            if pin2 \<noteq> None
            then sec_request_pin2 token RIL_REQUEST_SIM_IO request_data
              (ipc_sec_pin_status_setup IPC_SEC_PIN_TYPE_PIN2 pin2 None) s
            else do {
              (rc, s) \<leftarrow> Some (fmt_send_for token IPC_SEC_RSIM_ACCESS IPC_TYPE_GET request_data s);
              if rc < 0 then request_failed token RIL_E_GENERIC_FAILURE s
              else Some (RIL_REQUEST_HANDLED, s)
            }))"

definition ril_request_sim_io :: req_handler where
  "ril_request_sim_io data sz token s = (case data of
      None \<Rightarrow> request_failed token RIL_E_GENERIC_FAILURE s
    | Some d \<Rightarrow>
        if sz < 36 then request_failed token RIL_E_GENERIC_FAILURE s
        else if ril_radio_state_check RADIO_STATE_SIM_READY s < 0 then Some (RIL_REQUEST_UNHANDLED, s)
        else if ril_request_find_request_status RIL_REQUEST_SIM_IO RIL_REQUEST_HANDLED s \<noteq> None
        then Some (RIL_REQUEST_UNHANDLED, s)
        else (case d of
            PSimIo [command, fileid, p1, p2, p3] path sim_data pin2 aidPtr \<Rightarrow>
             (if sim_data = None then sim_io_send command fileid p1 p2 p3 [] pin2 token s
              else if string2data_size sim_data = 0 then request_failed token RIL_E_GENERIC_FAILURE s
              else (case string2data sim_data of
                  None \<Rightarrow> None
                | Some None \<Rightarrow> request_failed token RIL_E_GENERIC_FAILURE s
                | Some (Some sim_io_data) \<Rightarrow> sim_io_send command fileid p1 p2 p3 sim_io_data pin2 token s))
          | _ \<Rightarrow> None))"

definition ipc_sec_sim_icc_type :: msg_handler where
  "ipc_sec_sim_icc_type message s =
     (if length (msg_data message) < 1 then Some (-1, s)
      else if \<not> fmt_data s then Some (0, s)
      else Some (0, s\<lparr>sim_icc_type := msg_data message ! 0\<rparr>))"

subsection \<open>The handlers keep their contracts\<close>

lemma length_app_status_bytes [simp]: "length (app_status_bytes a) = 32"
  by (simp add: app_status_bytes_def)

lemma length_card_status_bytes [simp]: "length (card_status_bytes c) = 24 + 32 * length (cs_applications c)"
  by (simp add: card_status_bytes_def length_concat comp_def sum_list_triv)

lemma pin_status_index_bound: "pin_status_index status lock < length app_statuses"
  by (simp add: pin_status_index_def app_statuses_def)

lemma length_card_status [simp]: "length (cs_applications (snd (ipc2ril_sec_pin_status_response status lock))) = 8"
  by (simp add: ipc2ril_sec_pin_status_response_def Let_def RIL_CARD_MAX_APPS_def)

lemma quiet_sim_pin: "quiet s (s\<lparr>sim_pin := p\<rparr>)" "quiet s (s\<lparr>sim_icc_type := t\<rparr>)"
  by (simp_all add: quiet_def ril_inv_def)

lemma wp_sec_request [wp_intro]:
  assumes "quiet base s" and "handler_pre token base"
  shows "wp (sec_request token cmd data s) (handler_post token base)"
  using assms by (auto simp: sec_request_def intro!: wp_intro)

lemma wp_sec_request_pin2 [wp_intro]:
  assumes "quiet base s" and "handler_pre token base" and "stored_payload number = bytes_payload"
  shows "wp (sec_request_pin2 token number later pin s) (handler_post token base)"
  using assms by (auto simp: sec_request_pin2_def bytes_payload_def intro!: wp_intro)

text \<open>An array of at least \<open>n\<close> strings, or a payload that is too small for \<open>n\<close> pointers.\<close>

definition string_values :: "nat \<Rightarrow> payload option \<Rightarrow> nat \<Rightarrow> bool" where
  "string_values n data sz = (case data of
      None \<Rightarrow> True
    | Some (PStrings ss) \<Rightarrow> n \<le> length ss
    | Some _ \<Rightarrow> sz < 4 * n)"

lemma string_values_cases:
  assumes "string_values n data sz" and "0 < n"
  obtains "data = None" | d where "data = Some d" "sz < 4 * n"
    | v0 vs where "data = Some (PStrings (v0 # vs))" "n \<le> Suc (length vs)"
proof (cases data)
  case (Some d)
  then show ?thesis
  proof (cases d)
    case (PStrings ss)
    with Some assms show ?thesis
      by (cases ss) (auto simp: string_values_def intro: that(3))
  qed (use Some assms that(2) in \<open>auto simp: string_values_def\<close>)
qed (rule that(1))

text \<open>A set-facility request names a state whenever the facility is known.\<close>

definition facility_values :: "payload option \<Rightarrow> nat \<Rightarrow> bool" where
  "facility_values data sz = (string_values 4 data sz \<and>
     (case data of Some (PStrings (v0 # v1 # _)) \<Rightarrow> ril2ipc_sec_facility_type v0 = 0 \<or> v1 \<noteq> None | _ \<Rightarrow> True))"

interpretation get_sim_status: request_handler ril_request_get_sim_status any_payload
proof
  fix token s data sz
  assume "handler_pre token s"
  with quiet_refl [of s] handler_pre_inv show "wp (ril_request_get_sim_status data sz token s) (handler_post token s)"
    by (auto simp: ril_request_get_sim_status_def Let_def intro!: wp_intro)
qed

interpretation query_facility_lock: request_handler ril_request_query_facility_lock "string_values 4"
proof
  fix token s data sz
  assume a: "handler_pre token s" "string_values 4 data sz"
  from a(2) show "wp (ril_request_query_facility_lock data sz token s) (handler_post token s)"
    by (rule string_values_cases)
      (use a(1) quiet_refl [of s] in \<open>auto simp: ril_request_query_facility_lock_def Let_def intro!: wp_intro\<close>)
qed

interpretation enter_sim_pin: request_handler ril_request_enter_sim_pin "string_values 2"
proof
  fix token s data sz
  assume a: "handler_pre token s" "string_values 2 data sz"
  from a(2) show "wp (ril_request_enter_sim_pin data sz token s) (handler_post token s)"
    by (rule string_values_cases)
      (use a(1) quiet_refl [of s] quiet_sim_pin(1) [of s] in \<open>auto simp: ril_request_enter_sim_pin_def Suc_le_length_iff
        intro!: wp_intro\<close>)
qed

interpretation enter_sim_puk: request_handler ril_request_enter_sim_puk "string_values 2"
proof
  fix token s data sz
  assume a: "handler_pre token s" "string_values 2 data sz"
  from a(2) show "wp (ril_request_enter_sim_puk data sz token s) (handler_post token s)"
    by (rule string_values_cases)
      (use a(1) quiet_refl [of s] quiet_sim_pin(1) [of s] in \<open>auto simp: ril_request_enter_sim_puk_def Suc_le_length_iff
        intro!: wp_intro\<close>)
qed

interpretation enter_sim_pin2: request_handler ril_request_enter_sim_pin2 "string_values 2"
proof
  fix token s data sz
  assume a: "handler_pre token s" "string_values 2 data sz"
  from a(2) show "wp (ril_request_enter_sim_pin2 data sz token s) (handler_post token s)"
    by (rule string_values_cases)
      (use a(1) quiet_refl [of s] quiet_sim_pin(1) [of s] in \<open>auto simp: ril_request_enter_sim_pin2_def Suc_le_length_iff
        intro!: wp_intro\<close>)
qed

interpretation enter_sim_puk2: request_handler ril_request_enter_sim_puk2 "string_values 2"
proof
  fix token s data sz
  assume a: "handler_pre token s" "string_values 2 data sz"
  from a(2) show "wp (ril_request_enter_sim_puk2 data sz token s) (handler_post token s)"
    by (rule string_values_cases)
      (use a(1) quiet_refl [of s] quiet_sim_pin(1) [of s] in \<open>auto simp: ril_request_enter_sim_puk2_def Suc_le_length_iff
        intro!: wp_intro\<close>)
qed

interpretation change_sim_pin: request_handler ril_request_change_sim_pin "string_values 3"
proof
  fix token s data sz
  assume a: "handler_pre token s" "string_values 3 data sz"
  from a(2) show "wp (ril_request_change_sim_pin data sz token s) (handler_post token s)"
    by (rule string_values_cases)
      (use a(1) quiet_refl [of s] quiet_sim_pin(1) [of s] in \<open>auto simp: ril_request_change_sim_pin_def 
        split: list.split intro!: wp_intro\<close>)
qed

interpretation change_sim_pin2: request_handler ril_request_change_sim_pin2 "string_values 3"
proof
  fix token s data sz
  assume a: "handler_pre token s" "string_values 3 data sz"
  from a(2) show "wp (ril_request_change_sim_pin2 data sz token s) (handler_post token s)"
    by (rule string_values_cases)
      (use a(1) quiet_refl [of s] quiet_sim_pin(1) [of s] in \<open>auto simp: ril_request_change_sim_pin2_def 
        split: list.split intro!: wp_intro\<close>)
qed

interpretation set_facility_lock: request_handler ril_request_set_facility_lock facility_values
proof
  fix token s data sz
  assume a: "handler_pre token s" "facility_values data sz"
  then have "string_values 4 data sz"
    by (simp add: facility_values_def)
  then show "wp (ril_request_set_facility_lock data sz token s) (handler_post token s)"
  proof (rule string_values_cases)
    fix v0 vs
    assume d: "data = Some (PStrings (v0 # vs))" "4 \<le> Suc (length vs)"
    then obtain v1 v2 rest where vs: "vs = v1 # v2 # rest"
      by (auto simp: numeral_eq_Suc Suc_le_length_iff)
    with d a show ?thesis
      using quiet_refl [of s]
      by (auto simp: ril_request_set_facility_lock_def facility_values_def Let_def intro!: wp_intro)
  qed (use a(1) quiet_refl [of s] in \<open>auto simp: ril_request_set_facility_lock_def intro!: wp_intro\<close>)
qed

definition sim_io_payload :: "payload option \<Rightarrow> nat \<Rightarrow> bool" where
  "sim_io_payload data sz = (case data of
      None \<Rightarrow> True
    | Some (PSimIo ints _ _ _ _) \<Rightarrow> length ints = 5
    | Some _ \<Rightarrow> sz < 36)"

lemma wp_sim_io_send [wp_intro]:
  assumes "quiet base s" and "handler_pre token base"
  shows "wp (sim_io_send c f p1 p2 p3 d pin2 token s) (handler_post token base)"
  using assms by (auto simp: sim_io_send_def Let_def split: option.split intro!: wp_intro)

interpretation sim_io: request_handler ril_request_sim_io sim_io_payload
proof
  fix token s data sz
  assume a: "handler_pre token s" "sim_io_payload data sz"
  show "wp (ril_request_sim_io data sz token s) (handler_post token s)"
  proof (cases "\<exists>ints path d pin2 aid. data = Some (PSimIo ints path d pin2 aid)")
    case True
    then obtain ints path d pin2 aid where data: "data = Some (PSimIo ints path d pin2 aid)"
      by blast
    then obtain i1 i2 i3 i4 i5 where ints: "ints = [i1, i2, i3, i4, i5]"
      using a(2) by (auto simp: sim_io_payload_def length_Suc_conv numeral_eq_Suc)
    show ?thesis
      using a(1) quiet_refl [of s] string2data_nonempty
      by (cases d) (auto simp: ril_request_sim_io_def data ints intro!: wp_intro)
  next
    case False
    then show ?thesis
      using a quiet_refl [of s]
      by (auto simp: ril_request_sim_io_def sim_io_payload_def split: option.splits payload.splits intro!: wp_intro)
  qed
qed

text \<open>The message handlers.\<close>

interpretation sec_pin_status_callback: message_handler ipc_sec_pin_status_callback any_message
proof
  fix s m
  assume "message_pre s"
  with quiet_refl [of s] show "wp (ipc_sec_pin_status_callback m s) (message_post (msg_aseq m) s)"
    by (auto simp: ipc_sec_pin_status_callback_def split: option.split intro!: wp_intro message_post_quiet)
qed

interpretation sec_phone_lock: message_handler ipc_sec_phone_lock any_message
proof
  fix s m
  assume "message_pre s"
  with quiet_refl [of s] show "wp (ipc_sec_phone_lock m s) (message_post (msg_aseq m) s)"
    by (auto simp: ipc_sec_phone_lock_def Let_def intro!: wp_intro message_post_quiet)
qed

interpretation sec_sim_icc_type: message_handler ipc_sec_sim_icc_type any_message
proof
  fix s m
  assume "message_pre s"
  with quiet_refl [of s] show "wp (ipc_sec_sim_icc_type m s) (message_post (msg_aseq m) s)"
    by (auto simp: ipc_sec_sim_icc_type_def intro!: message_post_quiet quiet_sim_pin)
qed

lemma completing_post_one:
  assumes "message_pre base" and "quiet base s" and "token \<in> tokens base"
  shows "wp (do {(_, s) \<leftarrow> ril_request_complete token error data sz s; Some (0, s)}) (completing_post base)"
  unfolding wp_bind using assms(3)
  by (intro wp_message_complete [OF assms(2,1)])
    (auto intro: completing_post_done [OF assms(2)] quiet_refl simp: quiet_tokens [OF assms(2)])

lemma wp_sec_callback_error:
  assumes "message_pre base" and "quiet base s" and "node_get (requests base) p = Some r"
  shows "wp (sec_callback_error p s) (completing_post base)"
  using assms completing_post_one [OF assms(1,2) tokens_get [OF assms(3)]]
  by (simp add: sec_callback_error_def quiet_def)

lemma wp_sec_callback_end:
  assumes "quiet base s" and "node_get (requests base) p = Some r"
  shows "wp (sec_callback_end p s) (completing_post base)"
proof -
  have "quiet base (snd (ril_request_unsolicited n d sz s))" for n d sz
    using assms(1) quiet_unsolicited quiet_trans by blast
  with assms show ?thesis
    by (auto simp: sec_callback_end_def quiet_def [of base s] completing_post_quiet split_beta)
qed

lemmas wp_sec_callback = wp_sec_callback_error wp_sec_callback_end

lemma gen_phone_res_data_length: "gen_phone_res_data bs = Some d \<Longrightarrow> 5 \<le> length bs"
  by (cases bs rule: gen_phone_res_data.cases) simp_all

lemma wp_sec_callback_tries:
  assumes "message_pre base" and "quiet base s" and "node_get (requests base) p = Some r"
    and "5 \<le> length (msg_data m)" and "stored_payload number = bytes_payload"
  shows "wp (sec_callback_tries p number pin m s) (completing_post base)"
  using assms by (auto simp: sec_callback_tries_def bytes_payload_def intro!: wp_intro wp_sec_callback)

definition sec_callback_safe :: "ipc_message \<Rightarrow> ril_world \<Rightarrow> bool" where
  "sec_callback_safe m s \<longleftrightarrow> (\<forall>p r. ril_request_find_token (ipc_fmt_request_token (msg_aseq m) s) s = Some p \<longrightarrow>
     node_get (requests s) p = Some r \<longrightarrow>
     rq_request r \<in> {RIL_REQUEST_ENTER_SIM_PIN, RIL_REQUEST_CHANGE_SIM_PIN, RIL_REQUEST_ENTER_SIM_PIN2,
       RIL_REQUEST_CHANGE_SIM_PIN2, RIL_REQUEST_SET_FACILITY_LOCK, RIL_REQUEST_SIM_IO} \<and>
     (rq_request r = RIL_REQUEST_SET_FACILITY_LOCK \<longrightarrow> (\<exists>v vs. rq_data r = Some (PStrings (v # vs)))))"

lemma wp_sec_callback_facility:
  assumes "message_pre s" and "node_get (requests s) p = Some r" and "5 \<le> length (msg_data m)"
    and "\<exists>v vs. rq_data r = Some (PStrings (v # vs))"
  shows "wp (sec_callback_facility p r data m s) (completing_post s)"
  using assms(1,3,4) quiet_refl [of s] message_pre_inv [OF assms(1)]
  by (auto simp: sec_callback_facility_def Let_def bytes_payload_def split: payload.splits
    intro!: wp_intro wp_sec_callback_error [OF assms(1) _ assms(2)] wp_sec_callback_end [OF _ assms(2)]
      wp_sec_callback_tries [OF assms(1) _ assms(2)])

lemma wp_sec_callback_sim_io:
  assumes "message_pre s" and "node_get (requests s) p = Some r"
  shows "wp (sec_callback_sim_io p r data m s) (completing_post s)"
  using assms(1) quiet_refl [of s] message_pre_inv [OF assms(1)]
    completing_post_one [OF assms(1) _ tokens_get [OF assms(2)], unfolded wp_bind]
  by (auto simp: sec_callback_sim_io_def Let_def bytes_payload_def split: option.splits payload.splits
    intro!: wp_intro wp_sec_callback_error [OF assms(1) _ assms(2)] wp_sec_callback_end [OF _ assms(2)])

interpretation sec_callback: completing_handler ipc_sec_callback sec_callback_safe
proof
  fix s m
  assume pre: "message_pre s" and safe: "sec_callback_safe m s"
  show "wp (ipc_sec_callback m s) (completing_post s)"
  proof (cases "gen_phone_res_data (msg_data m)")
    case (Some data)
    note len = gen_phone_res_data_length [OF Some]
    show ?thesis
    proof (cases "ril_request_find_token (ipc_fmt_request_token (msg_aseq m) s) s")
      case (Some p)
      then obtain r where r: "node_get (requests s) p = Some r"
        by (auto simp: ril_request_find_token_def dest: node_find_Some_get_ex split: if_splits)
      then have "rq_request r \<in> {RIL_REQUEST_ENTER_SIM_PIN, RIL_REQUEST_CHANGE_SIM_PIN, RIL_REQUEST_ENTER_SIM_PIN2,
          RIL_REQUEST_CHANGE_SIM_PIN2, RIL_REQUEST_SET_FACILITY_LOCK, RIL_REQUEST_SIM_IO}"
        and "rq_request r = RIL_REQUEST_SET_FACILITY_LOCK \<Longrightarrow> \<exists>v vs. rq_data r = Some (PStrings (v # vs))"
        using safe Some by (auto simp: sec_callback_safe_def)
      with \<open>gen_phone_res_data (msg_data m) = Some data\<close> Some r show ?thesis
        by (auto simp: ipc_sec_callback_def intro!: wp_sec_callback_tries [OF pre quiet_refl r len]
          wp_sec_callback_facility [OF pre r len] wp_sec_callback_sim_io [OF pre r])
    qed (use Some quiet_refl [of s] in \<open>auto simp: ipc_sec_callback_def completing_post_quiet\<close>)
  qed (use quiet_refl [of s] in \<open>auto simp: ipc_sec_callback_def completing_post_quiet\<close>)
qed

lemma kept_response_bytes:
  "ril_inv s \<Longrightarrow> \<forall>n \<in> set ns. stored_payload n = bytes_payload \<Longrightarrow>
   quiet s (snd (kept_response ns s)) \<and>
   (\<forall>d. fst (kept_response ns s) = Some d \<longrightarrow> (\<exists>bs. d = PBytes bs \<and> 5 \<le> length bs))"
proof (induction ns s rule: kept_response.induct)
  case (2 number numbers s)
  have q: "quiet s (snd (ril_request_data_get number s))"
    by (rule quiet_data_get)
  then have inv: "ril_inv (snd (ril_request_data_get number s))"
    using "2.prems"(1) by (simp add: quiet_def)
  have b: "bytes_payload (fst (ril_request_data_get number s)) (ril_request_data_size_get number s)"
    using data_get_bytes [OF "2.prems"(1), of number] "2.prems"(2) by simp
  show ?case
  proof (cases "ril_request_data_size_get number s < 5 \<or> fst (ril_request_data_get number s) = None")
    case True
    with 2 q inv quiet_trans [OF q] show ?thesis
      by (cases "ril_request_data_get number s") auto
  next
    case False
    with q b show ?thesis
      by (cases "ril_request_data_get number s") (auto dest: bytes_payload_PBytes)
  qed
qed (simp add: quiet_refl)

interpretation sec_lock_infomation: message_handler ipc_sec_lock_infomation any_message
proof
  fix s m
  assume pre: "message_pre s"
  let ?ns = "[RIL_REQUEST_ENTER_SIM_PIN, RIL_REQUEST_CHANGE_SIM_PIN, RIL_REQUEST_ENTER_SIM_PIN2,
    RIL_REQUEST_CHANGE_SIM_PIN2, RIL_REQUEST_SET_FACILITY_LOCK]"
  obtain d t where k: "kept_response ?ns s = (d, t)"
    by (cases "kept_response ?ns s")
  have "quiet s t" and d: "\<And>x. d = Some x \<Longrightarrow> \<exists>bs. x = PBytes bs \<and> 5 \<le> length bs"
    using kept_response_bytes [OF message_pre_inv [OF pre], of ?ns] k by simp_all
  moreover have "\<exists>g. gen_phone_res_data bs = Some g" if "d = Some (PBytes bs)" for bs
    using d [OF that] gen_phone_res_data_Some by blast
  ultimately show "wp (ipc_sec_lock_infomation m s) (message_post (msg_aseq m) s)"
    using pre k quiet_refl [of s]
    by (cases d) (fastforce simp: ipc_sec_lock_infomation_def Let_def simp del: kept_response.simps split: prod.split
      intro!: wp_intro message_post_quiet)+
qed

text \<open>A request for a file is a complete \<open>RIL_SIM_IO_v6\<close>, and an answer in USIM format has a file identifier in front of its
  end.\<close>

definition rsim_safe :: "ipc_message \<Rightarrow> ril_world \<Rightarrow> bool" where
  "rsim_safe m s \<longleftrightarrow> (\<forall>p r. ril_request_find_token (ipc_fmt_request_token (msg_aseq m) s) s = Some p \<longrightarrow>
     node_get (requests s) p = Some r \<longrightarrow> rq_data r \<noteq> None \<longrightarrow> 36 \<le> rq_size r \<longrightarrow>
     (\<exists>command fileid rest path d pin2 aid. rq_data r = Some (PSimIo (command # fileid # rest) path d pin2 aid) \<and>
       rsim_response command fileid (sim_icc_type s) (msg_data m) \<noteq> None))"

interpretation sec_rsim_access: message_handler ipc_sec_rsim_access rsim_safe
proof
  fix s m
  assume pre: "message_pre s" and safe: "rsim_safe m s"
  show "wp (ipc_sec_rsim_access m s) (message_post (msg_aseq m) s)"
  proof (cases "ril_request_find_token (ipc_fmt_request_token (msg_aseq m) s) s")
    case (Some p)
    then obtain r where r: "node_get (requests s) p = Some r"
      by (auto simp: ril_request_find_token_def dest: node_find_Some_get_ex split: if_splits)
    show ?thesis
    proof (cases "rq_data r = None \<or> rq_size r < 36")
      case True
      then show ?thesis
        using Some r quiet_refl [of s] by (auto simp: ipc_sec_rsim_access_def Let_def intro!: message_post_quiet)
    next
      case False
      with safe Some r obtain command fileid rest path d pin2 aid simResponse where
        "rq_data r = Some (PSimIo (command # fileid # rest) path d pin2 aid)" "36 \<le> rq_size r"
        "rsim_response command fileid (sim_icc_type s) (msg_data m) = Some simResponse"
        by (fastforce simp: rsim_safe_def)
      then show ?thesis
        using Some r pre quiet_refl [of s]
        by (auto simp: ipc_sec_rsim_access_def Let_def intro!: wp_intro message_post_quiet)
    qed
  qed (use quiet_refl [of s] in \<open>auto simp: ipc_sec_rsim_access_def Let_def intro!: message_post_quiet\<close>)
qed

lemma pin_status_state:
  "fst (ipc2ril_sec_pin_status_response status lock) \<in> {RADIO_STATE_SIM_NOT_READY, RADIO_STATE_SIM_READY, RADIO_STATE_SIM_LOCKED_OR_ABSENT}"
  by (simp add: ipc2ril_sec_pin_status_response_def Let_def)

interpretation sec_pin_status: safe_handler ipc_sec_pin_status any_message
proof
  fix s and m :: ipc_message
  assume pre: "message_pre s"
  obtain state card where c: "ipc2ril_sec_pin_status_response (msg_data m ! 0) (msg_data m ! 1) = (state, card)"
    by (cases "ipc2ril_sec_pin_status_response (msg_data m ! 0) (msg_data m ! 1)")
  have len: "bytes_payload (Some (PBytes (card_status_bytes card))) 280"
    using arg_cong [OF c, of "\<lambda>x. length (cs_applications (snd x))"] by (simp add: bytes_payload_def)
  have "state \<in> {RADIO_STATE_SIM_NOT_READY, RADIO_STATE_SIM_READY, RADIO_STATE_SIM_LOCKED_OR_ABSENT}"
    using pin_status_state [of "msg_data m ! 0" "msg_data m ! 1"] c by simp
  then obtain t where t: "ril_radio_state_update state s = Some (0, t)" "safe_post s 0 t"
    using radio_state_update_up [OF pre, of state] by (auto simp: radio_state_defs)
  have pre_t: "message_pre t"
    using t(2) by (simp add: safe_post_def)
  have done_t: "wp (message_complete (msg_aseq m) e d n t) (safe_post s)" for e d n
    using wp_message_complete_post [OF quiet_refl pre_t] message_post_safe [OF pre_t]
    by (blast intro: wp_safe_trans [OF t(2)] wp_mono)
  have stored: "wp (do {
      (_, s) \<leftarrow> ril_request_data_set_uniq RIL_REQUEST_GET_SIM_STATUS (Some (PBytes (card_status_bytes card))) 280 t;
      (_, s) \<leftarrow> Some (ril_request_unsolicited RIL_UNSOL_RESPONSE_SIM_STATUS_CHANGED RNull 0 s);
      Some (0, s)}) (safe_post s)"
    by (rule wp_safe_trans [OF t(2)])
      (use len quiet_refl [of t] in \<open>auto intro!: wp_intro safe_post_quiet [OF pre_t]\<close>)
  show "wp (ipc_sec_pin_status m s) (safe_post s)"
    using c t done_t stored len quiet_refl [of s]
    by (auto simp: ipc_sec_pin_status_def Let_def intro!: wp_intro safe_post_quiet [OF pre])
qed

subsection \<open>Properties\<close>

lemma data_get_twice:
  assumes "ril_inv s" and "ril_data_alive s"
  shows "ril_request_data_get request (data_fetched request s) = (None, data_fetched request s)"
proof -
  have "node_find (\<lambda>d. rd_request d = request) (filter (\<lambda>n. rd_request (snd n) \<noteq> request) (requests_data s)) = None"
    by (auto simp: node_find_None)
  then show ?thesis
    by (simp add: ril_request_data_get_def ril_request_data_find_request_def data_fetched_def)
qed

lemma pin_status_reached:
  "state \<in> {RADIO_STATE_SIM_NOT_READY, RADIO_STATE_SIM_READY, RADIO_STATE_SIM_LOCKED_OR_ABSENT} \<Longrightarrow> ril_data_alive s \<Longrightarrow>
   radio_state s = state \<Longrightarrow> ril_radio_state_check RADIO_STATE_SIM_NOT_READY s = 0"
  by (auto simp: ril_radio_state_check_def radio_states_def radio_state_defs)

lemma get_sim_status_stored:
  assumes "ril_inv t" and "ril_data_alive t" and "env_complete t" and "token \<noteq> 0"
    and "ril_radio_state_check RADIO_STATE_SIM_NOT_READY t = 0"
    and "ril_request_find_request_status RIL_REQUEST_GET_SIM_STATUS RIL_REQUEST_HANDLED t = None"
  shows "ril_request_get_sim_status data sz token (data_stored RIL_REQUEST_GET_SIM_STATUS (PBytes bytes) 280 t) =
    Some (RIL_REQUEST_COMPLETED, (emit (Complete token RIL_E_SUCCESS (RBytes bytes) 280)
      (remove_token token (data_fetched RIL_REQUEST_GET_SIM_STATUS t)))\<lparr>loop_locked := False\<rparr>)"
proof -
  let ?s = "data_stored RIL_REQUEST_GET_SIM_STATUS (PBytes bytes) 280 t"
  let ?t = "data_fetched RIL_REQUEST_GET_SIM_STATUS t"
  have "ril_radio_state_check RADIO_STATE_SIM_NOT_READY ?s = 0"
    and "ril_request_find_request_status RIL_REQUEST_GET_SIM_STATUS RIL_REQUEST_HANDLED ?s = None"
    using assms(2,5,6) radio_state_check_frame [of ?s t] by (simp_all add: data_stored_def ril_request_find_request_status_def)
  moreover have "ril_inv ?t" and "ril_data_alive ?t" and "env_complete ?t"
    using data_fetched_inv [OF assms(1)] assms(2,3) by (simp_all add: data_fetched_def)
  ultimately show ?thesis
    using data_get_eq [OF assms(1,2), of RIL_REQUEST_GET_SIM_STATUS] data_get_twice [OF assms(1,2)]
      ril_request_complete_eq [of ?t token] assms(4)
    by (simp add: ril_request_get_sim_status_def payload_response_def)
qed

text \<open>C25. The status of the SIM reaches the framework. When the modem notifies a PIN status and no PIN is stored, the radio
  state becomes the one that the status stands for, the framework is told that the SIM status (and the radio state, if it
  changed) is new, and the next request for the SIM status is completed at once, exactly once and without a message to the modem,
  with the card status that the notification translates to.\<close>

theorem sim_status_delivered:
  assumes "message_pre s" and "env_unsolicited s" and "sim_pin s = None"
    and "ril_radio_state_check RADIO_STATE_SIM_NOT_READY s = 0"
    and "2 \<le> length (msg_data m)" and "msg_type m \<noteq> IPC_TYPE_RESP"
    and "ipc2ril_sec_pin_status_response (msg_data m ! 0) (msg_data m ! 1) = (state, card_status)"
    and "\<forall>n \<in> set (requests s). \<not> (rq_request (snd n) = RIL_REQUEST_GET_SIM_STATUS \<and> rq_status (snd n) = RIL_REQUEST_HANDLED)"
    and "token \<noteq> 0"
  shows "\<exists>s1 s2. ipc_sec_pin_status m s = Some (0, s1) \<and> radio_state s1 = state \<and>
    trace s1 = trace s @ (if radio_state s \<noteq> state then [Unsol RIL_UNSOL_RESPONSE_RADIO_STATE_CHANGED RNull 0] else []) @
      [Unsol RIL_UNSOL_RESPONSE_SIM_STATUS_CHANGED RNull 0] \<and>
    ril_request_get_sim_status data sz token s1 = Some (RIL_REQUEST_COMPLETED, s2) \<and>
    trace s2 = trace s1 @ [Complete token RIL_E_SUCCESS (RBytes (card_status_bytes card_status)) 280]"
proof -
  let ?bytes = "card_status_bytes card_status"
  have st: "state \<in> {RADIO_STATE_SIM_NOT_READY, RADIO_STATE_SIM_READY, RADIO_STATE_SIM_LOCKED_OR_ABSENT}"
    using pin_status_state [of "msg_data m ! 0" "msg_data m ! 1"] assms(7) by simp
  then obtain t where t: "ril_radio_state_update state s = Some (0, t)" "safe_post s 0 t" "radio_state t = state"
      "requests t = requests s" "env_unsolicited t"
      "trace t = trace s @ (if radio_state s \<noteq> state then [Unsol RIL_UNSOL_RESPONSE_RADIO_STATE_CHANGED RNull 0] else [])"
    using radio_state_update_up [OF assms(1), of state] assms(2) by (auto simp: radio_state_defs)
  have pre: "ril_inv t" "ril_data_alive t" "env_complete t"
    using t(2) by (simp_all add: safe_post_def message_pre_def)
  have "length ?bytes = 280"
    using arg_cong [OF assms(7), of "\<lambda>x. length (cs_applications (snd x))"] by simp
  then have copy: "payload_copy 280 (PBytes ?bytes) = Some (PBytes ?bytes)"
    by (simp add: payload_copy_def payload_size_def)
  let ?t1 = "emit (Unsol RIL_UNSOL_RESPONSE_SIM_STATUS_CHANGED RNull 0) t"
  let ?s1 = "data_stored RIL_REQUEST_GET_SIM_STATUS (PBytes ?bytes) 280 ?t1"
  have s1: "ipc_sec_pin_status m s = Some (0, ?s1)"
    using assms(3-7) st t(1,5) pre data_set_uniq_eq [OF pre(1,2) _ copy, of RIL_REQUEST_GET_SIM_STATUS]
    by (auto simp: ipc_sec_pin_status_def Let_def radio_state_defs ril_request_unsolicited_def data_stored_emit)
  have "ril_radio_state_check RADIO_STATE_SIM_NOT_READY ?t1 = 0"
    using pin_status_reached [OF st] t(3) pre by simp
  moreover have "ril_request_find_request_status RIL_REQUEST_GET_SIM_STATUS RIL_REQUEST_HANDLED ?t1 = None"
    using assms(8) t(4) by (auto simp: ril_request_find_request_status_def node_find_None)
  ultimately have "ril_request_get_sim_status data sz token ?s1 = Some (RIL_REQUEST_COMPLETED,
      (emit (Complete token RIL_E_SUCCESS (RBytes ?bytes) 280)
        (remove_token token (data_fetched RIL_REQUEST_GET_SIM_STATUS ?t1)))\<lparr>loop_locked := False\<rparr>)"
    using get_sim_status_stored [of ?t1 token] pre assms(9) by simp
  with s1 t show ?thesis
    by (auto simp: data_stored_def data_fetched_def)
qed

theorem sim_status_delivered_witness:
  "\<exists>s1 s2. ipc_sec_pin_status
      \<lparr>msg_mseq = 0, msg_aseq = 0xff, msg_command = IPC_SEC_PIN_STATUS, msg_type = 3, msg_data = [0x82, 0]\<rparr>
      ((initial_world [])\<lparr>ril_data_alive := True, env_complete := True, env_unsolicited := True,
        radio_state := RADIO_STATE_SIM_NOT_READY\<rparr>) = Some (0, s1) \<and> radio_state s1 = RADIO_STATE_SIM_READY \<and>
    ril_request_get_sim_status None 0 7 s1 = Some (RIL_REQUEST_COMPLETED, s2)"
  using sim_status_delivered [of "(initial_world [])\<lparr>ril_data_alive := True, env_complete := True, env_unsolicited := True,
        radio_state := RADIO_STATE_SIM_NOT_READY\<rparr>"
      "\<lparr>msg_mseq = 0, msg_aseq = 0xff, msg_command = IPC_SEC_PIN_STATUS, msg_type = 3, msg_data = [0x82, 0]\<rparr>"
      RADIO_STATE_SIM_READY "snd (ipc2ril_sec_pin_status_response 0x82 0)" 7 None 0]
  by (auto simp: message_pre_def ril_inv_def initial_world_def ril_radio_state_check_def radio_states_def radio_state_defs
    ipc2ril_sec_pin_status_response_def pin_status_index_def sec_status_defs IPC_TYPE_RESP_def Let_def)

lemma node_get_filter_token:
  assumes "distinct (map fst ns)" and "node_get ns p = Some r"
  shows "node_get (filter (\<lambda>n. rq_token (snd n) \<noteq> rq_token r) ns) p = None"
proof -
  have "(p, r') \<notin> set (filter (\<lambda>n. rq_token (snd n) \<noteq> rq_token r) ns)" for r'
    using eq_key_imp_eq_value [OF assms(1) map_of_SomeD [OF assms(2)], of r'] by auto
  then show ?thesis
    by (meson map_of_SomeD not_Some_eq)
qed

text \<open>The answer to a PUK is use after free. The callback for the answer of the modem to a request that is neither a PIN entry
  or change, nor a facility lock, nor a file access completes the request, which unlinks and frees it, and then reads the
  request number through the freed pointer. So entering a PUK (or a PUK2) is undefined behaviour whatever the modem
  answers.\<close>

theorem sec_callback_use_after_free:
  assumes "message_pre s" and "gen_phone_res_data (msg_data m) = Some d"
    and "ril_request_find_token (ipc_fmt_request_token (msg_aseq m) s) s = Some p" and "ipc_fmt_request_token (msg_aseq m) s \<noteq> 0"
    and "node_get (requests s) p = Some r"
    and "rq_request r \<notin> {RIL_REQUEST_ENTER_SIM_PIN, RIL_REQUEST_CHANGE_SIM_PIN, RIL_REQUEST_ENTER_SIM_PIN2,
      RIL_REQUEST_CHANGE_SIM_PIN2, RIL_REQUEST_SET_FACILITY_LOCK, RIL_REQUEST_SIM_IO}"
  shows "ipc_sec_callback m s = None"
proof -
  have inv: "ril_inv s" "ril_data_alive s" "env_complete s" and ds: "distinct (map fst (requests s))"
    using assms(1) by (simp_all add: message_pre_def ril_inv_def nodes_ok_def)
  have "node_find (\<lambda>r. rq_token r = ipc_fmt_request_token (msg_aseq m) s) (requests s) = Some p"
    using assms(3) inv by (simp add: ril_request_find_token_def)
  from node_find_Some_get [OF ds this] have "rq_token r = ipc_fmt_request_token (msg_aseq m) s"
    using assms(5) by auto
  then show ?thesis
    using assms inv node_get_filter_token [OF ds assms(5)] ril_request_complete_eq [OF inv assms(4)]
    by (simp add: ipc_sec_callback_def sec_callback_other_def sec_callback_end_def split: prod.split)
qed

theorem sec_callback_use_after_free_witness:
  "ipc_sec_callback
      \<lparr>msg_mseq = 0, msg_aseq = 5, msg_command = IPC_GEN_PHONE_RES, msg_type = 2, msg_data = [5, 1, 3, 0, 0x80]\<rparr>
      ((initial_world [])\<lparr>ril_data_alive := True, env_complete := True, fmt_data := True, next_addr := 3,
        requests := [(1, \<lparr>rq_request = RIL_REQUEST_ENTER_SIM_PUK, rq_data = None, rq_size = 0, rq_token = 7, rq_status = 1\<rparr>)],
        fmt_requests := [(2, \<lparr>fr_request = RIL_REQUEST_ENTER_SIM_PUK, fr_token = 7, fr_seq = 5\<rparr>)]\<rparr>) = None"
  using sec_callback_use_after_free [of "(initial_world [])\<lparr>ril_data_alive := True, env_complete := True, fmt_data := True,
        next_addr := 3,
        requests := [(1, \<lparr>rq_request = RIL_REQUEST_ENTER_SIM_PUK, rq_data = None, rq_size = 0, rq_token = 7, rq_status = 1\<rparr>)],
        fmt_requests := [(2, \<lparr>fr_request = RIL_REQUEST_ENTER_SIM_PUK, fr_token = 7, fr_seq = 5\<rparr>)]\<rparr>"
      "\<lparr>msg_mseq = 0, msg_aseq = 5, msg_command = IPC_GEN_PHONE_RES, msg_type = 2, msg_data = [5, 1, 3, 0, 0x80]\<rparr>"
      "\<lparr>gp_group = 5, gp_index = 1, gp_type = 3, gp_code = 0x8000\<rparr>" 1
      "\<lparr>rq_request = RIL_REQUEST_ENTER_SIM_PUK, rq_data = None, rq_size = 0, rq_token = 7, rq_status = 1\<rparr>"]
  by (auto simp: message_pre_def ril_inv_def nodes_ok_def fmt_mirror_def ipc_fmt_request_token_def
    ipc_fmt_request_find_seq_def ril_request_find_token_def le16_def initial_world_def request_number_defs)

lemma gen_phone_res_data_take: "5 \<le> length bs \<Longrightarrow> gen_phone_res_data (take 5 bs) = gen_phone_res_data bs"
  by (cases bs rule: gen_phone_res_data.cases) simp_all

lemma fmt_request_token_frame:
  "fmt_data t = fmt_data s \<Longrightarrow> fmt_requests t = fmt_requests s \<Longrightarrow> ipc_fmt_request_token q t = ipc_fmt_request_token q s"
  by (simp add: ipc_fmt_request_token_def ipc_fmt_request_find_seq_def split: option.split)

text \<open>C26. A PIN entry is answered with the tries that are left. When the modem answers an outstanding PIN entry, the RIL
  keeps the answer and asks for the lock information under the same sequence number; the lock information then completes the
  request, once, with success, a wrong password (with no tries left when the code says so) or a generic failure according
  to the kept answer, and with the number of tries that the modem reports.\<close>

theorem pin_entry_outcome:
  assumes "message_pre s" and "fmt_ready s" and "ril_radio_state_check RADIO_STATE_SIM_NOT_READY s = 0"
    and "ipc_fmt_request_token (msg_aseq m) s = token" and "token \<noteq> 0"
    and "ril_request_find_token token s = Some p" and "node_get (requests s) p = Some r"
    and "rq_request r = RIL_REQUEST_ENTER_SIM_PIN" and "gen_phone_res_data (msg_data m) = Some d"
    and "msg_aseq m' = msg_aseq m" and "ipc_seq_valid (msg_aseq m)" and "msg_type m' = IPC_TYPE_RESP"
    and "msg_data m' = [x, IPC_SEC_PIN_TYPE_PIN1, key, tries]"
  shows "\<exists>s1 s2. ipc_sec_callback m s = Some (0, s1) \<and> requests s1 = requests s \<and>
    trace s1 = trace s @ [Sent (msg_aseq m) IPC_SEC_LOCK_INFOMATION IPC_TYPE_GET [1, IPC_SEC_PIN_TYPE_PIN1]] \<and>
    ipc_sec_lock_infomation m' s1 = Some (0, s2) \<and>
    requests s2 = filter (\<lambda>n. rq_token (snd n) \<noteq> token) (requests s) \<and>
    trace s2 = trace s1 @ [if gp_code d AND 0x8000 \<noteq> 0 then Complete token RIL_E_SUCCESS (RInt (uint tries)) 4
      else if gp_code d AND 0xff = 0x10 then Complete token RIL_E_PASSWORD_INCORRECT (RInt (uint tries)) 4
      else if gp_code d AND 0xff = 0x0c then Complete token RIL_E_PASSWORD_INCORRECT (RInt 0) 4
      else Complete token RIL_E_GENERIC_FAILURE (RInt (uint tries)) 4]"
proof -
  let ?n = RIL_REQUEST_ENTER_SIM_PIN and ?kept = "take 5 (msg_data m)"
  let ?t = "data_stored ?n (PBytes ?kept) 5 s"
  let ?s1 = "emit (Sent (msg_aseq m) IPC_SEC_LOCK_INFOMATION IPC_TYPE_GET [1, IPC_SEC_PIN_TYPE_PIN1]) (io_next ?t)"
  let ?s1' = "?s1\<lparr>requests_data := filter (\<lambda>n. rd_request (snd n) \<noteq> ?n) (requests_data s)\<rparr>"
  have inv: "ril_inv s" "ril_data_alive s" "env_complete s"
    using assms(1) by (simp_all add: message_pre_def)
  have len: "5 \<le> length (msg_data m)"
    using assms(9) by (rule gen_phone_res_data_length)
  then have "payload_copy 5 (PBytes ?kept) = Some (PBytes ?kept)"
    by (simp add: payload_copy_def payload_size_def)
  moreover have "fmt_ready ?t"
    using assms(2) by (simp add: fmt_ready_def data_stored_def io_result_def)
  ultimately have s1: "ipc_sec_callback m s = Some (0, ?s1)"
    using assms(4-9) data_set_uniq_eq [OF inv(1,2), of 5 "PBytes ?kept" "PBytes ?kept" ?n]
    by (simp add: ipc_sec_callback_def sec_callback_tries_def sec_callback_end_def ipc_fmt_send_eq
      ipc_sec_lock_infomation_setup_def request_number_defs data_stored_def)
  have get: "ril_request_data_size_get ?n ?s1 = 5" "ril_request_data_get ?n ?s1 = (Some (PBytes ?kept), ?s1')"
    using data_get_stored [OF inv(1), of ?s1 ?n "PBytes ?kept" 5] inv(2) by (simp_all add: data_stored_def)
  have inv': "ril_inv ?s1'" "ril_data_alive ?s1'" "env_complete ?s1'"
    using data_fetched_inv [OF inv(1), of ?n] inv by (simp_all add: data_fetched_def data_stored_def ril_inv_def)
  have "ipc_fmt_request_token (msg_aseq m) ?s1' = token"
    using assms(4) fmt_request_token_frame [of ?s1' s] by (simp add: data_stored_def)
  then have "message_complete (msg_aseq m) e x n ?s1' =
      Some (0, (emit (Complete token e x n) (remove_token token ?s1'))\<lparr>loop_locked := False\<rparr>)" for e x n
    using ril_request_complete_eq [OF inv' assms(5)] by (simp add: message_complete_def)
  moreover have "ril_radio_state_check RADIO_STATE_SIM_NOT_READY ?s1 = 0"
    using assms(3) radio_state_check_frame [of ?s1 s] by (simp add: data_stored_def)
  ultimately have "ipc_sec_lock_infomation m' ?s1 = Some (0, (emit (Complete token (fst (sec_result d (uint tries)))
      (RInt (snd (sec_result d (uint tries)))) 4) (remove_token token ?s1'))\<lparr>loop_locked := False\<rparr>)"
    using assms(9-13) get len
    by (simp add: ipc_sec_lock_infomation_def gen_phone_res_data_take split_beta)
  with s1 show ?thesis
    by (auto simp: data_stored_def sec_result_def ipc_gen_phone_res_check_def split: if_splits)
qed

definition sim_world :: ril_world where
  "sim_world = (initial_world [])\<lparr>ril_data_alive := True, env_complete := True, fmt_data := True, fmt_ipc_client := True,
     fmt_available := True, radio_state := RADIO_STATE_SIM_LOCKED_OR_ABSENT, next_addr := 3,
     requests := [(1, \<lparr>rq_request = RIL_REQUEST_ENTER_SIM_PIN, rq_data = None, rq_size = 0, rq_token = 7, rq_status = 1\<rparr>)],
     fmt_requests := [(2, \<lparr>fr_request = RIL_REQUEST_ENTER_SIM_PIN, fr_token = 7, fr_seq = 5\<rparr>)]\<rparr>"

theorem pin_entry_outcome_witness:
  "\<exists>s1 s2. ipc_sec_callback
      \<lparr>msg_mseq = 0, msg_aseq = 5, msg_command = IPC_GEN_PHONE_RES, msg_type = 2, msg_data = [5, 1, 3, 0x10, 0]\<rparr> sim_world =
      Some (0, s1) \<and>
    ipc_sec_lock_infomation \<lparr>msg_mseq = 0, msg_aseq = 5, msg_command = IPC_SEC_LOCK_INFOMATION, msg_type = 2,
      msg_data = [0, 3, 0, 2]\<rparr> s1 = Some (0, s2) \<and> trace s2 = trace s1 @ [Complete 7 RIL_E_PASSWORD_INCORRECT (RInt 2) 4]"
proof -
  have "message_pre sim_world" and "fmt_ready sim_world"
    and "ril_radio_state_check RADIO_STATE_SIM_NOT_READY sim_world = 0"
    and "ipc_fmt_request_token 5 sim_world = 7" and "ril_request_find_token 7 sim_world = Some 1"
    by (simp_all add: sim_world_def message_pre_def ril_inv_def nodes_ok_def fmt_mirror_def fmt_ready_def io_result_def
      ril_radio_state_check_def radio_states_def radio_state_defs ipc_fmt_request_token_def ipc_fmt_request_find_seq_def
      ril_request_find_token_def initial_world_def)
  with pin_entry_outcome [of sim_world
      "\<lparr>msg_mseq = 0, msg_aseq = 5, msg_command = IPC_GEN_PHONE_RES, msg_type = 2, msg_data = [5, 1, 3, 0x10, 0]\<rparr>" 7 1
      "\<lparr>rq_request = RIL_REQUEST_ENTER_SIM_PIN, rq_data = None, rq_size = 0, rq_token = 7, rq_status = 1\<rparr>"
      "\<lparr>gp_group = 5, gp_index = 1, gp_type = 3, gp_code = 0x10\<rparr>"
      "\<lparr>msg_mseq = 0, msg_aseq = 5, msg_command = IPC_SEC_LOCK_INFOMATION, msg_type = 2, msg_data = [0, 3, 0, 2]\<rparr>" 0 0 2]
  show ?thesis
    by (auto simp: sim_world_def le16_def ipc_seq_valid_def IPC_TYPE_RESP_def IPC_SEC_PIN_TYPE_PIN1_def)
qed

lemma usim_scan_last:
  "h ! k = 0x88 \<Longrightarrow> 2 < k \<Longrightarrow> k \<le> n \<Longrightarrow> \<forall>j. k < j \<and> j \<le> n \<longrightarrow> h ! j \<noteq> 0x88 \<Longrightarrow> usim_scan h n = k - 2"
proof (induction h n rule: usim_scan.induct)
  case (1 h n)
  show ?case
  proof (cases "n = k")
    case False
    then have "k \<le> n - 1" and "\<forall>j. k < j \<and> j \<le> n - 1 \<longrightarrow> h ! j \<noteq> 0x88" and "h ! n \<noteq> 0x88"
      using "1.prems" by auto
    with 1 show ?thesis
      by (subst usim_scan.simps) auto
  qed (use "1.prems" in \<open>simp add: usim_scan.simps [of h k]\<close>)
qed

text \<open>C27. File information of a USIM card is translated to the SIM format. Within an answer that holds its file identifier,
  the file size that is reported is the two bytes before the last byte 0x88 of the answer, the type is that of the table of
  files, the structure and the record length are those of the header; the reads stay inside the answer.\<close>

theorem usim_response_translated:
  assumes "off = unat (h ! 3)" and "2 \<le> off" and "8 + off \<le> length h"
    and "4 < k" and "k + 1 < length h" and "h ! k = 0x88" and "\<forall>j. k < j \<and> j + 1 < length h \<longrightarrow> h ! j \<noteq> 0x88"
  shows "usim_file_response fileid h = Some (data2string
    [0, 0, h ! (k - 2), h ! (k - 1), h ! (off - 2), h ! (off - 1), sim_file_type fileid, 0, 0, 0xff, 0xff, 1, 2,
     (if h ! 6 = IPC_SEC_RSIM_FILE_STRUCTURE_TRANSPARENT then SIM_FILE_STRUCTURE_TRANSPARENT
      else SIM_FILE_STRUCTURE_LINEAR_FIXED), h ! 7])"
proof -
  have "usim_scan h (length h - 2) = k - 2"
    using assms(4-7) by (intro usim_scan_last) auto
  moreover have "Suc (k - 2) = k - 1" and "\<not> k - 2 \<le> 2"
    using assms(4) by simp_all
  ultimately show ?thesis
    using assms(1-4) by (simp add: usim_file_response_def Let_def)
qed

theorem usim_response_translated_witness:
  "usim_file_response 0x6F07 [0x62, 0x0a, 0x82, 0x02, 0x41, 0x21, 0x83, 0x09, 0x80, 0x01, 0x00, 0x09, 0x88, 0x00] =
    Some (data2string [0, 0, 0x00, 0x09, 0x62, 0x0a, SIM_FILE_TYPE_EF, 0, 0, 0xff, 0xff, 1, 2, SIM_FILE_STRUCTURE_TRANSPARENT, 9])"
proof -
  let ?h = "[0x62, 0x0a, 0x82, 0x02, 0x41, 0x21, 0x83, 0x09, 0x80, 0x01, 0x00, 0x09, 0x88, 0x00] :: u8 list"
  have "\<forall>j. 12 < j \<and> j + 1 < length ?h \<longrightarrow> ?h ! j \<noteq> 0x88"
    by (intro allI impI) simp
  then show ?thesis
    using usim_response_translated [of 2 ?h 12 "0x6F07"]
    by (simp add: sim_file_type_def sim_file_ids_def IPC_SEC_RSIM_FILE_STRUCTURE_TRANSPARENT_def)
qed

end
