(* ===== verification/Ril_Data.thy ===== *)
theory Ril_Data
  imports Ril_Call
begin

section \<open>samsung-ril: data.c\<close>

text \<open>
  Packet data: the handlers for setting up, listing and ending data calls and the handlers of the modem's GPRS messages,
  over the connection list of theory \<open>Ril_Radio\<close>. Setting up a call takes four steps that messages of
  the modem drive: define the context (\<open>ipc_gprs_define_pdp_context_callback\<close>), activate it
  (\<open>ipc_gprs_pdp_context_callback\<close>), receive the addresses (\<open>ipc_gprs_ip_configuration\<close>) and the status
  (\<open>ipc_gprs_call_status\<close>), which completes the request. Printing a \<open>NULL\<close> string with \<open>%s\<close> is undefined.
\<close>

named_theorems conn_intro \<open>weakest-precondition rules that keep a data connection in hand\<close>

subsection \<open>Values and translations\<close>

definition PDP_FAIL_NONE :: int where "PDP_FAIL_NONE = 0"
definition PDP_FAIL_INSUFFICIENT_RESOURCES :: int where "PDP_FAIL_INSUFFICIENT_RESOURCES = 0x1A"
definition PDP_FAIL_MISSING_UKNOWN_APN :: int where "PDP_FAIL_MISSING_UKNOWN_APN = 0x1B"
definition PDP_FAIL_UNKNOWN_PDP_ADDRESS_TYPE :: int where "PDP_FAIL_UNKNOWN_PDP_ADDRESS_TYPE = 0x1C"
definition PDP_FAIL_USER_AUTHENTICATION :: int where "PDP_FAIL_USER_AUTHENTICATION = 0x1D"
definition PDP_FAIL_ACTIVATION_REJECT_GGSN :: int where "PDP_FAIL_ACTIVATION_REJECT_GGSN = 0x1E"
definition PDP_FAIL_ACTIVATION_REJECT_UNSPECIFIED :: int where "PDP_FAIL_ACTIVATION_REJECT_UNSPECIFIED = 0x1F"
definition PDP_FAIL_SERVICE_OPTION_NOT_SUPPORTED :: int where "PDP_FAIL_SERVICE_OPTION_NOT_SUPPORTED = 0x20"
definition PDP_FAIL_SERVICE_OPTION_NOT_SUBSCRIBED :: int where "PDP_FAIL_SERVICE_OPTION_NOT_SUBSCRIBED = 0x21"
definition PDP_FAIL_SERVICE_OPTION_OUT_OF_ORDER :: int where "PDP_FAIL_SERVICE_OPTION_OUT_OF_ORDER = 0x22"
definition PDP_FAIL_NSAPI_IN_USE :: int where "PDP_FAIL_NSAPI_IN_USE = 0x23"
definition PDP_FAIL_PROTOCOL_ERRORS :: int where "PDP_FAIL_PROTOCOL_ERRORS = 0x6F"
definition PDP_FAIL_DATA_REGISTRATION_FAIL :: int where "PDP_FAIL_DATA_REGISTRATION_FAIL = -2"
definition PDP_FAIL_SIGNAL_LOST :: int where "PDP_FAIL_SIGNAL_LOST = -3"
definition PDP_FAIL_ERROR_UNSPECIFIED :: int where "PDP_FAIL_ERROR_UNSPECIFIED = 0xffff"

definition ipc2ril_gprs_fail_cause :: "u8 \<Rightarrow> int" where
  "ipc2ril_gprs_fail_cause fail_cause =
     (if fail_cause = 0x00 \<or> fail_cause = 0x01 \<or> fail_cause = 0x02 then PDP_FAIL_NONE
      else if fail_cause = 0x04 then PDP_FAIL_INSUFFICIENT_RESOURCES
      else if fail_cause = 0x05 then PDP_FAIL_MISSING_UKNOWN_APN
      else if fail_cause = 0x06 then PDP_FAIL_UNKNOWN_PDP_ADDRESS_TYPE
      else if fail_cause = 0x07 then PDP_FAIL_USER_AUTHENTICATION
      else if fail_cause = 0x08 then PDP_FAIL_ACTIVATION_REJECT_GGSN
      else if fail_cause = 0x09 then PDP_FAIL_ACTIVATION_REJECT_UNSPECIFIED
      else if fail_cause = 0x0A then PDP_FAIL_SERVICE_OPTION_NOT_SUPPORTED
      else if fail_cause = 0x0B then PDP_FAIL_SERVICE_OPTION_NOT_SUBSCRIBED
      else if fail_cause = 0x0C then PDP_FAIL_SERVICE_OPTION_OUT_OF_ORDER
      else if fail_cause = 0x0D then PDP_FAIL_NSAPI_IN_USE
      else if fail_cause = 0x0F then PDP_FAIL_DATA_REGISTRATION_FAIL
      else if fail_cause = 0x13 \<or> fail_cause = 0x14 \<or> fail_cause = 0x15 then PDP_FAIL_PROTOCOL_ERRORS
      else if fail_cause = 0x16 then PDP_FAIL_SIGNAL_LOST
      else PDP_FAIL_ERROR_UNSPECIFIED)"

text \<open>The dotted form that \<open>asprintf\<close> makes of four bytes.\<close>

definition dotted_quad :: "u8 list \<Rightarrow> nat \<Rightarrow> string" where
  "dotted_quad bs i = decimal (unat (bs ! i)) @ ''.'' @ decimal (unat (bs ! (i + 1))) @ ''.'' @
     decimal (unat (bs ! (i + 2))) @ ''.'' @ decimal (unat (bs ! (i + 3)))"

text \<open>\<open>atoi\<close>: white space, a sign, digits, and whatever follows; out of the range of \<open>int\<close> it is undefined.\<close>

definition is_digit :: "char \<Rightarrow> bool" where
  "is_digit c \<longleftrightarrow> 48 \<le> (of_char c :: nat) \<and> (of_char c :: nat) \<le> 57"

definition atoi :: "string \<Rightarrow> int option" where
  "atoi str =
     (let cs = dropWhile isspace str;
          (neg, ds) = (case cs of [] \<Rightarrow> (False, [])
            | c # rest \<Rightarrow> if c = CHR ''-'' then (True, rest) else if c = CHR ''+'' then (False, rest) else (False, cs));
          n = fold (\<lambda>c acc. acc * 10 + (of_char c - 48)) (takeWhile is_digit ds) (0 :: int);
          v = (if neg then - n else n) in
      if -(2 ^ 31) \<le> v \<and> v < 2 ^ 31 then Some v else None)"

subsection \<open>Setting up a data call\<close>

text \<open>The error exit of the two callbacks, and of the two request handlers once they have a connection.\<close>

definition callback_error :: "addr \<Rightarrow> u8 \<Rightarrow> ril_world \<Rightarrow> (int \<times> ril_world) option" where
  "callback_error data_connection aseq s = do {
     (_, s) \<leftarrow> ril_data_connection_stop data_connection s;
     message_complete aseq RIL_E_GENERIC_FAILURE RNull 0 s
   }"

definition stop_and_fail :: "addr \<Rightarrow> ril_token \<Rightarrow> ril_world \<Rightarrow> (int \<times> ril_world) option" where
  "stop_and_fail data_connection token s = do {
     (_, s) \<leftarrow> ril_data_connection_stop data_connection s;
     request_failed token RIL_E_GENERIC_FAILURE s
   }"

definition ipc_gprs_pdp_context_callback :: msg_handler where
  "ipc_gprs_pdp_context_callback message s = (case gen_phone_res_data (msg_data message) of
      None \<Rightarrow> Some (-1, s)
    | Some data \<Rightarrow>
        (case ril_data_connection_find_token (ipc_fmt_request_token (msg_aseq message) s) s of
           None \<Rightarrow> message_complete (msg_aseq message) RIL_E_GENERIC_FAILURE RNull 0 s
         | Some data_connection \<Rightarrow>
             if ipc_gen_phone_res_check data < 0 then callback_error data_connection (msg_aseq message) s
             else Some (0, s)))"

definition ipc_gprs_define_pdp_context_callback :: msg_handler where
  "ipc_gprs_define_pdp_context_callback message s = (case gen_phone_res_data (msg_data message) of
      None \<Rightarrow> Some (-1, s)
    | Some data \<Rightarrow>
        (case ril_data_connection_find_token (ipc_fmt_request_token (msg_aseq message) s) s of
           None \<Rightarrow> message_complete (msg_aseq message) RIL_E_GENERIC_FAILURE RNull 0 s
         | Some data_connection \<Rightarrow>
             if ipc_gen_phone_res_check data < 0 then callback_error data_connection (msg_aseq message) s
             else do {
               c \<leftarrow> node_get (data_connections s) data_connection;
               let request_data = ipc_gprs_pdp_context_request_set_setup 1 (ucast (dc_cid c)) (dc_username c) (dc_password c);
               (rc, s) \<leftarrow> Some (ipc_gen_phone_res_expect_callback (msg_aseq message) IPC_GPRS_PDP_CONTEXT
                 Cb_gprs_pdp_context s);
               if rc < 0 then callback_error data_connection (msg_aseq message) s
               else do {
                 (rc, s) \<leftarrow> Some (ipc_fmt_send (msg_aseq message) IPC_GPRS_PDP_CONTEXT IPC_TYPE_SET request_data s);
                 if rc < 0 then callback_error data_connection (msg_aseq message) s
                 else Some (0, s)
               }
             }))"

text \<open>\<open>data_connection->token = token\<close>.\<close>

definition connection_set_token :: "addr \<Rightarrow> ril_token \<Rightarrow> ril_world \<Rightarrow> (int \<times> ril_world) option" where
  "connection_set_token p token s = (case node_get (data_connections s) p of
      None \<Rightarrow> None
    | Some _ \<Rightarrow> Some (0, s\<lparr>data_connections := node_update p (\<lambda>c. c\<lparr>dc_token := token\<rparr>) (data_connections s)\<rparr>))"

definition ril_request_setup_data_call :: req_handler where
  "ril_request_setup_data_call data sz token s = (case data of
      None \<Rightarrow> request_failed token RIL_E_GENERIC_FAILURE s
    | Some d \<Rightarrow>
        if sz < 24 then request_failed token RIL_E_GENERIC_FAILURE s
        else if ril_radio_state_check RADIO_STATE_SIM_READY s < 0
        then request_failed token RIL_E_OP_NOT_ALLOWED_BEFORE_REG_TO_NW s
        else if ril_request_find_request_status RIL_REQUEST_SETUP_DATA_CALL RIL_REQUEST_HANDLED s \<noteq> None
        then Some (RIL_REQUEST_UNHANDLED, s)
        else (case d of
            PStrings (_ # _ # apn # username # password # _) \<Rightarrow>
              if apn = None then request_failed token RIL_E_GENERIC_FAILURE s
              else do {
                (data_connection, s) \<leftarrow> Some (ril_data_connection_start apn username password s);
                (case data_connection of
                   None \<Rightarrow> request_failed token RIL_E_GENERIC_FAILURE s
                 | Some p \<Rightarrow> do {
                     (_, s) \<leftarrow> connection_set_token p token s;
                     c \<leftarrow> node_get (data_connections s) p;
                     (case ipc_gprs_define_pdp_context_setup 1 (ucast (dc_cid c)) (dc_apn c) of
                        None \<Rightarrow> stop_and_fail p token s
                      | Some request_data \<Rightarrow> do {
                          (rc, s) \<leftarrow> Some (expect_callback_for token IPC_GPRS_DEFINE_PDP_CONTEXT
                            Cb_gprs_define_pdp_context s);
                          if rc < 0 then stop_and_fail p token s
                          else do {
                            (rc, s) \<leftarrow> Some (fmt_send_for token IPC_GPRS_DEFINE_PDP_CONTEXT IPC_TYPE_SET request_data s);
                            if rc < 0 then stop_and_fail p token s
                            else Some (RIL_REQUEST_HANDLED, s)
                          }
                        })
                   })
              }
          | _ \<Rightarrow> None))"

definition ril_request_deactivate_data_call :: req_handler where
  "ril_request_deactivate_data_call data sz token s = (case data of
      None \<Rightarrow> request_failed token RIL_E_GENERIC_FAILURE s
    | Some d \<Rightarrow>
        if sz < 8 then request_failed token RIL_E_GENERIC_FAILURE s
        else if ril_radio_state_check RADIO_STATE_SIM_READY s < 0 then Some (RIL_REQUEST_UNHANDLED, s)
        else if ril_request_find_request_status RIL_REQUEST_DEACTIVATE_DATA_CALL RIL_REQUEST_HANDLED s \<noteq> None
        then Some (RIL_REQUEST_UNHANDLED, s)
        else (case d of
            PStrings (value0 # _) \<Rightarrow>
             (case value0 of
                None \<Rightarrow> request_failed token RIL_E_GENERIC_FAILURE s
              | Some str \<Rightarrow> do {
                  cid \<leftarrow> atoi str;
                  (case ril_data_connection_find_cid (word_of_int cid) s of
                     None \<Rightarrow> request_failed token RIL_E_GENERIC_FAILURE s
                   | Some p \<Rightarrow> do {
                       (_, s) \<leftarrow> connection_set_token p token s;
                       c \<leftarrow> node_get (data_connections s) p;
                       let request_data = ipc_gprs_pdp_context_request_set_setup 0 (ucast (dc_cid c)) None None;
                       (rc, s) \<leftarrow> Some (expect_callback_for token IPC_GPRS_PDP_CONTEXT Cb_gprs_pdp_context s);
                       if rc < 0 then stop_and_fail p token s
                       else do {
                         (rc, s) \<leftarrow> Some (fmt_send_for token IPC_GPRS_PDP_CONTEXT IPC_TYPE_SET request_data s);
                         if rc < 0 then stop_and_fail p token s
                         else Some (RIL_REQUEST_HANDLED, s)
                       }
                     })
                })
          | _ \<Rightarrow> None))"

subsection \<open>Messages of the modem\<close>

text \<open>\<open>struct ipc_gprs_ps_data\<close>: cid, attached.\<close>

definition ipc_gprs_ps :: msg_handler where
  "ipc_gprs_ps message s =
     (if length (msg_data message) < 2 then Some (-1, s)
      else (case ril_data_connection_find_cid (ucast (msg_data message ! 0)) s of
          None \<Rightarrow> Some (0, s)
        | Some p \<Rightarrow> Some (0, s\<lparr>data_connections :=
            node_update p (\<lambda>c. c\<lparr>dc_attached := (msg_data message ! 1 \<noteq> 0)\<rparr>) (data_connections s)\<rparr>)))"

text \<open>One element of a data call response, with \<open>"%s %s"\<close> of the two name servers.\<close>

definition data_call_response :: "int \<Rightarrow> int \<Rightarrow> int \<Rightarrow> ril_data_connection \<Rightarrow> RIL_Data_Call_Response option" where
  "data_call_response status cid active c = (case (dc_dns1 c, dc_dns2 c) of
      (Some dns1, Some dns2) \<Rightarrow> Some \<lparr>dr_status = status, dr_cid = cid, dr_active = active, dr_type = Some ''IP'',
        dr_ifname = dc_iface c, dr_addresses = dc_ip c, dr_dnses = Some (dns1 @ '' '' @ dns2),
        dr_gateways = dc_gateway c\<rparr>
    | _ \<Rightarrow> None)"

text \<open>\<open>struct ipc_gprs_pdp_context_request_get_data\<close>: a count, then three pairs of cid and active. The loop
  runs over the three entries.\<close>

fun collect_data_calls :: "u8 list \<Rightarrow> nat list \<Rightarrow> ril_world \<Rightarrow> RIL_Data_Call_Response list option" where
  "collect_data_calls bs [] s = Some []"
| "collect_data_calls bs (i # is) s =
     (if bs ! (2 + 2 * i) = 0 then collect_data_calls bs is s
      else (case ril_data_connection_find_cid (ucast (bs ! (1 + 2 * i))) s of
          None \<Rightarrow> collect_data_calls bs is s
        | Some p \<Rightarrow> do {
            c \<leftarrow> node_get (data_connections s) p;
            r \<leftarrow> data_call_response PDP_FAIL_NONE (uint (bs ! (1 + 2 * i))) (if dc_enabled c then 2 else 0) c;
            rs \<leftarrow> collect_data_calls bs is s;
            Some (r # rs)
          }))"

definition ipc_gprs_pdp_context :: msg_handler where
  "ipc_gprs_pdp_context message s =
     (if length (msg_data message) < 7 then Some (-1, s)
      else do {
        response \<leftarrow> collect_data_calls (msg_data message) [0..<3] s;
        if \<not> ipc_seq_valid (msg_aseq message) then do {
          (_, s) \<leftarrow> Some (ril_request_unsolicited RIL_UNSOL_DATA_CALL_LIST_CHANGED (RDataCalls response) (length response * 36) s);
          Some (0, s)
        }
        else message_complete (msg_aseq message) RIL_E_SUCCESS (RDataCalls response) (length response * 36) s
      })"

definition ril_request_data_call_list :: req_handler where
  "ril_request_data_call_list data sz token s =
     (if ril_radio_state_check RADIO_STATE_SIM_NOT_READY s < 0 then request_failed token RIL_E_SUCCESS s
      else do {
        (rc, s) \<leftarrow> Some (fmt_send_for token IPC_GPRS_PDP_CONTEXT IPC_TYPE_GET [] s);
        if rc < 0 then request_failed token RIL_E_GENERIC_FAILURE s
        else Some (RIL_REQUEST_HANDLED, s)
      })"

text \<open>\<open>struct ipc_gprs_ip_configuration_data\<close>: 27 bytes; the address at 3, the name servers at 7 and 11.\<close>

definition ipc_gprs_ip_configuration :: msg_handler where
  "ipc_gprs_ip_configuration message s =
     (let bs = msg_data message in
      if length bs < 27 then Some (-1, s)
      else (case ril_data_connection_find_cid (ucast (bs ! 0)) s of
          None \<Rightarrow>
            if ipc_seq_valid (msg_aseq message) then message_complete (msg_aseq message) RIL_E_GENERIC_FAILURE RNull 0 s
            else Some (0, s)
        | Some p \<Rightarrow> Some (0, s\<lparr>data_connections := node_update p (\<lambda>c. c\<lparr>dc_ip := Some (dotted_quad bs 3),
            dc_gateway := Some (dotted_quad bs 3), dc_subnet_mask := Some ''255.255.255.255'',
            dc_dns1 := Some (dotted_quad bs 7), dc_dns2 := Some (dotted_quad bs 11)\<rparr>) (data_connections s)\<rparr>)))"

definition ipc_gprs_hsdpa_status :: msg_handler where
  "ipc_gprs_hsdpa_status message s =
     (if length (msg_data message) < 1 then Some (-1, s)
      else if \<not> fmt_data s then Some (-1, s)
      else if hsdpa_status s \<noteq> msg_data message ! 0 then do {
        let s = s\<lparr>hsdpa_status := msg_data message ! 0\<rparr>;
        (_, s) \<leftarrow> Some (ril_request_unsolicited RIL_UNSOL_RESPONSE_VOICE_NETWORK_STATE_CHANGED RNull 0 s);
        Some (0, s)
      }
      else Some (0, s))"

subsection \<open>The status of a data call\<close>

text \<open>\<open>request\<close> is the pointer found for the connection's token; \<open>request->request\<close> and \<open>request->token\<close> are
  read through it where the code reads them. The label \<open>error\<close>:\<close>

definition call_status_error :: "addr \<Rightarrow> addr option \<Rightarrow> ril_world \<Rightarrow> (int \<times> ril_world) option" where
  "call_status_error data_connection request s = do {
     (_, s) \<leftarrow> ril_data_connection_stop data_connection s;
     (case request of
        None \<Rightarrow> Some (0, s)
      | Some r \<Rightarrow> do {
          rq \<leftarrow> node_get (requests s) r;
          (_, s) \<leftarrow> ril_request_complete (rq_token rq) RIL_E_GENERIC_FAILURE RNull 0 s;
          Some (0, s)
        })
   }"

text \<open>The end of the function: without a request, ask the modem for the list of contexts.\<close>

definition call_status_tail :: "addr \<Rightarrow> addr option \<Rightarrow> ril_world \<Rightarrow> (int \<times> ril_world) option" where
  "call_status_tail data_connection request s =
     (if request = None then do {
        (rc, s) \<leftarrow> Some (ipc_fmt_send 0 IPC_GPRS_PDP_CONTEXT IPC_TYPE_GET [] s);
        if rc < 0 then call_status_error data_connection None s
        else Some (0, s)
      }
      else Some (0, s))"

text \<open>\<open>request != NULL && request->request == number\<close>.\<close>

definition request_is :: "int \<Rightarrow> addr option \<Rightarrow> ril_world \<Rightarrow> bool option" where
  "request_is number request s = (case request of
      None \<Rightarrow> Some False
    | Some r \<Rightarrow> map_option (\<lambda>rq. rq_request rq = number) (node_get (requests s) r))"

definition call_status_activated :: "addr \<Rightarrow> addr option \<Rightarrow> u8 \<Rightarrow> ril_world \<Rightarrow> (int \<times> ril_world) option" where
  "call_status_activated p request fail_cause s = do {
     setup \<leftarrow> request_is RIL_REQUEST_SETUP_DATA_CALL request s;
     if setup then do {
       c \<leftarrow> node_get (data_connections s) p;
       response \<leftarrow> data_call_response (ipc2ril_gprs_fail_cause fail_cause) (sint (dc_cid c)) 2 c;
       (_, s) \<leftarrow> ril_request_complete (dc_token c) RIL_E_SUCCESS (RDataCalls [response]) 36 s;
       (_, s) \<leftarrow> connection_set_token p 0 s;
       call_status_tail p request s
     }
     else call_status_tail p request s
   }"

definition call_status_stopped :: "addr \<Rightarrow> addr option \<Rightarrow> ril_world \<Rightarrow> (int \<times> ril_world) option" where
  "call_status_stopped p request s = do {
     deactivate \<leftarrow> request_is RIL_REQUEST_DEACTIVATE_DATA_CALL request s;
     if deactivate then do {
       rq \<leftarrow> node_get (requests s) (the request);
       (_, s) \<leftarrow> ril_request_complete (rq_token rq) RIL_E_SUCCESS RNull 0 s;
       call_status_tail p request s
     }
     else call_status_tail p request s
   }"

definition call_status_enabled ::
  "addr \<Rightarrow> ril_data_connection \<Rightarrow> addr option \<Rightarrow> u8 \<Rightarrow> ril_world \<Rightarrow> (int \<times> ril_world) option" where
  "call_status_enabled p c request fail_cause s =
     (if dc_enabled c then do {
        deactivate \<leftarrow> request_is RIL_REQUEST_DEACTIVATE_DATA_CALL request s;
        if deactivate then call_status_error p request s else call_status_tail p request s
      }
      else do {
        (rc, s) \<leftarrow> ril_data_connection_enable p s;
        if rc < 0 then call_status_error p request s
        else call_status_activated p request fail_cause s
      })"

definition call_status_disabled ::
  "addr \<Rightarrow> ril_data_connection \<Rightarrow> addr option \<Rightarrow> u8 \<Rightarrow> ril_world \<Rightarrow> (int \<times> ril_world) option" where
  "call_status_disabled p c request fail_cause s =
     (if dc_enabled c then do {
        (rc, s) \<leftarrow> ril_data_connection_disable p s;
        if rc < 0 then call_status_error p request s
        else do {
          (_, s) \<leftarrow> ril_data_connection_stop p s;
          call_status_stopped p request s
        }
      }
      else do {
        setup \<leftarrow> request_is RIL_REQUEST_SETUP_DATA_CALL request s;
        if setup then do {
          rq \<leftarrow> node_get (requests s) (the request);
          (_, s) \<leftarrow> ril_request_complete (rq_token rq) RIL_E_SUCCESS
            (RDataCalls [\<lparr>dr_status = ipc2ril_gprs_fail_cause fail_cause, dr_cid = 0, dr_active = 0, dr_type = None,
              dr_ifname = None, dr_addresses = None, dr_dnses = None, dr_gateways = None\<rparr>]) 36 s;
          call_status_error p None s
        }
        else call_status_tail p request s
      })"

text \<open>\<open>struct ipc_gprs_call_status_data\<close>: cid, status, fail cause, external.\<close>

definition ipc_gprs_call_status :: msg_handler where
  "ipc_gprs_call_status message s =
     (let bs = msg_data message in
      if length bs < 4 then Some (-1, s)
      else if ril_radio_state_check RADIO_STATE_SIM_READY s < 0 then Some (0, s)
      else (case ril_data_connection_find_cid (ucast (bs ! 0)) s of
          None \<Rightarrow>
            if ipc_seq_valid (msg_aseq message) then message_complete (msg_aseq message) RIL_E_GENERIC_FAILURE RNull 0 s
            else Some (0, s)
        | Some p \<Rightarrow> do {
            c \<leftarrow> node_get (data_connections s) p;
            let request = ril_request_find_token (dc_token c) s;
            if bs ! 1 = IPC_GPRS_STATUS_ENABLED then call_status_enabled p c request (bs ! 2) s
            else if bs ! 1 = IPC_GPRS_STATUS_DISABLED \<or> bs ! 1 = IPC_GPRS_STATUS_NOT_ENABLED
            then call_status_disabled p c request (bs ! 2) s
            else call_status_tail p request s
          }))"

definition ril_request_last_data_call_fail_cause :: req_handler where
  "ril_request_last_data_call_fail_cause data sz token s =
     (if ril_radio_state_check RADIO_STATE_SIM_NOT_READY s < 0 then Some (RIL_REQUEST_UNHANDLED, s)
      else do {
        let fail_cause_size = ril_request_data_size_get RIL_REQUEST_LAST_DATA_CALL_FAIL_CAUSE s;
        (fail_cause_data, s) \<leftarrow> Some (ril_request_data_get RIL_REQUEST_LAST_DATA_CALL_FAIL_CAUSE s);
        fail_cause \<leftarrow> (case fail_cause_data of
            None \<Rightarrow> Some PDP_FAIL_ERROR_UNSPECIFIED
          | Some d \<Rightarrow> if fail_cause_size < 4 then Some PDP_FAIL_ERROR_UNSPECIFIED else payload_int d);
        (_, s) \<leftarrow> ril_request_complete token RIL_E_SUCCESS (RInt fail_cause) 4 s;
        Some (RIL_REQUEST_COMPLETED, s)
      })"

subsection \<open>The handlers keep their contracts\<close>

text \<open>Rules that carry a live connection through the calls of a handler.\<close>

definition conn_live :: "addr \<Rightarrow> ril_world \<Rightarrow> bool" where
  "conn_live p s \<longleftrightarrow> node_get (data_connections s) p \<noteq> None"

lemma wp_value:
  assumes "m \<noteq> None" and "\<And>x. m = Some x \<Longrightarrow> wp (f x) Q"
  shows "wp (Option.bind m f) Q"
  using assms by auto

lemma wp_conn_get [conn_intro]:
  assumes "conn_live p s" and "\<And>c. node_get (data_connections s) p = Some c \<Longrightarrow> wp (f c) Q"
  shows "wp (Option.bind (node_get (data_connections s) p) f) Q"
  using assms by (intro wp_value) (auto simp: conn_live_def)

lemma quiet_wp_conn:
  assumes "quiet base s" and "conn_live p s" and "quiet s (snd m)" and "data_connections (snd m) = data_connections s"
    and "\<And>r s'. quiet base s' \<Longrightarrow> conn_live p s' \<Longrightarrow> wp (f r s') Q"
  shows "wp (case m of (r, s') \<Rightarrow> f r s') Q"
  using assms quiet_trans by (cases m) (fastforce simp: conn_live_def)

lemma connections_seq [simp]: "data_connections (snd (ipc_fmt_request_seq token s)) = data_connections s"
  using ipc_fmt_request_seq_cases [of token s "fst (ipc_fmt_request_seq token s)" "snd (ipc_fmt_request_seq token s)"]
  by auto

lemma connections_send [simp]: "data_connections (snd (ipc_fmt_send q cmd ty data s)) = data_connections s"
  by (simp add: ipc_fmt_send_def Let_def)

lemma connections_expect [simp]:
  "data_connections (snd (ipc_gen_phone_res_expect_callback q cmd cb s)) = data_connections s"
  by (simp add: ipc_gen_phone_res_expect_callback_def ipc_gen_phone_res_expect_register_def alloc_def)

lemma connections_for [simp]:
  "data_connections (snd (fmt_send_for token cmd ty data s)) = data_connections s"
  "data_connections (snd (expect_callback_for token cmd cb s)) = data_connections s"
  by (simp_all add: fmt_send_for_def expect_callback_for_def split_beta)

lemmas wp_conn [conn_intro] =
  quiet_wp_conn [OF _ _ quiet_send connections_send] quiet_wp_conn [OF _ _ quiet_expect(1) connections_expect]
  quiet_wp_conn [OF _ _ quiet_for(1) connections_for(1)] quiet_wp_conn [OF _ _ quiet_for(4) connections_for(2)]

lemma wp_connection_start [conn_intro]:
  assumes "quiet base s" and "\<And>s'. quiet base s' \<Longrightarrow> wp (f None s') Q"
    and "\<And>p s'. quiet base s' \<Longrightarrow> conn_live p s' \<Longrightarrow> wp (f (Some p) s') Q"
  shows "wp (case ril_data_connection_start a u pw s of (r, s') \<Rightarrow> f r s') Q"
proof (cases "ril_data_connection_start a u pw s")
  case (Pair r s')
  have "quiet base s'"
    using quiet_trans [OF assms(1) quiet_connection_start [of s a u pw]] Pair by simp
  moreover have "conn_live p s'" if "r = Some p" for p
    using Pair that
    by (auto simp: ril_data_connection_start_def ril_data_connection_find_cid_def Let_def conn_live_def
      split: if_splits option.splits prod.splits dest: node_find_Some_get_ex)
  ultimately show ?thesis
    using Pair assms(2,3) by (cases r) auto
qed

lemma wp_connection_set_token [conn_intro]:
  assumes "quiet base s" and "conn_live p s"
    and "\<And>s'. quiet base s' \<Longrightarrow> conn_live p s' \<Longrightarrow> Q 0 s'"
  shows "wp (connection_set_token p token s) Q"
  using assms quiet_trans [OF assms(1) quiet_connection_update]
  by (auto simp: connection_set_token_def conn_live_def)

lemma wp_connection_stop:
  assumes "quiet base s" and "conn_live p s" and "\<And>r s'. quiet base s' \<Longrightarrow> Q r s'"
  shows "wp (ril_data_connection_stop p s) Q"
  using assms(2,3) quiet_trans [OF assms(1) quiet_connection_unregister [of s p]]
  by (auto simp: ril_data_connection_stop_def conn_live_def split_beta)

lemma wp_stop_and_fail [conn_intro]:
  assumes "quiet base s" and "conn_live p s" and "handler_pre token base"
  shows "wp (stop_and_fail p token s) (handler_post token base)"
  unfolding stop_and_fail_def wp_bind
  by (rule wp_connection_stop [OF assms(1,2)]) (auto intro: wp_request_failed assms(3))

lemma wp_callback_error [conn_intro]:
  assumes "quiet base s" and "conn_live p s" and "message_pre base"
  shows "wp (callback_error p q s) (message_post q base)"
  unfolding callback_error_def wp_bind
  by (rule wp_connection_stop [OF assms(1,2)]) (auto intro: wp_message_complete_post assms(3))

lemmas [conn_intro] = wp_request_failed wp_message_complete_post

lemma find_conn_live:
  "ril_data_connection_find_token token s = Some p \<Longrightarrow> conn_live p s"
  "ril_data_connection_find_cid cid s = Some p \<Longrightarrow> conn_live p s"
  by (auto simp: conn_live_def ril_data_connection_find_token_def ril_data_connection_find_cid_def
    dest: node_find_Some_get_ex split: if_splits)

definition data_call_strings :: "payload option \<Rightarrow> nat \<Rightarrow> bool" where
  "data_call_strings data sz = (case data of
      None \<Rightarrow> True
    | Some (PStrings ss) \<Rightarrow> 5 \<le> length ss
    | Some _ \<Rightarrow> sz < 24)"

definition cid_strings :: "payload option \<Rightarrow> nat \<Rightarrow> bool" where
  "cid_strings data sz = (case data of
      None \<Rightarrow> True
    | Some (PStrings (v # _)) \<Rightarrow> (case v of None \<Rightarrow> True | Some str \<Rightarrow> atoi str \<noteq> None)
    | Some _ \<Rightarrow> sz < 8)"

lemma setup_data_call_strings:
  assumes "handler_pre token s"
  shows "wp (ril_request_setup_data_call (Some (PStrings (a # b # c # d # e # rest))) sz token s) (handler_post token s)"
  using quiet_refl [of s] assms
  by (auto simp: ril_request_setup_data_call_def split: option.split intro!: conn_intro)

interpretation setup_data_call: request_handler ril_request_setup_data_call data_call_strings
proof
  fix token s data sz
  assume a: "handler_pre token s" "data_call_strings data sz"
  then show "wp (ril_request_setup_data_call data sz token s) (handler_post token s)"
  proof (cases "\<exists>ss. data = Some (PStrings ss)")
    case True
    then obtain ss where ss: "data = Some (PStrings ss)" "5 \<le> length ss"
      using a(2) by (auto simp: data_call_strings_def)
    then obtain a b c d e rest where "ss = a # b # c # d # e # rest"
      by (auto simp: numeral_eq_Suc Suc_le_length_iff)
    with ss(1) a(1) show ?thesis
      by (simp add: setup_data_call_strings)
  next
    case False
    with a(2) have "data = None \<or> sz < 24"
      by (auto simp: data_call_strings_def split: option.splits payload.splits)
    with a(1) quiet_refl [of s] show ?thesis
      by (auto simp: ril_request_setup_data_call_def split: option.split intro!: wp_intro)
  qed
qed

lemma deactivate_data_call_string:
  assumes "handler_pre token s" and "atoi str = Some i"
  shows "wp (ril_request_deactivate_data_call (Some (PStrings (Some str # rest))) sz token s) (handler_post token s)"
  using quiet_refl [of s] assms
  by (auto simp: ril_request_deactivate_data_call_def split: option.split intro!: conn_intro dest: find_conn_live)

interpretation deactivate_data_call: request_handler ril_request_deactivate_data_call cid_strings
proof
  fix token s data sz
  assume a: "handler_pre token s" "cid_strings data sz"
  then show "wp (ril_request_deactivate_data_call data sz token s) (handler_post token s)"
  proof (cases "\<exists>str rest. data = Some (PStrings (Some str # rest))")
    case True
    with a show ?thesis
      by (auto simp: cid_strings_def intro: deactivate_data_call_string)
  next
    case False
    with a(2) have "data = None \<or> sz < 8 \<or> (\<exists>rest. data = Some (PStrings (None # rest)))"
      by (auto simp: cid_strings_def split: option.splits payload.splits list.splits)
    with a(1) quiet_refl [of s] show ?thesis
      by (auto simp: ril_request_deactivate_data_call_def split: option.split intro!: wp_intro)
  qed
qed

interpretation data_call_list: request_handler ril_request_data_call_list any_payload
proof
  fix token s data sz
  assume "handler_pre token s"
  with quiet_refl [of s] show "wp (ril_request_data_call_list data sz token s) (handler_post token s)"
    by (auto simp: ril_request_data_call_list_def intro!: wp_intro)
qed

lemma bytes_payload_int_ex: "bytes_payload (Some d) sz \<Longrightarrow> \<not> sz < 4 \<Longrightarrow> \<exists>i. payload_int d = Some i"
  using bytes_payload_int by blast

interpretation last_data_call_fail_cause: request_handler ril_request_last_data_call_fail_cause any_payload
proof
  fix token s data sz
  assume "handler_pre token s"
  with quiet_refl [of s] handler_pre_inv show
    "wp (ril_request_last_data_call_fail_cause data sz token s) (handler_post token s)"
    by (auto simp: ril_request_last_data_call_fail_cause_def Let_def split: option.split
      intro!: wp_intro wp_value [where m = "payload_int d" for d] dest: bytes_payload_int_ex)
qed

text \<open>The message handlers.\<close>

interpretation gprs_ps: message_handler ipc_gprs_ps any_message
proof
  fix s m
  assume "message_pre s"
  with quiet_refl [of s] show "wp (ipc_gprs_ps m s) (message_post (msg_aseq m) s)"
    by (auto simp: ipc_gprs_ps_def split: option.split intro!: message_post_quiet quiet_connection_update)
qed

definition dns_known :: "ipc_message \<Rightarrow> ril_world \<Rightarrow> bool" where
  "dns_known m s \<longleftrightarrow> collect_data_calls (msg_data m) [0..<3] s \<noteq> None"

interpretation gprs_pdp_context: message_handler ipc_gprs_pdp_context dns_known
proof
  fix s m
  assume "message_pre s" and "dns_known m s"
  with quiet_refl [of s] show "wp (ipc_gprs_pdp_context m s) (message_post (msg_aseq m) s)"
    by (auto simp: ipc_gprs_pdp_context_def dns_known_def simp del: upt.simps upt_rec_numeral
      intro!: wp_intro message_post_quiet)
qed

interpretation gprs_ip_configuration: message_handler ipc_gprs_ip_configuration any_message
proof
  fix s m
  assume "message_pre s"
  with quiet_refl [of s] show "wp (ipc_gprs_ip_configuration m s) (message_post (msg_aseq m) s)"
    by (auto simp: ipc_gprs_ip_configuration_def Let_def split: option.split
      intro!: wp_intro message_post_quiet quiet_connection_update)
qed

lemma quiet_hsdpa: "quiet s (s\<lparr>hsdpa_status := h\<rparr>)"
  by (simp add: quiet_def ril_inv_def)

interpretation gprs_hsdpa_status: message_handler ipc_gprs_hsdpa_status any_message
proof
  fix s m
  assume "message_pre s"
  with quiet_refl [of s] show "wp (ipc_gprs_hsdpa_status m s) (message_post (msg_aseq m) s)"
    by (auto simp: ipc_gprs_hsdpa_status_def intro!: wp_intro message_post_quiet quiet_hsdpa)
qed

interpretation gprs_define_pdp_context_callback: message_handler ipc_gprs_define_pdp_context_callback any_message
proof
  fix s m
  assume "message_pre s"
  with quiet_refl [of s] show "wp (ipc_gprs_define_pdp_context_callback m s) (message_post (msg_aseq m) s)"
    by (auto simp: ipc_gprs_define_pdp_context_callback_def split: option.split
      intro!: conn_intro message_post_quiet dest: find_conn_live)
qed

interpretation gprs_pdp_context_callback: message_handler ipc_gprs_pdp_context_callback any_message
proof
  fix s m
  assume "message_pre s"
  with quiet_refl [of s] show "wp (ipc_gprs_pdp_context_callback m s) (message_post (msg_aseq m) s)"
    by (auto simp: ipc_gprs_pdp_context_callback_def split: option.split
      intro!: conn_intro message_post_quiet dest: find_conn_live)
qed

text \<open>The status handler completes the request that the connection names, not the one of the message.\<close>

lemma connections_complete:
  "ril_request_complete token error data sz s = Some (rc, u) \<Longrightarrow> data_connections u = data_connections s"
  by (auto simp: ril_request_complete_def ril_request_unregister_def for_clients_unregister
    ipc_fmt_request_unregister_def Let_def bind_eq_Some_conv split: if_splits option.splits)

lemma quiet_modem: "quiet s (emit (Modem n) (io_next s))" "quiet s (emit (Ifc n i) (io_next s))"
  by (simp_all add: quiet_def ril_inv_def)

lemma wp_connection_enable:
  assumes "quiet base s" and "node_get (data_connections s) p = Some c"
    and "\<And>s'. quiet base s' \<Longrightarrow> conn_live p s' \<Longrightarrow> Q (-1) s'"
    and "\<And>s'. quiet base s' \<Longrightarrow> dc_ip c \<noteq> None \<Longrightarrow>
      node_get (data_connections s') p = Some (c\<lparr>dc_enabled := True\<rparr>) \<Longrightarrow> Q 0 s'"
  shows "wp (ril_data_connection_enable p s) Q"
proof -
  let ?t = "emit (Modem ''gprs_activate'') (io_next s)"
  let ?u = "emit (Ifc ''ifc_configure'' (dc_iface c)) (io_next ?t)"
  have q: "quiet base ?t" "quiet base ?u"
    using assms(1) quiet_modem quiet_trans by blast+
  then have "quiet base (?u\<lparr>data_connections := node_update p (\<lambda>c. c\<lparr>dc_enabled := True\<rparr>) (data_connections ?u)\<rparr>)"
    using quiet_connection_update quiet_trans by blast
  with q show ?thesis
    using assms by (auto simp: ril_data_connection_enable_def Let_def conn_live_def)
qed

lemma wp_connection_disable:
  assumes "quiet base s" and "conn_live p s"
    and "\<And>s'. quiet base s' \<Longrightarrow> conn_live p s' \<Longrightarrow> Q (-1) s'"
    and "\<And>s'. quiet base s' \<Longrightarrow> conn_live p s' \<Longrightarrow> fmt_ready (io_next (io_next (io_next s))) \<longrightarrow> fmt_ready s' \<Longrightarrow> Q 0 s'"
  shows "wp (ril_data_connection_disable p s) Q"
proof -
  obtain c where c: "node_get (data_connections s) p = Some c"
    using assms(2) by (auto simp: conn_live_def)
  let ?t = "emit (Ifc ''ifc_reset_connections'' (dc_iface c)) (io_next s)"
  let ?u = "emit (Ifc ''ifc_disable'' (dc_iface c)) (io_next ?t)"
  let ?v = "emit (Modem ''gprs_deactivate'') (io_next ?u)"
  have q: "quiet base ?t" "quiet base ?u" "quiet base ?v"
    using assms(1) quiet_modem quiet_trans by blast+
  let ?w = "?v\<lparr>data_connections := node_update p (\<lambda>c. c\<lparr>dc_enabled := False\<rparr>) (data_connections ?v)\<rparr>"
  have "quiet base ?w"
    using q(3) quiet_connection_update quiet_trans by blast
  moreover have "fmt_ready (io_next (io_next (io_next s))) \<longrightarrow> fmt_ready ?w"
    by (simp add: fmt_ready_def io_result_def io_next_def emit_def)
  ultimately show ?thesis
    using q assms c by (auto simp: ril_data_connection_disable_def Let_def conn_live_def)
qed

lemma wp_call_status_error_None:
  assumes "quiet base s" and "conn_live p s" and "\<And>s'. quiet base s' \<Longrightarrow> Q 0 s'"
  shows "wp (call_status_error p None s) Q"
  unfolding call_status_error_def wp_bind
  by (rule wp_connection_stop [OF assms(1,2)]) (simp add: assms(3))

lemma wp_call_status_error:
  assumes "quiet base s" and "conn_live p s" and "message_pre base"
    and "\<And>r. request = Some r \<Longrightarrow> node_get (requests base) r \<noteq> None"
  shows "wp (call_status_error p request s) (completing_post base)"
proof (cases request)
  case None
  then show ?thesis
    using wp_call_status_error_None [OF assms(1,2)] by (simp add: completing_post_quiet)
next
  case (Some r)
  then obtain rq where rq: "node_get (requests base) r = Some rq"
    using assms(4) by blast
  show ?thesis
    unfolding call_status_error_def wp_bind Some
  proof (rule wp_connection_stop [OF assms(1,2)])
    fix x s'
    assume q: "quiet base s'"
    then have "node_get (requests s') r = Some rq"
      using rq by (simp add: quiet_def)
    then show "wp (case (x, s') of (_, s) \<Rightarrow> (case Some r of None \<Rightarrow> Some (0, s)
        | Some r \<Rightarrow> Option.bind (node_get (requests s) r) (\<lambda>rq. Option.bind
            (ril_request_complete (rq_token rq) RIL_E_GENERIC_FAILURE RNull 0 s) (\<lambda>(_, s). Some (0, s)))))
      (completing_post base)"
      by (auto intro!: wp_message_complete [OF q assms(3)] completing_post_done [OF q] quiet_refl tokens_get)
  qed
qed

lemma wp_call_status_tail:
  assumes "quiet base s" and "request = None \<Longrightarrow> conn_live p s \<or> fmt_ready s"
    and "\<And>s'. quiet base s' \<Longrightarrow> Q 0 s'"
  shows "wp (call_status_tail p request s) Q"
proof (cases "request = None")
  case True
  let ?send = "ipc_fmt_send 0 IPC_GPRS_PDP_CONTEXT IPC_TYPE_GET [] s"
  have q: "quiet base (snd ?send)"
    using assms(1) quiet_send quiet_trans by blast
  have "wp (call_status_error p None (snd ?send)) Q" if "fst ?send < 0"
  proof (rule wp_call_status_error_None [OF q])
    have "\<not> fmt_ready s"
      using that by (auto simp: ipc_fmt_send_eq)
    then show "conn_live p (snd ?send)"
      using assms(2) True by (simp add: conn_live_def)
  qed (rule assms(3))
  with True q show ?thesis
    by (simp add: call_status_tail_def split_beta assms(3))
qed (use assms in \<open>auto simp: call_status_tail_def\<close>)

lemma request_is_live:
  assumes "quiet base s" and "\<And>r. request = Some r \<Longrightarrow> node_get (requests base) r \<noteq> None"
  shows "\<exists>b. request_is number request s = Some b \<and> (b \<longrightarrow> request \<noteq> None)"
  using assms by (cases request) (auto simp: request_is_def quiet_def)

lemma wp_call_status_activated:
  assumes pre: "message_pre s" and q: "quiet s s'" and get: "node_get (data_connections s') p = Some c"
    and dns: "dc_dns1 c \<noteq> None \<and> dc_dns2 c \<noteq> None"
    and live: "\<And>r. request = Some r \<Longrightarrow> node_get (requests s) r \<noteq> None"
    and queued: "request \<noteq> None \<Longrightarrow> dc_token c \<in> tokens s"
  shows "wp (call_status_activated p request fail_cause s') (completing_post s)"
proof -
  obtain b where b: "request_is RIL_REQUEST_SETUP_DATA_CALL request s' = Some b" "b \<longrightarrow> request \<noteq> None"
    using request_is_live [OF q live] by blast
  have conn: "conn_live p s'"
    using get by (simp add: conn_live_def)
  obtain r where r: "data_call_response (ipc2ril_gprs_fail_cause fail_cause) (sint (dc_cid c)) 2 c = Some r"
    using dns by (auto simp: data_call_response_def)
  have after: "wp (Option.bind (connection_set_token p 0 u) (\<lambda>(_, s). call_status_tail p request s)) (completing_post s)"
    if u: "ril_request_complete (dc_token c) RIL_E_SUCCESS (RDataCalls [r]) 36 s' = Some (0, u)" and "request \<noteq> None" for u
  proof -
    have "conn_live p u"
      using connections_complete [OF u] conn by (simp add: conn_live_def)
    then show ?thesis
      unfolding wp_bind using that(2)
      by (auto intro!: wp_connection_set_token [OF quiet_refl] wp_call_status_tail completing_post_done [OF q _ u]
        simp: queued quiet_tokens [OF q])
  qed
  show ?thesis
  proof (cases b)
    case True
    then show ?thesis
      using b get r after by (auto simp: call_status_activated_def intro!: wp_message_complete [OF q pre])
  next
    case False
    then show ?thesis
      using b conn by (auto simp: call_status_activated_def intro!: wp_call_status_tail [OF q] completing_post_quiet)
  qed
qed

lemma wp_call_status_enabled:
  assumes pre: "message_pre s" and get: "node_get (data_connections s) p = Some c"
    and live: "\<And>r. request = Some r \<Longrightarrow> node_get (requests s) r \<noteq> None"
    and dns: "dc_ip c \<noteq> None \<Longrightarrow> dc_dns1 c \<noteq> None \<and> dc_dns2 c \<noteq> None"
    and queued: "request \<noteq> None \<Longrightarrow> dc_token c \<in> tokens s"
  shows "wp (call_status_enabled p c request fail_cause s) (completing_post s)"
proof (cases "dc_enabled c")
  case True
  obtain b where b: "request_is RIL_REQUEST_DEACTIVATE_DATA_CALL request s = Some b"
    using request_is_live [OF quiet_refl live] by blast
  have "conn_live p s"
    using get by (simp add: conn_live_def)
  then show ?thesis
    using True b wp_call_status_error [OF quiet_refl _ pre live] wp_call_status_tail [OF quiet_refl [of s], of request p]
    by (auto simp: call_status_enabled_def completing_post_quiet)
next
  case False
  then show ?thesis
    using get dns queued unfolding call_status_enabled_def
    by (auto intro!: wp_connection_enable [OF quiet_refl get] wp_call_status_error [OF _ _ pre live]
      wp_call_status_activated [OF pre _ _ _ live])
qed

lemma wp_call_status_stopped:
  assumes pre: "message_pre s" and q: "quiet s s'" and ready: "request = None \<longrightarrow> fmt_ready s'"
    and live: "\<And>r. request = Some r \<Longrightarrow> node_get (requests s) r \<noteq> None"
  shows "wp (call_status_stopped p request s') (completing_post s)"
proof -
  obtain b where b: "request_is RIL_REQUEST_DEACTIVATE_DATA_CALL request s' = Some b" "b \<longrightarrow> request \<noteq> None"
    using request_is_live [OF q live] by blast
  have rq: "\<exists>rq. node_get (requests s') r = Some rq \<and> rq_token rq \<in> tokens s'" if "request = Some r" for r
    using live [OF that] q tokens_get [of s' r] by (auto simp: quiet_def)
  show ?thesis
  proof (cases b)
    case True
    then show ?thesis
      using b rq by (auto simp: call_status_stopped_def intro!: wp_message_complete [OF q pre]
        wp_call_status_tail [OF quiet_refl] completing_post_done [OF q])
  next
    case False
    then show ?thesis
      using b ready by (auto simp: call_status_stopped_def intro!: wp_call_status_tail [OF q] completing_post_quiet)
  qed
qed

lemma wp_call_status_disabled:
  assumes pre: "message_pre s" and get: "node_get (data_connections s) p = Some c"
    and live: "\<And>r. request = Some r \<Longrightarrow> node_get (requests s) r \<noteq> None"
    and send: "dc_enabled c \<Longrightarrow> request = None \<Longrightarrow> fmt_ready (io_next (io_next (io_next s)))"
  shows "wp (call_status_disabled p c request fail_cause s) (completing_post s)"
proof -
  have conn: "conn_live p s"
    using get by (simp add: conn_live_def)
  have conn': "conn_live p u" if "ril_request_complete token e d n s = Some (0, u)" for token e d n u
    using connections_complete [OF that] get by (simp add: conn_live_def)
  have stop: "wp (ril_data_connection_stop p s') (\<lambda>r s'. quiet s s' \<and> (request = None \<longrightarrow> fmt_ready s'))"
    if "quiet s s'" "conn_live p s'" "request = None \<longrightarrow> fmt_ready s'" for s'
    using that(2,3) quiet_trans [OF that(1) quiet_connection_unregister [of s' p]]
    by (auto simp: ril_data_connection_stop_def conn_live_def ril_data_connection_unregister_def fmt_ready_def io_result_def)
  obtain b where b: "request_is RIL_REQUEST_SETUP_DATA_CALL request s = Some b" "b \<longrightarrow> request \<noteq> None"
    using request_is_live [OF quiet_refl live] by blast
  have rq: "\<exists>rq. node_get (requests s) r = Some rq \<and> rq_token rq \<in> tokens s" if "request = Some r" for r
    using live [OF that] tokens_get [of s r] by blast
  consider "dc_enabled c" | "\<not> dc_enabled c" "b" | "\<not> dc_enabled c" "\<not> b"
    by blast
  then show ?thesis
  proof cases
    case 1
    with send show ?thesis
      by (auto simp: call_status_disabled_def intro!: wp_connection_disable [OF quiet_refl conn]
        wp_call_status_error [OF _ _ pre live] wp_call_status_stopped [OF pre _ _ live] wp_mono [OF stop])
  next
    case 2
    with b rq show ?thesis
      by (auto simp: call_status_disabled_def intro!: wp_message_complete [OF quiet_refl pre] conn'
        wp_call_status_error_None [OF quiet_refl] completing_post_done [OF quiet_refl])
  next
    case 3
    with b conn show ?thesis
      by (auto simp: call_status_disabled_def intro!: wp_call_status_tail [OF quiet_refl] completing_post_quiet)
  qed
qed

text \<open>What the handler relies on: name servers come with the address, and, when an enabled connection that no request
  is about ends, the modem takes the message sent afterwards; otherwise the freed connection is stopped again.\<close>

definition call_status_safe :: "ipc_message \<Rightarrow> ril_world \<Rightarrow> bool" where
  "call_status_safe m s \<longleftrightarrow> (\<forall>p c. ril_data_connection_find_cid (ucast (msg_data m ! 0)) s = Some p \<longrightarrow>
     node_get (data_connections s) p = Some c \<longrightarrow>
     (dc_ip c \<noteq> None \<longrightarrow> dc_dns1 c \<noteq> None \<and> dc_dns2 c \<noteq> None) \<and>
     (dc_enabled c \<and> ril_request_find_token (dc_token c) s = None \<longrightarrow> fmt_ready (io_next (io_next (io_next s)))))"

interpretation gprs_call_status: completing_handler ipc_gprs_call_status call_status_safe
proof
  fix s m
  assume pre: "message_pre s" and safe: "call_status_safe m s"
  show "wp (ipc_gprs_call_status m s) (completing_post s)"
  proof (cases "ril_data_connection_find_cid (ucast (msg_data m ! 0)) s")
    case None
    then show ?thesis
      using quiet_refl [of s] pre
      by (auto simp: ipc_gprs_call_status_def Let_def completing_post_def
        intro!: wp_mono [OF wp_message_complete_post message_post_completing [OF pre]])
  next
    case (Some p)
    then obtain c where c: "node_get (data_connections s) p = Some c"
      using find_conn_live(2) [OF Some] by (auto simp: conn_live_def)
    let ?request = "ril_request_find_token (dc_token c) s"
    have live: "\<And>r. ?request = Some r \<Longrightarrow> node_get (requests s) r \<noteq> None"
      by (auto simp: ril_request_find_token_def dest: node_find_Some_get_ex split: if_splits)
    have "dc_token c \<in> tokens s" if "?request \<noteq> None"
      using that by (auto simp: ril_request_find_token_def tokens_def dest!: node_find_Some_in split: if_splits
        intro: rev_image_eqI)
    moreover have "conn_live p s"
      using c by (simp add: conn_live_def)
    moreover have "(dc_ip c \<noteq> None \<longrightarrow> dc_dns1 c \<noteq> None \<and> dc_dns2 c \<noteq> None) \<and>
        (dc_enabled c \<and> ?request = None \<longrightarrow> fmt_ready (io_next (io_next (io_next s))))"
      using safe Some c by (simp add: call_status_safe_def)
    ultimately show ?thesis
      using Some c quiet_refl [of s] wp_call_status_enabled [OF pre c live] wp_call_status_disabled [OF pre c live]
        wp_call_status_tail [OF quiet_refl [of s], of ?request p]
      by (auto simp: ipc_gprs_call_status_def Let_def completing_post_def)
  qed
qed

subsection \<open>Properties\<close>

text \<open>C24. A data call is established. When the modem reports the context of a pending set-up request as enabled, and the
  addresses have been received and driver and interface set-up succeed, the RIL activates the context, configures the
  interface and then completes the request once, with success, the context number, the interface, the address, both name
  servers and the gateway; the connection is then enabled and no longer tied to the request.\<close>

theorem data_call_established:
  assumes "message_pre s" and "4 \<le> length (msg_data m)" and "msg_data m ! 1 = IPC_GPRS_STATUS_ENABLED"
    and "ril_radio_state_check RADIO_STATE_SIM_READY s = 0" and "fmt_data s" and "fmt_ipc_client s"
    and "0 \<le> io_result s" and "0 \<le> io_result (io_next s)"
    and "ril_data_connection_find_cid (ucast (msg_data m ! 0)) s = Some p" and "node_get (data_connections s) p = Some c"
    and "\<not> dc_enabled c" and "dc_iface c = Some iface" and "dc_ip c = Some ip" and "dc_gateway c = Some gateway"
    and "dc_subnet_mask c \<noteq> None" and "dc_dns1 c = Some dns1" and "dc_dns2 c = Some dns2"
    and "ril_request_find_token (dc_token c) s = Some r" and "node_get (requests s) r = Some rq"
    and "rq_request rq = RIL_REQUEST_SETUP_DATA_CALL" and "dc_token c \<noteq> 0"
  shows "\<exists>s'. ipc_gprs_call_status m s = Some (0, s') \<and>
    trace s' = trace s @ [Modem ''gprs_activate'', Ifc ''ifc_configure'' (Some iface),
      Complete (dc_token c) RIL_E_SUCCESS (RDataCalls
        [\<lparr>dr_status = ipc2ril_gprs_fail_cause (msg_data m ! 2), dr_cid = sint (dc_cid c), dr_active = 2,
          dr_type = Some ''IP'', dr_ifname = Some iface, dr_addresses = Some ip, dr_dnses = Some (dns1 @ '' '' @ dns2),
          dr_gateways = Some gateway\<rparr>]) 36] \<and>
    requests s' = filter (\<lambda>n. rq_token (snd n) \<noteq> dc_token c) (requests s) \<and>
    node_get (data_connections s') p = Some (c\<lparr>dc_enabled := True, dc_token := 0\<rparr>)"
proof -
  let ?u = "emit (Ifc ''ifc_configure'' (dc_iface c)) (io_next (emit (Modem ''gprs_activate'') (io_next s)))"
  let ?v = "?u\<lparr>data_connections := node_update p (\<lambda>c. c\<lparr>dc_enabled := True\<rparr>) (data_connections ?u)\<rparr>"
  have "io_result (emit (Modem ''gprs_activate'') (io_next s)) = io_result (io_next s)"
    by (simp add: io_result_def)
  then have enable: "ril_data_connection_enable p s = Some (0, ?v)"
    using assms(5-8,10,12-15) by (auto simp: ril_data_connection_enable_def Let_def)
  have "quiet s ?v"
    by (rule quiet_trans [OF quiet_trans [OF quiet_modem(1) quiet_modem(2)] quiet_connection_update])
  then have pre: "ril_inv ?v" "ril_data_alive ?v" "env_complete ?v"
    using message_pre_quiet [OF assms(1)] by (simp_all add: message_pre_def)
  note complete = ril_request_complete_eq [OF pre assms(21)]
  have frame: "data_connections (remove_token (dc_token c) ?v) = data_connections ?v"
    by (simp add: remove_token_def)
  show ?thesis
    using assms(2-4,9-21) enable complete frame
    by (simp add: ipc_gprs_call_status_def call_status_enabled_def call_status_activated_def request_is_def
      data_call_response_def connection_set_token_def call_status_tail_def)
qed

text \<open>The addresses the modem reports for a context are stored with its connection, in decimal notation: address and name
  servers from the message; the gateway is the device's own address and the mask is the host mask, whatever the message
  says of them. No other connection changes and no request is completed.\<close>

theorem ip_configuration_stored:
  assumes "27 \<le> length (msg_data m)" and "ril_data_connection_find_cid (ucast (msg_data m ! 0)) s = Some p"
    and "node_get (data_connections s) p = Some c"
  shows "\<exists>s' c'. ipc_gprs_ip_configuration m s = Some (0, s') \<and> trace s' = trace s \<and> requests s' = requests s \<and>
    node_get (data_connections s') p = Some c' \<and>
    dc_ip c' = Some (dotted_quad (msg_data m) 3) \<and> dc_gateway c' = dc_ip c' \<and>
    dc_subnet_mask c' = Some ''255.255.255.255'' \<and>
    dc_dns1 c' = Some (dotted_quad (msg_data m) 7) \<and> dc_dns2 c' = Some (dotted_quad (msg_data m) 11) \<and>
    dc_enabled c' = dc_enabled c \<and> dc_token c' = dc_token c \<and>
    (\<forall>r. r \<noteq> p \<longrightarrow> node_get (data_connections s') r = node_get (data_connections s) r)"
  using assms by (auto simp: ipc_gprs_ip_configuration_def Let_def)

text \<open>A connection is stopped twice. When the modem reports that an enabled connection ended which no request is about,
  and the message sent afterwards to read the contexts fails, \<open>ipc_gprs_call_status\<close> stops the connection
  again through the freed pointer.\<close>

theorem call_status_stops_twice:
  assumes "ril_data_alive s" and "4 \<le> length (msg_data m)" and "msg_data m ! 1 = IPC_GPRS_STATUS_DISABLED"
    and "ril_radio_state_check RADIO_STATE_SIM_READY s = 0" and "fmt_data s" and "fmt_ipc_client s" and "\<not> fmt_available s"
    and "0 \<le> io_result s" and "0 \<le> io_result (io_next s)" and "0 \<le> io_result (io_next (io_next s))"
    and "ril_data_connection_find_cid (ucast (msg_data m ! 0)) s = Some p" and "node_get (data_connections s) p = Some c"
    and "dc_enabled c" and "dc_iface c \<noteq> None" and "ril_request_find_token (dc_token c) s = None"
  shows "ipc_gprs_call_status m s = None"
proof -
  let ?u = "emit (Ifc ''ifc_disable'' (dc_iface c)) (io_next (emit (Ifc ''ifc_reset_connections'' (dc_iface c)) (io_next s)))"
  let ?v = "emit (Modem ''gprs_deactivate'') (io_next ?u)"
  let ?w = "?v\<lparr>data_connections := node_update p (\<lambda>c. c\<lparr>dc_enabled := False\<rparr>) (data_connections ?v)\<rparr>"
  have "io_result (emit e (io_next s)) = io_result (io_next s)"
    "io_result (emit e' (io_next (emit e (io_next s)))) = io_result (io_next (io_next s))" for e e'
    by (simp_all add: io_result_def io_next_def emit_def)
  then have "ril_data_connection_disable p s = Some (0, ?w)"
    using assms by (simp add: ril_data_connection_disable_def Let_def)
  then show ?thesis
    using assms
    by (simp add: ipc_gprs_call_status_def call_status_disabled_def call_status_stopped_def request_is_def
      call_status_tail_def call_status_error_def ril_data_connection_stop_def ril_data_connection_unregister_def
      ipc_fmt_send_def IPC_GPRS_STATUS_DISABLED_def IPC_GPRS_STATUS_ENABLED_def)
qed

lemma request_token_connections [simp]:
  "ipc_fmt_request_token q (s\<lparr>data_connections := cs\<rparr>) = ipc_fmt_request_token q s"
  by (simp add: ipc_fmt_request_token_def ipc_fmt_request_find_seq_def split: option.split)

text \<open>A late answer can end an unrelated connection. Established connections have the token \<open>NULL\<close>, and so has an answer
  whose request is no longer queued; the callback of a failed context activation then finds the first established connection
  and removes it from the list, without deactivating it and without completing anything.\<close>

theorem stale_response_drops_connection:
  assumes "message_pre s" and "gen_phone_res_data (msg_data m) = Some d" and "ipc_gen_phone_res_check d < 0"
    and "ipc_fmt_request_token (msg_aseq m) s = 0" and "ril_data_connection_find_token 0 s = Some p"
    and "node_get (data_connections s) p = Some c" and "dc_enabled c"
  shows "\<exists>s'. ipc_gprs_pdp_context_callback m s = Some (0, s') \<and> trace s' = trace s \<and>
    data_connections s' = node_remove p (data_connections s) \<and> node_get (data_connections s') p = None"
  using assms
  by (simp add: ipc_gprs_pdp_context_callback_def callback_error_def ril_data_connection_stop_def message_pre_def
    ril_data_connection_unregister_def message_complete_def ril_request_complete_def)

text \<open>A world with one data connection on context 1.\<close>

definition data_world :: "bool \<Rightarrow> ril_token \<Rightarrow> ril_world" where
  "data_world enabled token = (initial_world [])\<lparr>ril_data_alive := True, env_complete := True, env_unsolicited := True,
     radio_state := RADIO_STATE_SIM_READY, fmt_data := True, fmt_ipc_client := True, next_addr := 6,
     requests := [(1, \<lparr>rq_request = RIL_REQUEST_SETUP_DATA_CALL, rq_data = None, rq_size = 0, rq_token = 7, rq_status = RIL_REQUEST_HANDLED\<rparr>)],
     fmt_requests := [(2, \<lparr>fr_request = RIL_REQUEST_SETUP_DATA_CALL, fr_token = 7, fr_seq = 5\<rparr>)],
     data_connections := [(3, \<lparr>dc_cid = 1, dc_enabled = enabled, dc_attached = False, dc_apn = Some ''web'', dc_username = None,
       dc_password = None, dc_iface = Some ''rmnet0'', dc_ip = Some ''10.0.0.2'', dc_gateway = Some ''10.0.0.2'',
       dc_subnet_mask = Some ''255.255.255.255'', dc_dns1 = Some ''8.8.8.8'', dc_dns2 = Some ''8.8.4.4'', dc_token = token\<rparr>)]\<rparr>"

lemmas data_world_simps = data_world_def message_pre_def ril_inv_def nodes_ok_def fmt_mirror_def io_result_def io_next_def
  ril_radio_state_check_def radio_states_def radio_state_defs ril_data_connection_find_cid_def
  ril_data_connection_find_token_def ril_request_find_token_def ipc_fmt_request_token_def ipc_fmt_request_find_seq_def
  initial_world_def

theorem data_call_established_witness:
  "\<exists>s'. ipc_gprs_call_status \<lparr>msg_mseq = 0, msg_aseq = 0, msg_command = IPC_GPRS_CALL_STATUS, msg_type = 3, msg_data = [1, 1, 0, 0]\<rparr>
      (data_world False 7) = Some (0, s') \<and> requests s' = [] \<and> completions (trace s') = [7]"
  using data_call_established [of "data_world False 7"
      "\<lparr>msg_mseq = 0, msg_aseq = 0, msg_command = IPC_GPRS_CALL_STATUS, msg_type = 3, msg_data = [1, 1, 0, 0]\<rparr>" 3
      "snd (hd (data_connections (data_world False 7)))" "''rmnet0''" "''10.0.0.2''" "''10.0.0.2''" "''8.8.8.8''" "''8.8.4.4''" 1
      "snd (hd (requests (data_world False 7)))"]
  by (force simp: data_world_simps IPC_GPRS_STATUS_ENABLED_def)

theorem ip_configuration_stored_witness:
  "\<exists>s' c'. ipc_gprs_ip_configuration \<lparr>msg_mseq = 0, msg_aseq = 0, msg_command = IPC_GPRS_IP_CONFIGURATION, msg_type = 3,
      msg_data = [1, 0, 0, 192, 168, 0, 7] @ replicate 20 0\<rparr> (data_world False 7) = Some (0, s') \<and>
    node_get (data_connections s') 3 = Some c' \<and> dc_ip c' = Some ''192.168.0.7''"
proof -
  have "dotted_quad ([1, 0, 0, 192, 168, 0, 7] @ replicate 20 0) 3 = ''192.168.0.7''"
    by code_simp
  then show ?thesis
    using ip_configuration_stored [of "\<lparr>msg_mseq = 0, msg_aseq = 0, msg_command = IPC_GPRS_IP_CONFIGURATION, msg_type = 3,
        msg_data = [1, 0, 0, 192, 168, 0, 7] @ replicate 20 0\<rparr>" "data_world False 7" 3
        "snd (hd (data_connections (data_world False 7)))"]
    by (fastforce simp: data_world_simps)
qed

theorem call_status_stops_twice_witness:
  "ipc_gprs_call_status \<lparr>msg_mseq = 0, msg_aseq = 0, msg_command = IPC_GPRS_CALL_STATUS, msg_type = 3, msg_data = [1, 3, 0, 0]\<rparr>
     (data_world True 0) = None"
  by (rule call_status_stops_twice [where p = 3 and c = "snd (hd (data_connections (data_world True 0)))"])
    (simp_all add: data_world_simps IPC_GPRS_STATUS_DISABLED_def)

theorem stale_response_drops_connection_witness:
  "\<exists>s'. ipc_gprs_pdp_context_callback \<lparr>msg_mseq = 0, msg_aseq = 9, msg_command = IPC_GEN_PHONE_RES, msg_type = 2,
      msg_data = [0x0D, 4, 3, 0, 0]\<rparr> (data_world True 0) = Some (0, s') \<and> data_connections s' = []"
  using stale_response_drops_connection [of "data_world True 0" "\<lparr>msg_mseq = 0, msg_aseq = 9, msg_command = IPC_GEN_PHONE_RES,
      msg_type = 2, msg_data = [0x0D, 4, 3, 0, 0]\<rparr>" "\<lparr>gp_group = 0x0D, gp_index = 4, gp_type = 3, gp_code = 0\<rparr>" 3
      "snd (hd (data_connections (data_world True 0)))"]
  by (auto simp: data_world_simps ipc_gen_phone_res_check_def le16_def)

end
