(* ===== verification/Plmn_List.thy ===== *)
theory Plmn_List
  imports Prelude
begin

section \<open>samsung-ril: the table of network operators\<close>

text \<open>
  The array \<open>plmn_list\<close> of \<open>include/plmn_list.h\<close>: country code, network code and name of an operator, in the order of the source. The long and
  the short name are the same string in every row. A name is the list of its bytes; the few bytes outside ASCII are written by
  their codes.
\<close>

record plmn_list_entry =
  mcc :: nat
  mnc :: nat
  operator_long :: string
  operator_short :: string

definition plmn_entry :: "nat \<times> nat \<times> string \<Rightarrow> plmn_list_entry" where
  "plmn_entry r = (case r of (c, n, name) \<Rightarrow> \<lparr>mcc = c, mnc = n, operator_long = name, operator_short = name\<rparr>)"

definition plmn_list_1 :: "(nat \<times> nat \<times> string) list" where
  "plmn_list_1 = [
     (1, 1, ''TEST''),
     (289, 67, ''Aquafon''),
     (289, 88, ''A-Mobile''),
     (412, 1, ''AWCC''),
     (412, 20, ''Roshan''),
     (412, 40, ''MTN''),
     (412, 50, ''Etisalat''),
     (412, 55, ''WASEL''),
     (412, 80, ''Salaam''),
     (412, 88, ''Salaam''),
     (276, 1, ''AMC''),
     (276, 2, ''Vodafone''),
     (276, 3, ''Eagle Mobile''),
     (276, 4, ''Plus Communication''),
     (603, 1, ''Mobilis''),
     (603, 2, ''Djezzy''),
     (603, 3, ''Ooredoo''),
     (544, 11, ''Bluesky''),
     (213, 3, ''Mobiland''),
     (631, 2, ''UNITEL''),
     (631, 4, ''MOVICEL''),
     (365, 10, ''Weblinks Limited''),
     (365, 840, ''LIME''),
     (344, 30, ''APUA''),
     (344, 50, ''Digicel''),
     (344, 920, ''LIME''),
     (344, 930, ''AT&T Wireless''),
     (722, 10, ''Movistar''),
     (722, 20, ''Nextel''),
     (722, 40, ''Globalstar''),
     (722, 70, ''Movistar''),
     (722, 310, ''Claro''),
     (722, 320, ''Claro''),
     (722, 330, ''Claro''),
     (722, 340, ''Personal''),
     (722, 350, ''PORT-HABLE''),
     (283, 1, ''Beeline''),
     (283, 4, ''Karabakh Telecom''),
     (283, 5, ''VivaCell-MTS''),
     (283, 10, ''Orange''),
     (363, 1, ''SETAR''),
     (363, 2, ''Digicel''),
     (505, 1, ''Telstra''),
     (505, 2, ''Optus''),
     (505, 3, ''Vodafone''),
     (505, 4, ''Department of Defence''),
     (505, 5, ''Ozitel''),
     (505, 6, ''3''),
     (505, 7, ''Vodafone''),
     (505, 8, ''One.Tel''),
     (505, 9, ''Airnet''),
     (505, 10, ''Norfolk Is.''),
     (505, 11, ''Telstra''),
     (505, 12, ''3''),
     (505, 13, ''Railcorp''),
     (505, 14, ''AAPT''),
     (505, 15, ''3GIS''),
     (505, 16, ''VicTrack''),
     (505, 17, ''Vidid Wireless Pty. Ltd.''),
     (505, 18, ''Pactel''),
     (505, 19, ''Lycamobile''),
     (505, 20, ''Ausgrid Corporation''),
     (505, 21, ''Queensland Rail Limited''),
     (505, 22, ''iiNet Ltd''),
     (505, 23, ''Challenge Networks Pty. Ltd.''),
     (505, 24, ''Advanced Communications Technologies Pty. Ltd.''),
     (505, 25, ''Pilbara Iron Company Services Pty Ltd''),
     (505, 26, ''Dialogue Communications Pty. Ltd.''),
     (505, 27, ''Nexium Telecommunications''),
     (505, 28, ''RCOM International Pty Ltd''),
     (505, 38, ''Crazy John'' @ [CHR 0x27] @ ''s''),
     (505, 62, ''NBN''),
     (505, 68, ''NBN''),
     (505, 71, ''Telstra''),
     (505, 72, ''Telstra''),
     (505, 88, ''Localstar Holding Pty. Ltd.''),
     (505, 90, ''Optus''),
     (505, 99, ''One.Tel''),
     (232, 1, ''A1 TA''),
     (232, 2, ''A1 Telekom Austria''),
     (232, 3, ''T-Mobile AT''),
     (232, 4, ''T-Mobile AT''),
     (232, 5, ''Orange AT''),
     (232, 6, ''Orange AT''),
     (232, 7, ''tele.ring''),
     (232, 9, ''Tele2Mobil''),
     (232, 10, ''3AT''),
     (232, 11, ''bob''),
     (232, 12, ''yesss!''),
     (232, 14, ''Hutchison Drei Austria''),
     (232, 15, ''Vectone''),
     (232, 16, ''Hutchison Drei Austria''),
     (400, 1, ''Azercell''),
     (400, 2, ''Bakcell''),
     (400, 3, ''FONEX''),
     (400, 4, ''Nar Mobile''),
     (364, 39, ''BaTelCo''),
     (426, 1, ''Batelco'')]"

definition plmn_list_2 :: "(nat \<times> nat \<times> string) list" where
  "plmn_list_2 = [
     (426, 2, ''zain BH''),
     (426, 3, ''Civil Aviation Authority''),
     (426, 4, ''VIVA Bahrain''),
     (426, 5, ''Batelco''),
     (470, 1, ''Grameenphone''),
     (470, 2, ''Robi''),
     (470, 3, ''Banglalink''),
     (470, 4, ''TeleTalk''),
     (470, 5, ''Citycell''),
     (470, 6, ''Beeong3G Warid Telekom''),
     (470, 7, ''Airtel''),
     (342, 600, ''LIME''),
     (342, 750, ''Digicel''),
     (342, 820, ''Sunbeach Communications''),
     (257, 1, ''velcom''),
     (257, 2, ''MTS''),
     (257, 3, ''DIALLOG''),
     (257, 4, ''life:)''),
     (257, 5, ''Beltelecom''),
     (257, 6, ''Belorussian Cloud Technologies''),
     (257, 501, ''BelCel JV''),
     (206, 1, ''Proximus''),
     (206, 2, ''N.M.B.S.''),
     (206, 5, ''Telenet''),
     (206, 6, ''Lycamobile''),
     (206, 7, ''Vectone Mobile''),
     (206, 9, ''Voxbone''),
     (206, 10, ''Mobistar''),
     (206, 15, ''Elephant Talk Communications Schweiz GmbH''),
     (206, 20, ''BASE''),
     (702, 67, ''DigiCell''),
     (702, 68, ''INTELCO''),
     (702, 99, ''Smart''),
     (616, 1, ''Libercom''),
     (616, 2, ''Moov''),
     (616, 3, ''MTN''),
     (616, 4, ''BBCOM''),
     (616, 4, ''BLK''),
     (616, 5, ''Glo''),
     (310, 59, ''Cellular One''),
     (338, 50, ''Digicel Bermuda''),
     (350, 1, ''Digicel Bermuda''),
     (350, 2, ''Mobility''),
     (402, 11, ''B-Mobile''),
     (402, 77, ''TashiCell''),
     (736, 1, ''Nuevatel''),
     (736, 2, ''Entel''),
     (736, 3, ''Tigo''),
     (218, 3, ''HT-ERONET''),
     (218, 5, ''m:tel''),
     (218, 90, ''BH Mobile''),
     (652, 1, ''Mascom''),
     (652, 2, ''Orange''),
     (652, 4, ''BTC Mobile''),
     (724, 2, ''TIM''),
     (724, 3, ''TIM''),
     (724, 4, ''TIM''),
     (724, 5, ''Claro BR''),
     (724, 55, ''Sercomtel''),
     (724, 6, ''Vivo''),
     (724, 10, ''Vivo''),
     (724, 11, ''Vivo''),
     (724, 15, ''CTBC Celular''),
     (724, 16, ''Brasil Telecom GSM''),
     (724, 23, ''Vivo''),
     (724, 31, ''Oi''),
     (724, 32, ''CTBC Celular''),
     (724, 33, ''CTBC Celular''),
     (724, 34, ''CTBC Celular''),
     (724, 39, ''Nextel''),
     (348, 170, ''LIME''),
     (348, 370, ''BVI Cable TV Ltd''),
     (348, 570, ''CCT Boatphone''),
     (348, 770, ''Digicel''),
     (528, 1, ''Jabatan Telekom Brunei''),
     (528, 2, ''B-Mobile''),
     (528, 11, ''DSTCom''),
     (284, 1, ''M-Tel''),
     (284, 3, ''Vivacom''),
     (284, 5, ''GLOBUL''),
     (284, 7, [CHR 0xD0] @ [CHR 0x9D] @ [CHR 0xD0] @ [CHR 0x9A] @ [CHR 0xD0] @ [CHR 0x96] @ [CHR 0xD0] @ [CHR 0x98]),
     (284, 9, ''COMPATEL LIMITED''),
     (284, 11, ''Bulsatcom''),
     (284, 13, ''Max Telecom''),
     (613, 1, ''Telmob''),
     (613, 2, ''Airtel''),
     (613, 3, ''Telecel Faso''),
     (642, 1, ''Spacetel''),
     (642, 2, ''Tempo''),
     (642, 3, ''Onatel''),
     (642, 7, ''Smart Mobile''),
     (642, 8, ''HiTs Telecom''),
     (642, 82, ''Leo''),
     (456, 1, ''Cellcard''),
     (456, 2, ''Smart'')]"

definition plmn_list_3 :: "(nat \<times> nat \<times> string) list" where
  "plmn_list_3 = [
     (456, 3, ''qb''),
     (456, 4, ''qb''),
     (456, 5, ''Latelz Company Limited''),
     (456, 6, ''Latelz Company Limited''),
     (456, 8, ''Cellcard''),
     (456, 9, ''Beeline''),
     (456, 11, ''Excell''),
     (456, 18, ''Cellcard''),
     (624, 1, ''MTN Cameroon''),
     (624, 2, ''Orange''),
     (302, 220, ''Telus''),
     (302, 221, ''Telus''),
     (302, 222, ''Telus''),
     (302, 250, ''ALO''),
     (302, 270, ''EastLink''),
     (302, 290, ''Airtel Wireless''),
     (302, 320, ''Mobilicity''),
     (302, 340, ''Execulink''),
     (302, 350, ''FIRST''),
     (302, 360, ''MiKe''),
     (302, 361, ''Telus''),
     (302, 370, ''Fido''),
     (302, 380, ''DMTS''),
     (302, 480, ''SSi Connexions''),
     (302, 490, ''WIND Mobile''),
     (302, 500, ''Videotron''),
     (302, 510, ''Videotron''),
     (302, 530, ''Keewatinook Okimacinac''),
     (302, 560, ''Lynx Mobility''),
     (302, 570, ''LightSquared''),
     (302, 590, ''Quadro Communication''),
     (302, 610, ''Bell''),
     (302, 620, ''ICE Wireless''),
     (302, 630, ''Aliant Mobility''),
     (302, 640, ''Bell''),
     (302, 652, ''BC Tel Mobility (Telus)''),
     (302, 653, ''Telus''),
     (302, 655, ''MTS''),
     (302, 656, ''TBay''),
     (302, 657, ''Telus''),
     (302, 660, ''MTS''),
     (302, 670, ''CityTel Mobility''),
     (302, 680, ''SaskTel''),
     (302, 690, ''Bell''),
     (302, 701, ''MB Tel Mobility''),
     (302, 702, ''MT&T Mobility (Aliant)''),
     (302, 703, ''New Tel Mobility (Aliant)''),
     (302, 710, ''Globalstar''),
     (302, 720, ''Rogers Wireless''),
     (302, 730, ''TerreStar Solutions''),
     (302, 740, ''Shaw Telecom G.P.''),
     (302, 750, ''SaskTel''),
     (302, 760, ''Public Mobile Inc.''),
     (302, 770, ''Rural Com''),
     (302, 780, ''SaskTel''),
     (302, 860, ''Telus''),
     (302, 880, ''Bell / Telus / SaskTel''),
     (302, 940, ''Wightman Telecom''),
     (625, 1, ''CVMOVEL''),
     (625, 2, ''T+''),
     (346, 140, ''LIME''),
     (346, 50, ''Digicel''),
     (623, 1, ''CTP''),
     (623, 2, ''TC''),
     (623, 3, ''Orange''),
     (623, 4, ''Nationlink''),
     (622, 1, ''Airtel''),
     (622, 2, ''Tchad Mobile''),
     (622, 2, ''Tawali''),
     (622, 3, ''Tigo''),
     (622, 4, ''Salam''),
     (730, 1, ''entel''),
     (730, 2, ''movistar''),
     (730, 3, ''Claro''),
     (730, 4, ''Nextel''),
     (730, 5, ''Multikom S.A.''),
     (730, 6, ''Blue Two Chile S.A.''),
     (730, 7, ''Virgin Mobile''),
     (730, 8, ''VTR M'' @ [CHR 0xC3] @ [CHR 0xB3] @ ''vil''),
     (730, 9, ''Nextel''),
     (730, 10, ''entel''),
     (730, 11, ''Celupago S.A.''),
     (730, 12, ''Telestar M'' @ [CHR 0xC3] @ [CHR 0xB3] @ ''vil S.A.''),
     (730, 13, ''Tribe Mobile Chile SPA''),
     (730, 14, ''Netline Telef'' @ [CHR 0xC3] @ [CHR 0xB3] @ ''nica M'' @ [CHR 0xC3] @ [CHR 0xB3] @ ''vil Ltda''),
     (730, 15, ''Cibeles Telecom S.A.''),
     (730, 99, ''Will''),
     (460, 1, ''China Unicom''),
     (460, 2, ''China Mobile''),
     (460, 3, ''China Telecom''),
     (460, 4, ''Global Star Satellite''),
     (460, 5, ''China Telecom''),
     (460, 6, ''China Unicom''),
     (460, 7, ''China Mobile''),
     (460, 20, ''China Tietong''),
     (732, 1, ''Colombia Telecomunicaciones S.A.''),
     (732, 2, ''Edatel''),
     (732, 20, ''Emtelsa''),
     (732, 99, ''EMCALI''),
     (732, 101, ''Claro''),
     (732, 102, ''movistar''),
     (732, 103, ''Tigo''),
     (732, 111, ''Tigo''),
     (732, 123, ''movistar''),
     (732, 130, ''AVANTEL''),
     (732, 123, ''Virgin Mobile Colombia''),
     (654, 1, ''Comoros Telecom''),
     (629, 1, ''Airtel''),
     (629, 7, ''Warid Telecom''),
     (629, 10, ''Libertis Telecom'')]"

definition plmn_list_4 :: "(nat \<times> nat \<times> string) list" where
  "plmn_list_4 = [
     (548, 1, ''Telecom Cook''),
     (712, 1, ''Kolbi ICE''),
     (712, 2, ''Kolbi ICE''),
     (712, 3, ''Claro''),
     (712, 4, ''movistar''),
     (712, 20, [CHR 0x27] @ [CHR 0x27] @ [CHR 0x27] @ ''full'' @ [CHR 0x27] @ [CHR 0x27] @ [CHR 0x27] @ ''m'' @ [CHR 0xC3] @ [CHR 0xB3] @ ''vil''),
     (219, 1, ''T-Mobile''),
     (219, 2, ''Tele2''),
     (219, 10, ''Vip''),
     (368, 1, ''CUBACEL''),
     (280, 1, ''Cytamobile-Vodafone''),
     (280, 10, ''MTN''),
     (280, 20, ''PrimeTel''),
     (280, 22, ''lemontel''),
     (230, 1, ''T-Mobile''),
     (230, 2, ''O2''),
     (230, 3, ''Vodafone''),
     (230, 4, ''U:fon''),
     (230, 5, ''TRAVEL TELEKOMMUNIKATION, s.r.o.''),
     (230, 6, ''OSNO TELECOMUNICATION, s.r.o.''),
     (230, 7, ''ASTELNET, s.r.o.''),
     (230, 8, ''Compatel s.r.o.''),
     (230, 98, ''Spr'' @ [CHR 0xC3] @ [CHR 0xA1] @ ''va '' @ [CHR 0xC5] @ [CHR 0xBE] @ ''elezni'' @ [CHR 0xC4] @ [CHR 0x8D] @ ''n'' @ [CHR 0xC3] @ [CHR 0xAD] @ '' dopravn'' @ [CHR 0xC3] @ [CHR 0xAD] @ '' cesty, s.o.''),
     (230, 99, ''Vodafone''),
     (630, 1, ''Vodacom''),
     (630, 2, ''airtel''),
     (630, 4, ''Cellco''),
     (630, 5, ''Supercell''),
     (630, 10, ''Libertis Telecom''),
     (630, 86, ''Orange''),
     (630, 88, ''YTT''),
     (630, 89, ''Tigo''),
     (630, 90, ''Africell''),
     (238, 1, ''TDC''),
     (238, 2, ''Telenor''),
     (238, 3, ''End2End''),
     (238, 4, ''NextGen Mobile Ltd''),
     (238, 5, ''TetraNet''),
     (238, 6, ''3''),
     (238, 7, ''Vectone Mobile''),
     (238, 8, ''Voxbone''),
     (238, 9, ''SINE''),
     (238, 10, ''TDC''),
     (238, 11, ''SINE''),
     (238, 12, ''Lycamobile''),
     (238, 13, ''Compatel Limited''),
     (238, 20, ''Telia''),
     (238, 23, ''GSM-R DK''),
     (238, 28, ''CoolTEL ApS''),
     (238, 30, ''Interactive digital media GmbH''),
     (238, 40, ''Ericsson Danmark A/S''),
     (238, 43, ''MobiWeb Limited''),
     (238, 66, ''TT-Netv'' @ [CHR 0xC3] @ [CHR 0xA6] @ ''rket P/S''),
     (238, 77, ''Telenor''),
     (638, 1, ''Evatis''),
     (366, 20, ''Digicel''),
     (366, 110, ''Cable &  Wireless''),
     (370, 1, ''Orange''),
     (370, 2, ''Claro''),
     (370, 3, ''Tricom''),
     (370, 4, ''Viva''),
     (514, 1, ''Telin Telkomcel''),
     (514, 2, ''Timor Telecom''),
     (514, 3, ''Viettel Timor-Leste''),
     (740, 1, ''Claro''),
     (740, 2, ''CNT Mobile''),
     (602, 1, ''Mobinil''),
     (602, 2, ''Vodafone''),
     (602, 3, ''Etisalat''),
     (706, 1, ''CTE Telecom Personal, Claro''),
     (706, 2, ''digicel''),
     (706, 3, ''Tigo''),
     (706, 4, ''movistar''),
     (627, 1, ''Orange GQ''),
     (627, 3, ''Hits GQ''),
     (657, 1, ''Eritel''),
     (248, 1, ''EMT''),
     (248, 2, ''Elisa''),
     (248, 3, ''Tele 2''),
     (248, 4, ''OY Top Connect''),
     (248, 5, ''AS Bravocom Mobiil''),
     (248, 6, ''Progroup Holding''),
     (248, 7, ''Telev'' @ [CHR 0xC3] @ [CHR 0xB5] @ ''rgu AS''),
     (248, 8, ''VIVEX''),
     (248, 9, ''Bravo Telecom''),
     (248, 71, ''Siseministeerium (Ministry of Interior)''),
     (636, 1, ''ETH-MTN''),
     (288, 1, ''Faroese Telecom''),
     (288, 2, ''Vodafone''),
     (288, 3, ''Edge Mobile Sp/F'')]"

definition plmn_list_5 :: "(nat \<times> nat \<times> string) list" where
  "plmn_list_5 = [
     (542, 1, ''Vodafone''),
     (542, 2, ''Digicel''),
     (542, 3, ''Telecom Fiji Ltd''),
     (244, 3, ''DNA''),
     (244, 4, ''AINA''),
     (244, 5, ''Elisa''),
     (244, 7, ''Nokia''),
     (244, 8, ''Nokia''),
     (244, 9, ''Finnet Group / Nokia Solutions and Networks''),
     (244, 10, ''TDC''),
     (244, 11, ''Vectone Mobile''),
     (244, 12, ''DNA''),
     (244, 13, ''DNA''),
     (244, 14, [CHR 0xC3] @ [CHR 0x85] @ ''lcom''),
     (244, 15, ''SAMK''),
     (244, 16, ''Oy Finland Tele2 AB''),
     (244, 21, ''Saunalahti''),
     (244, 25, ''Datame''),
     (244, 26, ''Compatel''),
     (244, 29, ''SCNL Truphone''),
     (244, 30, ''Vectone Mobile''),
     (244, 31, ''Ukko Mobile''),
     (244, 32, ''Voxbone''),
     (244, 91, ''Sonera''),
     (208, 1, ''Orange''),
     (208, 2, ''Orange''),
     (208, 3, ''MobiquiThings''),
     (208, 4, ''Sisteer''),
     (208, 5, ''Globalstar Europe''),
     (208, 6, ''Globalstar Europe''),
     (208, 7, ''Globalstar Europe''),
     (208, 8, ''Completel Mobile''),
     (208, 9, ''SFR''),
     (208, 10, ''SFR''),
     (208, 11, ''SFR''),
     (208, 13, ''SFR''),
     (208, 14, ''RFF''),
     (208, 15, ''Free Mobile''),
     (208, 16, ''Free Mobile''),
     (208, 17, ''LEGOS''),
     (208, 18, ''Voxbone''),
     (208, 20, ''Bouygues''),
     (208, 21, ''Bouygues''),
     (208, 22, ''Transatel Mobile''),
     (208, 23, ''Virgin Mobile (MVNO)''),
     (208, 24, ''MobiquiThings''),
     (208, 25, ''LycaMobile''),
     (208, 26, ''NRJ Mobile (MVNO)''),
     (208, 27, ''Afone''),
     (208, 28, ''Astrium SAS''),
     (208, 29, ''Soci'' @ [CHR 0xC3] @ [CHR 0xA9] @ ''t'' @ [CHR 0xC3] @ [CHR 0xA9] @ '' International Mobile Communication''),
     (208, 30, ''Symacom''),
     (208, 31, ''Vectone''),
     (208, 88, ''Bouygues''),
     (208, 89, ''Omer Telecom Ltd''),
     (208, 90, ''Images & R'' @ [CHR 0xC3] @ [CHR 0xA9] @ ''seaux''),
     (208, 91, ''Orange S.A.''),
     (208, 92, ''Com4Innov''),
     (208, 93, ''TDF''),
     (547, 10, ''Mara Telecom''),
     (547, 15, ''Vodafone''),
     (547, 20, ''Vini''),
     (628, 1, ''Libertis''),
     (628, 2, ''Moov''),
     (628, 3, ''Airtel''),
     (628, 4, ''Azur''),
     (628, 5, ''RAG''),
     (607, 1, ''Gamcel''),
     (607, 2, ''Africel''),
     (607, 3, ''Comium''),
     (607, 4, ''QCell''),
     (282, 1, ''Geocell''),
     (282, 2, ''MagtiCom''),
     (282, 3, ''MagtiCom''),
     (282, 4, ''Beeline''),
     (282, 5, ''Silknet''),
     (282, 6, ''JSC Compatel''),
     (282, 7, ''GlobalCell Ltd''),
     (262, 1, ''Telekom''),
     (262, 2, ''Vodafone''),
     (262, 3, ''E-Plus''),
     (262, 4, ''Vodafone''),
     (262, 5, ''E-Plus''),
     (262, 6, ''T-Mobile''),
     (262, 7, ''O2''),
     (262, 8, ''O2''),
     (262, 9, ''Vodafone''),
     (262, 10, ''DB Netz AG''),
     (262, 11, ''O2''),
     (262, 12, ''Dolphin Telecom / sipgate''),
     (262, 13, ''Mobilcom Multimedia''),
     (262, 14, ''Group 3G UMTS''),
     (262, 15, ''Airdata''),
     (262, 16, ''Telogic ex. Vistream''),
     (262, 17, ''E-Plus''),
     (262, 18, ''NetCologne''),
     (262, 19, ''Inquam Deutschland''),
     (262, 20, ''OnePhone''),
     (262, 41, ''First Telecom GmbH''),
     (262, 42, ''CCC Event''),
     (262, 43, ''LYCA''),
     (262, 60, ''DB Telematik''),
     (262, 76, ''Siemens AG''),
     (262, 77, ''E-Plus''),
     (262, 78, ''T-Mobile''),
     (262, 79, ''ng4T GmbH''),
     (262, 92, ''Nash Technologies''),
     (262, 901, ''Debitel''),
     (620, 1, ''MTN''),
     (620, 2, ''Vodafone''),
     (620, 3, ''tiGO''),
     (620, 4, ''Expresso''),
     (620, 6, ''Airtel''),
     (620, 7, ''Globacom''),
     (620, 11, ''Netafrique Dot Com Ltd''),
     (266, 1, ''GibTel'')]"

definition plmn_list_6 :: "(nat \<times> nat \<times> string) list" where
  "plmn_list_6 = [
     (266, 6, ''CTS Mobile''),
     (266, 9, ''Shine''),
     (202, 1, ''Cosmote''),
     (202, 2, ''Cosmote''),
     (202, 3, ''OTE''),
     (202, 4, ''EDISY''),
     (202, 5, ''Vodafone''),
     (202, 6, ''Cosmoline''),
     (202, 7, ''AMD Telecom''),
     (202, 9, ''Wind''),
     (202, 10, ''Wind''),
     (290, 1, ''TELE Greenland A/S''),
     (352, 30, ''Digicel''),
     (352, 110, ''Cable &  Wireless''),
     (340, 1, ''Orange''),
     (340, 2, ''Outremer''),
     (340, 3, ''Telcell''),
     (340, 8, ''Dauphin''),
     (340, 20, ''Digicel''),
     (310, 32, ''IT&E Wireless''),
     (310, 33, ''Guam Telephone Authority''),
     (310, 140, ''mPulse''),
     (311, 250, ''i CAN_GSM''),
     (310, 370, ''Docomo''),
     (310, 470, ''Docomo''),
     (704, 1, ''Claro''),
     (704, 2, ''Tigo''),
     (704, 3, ''movistar''),
     (234, 3, ''Airtel Vodafone''),
     (234, 50, ''Wave Telecom''),
     (234, 55, ''Sure Mobile''),
     (611, 1, ''Orange S.A.''),
     (611, 2, ''Sotelgui''),
     (611, 3, ''Telecel Guinee''),
     (611, 4, ''MTN''),
     (611, 5, ''Cellcom''),
     (632, 1, ''Guinetel''),
     (632, 2, ''MTN Areeba''),
     (632, 3, ''Orange''),
     (632, 7, ''Guinetel''),
     (738, 1, ''Digicel''),
     (738, 2, ''GT&T Cellink Plus''),
     (372, 1, ''Voila''),
     (372, 2, ''Digicel''),
     (372, 3, ''Natcom''),
     (708, 1, ''Claro''),
     (708, 2, ''Tigo''),
     (708, 30, ''Hondutel''),
     (708, 40, ''Digicel''),
     (454, 1, ''CITIC Telecom 1616''),
     (454, 2, ''CSL Limited''),
     (454, 3, ''3''),
     (454, 4, ''3 (2G)''),
     (454, 5, ''3 (CDMA)''),
     (454, 6, ''SmarTone''),
     (454, 7, ''China Unicom (Hong Kong) Limited''),
     (454, 8, ''Truphone''),
     (454, 9, ''China Motion Telecom''),
     (454, 10, ''New World Mobility''),
     (454, 11, ''China-Hong Kong Telecom''),
     (454, 12, ''CMCC HK''),
     (454, 13, ''CMCC HK''),
     (454, 14, ''Hutchison Telecom''),
     (454, 15, ''SmarTone Mobile Communications Limited''),
     (454, 16, ''PCCW Mobile (2G)''),
     (454, 17, ''SmarTone Mobile Communications Limited''),
     (454, 18, ''CSL Limited''),
     (454, 19, ''PCCW Mobile (3G/4G)''),
     (454, 22, ''P Plus''),
     (454, 29, ''PCCW Mobile (CDMA)''),
     (216, 1, ''Telenor''),
     (216, 20, ''Telenor''),
     (216, 30, ''T-Mobile''),
     (216, 70, ''Vodafone''),
     (216, 71, ''UPC Hungary''),
     (216, 99, ''MAV GSM-R''),
     (274, 1, ''S'' @ [CHR 0xC3] @ [CHR 0xAD] @ ''minn''),
     (274, 2, ''Vodafone''),
     (274, 3, ''Vodafone''),
     (274, 4, ''Viking''),
     (274, 6, ''N'' @ [CHR 0xC3] @ [CHR 0xBA] @ ''ll n'' @ [CHR 0xC3] @ [CHR 0xAD] @ ''u ehf''),
     (274, 7, ''IceCell''),
     (274, 8, ''On-waves''),
     (274, 11, ''Nova''),
     (274, 12, ''Tal''),
     (404, 1, ''Vodafone IN''),
     (404, 2, ''AirTel''),
     (404, 3, ''AirTel''),
     (404, 4, ''IDEA''),
     (404, 5, ''Vodafone IN''),
     (404, 7, ''IDEA''),
     (404, 9, ''Reliance''),
     (404, 10, ''AirTel''),
     (404, 11, ''Vodafone IN''),
     (404, 12, ''IDEA''),
     (404, 13, ''Vodafone IN''),
     (404, 14, ''IDEA''),
     (404, 15, ''Vodafone IN''),
     (404, 16, ''Airtel''),
     (404, 17, ''AIRCEL''),
     (404, 18, ''Reliance'')]"

definition plmn_list_7 :: "(nat \<times> nat \<times> string) list" where
  "plmn_list_7 = [
     (404, 19, ''IDEA''),
     (404, 20, ''Vodafone IN''),
     (404, 21, ''Loop Mobile''),
     (404, 22, ''IDEA''),
     (404, 24, ''IDEA''),
     (404, 25, ''AIRCEL''),
     (404, 27, ''Vodafone IN''),
     (404, 28, ''AIRCEL''),
     (404, 29, ''AIRCEL''),
     (404, 30, ''Vodafone IN''),
     (404, 31, ''AirTel''),
     (404, 34, ''CellOne''),
     (404, 36, ''Reliance''),
     (404, 37, ''Aircel''),
     (404, 38, ''CellOne''),
     (404, 40, ''AirTel''),
     (404, 41, ''Aircel''),
     (404, 42, ''Aircel''),
     (404, 43, ''Vodafone IN''),
     (404, 44, ''IDEA''),
     (404, 45, ''Airtel''),
     (404, 46, ''Vodafone IN''),
     (404, 48, ''Dishnet Wireless''),
     (404, 49, ''Airtel''),
     (404, 50, ''Reliance''),
     (404, 51, ''CellOne''),
     (404, 52, ''Reliance''),
     (404, 53, ''CellOne''),
     (404, 54, ''CellOne''),
     (404, 55, ''CellOne''),
     (404, 56, ''IDEA''),
     (404, 57, ''CellOne''),
     (404, 58, ''CellOne''),
     (404, 59, ''CellOne''),
     (404, 60, ''Vodafone IN''),
     (404, 62, ''CellOne''),
     (404, 64, ''CellOne''),
     (404, 66, ''CellOne''),
     (404, 67, ''Reliance''),
     (404, 68, ''DOLPHIN''),
     (404, 69, ''DOLPHIN''),
     (404, 70, ''AirTel''),
     (404, 71, ''CellOne''),
     (404, 72, ''CellOne''),
     (404, 73, ''CellOne''),
     (404, 74, ''CellOne''),
     (404, 75, ''CellOne''),
     (404, 76, ''CellOne''),
     (404, 77, ''CellOne''),
     (404, 78, ''Idea Cellular Ltd''),
     (404, 79, ''CellOne''),
     (404, 80, ''CellOne''),
     (404, 81, ''CellOne''),
     (404, 82, ''Idea''),
     (404, 83, ''Reliance''),
     (404, 84, ''Vodafone IN''),
     (404, 85, ''Reliance''),
     (404, 86, ''Vodafone IN''),
     (404, 87, ''IDEA''),
     (404, 88, ''Vodafone IN''),
     (404, 89, ''Idea''),
     (404, 90, ''AirTel''),
     (404, 91, ''AIRCEL''),
     (404, 92, ''AirTel''),
     (404, 93, ''AirTel''),
     (404, 94, ''AirTel''),
     (404, 95, ''AirTel''),
     (404, 96, ''AirTel''),
     (404, 97, ''AirTel''),
     (404, 98, ''AirTel''),
     (405, 1, ''Reliance''),
     (405, 25, ''TATA DOCOMO''),
     (405, 26, ''TATA DOCOMO''),
     (405, 27, ''TATA DOCOMO''),
     (405, 28, ''TATA DOCOMO''),
     (405, 29, ''TATA DOCOMO''),
     (405, 3, ''Reliance''),
     (405, 30, ''TATA DOCOMO''),
     (405, 31, ''TATA DOCOMO''),
     (405, 32, ''TATA DOCOMO''),
     (405, 33, ''TATA DOCOMO''),
     (405, 34, ''TATA DOCOMO''),
     (405, 35, ''TATA DOCOMO''),
     (405, 36, ''TATA DOCOMO''),
     (405, 37, ''TATA DOCOMO''),
     (405, 38, ''TATA DOCOMO''),
     (405, 39, ''TATA DOCOMO''),
     (405, 4, ''Reliance''),
     (405, 41, ''TATA DOCOMO''),
     (405, 42, ''TATA DOCOMO''),
     (405, 43, ''TATA DOCOMO''),
     (405, 44, ''TATA DOCOMO''),
     (405, 45, ''TATA DOCOMO''),
     (405, 46, ''TATA DOCOMO''),
     (405, 47, ''TATA DOCOMO''),
     (405, 5, ''Reliance''),
     (405, 6, ''Reliance''),
     (405, 7, ''Reliance''),
     (405, 8, ''Reliance''),
     (405, 9, ''Reliance''),
     (405, 10, ''Reliance''),
     (405, 11, ''Reliance''),
     (405, 12, ''Reliance''),
     (405, 13, ''Reliance''),
     (405, 14, ''Reliance''),
     (405, 15, ''Reliance''),
     (405, 17, ''Reliance''),
     (405, 18, ''Reliance''),
     (405, 19, ''Reliance''),
     (405, 20, ''Reliance''),
     (405, 21, ''Reliance''),
     (405, 22, ''Reliance''),
     (405, 23, ''Reliance''),
     (405, 51, ''AirTel''),
     (405, 52, ''AirTel''),
     (405, 53, ''AirTel''),
     (405, 54, ''AirTel''),
     (405, 55, ''Airtel''),
     (405, 56, ''AirTel''),
     (405, 66, ''Vodafone IN''),
     (405, 67, ''Vodafone IN''),
     (405, 70, ''IDEA''),
     (405, 750, ''Vodafone IN''),
     (405, 751, ''Vodafone IN''),
     (405, 752, ''Vodafone IN''),
     (405, 753, ''Vodafone IN''),
     (405, 754, ''Vodafone IN''),
     (405, 755, ''Vodafone IN''),
     (405, 756, ''Vodafone IN''),
     (405, 799, ''IDEA''),
     (405, 800, ''AIRCEL''),
     (405, 801, ''AIRCEL''),
     (405, 802, ''AIRCEL''),
     (405, 803, ''AIRCEL''),
     (405, 804, ''AIRCEL''),
     (405, 805, ''AIRCEL''),
     (405, 806, ''AIRCEL''),
     (405, 807, ''AIRCEL''),
     (405, 808, ''AIRCEL''),
     (405, 809, ''AIRCEL''),
     (405, 810, ''AIRCEL''),
     (405, 811, ''AIRCEL''),
     (405, 812, ''AIRCEL''),
     (405, 819, ''Uninor''),
     (405, 818, ''Uninor''),
     (405, 820, ''Uninor''),
     (405, 821, ''Uninor''),
     (405, 822, ''Uninor''),
     (405, 824, ''Videocon Datacom'')]"

definition plmn_list_8 :: "(nat \<times> nat \<times> string) list" where
  "plmn_list_8 = [
     (405, 827, ''Videocon Datacom''),
     (405, 834, ''Videocon Datacom''),
     (405, 844, ''Uninor''),
     (405, 840, ''Jio''),
     (405, 845, ''IDEA''),
     (405, 846, ''IDEA''),
     (405, 847, ''IDEA''),
     (405, 848, ''IDEA''),
     (405, 849, ''IDEA''),
     (405, 850, ''IDEA''),
     (405, 851, ''IDEA''),
     (405, 852, ''IDEA''),
     (405, 853, ''IDEA''),
     (405, 854, ''Jio''),
     (405, 855, ''Jio''),
     (405, 856, ''Jio''),
     (405, 857, ''Jio''),
     (405, 858, ''Jio''),
     (405, 859, ''Jio''),
     (405, 860, ''Jio''),
     (405, 861, ''Jio''),
     (405, 862, ''Jio''),
     (405, 863, ''Jio''),
     (405, 864, ''Jio''),
     (405, 865, ''Jio''),
     (405, 866, ''Jio''),
     (405, 867, ''Jio''),
     (405, 868, ''Jio''),
     (405, 869, ''Jio''),
     (405, 870, ''Jio''),
     (405, 871, ''Jio''),
     (405, 872, ''Jio''),
     (405, 873, ''Jio''),
     (405, 874, ''Jio''),
     (405, 875, ''Uninor''),
     (405, 880, ''Uninor''),
     (405, 881, ''S Tel''),
     (405, 908, ''IDEA''),
     (405, 909, ''IDEA''),
     (405, 910, ''IDEA''),
     (405, 911, ''IDEA''),
     (405, 912, ''Etisalat DB(cheers)''),
     (405, 913, ''Etisalat DB(cheers)''),
     (405, 914, ''Etisalat DB(cheers)''),
     (405, 917, ''Etisalat DB(cheers)''),
     (405, 927, ''Uninor''),
     (405, 929, ''Uninor''),
     (510, 1, ''INDOSAT''),
     (510, 3, ''StarOne''),
     (510, 7, ''TelkomFlexi''),
     (510, 8, ''AXIS''),
     (510, 9, ''SMARTFREN''),
     (510, 10, ''Telkomsel''),
     (510, 11, ''XL''),
     (510, 20, ''TELKOMMobile''),
     (510, 21, ''IM3''),
     (510, 27, ''Ceria''),
     (510, 28, ''Fren/Hepi''),
     (510, 89, ''3''),
     (510, 99, ''Esia''),
     (510, 995, ''Komselindo''),
     (510, 996, ''Komselindo''),
     (432, 11, ''IR-MCI''),
     (432, 14, ''TKC''),
     (432, 19, ''MTCE''),
     (432, 20, ''Rightel''),
     (432, 32, ''Taliya''),
     (432, 35, ''Irancell''),
     (432, 70, ''TCI''),
     (432, 93, ''Iraphone''),
     (418, 5, ''Asia Cell''),
     (418, 8, ''SanaTel''),
     (418, 20, ''Zain''),
     (418, 30, ''Zain''),
     (418, 40, ''Korek''),
     (418, 45, ''Mobitel''),
     (418, 62, ''Itisaluna''),
     (418, 92, ''Omnnea''),
     (272, 1, ''Vodafone''),
     (272, 2, ''O2''),
     (272, 3, ''Meteor''),
     (272, 4, ''Access Telecom''),
     (272, 5, ''3''),
     (272, 7, ''eMobile''),
     (272, 9, ''Clever Communications''),
     (272, 11, ''Tesco Mobile''),
     (272, 13, ''Lycamobile''),
     (234, 9, ''Sure Mobile''),
     (234, 58, ''Pronto GSM''),
     (425, 1, ''Orange''),
     (425, 2, ''Cellcom''),
     (425, 3, ''Pelephone''),
     (425, 7, ''Hot Mobile''),
     (425, 8, ''Golan Telecom''),
     (425, 11, ''365 Telecom''),
     (425, 12, ''Free Telecom''),
     (425, 13, ''Ituran Cellular Communications''),
     (425, 14, ''Youphone''),
     (425, 15, ''Home Cellular''),
     (425, 16, ''Rami Levy''),
     (425, 17, ''Gale Phone''),
     (425, 18, ''Cellact Communications''),
     (425, 19, ''Azi Communications Ltd.''),
     (425, 20, ''Bezeq Ltd''),
     (425, 21, ''B.I.P. Communications Ltd.''),
     (222, 1, ''TIM''),
     (222, 2, ''Elsacom''),
     (222, 4, ''Intermatica''),
     (222, 5, ''Telespazio''),
     (222, 7, ''Noverca''),
     (222, 10, ''Vodafone''),
     (222, 30, ''RFI''),
     (222, 34, ''BT Italia''),
     (222, 35, ''Lyca Italy''),
     (222, 77, ''IPSE 2000''),
     (222, 88, ''Wind''),
     (222, 98, ''Blu''),
     (222, 99, ''3 Italia''),
     (612, 1, ''Cora de Comstar''),
     (612, 2, ''Moov''),
     (612, 3, ''Orange''),
     (612, 4, ''KoZ''),
     (612, 5, ''MTN''),
     (612, 6, ''ORICEL'')]"

definition plmn_list_9 :: "(nat \<times> nat \<times> string) list" where
  "plmn_list_9 = [
     (338, 20, ''LIME''),
     (338, 50, ''Digicel''),
     (338, 110, ''LIME''),
     (338, 180, ''LIME''),
     (440, 1, ''NTT docomo''),
     (440, 2, ''NTT docomo''),
     (440, 3, ''NTT docomo''),
     (440, 4, ''SoftBank''),
     (440, 6, ''SoftBank''),
     (440, 7, ''KDDI''),
     (440, 8, ''KDDI''),
     (440, 9, ''NTT docomo''),
     (440, 10, ''NTT docomo''),
     (440, 11, ''NTT docomo''),
     (440, 12, ''NTT docomo''),
     (440, 13, ''NTT docomo''),
     (440, 14, ''NTT docomo''),
     (440, 15, ''NTT docomo''),
     (440, 16, ''NTT docomo''),
     (440, 17, ''NTT docomo''),
     (440, 18, ''NTT docomo''),
     (440, 19, ''NTT docomo''),
     (440, 20, ''SoftBank''),
     (440, 21, ''NTT docomo''),
     (440, 22, ''NTT docomo''),
     (440, 23, ''NTT docomo''),
     (440, 24, ''NTT docomo''),
     (440, 25, ''NTT docomo''),
     (440, 26, ''NTT docomo''),
     (440, 27, ''NTT docomo''),
     (440, 28, ''NTT docomo''),
     (440, 29, ''NTT docomo''),
     (440, 30, ''NTT docomo''),
     (440, 31, ''NTT docomo''),
     (440, 32, ''NTT docomo''),
     (440, 33, ''NTT docomo''),
     (440, 34, ''NTT docomo''),
     (440, 35, ''NTT DoCoMo''),
     (440, 36, ''NTT DoCoMo''),
     (440, 37, ''NTT DoCoMo''),
     (440, 38, ''NTT DoCoMo''),
     (440, 39, ''NTT DoCoMo''),
     (440, 40, ''SoftBank''),
     (440, 41, ''SoftBank''),
     (440, 42, ''SoftBank''),
     (440, 43, ''SoftBank''),
     (440, 44, ''SoftBank''),
     (440, 45, ''SoftBank''),
     (440, 46, ''SoftBank''),
     (440, 47, ''SoftBank''),
     (440, 48, ''SoftBank''),
     (440, 49, ''NTT DoCoMo''),
     (440, 50, ''KDDI''),
     (440, 51, ''KDDI''),
     (440, 52, ''KDDI''),
     (440, 53, ''KDDI''),
     (440, 54, ''KDDI''),
     (440, 55, ''KDDI''),
     (440, 56, ''KDDI''),
     (440, 58, ''NTT DoCoMo''),
     (440, 60, ''NTT DoCoMo''),
     (440, 61, ''NTT DoCoMo''),
     (440, 62, ''NTT DoCoMo''),
     (440, 63, ''NTT DoCoMo''),
     (440, 64, ''NTT DoCoMo''),
     (440, 65, ''NTT DoCoMo''),
     (440, 66, ''NTT DoCoMo''),
     (440, 67, ''NTT DoCoMo''),
     (440, 68, ''NTT DoCoMo''),
     (440, 69, ''NTT DoCoMo''),
     (440, 70, ''au''),
     (440, 71, ''KDDI''),
     (440, 72, ''KDDI''),
     (440, 73, ''KDDI''),
     (440, 74, ''KDDI''),
     (440, 75, ''KDDI''),
     (440, 76, ''KDDI''),
     (440, 77, ''KDDI''),
     (440, 78, ''Okinawa Cellular Telephone''),
     (440, 79, ''KDDI''),
     (440, 80, ''TU-KA''),
     (440, 81, ''TU-KA''),
     (440, 82, ''TU-KA''),
     (440, 83, ''TU-KA''),
     (440, 84, ''TU-KA''),
     (440, 85, ''TU-KA''),
     (440, 86, ''TU-KA''),
     (440, 87, ''NTT DoCoMo''),
     (440, 88, ''KDDI''),
     (440, 89, ''KDDI''),
     (440, 90, ''SoftBank''),
     (440, 92, ''SoftBank''),
     (440, 93, ''SoftBank''),
     (440, 94, ''SoftBank''),
     (440, 95, ''SoftBank''),
     (440, 96, ''SoftBank''),
     (440, 97, ''SoftBank''),
     (440, 98, ''SoftBank''),
     (440, 99, ''NTT DoCoMo''),
     (234, 3, ''Airtel Vodafone''),
     (234, 50, ''JT''),
     (234, 55, ''Sure Mobile''),
     (416, 1, ''zain JO''),
     (416, 2, ''XPress Telecom''),
     (416, 3, ''Umniah''),
     (416, 77, ''Orange''),
     (401, 1, ''Beeline''),
     (401, 2, ''Kcell''),
     (401, 7, ''Dalacom''),
     (401, 8, ''Kazakhtelecom''),
     (401, 77, ''Tele2.kz''),
     (639, 2, ''Safaricom''),
     (639, 3, ''Airtel''),
     (639, 5, ''yu''),
     (639, 7, ''Orange Kenya''),
     (545, 1, ''Kiribati - TSKL''),
     (545, 9, ''Kiribati - Frigate Net''),
     (467, 5, ''Koryolink''),
     (467, 193, ''SunNet''),
     (450, 2, ''KT''),
     (450, 3, ''Power 017''),
     (450, 4, ''KT''),
     (450, 5, ''SKTelecom''),
     (450, 6, ''LG U+''),
     (450, 8, ''olleh'')]"

definition plmn_list_10 :: "(nat \<times> nat \<times> string) list" where
  "plmn_list_10 = [
     (450, 11, ''SKTelecom''),
     (212, 1, ''Vala''),
     (212, 1, ''Z Mobile''),
     (293, 41, ''IPKO''),
     (293, 41, ''D3 Mobile''),
     (419, 2, ''zain KW''),
     (419, 3, ''Wataniya''),
     (419, 4, ''Viva''),
     (437, 1, ''Beeline''),
     (437, 3, ''Fonex''),
     (437, 5, ''MegaCom''),
     (437, 9, ''O!''),
     (457, 1, ''LTC''),
     (457, 2, ''ETL''),
     (457, 3, ''Unitel''),
     (457, 8, ''Beeline''),
     (247, 1, ''LMT''),
     (247, 2, ''Tele2''),
     (247, 3, ''TRIATEL''),
     (247, 4, ''Beta Telecom''),
     (247, 5, ''Bite''),
     (247, 6, ''Rigatta''),
     (247, 7, ''MTS''),
     (247, 8, ''IZZI''),
     (247, 9, ''Camel Mobile''),
     (415, 1, ''Alfa''),
     (415, 3, ''mtc touch''),
     (415, 5, ''Ogero Mobile''),
     (651, 1, ''Vodacom''),
     (651, 2, ''Econet Ezi-cel''),
     (618, 1, ''Lonestar Cell''),
     (618, 2, ''Libercell''),
     (618, 4, ''Comium''),
     (618, 7, ''Cellcom''),
     (618, 20, ''LIBTELCO''),
     (606, 1, ''Madar''),
     (606, 2, ''Al-Jeel Phone''),
     (606, 3, ''Libya Phone''),
     (606, 6, ''Hatef Libya''),
     (295, 1, ''Swisscom''),
     (295, 2, ''Orange''),
     (295, 5, ''FL1''),
     (295, 6, ''Cubic Telecom''),
     (295, 77, ''Alpmobil''),
     (246, 1, ''Omnitel''),
     (246, 2, ''BIT'' @ [CHR 0xC4] @ [CHR 0x96]),
     (246, 3, ''Tele 2''),
     (246, 5, ''LitRail''),
     (246, 6, ''Mediafon''),
     (270, 1, ''POST''),
     (270, 2, ''MTX Connect S.a.r.l.''),
     (270, 10, ''Blue Communications''),
     (270, 77, ''Tango''),
     (270, 78, ''Interactive digital media GmbH''),
     (270, 99, ''Orange''),
     (455, 1, ''CTM''),
     (455, 2, ''China Telecom''),
     (455, 3, ''3''),
     (455, 4, ''CTM''),
     (455, 5, ''3''),
     (455, 6, ''SmarTone''),
     (294, 1, ''T-Mobile MK''),
     (294, 2, ''ONE''),
     (294, 3, ''Vip MK''),
     (646, 1, ''Airtel''),
     (646, 2, ''Orange''),
     (646, 3, ''Sacel''),
     (646, 4, ''Telma''),
     (650, 1, ''TNM''),
     (650, 10, ''Airtel''),
     (502, 1, ''ATUR 450''),
     (502, 10, ''DiGi Telecommunications''),
     (502, 11, ''TM Homeline''),
     (502, 12, ''Maxis''),
     (502, 13, ''Celcom''),
     (502, 14, ''Telekom Malaysia Berhad for PSTN SMS''),
     (502, 150, ''Tune Talk''),
     (502, 151, ''Baraka Telecom Sdn Bhd (MVNE)''),
     (502, 152, ''Yes''),
     (502, 156, ''Altel''),
     (502, 16, ''DiGi''),
     (502, 17, ''Hotlink''),
     (502, 18, ''U Mobile''),
     (502, 18, ''TM Homeline''),
     (502, 19, ''Celcom''),
     (502, 20, ''Electcoms Wireless Sdn Bhd''),
     (502, 12, ''Kartu As''),
     (472, 1, ''Dhiraagu''),
     (472, 2, ''Ooredoo''),
     (610, 1, ''Malitel''),
     (610, 2, ''Orange'')]"

definition plmn_list_11 :: "(nat \<times> nat \<times> string) list" where
  "plmn_list_11 = [
     (278, 1, ''Vodafone''),
     (278, 21, ''GO''),
     (278, 77, ''Melita''),
     (551, 1, ''Marshall Islands National Telecommunications Authority (MINTA)''),
     (340, 1, ''Orange''),
     (340, 2, ''Outremer''),
     (340, 20, ''Digicel''),
     (609, 1, ''Mattel''),
     (609, 2, ''Chinguitel''),
     (609, 10, ''Mauritel''),
     (617, 1, ''Orange''),
     (617, 2, ''MTML''),
     (617, 10, ''Emtel''),
     (334, 10, ''Nextel''),
     (334, 20, ''Telcel''),
     (334, 30, ''movistar''),
     (334, 30, ''Virgin Mobile''),
     (334, 40, ''Iusacell / Unefon''),
     (334, 50, ''Iusacell''),
     (334, 90, ''Nextel''),
     (550, 1, ''FSMTC''),
     (259, 1, ''Orange''),
     (259, 2, ''Moldcell''),
     (259, 3, ''IDC''),
     (259, 3, ''Unit'' @ [CHR 0xC3] @ [CHR 0xA9]),
     (259, 4, ''Eventis''),
     (259, 5, ''Unit'' @ [CHR 0xC3] @ [CHR 0xA9]),
     (259, 99, ''Unit'' @ [CHR 0xC3] @ [CHR 0xA9]),
     (212, 1, ''Office des Telephones''),
     (428, 88, ''Unitel''),
     (428, 91, ''Skytel''),
     (428, 98, ''G.Mobile''),
     (428, 99, ''MobiCom''),
     (297, 1, ''Telenor''),
     (297, 2, ''T-Mobile''),
     (297, 3, ''m:tel CG''),
     (297, 4, ''T-Mobile''),
     (354, 860, ''Cable & Wireless''),
     (604, 1, ''IAM''),
     (604, 2, ''Wana Corporate''),
     (604, 5, ''INWI''),
     (643, 1, ''mCel''),
     (643, 3, ''Movitel''),
     (643, 4, ''Vodacom''),
     (414, 1, ''MPT''),
     (414, 5, ''Ooredoo''),
     (414, 6, ''NA''),
     (649, 1, ''MTC''),
     (649, 2, ''switch''),
     (649, 3, ''TN Mobile''),
     (536, 2, ''Digicel''),
     (429, 1, ''Namaste / NT Mobile''),
     (429, 2, ''Ncell''),
     (429, 3, ''Sky/C-Phone''),
     (429, 4, ''SmartCell''),
     (204, 1, ''RadioAccess Network Services BV''),
     (204, 2, ''Tele2''),
     (204, 3, ''Voiceworks''),
     (204, 4, ''Vodafone''),
     (204, 5, ''Elephant Talk Communications Premium Rate Services''),
     (204, 6, ''Vectone Mobile Delight Mobile''),
     (204, 7, ''Teleena (MVNE)''),
     (204, 8, ''KPN''),
     (204, 9, ''Lycamobile''),
     (204, 10, ''KPN''),
     (204, 11, ''VoipIT B.V.''),
     (204, 12, ''Telfort''),
     (204, 13, ''Unica Installatietechniek B.V.''),
     (204, 14, ''6GMOBILE B.V.''),
     (204, 15, ''Ziggo''),
     (204, 16, ''T-Mobile (BEN)''),
     (204, 17, ''Intercity Zakelijk''),
     (204, 18, ''UPC Nederland B.V.''),
     (204, 19, ''Mixe Communication Solutions B.V.''),
     (204, 20, ''T-Mobile''),
     (204, 21, ''ProRail B.V.''),
     (204, 22, ''Ministerie van Defensie''),
     (204, 23, ''ASPIDER Solutions Nederland B.V.''),
     (204, 24, ''Private Mobility Nederland B.V.''),
     (204, 25, ''CapX B.V.''),
     (204, 26, ''SpeakUp B.V.''),
     (204, 27, ''Breezz Nederland B.V.''),
     (204, 28, ''Lancelot B.V.''),
     (204, 60, ''Nextgen Mobile Ltd''),
     (204, 61, ''BodyTrace Netherlands B.V.''),
     (204, 62, ''Voxbone''),
     (204, 64, ''Zetacom B.V.''),
     (204, 65, ''AGMS Netherlands B.V.''),
     (204, 66, ''Utility Connect B.V.''),
     (204, 67, ''RadioAccess B.V.''),
     (204, 68, ''Roamware (Netherlands) B.V.''),
     (204, 69, ''KPN Mobile The Netherlands B.V.'')]"

definition plmn_list_12 :: "(nat \<times> nat \<times> string) list" where
  "plmn_list_12 = [
     (362, 51, ''Telcell''),
     (362, 69, ''Digicel''),
     (362, 91, ''UTS''),
     (362, 94, ''Bay'' @ [CHR 0xC3] @ [CHR 0xB2] @ ''s''),
     (362, 95, ''MIO''),
     (546, 1, ''Mobilis''),
     (530, 1, ''Vodafone''),
     (530, 2, ''Telecom''),
     (530, 3, ''Woosh''),
     (530, 4, ''TelstraClear''),
     (530, 5, ''XT Mobile Network''),
     (530, 6, ''Skinny''),
     (530, 24, ''2degrees''),
     (710, 21, ''Claro''),
     (710, 30, ''movistar''),
     (710, 73, ''SERCOM''),
     (614, 1, ''SahelCom''),
     (614, 2, ''Airtel''),
     (614, 3, ''Moov''),
     (614, 4, ''Orange''),
     (621, 20, ''Airtel''),
     (621, 25, ''Visafone''),
     (621, 30, ''MTN''),
     (621, 40, ''M-Tel''),
     (621, 50, ''Glo''),
     (621, 60, ''Etisalat''),
     (555, 1, ''Telecom Niue''),
     (505, 10, ''Norfolk Telecom''),
     (242, 1, ''Telenor''),
     (242, 2, ''NetCom''),
     (242, 3, ''Teletopia''),
     (242, 4, ''Tele2''),
     (242, 5, ''Network Norway''),
     (242, 6, ''Ice''),
     (242, 7, ''Ventelo''),
     (242, 8, ''TDC''),
     (242, 9, ''Com4''),
     (242, 11, ''SystemNet''),
     (242, 12, ''Telenor''),
     (242, 20, ''Jernbaneverket AS''),
     (242, 21, ''Jernbaneverket AS''),
     (242, 23, ''Lyca''),
     (242, 24, ''Mobile Norway AS''),
     (422, 2, ''Oman Mobile''),
     (422, 3, ''Nawras''),
     (410, 1, ''Mobilink''),
     (410, 3, ''Ufone''),
     (410, 4, ''Zong''),
     (410, 5, ''SCO Mobile''),
     (410, 6, ''Telenor''),
     (410, 7, ''Warid Pakistan''),
     (552, 1, ''PNCC''),
     (552, 80, ''Palau Mobile''),
     (425, 5, ''Jawwal''),
     (425, 6, ''Wataniya''),
     (714, 1, ''Cable & Wireless''),
     (714, 2, ''movistar''),
     (714, 3, ''Claro''),
     (714, 4, ''Digicel''),
     (537, 1, ''bmobile''),
     (537, 3, ''Digicel''),
     (744, 1, ''VOX''),
     (744, 2, ''Claro/Hutchison''),
     (744, 4, ''Tigo''),
     (744, 5, ''Personal''),
     (744, 6, ''Copaco''),
     (716, 6, ''Movistar''),
     (716, 7, ''NEXTEL''),
     (716, 10, ''Claro (TIM)''),
     (716, 15, ''Viettel Mobile''),
     (716, 17, ''NEXTEL''),
     (515, 1, ''Islacom''),
     (515, 2, ''Globe''),
     (515, 3, ''Smart''),
     (515, 5, ''Sun''),
     (515, 11, ''PLDT via ACeS Philippines''),
     (515, 18, ''Cure''),
     (515, 24, ''ABS-CBN''),
     (515, 88, ''Nextel''),
     (260, 1, ''Plus''),
     (260, 2, ''T-Mobile''),
     (260, 3, ''Orange''),
     (260, 4, ''CenterNet S.A.''),
     (260, 5, ''Polska Telefonia Kom'' @ [CHR 0xC3] @ [CHR 0xB3] @ ''rkowa Centertel Sp. z o.o.''),
     (260, 6, ''Play''),
     (260, 7, ''Netia''),
     (260, 8, ''E-Telko Sp. z o.o.''),
     (260, 9, ''Lycamobile''),
     (260, 10, ''Sferia'')]"

definition plmn_list_13 :: "(nat \<times> nat \<times> string) list" where
  "plmn_list_13 = [
     (260, 11, ''Nordisk Polska''),
     (260, 12, ''Cyfrowy Polsat''),
     (260, 13, ''Sferia''),
     (260, 14, ''Sferia''),
     (260, 15, ''CenterNet''),
     (260, 16, ''Mobyland''),
     (260, 17, ''Aero2''),
     (260, 32, ''Voxbone''),
     (260, 34, ''T-Mobile Polska S.A.''),
     (260, 98, ''P4 Sp. z o.o.''),
     (268, 1, ''Vodafone''),
     (268, 3, ''Optimus''),
     (268, 4, ''LycaMobile''),
     (268, 6, ''TMN''),
     (268, 7, ''Vectonemobile - Delightmobile''),
     (268, 21, ''Zapp''),
     (330, 110, ''Claro Puerto Rico''),
     (330, 120, ''tmobile''),
     (427, 1, ''ooredoo''),
     (427, 2, ''Vodafone''),
     (427, 5, ''Ministry of Interior''),
     (427, 6, ''Ministry of Interior''),
     (647, 1, ''BJT Partners''),
     (647, 2, ''Outremer''),
     (647, 10, ''SFR Reunion''),
     (226, 1, ''Vodafone''),
     (226, 2, ''Romtelecom''),
     (226, 3, ''Cosmote''),
     (226, 4, ''Cosmote/Zapp''),
     (226, 5, ''Digi.Mobil''),
     (226, 6, ''Cosmote/Zapp''),
     (226, 10, ''Orange''),
     (226, 15, ''Idilis''),
     (250, 1, ''MTS''),
     (250, 2, ''MegaFon''),
     (250, 3, ''NCC''),
     (250, 4, ''Sibchallenge''),
     (250, 5, ''ETK''),
     (250, 6, ''CJSC Saratov System of Cellular Communications''),
     (250, 7, ''SMARTS''),
     (250, 9, ''Skylink''),
     (250, 10, ''DTC''),
     (250, 11, ''Yota''),
     (250, 12, ''Baykalwestcom''),
     (250, 12, ''Akos''),
     (250, 13, ''KUGSM''),
     (250, 14, ''MegaFon''),
     (250, 15, ''SMARTS''),
     (250, 16, ''NTC''),
     (250, 17, ''Utel''),
     (250, 18, ''Osnova Telecom''),
     (250, 19, ''INDIGO''),
     (250, 20, ''Tele2''),
     (250, 23, ''Mobicom - Novosibirsk''),
     (250, 28, ''Beeline''),
     (250, 35, ''MOTIV''),
     (250, 38, ''Tambov GSM''),
     (250, 39, ''Rostelecom''),
     (250, 44, ''Stavtelesot / North Caucasian GSM''),
     (250, 50, ''MTS''),
     (250, 91, ''Sonic Duo''),
     (250, 92, ''Primtelefon''),
     (250, 93, ''Telecom XXI''),
     (250, 99, ''Beeline''),
     (635, 10, ''MTN''),
     (635, 12, ''Rwandatel''),
     (635, 13, ''Tigo''),
     (635, 14, ''Airtel''),
     (635, 17, ''Olleh Rwanda Networks''),
     (356, 50, ''Digicel''),
     (356, 70, ''Chippie''),
     (356, 110, ''LIME''),
     (358, 50, ''Digicel''),
     (358, 110, ''Cable &  Wireless''),
     (308, 1, ''Ameris''),
     (308, 2, ''GLOBALTEL''),
     (360, 70, ''Digicel''),
     (360, 100, ''Cingular Wireless''),
     (360, 110, ''Lime''),
     (549, 1, ''Digicel''),
     (549, 27, ''Bluesky''),
     (292, 1, ''PRIMA''),
     (626, 1, ''CSTmovel''),
     (420, 1, ''Al Jawal (STC )''),
     (420, 3, ''Mobily''),
     (420, 4, ''Zain SA''),
     (420, 21, ''RGSM''),
     (608, 1, ''Orange''),
     (608, 2, ''Tigo''),
     (608, 3, ''Expresso''),
     (608, 4, ''CSU-SA''),
     (220, 1, ''Telenor''),
     (220, 2, ''Telenor''),
     (220, 3, ''mt:s''),
     (220, 5, ''VIP'')]"

definition plmn_list_14 :: "(nat \<times> nat \<times> string) list" where
  "plmn_list_14 = [
     (633, 1, ''Cable & Wireless''),
     (633, 2, ''Mediatech International''),
     (633, 10, ''Airtel''),
     (619, 1, ''Airtel''),
     (619, 3, ''Africell''),
     (619, 4, ''Comium''),
     (619, 5, ''Africell''),
     (619, 6, ''SierraTel''),
     (619, 25, ''Mobitel''),
     (525, 1, ''SingTel''),
     (525, 2, ''SingTel-G18''),
     (525, 3, ''M1''),
     (525, 5, ''StarHub''),
     (525, 6, ''StarHub''),
     (525, 7, ''SingTel''),
     (525, 12, ''Grid''),
     (231, 1, ''Orange''),
     (231, 2, ''Telekom''),
     (231, 3, ''Unient Communications''),
     (231, 4, ''T-Mobile''),
     (231, 6, ''O2''),
     (231, 99, [CHR 0xC5] @ [CHR 0xBD] @ ''SR''),
     (293, 31, ''Mobitel''),
     (293, 40, ''Si.mobil''),
     (293, 41, ''Mobitel''),
     (293, 51, ''Mobitel''),
     (293, 64, ''T-2''),
     (293, 70, ''Tu'' @ [CHR 0xC5] @ [CHR 0xA1] @ ''mobil''),
     (540, 1, ''BREEZE''),
     (540, 2, ''BeMobile''),
     (637, 1, ''Telesom''),
     (637, 4, ''SomaCyber''),
     (637, 4, ''Somafone''),
     (637, 10, ''Nationlink''),
     (637, 50, ''Hormuud''),
     (637, 30, ''Golis''),
     (637, 57, ''Unittel''),
     (637, 60, ''Nationlink Telecom''),
     (637, 71, ''Somtel''),
     (637, 82, ''Telcom''),
     (655, 1, ''Vodacom''),
     (655, 2, ''Telkom Mobile / 8.ta / Telekom SA''),
     (655, 6, ''Sentech''),
     (655, 7, ''Cell C''),
     (655, 10, ''MTN''),
     (655, 11, ''South African Police Service Gauteng''),
     (655, 13, ''Neotel''),
     (655, 14, ''Neotel''),
     (655, 19, ''iBurst''),
     (655, 21, ''Cape Town Metropolitan Council''),
     (655, 30, ''Bokamoso Consortium''),
     (655, 31, ''Karabo Telecoms (Pty) Ltd.''),
     (655, 32, ''Ilizwi Telecommunications''),
     (655, 33, ''Thinta Thinta Telecommunications''),
     (655, 50, ''Ericsson South Africa (Pty) Ltd''),
     (655, 51, ''Integrat (Pty) Ltd''),
     (659, 2, ''MTN''),
     (659, 3, ''Gemtel''),
     (659, 4, ''Vivacell''),
     (659, 6, ''Zain''),
     (659, 7, ''Sudani''),
     (214, 1, ''Vodafone''),
     (214, 3, ''Orange''),
     (214, 4, ''Yoigo''),
     (214, 5, ''TME''),
     (214, 6, ''Vodafone''),
     (214, 7, ''movistar''),
     (214, 8, ''Euskaltel''),
     (214, 9, ''Orange''),
     (214, 15, ''BT''),
     (214, 16, ''TeleCable''),
     (214, 17, ''M'' @ [CHR 0xC3] @ [CHR 0xB3] @ ''bil R''),
     (214, 18, ''ONO''),
     (214, 19, ''Simyo''),
     (214, 20, ''Fonyou''),
     (214, 21, ''Jazztel''),
     (214, 22, ''DigiMobil''),
     (214, 23, ''Barablu''),
     (214, 24, ''Eroski''),
     (214, 25, ''Lycamobile''),
     (214, 28, ''Consorcio de Telecomunicaciones Avanzadas, S.A.''),
     (214, 29, ''NEO-SKY 2002, S.A.''),
     (214, 30, ''Compatel Limited''),
     (214, 31, ''Red Digital De Telecomunicaciones de las Islas Baleares, S.L.''),
     (214, 32, ''Tuenti''),
     (413, 1, ''Mobitel''),
     (413, 2, ''Dialog''),
     (413, 3, ''Etisalat''),
     (413, 5, ''Airtel''),
     (413, 8, ''Hutch''),
     (634, 1, ''Zain SD''),
     (634, 2, ''MTN''),
     (634, 5, ''Canar Telecom''),
     (634, 7, ''Sudani One''),
     (634, 9, ''Privet Network''),
     (746, 2, ''Telesur''),
     (746, 3, ''Digicel''),
     (746, 4, ''Intelsur N.V. / UTS N.V.''),
     (653, 10, ''Swazi MTN''),
     (240, 1, ''Telia''),
     (240, 2, ''3''),
     (240, 3, ''Net 1''),
     (240, 4, ''SWEDEN''),
     (240, 5, ''Sweden 3G''),
     (240, 6, ''Telenor''),
     (240, 7, ''Tele2''),
     (240, 8, ''Telenor'')]"

definition plmn_list_15 :: "(nat \<times> nat \<times> string) list" where
  "plmn_list_15 = [
     (240, 9, ''djuice''),
     (240, 10, ''Spring Mobil''),
     (240, 11, ''Lindholmen Science Park AB''),
     (240, 12, ''Lycamobile''),
     (240, 13, ''Alltele F'' @ [CHR 0xC3] @ [CHR 0xB6] @ ''retag Sverige AB''),
     (240, 14, ''TDC Sverige AB''),
     (240, 15, ''Wireless Maingate Nordic AB''),
     (240, 16, ''42 Telecom AB''),
     (240, 17, ''G'' @ [CHR 0xC3] @ [CHR 0xB6] @ ''talandsn'' @ [CHR 0xC3] @ [CHR 0xA4] @ ''tet AB''),
     (240, 18, ''Generic Mobile Systems Sweden AB''),
     (240, 19, ''Vectone Mobile / Delight Mobile''),
     (240, 20, ''Wireless Maingate Messaging Services AB''),
     (240, 21, ''MobiSir''),
     (240, 22, ''EuTel AB''),
     (240, 23, ''Infobip Limited''),
     (240, 24, ''Sweden 2G''),
     (240, 25, ''Digitel Mobile Srl''),
     (240, 26, ''Beepsend AB''),
     (240, 27, ''Fogg Mobile AB''),
     (240, 28, ''CoolTEL Aps''),
     (240, 29, ''Mercury International Carrier Services''),
     (240, 30, ''NextGen Mobile Ltd.''),
     (240, 31, ''Mobimax AB''),
     (240, 32, ''Compatel Limited''),
     (240, 33, ''Mobile Arts AB''),
     (240, 34, ''Pro Net Telecommunications Services Ltd.''),
     (240, 35, ''42 Telecom LTD''),
     (240, 36, ''interactive digital media GmbH''),
     (240, 37, ''CLX Networks AB''),
     (240, 38, ''Voxbone''),
     (240, 39, ''iCentrex Sweden AB''),
     (240, 40, ''ReWiCom Scandinavia AB''),
     (240, 41, ''Shyam Telecom UK Ltd.''),
     (240, 42, ''Telenor Connexion AB''),
     (240, 43, ''MobiWeb Ltd.''),
     (240, 44, ''Limitless Mobile AB''),
     (228, 1, ''Swisscom''),
     (228, 2, ''Sunrise''),
     (228, 3, ''Orange''),
     (228, 5, ''Togewanet AG (Comfone)''),
     (228, 6, ''SBB-CFF-FFS''),
     (228, 7, ''IN&Phone''),
     (228, 8, ''Tele4u''),
     (228, 9, ''Comfone''),
     (228, 12, ''Sunrise''),
     (228, 50, ''3G Mobile AG''),
     (228, 51, ''BebbiCell AG''),
     (228, 52, ''Barablu''),
     (228, 53, ''UPC''),
     (228, 54, ''Lyca Mobile''),
     (228, 99, ''Swisscom''),
     (417, 1, ''Syriatel''),
     (417, 2, ''MTN''),
     (466, 1, ''FarEasTone''),
     (466, 5, ''APTG''),
     (466, 6, ''FarEasTone''),
     (466, 11, ''Chunghwa LDM''),
     (466, 88, ''FarEasTone''),
     (466, 89, ''VIBO''),
     (466, 92, ''Chungwa''),
     (466, 93, ''MobiTai''),
     (466, 97, ''Taiwan Mobile''),
     (466, 99, ''TransAsia''),
     (436, 1, ''Tcell''),
     (436, 2, ''Tcell''),
     (436, 3, ''Megafon Tajikistan''),
     (436, 4, ''Babilon-M''),
     (436, 5, ''Beeline''),
     (436, 12, ''Tcell''),
     (640, 2, ''tiGO''),
     (640, 3, ''Zantel''),
     (640, 4, ''Vodacom''),
     (640, 5, ''Airtel''),
     (640, 6, ''Dovetel Limited''),
     (640, 7, ''Tanzania Telecommunication Company LTD (TTCL)''),
     (640, 8, ''Benson Informatics Limited''),
     (640, 9, ''ExcellentCom Tanzania Limited''),
     (640, 11, ''SmileCom''),
     (520, 1, ''AIS''),
     (520, 2, ''CAT CDMA''),
     (520, 3, ''AIS 3G''),
     (520, 4, ''truemove H 4G LTE''),
     (520, 5, ''dtac TriNet''),
     (520, 10, ''?''),
     (520, 15, ''TOT 3G''),
     (520, 18, ''dtac''),
     (520, 23, ''AIS GSM 1800''),
     (520, 25, ''WE PCT''),
     (520, 47, ''Telephone Organization of Thailand (TOT)''),
     (520, 99, ''truemove''),
     (615, 1, ''Togo Cell''),
     (615, 3, ''Moov''),
     (539, 1, ''U-Call''),
     (539, 43, ''Shoreline Communication''),
     (539, 88, ''Digicel''),
     (374, 12, ''bmobile''),
     (374, 130, ''Digicel''),
     (605, 1, ''Orange''),
     (605, 2, ''Tunicell''),
     (605, 3, ''Tunisiana''),
     (286, 1, ''Turkcell''),
     (286, 2, ''Vodafone''),
     (286, 3, ''Avea''),
     (286, 4, ''Aycell''),
     (438, 1, ''MTS (BARASH Communication)''),
     (438, 2, ''TM-Cell''),
     (338, 50, ''Digicel''),
     (376, 350, ''C&W''),
     (376, 352, ''Islandcom'')]"

definition plmn_list_16 :: "(nat \<times> nat \<times> string) list" where
  "plmn_list_16 = [
     (553, 1, ''TTC''),
     (641, 1, ''Airtel''),
     (641, 10, ''MTN''),
     (641, 11, ''UTL ( Telecom Limited)''),
     (641, 14, ''Orange''),
     (641, 22, ''Warid Telecom''),
     (641, 33, ''Smile''),
     (641, 44, ''K2''),
     (641, 66, ''i-Tel''),
     (255, 1, ''MTS''),
     (255, 2, ''Beeline''),
     (255, 3, ''Kyivstar''),
     (255, 4, ''IT''),
     (255, 5, ''Golden Telecom''),
     (255, 6, ''life:)''),
     (255, 7, ''3Mob''),
     (255, 21, ''PEOPLEnet''),
     (255, 23, ''CDMA Ukraine''),
     (255, 25, ''NEWTONE''),
     (424, 2, ''Etisalat''),
     (424, 3, ''du''),
     (234, 1, ''Vectone Mobile''),
     (234, 2, ''O2 (UK)''),
     (234, 3, ''Airtel-Vodafone''),
     (234, 4, ''FMS Solutions Ltd''),
     (234, 5, ''COLT Mobile Telecommunications Limited''),
     (234, 6, ''Internet Computer Bureau Limited''),
     (234, 7, ''Cable & Wireless Worldwide''),
     (234, 8, ''OnePhone (UK) Ltd''),
     (234, 9, ''Tismi BV''),
     (234, 10, ''O2 (UK)''),
     (234, 11, ''O2 (UK)''),
     (234, 12, ''Railtrack''),
     (234, 13, ''Railtrack''),
     (234, 14, ''Hay Systems Ltd''),
     (234, 15, ''Vodafone UK''),
     (234, 16, ''Talk Talk''),
     (234, 17, ''FleXtel Limited''),
     (234, 18, ''Cloud9''),
     (234, 19, ''Private Mobile Networks PMN''),
     (234, 20, ''3''),
     (234, 22, ''RoutoMessaging''),
     (234, 23, ''Icron Network Limited''),
     (234, 24, ''Greenfone''),
     (234, 25, ''Truphone''),
     (234, 26, ''Lycamobile''),
     (234, 27, ''Teleena UK Limited''),
     (234, 28, ''Marathon Telecom Ltd''),
     (234, 29, ''aql''),
     (234, 30, ''T-Mobile UK''),
     (234, 31, ''Virgin Mobile UK''),
     (234, 32, ''Virgin Mobile UK''),
     (234, 33, ''Orange (UK)''),
     (234, 34, ''Orange (UK)''),
     (234, 35, ''JSC Ingenium (UK) Limited''),
     (234, 36, ''Sure (Isle of Man) Limited''),
     (234, 37, ''Synectiv Ltd''),
     (234, 38, ''Virgin Mobile UK''),
     (234, 39, ''SSE Energy Supply Limited''),
     (234, 50, ''JT''),
     (234, 51, ''UK Broadband''),
     (234, 52, ''Shyam Telecom UK Ltd''),
     (234, 53, ''Limitless Mobile Ltd''),
     (234, 55, ''Cable & Wireless Guernsey / Sure Mobile (Jersey)''),
     (234, 58, ''Manx Telecom''),
     (234, 76, ''BT''),
     (234, 78, ''Airwave''),
     (234, 86, ''EE''),
     (235, 1, ''EE''),
     (235, 2, ''EE''),
     (235, 3, ''UK Broadband''),
     (235, 77, ''BT''),
     (235, 91, ''Vodafone United Kingdom''),
     (235, 92, ''Cable & Wireless UK''),
     (235, 94, ''Hutchison 3G UK Ltd''),
     (235, 95, ''Network Rail Infrastructure Limited''),
     (310, 4, ''Verizon''),
     (310, 5, ''Verizon''),
     (310, 10, ''MCI''),
     (310, 13, ''MobileTel''),
     (310, 14, ''Testing''),
     (310, 16, ''Cricket Communications''),
     (310, 17, ''North Sight Communications Inc.''),
     (310, 20, ''Union Telephone Company''),
     (310, 26, ''T-Mobile''),
     (310, 30, ''AT&T''),
     (310, 34, ''Airpeak''),
     (310, 40, ''Concho''),
     (310, 46, ''SIMMETRY''),
     (310, 53, ''Virgin Mobile US''),
     (310, 54, ''Alltel US''),
     (310, 60, ''Consolidated Telcom''),
     (310, 66, ''U.S. Cellular''),
     (310, 70, ''Highland Cellular''),
     (310, 80, ''Corr''),
     (310, 90, ''Cricket Communications''),
     (310, 100, ''Plateau Wireless''),
     (310, 110, ''PTI Pacifica''),
     (310, 120, ''Sprint''),
     (310, 150, ''AT&T''),
     (310, 160, ''T-Mobile''),
     (310, 170, ''AT&T''),
     (310, 180, ''West Central''),
     (310, 190, ''Dutch Harbor''),
     (310, 200, ''T-Mobile''),
     (310, 210, ''T-Mobile''),
     (310, 220, ''T-Mobile''),
     (310, 230, ''T-Mobile''),
     (310, 240, ''T-Mobile''),
     (310, 250, ''T-Mobile''),
     (310, 260, ''T-Mobile''),
     (310, 270, ''T-Mobile''),
     (310, 280, ''AT&T''),
     (310, 290, ''T-Mobile''),
     (310, 300, ''Big Sky Mobile''),
     (310, 310, ''T-Mobile''),
     (310, 311, ''Farmers Wireless''),
     (310, 320, ''Cellular One''),
     (310, 330, ''T-Mobile''),
     (310, 340, ''Westlink''),
     (310, 350, ''Carolina Phone''),
     (310, 380, ''AT&T''),
     (310, 390, ''Cellular One of East Texas''),
     (310, 400, ''i CAN_GSM''),
     (310, 410, ''AT&T''),
     (310, 420, ''Cincinnati Bell''),
     (310, 430, ''Alaska Digitel''),
     (310, 440, ''Cellular One''),
     (310, 450, ''Viaero''),
     (310, 460, ''Simmetry''),
     (310, 470, ''nTelos''),
     (310, 480, ''Choice Phone''),
     (310, 490, ''T-Mobile''),
     (310, 500, ''Alltel'')]"

definition plmn_list_17 :: "(nat \<times> nat \<times> string) list" where
  "plmn_list_17 = [
     (310, 510, ''Airtel''),
     (310, 520, ''VeriSign''),
     (310, 530, ''West Virginia Wireless''),
     (310, 540, ''Oklahoma Western''),
     (310, 560, ''AT&T''),
     (310, 570, ''Cellular One''),
     (310, 580, ''T-Mobile''),
     (310, 590, ''Alltel''),
     (310, 610, ''Epic Touch''),
     (310, 620, ''Coleman County Telecom''),
     (310, 630, ''AmeriLink PCS''),
     (310, 640, ''Airadigm''),
     (310, 650, ''Jasper''),
     (310, 660, ''T-Mobile''),
     (310, 670, ''Northstar''),
     (310, 680, ''AT&T''),
     (310, 690, ''Immix''),
     (310, 730, ''SeaMobile''),
     (310, 740, ''Convey''),
     (310, 750, ''Appalachian Wireless''),
     (310, 760, ''Panhandle''),
     (310, 770, ''i wireless''),
     (310, 780, ''Airlink PCS''),
     (310, 790, ''PinPoint''),
     (310, 800, ''T-Mobile''),
     (310, 830, ''Caprock''),
     (310, 840, ''telna Mobile''),
     (310, 850, ''Aeris''),
     (310, 870, ''PACE''),
     (310, 880, ''Advantage''),
     (310, 890, ''Unicel''),
     (310, 900, ''Mid-Rivers Wireless''),
     (310, 910, ''First Cellular''),
     (310, 940, ''Iris Wireless LLC''),
     (310, 950, ''XIT Wireless''),
     (310, 960, ''Plateau Wireless''),
     (310, 970, ''Globalstar''),
     (310, 980, ''AT&T''),
     (310, 990, ''AT&T''),
     (311, 10, ''Chariton Valley''),
     (311, 12, ''Verizon''),
     (311, 20, ''Missouri RSA 5 Partnership''),
     (311, 30, ''Indigo Wireless''),
     (311, 40, ''Commnet Wireless''),
     (311, 50, ''Wikes Cellular''),
     (311, 60, ''Farmers Cellular''),
     (311, 70, ''Easterbrooke''),
     (311, 80, ''Pine Cellular''),
     (311, 90, ''Long Lines Wireless''),
     (311, 100, ''High Plains Wireless''),
     (311, 110, ''High Plains Wireless''),
     (311, 120, ''Choice Phone''),
     (311, 130, ''Cell One Amarillo''),
     (311, 140, ''Sprocket''),
     (311, 150, ''Wilkes Cellular''),
     (311, 160, ''Endless Mountains Wireless''),
     (311, 170, ''PetroCom''),
     (311, 180, ''Cingular Wireless''),
     (311, 190, ''Cellular Properties''),
     (311, 210, ''Emery Telcom Wireless''),
     (311, 220, ''U.S. Cellular''),
     (311, 230, ''C Spire Wireless''),
     (311, 330, ''Bug Tussel Wireless''),
     (311, 480, ''Verizon''),
     (311, 481, ''Verizon''),
     (311, 490, ''Sprint Corporation''),
     (311, 580, ''U.S. Cellular''),
     (311, 660, ''metroPCS''),
     (311, 870, ''Boost''),
     (311, 960, ''Lycamobile''),
     (311, 970, ''Big River Broadband''),
     (312, 590, ''NMU''),
     (313, 100, ''700&nbsp;MHz Public Safety Broadband''),
     (313, 101, ''700&nbsp;MHz Public Safety Broadband''),
     (316, 10, ''Nextel''),
     (316, 11, ''Southern Communications Services''),
     (748, 1, ''Antel''),
     (748, 7, ''Movistar''),
     (748, 10, ''Claro''),
     (434, 1, ''Buztel''),
     (434, 2, ''Uzmacom''),
     (434, 4, ''Beeline''),
     (434, 5, ''Ucell''),
     (434, 6, ''Perfectum Mobile''),
     (434, 7, ''MTS''),
     (434, 3, ''UzMobile''),
     (541, 1, ''SMILE''),
     (541, 5, ''Digicel''),
     (541, 7, ''WanTok''),
     (734, 1, ''Digitel''),
     (734, 2, ''Digitel GSM''),
     (734, 3, ''Digitel''),
     (734, 4, ''movistar''),
     (734, 6, ''Movilnet''),
     (452, 1, ''MobiFone''),
     (452, 2, ''Vinaphone''),
     (452, 3, ''S-Fone''),
     (452, 4, ''Viettel Mobile''),
     (452, 5, ''Vietnamobile (HT Mobile )''),
     (452, 6, ''EVNTelecom''),
     (452, 7, ''G-Mobile''),
     (452, 8, ''3G EVNTelecom''),
     (421, 1, ''SabaFon''),
     (421, 2, ''MTN''),
     (421, 3, ''Yemen Mobile''),
     (421, 4, ''HiTS-UNITEL''),
     (645, 1, ''Airtel''),
     (645, 2, ''MTN''),
     (645, 3, ''ZAMTEL''),
     (648, 1, ''Net*One''),
     (648, 3, ''Telecel''),
     (648, 4, ''Econet''),
     (901, 1, ''ICO''),
     (901, 2, [CHR 0x27] @ [CHR 0x27] @ ''Unassigned'' @ [CHR 0x27] @ [CHR 0x27]),
     (901, 3, ''Iridium''),
     (901, 4, [CHR 0x27] @ [CHR 0x27] @ ''Unassigned'' @ [CHR 0x27] @ [CHR 0x27]),
     (901, 5, ''Thuraya RMSS Network''),
     (901, 6, ''Thuraya Satellite Telecommunications Company''),
     (901, 7, [CHR 0x27] @ [CHR 0x27] @ ''Unassigned'' @ [CHR 0x27] @ [CHR 0x27]),
     (901, 8, [CHR 0x27] @ [CHR 0x27] @ ''Unassigned'' @ [CHR 0x27] @ [CHR 0x27]),
     (901, 9, [CHR 0x27] @ [CHR 0x27] @ ''Unassigned'' @ [CHR 0x27] @ [CHR 0x27]),
     (901, 10, ''ACeS'')]"

definition plmn_list_18 :: "(nat \<times> nat \<times> string) list" where
  "plmn_list_18 = [
     (901, 11, ''Inmarsat''),
     (901, 12, ''Telenor''),
     (901, 13, ''GSM.AQ''),
     (901, 14, ''AeroMobile AS''),
     (901, 15, ''OnAir''),
     (901, 16, ''Jasper Systems''),
     (901, 17, ''Navitas''),
     (901, 18, ''Cellular @Sea''),
     (901, 19, ''Vodafone Malta Maritime''),
     (901, 20, ''Intermatica''),
     (901, 21, [CHR 0x27] @ [CHR 0x27] @ ''Unassigned'' @ [CHR 0x27] @ [CHR 0x27]),
     (901, 22, ''MediaLincc Ltd''),
     (901, 23, [CHR 0x27] @ [CHR 0x27] @ ''Unassigned'' @ [CHR 0x27] @ [CHR 0x27]),
     (901, 24, ''iNum''),
     (901, 25, [CHR 0x27] @ [CHR 0x27] @ ''Unassigned'' @ [CHR 0x27] @ [CHR 0x27]),
     (901, 26, ''TIM''),
     (901, 27, ''OnAir''),
     (901, 28, ''Vodafone''),
     (901, 29, ''Telenor''),
     (901, 30, [CHR 0x27] @ [CHR 0x27] @ ''Unassigned'' @ [CHR 0x27] @ [CHR 0x27]),
     (901, 31, ''Orange''),
     (901, 32, ''Sky High''),
     (901, 33, ''Smart Communications''),
     (901, 34, ''tyntec GmbH''),
     (901, 35, ''Globecomm Network Services''),
     (901, 36, ''Azerfon''),
     (901, 39, ''MTX Connect Ltd''),
     (901, 88, ''UN Office for the Coordination of Humanitarian Affairs (OCHA)'')]"

definition plmn_list :: "plmn_list_entry list" where
  "plmn_list = map plmn_entry (concat [plmn_list_1, plmn_list_2, plmn_list_3, plmn_list_4, plmn_list_5, plmn_list_6, plmn_list_7, plmn_list_8, plmn_list_9, plmn_list_10, plmn_list_11, plmn_list_12, plmn_list_13, plmn_list_14, plmn_list_15, plmn_list_16, plmn_list_17, plmn_list_18])"

end
