(* ===== verification/Ril_Network.thy ===== *)
theory Ril_Network
  imports Ril_Sim Ril_Data Plmn_List
begin

section \<open>samsung-ril: network.c\<close>

text \<open>
  Signal strength, network selection, the operator, registration and the preferred network type. The strings that
  \<open>asprintf\<close> and \<open>strdup\<close> make are values; arrays of them are completed as \<open>RStrings\<close> and stored as \<open>PStrings\<close>, a pointer
  taking four bytes. The operator names come from the table of theory \<open>Plmn_List\<close>.
\<close>

subsection \<open>Values\<close>

definition IPC_DISP_ICON_INFO :: u16 where "IPC_DISP_ICON_INFO = 0x0701"
definition IPC_DISP_RSSI_INFO :: u16 where "IPC_DISP_RSSI_INFO = 0x0706"
definition IPC_DISP_ICON_INFO_FLAG_RSSI :: u8 where "IPC_DISP_ICON_INFO_FLAG_RSSI = 0x01"
definition IPC_NET_MODE_SEL_GSM_UMTS :: u8 where "IPC_NET_MODE_SEL_GSM_UMTS = 0x01"
definition IPC_NET_MODE_SEL_GSM_ONLY :: u8 where "IPC_NET_MODE_SEL_GSM_ONLY = 0x02"
definition IPC_NET_MODE_SEL_UMTS_ONLY :: u8 where "IPC_NET_MODE_SEL_UMTS_ONLY = 0x03"
definition IPC_NET_ACCESS_TECHNOLOGY_GSM :: u8 where "IPC_NET_ACCESS_TECHNOLOGY_GSM = 0x00"
definition IPC_NET_ACCESS_TECHNOLOGY_GSM2 :: u8 where "IPC_NET_ACCESS_TECHNOLOGY_GSM2 = 0x01"
definition IPC_NET_ACCESS_TECHNOLOGY_GPRS :: u8 where "IPC_NET_ACCESS_TECHNOLOGY_GPRS = 0x02"
definition IPC_NET_ACCESS_TECHNOLOGY_EDGE :: u8 where "IPC_NET_ACCESS_TECHNOLOGY_EDGE = 0x03"
definition IPC_NET_ACCESS_TECHNOLOGY_UMTS :: u8 where "IPC_NET_ACCESS_TECHNOLOGY_UMTS = 0x04"
definition IPC_NET_PLMN_STATUS_AVAILABLE :: u8 where "IPC_NET_PLMN_STATUS_AVAILABLE = 0x02"
definition IPC_NET_PLMN_STATUS_CURRENT :: u8 where "IPC_NET_PLMN_STATUS_CURRENT = 0x03"
definition IPC_NET_PLMN_STATUS_FORBIDDEN :: u8 where "IPC_NET_PLMN_STATUS_FORBIDDEN = 0x04"
definition IPC_NET_SERVICE_DOMAIN_GSM :: u8 where "IPC_NET_SERVICE_DOMAIN_GSM = 0x02"
definition IPC_NET_SERVICE_DOMAIN_GPRS :: u8 where "IPC_NET_SERVICE_DOMAIN_GPRS = 0x03"
definition IPC_NET_REGISTRATION_STATUS_NONE :: u8 where "IPC_NET_REGISTRATION_STATUS_NONE = 0x01"
definition IPC_NET_REGISTRATION_STATUS_HOME :: u8 where "IPC_NET_REGISTRATION_STATUS_HOME = 0x02"
definition IPC_NET_REGISTRATION_STATUS_SEARCHING :: u8 where "IPC_NET_REGISTRATION_STATUS_SEARCHING = 0x03"
definition IPC_NET_REGISTRATION_STATUS_EMERGENCY :: u8 where "IPC_NET_REGISTRATION_STATUS_EMERGENCY = 0x04"
definition IPC_NET_REGISTRATION_STATUS_UNKNOWN :: u8 where "IPC_NET_REGISTRATION_STATUS_UNKNOWN = 0x05"
definition IPC_NET_REGISTRATION_STATUS_ROAMING :: u8 where "IPC_NET_REGISTRATION_STATUS_ROAMING = 0x06"
definition IPC_GPRS_HSDPA_STATUS_HSDPA :: u8 where "IPC_GPRS_HSDPA_STATUS_HSDPA = 0x01"
definition IPC_GPRS_HSDPA_STATUS_HSPAP :: u8 where "IPC_GPRS_HSDPA_STATUS_HSPAP = 0x02"

definition RADIO_TECH_UNKNOWN :: nat where "RADIO_TECH_UNKNOWN = 0"
definition RADIO_TECH_GPRS :: nat where "RADIO_TECH_GPRS = 1"
definition RADIO_TECH_EDGE :: nat where "RADIO_TECH_EDGE = 2"
definition RADIO_TECH_UMTS :: nat where "RADIO_TECH_UMTS = 3"
definition RADIO_TECH_HSDPA :: nat where "RADIO_TECH_HSDPA = 9"
definition RADIO_TECH_HSPAP :: nat where "RADIO_TECH_HSPAP = 15"
definition RADIO_TECH_GSM :: nat where "RADIO_TECH_GSM = 16"
definition PREF_NET_TYPE_GSM_WCDMA :: int where "PREF_NET_TYPE_GSM_WCDMA = 0"
definition PREF_NET_TYPE_GSM_ONLY :: int where "PREF_NET_TYPE_GSM_ONLY = 1"
definition PREF_NET_TYPE_WCDMA :: int where "PREF_NET_TYPE_WCDMA = 2"
definition PREF_NET_TYPE_GSM_WCDMA_AUTO :: int where "PREF_NET_TYPE_GSM_WCDMA_AUTO = 3"

lemmas mode_sel_defs = IPC_NET_MODE_SEL_GSM_UMTS_def IPC_NET_MODE_SEL_GSM_ONLY_def IPC_NET_MODE_SEL_UMTS_ONLY_def
  PREF_NET_TYPE_GSM_WCDMA_def PREF_NET_TYPE_GSM_ONLY_def PREF_NET_TYPE_WCDMA_def PREF_NET_TYPE_GSM_WCDMA_AUTO_def

lemmas net_value_defs = IPC_NET_ACCESS_TECHNOLOGY_GSM_def IPC_NET_ACCESS_TECHNOLOGY_GSM2_def
  IPC_NET_ACCESS_TECHNOLOGY_GPRS_def IPC_NET_ACCESS_TECHNOLOGY_EDGE_def IPC_NET_ACCESS_TECHNOLOGY_UMTS_def
  IPC_NET_REGISTRATION_STATUS_NONE_def IPC_NET_REGISTRATION_STATUS_HOME_def IPC_NET_REGISTRATION_STATUS_SEARCHING_def
  IPC_NET_REGISTRATION_STATUS_EMERGENCY_def IPC_NET_REGISTRATION_STATUS_UNKNOWN_def
  IPC_NET_REGISTRATION_STATUS_ROAMING_def IPC_GPRS_HSDPA_STATUS_HSDPA_def IPC_GPRS_HSDPA_STATUS_HSPAP_def
  RADIO_TECH_UNKNOWN_def RADIO_TECH_GPRS_def RADIO_TECH_EDGE_def RADIO_TECH_UMTS_def RADIO_TECH_HSDPA_def
  RADIO_TECH_HSPAP_def RADIO_TECH_GSM_def IPC_NET_SERVICE_DOMAIN_GSM_def IPC_NET_SERVICE_DOMAIN_GPRS_def

subsection \<open>Conversions\<close>

text \<open>The members of a \<open>RIL_SignalStrength_v6\<close> in order: twelve integers, all \<open>-1\<close> after the \<open>memset\<close> but for the first two, the
  signal strength and the bit error rate of \<open>GW_SignalStrength\<close>.\<close>

definition signal_strength :: "int \<Rightarrow> int list" where
  "signal_strength asu = [asu, 99] @ replicate 10 (-1)"

definition ipc2ril_disp_rssi :: "u8 \<Rightarrow> int list" where
  "ipc2ril_disp_rssi rssi =
     (let asu = - (uint rssi div 2) + 56 in
      signal_strength (if asu < 0 then 0 else if asu > 31 then 31 else asu))"

definition ipc2ril_disp_icon_info :: "u8 \<Rightarrow> u8 \<Rightarrow> int list option" where
  "ipc2ril_disp_icon_info flags rssi =
     (let asu_bars = [1, 3, 5, 8, 12, 15] in
      if flags AND IPC_DISP_ICON_INFO_FLAG_RSSI = 0 then None
      else Some (signal_strength (asu_bars ! (if unat rssi \<ge> 6 then 5 else unat rssi))))"

definition ipc2ril_disp_rssi_info :: "u8 \<Rightarrow> int list" where
  "ipc2ril_disp_rssi_info rssi = ipc2ril_disp_rssi rssi"

definition ipc2ril_net_plmn_sel :: "u8 \<Rightarrow> int" where
  "ipc2ril_net_plmn_sel plmn_sel =
     (if plmn_sel = IPC_NET_PLMN_SEL_AUTO then 0 else if plmn_sel = IPC_NET_PLMN_SEL_MANUAL then 1 else -1)"

text \<open>\<open>struct ipc_net_regist_response_data\<close>.\<close>

record ipc_net_regist_response_data =
  nr_act :: u8
  nr_domain :: u8
  nr_status :: u8
  nr_edge :: u8
  nr_lac :: u16
  nr_cid :: u32
  nr_fail_cause :: u8

definition regist_response_data :: "u8 list \<Rightarrow> ipc_net_regist_response_data" where
  "regist_response_data bs = \<lparr>nr_act = bs ! 0, nr_domain = bs ! 1, nr_status = bs ! 2, nr_edge = bs ! 3,
     nr_lac = le16 (bs ! 4) (bs ! 5), nr_cid = le32 (bs ! 6) (bs ! 7) (bs ! 8) (bs ! 9), nr_fail_cause = bs ! 10\<rparr>"

definition regist_act :: "u8 \<Rightarrow> u8 \<Rightarrow> nat" where
  "regist_act act hsdpa =
     (if act = IPC_NET_ACCESS_TECHNOLOGY_GSM \<or> act = IPC_NET_ACCESS_TECHNOLOGY_GSM2 then RADIO_TECH_GSM
      else if act = IPC_NET_ACCESS_TECHNOLOGY_GPRS then RADIO_TECH_GPRS
      else if act = IPC_NET_ACCESS_TECHNOLOGY_EDGE then RADIO_TECH_EDGE
      else if act = IPC_NET_ACCESS_TECHNOLOGY_UMTS then
        (if hsdpa = IPC_GPRS_HSDPA_STATUS_HSDPA then RADIO_TECH_HSDPA
         else if hsdpa = IPC_GPRS_HSDPA_STATUS_HSPAP then RADIO_TECH_HSPAP
         else RADIO_TECH_UMTS)
      else RADIO_TECH_UNKNOWN)"

definition regist_status :: "u8 \<Rightarrow> nat" where
  "regist_status status =
     (if status = IPC_NET_REGISTRATION_STATUS_NONE then 0
      else if status = IPC_NET_REGISTRATION_STATUS_HOME then 1
      else if status = IPC_NET_REGISTRATION_STATUS_SEARCHING then 2
      else if status = IPC_NET_REGISTRATION_STATUS_EMERGENCY then 10
      else if status = IPC_NET_REGISTRATION_STATUS_UNKNOWN then 4
      else if status = IPC_NET_REGISTRATION_STATUS_ROAMING then 5
      else 0)"

definition ipc2ril_net_regist_response :: "ipc_net_regist_response_data \<Rightarrow> u8 \<Rightarrow> nat \<Rightarrow> string option list" where
  "ipc2ril_net_regist_response data hsdpa count =
     (replicate count None)[0 := Some (decimal (regist_status (nr_status data))),
       1 := Some (hexadecimal (unat (nr_lac data))), 2 := Some (hexadecimal (unat (nr_cid data))),
       3 := Some (decimal (regist_act (nr_act data) hsdpa))]"

text \<open>\<open>isdigit\<close>, the value of a number, and the loop over the operator table, in which a later row wins.\<close>

definition isdigit :: "u8 \<Rightarrow> bool" where
  "isdigit b \<longleftrightarrow> 48 \<le> unat b \<and> unat b \<le> 57"

definition digits_value :: "u8 list \<Rightarrow> nat" where
  "digits_value ds = foldl (\<lambda>n d. n * 10 + (unat d - 48)) 0 ds"

definition plmn_search :: "nat \<Rightarrow> nat \<Rightarrow> plmn_list_entry list \<Rightarrow> (string \<times> string) option" where
  "plmn_search c n rows =
     foldl (\<lambda>found row. if mcc row = c \<and> mnc row = n then Some (operator_long row, operator_short row) else found) None rows"

text \<open>The result is the PLMN with, when both pointers for them are given, the two names; \<open>None\<close> is the failure \<open>-1\<close>. The callers
  pass six bytes, for which the buffer is large enough. \<open>sscanf\<close> with \<open>%3u%2u\<close> reads at most three digits, then at
  most two.\<close>

definition ipc2ril_net_operator :: "u8 list \<Rightarrow> bool \<Rightarrow> (string \<times> (string \<times> string) option) option" where
  "ipc2ril_net_operator bs names =
     (if bs = [] then None
      else let buffer = takeWhile isdigit bs; plmn = map byte_char buffer in
        if buffer = [] then None
        else if \<not> names then Some (plmn, None)
        else if length buffer \<le> 3 then None
        else (case plmn_search (digits_value (take 3 buffer)) (digits_value (take 2 (drop 3 buffer))) plmn_list of
            None \<Rightarrow> None
          | Some found \<Rightarrow> Some (plmn, Some found)))"

definition ipc2ril_net_serving_network :: "u8 list \<Rightarrow> string option list option" where
  "ipc2ril_net_serving_network bs = (case ipc2ril_net_operator (take 6 (drop 3 bs)) True of
      Some (plmn, Some (long, short)) \<Rightarrow> Some [Some long, Some short, Some plmn]
    | _ \<Rightarrow> None)"

definition ipc2ril_net_mode_sel :: "u8 \<Rightarrow> int" where
  "ipc2ril_net_mode_sel mode_sel =
     (if mode_sel = IPC_NET_MODE_SEL_GSM_UMTS then PREF_NET_TYPE_GSM_WCDMA
      else if mode_sel = IPC_NET_MODE_SEL_GSM_ONLY then PREF_NET_TYPE_GSM_ONLY
      else if mode_sel = IPC_NET_MODE_SEL_UMTS_ONLY then PREF_NET_TYPE_WCDMA
      else -1)"

definition ril2ipc_net_mode_sel :: "int \<Rightarrow> u8" where
  "ril2ipc_net_mode_sel type =
     (if type = PREF_NET_TYPE_GSM_WCDMA \<or> type = PREF_NET_TYPE_GSM_WCDMA_AUTO then IPC_NET_MODE_SEL_GSM_UMTS
      else if type = PREF_NET_TYPE_GSM_ONLY then IPC_NET_MODE_SEL_GSM_ONLY
      else if type = PREF_NET_TYPE_WCDMA then IPC_NET_MODE_SEL_UMTS_ONLY
      else IPC_NET_MODE_SEL_GSM_UMTS)"

subsection \<open>Signal strength\<close>

definition ipc_disp_icon_info :: msg_handler where
  "ipc_disp_icon_info message s =
     (let bs = msg_data message; aseq = msg_aseq message in
      if length bs < 4 then Some (-1, s)
      else if ril_radio_state_check RADIO_STATE_SIM_NOT_READY s < 0 then Some (0, s)
      else (case ipc2ril_disp_icon_info (bs ! 0) (bs ! 1) of
          None \<Rightarrow>
            if msg_type message = IPC_TYPE_RESP \<and> ipc_seq_valid aseq
            then message_complete aseq RIL_E_GENERIC_FAILURE RNull 0 s
            else Some (0, s)
        | Some strength \<Rightarrow>
            if msg_type message = IPC_TYPE_RESP \<and> ipc_seq_valid aseq
            then message_complete aseq RIL_E_SUCCESS (RInts strength) 48 s
            else do {
              (_, s) \<leftarrow> Some (ril_request_unsolicited RIL_UNSOL_SIGNAL_STRENGTH (RInts strength) 48 s);
              Some (0, s)
            }))"

text \<open>The common end of many request handlers: send, and fail when that fails.\<close>

definition request_send :: "ril_token \<Rightarrow> u16 \<Rightarrow> u8 \<Rightarrow> u8 list \<Rightarrow> ril_world \<Rightarrow> (int \<times> ril_world) option" where
  "request_send token cmd type data s = do {
     (rc, s) \<leftarrow> Some (fmt_send_for token cmd type data s);
     if rc < 0 then request_failed token RIL_E_GENERIC_FAILURE s
     else Some (RIL_REQUEST_HANDLED, s)
   }"

definition ril_request_signal_strength :: req_handler where
  "ril_request_signal_strength data sz token s =
     (if ril_radio_state_check RADIO_STATE_SIM_NOT_READY s < 0 then Some (RIL_REQUEST_UNHANDLED, s)
      else request_send token IPC_DISP_ICON_INFO IPC_TYPE_GET [IPC_DISP_ICON_INFO_FLAG_RSSI] s)"

definition ipc_disp_rssi_info :: msg_handler where
  "ipc_disp_rssi_info message s =
     (let bs = msg_data message in
      if length bs < 1 then Some (-1, s)
      else if ril_radio_state_check RADIO_STATE_SIM_NOT_READY s < 0 then Some (0, s)
      else do {
        (_, s) \<leftarrow> Some (ril_request_unsolicited RIL_UNSOL_SIGNAL_STRENGTH (RInts (ipc2ril_disp_rssi_info (bs ! 0))) 48 s);
        Some (0, s)
      })"

subsection \<open>Network selection\<close>

definition ipc_net_plmn_sel :: msg_handler where
  "ipc_net_plmn_sel message s =
     (let bs = msg_data message in
      if length bs < 1 then Some (-1, s)
      else if ril_radio_state_check RADIO_STATE_SIM_NOT_READY s < 0 then Some (0, s)
      else if msg_type message \<noteq> IPC_TYPE_RESP \<or> \<not> ipc_seq_valid (msg_aseq message) then Some (0, s)
      else message_complete (msg_aseq message) RIL_E_SUCCESS (RInt (ipc2ril_net_plmn_sel (bs ! 0))) 4 s)"

definition ril_request_query_network_selection_mode :: req_handler where
  "ril_request_query_network_selection_mode data sz token s =
     (if ril_radio_state_check RADIO_STATE_SIM_NOT_READY s < 0 then Some (RIL_REQUEST_UNHANDLED, s)
      else request_send token IPC_NET_PLMN_SEL IPC_TYPE_GET [] s)"

definition ipc_net_plmn_sel_callback :: msg_handler where
  "ipc_net_plmn_sel_callback message s = (case gen_phone_res_data (msg_data message) of
      None \<Rightarrow> Some (-1, s)
    | Some data \<Rightarrow>
        if ipc_gen_phone_res_check data < 0 then
          (if gp_code data AND 0xff = 0x6f
           then message_complete (msg_aseq message) RIL_E_ILLEGAL_SIM_OR_ME RNull 0 s
           else message_complete (msg_aseq message) RIL_E_GENERIC_FAILURE RNull 0 s)
        else message_complete (msg_aseq message) RIL_E_SUCCESS RNull 0 s)"

text \<open>The part the two selection requests share: set up, expect the answer, send. The set-up is undefined for a manual selection
  without a PLMN.\<close>

definition plmn_sel_request :: "u8 \<Rightarrow> string option \<Rightarrow> ril_token \<Rightarrow> ril_world \<Rightarrow> (int \<times> ril_world) option" where
  "plmn_sel_request mode_sel plmn token s =
     (case ipc_net_plmn_sel_setup mode_sel plmn IPC_NET_ACCESS_TECHNOLOGY_UNKNOWN of
        None \<Rightarrow> None
      | Some request_data \<Rightarrow> do {
          (rc, s) \<leftarrow> Some (expect_callback_for token IPC_NET_PLMN_SEL Cb_net_plmn_sel s);
          if rc < 0 then request_failed token RIL_E_GENERIC_FAILURE s
          else request_send token IPC_NET_PLMN_SEL IPC_TYPE_SET request_data s
        })"

definition ril_request_set_network_selection_automatic :: req_handler where
  "ril_request_set_network_selection_automatic data sz token s =
     (if ril_radio_state_check RADIO_STATE_SIM_NOT_READY s < 0 then Some (RIL_REQUEST_UNHANDLED, s)
      else plmn_sel_request IPC_NET_PLMN_SEL_AUTO None token s)"

text \<open>The payload as a C string: reading it is undefined when no byte of the object is zero.\<close>

definition payload_string :: "payload \<Rightarrow> string option" where
  "payload_string p = (case p of
      PBytes bs \<Rightarrow> if 0 \<in> set bs then Some (map byte_char (takeWhile (\<lambda>b. b \<noteq> 0) bs)) else None
    | _ \<Rightarrow> None)"

definition ril_request_set_network_selection_manual :: req_handler where
  "ril_request_set_network_selection_manual data sz token s = (case data of
      None \<Rightarrow> request_failed token RIL_E_GENERIC_FAILURE s
    | Some d \<Rightarrow>
        if sz < 1 then request_failed token RIL_E_GENERIC_FAILURE s
        else if ril_radio_state_check RADIO_STATE_SIM_NOT_READY s < 0 then Some (RIL_REQUEST_UNHANDLED, s)
        else plmn_sel_request IPC_NET_PLMN_SEL_MANUAL (payload_string d) token s)"

subsection \<open>The operator\<close>

definition ipc_net_serving_network :: msg_handler where
  "ipc_net_serving_network message s =
     (let bs = msg_data message; aseq = msg_aseq message in
      if length bs < 11 then Some (-1, s)
      else if ril_radio_state_check RADIO_STATE_SIM_NOT_READY s < 0 then Some (0, s)
      else (case ipc2ril_net_serving_network bs of
          None \<Rightarrow>
            if msg_type message = IPC_TYPE_RESP \<and> ipc_seq_valid aseq
            then message_complete aseq RIL_E_GENERIC_FAILURE RNull 0 s
            else Some (0, s)
        | Some operator \<Rightarrow>
            if msg_type message = IPC_TYPE_RESP \<and> ipc_seq_valid aseq
            then message_complete aseq RIL_E_SUCCESS (RStrings operator) 12 s
            else do {
              (_, s) \<leftarrow> ril_request_data_set RIL_REQUEST_OPERATOR (Some (PStrings operator)) 12 s;
              (_, s) \<leftarrow> Some (ril_request_unsolicited RIL_UNSOL_RESPONSE_VOICE_NETWORK_STATE_CHANGED RNull 0 s);
              Some (0, s)
            }))"

text \<open>The part that the requests for the operator and the registration states share: complete with stored data, else ask
  the modem.\<close>

definition request_stored_or_send ::
  "int \<Rightarrow> u16 \<Rightarrow> u8 list \<Rightarrow> ril_token \<Rightarrow> ril_world \<Rightarrow> (int \<times> ril_world) option" where
  "request_stored_or_send number cmd request_data token s =
     (if ril_radio_state_check RADIO_STATE_SIM_NOT_READY s < 0 then Some (RIL_REQUEST_UNHANDLED, s)
      else if ril_request_find_request_status number RIL_REQUEST_HANDLED s \<noteq> None then Some (RIL_REQUEST_UNHANDLED, s)
      else do {
        let stored_size = ril_request_data_size_get number s;
        (stored, s) \<leftarrow> Some (ril_request_data_get number s);
        if stored \<noteq> None \<and> stored_size > 0 then do {
          (_, s) \<leftarrow> ril_request_complete token RIL_E_SUCCESS (payload_response stored) stored_size s;
          Some (RIL_REQUEST_COMPLETED, s)
        }
        else request_send token cmd IPC_TYPE_GET request_data s
      })"

definition ril_request_operator :: req_handler where
  "ril_request_operator data sz token s =
     request_stored_or_send RIL_REQUEST_OPERATOR IPC_NET_SERVING_NETWORK [] token s"

text \<open>The loop over the entries of a list of networks: four strings for each; \<open>None\<close> is the jump to \<open>error\<close>.\<close>

fun collect_networks :: "u8 list \<Rightarrow> nat list \<Rightarrow> string option list option" where
  "collect_networks bs [] = Some []"
| "collect_networks bs (index # indices) =
     (case ipc_net_plmn_list_entry_extract bs index of
        None \<Rightarrow> None
      | Some e \<Rightarrow>
         (let entry = plmn_list_entry_at bs e in
          case ipc2ril_net_operator (pl_plmn entry) True of
            Some (plmn, Some (long, short)) \<Rightarrow>
             (let status = (if pl_status entry = IPC_NET_PLMN_STATUS_AVAILABLE then ''available''
                else if pl_status entry = IPC_NET_PLMN_STATUS_CURRENT then ''current''
                else if pl_status entry = IPC_NET_PLMN_STATUS_FORBIDDEN then ''forbidden''
                else ''unknown'') in
              case collect_networks bs indices of
                None \<Rightarrow> None
              | Some networks \<Rightarrow> Some ([Some long, Some short, Some plmn, Some status] @ networks))
          | _ \<Rightarrow> None))"

definition ipc_net_plmn_list :: msg_handler where
  "ipc_net_plmn_list message s =
     (let bs = msg_data message; aseq = msg_aseq message in
      if length bs < 1 then Some (-1, s)
      else if ril_radio_state_check RADIO_STATE_SIM_NOT_READY s < 0 then Some (0, s)
      else if msg_type message \<noteq> IPC_TYPE_RESP \<or> \<not> ipc_seq_valid aseq then Some (0, s)
      else let count = ipc_net_plmn_list_count_extract bs in
        if count = 0 then message_complete aseq RIL_E_SUCCESS RNull 0 s
        else (case collect_networks bs [0..<unat count] of
            None \<Rightarrow> message_complete aseq RIL_E_GENERIC_FAILURE RNull 0 s
          | Some networks \<Rightarrow> message_complete aseq RIL_E_SUCCESS (RStrings networks) (unat count * 16) s))"

definition ril_request_query_available_networks :: req_handler where
  "ril_request_query_available_networks data sz token s =
     (if ril_radio_state_check RADIO_STATE_SIM_NOT_READY s < 0 then Some (RIL_REQUEST_UNHANDLED, s)
      else if ril_request_find_request_status RIL_REQUEST_QUERY_AVAILABLE_NETWORKS RIL_REQUEST_HANDLED s \<noteq> None
      then Some (RIL_REQUEST_UNHANDLED, s)
      else request_send token IPC_NET_PLMN_LIST IPC_TYPE_GET [] s)"

subsection \<open>Registration\<close>

text \<open>The domain decides which of the two arrays is filled, of fifteen or of five strings. The label \<open>error\<close> completes the request
  whatever the type of the message.\<close>

definition regist_error :: "u8 \<Rightarrow> ril_world \<Rightarrow> (int \<times> ril_world) option" where
  "regist_error aseq s =
     (if ipc_seq_valid aseq then message_complete aseq RIL_E_GENERIC_FAILURE RNull 0 s else Some (0, s))"

definition regist_deliver :: "ipc_message \<Rightarrow> int \<Rightarrow> string option list \<Rightarrow> ril_world \<Rightarrow> (int \<times> ril_world) option" where
  "regist_deliver message request registration s =
     (let registration_size = 4 * length registration in
      if msg_type message = IPC_TYPE_RESP \<and> ipc_seq_valid (msg_aseq message)
      then message_complete (msg_aseq message) RIL_E_SUCCESS (RStrings registration) registration_size s
      else do {
        (_, s) \<leftarrow> ril_request_data_set request (Some (PStrings registration)) registration_size s;
        (_, s) \<leftarrow> Some (ril_request_unsolicited RIL_UNSOL_RESPONSE_VOICE_NETWORK_STATE_CHANGED RNull 0 s);
        Some (0, s)
      })"

definition ipc_net_regist :: msg_handler where
  "ipc_net_regist message s =
     (let data = regist_response_data (msg_data message) in
      if length (msg_data message) < 11 then Some (-1, s)
      else if \<not> fmt_data s then Some (0, s)
      else if ril_radio_state_check RADIO_STATE_SIM_NOT_READY s < 0 then Some (0, s)
      else if nr_domain data = IPC_NET_SERVICE_DOMAIN_GSM then
        regist_deliver message RIL_REQUEST_VOICE_REGISTRATION_STATE
          (ipc2ril_net_regist_response data (hsdpa_status s) 15) s
      else if nr_domain data = IPC_NET_SERVICE_DOMAIN_GPRS then
        (if \<not> fmt_ipc_client s then regist_error (msg_aseq message) s
         else (case gprs_cid_count s of
             None \<Rightarrow> regist_error (msg_aseq message) s
           | Some cid_count \<Rightarrow> regist_deliver message RIL_REQUEST_DATA_REGISTRATION_STATE
               ((ipc2ril_net_regist_response data (hsdpa_status s) 5)[4 := Some (decimal cid_count)]) s))
      else Some (0, s))"

definition ril_request_voice_registration_state :: req_handler where
  "ril_request_voice_registration_state data sz token s =
     request_stored_or_send RIL_REQUEST_VOICE_REGISTRATION_STATE IPC_NET_REGIST
       (ipc_net_regist_setup IPC_NET_SERVICE_DOMAIN_GSM) token s"

definition ril_request_data_registration_state :: req_handler where
  "ril_request_data_registration_state data sz token s =
     request_stored_or_send RIL_REQUEST_DATA_REGISTRATION_STATE IPC_NET_REGIST
       (ipc_net_regist_setup IPC_NET_SERVICE_DOMAIN_GPRS) token s"

subsection \<open>The preferred network type\<close>

definition ipc_net_mode_sel :: msg_handler where
  "ipc_net_mode_sel message s =
     (let bs = msg_data message in
      if length bs < 1 then Some (-1, s)
      else if ril_radio_state_check RADIO_STATE_SIM_NOT_READY s < 0 then Some (0, s)
      else if msg_type message \<noteq> IPC_TYPE_RESP \<or> \<not> ipc_seq_valid (msg_aseq message) then Some (0, s)
      else message_complete (msg_aseq message) RIL_E_SUCCESS (RInt (ipc2ril_net_mode_sel (bs ! 0))) 4 s)"

definition ril_request_get_preferred_network_type :: req_handler where
  "ril_request_get_preferred_network_type data sz token s =
     (if ril_radio_state_check RADIO_STATE_SIM_NOT_READY s < 0 then Some (RIL_REQUEST_UNHANDLED, s)
      else request_send token IPC_NET_MODE_SEL IPC_TYPE_GET [] s)"

definition ril_request_set_preferred_network_type :: req_handler where
  "ril_request_set_preferred_network_type data sz token s = (case data of
      None \<Rightarrow> request_failed token RIL_E_GENERIC_FAILURE s
    | Some d \<Rightarrow>
        if sz < 4 then request_failed token RIL_E_GENERIC_FAILURE s
        else (case payload_int d of
            None \<Rightarrow> None
          | Some type \<Rightarrow>
              if ril2ipc_net_mode_sel type = 0 then request_failed token RIL_E_MODE_NOT_SUPPORTED s
              else do {
                (rc, s) \<leftarrow> Some (expect_complete_for token IPC_NET_MODE_SEL s);
                if rc < 0 then request_failed token RIL_E_GENERIC_FAILURE s
                else request_send token IPC_NET_MODE_SEL IPC_TYPE_SET [ril2ipc_net_mode_sel type] s
              }))"

subsection \<open>The handlers keep their contracts\<close>

lemma wp_request_send [wp_intro]:
  assumes "quiet base s" and "handler_pre token base"
  shows "wp (request_send token cmd ty data s) (handler_post token base)"
  using assms by (auto simp: request_send_def intro!: wp_intro)

lemma wp_stored_or_send [wp_intro]:
  assumes "quiet base s" and "handler_pre token base"
  shows "wp (request_stored_or_send number cmd rd token s) (handler_post token base)"
  using assms handler_pre_inv by (auto simp: request_stored_or_send_def Let_def intro!: wp_intro)

lemma plmn_sel_setup_Some:
  "ipc_net_plmn_sel_setup IPC_NET_PLMN_SEL_AUTO plmn act \<noteq> None" "ipc_net_plmn_sel_setup mode (Some p) act \<noteq> None"
  by (simp_all add: ipc_net_plmn_sel_setup_def Let_def)

lemma wp_plmn_sel_request [wp_intro]:
  assumes "quiet base s" and "handler_pre token base" and "mode = IPC_NET_PLMN_SEL_AUTO \<or> plmn \<noteq> None"
  shows "wp (plmn_sel_request mode plmn token s) (handler_post token base)"
  using assms plmn_sel_setup_Some
  by (auto simp: plmn_sel_request_def split: option.split intro!: wp_intro)

interpretation signal_strength: request_handler ril_request_signal_strength any_payload
proof
  fix token s data sz
  assume "handler_pre token s"
  with quiet_refl [of s] show "wp (ril_request_signal_strength data sz token s) (handler_post token s)"
    by (auto simp: ril_request_signal_strength_def intro!: wp_intro)
qed

interpretation query_network_selection_mode: request_handler ril_request_query_network_selection_mode any_payload
proof
  fix token s data sz
  assume "handler_pre token s"
  with quiet_refl [of s] show "wp (ril_request_query_network_selection_mode data sz token s) (handler_post token s)"
    by (auto simp: ril_request_query_network_selection_mode_def intro!: wp_intro)
qed

interpretation set_network_selection_automatic: request_handler ril_request_set_network_selection_automatic any_payload
proof
  fix token s data sz
  assume "handler_pre token s"
  with quiet_refl [of s] show "wp (ril_request_set_network_selection_automatic data sz token s) (handler_post token s)"
    by (auto simp: ril_request_set_network_selection_automatic_def intro!: wp_intro)
qed

text \<open>A manual selection names its network by a string that ends within the payload.\<close>

definition string_payload :: "payload option \<Rightarrow> nat \<Rightarrow> bool" where
  "string_payload data sz = (case data of None \<Rightarrow> True | Some d \<Rightarrow> sz < 1 \<or> payload_string d \<noteq> None)"

interpretation set_network_selection_manual: request_handler ril_request_set_network_selection_manual string_payload
proof
  fix token s data sz
  assume "handler_pre token s" and "string_payload data sz"
  with quiet_refl [of s] show "wp (ril_request_set_network_selection_manual data sz token s) (handler_post token s)"
    by (auto simp: ril_request_set_network_selection_manual_def string_payload_def split: option.split intro!: wp_intro)
qed

interpretation operator: request_handler ril_request_operator any_payload
proof
  fix token s data sz
  assume "handler_pre token s"
  with quiet_refl [of s] show "wp (ril_request_operator data sz token s) (handler_post token s)"
    by (auto simp: ril_request_operator_def intro!: wp_intro)
qed

interpretation query_available_networks: request_handler ril_request_query_available_networks any_payload
proof
  fix token s data sz
  assume "handler_pre token s"
  with quiet_refl [of s] show "wp (ril_request_query_available_networks data sz token s) (handler_post token s)"
    by (auto simp: ril_request_query_available_networks_def intro!: wp_intro)
qed

interpretation voice_registration_state: request_handler ril_request_voice_registration_state any_payload
proof
  fix token s data sz
  assume "handler_pre token s"
  with quiet_refl [of s] show "wp (ril_request_voice_registration_state data sz token s) (handler_post token s)"
    by (auto simp: ril_request_voice_registration_state_def intro!: wp_intro)
qed

interpretation data_registration_state: request_handler ril_request_data_registration_state any_payload
proof
  fix token s data sz
  assume "handler_pre token s"
  with quiet_refl [of s] show "wp (ril_request_data_registration_state data sz token s) (handler_post token s)"
    by (auto simp: ril_request_data_registration_state_def intro!: wp_intro)
qed

interpretation get_preferred_network_type: request_handler ril_request_get_preferred_network_type any_payload
proof
  fix token s data sz
  assume "handler_pre token s"
  with quiet_refl [of s] show "wp (ril_request_get_preferred_network_type data sz token s) (handler_post token s)"
    by (auto simp: ril_request_get_preferred_network_type_def intro!: wp_intro)
qed

interpretation set_preferred_network_type: request_handler ril_request_set_preferred_network_type bytes_payload
proof
  fix token s data sz
  assume "handler_pre token s" and "bytes_payload data sz"
  with quiet_refl [of s] show "wp (ril_request_set_preferred_network_type data sz token s) (handler_post token s)"
    by (auto simp: ril_request_set_preferred_network_type_def split: option.split intro!: wp_intro dest: bytes_payload_int)
qed

text \<open>The message handlers.\<close>

interpretation disp_icon_info: message_handler ipc_disp_icon_info any_message
proof
  fix s m
  assume "message_pre s"
  with quiet_refl [of s] show "wp (ipc_disp_icon_info m s) (message_post (msg_aseq m) s)"
    by (auto simp: ipc_disp_icon_info_def Let_def split: option.split intro!: wp_intro message_post_quiet)
qed

interpretation disp_rssi_info: message_handler ipc_disp_rssi_info any_message
proof
  fix s m
  assume "message_pre s"
  with quiet_refl [of s] show "wp (ipc_disp_rssi_info m s) (message_post (msg_aseq m) s)"
    by (auto simp: ipc_disp_rssi_info_def Let_def intro!: wp_intro message_post_quiet)
qed

interpretation net_plmn_sel: message_handler ipc_net_plmn_sel any_message
proof
  fix s m
  assume "message_pre s"
  with quiet_refl [of s] show "wp (ipc_net_plmn_sel m s) (message_post (msg_aseq m) s)"
    by (auto simp: ipc_net_plmn_sel_def Let_def intro!: wp_intro message_post_quiet)
qed

interpretation net_plmn_sel_callback: message_handler ipc_net_plmn_sel_callback any_message
proof
  fix s m
  assume "message_pre s"
  with quiet_refl [of s] show "wp (ipc_net_plmn_sel_callback m s) (message_post (msg_aseq m) s)"
    by (auto simp: ipc_net_plmn_sel_callback_def split: option.split intro!: wp_intro message_post_quiet)
qed

lemma length_serving_network: "ipc2ril_net_serving_network bs = Some ss \<Longrightarrow> length ss = 3"
  by (auto simp: ipc2ril_net_serving_network_def split: option.splits prod.splits)

interpretation net_serving_network: message_handler ipc_net_serving_network any_message
proof
  fix s m
  assume "message_pre s"
  with quiet_refl [of s] show "wp (ipc_net_serving_network m s) (message_post (msg_aseq m) s)"
    by (auto simp: ipc_net_serving_network_def Let_def strings_payload_def length_serving_network split: option.split
      intro!: wp_intro message_post_quiet)
qed

interpretation net_plmn_list: message_handler ipc_net_plmn_list any_message
proof
  fix s m
  assume "message_pre s"
  with quiet_refl [of s] show "wp (ipc_net_plmn_list m s) (message_post (msg_aseq m) s)"
    by (auto simp: ipc_net_plmn_list_def Let_def split: option.split intro!: wp_intro message_post_quiet)
qed

lemma wp_regist [wp_intro]:
  assumes "message_pre s" and "request \<in> {RIL_REQUEST_VOICE_REGISTRATION_STATE, RIL_REQUEST_DATA_REGISTRATION_STATE}"
  shows "wp (regist_deliver m request registration s) (message_post (msg_aseq m) s)"
    and "wp (regist_error (msg_aseq m) s) (message_post (msg_aseq m) s)"
  using assms quiet_refl [of s]
  by (auto simp: regist_deliver_def regist_error_def Let_def strings_payload_def intro!: wp_intro message_post_quiet)

interpretation net_regist: message_handler ipc_net_regist any_message
proof
  fix s m
  assume "message_pre s"
  with quiet_refl [of s] show "wp (ipc_net_regist m s) (message_post (msg_aseq m) s)"
    by (auto simp: ipc_net_regist_def Let_def split: option.split intro!: wp_regist message_post_quiet)
qed

interpretation net_mode_sel: message_handler ipc_net_mode_sel any_message
proof
  fix s m
  assume "message_pre s"
  with quiet_refl [of s] show "wp (ipc_net_mode_sel m s) (message_post (msg_aseq m) s)"
    by (auto simp: ipc_net_mode_sel_def Let_def intro!: wp_intro message_post_quiet)
qed

subsection \<open>Properties\<close>

lemma plmn_search_find:
  "plmn_search c n rows = map_option (\<lambda>row. (operator_long row, operator_short row))
     (find (\<lambda>row. mcc row = c \<and> mnc row = n) (rev rows))"
proof (induction rows rule: rev_induct)
  case (snoc row rows)
  then show ?case
    by (simp add: plmn_search_def)
qed (simp add: plmn_search_def)

lemma digits_value_bound: "(\<forall>d \<in> set ds. isdigit d) \<Longrightarrow> digits_value ds < 10 ^ length ds"
proof (induction ds rule: rev_induct)
  case (snoc d ds)
  then have "digits_value ds < 10 ^ length ds" and "unat d - 48 \<le> 9"
    by (auto simp: isdigit_def)
  then have "digits_value ds * 10 + (unat d - 48) < 10 * 10 ^ length ds"
    by linarith
  then show ?case
    by (simp add: digits_value_def)
qed (simp add: digits_value_def)

lemma digits_value_two: "digits_value (take 2 (drop 3 (takeWhile isdigit bs))) < 100"
proof -
  have "\<forall>d \<in> set (take 2 (drop 3 (takeWhile isdigit bs))). isdigit d"
    by (meson in_set_dropD in_set_takeD set_takeWhileD)
  from digits_value_bound [OF this] show ?thesis
    by (rule less_le_trans) (use power_increasing [of "length (take 2 (drop 3 (takeWhile isdigit bs)))" 2 "10::nat"] in simp)
qed

text \<open>C29. Operator names: for a PLMN of at least four digits the loop over the table is a search from its end
  for the row whose country code is the number of the first three digits and whose network code is the number of the next
  one or two; the names are those of that row and the lookup fails when there is none. Since at most two digits are read, no
  row with a network code of three digits is ever found.\<close>

theorem operator_lookup:
  assumes "takeWhile isdigit bs = ds" and "3 < length ds"
  shows "ipc2ril_net_operator bs True =
      map_option (\<lambda>row. (map byte_char ds, Some (operator_long row, operator_short row)))
        (find (\<lambda>row. mcc row = digits_value (take 3 ds) \<and> mnc row = digits_value (take 2 (drop 3 ds))) (rev plmn_list)) \<and>
    digits_value (take 2 (drop 3 ds)) < 100"
proof -
  have "bs \<noteq> []" "ds \<noteq> []"
    using assms by auto
  then show ?thesis
    using assms digits_value_two [of bs]
    by (simp add: ipc2ril_net_operator_def Let_def plmn_search_find split: option.split)
qed

theorem operator_lookup_witness:
  "map_option snd (ipc2ril_net_operator [0x33, 0x31, 0x30, 0x31, 0x36, 0x30] True) =
   map_option (\<lambda>row. Some (operator_long row, operator_short row))
     (find (\<lambda>row. mcc row = 310 \<and> mnc row = 16) (rev plmn_list))"
  using operator_lookup [of "[0x33, 0x31, 0x30, 0x31, 0x36, 0x30]" "[0x33, 0x31, 0x30, 0x31, 0x36, 0x30]"]
  by (simp add: isdigit_def digits_value_def option.map_comp comp_def)

text \<open>The list of networks: what an entry of the modem becomes.\<close>

definition network_known :: "u8 list \<Rightarrow> bool" where
  "network_known e = (ipc2ril_net_operator (take 6 (drop 1 e)) True \<noteq> None)"

definition network_strings :: "u8 list \<Rightarrow> string option list" where
  "network_strings e = (case ipc2ril_net_operator (take 6 (drop 1 e)) True of
      Some (plmn, Some (long, short)) \<Rightarrow> [Some long, Some short, Some plmn,
        Some (if e ! 0 = 2 then ''available'' else if e ! 0 = 3 then ''current'' else if e ! 0 = 4 then ''forbidden''
          else ''unknown'')]
    | _ \<Rightarrow> [])"

lemma operator_names: "ipc2ril_net_operator bs True = Some (plmn, found) \<Longrightarrow> \<exists>long short. found = Some (long, short)"
  by (cases found) (auto simp: ipc2ril_net_operator_def Let_def split: if_splits option.splits)

lemma collect_networks_eq:
  assumes "\<forall>i \<in> set is. i < length es" and "length es < 256" and "\<forall>e \<in> set es. length e = 10"
  shows "collect_networks (of_nat (length es) # concat es) is =
    (if \<forall>i \<in> set is. network_known (es ! i) then Some (concat (map (\<lambda>i. network_strings (es ! i)) is)) else None)"
  using assms(1)
proof (induction "is")
  case (Cons i is')
  let ?bs = "of_nat (length es) # concat es :: u8 list"
  obtain p where p: "ipc_net_plmn_list_entry_extract ?bs i = Some p" "take 10 (drop p ?bs) = es ! i"
    using plmn_list.entries_decoded [OF assms(3) _ assms(2), of i] Cons.prems by auto
  have len: "length (es ! i) = 10"
    using assms(3) Cons.prems by simp
  have st: "?bs ! p = es ! i ! 0"
    using arg_cong [OF p(2), of "\<lambda>xs. xs ! 0"] len plmn_list.entry_in_bounds [OF p(1)] by simp
  have plmn: "take 6 (drop (Suc p) ?bs) = take 6 (drop 1 (es ! i))"
    using arg_cong [OF p(2), of "\<lambda>xs. take 6 (drop 1 xs)"] by (simp add: drop_take)
  show ?case
  proof (cases "ipc2ril_net_operator (take 6 (drop 1 (es ! i))) True")
    case None
    then show ?thesis
      using p(1) plmn by (simp add: plmn_list_entry_at_def network_known_def Let_def)
  next
    case (Some r)
    then obtain pl long short where r: "r = (pl, Some (long, short))"
      using operator_names by (cases r) blast
    have "\<forall>i \<in> set is'. i < length es"
      using Cons.prems by simp
    from Cons.IH [OF this] show ?thesis
      using p(1) st plmn Some unfolding r
      by (simp add: plmn_list_entry_at_def network_known_def network_strings_def Let_def IPC_NET_PLMN_STATUS_AVAILABLE_def
        IPC_NET_PLMN_STATUS_CURRENT_def IPC_NET_PLMN_STATUS_FORBIDDEN_def)
  qed
qed simp

text \<open>C28. The answer to a scan for networks is delivered whole or not at all: a response of the modem with the sequence number of a
  queued request that lists the entries \<open>es\<close> completes the request with the long name, the short name, the PLMN and the
  status of every entry in order when all their operators are in the table, and with generic failure, without any network, when
  one of them is not.\<close>

theorem networks_all_or_nothing:
  assumes "message_pre s" and "ril_radio_state_check RADIO_STATE_SIM_NOT_READY s = 0"
    and "msg_type m = IPC_TYPE_RESP" and "ipc_seq_valid (msg_aseq m)"
    and "ipc_fmt_request_token (msg_aseq m) s = token" and "token \<noteq> 0"
    and "msg_data m = of_nat (length es) # concat es" and "\<forall>e \<in> set es. length e = 10" and "0 < length es" "length es < 256"
  shows "\<exists>s'. ipc_net_plmn_list m s = Some (0, s') \<and> message_pre s' \<and>
    requests s' = filter (\<lambda>n. rq_token (snd n) \<noteq> token) (requests s) \<and>
    trace s' = trace s @ [if \<forall>e \<in> set es. network_known e
      then Complete token RIL_E_SUCCESS (RStrings (concat (map network_strings es))) (16 * length es)
      else Complete token RIL_E_GENERIC_FAILURE RNull 0]"
proof -
  have count: "unat (of_nat (length es) :: u8) = length es"
    using assms(10) by (simp add: unat_of_nat take_bit_nat_eq_self)
  then have nz: "of_nat (length es) \<noteq> (0 :: u8)"
    using assms(9) by force
  have complete: "message_complete (msg_aseq m) error data sz s =
      Some (0, (emit (Complete token error data sz) (remove_token token s))\<lparr>loop_locked := False\<rparr>)" for error data sz
    using assms(1,5,6) ril_request_complete_eq [of s token error data sz]
    by (simp add: message_complete_def message_pre_def)
  have maps: "map (\<lambda>i. network_strings (es ! i)) [0..<length es] = map network_strings es"
    by (intro nth_equalityI) simp_all
  have pre: "message_pre ((emit e (remove_token token s))\<lparr>loop_locked := False\<rparr>)" for e
    using assms(1) by (simp add: message_pre_def ril_inv_remove_token)
  have collect: "collect_networks (msg_data m) [0..<length es] =
      (if \<forall>e \<in> set es. network_known e then Some (concat (map network_strings es)) else None)"
    using collect_networks_eq [of "[0..<length es]" es] assms(7,8,10) maps by (auto simp: all_set_conv_all_nth)
  have "ipc_net_plmn_list m s = (case collect_networks (msg_data m) [0..<length es] of
      None \<Rightarrow> message_complete (msg_aseq m) RIL_E_GENERIC_FAILURE RNull 0 s
    | Some networks \<Rightarrow> message_complete (msg_aseq m) RIL_E_SUCCESS (RStrings networks) (length es * 16) s)"
    using assms(2-4,7) count nz by (simp add: ipc_net_plmn_list_def Let_def ipc_net_plmn_list_count_extract_def
      split: option.split)
  then show ?thesis
    using pre by (simp add: collect complete mult.commute)
qed

text \<open>Registration data in closed form.\<close>

definition data_appended :: "int \<Rightarrow> payload \<Rightarrow> nat \<Rightarrow> ril_world \<Rightarrow> ril_world" where
  "data_appended request buffer sz s = s\<lparr>next_addr := Suc (next_addr s),
     requests_data := node_append (next_addr s) \<lparr>rd_request = request, rd_data = buffer, rd_size = sz\<rparr> (requests_data s)\<rparr>"

lemma data_set_eq:
  assumes "ril_data_alive s" and "0 < sz" and "payload_copy sz d = Some buffer"
  shows "ril_request_data_set request (Some d) sz s = Some (0, data_appended request buffer sz s)"
  using assms by (simp add: ril_request_data_set_def ril_request_data_register_def alloc_def data_appended_def)

definition voice_registration :: "ipc_message \<Rightarrow> ril_world \<Rightarrow> string option list" where
  "voice_registration m s = ipc2ril_net_regist_response (regist_response_data (msg_data m)) (hsdpa_status s) 15"

lemma length_regist_response [simp]: "length (ipc2ril_net_regist_response data hsdpa n) = n"
  by (simp add: ipc2ril_net_regist_response_def)

lemma regist_stored:
  assumes "message_pre s" and "fmt_data s" and "ril_radio_state_check RADIO_STATE_SIM_NOT_READY s = 0"
    and "11 \<le> length (msg_data m)" and "msg_data m ! 1 = IPC_NET_SERVICE_DOMAIN_GSM" and "msg_type m \<noteq> IPC_TYPE_RESP"
  shows "ipc_net_regist m s = Some (0, snd (ril_request_unsolicited RIL_UNSOL_RESPONSE_VOICE_NETWORK_STATE_CHANGED RNull 0
    (data_appended RIL_REQUEST_VOICE_REGISTRATION_STATE (PStrings (voice_registration m s)) 60 s)))"
proof -
  have "payload_copy 60 (PStrings (voice_registration m s)) = Some (PStrings (voice_registration m s))"
    by (simp add: payload_copy_def payload_size_def voice_registration_def)
  from data_set_eq [OF _ _ this, of s RIL_REQUEST_VOICE_REGISTRATION_STATE] show ?thesis
    using assms by (simp add: ipc_net_regist_def Let_def regist_response_data_def regist_deliver_def message_pre_def
      voice_registration_def split_beta)
qed

lemma plmn_search_append:
  "plmn_search c n (xs @ ys) = (case plmn_search c n ys of None \<Rightarrow> plmn_search c n xs | found \<Rightarrow> found)"
  unfolding plmn_search_find by (induction ys rule: rev_induct) (simp_all split: option.split)

text \<open>A network in the last rows of the table.\<close>

lemma plmn_search_901_18: "plmn_search 901 18 plmn_list = Some (''Cellular @Sea'', ''Cellular @Sea'')"
proof -
  have "plmn_search 901 18 (map plmn_entry plmn_list_18) = Some (''Cellular @Sea'', ''Cellular @Sea'')"
    by (simp add: plmn_list_18_def plmn_search_def plmn_entry_def)
  then show ?thesis
    by (simp add: plmn_list_def plmn_search_append)
qed

definition net_world :: ril_world where
  "net_world = (initial_world [])\<lparr>ril_data_alive := True, env_complete := True, fmt_data := True, fmt_ipc_client := True,
     fmt_available := True, radio_state := RADIO_STATE_SIM_READY, next_addr := 3,
     requests := [(1, \<lparr>rq_request = RIL_REQUEST_QUERY_AVAILABLE_NETWORKS, rq_data = None, rq_size = 0, rq_token = 7, rq_status = 1\<rparr>)],
     fmt_requests := [(2, \<lparr>fr_request = RIL_REQUEST_QUERY_AVAILABLE_NETWORKS, fr_token = 7, fr_seq = 5\<rparr>)]\<rparr>"

lemma net_world_facts:
  "message_pre net_world" "ril_radio_state_check RADIO_STATE_SIM_NOT_READY net_world = 0"
  "ipc_fmt_request_token 5 net_world = 7" "fmt_data net_world" "trace net_world = []"
  by (simp_all add: net_world_def message_pre_def ril_inv_def nodes_ok_def fmt_mirror_def
    ril_radio_state_check_def radio_states_def radio_state_defs ipc_fmt_request_token_def ipc_fmt_request_find_seq_def
    initial_world_def)

theorem networks_all_or_nothing_witness:
  "\<exists>s'. ipc_net_plmn_list \<lparr>msg_mseq = 0, msg_aseq = 5, msg_command = IPC_NET_PLMN_LIST, msg_type = 2,
      msg_data = [1, 2, 0x39, 0x30, 0x31, 0x31, 0x38, 0x23, 4, 0, 0]\<rparr> net_world = Some (0, s') \<and>
    trace s' = [Complete 7 RIL_E_SUCCESS
      (RStrings [Some ''Cellular @Sea'', Some ''Cellular @Sea'', Some ''90118'', Some ''available'']) 16]"
proof -
  let ?e = "[2, 0x39, 0x30, 0x31, 0x31, 0x38, 0x23, 4, 0, 0] :: u8 list"
  have plmn: "map byte_char [0x39, 0x30, 0x31, 0x31, 0x38] = ''90118''"
    by code_simp
  have "ipc2ril_net_operator (take 6 (drop 1 ?e)) True = Some (''90118'', Some (''Cellular @Sea'', ''Cellular @Sea''))"
    using plmn by (simp add: ipc2ril_net_operator_def isdigit_def digits_value_def Let_def plmn_search_901_18)
  then show ?thesis
    using networks_all_or_nothing [of net_world "\<lparr>msg_mseq = 0, msg_aseq = 5, msg_command = IPC_NET_PLMN_LIST, msg_type = 2,
        msg_data = [1, 2, 0x39, 0x30, 0x31, 0x31, 0x38, 0x23, 4, 0, 0]\<rparr>" 7 "[?e]"]
    by (auto simp: net_world_facts IPC_TYPE_RESP_def ipc_seq_valid_def network_known_def network_strings_def)
qed

text \<open>Registration states are delivered oldest first: when the modem announces two registrations before anybody asks, the
  request for the voice registration state is completed at once with the first of them, although the second is known; the second
  stays stored for the next request.\<close>

theorem registration_oldest_first:
  assumes "message_pre s" and "fmt_data s" and "ril_radio_state_check RADIO_STATE_SIM_NOT_READY s = 0"
    and "11 \<le> length (msg_data m1)" and "msg_data m1 ! 1 = IPC_NET_SERVICE_DOMAIN_GSM" and "msg_type m1 \<noteq> IPC_TYPE_RESP"
    and "11 \<le> length (msg_data m2)" and "msg_data m2 ! 1 = IPC_NET_SERVICE_DOMAIN_GSM" and "msg_type m2 \<noteq> IPC_TYPE_RESP"
    and "ril_request_data_find_request RIL_REQUEST_VOICE_REGISTRATION_STATE s = None"
    and "ril_request_find_request_status RIL_REQUEST_VOICE_REGISTRATION_STATE RIL_REQUEST_HANDLED s = None" and "token \<noteq> 0"
  shows "\<exists>s1 s2 s3. ipc_net_regist m1 s = Some (0, s1) \<and> ipc_net_regist m2 s1 = Some (0, s2) \<and>
    ril_request_voice_registration_state data sz token s2 = Some (RIL_REQUEST_COMPLETED, s3) \<and>
    trace s3 = trace s2 @ [Complete token RIL_E_SUCCESS (RStrings (voice_registration m1 s)) 60] \<and>
    fst (ril_request_data_get RIL_REQUEST_VOICE_REGISTRATION_STATE s3) = Some (PStrings (voice_registration m2 s))"
proof -
  let ?n = "RIL_REQUEST_VOICE_REGISTRATION_STATE"
  define unsol where "unsol = (\<lambda>s. snd (ril_request_unsolicited RIL_UNSOL_RESPONSE_VOICE_NETWORK_STATE_CHANGED RNull 0 s))"
  define s1 where "s1 = unsol (data_appended ?n (PStrings (voice_registration m1 s)) 60 s)"
  define s2 where "s2 = unsol (data_appended ?n (PStrings (voice_registration m2 s)) 60 s1)"
  have frame: "requests (unsol t) = requests t" "ril_data_alive (unsol t) = ril_data_alive t" "radio_state (unsol t) = radio_state t"
    "requests_data (unsol t) = requests_data t" "fmt_data (unsol t) = fmt_data t" "hsdpa_status (unsol t) = hsdpa_status t"
    "next_addr (unsol t) = next_addr t" "env_complete (unsol t) = env_complete t" for t
    by (simp_all add: unsol_def ril_request_unsolicited_def)
  have m1: "ipc_net_regist m1 s = Some (0, s1)"
    using regist_stored [OF assms(1-6)] by (simp add: s1_def unsol_def)
  have pre1: "message_pre s1"
    using net_regist.keeps_invariant [OF assms(1), of m1] m1 by (auto simp: any_message_def)
  have check1: "ril_radio_state_check RADIO_STATE_SIM_NOT_READY s1 = 0" "fmt_data s1" "voice_registration m2 s1 = voice_registration m2 s"
    using assms(2,3) radio_state_check_frame [of s1 s RADIO_STATE_SIM_NOT_READY]
    by (simp_all add: s1_def frame data_appended_def voice_registration_def)
  have m2: "ipc_net_regist m2 s1 = Some (0, s2)"
    using regist_stored [OF pre1 check1(2,1) assms(7-9)] check1(3) by (simp add: s2_def unsol_def)
  have pre2: "message_pre s2"
    using net_regist.keeps_invariant [OF pre1, of m2] m2 by (auto simp: any_message_def)
  let ?d = "\<lambda>m. \<lparr>rd_request = ?n, rd_data = PStrings (voice_registration m s), rd_size = 60\<rparr>"
  have rd: "requests_data s2 = requests_data s @ [(next_addr s, ?d m1), (Suc (next_addr s), ?d m2)]"
    by (simp add: s2_def s1_def frame data_appended_def node_append_def)
  have fresh: "next_addr s \<notin> fst ` set (requests_data s)" "Suc (next_addr s) \<notin> fst ` set (requests_data s)"
    using assms(1) by (auto simp: message_pre_def ril_inv_def nodes_ok_def)
  have none: "node_find (\<lambda>d. rd_request d = ?n) (requests_data s) = None" and alive: "ril_data_alive s"
    using assms(1,10) by (simp_all add: ril_request_data_find_request_def message_pre_def)
  have s2: "ril_data_alive s2" "ril_radio_state_check RADIO_STATE_SIM_NOT_READY s2 = 0"
    "ril_request_find_request_status ?n RIL_REQUEST_HANDLED s2 = None"
    using assms(3,11) alive radio_state_check_frame [of s2 s RADIO_STATE_SIM_NOT_READY]
    by (simp_all add: s2_def s1_def frame data_appended_def ril_request_find_request_status_def)
  define t where "t = s2\<lparr>requests_data := requests_data s @ [(Suc (next_addr s), ?d m2)]\<rparr>"
  have get: "ril_request_data_size_get ?n s2 = 60"
    "ril_request_data_get ?n s2 = (Some (PStrings (voice_registration m1 s)), t)"
    using fresh none s2(1) node_remove_notin [OF fresh(1)]
    by (simp_all add: ril_request_data_size_get_def ril_request_data_get_def ril_request_data_find_request_def rd
      node_find_append ril_request_data_unregister_def t_def map_add_def map_of_eq_None_iff [THEN iffD2])
  have "ril_inv t" "ril_data_alive t" "env_complete t"
    using quiet_data_get [of s2 ?n] get(2) pre2 by (simp_all add: message_pre_def quiet_def)
  note complete = ril_request_complete_eq [OF this assms(12)]
  let ?s3 = "(emit (Complete token RIL_E_SUCCESS (RStrings (voice_registration m1 s)) 60) (remove_token token t))\<lparr>loop_locked := False\<rparr>"
  have "ril_request_voice_registration_state data sz token s2 = Some (RIL_REQUEST_COMPLETED, ?s3)"
    using s2 get complete
    by (simp add: ril_request_voice_registration_state_def request_stored_or_send_def payload_response_def Let_def)
  moreover have "fst (ril_request_data_get ?n ?s3) = Some (PStrings (voice_registration m2 s))"
    using fresh none s2(1)
    by (simp add: ril_request_data_get_def ril_request_data_find_request_def t_def node_find_append
      map_add_def map_of_eq_None_iff [THEN iffD2])
  moreover have "trace ?s3 = trace s2 @ [Complete token RIL_E_SUCCESS (RStrings (voice_registration m1 s)) 60]"
    by (simp add: t_def)
  ultimately show ?thesis
    using m1 m2 by blast
qed

theorem registration_oldest_first_witness:
  "\<exists>s1 s2 s3. ipc_net_regist \<lparr>msg_mseq = 0, msg_aseq = 0xff, msg_command = IPC_NET_REGIST, msg_type = 3,
      msg_data = [4, 2, 3, 0, 0, 0, 0, 0, 0, 0, 0]\<rparr> net_world = Some (0, s1) \<and>
    ipc_net_regist \<lparr>msg_mseq = 0, msg_aseq = 0xff, msg_command = IPC_NET_REGIST, msg_type = 3,
      msg_data = [4, 2, 2, 0, 0x2a, 0, 1, 0, 0, 0, 0]\<rparr> s1 = Some (0, s2) \<and>
    ril_request_voice_registration_state None 0 9 s2 = Some (RIL_REQUEST_COMPLETED, s3) \<and>
    trace s3 = trace s2 @ [Complete 9 RIL_E_SUCCESS
      (RStrings ([Some ''2'', Some ''0'', Some ''0'', Some ''3''] @ replicate 11 None)) 60] \<and>
    fst (ril_request_data_get RIL_REQUEST_VOICE_REGISTRATION_STATE s3) =
      Some (PStrings ([Some ''1'', Some ''2a'', Some ''1'', Some ''3''] @ replicate 11 None))"
proof -
  let ?m = "\<lambda>bs. \<lparr>msg_mseq = 0, msg_aseq = 0xff, msg_command = IPC_NET_REGIST, msg_type = 3, msg_data = bs\<rparr>"
  have "ipc2ril_net_regist_response (regist_response_data [4, 2, 3, 0, 0, 0, 0, 0, 0, 0, 0]) 0 15 =
      [Some ''2'', Some ''0'', Some ''0'', Some ''3''] @ replicate 11 None"
    and "ipc2ril_net_regist_response (regist_response_data [4, 2, 2, 0, 0x2a, 0, 1, 0, 0, 0, 0]) 0 15 =
      [Some ''1'', Some ''2a'', Some ''1'', Some ''3''] @ replicate 11 None"
    by code_simp+
  moreover have "hsdpa_status net_world = 0"
    by (simp add: net_world_def initial_world_def)
  moreover have "ril_request_data_find_request RIL_REQUEST_VOICE_REGISTRATION_STATE net_world = None"
    and "ril_request_find_request_status RIL_REQUEST_VOICE_REGISTRATION_STATE RIL_REQUEST_HANDLED net_world = None"
    by (simp_all add: ril_request_data_find_request_def ril_request_find_request_status_def net_world_def initial_world_def
      request_number_defs)
  ultimately show ?thesis
    using registration_oldest_first [of net_world "?m [4, 2, 3, 0, 0, 0, 0, 0, 0, 0, 0]"
        "?m [4, 2, 2, 0, 0x2a, 0, 1, 0, 0, 0, 0]" 9 None 0] net_world_facts
    by (simp add: IPC_NET_SERVICE_DOMAIN_GSM_def IPC_TYPE_RESP_def voice_registration_def)
qed

end
