(* ===== verification/Ril_Misc.thy ===== *)
theory Ril_Misc
  imports Ril_Network
begin

section \<open>samsung-ril: misc.c, sound.c and oem.c\<close>

text \<open>
  The version of the modem, the identities of subscriber and device, network time and the screen state (\<open>misc.c\<close>); muting,
  and the settings of volume, path and clock that come over the sound socket (\<open>sound.c\<close>); the service mode screens behind the OEM hook
  (\<open>oem.c\<close>, \<open>include/ril_oem.h\<close>). The size that goes with a string is that of a pointer.
\<close>

subsection \<open>misc.c\<close>

definition IPC_MISC_ME_SN_SERIAL_NUM :: u8 where "IPC_MISC_ME_SN_SERIAL_NUM = 0x01"

definition ipc_misc_me_version :: msg_handler where
  "ipc_misc_me_version message s =
     (let bs = msg_data message in
      if length bs < 129 then Some (-1, s)
      else if msg_type message \<noteq> IPC_TYPE_RESP \<or> \<not> ipc_seq_valid (msg_aseq message) then Some (0, s)
      else message_complete (msg_aseq message) RIL_E_SUCCESS
        (RString (map byte_char (takeWhile (\<lambda>b. b \<noteq> 0) (take 32 (drop 1 bs))))) 4 s)"

definition ril_request_baseband_version :: req_handler where
  "ril_request_baseband_version data sz token s =
     (if ril_radio_state_check RADIO_STATE_SIM_NOT_READY s < 0 then Some (RIL_REQUEST_UNHANDLED, s)
      else if ril_request_find_request_status RIL_REQUEST_BASEBAND_VERSION RIL_REQUEST_HANDLED s \<noteq> None
      then Some (RIL_REQUEST_UNHANDLED, s)
      else request_send token IPC_MISC_ME_VERSION IPC_TYPE_GET ipc_misc_me_version_setup s)"

definition ipc_misc_me_imsi :: msg_handler where
  "ipc_misc_me_imsi message s =
     (let bs = msg_data message; aseq = msg_aseq message in
      if length bs < 1 then Some (-1, s)
      else if msg_type message \<noteq> IPC_TYPE_RESP \<or> \<not> ipc_seq_valid aseq then Some (0, s)
      else (case ipc_misc_me_imsi_imsi_extract bs of
          None \<Rightarrow> None
        | Some None \<Rightarrow> message_complete aseq RIL_E_GENERIC_FAILURE RNull 0 s
        | Some (Some imsi) \<Rightarrow> message_complete aseq RIL_E_SUCCESS (RString imsi) 4 s))"

definition ril_request_get_imsi :: req_handler where
  "ril_request_get_imsi data sz token s =
     (if ril_radio_state_check RADIO_STATE_SIM_READY s < 0 then Some (RIL_REQUEST_UNHANDLED, s)
      else if ril_request_find_request_status RIL_REQUEST_GET_IMSI RIL_REQUEST_HANDLED s \<noteq> None
      then Some (RIL_REQUEST_UNHANDLED, s)
      else request_send token IPC_MISC_ME_IMSI IPC_TYPE_GET [] s)"

text \<open>Complete the first handled request with a number, if there is one.\<close>

definition complete_handled :: "int \<Rightarrow> int \<Rightarrow> response \<Rightarrow> nat \<Rightarrow> ril_world \<Rightarrow> (int \<times> ril_world) option" where
  "complete_handled number error data sz s = (case ril_request_find_request_status number RIL_REQUEST_HANDLED s of
      None \<Rightarrow> Some (0, s)
    | Some p \<Rightarrow> (case node_get (requests s) p of
        None \<Rightarrow> None
      | Some request \<Rightarrow> ril_request_complete (rq_token request) error data sz s))"

text \<open>With a serial number of fewer than two characters \<open>strlen(imei) - 2\<close> wraps around and the copy starts before the
  string.\<close>

definition ipc_misc_me_sn :: msg_handler where
  "ipc_misc_me_sn message s =
     (let bs = msg_data message in
      if length bs < 34 then Some (-1, s)
      else if msg_type message \<noteq> IPC_TYPE_RESP then Some (0, s)
      else if bs ! 0 \<noteq> IPC_MISC_ME_SN_SERIAL_NUM then Some (0, s)
      else (case ipc_misc_me_sn_extract (bs ! 0) (bs ! 1) (take 32 (drop 2 bs)) of
          None \<Rightarrow> do {
            (_, s) \<leftarrow> complete_handled RIL_REQUEST_GET_IMEI RIL_E_GENERIC_FAILURE RNull 0 s;
            (_, s) \<leftarrow> complete_handled RIL_REQUEST_GET_IMEISV RIL_E_GENERIC_FAILURE RNull 0 s;
            Some (0, s)
          }
        | Some imei \<Rightarrow>
            if length imei < 2 then None
            else let offset = length imei - 2 in do {
              (_, s) \<leftarrow> complete_handled RIL_REQUEST_GET_IMEI RIL_E_SUCCESS (RString (take offset imei)) 4 s;
              (_, s) \<leftarrow> complete_handled RIL_REQUEST_GET_IMEISV RIL_E_SUCCESS (RString (drop offset imei)) 4 s;
              Some (0, s)
            }))"

definition ril_request_get_imei :: req_handler where
  "ril_request_get_imei data sz token s =
     (if ril_radio_state_check RADIO_STATE_SIM_NOT_READY s < 0 then Some (RIL_REQUEST_UNHANDLED, s)
      else if ril_request_find_request_status RIL_REQUEST_GET_IMEI RIL_REQUEST_HANDLED s \<noteq> None
      then Some (RIL_REQUEST_UNHANDLED, s)
      else if ril_request_find_request_status RIL_REQUEST_GET_IMEISV RIL_REQUEST_HANDLED s \<noteq> None
      then Some (RIL_REQUEST_HANDLED, s)
      else request_send token IPC_MISC_ME_SN IPC_TYPE_GET [IPC_MISC_ME_SN_SERIAL_NUM] s)"

definition ril_request_get_imeisv :: req_handler where
  "ril_request_get_imeisv data sz token s =
     (if ril_radio_state_check RADIO_STATE_SIM_NOT_READY s < 0 then Some (RIL_REQUEST_UNHANDLED, s)
      else if ril_request_find_request_status RIL_REQUEST_GET_IMEISV RIL_REQUEST_HANDLED s \<noteq> None
      then Some (RIL_REQUEST_UNHANDLED, s)
      else if ril_request_find_request_status RIL_REQUEST_GET_IMEI RIL_REQUEST_HANDLED s \<noteq> None
      then Some (RIL_REQUEST_HANDLED, s)
      else request_send token IPC_MISC_ME_SN IPC_TYPE_GET [IPC_MISC_ME_SN_SERIAL_NUM] s)"

text \<open>\<open>%02u\<close>, and \<open>%02d\<close> of a \<open>signed char\<close>.\<close>

definition sprintf_02u :: "nat \<Rightarrow> string" where
  "sprintf_02u n = (if n < 10 then CHR ''0'' # decimal n else decimal n)"

definition sprintf_02d :: "int \<Rightarrow> string" where
  "sprintf_02d i = (if i < 0 then CHR ''-'' # decimal (nat (- i)) else sprintf_02u (nat i))"

definition nitz_string :: "u8 list \<Rightarrow> string" where
  "nitz_string bs =
     (let tz = sint (bs ! 8); u = (\<lambda>i. sprintf_02u (unat (bs ! i))) in
      u 2 @ ''/'' @ u 3 @ ''/'' @ u 4 @ '','' @ u 5 @ '':'' @ u 6 @ '':'' @ u 7 @
      (if tz < 0 then ''-'' else ''+'') @ sprintf_02d (if tz < 0 then - tz else tz) @ '','' @ sprintf_02d (sint (bs ! 9)))"

definition ipc_misc_time_info :: msg_handler where
  "ipc_misc_time_info message s =
     (let bs = msg_data message in
      if length bs < 17 then Some (-1, s)
      else do {
        (_, s) \<leftarrow> Some (ril_request_unsolicited RIL_UNSOL_NITZ_TIME_RECEIVED (RString (nitz_string bs)) 4 s);
        Some (0, s)
      })"

definition ril_request_screen_state :: req_handler where
  "ril_request_screen_state data sz token s = (case data of
      None \<Rightarrow> request_failed token RIL_E_GENERIC_FAILURE s
    | Some d \<Rightarrow>
        if sz < 4 then request_failed token RIL_E_GENERIC_FAILURE s
        else if ril_radio_state_check RADIO_STATE_SIM_NOT_READY s < 0 then Some (RIL_REQUEST_UNHANDLED, s)
        else (case payload_int d of
            None \<Rightarrow> None
          | Some value \<Rightarrow> do {
              (_, s) \<leftarrow> Some (if value \<noteq> 0
                then ril_request_unsolicited RIL_UNSOL_RESPONSE_VOICE_NETWORK_STATE_CHANGED RNull 0 s else (0, s));
              (_, s) \<leftarrow> ril_request_complete token RIL_E_SUCCESS RNull 0 s;
              Some (RIL_REQUEST_COMPLETED, s)
            }))"

subsection \<open>sound.c\<close>

definition IPC_SND_SPKR_VOLUME_CTRL :: u16 where "IPC_SND_SPKR_VOLUME_CTRL = 0x0901"
definition IPC_SND_MIC_MUTE_CTRL :: u16 where "IPC_SND_MIC_MUTE_CTRL = 0x0902"
definition IPC_SND_AUDIO_PATH_CTRL :: u16 where "IPC_SND_AUDIO_PATH_CTRL = 0x0903"
definition IPC_SND_CLOCK_CTRL :: u16 where "IPC_SND_CLOCK_CTRL = 0x0909"
definition IPC_SND_VOLUME_TYPE_VOICE :: u8 where "IPC_SND_VOLUME_TYPE_VOICE = 0x01"
definition IPC_SND_VOLUME_TYPE_SPEAKER :: u8 where "IPC_SND_VOLUME_TYPE_SPEAKER = 0x11"
definition IPC_SND_VOLUME_TYPE_HEADSET :: u8 where "IPC_SND_VOLUME_TYPE_HEADSET = 0x31"
definition IPC_SND_VOLUME_TYPE_BTVOICE :: u8 where "IPC_SND_VOLUME_TYPE_BTVOICE = 0x41"
definition IPC_SND_AUDIO_PATH_HANDSET :: u8 where "IPC_SND_AUDIO_PATH_HANDSET = 0x01"
definition IPC_SND_AUDIO_PATH_HEADSET :: u8 where "IPC_SND_AUDIO_PATH_HEADSET = 0x02"
definition IPC_SND_AUDIO_PATH_SPEAKER :: u8 where "IPC_SND_AUDIO_PATH_SPEAKER = 0x06"
definition IPC_SND_AUDIO_PATH_BLUETOOTH :: u8 where "IPC_SND_AUDIO_PATH_BLUETOOTH = 0x04"
definition IPC_SND_AUDIO_PATH_BLUETOOTH_NO_NR :: u8 where "IPC_SND_AUDIO_PATH_BLUETOOTH_NO_NR = 0x08"
definition IPC_SND_AUDIO_PATH_HEADPHONE :: u8 where "IPC_SND_AUDIO_PATH_HEADPHONE = 0x07"
definition SRS_SND_TYPE_VOICE :: int where "SRS_SND_TYPE_VOICE = 0"
definition SRS_SND_TYPE_SPEAKER :: int where "SRS_SND_TYPE_SPEAKER = 1"
definition SRS_SND_TYPE_HEADSET :: int where "SRS_SND_TYPE_HEADSET = 2"
definition SRS_SND_TYPE_BTVOICE :: int where "SRS_SND_TYPE_BTVOICE = 3"
definition SRS_SND_PATH_HANDSET :: int where "SRS_SND_PATH_HANDSET = 0"
definition SRS_SND_PATH_HEADSET :: int where "SRS_SND_PATH_HEADSET = 1"
definition SRS_SND_PATH_SPEAKER :: int where "SRS_SND_PATH_SPEAKER = 2"
definition SRS_SND_PATH_BLUETOOTH :: int where "SRS_SND_PATH_BLUETOOTH = 3"
definition SRS_SND_PATH_BLUETOOTH_NO_NR :: int where "SRS_SND_PATH_BLUETOOTH_NO_NR = 4"
definition SRS_SND_PATH_HEADPHONE :: int where "SRS_SND_PATH_HEADPHONE = 5"

record srs_message =
  srs_command :: u16
  srs_message_data :: "u8 list"

definition srs2ipc_call_type :: "int \<Rightarrow> u8" where
  "srs2ipc_call_type type =
     (if type = SRS_SND_TYPE_VOICE then IPC_SND_VOLUME_TYPE_VOICE
      else if type = SRS_SND_TYPE_SPEAKER then IPC_SND_VOLUME_TYPE_SPEAKER
      else if type = SRS_SND_TYPE_HEADSET then IPC_SND_VOLUME_TYPE_HEADSET
      else if type = SRS_SND_TYPE_BTVOICE then IPC_SND_VOLUME_TYPE_BTVOICE
      else IPC_SND_VOLUME_TYPE_VOICE)"

definition srs2ipc_audio_path :: "int \<Rightarrow> u8" where
  "srs2ipc_audio_path path =
     (if path = SRS_SND_PATH_HANDSET then IPC_SND_AUDIO_PATH_HANDSET
      else if path = SRS_SND_PATH_HEADSET then IPC_SND_AUDIO_PATH_HEADSET
      else if path = SRS_SND_PATH_SPEAKER then IPC_SND_AUDIO_PATH_SPEAKER
      else if path = SRS_SND_PATH_BLUETOOTH then IPC_SND_AUDIO_PATH_BLUETOOTH
      else if path = SRS_SND_PATH_BLUETOOTH_NO_NR then IPC_SND_AUDIO_PATH_BLUETOOTH_NO_NR
      else if path = SRS_SND_PATH_HEADPHONE then IPC_SND_AUDIO_PATH_HEADPHONE
      else IPC_SND_AUDIO_PATH_HANDSET)"

text \<open>The sound messages return \<open>0\<close> whether or not sending works; the members of their data are integers, the last a byte.\<close>

definition send_new :: "u16 \<Rightarrow> u8 \<Rightarrow> u8 list \<Rightarrow> ril_world \<Rightarrow> int \<times> ril_world" where
  "send_new cmd type data s = (case ipc_fmt_seq s of (seq, s) \<Rightarrow> (0, snd (ipc_fmt_send seq cmd type data s)))"

definition srs_snd_set_call_volume :: "srs_message \<Rightarrow> ril_world \<Rightarrow> int \<times> ril_world" where
  "srs_snd_set_call_volume message s = (let bs = srs_message_data message in
     case (read_int bs, read_int (drop 4 bs)) of
       (Some type, Some volume) \<Rightarrow>
         send_new IPC_SND_SPKR_VOLUME_CTRL IPC_TYPE_SET [srs2ipc_call_type type, word_of_int volume] s
     | _ \<Rightarrow> (-1, s))"

definition ril_request_set_mute :: req_handler where
  "ril_request_set_mute data sz token s = (case data of
      None \<Rightarrow> request_failed token RIL_E_GENERIC_FAILURE s
    | Some d \<Rightarrow>
        if sz < 4 then request_failed token RIL_E_GENERIC_FAILURE s
        else (case payload_int d of
            None \<Rightarrow> None
          | Some mute \<Rightarrow> do {
              (rc, s) \<leftarrow> Some (expect_complete_for token IPC_SND_MIC_MUTE_CTRL s);
              if rc < 0 then request_failed token RIL_E_GENERIC_FAILURE s
              else request_send token IPC_SND_MIC_MUTE_CTRL IPC_TYPE_SET [if mute \<noteq> 0 then 1 else 0] s
            }))"

definition srs_snd_set_call_audio_path :: "srs_message \<Rightarrow> ril_world \<Rightarrow> int \<times> ril_world" where
  "srs_snd_set_call_audio_path message s = (case read_int (srs_message_data message) of
       Some path \<Rightarrow> send_new IPC_SND_AUDIO_PATH_CTRL IPC_TYPE_SET [srs2ipc_audio_path path] s
     | None \<Rightarrow> (-1, s))"

definition srs_snd_set_call_clock_sync :: "srs_message \<Rightarrow> ril_world \<Rightarrow> int \<times> ril_world" where
  "srs_snd_set_call_clock_sync message s = (case srs_message_data message of
       sync # _ \<Rightarrow> send_new IPC_SND_CLOCK_CTRL IPC_TYPE_EXEC [sync] s
     | [] \<Rightarrow> (-1, s))"

subsection \<open>oem.c\<close>

definition RIL_OEM_HOOK_TAG_SVC :: u8 where "RIL_OEM_HOOK_TAG_SVC = 1"
definition RIL_OEM_COMMAND_SVC_ENTER_MODE :: u8 where "RIL_OEM_COMMAND_SVC_ENTER_MODE = 1"
definition RIL_OEM_COMMAND_SVC_END_MODE :: u8 where "RIL_OEM_COMMAND_SVC_END_MODE = 2"
definition RIL_OEM_COMMAND_SVC_KEY :: u8 where "RIL_OEM_COMMAND_SVC_KEY = 3"

definition svc_end_message :: "u8 list" where
  "svc_end_message = string_field 34 ''  End service mode''"

text \<open>The last part of \<open>ipc_svc_display_screen\<close>: \<open>size\<close> bytes from the screen data go to the waiting request or into the request data. Only
  the first entry has been compared with the end of the message, so the bytes may end before \<open>size\<close> does, and reading them is
  undefined.\<close>

definition screen_deliver :: "u8 list \<Rightarrow> nat \<Rightarrow> ril_world \<Rightarrow> (int \<times> ril_world) option" where
  "screen_deliver screen sz s =
     (if length screen < sz then None
      else if ril_request_find_request_status RIL_REQUEST_OEM_HOOK_RAW RIL_REQUEST_HANDLED s \<noteq> None
      then do {
        (_, s) \<leftarrow> complete_handled RIL_REQUEST_OEM_HOOK_RAW RIL_E_SUCCESS (RBytes (take sz screen)) sz s;
        Some (0, s)
      }
      else do {
        (_, s) \<leftarrow> ril_request_data_set_uniq RIL_REQUEST_OEM_HOOK_RAW (Some (PBytes screen)) sz s;
        Some (0, s)
      })"

definition ipc_svc_display_screen :: msg_handler where
  "ipc_svc_display_screen message s =
     (let bs = msg_data message; count = unat (ipc_svc_display_screen_count_extract bs) in
      if length bs < 1 then Some (-1, s)
      else if \<not> fmt_data s then Some (0, s)
      else if count > 0 then
        (let s = s\<lparr>svc_session := if svc_session s = 0 then 1 else svc_session s\<rparr> in
         case ipc_svc_display_screen_extract bs 0 of
           None \<Rightarrow> do {
             (_, s) \<leftarrow> complete_handled RIL_REQUEST_OEM_HOOK_RAW RIL_E_GENERIC_FAILURE RNull 0 s;
             Some (0, s)
           }
         | Some entry \<Rightarrow>
             if le16 (bs ! entry) (bs ! (entry + 1)) \<noteq> 0 then Some (0, s)
             else screen_deliver (drop entry bs) (count * 34) s)
      else
        screen_deliver svc_end_message 34 (ril_request_data_free RIL_REQUEST_OEM_HOOK_RAW (s\<lparr>svc_session := 0\<rparr>)))"

text \<open>The error exit of \<open>ril_request_oem_hook_raw\<close>, and the answer to a query, which hands out the stored screen.\<close>

definition oem_error :: "ril_token \<Rightarrow> ril_world \<Rightarrow> (int \<times> ril_world) option" where
  "oem_error token s = request_failed token RIL_E_GENERIC_FAILURE (ril_request_data_free RIL_REQUEST_OEM_HOOK_RAW s)"

definition oem_query :: "ril_token \<Rightarrow> ril_world \<Rightarrow> (int \<times> ril_world) option" where
  "oem_query token s = do {
     let screen_size = ril_request_data_size_get RIL_REQUEST_OEM_HOOK_RAW s;
     (screen_data, s) \<leftarrow> Some (ril_request_data_get RIL_REQUEST_OEM_HOOK_RAW s);
     (_, s) \<leftarrow> ril_request_complete token RIL_E_SUCCESS (payload_response screen_data) screen_size s;
     Some (RIL_REQUEST_COMPLETED, s)
   }"

definition oem_send :: "ril_token \<Rightarrow> u16 \<Rightarrow> u8 list \<Rightarrow> ril_world \<Rightarrow> (int \<times> ril_world) option" where
  "oem_send token cmd request_data s = do {
     (rc, s) \<leftarrow> Some (expect_abort_for token cmd s);
     if rc < 0 then oem_error token s
     else do {
       (rc, s) \<leftarrow> Some (fmt_send_for token cmd IPC_TYPE_SET request_data s);
       if rc < 0 then oem_error token s
       else Some (RIL_REQUEST_HANDLED, s)
     }
   }"

definition oem_end :: "ril_token \<Rightarrow> u8 \<Rightarrow> ril_world \<Rightarrow> (int \<times> ril_world) option" where
  "oem_end token mode s = do {
     (rc, s) \<leftarrow> Some (expect_complete_for token IPC_SVC_END s);
     if rc < 0 then oem_error token s
     else do {
       (rc, s) \<leftarrow> Some (fmt_send_for token IPC_SVC_END IPC_TYPE_SET [mode] s);
       if rc < 0 then oem_error token s
       else Some (RIL_REQUEST_HANDLED, ril_request_data_free RIL_REQUEST_OEM_HOOK_RAW (s\<lparr>svc_session := 0\<rparr>))
     }
   }"

definition ril_request_oem_hook_raw :: req_handler where
  "ril_request_oem_hook_raw data sz token s = (case data of
      None \<Rightarrow> oem_error token s
    | Some d \<Rightarrow>
        if sz < 4 then oem_error token s
        else if \<not> fmt_data s then oem_error token s
        else if ril_request_find_request_status RIL_REQUEST_OEM_HOOK_RAW RIL_REQUEST_HANDLED s \<noteq> None
        then Some (RIL_REQUEST_UNHANDLED, s)
        else (case d of
            PBytes bs \<Rightarrow>
             (if length bs < sz then None
              else if bs ! 0 \<noteq> RIL_OEM_HOOK_TAG_SVC then oem_error token s
              else if bs ! 1 = RIL_OEM_COMMAND_SVC_ENTER_MODE then
                (if sz - 4 < 3 then oem_error token s
                 else if bs ! 6 \<noteq> 0 then oem_query token s
                 else oem_send token IPC_SVC_ENTER (ipc_svc_enter_setup (bs ! 4) (bs ! 5)) s)
              else if bs ! 1 = RIL_OEM_COMMAND_SVC_END_MODE then
                (if sz - 4 < 1 then oem_error token s
                 else oem_end token (bs ! 4) s)
              else if bs ! 1 = RIL_OEM_COMMAND_SVC_KEY then
                (if sz - 4 < 2 then oem_error token s
                 else if bs ! 5 \<noteq> 0 then oem_query token s
                 else if svc_session s = 0 then oem_error token s
                 else oem_send token IPC_SVC_PRO_KEYCODE [bs ! 4] s)
              else oem_error token s)
          | _ \<Rightarrow> None))"

subsection \<open>The handlers keep their contracts\<close>

lemma quiet_svc_session: "quiet s (s\<lparr>svc_session := x\<rparr>)"
  by (simp add: quiet_def ril_inv_def)

lemma wp_oem [wp_intro]:
  assumes "quiet base s" and "handler_pre token base"
  shows "wp (oem_error token s) (handler_post token base)" and "wp (oem_query token s) (handler_post token base)"
    and "wp (oem_send token cmd rd s) (handler_post token base)" and "wp (oem_end token mode s) (handler_post token base)"
proof -
  have err: "wp (oem_error token s) (handler_post token base)" if "quiet base s" for s
    unfolding oem_error_def using that assms(2) by (intro wp_intro)
  show "wp (oem_error token s) (handler_post token base)"
    using assms(1) by (rule err)
  show "wp (oem_query token s) (handler_post token base)"
    using assms handler_pre_inv by (auto simp: oem_query_def Let_def intro!: wp_intro)
  show "wp (oem_send token cmd rd s) (handler_post token base)"
    using assms by (auto simp: oem_send_def intro!: wp_intro err)
  show "wp (oem_end token mode s) (handler_post token base)"
    using assms by (auto simp: oem_end_def intro!: wp_intro err quiet_trans [OF _ quiet_svc_session])
qed

interpretation baseband_version: request_handler ril_request_baseband_version any_payload
proof
  fix token s data sz
  assume "handler_pre token s"
  with quiet_refl [of s] show "wp (ril_request_baseband_version data sz token s) (handler_post token s)"
    by (auto simp: ril_request_baseband_version_def intro!: wp_intro)
qed

interpretation get_imsi: request_handler ril_request_get_imsi any_payload
proof
  fix token s data sz
  assume "handler_pre token s"
  with quiet_refl [of s] show "wp (ril_request_get_imsi data sz token s) (handler_post token s)"
    by (auto simp: ril_request_get_imsi_def intro!: wp_intro)
qed

interpretation get_imei: request_handler ril_request_get_imei any_payload
proof
  fix token s data sz
  assume "handler_pre token s"
  with quiet_refl [of s] show "wp (ril_request_get_imei data sz token s) (handler_post token s)"
    by (auto simp: ril_request_get_imei_def intro!: wp_intro)
qed

interpretation get_imeisv: request_handler ril_request_get_imeisv any_payload
proof
  fix token s data sz
  assume "handler_pre token s"
  with quiet_refl [of s] show "wp (ril_request_get_imeisv data sz token s) (handler_post token s)"
    by (auto simp: ril_request_get_imeisv_def intro!: wp_intro)
qed

interpretation screen_state: request_handler ril_request_screen_state bytes_payload
proof
  fix token s data sz
  assume "handler_pre token s" and "bytes_payload data sz"
  with quiet_refl [of s] show "wp (ril_request_screen_state data sz token s) (handler_post token s)"
    by (auto simp: ril_request_screen_state_def split: option.split intro!: wp_intro dest: bytes_payload_int)
qed

interpretation set_mute: request_handler ril_request_set_mute bytes_payload
proof
  fix token s data sz
  assume "handler_pre token s" and "bytes_payload data sz"
  with quiet_refl [of s] show "wp (ril_request_set_mute data sz token s) (handler_post token s)"
    by (auto simp: ril_request_set_mute_def split: option.split intro!: wp_intro dest: bytes_payload_int)
qed

interpretation oem_hook_raw: request_handler ril_request_oem_hook_raw bytes_payload
proof
  fix token s data sz
  assume a: "handler_pre token s" "bytes_payload data sz"
  show "wp (ril_request_oem_hook_raw data sz token s) (handler_post token s)"
  proof (cases data)
    case (Some d)
    with a obtain bs where "d = PBytes bs" "sz \<le> length bs"
      using bytes_payload_PBytes by blast
    with Some a(1) quiet_refl [of s] show ?thesis
      by (auto simp: ril_request_oem_hook_raw_def intro!: wp_intro)
  qed (use a quiet_refl [of s] in \<open>auto simp: ril_request_oem_hook_raw_def intro!: wp_intro\<close>)
qed

text \<open>The message handlers. That the length of an IMSI lies within its message is up to the modem.\<close>

definition imsi_whole :: "ipc_message \<Rightarrow> ril_world \<Rightarrow> bool" where
  "imsi_whole m s \<longleftrightarrow> ipc_misc_me_imsi_imsi_extract (msg_data m) \<noteq> None"

interpretation misc_me_version: message_handler ipc_misc_me_version any_message
proof
  fix s m
  assume "message_pre s"
  with quiet_refl [of s] show "wp (ipc_misc_me_version m s) (message_post (msg_aseq m) s)"
    by (auto simp: ipc_misc_me_version_def Let_def intro!: wp_intro message_post_quiet)
qed

interpretation misc_me_imsi: message_handler ipc_misc_me_imsi imsi_whole
proof
  fix s m
  assume "message_pre s" and "imsi_whole m s"
  with quiet_refl [of s] show "wp (ipc_misc_me_imsi m s) (message_post (msg_aseq m) s)"
    by (auto simp: ipc_misc_me_imsi_def imsi_whole_def Let_def split: option.split intro!: wp_intro message_post_quiet)
qed

interpretation misc_time_info: message_handler ipc_misc_time_info any_message
proof
  fix s m
  assume "message_pre s"
  with quiet_refl [of s] show "wp (ipc_misc_time_info m s) (message_post (msg_aseq m) s)"
    by (auto simp: ipc_misc_time_info_def Let_def intro!: wp_intro message_post_quiet)
qed

lemma find_request_status_live:
  assumes "ril_request_find_request_status number status s = Some p"
  obtains r where "node_get (requests s) p = Some r" "rq_token r \<in> tokens s"
proof -
  obtain r where "node_get (requests s) p = Some r"
    using assms by (auto simp: ril_request_find_request_status_def split: if_splits dest: node_find_Some_get_ex)
  with tokens_get [OF this] that show ?thesis
    by blast
qed

lemma wp_complete_handled:
  assumes "message_pre s"
  shows "wp (complete_handled number error data sz s) (safe_post s)"
proof (cases "ril_request_find_request_status number RIL_REQUEST_HANDLED s")
  case None
  then show ?thesis
    using safe_post_quiet [OF assms quiet_refl] by (simp add: complete_handled_def)
next
  case (Some p)
  then obtain r where r: "node_get (requests s) p = Some r" "rq_token r \<in> tokens s"
    by (rule find_request_status_live)
  obtain s' where s': "ril_request_complete (rq_token r) error data sz s = Some (0, s')"
    using ril_request_complete_Some [OF assms] by blast
  with safe_post_complete [OF assms s'] r Some show ?thesis
    by (simp add: complete_handled_def)
qed

lemma safe_post_pre: "safe_post s rc t \<Longrightarrow> message_pre t"
  by (simp add: safe_post_def)

lemma wp_complete_two:
  assumes "message_pre s"
  shows "wp (do {
      (_, s) \<leftarrow> complete_handled n1 e1 d1 z1 s;
      (_, s) \<leftarrow> complete_handled n2 e2 d2 z2 s;
      Some (0, s)
    }) (safe_post s)"
  unfolding wp_bind
proof (rule wp_mono [OF wp_complete_handled [OF assms]], clarsimp)
  fix rc t
  assume t: "safe_post s rc t"
  show "wp (complete_handled n2 e2 d2 z2 t) (\<lambda>r s'. safe_post s 0 s')"
    by (rule wp_mono [OF wp_complete_handled [OF safe_post_pre [OF t]]])
      (use safe_post_trans [OF t] in \<open>auto simp: safe_post_def\<close>)
qed

text \<open>A serial number has at least the two characters of the software version.\<close>

definition serial_number_long :: "ipc_message \<Rightarrow> ril_world \<Rightarrow> bool" where
  "serial_number_long m s = (case ipc_misc_me_sn_extract (msg_data m ! 0) (msg_data m ! 1) (take 32 (drop 2 (msg_data m))) of
      None \<Rightarrow> True | Some imei \<Rightarrow> 2 \<le> length imei)"

interpretation misc_me_sn: safe_handler ipc_misc_me_sn serial_number_long
proof
  fix s m
  assume "message_pre s" and "serial_number_long m s"
  with wp_complete_two [of s] safe_post_quiet [of s s] quiet_refl [of s] show "wp (ipc_misc_me_sn m s) (safe_post s)"
    by (auto simp: ipc_misc_me_sn_def serial_number_long_def Let_def simp del: wp_bind split: option.splits)
qed

text \<open>A screen message holds all the entries it announces, unless it is one that is ignored.\<close>

definition screen_whole :: "ipc_message \<Rightarrow> ril_world \<Rightarrow> bool" where
  "screen_whole m s \<longleftrightarrow> 1 + 34 * unat (ipc_svc_display_screen_count_extract (msg_data m)) \<le> length (msg_data m)"

lemma wp_handled_then_zero:
  assumes "safe_post base rc s"
  shows "wp (do {(_, s) \<leftarrow> complete_handled n e d z s; Some (0, s)}) (safe_post base)"
  unfolding wp_bind
  by (rule wp_mono [OF wp_complete_handled [OF safe_post_pre [OF assms]]])
    (use safe_post_trans [OF assms] in \<open>auto simp: safe_post_def\<close>)

lemma wp_screen_deliver:
  assumes "message_pre base" and "quiet base s" and "sz \<le> length screen"
  shows "wp (screen_deliver screen sz s) (safe_post base)"
proof -
  have "wp (ril_request_data_set_uniq RIL_REQUEST_OEM_HOOK_RAW (Some (PBytes screen)) sz s) (\<lambda>r s. safe_post base 0 s)"
    by (rule wp_data_set_uniq [OF assms(2)]) (use assms in \<open>auto simp: bytes_payload_def intro!: safe_post_quiet\<close>)
  then show ?thesis
    using assms(3) wp_handled_then_zero [OF safe_post_quiet [OF assms(1,2), of 0]]
    by (auto simp: screen_deliver_def simp del: wp_bind) (simp add: wp_bind)
qed

interpretation svc_display_screen: safe_handler ipc_svc_display_screen screen_whole
proof
  fix s m
  assume a: "message_pre s" "screen_whole m s"
  have q: "quiet s (s\<lparr>svc_session := x\<rparr>)" "quiet s (ril_request_data_free n (s\<lparr>svc_session := x\<rparr>))" for x n
    using quiet_svc_session quiet_trans [OF quiet_svc_session quiet_data_free] by blast+
  have entry: "p = 1" if "ipc_svc_display_screen_extract (msg_data m) 0 = Some p" for p
    using that display_screen.entry_iff [of "msg_data m" 0 p] by simp
  have deliver: "wp (screen_deliver (drop (Suc 0) (msg_data m)) (unat (ipc_svc_display_screen_count_extract (msg_data m)) * 34) t)
      (safe_post s)" if "quiet s t" for t
    using a that by (intro wp_screen_deliver) (auto simp: screen_whole_def)
  have last: "wp (screen_deliver svc_end_message 34 t) (safe_post s)" if "quiet s t" for t
    using a(1) that by (intro wp_screen_deliver) (auto simp: svc_end_message_def)
  have handled: "wp (do {(_, s) \<leftarrow> complete_handled n e d z t; Some (0, s)}) (safe_post s)" if "quiet s t" for n e d z t
    using wp_handled_then_zero [OF safe_post_quiet [OF a(1) that, of 0]] by simp
  show "wp (ipc_svc_display_screen m s) (safe_post s)"
    using q entry quiet_refl [of s]
    by (auto simp: ipc_svc_display_screen_def Let_def simp del: wp_bind split: option.split
      intro!: deliver last handled safe_post_quiet [OF a(1)])
qed

subsection \<open>Properties\<close>

lemma node_find_filter:
  assumes "distinct (map fst ns)" and "node_find P ns = Some p" and "node_get ns p = Some r" and "Q (p, r)"
  shows "node_find P (filter Q ns) = Some p" and "node_get (filter Q ns) p = Some r"
proof -
  show "node_find P (filter Q ns) = Some p"
    using assms
  proof (induction ns)
    case (Cons n ns)
    show ?case
    proof (cases "P (snd n)")
      case False
      then have find: "node_find P ns = Some p"
        using Cons.prems by simp
      moreover from node_find_Some_fst [OF this] have "fst n \<noteq> p"
        using Cons.prems by auto
      ultimately show ?thesis
        using False Cons by (cases n) auto
    qed (use Cons.prems in \<open>cases n; auto\<close>)
  qed simp
  show "node_get (filter Q ns) p = Some r"
    using assms(1,3,4) by (simp add: map_of_eq_Some_iff distinct_map_filter)
qed

lemma find_request_status_get:
  assumes "ril_inv s" and "ril_request_find_request_status number status s = Some p"
  obtains r where "node_get (requests s) p = Some r" "(p, r) \<in> set (requests s)" "rq_request r = number" "rq_status r = status"
proof -
  have "distinct (map fst (requests s))"
    using assms(1) by (simp add: ril_inv_def nodes_ok_def)
  from node_find_Some_get [OF this] assms(2) that show ?thesis
    by (auto simp: ril_request_find_request_status_def split: if_splits)
qed

text \<open>One answer of the modem with the serial number settles both identity requests: when a request for the IMEI and one for the
  IMEISV wait, the first is completed with all but the last two characters of the serial number and the second with these two, in
  this order, and nothing else changes in the queue; with a serial number of fewer than two characters the handler reads outside
  the string.\<close>

theorem serial_number_answer:
  assumes "message_pre s" and "34 \<le> length (msg_data m)" and "msg_type m = IPC_TYPE_RESP"
    and "msg_data m ! 0 = IPC_MISC_ME_SN_SERIAL_NUM"
    and "ipc_misc_me_sn_extract (msg_data m ! 0) (msg_data m ! 1) (take 32 (drop 2 (msg_data m))) = Some imei"
    and "ril_request_find_request_status RIL_REQUEST_GET_IMEI RIL_REQUEST_HANDLED s = Some p1"
    and "ril_request_find_request_status RIL_REQUEST_GET_IMEISV RIL_REQUEST_HANDLED s = Some p2"
    and "node_get (requests s) p1 = Some r1" and "node_get (requests s) p2 = Some r2"
    and "rq_token r1 \<noteq> 0" and "rq_token r2 \<noteq> 0"
  shows "if length imei < 2 then ipc_misc_me_sn m s = None
    else \<exists>s'. ipc_misc_me_sn m s = Some (0, s') \<and> message_pre s' \<and>
      requests s' = filter (\<lambda>n. rq_token (snd n) \<notin> {rq_token r1, rq_token r2}) (requests s) \<and>
      trace s' = trace s @ [Complete (rq_token r1) RIL_E_SUCCESS (RString (take (length imei - 2) imei)) 4,
        Complete (rq_token r2) RIL_E_SUCCESS (RString (drop (length imei - 2) imei)) 4]"
proof (cases "length imei < 2")
  case False
  have pre: "ril_inv s" "ril_data_alive s" "env_complete s"
    using assms(1) by (simp_all add: message_pre_def)
  have r1: "(p1, r1) \<in> set (requests s)" "rq_request r1 = RIL_REQUEST_GET_IMEI"
    using find_request_status_get [OF pre(1) assms(6)] assms(8) by auto
  have r2: "(p2, r2) \<in> set (requests s)" "rq_request r2 = RIL_REQUEST_GET_IMEISV"
    using find_request_status_get [OF pre(1) assms(7)] assms(9) by auto
  have distinct: "distinct (map (\<lambda>n. rq_token (snd n)) (requests s))" "distinct (map fst (requests s))"
    using pre(1) by (simp_all add: ril_inv_def nodes_ok_def)
  have tokens: "rq_token r2 \<noteq> rq_token r1"
    using distinct_map_eqD [OF distinct(1) r1(1) r2(1)] r1(2) r2(2) by (auto simp: request_number_defs)
  let ?c = "\<lambda>r str s. (emit (Complete (rq_token r) RIL_E_SUCCESS (RString str) 4) (remove_token (rq_token r) s))\<lparr>loop_locked := False\<rparr>"
  let ?t = "?c r1 (take (length imei - 2) imei) s"
  have pre_t: "ril_inv ?t" "ril_data_alive ?t" "env_complete ?t"
    using pre by (simp_all add: ril_inv_remove_token)
  have c1: "complete_handled RIL_REQUEST_GET_IMEI RIL_E_SUCCESS (RString str) 4 s = Some (0, ?c r1 str s)" for str
    using assms(6,8,10) pre by (simp add: complete_handled_def ril_request_complete_eq)
  have find2: "ril_request_find_request_status RIL_REQUEST_GET_IMEISV RIL_REQUEST_HANDLED ?t = Some p2"
      "node_get (requests ?t) p2 = Some r2"
    using node_find_filter [OF distinct(2) _ assms(9), of "\<lambda>r. rq_request r = RIL_REQUEST_GET_IMEISV \<and> rq_status r = RIL_REQUEST_HANDLED"
        "\<lambda>n. rq_token (snd n) \<noteq> rq_token r1"] assms(7) tokens
    by (auto simp: ril_request_find_request_status_def split: if_splits)
  have c2: "complete_handled RIL_REQUEST_GET_IMEISV RIL_E_SUCCESS (RString str) 4 ?t = Some (0, ?c r2 str ?t)" for str
    using find2 assms(11) ril_request_complete_eq [OF pre_t] by (simp add: complete_handled_def)
  have "ipc_misc_me_sn m s = Some (0, ?c r2 (drop (length imei - 2) imei) ?t)"
    using False assms(2-5) c1 c2 by (simp add: ipc_misc_me_sn_def Let_def)
  moreover have "message_pre (?c r2 (drop (length imei - 2) imei) ?t)"
    using pre_t ril_inv_remove_token [OF pre_t(1)] by (simp add: message_pre_def)
  ultimately show ?thesis
    using False by (simp add: conj_commute)
qed (use assms(2-5) in \<open>simp add: ipc_misc_me_sn_def Let_def\<close>)

definition identity_world :: ril_world where
  "identity_world = (initial_world [])\<lparr>ril_data_alive := True, env_complete := True, next_addr := 3,
     requests := [(1, \<lparr>rq_request = RIL_REQUEST_GET_IMEI, rq_data = None, rq_size = 0, rq_token = 7, rq_status = 1\<rparr>),
       (2, \<lparr>rq_request = RIL_REQUEST_GET_IMEISV, rq_data = None, rq_size = 0, rq_token = 8, rq_status = 1\<rparr>)]\<rparr>"

theorem serial_number_answer_witness:
  "\<exists>s'. ipc_misc_me_sn \<lparr>msg_mseq = 0, msg_aseq = 5, msg_command = IPC_MISC_ME_SN, msg_type = 2,
      msg_data = [1, 4, 0x33, 0x35, 0x30, 0x31] @ replicate 28 0\<rparr> identity_world = Some (0, s') \<and>
    trace s' = [Complete 7 RIL_E_SUCCESS (RString ''35'') 4, Complete 8 RIL_E_SUCCESS (RString ''01'') 4]"
proof -
  let ?m = "\<lparr>msg_mseq = 0, msg_aseq = 5, msg_command = IPC_MISC_ME_SN, msg_type = 2,
      msg_data = [1, 4, 0x33, 0x35, 0x30, 0x31] @ replicate 28 0\<rparr>"
  have "ipc_misc_me_sn_extract 1 4 (take 32 (drop 2 (msg_data ?m))) = Some ''3501''"
    by code_simp
  moreover have "message_pre identity_world"
    and "ril_request_find_request_status RIL_REQUEST_GET_IMEI RIL_REQUEST_HANDLED identity_world = Some 1"
    and "ril_request_find_request_status RIL_REQUEST_GET_IMEISV RIL_REQUEST_HANDLED identity_world = Some 2"
    by (simp_all add: identity_world_def initial_world_def message_pre_def ril_inv_def nodes_ok_def
      ril_request_find_request_status_def request_number_defs status_defs)
  ultimately show ?thesis
    using serial_number_answer [of identity_world ?m "''3501''" 1 2
        "\<lparr>rq_request = RIL_REQUEST_GET_IMEI, rq_data = None, rq_size = 0, rq_token = 7, rq_status = 1\<rparr>"
        "\<lparr>rq_request = RIL_REQUEST_GET_IMEISV, rq_data = None, rq_size = 0, rq_token = 8, rq_status = 1\<rparr>"]
    by (auto simp: IPC_TYPE_RESP_def IPC_MISC_ME_SN_SERIAL_NUM_def identity_world_def initial_world_def)
qed

end
