(* ===== verification/Ril_Dispatch.thy ===== *)
theory Ril_Dispatch
  imports Ril_Loop Ril_Power Ril_Call Ril_Misc
begin

section \<open>samsung-ril: the handler tables\<close>

text \<open>
  The tables \<open>ril_request_handlers\<close> and \<open>ipc_fmt_dispatch_handlers\<close> of \<open>samsung-ril.c\<close> and \<open>ipc_fmt_dispatch\<close> of \<open>ipc.c\<close>. Here the
  contracts of all handlers come together: the request table interprets the locale \<open>handler_table\<close> of theory \<open>Ril_Loop\<close>, and the
  dispatcher for the messages of the modem is itself a \<open>safe_handler\<close>. What the environment and the modem have to respect for that is
  in \<open>request_payloads\<close> and \<open>message_guards\<close>; every request and command not listed there is accepted with any data.
\<close>

subsection \<open>Messages\<close>

text \<open>The function pointers registered with expected responses.\<close>

definition run_callback :: "ipc_callback \<Rightarrow> msg_handler" where
  "run_callback callback = (case callback of
      Cb_call_cont_dtmf \<Rightarrow> ipc_call_cont_dtmf_callback
    | Cb_sec_pin_status \<Rightarrow> ipc_sec_pin_status_callback
    | Cb_sec \<Rightarrow> ipc_sec_callback
    | Cb_net_plmn_sel \<Rightarrow> ipc_net_plmn_sel_callback
    | Cb_gprs_define_pdp_context \<Rightarrow> ipc_gprs_define_pdp_context_callback
    | Cb_gprs_pdp_context \<Rightarrow> ipc_gprs_pdp_context_callback)"

definition ipc_fmt_dispatch_handlers :: "(u16 \<times> msg_handler) list" where
  "ipc_fmt_dispatch_handlers = [
     (IPC_PWR_PHONE_PWR_UP, ipc_pwr_phone_pwr_up),
     (IPC_PWR_PHONE_RESET, ipc_pwr_phone_reset),
     (IPC_PWR_PHONE_STATE, ipc_pwr_phone_state),
     (IPC_CALL_INCOMING, ipc_call_incoming),
     (IPC_CALL_STATUS, ipc_call_status),
     (IPC_CALL_LIST, ipc_call_list),
     (IPC_CALL_BURST_DTMF, ipc_call_burst_dtmf),
     (IPC_SMS_SEND_MSG, ipc_sms_send_msg),
     (IPC_SMS_INCOMING_MSG, ipc_sms_incoming_msg),
     (IPC_SMS_SAVE_MSG, ipc_sms_save_msg),
     (IPC_SMS_DEL_MSG, ipc_sms_del_msg),
     (IPC_SMS_DELIVER_REPORT, ipc_sms_deliver_report),
     (IPC_SMS_SVC_CENTER_ADDR, ipc_sms_svc_center_addr),
     (IPC_SEC_PIN_STATUS, ipc_sec_pin_status),
     (IPC_SEC_PHONE_LOCK, ipc_sec_phone_lock),
     (IPC_SEC_RSIM_ACCESS, ipc_sec_rsim_access),
     (IPC_SEC_SIM_ICC_TYPE, ipc_sec_sim_icc_type),
     (IPC_SEC_LOCK_INFOMATION, ipc_sec_lock_infomation),
     (IPC_DISP_ICON_INFO, ipc_disp_icon_info),
     (IPC_DISP_RSSI_INFO, ipc_disp_rssi_info),
     (IPC_NET_PLMN_SEL, ipc_net_plmn_sel),
     (IPC_NET_SERVING_NETWORK, ipc_net_serving_network),
     (IPC_NET_PLMN_LIST, ipc_net_plmn_list),
     (IPC_NET_REGIST, ipc_net_regist),
     (IPC_NET_MODE_SEL, ipc_net_mode_sel),
     (IPC_MISC_ME_VERSION, ipc_misc_me_version),
     (IPC_MISC_ME_IMSI, ipc_misc_me_imsi),
     (IPC_MISC_ME_SN, ipc_misc_me_sn),
     (IPC_MISC_TIME_INFO, ipc_misc_time_info),
     (IPC_SVC_DISPLAY_SCREEN, ipc_svc_display_screen),
     (IPC_GPRS_PS, ipc_gprs_ps),
     (IPC_GPRS_PDP_CONTEXT, ipc_gprs_pdp_context),
     (IPC_GPRS_IP_CONFIGURATION, ipc_gprs_ip_configuration),
     (IPC_GPRS_HSDPA_STATUS, ipc_gprs_hsdpa_status),
     (IPC_GPRS_CALL_STATUS, ipc_gprs_call_status),
     (IPC_GEN_PHONE_RES, ipc_gen_phone_res run_callback)]"

definition ipc_fmt_dispatch :: msg_handler where
  "ipc_fmt_dispatch message s =
     (if \<not> ril_data_alive s then Some (-1, s)
      else (case map_of ipc_fmt_dispatch_handlers (msg_command message) of
          None \<Rightarrow> Some (0, s)
        | Some handler \<Rightarrow> do {
            (rc, s) \<leftarrow> handler message s;
            Some (if rc < 0 then -1 else 0, s)
          }))"

subsection \<open>Requests\<close>

definition ril_request_handlers :: handler_table where
  "ril_request_handlers = [
     (RIL_REQUEST_RADIO_POWER, ril_request_radio_power),
     (RIL_REQUEST_DIAL, ril_request_dial),
     (RIL_REQUEST_HANGUP, ril_request_hangup),
     (RIL_REQUEST_HANGUP_WAITING_OR_BACKGROUND, ril_request_hangup),
     (RIL_REQUEST_HANGUP_FOREGROUND_RESUME_BACKGROUND, ril_request_hangup),
     (RIL_REQUEST_ANSWER, ril_request_answer),
     (RIL_REQUEST_LAST_CALL_FAIL_CAUSE, ril_request_last_call_fail_cause),
     (RIL_REQUEST_GET_CURRENT_CALLS, ril_request_get_current_calls),
     (RIL_REQUEST_DTMF, ril_request_dtmf),
     (RIL_REQUEST_DTMF_START, ril_request_dtmf_start),
     (RIL_REQUEST_DTMF_STOP, ril_request_dtmf_stop),
     (RIL_REQUEST_SEND_SMS, ril_request_send_sms),
     (RIL_REQUEST_SEND_SMS_EXPECT_MORE, ril_request_send_sms),
     (RIL_REQUEST_WRITE_SMS_TO_SIM, ril_request_write_sms_to_sim),
     (RIL_REQUEST_DELETE_SMS_ON_SIM, ril_request_delete_sms_on_sim),
     (RIL_REQUEST_SMS_ACKNOWLEDGE, ril_request_sms_acknowledge),
     (RIL_REQUEST_GET_SIM_STATUS, ril_request_get_sim_status),
     (RIL_REQUEST_QUERY_FACILITY_LOCK, ril_request_query_facility_lock),
     (RIL_REQUEST_SET_FACILITY_LOCK, ril_request_set_facility_lock),
     (RIL_REQUEST_ENTER_SIM_PIN, ril_request_enter_sim_pin),
     (RIL_REQUEST_ENTER_SIM_PUK, ril_request_enter_sim_puk),
     (RIL_REQUEST_ENTER_SIM_PIN2, ril_request_enter_sim_pin2),
     (RIL_REQUEST_ENTER_SIM_PUK2, ril_request_enter_sim_puk2),
     (RIL_REQUEST_CHANGE_SIM_PIN, ril_request_change_sim_pin),
     (RIL_REQUEST_CHANGE_SIM_PIN2, ril_request_change_sim_pin2),
     (RIL_REQUEST_SIM_IO, ril_request_sim_io),
     (RIL_REQUEST_SIGNAL_STRENGTH, ril_request_signal_strength),
     (RIL_REQUEST_QUERY_NETWORK_SELECTION_MODE, ril_request_query_network_selection_mode),
     (RIL_REQUEST_SET_NETWORK_SELECTION_AUTOMATIC, ril_request_set_network_selection_automatic),
     (RIL_REQUEST_SET_NETWORK_SELECTION_MANUAL, ril_request_set_network_selection_manual),
     (RIL_REQUEST_OPERATOR, ril_request_operator),
     (RIL_REQUEST_QUERY_AVAILABLE_NETWORKS, ril_request_query_available_networks),
     (RIL_REQUEST_VOICE_REGISTRATION_STATE, ril_request_voice_registration_state),
     (RIL_REQUEST_DATA_REGISTRATION_STATE, ril_request_data_registration_state),
     (RIL_REQUEST_GET_PREFERRED_NETWORK_TYPE, ril_request_get_preferred_network_type),
     (RIL_REQUEST_SET_PREFERRED_NETWORK_TYPE, ril_request_set_preferred_network_type),
     (RIL_REQUEST_SET_MUTE, ril_request_set_mute),
     (RIL_REQUEST_BASEBAND_VERSION, ril_request_baseband_version),
     (RIL_REQUEST_GET_IMSI, ril_request_get_imsi),
     (RIL_REQUEST_GET_IMEI, ril_request_get_imei),
     (RIL_REQUEST_GET_IMEISV, ril_request_get_imeisv),
     (RIL_REQUEST_SCREEN_STATE, ril_request_screen_state),
     (RIL_REQUEST_OEM_HOOK_RAW, ril_request_oem_hook_raw),
     (RIL_REQUEST_SETUP_DATA_CALL, ril_request_setup_data_call),
     (RIL_REQUEST_DEACTIVATE_DATA_CALL, ril_request_deactivate_data_call),
     (RIL_REQUEST_LAST_DATA_CALL_FAIL_CAUSE, ril_request_last_data_call_fail_cause),
     (RIL_REQUEST_DATA_CALL_LIST, ril_request_data_call_list)]"

subsection \<open>What the environment and the modem have to respect\<close>

text \<open>The kind of object that a request comes with.\<close>

definition request_payloads :: "(int \<times> (payload option \<Rightarrow> nat \<Rightarrow> bool)) list" where
  "request_payloads = [
     (RIL_REQUEST_RADIO_POWER, bytes_payload),
     (RIL_REQUEST_DIAL, dial_payload),
     (RIL_REQUEST_DTMF, bytes_payload),
     (RIL_REQUEST_DTMF_START, bytes_payload),
     (RIL_REQUEST_SEND_SMS, sms_strings),
     (RIL_REQUEST_SEND_SMS_EXPECT_MORE, sms_strings),
     (RIL_REQUEST_WRITE_SMS_TO_SIM, sms_write_payload),
     (RIL_REQUEST_DELETE_SMS_ON_SIM, bytes_payload),
     (RIL_REQUEST_SMS_ACKNOWLEDGE, bytes_payload),
     (RIL_REQUEST_QUERY_FACILITY_LOCK, string_values 4),
     (RIL_REQUEST_SET_FACILITY_LOCK, facility_values),
     (RIL_REQUEST_ENTER_SIM_PIN, string_values 2),
     (RIL_REQUEST_ENTER_SIM_PUK, string_values 2),
     (RIL_REQUEST_ENTER_SIM_PIN2, string_values 2),
     (RIL_REQUEST_ENTER_SIM_PUK2, string_values 2),
     (RIL_REQUEST_CHANGE_SIM_PIN, string_values 3),
     (RIL_REQUEST_CHANGE_SIM_PIN2, string_values 3),
     (RIL_REQUEST_SIM_IO, sim_io_payload),
     (RIL_REQUEST_SET_NETWORK_SELECTION_MANUAL, string_payload),
     (RIL_REQUEST_SET_PREFERRED_NETWORK_TYPE, bytes_payload),
     (RIL_REQUEST_SET_MUTE, bytes_payload),
     (RIL_REQUEST_SCREEN_STATE, bytes_payload),
     (RIL_REQUEST_OEM_HOOK_RAW, bytes_payload),
     (RIL_REQUEST_SETUP_DATA_CALL, data_call_strings),
     (RIL_REQUEST_DEACTIVATE_DATA_CALL, cid_strings)]"

definition request_accepts :: "int \<Rightarrow> payload option \<Rightarrow> nat \<Rightarrow> bool" where
  "request_accepts request data sz = (case map_of request_payloads request of None \<Rightarrow> True | Some P \<Rightarrow> P data sz)"

text \<open>What a message must not be for its handler to be defined; each guard is discussed with the handler.\<close>

definition callback_safe :: "ipc_message \<Rightarrow> ril_world \<Rightarrow> bool" where
  "callback_safe m s = (case ipc_gen_phone_res_expect_find_aseq (msg_aseq m) s of
      None \<Rightarrow> True
    | Some p \<Rightarrow> (case node_get (gen_phone_res_expect s) p of
        Some e \<Rightarrow> ex_callback e = Some Cb_sec \<longrightarrow> sec_callback_safe m s
      | None \<Rightarrow> True))"

definition message_guards :: "(u16 \<times> (ipc_message \<Rightarrow> ril_world \<Rightarrow> bool)) list" where
  "message_guards = [
     (IPC_PWR_PHONE_PWR_UP, no_connections),
     (IPC_PWR_PHONE_RESET, no_connections),
     (IPC_PWR_PHONE_STATE, no_connections),
     (IPC_CALL_LIST, call_list_whole),
     (IPC_SMS_SVC_CENTER_ADDR, pdu_whole),
     (IPC_SEC_RSIM_ACCESS, rsim_safe),
     (IPC_MISC_ME_IMSI, imsi_whole),
     (IPC_MISC_ME_SN, serial_number_long),
     (IPC_SVC_DISPLAY_SCREEN, screen_whole),
     (IPC_GPRS_PDP_CONTEXT, dns_known),
     (IPC_GPRS_CALL_STATUS, call_status_safe),
     (IPC_GEN_PHONE_RES, callback_safe)]"

definition message_safe :: "ipc_message \<Rightarrow> ril_world \<Rightarrow> bool" where
  "message_safe m s = (case map_of message_guards (msg_command m) of None \<Rightarrow> True | Some P \<Rightarrow> P m s)"

subsection \<open>The contracts of the tables\<close>

lemma any_payload_accepts [simp]: "any_payload data sz"
  by (simp add: any_payload_def)

lemma any_message_accepts [simp]: "any_message m s"
  by (simp add: any_message_def)

lemmas request_contracts = radio_power.correct dial.correct hangup.correct answer.correct last_call_fail_cause.correct
  get_current_calls.correct dtmf.correct dtmf_start.correct dtmf_stop.correct send_sms.correct write_sms_to_sim.correct
  delete_sms_on_sim.correct sms_acknowledge.correct get_sim_status.correct query_facility_lock.correct
  set_facility_lock.correct enter_sim_pin.correct enter_sim_puk.correct enter_sim_pin2.correct enter_sim_puk2.correct
  change_sim_pin.correct change_sim_pin2.correct sim_io.correct signal_strength.correct
  query_network_selection_mode.correct set_network_selection_automatic.correct set_network_selection_manual.correct
  operator.correct query_available_networks.correct voice_registration_state.correct data_registration_state.correct
  get_preferred_network_type.correct set_preferred_network_type.correct set_mute.correct baseband_version.correct
  get_imsi.correct get_imei.correct get_imeisv.correct screen_state.correct oem_hook_raw.correct setup_data_call.correct
  deactivate_data_call.correct last_data_call_fail_cause.correct data_call_list.correct

lemma request_table_correct:
  "list_all (\<lambda>(request, handler). \<forall>token s data sz. handler_pre token s \<longrightarrow> request_accepts request data sz \<longrightarrow>
     wp (handler data sz token s) (handler_post token s)) ril_request_handlers"
  unfolding ril_request_handlers_def list.pred_inject(2) prod.case
  by (intro conjI allI impI list.pred_inject(1))
    (rule request_contracts, assumption, simp add: request_accepts_def request_payloads_def request_number_defs)+

interpretation requests: handler_table ril_request_handlers request_accepts
proof
  fix request handler token s data sz
  assume "(request, handler) \<in> set ril_request_handlers" and "handler_pre token s" and "request_accepts request data sz"
  with request_table_correct show "wp (handler data sz token s) (handler_post token s)"
    by (auto simp: list_all_iff)
qed

lemma wp_run_callback:
  assumes "message_pre s" and "callback = Cb_sec \<longrightarrow> sec_callback_safe m s"
  shows "wp (run_callback callback m s) (safe_post s)"
  using assms call_cont_dtmf_callback.safe [OF assms(1), of m] sec_pin_status_callback.safe [OF assms(1), of m]
    sec_callback.safe [OF assms(1), of m] net_plmn_sel_callback.safe [OF assms(1), of m]
    gprs_define_pdp_context_callback.safe [OF assms(1), of m] gprs_pdp_context_callback.safe [OF assms(1), of m]
  by (cases callback) (simp_all add: run_callback_def)

interpretation gen_phone_res: safe_handler "ipc_gen_phone_res run_callback" callback_safe
proof
  fix s m
  assume "message_pre s" and "callback_safe m s"
  then show "wp (ipc_gen_phone_res run_callback m s) (safe_post s)"
    by (intro wp_gen_phone_res wp_run_callback) (auto simp: callback_safe_def)
qed

lemmas message_contracts = pwr_phone_pwr_up.safe pwr_phone_reset.safe pwr_phone_state.safe call_incoming.safe
  call_status.safe call_list.safe call_burst_dtmf.safe sms_send_msg.safe sms_incoming_msg.safe sms_save_msg.safe
  sms_del_msg.safe sms_deliver_report.safe sms_svc_center_addr.safe sec_pin_status.safe sec_phone_lock.safe
  sec_rsim_access.safe sec_sim_icc_type.safe sec_lock_infomation.safe disp_icon_info.safe disp_rssi_info.safe
  net_plmn_sel.safe net_serving_network.safe net_plmn_list.safe net_regist.safe net_mode_sel.safe misc_me_version.safe
  misc_me_imsi.safe misc_me_sn.safe misc_time_info.safe svc_display_screen.safe gprs_ps.safe gprs_pdp_context.safe
  gprs_ip_configuration.safe gprs_hsdpa_status.safe gprs_call_status.safe gen_phone_res.safe

lemmas command_defs = IPC_PWR_PHONE_PWR_UP_def IPC_PWR_PHONE_RESET_def IPC_PWR_PHONE_STATE_def IPC_CALL_INCOMING_def
  IPC_CALL_STATUS_def IPC_CALL_LIST_def IPC_CALL_BURST_DTMF_def IPC_SMS_SEND_MSG_def IPC_SMS_INCOMING_MSG_def
  IPC_SMS_SAVE_MSG_def IPC_SMS_DEL_MSG_def IPC_SMS_DELIVER_REPORT_def IPC_SMS_SVC_CENTER_ADDR_def IPC_SEC_PIN_STATUS_def
  IPC_SEC_PHONE_LOCK_def IPC_SEC_RSIM_ACCESS_def IPC_SEC_SIM_ICC_TYPE_def IPC_SEC_LOCK_INFOMATION_def
  IPC_DISP_ICON_INFO_def IPC_DISP_RSSI_INFO_def IPC_NET_PLMN_SEL_def IPC_NET_SERVING_NETWORK_def IPC_NET_PLMN_LIST_def
  IPC_NET_REGIST_def IPC_NET_MODE_SEL_def IPC_MISC_ME_VERSION_def IPC_MISC_ME_IMSI_def IPC_MISC_ME_SN_def
  IPC_MISC_TIME_INFO_def IPC_SVC_DISPLAY_SCREEN_def IPC_GPRS_PS_def IPC_GPRS_PDP_CONTEXT_def
  IPC_GPRS_IP_CONFIGURATION_def IPC_GPRS_HSDPA_STATUS_def IPC_GPRS_CALL_STATUS_def IPC_GEN_PHONE_RES_def

lemma message_table_safe:
  "list_all (\<lambda>(command, handler). \<forall>m s. msg_command m = command \<longrightarrow> message_pre s \<longrightarrow> message_safe m s \<longrightarrow>
     wp (handler m s) (safe_post s)) ipc_fmt_dispatch_handlers"
  unfolding ipc_fmt_dispatch_handlers_def list.pred_inject(2) prod.case
  by (intro conjI allI impI list.pred_inject(1))
    (rule message_contracts, assumption, simp add: message_safe_def message_guards_def command_defs)+

interpretation fmt_dispatch: safe_handler ipc_fmt_dispatch message_safe
proof
  fix s m
  assume a: "message_pre s" "message_safe m s"
  show "wp (ipc_fmt_dispatch m s) (safe_post s)"
  proof (cases "map_of ipc_fmt_dispatch_handlers (msg_command m)")
    case None
    then show ?thesis
      using a safe_post_quiet [OF a(1) quiet_refl] by (simp add: ipc_fmt_dispatch_def message_pre_def)
  next
    case (Some handler)
    then have "(msg_command m, handler) \<in> set ipc_fmt_dispatch_handlers"
      by (rule map_of_SomeD)
    with message_table_safe a have "wp (handler m s) (safe_post s)"
      by (auto simp: list_all_iff)
    with Some a show ?thesis
      by (auto simp: ipc_fmt_dispatch_def message_pre_def safe_post_def elim!: wp_mono)
  qed
qed

subsection \<open>Properties\<close>


text \<open>C4. No message of the modem breaks the state: whatever a message says, within the guards of \<open>message_safe\<close>, \<open>ipc_fmt_dispatch\<close>
  returns, keeps the invariant, removes from the queue exactly the requests that it completes, and completes each of them once.\<close>

theorem modem_message_safe:
  assumes "message_pre s" and "message_safe m s"
  shows "\<exists>rc s' ts. ipc_fmt_dispatch m s = Some (rc, s') \<and> (rc = 0 \<or> rc = -1) \<and> message_pre s' \<and> distinct ts \<and>
    set ts \<subseteq> tokens s \<and> requests s' = filter (\<lambda>n. rq_token (snd n) \<notin> set ts) (requests s) \<and>
    completions (trace s') = completions (trace s) @ ts"
  using fmt_dispatch.safe [OF assms] by (auto simp: wp_def safe_post_def)

lemma small_int_bytes:
  assumes "32 \<le> i" and "i \<le> 126"
  shows "bytes32 (word_of_int i) = [word_of_int i, 0, 0, 0] \<and> isprint (word_of_int i)"
proof -
  have "\<forall>i \<in> set [32..126]. bytes32 (word_of_int i) = [word_of_int i, 0, 0, 0] \<and> isprint (word_of_int i)"
    by code_simp
  moreover have "i \<in> set [32..126]"
    using assms by (simp del: upto_rec_numeral)
  ultimately show ?thesis
    by (rule bspec)
qed

text \<open>A round in which one pending request is completed at once.\<close>

lemma round_completes_one:
  assumes "ril_inv s" and "ril_data_alive s" and "env_complete s" and "ril_radio_state_check RADIO_STATE_OFF s = 0"
    and "requests s = rs @ [(p, r)]" and "\<forall>n \<in> set rs. rq_status (snd n) = RIL_REQUEST_HANDLED"
    and "rq_status r = RIL_REQUEST_PENDING" and "rq_token r \<noteq> 0" and "map_of handlers (rq_request r) = Some h"
    and "h (rq_data r) (rq_size r) (rq_token r) (s\<lparr>loop_locked := True\<rparr>) = request_failed (rq_token r) error (s\<lparr>loop_locked := True\<rparr>)"
  shows "\<exists>s'. ril_request_loop handlers s = Some (0, s') \<and> requests s' = rs \<and>
    trace s' = trace s @ [Complete (rq_token r) error RNull 0]"
proof -
  let ?s = "s\<lparr>loop_locked := True\<rparr>"
  have "retried (requests s) = requests s"
    using assms(5-7) by (auto simp: retried_def intro!: map_idI)
  then have retry: "retry_unhandled ?s = ?s"
    using assms(1,2) retry_unhandled_eq [of ?s] by simp
  have "p \<notin> fst ` set rs" "\<forall>n \<in> set rs. rq_token (snd n) \<noteq> rq_token r"
    using assms(1,5) by (simp_all add: ril_inv_def nodes_ok_def image_iff) metis
  then have get: "node_get (requests s) p = Some r"
    and rest: "filter (\<lambda>n. rq_token (snd n) \<noteq> rq_token r) (requests s) = rs"
    using assms(5) by (simp_all add: map_add_def map_of_eq_None_iff [THEN iffD2])
  have none: "node_find (\<lambda>r. rq_status r = RIL_REQUEST_PENDING) rs = None"
    using assms(6) by (auto simp: node_find_None)
  then have find: "ril_request_find_status RIL_REQUEST_PENDING ?s = Some p"
    using assms(2,5,7) by (simp add: ril_request_find_status_def node_find_append)
  let ?t = "(emit (Complete (rq_token r) error RNull 0) (remove_token (rq_token r) ?s))\<lparr>loop_locked := False\<rparr>"
  have "ril_request_dispatch handlers p ?s = Some (0, ?t)"
    using assms(2,8-10) get ril_request_complete_eq [of ?s "rq_token r" error RNull 0] assms(1,3)
    by (simp add: ril_request_dispatch_def request_failed_def status_defs)
  moreover have "ril_request_find_status RIL_REQUEST_PENDING ?t = None"
    using none rest by (simp add: ril_request_find_status_def)
  ultimately have "dispatch_pending handlers ?s = Some (0, ?t)"
    using find by (subst dispatch_pending.simps, simp, subst dispatch_pending.simps, simp)
  moreover have "ril_radio_state_check RADIO_STATE_OFF ?s = 0"
    using assms(4) radio_state_check_frame [of ?s s] by simp
  ultimately show ?thesis
    using retry rest by (simp add: ril_request_loop_def)
qed

text \<open>A message cannot be deleted at the indices 32 to 126: the interface takes an integer of four bytes whose first byte is
  printable and whose second is zero for a string of one character, queues two bytes of it, and the handler, which finds fewer bytes than an integer
  has, completes the request with generic failure without asking the modem.\<close>

theorem small_index_taken_as_string:
  assumes "ril_inv s" and "ril_data_alive s" and "env_complete s" and "ril_radio_state_check RADIO_STATE_OFF s = 0"
    and "\<forall>n \<in> set (requests s). rq_status (snd n) = RIL_REQUEST_HANDLED \<and> rq_token (snd n) \<noteq> token" and "token \<noteq> 0"
    and "32 \<le> i" and "i \<le> 126"
  shows "\<exists>s1 s2. ril_on_request RIL_REQUEST_DELETE_SMS_ON_SIM (Some (PBytes (bytes32 (word_of_int i)))) 4 token s = Some (0, s1) \<and>
    ril_request_loop ril_request_handlers s1 = Some (0, s2) \<and> requests s2 = requests s \<and>
    trace s2 = trace s @ [Complete token RIL_E_GENERIC_FAILURE RNull 0]"
proof -
  let ?d = "PBytes (bytes32 (word_of_int i))"
  note bytes = small_int_bytes [OF assms(7,8)]
  have np: "\<not> isprint 0"
    by (simp add: isprint_def)
  have copy: "request_copy RIL_REQUEST_DELETE_SMS_ON_SIM (Some ?d) 4 = Some (Some ?d, 2)"
    using bytes np by (simp add: request_copy_def detect_string_def Let_def string_requests_def request_number_defs)
  have whole: "copy_whole (Some ?d) 2"
    by (simp add: copy_whole_def payload_size_def)
  obtain s1 p where s1: "ril_on_request RIL_REQUEST_DELETE_SMS_ON_SIM (Some ?d) 4 token s = Some (0, s1)" "ril_inv s1"
      "ril_data_alive s1" "env_complete s1 = env_complete s" "radio_state s1 = radio_state s" "trace s1 = trace s"
      "requests s1 = filter (\<lambda>n. rq_token (snd n) \<noteq> token) (requests s) @ [(p, \<lparr>rq_request = RIL_REQUEST_DELETE_SMS_ON_SIM,
        rq_data = queued_payload (Some ?d) 2, rq_size = 2, rq_token = token, rq_status = RIL_REQUEST_PENDING\<rparr>)]"
    using on_request_queued [OF assms(1,2) copy whole, of token] by blast
  have same: "filter (\<lambda>n. rq_token (snd n) \<noteq> token) (requests s) = requests s"
    using assms(5) by simp
  have check: "ril_radio_state_check RADIO_STATE_OFF s1 = 0"
    using assms(2,4) s1 radio_state_check_frame [of s1 s] by simp
  have table: "map_of ril_request_handlers RIL_REQUEST_DELETE_SMS_ON_SIM = Some ril_request_delete_sms_on_sim"
    by (simp add: ril_request_handlers_def request_number_defs)
  have fails: "ril_request_delete_sms_on_sim (queued_payload (Some ?d) 2) 2 token t = request_failed token RIL_E_GENERIC_FAILURE t" for t
    by (simp add: ril_request_delete_sms_on_sim_def split: option.split)
  show ?thesis
    using round_completes_one [OF s1(2,3) _ check s1(7) [unfolded same], of ril_request_handlers
        ril_request_delete_sms_on_sim RIL_E_GENERIC_FAILURE] assms(3,5,6) s1 table fails by auto
qed

definition loop_world :: ril_world where
  "loop_world = (initial_world [])\<lparr>ril_data_alive := True, env_complete := True, fmt_data := True, fmt_ipc_client := True,
     fmt_available := True, radio_state := RADIO_STATE_OFF, next_addr := 5,
     requests := [(1, \<lparr>rq_request = RIL_REQUEST_RADIO_POWER, rq_data = Some (PBytes [1, 0, 0, 0]), rq_size = 4, rq_token = 7, rq_status = 0\<rparr>),
       (3, \<lparr>rq_request = RIL_REQUEST_DIAL, rq_data = Some (PDial (Some ''123'') 0), rq_size = 12, rq_token = 8, rq_status = 2\<rparr>)],
     fmt_requests := [(2, \<lparr>fr_request = RIL_REQUEST_RADIO_POWER, fr_token = 7, fr_seq = 0xff\<rparr>),
       (4, \<lparr>fr_request = RIL_REQUEST_DIAL, fr_token = 8, fr_seq = 0xff\<rparr>)]\<rparr>"

lemma loop_world_inv: "ril_inv loop_world"
  by (simp add: loop_world_def initial_world_def ril_inv_def nodes_ok_def fmt_mirror_def)


theorem modem_message_safe_witness:
  "\<exists>rc s' ts. ipc_fmt_dispatch \<lparr>msg_mseq = 0, msg_aseq = 5, msg_command = IPC_PWR_PHONE_STATE, msg_type = 2, msg_data = [2]\<rparr>
     loop_world = Some (rc, s') \<and> message_pre s' \<and> completions (trace s') = ts \<and> set ts \<subseteq> tokens loop_world"
  using modem_message_safe [of loop_world
    "\<lparr>msg_mseq = 0, msg_aseq = 5, msg_command = IPC_PWR_PHONE_STATE, msg_type = 2, msg_data = [2]\<rparr>"] loop_world_inv
  by (auto simp: message_pre_def message_safe_def message_guards_def command_defs no_connections_def loop_world_def
    initial_world_def)

theorem small_index_taken_as_string_witness:
  "\<exists>s1 s2. ril_on_request RIL_REQUEST_DELETE_SMS_ON_SIM (Some (PBytes (bytes32 (word_of_int 40)))) 4 9
      (loop_world\<lparr>requests := [], fmt_requests := []\<rparr>) = Some (0, s1) \<and>
    ril_request_loop ril_request_handlers s1 = Some (0, s2) \<and> requests s2 = [] \<and>
    trace s2 = [Complete 9 RIL_E_GENERIC_FAILURE RNull 0]"
  using small_index_taken_as_string [of "loop_world\<lparr>requests := [], fmt_requests := []\<rparr>" 9 40]
  by (simp add: loop_world_def initial_world_def ril_inv_def fmt_mirror_def ril_radio_state_check_def radio_states_def
    radio_state_defs)

end
