(* ===== verification/Ril_System.thy ===== *)
theory Ril_System
  imports Ril_Dispatch
begin

section \<open>samsung-ril: the running system\<close>

text \<open>
  The RIL as its environment and the modem drive it: a step submits a request, cancels one, runs a round of the request loop or dispatches
  a message of the modem. The mutexes of the program (\<open>RIL_LOCK\<close>, \<open>RIL_REQUEST_LOCK\<close>, the lock of a client) make each of these
  operations exclusive, so the threads interleave at this grain. Next to the world the system remembers which tokens have been submitted and
  which of them were cancelled while queued.
\<close>

record ril_system =
  submitted :: "ril_token set"
  cancelled :: "ril_token set"
  world :: ril_world

text \<open>The environment uses a token once, never \<open>NULL\<close>, and sends with a request the kind of object that belongs to it; the modem
  keeps to the guards of \<open>message_safe\<close>.\<close>

inductive ril_step :: "ril_system \<Rightarrow> ril_system \<Rightarrow> bool" where
  request: "token \<noteq> 0 \<Longrightarrow> token \<notin> submitted c \<Longrightarrow> request_copy request data sz = Some (d, n) \<Longrightarrow> copy_whole d n \<Longrightarrow>
    request_accepts request (queued_payload d n) n \<Longrightarrow> ril_on_request request data sz token (world c) = Some (rc, s') \<Longrightarrow>
    ril_step c (c\<lparr>submitted := insert token (submitted c), world := s'\<rparr>)"
| cancel: "ril_on_cancel token (world c) = Some (rc, s') \<Longrightarrow>
    ril_step c (c\<lparr>cancelled := cancelled c \<union> (tokens (world c) \<inter> {token}), world := s'\<rparr>)"
| round: "ril_request_loop ril_request_handlers (world c) = Some (rc, s') \<Longrightarrow> ril_step c (c\<lparr>world := s'\<rparr>)"
| message: "message_safe m (world c) \<Longrightarrow> ipc_fmt_dispatch m (world c) = Some (rc, s') \<Longrightarrow> ril_step c (c\<lparr>world := s'\<rparr>)"

definition ril_start :: "ril_world \<Rightarrow> ril_system" where
  "ril_start s = \<lparr>submitted = {}, cancelled = {}, world = s\<rparr>"

text \<open>Every token that was ever submitted is in one place.\<close>

definition accounted :: "ril_system \<Rightarrow> bool" where
  "accounted c \<longleftrightarrow>
     (let done = completions (trace (world c)) in
      distinct done \<and> submitted c = tokens (world c) \<union> set done \<union> cancelled c \<and>
      tokens (world c) \<inter> set done = {} \<and> tokens (world c) \<inter> cancelled c = {} \<and> set done \<inter> cancelled c = {})"

definition system_inv :: "ril_system \<Rightarrow> bool" where
  "system_inv c \<longleftrightarrow> loop_pre request_accepts (world c) \<and> accounted c"

subsection \<open>What the steps do to the tokens\<close>

lemma settled_tokens:
  assumes "settled s s' ts"
  shows "tokens s' = tokens s - set ts" and "set ts \<subseteq> tokens s"
proof -
  have "map (\<lambda>n. rq_token (snd n)) (requests s') =
      map (\<lambda>n. rq_token (snd n)) (filter (\<lambda>n. rq_token (snd n) \<notin> set ts) (requests s))"
    using assms by (auto simp: settled_def list_all2_conv_all_nth same_request_def intro!: nth_equalityI)
  then have "set (map (\<lambda>n. rq_token (snd n)) (requests s')) =
      set (map (\<lambda>n. rq_token (snd n)) (filter (\<lambda>n. rq_token (snd n) \<notin> set ts) (requests s)))"
    by simp
  then show "tokens s' = tokens s - set ts"
    by (auto simp: tokens_def)
  show "set ts \<subseteq> tokens s"
    using assms by (force simp: settled_def tokens_def)
qed

lemma tokens_retried: "tokens (s\<lparr>requests := retried (requests s)\<rparr>) = tokens s"
proof -
  have "set (map (\<lambda>n. rq_token (snd n)) (retried (requests s))) = set (map (\<lambda>n. rq_token (snd n)) (requests s))"
    by (simp only: retried_maps)
  then show ?thesis
    by (simp add: tokens_def)
qed

lemma loop_pre_message: "loop_pre accepts s \<Longrightarrow> message_pre s"
  by (simp add: loop_pre_def message_pre_def)

text \<open>Requests that are completed move from the queue to the completions.\<close>

lemma accounted_complete:
  assumes "accounted c" and "distinct ts" and "set ts \<subseteq> tokens (world c)" and "tokens s' = tokens (world c) - set ts"
    and "completions (trace s') = completions (trace (world c)) @ ts"
  shows "accounted (c\<lparr>world := s'\<rparr>)"
  using assms unfolding accounted_def Let_def by auto

lemma round_keeps:
  assumes "system_inv c"
  shows "\<exists>s'. ril_request_loop ril_request_handlers (world c) = Some (0, s') \<and> system_inv (c\<lparr>world := s'\<rparr>)"
proof (cases "ril_radio_state_check RADIO_STATE_OFF (world c) = 0")
  case True
  let ?s = "(world c)\<lparr>requests := retried (requests (world c))\<rparr>"
  obtain s' ts where s': "ril_request_loop ril_request_handlers (world c) = Some (0, s')" "settled ?s s' ts"
      "loop_pre request_accepts s'"
    using requests.loop_round [OF _ True] assms by (auto simp: system_inv_def)
  have "accounted (c\<lparr>world := s'\<rparr>)"
    using assms s'(2) settled_tokens [OF s'(2)] tokens_retried [of "world c"]
    by (intro accounted_complete [of c ts]) (simp_all add: system_inv_def settled_def)
  with s' show ?thesis
    by (simp add: system_inv_def)
next
  case False
  let ?s = "(world c)\<lparr>loop_locked := True\<rparr>"
  have "ril_radio_state_check RADIO_STATE_OFF ?s < 0"
    using False radio_state_check_frame [of ?s "world c" RADIO_STATE_OFF] by (auto simp: ril_radio_state_check_def split: if_splits)
  then show ?thesis
    using assms by (simp add: ril_request_loop_def system_inv_def loop_pre_def accounted_def tokens_def Let_def)
qed

lemma message_keeps:
  assumes "system_inv c" and "message_safe m (world c)"
  shows "\<exists>rc s'. ipc_fmt_dispatch m (world c) = Some (rc, s') \<and> system_inv (c\<lparr>world := s'\<rparr>)"
proof -
  have pre: "message_pre (world c)"
    using assms(1) by (auto simp: system_inv_def intro: loop_pre_message)
  obtain rc s' where s': "ipc_fmt_dispatch m (world c) = Some (rc, s')" "safe_post (world c) rc s'"
    using fmt_dispatch.safe [OF pre assms(2)] by (auto simp: wp_def)
  then obtain ts where ts: "distinct ts" "set ts \<subseteq> tokens (world c)"
      "requests s' = filter (\<lambda>n. rq_token (snd n) \<notin> set ts) (requests (world c))"
      "completions (trace s') = completions (trace (world c)) @ ts" "message_pre s'"
    by (auto simp: safe_post_def)
  have "tokens s' = tokens (world c) - set ts"
    using ts(3) by (auto simp: tokens_def)
  then have "accounted (c\<lparr>world := s'\<rparr>)"
    using assms(1) ts by (intro accounted_complete [of c ts]) (simp_all add: system_inv_def)
  moreover have "loop_pre request_accepts s'"
    using assms(1) ts(3,5) by (simp add: system_inv_def loop_pre_def message_pre_def)
  ultimately show ?thesis
    using s'(1) by (auto simp: system_inv_def)
qed

lemma cancel_keeps:
  assumes "system_inv c"
  shows "\<exists>s'. ril_on_cancel token (world c) = Some (0, s') \<and>
    system_inv (c\<lparr>cancelled := cancelled c \<union> (tokens (world c) \<inter> {token}), world := s'\<rparr>)"
proof -
  have pre: "ril_inv (world c)" "ril_data_alive (world c)"
    using assms by (simp_all add: system_inv_def loop_pre_def)
  have "loop_pre request_accepts (remove_token token (world c))"
    using assms pre ril_inv_remove_token by (auto simp: system_inv_def loop_pre_def)
  moreover have "accounted (c\<lparr>cancelled := cancelled c \<union> (tokens (world c) \<inter> {token}), world := remove_token token (world c)\<rparr>)"
    using assms unfolding system_inv_def accounted_def Let_def by auto
  ultimately show ?thesis
    using on_cancel_eq [OF pre] by (simp add: system_inv_def)
qed

lemma request_keeps:
  assumes "system_inv c" and "token \<noteq> 0" and "token \<notin> submitted c" and "request_copy request data sz = Some (d, n)"
    and "copy_whole d n" and "request_accepts request (queued_payload d n) n"
  shows "\<exists>s'. ril_on_request request data sz token (world c) = Some (0, s') \<and>
    system_inv (c\<lparr>submitted := insert token (submitted c), world := s'\<rparr>)"
proof -
  have pre: "ril_inv (world c)" "ril_data_alive (world c)"
    using assms(1) by (simp_all add: system_inv_def loop_pre_def)
  have fresh: "token \<notin> tokens (world c)" "token \<notin> set (completions (trace (world c)))" "token \<notin> cancelled c"
    using assms(1,3) by (auto simp: system_inv_def accounted_def Let_def)
  then have same: "filter (\<lambda>n. rq_token (snd n) \<noteq> token) (requests (world c)) = requests (world c)"
    by (auto simp: tokens_def intro!: filter_True)
  obtain s' p where s': "ril_on_request request data sz token (world c) = Some (0, s')" "ril_inv s'" "ril_data_alive s'"
      "env_complete s' = env_complete (world c)" "trace s' = trace (world c)"
      "requests s' = requests (world c) @ [(p, \<lparr>rq_request = request,
        rq_data = queued_payload d n, rq_size = n, rq_token = token, rq_status = RIL_REQUEST_PENDING\<rparr>)]"
    using on_request_queued [OF pre assms(4,5), of token] unfolding same by blast
  have "tokens s' = insert token (tokens (world c))"
    by (simp add: tokens_def s'(6))
  then have "accounted (c\<lparr>submitted := insert token (submitted c), world := s'\<rparr>)"
    using assms(1) fresh s'(5) unfolding system_inv_def accounted_def Let_def by auto
  moreover have "loop_pre request_accepts s'"
    using assms(1,2,6) s' by (auto simp: system_inv_def loop_pre_def)
  ultimately show ?thesis
    using s'(1) by (simp add: system_inv_def)
qed

lemma step_keeps:
  assumes "ril_step c c'" and "system_inv c"
  shows "system_inv c'"
  using assms
proof (induction rule: ril_step.induct)
  case (request token c request data sz d n rc s')
  with request_keeps [OF request.prems request.hyps(1-5)] show ?case
    by auto
next
  case (cancel token c rc s')
  with cancel_keeps [OF cancel.prems, of token] show ?case
    by auto
next
  case (round c rc s')
  with round_keeps [OF round.prems] show ?case
    by auto
next
  case (message m c rc s')
  with message_keeps [OF message.prems message.hyps(1)] show ?case
    by auto
qed

lemma reachable_inv:
  assumes "ril_step\<^sup>*\<^sup>* (ril_start s) c" and "message_pre s" and "requests s = []" and "completions (trace s) = []"
  shows "system_inv c"
  using assms(1)
proof (induction rule: rtranclp_induct)
  case base
  then show ?case
    using assms(2-4) by (simp add: ril_start_def system_inv_def loop_pre_def message_pre_def accounted_def tokens_def)
qed (rule step_keeps)

subsection \<open>Properties\<close>

text \<open>C1. Requests are never lost and never answered twice: in every state the running system can reach, with any interleaving of
  submitted and cancelled requests, rounds of the loop and messages of the modem, each submitted token is in exactly one place, in
  the queue, among the cancelled ones, or among the completions reported to the environment, where it occurs once.\<close>

theorem requests_accounted:
  assumes "ril_step\<^sup>*\<^sup>* (ril_start s) c" and "message_pre s" and "requests s = []" and "completions (trace s) = []"
  shows "distinct (completions (trace (world c))) \<and>
    submitted c = tokens (world c) \<union> set (completions (trace (world c))) \<union> cancelled c \<and>
    tokens (world c) \<inter> set (completions (trace (world c))) = {} \<and> tokens (world c) \<inter> cancelled c = {} \<and>
    set (completions (trace (world c))) \<inter> cancelled c = {}"
  using reachable_inv [OF assms] by (simp add: system_inv_def accounted_def Let_def)


definition start_world :: ril_world where
  "start_world = (initial_world [])\<lparr>ril_data_alive := True, env_complete := True, env_unsolicited := True, fmt_data := True,
     fmt_ipc_client := True, fmt_available := True, radio_state := RADIO_STATE_OFF\<rparr>"

lemma start_world_ok: "message_pre start_world" "requests start_world = []" "completions (trace start_world) = []"
  by (simp_all add: start_world_def initial_world_def message_pre_def ril_inv_def fmt_mirror_def)

lemma start_request:
  "\<exists>s'. ril_step\<^sup>*\<^sup>* (ril_start start_world) ((ril_start start_world)\<lparr>submitted := {7}, world := s'\<rparr>)"
proof -
  have inv: "system_inv (ril_start start_world)"
    by (rule reachable_inv [OF _ start_world_ok]) simp
  have copy: "request_copy RIL_REQUEST_RADIO_POWER (Some (PBytes [1, 0, 0, 0])) 4 = Some (Some (PBytes [1, 0, 0, 0]), 4)"
    by (simp add: request_copy_def detect_string_def isprint_def string_requests_def request_number_defs)
  have whole: "copy_whole (Some (PBytes [1, 0, 0, 0])) 4" and
    acc: "request_accepts RIL_REQUEST_RADIO_POWER (queued_payload (Some (PBytes [1, 0, 0, 0])) 4) 4"
    by (simp_all add: copy_whole_def payload_size_def request_accepts_def request_payloads_def queued_payload_def
      payload_copy_def bytes_payload_def)
  have new: "(7 :: ril_token) \<noteq> 0" "7 \<notin> submitted (ril_start start_world)"
    by (simp_all add: ril_start_def)
  obtain s' where "ril_on_request RIL_REQUEST_RADIO_POWER (Some (PBytes [1, 0, 0, 0])) 4 7 (world (ril_start start_world)) =
      Some (0, s')"
    using request_keeps [OF inv new copy whole acc] by blast
  from ril_step.request [OF new copy whole acc this] show ?thesis
    by (auto simp: ril_start_def)
qed

theorem requests_accounted_witness:
  "\<exists>c. ril_step\<^sup>*\<^sup>* (ril_start start_world) c \<and>
    {7} = tokens (world c) \<union> set (completions (trace (world c))) \<and> distinct (completions (trace (world c)))"
proof -
  obtain s' where reach: "ril_step\<^sup>*\<^sup>* (ril_start start_world) ((ril_start start_world)\<lparr>submitted := {7}, world := s'\<rparr>)"
    using start_request by blast
  from requests_accounted [OF reach start_world_ok] reach show ?thesis
    by (intro exI [of _ "(ril_start start_world)\<lparr>submitted := {7}, world := s'\<rparr>"]) (simp add: ril_start_def)
qed


end
