(* ===== verification/Client_Loop.thy ===== *)
theory Client_Loop
  imports Prelude
begin

section \<open>Loops that wait for input\<close>

text \<open>
  The clients of the RIL run loops that check something, wait for input, and then handle it, until they return a value. A loop is modelled over the list
  of the inputs it is given: it returns a value and the inputs it has not taken, or it is left waiting when there are none. It consists of the
  check at its top and the round that handles one input; each of them is one pass through the corresponding lines of the code.
  What the loops keep is stated once, as a locale over the two parts.
\<close>

datatype loop_result = Loop_return int | Loop_continue

fun loop_rounds ::
  "('s \<Rightarrow> (loop_result \<times> 's) option) \<Rightarrow> ('i \<Rightarrow> 's \<Rightarrow> (loop_result \<times> 's) option) \<Rightarrow> 'i list \<Rightarrow> 's \<Rightarrow>
   ((int option \<times> 'i list) \<times> 's) option" where
  "loop_rounds check round inputs s = Option.bind (check s) (\<lambda>(r, s). case r of
     Loop_return rc \<Rightarrow> Some ((Some rc, inputs), s)
   | Loop_continue \<Rightarrow> (case inputs of
       [] \<Rightarrow> Some ((None, []), s)
     | input # inputs \<Rightarrow> Option.bind (round input s) (\<lambda>(r, s). case r of
         Loop_return rc \<Rightarrow> Some ((Some rc, inputs), s)
       | Loop_continue \<Rightarrow> loop_rounds check round inputs s)))"

declare loop_rounds.simps [simp del]

definition loop_post :: "(int \<Rightarrow> 's \<Rightarrow> bool) \<Rightarrow> ('s \<Rightarrow> bool) \<Rightarrow> loop_result \<Rightarrow> 's \<Rightarrow> bool" where
  "loop_post Q I r s = (case r of Loop_return rc \<Rightarrow> Q rc s | Loop_continue \<Rightarrow> I s)"

lemma loop_post_simps [simp]: "loop_post Q I (Loop_return rc) s = Q rc s" "loop_post Q I Loop_continue s = I s"
  by (simp_all add: loop_post_def)

text \<open>A loop whose parts keep \<open>inv\<close> while it runs on admitted inputs, and establish \<open>post\<close> when it returns.\<close>

locale input_loop =
  fixes check :: "'s \<Rightarrow> (loop_result \<times> 's) option"
    and round :: "'i \<Rightarrow> 's \<Rightarrow> (loop_result \<times> 's) option"
    and inv :: "'s \<Rightarrow> bool"
    and admitted :: "'i \<Rightarrow> 's \<Rightarrow> bool"
    and post :: "int \<Rightarrow> 's \<Rightarrow> bool"
  assumes check_keeps: "inv s \<Longrightarrow> wp (check s) (loop_post post inv)"
    and round_keeps: "inv s \<Longrightarrow> admitted input s \<Longrightarrow> wp (round input s) (loop_post post inv)"
begin

lemma rounds_keep:
  assumes "inv s" and "\<And>input t. input \<in> set inputs \<Longrightarrow> inv t \<Longrightarrow> admitted input t"
  shows "wp (loop_rounds check round inputs s) (\<lambda>r s'. case fst r of None \<Rightarrow> inv s' | Some rc \<Rightarrow> post rc s')"
  using assms
proof (induction inputs arbitrary: s)
  case Nil
  from check_keeps [OF Nil(1)] obtain r t where "check s = Some (r, t)" "loop_post post inv r t"
    by (rule wpE)
  then show ?case
    by (cases r) (simp_all add: loop_rounds.simps [of check])
next
  case (Cons input inputs)
  from check_keeps [OF Cons.prems(1)] obtain r t where check: "check s = Some (r, t)" "loop_post post inv r t"
    by (rule wpE)
  show ?case
  proof (cases r)
    case (Loop_return rc)
    then show ?thesis
      using check by (simp add: loop_rounds.simps [of check])
  next
    case Loop_continue
    then have "inv t"
      using check(2) by simp
    then have "wp (round input t) (loop_post post inv)"
      using Cons.prems(2) by (intro round_keeps) simp_all
    then obtain r' u where "round input t = Some (r', u)" "loop_post post inv r' u"
      by (rule wpE)
    then show ?thesis
      using check(1) Loop_continue Cons.IH [of u] Cons.prems(2) by (cases r') (simp_all add: loop_rounds.simps [of check])
  qed
qed

end

text \<open>What a loop can return without looking at its state, for partial correctness.\<close>

lemma loop_rounds_returns:
  assumes "loop_rounds check round inputs s = Some ((Some rc, rest), s')"
    and "\<And>s rc s'. check s = Some (Loop_return rc, s') \<Longrightarrow> P rc"
    and "\<And>input s rc s'. round input s = Some (Loop_return rc, s') \<Longrightarrow> P rc"
  shows "P rc \<and> length rest \<le> length inputs"
  using assms(1)
proof (induction inputs arbitrary: s)
  case Nil
  note step = trans [OF loop_rounds.simps [symmetric] Nil]
  then obtain r t where "check s = Some (r, t)"
    by (auto simp: bind_eq_Some_conv)
  then show ?case
    using step assms(2) by (cases r) auto
next
  case (Cons input inputs)
  note step = trans [OF loop_rounds.simps [symmetric] Cons.prems]
  from step obtain r t where check: "check s = Some (r, t)"
    by (auto simp: bind_eq_Some_conv)
  show ?case
  proof (cases r)
    case (Loop_return rc')
    then show ?thesis
      using step check assms(2) by auto
  next
    case Loop_continue
    then obtain r' u where round: "round input t = Some (r', u)"
      using step check by (auto simp: bind_eq_Some_conv)
    show ?thesis
      using step check round Loop_continue assms(3) [of input t] Cons.IH [of u] by (cases r') auto
  qed
qed

lemma loop_rounds_only_fail:
  assumes "loop_rounds check round inputs s = Some ((Some rc, rest), s')"
    and "\<And>s rc s'. check s = Some (Loop_return rc, s') \<Longrightarrow> rc = -1"
    and "\<And>input s rc s'. round input s = Some (Loop_return rc, s') \<Longrightarrow> rc = -1"
  shows "rc = -1"
  using loop_rounds_returns [where P = "\<lambda>rc. rc = -1", OF assms] by simp

text \<open>The inputs that are left are a suffix of those that were given.\<close>

lemma loop_rounds_suffix:
  assumes "loop_rounds check round inputs s = Some ((r, rest), s')"
  shows "\<exists>n. rest = drop n inputs"
  using assms
proof (induction inputs arbitrary: s)
  case Nil
  note step = trans [OF loop_rounds.simps [symmetric] Nil]
  then obtain q t where "check s = Some (q, t)"
    by (auto simp: bind_eq_Some_conv)
  then show ?case
    using step by (cases q) auto
next
  case (Cons input inputs)
  note step = trans [OF loop_rounds.simps [symmetric] Cons.prems]
  then obtain q t where check: "check s = Some (q, t)"
    by (auto simp: bind_eq_Some_conv)
  show ?case
  proof (cases q)
    case (Loop_return rc)
    then have "rest = drop 0 (input # inputs)"
      using step check by simp
    then show ?thesis ..
  next
    case Loop_continue
    then obtain q' u where round: "round input t = Some (q', u)"
      using step check by (auto simp: bind_eq_Some_conv)
    have "\<exists>n. rest = drop n inputs"
    proof (cases q')
      case (Loop_return rc)
      then have "rest = drop 0 inputs"
        using step check round \<open>q = Loop_continue\<close> by simp
      then show ?thesis ..
    next
      case Loop_continue
      then show ?thesis
        using step check round \<open>q = Loop_continue\<close> by (intro Cons.IH [of u]) simp
    qed
    then obtain n where "rest = drop (Suc n) (input # inputs)"
      by auto
    then show ?thesis ..
  qed
qed

text \<open>When no input was taken, only the check at the top has run.\<close>

lemma loop_rounds_untouched:
  assumes "loop_rounds check round inputs s = Some ((r, inputs), t)"
  shows "\<exists>q. check s = Some (q, t)"
proof -
  note step = trans [OF loop_rounds.simps [symmetric] assms]
  then obtain q u where check: "check s = Some (q, u)"
    by (auto simp: bind_eq_Some_conv)
  have "u = t"
  proof (cases q)
    case (Loop_return rc)
    then show ?thesis
      using step check by simp
  next
    case Loop_continue
    show ?thesis
    proof (cases inputs)
      case Nil
      then show ?thesis
        using step check Loop_continue by simp
    next
      case (Cons input rest)
      then obtain q' v where round: "round input u = Some (q', v)"
        using step check Loop_continue by (auto simp: bind_eq_Some_conv)
      have "\<exists>n. inputs = drop n rest"
        using step check Loop_continue Cons round loop_rounds_suffix [of check round rest v r inputs t]
        by (cases q') (auto simp: neq_Nil_conv)
      then have "length inputs \<le> length rest"
        by auto
      then show ?thesis
        using Cons by simp
    qed
  qed
  then show ?thesis
    using check by blast
qed

lemma drop_same_or_shorter: "drop n xs = xs \<or> length (drop n xs) < length xs"
  by (cases "n = 0 \<or> xs = []") auto

subsection \<open>Threads that start a loop again\<close>

text \<open>
  \<open>ril_client_thread\<close> of \<open>client.c\<close> and \<open>srs_server_thread\<close> of \<open>srs.c\<close> have the same form: they run a loop, and when it fails they count the failure, close and
  open what the loop works on and run it again, until it returns something else or has failed \<open>RIL_CLIENT_RETRY_COUNT\<close> times. The counter is part of the state,
  because the loops of the clients reset it. The result says whether the thread has left this loop or is still waiting for input.
\<close>

definition RIL_CLIENT_RETRY_COUNT :: int where "RIL_CLIENT_RETRY_COUNT = 5"

definition reopen :: "('s \<Rightarrow> (int \<times> 's) option) \<Rightarrow> ('s \<Rightarrow> (int \<times> 's) option) \<Rightarrow> 's \<Rightarrow> (int \<times> 's) option" where
  "reopen cl op s = Option.bind (cl s) (\<lambda>(rc, s). if rc < 0 then Some (-1, s)
     else Option.bind (op s) (\<lambda>(rc, s). if rc < 0 then Some (-1, s) else Some (0, s)))"

partial_function (option) retry_thread ::
  "('s \<Rightarrow> int) \<Rightarrow> ('s \<Rightarrow> 's) \<Rightarrow> ('s \<Rightarrow> (int \<times> 's) option) \<Rightarrow> ('s \<Rightarrow> (int \<times> 's) option) \<Rightarrow>
   ('i list \<Rightarrow> 's \<Rightarrow> ((int option \<times> 'i list) \<times> 's) option) \<Rightarrow> 'i list \<Rightarrow> 's \<Rightarrow> ((bool \<times> 'i list) \<times> 's) option" where
  "retry_thread failures count cl op loop inputs s =
     Option.bind (if failures s \<noteq> 0 then reopen cl op s else Some (0, s)) (\<lambda>(rc, s).
     Option.bind (if rc < 0 then Some ((Some rc, inputs), s) else loop inputs s) (\<lambda>((r, inputs), s).
       if r = None then Some ((False, inputs), s)
       else if the r \<ge> 0 then Some ((True, inputs), s)
       else if failures (count s) < RIL_CLIENT_RETRY_COUNT then retry_thread failures count cl op loop inputs (count s)
       else Some ((True, inputs), count s)))"

text \<open>
  A thread ends or waits if its loop does, if closing and opening leave the counter alone, and if the loop only resets the counter after it has taken an input: then
  each round of the thread takes an input or comes one failure closer to the limit. Unless the loop can end in success (\<open>stops\<close>), a thread that ends has seen the limit.
\<close>

locale retrying =
  fixes failures :: "'s \<Rightarrow> int" and count :: "'s \<Rightarrow> 's"
    and cl op :: "'s \<Rightarrow> (int \<times> 's) option"
    and loop :: "'i list \<Rightarrow> 's \<Rightarrow> ((int option \<times> 'i list) \<times> 's) option"
    and inv :: "'s \<Rightarrow> bool"
    and admitted :: "'i list \<Rightarrow> bool"
    and stops :: bool
  assumes count_failures: "failures (count s) = failures s + 1"
    and count_keeps: "inv s \<Longrightarrow> inv (count s)"
    and reopen_keeps: "inv s \<Longrightarrow> wp (reopen cl op s) (\<lambda>_ t. inv t \<and> failures t = failures s)"
    and loop_keeps: "inv s \<Longrightarrow> admitted inputs \<Longrightarrow> wp (loop inputs s) (\<lambda>(r, rest) t. inv t \<and> admitted rest \<and>
      (rest = inputs \<and> failures t = failures s \<or> length rest < length inputs \<and> failures t \<in> {0..failures s}) \<and>
      (\<forall>rc. r = Some rc \<longrightarrow> rc < 0 \<or> stops))"
begin

lemma thread_ends:
  assumes "inv s" and "admitted inputs" and "0 \<le> failures s" and "failures s < RIL_CLIENT_RETRY_COUNT"
  shows "wp (retry_thread failures count cl op loop inputs s) (\<lambda>(stopped, rest) t. inv t \<and> (stopped \<longrightarrow> failures t = RIL_CLIENT_RETRY_COUNT \<or> stops))"
  using assms
proof (induction "(length inputs, nat (RIL_CLIENT_RETRY_COUNT - failures s))" arbitrary: inputs s rule: wf_induct_rule [OF wf_lex_prod [OF wf_less_than wf_less_than], case_names step])
  case (step inputs s)
  have "wp (if failures s \<noteq> 0 then reopen cl op s else Some (0, s)) (\<lambda>_ t. inv t \<and> failures t = failures s)"
    using reopen_keeps step.prems(1) by simp
  then obtain rc t where t: "(if failures s \<noteq> 0 then reopen cl op s else Some (0, s)) = Some (rc, t)" "inv t" "failures t = failures s"
    by (rule wpE) auto
  have "wp (if rc < 0 then Some ((Some rc, inputs), t) else loop inputs t) (\<lambda>(r, rest) u. inv u \<and> admitted rest \<and>
      (rest = inputs \<and> failures u = failures t \<or> length rest < length inputs \<and> failures u \<in> {0..failures t}) \<and> (\<forall>rc. r = Some rc \<longrightarrow> rc < 0 \<or> stops))"
    using loop_keeps [OF t(2) step.prems(2)] t(2) step.prems(2) by simp
  then obtain r rest u where u: "(if rc < 0 then Some ((Some rc, inputs), t) else loop inputs t) = Some ((r, rest), u)" "inv u" "admitted rest"
    "rest = inputs \<and> failures u = failures t \<or> length rest < length inputs \<and> failures u \<in> {0..failures t}" "\<And>rc. r = Some rc \<Longrightarrow> rc < 0 \<or> stops"
    by (auto simp: wp_def)
  note unfold = retry_thread.simps [of failures count cl op loop inputs s]
  show ?case
  proof (cases r)
    case None
    then show ?thesis
      using t u by (subst unfold) simp
  next
    case (Some rc')
    show ?thesis
    proof (cases "rc' \<ge> 0")
      case True
      then show ?thesis
        using Some t u by (subst unfold) auto
    next
      case neg: False
      show ?thesis
      proof (cases "failures (count u) < RIL_CLIENT_RETRY_COUNT")
        case True
        then have "wp (retry_thread failures count cl op loop rest (count u)) (\<lambda>(stopped, rest) t. inv t \<and> (stopped \<longrightarrow> failures t = RIL_CLIENT_RETRY_COUNT \<or> stops))"
          using u t(3) step.prems count_failures [of u] count_keeps by (intro step.hyps) auto
        then show ?thesis
          using True Some neg t u by (subst unfold) simp
      next
        case False
        then have "failures (count u) = RIL_CLIENT_RETRY_COUNT"
          using count_failures [of u] u(4) t(3) step.prems(4) by auto
        then show ?thesis
          using False Some neg t u count_keeps by (subst unfold) simp
      qed
    qed
  qed
qed

end

end
