(* ===== verification/Ipc_Files.thy ===== *)
theory Ipc_Files
  imports Ipc_Utils
begin

section \<open>libsamsung-ipc: files\<close>

text \<open>
  The file helpers of \<open>samsung-ipc/utils.c\<close> over a model of the system calls they use: a file is its list of
  bytes, and \<open>calls\<close> is a script with the outcome of each system call in their order. A negative entry makes the call
  fail; for \<open>read\<close> and \<open>write\<close> a positive one bounds the number of bytes transferred, so that a script describes short
  transfers too; zero, and a script that is used up, is success in full. \<open>off_t\<close> has 32 bits and a sign on the targets.
  A file descriptor is the path it was opened with, since nothing is renamed while it is open. The counters of the loops never exceed the size,
  which is a \<open>size_t\<close>, so they are natural numbers.
\<close>

subsection \<open>System calls\<close>

record file_world =
  files :: "string \<Rightarrow> u8 list option"
  calls :: "int list"

definition call_result :: "file_world \<Rightarrow> int" where
  "call_result s = (case calls s of [] \<Rightarrow> 0 | r # _ \<Rightarrow> r)"

definition call_next :: "file_world \<Rightarrow> file_world" where
  "call_next s = s\<lparr>calls := drop 1 (calls s)\<rparr>"

definition content :: "string \<Rightarrow> file_world \<Rightarrow> u8 list" where
  "content path s = (case files s path of None \<Rightarrow> [] | Some bs \<Rightarrow> bs)"

definition sys_open_rdonly :: "string \<Rightarrow> file_world \<Rightarrow> int \<times> file_world" where
  "sys_open_rdonly path s = (if call_result s < 0 \<or> files s path = None then (-1, call_next s) else (0, call_next s))"

definition sys_open_creat :: "string \<Rightarrow> file_world \<Rightarrow> int \<times> file_world" where
  "sys_open_creat path s = (if call_result s < 0 then (-1, call_next s)
     else (0, (call_next s)\<lparr>files := (files s)(path := Some (content path s))\<rparr>))"

text \<open>\<open>lseek(fd, (off_t) offset, SEEK_SET)\<close> on a descriptor just opened: the result and the position after the call. A
  negative offset is an error that leaves the position alone.\<close>

definition sys_lseek :: "u32 \<Rightarrow> file_world \<Rightarrow> int \<times> nat \<times> file_world" where
  "sys_lseek offset s = (if call_result s < 0 \<or> sint offset < 0 then (-1, 0, call_next s)
     else (sint offset, nat (sint offset), call_next s))"

definition transfer :: "nat \<Rightarrow> file_world \<Rightarrow> nat" where
  "transfer n s = (if call_result s = 0 then n else min n (nat (call_result s)))"

definition sys_read :: "string \<Rightarrow> nat \<Rightarrow> nat \<Rightarrow> file_world \<Rightarrow> u8 list option \<times> file_world" where
  "sys_read path pos n s = (if call_result s < 0 then (None, call_next s)
     else (Some (take (transfer n s) (drop pos (content path s))), call_next s))"

text \<open>Writing past the end of a file fills the gap with zeros; writing nothing changes nothing.\<close>

definition overwrite :: "nat \<Rightarrow> u8 list \<Rightarrow> u8 list \<Rightarrow> u8 list" where
  "overwrite pos bs old = (if bs = [] then old else take pos old @ replicate (pos - length old) 0 @ bs @ drop (pos + length bs) old)"

definition sys_write :: "string \<Rightarrow> nat \<Rightarrow> u8 list \<Rightarrow> file_world \<Rightarrow> int \<times> file_world" where
  "sys_write path pos bs s = (if call_result s < 0 then (-1, call_next s)
     else let n = transfer (length bs) s in
       (int n, (call_next s)\<lparr>files := (files s)(path := Some (overwrite pos (take n bs) (content path s)))\<rparr>))"

definition sys_unlink :: "string \<Rightarrow> file_world \<Rightarrow> int \<times> file_world" where
  "sys_unlink path s = (if call_result s < 0 \<or> files s path = None then (-1, call_next s)
     else (0, (call_next s)\<lparr>files := (files s)(path := None)\<rparr>))"

text \<open>\<open>stat\<close>, of which only the size is used.\<close>

definition sys_stat :: "string \<Rightarrow> file_world \<Rightarrow> nat option \<times> file_world" where
  "sys_stat path s = (if call_result s < 0 then None else map_option length (files s path), call_next s)"

subsection \<open>Reading and writing in chunks\<close>

function (sequential) file_data_read_loop ::
  "string \<Rightarrow> nat \<Rightarrow> nat \<Rightarrow> nat \<Rightarrow> u8 list \<Rightarrow> file_world \<Rightarrow> u8 list option \<times> file_world" where
  "file_data_read_loop path sz chunk_size pos data s =
     (if length data \<ge> sz then (Some data, s)
      else (case sys_read path pos (if sz - length data > chunk_size then chunk_size else sz - length data) s of
          (None, s) \<Rightarrow> (None, s)
        | (Some [], s) \<Rightarrow> (None, s)
        | (Some bs, s) \<Rightarrow> file_data_read_loop path sz chunk_size (pos + length bs) (data @ bs) s))"
  by pat_completeness auto

termination
  by (relation "measure (\<lambda>(_, sz, _, _, data, _). sz - length data)") auto

declare file_data_read_loop.simps [simp del]

definition file_data_read :: "string option \<Rightarrow> nat \<Rightarrow> nat \<Rightarrow> u32 \<Rightarrow> file_world \<Rightarrow> u8 list option \<times> file_world" where
  "file_data_read path sz chunk_size offset s = (case path of None \<Rightarrow> (None, s) | Some path \<Rightarrow>
     if sz = 0 \<or> chunk_size = 0 \<or> chunk_size > sz then (None, s)
     else
       let (fd, s) = sys_open_rdonly path s in
       if fd < 0 then (None, s)
       else
         let (seek, pos, s) = sys_lseek offset s in
         if seek < sint offset then (None, s)
         else file_data_read_loop path sz chunk_size pos [] s)"

function (sequential) file_data_write_loop ::
  "string \<Rightarrow> nat \<Rightarrow> nat \<Rightarrow> u8 list \<Rightarrow> file_world \<Rightarrow> int \<times> file_world" where
  "file_data_write_loop path chunk_size pos p s =
     (if p = [] then (0, s)
      else
        let (rc, s) = sys_write path pos (take (if length p > chunk_size then chunk_size else length p) p) s in
        if rc \<le> 0 then (-1, s)
        else file_data_write_loop path chunk_size (pos + nat rc) (drop (nat rc) p) s)"
  by pat_completeness auto

termination
  by (relation "measure (\<lambda>(_, _, _, p, _). length p)") auto

declare file_data_write_loop.simps [simp del]

definition file_data_write :: "string option \<Rightarrow> u8 list \<Rightarrow> nat \<Rightarrow> u32 \<Rightarrow> file_world \<Rightarrow> int \<times> file_world" where
  "file_data_write path data chunk_size offset s = (case path of None \<Rightarrow> (-1, s) | Some path \<Rightarrow>
     if data = [] \<or> chunk_size = 0 \<or> chunk_size > length data then (-1, s)
     else
       let (fd, s) = sys_open_creat path s in
       if fd < 0 then (-1, s)
       else
         let (seek, pos, s) = sys_lseek offset s in
         if seek < sint offset then (-1, s)
         else file_data_write_loop path chunk_size pos data s)"

subsection \<open>The loops against slices of the file\<close>

definition no_faults :: "file_world \<Rightarrow> bool" where
  "no_faults s \<longleftrightarrow> (\<forall>r \<in> set (calls s). 0 \<le> r)"

lemma no_faults_result: "no_faults s \<Longrightarrow> 0 \<le> call_result s"
  by (auto simp: no_faults_def call_result_def split: list.splits)

lemma no_faults_next [simp]: "no_faults s \<Longrightarrow> no_faults (call_next s)"
  by (auto simp: no_faults_def call_next_def dest: in_set_dropD)

lemma no_faults_files [simp]: "no_faults (s\<lparr>files := f\<rparr>) = no_faults s"
  by (simp add: no_faults_def)

lemma files_next [simp]: "files (call_next s) = files s"
  by (simp add: call_next_def)

lemma content_next [simp]: "content path (call_next s) = content path s"
  by (simp add: content_def)

lemma content_files [simp]: "content path (s\<lparr>files := f\<rparr>) = (case f path of None \<Rightarrow> [] | Some bs \<Rightarrow> bs)"
  by (simp add: content_def)

lemma take_length_take [simp]: "take (length (take k xs)) xs = take k xs"
  by (simp add: min_def)

lemma take_slice:
  assumes "take (length b) (drop pos xs) = b" and "length b \<le> m"
  shows "take m (drop pos xs) = b @ take (m - length b) (drop (pos + length b) xs)"
  using assms take_add [of "length b" "m - length b" "drop pos xs"] by (simp add: add.commute)

lemma sys_read_cases:
  obtains "sys_read path pos n s = (None, call_next s)" "\<not> no_faults s"
  | "sys_read path pos n s = (Some [], call_next s)" "n = 0 \<or> length (content path s) \<le> pos"
  | b bs where "sys_read path pos n s = (Some (b # bs), call_next s)" "length (b # bs) \<le> n"
      "take (length (b # bs)) (drop pos (content path s)) = b # bs"
proof -
  define bs where "bs = take (transfer n s) (drop pos (content path s))"
  have len: "length bs \<le> n"
    by (auto simp: bs_def transfer_def min_le_iff_disj)
  have slice: "take (length bs) (drop pos (content path s)) = bs"
    unfolding bs_def by (rule take_length_take)
  show thesis
  proof (cases "call_result s < 0")
    case True
    then show thesis
      using that(1) no_faults_result [of s] by (auto simp: sys_read_def)
  next
    case False
    then have read: "sys_read path pos n s = (Some bs, call_next s)"
      by (simp add: sys_read_def bs_def)
    have "n = 0 \<or> length (content path s) \<le> pos" if "bs = []"
      using that False by (auto simp: bs_def transfer_def split: if_splits)
    with read len slice show thesis
      using that(2,3) by (cases bs) auto
  qed
qed

text \<open>Reading, whatever the script does: the files stay as they are, and what is returned is the slice asked for; without
  faults, however short the transfers, it is returned whenever the file has it.\<close>

lemma file_data_read_loop_result:
  assumes "file_data_read_loop path sz chunk_size pos data s = (r, s')" and "length data \<le> sz"
  shows "files s' = files s \<and> (no_faults s \<longrightarrow> no_faults s') \<and>
    (\<forall>d. r = Some d \<longrightarrow> d = data @ take (sz - length data) (drop pos (content path s)) \<and> length d = sz) \<and>
    (no_faults s \<and> 0 < chunk_size \<and> pos + (sz - length data) \<le> length (content path s) \<longrightarrow> r \<noteq> None)"
  using assms
proof (induction "sz - length data" arbitrary: pos data s rule: less_induct)
  case less
  let ?n = "if sz - length data > chunk_size then chunk_size else sz - length data"
  show ?case
  proof (cases "length data = sz")
    case True
    then show ?thesis
      using less.prems by (auto simp: file_data_read_loop.simps [of path sz])
  next
    case False
    note step = trans [OF file_data_read_loop.simps [symmetric] less.prems(1)]
    show ?thesis
    proof (cases rule: sys_read_cases [of path pos ?n s])
      case (3 b bs)
      let ?b = "b # bs"
      have le: "length ?b \<le> sz - length data"
        using 3(2) by (simp split: if_splits)
      have rec: "file_data_read_loop path sz chunk_size (pos + length ?b) (data @ ?b) (call_next s) = (r, s')"
        using step False less.prems(2) 3(1) by simp
      have slice: "data @ take (sz - length data) (drop pos (content path s)) =
          (data @ ?b) @ take (sz - length (data @ ?b)) (drop (pos + length ?b) (content path s))"
        using take_slice [OF 3(3) le] by simp
      have "sz - length (data @ ?b) < sz - length data" "length (data @ ?b) \<le> sz"
        and left: "pos + length ?b + (sz - length (data @ ?b)) = pos + (sz - length data)"
        using le False less.prems(2) by auto
      from less.hyps [OF this(1) rec this(2)] show ?thesis
        unfolding slice left by simp
    qed (use step False less.prems(2) in \<open>auto split: if_splits\<close>)
  qed
qed


lemma length_overwrite: "bs \<noteq> [] \<Longrightarrow> length (overwrite pos bs old) = max (pos + length bs) (length old)"
  by (auto simp: overwrite_def)

lemma overwrite_Nil [simp]: "overwrite pos [] old = old"
  by (simp add: overwrite_def)

lemma overwrite_all: "length bs = length old \<Longrightarrow> overwrite 0 bs old = bs"
  by (auto simp: overwrite_def)

lemma overwrite_new [simp]: "overwrite 0 bs [] = bs"
  by (simp add: overwrite_def)

text \<open>Two adjacent writes are one, and what was written is read back.\<close>

lemma overwrite_append: "overwrite (pos + length xs) ys (overwrite pos xs old) = overwrite pos (xs @ ys) old"
proof -
  let ?p = "take pos old @ replicate (pos - length old) 0"
  have "length ?p = pos"
    by auto
  then show ?thesis
    by (simp add: overwrite_def add.assoc add.commute [of "length ys"])
qed

lemma overwrite_slice: "take (length bs) (drop pos (overwrite pos bs old)) = bs"
proof -
  have "length (take pos old @ replicate (pos - length old) 0) = pos"
    by auto
  then show ?thesis
    by (simp add: overwrite_def)
qed

lemma sys_write_ok:
  assumes "\<not> call_result s < 0" and "files s path = Some old" and "bs \<noteq> []"
  obtains k where "0 < k" "k \<le> length bs"
    "sys_write path pos bs s = (int k, (call_next s)\<lparr>files := (files s)(path \<mapsto> overwrite pos (take k bs) old)\<rparr>)"
proof (rule that [of "transfer (length bs) s"])
  show "0 < transfer (length bs) s" "transfer (length bs) s \<le> length bs"
    using assms(1,3) by (auto simp: transfer_def)
qed (use assms in \<open>simp add: sys_write_def content_def Let_def\<close>)

text \<open>Writing: a prefix of the data is written, all of it unless the result is an error; without faults it is not.\<close>

lemma file_data_write_loop_result:
  assumes "file_data_write_loop path chunk_size pos p s = (rc, s')" and "files s path = Some old" and "0 < chunk_size"
  shows "\<exists>k \<le> length p. files s' = (files s)(path \<mapsto> overwrite pos (take k p) old) \<and>
    (rc = 0 \<and> k = length p \<or> rc = -1 \<and> k < length p) \<and> (no_faults s \<longrightarrow> no_faults s' \<and> rc = 0)"
  using assms(1,2)
proof (induction "length p" arbitrary: pos p s old rule: less_induct)
  case less
  let ?n = "if length p > chunk_size then chunk_size else length p"
  note step = trans [OF file_data_write_loop.simps [symmetric] less.prems(1)]
  consider (finished) "p = []" | (fault) "p \<noteq> []" "call_result s < 0" | (ok) "p \<noteq> []" "\<not> call_result s < 0"
    by blast
  then show ?case
  proof cases
    case finished
    then show ?thesis
      using step less.prems(2) by (auto simp: fun_upd_idem)
  next
    case fault
    then show ?thesis
      using step less.prems(2) no_faults_result [of s]
      by (auto simp: sys_write_def fun_upd_idem intro!: exI [of _ 0])
  next
    case ok
    then have "take ?n p \<noteq> []"
      using assms(3) by simp
    then obtain k where k: "0 < k" "k \<le> length (take ?n p)"
      and wr: "sys_write path pos (take ?n p) s =
        (int k, (call_next s)\<lparr>files := (files s)(path \<mapsto> overwrite pos (take k (take ?n p)) old)\<rparr>)"
      using sys_write_ok [OF ok(2) less.prems(2)] by blast
    define t where "t = (call_next s)\<lparr>files := (files s)(path \<mapsto> overwrite pos (take k p) old)\<rparr>"
    have kn: "take k (take ?n p) = take k p" "k \<le> length p"
      using k(2) by (simp_all split: if_splits)
    have "file_data_write_loop path chunk_size (pos + k) (drop k p) t = (rc, s')"
      using step ok(1) wr k(1) kn by (simp add: t_def)
    moreover have "files t path = Some (overwrite pos (take k p) old)" "length (drop k p) < length p"
      using ok(1) k(1) by (simp_all add: t_def)
    ultimately obtain j where j: "j \<le> length (drop k p)"
      "files s' = (files t)(path \<mapsto> overwrite (pos + k) (take j (drop k p)) (overwrite pos (take k p) old))"
      "rc = 0 \<and> j = length (drop k p) \<or> rc = -1 \<and> j < length (drop k p)" "no_faults t \<longrightarrow> no_faults s' \<and> rc = 0"
      using less.hyps by blast
    have "overwrite (pos + k) (take j (drop k p)) (overwrite pos (take k p) old) = overwrite pos (take (k + j) p) old"
      using overwrite_append [of pos "take k p" "take j (drop k p)" old] kn by (simp add: take_add)
    then show ?thesis
      using j kn(2) by (intro exI [of _ "k + j"]) (auto simp: t_def)
  qed
qed

subsection \<open>Whole files\<close>

text \<open>The position where a transfer starts. For an offset of \<open>2^31\<close> or more \<open>lseek\<close> fails, but its result -1 is not below
  \<open>(off_t) offset\<close>, which is negative, so the transfer goes on at the start of the file.\<close>

definition start_of :: "u32 \<Rightarrow> nat" where
  "start_of offset = nat (sint offset)"

lemma start_of_small:
  assumes "unat offset < 2 ^ 31"
  shows "start_of offset = unat offset"
proof -
  have "int (unat offset) < int (2 ^ 31)"
    using assms by (simp only: of_nat_less_iff)
  then have "uint offset < 2 ^ 31"
    by simp
  moreover have "- (2 ^ 31) \<le> uint offset"
    by (rule order_trans [OF _ uint_ge_0]) simp
  ultimately have "signed_take_bit 31 (uint offset) = uint offset"
    by (rule signed_take_bit_int_eq_self [rotated])
  then show ?thesis
    by (simp add: start_of_def sint_uint)
qed

lemma start_of_zero [simp]: "start_of 0 = 0"
  by (simp add: start_of_def)

lemma sys_lseek_result:
  assumes "sys_lseek offset s = (seek, pos, t)"
  shows "t = call_next s \<and> (\<not> seek < sint offset \<longrightarrow> pos = start_of offset) \<and> (no_faults s \<longrightarrow> \<not> seek < sint offset)"
  using assms no_faults_result [of s] by (auto simp: sys_lseek_def start_of_def split: if_splits)

definition readable :: "string \<Rightarrow> nat \<Rightarrow> nat \<Rightarrow> file_world \<Rightarrow> bool" where
  "readable path pos n s \<longleftrightarrow> (\<exists>bs. files s path = Some bs \<and> pos + n \<le> length bs)"

lemma file_data_read_result:
  assumes "file_data_read (Some path) sz chunk_size offset s = (r, s')"
  shows "files s' = files s \<and> (no_faults s \<longrightarrow> no_faults s') \<and>
    (\<forall>d. r = Some d \<longrightarrow> d = take sz (drop (start_of offset) (content path s)) \<and> length d = sz \<and>
      readable path (start_of offset) sz s \<and> 0 < chunk_size \<and> chunk_size \<le> sz) \<and>
    (no_faults s \<and> 0 < chunk_size \<and> chunk_size \<le> sz \<and> readable path (start_of offset) sz s \<longrightarrow> r \<noteq> None)"
proof -
  consider (guard) "sz = 0 \<or> chunk_size = 0 \<or> chunk_size > sz" | (fd) "fst (sys_open_rdonly path s) < 0"
    | (go) "\<not> (sz = 0 \<or> chunk_size = 0 \<or> chunk_size > sz)" "\<not> fst (sys_open_rdonly path s) < 0"
    by blast
  then show ?thesis
  proof cases
    case guard
    then show ?thesis
      using assms by (auto simp: file_data_read_def)
  next
    case fd
    then show ?thesis
      using assms no_faults_result [of s]
      by (auto simp: file_data_read_def sys_open_rdonly_def readable_def split: if_splits)
  next
    case go
    then have opened: "sys_open_rdonly path s = (0, call_next s)" and "files s path \<noteq> None"
      by (auto simp: sys_open_rdonly_def split: if_splits)
    then obtain bs where bs: "files s path = Some bs" "content path s = bs"
      by (auto simp: content_def)
    obtain seek pos t where seek: "sys_lseek offset (call_next s) = (seek, pos, t)"
      by (cases "sys_lseek offset (call_next s)")
    note pos = sys_lseek_result [OF seek]
    have body: "(if seek < sint offset then (None, t) else file_data_read_loop path sz chunk_size pos [] t) = (r, s')"
      using assms go opened seek by (simp add: file_data_read_def)
    show ?thesis
    proof (cases "seek < sint offset")
      case True
      then show ?thesis
        using body pos by auto
    next
      case False
      then have "file_data_read_loop path sz chunk_size (start_of offset) [] t = (r, s')"
        using body pos by simp
      from file_data_read_loop_result [OF this] have res: "files s' = files t" "no_faults t \<longrightarrow> no_faults s'"
        "\<And>d. r = Some d \<Longrightarrow> d = take sz (drop (start_of offset) (content path t)) \<and> length d = sz"
        "no_faults t \<and> 0 < chunk_size \<and> start_of offset + sz \<le> length (content path t) \<longrightarrow> r \<noteq> None"
        by simp_all
      have t: "files t = files s" "no_faults s \<Longrightarrow> no_faults t" "content path t = bs"
        using pos bs by auto
      have "start_of offset + sz \<le> length bs" if "length (take sz (drop (start_of offset) bs)) = sz"
        using that go(1) by auto
      then show ?thesis
        using res t bs go(1) by (fastforce simp: readable_def)
    qed
  qed
qed

lemma file_data_write_result:
  assumes "file_data_write (Some path) data chunk_size offset s = (rc, s')"
  shows "(rc = 0 \<or> rc = -1) \<and> (no_faults s \<longrightarrow> no_faults s') \<and> (\<forall>q. q \<noteq> path \<longrightarrow> files s' q = files s q) \<and>
    (rc = 0 \<longrightarrow> files s' path = Some (overwrite (start_of offset) data (content path s)) \<and> data \<noteq> []) \<and>
    (no_faults s \<and> 0 < chunk_size \<and> chunk_size \<le> length data \<longrightarrow> rc = 0)"
proof -
  consider (guard) "data = [] \<or> chunk_size = 0 \<or> chunk_size > length data" | (fd) "call_result s < 0"
    | (go) "\<not> (data = [] \<or> chunk_size = 0 \<or> chunk_size > length data)" "\<not> call_result s < 0"
    by blast
  then show ?thesis
  proof cases
    case guard
    then show ?thesis
      using assms by (auto simp: file_data_write_def)
  next
    case fd
    then show ?thesis
      using assms no_faults_result [of s] by (auto simp: file_data_write_def sys_open_creat_def split: if_splits)
  next
    case go
    define u where "u = (call_next s)\<lparr>files := (files s)(path := Some (content path s))\<rparr>"
    obtain seek pos t where seek: "sys_lseek offset u = (seek, pos, t)"
      by (cases "sys_lseek offset u")
    note pos = sys_lseek_result [OF seek]
    have t: "files t = (files s)(path \<mapsto> content path s)" "no_faults s \<Longrightarrow> no_faults t" "no_faults s \<Longrightarrow> \<not> seek < sint offset"
      using pos by (auto simp: u_def)
    have body: "(if seek < sint offset then (-1, t) else file_data_write_loop path chunk_size pos data t) = (rc, s')"
      using assms go seek by (simp add: file_data_write_def sys_open_creat_def u_def)
    show ?thesis
    proof (cases "seek < sint offset")
      case True
      then show ?thesis
        using body t by auto
    next
      case False
      then have "file_data_write_loop path chunk_size (start_of offset) data t = (rc, s')"
        using body pos by simp
      then obtain k where "files s' = (files t)(path \<mapsto> overwrite (start_of offset) (take k data) (content path s))"
        "rc = 0 \<and> k = length data \<or> rc = -1 \<and> k < length data" "no_faults t \<longrightarrow> no_faults s' \<and> rc = 0"
        using file_data_write_loop_result t(1) go(1) by (metis fun_upd_same gr0I)
      then show ?thesis
        using t go(1) by auto
    qed
  qed
qed

subsection \<open>Properties\<close>

text \<open>Files survive the helpers: what \<open>file_data_write\<close> reports as written at an offset is what \<open>file_data_read\<close> then returns there, with any
  chunk sizes on either side and however short the transfers are that the kernel makes; the bytes around it, and every other
  file, keep their contents.\<close>

theorem file_data_roundtrip:
  assumes "no_faults s" and "data \<noteq> []" and "0 < wchunk" "wchunk \<le> length data" and "0 < rchunk" "rchunk \<le> length data"
    and "unat offset < 2 ^ 31" and "file_data_write (Some path) data wchunk offset s = (rc, s')"
  shows "rc = 0 \<and> fst (file_data_read (Some path) (length data) rchunk offset s') = Some data \<and>
    (\<forall>q. q \<noteq> path \<longrightarrow> files s' q = files s q) \<and>
    (\<forall>i < length (content path s). \<not> (unat offset \<le> i \<and> i < unat offset + length data) \<longrightarrow> content path s' ! i = content path s ! i)"
proof -
  note w = file_data_write_result [OF assms(8)]
  have rc: "rc = 0" and new: "files s' path = Some (overwrite (unat offset) data (content path s))" and ok: "no_faults s'"
    using w assms(1,3,4) start_of_small [OF assms(7)] by auto
  have "readable path (unat offset) (length data) s'"
    using new assms(2) by (simp add: readable_def length_overwrite)
  moreover obtain r s'' where rd: "file_data_read (Some path) (length data) rchunk offset s' = (r, s'')"
    by (cases "file_data_read (Some path) (length data) rchunk offset s'")
  ultimately have "r = Some (take (length data) (drop (unat offset) (content path s')))"
    using file_data_read_result [OF rd] ok assms(5,6) start_of_small [OF assms(7)] by auto
  moreover have "content path s' = overwrite (unat offset) data (content path s)"
    using new by (simp add: content_def)
  ultimately show ?thesis
    using rc rd w overwrite_slice [of data "unat offset" "content path s"] assms(2)
    by (auto simp: overwrite_def nth_append min_def)
qed

theorem file_data_roundtrip_witness:
  "fst (file_data_read (Some ''nv'') 3 2 2 (snd (file_data_write (Some ''nv'') [7, 8, 9] 1 2
     \<lparr>files = (\<lambda>_. None)(''nv'' \<mapsto> [1, 2, 3, 4]), calls = [0, 0, 0, 0, 0, 0, 0, 1]\<rparr>))) = Some [7, 8, 9]"
  using file_data_roundtrip [of "\<lparr>files = (\<lambda>_. None)(''nv'' \<mapsto> [1, 2, 3, 4]), calls = [0, 0, 0, 0, 0, 0, 0, 1]\<rparr>"
      "[7, 8, 9]" 1 2 2 "''nv''"]
  by (cases "file_data_write (Some ''nv'') [7, 8, 9] 1 2 \<lparr>files = (\<lambda>_. None)(''nv'' \<mapsto> [1, 2, 3, 4]), calls = [0, 0, 0, 0, 0, 0, 0, 1]\<rparr>")
    (simp add: no_faults_def numeral_3_eq_3)

end
