(* ===== verification/Ipc_Nv.thy ===== *)
theory Ipc_Nv
  imports Ipc_Files
begin

section \<open>libsamsung-ipc: the data of the modem in files\<close>

text \<open>
  \<open>samsung-ipc/rfs.c\<close>: the modem keeps its non-volatile data in a file of the phone, together with the MD5 sum of its bytes and a secret, and a
  backup of both. The paths, the secret and the sizes come from the device (\<open>struct ipc_client_nv_data_specs\<close>); a client that is \<open>NULL\<close> and one
  without such specifications behave alike, so both are \<open>None\<close>. MD5 is that of OpenSSL and so a parameter; what is used of it is the length of its
  result (\<open>digest_ok\<close>).
\<close>

subsection \<open>Specifications of the device (ipc.c)\<close>

record ipc_client_nv_data_specs =
  nv_data_path :: "string option"
  nv_data_md5_path :: "string option"
  nv_data_backup_path :: "string option"
  nv_data_backup_md5_path :: "string option"
  nv_data_secret :: "string option"
  nv_data_size :: nat
  nv_data_chunk_size :: nat

definition ipc_client_nv_data_path :: "ipc_client_nv_data_specs option \<Rightarrow> string option" where
  "ipc_client_nv_data_path client = Option.bind client nv_data_path"

definition ipc_client_nv_data_md5_path :: "ipc_client_nv_data_specs option \<Rightarrow> string option" where
  "ipc_client_nv_data_md5_path client = Option.bind client nv_data_md5_path"

definition ipc_client_nv_data_backup_path :: "ipc_client_nv_data_specs option \<Rightarrow> string option" where
  "ipc_client_nv_data_backup_path client = Option.bind client nv_data_backup_path"

definition ipc_client_nv_data_backup_md5_path :: "ipc_client_nv_data_specs option \<Rightarrow> string option" where
  "ipc_client_nv_data_backup_md5_path client = Option.bind client nv_data_backup_md5_path"

definition ipc_client_nv_data_secret :: "ipc_client_nv_data_specs option \<Rightarrow> string option" where
  "ipc_client_nv_data_secret client = Option.bind client nv_data_secret"

definition ipc_client_nv_data_size :: "ipc_client_nv_data_specs option \<Rightarrow> nat" where
  "ipc_client_nv_data_size client = (case client of None \<Rightarrow> 0 | Some specs \<Rightarrow> nv_data_size specs)"

definition ipc_client_nv_data_chunk_size :: "ipc_client_nv_data_specs option \<Rightarrow> nat" where
  "ipc_client_nv_data_chunk_size client = (case client of None \<Rightarrow> 0 | Some specs \<Rightarrow> nv_data_chunk_size specs)"

subsection \<open>Sums and checks\<close>

text \<open>\<open>if (rc < 0) goto error;\<close> and \<open>if (data == NULL) goto error;\<close> before the next statements.\<close>

definition ok_then :: "int \<times> 's \<Rightarrow> ('s \<Rightarrow> int \<times> 's) \<Rightarrow> int \<times> 's" where
  "ok_then r f = (if fst r < 0 then (-1, snd r) else f (snd r))"

definition found_then :: "'a option \<times> file_world \<Rightarrow> ('a \<Rightarrow> file_world \<Rightarrow> int \<times> file_world) \<Rightarrow> int \<times> file_world" where
  "found_then r f = (case fst r of None \<Rightarrow> (-1, snd r) | Some x \<Rightarrow> f x (snd r))"

type_synonym md5_fun = "u8 list \<Rightarrow> u8 list"

definition MD5_DIGEST_LENGTH :: nat where "MD5_DIGEST_LENGTH = 16"

definition digest_ok :: "md5_fun \<Rightarrow> bool" where
  "digest_ok md5 \<longleftrightarrow> (\<forall>bs. length (md5 bs) = MD5_DIGEST_LENGTH)"

text \<open>Strings in buffers: \<open>strndup\<close> stops at a zero, and \<open>strncmp\<close> compares up to the first zero or the given length.\<close>

definition strndup :: "u8 list \<Rightarrow> nat \<Rightarrow> u8 list" where
  "strndup buffer n = takeWhile (\<lambda>b. b \<noteq> 0) (take n buffer)"

definition strncmp_zero :: "u8 list \<Rightarrow> u8 list \<Rightarrow> nat \<Rightarrow> bool" where
  "strncmp_zero a b n \<longleftrightarrow> take n (a @ [0]) = take n (b @ [0])"

definition ipc_nv_data_md5_calculate ::
  "md5_fun \<Rightarrow> string option \<Rightarrow> string option \<Rightarrow> nat \<Rightarrow> nat \<Rightarrow> file_world \<Rightarrow> string option \<times> file_world" where
  "ipc_nv_data_md5_calculate md5 path secret sz chunk_size s = (case secret of None \<Rightarrow> (None, s) | Some secret \<Rightarrow>
     (case file_data_read path sz chunk_size 0 s of
        (None, s) \<Rightarrow> (None, s)
      | (Some data, s) \<Rightarrow> (data2string (md5 (data @ string_bytes secret)), s)))"

definition ipc_nv_data_path_check :: "ipc_client_nv_data_specs option \<Rightarrow> file_world \<Rightarrow> int \<times> file_world" where
  "ipc_nv_data_path_check client s = (let sz = ipc_client_nv_data_size client in
     case ipc_client_nv_data_path client of None \<Rightarrow> (-1, s) | Some path \<Rightarrow>
       if sz = 0 then (-1, s)
       else (case sys_stat path s of
           (None, s) \<Rightarrow> (-1, s)
         | (Some st_size, s) \<Rightarrow> if st_size \<noteq> sz then (-1, s) else (0, s)))"

definition ipc_nv_data_md5_path_check :: "ipc_client_nv_data_specs option \<Rightarrow> file_world \<Rightarrow> int \<times> file_world" where
  "ipc_nv_data_md5_path_check client s = (case ipc_client_nv_data_md5_path client of None \<Rightarrow> (-1, s) | Some md5_path \<Rightarrow>
     (case sys_stat md5_path s of
        (None, s) \<Rightarrow> (-1, s)
      | (Some st_size, s) \<Rightarrow> if st_size < 2 * MD5_DIGEST_LENGTH then (-1, s) else (0, s)))"

definition ipc_nv_data_backup_path_check :: "ipc_client_nv_data_specs option \<Rightarrow> file_world \<Rightarrow> int \<times> file_world" where
  "ipc_nv_data_backup_path_check client s = (let sz = ipc_client_nv_data_size client in
     case ipc_client_nv_data_backup_path client of None \<Rightarrow> (-1, s) | Some backup_path \<Rightarrow>
       if sz = 0 then (-1, s)
       else (case sys_stat backup_path s of
           (None, s) \<Rightarrow> (-1, s)
         | (Some st_size, s) \<Rightarrow> if st_size \<noteq> sz then (-1, s) else (0, s)))"

definition ipc_nv_data_backup_md5_path_check :: "ipc_client_nv_data_specs option \<Rightarrow> file_world \<Rightarrow> int \<times> file_world" where
  "ipc_nv_data_backup_md5_path_check client s = (case ipc_client_nv_data_backup_md5_path client of None \<Rightarrow> (-1, s) | Some backup_md5_path \<Rightarrow>
     (case sys_stat backup_md5_path s of
        (None, s) \<Rightarrow> (-1, s)
      | (Some st_size, s) \<Rightarrow> if st_size < 2 * MD5_DIGEST_LENGTH then (-1, s) else (0, s)))"

text \<open>The end both checks share, from the calculation of the sum on.\<close>

definition md5_matches :: "md5_fun \<Rightarrow> string option \<Rightarrow> string option \<Rightarrow> string option \<Rightarrow> nat \<Rightarrow> nat \<Rightarrow> file_world \<Rightarrow> int \<times> file_world" where
  "md5_matches md5 path md5_path secret sz chunk_size s =
     found_then (ipc_nv_data_md5_calculate md5 path secret sz chunk_size s) (\<lambda>md5_string s.
       let len = length md5_string in
       found_then (file_data_read md5_path len len 0 s) (\<lambda>buffer s.
         if strncmp_zero (string_bytes md5_string) (strndup buffer len) len then (0, s) else (-1, s)))"

definition ipc_nv_data_check :: "md5_fun \<Rightarrow> ipc_client_nv_data_specs option \<Rightarrow> file_world \<Rightarrow> int \<times> file_world" where
  "ipc_nv_data_check md5 client s =
     (let path = ipc_client_nv_data_path client; md5_path = ipc_client_nv_data_md5_path client;
          secret = ipc_client_nv_data_secret client; sz = ipc_client_nv_data_size client;
          chunk_size = ipc_client_nv_data_chunk_size client in
      if path = None \<or> md5_path = None \<or> secret = None \<or> sz = 0 \<or> chunk_size = 0 then (-1, s)
      else
        ok_then (ipc_nv_data_path_check client s) (\<lambda>s.
        ok_then (ipc_nv_data_md5_path_check client s) (\<lambda>s.
        md5_matches md5 path md5_path secret sz chunk_size s)))"

definition ipc_nv_data_backup_check :: "md5_fun \<Rightarrow> ipc_client_nv_data_specs option \<Rightarrow> file_world \<Rightarrow> int \<times> file_world" where
  "ipc_nv_data_backup_check md5 client s =
     (let backup_path = ipc_client_nv_data_backup_path client; backup_md5_path = ipc_client_nv_data_backup_md5_path client;
          secret = ipc_client_nv_data_secret client; sz = ipc_client_nv_data_size client;
          chunk_size = ipc_client_nv_data_chunk_size client in
      if backup_path = None \<or> backup_md5_path = None \<or> secret = None \<or> sz = 0 \<or> chunk_size = 0 then (-1, s)
      else
        ok_then (ipc_nv_data_backup_path_check client s) (\<lambda>s.
        ok_then (ipc_nv_data_backup_md5_path_check client s) (\<lambda>s.
        md5_matches md5 backup_path backup_md5_path secret sz chunk_size s)))"

subsection \<open>Backup, restoration and access\<close>

text \<open>\<open>unlink\<close>, its error only logged, and then writing a file anew.\<close>

definition rewrite_file :: "string option \<Rightarrow> u8 list \<Rightarrow> nat \<Rightarrow> file_world \<Rightarrow> int \<times> file_world" where
  "rewrite_file path data chunk_size s =
     (let s = (case path of None \<Rightarrow> s | Some path \<Rightarrow> snd (sys_unlink path s)) in
      file_data_write path data chunk_size 0 s)"

definition ipc_nv_data_backup :: "md5_fun \<Rightarrow> ipc_client_nv_data_specs option \<Rightarrow> file_world \<Rightarrow> int \<times> file_world" where
  "ipc_nv_data_backup md5 client s =
     (let path = ipc_client_nv_data_path client; backup_path = ipc_client_nv_data_backup_path client;
          backup_md5_path = ipc_client_nv_data_backup_md5_path client; secret = ipc_client_nv_data_secret client;
          sz = ipc_client_nv_data_size client; chunk_size = ipc_client_nv_data_chunk_size client in
      if path = None \<or> backup_path = None \<or> backup_md5_path = None \<or> secret = None \<or> sz = 0 \<or> chunk_size = 0 then (-1, s)
      else
        ok_then (ipc_nv_data_path_check client s) (\<lambda>s.
        found_then (file_data_read path sz chunk_size 0 s) (\<lambda>data s.
        found_then (ipc_nv_data_md5_calculate md5 path secret sz chunk_size s) (\<lambda>md5_string s.
        ok_then (rewrite_file backup_path data chunk_size s) (\<lambda>s.
        ok_then (rewrite_file backup_md5_path (string_bytes md5_string) (length md5_string) s) (\<lambda>s. (0, s)))))))"

definition ipc_nv_data_restore :: "md5_fun \<Rightarrow> ipc_client_nv_data_specs option \<Rightarrow> file_world \<Rightarrow> int \<times> file_world" where
  "ipc_nv_data_restore md5 client s =
     (let path = ipc_client_nv_data_path client; md5_path = ipc_client_nv_data_md5_path client;
          backup_path = ipc_client_nv_data_backup_path client; backup_md5_path = ipc_client_nv_data_backup_md5_path client;
          secret = ipc_client_nv_data_secret client; sz = ipc_client_nv_data_size client;
          chunk_size = ipc_client_nv_data_chunk_size client; len = 2 * MD5_DIGEST_LENGTH in
      if path = None \<or> md5_path = None \<or> backup_path = None \<or> backup_md5_path = None \<or> secret = None \<or> sz = 0 \<or> chunk_size = 0
      then (-1, s)
      else
        ok_then (ipc_nv_data_backup_check md5 client s) (\<lambda>s.
        found_then (file_data_read backup_path sz chunk_size 0 s) (\<lambda>data s.
        ok_then (rewrite_file path data chunk_size s) (\<lambda>s.
        found_then (file_data_read backup_md5_path len len 0 s) (\<lambda>data s.
        ok_then (rewrite_file md5_path data len s) (\<lambda>s. (0, s)))))))"

definition ipc_nv_data_load :: "md5_fun \<Rightarrow> ipc_client_nv_data_specs option \<Rightarrow> file_world \<Rightarrow> u8 list option \<times> file_world" where
  "ipc_nv_data_load md5 client s =
     (let path = ipc_client_nv_data_path client; sz = ipc_client_nv_data_size client;
          chunk_size = ipc_client_nv_data_chunk_size client in
      if path = None \<or> sz = 0 \<or> chunk_size = 0 then (None, s)
      else
        let (rc, s) = ipc_nv_data_check md5 client s;
            (rc, s) = (if rc < 0 then ok_then (ipc_nv_data_restore md5 client s) (ipc_nv_data_check md5 client) else (rc, s)) in
        if rc < 0 then (None, s)
        else
          let (rc, s) = ipc_nv_data_backup_path_check client s;
              s = (if rc < 0 then snd (ipc_nv_data_backup md5 client s) else s) in
          file_data_read path sz chunk_size 0 s)"

definition ipc_nv_data_read :: "ipc_client_nv_data_specs option \<Rightarrow> nat \<Rightarrow> u32 \<Rightarrow> file_world \<Rightarrow> u8 list option \<times> file_world" where
  "ipc_nv_data_read client sz offset s =
     (let path = ipc_client_nv_data_path client; chunk_size = ipc_client_nv_data_chunk_size client in
      if path = None \<or> chunk_size = 0 then (None, s)
      else
        let (rc, s) = ipc_nv_data_path_check client s in
        if rc < 0 then (None, s)
        else file_data_read path sz (if chunk_size > sz then sz else chunk_size) offset s)"

definition ipc_nv_data_write :: "md5_fun \<Rightarrow> ipc_client_nv_data_specs option \<Rightarrow> u8 list \<Rightarrow> u32 \<Rightarrow> file_world \<Rightarrow> int \<times> file_world" where
  "ipc_nv_data_write md5 client data offset s =
     (let path = ipc_client_nv_data_path client; md5_path = ipc_client_nv_data_md5_path client;
          secret = ipc_client_nv_data_secret client; chunk_size = ipc_client_nv_data_chunk_size client;
          sz = ipc_client_nv_data_size client in
      case (path, md5_path, secret) of
        (Some _, Some md5_file, Some _) \<Rightarrow>
          if chunk_size = 0 then (-1, s)
          else
            ok_then (ipc_nv_data_path_check client s) (\<lambda>s.
            ok_then (file_data_write path data (if chunk_size > length data then length data else chunk_size) offset s) (\<lambda>s.
            if sz = 0 then (-1, s)
            else
              found_then (ipc_nv_data_md5_calculate md5 path secret sz chunk_size s) (\<lambda>md5_string s.
              ok_then (sys_unlink md5_file s) (\<lambda>s.
              ok_then (file_data_write md5_path (string_bytes md5_string) (length md5_string) 0 s) (\<lambda>s. (0, s))))))
      | _ \<Rightarrow> (-1, s))"

subsection \<open>What the checks decide\<close>

definition nv_specs :: "string \<Rightarrow> string \<Rightarrow> string \<Rightarrow> string \<Rightarrow> string \<Rightarrow> nat \<Rightarrow> nat \<Rightarrow> ipc_client_nv_data_specs option" where
  "nv_specs path md5_path backup_path backup_md5_path secret sz chunk_size =
     Some \<lparr>nv_data_path = Some path, nv_data_md5_path = Some md5_path, nv_data_backup_path = Some backup_path,
       nv_data_backup_md5_path = Some backup_md5_path, nv_data_secret = Some secret, nv_data_size = sz, nv_data_chunk_size = chunk_size\<rparr>"

lemma nv_specs_simps [simp]:
  "ipc_client_nv_data_path (nv_specs p m b bm sec sz c) = Some p" "ipc_client_nv_data_md5_path (nv_specs p m b bm sec sz c) = Some m"
  "ipc_client_nv_data_backup_path (nv_specs p m b bm sec sz c) = Some b"
  "ipc_client_nv_data_backup_md5_path (nv_specs p m b bm sec sz c) = Some bm"
  "ipc_client_nv_data_secret (nv_specs p m b bm sec sz c) = Some sec" "ipc_client_nv_data_size (nv_specs p m b bm sec sz c) = sz"
  "ipc_client_nv_data_chunk_size (nv_specs p m b bm sec sz c) = c"
  by (simp_all add: nv_specs_def ipc_client_nv_data_path_def ipc_client_nv_data_md5_path_def ipc_client_nv_data_backup_path_def
    ipc_client_nv_data_backup_md5_path_def ipc_client_nv_data_secret_def ipc_client_nv_data_size_def ipc_client_nv_data_chunk_size_def)

definition sum_of :: "md5_fun \<Rightarrow> string \<Rightarrow> u8 list \<Rightarrow> u8 list" where
  "sum_of md5 secret bs = string_bytes (concat (map sprintf_02x (md5 (bs @ string_bytes secret))))"

text \<open>The data at \<open>path\<close> has its size and the sum that is stored at \<open>md5_path\<close>.\<close>

definition intact :: "md5_fun \<Rightarrow> string \<Rightarrow> nat \<Rightarrow> string \<Rightarrow> string \<Rightarrow> file_world \<Rightarrow> bool" where
  "intact md5 secret sz path md5_path s \<longleftrightarrow> (\<exists>bs h. files s path = Some bs \<and> length bs = sz \<and> files s md5_path = Some h \<and>
     take (2 * MD5_DIGEST_LENGTH) h = sum_of md5 secret bs)"

lemma hex_digit_nonzero: "n < 16 \<Longrightarrow> char_byte (hex_digit n) \<noteq> 0"
proof
  assume "n < 16" and "char_byte (hex_digit n) = 0"
  then have "char_byte (hex_digit n) = char_byte (CHR 0x00)"
    by (simp add: char_byte_def)
  then show False
    using hex_digit_parse [OF \<open>n < 16\<close>] by (simp add: hex_value_def)
qed

lemma sprintf_02x_nonzero: "0 \<notin> set (string_bytes (sprintf_02x b))"
proof -
  have "unat b div 16 < 16"
    using unat_u8_less [of b] by (simp add: less_mult_imp_div_less)
  then show ?thesis
    using hex_digit_nonzero [of "unat b div 16"] hex_digit_nonzero [of "unat b mod 16"]
    by (auto simp: sprintf_02x_def string_bytes_def)
qed

lemma sum_of_nonzero: "0 \<notin> set (sum_of md5 secret bs)"
  using sprintf_02x_nonzero by (auto simp: sum_of_def string_bytes_def)

lemma length_sum_of: "digest_ok md5 \<Longrightarrow> length (sum_of md5 secret bs) = 2 * MD5_DIGEST_LENGTH"
  by (simp add: sum_of_def digest_ok_def length_concat sprintf_02x_def comp_def sum_list_triv)

lemma strncmp_strndup:
  assumes "0 \<notin> set h" and "length h \<le> length buffer"
  shows "strncmp_zero h (strndup buffer (length h)) (length h) \<longleftrightarrow> take (length h) buffer = h"
proof
  define w where "w = strndup buffer (length h)"
  assume "strncmp_zero h (strndup buffer (length h)) (length h)"
  then have eq: "take (length h) (w @ [0]) = h"
    by (simp add: strncmp_zero_def w_def)
  have len: "length w \<le> length h"
    unfolding w_def strndup_def by (rule le_trans [OF length_takeWhile_le]) simp
  have "length w = length h"
  proof (rule ccontr)
    assume "length w \<noteq> length h"
    then have less: "length w < length h"
      using len by simp
    then have "take (length h) (w @ [0]) ! length w = 0"
      by simp
    then have "h ! length w = 0"
      unfolding eq .
    then show False
      using assms(1) nth_mem [OF less] by simp
  qed
  then have "w = h"
    using eq by (metis append_eq_conv_conj)
  moreover have "w = take (length w) (take (length h) buffer)"
    unfolding w_def strndup_def by (rule takeWhile_eq_take)
  ultimately show "take (length h) buffer = h"
    by simp
next
  assume "take (length h) buffer = h"
  then show "strncmp_zero h (strndup buffer (length h)) (length h)"
    using assms(1) by (simp add: strncmp_zero_def strndup_def takeWhile_nonzero)
qed


text \<open>Steps that leave all files but those of \<open>Q\<close> alone.\<close>

definition kept :: "string set \<Rightarrow> file_world \<Rightarrow> file_world \<Rightarrow> bool" where
  "kept Q s s' \<longleftrightarrow> (no_faults s \<longrightarrow> no_faults s') \<and> (\<forall>q. q \<notin> Q \<longrightarrow> files s' q = files s q)"

lemma kept_refl [simp]: "kept Q s s"
  by (simp add: kept_def)

lemma kept_trans: "kept Q s t \<Longrightarrow> kept Q t u \<Longrightarrow> kept Q s u"
  by (simp add: kept_def)

lemma kept_mono: "kept Q s t \<Longrightarrow> Q \<subseteq> R \<Longrightarrow> kept R s t"
  by (auto simp: kept_def)

lemma kept_all: "kept {} s t \<Longrightarrow> files t = files s"
  by (auto simp: kept_def)

lemma kept_ok_then: "kept Q s (snd r) \<Longrightarrow> (\<And>u. kept Q u (snd (f u))) \<Longrightarrow> kept Q s (snd (ok_then r f))"
  by (auto simp: ok_then_def intro: kept_trans)

lemma kept_found_then: "kept Q s (snd r) \<Longrightarrow> (\<And>x u. kept Q u (snd (f x u))) \<Longrightarrow> kept Q s (snd (found_then r f))"
  by (auto simp: found_then_def intro: kept_trans split: option.splits)

lemma kept_read [simp]: "kept Q s (snd (file_data_read (Some path) sz c offset s))"
  using file_data_read_result [of path sz c offset s] by (cases "file_data_read (Some path) sz c offset s") (simp add: kept_def)

lemma kept_write: "path \<in> Q \<Longrightarrow> kept Q s (snd (file_data_write (Some path) data c offset s))"
  using file_data_write_result [of path data c offset s]
  by (cases "file_data_write (Some path) data c offset s") (auto simp: kept_def)

lemma kept_unlink: "path \<in> Q \<Longrightarrow> kept Q s (snd (sys_unlink path s))"
  by (auto simp: sys_unlink_def kept_def)

lemma kept_calculate [simp]: "kept Q s (snd (ipc_nv_data_md5_calculate md5 (Some path) (Some secret) sz c s))"
  using kept_read [of Q s path sz c 0]
  by (auto simp: ipc_nv_data_md5_calculate_def simp del: kept_read split: prod.splits option.splits)

lemma kept_rewrite: "path \<in> Q \<Longrightarrow> kept Q s (snd (rewrite_file (Some path) data c s))"
  using kept_trans [OF kept_unlink kept_write] by (simp add: rewrite_file_def)

lemma kept_path_check [simp]:
  "kept Q s (snd (ipc_nv_data_path_check client s))" "kept Q s (snd (ipc_nv_data_md5_path_check client s))"
  by (auto simp: ipc_nv_data_path_check_def ipc_nv_data_md5_path_check_def sys_stat_def Let_def kept_def split: option.splits)

lemma kept_matches [simp]: "kept Q s (snd (md5_matches md5 (Some path) (Some md5_path) (Some secret) sz c s))"
  by (auto simp: md5_matches_def Let_def intro!: kept_found_then)

lemma kept_check [simp]: "kept Q s (snd (ipc_nv_data_check md5 (nv_specs p m b bm sec sz c) s))"
  by (auto simp: ipc_nv_data_check_def Let_def intro!: kept_ok_then)

lemma kept_backup: "b \<in> Q \<Longrightarrow> bm \<in> Q \<Longrightarrow> kept Q s (snd (ipc_nv_data_backup md5 (nv_specs p m b bm sec sz c) s))"
  by (auto simp: ipc_nv_data_backup_def Let_def intro!: kept_ok_then kept_found_then kept_rewrite)

lemma ok_then_zero: "fst (ok_then r f) = 0 \<longleftrightarrow> 0 \<le> fst r \<and> fst (f (snd r)) = 0"
  by (simp add: ok_then_def)

lemma found_then_zero: "fst (found_then r f) = 0 \<longleftrightarrow> (\<exists>x. fst r = Some x \<and> fst (f x (snd r)) = 0)"
  by (simp add: found_then_def split: option.splits)

lemma kept_content: "kept Q s t \<Longrightarrow> q \<notin> Q \<Longrightarrow> content q t = content q s"
  by (simp add: kept_def content_def)

lemma kept_readable: "kept Q s t \<Longrightarrow> q \<notin> Q \<Longrightarrow> readable q pos n t = readable q pos n s"
  by (simp add: kept_def readable_def)

lemma kept_faults: "kept Q s t \<Longrightarrow> no_faults s \<Longrightarrow> no_faults t"
  by (simp add: kept_def)

lemma read_Some:
  "fst (file_data_read (Some path) sz c 0 s) = Some d \<Longrightarrow> d = take sz (content path s) \<and> length d = sz \<and> readable path 0 sz s"
  using file_data_read_result [OF prod.collapse [symmetric], of path sz c 0 s]
  by (auto simp: readable_def content_def)

lemma read_ok_at:
  assumes "no_faults s" and "readable path (start_of offset) sz s" and "0 < c" and "c \<le> sz"
  shows "fst (file_data_read (Some path) sz c offset s) = Some (take sz (drop (start_of offset) (content path s)))"
proof -
  note r = file_data_read_result [OF prod.collapse [symmetric], of path sz c offset s]
  then obtain d where "fst (file_data_read (Some path) sz c offset s) = Some d"
    using assms by auto
  with r show ?thesis
    by simp
qed

lemma read_ok:
  "no_faults s \<Longrightarrow> readable path 0 sz s \<Longrightarrow> 0 < c \<Longrightarrow> c \<le> sz \<Longrightarrow>
   fst (file_data_read (Some path) sz c 0 s) = Some (take sz (content path s))"
  using read_ok_at [of s path 0 sz c] by simp

lemma calculate_fst:
  assumes "digest_ok md5"
  shows "fst (ipc_nv_data_md5_calculate md5 (Some path) (Some secret) sz c s) =
    map_option (\<lambda>d. concat (map sprintf_02x (md5 (d @ string_bytes secret)))) (fst (file_data_read (Some path) sz c 0 s))"
proof -
  have "md5 x \<noteq> []" for x
    using assms by (auto simp: digest_ok_def MD5_DIGEST_LENGTH_def dest!: spec [of _ x])
  then show ?thesis
    by (simp add: ipc_nv_data_md5_calculate_def data2string_def split: prod.splits option.splits)
qed

lemma length_sum: "digest_ok md5 \<Longrightarrow> length (concat (map sprintf_02x (md5 x))) = 2 * MD5_DIGEST_LENGTH"
  by (simp add: digest_ok_def length_concat sprintf_02x_def comp_def sum_list_triv)

lemma readable_digest: "take n (content m s) = h \<Longrightarrow> length h = n \<Longrightarrow> 0 < n \<Longrightarrow> readable m 0 n s"
  by (auto simp: readable_def content_def split: option.splits dest: arg_cong [of _ _ length])

lemma md5_matches_zero:
  assumes "digest_ok md5"
  shows "fst (md5_matches md5 (Some path) (Some m) (Some secret) sz c s) = 0 \<Longrightarrow>
      readable path 0 sz s \<and> take (2 * MD5_DIGEST_LENGTH) (content m s) = sum_of md5 secret (take sz (content path s))"
    and "no_faults s \<Longrightarrow> readable path 0 sz s \<Longrightarrow> 0 < c \<Longrightarrow> c \<le> sz \<Longrightarrow>
      take (2 * MD5_DIGEST_LENGTH) (content m s) = sum_of md5 secret (take sz (content path s)) \<Longrightarrow>
      fst (md5_matches md5 (Some path) (Some m) (Some secret) sz c s) = 0"
proof -
  let ?n = "2 * MD5_DIGEST_LENGTH" and ?h = "sum_of md5 secret (take sz (content path s))"
  let ?t = "snd (ipc_nv_data_md5_calculate md5 (Some path) (Some secret) sz c s)"
  have t: "content m ?t = content m s" "readable m 0 ?n ?t = readable m 0 ?n s" "no_faults s \<Longrightarrow> no_faults ?t"
    using kept_content [OF kept_calculate, of m "{}"] kept_readable [OF kept_calculate, of m "{}"]
      kept_faults [OF kept_calculate] by simp_all
  have len: "length ?h = ?n" "0 \<notin> set ?h"
    using length_sum_of [OF assms] sum_of_nonzero by simp_all
  have cmp: "strncmp_zero ?h (strndup buffer ?n) ?n \<longleftrightarrow> take ?n buffer = ?h" if "length buffer = ?n" for buffer
    using strncmp_strndup [OF len(2), of buffer] len(1) that by simp
  show "readable path 0 sz s \<and> take ?n (content m s) = ?h" if "fst (md5_matches md5 (Some path) (Some m) (Some secret) sz c s) = 0"
    using that length_sum [OF assms] cmp t
    by (auto simp: md5_matches_def found_then_zero calculate_fst [OF assms] Let_def sum_of_def
      dest!: read_Some split: if_splits)
  show "fst (md5_matches md5 (Some path) (Some m) (Some secret) sz c s) = 0"
    if "no_faults s" "readable path 0 sz s" "0 < c" "c \<le> sz" "take ?n (content m s) = ?h"
  proof -
    have "readable m 0 ?n ?t"
      using readable_digest [OF that(5) len(1)] t by (simp add: MD5_DIGEST_LENGTH_def)
    then have "fst (file_data_read (Some m) ?n ?n 0 ?t) = Some ?h"
      using read_ok [of ?t m ?n ?n] t that by (simp add: MD5_DIGEST_LENGTH_def)
    then show ?thesis
      using cmp [of ?h] len(1) read_ok [OF that(1-4)] length_sum [OF assms]
      by (simp add: md5_matches_def found_then_zero calculate_fst [OF assms] Let_def sum_of_def)
  qed
qed

lemma path_check_fst:
  "0 \<le> fst (ipc_nv_data_path_check (nv_specs p m b bm sec sz c) s) \<Longrightarrow> (\<exists>bs. files s p = Some bs \<and> length bs = sz) \<and> sz \<noteq> 0"
  "no_faults s \<Longrightarrow> files s p = Some bs \<Longrightarrow> length bs = sz \<Longrightarrow> sz \<noteq> 0 \<Longrightarrow>
    fst (ipc_nv_data_path_check (nv_specs p m b bm sec sz c) s) = 0"
  "no_faults s \<Longrightarrow> files s m = Some h \<Longrightarrow> 2 * MD5_DIGEST_LENGTH \<le> length h \<Longrightarrow>
    fst (ipc_nv_data_md5_path_check (nv_specs p m b bm sec sz c) s) = 0"
  using no_faults_result [of s]
  by (auto simp: ipc_nv_data_path_check_def ipc_nv_data_md5_path_check_def sys_stat_def Let_def split: if_splits option.splits)

lemma intact_files: "files t = files s \<Longrightarrow> intact md5 sec sz p m t = intact md5 sec sz p m s"
  by (simp add: intact_def)

lemma nv_check_sound:
  assumes "digest_ok md5" and "fst (ipc_nv_data_check md5 (nv_specs p m b bm sec sz c) s) = 0"
  shows "intact md5 sec sz p m s"
proof -
  let ?t = "snd (ipc_nv_data_path_check (nv_specs p m b bm sec sz c) s)"
  let ?u = "snd (ipc_nv_data_md5_path_check (nv_specs p m b bm sec sz c) ?t)"
  have "kept {} s ?u"
    by (rule kept_trans [OF kept_path_check(1) kept_path_check(2)])
  then have u: "content q ?u = content q s" "readable q pos n ?u = readable q pos n s" for q pos n
    using kept_content kept_readable by auto
  have zero: "0 \<le> fst (ipc_nv_data_path_check (nv_specs p m b bm sec sz c) s)"
    "fst (md5_matches md5 (Some p) (Some m) (Some sec) sz c ?u) = 0"
    using assms(2) by (auto simp: ipc_nv_data_check_def Let_def ok_then_zero split: if_splits)
  obtain bs where "files s p = Some bs" "length bs = sz"
    using path_check_fst(1) [OF zero(1)] by auto
  moreover from md5_matches_zero(1) [OF assms(1) zero(2)] have eq: "take (2 * MD5_DIGEST_LENGTH) (content m s) = sum_of md5 sec (take sz (content p s))"
    by (simp add: u)
  then have "files s m \<noteq> None"
    using readable_digest [OF eq length_sum_of [OF assms(1)]] by (auto simp: readable_def MD5_DIGEST_LENGTH_def)
  ultimately show ?thesis
    using eq by (auto simp: intact_def content_def)
qed

lemma nv_check_complete:
  assumes "digest_ok md5" and "no_faults s" and "intact md5 sec sz p m s" and "0 < c" and "c \<le> sz"
  shows "fst (ipc_nv_data_check md5 (nv_specs p m b bm sec sz c) s) = 0"
proof -
  let ?t = "snd (ipc_nv_data_path_check (nv_specs p m b bm sec sz c) s)"
  let ?u = "snd (ipc_nv_data_md5_path_check (nv_specs p m b bm sec sz c) ?t)"
  obtain bs h where f: "files s p = Some bs" "length bs = sz" "files s m = Some h"
    "take (2 * MD5_DIGEST_LENGTH) h = sum_of md5 sec bs"
    using assms(3) by (auto simp: intact_def)
  then have "2 * MD5_DIGEST_LENGTH \<le> length h"
    using length_sum_of [OF assms(1), of sec bs] by (metis length_take min.cobounded1)
  moreover have tu: "kept {} s ?t" "kept {} s ?u"
    by (simp, rule kept_trans [OF kept_path_check(1) kept_path_check(2)])
  moreover have "readable p 0 sz ?u" "take (2 * MD5_DIGEST_LENGTH) (content m ?u) = sum_of md5 sec (take sz (content p ?u))"
    using f kept_all [OF tu(2)] by (simp_all add: readable_def content_def)
  moreover have "no_faults ?t" "no_faults ?u"
    by (rule kept_faults [OF tu(1) assms(2)], rule kept_faults [OF tu(2) assms(2)])
  moreover have "fst (ipc_nv_data_path_check (nv_specs p m b bm sec sz c) s) = 0"
    using path_check_fst(2) [OF assms(2) f(1,2)] assms(4,5) by simp
  moreover have "fst (ipc_nv_data_md5_path_check (nv_specs p m b bm sec sz c) ?t) = 0"
    using path_check_fst(3) [of ?t m h] calculation f(3) kept_all [OF tu(1)] by simp
  ultimately show ?thesis
    using md5_matches_zero(2) [OF assms(1), of ?u p sz c m sec] assms(4,5)
    by (simp add: ipc_nv_data_check_def Let_def ok_then_zero)
qed

lemma rewrite_ok:
  assumes "no_faults s" and "0 < c" and "c \<le> length data"
  shows "fst (rewrite_file (Some path) data c s) = 0 \<and> files (snd (rewrite_file (Some path) data c s)) path = Some data"
proof -
  let ?t = "snd (sys_unlink path s)"
  have "no_faults ?t" "content path ?t = []"
    using assms(1) no_faults_result [of s] by (auto simp: sys_unlink_def content_def split: option.splits)
  then show ?thesis
    using file_data_write_result [OF prod.collapse [symmetric], of path data c 0 ?t] assms(2,3)
    by (auto simp: rewrite_file_def)
qed

text \<open>The backup has the same check as the data.\<close>

lemma backup_path_check_eq:
  "ipc_nv_data_backup_path_check (nv_specs p m b bm sec sz c) = ipc_nv_data_path_check (nv_specs b bm p m sec sz c)"
  "ipc_nv_data_backup_md5_path_check (nv_specs p m b bm sec sz c) = ipc_nv_data_md5_path_check (nv_specs b bm p m sec sz c)"
  by (auto simp: ipc_nv_data_backup_path_check_def ipc_nv_data_path_check_def ipc_nv_data_backup_md5_path_check_def
    ipc_nv_data_md5_path_check_def)

lemma backup_check_eq:
  "ipc_nv_data_backup_check md5 (nv_specs p m b bm sec sz c) = ipc_nv_data_check md5 (nv_specs b bm p m sec sz c)"
  by (intro ext) (simp add: ipc_nv_data_backup_check_def ipc_nv_data_check_def backup_path_check_eq)

lemma nv_check_range: "fst (ipc_nv_data_check md5 client s) = 0 \<or> fst (ipc_nv_data_check md5 client s) = -1"
  by (simp add: ipc_nv_data_check_def md5_matches_def Let_def ok_then_def found_then_def split: option.splits)

lemma nv_restore_ok:
  assumes "digest_ok md5" and "no_faults s" and "intact md5 sec sz b bm s" and "0 < c" and "c \<le> sz" and "distinct [p, m, b, bm]"
  shows "fst (ipc_nv_data_restore md5 (nv_specs p m b bm sec sz c) s) = 0"
    and "kept {p, m} s (snd (ipc_nv_data_restore md5 (nv_specs p m b bm sec sz c) s))"
    and "files (snd (ipc_nv_data_restore md5 (nv_specs p m b bm sec sz c) s)) p = files s b"
    and "intact md5 sec sz p m (snd (ipc_nv_data_restore md5 (nv_specs p m b bm sec sz c) s))"
proof -
  let ?n = "2 * MD5_DIGEST_LENGTH"
  obtain bs h where f: "files s b = Some bs" "length bs = sz" "files s bm = Some h" "take ?n h = sum_of md5 sec bs"
    using assms(3) by (auto simp: intact_def)
  have len: "?n \<le> length h" "0 < ?n"
    using f(4) length_sum_of [OF assms(1), of sec bs] by (metis length_take min.cobounded1, simp add: MD5_DIGEST_LENGTH_def)
  define t1 where "t1 = snd (ipc_nv_data_check md5 (nv_specs b bm p m sec sz c) s)"
  define t2 where "t2 = snd (file_data_read (Some b) sz c 0 t1)"
  define t3 where "t3 = snd (rewrite_file (Some p) bs c t2)"
  define t4 where "t4 = snd (file_data_read (Some bm) ?n ?n 0 t3)"
  define t5 where "t5 = snd (rewrite_file (Some m) (take ?n h) ?n t4)"
  have k: "kept {} s t1" "kept {} t1 t2" "kept {p} t2 t3" "kept {} t3 t4" "kept {m} t4 t5"
    by (simp_all add: t1_def t2_def t3_def t4_def t5_def kept_rewrite)
  have nf: "no_faults t1" "no_faults t2" "no_faults t3" "no_faults t4"
    using kept_faults assms(2) k by blast+
  have files: "files t1 = files s" "files t2 = files s" "files t4 = files t3" "\<And>q. q \<noteq> p \<Longrightarrow> files t3 q = files s q"
    "\<And>q. q \<noteq> m \<Longrightarrow> files t5 q = files t4 q"
    using k(3,5) kept_all [OF k(1)] kept_all [OF k(2)] kept_all [OF k(4)] by (simp_all add: kept_def)
  have 1: "fst (ipc_nv_data_check md5 (nv_specs b bm p m sec sz c) s) = 0"
    by (rule nv_check_complete [OF assms(1-5)])
  have 2: "fst (file_data_read (Some b) sz c 0 t1) = Some bs"
    using read_ok [OF nf(1), of b sz c] f assms(4,5) files(1) by (simp add: readable_def content_def)
  have 3: "fst (rewrite_file (Some p) bs c t2) = 0" "files t3 p = Some bs"
    using rewrite_ok [OF nf(2) assms(4), of bs p] f(2) assms(5) by (simp_all add: t3_def)
  have "files t3 bm = Some h"
    using files(4) [of bm] f(3) assms(6) by auto
  then have 4: "fst (file_data_read (Some bm) ?n ?n 0 t3) = Some (take ?n h)"
    using read_ok [OF nf(3), of bm ?n ?n] len by (simp add: readable_def content_def)
  have 5: "fst (rewrite_file (Some m) (take ?n h) ?n t4) = 0" "files t5 m = Some (take ?n h)"
    using rewrite_ok [OF nf(4) len(2), of "take ?n h" m] len(1) by (simp_all add: t5_def)
  have run: "ipc_nv_data_restore md5 (nv_specs p m b bm sec sz c) s = (0, t5)"
    unfolding ipc_nv_data_restore_def Let_def backup_check_eq
    using assms(4,5) 1 2 3(1) 4 5(1) t1_def t2_def t3_def t4_def t5_def by (simp add: ok_then_def found_then_def)
  show "fst (ipc_nv_data_restore md5 (nv_specs p m b bm sec sz c) s) = 0"
    by (simp add: run)
  show "kept {p, m} s (snd (ipc_nv_data_restore md5 (nv_specs p m b bm sec sz c) s))"
    using k by (simp add: run kept_def)
  show "files (snd (ipc_nv_data_restore md5 (nv_specs p m b bm sec sz c) s)) p = files s b"
    using files(3) files(5) [of p] 3(2) f(1) assms(6) by (simp add: run)
  then show "intact md5 sec sz p m (snd (ipc_nv_data_restore md5 (nv_specs p m b bm sec sz c) s))"
    using f 5(2) length_sum_of [OF assms(1)] by (simp add: run intact_def)
qed

lemma nv_load_sound:
  assumes "digest_ok md5" and "distinct [p, m, b, bm]"
    and "ipc_nv_data_load md5 (nv_specs p m b bm sec sz c) s = (Some data, s')"
  shows "intact md5 sec sz p m s' \<and> files s' p = Some data"
proof -
  let ?cl = "nv_specs p m b bm sec sz c"
  obtain r1 t1 where 1: "(if fst (ipc_nv_data_check md5 ?cl s) < 0
      then ok_then (ipc_nv_data_restore md5 ?cl (snd (ipc_nv_data_check md5 ?cl s))) (ipc_nv_data_check md5 ?cl)
      else ipc_nv_data_check md5 ?cl s) = (r1, t1)"
    by fastforce
  define t2 where "t2 = snd (ipc_nv_data_backup_path_check ?cl t1)"
  define t3 where "t3 = (if fst (ipc_nv_data_backup_path_check ?cl t1) < 0 then snd (ipc_nv_data_backup md5 ?cl t2) else t2)"
  have run: "\<not> r1 < 0" "file_data_read (Some p) sz c 0 t3 = (Some data, s')"
    using assms(3) 1 by (auto simp: ipc_nv_data_load_def Let_def t2_def t3_def split_beta split: if_splits)
  have "\<exists>u. ipc_nv_data_check md5 ?cl u = (r1, t1)"
    using 1 run(1) by (auto simp: ok_then_def split: if_splits)
  then obtain u where u: "ipc_nv_data_check md5 ?cl u = (r1, t1)"
    by blast
  then have "intact md5 sec sz p m u"
    using nv_check_sound [OF assms(1), of p m b bm sec sz c u] nv_check_range [of md5 ?cl u] run(1) by auto
  then have t1: "intact md5 sec sz p m t1"
    using u kept_all [OF kept_check, of md5 p m b bm sec sz c u] by (simp add: intact_def)
  have "kept {b, bm} t1 t3"
    using kept_trans [OF kept_path_check(1) kept_backup, of b "{b, bm}" bm t1]
    by (auto simp: t3_def t2_def backup_path_check_eq)
  then have t3: "files t3 p = files t1 p" "files t3 m = files t1 m"
    using assms(2) by (auto simp: kept_def)
  have s': "files s' = files t3" "data = take sz (content p t3)"
    using kept_all [OF kept_read, of p sz c 0 t3] read_Some [of p sz c t3 data] run(2) by simp_all
  obtain bs where "files t1 p = Some bs" "length bs = sz"
    using t1 by (auto simp: intact_def)
  then show ?thesis
    using t1 t3 s' by (simp add: intact_def content_def)
qed

subsection \<open>Properties\<close>

text \<open>C6. Only verified data is loaded: whatever system calls fail or transfer short, data that \<open>ipc_nv_data_load\<close> returns is the whole content of
  the data file at that time, has the configured size, and its sum with the secret is the one that is stored beside it. The backup that may be made on the
  way does not touch either file.\<close>

theorem nv_load_verified:
  assumes "digest_ok md5" and "distinct [p, m, b, bm]"
    and "ipc_nv_data_load md5 (nv_specs p m b bm sec sz c) s = (Some data, s')"
  shows "intact md5 sec sz p m s' \<and> files s' p = Some data"
  using assms by (rule nv_load_sound)

lemma nv_load_from_backup:
  assumes "digest_ok md5" and "no_faults s" and "distinct [p, m, b, bm]" and "0 < c" and "c \<le> sz"
    and "\<not> intact md5 sec sz p m s" and "intact md5 sec sz b bm s"
  shows "\<exists>s'. ipc_nv_data_load md5 (nv_specs p m b bm sec sz c) s = (files s b, s') \<and>
    files s' p = files s b \<and> intact md5 sec sz p m s' \<and> intact md5 sec sz b bm s'"
proof -
  let ?cl = "nv_specs p m b bm sec sz c"
  define t1 where "t1 = snd (ipc_nv_data_check md5 ?cl s)"
  define t2 where "t2 = snd (ipc_nv_data_restore md5 ?cl t1)"
  define t3 where "t3 = snd (ipc_nv_data_check md5 ?cl t2)"
  define t4 where "t4 = snd (ipc_nv_data_path_check (nv_specs b bm p m sec sz c) t3)"
  have 1: "fst (ipc_nv_data_check md5 ?cl s) = -1"
    using nv_check_sound [OF assms(1)] nv_check_range [of md5 ?cl s] assms(6) by blast
  have k1: "files t1 = files s" "no_faults t1"
    using kept_all [OF kept_check] kept_faults [OF kept_check assms(2)] by (simp_all add: t1_def)
  then have "intact md5 sec sz b bm t1"
    using assms(7) by (simp add: intact_def)
  note restore = nv_restore_ok [OF assms(1) k1(2) this assms(4,5,3), folded t2_def]
  have nf2: "no_faults t2" and b2: "intact md5 sec sz b bm t2"
    using kept_faults [OF restore(2) k1(2)] restore(2) assms(3,7) k1(1) by (auto simp: kept_def intact_def)
  have 3: "fst (ipc_nv_data_check md5 ?cl t2) = 0"
    by (rule nv_check_complete [OF assms(1) nf2 restore(4) assms(4,5)])
  have k3: "files t3 = files t2" "no_faults t3"
    using kept_all [OF kept_check] kept_faults [OF kept_check nf2] by (simp_all add: t3_def)
  obtain bs where bs: "files s b = Some bs" "length bs = sz"
    using assms(7) by (auto simp: intact_def)
  have "files t2 b = files s b"
    using restore(2) assms(3) k1(1) by (auto simp: kept_def)
  then have 4: "fst (ipc_nv_data_path_check (nv_specs b bm p m sec sz c) t3) = 0"
    using path_check_fst(2) [OF k3(2), of b bs sz] k3(1) bs assms(4,5) by simp
  have k4: "files t4 = files t2" "no_faults t4"
    using kept_all [OF kept_path_check(1)] kept_faults [OF kept_path_check(1) k3(2)] k3(1) by (simp_all add: t4_def)
  have p4: "files t4 p = Some bs"
    using k4(1) restore(3) k1(1) bs(1) by simp
  then have 5: "fst (file_data_read (Some p) sz c 0 t4) = Some bs"
    using read_ok [OF k4(2), of p sz c] bs(2) assms(4,5) by (simp add: readable_def content_def)
  have "ipc_nv_data_load md5 ?cl s = (Some bs, snd (file_data_read (Some p) sz c 0 t4))"
    using 1 restore(1) 3 4 5 assms(4,5)
    by (simp add: ipc_nv_data_load_def Let_def split_beta ok_then_def backup_path_check_eq prod_eq_iff
      flip: t1_def t2_def t3_def t4_def)
  moreover have "files (snd (file_data_read (Some p) sz c 0 t4)) = files t2"
    using kept_all [OF kept_read] k4(1) by simp
  ultimately show ?thesis
    using p4 k4(1) bs(1) restore(4) b2 by (auto simp: intact_def)
qed

text \<open>C34. Damaged data heals: when the data does not match its sum and the backup does, loading without further faults returns the data of the
  backup, and afterwards both the data and the backup are intact, so that the next load needs no restoration.\<close>

theorem nv_load_restores:
  assumes "digest_ok md5" and "no_faults s" and "distinct [p, m, b, bm]" and "0 < c" and "c \<le> sz"
    and "\<not> intact md5 sec sz p m s" and "intact md5 sec sz b bm s"
  shows "\<exists>s'. ipc_nv_data_load md5 (nv_specs p m b bm sec sz c) s = (files s b, s') \<and>
    files s' p = files s b \<and> intact md5 sec sz p m s' \<and> intact md5 sec sz b bm s'"
  by (rule nv_load_from_backup [OF assms])

text \<open>What a write does, wherever its offset lies.\<close>

lemma nv_write_effect:
  assumes "digest_ok md5" and "no_faults s" and "p \<noteq> m" and "0 < c" and "c \<le> sz" and "files s p = Some old" and "length old = sz"
    and "files s m \<noteq> None" and "data \<noteq> []"
  shows "\<exists>s'. ipc_nv_data_write md5 (nv_specs p m b bm sec sz c) data offset s = (0, s') \<and> no_faults s' \<and> kept {p, m} s s' \<and>
    files s' p = Some (overwrite (start_of offset) data old) \<and>
    files s' m = Some (sum_of md5 sec (take sz (overwrite (start_of offset) data old)))"
proof -
  let ?cl = "nv_specs p m b bm sec sz c" and ?c = "if c > length data then length data else c"
  let ?new = "overwrite (start_of offset) data old"
  define t1 where "t1 = snd (ipc_nv_data_path_check ?cl s)"
  define t2 where "t2 = snd (file_data_write (Some p) data ?c offset t1)"
  define t3 where "t3 = snd (ipc_nv_data_md5_calculate md5 (Some p) (Some sec) sz c t2)"
  define t4 where "t4 = snd (sys_unlink m t3)"
  define h where "h = concat (map sprintf_02x (md5 (take sz ?new @ string_bytes sec)))"
  define t5 where "t5 = snd (file_data_write (Some m) (string_bytes h) (length h) 0 t4)"
  have k: "kept {} s t1" "kept {p} t1 t2" "kept {} t2 t3" "kept {m} t3 t4" "kept {m} t4 t5"
    by (simp_all add: t1_def t2_def t3_def t4_def t5_def kept_write kept_unlink)
  have nf: "no_faults t1" "no_faults t2" "no_faults t3" "no_faults t4" "no_faults t5"
    using kept_faults assms(2) k by blast+
  have 1: "fst (ipc_nv_data_path_check ?cl s) = 0"
    using path_check_fst(2) [OF assms(2,6,7)] assms(4,5) by simp
  have 2: "fst (file_data_write (Some p) data ?c offset t1) = 0" "files t2 p = Some ?new"
    using file_data_write_result [OF prod.collapse [symmetric], of p data ?c offset t1] nf(1) assms(4,6,9) kept_all [OF k(1)]
    by (auto simp: t2_def content_def split: if_splits)
  have "readable p 0 sz t2"
    using 2(2) assms(7,9) by (simp add: readable_def length_overwrite)
  then have 3: "fst (ipc_nv_data_md5_calculate md5 (Some p) (Some sec) sz c t2) = Some h"
    using read_ok [OF nf(2)] assms(4,5) 2(2) by (simp add: calculate_fst [OF assms(1)] h_def content_def)
  have m3: "files t3 m = files s m"
    using kept_all [OF k(1)] kept_all [OF k(3)] k(2) assms(3) by (simp add: kept_def)
  then have 4: "fst (sys_unlink m t3) = 0" "files t4 m = None"
    using assms(8) no_faults_result [OF nf(3)] by (auto simp: t4_def sys_unlink_def)
  have len: "0 < length h"
    using length_sum [OF assms(1)] by (simp add: h_def MD5_DIGEST_LENGTH_def)
  have 5: "fst (file_data_write (Some m) (string_bytes h) (length h) 0 t4) = 0" "files t5 m = Some (string_bytes h)"
    using file_data_write_result [OF prod.collapse [symmetric], of m "string_bytes h" "length h" 0 t4] nf(4) len 4(2)
    by (auto simp: t5_def content_def)
  have "ipc_nv_data_write md5 ?cl data offset s = (0, t5)"
    unfolding ipc_nv_data_write_def Let_def
    using assms(4,5) 1 2(1) 3 4(1) 5(1) t1_def t2_def t3_def t4_def t5_def
    by (cases "length data < c") (simp_all add: ok_then_def found_then_def)
  moreover have "files t5 p = Some ?new"
    using 2(2) kept_all [OF k(3)] k(4,5) assms(3) by (simp add: kept_def)
  moreover have "kept {p, m} s t5"
    using k by (simp add: kept_def)
  ultimately show ?thesis
    using nf(5) 5(2) by (auto simp: sum_of_def h_def)
qed

lemma nv_write_inside:
  assumes "digest_ok md5" and "no_faults s" and "p \<noteq> m" and "0 < c" and "c \<le> sz" and "intact md5 sec sz p m s" and "data \<noteq> []"
    and "unat offset + length data \<le> sz" and "unat offset < 2 ^ 31"
  shows "\<exists>s'. ipc_nv_data_write md5 (nv_specs p m b bm sec sz c) data offset s = (0, s') \<and> intact md5 sec sz p m s' \<and>
    content p s' = overwrite (unat offset) data (content p s) \<and>
    fst (ipc_nv_data_read (nv_specs p m b bm sec sz c) (length data) offset s') = Some data"
proof -
  let ?cl = "nv_specs p m b bm sec sz c" and ?c = "if c > length data then length data else c"
  obtain old where old: "files s p = Some old" "length old = sz" "files s m \<noteq> None"
    using assms(6) by (auto simp: intact_def)
  let ?new = "overwrite (unat offset) data old"
  have new: "length ?new = sz"
    using assms(7,8) old(2) by (simp add: length_overwrite)
  obtain s' where s': "ipc_nv_data_write md5 ?cl data offset s = (0, s')" "no_faults s'" "files s' p = Some ?new"
    "files s' m = Some (sum_of md5 sec (take sz ?new))"
    using nv_write_effect [OF assms(1-5) old assms(7)] start_of_small [OF assms(9)] by metis
  have int: "intact md5 sec sz p m s'"
    using s'(3,4) new length_sum_of [OF assms(1)] by (simp add: intact_def)
  define t where "t = snd (ipc_nv_data_path_check ?cl s')"
  have t: "fst (ipc_nv_data_path_check ?cl s') = 0" "files t = files s'" "no_faults t"
    using path_check_fst(2) [OF s'(2,3) new] assms(4,5) kept_all [OF kept_path_check(1)] kept_faults [OF kept_path_check(1) s'(2)]
    by (simp_all add: t_def)
  have "readable p (unat offset) (length data) t"
    using t(2) s'(3) new assms(8) by (simp add: readable_def)
  then have "fst (file_data_read (Some p) (length data) ?c offset t) = Some (take (length data) (drop (unat offset) (content p t)))"
    using read_ok_at [OF t(3), of p offset "length data" ?c] start_of_small [OF assms(9)] assms(4,7) by simp
  then have "fst (ipc_nv_data_read ?cl (length data) offset s') = Some data"
    using t s'(3) assms(4) overwrite_slice [of data "unat offset" old]
    by (simp add: ipc_nv_data_read_def Let_def split_beta content_def flip: t_def)
  then show ?thesis
    using s'(1,3) old(1) int by (simp add: content_def)
qed

text \<open>C33. A write inside the data keeps it intact and is read back: the file holds the old bytes with the new ones in place, its sum is renewed, and
  reading the same range returns what was written.\<close>

theorem nv_write_read_back:
  assumes "digest_ok md5" and "no_faults s" and "p \<noteq> m" and "0 < c" and "c \<le> sz" and "intact md5 sec sz p m s" and "data \<noteq> []"
    and "unat offset + length data \<le> sz" and "unat offset < 2 ^ 31"
  shows "\<exists>s'. ipc_nv_data_write md5 (nv_specs p m b bm sec sz c) data offset s = (0, s') \<and> intact md5 sec sz p m s' \<and>
    content p s' = overwrite (unat offset) data (content p s) \<and>
    fst (ipc_nv_data_read (nv_specs p m b bm sec sz c) (length data) offset s') = Some data"
  by (rule nv_write_inside [OF assms])

text \<open>The offset of a write is not checked. A write that reaches past the end is reported as done, but it makes the file longer than configured, and
  from then on every read and every write of the data fails. A write at \<open>2^31\<close> or beyond is reported as done too and overwrites the start of the data.\<close>

theorem nv_write_unchecked_offset:
  assumes "digest_ok md5" and "no_faults s" and "p \<noteq> m" and "0 < c" and "c \<le> sz" and "intact md5 sec sz p m s" and "data \<noteq> []"
  shows "\<exists>s'. ipc_nv_data_write md5 (nv_specs p m b bm sec sz c) data offset s = (0, s') \<and>
    (sint offset < 0 \<longrightarrow> content p s' = overwrite 0 data (content p s)) \<and>
    (sz < start_of offset + length data \<longrightarrow> (\<forall>n off d. fst (ipc_nv_data_read (nv_specs p m b bm sec sz c) n off s') = None \<and>
       fst (ipc_nv_data_write md5 (nv_specs p m b bm sec sz c) d off s') = -1))"
proof -
  let ?cl = "nv_specs p m b bm sec sz c"
  obtain old where old: "files s p = Some old" "length old = sz" "files s m \<noteq> None"
    using assms(6) by (auto simp: intact_def)
  obtain s' where s': "ipc_nv_data_write md5 ?cl data offset s = (0, s')" "files s' p = Some (overwrite (start_of offset) data old)"
    using nv_write_effect [OF assms(1-5) old assms(7)] by metis
  have "fst (ipc_nv_data_path_check ?cl s') < 0" if "sz < start_of offset + length data"
    using path_check_fst(1) [of p m b bm sec sz c s'] s'(2) that assms(7) by (fastforce simp: length_overwrite)
  then show ?thesis
    using s' old(1) assms(4)
    by (auto simp: ipc_nv_data_read_def ipc_nv_data_write_def Let_def split_beta ok_then_def content_def start_of_def)
qed

text \<open>A device with four bytes of data, and a sum that depends on the bytes.\<close>

definition toy_md5 :: md5_fun where
  "toy_md5 bs = sum_list bs # replicate 15 0"

definition toy_specs :: "ipc_client_nv_data_specs option" where
  "toy_specs = nv_specs ''nv'' ''nv.md5'' ''bak'' ''bak.md5'' ''x'' 4 2"

definition toy_files :: file_world where
  "toy_files = \<lparr>files = (\<lambda>_. None)(''nv'' \<mapsto> [1, 2, 3, 4], ''nv.md5'' \<mapsto> sum_of toy_md5 ''x'' [1, 2, 3, 4],
     ''bak'' \<mapsto> [5, 6, 7, 8], ''bak.md5'' \<mapsto> sum_of toy_md5 ''x'' [5, 6, 7, 8]), calls = [0, 1, 0, 0, 1]\<rparr>"

lemma toy_digest: "digest_ok toy_md5"
  by (simp add: digest_ok_def toy_md5_def MD5_DIGEST_LENGTH_def)

lemma toy_facts:
  "no_faults toy_files" "intact toy_md5 ''x'' 4 ''nv'' ''nv.md5'' toy_files" "intact toy_md5 ''x'' 4 ''bak'' ''bak.md5'' toy_files"
  using length_sum_of [OF toy_digest] by (simp_all add: no_faults_def toy_files_def intact_def)

theorem nv_write_read_back_witness:
  "fst (ipc_nv_data_read toy_specs 2 1 (snd (ipc_nv_data_write toy_md5 toy_specs [9, 9] 1 toy_files))) = Some [9, 9]"
proof -
  have "\<exists>s'. ipc_nv_data_write toy_md5 toy_specs [9, 9] 1 toy_files = (0, s') \<and> fst (ipc_nv_data_read toy_specs 2 1 s') = Some [9, 9]"
    using nv_write_read_back [OF toy_digest toy_facts(1), of "''nv''" "''nv.md5''" 2 4 "''x''" "[9, 9]" 1 "''bak''" "''bak.md5''"] toy_facts(2)
    unfolding toy_specs_def by (auto simp flip: numeral_2_eq_2)
  then show ?thesis
    by auto
qed

theorem nv_load_restores_witness:
  "fst (ipc_nv_data_load toy_md5 toy_specs (toy_files\<lparr>files := (files toy_files)(''nv'' := None)\<rparr>)) = Some [5, 6, 7, 8]"
proof -
  let ?s = "toy_files\<lparr>files := (files toy_files)(''nv'' := None)\<rparr>"
  have "\<not> intact toy_md5 ''x'' 4 ''nv'' ''nv.md5'' ?s" "intact toy_md5 ''x'' 4 ''bak'' ''bak.md5'' ?s" "no_faults ?s"
    using toy_facts by (simp_all add: intact_def)
  then have "\<exists>s'. ipc_nv_data_load toy_md5 toy_specs ?s = (files ?s ''bak'', s')"
    using nv_load_restores [OF toy_digest, of ?s "''nv''" "''nv.md5''" "''bak''" "''bak.md5''" 2 4 "''x''"]
    by (auto simp: toy_specs_def)
  then show ?thesis
    by (auto simp: toy_files_def)
qed

theorem nv_load_verified_witness:
  "\<exists>s'. intact toy_md5 ''x'' 4 ''nv'' ''nv.md5'' s' \<and> files s' ''nv'' = Some [5, 6, 7, 8]"
proof -
  let ?s = "toy_files\<lparr>files := (files toy_files)(''nv'' := None)\<rparr>"
  have "\<not> intact toy_md5 ''x'' 4 ''nv'' ''nv.md5'' ?s" "intact toy_md5 ''x'' 4 ''bak'' ''bak.md5'' ?s" "no_faults ?s"
    using toy_facts by (simp_all add: intact_def)
  then obtain s' where "ipc_nv_data_load toy_md5 toy_specs ?s = (Some [5, 6, 7, 8], s')"
    using nv_load_from_backup [OF toy_digest, of ?s "''nv''" "''nv.md5''" "''bak''" "''bak.md5''" 2 4 "''x''"]
    by (auto simp: toy_specs_def toy_files_def)
  then show ?thesis
    using nv_load_verified [OF toy_digest, of "''nv''" "''nv.md5''" "''bak''" "''bak.md5''" "''x''" 4 2 ?s]
    by (auto simp: toy_specs_def)
qed

theorem nv_write_unchecked_offset_witness:
  "content ''nv'' (snd (ipc_nv_data_write toy_md5 toy_specs [9] 0x80000000 toy_files)) = [9, 2, 3, 4] \<and>
   fst (ipc_nv_data_read toy_specs 1 0 (snd (ipc_nv_data_write toy_md5 toy_specs [9] 4 toy_files))) = None"
proof -
  note w = nv_write_unchecked_offset [OF toy_digest toy_facts(1), of "''nv''" "''nv.md5''" 2 4 "''x''" "[9]" "''bak''" "''bak.md5''"]
  have "content ''nv'' (snd (ipc_nv_data_write toy_md5 toy_specs [9] 0x80000000 toy_files)) = overwrite 0 [9] (content ''nv'' toy_files)"
    using w [of "0x80000000"] toy_facts(2) by (auto simp: toy_specs_def)
  moreover have "fst (ipc_nv_data_read toy_specs 1 0 (snd (ipc_nv_data_write toy_md5 toy_specs [9] 4 toy_files))) = None"
    using w [of 4] toy_facts(2) by (auto simp: toy_specs_def start_of_def)
  ultimately show ?thesis
    by (simp add: toy_files_def content_def overwrite_def)
qed

end
