(* ===== verification/Ril_Rfs.thy ===== *)
theory Ril_Rfs
  imports Client_Loop Ipc_Nv Ipc_Fmt
begin

section \<open>samsung-ril: the RFS client\<close>

text \<open>
  The client through which the modem reads and writes its data: the messages of \<open>samsung-ipc/rfs.c\<close>, the handlers of \<open>rfs.c\<close> and the part of \<open>ipc.c\<close> that
  creates, opens, closes, polls and dispatches for this client. Its state (\<open>struct ipc_rfs_data\<close> and the fields of its \<open>struct ril_client\<close>) is
  apart from the rest of the RIL, so it is a record of its own; \<open>rfs_io\<close> and \<open>rfs_trace\<close> are the results of the driver and the calls
  to it, as in \<open>ril_world\<close>.
\<close>

subsection \<open>Messages\<close>

definition IPC_RFS_NV_READ_ITEM :: u16 where "IPC_RFS_NV_READ_ITEM = 0x4201"
definition IPC_RFS_NV_WRITE_ITEM :: u16 where "IPC_RFS_NV_WRITE_ITEM = 0x4202"

text \<open>The offset and the length at the start of both requests.\<close>

fun nv_item_header :: "u8 list \<Rightarrow> (u32 \<times> u32) option" where
  "nv_item_header (a # b # c # d # e # f # g # h # _) = Some (le32 a b c d, le32 e f g h)"
| "nv_item_header _ = None"

definition nv_item_response :: "u8 \<Rightarrow> u32 \<Rightarrow> u32 \<Rightarrow> u8 list" where
  "nv_item_response confirm offset len = confirm # bytes32 offset @ bytes32 len"

text \<open>\<open>ipc_rfs_nv_data_item_size_setup\<close> adds the local variable \<open>size\<close> to itself before anything was assigned to it, so with data it is
  undefined.\<close>

definition ipc_rfs_nv_data_item_size_setup :: "u8 list \<Rightarrow> u8 list \<Rightarrow> nat option" where
  "ipc_rfs_nv_data_item_size_setup header nv_data = (if nv_data = [] then Some 0 else None)"

definition ipc_rfs_nv_read_item_setup :: "u8 list \<Rightarrow> u8 list \<Rightarrow> u8 list option" where
  "ipc_rfs_nv_read_item_setup header nv_data = (if nv_data = [] then Some [] else
     Option.bind (ipc_rfs_nv_data_item_size_setup header nv_data) (\<lambda>sz.
       if sz = 0 then Some [] else if sz < length (header @ nv_data) then None
       else Some (header @ nv_data @ replicate (sz - length (header @ nv_data)) 0)))"

definition ipc_rfs_nv_write_item_size_extract :: "u8 list \<Rightarrow> nat" where
  "ipc_rfs_nv_write_item_size_extract data = (case nv_item_header data of None \<Rightarrow> 0
     | Some (_, len) \<Rightarrow> if len = 0 \<or> unat len > length data - 8 then 0 else unat len)"

text \<open>The data of a write request, from the end of the header to the end of the message.\<close>

definition ipc_rfs_nv_write_item_extract :: "u8 list \<Rightarrow> u8 list option" where
  "ipc_rfs_nv_write_item_extract data = (case nv_item_header data of None \<Rightarrow> None
     | Some (_, len) \<Rightarrow> if len = 0 \<or> unat len > length data - 8 then None else Some (drop 8 data))"

subsection \<open>State\<close>

datatype rfs_event =
    Rfs_sent u8 u16 u8 "u8 list"       \<comment> \<open>a message written by \<open>ipc_client_send\<close>\<close>
  | Rfs_modem string                    \<comment> \<open>a call into the modem driver by name\<close>

record rfs_world =
  rfs_data :: bool
  rfs_available :: bool
  rfs_failures :: nat
  rfs_event_fd :: int
  rfs_event :: nat
  rfs_specs :: "ipc_client_nv_data_specs option"
  rfs_files :: file_world
  rfs_io :: "int list"
  rfs_trace :: "rfs_event list"

definition rfs_io_result :: "rfs_world \<Rightarrow> int" where
  "rfs_io_result s = (case rfs_io s of [] \<Rightarrow> 0 | r # _ \<Rightarrow> r)"

definition rfs_io_next :: "rfs_world \<Rightarrow> rfs_world" where
  "rfs_io_next s = s\<lparr>rfs_io := drop 1 (rfs_io s)\<rparr>"

definition rfs_emit :: "rfs_event \<Rightarrow> rfs_world \<Rightarrow> rfs_world" where
  "rfs_emit e s = s\<lparr>rfs_trace := rfs_trace s @ [e]\<rparr>"

definition rfs_driver :: "string \<Rightarrow> rfs_world \<Rightarrow> int \<times> rfs_world" where
  "rfs_driver name s = (rfs_io_result s, rfs_emit (Rfs_modem name) (rfs_io_next s))"

text \<open>Where data exists, its \<open>ipc_client\<close> is not \<open>NULL\<close>: \<open>ipc_rfs_create\<close> stores both or neither.\<close>

definition ipc_rfs_send :: "u8 \<Rightarrow> u16 \<Rightarrow> u8 list \<Rightarrow> rfs_world \<Rightarrow> int \<times> rfs_world" where
  "ipc_rfs_send mseq command data s =
     (if \<not> rfs_data s then (-1, s)
      else if rfs_event_fd s < 0 then (-1, s)
      else if \<not> rfs_available s then (-1, s)
      else
        let rc = rfs_io_result s; s = rfs_io_next s in
        if rc < 0 then (-1, s\<lparr>rfs_event := snd (eventfd_send IPC_CLIENT_IO_ERROR (rfs_event s))\<rparr>)
        else (0, rfs_emit (Rfs_sent mseq command 0x00 data) s))"

subsection \<open>Handlers (rfs.c)\<close>

definition ipc_rfs_nv_read_item :: "ipc_message \<Rightarrow> rfs_world \<Rightarrow> (int \<times> rfs_world) option" where
  "ipc_rfs_nv_read_item message s = (case nv_item_header (msg_data message) of None \<Rightarrow> Some (-1, s) | Some (offset, len) \<Rightarrow>
     if \<not> rfs_data s then Some (0, s)
     else (case ipc_nv_data_read (rfs_specs s) (unat len) offset (rfs_files s) of
         (None, fs) \<Rightarrow>
           let (_, s) = ipc_rfs_send (msg_aseq message) IPC_RFS_NV_READ_ITEM (nv_item_response 0 0 0) (s\<lparr>rfs_files := fs\<rparr>) in
           Some (0, s)
       | (Some nv_data, fs) \<Rightarrow>
           let s = s\<lparr>rfs_files := fs\<rparr>; header = nv_item_response 1 offset len in
           Option.bind (ipc_rfs_nv_data_item_size_setup header nv_data) (\<lambda>response_size.
           if response_size = 0 then Some (0, s)
           else Option.bind (ipc_rfs_nv_read_item_setup header nv_data) (\<lambda>response_data.
             if response_data = [] then Some (0, s)
             else let (_, s) = ipc_rfs_send (msg_aseq message) IPC_RFS_NV_READ_ITEM response_data s in Some (0, s)))))"

definition ipc_rfs_nv_write_item :: "md5_fun \<Rightarrow> ipc_message \<Rightarrow> rfs_world \<Rightarrow> (int \<times> rfs_world) option" where
  "ipc_rfs_nv_write_item md5 message s = (case nv_item_header (msg_data message) of None \<Rightarrow> Some (-1, s) | Some (offset, len) \<Rightarrow>
     if \<not> rfs_data s then Some (0, s)
     else if ipc_rfs_nv_write_item_size_extract (msg_data message) = 0 then Some (0, s)
     else (case ipc_rfs_nv_write_item_extract (msg_data message) of None \<Rightarrow> Some (0, s) | Some nv_data \<Rightarrow>
       if length nv_data < unat len then None
       else
         let (rc, fs) = ipc_nv_data_write md5 (rfs_specs s) (take (unat len) nv_data) offset (rfs_files s);
             s = s\<lparr>rfs_files := fs\<rparr>;
             data = (if rc < 0 then nv_item_response 0 0 0 else nv_item_response 1 offset len);
             (_, s) = ipc_rfs_send (msg_aseq message) IPC_RFS_NV_WRITE_ITEM data s in
         Some (0, s)))"

definition ipc_rfs_dispatch_handlers :: "md5_fun \<Rightarrow> (u16 \<times> (ipc_message \<Rightarrow> rfs_world \<Rightarrow> (int \<times> rfs_world) option)) list" where
  "ipc_rfs_dispatch_handlers md5 =
     [(IPC_RFS_NV_READ_ITEM, ipc_rfs_nv_read_item), (IPC_RFS_NV_WRITE_ITEM, ipc_rfs_nv_write_item md5)]"

subsection \<open>The client (ipc.c)\<close>

definition ipc_rfs_create :: "rfs_world \<Rightarrow> int \<times> rfs_world" where
  "ipc_rfs_create s =
     (let s = s\<lparr>rfs_available := False\<rparr>;
          event_fd = rfs_io_result s; s = rfs_io_next s in
      if event_fd < 0 then (-1, s)
      else
        let (rc, s) = rfs_driver ''client_create'' s in
        if rc < 0 then (-1, s)
        else
          let (rc, s) = rfs_driver ''data_create'' s in
          if rc < 0 then (-1, s)
          else (0, s\<lparr>rfs_data := True, rfs_event_fd := event_fd, rfs_event := 0\<rparr>))"

definition ipc_rfs_open :: "rfs_world \<Rightarrow> int \<times> rfs_world" where
  "ipc_rfs_open s =
     (if \<not> rfs_data s then (-1, s)
      else if rfs_event_fd s < 0 then (-1, s)
      else
        let (rc, s) = rfs_driver ''open'' s in
        if rc < 0 then (-1, s)
        else (0, s\<lparr>rfs_event := snd (eventfd_flush (rfs_event s)), rfs_available := True\<rparr>))"

definition ipc_rfs_close :: "rfs_world \<Rightarrow> int \<times> rfs_world" where
  "ipc_rfs_close s =
     (if \<not> rfs_data s then (-1, s)
      else if rfs_event_fd s < 0 then (-1, s)
      else
        let s = s\<lparr>rfs_available := False, rfs_event := snd (eventfd_send IPC_CLIENT_CLOSE (rfs_event s))\<rparr>;
            (rc, s) = rfs_driver ''close'' s in
        if rc < 0 then (-1, s)
        else
          let (rc, s) = rfs_driver ''power_off'' s in
          (if rc < 0 then -1 else 0, s))"

definition ipc_rfs_destroy :: "rfs_world \<Rightarrow> int \<times> rfs_world" where
  "ipc_rfs_destroy s =
     (if \<not> rfs_data s then (-1, s)
      else
        let s = (if rfs_available s then snd (ipc_rfs_close s) else s) in
        (0, s\<lparr>rfs_available := False, rfs_data := False\<rparr>))"

text \<open>\<open>ril_alive\<close> is whether \<open>ril_data\<close> exists.\<close>

definition ipc_rfs_dispatch :: "md5_fun \<Rightarrow> bool \<Rightarrow> ipc_message \<Rightarrow> rfs_world \<Rightarrow> (int \<times> rfs_world) option" where
  "ipc_rfs_dispatch md5 ril_alive message s =
     (if \<not> ril_alive then Some (-1, s)
      else (case map_of (ipc_rfs_dispatch_handlers md5) (msg_command message) of
          None \<Rightarrow> Some (0, s)
        | Some handler \<Rightarrow> Option.bind (handler message s) (\<lambda>(rc, s). Some (if rc < 0 then -1 else 0, s))))"

text \<open>
  One round of the loop depends on what \<open>ipc_client_poll\<close> reports and what \<open>ipc_client_recv\<close> then returns. Poll fails, or the device has
  nothing, or it has something that is received as a message or cannot be received; the event descriptor is ready exactly when its counter is not zero.
\<close>

datatype poll_input = Poll_error | Poll_idle | Poll_unreadable | Poll_message ipc_message

definition ipc_rfs_check :: "rfs_world \<Rightarrow> (loop_result \<times> rfs_world) option" where
  "ipc_rfs_check s = Some (if \<not> rfs_available s then Loop_return (-1) else Loop_continue, s)"

definition ipc_rfs_round :: "md5_fun \<Rightarrow> bool \<Rightarrow> poll_input \<Rightarrow> rfs_world \<Rightarrow> (loop_result \<times> rfs_world) option" where
  "ipc_rfs_round md5 ril_alive input s =
     (if input = Poll_error then Some (Loop_return (-1), s)
      else
        let ready = rfs_event s > 0;
            count = (if ready then 1 else 0 :: int);
            rc = count + (if input = Poll_idle then 0 else 1);
            (rc, event, s) = (if ready then
                case eventfd_recv (rfs_event s) of (rc, event, c) \<Rightarrow> (rc, event, s\<lparr>rfs_event := c\<rparr>)
              else (rc, None, s)) in
        if ready \<and> rc < 0 then Some (Loop_return (-1), s)
        else if event = Some IPC_CLIENT_CLOSE then Some (Loop_return 0, s)
        else if event = Some IPC_CLIENT_IO_ERROR then Some (Loop_return (-1), s)
        else if rc = count then Some (Loop_continue, s)
        else (case input of
            Poll_message message \<Rightarrow> Option.bind (ipc_rfs_dispatch md5 ril_alive message s) (\<lambda>(rc, s).
              if rc < 0 then Some (Loop_return (-1), s) else Some (Loop_continue, s\<lparr>rfs_failures := 0\<rparr>))
          | _ \<Rightarrow> Some (Loop_return (-1), s)))"

definition ipc_rfs_loop :: "md5_fun \<Rightarrow> bool \<Rightarrow> poll_input list \<Rightarrow> rfs_world \<Rightarrow> ((int option \<times> poll_input list) \<times> rfs_world) option" where
  "ipc_rfs_loop md5 ril_alive inputs s =
     (if \<not> rfs_data s \<or> rfs_event_fd s < 0 then Some ((Some (-1), inputs), s)
      else loop_rounds ipc_rfs_check (ipc_rfs_round md5 ril_alive) inputs s)"

subsection \<open>Lemmas\<close>

lemma nv_item_header_append [simp]: "nv_item_header (bytes32 offset @ bytes32 len @ data) = Some (offset, len)"
  by (simp add: bytes32_def)

lemma nv_item_header_length: "nv_item_header bs = Some h \<Longrightarrow> 8 \<le> length bs"
  by (cases bs rule: nv_item_header.cases) auto

definition rfs_ready :: "rfs_world \<Rightarrow> bool" where
  "rfs_ready s \<longleftrightarrow> rfs_data s \<and> rfs_available s \<and> 0 \<le> rfs_event_fd s \<and> 0 \<le> rfs_io_result s"

lemma ipc_rfs_send_eq:
  "rfs_ready s \<Longrightarrow> ipc_rfs_send mseq command data s = (0, rfs_emit (Rfs_sent mseq command 0 data) (rfs_io_next s))"
  by (simp add: ipc_rfs_send_def rfs_ready_def Let_def)

lemma rfs_ready_files [simp]: "rfs_ready (s\<lparr>rfs_files := fs\<rparr>) = rfs_ready s"
  by (simp add: rfs_ready_def rfs_io_result_def)

text \<open>An event that is received is not zero, so no round ever ends the loop with zero.\<close>

lemma eventfd_recv_positive: "eventfd_recv c = (rc, Some v, c') \<Longrightarrow> 0 < v"
  by (auto simp: eventfd_recv_def eventfd_read_def split: if_splits)

lemma ipc_rfs_round_nonzero: "ipc_rfs_round md5 alive input s = Some (Loop_return rc, s') \<Longrightarrow> rc = -1"
  by (auto simp: ipc_rfs_round_def Let_def eventfd_recv_def eventfd_read_def IPC_CLIENT_CLOSE_def IPC_CLIENT_IO_ERROR_def
    bind_eq_Some_conv split: if_splits poll_input.splits)

lemma ipc_rfs_write_item_defined: "wp (ipc_rfs_nv_write_item md5 message s) (\<lambda>_ _. True)"
proof -
  have "\<not> length (drop 8 bs) < unat len" if "ipc_rfs_nv_write_item_extract bs = Some d" "nv_item_header bs = Some (offset, len)" for bs d offset len
    using that by (auto simp: ipc_rfs_nv_write_item_extract_def split: if_splits)
  moreover have "d = drop 8 bs" if "ipc_rfs_nv_write_item_extract bs = Some d" for bs d
    using that by (auto simp: ipc_rfs_nv_write_item_extract_def split: if_splits option.splits)
  ultimately show ?thesis
    by (fastforce simp: ipc_rfs_nv_write_item_def Let_def split_beta split: option.splits)
qed

lemma ipc_rfs_round_wp:
  assumes "\<And>m. input = Poll_message m \<Longrightarrow> wp (ipc_rfs_dispatch md5 alive m (s\<lparr>rfs_event := 0\<rparr>)) (\<lambda>_ _. True)"
  shows "wp (ipc_rfs_round md5 alive input s) (loop_post (\<lambda>rc _. rc = -1) (\<lambda>_. True))"
proof (cases "rfs_event s = 0")
  case True
  then have "s\<lparr>rfs_event := 0\<rparr> = s"
    by simp
  with assms have "wp (ipc_rfs_dispatch md5 alive m s) (\<lambda>_ _. True)" if "input = Poll_message m" for m
    using that by metis
  then show ?thesis
    using True by (auto simp: ipc_rfs_round_def Let_def elim!: wp_mono split: poll_input.splits)
next
  case False
  then show ?thesis
    using assms by (auto simp: ipc_rfs_round_def Let_def eventfd_recv_def eventfd_read_def IPC_CLIENT_CLOSE_def IPC_CLIENT_IO_ERROR_def
      elim!: wp_mono split: poll_input.splits)
qed

text \<open>The loop is defined as long as the modem only writes, and it returns nothing but an error.\<close>

definition rfs_admitted :: "poll_input \<Rightarrow> rfs_world \<Rightarrow> bool" where
  "rfs_admitted input s \<longleftrightarrow> (\<forall>m. input = Poll_message m \<longrightarrow> msg_command m \<noteq> IPC_RFS_NV_READ_ITEM)"

interpretation rfs_loop: input_loop ipc_rfs_check "ipc_rfs_round md5 alive" "\<lambda>_. True" rfs_admitted "\<lambda>rc _. rc = -1" for md5 alive
proof
  show "wp (ipc_rfs_check s) (loop_post (\<lambda>rc _. rc = -1) (\<lambda>_. True))" for s
    by (simp add: ipc_rfs_check_def)
  show "wp (ipc_rfs_round md5 alive input s) (loop_post (\<lambda>rc _. rc = -1) (\<lambda>_. True))" if "rfs_admitted input s" for input s
  proof (rule ipc_rfs_round_wp)
    fix m assume "input = Poll_message m"
    then show "wp (ipc_rfs_dispatch md5 alive m (s\<lparr>rfs_event := 0\<rparr>)) (\<lambda>_ _. True)"
      using that ipc_rfs_write_item_defined [of md5 m "s\<lparr>rfs_event := 0\<rparr>"]
      by (auto simp: rfs_admitted_def ipc_rfs_dispatch_def ipc_rfs_dispatch_handlers_def elim!: wp_mono)
  qed
qed

subsection \<open>Properties\<close>

text \<open>C35. The modem's write request: for a message that carries as many bytes as it announces, within the data, the bytes are stored where they belong, the
  data stays intact, and the request is answered under its sequence number with a confirmation of the same offset and length.\<close>

theorem rfs_write_item_stored:
  assumes "digest_ok md5" and "rfs_ready s" and "rfs_specs s = nv_specs p m b bm sec sz c" and "no_faults (rfs_files s)" and "p \<noteq> m"
    and "0 < c" and "c \<le> sz" and "intact md5 sec sz p m (rfs_files s)" and "data \<noteq> []" and "length data < 2 ^ 31"
    and "unat offset + length data \<le> sz" and "unat offset < 2 ^ 31"
    and "msg_data message = bytes32 offset @ bytes32 (of_nat (length data)) @ data @ rest"
  shows "\<exists>s'. ipc_rfs_nv_write_item md5 message s = Some (0, s') \<and> intact md5 sec sz p m (rfs_files s') \<and>
    content p (rfs_files s') = overwrite (unat offset) data (content p (rfs_files s)) \<and>
    rfs_trace s' = rfs_trace s @ [Rfs_sent (msg_aseq message) IPC_RFS_NV_WRITE_ITEM 0 (1 # bytes32 offset @ bytes32 (of_nat (length data)))]"
proof -
  let ?len = "of_nat (length data) :: u32"
  have len: "unat ?len = length data"
    using assms(10) by (simp add: unat_of_nat take_bit_nat_eq_self)
  then have nonzero: "?len \<noteq> 0"
    using assms(9) by auto
  obtain fs where fs: "ipc_nv_data_write md5 (rfs_specs s) data offset (rfs_files s) = (0, fs)" "intact md5 sec sz p m fs"
    "content p fs = overwrite (unat offset) data (content p (rfs_files s))"
    using nv_write_inside [OF assms(1,4-9,11,12)] unfolding assms(3) by blast
  have "nv_item_header (msg_data message) = Some (offset, ?len)" "drop 8 (msg_data message) = data @ rest" "length (msg_data message) - 8 = length data + length rest"
    by (simp_all add: assms(13))
  then have "ipc_rfs_nv_write_item md5 message s = Some (0, rfs_emit (Rfs_sent (msg_aseq message) IPC_RFS_NV_WRITE_ITEM 0
      (nv_item_response 1 offset ?len)) (rfs_io_next (s\<lparr>rfs_files := fs\<rparr>)))"
    using assms(2,9) len nonzero fs(1)
    by (simp add: ipc_rfs_nv_write_item_def ipc_rfs_nv_write_item_size_extract_def ipc_rfs_nv_write_item_extract_def Let_def
      ipc_rfs_send_eq rfs_ready_def [of s])
  then show ?thesis
    using fs(2,3) by (auto simp: rfs_emit_def rfs_io_next_def nv_item_response_def)
qed

text \<open>C36. The modem's read request is never answered with data: for a range that the data has the answer's size is computed from a variable that was
  never assigned, and for any other range the answer is a refusal.\<close>

theorem rfs_read_item_undefined:
  assumes "rfs_ready s" and "rfs_specs s = nv_specs p m b bm sec sz c" and "no_faults (rfs_files s)" and "0 < c" and "sz \<noteq> 0"
    and "files (rfs_files s) p = Some nv" and "length nv = sz" and "msg_data message = bytes32 offset @ bytes32 len @ rest"
  shows "if len \<noteq> 0 \<and> start_of offset + unat len \<le> sz then ipc_rfs_nv_read_item message s = None
    else \<exists>s'. ipc_rfs_nv_read_item message s = Some (0, s') \<and>
      rfs_trace s' = rfs_trace s @ [Rfs_sent (msg_aseq message) IPC_RFS_NV_READ_ITEM 0 (0 # bytes32 0 @ bytes32 0)]"
proof -
  let ?n = "unat len" and ?c = "if c > unat len then unat len else c"
  define t where "t = snd (ipc_nv_data_path_check (rfs_specs s) (rfs_files s))"
  have check: "fst (ipc_nv_data_path_check (rfs_specs s) (rfs_files s)) = 0" "files t = files (rfs_files s)" "no_faults t"
    using path_check_fst(2) [OF assms(3,6,7,5)] kept_all [OF kept_path_check(1)] kept_faults [OF kept_path_check(1) assms(3)]
    by (simp_all add: t_def assms(2))
  have read: "ipc_nv_data_read (rfs_specs s) ?n offset (rfs_files s) = file_data_read (Some p) ?n ?c offset t"
    using check(1) assms(2,4) by (simp add: ipc_nv_data_read_def Let_def split_beta t_def)
  have header: "nv_item_header (msg_data message) = Some (offset, len)"
    by (simp add: assms(8))
  obtain r fs where r: "file_data_read (Some p) ?n ?c offset t = (r, fs)"
    by (cases "file_data_read (Some p) ?n ?c offset t")
  note res = file_data_read_result [OF r]
  show ?thesis
  proof (cases "len \<noteq> 0 \<and> start_of offset + ?n \<le> sz")
    case True
    then have "readable p (start_of offset) ?n t" "0 < ?n"
      using check(2) assms(6,7) by (auto simp: readable_def unat_gt_0)
    then obtain d where d: "r = Some d" "d \<noteq> []"
      using res check(3) assms(4) by (cases r) (auto split: if_splits)
    then show ?thesis
      using True header assms(1) read r
      by (simp add: ipc_rfs_nv_read_item_def rfs_ready_def ipc_rfs_nv_data_item_size_setup_def Let_def)
  next
    case False
    have "r = None"
    proof (rule ccontr)
      assume "r \<noteq> None"
      then have "readable p (start_of offset) ?n t" "0 < ?c"
        using res by blast+
      then show False
        using False check(2) assms(6,7) by (auto simp: readable_def unat_gt_0 split: if_splits)
    qed
    then have "ipc_rfs_nv_read_item message s = Some (0, rfs_emit (Rfs_sent (msg_aseq message) IPC_RFS_NV_READ_ITEM 0 (nv_item_response 0 0 0))
        (rfs_io_next (s\<lparr>rfs_files := fs\<rparr>)))"
      using header assms(1) read r
      by (simp add: ipc_rfs_nv_read_item_def Let_def ipc_rfs_send_eq rfs_ready_def [of s])
    then show ?thesis
      using False by (auto simp: rfs_emit_def rfs_io_next_def nv_item_response_def)
  qed
qed

definition toy_rfs :: rfs_world where
  "toy_rfs = \<lparr>rfs_data = True, rfs_available = True, rfs_failures = 0, rfs_event_fd = 5, rfs_event = 0, rfs_specs = toy_specs,
     rfs_files = toy_files, rfs_io = [], rfs_trace = []\<rparr>"

definition toy_item :: "u8 list \<Rightarrow> ipc_message" where
  "toy_item bs = \<lparr>msg_mseq = 0, msg_aseq = 7, msg_command = IPC_RFS_NV_WRITE_ITEM, msg_type = 0, msg_data = bs\<rparr>"

lemma toy_rfs_ready: "rfs_ready toy_rfs" "rfs_specs toy_rfs = nv_specs ''nv'' ''nv.md5'' ''bak'' ''bak.md5'' ''x'' 4 2"
  "rfs_files toy_rfs = toy_files"
  by (simp_all add: rfs_ready_def toy_rfs_def toy_specs_def rfs_io_result_def)

theorem rfs_write_item_stored_witness:
  "\<exists>s'. ipc_rfs_nv_write_item toy_md5 (toy_item (bytes32 1 @ bytes32 2 @ [9, 8] @ [])) toy_rfs = Some (0, s') \<and>
     content ''nv'' (rfs_files s') = [1, 9, 8, 4]"
proof -
  have "\<exists>s'. ipc_rfs_nv_write_item toy_md5 (toy_item (bytes32 1 @ bytes32 2 @ [9, 8] @ [])) toy_rfs = Some (0, s') \<and>
      content ''nv'' (rfs_files s') = overwrite 1 [9, 8] (content ''nv'' toy_files)"
    using rfs_write_item_stored [OF toy_digest toy_rfs_ready(1,2), of "[9, 8]" 1 "toy_item (bytes32 1 @ bytes32 2 @ [9, 8] @ [])" "[]"] toy_facts
    by (auto simp: toy_rfs_ready toy_item_def)
  then show ?thesis
    by (simp add: toy_files_def content_def overwrite_def)
qed

theorem rfs_read_item_undefined_witness:
  "ipc_rfs_nv_read_item (toy_item (bytes32 1 @ bytes32 2 @ [])) toy_rfs = None \<and>
   ipc_rfs_nv_read_item (toy_item (bytes32 3 @ bytes32 2 @ [])) toy_rfs \<noteq> None"
proof -
  have nv: "files (rfs_files toy_rfs) ''nv'' = Some [1, 2, 3, 4]"
    by (simp add: toy_rfs_ready toy_files_def)
  note u = rfs_read_item_undefined [OF toy_rfs_ready(1,2) _ _ _ nv]
  show ?thesis
    using u [of "toy_item (bytes32 1 @ bytes32 2 @ [])" 1 2 "[]"] u [of "toy_item (bytes32 3 @ bytes32 2 @ [])" 3 2 "[]"] toy_facts(1)
    by (auto simp: toy_rfs_ready toy_item_def start_of_def)
qed

end
