(* ===== verification/Srs_Socket.thy ===== *)
theory Srs_Socket
  imports Ril_Misc
begin

section \<open>The Samsung-RIL socket protocol\<close>

text \<open>
  The messages that the audio libraries exchange with the RIL over a local stream socket: the commands and structures of \<open>include/samsung-ril-socket.h\<close>
  and the framing that \<open>srs.c\<close> and \<open>srs-client/srs-client.c\<close> have in common. A message is a header of six bytes, its length first, and the data. Both sides
  build it in a buffer that they write with one call, and both read with one call into a buffer of \<open>SRS_BUFFER_LENGTH\<close> bytes that is zero before.
\<close>

subsection \<open>Commands and values\<close>

definition SRS_CONTROL_PING :: u16 where "SRS_CONTROL_PING = 0x0101"
definition SRS_SND_SET_CALL_VOLUME :: u16 where "SRS_SND_SET_CALL_VOLUME = 0x0201"
definition SRS_SND_SET_CALL_AUDIO_PATH :: u16 where "SRS_SND_SET_CALL_AUDIO_PATH = 0x0202"
definition SRS_SND_SET_CALL_CLOCK_SYNC :: u16 where "SRS_SND_SET_CALL_CLOCK_SYNC = 0x0203"
definition SRS_TEST_SET_RADIO_STATE :: u16 where "SRS_TEST_SET_RADIO_STATE = 0x0301"
definition SRS_CONTROL_CAFFE :: u32 where "SRS_CONTROL_CAFFE = 0xCAFFE"
definition SRS_BUFFER_LENGTH :: nat where "SRS_BUFFER_LENGTH = 0x1000"

lemmas srs_command_defs = SRS_CONTROL_PING_def SRS_SND_SET_CALL_VOLUME_def SRS_SND_SET_CALL_AUDIO_PATH_def
  SRS_SND_SET_CALL_CLOCK_SYNC_def SRS_TEST_SET_RADIO_STATE_def

definition SRS_COMMAND :: "u8 \<Rightarrow> u8 \<Rightarrow> u16" where
  "SRS_COMMAND grp index = push_bit 8 (ucast grp) OR ucast index"

definition SRS_GROUP :: "u16 \<Rightarrow> u16" where
  "SRS_GROUP command = drop_bit 8 command"

definition SRS_INDEX :: "u16 \<Rightarrow> u16" where
  "SRS_INDEX command = command AND 0xff"

subsection \<open>Headers\<close>

record srs_header =
  srs_length :: u32
  srs_group :: u8
  srs_index :: u8

definition srs_header_setup :: "srs_message \<Rightarrow> srs_header" where
  "srs_header_setup message = \<lparr>srs_length = of_nat (length (srs_message_data message)) + 6,
     srs_group = ucast (SRS_GROUP (srs_command message)), srs_index = ucast (SRS_INDEX (srs_command message))\<rparr>"

definition srs_message_setup :: "srs_header \<Rightarrow> srs_message" where
  "srs_message_setup header = \<lparr>srs_command = SRS_COMMAND (srs_group header) (srs_index header), srs_message_data = []\<rparr>"

text \<open>The packed structure in memory.\<close>

definition srs_header_bytes :: "srs_header \<Rightarrow> u8 list" where
  "srs_header_bytes header = bytes32 (srs_length header) @ [srs_group header, srs_index header]"

fun srs_header_read :: "u8 list \<Rightarrow> srs_header option" where
  "srs_header_read (a # b # c # d # grp # index # _) = Some \<lparr>srs_length = le32 a b c d, srs_group = grp, srs_index = index\<rparr>"
| "srs_header_read _ = None"

subsection \<open>Buffers\<close>

text \<open>The buffer that a sender allocates with the length in the header and fills; a length that has wrapped around would make it too small.\<close>

definition srs_send_buffer :: "srs_message \<Rightarrow> u8 list option" where
  "srs_send_buffer message = (let header = srs_header_setup message in
     if unat (srs_length header) < 6 + length (srs_message_data message) then None
     else Some (srs_header_bytes header @ srs_message_data message))"

text \<open>What a receiver makes of the bytes that one \<open>read\<close> has put into its buffer: an error for fewer bytes than a header has, otherwise the message that the header
  announces, copied out of the buffer. The subtraction of the header's size wraps around, and the copy is undefined when it leaves the buffer.\<close>

definition srs_recv_buffer :: "u8 list \<Rightarrow> srs_message option option" where
  "srs_recv_buffer bytes = (case srs_header_read bytes of
      None \<Rightarrow> Some None
    | Some header \<Rightarrow>
        let message = srs_message_setup header; len = unat (srs_length header - 6) in
        if len = 0 then Some (Some message)
        else if len > SRS_BUFFER_LENGTH - 6 then None
        else Some (Some (message\<lparr>srs_message_data :=
          take len (drop 6 (bytes @ replicate (SRS_BUFFER_LENGTH - length bytes) 0))\<rparr>)))"

subsection \<open>Lemmas\<close>

lemma SRS_COMMAND_parts [simp]: "SRS_COMMAND (ucast (SRS_GROUP command)) (ucast (SRS_INDEX command)) = command"
  unfolding SRS_COMMAND_def SRS_GROUP_def SRS_INDEX_def
  by (rule bit_word_eqI) (auto simp: bit_simps)

lemma srs_message_header [simp]: "srs_message_setup (srs_header_setup message) = message\<lparr>srs_message_data := []\<rparr>"
  by (simp add: srs_message_setup_def srs_header_setup_def)

lemma srs_header_read_bytes [simp]: "srs_header_read (srs_header_bytes header @ bs) = Some header"
  by (simp add: srs_header_bytes_def bytes32_def)

lemma length_srs_header_bytes [simp]: "length (srs_header_bytes header) = 6"
  by (simp add: srs_header_bytes_def)

lemma srs_header_read_None: "srs_header_read bs = None \<longleftrightarrow> length bs < 6"
  by (cases bs rule: srs_header_read.cases) auto

definition srs_size_ok :: "srs_message \<Rightarrow> bool" where
  "srs_size_ok message \<longleftrightarrow> length (srs_message_data message) \<le> SRS_BUFFER_LENGTH - 6"

lemma srs_header_length:
  assumes "length (srs_message_data message) < 2 ^ 32 - 6"
  shows "unat (srs_length (srs_header_setup message)) = 6 + length (srs_message_data message)"
proof -
  have "srs_length (srs_header_setup message) = of_nat (length (srs_message_data message) + 6)"
    by (simp add: srs_header_setup_def)
  then show ?thesis
    using assms by (simp only: unat_of_nat) (simp add: take_bit_nat_eq_self)
qed

lemma srs_send_buffer_eq:
  "length (srs_message_data message) < 2 ^ 32 - 6 \<Longrightarrow>
   srs_send_buffer message = Some (srs_header_bytes (srs_header_setup message) @ srs_message_data message)"
  by (simp add: srs_send_buffer_def srs_header_length)

lemma srs_recv_buffer_frame:
  assumes "srs_size_ok message"
  shows "srs_recv_buffer (srs_header_bytes (srs_header_setup message) @ srs_message_data message @ rest) = Some (Some message)"
proof -
  have small: "length (srs_message_data message) \<le> 4090"
    using assms by (simp add: srs_size_ok_def SRS_BUFFER_LENGTH_def)
  have "srs_length (srs_header_setup message) - 6 = of_nat (length (srs_message_data message))"
    by (simp add: srs_header_setup_def)
  then have "unat (srs_length (srs_header_setup message) - 6) = length (srs_message_data message)"
    using small by (simp add: unat_of_nat take_bit_nat_eq_self)
  then show ?thesis
    using small by (cases message) (auto simp: srs_recv_buffer_def SRS_BUFFER_LENGTH_def Let_def)
qed

text \<open>The length of a frame's data is read back from its header; outside of the buffer's size it is not.\<close>

lemma srs_recv_buffer_undefined_iff:
  "srs_recv_buffer bytes = None \<longleftrightarrow>
   (\<exists>header. srs_header_read bytes = Some header \<and> \<not> (6 \<le> unat (srs_length header) \<and> unat (srs_length header) \<le> SRS_BUFFER_LENGTH))"
proof (cases "srs_header_read bytes")
  case (Some header)
  let ?l = "srs_length header"
  have "unat (?l - 6) > 4090 \<longleftrightarrow> \<not> (6 \<le> unat ?l \<and> unat ?l \<le> 4096)"
  proof (cases "6 \<le> unat ?l")
    case True
    then have "(6 :: u32) \<le> ?l"
      by (simp add: word_le_nat_alt)
    then have "unat (?l - 6) = unat ?l - 6"
      by (simp add: unat_sub)
    then show ?thesis
      using True by auto
  next
    case False
    then have "?l - 6 = of_nat (2 ^ 32 + unat ?l - 6)"
      by (simp add: of_nat_diff)
    then have "unat (?l - 6) = (2 ^ 32 + unat ?l - 6) mod 2 ^ 32"
      by (simp only: unat_of_nat) (simp add: take_bit_eq_mod)
    then show ?thesis
      using False by simp
  qed
  then show ?thesis
    using Some by (auto simp: srs_recv_buffer_def SRS_BUFFER_LENGTH_def Let_def)
qed (simp add: srs_recv_buffer_def)

end
