(* ===== verification/Ril_Srs.thy ===== *)
theory Ril_Srs
  imports Client_Loop Srs_Socket
begin

section \<open>samsung-ril: the socket server for sound\<close>

text \<open>
  \<open>srs.c\<close>: the RIL's third client, which is a server for the audio libraries. A thread of its own accepts connections and adds them to a list; the loop of the
  client waits for messages on all of them, dispatches each message to its handler and drops connections that fail.

  The state is \<open>struct srs_data\<close> with the fields of its \<open>struct ril_client\<close>, the counters behind its two event descriptors, and the bytes that
  are pending on each connection. A pointer to a \<open>struct srs_client\<close> is the address of its node. \<open>srs_locked\<close> is the client's mutex: functions
  that take and release it are undefined when their own thread already holds it. System calls take their results from the script
  \<open>srs_io\<close> and succeed when it is used up; what they do is recorded in \<open>srs_trace\<close>. The handlers work on the state of the RIL, \<open>srs_ril\<close>.
\<close>

subsection \<open>State\<close>

definition SRS_CLIENT_CLOSE :: nat where "SRS_CLIENT_CLOSE = 0x00"
definition SRS_SERVER_CLOSE :: nat where "SRS_SERVER_CLOSE = 0x01"
definition SRS_CLIENT_CHANGE :: nat where "SRS_CLIENT_CHANGE = 0x02"
definition SRS_CLIENT_IO_ERROR :: nat where "SRS_CLIENT_IO_ERROR = 0x03"

datatype srs_action =
    Srs_accepted int                    \<comment> \<open>a new connection\<close>
  | Srs_closed int                      \<comment> \<open>a connection is closed\<close>
  | Srs_server_closed int               \<comment> \<open>the listening socket is closed\<close>
  | Srs_wrote int "u8 list"             \<comment> \<open>bytes written to a connection\<close>

record srs_world =
  srs_data :: bool
  srs_available :: bool
  srs_failures :: int
  srs_locked :: bool
  srs_server_fd :: int
  srs_client_fd :: int
  srs_server_event_fd :: int
  srs_event_fd :: int
  srs_server_event :: nat
  srs_event :: nat
  srs_clients :: "int nodes"
  srs_next :: addr
  srs_pending :: "int \<Rightarrow> u8 list"
  srs_io :: "int list"
  srs_trace :: "srs_action list"
  srs_ril :: ril_world

text \<open>A system call that returns \<open>rc\<close> when nothing goes wrong.\<close>

definition srs_sys :: "int \<Rightarrow> srs_world \<Rightarrow> int \<times> srs_world" where
  "srs_sys rc s = (case srs_io s of [] \<Rightarrow> rc | r # _ \<Rightarrow> r, s\<lparr>srs_io := drop 1 (srs_io s)\<rparr>)"

definition srs_emit :: "srs_action \<Rightarrow> srs_world \<Rightarrow> srs_world" where
  "srs_emit a s = s\<lparr>srs_trace := srs_trace s @ [a]\<rparr>"

text \<open>A section between \<open>RIL_CLIENT_LOCK\<close> and \<open>RIL_CLIENT_UNLOCK\<close>.\<close>

definition srs_section :: "(srs_world \<Rightarrow> ('a \<times> srs_world) option) \<Rightarrow> srs_world \<Rightarrow> ('a \<times> srs_world) option" where
  "srs_section f s = (if srs_locked s then None else f s)"

definition srs_close_fd :: "int \<Rightarrow> srs_world \<Rightarrow> srs_world" where
  "srs_close_fd fd s = (if fd \<ge> 0 then srs_emit (Srs_closed fd) (s\<lparr>srs_pending := (srs_pending s)(fd := [])\<rparr>) else s)"

subsection \<open>Connections\<close>

definition srs_client_register :: "int \<Rightarrow> srs_world \<Rightarrow> (int \<times> srs_world) option" where
  "srs_client_register fd s = (if \<not> srs_data s then Some (-1, s)
     else srs_section (\<lambda>s. Some (0, s\<lparr>srs_clients := node_append (srs_next s) fd (srs_clients s), srs_next := Suc (srs_next s)\<rparr>)) s)"

definition srs_client_unregister :: "addr \<Rightarrow> srs_world \<Rightarrow> (int \<times> srs_world) option" where
  "srs_client_unregister client s = (if \<not> srs_data s then Some (-1, s)
     else srs_section (\<lambda>s. Some (0, s\<lparr>srs_clients := node_remove client (srs_clients s)\<rparr>)) s)"

definition srs_client_flush :: "srs_world \<Rightarrow> (int \<times> srs_world) option" where
  "srs_client_flush s = (if \<not> srs_data s then Some (-1, s) else srs_section (\<lambda>s. Some (0, s\<lparr>srs_clients := []\<rparr>)) s)"

definition srs_client_find :: "srs_world \<Rightarrow> (addr option \<times> srs_world) option" where
  "srs_client_find s = (if \<not> srs_data s then Some (None, s)
     else srs_section (\<lambda>s. Some (node_find (\<lambda>_. True) (srs_clients s), s)) s)"

definition srs_client_find_fd :: "int \<Rightarrow> srs_world \<Rightarrow> (addr option \<times> srs_world) option" where
  "srs_client_find_fd fd s = (if \<not> srs_data s then Some (None, s)
     else srs_section (\<lambda>s. Some (node_find (\<lambda>x. x = fd) (srs_clients s), s)) s)"

text \<open>A set of descriptors is the list of its members. The descriptor that is found is cleared from the set.\<close>

definition srs_client_find_fd_set :: "int list \<Rightarrow> srs_world \<Rightarrow> ((addr option \<times> int list) \<times> srs_world) option" where
  "srs_client_find_fd_set fds s = (if \<not> srs_data s then Some ((None, fds), s)
     else srs_section (\<lambda>s. Some (case find (\<lambda>n. snd n \<in> set fds) (srs_clients s) of
         None \<Rightarrow> (None, fds)
       | Some (p, fd) \<Rightarrow> (Some p, filter (\<lambda>x. x \<noteq> fd) fds), s)) s)"

definition srs_client_fd_set_setup :: "srs_world \<Rightarrow> ((int \<times> int list) \<times> srs_world) option" where
  "srs_client_fd_set_setup s = (if \<not> srs_data s then Some ((-1, []), s)
     else srs_section (\<lambda>s. Some ((fold max (map snd (srs_clients s)) (-1), map snd (srs_clients s)), s)) s)"

subsection \<open>Sending and receiving\<close>

definition srs_client_send :: "srs_message \<Rightarrow> srs_world \<Rightarrow> (int \<times> srs_world) option" where
  "srs_client_send message s =
     (if \<not> srs_data s then Some (-1, s)
      else if srs_client_fd s < 0 then Some (-1, s)
      else srs_section (\<lambda>s. Option.bind (srs_send_buffer message) (\<lambda>buffer.
        let (rc, s) = srs_sys 1 s in
        if rc \<le> 0 then Some (-1, s)
        else
          let (rc, s) = srs_sys (int (length buffer)) s;
              s = srs_emit (Srs_wrote (srs_client_fd s) (take (nat rc) buffer)) s in
          Some (if rc < int (length buffer) then -1 else 0, s))) s)"

text \<open>A \<open>read\<close> takes at most \<open>SRS_BUFFER_LENGTH\<close> of the pending bytes.\<close>

definition srs_client_recv :: "srs_world \<Rightarrow> ((int \<times> srs_message) \<times> srs_world) option" where
  "srs_client_recv s = (let none = \<lparr>srs_command = 0, srs_message_data = []\<rparr> in
     if \<not> srs_data s then Some ((-1, none), s)
     else if srs_client_fd s < 0 then Some ((-1, none), s)
     else srs_section (\<lambda>s.
       let (rc, s) = srs_sys 1 s in
       if rc \<le> 0 then Some ((-1, none), s)
       else
         let pending = srs_pending s (srs_client_fd s);
             (rc, s) = srs_sys (int (min SRS_BUFFER_LENGTH (length pending))) s;
             bytes = take (nat rc) (take SRS_BUFFER_LENGTH pending);
             s = s\<lparr>srs_pending := (srs_pending s)(srs_client_fd s := drop (length bytes) pending)\<rparr> in
         Option.bind (srs_recv_buffer bytes) (\<lambda>r. Some (case r of None \<Rightarrow> (-1, none) | Some message \<Rightarrow> (0, message), s))) s)"

definition srs_send :: "u16 \<Rightarrow> u8 list \<Rightarrow> srs_world \<Rightarrow> (int \<times> srs_world) option" where
  "srs_send command data s =
     (if \<not> srs_data s then Some (-1, s)
      else if srs_event_fd s < 0 then Some (-1, s)
      else if \<not> srs_available s then Some (-1, s)
      else Option.bind (srs_client_send \<lparr>srs_command = command, srs_message_data = data\<rparr> s) (\<lambda>(rc, s).
        if rc < 0 then Some (-1, s\<lparr>srs_event := snd (eventfd_send SRS_CLIENT_IO_ERROR (srs_event s))\<rparr>) else Some (0, s)))"

subsection \<open>Handlers\<close>

definition srs_control_ping :: "srs_message \<Rightarrow> srs_world \<Rightarrow> (int \<times> srs_world) option" where
  "srs_control_ping message s = (case srs_message_data message of
      a # b # c # d # _ \<Rightarrow>
        if le32 a b c d = SRS_CONTROL_CAFFE then Option.bind (srs_send SRS_CONTROL_PING [a, b, c, d] s) (\<lambda>(_, s). Some (0, s))
        else Some (0, s)
    | _ \<Rightarrow> Some (-1, s))"

definition srs_test_set_radio_state :: "srs_message \<Rightarrow> ril_world \<Rightarrow> (int \<times> ril_world) option" where
  "srs_test_set_radio_state message s = (case read_int (srs_message_data message) of
      None \<Rightarrow> Some (-1, s)
    | Some state \<Rightarrow> Option.bind (ril_radio_state_update state s) (\<lambda>(_, s). Some (0, s)))"

text \<open>A handler that works on the state of the RIL.\<close>

definition on_ril :: "(srs_message \<Rightarrow> ril_world \<Rightarrow> (int \<times> ril_world) option) \<Rightarrow> srs_message \<Rightarrow> srs_world \<Rightarrow> (int \<times> srs_world) option" where
  "on_ril f message s = Option.bind (f message (srs_ril s)) (\<lambda>(rc, r). Some (rc, s\<lparr>srs_ril := r\<rparr>))"

definition srs_dispatch_handlers :: "(u16 \<times> (srs_message \<Rightarrow> srs_world \<Rightarrow> (int \<times> srs_world) option)) list" where
  "srs_dispatch_handlers =
     [(SRS_CONTROL_PING, srs_control_ping),
      (SRS_SND_SET_CALL_VOLUME, on_ril (\<lambda>m r. Some (srs_snd_set_call_volume m r))),
      (SRS_SND_SET_CALL_AUDIO_PATH, on_ril (\<lambda>m r. Some (srs_snd_set_call_audio_path m r))),
      (SRS_SND_SET_CALL_CLOCK_SYNC, on_ril (\<lambda>m r. Some (srs_snd_set_call_clock_sync m r))),
      (SRS_TEST_SET_RADIO_STATE, on_ril srs_test_set_radio_state)]"

definition srs_dispatch :: "srs_message \<Rightarrow> srs_world \<Rightarrow> (int \<times> srs_world) option" where
  "srs_dispatch message s =
     (if \<not> ril_data_alive (srs_ril s) then Some (-1, s)
      else (case map_of srs_dispatch_handlers (srs_command message) of
          None \<Rightarrow> Some (0, s)
        | Some handler \<Rightarrow> Option.bind (handler message s) (\<lambda>(rc, s). Some (if rc < 0 then -1 else 0, s))))"

subsection \<open>The server\<close>

definition srs_server_open :: "srs_world \<Rightarrow> (int \<times> srs_world) option" where
  "srs_server_open s =
     (if \<not> srs_data s then Some (-1, s)
      else if srs_server_event_fd s < 0 then Some (-1, s)
      else srs_section (\<lambda>s.
        let (server_fd, s) = srs_sys 0 s in
        if server_fd < 0 then Some (-1, s)
        else Some (0, s\<lparr>srs_server_fd := server_fd, srs_server_event := snd (eventfd_flush (srs_server_event s))\<rparr>)) s)"

text \<open>The loop that closes every connection: it takes the first, closes it and removes it from the list.\<close>

partial_function (option) srs_close_clients :: "srs_world \<Rightarrow> (int \<times> srs_world) option" where
  "srs_close_clients s = Option.bind (srs_client_find s) (\<lambda>(client, s). case client of
      None \<Rightarrow> Some (0, s)
    | Some p \<Rightarrow> (case node_get (srs_clients s) p of
        None \<Rightarrow> None
      | Some fd \<Rightarrow> Option.bind (srs_client_unregister p (srs_close_fd fd s)) (\<lambda>(rc, s).
          if rc < 0 then Some (-1, s) else srs_close_clients s)))"

definition srs_server_close :: "srs_world \<Rightarrow> (int \<times> srs_world) option" where
  "srs_server_close s =
     (if \<not> srs_data s then Some (-1, s)
      else if srs_server_event_fd s < 0 then Some (-1, s)
      else Option.bind (srs_close_clients s) (\<lambda>(rc, s). if rc < 0 then Some (-1, s)
        else srs_section (\<lambda>s.
          let s = s\<lparr>srs_server_event := snd (eventfd_send SRS_SERVER_CLOSE (srs_server_event s))\<rparr> in
          Some (0, if srs_server_fd s \<ge> 0 then (srs_emit (Srs_server_closed (srs_server_fd s)) s)\<lparr>srs_server_fd := -1\<rparr> else s)) s))"

text \<open>What \<open>select\<close> reports on the listening socket: an error, nothing, or a connection that \<open>accept\<close> then returns (or fails to).\<close>

datatype srs_server_input = Srs_server_error | Srs_server_idle | Srs_server_connect int

text \<open>Without a listening socket the set of descriptors is written outside its bounds.\<close>

definition srs_server_check :: "srs_world \<Rightarrow> (loop_result \<times> srs_world) option" where
  "srs_server_check s =
     (if \<not> srs_available s then Some (Loop_return (-1), s)
      else if srs_server_fd s < 0 then None
      else Some (Loop_continue, s))"

definition srs_server_round :: "srs_server_input \<Rightarrow> srs_world \<Rightarrow> (loop_result \<times> srs_world) option" where
  "srs_server_round input s =
     (if input = Srs_server_error then Some (Loop_return (-1), s)
      else
        let ready = srs_server_event s > 0;
            (rc, event, c) = (if ready then eventfd_recv (srs_server_event s) else (0, None, srs_server_event s));
            s = s\<lparr>srs_server_event := c\<rparr> in
        if ready \<and> rc < 0 then Some (Loop_return (-1), s)
        else if event = Some SRS_SERVER_CLOSE then Some (Loop_return 0, s)
        else (case input of
            Srs_server_connect client_fd \<Rightarrow>
              if client_fd < 0 then Some (Loop_return (-1), s)
              else Option.bind (srs_client_register client_fd (srs_emit (Srs_accepted client_fd) s)) (\<lambda>(rc, s).
                if rc < 0 then Some (Loop_return (-1), s)
                else Some (Loop_continue, s\<lparr>srs_event := snd (eventfd_send SRS_CLIENT_CHANGE (srs_event s))\<rparr>))
          | _ \<Rightarrow> Some (Loop_continue, s)))"

definition srs_server_loop :: "srs_server_input list \<Rightarrow> srs_world \<Rightarrow> ((int option \<times> srs_server_input list) \<times> srs_world) option" where
  "srs_server_loop inputs s =
     (if \<not> srs_data s then Some ((Some (-1), inputs), s)
      else if srs_server_fd s < 0 \<or> srs_server_event_fd s < 0 \<or> srs_event_fd s < 0 then Some ((Some (-1), inputs), s)
      else loop_rounds srs_server_check srs_server_round inputs s)"

text \<open>The thread keeps its own count of failures.\<close>

definition with_count :: "('a \<Rightarrow> ('r \<times> 'a) option) \<Rightarrow> int \<times> 'a \<Rightarrow> ('r \<times> (int \<times> 'a)) option" where
  "with_count f s = map_option (\<lambda>(r, t). (r, (fst s, t))) (f (snd s))"

definition srs_server_thread :: "srs_server_input list \<Rightarrow> srs_world \<Rightarrow> ((bool \<times> srs_server_input list) \<times> srs_world) option" where
  "srs_server_thread inputs s =
     Option.bind (retry_thread fst (\<lambda>(n, t). (n + 1, t)) (with_count srs_server_close) (with_count srs_server_open)
       (\<lambda>inputs. with_count (srs_server_loop inputs)) inputs (0, s)) (\<lambda>((stopped, inputs), _, s).
     if stopped then Option.bind (srs_server_close s) (\<lambda>(_, s). Some ((True, inputs), s)) else Some ((False, inputs), s))"

subsection \<open>The client\<close>

definition srs_create :: "srs_world \<Rightarrow> (int \<times> srs_world) option" where
  "srs_create s = srs_section (\<lambda>s.
     let s = s\<lparr>srs_available := False\<rparr>;
         (server_event_fd, s) = srs_sys 0 s in
     if server_event_fd < 0 then Some (-1, s)
     else
       let (event_fd, s) = srs_sys 0 s in
       if event_fd < 0 then Some (-1, s)
       else Some (0, s\<lparr>srs_data := True, srs_server_fd := -1, srs_client_fd := -1, srs_server_event_fd := server_event_fd,
         srs_event_fd := event_fd, srs_server_event := 0, srs_event := 0, srs_clients := []\<rparr>)) s"

text \<open>When the thread cannot be started the server is closed with the mutex held. Starting the thread is all that \<open>pthread_create\<close> does here; what the thread does is
  \<open>srs_server_thread\<close>.\<close>

definition srs_open :: "srs_world \<Rightarrow> (int \<times> srs_world) option" where
  "srs_open s =
     (if \<not> srs_data s then Some (-1, s)
      else if srs_event_fd s < 0 then Some (-1, s)
      else Option.bind (srs_server_open s) (\<lambda>(rc, s).
        if rc < 0 then Some (-1, s)
        else srs_section (\<lambda>s.
          let (rc, s) = srs_sys 0 s in
          if rc \<noteq> 0 then Option.bind (srs_server_close (s\<lparr>srs_locked := True\<rparr>)) (\<lambda>(_, s). Some (-1, s\<lparr>srs_locked := False\<rparr>))
          else Some (0, s\<lparr>srs_event := snd (eventfd_flush (srs_event s)), srs_available := True\<rparr>)) s))"

text \<open>The thread was created detached, so that joining it fails at once; the result is not used.\<close>

definition srs_close :: "srs_world \<Rightarrow> (int \<times> srs_world) option" where
  "srs_close s =
     (if \<not> srs_data s then Some (-1, s)
      else if srs_event_fd s < 0 then Some (-1, s)
      else Option.bind (srs_section (\<lambda>s. Some (0 :: int, s\<lparr>srs_event := snd (eventfd_send SRS_CLIENT_CLOSE (srs_event s)), srs_client_fd := -1\<rparr>)) s) (\<lambda>(_, s).
        Option.bind (srs_server_close s) (\<lambda>(rc, s). if rc < 0 then Some (-1, s)
        else Option.bind (srs_client_flush s) (\<lambda>(rc, s). Some (if rc < 0 then -1 else 0, s)))))"

definition srs_destroy :: "srs_world \<Rightarrow> (int \<times> srs_world) option" where
  "srs_destroy s =
     (if \<not> srs_data s then Some (-1, s)
      else Option.bind (if srs_available s then srs_close s else Some (0, s)) (\<lambda>(_, s).
        srs_section (\<lambda>s. Some (0, s\<lparr>srs_available := False, srs_data := False\<rparr>)) s))"

text \<open>What \<open>select\<close> reports to the loop: an error, or that on some connections bytes have arrived, or none with the end of the connection.\<close>

datatype srs_poll = Srs_poll_error | Srs_poll "(int \<times> u8 list) list"

definition srs_arrive :: "(int \<times> u8 list) list \<Rightarrow> srs_world \<Rightarrow> srs_world" where
  "srs_arrive arrivals s = s\<lparr>srs_pending := fold (\<lambda>(fd, bytes) p. p(fd := p fd @ bytes)) arrivals (srs_pending s)\<rparr>"

definition srs_ready :: "(int \<times> u8 list) list \<Rightarrow> srs_world \<Rightarrow> int list \<Rightarrow> int list" where
  "srs_ready arrivals s fds = filter (\<lambda>fd. fd \<in> fst ` set arrivals \<or> srs_pending s fd \<noteq> []) fds"

text \<open>Closing a connection from the loop.\<close>

definition srs_drop :: "addr \<Rightarrow> srs_world \<Rightarrow> (int \<times> srs_world) option" where
  "srs_drop client s = (case node_get (srs_clients s) client of None \<Rightarrow> None | Some fd \<Rightarrow>
     srs_client_unregister client ((srs_close_fd fd s)\<lparr>srs_client_fd := -1\<rparr>))"

text \<open>The body of the inner loop for one connection.\<close>

definition srs_serve_client :: "addr \<Rightarrow> srs_world \<Rightarrow> (int \<times> srs_world) option" where
  "srs_serve_client client s = (case node_get (srs_clients s) client of None \<Rightarrow> None | Some fd \<Rightarrow>
     Option.bind (srs_client_recv (s\<lparr>srs_client_fd := fd\<rparr>)) (\<lambda>((rc, message), s).
     if rc < 0 then srs_drop client s
     else Option.bind (srs_dispatch message s) (\<lambda>(rc, s).
       if rc < 0 then srs_drop client s else Some (0, s\<lparr>srs_client_fd := -1\<rparr>))))"

function srs_serve :: "int list \<Rightarrow> srs_world \<Rightarrow> (int \<times> srs_world) option" where
  "srs_serve fds s = Option.bind (srs_client_find_fd_set fds s) (\<lambda>((client, fds), s). case client of
      None \<Rightarrow> Some (0, s)
    | Some p \<Rightarrow> Option.bind (srs_serve_client p s) (\<lambda>(_, s). srs_serve fds s))"
  by pat_completeness auto

lemma srs_client_find_fd_set_shrinks:
  assumes "srs_client_find_fd_set fds s = Some ((Some p, fds'), t)"
  shows "length fds' < length fds"
proof -
  obtain fd where "find (\<lambda>n. snd n \<in> set fds) (srs_clients s) = Some (p, fd)" "fds' = filter (\<lambda>x. x \<noteq> fd) fds"
    using assms by (auto simp: srs_client_find_fd_set_def srs_section_def split: if_splits option.splits)
  moreover from this(1) have "fd \<in> set fds"
    by (metis find_Some_iff snd_conv)
  ultimately show ?thesis
    by (simp add: length_filter_less)
qed

termination srs_serve
  by (relation "measure (\<lambda>(fds, s). length fds)") (auto dest!: srs_client_find_fd_set_shrinks)

declare srs_serve.simps [simp del]

text \<open>One round of the loop. After the inner loop the variable \<open>client\<close> is \<open>NULL\<close>, and before the first round it has no value, so the
  event \<open>SRS_CLIENT_IO_ERROR\<close>, which uses it, is undefined in every round.\<close>

definition srs_check :: "srs_world \<Rightarrow> (loop_result \<times> srs_world) option" where
  "srs_check s = Some (if \<not> srs_available s then Loop_return (-1) else Loop_continue, s)"

definition srs_round :: "srs_poll \<Rightarrow> srs_world \<Rightarrow> (loop_result \<times> srs_world) option" where
  "srs_round input s = Option.bind (srs_client_fd_set_setup s) (\<lambda>((_, fds), s). case input of
      Srs_poll_error \<Rightarrow> Some (Loop_return (-1), s)
    | Srs_poll arrivals \<Rightarrow>
        let s = srs_arrive arrivals s;
            fds = srs_ready arrivals s fds;
            ready = srs_event s > 0;
            (rc, event, c) = (if ready then eventfd_recv (srs_event s) else (0, None, srs_event s));
            s = s\<lparr>srs_event := c\<rparr> in
        if ready \<and> rc < 0 then Some (Loop_return (-1), s)
        else if event = Some SRS_CLIENT_CLOSE then Some (Loop_return 0, s)
        else if event = Some SRS_CLIENT_IO_ERROR then None
        else Option.bind (srs_serve fds s) (\<lambda>(_, s). Some (Loop_continue, s)))"

definition srs_loop :: "srs_poll list \<Rightarrow> srs_world \<Rightarrow> ((int option \<times> srs_poll list) \<times> srs_world) option" where
  "srs_loop inputs s =
     (if \<not> srs_data s then Some ((Some (-1), inputs), s)
      else if srs_event_fd s < 0 then Some ((Some (-1), inputs), s)
      else loop_rounds srs_check srs_round inputs s)"

subsection \<open>The connections\<close>

text \<open>The descriptors of connections that a trace leaves open, in the order of their acceptance; a trace that accepts a descriptor that is open, or closes one that
  is not, has no such list.\<close>

fun connection_step :: "srs_action \<Rightarrow> int list \<Rightarrow> int list option" where
  "connection_step (Srs_accepted fd) fds = (if fd \<in> set fds then None else Some (fds @ [fd]))"
| "connection_step (Srs_closed fd) fds = (if fd \<in> set fds then Some (remove1 fd fds) else None)"
| "connection_step _ fds = Some fds"

definition connections :: "srs_action list \<Rightarrow> int list option" where
  "connections actions = fold (\<lambda>a r. Option.bind r (connection_step a)) actions (Some [])"

lemma connections_snoc [simp]: "connections (actions @ [a]) = Option.bind (connections actions) (connection_step a)"
  by (simp add: connections_def)

lemma connection_step_other [simp]: "connection_step (Srs_wrote fd bytes) = Some" "connection_step (Srs_server_closed fd) = Some"
  by (simp_all add: fun_eq_iff)

lemma connections_Nil [simp]: "connections [] = Some []"
  by (simp add: connections_def)

text \<open>The invariant: no two nodes share an address or a descriptor, and the list holds exactly the open connections.\<close>

definition clients_ok :: "addr \<Rightarrow> int nodes \<Rightarrow> bool" where
  "clients_ok next ns \<longleftrightarrow> distinct (map fst ns) \<and> (\<forall>p \<in> fst ` set ns. p < next) \<and> distinct (map snd ns) \<and> (\<forall>fd \<in> snd ` set ns. 0 \<le> fd)"

definition srs_inv :: "srs_world \<Rightarrow> bool" where
  "srs_inv s \<longleftrightarrow> \<not> srs_locked s \<and> clients_ok (srs_next s) (srs_clients s) \<and> connections (srs_trace s) = Some (map snd (srs_clients s))"

text \<open>Steps that leave the connections and the life of the client alone.\<close>

definition srs_same :: "srs_world \<Rightarrow> srs_world \<Rightarrow> bool" where
  "srs_same s t \<longleftrightarrow> srs_clients t = srs_clients s \<and> srs_next t = srs_next s \<and> srs_locked t = srs_locked s \<and> srs_data t = srs_data s \<and>
     srs_available t = srs_available s \<and> srs_failures t = srs_failures s \<and> srs_server_fd t = srs_server_fd s \<and>
     srs_server_event_fd t = srs_server_event_fd s \<and> srs_event_fd t = srs_event_fd s \<and> connections (srs_trace t) = connections (srs_trace s)"

lemma srs_same_refl [simp]: "srs_same s s"
  by (simp add: srs_same_def)

lemma srs_same_trans: "srs_same s t \<Longrightarrow> srs_same t u \<Longrightarrow> srs_same s u"
  by (simp add: srs_same_def)

lemma srs_same_inv: "srs_same s t \<Longrightarrow> srs_inv s \<and> srs_data s \<Longrightarrow> srs_inv t \<and> srs_data t"
  by (simp add: srs_same_def srs_inv_def)

lemma srs_same_sys [simp]: "srs_same s (snd (srs_sys rc t)) = srs_same s t"
  by (simp add: srs_same_def srs_sys_def)

lemma srs_same_update [simp]:
  "srs_same s (t\<lparr>srs_client_fd := fd\<rparr>) = srs_same s t" "srs_same s (t\<lparr>srs_event := e\<rparr>) = srs_same s t"
  "srs_same s (t\<lparr>srs_ril := r\<rparr>) = srs_same s t" "srs_same s (t\<lparr>srs_pending := p\<rparr>) = srs_same s t"
  "srs_same s (t\<lparr>srs_server_event := e\<rparr>) = srs_same s t" "srs_same s (srs_emit (Srs_wrote x bs) t) = srs_same s t"
  by (simp_all add: srs_same_def srs_emit_def)

lemma srs_same_send: "srs_client_send message s = Some (rc, t) \<Longrightarrow> srs_same s t"
  by (auto simp: srs_client_send_def srs_section_def Let_def split_beta bind_eq_Some_conv split: if_splits)

lemma srs_same_srs_send: "srs_send command data s = Some (rc, t) \<Longrightarrow> srs_same s t"
  by (auto simp: srs_send_def bind_eq_Some_conv split: if_splits dest: srs_same_send)

lemma srs_same_recv: "srs_client_recv s = Some (r, t) \<Longrightarrow> srs_same s t"
  by (auto simp: srs_client_recv_def srs_section_def Let_def split_beta bind_eq_Some_conv split: if_splits)

lemma srs_same_on_ril: "on_ril f message s = Some (rc, t) \<Longrightarrow> srs_same s t"
  by (auto simp: on_ril_def bind_eq_Some_conv)

lemma srs_same_ping: "srs_control_ping message s = Some (rc, t) \<Longrightarrow> srs_same s t"
  by (auto simp: srs_control_ping_def bind_eq_Some_conv split: list.splits if_splits dest: srs_same_srs_send)

lemma srs_same_dispatch: "srs_dispatch message s = Some (rc, t) \<Longrightarrow> srs_same s t"
  by (auto simp: srs_dispatch_def srs_dispatch_handlers_def bind_eq_Some_conv split: if_splits dest: srs_same_ping srs_same_on_ril)

lemma map_snd_node_remove:
  "distinct (map fst ns) \<Longrightarrow> distinct (map snd ns) \<Longrightarrow> node_get ns p = Some x \<Longrightarrow> map snd (node_remove p ns) = remove1 x (map snd ns)"
proof (induction ns)
  case (Cons n ns)
  show ?case
  proof (cases "fst n = p")
    case True
    then show ?thesis
      using Cons.prems by (cases n) (auto simp: node_remove_notin)
  next
    case False
    then have get: "node_get ns p = Some x"
      using Cons.prems(3) by (cases n) auto
    then have "(p, x) \<in> set ns"
      by (rule map_of_SomeD)
    then have "snd n \<noteq> x"
      using Cons.prems(2) by (auto simp: image_iff)
    then show ?thesis
      using False Cons get by simp
  qed
qed simp

lemma clients_ok_remove:
  assumes "clients_ok next ns" and "node_get ns p = Some fd"
  shows "clients_ok next (node_remove p ns)" and "0 \<le> fd" and "fd \<in> set (map snd ns)"
    and "map snd (node_remove p ns) = remove1 fd (map snd ns)"
proof -
  have "(p, fd) \<in> set ns"
    using assms(2) by (rule map_of_SomeD)
  then show mem: "fd \<in> set (map snd ns)"
    by force
  then show "0 \<le> fd"
    using assms(1) by (auto simp: clients_ok_def)
  show remove: "map snd (node_remove p ns) = remove1 fd (map snd ns)"
    using assms by (intro map_snd_node_remove) (simp_all add: clients_ok_def)
  then show "clients_ok next (node_remove p ns)"
    using assms(1) by (auto simp: clients_ok_def set_node_remove)
qed

lemma clients_ok_append:
  assumes "clients_ok next ns" and "fd \<notin> snd ` set ns" and "0 \<le> fd"
  shows "clients_ok (Suc next) (node_append next fd ns)"
proof -
  have "next \<notin> fst ` set ns"
    using assms(1) by (auto simp: clients_ok_def)
  then show ?thesis
    using assms by (auto simp: clients_ok_def node_append_def less_Suc_eq)
qed

lemma srs_drop_eq:
  assumes "srs_inv s" and "srs_data s" and "node_get (srs_clients s) p = Some fd"
  shows "srs_drop p s = Some (0, (srs_emit (Srs_closed fd) s)\<lparr>srs_pending := (srs_pending s)(fd := []), srs_client_fd := -1,
    srs_clients := node_remove p (srs_clients s)\<rparr>)"
  using assms clients_ok_remove(2) [of "srs_next s" "srs_clients s"]
  by (auto simp: srs_drop_def srs_client_unregister_def srs_section_def srs_close_fd_def srs_emit_def srs_inv_def)

lemma srs_inv_remove:
  assumes "srs_inv s" and "node_get (srs_clients s) p = Some fd"
  shows "srs_inv ((srs_emit (Srs_closed fd) s)\<lparr>srs_clients := node_remove p (srs_clients s)\<rparr>)"
proof -
  have ok: "clients_ok (srs_next s) (srs_clients s)"
    using assms(1) by (simp add: srs_inv_def)
  show ?thesis
    using assms(1) clients_ok_remove [OF ok assms(2)] by (simp add: srs_inv_def srs_emit_def)
qed

lemma srs_drop_inv:
  assumes "srs_inv s" and "srs_data s" and "srs_drop p s = Some (rc, t)"
  shows "srs_inv t \<and> srs_data t"
proof -
  obtain fd where fd: "node_get (srs_clients s) p = Some fd"
    using assms(3) by (auto simp: srs_drop_def split: option.splits)
  show ?thesis
    using srs_inv_remove [OF assms(1) fd] assms(2) trans [OF assms(3) [symmetric] srs_drop_eq [OF assms(1,2) fd]]
    by (simp add: srs_inv_def srs_emit_def)
qed

lemma srs_serve_client_inv:
  assumes "srs_inv s" and "srs_data s" and "srs_serve_client p s = Some (rc, t)"
  shows "srs_inv t \<and> srs_data t"
proof -
  obtain fd rc1 message u where u: "node_get (srs_clients s) p = Some fd" "srs_client_recv (s\<lparr>srs_client_fd := fd\<rparr>) = Some ((rc1, message), u)"
    using assms(3) by (auto simp: srs_serve_client_def bind_eq_Some_conv split: option.splits)
  have "srs_same s u"
    using srs_same_recv [OF u(2)] by (simp add: srs_same_def)
  then have inv: "srs_inv u" "srs_data u"
    using assms(1,2) srs_same_inv by blast+
  show ?thesis
  proof (cases "rc1 < 0")
    case True
    then have "srs_drop p u = Some (rc, t)"
      using assms(3) u by (simp add: srs_serve_client_def)
    then show ?thesis
      by (rule srs_drop_inv [OF inv])
  next
    case False
    then obtain rc2 v where v: "srs_dispatch message u = Some (rc2, v)"
      using assms(3) u by (auto simp: srs_serve_client_def bind_eq_Some_conv)
    have "srs_inv v" "srs_data v"
      using srs_same_dispatch [OF v] srs_same_inv inv by blast+
    moreover have "(if rc2 < 0 then srs_drop p v else Some (0, v\<lparr>srs_client_fd := -1\<rparr>)) = Some (rc, t)"
      using assms(3) u v False by (simp add: srs_serve_client_def)
    ultimately show ?thesis
      using srs_drop_inv [of v p rc t] by (cases "rc2 < 0") (auto simp: srs_inv_def)
  qed
qed

lemma srs_find_fd_set_same: "srs_client_find_fd_set fds s = Some (r, t) \<Longrightarrow> t = s"
  by (auto simp: srs_client_find_fd_set_def srs_section_def split: if_splits)

lemma srs_serve_inv:
  assumes "srs_inv s" and "srs_data s" and "srs_serve fds s = Some (rc, t)"
  shows "srs_inv t \<and> srs_data t"
  using assms
proof (induction fds s rule: srs_serve.induct)
  case (1 fds s)
  from 1(4) obtain client fds' u where find: "srs_client_find_fd_set fds s = Some ((client, fds'), u)"
    by (auto simp: srs_serve.simps [of fds s] bind_eq_Some_conv)
  then have same: "u = s"
    by (rule srs_find_fd_set_same)
  show ?case
  proof (cases client)
    case None
    then show ?thesis
      using 1(2-4) find same by (simp add: srs_serve.simps [of fds s])
  next
    case (Some p)
    then obtain rc1 v where v: "srs_serve_client p s = Some (rc1, v)" "srs_serve fds' v = Some (rc, t)"
      using 1(4) find same by (auto simp: srs_serve.simps [of fds s] bind_eq_Some_conv)
    then show ?thesis
      using 1(1) [OF find [unfolded same] refl refl Some v(1) refl] srs_serve_client_inv [OF 1(2,3) v(1)] by blast
  qed
qed

text \<open>The event zero cannot be received, so a round either meets the I/O error event or serves the connections that are ready.\<close>

lemma srs_round_eq:
  assumes "srs_data s" and "\<not> srs_locked s"
  shows "srs_round (Srs_poll arrivals) s = (if srs_event s = SRS_CLIENT_IO_ERROR then None
    else Option.bind (srs_serve (srs_ready arrivals (srs_arrive arrivals s) (map snd (srs_clients s))) ((srs_arrive arrivals s)\<lparr>srs_event := 0\<rparr>))
      (\<lambda>(_, s). Some (Loop_continue, s)))"
proof -
  have "srs_event (srs_arrive arrivals s) = srs_event s" "srs_clients (srs_arrive arrivals s) = srs_clients s"
    by (simp_all add: srs_arrive_def)
  then show ?thesis
    using assms by (simp add: srs_round_def srs_client_fd_set_setup_def srs_section_def Let_def eventfd_recv_def eventfd_read_def
      SRS_CLIENT_CLOSE_def SRS_CLIENT_IO_ERROR_def)
qed

lemma srs_round_inv:
  assumes "srs_inv s" and "srs_data s" and "srs_round input s = Some (r, t)"
  shows "srs_inv t \<and> srs_data t"
proof (cases input)
  case Srs_poll_error
  then show ?thesis
    using assms by (auto simp: srs_round_def srs_client_fd_set_setup_def srs_section_def split: if_splits)
next
  case (Srs_poll arrivals)
  have "srs_inv ((srs_arrive arrivals s)\<lparr>srs_event := 0\<rparr>)" "srs_data ((srs_arrive arrivals s)\<lparr>srs_event := 0\<rparr>)"
    using assms(1,2) by (simp_all add: srs_inv_def srs_arrive_def)
  note serve = srs_serve_inv [OF this]
  have "\<not> srs_locked s"
    using assms(1) by (simp add: srs_inv_def)
  then show ?thesis
    using assms(2,3) Srs_poll by (auto simp: srs_round_eq bind_eq_Some_conv split: if_splits dest: serve)
qed

lemma srs_server_round_inv:
  assumes "srs_inv s" and "srs_data s" and "\<And>fd. input = Srs_server_connect fd \<Longrightarrow> fd \<notin> snd ` set (srs_clients s)"
    and "srs_server_round input s = Some (r, t)"
  shows "srs_inv t \<and> srs_data t"
proof (cases input)
  case (Srs_server_connect fd)
  then have "fd \<notin> snd ` set (srs_clients s)"
    by (rule assms(3))
  moreover from this have "0 \<le> fd \<Longrightarrow> clients_ok (Suc (srs_next s)) (node_append (srs_next s) fd (srs_clients s))"
    using assms(1) by (intro clients_ok_append) (simp_all add: srs_inv_def)
  ultimately show ?thesis
    using assms(1,2,4) Srs_server_connect
    by (auto simp: srs_server_round_def srs_client_register_def srs_section_def Let_def split_beta srs_inv_def srs_emit_def node_append_def
      split: if_splits)
qed (use assms in \<open>auto simp: srs_server_round_def Let_def split_beta srs_inv_def split: if_splits\<close>)

text \<open>Closing all connections ends, and closes each of them once, in the order of the list.\<close>

lemma srs_close_clients_eq:
  assumes "srs_inv s" and "srs_data s"
  shows "srs_close_clients s = Some (0, s\<lparr>srs_clients := [], srs_trace := srs_trace s @ map Srs_closed (map snd (srs_clients s)),
    srs_pending := fold (\<lambda>fd p. p(fd := [])) (map snd (srs_clients s)) (srs_pending s)\<rparr>)"
  using assms
proof (induction "srs_clients s" arbitrary: s)
  case Nil
  then show ?case
    by (subst srs_close_clients.simps) (simp add: srs_client_find_def srs_section_def srs_inv_def Nil.hyps [symmetric])
next
  case (Cons n ns)
  obtain p fd where n: "n = (p, fd)"
    by (cases n)
  have clients: "srs_clients s = (p, fd) # ns"
    using Cons.hyps(2) n by simp
  have get: "node_get (srs_clients s) p = Some fd"
    by (simp add: clients)
  have fresh: "p \<notin> fst ` set ns" "0 \<le> fd" "\<not> srs_locked s"
    using Cons.prems(1) by (auto simp: srs_inv_def clients_ok_def clients)
  then have removed: "node_remove p (srs_clients s) = ns"
    by (simp add: clients node_remove_notin)
  define t where "t = (srs_emit (Srs_closed fd) (s\<lparr>srs_pending := (srs_pending s)(fd := [])\<rparr>))\<lparr>srs_clients := ns\<rparr>"
  have step: "srs_close_clients s = srs_close_clients t"
    using fresh Cons.prems(2) get removed
    by (subst srs_close_clients.simps) (simp add: srs_client_find_def srs_section_def clients srs_client_unregister_def srs_close_fd_def
      srs_emit_def t_def)
  have t: "srs_inv t" "srs_data t" "ns = srs_clients t"
    using srs_inv_remove [OF Cons.prems(1) get] Cons.prems(2) removed by (simp_all add: t_def srs_inv_def srs_emit_def)
  show ?case
    unfolding step Cons.hyps(1) [OF t(3,1,2)] by (simp add: t_def srs_emit_def clients)
qed

lemma connections_close_all: "connections actions = Some fds \<Longrightarrow> connections (actions @ map Srs_closed fds) = Some []"
proof (induction fds arbitrary: actions)
  case (Cons fd fds)
  then have "connections (actions @ [Srs_closed fd]) = Some fds"
    by simp
  from Cons.IH [OF this] show ?case
    by simp
qed simp

lemma srs_server_close_eq:
  assumes "srs_inv s" and "srs_data s" and "0 \<le> srs_server_event_fd s"
  shows "\<exists>t. srs_server_close s = Some (0, t) \<and> srs_inv t \<and> srs_clients t = [] \<and> srs_data t \<and> srs_server_event_fd t = srs_server_event_fd s \<and>
    srs_event_fd t = srs_event_fd s \<and> srs_trace t = srs_trace s @ map Srs_closed (map snd (srs_clients s)) @
      (if 0 \<le> srs_server_fd s then [Srs_server_closed (srs_server_fd s)] else [])"
proof -
  have "connections (srs_trace s @ map Srs_closed (map snd (srs_clients s))) = Some []"
    using assms(1) by (intro connections_close_all) (simp add: srs_inv_def)
  moreover have "clients_ok (srs_next s) []"
    by (simp add: clients_ok_def)
  ultimately show ?thesis
    using assms by (simp add: srs_server_close_def srs_close_clients_eq srs_section_def Let_def srs_emit_def srs_inv_def flip: append_assoc)
qed

lemma srs_server_close_inv: "srs_inv s \<Longrightarrow> srs_data s \<Longrightarrow> srs_server_close s = Some (rc, t) \<Longrightarrow> srs_inv t \<and> srs_data t"
  using srs_server_close_eq [of s] by (cases "0 \<le> srs_server_event_fd s") (auto simp: srs_server_close_def)

lemma srs_server_open_inv: "srs_inv s \<Longrightarrow> srs_data s \<Longrightarrow> srs_server_open s = Some (rc, t) \<Longrightarrow> srs_inv t \<and> srs_data t"
  by (auto simp: srs_server_open_def srs_section_def srs_inv_def srs_sys_def Let_def split: if_splits)

text \<open>The error path of \<open>srs_open\<close> is not among the cases here: it is undefined.\<close>

lemma srs_server_close_locked:
  assumes "srs_locked s" and "srs_data s" and "0 \<le> srs_server_event_fd s"
  shows "srs_server_close s = None"
proof -
  have "srs_close_clients s = None"
    using assms by (subst srs_close_clients.simps) (simp add: srs_client_find_def srs_section_def)
  then show ?thesis
    using assms by (simp add: srs_server_close_def)
qed

lemma srs_open_inv:
  assumes "srs_inv s" and "srs_data s" and "srs_open s = Some (rc, t)"
  shows "srs_inv t \<and> srs_data t"
proof (cases "srs_event_fd s < 0")
  case True
  then show ?thesis
    using assms by (simp add: srs_open_def)
next
  case False
  then obtain rc1 u where u: "srs_server_open s = Some (rc1, u)"
    using assms by (auto simp: srs_open_def bind_eq_Some_conv)
  have inv: "srs_inv u" "srs_data u"
    using srs_server_open_inv [OF assms(1,2) u] by simp_all
  have "0 \<le> srs_server_event_fd u" if "0 \<le> rc1"
    using that u assms(2) by (auto simp: srs_server_open_def srs_section_def srs_sys_def Let_def split: if_splits)
  then have "srs_server_close ((snd (srs_sys 0 u))\<lparr>srs_locked := True\<rparr>) = None" if "0 \<le> rc1"
    using that inv by (intro srs_server_close_locked) (simp_all add: srs_sys_def)
  then show ?thesis
    using assms u False inv
    by (auto simp: srs_open_def srs_section_def Let_def split_beta srs_inv_def srs_sys_def split: if_splits)
qed

lemma srs_close_inv:
  assumes "srs_inv s" and "srs_data s" and "srs_close s = Some (rc, t)"
  shows "srs_inv t \<and> srs_data t"
proof (cases "srs_event_fd s < 0 \<or> srs_server_event_fd s < 0")
  case True
  then show ?thesis
    using assms by (auto simp: srs_close_def srs_section_def srs_server_close_def srs_inv_def split: if_splits)
next
  case False
  define u where "u = s\<lparr>srs_event := snd (eventfd_send SRS_CLIENT_CLOSE (srs_event s)), srs_client_fd := -1\<rparr>"
  have "srs_inv u" "srs_data u" "0 \<le> srs_server_event_fd u"
    using assms(1,2) False by (simp_all add: u_def srs_inv_def)
  then obtain v where v: "srs_server_close u = Some (0, v)" "srs_inv v" "srs_clients v = []" "srs_data v"
    using srs_server_close_eq by blast
  have "\<not> srs_locked s"
    using assms(1) by (simp add: srs_inv_def)
  then have "srs_close s = Some (0, v\<lparr>srs_clients := []\<rparr>)"
    using assms(2) False v by (simp add: srs_close_def srs_section_def u_def [symmetric] srs_client_flush_def srs_inv_def)
  then show ?thesis
    using assms(3) v by (simp add: srs_inv_def)
qed

subsection \<open>Interleaving\<close>

text \<open>The states that whole rounds of the loops and whole calls lead to, in any order, from a client that was created;
  \<open>accept\<close> returns a descriptor that is not in use. The code does not keep the threads from running inside of each other's rounds: that is the subject of \<open>Srs_Threads\<close>.\<close>

inductive srs_reachable :: "srs_world \<Rightarrow> bool" where
  created: "srs_create s = Some (0, t) \<Longrightarrow> srs_trace s = [] \<Longrightarrow> srs_reachable t"
| opened: "srs_reachable s \<Longrightarrow> srs_open s = Some (rc, t) \<Longrightarrow> srs_reachable t"
| closed: "srs_reachable s \<Longrightarrow> srs_close s = Some (rc, t) \<Longrightarrow> srs_reachable t"
| server_opened: "srs_reachable s \<Longrightarrow> srs_server_open s = Some (rc, t) \<Longrightarrow> srs_reachable t"
| server_closed: "srs_reachable s \<Longrightarrow> srs_server_close s = Some (rc, t) \<Longrightarrow> srs_reachable t"
| served: "srs_reachable s \<Longrightarrow> srs_check s = Some (Loop_continue, s) \<Longrightarrow> srs_round input s = Some (r, t) \<Longrightarrow> srs_reachable t"
| accepted: "srs_reachable s \<Longrightarrow> srs_server_check s = Some (Loop_continue, s) \<Longrightarrow>
    (\<And>fd. input = Srs_server_connect fd \<Longrightarrow> fd \<notin> snd ` set (srs_clients s)) \<Longrightarrow> srs_server_round input s = Some (r, t) \<Longrightarrow> srs_reachable t"

lemma srs_create_inv: "srs_create s = Some (0, t) \<Longrightarrow> srs_trace s = [] \<Longrightarrow> srs_inv t \<and> srs_data t"
  by (auto simp: srs_create_def srs_section_def Let_def srs_sys_def srs_inv_def clients_ok_def split: if_splits)

lemma srs_reachable_inv: "srs_reachable s \<Longrightarrow> srs_inv s \<and> srs_data s"
proof (induction rule: srs_reachable.induct)
  case (accepted s input r t)
  then show ?case
    using srs_server_round_inv [of s input r t] by blast
qed (blast dest: srs_create_inv srs_open_inv srs_close_inv srs_server_open_inv srs_server_close_inv srs_round_inv)+

subsection \<open>One message\<close>

lemma srs_sys_quiet [simp]: "srs_io s = [] \<Longrightarrow> srs_sys rc s = (rc, s)"
  by (simp add: srs_sys_def)

lemma srs_client_recv_eq:
  assumes "srs_data s" and "\<not> srs_locked s" and "0 \<le> srs_client_fd s" and "srs_io s = []"
  shows "srs_client_recv s = Option.bind (srs_recv_buffer (take SRS_BUFFER_LENGTH (srs_pending s (srs_client_fd s)))) (\<lambda>r.
    Some (case r of None \<Rightarrow> (-1, \<lparr>srs_command = 0, srs_message_data = []\<rparr>) | Some message \<Rightarrow> (0, message),
      s\<lparr>srs_pending := (srs_pending s)(srs_client_fd s := drop SRS_BUFFER_LENGTH (srs_pending s (srs_client_fd s)))\<rparr>))"
proof -
  have "drop (min SRS_BUFFER_LENGTH (length bs)) bs = drop SRS_BUFFER_LENGTH bs" "take (min SRS_BUFFER_LENGTH (length bs)) (take SRS_BUFFER_LENGTH bs) = take SRS_BUFFER_LENGTH bs" for bs :: "u8 list"
    by (auto simp: min_def)
  then show ?thesis
    using assms by (simp add: srs_client_recv_def srs_section_def Let_def min.commute)
qed

lemma find_False [simp]: "find (\<lambda>_. False) xs = None"
  by (induction xs) auto

lemma filter_single: "distinct xs \<Longrightarrow> x \<in> set xs \<Longrightarrow> filter (\<lambda>y. y = x) xs = [x]"
  by (induction xs) (auto simp: filter_empty_conv)

lemma srs_find_fd_set_Nil: "\<not> srs_locked s \<Longrightarrow> srs_client_find_fd_set [] s = Some ((None, []), s)"
  by (simp add: srs_client_find_fd_set_def srs_section_def)

lemma find_unique: "distinct (map snd ns) \<Longrightarrow> (p, fd) \<in> set ns \<Longrightarrow> find (\<lambda>n. snd n = fd) ns = Some (p, fd)"
  by (induction ns) (auto simp: image_iff)

text \<open>A round in which exactly one connection is ready.\<close>

lemma srs_round_single:
  assumes "srs_inv s" and "srs_data s" and "srs_event s \<noteq> SRS_CLIENT_IO_ERROR" and "(p, fd) \<in> set (srs_clients s)"
    and "srs_pending s = (\<lambda>_. [])"
  shows "srs_round (Srs_poll [(fd, bytes)]) s =
    map_option (\<lambda>(_, t). (Loop_continue, t)) (srs_serve_client p (s\<lparr>srs_pending := (\<lambda>_. [])(fd := bytes), srs_event := 0\<rparr>))"
proof -
  let ?s = "s\<lparr>srs_pending := (\<lambda>_. [])(fd := bytes), srs_event := 0\<rparr>"
  have inv: "srs_inv ?s" "srs_data ?s" "\<not> srs_locked s"
    using assms(1,2) by (simp_all add: srs_inv_def)
  have distinct: "distinct (map snd (srs_clients s))"
    using assms(1) by (simp add: srs_inv_def clients_ok_def)
  then have "filter (\<lambda>x. x = fd) (map snd (srs_clients s)) = [fd]"
    using assms(4) by (intro filter_single) force+
  then have ready: "srs_ready [(fd, bytes)] (srs_arrive [(fd, bytes)] s) (map snd (srs_clients s)) = [fd]"
    using assms(5) by (simp add: srs_ready_def srs_arrive_def cong: filter_cong)
  have "srs_client_find_fd_set [fd] ?s = Some ((Some p, []), ?s)"
    using inv assms(2) find_unique [OF distinct assms(4)] by (simp add: srs_client_find_fd_set_def srs_section_def)
  moreover have "srs_serve [] t = Some (0, t)" if "srs_serve_client p ?s = Some (rc, t)" for rc t
    using srs_serve_client_inv [OF inv(1,2) that] by (subst srs_serve.simps) (simp add: srs_find_fd_set_Nil srs_inv_def)
  ultimately have "srs_serve [fd] ?s = map_option (\<lambda>(_, t). (0, t)) (srs_serve_client p ?s)"
    by (subst srs_serve.simps) (cases "srs_serve_client p ?s"; auto)
  then show ?thesis
    using assms(2,3) inv(3) ready
    by (simp add: srs_round_eq) (simp add: srs_arrive_def assms(5) option.map_comp comp_def split_beta Option.bind_map_option; cases "srs_serve_client p ?s"; simp add: split_beta)
qed

definition ping_message :: srs_message where
  "ping_message = \<lparr>srs_command = SRS_CONTROL_PING, srs_message_data = bytes32 SRS_CONTROL_CAFFE\<rparr>"

definition ping_bytes :: "u8 list" where
  "ping_bytes = srs_header_bytes (srs_header_setup ping_message) @ bytes32 SRS_CONTROL_CAFFE"

lemma length_ping_bytes [simp]: "length ping_bytes = 10"
  by (simp add: ping_bytes_def)

lemma ping_send_buffer [simp]: "srs_send_buffer ping_message = Some ping_bytes"
  using srs_send_buffer_eq [of ping_message] by (simp add: ping_bytes_def ping_message_def)

lemma ping_recv_buffer [simp]: "srs_recv_buffer ping_bytes = Some (Some ping_message)"
  using srs_recv_buffer_frame [of ping_message "[]"] by (simp add: ping_bytes_def ping_message_def srs_size_ok_def SRS_BUFFER_LENGTH_def)

text \<open>The handler of a ping, from the server's reply on.\<close>

lemma srs_dispatch_ping:
  assumes "ril_data_alive (srs_ril s)"
  shows "srs_dispatch ping_message s = map_option (\<lambda>(_, t). (0, t)) (srs_send SRS_CONTROL_PING (bytes32 SRS_CONTROL_CAFFE) s)"
proof -
  have "srs_control_ping ping_message s = map_option (\<lambda>(_, t). (0, t)) (srs_send SRS_CONTROL_PING (bytes32 SRS_CONTROL_CAFFE) s)"
    by (cases "srs_send SRS_CONTROL_PING (bytes32 SRS_CONTROL_CAFFE) s")
      (auto simp: srs_control_ping_def ping_message_def bytes32_def le32_bytes32 simp del: drop_bit_numeral_bit0 drop_bit_numeral_bit1)
  then show ?thesis
    using assms by (cases "srs_send SRS_CONTROL_PING (bytes32 SRS_CONTROL_CAFFE) s")
      (auto simp: srs_dispatch_def srs_dispatch_handlers_def ping_message_def)
qed

text \<open>A server that is running, with nothing to read.\<close>

definition srs_running :: "srs_world \<Rightarrow> bool" where
  "srs_running s \<longleftrightarrow> srs_inv s \<and> srs_data s \<and> srs_available s \<and> 0 \<le> srs_event_fd s \<and> srs_event s \<noteq> SRS_CLIENT_IO_ERROR \<and>
     srs_pending s = (\<lambda>_. []) \<and> ril_data_alive (srs_ril s)"

lemma srs_client_found:
  assumes "srs_inv s" and "(p, fd) \<in> set (srs_clients s)"
  shows "node_get (srs_clients s) p = Some fd" and "0 \<le> fd"
  using assms by (auto simp: srs_inv_def clients_ok_def)

lemma srs_round_ping:
  assumes "srs_running s" and "(p, fd) \<in> set (srs_clients s)"
  shows "srs_io s = [] \<Longrightarrow> srs_round (Srs_poll [(fd, ping_bytes)]) s =
      Some (Loop_continue, s\<lparr>srs_event := 0, srs_client_fd := -1, srs_trace := srs_trace s @ [Srs_wrote fd ping_bytes]\<rparr>)"
    and "srs_io s = [1, 10, rc] \<Longrightarrow> rc \<le> 0 \<Longrightarrow> srs_round (Srs_poll [(fd, ping_bytes)]) s =
      Some (Loop_continue, s\<lparr>srs_event := SRS_CLIENT_IO_ERROR, srs_client_fd := -1, srs_io := []\<rparr>)"
proof -
  have run: "srs_inv s" "srs_data s" "srs_available s" "0 \<le> srs_event_fd s" "srs_event s \<noteq> SRS_CLIENT_IO_ERROR" "srs_pending s = (\<lambda>_. [])"
    "ril_data_alive (srs_ril s)" "\<not> srs_locked s"
    using assms(1) by (simp_all add: srs_running_def srs_inv_def)
  have fd: "node_get (srs_clients s) p = Some fd" "0 \<le> fd"
    using srs_client_found [OF run(1) assms(2)] .
  have upd: "((\<lambda>_. [])(fd := ping_bytes))(fd := []) = (\<lambda>_. [])"
    by (simp add: fun_eq_iff)
  have ping: "\<lparr>srs_command = SRS_CONTROL_PING, srs_message_data = bytes32 SRS_CONTROL_CAFFE\<rparr> = ping_message"
    by (simp add: ping_message_def)
  note defs = srs_round_single [OF run(1,2,5) assms(2) run(6)] srs_serve_client_def srs_client_recv_def srs_section_def Let_def srs_dispatch_ping
    srs_send_def ping srs_client_send_def SRS_BUFFER_LENGTH_def
  show "srs_round (Srs_poll [(fd, ping_bytes)]) s =
      Some (Loop_continue, s\<lparr>srs_event := 0, srs_client_fd := -1, srs_trace := srs_trace s @ [Srs_wrote fd ping_bytes]\<rparr>)" if "srs_io s = []"
    using run fd upd that by (simp add: defs srs_emit_def)
  show "srs_round (Srs_poll [(fd, ping_bytes)]) s = Some (Loop_continue, s\<lparr>srs_event := SRS_CLIENT_IO_ERROR, srs_client_fd := -1, srs_io := []\<rparr>)"
    if "srs_io s = [1, 10, rc]" "rc \<le> 0"
    using run fd upd that by (simp add: defs srs_sys_def eventfd_send_def eventfd_flush_def eventfd_read_def)
qed

subsection \<open>The server's thread\<close>

definition srs_live :: "srs_world \<Rightarrow> bool" where
  "srs_live s \<longleftrightarrow> srs_data s \<and> \<not> srs_locked s \<and> 0 \<le> srs_server_event_fd s"

lemma srs_close_clients_live:
  assumes "srs_live s"
  shows "wp (srs_close_clients s) (\<lambda>_ t. srs_live t)"
  using assms
proof (induction "length (srs_clients s)" arbitrary: s rule: less_induct)
  case (less s)
  show ?case
  proof (cases "srs_clients s")
    case Nil
    then show ?thesis
      using less.prems by (subst srs_close_clients.simps) (simp add: srs_client_find_def srs_section_def srs_live_def)
  next
    case (Cons n ns)
    then have shorter: "length (node_remove (fst n) (srs_clients s)) < length (srs_clients s)"
      by (simp add: node_remove_def less_Suc_eq_le)
    define t where "t = (srs_close_fd (snd n) s)\<lparr>srs_clients := node_remove (fst n) (srs_clients s)\<rparr>"
    have "srs_clients (srs_close_fd (snd n) s) = srs_clients s" "srs_data (srs_close_fd (snd n) s) = srs_data s"
      "srs_locked (srs_close_fd (snd n) s) = srs_locked s" "srs_server_event_fd (srs_close_fd (snd n) s) = srs_server_event_fd s"
      by (simp_all add: srs_close_fd_def srs_emit_def)
    note keeps = this
    have "wp (srs_close_clients t) (\<lambda>_ t. srs_live t)"
      using less.prems shorter keeps by (intro less.hyps) (simp_all add: t_def srs_live_def)
    then show ?thesis
      using less.prems Cons keeps
      by (subst srs_close_clients.simps) (simp add: srs_client_find_def srs_section_def srs_live_def [of s] srs_client_unregister_def t_def
        split: prod.splits)
  qed
qed

lemma srs_server_close_live: "srs_live s \<Longrightarrow> wp (srs_server_close s) (\<lambda>_ t. srs_live t)"
  using srs_close_clients_live [of s]
  by (auto simp: srs_server_close_def srs_live_def srs_section_def Let_def srs_emit_def elim!: wp_mono)

lemma srs_server_open_live: "srs_live s \<Longrightarrow> wp (srs_server_open s) (\<lambda>_ t. srs_live t)"
  by (auto simp: srs_server_open_def srs_live_def srs_section_def Let_def srs_sys_def)

lemma srs_server_round_live:
  assumes "srs_live s" and "0 \<le> srs_server_fd s"
  shows "wp (srs_server_round input s) (loop_post (\<lambda>_. srs_live) (\<lambda>t. srs_live t \<and> 0 \<le> srs_server_fd t))"
  using assms by (cases input)
    (auto simp: srs_server_round_def srs_client_register_def srs_section_def srs_live_def Let_def srs_emit_def eventfd_recv_def eventfd_read_def)

interpretation srs_server: input_loop srs_server_check srs_server_round "\<lambda>s. srs_live s \<and> 0 \<le> srs_server_fd s" "\<lambda>_ _. True" "\<lambda>_. srs_live"
  by unfold_locales (auto simp: srs_server_check_def intro: srs_server_round_live)

lemma srs_server_loop_live:
  assumes "srs_live s"
  shows "wp (srs_server_loop inputs s) (\<lambda>(r, rest) t. srs_live t \<and> (rest = inputs \<or> length rest < length inputs))"
proof (cases "srs_server_fd s < 0 \<or> srs_event_fd s < 0")
  case True
  then show ?thesis
    using assms by (auto simp: srs_server_loop_def srs_live_def)
next
  case False
  then have loop: "srs_server_loop inputs s = loop_rounds srs_server_check srs_server_round inputs s"
    using assms by (simp add: srs_server_loop_def srs_live_def)
  have "wp (loop_rounds srs_server_check srs_server_round inputs s)
      (\<lambda>r s'. case fst r of None \<Rightarrow> srs_live s' \<and> 0 \<le> srs_server_fd s' | Some rc \<Rightarrow> srs_live s')"
    using assms False by (intro srs_server.rounds_keep) simp_all
  then obtain r rest t where t: "srs_server_loop inputs s = Some ((r, rest), t)" "srs_live t"
    unfolding loop by (auto simp: wp_def split: option.splits)
  then obtain n where "rest = drop n inputs"
    using loop_rounds_suffix [OF t(1) [unfolded loop]] by blast
  then show ?thesis
    using t drop_same_or_shorter [of n inputs] by simp
qed

lemma with_count_wp: "wp (f (snd s)) Q \<Longrightarrow> wp (with_count f s) (\<lambda>r t. fst t = fst s \<and> Q r (snd t))"
  by (cases s) (auto simp: with_count_def wp_def)

lemma reopen_wp:
  assumes "wp (cl s) (\<lambda>_ t. P t)" and "\<And>t. P t \<Longrightarrow> wp (op t) (\<lambda>_ t. P t)"
  shows "wp (reopen cl op s) (\<lambda>_ t. P t)"
  unfolding reopen_def using assms by (auto intro!: wp_mono [OF assms(1)] elim!: wp_mono [OF assms(2)])

interpretation srs_server_retry: retrying fst "\<lambda>(n, t). (n + 1, t)" "with_count srs_server_close" "with_count srs_server_open"
  "\<lambda>inputs. with_count (srs_server_loop inputs)" "\<lambda>s. 0 \<le> fst s \<and> srs_live (snd s)" "\<lambda>_. True" True
proof unfold_locales
  fix s :: "int \<times> srs_world"
  assume inv: "0 \<le> fst s \<and> srs_live (snd s)"
  have "wp (reopen (with_count srs_server_close) (with_count srs_server_open) s) (\<lambda>_ t. fst t = fst s \<and> srs_live (snd t))"
    using inv with_count_wp [where s = s, OF srs_server_close_live] with_count_wp [OF srs_server_open_live]
    by (intro reopen_wp) (auto elim!: wp_mono)
  then show "wp (reopen (with_count srs_server_close) (with_count srs_server_open) s)
      (\<lambda>_ t. (0 \<le> fst t \<and> srs_live (snd t)) \<and> fst t = fst s)"
    using inv by (auto elim!: wp_mono)
  fix inputs
  show "wp (with_count (srs_server_loop inputs) s) (\<lambda>(r, rest) t. (0 \<le> fst t \<and> srs_live (snd t)) \<and> True \<and>
      (rest = inputs \<and> fst t = fst s \<or> length rest < length inputs \<and> fst t \<in> {0..fst s}) \<and> (\<forall>rc. r = Some rc \<longrightarrow> rc < 0 \<or> True))"
    using inv with_count_wp [where s = s and f = "srs_server_loop inputs", OF srs_server_loop_live] by (auto elim!: wp_mono)
qed auto

lemma srs_server_thread_ends:
  assumes "srs_live s"
  shows "wp (srs_server_thread inputs s) (\<lambda>(stopped, rest) t. srs_live t)"
  using srs_server_retry.thread_ends [of "(0, s)" inputs] assms
  by (auto simp: srs_server_thread_def RIL_CLIENT_RETRY_COUNT_def elim!: wp_mono wp_mono [OF srs_server_close_live])

lemma srs_server_close_no_socket: "srs_server_close s = Some (rc, t) \<Longrightarrow> 0 \<le> rc \<Longrightarrow> srs_server_fd t < 0"
  by (auto simp: srs_server_close_def srs_section_def Let_def bind_eq_Some_conv srs_emit_def split: if_splits)

lemma srs_close_no_socket: "srs_close s = Some (0, t) \<Longrightarrow> srs_server_fd t < 0"
  by (auto simp: srs_close_def srs_client_flush_def srs_section_def bind_eq_Some_conv split: if_splits dest!: srs_server_close_no_socket)

subsection \<open>Properties\<close>

text \<open>When whole rounds and whole closings follow one another in any order, the list of clients holds exactly the connections that were accepted and
  not closed, in their order, without repetition; no connection was closed that was not open. \<open>Srs_Threads\<close> has the steps between which other threads can run.\<close>

theorem srs_connections_accounted:
  assumes "srs_reachable s"
  shows "connections (srs_trace s) = Some (map snd (srs_clients s)) \<and> distinct (map snd (srs_clients s)) \<and> distinct (map fst (srs_clients s))"
  using srs_reachable_inv [OF assms] by (simp add: srs_inv_def clients_ok_def)

text \<open>C31. A message of at most 4090 bytes of data that a peer has sent is received as it was sent. Whatever arrived together with it in the same read is lost with the buffer. A
  header whose length is below six or above 4096 makes the reception undefined.\<close>

theorem srs_message_received:
  assumes "srs_data s" and "\<not> srs_locked s" and "0 \<le> srs_client_fd s" and "srs_io s = []"
    and "srs_pending s (srs_client_fd s) = frame @ rest" and "length (frame @ rest) \<le> SRS_BUFFER_LENGTH"
  shows "(srs_send_buffer message = Some frame \<longrightarrow>
      srs_client_recv s = Some ((0, message), s\<lparr>srs_pending := (srs_pending s)(srs_client_fd s := [])\<rparr>)) \<and>
    (srs_header_read frame = Some header \<longrightarrow>
      (srs_client_recv s = None \<longleftrightarrow> \<not> (6 \<le> unat (srs_length header) \<and> unat (srs_length header) \<le> SRS_BUFFER_LENGTH)))"
proof (intro conjI impI)
  note recv = srs_client_recv_eq [OF assms(1-4)]
  have all: "take SRS_BUFFER_LENGTH (frame @ rest) = frame @ rest" "drop SRS_BUFFER_LENGTH (frame @ rest) = []"
    using assms(6) by (simp_all only: take_all drop_all)
  show "srs_client_recv s = Some ((0, message), s\<lparr>srs_pending := (srs_pending s)(srs_client_fd s := [])\<rparr>)"
    if "srs_send_buffer message = Some frame"
  proof -
    have frame: "frame = srs_header_bytes (srs_header_setup message) @ srs_message_data message"
      using that by (auto simp: srs_send_buffer_def Let_def split: if_splits)
    then have "srs_size_ok message"
      using assms(6) by (simp add: srs_size_ok_def SRS_BUFFER_LENGTH_def)
    then show ?thesis
      unfolding recv assms(5) all using srs_recv_buffer_frame [of message rest] frame by simp
  qed
  show "srs_client_recv s = None \<longleftrightarrow> \<not> (6 \<le> unat (srs_length header) \<and> unat (srs_length header) \<le> SRS_BUFFER_LENGTH)"
    if "srs_header_read frame = Some header"
  proof -
    have "srs_header_read (frame @ rest) = Some header"
      using that by (cases frame rule: srs_header_read.cases) simp_all
    then show ?thesis
      unfolding recv assms(5) all using srs_recv_buffer_undefined_iff [of "frame @ rest"] by (auto simp: bind_eq_None_conv)
  qed
qed

text \<open>A ping that the server cannot answer at once brings it down: when the connection does not become writable in time, the failure is reported to the server's own
  loop, and the next round of the loop, whatever it is for, dereferences a pointer that is \<open>NULL\<close>.\<close>

theorem srs_failed_reply_fatal:
  assumes "srs_running s" and "(p, fd) \<in> set (srs_clients s)" and "srs_io s = [1, 10, rc]" and "rc \<le> 0"
  shows "srs_loop (Srs_poll [(fd, ping_bytes)] # Srs_poll arrivals # inputs) s = None"
proof -
  define t where "t = s\<lparr>srs_event := SRS_CLIENT_IO_ERROR, srs_client_fd := -1, srs_io := []\<rparr>"
  have run: "srs_data s" "0 \<le> srs_event_fd s" "srs_available s" "srs_data t" "\<not> srs_locked t" "srs_available t"
    using assms(1) by (simp_all add: srs_running_def srs_inv_def t_def)
  have "srs_round (Srs_poll [(fd, ping_bytes)]) s = Some (Loop_continue, t)"
    using srs_round_ping(2) [OF assms(1,2)] assms(3,4) by (simp add: t_def)
  moreover have "srs_round (Srs_poll arrivals) t = None"
    using run by (simp add: srs_round_eq t_def)
  ultimately show ?thesis
    using run by (simp add: srs_loop_def srs_check_def loop_rounds.simps)
qed

text \<open>C32. As long as no other thread closes the server, the thread that accepts connections comes to an end or waits for a connection: whatever connections, errors and failures to reopen
  it meets, it does not run into undefined behaviour and does not restart itself forever. But when the client's thread closes the client while this one is between two waits, there is no
  listening socket left, and the next round, which does not look at the descriptor again, is undefined.\<close>

theorem srs_server_thread_returns:
  assumes "srs_data s" and "\<not> srs_locked s" and "0 \<le> srs_server_event_fd s"
  shows "(\<exists>stopped rest t. srs_server_thread inputs s = Some ((stopped, rest), t) \<and> srs_data t \<and> \<not> srs_locked t) \<and>
    (\<forall>t. srs_close s = Some (0, t) \<longrightarrow> srs_available t \<longrightarrow> srs_server_check t = None)"
proof (intro conjI allI impI)
  show "\<exists>stopped rest t. srs_server_thread inputs s = Some ((stopped, rest), t) \<and> srs_data t \<and> \<not> srs_locked t"
    using srs_server_thread_ends [of s inputs] assms by (auto simp: wp_def srs_live_def)
  fix t
  assume "srs_close s = Some (0, t)" and "srs_available t"
  then show "srs_server_check t = None"
    using srs_close_no_socket assms(1) by (simp add: srs_server_check_def)
qed

text \<open>When the server's thread cannot be started, \<open>srs_open\<close> takes the client's mutex a second time.\<close>

theorem srs_open_locks_twice:
  assumes "srs_data s" and "\<not> srs_locked s" and "0 \<le> srs_event_fd s" and "0 \<le> srs_server_event_fd s"
    and "srs_io s = server_fd # rc # rest" and "0 \<le> server_fd" and "rc \<noteq> 0"
  shows "srs_open s = None"
  using assms by (simp add: srs_open_def srs_server_open_def srs_section_def srs_sys_def srs_server_close_locked)

text \<open>Witnesses: a server with one connection.\<close>

definition srs_initial :: srs_world where
  "srs_initial = \<lparr>srs_data = False, srs_available = False, srs_failures = 0, srs_locked = False, srs_server_fd = 0, srs_client_fd = 0,
     srs_server_event_fd = 0, srs_event_fd = 0, srs_server_event = 0, srs_event = 0, srs_clients = [], srs_next = 1, srs_pending = (\<lambda>_. []),
     srs_io = [], srs_trace = [], srs_ril = (initial_world [])\<lparr>ril_data_alive := True\<rparr>\<rparr>"

definition srs_started :: srs_world where
  "srs_started = srs_initial\<lparr>srs_data := True, srs_server_fd := 0, srs_client_fd := -1, srs_available := True\<rparr>"

definition srs_connected :: srs_world where
  "srs_connected = srs_started\<lparr>srs_clients := [(1, 9)], srs_next := 2, srs_event := 2, srs_trace := [Srs_accepted 9]\<rparr>"

lemma srs_connected_reachable: "srs_reachable srs_connected"
proof -
  have "srs_create srs_initial = Some (0, srs_started\<lparr>srs_server_fd := -1, srs_available := False\<rparr>)"
    by (simp add: srs_create_def srs_section_def srs_initial_def srs_started_def)
  then have "srs_reachable (srs_started\<lparr>srs_server_fd := -1, srs_available := False\<rparr>)"
    by (rule created) (simp add: srs_initial_def)
  moreover have "srs_open (srs_started\<lparr>srs_server_fd := -1, srs_available := False\<rparr>) = Some (0, srs_started)"
    by (simp add: srs_open_def srs_server_open_def srs_section_def srs_initial_def srs_started_def eventfd_flush_def eventfd_read_def)
  ultimately have "srs_reachable srs_started"
    by (rule opened)
  moreover have "srs_server_round (Srs_server_connect 9) srs_started = Some (Loop_continue, srs_connected)"
    by (simp add: srs_server_round_def srs_client_register_def srs_section_def srs_initial_def srs_started_def srs_connected_def node_append_def
      srs_emit_def eventfd_send_def eventfd_flush_def eventfd_read_def SRS_CLIENT_CHANGE_def)
  moreover have "srs_server_check srs_started = Some (Loop_continue, srs_started)"
    by (simp add: srs_server_check_def srs_started_def srs_initial_def)
  ultimately show ?thesis
    using accepted [of srs_started "Srs_server_connect 9" Loop_continue srs_connected] by (simp add: srs_started_def srs_initial_def)
qed

lemma srs_connected_running: "srs_running srs_connected" "srs_running (srs_connected\<lparr>srs_io := script\<rparr>)"
  by (auto simp: srs_running_def srs_inv_def clients_ok_def srs_connected_def srs_started_def srs_initial_def SRS_CLIENT_IO_ERROR_def connections_def)

theorem srs_connections_accounted_witness: "connections (srs_trace srs_connected) = Some [9]"
  using srs_connections_accounted [OF srs_connected_reachable] by (simp add: srs_connected_def)

theorem srs_message_received_witness:
  "srs_client_recv (srs_connected\<lparr>srs_client_fd := 9, srs_pending := (\<lambda>_. [])(9 := ping_bytes @ [1, 2, 3])\<rparr>) =
     Some ((0, ping_message), srs_connected\<lparr>srs_client_fd := 9, srs_pending := (\<lambda>_. [])\<rparr>) \<and>
   srs_client_recv (srs_connected\<lparr>srs_client_fd := 9, srs_pending := (\<lambda>_. [])(9 := [0, 1, 1, 0, 1, 1] @ [])\<rparr>) = None"
proof -
  let ?s = "srs_connected\<lparr>srs_client_fd := 9, srs_pending := (\<lambda>_. [])(9 := ping_bytes @ [1, 2, 3])\<rparr>"
  let ?t = "srs_connected\<lparr>srs_client_fd := 9, srs_pending := (\<lambda>_. [])(9 := [0, 1, 1, 0, 1, 1] @ [])\<rparr>"
  have "(((\<lambda>_. [])(9 := ping_bytes @ [1, 2, 3]))(9 := []) :: int \<Rightarrow> u8 list) = (\<lambda>_. [])"
    by (simp add: fun_eq_iff)
  then have "srs_client_recv ?s = Some ((0, ping_message), srs_connected\<lparr>srs_client_fd := 9, srs_pending := (\<lambda>_. [])\<rparr>)"
    using srs_message_received [of ?s ping_bytes "[1, 2, 3]" ping_message]
    by (simp add: srs_connected_def srs_started_def srs_initial_def SRS_BUFFER_LENGTH_def)
  moreover have "le32 0 1 1 0 = 65792"
    by (simp add: le32_def)
  then have "srs_client_recv ?t = None"
    using srs_message_received [of ?t "[0, 1, 1, 0, 1, 1]" "[]" _ "\<lparr>srs_length = 65792, srs_group = 1, srs_index = 1\<rparr>"]
    by (simp add: srs_connected_def srs_started_def srs_initial_def SRS_BUFFER_LENGTH_def)
  ultimately show ?thesis
    by simp
qed

theorem srs_failed_reply_fatal_witness:
  "srs_loop [Srs_poll [(9, ping_bytes)], Srs_poll []] (srs_connected\<lparr>srs_io := [1, 10, 0]\<rparr>) = None"
  using srs_failed_reply_fatal [OF srs_connected_running(2), of 1 9 "[1, 10, 0]" 0 "[]" "[]"] by (simp add: srs_connected_def)

lemma srs_started_closes: "\<exists>t. srs_close srs_started = Some (0, t) \<and> srs_available t"
proof -
  have "srs_inv (srs_started\<lparr>srs_event := snd (eventfd_send SRS_CLIENT_CLOSE 0), srs_client_fd := -1\<rparr>)"
    by (simp add: srs_inv_def srs_started_def srs_initial_def clients_ok_def)
  then show ?thesis
    by (simp add: srs_close_def srs_section_def srs_started_def srs_initial_def srs_server_close_def srs_close_clients_eq Let_def srs_client_flush_def srs_emit_def)
qed

theorem srs_server_thread_returns_witness:
  "srs_server_thread [Srs_server_connect 9, Srs_server_error] srs_started \<noteq> None \<and> (\<exists>t. srs_close srs_started = Some (0, t) \<and> srs_server_check t = None)"
  using srs_server_thread_returns [of srs_started "[Srs_server_connect 9, Srs_server_error]"] srs_started_closes by (auto simp: srs_started_def srs_initial_def)

theorem srs_open_locks_twice_witness: "srs_open (srs_started\<lparr>srs_io := [3, 11]\<rparr>) = None"
  using srs_open_locks_twice [of "srs_started\<lparr>srs_io := [3, 11]\<rparr>" 3 11 "[]"] by (simp add: srs_started_def srs_initial_def)

end
