(* ===== verification/Ril_Client.thy ===== *)
theory Ril_Client
  imports Ril_System Ril_Rfs Ril_Srs
begin

section \<open>samsung-ril: the clients and their threads\<close>

text \<open>
  \<open>client.c\<close>, the part of \<open>ipc.c\<close> that creates, opens, closes and polls the FMT client, and \<open>RIL_Init\<close> of \<open>samsung-ril.c\<close>, which puts the three
  clients together. A client's handlers (\<open>struct ril_client_handlers\<close>) are a record of functions on the client's state; the thread of a client
  is the same function of this record for all three. The whole process is the state of the RIL with that of the FMT client (\<open>ril_world\<close>),
  that of the RFS client and that of the socket server.
\<close>

subsection \<open>The FMT client (ipc.c)\<close>

definition fmt_driver :: "string \<Rightarrow> ril_world \<Rightarrow> int \<times> ril_world" where
  "fmt_driver name s = (io_result s, emit (Modem name) (io_next s))"

definition ipc_fmt_create :: "ril_world \<Rightarrow> int \<times> ril_world" where
  "ipc_fmt_create s =
     (let s = s\<lparr>fmt_available := False\<rparr>;
          event_fd = io_result s; s = io_next s in
      if event_fd < 0 then (-1, s)
      else
        let (rc, s) = fmt_driver ''client_create'' s in
        if rc < 0 then (-1, s)
        else
          let (rc, s) = fmt_driver ''data_create'' s in
          if rc < 0 then (-1, s)
          else (0, s\<lparr>fmt_data := True, fmt_ipc_client := True, fmt_event_fd := event_fd, fmt_event := 0, gen_phone_res_expect := [],
            sim_icc_type := 0, hsdpa_status := 0, svc_session := 0, fmt_requests := [], fmt_seq := 0\<rparr>))"

definition ipc_fmt_open :: "ril_world \<Rightarrow> (int \<times> ril_world) option" where
  "ipc_fmt_open s =
     (if \<not> fmt_data s then Some (-1, s)
      else if \<not> fmt_ipc_client s \<or> fmt_event_fd s < 0 then Some (-1, s)
      else
        let (rc, s) = (if fmt_failures s \<noteq> 1 then
            let (rc, s) = fmt_driver ''boot'' s in
            if rc < 0 then (-1, s) else fmt_driver ''power_on'' s
          else (0, s)) in
        if rc < 0 then Some (-1, s)
        else
          let (rc, s) = fmt_driver ''open'' s in
          if rc < 0 then Some (-1, s)
          else Option.bind (if fmt_failures s = 1 then ril_radio_state_update RADIO_STATE_OFF s else Some (0, s)) (\<lambda>(_, s).
            Some (0, s\<lparr>fmt_event := snd (eventfd_flush (fmt_event s)), fmt_available := True\<rparr>)))"

definition ipc_fmt_close :: "ril_world \<Rightarrow> int \<times> ril_world" where
  "ipc_fmt_close s =
     (if \<not> fmt_data s then (-1, s)
      else if \<not> fmt_ipc_client s \<or> fmt_event_fd s < 0 then (-1, s)
      else
        let s = s\<lparr>fmt_available := False, fmt_event := snd (eventfd_send IPC_CLIENT_CLOSE (fmt_event s))\<rparr>;
            (rc, s) = fmt_driver ''close'' s in
        if rc < 0 then (-1, s)
        else if fmt_failures s \<noteq> 1 then let (rc, s) = fmt_driver ''power_off'' s in (if rc < 0 then -1 else 0, s)
        else (0, s))"

definition ipc_fmt_destroy :: "ril_world \<Rightarrow> int \<times> ril_world" where
  "ipc_fmt_destroy s =
     (if \<not> fmt_data s then (-1, s)
      else
        let s = (if fmt_available s then snd (ipc_fmt_close s) else s);
            s = snd (ipc_fmt_flush (s\<lparr>fmt_available := False\<rparr>)) in
        (0, s\<lparr>fmt_data := False, fmt_ipc_client := False\<rparr>))"

text \<open>Whatever ends the loop with an error makes the radio unavailable.\<close>

definition ipc_fmt_error :: "ril_world \<Rightarrow> (loop_result \<times> ril_world) option" where
  "ipc_fmt_error s = Option.bind (ril_radio_state_update RADIO_STATE_UNAVAILABLE s) (\<lambda>(_, s). Some (Loop_return (-1), s))"

definition ipc_fmt_check :: "ril_world \<Rightarrow> (loop_result \<times> ril_world) option" where
  "ipc_fmt_check s = (if \<not> fmt_available s then ipc_fmt_error s else Some (Loop_continue, s))"

text \<open>The round is that of the RFS client, with the event and the count treated in the same way.\<close>

definition ipc_fmt_round :: "poll_input \<Rightarrow> ril_world \<Rightarrow> (loop_result \<times> ril_world) option" where
  "ipc_fmt_round input s =
     (if input = Poll_error then ipc_fmt_error s
      else
        let ready = fmt_event s > 0;
            count = (if ready then 1 else 0 :: int);
            rc = count + (if input = Poll_idle then 0 else 1);
            (rc, event, s) = (if ready then
                case eventfd_recv (fmt_event s) of (rc, event, c) \<Rightarrow> (rc, event, s\<lparr>fmt_event := c\<rparr>)
              else (rc, None, s)) in
        if ready \<and> rc < 0 then ipc_fmt_error s
        else if event = Some IPC_CLIENT_CLOSE then Some (Loop_return 0, s)
        else if event = Some IPC_CLIENT_IO_ERROR then ipc_fmt_error s
        else if rc = count then Some (Loop_continue, s)
        else (case input of
            Poll_message message \<Rightarrow> Option.bind (ipc_fmt_dispatch message s) (\<lambda>(rc, s).
              if rc < 0 then ipc_fmt_error s else Some (Loop_continue, s\<lparr>fmt_failures := 0\<rparr>))
          | _ \<Rightarrow> ipc_fmt_error s))"

definition ipc_fmt_loop :: "poll_input list \<Rightarrow> ril_world \<Rightarrow> ((int option \<times> poll_input list) \<times> ril_world) option" where
  "ipc_fmt_loop inputs s =
     (if \<not> fmt_data s then Some ((Some (-1), inputs), s)
      else if \<not> fmt_ipc_client s \<or> fmt_event_fd s < 0 then Some ((Some (-1), inputs), s)
      else loop_rounds ipc_fmt_check ipc_fmt_round inputs s)"

subsection \<open>Clients (client.c)\<close>

record ('s, 'i) ril_client_handlers =
  client_create :: "'s \<Rightarrow> (int \<times> 's) option"
  client_destroy :: "'s \<Rightarrow> (int \<times> 's) option"
  client_open :: "'s \<Rightarrow> (int \<times> 's) option"
  client_close :: "'s \<Rightarrow> (int \<times> 's) option"
  client_loop :: "'i list \<Rightarrow> 's \<Rightarrow> ((int option \<times> 'i list) \<times> 's) option"
  client_failures :: "'s \<Rightarrow> int"
  client_set_failures :: "int \<Rightarrow> 's \<Rightarrow> 's"
  client_no_data :: "'s \<Rightarrow> 's"

definition ipc_fmt_handlers :: "(ril_world, poll_input) ril_client_handlers" where
  "ipc_fmt_handlers = \<lparr>client_create = Some \<circ> ipc_fmt_create, client_destroy = Some \<circ> ipc_fmt_destroy, client_open = ipc_fmt_open,
     client_close = Some \<circ> ipc_fmt_close, client_loop = ipc_fmt_loop, client_failures = fmt_failures,
     client_set_failures = (\<lambda>n s. s\<lparr>fmt_failures := n\<rparr>), client_no_data = (\<lambda>s. s\<lparr>fmt_data := False\<rparr>)\<rparr>"

definition ipc_rfs_handlers :: "md5_fun \<Rightarrow> bool \<Rightarrow> (rfs_world, poll_input) ril_client_handlers" where
  "ipc_rfs_handlers md5 alive = \<lparr>client_create = Some \<circ> ipc_rfs_create, client_destroy = Some \<circ> ipc_rfs_destroy, client_open = Some \<circ> ipc_rfs_open,
     client_close = Some \<circ> ipc_rfs_close, client_loop = ipc_rfs_loop md5 alive, client_failures = (\<lambda>s. int (rfs_failures s)),
     client_set_failures = (\<lambda>n s. s\<lparr>rfs_failures := nat n\<rparr>), client_no_data = (\<lambda>s. s\<lparr>rfs_data := False\<rparr>)\<rparr>"

definition srs_handlers :: "(srs_world, srs_poll) ril_client_handlers" where
  "srs_handlers = \<lparr>client_create = srs_create, client_destroy = srs_destroy, client_open = srs_open, client_close = srs_close,
     client_loop = srs_loop, client_failures = srs_failures, client_set_failures = (\<lambda>n s. s\<lparr>srs_failures := n\<rparr>),
     client_no_data = (\<lambda>s. s\<lparr>srs_data := False\<rparr>)\<rparr>"

definition ok_or_error :: "(int \<times> 's) option \<Rightarrow> (int \<times> 's) option" where
  "ok_or_error r = map_option (\<lambda>(rc, s). (if rc < 0 then -1 else 0, s)) r"

definition ril_client_create :: "('s, 'i) ril_client_handlers \<Rightarrow> 's \<Rightarrow> (int \<times> 's) option" where
  "ril_client_create h s = ok_or_error (client_create h (client_no_data h s))"

definition ril_client_destroy :: "('s, 'i) ril_client_handlers \<Rightarrow> 's \<Rightarrow> (int \<times> 's) option" where
  "ril_client_destroy h s = ok_or_error (client_destroy h s)"

definition ril_client_open :: "('s, 'i) ril_client_handlers \<Rightarrow> 's \<Rightarrow> (int \<times> 's) option" where
  "ril_client_open h s = ok_or_error (client_open h s)"

definition ril_client_close :: "('s, 'i) ril_client_handlers \<Rightarrow> 's \<Rightarrow> (int \<times> 's) option" where
  "ril_client_close h s = ok_or_error (client_close h s)"

text \<open>The thread: runs the loop, up to the limit of failures, then closes and destroys the client.\<close>

definition ril_client_runs :: "('s, 'i) ril_client_handlers \<Rightarrow> 'i list \<Rightarrow> 's \<Rightarrow> ((bool \<times> 'i list) \<times> 's) option" where
  "ril_client_runs h inputs s = retry_thread (client_failures h) (\<lambda>s. client_set_failures h (client_failures h s + 1) s)
     (ril_client_close h) (ril_client_open h) (client_loop h) inputs (client_set_failures h 0 s)"

definition ril_client_thread :: "('s, 'i) ril_client_handlers \<Rightarrow> 'i list \<Rightarrow> 's \<Rightarrow> ((bool \<times> 'i list) \<times> 's) option" where
  "ril_client_thread h inputs s = Option.bind (ril_client_runs h inputs s) (\<lambda>((stopped, inputs), s).
     if stopped then Option.bind (ril_client_close h s) (\<lambda>(_, s).
       Option.bind (ril_client_destroy h s) (\<lambda>(_, s). Some ((True, inputs), s)))
     else Some ((False, inputs), s))"

subsection \<open>The process (samsung-ril.c)\<close>

record ril_process =
  proc_ril :: ril_world
  proc_rfs :: rfs_world
  proc_srs :: srs_world
  proc_io :: "int list"
  proc_threads :: "ril_client list"     \<comment> \<open>the clients whose thread was started\<close>

definition on_fmt :: "(ril_world \<Rightarrow> ('a \<times> ril_world) option) \<Rightarrow> ril_process \<Rightarrow> ('a \<times> ril_process) option" where
  "on_fmt f p = map_option (\<lambda>(r, s). (r, p\<lparr>proc_ril := s\<rparr>)) (f (proc_ril p))"

definition on_rfs :: "(rfs_world \<Rightarrow> ('a \<times> rfs_world) option) \<Rightarrow> ril_process \<Rightarrow> ('a \<times> ril_process) option" where
  "on_rfs f p = map_option (\<lambda>(r, s). (r, p\<lparr>proc_rfs := s\<rparr>)) (f (proc_rfs p))"

text \<open>The server works on the state of the RIL itself.\<close>

definition on_srs :: "(srs_world \<Rightarrow> ('a \<times> srs_world) option) \<Rightarrow> ril_process \<Rightarrow> ('a \<times> ril_process) option" where
  "on_srs f p = map_option (\<lambda>(r, s). (r, p\<lparr>proc_srs := s, proc_ril := srs_ril s\<rparr>)) (f ((proc_srs p)\<lparr>srs_ril := proc_ril p\<rparr>))"

definition create_client :: "md5_fun \<Rightarrow> ril_client \<Rightarrow> ril_process \<Rightarrow> (int \<times> ril_process) option" where
  "create_client md5 c p = (case c of
      RIL_CLIENT_IPC_FMT \<Rightarrow> on_fmt (ril_client_create ipc_fmt_handlers) p
    | RIL_CLIENT_IPC_RFS \<Rightarrow> on_rfs (ril_client_create (ipc_rfs_handlers md5 True)) p
    | RIL_CLIENT_SRS \<Rightarrow> on_srs (ril_client_create srs_handlers) p)"

definition open_client :: "md5_fun \<Rightarrow> ril_client \<Rightarrow> ril_process \<Rightarrow> (int \<times> ril_process) option" where
  "open_client md5 c p = (case c of
      RIL_CLIENT_IPC_FMT \<Rightarrow> on_fmt (ril_client_open ipc_fmt_handlers) p
    | RIL_CLIENT_IPC_RFS \<Rightarrow> on_rfs (ril_client_open (ipc_rfs_handlers md5 True)) p
    | RIL_CLIENT_SRS \<Rightarrow> on_srs (ril_client_open srs_handlers) p)"

definition proc_sys :: "ril_process \<Rightarrow> int \<times> ril_process" where
  "proc_sys p = (case proc_io p of [] \<Rightarrow> 0 | r # _ \<Rightarrow> r, p\<lparr>proc_io := drop 1 (proc_io p)\<rparr>)"

text \<open>\<open>pthread_create\<close> for the thread of a client.\<close>

definition ril_client_loop :: "ril_client \<Rightarrow> ril_process \<Rightarrow> int \<times> ril_process" where
  "ril_client_loop c p = (let (rc, p) = proc_sys p in
     if rc \<noteq> 0 then (-1, p) else (0, p\<lparr>proc_threads := proc_threads p @ [c]\<rparr>))"

fun create_clients :: "md5_fun \<Rightarrow> ril_client list \<Rightarrow> ril_process \<Rightarrow> (int \<times> ril_process) option" where
  "create_clients md5 [] p = Some (0, p)"
| "create_clients md5 (c # cs) p = Option.bind (create_client md5 c p) (\<lambda>(rc, p). if rc < 0 then Some (-1, p) else create_clients md5 cs p)"

text \<open>The attempts to open a client, as many as are left.\<close>

fun open_attempts :: "md5_fun \<Rightarrow> nat \<Rightarrow> ril_client \<Rightarrow> ril_process \<Rightarrow> (int \<times> ril_process) option" where
  "open_attempts md5 0 c p = Some (-1, p)"
| "open_attempts md5 (Suc n) c p = Option.bind (open_client md5 c p) (\<lambda>(rc, p). if rc < 0 then open_attempts md5 n c p else Some (rc, p))"

fun start_clients :: "md5_fun \<Rightarrow> ril_client list \<Rightarrow> ril_process \<Rightarrow> (int \<times> ril_process) option" where
  "start_clients md5 [] p = Some (0, p)"
| "start_clients md5 (c # cs) p = Option.bind (open_attempts md5 (nat RIL_CLIENT_RETRY_COUNT) c p) (\<lambda>(rc, p).
     if rc < 0 then Some (-1, p)
     else case ril_client_loop c p of (rc, p) \<Rightarrow> if rc < 0 then Some (-1, p) else start_clients md5 cs p)"

text \<open>\<open>env\<close> says which of its two functions the environment provides; the result is whether the radio functions are returned.\<close>

definition RIL_Init :: "md5_fun \<Rightarrow> (bool \<times> bool) option \<Rightarrow> ril_process \<Rightarrow> (bool \<times> ril_process) option" where
  "RIL_Init md5 env p = (case env of None \<Rightarrow> Some (False, p) | Some (complete, unsolicited) \<Rightarrow>
     let (rc, s) = ril_data_create (proc_ril p) in
     if rc < 0 then Some (False, p\<lparr>proc_ril := s\<rparr>)
     else
       let p = p\<lparr>proc_ril := s\<lparr>env_complete := complete, env_unsolicited := unsolicited\<rparr>\<rparr> in
       Option.bind (create_clients md5 ril_clients p) (\<lambda>(rc, p). if rc < 0 then Some (False, p)
       else Option.bind (start_clients md5 ril_clients p) (\<lambda>(rc, p). if rc < 0 then Some (False, p)
       else case proc_sys p of (rc, p) \<Rightarrow> Some (rc = 0, p))))"

subsection \<open>Lemmas\<close>

lemma ipc_fmt_error_returns: "ipc_fmt_error s = Some (Loop_return rc, t) \<Longrightarrow> rc = -1"
  by (auto simp: ipc_fmt_error_def bind_eq_Some_conv)

lemma ipc_fmt_check_returns: "ipc_fmt_check s = Some (Loop_return rc, t) \<Longrightarrow> rc = -1"
  by (auto simp: ipc_fmt_check_def split: if_splits dest: ipc_fmt_error_returns)

lemma ipc_fmt_round_returns: "ipc_fmt_round input s = Some (Loop_return rc, t) \<Longrightarrow> rc = -1"
  by (auto simp: ipc_fmt_round_def Let_def eventfd_recv_def eventfd_read_def IPC_CLIENT_CLOSE_def IPC_CLIENT_IO_ERROR_def
    bind_eq_Some_conv split: if_splits poll_input.splits dest: ipc_fmt_error_returns)

lemma srs_round_returns: "srs_round input s = Some (Loop_return rc, t) \<Longrightarrow> rc = -1"
  by (cases input) (auto simp: srs_round_def Let_def eventfd_recv_def eventfd_read_def SRS_CLIENT_CLOSE_def bind_eq_Some_conv split: if_splits)

text \<open>A RIL that has nothing to lose: no request is queued and no data connection is open. \<open>life s\<close> are the fields that only the client's own operations change.\<close>

definition fmt_idle :: "ril_world \<Rightarrow> bool" where
  "fmt_idle s \<longleftrightarrow> ril_data_alive s \<and> requests s = [] \<and> data_connections s = [] \<and> 0 \<le> fmt_failures s"

definition fmt_life :: "ril_world \<Rightarrow> bool \<times> bool \<times> bool \<times> int \<times> int" where
  "fmt_life s = (fmt_data s, fmt_ipc_client s, fmt_available s, fmt_event_fd s, fmt_failures s)"

lemma radio_update_idle:
  assumes "fmt_idle s"
  shows "wp (ril_radio_state_update st s) (\<lambda>_ t. fmt_idle t \<and> fmt_life t = fmt_life s)"
  using assms
  by (auto simp: ril_radio_state_update_def radio_off_tail_def ril_data_connection_flush_Nil fail_all_requests_Nil ril_request_flush_def
    ril_request_data_flush_def for_clients_flush ipc_fmt_flush_def ipc_fmt_request_flush_def ipc_gen_phone_res_expect_flush_def
    ril_request_unsolicited_def fmt_idle_def fmt_life_def Let_def)

lemma ipc_fmt_error_idle:
  "fmt_idle s \<Longrightarrow> wp (ipc_fmt_error s) (\<lambda>r t. r = Loop_return (-1) \<and> fmt_idle t \<and> fmt_life t = fmt_life s)"
  using radio_update_idle [of s RADIO_STATE_UNAVAILABLE] by (auto simp: ipc_fmt_error_def elim!: wp_mono)

text \<open>The inputs that leave the RIL idle: errors, and messages that it does not handle.\<close>

definition unhandled_input :: "poll_input \<Rightarrow> bool" where
  "unhandled_input input \<longleftrightarrow> (\<forall>m. input = Poll_message m \<longrightarrow> map_of ipc_fmt_dispatch_handlers (msg_command m) = None)"

lemma ipc_fmt_check_idle:
  "fmt_idle s \<Longrightarrow> wp (ipc_fmt_check s) (loop_post (\<lambda>rc t. fmt_idle t \<and> fmt_life t = fmt_life s) (\<lambda>t. t = s))"
  using ipc_fmt_error_idle [of s] by (auto simp: ipc_fmt_check_def elim!: wp_mono)

lemma ipc_fmt_round_idle:
  assumes "fmt_idle s" and "unhandled_input input"
  shows "wp (ipc_fmt_round input s) (loop_post (\<lambda>rc t. fmt_idle t \<and> fmt_failures t \<le> fmt_failures s) (\<lambda>t. fmt_idle t \<and> fmt_failures t \<le> fmt_failures s))"
proof -
  let ?post = "loop_post (\<lambda>rc t. fmt_idle t \<and> fmt_failures t \<le> fmt_failures s) (\<lambda>t. fmt_idle t \<and> fmt_failures t \<le> fmt_failures s)"
  have error: "wp (ipc_fmt_error u) ?post" if "fmt_idle u" "fmt_failures u = fmt_failures s" for u
    using ipc_fmt_error_idle [OF that(1)] that(2) by (auto simp: fmt_life_def elim!: wp_mono)
  have idle: "fmt_idle (s\<lparr>fmt_event := c\<rparr>)" "ril_data_alive s" "0 \<le> fmt_failures s" for c
    using assms(1) by (auto simp: fmt_idle_def)
  show ?thesis
    using assms idle
    by (auto simp: ipc_fmt_round_def Let_def eventfd_recv_def eventfd_read_def ipc_fmt_dispatch_def unhandled_input_def
      intro!: error split: poll_input.splits) (auto simp: fmt_idle_def)
qed

lemma wp_returns:
  assumes "wp m (loop_post Q I)" and "\<And>rc t. m = Some (Loop_return rc, t) \<Longrightarrow> P rc"
  shows "wp m (loop_post (\<lambda>rc t. P rc \<and> Q rc t) I)"
proof -
  obtain r t where "m = Some (r, t)" "loop_post Q I r t"
    using assms(1) by (rule wpE)
  then show ?thesis
    using assms(2) by (cases r) auto
qed

interpretation fmt_rounds: input_loop ipc_fmt_check ipc_fmt_round "\<lambda>s. fmt_idle s \<and> fmt_failures s \<le> n" "\<lambda>input _. unhandled_input input"
  "\<lambda>rc s. rc = -1 \<and> fmt_idle s \<and> fmt_failures s \<le> n" for n
proof
  fix s input
  assume inv: "fmt_idle s \<and> fmt_failures s \<le> n"
  have "wp (ipc_fmt_check s) (loop_post (\<lambda>_ s. fmt_idle s \<and> fmt_failures s \<le> n) (\<lambda>s. fmt_idle s \<and> fmt_failures s \<le> n))"
    using inv ipc_fmt_check_idle [of s] by (auto simp: loop_post_def fmt_life_def elim!: wp_mono split: loop_result.splits)
  then show "wp (ipc_fmt_check s) (loop_post (\<lambda>rc s. rc = -1 \<and> fmt_idle s \<and> fmt_failures s \<le> n) (\<lambda>s. fmt_idle s \<and> fmt_failures s \<le> n))"
    by (rule wp_returns) (rule ipc_fmt_check_returns)
  assume "unhandled_input input"
  then have "wp (ipc_fmt_round input s) (loop_post (\<lambda>_ s. fmt_idle s \<and> fmt_failures s \<le> n) (\<lambda>s. fmt_idle s \<and> fmt_failures s \<le> n))"
    using inv ipc_fmt_round_idle [of s input] by (auto simp: loop_post_def elim!: wp_mono split: loop_result.splits)
  then show "wp (ipc_fmt_round input s) (loop_post (\<lambda>rc s. rc = -1 \<and> fmt_idle s \<and> fmt_failures s \<le> n) (\<lambda>s. fmt_idle s \<and> fmt_failures s \<le> n))"
    by (rule wp_returns) (rule ipc_fmt_round_returns)
qed

definition unhandled_inputs :: "poll_input list \<Rightarrow> bool" where
  "unhandled_inputs inputs \<longleftrightarrow> (\<forall>input \<in> set inputs. unhandled_input input)"

lemma unhandled_inputs_drop: "unhandled_inputs inputs \<Longrightarrow> unhandled_inputs (drop n inputs)"
  by (auto simp: unhandled_inputs_def dest: in_set_dropD)

lemma ipc_fmt_loop_idle:
  assumes "fmt_idle s" and "unhandled_inputs inputs"
  shows "wp (ipc_fmt_loop inputs s) (\<lambda>(r, rest) t. fmt_idle t \<and> unhandled_inputs rest \<and>
    (rest = inputs \<and> fmt_failures t = fmt_failures s \<or> length rest < length inputs \<and> fmt_failures t \<in> {0..fmt_failures s}) \<and>
    (\<forall>rc. r = Some rc \<longrightarrow> rc < 0 \<or> False))"
proof (cases "fmt_data s \<and> fmt_ipc_client s \<and> 0 \<le> fmt_event_fd s")
  case False
  then show ?thesis
    using assms by (auto simp: ipc_fmt_loop_def)
next
  case True
  then have loop: "ipc_fmt_loop inputs s = loop_rounds ipc_fmt_check ipc_fmt_round inputs s"
    by (simp add: ipc_fmt_loop_def)
  have "wp (loop_rounds ipc_fmt_check ipc_fmt_round inputs s) (\<lambda>r t. case fst r of
      None \<Rightarrow> fmt_idle t \<and> fmt_failures t \<le> fmt_failures s | Some rc \<Rightarrow> rc = -1 \<and> fmt_idle t \<and> fmt_failures t \<le> fmt_failures s)"
    using assms by (intro fmt_rounds.rounds_keep) (simp_all add: unhandled_inputs_def)
  then obtain r rest t where t: "loop_rounds ipc_fmt_check ipc_fmt_round inputs s = Some ((r, rest), t)" "fmt_idle t" "fmt_failures t \<le> fmt_failures s"
    "\<And>rc. r = Some rc \<Longrightarrow> rc = -1"
    by (auto simp: wp_def split: option.splits)
  obtain n where rest: "rest = drop n inputs"
    using loop_rounds_suffix [OF t(1)] by blast
  have "fmt_failures t = fmt_failures s" if same: "rest = inputs"
  proof -
    obtain q where "ipc_fmt_check s = Some (q, t)"
      using loop_rounds_untouched [OF t(1) [unfolded same]] by blast
    then show ?thesis
      using ipc_fmt_check_idle [OF assms(1)] by (cases q) (auto simp: fmt_life_def)
  qed
  then show ?thesis
    using t rest drop_same_or_shorter [of n inputs] unhandled_inputs_drop [OF assms(2)]
    by (auto simp: loop fmt_idle_def)
qed

lemma ipc_fmt_close_idle: "fmt_idle s \<Longrightarrow> fmt_idle (snd (ipc_fmt_close s)) \<and> fmt_failures (snd (ipc_fmt_close s)) = fmt_failures s"
  by (auto simp: ipc_fmt_close_def fmt_driver_def fmt_idle_def Let_def)

lemma ipc_fmt_open_idle:
  assumes "fmt_idle s"
  shows "wp (ipc_fmt_open s) (\<lambda>_ t. fmt_idle t \<and> fmt_failures t = fmt_failures s)"
proof -
  have "wp (ril_radio_state_update RADIO_STATE_OFF t) (\<lambda>_ u. fmt_idle u \<and> fmt_failures u = fmt_failures s)"
    if "fmt_idle t" "fmt_failures t = fmt_failures s" for t
    using radio_update_idle [OF that(1), of RADIO_STATE_OFF] that(2) by (auto simp: fmt_life_def elim!: wp_mono)
  then show ?thesis
    using assms by (auto simp: ipc_fmt_open_def fmt_driver_def fmt_idle_def Let_def elim!: wp_mono)
qed

lemma ok_or_error_wp [simp]: "wp (ok_or_error m) Q = wp m (\<lambda>rc. Q (if rc < 0 then -1 else 0))"
  by (cases m) (auto simp: ok_or_error_def)

interpretation fmt_thread: retrying fmt_failures "\<lambda>s. s\<lparr>fmt_failures := fmt_failures s + 1\<rparr>" "ril_client_close ipc_fmt_handlers"
  "ril_client_open ipc_fmt_handlers" ipc_fmt_loop fmt_idle unhandled_inputs False
proof unfold_locales
  fix s
  assume idle: "fmt_idle s"
  then have "wp (ril_client_close ipc_fmt_handlers s) (\<lambda>_ t. fmt_idle t \<and> fmt_failures t = fmt_failures s)"
    using ipc_fmt_close_idle [of s] by (cases "ipc_fmt_close s") (auto simp: ril_client_close_def ipc_fmt_handlers_def)
  then show "wp (reopen (ril_client_close ipc_fmt_handlers) (ril_client_open ipc_fmt_handlers) s) (\<lambda>_ t. fmt_idle t \<and> fmt_failures t = fmt_failures s)"
  proof (rule reopen_wp)
    fix t
    assume "fmt_idle t \<and> fmt_failures t = fmt_failures s"
    then show "wp (ril_client_open ipc_fmt_handlers t) (\<lambda>_ t. fmt_idle t \<and> fmt_failures t = fmt_failures s)"
      using ipc_fmt_open_idle [of t] by (auto simp: ril_client_open_def ipc_fmt_handlers_def)
  qed
qed (use ipc_fmt_loop_idle in \<open>auto simp: fmt_idle_def\<close>)

text \<open>The announcements of a radio that goes down.\<close>

definition down_unsolicited :: "event list" where
  "down_unsolicited = [Unsol RIL_UNSOL_RESPONSE_RADIO_STATE_CHANGED RNull 0, Unsol RIL_UNSOL_RESPONSE_CALL_STATE_CHANGED RNull 0,
     Unsol RIL_UNSOL_RESPONSE_VOICE_NETWORK_STATE_CHANGED RNull 0, Unsol RIL_UNSOL_DATA_CALL_LIST_CHANGED RNull 0,
     Unsol RIL_UNSOL_RESPONSE_SIM_STATUS_CHANGED RNull 0]"

lemma radio_update_down:
  assumes "fmt_idle s" and "env_unsolicited s" and "radio_state s \<noteq> st" and "st = RADIO_STATE_UNAVAILABLE \<or> st = RADIO_STATE_OFF"
  shows "wp (ril_radio_state_update st s) (\<lambda>_ t. fmt_idle t \<and> fmt_life t = fmt_life s \<and> radio_state t = st \<and> env_unsolicited t \<and>
    io t = io s \<and> fmt_event t = fmt_event s \<and> trace t = trace s @ down_unsolicited)"
  using assms
  by (auto simp: ril_radio_state_update_def radio_off_tail_def ril_data_connection_flush_Nil fail_all_requests_Nil ril_request_flush_def
    ril_request_data_flush_def for_clients_flush ipc_fmt_flush_def ipc_fmt_request_flush_def ipc_gen_phone_res_expect_flush_def
    ril_request_unsolicited_def fmt_idle_def fmt_life_def Let_def down_unsolicited_def radio_state_defs)

definition fmt_connected :: "ril_world \<Rightarrow> bool" where
  "fmt_connected s \<longleftrightarrow> fmt_idle s \<and> fmt_data s \<and> fmt_ipc_client s \<and> fmt_available s \<and> 0 \<le> fmt_event_fd s \<and> fmt_event s = 0 \<and>
     io s = [] \<and> env_unsolicited s"

lemma fmt_loop_error:
  assumes "fmt_connected s" and "radio_state s \<noteq> RADIO_STATE_UNAVAILABLE"
  shows "\<exists>t. ipc_fmt_loop [Poll_error] s = Some ((Some (-1), []), t) \<and> fmt_connected t \<and> radio_state t = RADIO_STATE_UNAVAILABLE \<and>
    fmt_failures t = fmt_failures s \<and> trace t = trace s @ down_unsolicited"
proof -
  obtain r t where t: "ril_radio_state_update RADIO_STATE_UNAVAILABLE s = Some (r, t)" "fmt_idle t" "fmt_life t = fmt_life s"
    "radio_state t = RADIO_STATE_UNAVAILABLE" "env_unsolicited t" "io t = io s" "fmt_event t = fmt_event s" "trace t = trace s @ down_unsolicited"
    using radio_update_down [of s RADIO_STATE_UNAVAILABLE] assms by (auto simp: wp_def fmt_connected_def)
  have "ipc_fmt_loop [Poll_error] s = Some ((Some (-1), []), t)"
    using assms(1) t(1) by (simp add: ipc_fmt_loop_def fmt_connected_def loop_rounds.simps ipc_fmt_check_def ipc_fmt_round_def ipc_fmt_error_def)
  then show ?thesis
    using t(2-8) assms(1) by (auto simp: fmt_connected_def fmt_life_def)
qed

lemma fmt_reopen_first:
  assumes "fmt_connected s" and "fmt_failures s = 1" and "radio_state s = RADIO_STATE_UNAVAILABLE"
  shows "\<exists>t. reopen (ril_client_close ipc_fmt_handlers) (ril_client_open ipc_fmt_handlers) s = Some (0, t) \<and> fmt_connected t \<and>
    radio_state t = RADIO_STATE_OFF \<and> fmt_failures t = 1 \<and> trace t = trace s @ [Modem ''close'', Modem ''open''] @ down_unsolicited"
proof -
  define u where "u = emit (Modem ''open'') (emit (Modem ''close'') (s\<lparr>fmt_available := False\<rparr>))"
  have "io_next v = v" if "io v = []" for v
    using that by (simp add: io_next_def)
  then have close: "ipc_fmt_close s = (0, emit (Modem ''close'') (s\<lparr>fmt_available := False\<rparr>))"
    using assms(1,2)
    by (simp add: ipc_fmt_close_def fmt_connected_def fmt_driver_def io_result_def eventfd_send_def eventfd_flush_def eventfd_read_def IPC_CLIENT_CLOSE_def)
  have idle: "fmt_idle u" "env_unsolicited u" "radio_state u \<noteq> RADIO_STATE_OFF"
    using assms by (simp_all add: u_def fmt_idle_def fmt_connected_def radio_state_defs)
  then obtain r t where t: "ril_radio_state_update RADIO_STATE_OFF u = Some (r, t)" "fmt_idle t" "fmt_life t = fmt_life u"
    "radio_state t = RADIO_STATE_OFF" "env_unsolicited t" "io t = io u" "fmt_event t = fmt_event u" "trace t = trace u @ down_unsolicited"
    using radio_update_down [of u RADIO_STATE_OFF] by (auto simp: wp_def)
  have "ipc_fmt_open (emit (Modem ''close'') (s\<lparr>fmt_available := False\<rparr>)) = Some (0, t\<lparr>fmt_event := snd (eventfd_flush (fmt_event t)), fmt_available := True\<rparr>)"
    using assms(1,2) t(1) \<open>\<And>v. io v = [] \<Longrightarrow> io_next v = v\<close>
    by (simp add: ipc_fmt_open_def fmt_connected_def fmt_driver_def io_result_def u_def)
  then have "reopen (ril_client_close ipc_fmt_handlers) (ril_client_open ipc_fmt_handlers) s =
      Some (0, t\<lparr>fmt_event := snd (eventfd_flush (fmt_event t)), fmt_available := True\<rparr>)"
    by (simp add: reopen_def ril_client_close_def ril_client_open_def ipc_fmt_handlers_def ok_or_error_def close)
  moreover have "fmt_connected (t\<lparr>fmt_event := snd (eventfd_flush (fmt_event t)), fmt_available := True\<rparr>)" "fmt_failures t = 1"
    "trace t = trace s @ [Modem ''close'', Modem ''open''] @ down_unsolicited"
    using t(2-8) assms(1,2)
    by (auto simp: fmt_connected_def fmt_life_def u_def fmt_idle_def eventfd_flush_def eventfd_read_def emit_def)
  ultimately show ?thesis
    using t(4) by simp
qed

lemma fmt_destroyed:
  "\<exists>rc t rc' u. ril_client_close ipc_fmt_handlers s = Some (rc, t) \<and> ril_client_destroy ipc_fmt_handlers t = Some (rc', u) \<and>
     \<not> fmt_data u \<and> fmt_failures u = fmt_failures s"
  by (auto simp: ril_client_close_def ril_client_destroy_def ipc_fmt_handlers_def ok_or_error_def ipc_fmt_close_def ipc_fmt_destroy_def fmt_driver_def
    ipc_fmt_flush_def ipc_fmt_request_flush_def ipc_gen_phone_res_expect_flush_def Let_def)

lemma fmt_start:
  assumes "io s = []"
  shows "ipc_fmt_create s = (0, s\<lparr>fmt_available := False, trace := trace s @ [Modem ''client_create'', Modem ''data_create''],
      fmt_data := True, fmt_ipc_client := True, fmt_event_fd := 0, fmt_event := 0, gen_phone_res_expect := [],
      sim_icc_type := 0, hsdpa_status := 0, svc_session := 0, fmt_requests := [], fmt_seq := 0\<rparr>)"
    and "fmt_data s \<Longrightarrow> fmt_ipc_client s \<Longrightarrow> 0 \<le> fmt_event_fd s \<Longrightarrow> fmt_failures s = 0 \<Longrightarrow>
      ipc_fmt_open s = Some (0, s\<lparr>trace := trace s @ [Modem ''boot'', Modem ''power_on'', Modem ''open''],
        fmt_event := snd (eventfd_flush (fmt_event s)), fmt_available := True\<rparr>)"
  using assms by (simp_all add: ipc_fmt_create_def ipc_fmt_open_def fmt_driver_def io_result_def io_next_def emit_def Let_def)

lemma rfs_start:
  assumes "rfs_io s = []"
  shows "ipc_rfs_create s = (0, s\<lparr>rfs_available := False, rfs_trace := rfs_trace s @ [Rfs_modem ''client_create'', Rfs_modem ''data_create''],
      rfs_data := True, rfs_event_fd := 0, rfs_event := 0\<rparr>)"
    and "rfs_data s \<Longrightarrow> 0 \<le> rfs_event_fd s \<Longrightarrow>
      ipc_rfs_open s = (0, s\<lparr>rfs_trace := rfs_trace s @ [Rfs_modem ''open''], rfs_event := snd (eventfd_flush (rfs_event s)), rfs_available := True\<rparr>)"
  using assms by (simp_all add: ipc_rfs_create_def ipc_rfs_open_def rfs_driver_def rfs_io_result_def rfs_io_next_def rfs_emit_def Let_def)

lemma srs_start:
  assumes "srs_io s = []" and "\<not> srs_locked s"
  shows "srs_create s = Some (0, s\<lparr>srs_available := False, srs_data := True, srs_server_fd := -1, srs_client_fd := -1, srs_server_event_fd := 0,
      srs_event_fd := 0, srs_server_event := 0, srs_event := 0, srs_clients := []\<rparr>)"
    and "srs_data s \<Longrightarrow> 0 \<le> srs_event_fd s \<Longrightarrow> 0 \<le> srs_server_event_fd s \<Longrightarrow>
      srs_open s = Some (0, s\<lparr>srs_server_fd := 0, srs_server_event := snd (eventfd_flush (srs_server_event s)),
        srs_event := snd (eventfd_flush (srs_event s)), srs_available := True\<rparr>)"
  using assms by (simp_all add: srs_create_def srs_open_def srs_server_open_def srs_section_def)

subsection \<open>Properties\<close>

text \<open>No client's loop ever ends as intended: the event that asks a loop to end has the value zero, which an event descriptor cannot deliver, so that
  whatever the FMT client, the RFS client and the socket server are given, when their loop returns it returns an error.\<close>

theorem client_loops_only_fail:
  "(ipc_fmt_loop inputs s = Some ((Some rc, rest), t) \<longrightarrow> rc = -1) \<and>
   (ipc_rfs_loop md5 alive inputs s' = Some ((Some rc, rest), t') \<longrightarrow> rc = -1) \<and>
   (srs_loop polls s'' = Some ((Some rc, polls'), t'') \<longrightarrow> rc = -1)"
proof (intro conjI impI)
  assume "ipc_fmt_loop inputs s = Some ((Some rc, rest), t)"
  then show "rc = -1"
    by (auto simp: ipc_fmt_loop_def split: if_splits elim!: loop_rounds_only_fail dest: ipc_fmt_check_returns ipc_fmt_round_returns)
next
  assume "ipc_rfs_loop md5 alive inputs s' = Some ((Some rc, rest), t')"
  then show "rc = -1"
    by (auto simp: ipc_rfs_loop_def ipc_rfs_check_def split: if_splits elim!: loop_rounds_only_fail dest: ipc_rfs_round_nonzero)
next
  assume "srs_loop polls s'' = Some ((Some rc, polls'), t'')"
  then show "rc = -1"
    by (auto simp: srs_loop_def srs_check_def split: if_splits elim!: loop_rounds_only_fail dest: srs_round_returns)
qed

text \<open>C37. Losing the modem while a request is queued is undefined: when polling or receiving fails, or sending has failed before, the FMT client's loop makes the radio
  unavailable, and this uses the first queued request after it was completed and freed.\<close>

theorem transport_error_fatal:
  assumes "ril_inv s" and "ril_data_alive s" and "env_complete s" and "radio_state s \<noteq> RADIO_STATE_UNAVAILABLE"
    and "requests s = (p, r) # rs" and "rq_token r \<noteq> 0" and "fmt_data s" and "fmt_ipc_client s" and "0 \<le> fmt_event_fd s" and "fmt_available s"
    and "input = Poll_error \<or> input = Poll_unreadable \<or> fmt_event s = IPC_CLIENT_IO_ERROR"
  shows "ipc_fmt_loop (input # inputs) s = None"
proof -
  have error: "ipc_fmt_error (s\<lparr>fmt_event := c\<rparr>) = None" for c
    using radio_unavailable_dangling [of "s\<lparr>fmt_event := c\<rparr>" p r rs] assms(1-6) by (simp add: ipc_fmt_error_def ril_inv_def)
  from this [of "fmt_event s"] have "ipc_fmt_error s = None"
    by simp
  then have "ipc_fmt_round input s = None"
    using assms(11) error [of 0]
    by (auto simp: ipc_fmt_round_def Let_def eventfd_recv_def eventfd_read_def IPC_CLIENT_CLOSE_def IPC_CLIENT_IO_ERROR_def)
  then show ?thesis
    using assms(7-10) by (simp add: ipc_fmt_loop_def loop_rounds.simps ipc_fmt_check_def)
qed

text \<open>An error of the transport while nothing is queued is repaired by connecting again without starting the modem again: the radio is announced to be unavailable, the
  client is closed and opened, the radio is announced to be off, and the loop waits for messages.\<close>

theorem fmt_reconnects:
  assumes "fmt_connected s" and "radio_state s \<noteq> RADIO_STATE_UNAVAILABLE"
  shows "\<exists>t. ril_client_thread ipc_fmt_handlers [Poll_error] s = Some ((False, []), t) \<and> fmt_connected t \<and> radio_state t = RADIO_STATE_OFF \<and>
    fmt_failures t = 1 \<and> trace t = trace s @ down_unsolicited @ [Modem ''close'', Modem ''open''] @ down_unsolicited"
proof -
  define s0 where "s0 = s\<lparr>fmt_failures := 0\<rparr>"
  have "fmt_connected s0" "radio_state s0 \<noteq> RADIO_STATE_UNAVAILABLE"
    using assms by (simp_all add: s0_def fmt_connected_def fmt_idle_def)
  then obtain t where t: "ipc_fmt_loop [Poll_error] s0 = Some ((Some (-1), []), t)" "fmt_connected t" "radio_state t = RADIO_STATE_UNAVAILABLE"
    "fmt_failures t = 0" "trace t = trace s @ down_unsolicited"
    using fmt_loop_error [of s0] by (auto simp: s0_def)
  define t1 where "t1 = t\<lparr>fmt_failures := 1\<rparr>"
  have "fmt_connected t1" "fmt_failures t1 = 1" "radio_state t1 = RADIO_STATE_UNAVAILABLE"
    using t by (simp_all add: t1_def fmt_connected_def fmt_idle_def)
  then obtain u where u: "reopen (ril_client_close ipc_fmt_handlers) (ril_client_open ipc_fmt_handlers) t1 = Some (0, u)" "fmt_connected u"
    "radio_state u = RADIO_STATE_OFF" "fmt_failures u = 1" "trace u = trace t @ [Modem ''close'', Modem ''open''] @ down_unsolicited"
    using fmt_reopen_first [of t1] by (auto simp: t1_def)
  have wait: "ipc_fmt_loop [] u = Some ((None, []), u)"
    using u(2) by (simp add: ipc_fmt_loop_def fmt_connected_def loop_rounds.simps ipc_fmt_check_def)
  note step = retry_thread.simps [of fmt_failures "\<lambda>s. s\<lparr>fmt_failures := fmt_failures s + 1\<rparr>"]
  have "ril_client_runs ipc_fmt_handlers [Poll_error] s = Some ((False, []), u)"
    unfolding ril_client_runs_def ipc_fmt_handlers_def ril_client_handlers.simps
    by (subst step, subst step) (use t(1,4) u(1) wait in \<open>simp add: s0_def t1_def ipc_fmt_handlers_def RIL_CLIENT_RETRY_COUNT_def\<close>)
  then show ?thesis
    using t(5) u by (simp add: ril_client_thread_def)
qed

text \<open>C12. The FMT client's thread always comes to an end or waits for the modem, and it ends only after the fifth failure: with no request queued and no data connection, whatever
  errors occur and whatever messages without a handler arrive in between, it returns without undefined behaviour, and when it has ended, the client is closed and its data is gone.\<close>

theorem fmt_thread_gives_up:
  assumes "ril_data_alive s" and "requests s = []" and "data_connections s = []" and "unhandled_inputs inputs"
  shows "\<exists>stopped rest t. ril_client_thread ipc_fmt_handlers inputs s = Some ((stopped, rest), t) \<and>
    (stopped \<longrightarrow> fmt_failures t = RIL_CLIENT_RETRY_COUNT \<and> \<not> fmt_data t) \<and> (\<not> stopped \<longrightarrow> requests t = [])"
proof -
  have "fmt_idle (s\<lparr>fmt_failures := 0\<rparr>)"
    using assms(1-3) by (simp add: fmt_idle_def)
  then have "wp (ril_client_runs ipc_fmt_handlers inputs s) (\<lambda>(stopped, rest) t. fmt_idle t \<and> (stopped \<longrightarrow> fmt_failures t = RIL_CLIENT_RETRY_COUNT \<or> False))"
    using fmt_thread.thread_ends [of "s\<lparr>fmt_failures := 0\<rparr>" inputs] assms(4)
    by (simp add: ril_client_runs_def ipc_fmt_handlers_def RIL_CLIENT_RETRY_COUNT_def)
  then obtain stopped rest t where t: "ril_client_runs ipc_fmt_handlers inputs s = Some ((stopped, rest), t)" "fmt_idle t"
    "stopped \<Longrightarrow> fmt_failures t = RIL_CLIENT_RETRY_COUNT"
    by (auto simp: wp_def)
  show ?thesis
    using t fmt_destroyed [of t] by (cases stopped) (auto simp: ril_client_thread_def fmt_idle_def)
qed

text \<open>C5. Starting the RIL: when no call fails, \<open>RIL_Init\<close> returns the radio functions with all three clients opened and their threads started, and every
  state that the system then reaches by requests, cancellations, rounds of the loop and messages satisfies the system's invariant.\<close>

theorem RIL_Init_ready:
  assumes "io (proc_ril p) = []" and "rfs_io (proc_rfs p) = []" and "srs_io (proc_srs p) = []" and "proc_io p = []"
    and "\<not> srs_locked (proc_srs p)" and "fmt_failures (proc_ril p) = 0" and "completions (trace (proc_ril p)) = []"
  shows "\<exists>p'. RIL_Init md5 (Some (True, unsolicited)) p = Some (True, p') \<and>
    fmt_available (proc_ril p') \<and> rfs_available (proc_rfs p') \<and> srs_available (proc_srs p') \<and>
    proc_threads p' = proc_threads p @ [RIL_CLIENT_IPC_FMT, RIL_CLIENT_IPC_RFS, RIL_CLIENT_SRS] \<and>
    radio_state (proc_ril p') = RADIO_STATE_UNAVAILABLE \<and> (\<forall>c. ril_step\<^sup>*\<^sup>* (ril_start (proc_ril p')) c \<longrightarrow> system_inv c)"
proof -
  have sys: "proc_sys q = (0, q)" if "proc_io q = []" for q
    using that by (simp add: proc_sys_def)
  define r where "r = (proc_ril p)\<lparr>ril_data_alive := True, env_complete := True, env_unsolicited := unsolicited, sim_pin := None, requests := [],
    requests_data := [], data_connections := [], loop_locked := True, radio_state := RADIO_STATE_UNAVAILABLE, fmt_data := True, fmt_ipc_client := True,
    fmt_event_fd := 0, fmt_event := 0, gen_phone_res_expect := [], sim_icc_type := 0, hsdpa_status := 0, svc_session := 0, fmt_requests := [],
    fmt_seq := 0, fmt_available := True, trace := trace (proc_ril p) @ map Modem [''client_create'', ''data_create'', ''boot'', ''power_on'', ''open'']\<rparr>"
  have "\<exists>p'. RIL_Init md5 (Some (True, unsolicited)) p = Some (True, p') \<and> proc_ril p' = r \<and> rfs_available (proc_rfs p') \<and>
      srs_available (proc_srs p') \<and> proc_threads p' = proc_threads p @ [RIL_CLIENT_IPC_FMT, RIL_CLIENT_IPC_RFS, RIL_CLIENT_SRS]"
    using assms
    by (simp add: RIL_Init_def ril_data_create_def ril_clients_def create_client_def on_fmt_def on_rfs_def on_srs_def ril_client_create_def
      ipc_fmt_handlers_def ipc_rfs_handlers_def srs_handlers_def ok_or_error_def fmt_start rfs_start srs_start RIL_CLIENT_RETRY_COUNT_def
      eval_nat_numeral open_client_def ril_client_open_def ril_client_loop_def sys r_def eventfd_flush_def eventfd_read_def)
  then obtain p' where p': "RIL_Init md5 (Some (True, unsolicited)) p = Some (True, p')" "proc_ril p' = r" "rfs_available (proc_rfs p')"
    "srs_available (proc_srs p')" "proc_threads p' = proc_threads p @ [RIL_CLIENT_IPC_FMT, RIL_CLIENT_IPC_RFS, RIL_CLIENT_SRS]"
    by blast
  have "message_pre r" "requests r = []" "completions (trace r) = []"
    using assms(7) by (simp_all add: r_def message_pre_def ril_inv_def fmt_mirror_def)
  then have "\<forall>c. ril_step\<^sup>*\<^sup>* (ril_start r) c \<longrightarrow> system_inv c"
    using reachable_inv by blast
  then show ?thesis
    using p' by (auto simp: r_def)
qed

theorem client_loops_only_fail_witness:
  "\<exists>rc t t' t''. ipc_fmt_loop [Poll_error] (initial_world []) = Some ((Some rc, [Poll_error]), t) \<and> rc = -1 \<and>
     ipc_rfs_loop toy_md5 True [Poll_error] toy_rfs = Some ((Some rc, []), t') \<and> srs_loop [Srs_poll_error] srs_connected = Some ((Some rc, []), t'')"
proof -
  have fmt: "ipc_fmt_loop [Poll_error] (initial_world []) = Some ((Some (-1), [Poll_error]), initial_world [])"
    by (simp add: ipc_fmt_loop_def initial_world_def)
  have rfs: "\<exists>rc t'. ipc_rfs_loop toy_md5 True [Poll_error] toy_rfs = Some ((Some rc, []), t')"
    by (simp add: ipc_rfs_loop_def toy_rfs_def loop_rounds.simps ipc_rfs_check_def ipc_rfs_round_def)
  have srs: "\<exists>rc t''. srs_loop [Srs_poll_error] srs_connected = Some ((Some rc, []), t'')"
    by (simp add: srs_loop_def srs_connected_def srs_started_def srs_initial_def loop_rounds.simps srs_check_def srs_round_def srs_client_fd_set_setup_def
      srs_section_def)
  show ?thesis
    using fmt rfs srs client_loops_only_fail by metis
qed

definition queued_world :: ril_world where
  "queued_world = start_world\<lparr>next_addr := 3, requests := [(1, \<lparr>rq_request = 12, rq_data = None, rq_size = 0, rq_token = 7, rq_status = 1\<rparr>)],
     fmt_requests := [(2, \<lparr>fr_request = 12, fr_token = 7, fr_seq = 0xff\<rparr>)]\<rparr>"

theorem transport_error_fatal_witness: "ipc_fmt_loop [Poll_error] queued_world = None"
  using transport_error_fatal [of queued_world 1 "\<lparr>rq_request = 12, rq_data = None, rq_size = 0, rq_token = 7, rq_status = 1\<rparr>" "[]" Poll_error "[]"]
  by (simp add: queued_world_def start_world_def initial_world_def ril_inv_def nodes_ok_def fmt_mirror_def radio_state_defs)

theorem fmt_reconnects_witness:
  "\<exists>t. ril_client_thread ipc_fmt_handlers [Poll_error] start_world = Some ((False, []), t) \<and> fmt_failures t = 1"
  using fmt_reconnects [of start_world] by (auto simp: fmt_connected_def fmt_idle_def start_world_def initial_world_def radio_state_defs)

theorem fmt_thread_gives_up_witness:
  "\<exists>stopped rest t. ril_client_thread ipc_fmt_handlers (replicate 7 Poll_error) start_world = Some ((stopped, rest), t)"
  using fmt_thread_gives_up [of start_world "replicate 7 Poll_error"]
  by (auto simp: unhandled_inputs_def unhandled_input_def start_world_def initial_world_def)

theorem RIL_Init_ready_witness:
  "\<exists>p'. RIL_Init toy_md5 (Some (True, True)) \<lparr>proc_ril = initial_world [], proc_rfs = toy_rfs, proc_srs = srs_initial, proc_io = [], proc_threads = []\<rparr> =
     Some (True, p') \<and> fmt_available (proc_ril p')"
  using RIL_Init_ready [of "\<lparr>proc_ril = initial_world [], proc_rfs = toy_rfs, proc_srs = srs_initial, proc_io = [], proc_threads = []\<rparr>" toy_md5 True]
  by (auto simp: initial_world_def toy_rfs_def srs_initial_def)

end
