(* ===== verification/Srs_Client.thy ===== *)
theory Srs_Client
  imports Ril_Srs
begin

section \<open>The client library of the socket\<close>

text \<open>
  \<open>srs-client/srs-client.c\<close>, which the audio libraries use to talk to the server of theory \<open>Ril_Srs\<close>. Its functions have the names of those of the server; here they begin
  with \<open>lib_\<close>. The state is \<open>struct srs_client\<close> with the bytes that are pending on its socket and the counter behind its event descriptor; calls take their results
  from the script \<open>peer_io\<close> and succeed when it is used up. The callback is the user's; that it is called is recorded in \<open>peer_trace\<close>.
\<close>

subsection \<open>State\<close>

datatype peer_action =
    Peer_connected int
  | Peer_closed int
  | Peer_wrote "u8 list"
  | Peer_called srs_message

record srs_peer =
  peer_fd :: int
  peer_event_fd :: int
  peer_event :: nat
  peer_callback :: bool
  peer_pending :: "u8 list"
  peer_io :: "int list"
  peer_trace :: "peer_action list"

definition peer_sys :: "int \<Rightarrow> srs_peer \<Rightarrow> int \<times> srs_peer" where
  "peer_sys rc s = (case peer_io s of [] \<Rightarrow> rc | r # _ \<Rightarrow> r, s\<lparr>peer_io := drop 1 (peer_io s)\<rparr>)"

definition peer_emit :: "peer_action \<Rightarrow> srs_peer \<Rightarrow> srs_peer" where
  "peer_emit a s = s\<lparr>peer_trace := peer_trace s @ [a]\<rparr>"

subsection \<open>Connecting\<close>

definition lib_srs_client_create :: "int list \<Rightarrow> srs_peer" where
  "lib_srs_client_create script = \<lparr>peer_fd = -1, peer_event_fd = -1, peer_event = 0, peer_callback = False, peer_pending = [],
     peer_io = script, peer_trace = []\<rparr>"

text \<open>Up to five attempts to connect.\<close>

fun connect_attempts :: "nat \<Rightarrow> srs_peer \<Rightarrow> int \<times> srs_peer" where
  "connect_attempts 0 s = (-1, s)"
| "connect_attempts (Suc n) s = (let (fd, s) = peer_sys 0 s in if fd < 0 then connect_attempts n s else (fd, s))"

definition lib_srs_client_open :: "srs_peer \<Rightarrow> int \<times> srs_peer" where
  "lib_srs_client_open s = (let (fd, s) = connect_attempts 5 s in
     if fd < 0 then (-1, s) else (0, peer_emit (Peer_connected fd) (s\<lparr>peer_fd := fd, peer_pending := []\<rparr>)))"

definition lib_srs_client_close :: "srs_peer \<Rightarrow> int \<times> srs_peer" where
  "lib_srs_client_close s = (0, if peer_fd s \<ge> 0 then (peer_emit (Peer_closed (peer_fd s)) s)\<lparr>peer_fd := -1\<rparr> else s)"

subsection \<open>Sending and receiving\<close>

text \<open>\<open>select\<close> on the socket for 50 ms.\<close>

definition lib_srs_client_poll :: "srs_peer \<Rightarrow> int \<times> srs_peer" where
  "lib_srs_client_poll s = (if peer_fd s < 0 then (-1, s) else peer_sys (if peer_pending s = [] then 0 else 1) s)"

definition lib_srs_client_send :: "u16 \<Rightarrow> u8 list \<Rightarrow> srs_peer \<Rightarrow> (int \<times> srs_peer) option" where
  "lib_srs_client_send command data s =
     (if peer_fd s < 0 then Some (-1, s)
      else Option.bind (srs_send_buffer \<lparr>srs_command = command, srs_message_data = data\<rparr>) (\<lambda>buffer.
        let (rc, s) = peer_sys 1 s in
        if rc \<le> 0 then Some (-1, s)
        else
          let (rc, s) = peer_sys (int (length buffer)) s;
              s = peer_emit (Peer_wrote (take (nat rc) buffer)) s in
          Some (if rc < int (length buffer) then -1 else 0, s)))"

definition lib_srs_client_recv :: "srs_peer \<Rightarrow> ((int \<times> srs_message) \<times> srs_peer) option" where
  "lib_srs_client_recv s = (let none = \<lparr>srs_command = 0, srs_message_data = []\<rparr> in
     if peer_fd s < 0 then Some ((-1, none), s)
     else
       let (rc, s) = peer_sys 1 s in
       if rc \<le> 0 then Some ((-1, none), s)
       else
         let pending = peer_pending s;
             (rc, s) = peer_sys (int (min SRS_BUFFER_LENGTH (length pending))) s;
             bytes = take (nat rc) (take SRS_BUFFER_LENGTH pending);
             s = s\<lparr>peer_pending := drop (length bytes) pending\<rparr> in
         Option.bind (srs_recv_buffer bytes) (\<lambda>r. Some (case r of None \<Rightarrow> (-1, none) | Some message \<Rightarrow> (0, message), s)))"

text \<open>\<open>answer\<close> is what the other side has sent by the end of the poll in response to the bytes written by this call.\<close>

definition written :: "srs_peer \<Rightarrow> srs_peer \<Rightarrow> u8 list" where
  "written s t = concat (map (\<lambda>a. case a of Peer_wrote bytes \<Rightarrow> bytes | _ \<Rightarrow> []) (drop (length (peer_trace s)) (peer_trace t)))"

definition lib_srs_ping :: "(u8 list \<Rightarrow> u8 list) \<Rightarrow> srs_peer \<Rightarrow> (int \<times> srs_peer) option" where
  "lib_srs_ping answer s = Option.bind (lib_srs_client_send SRS_CONTROL_PING (bytes32 SRS_CONTROL_CAFFE) s) (\<lambda>(rc, t).
     if rc < 0 then Some (-1, t)
     else
       let (rc, t) = lib_srs_client_poll (t\<lparr>peer_pending := peer_pending t @ answer (written s t)\<rparr>) in
       if rc \<le> 0 then Some (-1, t)
       else Option.bind (lib_srs_client_recv t) (\<lambda>((rc, message), t).
         if rc < 0 then Some (-1, t)
         else (case srs_message_data message of
             a # b # c # d # _ \<Rightarrow> Some (if le32 a b c d \<noteq> SRS_CONTROL_CAFFE then -1 else 0, t)
           | _ \<Rightarrow> Some (-1, t))))"

subsection \<open>The loop\<close>

text \<open>The event is an \<open>unsigned long\<close>, which has four bytes on the 32-bit targets; reading and writing an event descriptor takes eight and fails with less.\<close>

definition sizeof_long :: nat where "sizeof_long = 4"

definition eventfd_drain :: "nat \<Rightarrow> nat \<Rightarrow> nat" where
  "eventfd_drain sz c = (if sz < 8 then c else 0)"

definition eventfd_add :: "nat \<Rightarrow> nat \<Rightarrow> nat \<Rightarrow> nat" where
  "eventfd_add sz event c = (if sz < 8 then c else c + event)"

datatype peer_poll = Peer_poll_error | Peer_poll "u8 list option"

definition lib_srs_client_check :: "srs_peer \<Rightarrow> (loop_result \<times> srs_peer) option" where
  "lib_srs_client_check s = Some (if peer_fd s < 0 \<or> peer_event_fd s < 0 then Loop_return (-1) else Loop_continue, s)"

text \<open>The socket is ready when bytes arrive or it is closed (no bytes), and when earlier bytes are left.\<close>

definition lib_srs_client_round :: "peer_poll \<Rightarrow> srs_peer \<Rightarrow> (loop_result \<times> srs_peer) option" where
  "lib_srs_client_round input s = (case input of
      Peer_poll_error \<Rightarrow> Some (Loop_return (-1), s)
    | Peer_poll arrived \<Rightarrow>
        let s = s\<lparr>peer_pending := peer_pending s @ (case arrived of None \<Rightarrow> [] | Some bytes \<Rightarrow> bytes)\<rparr> in
        if peer_event s > 0 then Some (Loop_return 0, s\<lparr>peer_event := eventfd_drain sizeof_long (peer_event s)\<rparr>)
        else if arrived = None \<and> peer_pending s = [] then Some (Loop_continue, s)
        else Option.bind (lib_srs_client_recv s) (\<lambda>((rc, message), s).
          if rc < 0 then Some (Loop_return (-1), s) else Some (Loop_continue, peer_emit (Peer_called message) s)))"

definition lib_srs_client_loop :: "peer_poll list \<Rightarrow> srs_peer \<Rightarrow> ((int option \<times> peer_poll list) \<times> srs_peer) option" where
  "lib_srs_client_loop inputs s = (if \<not> peer_callback s then Some ((Some (-1), inputs), s)
     else loop_rounds lib_srs_client_check lib_srs_client_round inputs s)"

text \<open>The thread: five runs of the loop at most, with a new connection before every run but the first. The result is \<open>None\<close> while a run waits for input.\<close>

fun lib_client_runs :: "nat \<Rightarrow> int \<Rightarrow> peer_poll list \<Rightarrow> srs_peer \<Rightarrow> ((int option \<times> peer_poll list) \<times> srs_peer) option" where
  "lib_client_runs 0 rc inputs s = Some ((Some rc, inputs), s)"
| "lib_client_runs (Suc n) rc inputs s =
     (let (rc, s) = (if rc < 0 then case lib_srs_client_close s of (rc, s) \<Rightarrow> if rc < 0 then (rc, s) else lib_srs_client_open s
          else (rc, s)) in
      if rc < 0 then Some ((Some rc, inputs), s)
      else Option.bind (lib_srs_client_loop inputs s) (\<lambda>((r, inputs), s). case r of
          None \<Rightarrow> Some ((None, inputs), s)
        | Some rc \<Rightarrow> if rc < 0 then lib_client_runs n rc inputs s else Some ((Some rc, inputs), s)))"

definition lib_srs_client_thread :: "peer_poll list \<Rightarrow> srs_peer \<Rightarrow> ((int option \<times> peer_poll list) \<times> srs_peer) option" where
  "lib_srs_client_thread inputs s = lib_client_runs 5 0 inputs s"

definition lib_srs_client_loop_start :: "srs_peer \<Rightarrow> int \<times> srs_peer" where
  "lib_srs_client_loop_start s =
     (let (event_fd, s) = peer_sys 0 s in
      if event_fd < 0 then (-1, s)
      else
        let (rc, s) = peer_sys 0 (s\<lparr>peer_event_fd := event_fd, peer_event := 0, peer_callback := True\<rparr>) in
        if rc \<noteq> 0 then (-1, s\<lparr>peer_event_fd := -1\<rparr>) else (0, s))"

text \<open>The thread is detached, so that joining it does not wait; \<open>peer_event_fd\<close> becomes \<open>-1\<close> in any case.\<close>

definition lib_srs_client_loop_stop :: "srs_peer \<Rightarrow> int \<times> srs_peer" where
  "lib_srs_client_loop_stop s = (if peer_event_fd s < 0 then (-1, s)
     else (0, s\<lparr>peer_event := eventfd_add sizeof_long 1 (peer_event s), peer_event_fd := -1\<rparr>))"

subsection \<open>Lemmas\<close>

lemma peer_sys_quiet [simp]: "peer_io s = [] \<Longrightarrow> peer_sys rc s = (rc, s)"
  by (simp add: peer_sys_def)

lemma lib_recv_eq:
  assumes "0 \<le> peer_fd s" and "peer_io s = []"
  shows "lib_srs_client_recv s = Option.bind (srs_recv_buffer (take SRS_BUFFER_LENGTH (peer_pending s))) (\<lambda>r.
    Some (case r of None \<Rightarrow> (-1, \<lparr>srs_command = 0, srs_message_data = []\<rparr>) | Some message \<Rightarrow> (0, message),
      s\<lparr>peer_pending := drop SRS_BUFFER_LENGTH (peer_pending s)\<rparr>))"
proof -
  have "drop (min SRS_BUFFER_LENGTH (length bs)) bs = drop SRS_BUFFER_LENGTH bs" "take (min SRS_BUFFER_LENGTH (length bs)) (take SRS_BUFFER_LENGTH bs) = take SRS_BUFFER_LENGTH bs" for bs :: "u8 list"
    by (auto simp: min_def)
  then show ?thesis
    using assms by (simp add: lib_srs_client_recv_def Let_def min.commute)
qed

text \<open>The answer of a server in state \<open>s\<close> to bytes on the connection \<open>fd\<close>: what its next round writes there.\<close>

definition server_answer :: "int \<Rightarrow> srs_world \<Rightarrow> u8 list \<Rightarrow> u8 list" where
  "server_answer fd s bytes = (case srs_round (Srs_poll [(fd, bytes)]) s of
      None \<Rightarrow> []
    | Some (_, t) \<Rightarrow> concat (map (\<lambda>a. case a of Srs_wrote fd' bs \<Rightarrow> if fd' = fd then bs else [] | _ \<Rightarrow> []) (drop (length (srs_trace s)) (srs_trace t))))"

lemma server_answer_ping:
  "srs_running s \<Longrightarrow> (p, fd) \<in> set (srs_clients s) \<Longrightarrow> srs_io s = [] \<Longrightarrow> server_answer fd s ping_bytes = ping_bytes"
  using srs_round_ping(1) [of s p fd] by (simp add: server_answer_def)

lemma lib_send_ping:
  assumes "0 \<le> peer_fd c" and "peer_io c = []"
  shows "lib_srs_client_send SRS_CONTROL_PING (bytes32 SRS_CONTROL_CAFFE) c = Some (0, peer_emit (Peer_wrote ping_bytes) c)"
  using assms ping_send_buffer [unfolded ping_message_def] by (simp add: lib_srs_client_send_def)

subsection \<open>Properties\<close>

text \<open>C30. Library and server together: a library that is connected to a running server and whose socket has nothing pending gets its ping answered. The bytes that the library
  writes make the server's next round write the bytes that the library then accepts as the answer.\<close>

theorem srs_ping_succeeds:
  assumes "srs_running s" and "(p, fd) \<in> set (srs_clients s)" and "srs_io s = []"
    and "0 \<le> peer_fd c" and "peer_io c = []" and "peer_pending c = []"
  shows "lib_srs_ping (server_answer fd s) c = Some (0, c\<lparr>peer_trace := peer_trace c @ [Peer_wrote ping_bytes]\<rparr>)"
proof -
  have "written c (peer_emit (Peer_wrote ping_bytes) c) = ping_bytes"
    by (simp add: written_def peer_emit_def)
  moreover have "ping_bytes \<noteq> []"
    using length_ping_bytes by fastforce
  moreover have "take SRS_BUFFER_LENGTH ping_bytes = ping_bytes" "drop SRS_BUFFER_LENGTH ping_bytes = []"
    by (simp_all add: SRS_BUFFER_LENGTH_def)
  moreover obtain w x y z where "srs_message_data ping_message = [w, x, y, z]" "le32 w x y z = SRS_CONTROL_CAFFE"
    by (simp add: ping_message_def bytes32_def)
  ultimately show ?thesis
    using assms server_answer_ping [OF assms(1-3)]
    by (simp add: lib_srs_ping_def lib_send_ping lib_srs_client_poll_def peer_emit_def lib_recv_eq)
qed

text \<open>Stopping the loop of the library does not reach it on a 32-bit target: the event is written with four bytes, which the event descriptor refuses, so that a loop
  that waits for input takes the next message as before and calls the callback.\<close>

theorem lib_stop_unnoticed:
  assumes "0 \<le> peer_fd c" and "0 \<le> peer_event_fd c" and "peer_event c = 0" and "peer_io c = []" and "peer_pending c = []"
    and "srs_send_buffer message = Some frame" and "srs_size_ok message"
  shows "\<exists>t. lib_srs_client_round (Peer_poll (Some frame)) (snd (lib_srs_client_loop_stop c)) = Some (Loop_continue, t) \<and>
    peer_trace t = peer_trace c @ [Peer_called message]"
proof -
  have frame: "frame = srs_header_bytes (srs_header_setup message) @ srs_message_data message"
    using assms(6) by (auto simp: srs_send_buffer_def Let_def split: if_splits)
  then have "srs_recv_buffer frame = Some (Some message)" "take SRS_BUFFER_LENGTH frame = frame"
    using srs_recv_buffer_frame [OF assms(7), of "[]"] assms(7) by (simp_all add: srs_size_ok_def SRS_BUFFER_LENGTH_def)
  then show ?thesis
    using assms(1-5)
    by (simp add: lib_srs_client_round_def lib_srs_client_loop_stop_def eventfd_add_def sizeof_long_def lib_recv_eq peer_emit_def)
qed

lemma ping_message_size: "length (srs_message_data ping_message) = 4"
  by (simp add: ping_message_def)

definition toy_peer :: srs_peer where
  "toy_peer = (lib_srs_client_create [])\<lparr>peer_fd := 3, peer_event_fd := 4, peer_callback := True\<rparr>"

theorem srs_ping_succeeds_witness:
  "lib_srs_ping (server_answer 9 srs_connected) toy_peer = Some (0, toy_peer\<lparr>peer_trace := [Peer_wrote ping_bytes]\<rparr>)"
  using srs_ping_succeeds [OF srs_connected_running(1), of 1 9 toy_peer]
  by (simp add: srs_connected_def srs_started_def srs_initial_def toy_peer_def lib_srs_client_create_def)

theorem lib_stop_unnoticed_witness:
  "\<exists>t. lib_srs_client_round (Peer_poll (Some ping_bytes)) (snd (lib_srs_client_loop_stop toy_peer)) = Some (Loop_continue, t) \<and>
     peer_trace t = [Peer_called ping_message]"
  using lib_stop_unnoticed [of toy_peer ping_message ping_bytes]
  by (simp add: toy_peer_def lib_srs_client_create_def srs_size_ok_def SRS_BUFFER_LENGTH_def ping_message_size)

end
