(* ===== verification/Srs_Threads.thy ===== *)
theory Srs_Threads
  imports Ril_Srs
begin

section \<open>samsung-ril: the two threads of the sound server\<close>

text \<open>
  \<open>srs.c\<close> protects each access to the list of connections with the client's mutex, but not what lies between two of them: a connection is accepted before it is registered, and it is
  looked up, read from, closed and unregistered in sections of their own. Here the steps of the thread that accepts connections (\<open>srs_server_loop\<close>, \<open>srs_server_close\<close>) and of the thread
  that reads from them (\<open>srs_loop\<close>, \<open>srs_close\<close>) are these sections and the unprotected accesses between them, and steps of the two threads follow each other in any order.
\<close>

subsection \<open>Steps\<close>

text \<open>Where a thread is: it holds no connection, has accepted one that is not registered yet, reads from a client, is about to close a client's connection, or is about to unregister
  the client whose connection it has closed.\<close>

datatype srs_point = Between | Accepted int | Serving addr | Closing addr | Unlinking addr

text \<open>A step that leaves the connections alone: the listening socket, the events, the arrival of bytes, the state of the RIL.\<close>

definition srs_quiet :: "srs_world \<Rightarrow> srs_world \<Rightarrow> bool" where
  "srs_quiet s t \<longleftrightarrow> srs_clients t = srs_clients s \<and> srs_next t = srs_next s \<and> srs_locked t = srs_locked s \<and> srs_data t = srs_data s \<and>
     connections (srs_trace t) = connections (srs_trace s)"

text \<open>The first argument tells whether the thread is the one that accepts. \<open>accept\<close> returns a descriptor that is not open. The pointer that a thread has looked up is dereferenced when it
  reads and when it closes; there is no step where the client has been freed.\<close>

inductive srs_step :: "bool \<Rightarrow> srs_point \<Rightarrow> srs_world \<Rightarrow> srs_point \<Rightarrow> srs_world \<Rightarrow> bool" where
  accept: "srs_server_check s = Some (Loop_continue, s) \<Longrightarrow> 0 \<le> fd \<Longrightarrow> (\<And>fds. connections (srs_trace s) = Some fds \<Longrightarrow> fd \<notin> set fds) \<Longrightarrow>
    srs_step True Between s (Accepted fd) (srs_emit (Srs_accepted fd) s)"
| register: "srs_client_register fd s = Some (0, t) \<Longrightarrow>
    srs_step True (Accepted fd) s Between (t\<lparr>srs_event := snd (eventfd_send SRS_CLIENT_CHANGE (srs_event t))\<rparr>)"
| close_first: "srs_client_find s = Some (Some p, t) \<Longrightarrow> srs_step b Between s (Closing p) t"
| close: "node_get (srs_clients s) p = Some fd \<Longrightarrow> srs_step b (Closing p) s (Unlinking p) (srs_close_fd fd s)"
| unlink: "srs_client_unregister p s = Some (rc, t) \<Longrightarrow> srs_step b (Unlinking p) s Between (t\<lparr>srs_client_fd := if b then srs_client_fd t else -1\<rparr>)"
| find_ready: "srs_client_find_fd_set fds s = Some ((Some p, fds'), t) \<Longrightarrow> srs_step False Between s (Serving p) t"
| failed: "node_get (srs_clients s) p = Some fd \<Longrightarrow> srs_client_recv (s\<lparr>srs_client_fd := fd\<rparr>) = Some ((rc, message), t) \<Longrightarrow> rc < 0 \<Longrightarrow>
    srs_step False (Serving p) s (Closing p) t"
| served: "node_get (srs_clients s) p = Some fd \<Longrightarrow> srs_client_recv (s\<lparr>srs_client_fd := fd\<rparr>) = Some ((rc, message), t) \<Longrightarrow> 0 \<le> rc \<Longrightarrow>
    srs_dispatch message t = Some (rc', u) \<Longrightarrow> srs_step False (Serving p) s (if rc' < 0 then Closing p else Between) u"
| quiet: "srs_quiet s t \<Longrightarrow> srs_step b x s x t"

text \<open>The accepting and the reading thread. When \<open>apart\<close> holds, only one of them at a time is between looking a client up and being done with it, and \<open>srs_client_flush\<close> finds the list
  empty, as after \<open>srs_server_close\<close> when nothing was registered in between. The code does not ensure this.\<close>

fun busy :: "srs_point \<Rightarrow> bool" where
  "busy Between = False"
| "busy (Accepted fd) = False"
| "busy _ = True"

inductive srs_threads :: "bool \<Rightarrow> srs_point \<Rightarrow> srs_point \<Rightarrow> srs_world \<Rightarrow> bool" for apart where
  created: "srs_create s = Some (0, t) \<Longrightarrow> srs_trace s = [] \<Longrightarrow> srs_threads apart Between Between t"
| accepting: "srs_threads apart a r s \<Longrightarrow> srs_step True a s a' t \<Longrightarrow> (apart \<Longrightarrow> \<not> (busy a' \<and> busy r)) \<Longrightarrow> srs_threads apart a' r t"
| reading: "srs_threads apart a r s \<Longrightarrow> srs_step False r s r' t \<Longrightarrow> (apart \<Longrightarrow> \<not> (busy a \<and> busy r')) \<Longrightarrow> srs_threads apart a r' t"
| flushed: "srs_threads apart a Between s \<Longrightarrow> srs_client_flush s = Some (0, t) \<Longrightarrow> (apart \<Longrightarrow> srs_clients s = []) \<Longrightarrow> srs_threads apart a Between t"

inductive_cases srs_stepE: "srs_step b x s y t"

subsection \<open>Accounting\<close>

text \<open>What a thread holds that is not in the list, and what is in the list although it is closed.\<close>

fun held :: "srs_point \<Rightarrow> int list" where
  "held (Accepted fd) = [fd]"
| "held _ = []"

fun doomed :: "srs_point \<Rightarrow> addr set" where
  "doomed (Unlinking p) = {p}"
| "doomed _ = {}"

fun looked_up :: "srs_point \<Rightarrow> addr set" where
  "looked_up (Serving p) = {p}"
| "looked_up (Closing p) = {p}"
| "looked_up (Unlinking p) = {p}"
| "looked_up _ = {}"

definition live_clients :: "srs_point \<Rightarrow> srs_point \<Rightarrow> srs_world \<Rightarrow> int nodes" where
  "live_clients a r s = filter (\<lambda>n. fst n \<notin> doomed a \<union> doomed r) (srs_clients s)"

definition sockets_accounted :: "srs_point \<Rightarrow> srs_point \<Rightarrow> srs_world \<Rightarrow> bool" where
  "sockets_accounted a r s \<longleftrightarrow> (\<exists>fds. connections (srs_trace s) = Some fds \<and> distinct fds \<and>
     distinct (map snd (live_clients a r s) @ held a @ held r) \<and> set fds = set (map snd (live_clients a r s) @ held a @ held r))"

definition threads_inv :: "srs_point \<Rightarrow> srs_point \<Rightarrow> srs_world \<Rightarrow> bool" where
  "threads_inv a r s \<longleftrightarrow> srs_data s \<and> \<not> srs_locked s \<and> distinct (map fst (srs_clients s)) \<and> (\<forall>n \<in> set (srs_clients s). fst n < srs_next s \<and> 0 \<le> snd n) \<and>
     looked_up a \<union> looked_up r \<subseteq> fst ` set (srs_clients s) \<and> \<not> (busy a \<and> busy r) \<and> (\<forall>fd \<in> set (held a @ held r). 0 \<le> fd) \<and> sockets_accounted a r s"

lemma busy_iff: "busy x \<longleftrightarrow> looked_up x \<noteq> {}"
  by (cases x) auto

lemma doomed_looked_up: "doomed x \<subseteq> looked_up x"
  by (cases x) auto

lemma sockets_accounted_commute: "sockets_accounted a r s = sockets_accounted r a s"
proof -
  have "live_clients a r s = live_clients r a s"
    by (simp add: live_clients_def Un_commute)
  moreover have "distinct (xs @ ys @ zs) = distinct (xs @ zs @ ys)" for xs ys zs :: "int list"
    by (auto simp: disjoint_iff)
  ultimately show ?thesis
    by (simp add: sockets_accounted_def Un_commute del: distinct_append)
qed

lemma threads_inv_commute: "threads_inv a r s = threads_inv r a s"
  using sockets_accounted_commute [of a r s] by (auto simp: threads_inv_def)

lemma quiet_live: "srs_quiet s t \<Longrightarrow> live_clients a r t = live_clients a r s"
  by (simp add: srs_quiet_def live_clients_def)

lemma quiet_inv: "threads_inv a r s \<Longrightarrow> srs_quiet s t \<Longrightarrow> threads_inv a r t"
  using quiet_live [of s t a r] by (simp add: threads_inv_def sockets_accounted_def) (simp add: srs_quiet_def)

lemma same_quiet: "srs_same s t \<Longrightarrow> srs_quiet s t"
  by (simp add: srs_same_def srs_quiet_def)

lemma quiet_client_fd: "srs_quiet (s\<lparr>srs_client_fd := fd\<rparr>) t = srs_quiet s t"
  by (simp add: srs_quiet_def)

lemma recv_quiet: "srs_client_recv (s\<lparr>srs_client_fd := fd\<rparr>) = Some (r, t) \<Longrightarrow> srs_quiet s t"
  by (drule srs_same_recv, drule same_quiet) (simp add: quiet_client_fd)

lemma srs_quiet_trans: "srs_quiet s t \<Longrightarrow> srs_quiet t u \<Longrightarrow> srs_quiet s u"
  by (simp add: srs_quiet_def)

text \<open>A change of place within the list.\<close>

lemma inv_looked_up:
  assumes "threads_inv x y s" and "held x' = []" and "held x = []" and "doomed x' = {}" and "doomed x = {}"
    and "looked_up x' \<subseteq> fst ` set (srs_clients s)" and "\<not> (busy x' \<and> busy y)"
  shows "threads_inv x' y s"
  using assms by (simp add: threads_inv_def sockets_accounted_def live_clients_def)

lemma inv_accept:
  assumes "threads_inv Between y s" and "0 \<le> fd" and "\<And>fds. connections (srs_trace s) = Some fds \<Longrightarrow> fd \<notin> set fds"
  shows "threads_inv (Accepted fd) y (srs_emit (Srs_accepted fd) s)"
proof -
  obtain fds where fds: "connections (srs_trace s) = Some fds" "distinct fds" "distinct (map snd (live_clients Between y s) @ held y)"
    "set fds = set (map snd (live_clients Between y s) @ held y)"
    using assms(1) by (auto simp: threads_inv_def sockets_accounted_def)
  have "live_clients (Accepted fd) y (srs_emit (Srs_accepted fd) s) = live_clients Between y s"
    by (simp add: live_clients_def srs_emit_def)
  moreover have "connections (srs_trace (srs_emit (Srs_accepted fd) s)) = Some (fds @ [fd])"
    using fds(1) assms(3) [OF fds(1)] by (simp add: srs_emit_def)
  ultimately have "sockets_accounted (Accepted fd) y (srs_emit (Srs_accepted fd) s)"
    using fds(2-4) assms(3) [OF fds(1)] by (auto simp: sockets_accounted_def)
  then show ?thesis
    using assms(1,2) by (simp add: threads_inv_def) (simp add: srs_emit_def)
qed

lemma inv_register:
  assumes "threads_inv (Accepted fd) y s" and "srs_client_register fd s = Some (0, t)"
  shows "threads_inv Between y t"
proof -
  have t: "t = s\<lparr>srs_clients := srs_clients s @ [(srs_next s, fd)], srs_next := Suc (srs_next s)\<rparr>"
    using assms by (simp add: srs_client_register_def srs_section_def threads_inv_def node_append_def)
  have fresh: "srs_next s \<notin> fst ` set (srs_clients s)" "doomed y \<subseteq> fst ` set (srs_clients s)"
    using assms(1) doomed_looked_up [of y] by (auto simp: threads_inv_def)
  then have "srs_next s \<notin> doomed y"
    by blast
  then have "live_clients Between y t = live_clients (Accepted fd) y s @ [(srs_next s, fd)]"
    by (simp add: t live_clients_def)
  then have "sockets_accounted Between y t"
    using assms(1) by (auto simp: threads_inv_def sockets_accounted_def t)
  then show ?thesis
    using assms(1) fresh(1) unfolding threads_inv_def by (auto simp: t less_SucI)
qed

lemma inv_close:
  assumes "threads_inv (Closing p) y s" and "node_get (srs_clients s) p = Some fd"
  shows "threads_inv (Unlinking p) y (srs_close_fd fd s)"
proof -
  have node: "(p, fd) \<in> set (srs_clients s)" "0 \<le> fd" "\<not> busy y" "distinct (map fst (srs_clients s))"
    using assms map_of_SomeD [OF assms(2)] by (auto simp: threads_inv_def)
  then have none: "doomed y = {}"
    by (cases y) auto
  obtain fds where fds: "connections (srs_trace s) = Some fds" "distinct fds" "distinct (map snd (srs_clients s) @ held y)"
    "set fds = set (map snd (srs_clients s) @ held y)"
    using assms(1) none by (auto simp: threads_inv_def sockets_accounted_def live_clients_def)
  have mem: "fd \<in> set fds"
    using node(1) fds(4) by force
  have inj: "inj_on fst (set (srs_clients s))" "inj_on snd (set (srs_clients s))"
    using node(4) fds(3) by (simp_all add: distinct_map)
  have only: "n = (p, fd)" if "n \<in> set (srs_clients s)" "snd n = fd \<or> fst n = p" for n
    using that(2)
  proof
    assume "snd n = fd"
    then show ?thesis
      by (intro inj_onD [OF inj(2) _ that(1) node(1)]) simp
  next
    assume "fst n = p"
    then show ?thesis
      by (intro inj_onD [OF inj(1) _ that(1) node(1)]) simp
  qed
  have others: "set (filter (\<lambda>n. fst n \<noteq> p) (srs_clients s)) = set (srs_clients s) - {(p, fd)}"
  proof (rule set_eqI)
    fix n
    show "n \<in> set (filter (\<lambda>n. fst n \<noteq> p) (srs_clients s)) \<longleftrightarrow> n \<in> set (srs_clients s) - {(p, fd)}"
      using only [of n] by auto
  qed
  have "map snd (live_clients (Unlinking p) y (srs_close_fd fd s)) = map snd (filter (\<lambda>n. fst n \<noteq> p) (srs_clients s))"
    using none by (simp add: live_clients_def srs_close_fd_def srs_emit_def)
  moreover have "set (map snd (filter (\<lambda>n. fst n \<noteq> p) (srs_clients s))) = set (map snd (srs_clients s)) - {fd}"
    using inj_on_image_set_diff [OF inj(2), of "set (srs_clients s)" "{(p, fd)}"] node(1) others by simp
  moreover have "distinct (map snd (filter (\<lambda>n. fst n \<noteq> p) (srs_clients s)))"
    using fds(3) by (simp add: distinct_map_filter)
  moreover have "connections (srs_trace (srs_close_fd fd s)) = Some (remove1 fd fds)"
    using node(2) fds(1) mem by (simp add: srs_close_fd_def srs_emit_def)
  moreover have "fd \<notin> set (held y)"
    using fds(3) node(1) by force
  ultimately have "sockets_accounted (Unlinking p) y (srs_close_fd fd s)"
    using fds(2-4) by (auto simp: sockets_accounted_def)
  then show ?thesis
    using assms(1) node(2) unfolding threads_inv_def by (auto simp: srs_close_fd_def srs_emit_def)
qed

lemma inv_unlink:
  assumes "threads_inv (Unlinking p) y s" and "srs_client_unregister p s = Some (rc, t)"
  shows "threads_inv Between y t"
proof -
  have t: "t = s\<lparr>srs_clients := node_remove p (srs_clients s)\<rparr>"
    using assms by (simp add: srs_client_unregister_def srs_section_def threads_inv_def)
  have "\<not> busy y" "looked_up y = {}"
    using assms(1) by (auto simp: threads_inv_def busy_iff)
  then have "live_clients Between y t = live_clients (Unlinking p) y s"
    using doomed_looked_up [of y] by (simp add: t live_clients_def node_remove_def filter_filter)
  then have "sockets_accounted Between y t"
    using assms(1) by (auto simp: threads_inv_def sockets_accounted_def t)
  then show ?thesis
    using assms(1) \<open>looked_up y = {}\<close> by (auto simp: threads_inv_def t set_node_remove)
qed

lemma find_in_list:
  "srs_client_find s = Some (Some p, t) \<Longrightarrow> t = s \<and> p \<in> fst ` set (srs_clients s)"
  "srs_client_find_fd_set fds s = Some ((Some p, fds'), t) \<Longrightarrow> t = s \<and> p \<in> fst ` set (srs_clients s)"
proof -
  show "srs_client_find s = Some (Some p, t) \<Longrightarrow> t = s \<and> p \<in> fst ` set (srs_clients s)"
    by (auto simp: srs_client_find_def srs_section_def dest: node_find_Some_fst split: if_splits)
  have "find P xs = Some x \<Longrightarrow> x \<in> set xs" for P x and xs :: "int nodes"
    by (metis find_Some_iff nth_mem)
  note found = this
  show "srs_client_find_fd_set fds s = Some ((Some p, fds'), t) \<Longrightarrow> t = s \<and> p \<in> fst ` set (srs_clients s)"
    by (auto dest!: found intro: rev_image_eqI simp: srs_client_find_fd_set_def srs_section_def split: if_splits option.splits)
qed

lemma step_inv:
  assumes "srs_step b x s x' t" and "threads_inv x y s" and "\<not> (busy x' \<and> busy y)"
  shows "threads_inv x' y t"
  using assms
proof (cases rule: srs_step.cases)
  case (register fd u)
  have "threads_inv Between y u"
    using inv_register assms(2) register by blast
  then show ?thesis
    using register by (auto intro: quiet_inv simp: srs_quiet_def)
next
  case (close_first p)
  then show ?thesis
    using inv_looked_up [of x y s x'] assms(2,3) find_in_list(1) by auto
next
  case (unlink p rc u)
  have "threads_inv Between y u"
    using inv_unlink assms(2) unlink by blast
  then show ?thesis
    using unlink by (auto intro: quiet_inv simp: srs_quiet_def)
next
  case (find_ready fds p fds')
  then show ?thesis
    using inv_looked_up [of x y s x'] assms(2,3) find_in_list(2) [of fds s p fds' t] by auto
next
  case (failed p fd rc message)
  then have "threads_inv (Serving p) y t"
    using assms(2) recv_quiet quiet_inv by blast
  then show ?thesis
    using failed assms(3) inv_looked_up [of "Serving p" y t x'] by (auto simp: threads_inv_def)
next
  case (served p fd rc message u rc')
  then have "threads_inv (Serving p) y t"
    using assms(2) recv_quiet srs_quiet_trans quiet_inv same_quiet srs_same_dispatch by metis
  then show ?thesis
    using served assms(3) inv_looked_up [of "Serving p" y t x'] by (auto simp: threads_inv_def)
qed (auto intro: inv_accept inv_close quiet_inv)

lemma threads_keep: "srs_threads True a r s \<Longrightarrow> threads_inv a r s"
proof (induction rule: srs_threads.induct)
  case (created s t)
  then show ?case
    using srs_create_inv [OF created] by (auto simp: srs_inv_def clients_ok_def threads_inv_def sockets_accounted_def live_clients_def srs_create_def srs_section_def
      Let_def srs_sys_def split: if_splits)
next
  case (accepting a r s a' t)
  then show ?case
    by (intro step_inv [OF accepting(2)]) simp_all
next
  case (reading a r s r' t)
  then have "threads_inv r' a t"
    by (intro step_inv [OF reading(2)]) (auto simp: threads_inv_commute)
  then show ?case
    by (simp add: threads_inv_commute)
next
  case (flushed a s t)
  then have "srs_clients s = []" "srs_quiet s (s\<lparr>srs_clients := []\<rparr>)"
    by (simp_all add: srs_quiet_def)
  with flushed show ?case
    by (auto intro: quiet_inv simp: srs_client_flush_def srs_section_def split: if_splits)
qed

subsection \<open>Whole calls as sequences of steps\<close>

text \<open>The operations of \<open>Ril_Srs\<close>, run without another thread in between, are sequences of these steps.\<close>

inductive srs_steps :: "bool \<Rightarrow> srs_point \<times> srs_world \<Rightarrow> srs_point \<times> srs_world \<Rightarrow> bool" for b where
  steps_refl [intro!, simp]: "srs_steps b z z"
| steps_next: "srs_step b x s y t \<Longrightarrow> srs_steps b (y, t) z \<Longrightarrow> srs_steps b (x, s) z"

lemma srs_steps_trans: "srs_steps b z w \<Longrightarrow> srs_steps b w v \<Longrightarrow> srs_steps b z v"
  by (induction rule: srs_steps.induct) (auto intro: steps_next)

lemma steps_quiet: "srs_steps b z (x, s) \<Longrightarrow> srs_quiet s t \<Longrightarrow> srs_steps b z (x, t)"
  by (erule srs_steps_trans) (auto intro: steps_next srs_step.quiet)

lemma quiet_steps: "srs_quiet s t \<Longrightarrow> srs_steps b (x, t) z \<Longrightarrow> srs_steps b (x, s) z"
  by (erule steps_next [OF srs_step.quiet])

lemma close_unlink_steps:
  assumes "node_get (srs_clients s) p = Some fd" and "srs_client_unregister p (srs_close_fd fd s) = Some (rc, t)"
  shows "srs_steps b (Closing p, s) (Between, t)"
proof -
  have "srs_steps b (Closing p, s) (Between, t\<lparr>srs_client_fd := if b then srs_client_fd t else -1\<rparr>)"
    using assms by (intro steps_next [OF srs_step.close] steps_next [OF srs_step.unlink]) auto
  then show ?thesis
    by (rule steps_quiet) (simp add: srs_quiet_def)
qed

lemma drop_steps:
  assumes "srs_drop p s = Some (rc, t)"
  shows "srs_steps False (Closing p, s) (Between, t)"
proof -
  obtain fd where fd: "node_get (srs_clients s) p = Some fd" "srs_client_unregister p ((srs_close_fd fd s)\<lparr>srs_client_fd := -1\<rparr>) = Some (rc, t)"
    using assms by (auto simp: srs_drop_def split: option.splits)
  then obtain u where "srs_client_unregister p (srs_close_fd fd s) = Some (rc, u)" "t = u\<lparr>srs_client_fd := -1\<rparr>"
    by (auto simp: srs_client_unregister_def srs_section_def split: if_splits)
  then show ?thesis
    using close_unlink_steps [OF fd(1), of rc u False] by (auto intro: steps_quiet simp: srs_quiet_def)
qed

lemma serve_client_steps:
  assumes "srs_serve_client p s = Some (rc, t)"
  shows "srs_steps False (Serving p, s) (Between, t)"
proof -
  obtain fd rc' message u where u: "node_get (srs_clients s) p = Some fd" "srs_client_recv (s\<lparr>srs_client_fd := fd\<rparr>) = Some ((rc', message), u)"
    "(if rc' < 0 then srs_drop p u else Option.bind (srs_dispatch message u) (\<lambda>(rc, s). if rc < 0 then srs_drop p s else Some (0, s\<lparr>srs_client_fd := -1\<rparr>)))
      = Some (rc, t)"
    using assms by (auto simp: srs_serve_client_def bind_eq_Some_conv split: option.splits)
  show ?thesis
  proof (cases "rc' < 0")
    case True
    then show ?thesis
      using u by (auto intro: steps_next [OF srs_step.failed] drop_steps)
  next
    case False
    then obtain rc'' v where v: "srs_dispatch message u = Some (rc'', v)" "(if rc'' < 0 then srs_drop p v else Some (0, v\<lparr>srs_client_fd := -1\<rparr>)) = Some (rc, t)"
      using u(3) by (auto simp: bind_eq_Some_conv split: prod.splits)
    have "srs_steps False (if rc'' < 0 then Closing p else Between, v) (Between, t)"
      using v(2) by (auto intro: drop_steps steps_quiet simp: srs_quiet_def split: if_splits)
    then show ?thesis
      using False u(1,2) v(1) by (intro steps_next [OF srs_step.served]) auto
  qed
qed

lemma serve_steps: "srs_serve fds s = Some (rc, t) \<Longrightarrow> srs_steps False (Between, s) (Between, t)"
proof (induction fds s rule: srs_serve.induct)
  case (1 fds s)
  obtain client fds' u where u: "srs_client_find_fd_set fds s = Some ((client, fds'), u)"
    using 1(2) by (auto simp: srs_serve.simps [of fds s] bind_eq_Some_conv)
  show ?case
  proof (cases client)
    case None
    then show ?thesis
      using 1(2) u srs_find_fd_set_same [OF u] by (simp add: srs_serve.simps [of fds s])
  next
    case (Some p)
    then obtain rc' v where v: "srs_serve_client p u = Some (rc', v)" "srs_serve fds' v = Some (rc, t)"
      using 1(2) u by (auto simp: srs_serve.simps [of fds s] bind_eq_Some_conv)
    have "srs_steps False (Between, v) (Between, t)"
      by (rule 1(1) [OF u refl refl Some v(1) refl v(2)])
    then have "srs_steps False (Serving p, u) (Between, t)"
      using serve_client_steps [OF v(1)] by (rule srs_steps_trans [rotated])
    then show ?thesis
      by (rule steps_next [OF srs_step.find_ready [OF u [unfolded Some]]])
  qed
qed

lemma round_steps:
  assumes "srs_round input s = Some (r, t)" and "srs_data s" and "\<not> srs_locked s"
  shows "srs_steps False (Between, s) (Between, t)"
proof (cases input)
  case Srs_poll_error
  then have "t = s"
    using assms by (auto simp: srs_round_def srs_client_fd_set_setup_def srs_section_def bind_eq_Some_conv)
  then show ?thesis
    by simp
next
  case (Srs_poll arrivals)
  then obtain fds rc where "srs_serve fds ((srs_arrive arrivals s)\<lparr>srs_event := 0\<rparr>) = Some (rc, t)"
    using assms by (auto simp: srs_round_eq bind_eq_Some_conv split: if_splits)
  then show ?thesis
    by (intro quiet_steps [OF _ serve_steps]) (simp_all add: srs_quiet_def srs_arrive_def)
qed

lemma server_round_steps:
  assumes "srs_server_round input s = Some (r, t)" and "srs_server_check s = Some (Loop_continue, s)" and "srs_inv s" and "srs_data s"
    and "\<And>fd. input = Srs_server_connect fd \<Longrightarrow> fd \<notin> snd ` set (srs_clients s)"
  shows "srs_steps True (Between, s) (Between, t)"
proof -
  define u where "u e = s\<lparr>srs_server_event := e\<rparr>" for e
  have u: "srs_quiet s (u e)" "srs_server_check (u e) = Some (Loop_continue, u e)" "connections (srs_trace (u e)) = Some (map snd (srs_clients s))" for e
    using assms(2,3) by (auto simp: u_def srs_quiet_def srs_server_check_def srs_inv_def split: if_splits)
  have "t = u (srs_server_event t) \<or> (\<exists>e fd v. input = Srs_server_connect fd \<and> 0 \<le> fd \<and>
    srs_client_register fd (srs_emit (Srs_accepted fd) (u e)) = Some (0, v) \<and> t = v\<lparr>srs_event := snd (eventfd_send SRS_CLIENT_CHANGE (srs_event v))\<rparr>)"
    using assms(1,3,4) by (auto simp: srs_server_round_def srs_client_register_def srs_section_def srs_inv_def srs_emit_def u_def Let_def split_beta
      split: if_splits srs_server_input.splits)
  then show ?thesis
  proof (elim disjE exE conjE)
    assume t: "t = u (srs_server_event t)"
    have "srs_steps True (Between, s) (Between, u (srs_server_event t))"
      by (rule steps_quiet [OF steps_refl u(1)])
    then show ?thesis
      unfolding t [symmetric] .
  next
    fix e fd v
    assume v: "input = Srs_server_connect fd" "0 \<le> fd" "srs_client_register fd (srs_emit (Srs_accepted fd) (u e)) = Some (0, v)"
      "t = v\<lparr>srs_event := snd (eventfd_send SRS_CLIENT_CHANGE (srs_event v))\<rparr>"
    have "srs_step True Between (u e) (Accepted fd) (srs_emit (Srs_accepted fd) (u e))"
      using u(2,3) v(2) assms(5) [OF v(1)] by (intro srs_step.accept) auto
    moreover have "srs_step True (Accepted fd) (srs_emit (Srs_accepted fd) (u e)) Between t"
      unfolding v(4) using v(3) by (rule srs_step.register)
    ultimately have "srs_steps True (Between, u e) (Between, t)"
      by (rule steps_next [OF _ steps_next [OF _ steps_refl]])
    then show ?thesis
      by (rule quiet_steps [OF u(1)])
  qed
qed

lemma close_clients_steps: "srs_close_clients s = Some r \<Longrightarrow> srs_steps b (Between, s) (Between, snd r)"
proof (erule srs_close_clients.raw_induct [of "\<lambda>s r. srs_steps b (Between, s) (Between, snd r)", rotated])
  fix close_rest s r
  assume rest: "\<And>s r. close_rest s = Some r \<Longrightarrow> srs_steps b (Between, s) (Between, snd r)"
    and body: "Option.bind (srs_client_find s) (\<lambda>(client, s). case client of
      None \<Rightarrow> Some (0, s)
    | Some p \<Rightarrow> (case node_get (srs_clients s) p of
        None \<Rightarrow> None
      | Some fd \<Rightarrow> Option.bind (srs_client_unregister p (srs_close_fd fd s)) (\<lambda>(rc, s).
          if rc < 0 then Some (-1, s) else close_rest s))) = Some r"
  obtain client where found: "srs_client_find s = Some (client, s)"
    using body by (auto simp: srs_client_find_def srs_section_def bind_eq_Some_conv split: if_splits)
  show "srs_steps b (Between, s) (Between, snd r)"
  proof (cases client)
    case None
    then have "snd r = s"
      using body found by auto
    then show ?thesis
      by simp
  next
    case (Some p)
    then obtain fd rc u where u: "node_get (srs_clients s) p = Some fd" "srs_client_unregister p (srs_close_fd fd s) = Some (rc, u)"
      "(if rc < 0 then Some (-1, u) else close_rest u) = Some r"
      using body found by (auto simp: bind_eq_Some_conv split: option.splits)
    have "srs_steps b (Between, u) (Between, snd r)"
      using u(3) rest by (auto split: if_splits)
    moreover have "srs_steps b (Between, s) (Between, u)"
      using found u(1,2) unfolding Some by (intro steps_next [OF srs_step.close_first] close_unlink_steps) auto
    ultimately show ?thesis
      by (rule srs_steps_trans [rotated])
  qed
qed

lemma server_close_steps:
  assumes "srs_server_close s = Some (rc, t)"
  shows "srs_steps b (Between, s) (Between, t)"
proof (cases "srs_data s \<and> 0 \<le> srs_server_event_fd s")
  case True
  then obtain rc' u where u: "srs_close_clients s = Some (rc', u)" "t = u \<or> \<not> srs_locked u \<and> (\<exists>e. t = u\<lparr>srs_server_event := e\<rparr> \<or>
      t = (srs_emit (Srs_server_closed (srs_server_fd u)) (u\<lparr>srs_server_event := e\<rparr>))\<lparr>srs_server_fd := -1\<rparr>)"
    using assms by (auto simp: srs_server_close_def srs_section_def Let_def bind_eq_Some_conv srs_emit_def split: if_splits)
  then have "srs_quiet u t"
    by (auto simp: srs_quiet_def srs_emit_def)
  then show ?thesis
    using close_clients_steps [OF u(1), of b] by (auto intro: steps_quiet)
next
  case False
  then show ?thesis
    using assms by (auto simp: srs_server_close_def split: if_splits)
qed

text \<open>A thread whose steps are not interrupted needs no order of its own.\<close>

lemma threads_reading: "srs_steps False z w \<Longrightarrow> srs_threads apart Between (fst z) (snd z) \<Longrightarrow> srs_threads apart Between (fst w) (snd w)"
proof (induction rule: srs_steps.induct)
  case (steps_next x s y t z)
  then have "srs_threads apart Between y t"
    by (intro srs_threads.reading [OF _ steps_next(1)]) simp_all
  then show ?case
    using steps_next by simp
qed

lemma threads_accepting: "srs_steps True z w \<Longrightarrow> srs_threads apart (fst z) Between (snd z) \<Longrightarrow> srs_threads apart (fst w) Between (snd w)"
proof (induction rule: srs_steps.induct)
  case (steps_next x s y t z)
  then have "srs_threads apart y Between t"
    by (intro srs_threads.accepting [OF _ steps_next(1)]) simp_all
  then show ?case
    using steps_next by simp
qed

lemma threads_quiet: "srs_threads apart a Between s \<Longrightarrow> srs_quiet s t \<Longrightarrow> srs_threads apart a Between t"
  by (erule srs_threads.reading) (auto intro: srs_step.quiet)

lemma server_open_quiet: "srs_server_open s = Some (rc, t) \<Longrightarrow> srs_quiet s t \<and> srs_event_fd t = srs_event_fd s \<and> srs_server_event_fd t = srs_server_event_fd s"
  by (auto simp: srs_server_open_def srs_section_def srs_sys_def srs_quiet_def Let_def split: if_splits)

lemma open_quiet:
  assumes "srs_open s = Some (rc, t)" and "srs_data s"
  shows "srs_quiet s t"
proof (cases "t = s \<or> (\<exists>rc. srs_server_open s = Some (rc, t))")
  case True
  then show ?thesis
    using server_open_quiet by (auto simp: srs_quiet_def)
next
  case False
  then obtain rc' u where u: "srs_server_open s = Some (rc', u)" "0 \<le> rc'"
    "srs_section (\<lambda>s.
          let (rc, s) = srs_sys 0 s in
          if rc \<noteq> 0 then Option.bind (srs_server_close (s\<lparr>srs_locked := True\<rparr>)) (\<lambda>(_, s). Some (-1, s\<lparr>srs_locked := False\<rparr>))
          else Some (0, s\<lparr>srs_event := snd (eventfd_flush (srs_event s)), srs_available := True\<rparr>)) u = Some (rc, t)"
    using assms by (auto simp: srs_open_def bind_eq_Some_conv split: if_splits)
  have "srs_data u" "0 \<le> srs_server_event_fd u"
    using server_open_quiet [OF u(1)] assms(2) u(1,2) by (auto simp: srs_quiet_def srs_server_open_def split: if_splits)
  then have "srs_server_close ((snd (srs_sys 0 u))\<lparr>srs_locked := True\<rparr>) = None"
    by (intro srs_server_close_locked) (simp_all add: srs_sys_def)
  then have "srs_quiet u t"
    using u(3) by (auto simp: srs_section_def split_beta Let_def srs_quiet_def srs_sys_def split: if_splits)
  then show ?thesis
    using server_open_quiet [OF u(1)] srs_quiet_trans by blast
qed

text \<open>Every state that whole rounds and calls lead to is reached by the steps of two threads whose closings are kept apart.\<close>

lemma reachable_threads: "srs_reachable s \<Longrightarrow> srs_threads True Between Between s"
proof (induction rule: srs_reachable.induct)
  case (created s t)
  then show ?case
    by (rule srs_threads.created)
next
  case (opened s rc t)
  then show ?case
    using srs_reachable_inv open_quiet threads_quiet by blast
next
  case (closed s rc t)
  show ?case
  proof (cases "0 \<le> srs_event_fd s \<and> 0 \<le> srs_server_event_fd s")
    case True
    define u where "u = s\<lparr>srs_event := snd (eventfd_send SRS_CLIENT_CLOSE (srs_event s)), srs_client_fd := -1\<rparr>"
    have inv: "srs_inv s" "srs_data s"
      using srs_reachable_inv [OF closed(1)] by simp_all
    then have "srs_inv u" "srs_data u" "0 \<le> srs_server_event_fd u" "srs_quiet s u"
      using True by (simp_all add: u_def srs_inv_def srs_quiet_def)
    then obtain v where v: "srs_server_close u = Some (0, v)" "srs_inv v" "srs_clients v = []" "srs_data v"
      using srs_server_close_eq by blast
    have "srs_threads True Between Between v"
      using threads_reading [OF server_close_steps [OF v(1)], of True] threads_quiet [OF closed(3) \<open>srs_quiet s u\<close>] by simp
    moreover have "t = v\<lparr>srs_clients := []\<rparr>" "srs_client_flush v = Some (0, v\<lparr>srs_clients := []\<rparr>)"
      using closed(2) inv v True
      by (simp_all add: srs_close_def srs_section_def u_def [symmetric] srs_client_flush_def srs_inv_def)
    ultimately show ?thesis
      using srs_threads.flushed [of True Between v t] v(3) by simp
  next
    case False
    then have "srs_quiet s t"
      using closed(2) by (auto simp: srs_close_def srs_section_def srs_server_close_def srs_quiet_def split: if_splits)
    then show ?thesis
      using closed(3) threads_quiet by blast
  qed
next
  case (server_opened s rc t)
  then show ?case
    using server_open_quiet threads_quiet by blast
next
  case (server_closed s rc t)
  then show ?case
    using threads_reading [OF server_close_steps [OF server_closed(2)], of True] by simp
next
  case (served s input r t)
  have "srs_data s" "\<not> srs_locked s"
    using srs_reachable_inv [OF served(1)] by (simp_all add: srs_inv_def)
  then show ?case
    using threads_reading [OF round_steps [OF served(3)], of True] served(4) by simp
next
  case (accepted s input r t)
  then show ?case
    using threads_accepting [OF server_round_steps [OF accepted(4,2)], of True] srs_reachable_inv [OF accepted(1)] by simp
qed

subsection \<open>Two threads at the same connection\<close>

text \<open>One connection is registered, and both threads have looked it up.\<close>

lemma connected_threads: "srs_threads apart Between Between srs_connected"
proof -
  have "srs_create srs_initial = Some (0, srs_started\<lparr>srs_server_fd := -1, srs_available := False\<rparr>)"
    by (simp add: srs_create_def srs_section_def srs_initial_def srs_started_def)
  then have "srs_threads apart Between Between (srs_started\<lparr>srs_server_fd := -1, srs_available := False\<rparr>)"
    by (rule srs_threads.created) (simp add: srs_initial_def)
  then have "srs_threads apart Between Between srs_started"
    by (rule threads_quiet) (simp add: srs_quiet_def)
  moreover have "srs_steps True (Between, srs_started) (Between, srs_connected)"
  proof (rule server_round_steps)
    show "srs_server_round (Srs_server_connect 9) srs_started = Some (Loop_continue, srs_connected)"
      by (simp add: srs_server_round_def srs_client_register_def srs_section_def srs_initial_def srs_started_def srs_connected_def node_append_def
        srs_emit_def eventfd_send_def eventfd_flush_def eventfd_read_def SRS_CLIENT_CHANGE_def)
  qed (simp_all add: srs_server_check_def srs_started_def srs_initial_def srs_inv_def clients_ok_def)
  ultimately show ?thesis
    using threads_accepting [of "(Between, srs_started)" "(Between, srs_connected)" apart] by simp
qed

lemma both_closing: "srs_threads False (Closing 1) (Closing 1) srs_connected"
proof -
  have found: "srs_client_find srs_connected = Some (Some 1, srs_connected)"
    by (simp add: srs_client_find_def srs_section_def srs_connected_def srs_started_def srs_initial_def)
  have "srs_threads False (Closing 1) Between srs_connected"
    by (rule srs_threads.accepting [OF connected_threads srs_step.close_first [OF found]]) simp
  then show ?thesis
    by (rule srs_threads.reading [OF _ srs_step.close_first [OF found]]) simp
qed

lemma one_closed: "srs_threads False (Unlinking 1) (Closing 1) (srs_close_fd 9 srs_connected)"
  by (rule srs_threads.accepting [OF both_closing srs_step.close]) (simp_all add: srs_connected_def)

lemma closed_twice: "srs_threads False (Unlinking 1) (Unlinking 1) (srs_close_fd 9 (srs_close_fd 9 srs_connected))"
  by (rule srs_threads.reading [OF one_closed srs_step.close]) (simp_all add: srs_connected_def srs_close_fd_def srs_emit_def)

lemma closed_twice_trace: "connections (srs_trace (srs_close_fd 9 (srs_close_fd 9 srs_connected))) = None"
  by (simp add: srs_close_fd_def srs_emit_def srs_connected_def connections_def)

lemma used_after_free: "\<exists>t. srs_threads False Between (Closing 1) t \<and> node_get (srs_clients t) 1 = None"
proof -
  define t where "t = (srs_close_fd 9 srs_connected)\<lparr>srs_clients := []\<rparr>"
  have "srs_client_unregister 1 (srs_close_fd 9 srs_connected) = Some (0, t)"
    by (simp add: srs_client_unregister_def srs_section_def srs_close_fd_def srs_emit_def srs_connected_def srs_started_def srs_initial_def t_def)
  then have "srs_threads False Between (Closing 1) t"
    using srs_threads.accepting [OF one_closed srs_step.unlink] by simp
  then show ?thesis
    by (auto simp: t_def)
qed

lemma flushed_open: "\<exists>t. srs_threads False Between Between t \<and> srs_clients t = [] \<and> connections (srs_trace t) = Some [9]"
proof -
  have "srs_client_flush srs_connected = Some (0, srs_connected\<lparr>srs_clients := []\<rparr>)"
    by (simp add: srs_client_flush_def srs_section_def srs_connected_def srs_started_def srs_initial_def)
  then have "srs_threads False Between Between (srs_connected\<lparr>srs_clients := []\<rparr>)"
    by (rule srs_threads.flushed [OF connected_threads]) simp
  then show ?thesis
    by (auto simp: srs_connected_def connections_def)
qed

subsection \<open>Properties\<close>

text \<open>C7. The accepting and the reading thread of the sound server, interleaved between any two of their critical sections. If at most one of them at a time is between looking a
  client up and being done with it, and the list is flushed only when it is empty, then at every moment the open connections are exactly those of the registered clients that
  are not closed yet, and the one that was accepted and is not registered yet, each once; no descriptor is closed or accepted twice, and every client that a thread has looked up still
  exists. This covers every state that whole rounds and calls lead to. The code does not keep the threads apart in this way, and without it all of this fails: both threads can
  close the same descriptor, one can hold a pointer to a client that the other has freed, and a connection that is registered just before the flush stays open with no client.\<close>

theorem srs_threads_accounted:
  assumes "srs_threads True a r s"
  shows "(\<exists>fds. connections (srs_trace s) = Some fds \<and> distinct fds \<and> distinct (map snd (live_clients a r s) @ held a @ held r) \<and>
      set fds = set (map snd (live_clients a r s) @ held a @ held r)) \<and>
    (\<forall>p \<in> looked_up a \<union> looked_up r. node_get (srs_clients s) p \<noteq> None) \<and>
    (\<forall>u. srs_reachable u \<longrightarrow> srs_threads True Between Between u) \<and>
    (\<exists>u. srs_threads False (Unlinking 1) (Unlinking 1) u \<and> connections (srs_trace u) = None) \<and>
    (\<exists>u. srs_threads False Between (Closing 1) u \<and> node_get (srs_clients u) 1 = None) \<and>
    (\<exists>u. srs_threads False Between Between u \<and> srs_clients u = [] \<and> connections (srs_trace u) = Some [9])"
proof -
  have inv: "threads_inv a r s"
    using assms by (rule threads_keep)
  then have "\<forall>p \<in> looked_up a \<union> looked_up r. node_get (srs_clients s) p \<noteq> None"
    by (auto simp: threads_inv_def map_of_eq_None_iff)
  then show ?thesis
    using inv reachable_threads closed_twice closed_twice_trace used_after_free flushed_open unfolding threads_inv_def sockets_accounted_def by blast
qed

theorem srs_threads_accounted_witness:
  "(\<exists>fds. connections (srs_trace srs_connected) = Some fds \<and> set fds = {9}) \<and> node_get (srs_clients srs_connected) 1 \<noteq> None"
proof -
  have "srs_client_find srs_connected = Some (Some 1, srs_connected)"
    by (simp add: srs_client_find_def srs_section_def srs_connected_def srs_started_def srs_initial_def)
  then have "srs_threads True (Closing 1) Between srs_connected"
    by (intro srs_threads.accepting [OF connected_threads srs_step.close_first]) simp_all
  from srs_threads_accounted [OF this] show ?thesis
    by (auto simp: live_clients_def srs_connected_def)
qed

end
