(* ===== verification/Xmm626_Modem.thy ===== *)
theory Xmm626_Modem
  imports Ipc_Utils
begin

section \<open>libsamsung-ipc: the link to an XMM626 modem\<close>

text \<open>
  \<open>devices/xmm626/xmm626_sec_modem.c\<close>: the transport that most of the supported phones use. The kernel's side of the devices is a record: the results of system calls come from
  the script \<open>port_calls\<close>, the intended result being used when it is used up; a \<open>read\<close> takes bytes from the first of the pieces that the modem has sent, and fails
  when there is none; what is written and controlled is recorded in \<open>port_trace\<close>.
\<close>

subsection \<open>Devices\<close>

datatype port_action =
    Port_opened string
  | Port_closed int
  | Port_wrote int "u8 list"
  | Port_ioctl int string int
  | Port_seek int int
  | Port_stored nat "u8 list"

record modem_port =
  port_calls :: "int list"
  port_reads :: "u8 list list"
  port_trace :: "port_action list"

definition port_emit :: "port_action \<Rightarrow> modem_port \<Rightarrow> modem_port" where
  "port_emit a s = s\<lparr>port_trace := port_trace s @ [a]\<rparr>"

definition port_call :: "int \<Rightarrow> modem_port \<Rightarrow> int \<times> modem_port" where
  "port_call rc s = (case port_calls s of [] \<Rightarrow> rc | r # _ \<Rightarrow> r, s\<lparr>port_calls := drop 1 (port_calls s)\<rparr>)"

text \<open>\<open>read(fd, buffer, n)\<close> and \<open>write(fd, buffer, n)\<close>; a write may take fewer bytes than it is given.\<close>

definition port_read :: "nat \<Rightarrow> modem_port \<Rightarrow> u8 list option \<times> modem_port" where
  "port_read n s = (case port_reads s of
      [] \<Rightarrow> (None, s)
    | bs # rest \<Rightarrow> if length bs \<le> n then (Some bs, s\<lparr>port_reads := rest\<rparr>) else (Some (take n bs), s\<lparr>port_reads := drop n bs # rest\<rparr>))"

definition port_write :: "int \<Rightarrow> u8 list \<Rightarrow> modem_port \<Rightarrow> int \<times> modem_port" where
  "port_write fd bs s = (let (rc, s) = port_call (int (length bs)) s; rc = min rc (int (length bs)) in
     (rc, if rc < 0 then s else port_emit (Port_wrote fd (take (nat rc) bs)) s))"

definition port_ioctl :: "int \<Rightarrow> string \<Rightarrow> int \<Rightarrow> int \<Rightarrow> modem_port \<Rightarrow> int \<times> modem_port" where
  "port_ioctl fd name arg rc s = port_call rc (port_emit (Port_ioctl fd name arg) s)"

subsection \<open>Power and link control\<close>

definition STATE_BOOTING :: int where "STATE_BOOTING = 3"
definition STATE_ONLINE :: int where "STATE_ONLINE = 4"

definition ioctl_checked :: "int \<Rightarrow> string \<Rightarrow> int \<Rightarrow> modem_port \<Rightarrow> int \<times> modem_port" where
  "ioctl_checked fd name arg s = (if fd < 0 then (-1, s) else let (rc, s) = port_ioctl fd name arg 0 s in (if rc < 0 then -1 else 0, s))"

definition xmm626_sec_modem_power :: "int \<Rightarrow> bool \<Rightarrow> modem_port \<Rightarrow> int \<times> modem_port" where
  "xmm626_sec_modem_power fd pwr s = ioctl_checked fd (if pwr then ''IOCTL_MODEM_ON'' else ''IOCTL_MODEM_OFF'') 0 s"

definition xmm626_sec_modem_boot_power :: "int \<Rightarrow> bool \<Rightarrow> modem_port \<Rightarrow> int \<times> modem_port" where
  "xmm626_sec_modem_boot_power fd pwr s = ioctl_checked fd (if pwr then ''IOCTL_MODEM_BOOT_ON'' else ''IOCTL_MODEM_BOOT_OFF'') 0 s"

definition xmm626_sec_modem_link_control_enable :: "int \<Rightarrow> bool \<Rightarrow> modem_port \<Rightarrow> int \<times> modem_port" where
  "xmm626_sec_modem_link_control_enable fd enable s = ioctl_checked fd ''IOCTL_LINK_CONTROL_ENABLE'' (of_bool enable) s"

definition xmm626_sec_modem_link_control_active :: "int \<Rightarrow> bool \<Rightarrow> modem_port \<Rightarrow> int \<times> modem_port" where
  "xmm626_sec_modem_link_control_active fd active s = ioctl_checked fd ''IOCTL_LINK_CONTROL_ACTIVE'' (of_bool active) s"

text \<open>The waiting loops ask for a value at most \<open>n\<close> times.\<close>

fun ioctl_wait :: "nat \<Rightarrow> int \<Rightarrow> string \<Rightarrow> (int \<Rightarrow> bool) \<Rightarrow> int \<Rightarrow> modem_port \<Rightarrow> int \<times> modem_port" where
  "ioctl_wait 0 fd name wanted rc s = (-1, s)"
| "ioctl_wait (Suc n) fd name wanted rc s =
     (let (status, s) = port_ioctl fd name 0 rc s in if wanted status then (0, s) else ioctl_wait n fd name wanted rc s)"

definition xmm626_sec_modem_status_online_wait :: "int \<Rightarrow> modem_port \<Rightarrow> int \<times> modem_port" where
  "xmm626_sec_modem_status_online_wait fd s = (if fd < 0 then (-1, s) else ioctl_wait 100 fd ''IOCTL_MODEM_STATUS'' (\<lambda>r. r = STATE_ONLINE) STATE_ONLINE s)"

definition xmm626_sec_modem_link_connected_wait :: "int \<Rightarrow> modem_port \<Rightarrow> int \<times> modem_port" where
  "xmm626_sec_modem_link_connected_wait fd s = (if fd < 0 then (-1, s) else ioctl_wait 100 fd ''IOCTL_LINK_CONNECTED'' (\<lambda>r. r \<noteq> 0) 1 s)"

definition xmm626_sec_modem_link_get_hostwake_wait :: "int \<Rightarrow> modem_port \<Rightarrow> int \<times> modem_port" where
  "xmm626_sec_modem_link_get_hostwake_wait fd s = (if fd < 0 then (-1, s) else ioctl_wait 10 fd ''IOCTL_LINK_GET_HOSTWAKE'' (\<lambda>r. r \<noteq> 0) 1 s)"

definition sysfs_value_write :: "string \<Rightarrow> int \<Rightarrow> modem_port \<Rightarrow> int \<times> modem_port" where
  "sysfs_value_write path val s =
     (let (fd, s) = port_call 0 (port_emit (Port_opened path) s) in
      if fd < 0 then (-1, s)
      else
        let buffer = string_bytes (print_int val @ [CHR 0x0A]); (rc, s) = port_write fd buffer s in
        (if rc < int (length buffer) then -1 else 0, port_emit (Port_closed fd) s))"

definition xmm626_sec_modem_hci_power :: "bool \<Rightarrow> modem_port \<Rightarrow> int \<times> modem_port" where
  "xmm626_sec_modem_hci_power pwr s =
     (let (ehci_rc, s) = sysfs_value_write ''/sys/devices/platform/s5p-ehci/ehci_power'' (of_bool pwr) s;
          (ohci_rc, s) = sysfs_value_write ''/sys/devices/platform/s5p-ohci/ohci_power'' (of_bool pwr) s in
      (if ehci_rc < 0 \<and> ohci_rc < 0 then -1 else 0, s))"

subsection \<open>Reading, writing and polling\<close>

definition IPC_CLIENT_TYPE_FMT :: int where "IPC_CLIENT_TYPE_FMT = 0"
definition IPC_CLIENT_TYPE_RFS :: int where "IPC_CLIENT_TYPE_RFS = 1"

definition xmm626_sec_modem_open :: "int \<Rightarrow> modem_port \<Rightarrow> int \<times> modem_port" where
  "xmm626_sec_modem_open type s =
     (if type = IPC_CLIENT_TYPE_FMT then port_call 0 (port_emit (Port_opened ''/dev/umts_ipc0'') s)
      else if type = IPC_CLIENT_TYPE_RFS then port_call 0 (port_emit (Port_opened ''/dev/umts_rfs0'') s)
      else (-1, s))"

definition xmm626_sec_modem_close :: "int \<Rightarrow> modem_port \<Rightarrow> int \<times> modem_port" where
  "xmm626_sec_modem_close fd s = (if fd < 0 then (-1, s) else (0, port_emit (Port_closed fd) s))"

definition modem_awake :: "int \<Rightarrow> bool" where
  "modem_awake status \<longleftrightarrow> status = STATE_ONLINE \<or> status = STATE_BOOTING"

definition xmm626_sec_modem_read :: "int \<Rightarrow> nat \<Rightarrow> modem_port \<Rightarrow> u8 list option \<times> modem_port" where
  "xmm626_sec_modem_read fd n s =
     (if fd < 0 \<or> n = 0 then (None, s)
      else
        let (status, s) = port_ioctl fd ''IOCTL_MODEM_STATUS'' 0 STATE_ONLINE s in
        if \<not> modem_awake status then (None, s) else port_read n s)"

definition xmm626_sec_modem_write :: "int \<Rightarrow> u8 list \<Rightarrow> modem_port \<Rightarrow> int \<times> modem_port" where
  "xmm626_sec_modem_write fd bs s =
     (if fd < 0 \<or> bs = [] then (-1, s)
      else
        let (status, s) = port_ioctl fd ''IOCTL_MODEM_STATUS'' 0 STATE_ONLINE s in
        if \<not> modem_awake status then (-1, s) else port_write fd bs s)"

text \<open>\<open>rc\<close> and \<open>set\<close> are what \<open>select\<close> returns and leaves in the set of descriptors. The result is the value returned, and the descriptors and their count as they are
  left for the caller: a descriptor that is not ready becomes \<open>-1\<close> where it stands. Asking the set about a negative descriptor is undefined.\<close>

definition xmm626_sec_modem_poll :: "int \<Rightarrow> int list \<Rightarrow> int \<Rightarrow> int list \<Rightarrow> modem_port \<Rightarrow> ((int \<times> int list \<times> nat) \<times> modem_port) option" where
  "xmm626_sec_modem_poll fd fds rc ready s =
     (if fd < 0 then Some ((-1, fds, length fds), s)
      else
        let (status, s) = (if fd \<in> set ready then port_ioctl fd ''IOCTL_MODEM_STATUS'' 0 STATE_ONLINE s else (STATE_ONLINE, s)) in
        if fd \<in> set ready \<and> \<not> modem_awake status then Some ((-1, fds, length fds), s)
        else if \<exists>x \<in> set fds. x < 0 then None
        else Some ((rc, map (\<lambda>x. if x \<in> set ready then x else -1) fds, length (filter (\<lambda>x. x \<in> set ready) fds)), s))"

subsection \<open>Messages\<close>

definition XMM626_DATA_SIZE :: nat where "XMM626_DATA_SIZE = 0x1000"
definition XMM626_DATA_SIZE_LIMIT :: nat where "XMM626_DATA_SIZE_LIMIT = 0x80000"

text \<open>The packed headers in memory.\<close>

definition fmt_header_bytes :: "ipc_fmt_header \<Rightarrow> u8 list" where
  "fmt_header_bytes h = bytes16 (fh_length h) @ [fh_mseq h, fh_aseq h, fh_group h, fh_index h, fh_type h]"

fun fmt_header_read :: "u8 list \<Rightarrow> ipc_fmt_header option" where
  "fmt_header_read (a # b # m # q # g # i # t # _) =
     Some \<lparr>fh_length = le16 a b, fh_mseq = m, fh_aseq = q, fh_group = g, fh_index = i, fh_type = t\<rparr>"
| "fmt_header_read _ = None"

definition rfs_header_bytes :: "ipc_rfs_header \<Rightarrow> u8 list" where
  "rfs_header_bytes h = bytes32 (rh_length h) @ [rh_index h, rh_id h]"

fun rfs_header_read :: "u8 list \<Rightarrow> ipc_rfs_header option" where
  "rfs_header_read (a # b # c # d # i # q # _) = Some \<lparr>rh_length = le32 a b c d, rh_index = i, rh_id = q\<rparr>"
| "rfs_header_read _ = None"

text \<open>The loop that writes a buffer until all of it is written.\<close>

function write_all :: "int \<Rightarrow> u8 list \<Rightarrow> modem_port \<Rightarrow> int \<times> modem_port" where
  "write_all fd bs s = (if bs = [] then (0, s)
     else case xmm626_sec_modem_write fd bs s of (rc, s) \<Rightarrow>
       if rc \<le> 0 then (-1, s) else write_all fd (drop (nat rc) bs) s)"
  by pat_completeness auto
termination
  by (relation "measure (\<lambda>(fd, bs, s). length bs)") auto

declare write_all.simps [simp del]

text \<open>The buffer has the length that the header announces; when the length was truncated to the width of its field, copying the data into the buffer is undefined.\<close>

definition xmm626_sec_modem_fmt_send :: "int \<Rightarrow> ipc_message \<Rightarrow> modem_port \<Rightarrow> (int \<times> modem_port) option" where
  "xmm626_sec_modem_fmt_send fd message s =
     (let header = ipc_fmt_header_setup message in
      if unat (fh_length header) < 7 + length (msg_data message) then None
      else Some (write_all fd (fmt_header_bytes header @ msg_data message) s))"

definition xmm626_sec_modem_rfs_send :: "int \<Rightarrow> ipc_message \<Rightarrow> modem_port \<Rightarrow> (int \<times> modem_port) option" where
  "xmm626_sec_modem_rfs_send fd message s =
     (let header = ipc_rfs_header_setup message in
      if unat (rh_length header) < 6 + length (msg_data message) then None
      else Some (write_all fd (rfs_header_bytes header @ msg_data message) s))"

text \<open>The loop that reads the rest of a message.\<close>

function read_all :: "int \<Rightarrow> nat \<Rightarrow> modem_port \<Rightarrow> u8 list option \<times> modem_port" where
  "read_all fd n s = (if n = 0 then (Some [], s)
     else case xmm626_sec_modem_read fd n s of (r, s) \<Rightarrow>
       if r = None \<or> r = Some [] then (None, s)
       else case read_all fd (n - length (the r)) s of (r', s) \<Rightarrow> (map_option (\<lambda>bs. the r @ bs) r', s))"
  by pat_completeness auto
termination
  by (relation "measure (\<lambda>(fd, n, s). n)") (auto, metis diff_less length_greater_0_conv)

declare read_all.simps [simp del]

text \<open>The data of a message of size \<open>sz\<close>, of which \<open>bs\<close> came with the header: the copy is undefined when there is more than fits.\<close>

definition recv_data :: "int \<Rightarrow> nat \<Rightarrow> u8 list \<Rightarrow> modem_port \<Rightarrow> (u8 list option \<times> modem_port) option" where
  "recv_data fd sz bs s = (if length bs > sz then None
     else Some (case read_all fd (sz - length bs) s of (r, s) \<Rightarrow> (map_option (\<lambda>rest. bs @ rest) r, s)))"

definition xmm626_sec_modem_fmt_recv :: "int \<Rightarrow> modem_port \<Rightarrow> (ipc_message option \<times> modem_port) option" where
  "xmm626_sec_modem_fmt_recv fd s =
     (case xmm626_sec_modem_read fd XMM626_DATA_SIZE s of (r, s) \<Rightarrow>
      case Option.bind r fmt_header_read of
        None \<Rightarrow> Some (None, s)
      | Some header \<Rightarrow>
          let message = ipc_fmt_message_setup header in
          if unat (fh_length header) > 7 then
            Option.bind (recv_data fd (unat (fh_length header) - 7) (drop 7 (the r)) s) (\<lambda>(d, s).
              Some (map_option (\<lambda>d. message\<lparr>msg_data := d\<rparr>) d, s))
          else Some (Some message, s))"

definition xmm626_sec_modem_rfs_recv :: "int \<Rightarrow> modem_port \<Rightarrow> (ipc_message option \<times> modem_port) option" where
  "xmm626_sec_modem_rfs_recv fd s =
     (case xmm626_sec_modem_read fd XMM626_DATA_SIZE s of (r, s) \<Rightarrow>
      case Option.bind r rfs_header_read of
        None \<Rightarrow> Some (None, s)
      | Some header \<Rightarrow>
          let message = ipc_rfs_message_setup header in
          if unat (rh_length header) > XMM626_DATA_SIZE_LIMIT then Some (None, s)
          else if unat (rh_length header) > 6 then
            Option.bind (recv_data fd (unat (rh_length header) - 6) (drop 6 (the r)) s) (\<lambda>(d, s).
              Some (map_option (\<lambda>d. message\<lparr>msg_data := d\<rparr>) d, s))
          else Some (Some message, s))"

subsection \<open>Packet data\<close>

definition XMM626_SEC_MODEM_GPRS_IFACE_COUNT :: nat where "XMM626_SEC_MODEM_GPRS_IFACE_COUNT = 3"

text \<open>The number is printed as a signed integer.\<close>

definition xmm626_sec_modem_gprs_get_iface :: "u32 \<Rightarrow> string option" where
  "xmm626_sec_modem_gprs_get_iface cid = (if unat cid > XMM626_SEC_MODEM_GPRS_IFACE_COUNT then None
     else Some (''rmnet'' @ print_int (sint (cid - 1))))"

definition xmm626_sec_modem_gprs_get_capabilities :: nat where
  "xmm626_sec_modem_gprs_get_capabilities = XMM626_SEC_MODEM_GPRS_IFACE_COUNT"

subsection \<open>Lemmas\<close>

lemma fmt_header_read_bytes [simp]: "fmt_header_read (fmt_header_bytes h @ bs) = Some h"
  by (simp add: fmt_header_bytes_def bytes16_def)

lemma length_fmt_header_bytes [simp]: "length (fmt_header_bytes h) = 7"
  by (simp add: fmt_header_bytes_def)

text \<open>The bytes that a trace has written to a descriptor.\<close>

fun action_bytes :: "int \<Rightarrow> port_action \<Rightarrow> u8 list" where
  "action_bytes fd (Port_wrote fd' bs) = (if fd' = fd then bs else [])"
| "action_bytes fd _ = []"

definition port_sent :: "int \<Rightarrow> modem_port \<Rightarrow> u8 list" where
  "port_sent fd s = concat (map (action_bytes fd) (port_trace s))"

lemma port_sent_emit [simp]: "port_sent fd (port_emit a s) = port_sent fd s @ action_bytes fd a"
  by (simp add: port_sent_def port_emit_def)

lemma port_sent_call [simp]: "port_sent fd (snd (port_call rc s)) = port_sent fd s"
  by (simp add: port_sent_def port_call_def)

lemma port_write_sent:
  assumes "port_write fd bs s = (rc, t)"
  shows "port_sent fd t = port_sent fd s @ take (nat rc) bs" and "rc \<le> int (length bs)"
  using assms by (auto simp: port_write_def Let_def split_beta split: if_splits)

lemma xmm626_write_sent:
  assumes "xmm626_sec_modem_write fd bs s = (rc, t)"
  shows "port_sent fd t = port_sent fd s @ take (nat rc) bs" and "rc \<le> int (length bs)"
proof -
  have "rc = -1 \<and> port_sent fd t = port_sent fd s \<or> (\<exists>u. port_sent fd u = port_sent fd s \<and> port_write fd bs u = (rc, t))"
    using assms by (auto simp: xmm626_sec_modem_write_def port_ioctl_def Let_def split_beta split: if_splits)
  then have "port_sent fd t = port_sent fd s @ take (nat rc) bs \<and> rc \<le> int (length bs)"
    using port_write_sent by fastforce
  then show "port_sent fd t = port_sent fd s @ take (nat rc) bs" and "rc \<le> int (length bs)"
    by simp_all
qed

text \<open>Whatever single writes return, a buffer that was written successfully was written completely and in order.\<close>

lemma write_all_sent: "write_all fd bs s = (0, t) \<Longrightarrow> port_sent fd t = port_sent fd s @ bs"
proof (induction fd bs s rule: write_all.induct)
  case (1 fd bs s)
  show ?case
  proof (cases "bs = []")
    case True
    then show ?thesis
      using 1(2) by (simp add: write_all.simps)
  next
    case False
    obtain rc u where w: "xmm626_sec_modem_write fd bs s = (rc, u)"
      by fastforce
    have pos: "0 < rc" and rest: "write_all fd (drop (nat rc) bs) u = (0, t)"
      using 1(2) False w by (auto simp: write_all.simps [of fd bs s] split: if_splits)
    have "port_sent fd t = port_sent fd u @ drop (nat rc) bs"
      using 1(1) [OF False w [symmetric] _ rest] pos by simp
    then show ?thesis
      using xmm626_write_sent(1) [OF w] by simp
  qed
qed

lemma port_call_quiet [simp]: "port_calls s = [] \<Longrightarrow> port_call rc s = (rc, s)"
  by (simp add: port_call_def)

lemma port_emit_fields [simp]: "port_calls (port_emit a s) = port_calls s" "port_reads (port_emit a s) = port_reads s"
  by (simp_all add: port_emit_def)

lemma xmm626_read_quiet:
  "port_calls s = [] \<Longrightarrow> 0 \<le> fd \<Longrightarrow> 0 < n \<Longrightarrow> xmm626_sec_modem_read fd n s = port_read n (port_emit (Port_ioctl fd ''IOCTL_MODEM_STATUS'' 0) s)"
  by (simp add: xmm626_sec_modem_read_def port_ioctl_def modem_awake_def)

text \<open>A read takes a prefix of what the modem has sent, and not nothing when there is something.\<close>

definition pieces_ok :: "modem_port \<Rightarrow> bool" where
  "pieces_ok s \<longleftrightarrow> port_calls s = [] \<and> [] \<notin> set (port_reads s)"

lemma port_read_pieces:
  assumes "pieces_ok s" and "port_reads s = first # rest" and "0 < n"
  shows "\<exists>t. port_read n s = (Some (take n first), t) \<and> pieces_ok t \<and> take n first \<noteq> [] \<and>
    take n first @ concat (port_reads t) = concat (port_reads s)"
  using assms by (cases "length first \<le> n") (auto simp: port_read_def pieces_ok_def)

lemma xmm626_read_pieces:
  assumes "pieces_ok s" and "0 \<le> fd" and "port_reads s = first # rest" and "0 < n"
  shows "\<exists>t. xmm626_sec_modem_read fd n s = (Some (take n first), t) \<and> pieces_ok t \<and> take n first \<noteq> [] \<and>
    take n first @ concat (port_reads t) = concat (port_reads s)"
proof -
  let ?s = "port_emit (Port_ioctl fd ''IOCTL_MODEM_STATUS'' 0) s"
  have "pieces_ok ?s" "port_reads ?s = first # rest"
    using assms(1,3) by (simp_all add: pieces_ok_def port_emit_def)
  from port_read_pieces [OF this assms(4)] show ?thesis
    using assms xmm626_read_quiet [of s fd n] by (simp add: pieces_ok_def)
qed

lemma read_all_pieces:
  assumes "pieces_ok s" and "0 \<le> fd" and "n \<le> length (concat (port_reads s))"
  shows "\<exists>t. read_all fd n s = (Some (take n (concat (port_reads s))), t) \<and> concat (port_reads t) = drop n (concat (port_reads s))"
  using assms
proof (induction fd n s rule: read_all.induct)
  case (1 fd n s)
  show ?case
  proof (cases "n = 0")
    case True
    then show ?thesis
      by (simp add: read_all.simps)
  next
    case False
    then obtain first rest where reads: "port_reads s = first # rest"
      using 1(4) by (cases "port_reads s") auto
    obtain t where t: "xmm626_sec_modem_read fd n s = (Some (take n first), t)" "pieces_ok t" "take n first \<noteq> []"
      "take n first @ concat (port_reads t) = concat (port_reads s)"
      using xmm626_read_pieces [OF 1(2,3) reads] False by blast
    let ?m = "length (take n first)"
    have m: "?m \<le> n" "n - ?m \<le> length (concat (port_reads t))"
      using 1(4) arg_cong [OF t(4), of length] by auto
    obtain u where u: "read_all fd (n - ?m) t = (Some (take (n - ?m) (concat (port_reads t))), u)"
      "concat (port_reads u) = drop (n - ?m) (concat (port_reads t))"
      using 1(1) [OF False t(1) [symmetric] _ t(2) 1(3)] t(3) m(2) by auto
    have "take n (concat (port_reads s)) = take n first @ take (n - ?m) (concat (port_reads t))"
      "drop n (concat (port_reads s)) = drop (n - ?m) (concat (port_reads t))"
      using m(1) by (simp_all flip: t(4))
    then show ?thesis
      using u t(1,3) False by (simp add: read_all.simps [of fd n s])
  qed
qed

subsection \<open>Properties\<close>

lemma fmt_link_whole:
  assumes "xmm626_sec_modem_fmt_send fd message s = Some (0, s')" and "port_sent fd s' = port_sent fd s @ concat (port_reads t)"
    and "pieces_ok t" and "0 \<le> fd'" and "port_reads t = first # rest" and "7 \<le> length first"
  shows "\<exists>t'. xmm626_sec_modem_fmt_recv fd' t = Some (Some message, t') \<and> concat (port_reads t') = []"
proof -
  let ?h = "ipc_fmt_header_setup message" and ?d = "msg_data message"
  have fits: "7 + length ?d \<le> unat (fh_length ?h)" and sent: "write_all fd (fmt_header_bytes ?h @ ?d) s = (0, s')"
    using assms(1) by (auto simp: xmm626_sec_modem_fmt_send_def Let_def split: if_splits)
  have "unat (fh_length ?h) = (length ?d + 7) mod 2 ^ 16"
    by (simp add: ipc_fmt_header_setup_def unat_of_nat take_bit_eq_mod flip: of_nat_add)
  with fits have len: "unat (fh_length ?h) = 7 + length ?d"
    using mod_less_eq_dividend [of "length ?d + 7" "2 ^ 16"] by simp
  have bytes: "concat (port_reads t) = fmt_header_bytes ?h @ ?d"
    using write_all_sent [OF sent] assms(2) by simp
  obtain u where u: "xmm626_sec_modem_read fd' XMM626_DATA_SIZE t = (Some (take XMM626_DATA_SIZE first), u)" "pieces_ok u"
    "take XMM626_DATA_SIZE first @ concat (port_reads u) = fmt_header_bytes ?h @ ?d"
    using xmm626_read_pieces [OF assms(3-5), of XMM626_DATA_SIZE] bytes by (auto simp: XMM626_DATA_SIZE_def)
  define d where "d = drop 7 (take XMM626_DATA_SIZE first)"
  have seven: "7 \<le> length (take XMM626_DATA_SIZE first)"
    using assms(6) by (simp add: XMM626_DATA_SIZE_def)
  have "take 7 (take XMM626_DATA_SIZE first) = fmt_header_bytes ?h" and rest: "d @ concat (port_reads u) = ?d"
    using arg_cong [OF u(3), of "take 7"] arg_cong [OF u(3), of "drop 7"] seven by (simp_all add: d_def)
  then have first: "take XMM626_DATA_SIZE first = fmt_header_bytes ?h @ d"
    by (metis append_take_drop_id d_def)
  have message: "ipc_fmt_message_setup ?h\<lparr>msg_data := ?d\<rparr> = message"
    by (cases message) (simp add: ipc_fmt_message_setup_def ipc_fmt_header_setup_def)
  have short: "length d \<le> length ?d" "length ?d - length d = length (concat (port_reads u))"
    using arg_cong [OF rest, of length] by auto
  obtain v where v: "read_all fd' (length ?d - length d) u = (Some (concat (port_reads u)), v)" "concat (port_reads v) = []"
    using read_all_pieces [OF u(2) assms(4), of "length ?d - length d"] short(2) by auto
  have recv: "xmm626_sec_modem_fmt_recv fd' t = (if ?d = [] then Some (Some (ipc_fmt_message_setup ?h), u)
      else Option.bind (recv_data fd' (length ?d) d u) (\<lambda>(d, s). Some (map_option (\<lambda>d. ipc_fmt_message_setup ?h\<lparr>msg_data := d\<rparr>) d, s)))"
    by (simp add: xmm626_sec_modem_fmt_recv_def u(1) first len)
  show ?thesis
  proof (cases "?d = []")
    case True
    then have "ipc_fmt_message_setup ?h = message"
      using message by (simp add: ipc_fmt_message_setup_def)
    then show ?thesis
      using recv True rest by simp
  next
    case False
    have "recv_data fd' (length ?d) d u = Some (Some ?d, v)"
      using short(1) v(1) rest by (simp add: recv_data_def)
    then show ?thesis
      using recv False message v(2) by simp
  qed
qed

text \<open>C13. A message crosses the link unchanged however the bytes are cut behind the header: when sending has succeeded, whatever the single writes took, and the bytes arrive in any pieces
  that are not empty, of which the first has at least the seven bytes of the header, and no call of the receiver fails, receiving returns the message that was sent and has read exactly its bytes. When the first piece is shorter, receiving
  fails, because the header is taken from one \<open>read\<close>.\<close>

theorem fmt_link_roundtrip:
  assumes "xmm626_sec_modem_fmt_send fd message s = Some (0, s')" and "port_sent fd s' = port_sent fd s @ concat (port_reads t)"
    and "pieces_ok t" and "0 \<le> fd'" and "port_reads t = first # rest"
  shows "(7 \<le> length first \<longrightarrow> (\<exists>t'. xmm626_sec_modem_fmt_recv fd' t = Some (Some message, t') \<and> concat (port_reads t') = [])) \<and>
    (length first < 7 \<longrightarrow> (\<exists>t'. xmm626_sec_modem_fmt_recv fd' t = Some (None, t')))"
proof (intro conjI impI)
  show "\<exists>t'. xmm626_sec_modem_fmt_recv fd' t = Some (Some message, t') \<and> concat (port_reads t') = []" if "7 \<le> length first"
    using fmt_link_whole [OF assms that] .
  show "\<exists>t'. xmm626_sec_modem_fmt_recv fd' t = Some (None, t')" if "length first < 7"
  proof -
    obtain u where "xmm626_sec_modem_read fd' XMM626_DATA_SIZE t = (Some (take XMM626_DATA_SIZE first), u)"
      using xmm626_read_pieces [OF assms(3-5), of XMM626_DATA_SIZE] by (auto simp: XMM626_DATA_SIZE_def)
    moreover have "fmt_header_read (take XMM626_DATA_SIZE first) = None"
      using that by (cases "take XMM626_DATA_SIZE first" rule: fmt_header_read.cases) (auto dest: arg_cong [where f = length])
    ultimately show ?thesis
      by (simp add: xmm626_sec_modem_fmt_recv_def)
  qed
qed

text \<open>Two messages in one read are undefined: when the first read returns more than the message whose header it begins with, and that message has data, all the bytes that were read
  are copied into the memory that was allocated for this message.\<close>

theorem fmt_recv_overflow:
  assumes "pieces_ok s" and "0 \<le> fd" and "port_reads s = first # rest" and "fmt_header_read first = Some header"
    and "7 < unat (fh_length header)" and "unat (fh_length header) < length first" and "unat (fh_length header) < XMM626_DATA_SIZE"
  shows "xmm626_sec_modem_fmt_recv fd s = None"
proof -
  obtain t where t: "xmm626_sec_modem_read fd XMM626_DATA_SIZE s = (Some (take XMM626_DATA_SIZE first), t)"
    using xmm626_read_pieces [OF assms(1-3), of XMM626_DATA_SIZE] by (auto simp: XMM626_DATA_SIZE_def)
  have "fmt_header_read (take XMM626_DATA_SIZE first) = Some header"
    using assms(4) by (cases first rule: fmt_header_read.cases) (auto simp: XMM626_DATA_SIZE_def)
  moreover have "unat (fh_length header) - 7 < length (drop 7 (take XMM626_DATA_SIZE first))"
    using assms(5-7) by auto
  ultimately show ?thesis
    using t assms(5) by (simp add: xmm626_sec_modem_fmt_recv_def recv_data_def)
qed

text \<open>A message that does not fit the sixteen bits of the header's length is undefined to send; any other one is sent or reported as failed.\<close>

theorem fmt_send_undefined_iff:
  "xmm626_sec_modem_fmt_send fd message s = None \<longleftrightarrow> 2 ^ 16 \<le> length (msg_data message) + 7"
proof -
  have "unat (fh_length (ipc_fmt_header_setup message)) = (length (msg_data message) + 7) mod 2 ^ 16"
    by (simp add: ipc_fmt_header_setup_def unat_of_nat take_bit_eq_mod flip: of_nat_add)
  moreover have "(n :: nat) mod 2 ^ 16 < n \<longleftrightarrow> 2 ^ 16 \<le> n" for n
  proof (cases "n < 2 ^ 16")
    case False
    have "n mod 2 ^ 16 < 2 ^ 16"
      by (rule mod_less_divisor) simp
    with False show ?thesis
      by linarith
  qed simp
  ultimately show ?thesis
    by (simp add: xmm626_sec_modem_fmt_send_def Let_def add.commute)
qed

lemma gprs_get_iface_names:
  "map xmm626_sec_modem_gprs_get_iface [0, 1, 2, 3, 4] = [Some ''rmnet-1'', Some ''rmnet0'', Some ''rmnet1'', Some ''rmnet2'', None]"
  by code_simp

definition toy_port :: "u8 list list \<Rightarrow> modem_port" where
  "toy_port pieces = \<lparr>port_calls = [], port_reads = pieces, port_trace = []\<rparr>"

definition toy_message :: ipc_message where
  "toy_message = \<lparr>msg_mseq = 1, msg_aseq = 0xff, msg_command = 0x0101, msg_type = 2, msg_data = [5, 6]\<rparr>"

lemma toy_frame: "fmt_header_bytes (ipc_fmt_header_setup toy_message) @ msg_data toy_message = [9, 0, 1, 0xff, 1, 1, 2, 5, 6]"
  by (simp add: toy_message_def ipc_fmt_header_setup_def fmt_header_bytes_def bytes16_def IPC_GROUP_def IPC_INDEX_def)

lemma toy_sent: "xmm626_sec_modem_fmt_send 3 toy_message (toy_port []) =
  Some (0, \<lparr>port_calls = [], port_reads = [], port_trace = [Port_ioctl 3 ''IOCTL_MODEM_STATUS'' 0, Port_wrote 3 [9, 0, 1, 0xff, 1, 1, 2, 5, 6]]\<rparr>)"
proof -
  have "unat (fh_length (ipc_fmt_header_setup toy_message)) = 9" "length (msg_data toy_message) = 2"
    by (simp_all add: toy_message_def ipc_fmt_header_setup_def)
  then have "xmm626_sec_modem_fmt_send 3 toy_message (toy_port []) = Some (write_all 3 [9, 0, 1, 0xff, 1, 1, 2, 5, 6] (toy_port []))"
    using toy_frame by (simp add: xmm626_sec_modem_fmt_send_def)
  moreover have "write_all 3 [] s = (0, s)" for s
    by (subst write_all.simps) simp
  ultimately show ?thesis
    by (subst (asm) write_all.simps) (simp add: xmm626_sec_modem_write_def port_ioctl_def port_write_def modem_awake_def toy_port_def port_emit_def
      port_call_def)
qed

theorem fmt_link_roundtrip_witness:
  "(\<exists>t'. xmm626_sec_modem_fmt_recv 3 (toy_port [[9, 0, 1, 0xff, 1, 1, 2], [5], [6]]) = Some (Some toy_message, t')) \<and>
   (\<exists>t'. xmm626_sec_modem_fmt_recv 3 (toy_port [[9, 0], [1, 0xff, 1, 1, 2, 5, 6]]) = Some (None, t'))"
  using fmt_link_roundtrip [OF toy_sent, of "toy_port [[9, 0, 1, 0xff, 1, 1, 2], [5], [6]]" 3 "[9, 0, 1, 0xff, 1, 1, 2]" "[[5], [6]]"]
    fmt_link_roundtrip [OF toy_sent, of "toy_port [[9, 0], [1, 0xff, 1, 1, 2, 5, 6]]" 3 "[9, 0]" "[[1, 0xff, 1, 1, 2, 5, 6]]"]
  by (auto simp: toy_port_def pieces_ok_def port_sent_def)

theorem fmt_recv_overflow_witness: "xmm626_sec_modem_fmt_recv 3 (toy_port [[8, 0, 0, 1, 1, 1, 2, 5, 6]]) = None"
  using fmt_recv_overflow [of "toy_port [[8, 0, 0, 1, 1, 1, 2, 5, 6]]" 3 "[8, 0, 0, 1, 1, 1, 2, 5, 6]" "[]"]
  by (simp add: toy_port_def pieces_ok_def XMM626_DATA_SIZE_def le16_def)

end
