(* ===== verification/Modem_Boot.thy ===== *)
theory Modem_Boot
  imports Xmm626_Modem Ipc_Nv
begin

section \<open>libsamsung-ipc: what the boot sequences share\<close>

text \<open>
  The parts that the drivers under \<open>devices/\<close> have in common when they start a modem: the checksum of \<open>xmm626.c\<close>, reading after \<open>select\<close>, writing in one call or in pieces,
  opening and closing devices, and the commands and addresses of \<open>xmm626.h\<close>. A function that can fail returns \<open>0\<close> or \<open>-1\<close>; \<open>ok_then\<close> is the
  code's \<open>goto error\<close>. Two notions carry the proofs about boots: \<open>extends\<close>, nothing that was sent is taken back, and \<open>answered\<close>, a step succeeds when the modem sends
  certain bytes. The locale \<open>modem_transfer\<close> is the contract of a transfer of data to an address of the modem.
\<close>

subsection \<open>Checksums (xmm626.c)\<close>

fun crc_loop :: "u8 \<Rightarrow> u8 list \<Rightarrow> u8" where
  "crc_loop crc [] = crc"
| "crc_loop crc (b # bs) = crc_loop (crc XOR b) bs"

definition xmm626_crc_calculate :: "u8 list \<Rightarrow> u8" where
  "xmm626_crc_calculate data = crc_loop 0 data"

subsection \<open>Reading and writing\<close>

text \<open>\<open>select\<close> and then \<open>read\<close> of \<open>n\<close> bytes; fewer bytes are an error.\<close>

definition select_read :: "nat \<Rightarrow> modem_port \<Rightarrow> u8 list option \<times> modem_port" where
  "select_read n s = (let (rc, s) = port_call 1 s in
     if rc \<le> 0 then (None, s)
     else let (r, s) = port_read n s in (case r of None \<Rightarrow> (None, s) | Some bs \<Rightarrow> (if length bs < n then None else Some bs, s)))"

definition select_skip :: "nat \<Rightarrow> modem_port \<Rightarrow> int \<times> modem_port" where
  "select_skip n s = (let (r, s) = select_read n s in (if r = None then -1 else 0, s))"

fun repeat_ok :: "nat \<Rightarrow> ('s \<Rightarrow> int \<times> 's) \<Rightarrow> 's \<Rightarrow> int \<times> 's" where
  "repeat_ok 0 f s = (0, s)"
| "repeat_ok (Suc n) f s = ok_then (f s) (repeat_ok n f)"

text \<open>A buffer that must be written with one call.\<close>

definition write_once :: "int \<Rightarrow> u8 list \<Rightarrow> modem_port \<Rightarrow> int \<times> modem_port" where
  "write_once fd bs s = (let (rc, s) = port_write fd bs s in (if rc < int (length bs) then -1 else 0, s))"

text \<open>A buffer that is written in pieces of at most \<open>chunk\<close> bytes.\<close>

function write_chunks :: "nat \<Rightarrow> int \<Rightarrow> u8 list \<Rightarrow> modem_port \<Rightarrow> int \<times> modem_port" where
  "write_chunks chunk fd bs s = (if bs = [] then (0, s)
     else case port_write fd (take (if chunk < length bs then chunk else length bs) bs) s of (rc, s) \<Rightarrow>
       if rc \<le> 0 then (-1, s) else write_chunks chunk fd (drop (nat rc) bs) s)"
  by pat_completeness auto
termination
  by (relation "measure (\<lambda>(chunk, fd, bs, s). length bs)") auto

declare write_chunks.simps [simp del]

text \<open>\<open>goto error\<close> among steps that may be undefined.\<close>

definition ok_do :: "(int \<times> 's) option \<Rightarrow> ('s \<Rightarrow> (int \<times> 's) option) \<Rightarrow> (int \<times> 's) option" where
  "ok_do r f = Option.bind r (\<lambda>(rc, s). if rc < 0 then Some (-1, s) else f s)"

subsection \<open>Starting a modem\<close>

text \<open>The loop that writes ``ATAT'' until the modem answers; \<open>n\<close> is \<open>51 - i\<close>. In the last pass an answer comes too late.\<close>

fun psi_at :: "nat \<Rightarrow> int \<Rightarrow> modem_port \<Rightarrow> int \<times> modem_port" where
  "psi_at 0 fd s = ok_then (write_once fd (string_bytes ''ATAT'') s) (\<lambda>s. (-1, snd (port_call 1 s)))"
| "psi_at (Suc n) fd s = ok_then (write_once fd (string_bytes ''ATAT'') s) (\<lambda>s.
     let (rc, s) = port_call 1 s in if rc < 0 then (-1, s) else if rc = 0 then psi_at n fd s else (0, s))"

subsection \<open>Commands and addresses (xmm626.h)\<close>

definition XMM626_COMMAND_SET_PORT_CONFIG :: u16 where "XMM626_COMMAND_SET_PORT_CONFIG = 0x86"
definition XMM626_COMMAND_SEC_START :: u16 where "XMM626_COMMAND_SEC_START = 0x204"
definition XMM626_COMMAND_SEC_END :: u16 where "XMM626_COMMAND_SEC_END = 0x205"
definition XMM626_COMMAND_HW_RESET :: u16 where "XMM626_COMMAND_HW_RESET = 0x208"
definition XMM626_COMMAND_FLASH_SET_ADDRESS :: u16 where "XMM626_COMMAND_FLASH_SET_ADDRESS = 0x802"
definition XMM626_COMMAND_FLASH_WRITE_BLOCK :: u16 where "XMM626_COMMAND_FLASH_WRITE_BLOCK = 0x804"
definition XMM626_FIRMWARE_ADDRESS :: u32 where "XMM626_FIRMWARE_ADDRESS = 0x60300000"
definition XMM626_NV_DATA_ADDRESS :: u32 where "XMM626_NV_DATA_ADDRESS = 0x60E80000"
definition XMM626_MPS_DATA_ADDRESS :: u32 where "XMM626_MPS_DATA_ADDRESS = 0x61080000"

text \<open>The checksum of a command.\<close>

definition command_checksum :: "u16 \<Rightarrow> u8 list \<Rightarrow> u16" where
  "command_checksum code data = fold (\<lambda>b sum. sum + ucast b) data ((of_nat (length data) AND 0xffff) + code)"

subsection \<open>Devices and files\<close>

text \<open>The modem's data comes from the files of the phone: \<open>boot_files\<close> are these files and \<open>boot_port\<close> the modem.\<close>

record boot_world =
  boot_port :: modem_port
  boot_files :: file_world
  boot_specs :: "ipc_client_nv_data_specs option"

definition on_port :: "(modem_port \<Rightarrow> int \<times> modem_port) \<Rightarrow> boot_world \<Rightarrow> int \<times> boot_world" where
  "on_port f w = (let (rc, s) = f (boot_port w) in (rc, w\<lparr>boot_port := s\<rparr>))"

definition boot_open :: "string \<Rightarrow> boot_world \<Rightarrow> int \<times> boot_world" where
  "boot_open path w = on_port (\<lambda>s. port_call 0 (port_emit (Port_opened path) s)) w"

definition boot_close :: "int \<Rightarrow> boot_world \<Rightarrow> boot_world" where
  "boot_close fd w = (if fd \<ge> 0 then w\<lparr>boot_port := port_emit (Port_closed fd) (boot_port w)\<rparr> else w)"

text \<open>Steps that are all taken, and of which one that fails makes the whole fail.\<close>

definition run_all :: "(modem_port \<Rightarrow> int \<times> modem_port) list \<Rightarrow> modem_port \<Rightarrow> int \<times> modem_port" where
  "run_all fs s = fold (\<lambda>f (rc, s). case f s of (rc', s) \<Rightarrow> (if rc < 0 \<or> rc' < 0 then -1 else 0, s)) fs (0, s)"

text \<open>Where the parts of the modem's software are in its image: each with its offset and its size.\<close>

record modem_layout =
  layout_device :: string
  layout_psi :: "nat \<times> nat"
  layout_ebl :: "nat \<times> nat"
  layout_sec_start :: "nat \<times> nat"
  layout_firmware :: "nat \<times> nat"

definition image_part :: "nat \<times> nat \<Rightarrow> u8 list \<Rightarrow> u8 list" where
  "image_part part img = take (snd part) (drop (fst part) img)"

subsection \<open>Handlers of the phones with an XMM626\<close>

text \<open>The drivers of these phones have the same handlers. They work on the transport data, the descriptor of the open device; \<open>None\<close> is \<open>NULL\<close>. \<open>data_create\<close> clears the memory, so the
  descriptor is \<open>0\<close> until the device is opened.\<close>

definition transport_open :: "int option \<Rightarrow> int \<Rightarrow> modem_port \<Rightarrow> (int \<times> int option) \<times> modem_port" where
  "transport_open data type s = (if data = None then ((-1, data), s)
     else let (fd, s) = xmm626_sec_modem_open type s in ((if fd < 0 then -1 else 0, Some fd), s))"

definition transport_close :: "int option \<Rightarrow> modem_port \<Rightarrow> (int \<times> int option) \<times> modem_port" where
  "transport_close data s = (case data of None \<Rightarrow> ((-1, data), s) | Some fd \<Rightarrow> ((0, Some (-1)), snd (xmm626_sec_modem_close fd s)))"

definition transport_read :: "int option \<Rightarrow> nat \<Rightarrow> modem_port \<Rightarrow> u8 list option \<times> modem_port" where
  "transport_read data n s = (case data of None \<Rightarrow> (None, s) | Some fd \<Rightarrow> xmm626_sec_modem_read fd n s)"

definition transport_write :: "int option \<Rightarrow> u8 list \<Rightarrow> modem_port \<Rightarrow> int \<times> modem_port" where
  "transport_write data bs s = (case data of None \<Rightarrow> (-1, s) | Some fd \<Rightarrow> xmm626_sec_modem_write fd bs s)"

definition transport_poll :: "int option \<Rightarrow> int list \<Rightarrow> int \<Rightarrow> int list \<Rightarrow> modem_port \<Rightarrow> ((int \<times> int list \<times> nat) \<times> modem_port) option" where
  "transport_poll data fds rc ready s = (case data of None \<Rightarrow> Some ((-1, fds, length fds), s) | Some fd \<Rightarrow> xmm626_sec_modem_poll fd fds rc ready s)"

definition transport_power_off :: "modem_port \<Rightarrow> int \<times> modem_port" where
  "transport_power_off s = (let (fd, s) = port_call 0 (port_emit (Port_opened ''/dev/umts_boot0'') s) in
     if fd < 0 then (-1, s)
     else let (rc, s) = xmm626_sec_modem_power fd False s in (if rc < 0 then -1 else 0, port_emit (Port_closed fd) s))"

definition transport_data_create :: "int \<times> int option" where
  "transport_data_create = (0, Some 0)"

definition transport_data_destroy :: "int option \<Rightarrow> int" where
  "transport_data_destroy data = (if data = None then -1 else 0)"

subsection \<open>Lemmas\<close>

lemma crc_loop_xor: "crc_loop crc bs = crc XOR crc_loop 0 bs"
  by (induction bs arbitrary: crc rule: list.induct) (simp, metis crc_loop.simps(2) xor.assoc xor.left_neutral)

text \<open>What was sent with its checksum adds up to zero, and a change of any one byte is noticed.\<close>

lemma crc_appended: "xmm626_crc_calculate (data @ [xmm626_crc_calculate data]) = 0"
proof -
  have "crc_loop c (xs @ ys) = crc_loop (crc_loop c xs) ys" for c xs ys
    by (induction xs arbitrary: c) auto
  then show ?thesis
    by (simp add: xmm626_crc_calculate_def)
qed

lemma ok_then_0: "ok_then r f = (0, t) \<longleftrightarrow> (\<exists>rc u. r = (rc, u) \<and> 0 \<le> rc \<and> f u = (0, t))"
  by (cases r) (auto simp: ok_then_def)

lemma ok_do_Some: "ok_do r f = Some (rc, t) \<Longrightarrow> 0 \<le> rc \<Longrightarrow> \<exists>q u. r = Some (q, u) \<and> 0 \<le> q \<and> f u = Some (rc, t)"
  by (auto simp: ok_do_def bind_eq_Some_conv split: if_splits)

text \<open>No operation takes back what was sent.\<close>

definition extends :: "modem_port \<Rightarrow> modem_port \<Rightarrow> bool" where
  "extends s t \<longleftrightarrow> (\<forall>fd. \<exists>bs. port_sent fd t = port_sent fd s @ bs)"

lemma extends_refl [simp, intro]: "extends s s"
  by (simp add: extends_def)

lemma extends_trans: "extends s t \<Longrightarrow> extends t u \<Longrightarrow> extends s u"
  unfolding extends_def by (metis append.assoc)

lemma extends_emit [simp]: "extends s (port_emit a s)"
  by (simp add: extends_def)

lemma extends_call [simp]: "extends s (snd (port_call rc s))"
  by (simp add: extends_def)

lemma extends_read [simp]: "extends s (snd (port_read n s))"
  by (simp add: extends_def port_read_def port_sent_def split: list.split)

lemmas extends_port [intro!] = extends_trans [OF _ extends_emit] extends_trans [OF _ extends_call] extends_trans [OF _ extends_read]

lemma extends_write [simp]: "extends s (snd (port_write fd bs s))"
  by (auto simp: port_write_def Let_def split_beta)

lemma extends_ok_then: "extends s (snd r) \<Longrightarrow> (\<And>u. extends u (snd (f u))) \<Longrightarrow> extends s (snd (ok_then r f))"
  by (auto simp: ok_then_def intro: extends_trans)

lemma extends_ioctl [simp]: "extends s (snd (port_ioctl fd name arg rc s))"
  by (auto simp: port_ioctl_def)

lemma extends_ioctl_wait [simp]: "extends s (snd (ioctl_wait n fd name wanted rc s))"
  by (induction n arbitrary: s) (auto simp: Let_def split_beta intro: extends_trans [OF extends_ioctl])

lemma extends_ioctl_checked [simp]: "extends s (snd (ioctl_checked fd name arg s))"
  by (simp add: ioctl_checked_def split_beta)

lemma extends_sysfs: "extends s (snd (sysfs_value_write path val s))"
  by (auto simp: sysfs_value_write_def Let_def split_beta intro!: extends_trans [OF _ extends_write])

lemma extends_link:
  "extends s (snd (xmm626_sec_modem_power fd b s))" "extends s (snd (xmm626_sec_modem_link_control_enable fd b s))"
  "extends s (snd (xmm626_sec_modem_link_control_active fd b s))" "extends s (snd (xmm626_sec_modem_link_connected_wait fd s))"
  "extends s (snd (xmm626_sec_modem_link_get_hostwake_wait fd s))" "extends s (snd (xmm626_sec_modem_hci_power b s))"
  by (simp_all add: xmm626_sec_modem_power_def xmm626_sec_modem_link_control_enable_def xmm626_sec_modem_link_control_active_def
    xmm626_sec_modem_link_connected_wait_def xmm626_sec_modem_link_get_hostwake_wait_def)
    (auto simp: xmm626_sec_modem_hci_power_def Let_def split_beta intro: extends_trans extends_sysfs)

lemma extends_run_all: "(\<And>f s. f \<in> set fs \<Longrightarrow> extends s (snd (f s))) \<Longrightarrow> extends s (snd (run_all fs s))"
proof -
  assume step: "\<And>f s. f \<in> set fs \<Longrightarrow> extends s (snd (f s))"
  have "extends s (snd (fold (\<lambda>f (rc, s). case f s of (rc', s) \<Rightarrow> (if rc < 0 \<or> rc' < 0 then -1 else 0, s)) fs (rc :: int, s)))" for rc s
    using step
  proof (induction fs arbitrary: rc s)
    case (Cons f fs)
    obtain rc' u where u: "f s = (rc', u)"
      by fastforce
    have "extends s u"
      using Cons(2) [of f s] u by simp
    then show ?case
      using Cons(1) [of u] Cons(2) u by (auto intro: extends_trans)
  qed simp
  then show ?thesis
    by (simp add: run_all_def)
qed

lemma extends_write_once [simp]: "extends s (snd (write_once fd bs s))"
  by (simp add: write_once_def split_beta)

lemma extends_select_read [simp]: "extends s (snd (select_read n s))"
  by (auto simp: select_read_def Let_def split_beta split: option.split)

lemma extends_select_skip [simp]: "extends s (snd (select_skip n s))"
  by (simp add: select_skip_def split_beta)

lemma extends_repeat: "(\<And>s. extends s (snd (f s))) \<Longrightarrow> extends s (snd (repeat_ok n f s))"
  by (induction n arbitrary: s) (auto intro: extends_ok_then)

lemma extends_psi_at [simp]: "extends s (snd (psi_at n fd s))"
proof (induction n arbitrary: s)
  case (Suc n)
  have "extends u (snd (psi_at n fd (snd (port_call 1 u))))" for u
    using extends_trans [OF extends_call Suc] .
  then show ?case
    by (auto simp: Let_def split_beta intro!: extends_ok_then)
qed (auto intro!: extends_ok_then)

lemma extends_chunks [simp]: "extends s (snd (write_chunks chunk fd bs s))"
proof (induction chunk fd bs s rule: write_chunks.induct)
  case (1 chunk fd bs s)
  let ?p = "take (if chunk < length bs then chunk else length bs) bs"
  obtain rc u where u: "port_write fd ?p s = (rc, u)"
    by fastforce
  have "extends s u"
    using extends_write [of s fd ?p] u by simp
  then show ?case
    using 1 [OF _ u [symmetric]] by (auto simp: write_chunks.simps [of chunk fd bs s] u intro: extends_trans)
qed

lemma write_once_sent:
  assumes "write_once fd bs s = (0, t)"
  shows "port_sent fd t = port_sent fd s @ bs"
proof -
  obtain rc u where "port_write fd bs s = (rc, u)"
    by fastforce
  then show ?thesis
    using port_write_sent [of fd bs s rc u] assms by (auto simp: write_once_def split: if_splits)
qed

lemma port_read_sent [simp]: "port_sent fd (snd (port_read n s)) = port_sent fd s"
  by (simp add: port_read_def port_sent_def split: list.split)

lemma select_read_sent [simp]: "port_sent fd (snd (select_read n s)) = port_sent fd s"
  by (simp add: select_read_def Let_def split_beta split: option.split)

lemma select_skip_sent [simp]: "port_sent fd (snd (select_skip n s)) = port_sent fd s"
  by (simp add: select_skip_def split_beta)

lemma on_port_parts: "on_port f w = (fst (f (boot_port w)), w\<lparr>boot_port := snd (f (boot_port w))\<rparr>)"
  by (simp add: on_port_def split_beta)

subsection \<open>A modem that answers\<close>

text \<open>\<open>answered f as\<close>: where no system call fails and the modem has sent the pieces \<open>as\<close>, \<open>f\<close> succeeds and has read these pieces.\<close>

definition answers :: "modem_port \<Rightarrow> u8 list list \<Rightarrow> bool" where
  "answers s pieces \<longleftrightarrow> port_calls s = [] \<and> port_reads s = pieces"

definition answered :: "(modem_port \<Rightarrow> int \<times> modem_port) \<Rightarrow> u8 list list \<Rightarrow> bool" where
  "answered f pieces \<longleftrightarrow> (\<forall>s rest. answers s (pieces @ rest) \<longrightarrow> fst (f s) = 0 \<and> answers (snd (f s)) rest)"

lemma answered_ok_then: "answered f as \<Longrightarrow> answered g bs \<Longrightarrow> answered (\<lambda>s. ok_then (f s) g) (as @ bs)"
proof -
  assume f: "answered f as" and g: "answered g bs"
  have "fst (f s) = 0" "fst (g (snd (f s))) = 0" "answers (snd (g (snd (f s)))) rest" if "answers s ((as @ bs) @ rest)" for s rest
    using f g that unfolding answered_def append.assoc by blast+
  then show ?thesis
    by (simp add: answered_def ok_then_def)
qed

lemma answered_then: "answered f as \<Longrightarrow> answered g [] \<Longrightarrow> answered (\<lambda>s. ok_then (f s) g) as"
  using answered_ok_then [of f as g "[]"] by simp

lemma answered_skip: "answered f [] \<Longrightarrow> answered g bs \<Longrightarrow> answered (\<lambda>s. ok_then (f s) g) bs"
  using answered_ok_then [of f "[]" g bs] by simp

lemma answered_return [simp]: "answered (Pair 0) []"
  by (simp add: answered_def)

lemma port_write_quiet: "answers s as \<Longrightarrow> port_write fd bs s = (int (length bs), port_emit (Port_wrote fd bs) s)"
  by (simp add: answers_def port_write_def)

lemma answers_emit [simp]: "answers (port_emit a s) as = answers s as"
  by (simp add: answers_def)

lemma answers_call: "answers s as \<Longrightarrow> port_call rc s = (rc, s)"
  by (simp add: answers_def)

lemma answered_write_once: "answered (write_once fd bs) []"
  by (auto simp: answered_def write_once_def port_write_quiet)

lemma answered_chunks: "0 < chunk \<Longrightarrow> answered (write_chunks chunk fd bs) []"
proof (induction "length bs" arbitrary: bs rule: less_induct)
  case less
  show ?case
  proof (cases "bs = []")
    case True
    then show ?thesis
      by (simp add: answered_def write_chunks.simps)
  next
    case False
    then have "answered (write_chunks chunk fd (drop (min chunk (length bs)) bs)) []"
      using less by auto
    then show ?thesis
      using False less(2) by (auto simp: answered_def write_chunks.simps [of chunk fd bs] port_write_quiet min_def split: if_splits)
  qed
qed

lemma select_read_answered: "answers s (piece # rest) \<Longrightarrow> length piece = n \<Longrightarrow> \<exists>t. select_read n s = (Some piece, t) \<and> answers t rest"
  by (simp add: select_read_def answers_def port_read_def)

lemma answered_select_skip: "length piece = n \<Longrightarrow> answered (select_skip n) [piece]"
  unfolding answered_def select_skip_def using select_read_answered by fastforce

lemma answered_repeat: "answered f as \<Longrightarrow> answered (repeat_ok n f) (concat (replicate n as))"
proof (induction n)
  case (Suc n)
  moreover have "repeat_ok (Suc n) f = (\<lambda>s. ok_then (f s) (repeat_ok n f))"
    by (rule ext) simp
  ultimately show ?case
    by (simp add: answered_ok_then del: repeat_ok.simps)
qed (simp add: answered_def)

lemma answered_psi_at: "answered (psi_at 51 fd) []"
proof -
  have "answered (\<lambda>s. let (rc, s) = port_call 1 s in if rc < 0 then (-1, s) else if rc = 0 then psi_at n fd s else (0, s)) []" for n
    by (simp add: answered_def answers_call)
  then have "answered (\<lambda>s. psi_at (Suc n) fd s) []" for n
    unfolding psi_at.simps by (rule answered_then [OF answered_write_once])
  from this [of 50] show ?thesis
    by simp
qed

lemma answered_ioctls:
  "0 \<le> fd \<Longrightarrow> answered (ioctl_checked fd name arg) []" "wanted rc \<Longrightarrow> 0 < n \<Longrightarrow> answered (ioctl_wait n fd name wanted rc) []"
  by (simp_all add: answered_def ioctl_checked_def port_ioctl_def answers_call)
    (cases n; simp add: port_ioctl_def answers_call)

lemma answered_run_all: "\<forall>f \<in> set fs. answered f [] \<Longrightarrow> answered (run_all fs) []"
proof -
  assume "\<forall>f \<in> set fs. answered f []"
  then have "fst (fold (\<lambda>f (rc, s). case f s of (rc', s) \<Rightarrow> (if rc < 0 \<or> rc' < 0 then -1 else 0, s)) fs (0 :: int, s)) = 0 \<and>
    answers (snd (fold (\<lambda>f (rc, s). case f s of (rc', s) \<Rightarrow> (if rc < 0 \<or> rc' < 0 then -1 else 0, s)) fs (0 :: int, s))) as" if "answers s as" for s as
    using that by (induction fs arbitrary: s) (auto simp: answered_def split_beta)
  then show ?thesis
    by (simp add: answered_def run_all_def)
qed

lemma answered_sysfs: "answered (sysfs_value_write path val) []"
  unfolding answered_def
proof (intro allI impI)
  fix s rest
  assume "answers s ([] @ rest)"
  then have a: "answers (port_emit (Port_opened path) s) rest"
    by simp
  show "fst (sysfs_value_write path val s) = 0 \<and> answers (snd (sysfs_value_write path val s)) rest"
    using a by (simp add: sysfs_value_write_def Let_def answers_call [OF a] port_write_quiet [OF a])
qed

lemma answered_link:
  "0 \<le> fd \<Longrightarrow> answered (xmm626_sec_modem_power fd b) []" "0 \<le> fd \<Longrightarrow> answered (xmm626_sec_modem_link_control_enable fd b) []"
  "0 \<le> fd \<Longrightarrow> answered (xmm626_sec_modem_link_control_active fd b) []" "answered (xmm626_sec_modem_hci_power b) []"
  "0 \<le> fd \<Longrightarrow> answered (xmm626_sec_modem_link_connected_wait fd) []" "0 \<le> fd \<Longrightarrow> answered (xmm626_sec_modem_link_get_hostwake_wait fd) []"
proof -
  show "answered (xmm626_sec_modem_hci_power b) []"
    using answered_sysfs unfolding answered_def xmm626_sec_modem_hci_power_def by (fastforce simp: Let_def split_beta)
qed (use answered_ioctls in \<open>auto simp: answered_def xmm626_sec_modem_power_def xmm626_sec_modem_link_control_enable_def
    xmm626_sec_modem_link_control_active_def xmm626_sec_modem_link_connected_wait_def xmm626_sec_modem_link_get_hostwake_wait_def\<close>)


subsection \<open>Transfers\<close>

text \<open>Where a modem's memory is written: a step \<open>data_send\<close> that sends data for an address, where \<open>None\<close> is undefined behaviour, and \<open>received\<close>, which reads from the bytes of such a
  transfer what the modem stores. When the step reports success, the modem has been sent the data for the address.\<close>

locale modem_transfer =
  fixes data_send :: "int \<Rightarrow> u8 list \<Rightarrow> u32 \<Rightarrow> modem_port \<Rightarrow> (int \<times> modem_port) option"
    and received :: "u8 list \<Rightarrow> (u32 \<times> u8 list) option"
  assumes delivered: "data_send fd data address s = Some (rc, t) \<Longrightarrow> 0 \<le> rc \<Longrightarrow>
    \<exists>bs. port_sent fd t = port_sent fd s @ bs \<and> received bs = Some (address, data)"
begin

lemma loaded_delivered:
  assumes "digest_ok md5" and "distinct [p, m, b, bm]" and "ipc_nv_data_load md5 (nv_specs p m b bm sec sz c) fs = (Some data, fs')"
    and "data_send fd data address s = Some (rc, t)" and "0 \<le> rc"
  shows "\<exists>bs. port_sent fd t = port_sent fd s @ bs \<and> received bs = Some (address, data) \<and> intact md5 sec sz p m fs' \<and> files fs' p = Some data"
  using delivered [OF assms(4,5)] nv_load_sound [OF assms(1-3)] by blast

text \<open>Two transfers among other steps: what is received are both, in their order.\<close>

lemma software_delivered:
  assumes "extends s0 s1" and "data_send fd firmware firmware_address s1 = Some (rc1, s2)" and "0 \<le> rc1"
    and "digest_ok md5" and "distinct [p, m, b, bm]" and "ipc_nv_data_load md5 (nv_specs p m b bm sec sz c) fs = (Some data, fs')"
    and "data_send fd data data_address s2 = Some (rc2, s3)" and "0 \<le> rc2" and "extends s3 s4"
  shows "\<exists>pre fw nv post. port_sent fd s4 = port_sent fd s0 @ pre @ fw @ nv @ post \<and> received fw = Some (firmware_address, firmware) \<and>
    received nv = Some (data_address, data) \<and> intact md5 sec sz p m fs' \<and> files fs' p = Some data"
proof -
  obtain pre post where "port_sent fd s1 = port_sent fd s0 @ pre" "port_sent fd s4 = port_sent fd s3 @ post"
    using assms(1,9) unfolding extends_def by blast
  moreover obtain fw where "port_sent fd s2 = port_sent fd s1 @ fw" "received fw = Some (firmware_address, firmware)"
    using delivered [OF assms(2,3)] by blast
  moreover obtain nv where "port_sent fd s3 = port_sent fd s2 @ nv" "received nv = Some (data_address, data)" "intact md5 sec sz p m fs'" "files fs' p = Some data"
    using loaded_delivered [OF assms(4-8)] by blast
  ultimately show ?thesis
    by auto
qed

end

end
