(* ===== verification/Xmm626_Hsic.thy ===== *)
theory Xmm626_Hsic
  imports Modem_Boot
begin

section \<open>libsamsung-ipc: starting an XMM626 modem over HSIC\<close>

text \<open>
  \<open>devices/xmm626/xmm626_hsic.c\<close>, the protocol by which the boot loaders, the firmware and the modem's data are sent over HSIC to a modem that was just turned on.
  Sizes and chunks are those of the code.
\<close>

subsection \<open>The boot loaders (xmm626_hsic.c)\<close>

definition XMM626_HSIC_PSI_ACK :: u16 where "XMM626_HSIC_PSI_ACK = 0xAA00"
definition XMM626_HSIC_EBL_SIZE_ACK :: u16 where "XMM626_HSIC_EBL_SIZE_ACK = 0xCCCC"
definition XMM626_HSIC_EBL_ACK :: u16 where "XMM626_HSIC_EBL_ACK = 0xA551"

text \<open>Up to fifty values are read until the expected one comes.\<close>

fun ack_attempts :: "nat \<Rightarrow> u16 \<Rightarrow> modem_port \<Rightarrow> int \<times> modem_port" where
  "ack_attempts 0 ack s = (-1, s)"
| "ack_attempts (Suc n) ack s = (let (rc, s) = port_call 1 s in
     if rc \<le> 0 then (-1, s)
     else let (r, s) = port_read 2 s in (case r of
         Some [lo, hi] \<Rightarrow> if le16 lo hi = ack then (0, s) else ack_attempts n ack s
       | _ \<Rightarrow> ack_attempts n ack s))"

definition xmm626_hsic_ack_read :: "u16 \<Rightarrow> modem_port \<Rightarrow> int \<times> modem_port" where
  "xmm626_hsic_ack_read ack s = ack_attempts 50 ack s"

definition psi_header_bytes :: "u16 \<Rightarrow> u8 list" where
  "psi_header_bytes psi_size = [0x30] @ bytes16 psi_size @ [0xFF]"

definition xmm626_hsic_psi_send :: "int \<Rightarrow> u8 list \<Rightarrow> modem_port \<Rightarrow> int \<times> modem_port" where
  "xmm626_hsic_psi_send fd psi_data s = (if fd < 0 \<or> psi_data = [] then (-1, s)
     else ok_then (psi_at 51 fd s) (\<lambda>s.
       ok_then (select_skip 1 s) (\<lambda>s.
       ok_then (select_skip 1 s) (\<lambda>s.
       ok_then (write_once fd (psi_header_bytes (of_nat (length psi_data))) s) (\<lambda>s.
       ok_then (write_chunks (length psi_data) fd psi_data s) (\<lambda>s.
       ok_then (write_once fd [xmm626_crc_calculate psi_data] s) (\<lambda>s.
       ok_then (repeat_ok 22 (select_skip 1) s) (\<lambda>s.
       ok_then (repeat_ok 2 (select_skip 1) s) (\<lambda>s.
       ok_then (xmm626_hsic_ack_read XMM626_HSIC_PSI_ACK s) (\<lambda>s. (0, s)))))))))))"

definition xmm626_hsic_ebl_send :: "int \<Rightarrow> u8 list \<Rightarrow> modem_port \<Rightarrow> int \<times> modem_port" where
  "xmm626_hsic_ebl_send fd ebl_data s = (if fd < 0 \<or> ebl_data = [] then (-1, s)
     else ok_then (write_once fd (bytes32 (of_nat (length ebl_data))) s) (\<lambda>s.
       ok_then (xmm626_hsic_ack_read XMM626_HSIC_EBL_SIZE_ACK s) (\<lambda>s.
       ok_then (write_chunks 0x4000 fd ebl_data s) (\<lambda>s.
       ok_then (write_once fd [xmm626_crc_calculate ebl_data] s) (\<lambda>s.
       ok_then (xmm626_hsic_ack_read XMM626_HSIC_EBL_ACK s) (\<lambda>s. (0, s)))))))"

subsection \<open>Commands\<close>

definition XMM626_HSIC_FLASH_WRITE_BLOCK_SIZE :: nat where "XMM626_HSIC_FLASH_WRITE_BLOCK_SIZE = 0x4000"
definition XMM626_HSIC_MODEM_DATA_CHUNK :: nat where "XMM626_HSIC_MODEM_DATA_CHUNK = 0x4000"

definition command_bytes :: "u16 \<Rightarrow> u8 list \<Rightarrow> nat \<Rightarrow> u8 list" where
  "command_bytes code data command_data_size = bytes16 (command_checksum code data) @ bytes16 code @ bytes32 (of_nat (length data)) @
     data @ replicate (command_data_size - length data) 0"

definition xmm626_hsic_command_send :: "int \<Rightarrow> u16 \<Rightarrow> u8 list \<Rightarrow> nat \<Rightarrow> bool \<Rightarrow> modem_port \<Rightarrow> int \<times> modem_port" where
  "xmm626_hsic_command_send fd code data command_data_size ack s =
     (if fd < 0 \<or> data = [] \<or> command_data_size = 0 \<or> command_data_size < length data then (-1, s)
      else ok_then (write_once fd (command_bytes code data command_data_size) s) (\<lambda>s.
        if \<not> ack then (0, s)
        else
          let (r, s) = select_read 8 s in
          case r of None \<Rightarrow> (-1, s) | Some header \<Rightarrow>
            ok_then (select_skip command_data_size s) (\<lambda>s. (if take 2 (drop 2 header) = bytes16 code then 0 else -1, s))))"

text \<open>The blocks of the modem's data.\<close>

function flash_blocks :: "int \<Rightarrow> u8 list \<Rightarrow> modem_port \<Rightarrow> int \<times> modem_port" where
  "flash_blocks fd data s = (if data = [] then (0, s)
     else
       let count = (if XMM626_HSIC_MODEM_DATA_CHUNK < length data then XMM626_HSIC_MODEM_DATA_CHUNK else length data) in
       ok_then (xmm626_hsic_command_send fd XMM626_COMMAND_FLASH_WRITE_BLOCK (take count data) XMM626_HSIC_FLASH_WRITE_BLOCK_SIZE False s)
         (flash_blocks fd (drop count data)))"
  by pat_completeness auto
termination
  by (relation "measure (\<lambda>(fd, data, s). length data)") (auto simp: XMM626_HSIC_MODEM_DATA_CHUNK_def)

declare flash_blocks.simps [simp del]

definition xmm626_hsic_modem_data_send :: "int \<Rightarrow> u8 list \<Rightarrow> u32 \<Rightarrow> modem_port \<Rightarrow> int \<times> modem_port" where
  "xmm626_hsic_modem_data_send fd data address s = (if fd < 0 \<or> data = [] then (-1, s)
     else ok_then (xmm626_hsic_command_send fd XMM626_COMMAND_FLASH_SET_ADDRESS (bytes32 address) 0x4000 True s) (flash_blocks fd data))"

definition xmm626_hsic_port_config_send :: "int \<Rightarrow> modem_port \<Rightarrow> int \<times> modem_port" where
  "xmm626_hsic_port_config_send fd s = (if fd < 0 then (-1, s)
     else let (rc, s) = port_call 1 s in
       if rc \<le> 0 then (-1, s)
       else let (r, s) = select_read 0x4C s in
         case r of None \<Rightarrow> (-1, s) | Some buffer \<Rightarrow>
           ok_then (xmm626_hsic_command_send fd XMM626_COMMAND_SET_PORT_CONFIG buffer 0x800 True s) (\<lambda>s. (0, s)))"

definition xmm626_hsic_sec_start_send :: "int \<Rightarrow> u8 list \<Rightarrow> modem_port \<Rightarrow> int \<times> modem_port" where
  "xmm626_hsic_sec_start_send fd sec_data s = (if fd < 0 \<or> sec_data = [] then (-1, s)
     else ok_then (xmm626_hsic_command_send fd XMM626_COMMAND_SEC_START sec_data 0x4000 True s) (\<lambda>s. (0, s)))"

definition xmm626_hsic_sec_end_send :: "int \<Rightarrow> modem_port \<Rightarrow> int \<times> modem_port" where
  "xmm626_hsic_sec_end_send fd s = (if fd < 0 then (-1, s)
     else ok_then (xmm626_hsic_command_send fd XMM626_COMMAND_SEC_END (bytes16 0) 0x4000 True s) (\<lambda>s. (0, s)))"

definition xmm626_hsic_firmware_send :: "int \<Rightarrow> u8 list \<Rightarrow> modem_port \<Rightarrow> int \<times> modem_port" where
  "xmm626_hsic_firmware_send fd firmware_data s = (if fd < 0 \<or> firmware_data = [] then (-1, s)
     else ok_then (xmm626_hsic_modem_data_send fd firmware_data XMM626_FIRMWARE_ADDRESS s) (\<lambda>s. (0, s)))"

definition xmm626_hsic_hw_reset_send :: "int \<Rightarrow> modem_port \<Rightarrow> int \<times> modem_port" where
  "xmm626_hsic_hw_reset_send fd s = (if fd < 0 then (-1, s)
     else ok_then (xmm626_hsic_command_send fd XMM626_COMMAND_HW_RESET (bytes32 0x111001) 0x4000 False s) (\<lambda>s. (0, s)))"

definition xmm626_hsic_nv_data_send :: "md5_fun \<Rightarrow> int \<Rightarrow> boot_world \<Rightarrow> int \<times> boot_world" where
  "xmm626_hsic_nv_data_send md5 fd w = (if fd < 0 then (-1, w)
     else if ipc_client_nv_data_size (boot_specs w) = 0 then (-1, w)
     else
       let (r, fs) = ipc_nv_data_load md5 (boot_specs w) (boot_files w); w = w\<lparr>boot_files := fs\<rparr> in
       case r of None \<Rightarrow> (-1, w) | Some nv_data \<Rightarrow>
         ok_then (on_port (xmm626_hsic_modem_data_send fd nv_data XMM626_NV_DATA_ADDRESS) w) (\<lambda>w. (0, w)))"

subsection \<open>What the modem receives\<close>

text \<open>A reader of the commands that the modem is sent, which checks the checksum of each, and a reader of a transfer: an address and then blocks.\<close>

fun command_parse :: "nat \<Rightarrow> u8 list \<Rightarrow> (u16 \<times> u8 list \<times> u8 list) option" where
  "command_parse command_data_size (a # b # c # d # e # f # g # h # bs) =
     (let code = le16 c d; n = unat (le32 e f g h); data = take n bs in
      if n \<le> command_data_size \<and> command_data_size \<le> length bs \<and> le16 a b = command_checksum code data
      then Some (code, data, drop command_data_size bs) else None)"
| "command_parse _ _ = None"

lemma command_parse_shorter: "command_parse k bs = Some (code, data, rest) \<Longrightarrow> length rest < length bs"
  by (cases "(k, bs)" rule: command_parse.cases) (auto simp: Let_def split: if_splits)

function flash_data :: "u8 list \<Rightarrow> u8 list option" where
  "flash_data bs = (if bs = [] then Some []
     else case command_parse XMM626_HSIC_FLASH_WRITE_BLOCK_SIZE bs of
         None \<Rightarrow> None
       | Some (code, data, rest) \<Rightarrow>
           if code = XMM626_COMMAND_FLASH_WRITE_BLOCK then map_option (\<lambda>d. data @ d) (flash_data rest) else None)"
  by pat_completeness auto
termination
  by (relation "measure length") (auto dest: command_parse_shorter)

declare flash_data.simps [simp del]

definition flash_image :: "u8 list \<Rightarrow> (u32 \<times> u8 list) option" where
  "flash_image bs = (case command_parse 0x4000 bs of
      Some (code, [a, b, c, d], rest) \<Rightarrow>
        if code = XMM626_COMMAND_FLASH_SET_ADDRESS then map_option (\<lambda>data. (le32 a b c d, data)) (flash_data rest) else None
    | _ \<Rightarrow> None)"

subsection \<open>Lemmas\<close>

lemma command_parse_bytes:
  assumes "length data \<le> k" and "k < 2 ^ 32"
  shows "command_parse k (command_bytes code data k @ rest) = Some (code, data, rest)"
proof -
  have "unat (of_nat (length data) :: u32) = length data"
    using assms by (simp add: unat_of_nat take_bit_nat_eq_self)
  then show ?thesis
    using assms(1) by (simp add: command_bytes_def bytes16_def bytes32_def Let_def)
qed

lemma extends_ack [simp]: "extends s (snd (xmm626_hsic_ack_read ack s))"
proof -
  have "extends s (snd (ack_attempts n ack s))" for n
  proof (induction n arbitrary: s)
    case (Suc n)
    let ?t = "snd (port_call 1 s)"
    have "extends s (snd (ack_attempts n ack (snd (port_read 2 ?t))))" "extends s (snd (port_read 2 ?t))"
      by (auto intro: extends_trans [OF _ Suc])
    then show ?case
      by (simp add: Let_def split_beta split: option.split list.split)
  qed simp
  then show ?thesis
    by (simp add: xmm626_hsic_ack_read_def)
qed

lemma extends_command [simp]: "extends s (snd (xmm626_hsic_command_send fd code data n ack s))"
  by (auto simp: xmm626_hsic_command_send_def Let_def split_beta split: option.split intro!: extends_ok_then extends_trans [OF extends_select_read extends_select_skip])

lemma extends_blocks [simp]: "extends s (snd (flash_blocks fd data s))"
proof (induction fd data s rule: flash_blocks.induct)
  case (1 fd data s)
  show ?case
  proof (cases "data = []")
    case True
    then show ?thesis
      by (simp add: flash_blocks.simps)
  next
    case False
    show ?thesis
      unfolding flash_blocks.simps [of fd data s] Let_def
      using 1 [OF False refl] False by (simp add: extends_ok_then)
  qed
qed

lemma extends_sends [simp]:
  "extends s (snd (xmm626_hsic_modem_data_send fd data address s))" "extends s (snd (xmm626_hsic_sec_start_send fd data s))"
  "extends s (snd (xmm626_hsic_sec_end_send fd s))" "extends s (snd (xmm626_hsic_hw_reset_send fd s))"
  by (simp_all add: xmm626_hsic_modem_data_send_def xmm626_hsic_sec_start_send_def xmm626_hsic_sec_end_send_def
    xmm626_hsic_hw_reset_send_def extends_ok_then)

lemma extends_psi_send [simp]: "extends s (snd (xmm626_hsic_psi_send fd data s))"
  unfolding xmm626_hsic_psi_send_def by (simp, intro impI extends_ok_then extends_repeat) simp_all

lemma extends_ebl_send [simp]: "extends s (snd (xmm626_hsic_ebl_send fd data s))"
  unfolding xmm626_hsic_ebl_send_def by (simp, intro impI extends_ok_then) simp_all

lemma extends_port_config [simp]: "extends s (snd (xmm626_hsic_port_config_send fd s))"
proof -
  have "extends s (snd (select_read n (snd (port_call 1 s))))" for n
    using extends_trans [OF extends_call extends_select_read] .
  moreover from this have "extends s (snd (xmm626_hsic_command_send fd code bs k ack (snd (select_read n (snd (port_call 1 s))))))" for code bs k ack n
    using extends_trans extends_command by blast
  ultimately show ?thesis
    by (simp add: xmm626_hsic_port_config_send_def Let_def split_beta extends_ok_then split: option.split)
qed

subsection \<open>Deliveries\<close>

lemma command_sent:
  assumes "xmm626_hsic_command_send fd code data k ack s = (0, t)"
  shows "port_sent fd t = port_sent fd s @ command_bytes code data k" and "length data \<le> k"
proof -
  obtain u where u: "write_once fd (command_bytes code data k) s = (0, u)" and len: "length data \<le> k"
    and rest: "ack \<Longrightarrow> t = snd (select_skip k (snd (select_read 8 u)))" "\<not> ack \<Longrightarrow> t = u"
    using assms
    by (auto simp: xmm626_hsic_command_send_def write_once_def ok_then_def Let_def split_beta split: if_splits option.splits)
  have "port_sent fd t = port_sent fd u"
    using rest by (cases ack) simp_all
  then show "port_sent fd t = port_sent fd s @ command_bytes code data k" and "length data \<le> k"
    using write_once_sent [OF u] len by simp_all
qed

lemma command_result: "0 \<le> fst (xmm626_hsic_command_send fd code data k ack s) \<Longrightarrow> fst (xmm626_hsic_command_send fd code data k ack s) = 0"
  by (auto simp: xmm626_hsic_command_send_def write_once_def ok_then_def Let_def split_beta split: if_splits option.splits)

lemma flash_data_block:
  assumes "length data \<le> XMM626_HSIC_FLASH_WRITE_BLOCK_SIZE"
  shows "flash_data (command_bytes XMM626_COMMAND_FLASH_WRITE_BLOCK data XMM626_HSIC_FLASH_WRITE_BLOCK_SIZE @ rest) =
    map_option (\<lambda>d. data @ d) (flash_data rest)"
proof -
  have "command_bytes c data k \<noteq> []" for c k
    by (simp add: command_bytes_def bytes16_def)
  then show ?thesis
    using command_parse_bytes [OF assms, of XMM626_COMMAND_FLASH_WRITE_BLOCK rest]
    by (subst flash_data.simps) (simp add: XMM626_HSIC_FLASH_WRITE_BLOCK_SIZE_def)
qed

lemma flash_blocks_sent:
  assumes "flash_blocks fd data s = (0, t)"
  shows "\<exists>bs. port_sent fd t = port_sent fd s @ bs \<and> flash_data bs = Some data"
  using assms
proof (induction fd data s rule: flash_blocks.induct)
  case (1 fd data s)
  show ?case
  proof (cases "data = []")
    case True
    then show ?thesis
      using 1(2) by (auto simp: flash_blocks.simps flash_data.simps)
  next
    case False
    define n where "n = (if XMM626_HSIC_MODEM_DATA_CHUNK < length data then XMM626_HSIC_MODEM_DATA_CHUNK else length data)"
    obtain rc u where u: "xmm626_hsic_command_send fd XMM626_COMMAND_FLASH_WRITE_BLOCK (take n data) XMM626_HSIC_FLASH_WRITE_BLOCK_SIZE False s = (rc, u)"
      by fastforce
    have "0 \<le> rc" and rest: "flash_blocks fd (drop n data) u = (0, t)"
      using 1(2) False u unfolding flash_blocks.simps [of fd data s] Let_def n_def [symmetric] by (simp_all add: ok_then_def split: if_splits)
    then have "rc = 0"
      using command_result [of fd XMM626_COMMAND_FLASH_WRITE_BLOCK "take n data" XMM626_HSIC_FLASH_WRITE_BLOCK_SIZE False s] u by simp
    note sent = command_sent [OF u [unfolded this]]
    obtain bs where bs: "port_sent fd t = port_sent fd u @ bs" "flash_data bs = Some (drop n data)"
      using 1(1) [OF False n_def rest] by blast
    then show ?thesis
      using sent flash_data_block [OF sent(2), of bs] by auto
  qed
qed

lemma modem_data_sent:
  assumes "xmm626_hsic_modem_data_send fd data address s = (0, t)"
  shows "\<exists>bs. port_sent fd t = port_sent fd s @ bs \<and> flash_image bs = Some (address, data)"
proof -
  obtain rc u where u: "xmm626_hsic_command_send fd XMM626_COMMAND_FLASH_SET_ADDRESS (bytes32 address) 0x4000 True s = (rc, u)"
    by fastforce
  have "0 \<le> rc" and rest: "flash_blocks fd data u = (0, t)"
    using assms u by (auto simp: xmm626_hsic_modem_data_send_def ok_then_def split: if_splits)
  then have "rc = 0"
    using command_result [of fd XMM626_COMMAND_FLASH_SET_ADDRESS "bytes32 address" "0x4000" True s] u by simp
  note sent = command_sent [OF u [unfolded this]]
  obtain bs where "port_sent fd t = port_sent fd u @ bs" "flash_data bs = Some data"
    using flash_blocks_sent [OF rest] by blast
  then show ?thesis
    using sent command_parse_bytes [of "bytes32 address" "0x4000" XMM626_COMMAND_FLASH_SET_ADDRESS]
    by (auto simp: flash_image_def bytes32_def)
qed


lemma flash_blocks_result: "0 \<le> fst (flash_blocks fd data s) \<Longrightarrow> fst (flash_blocks fd data s) = 0"
proof (induction fd data s rule: flash_blocks.induct)
  case (1 fd data s)
  show ?case
  proof (cases "data = []")
    case True
    then show ?thesis
      by (simp add: flash_blocks.simps)
  next
    case False
    show ?thesis
      using 1(1) [OF False refl] 1(2) False unfolding flash_blocks.simps [of fd data s] Let_def by (simp add: ok_then_def split: if_splits)
  qed
qed

lemma modem_data_result:
  "0 \<le> fst (xmm626_hsic_modem_data_send fd data address s) \<Longrightarrow> fst (xmm626_hsic_modem_data_send fd data address s) = 0"
  by (auto simp: xmm626_hsic_modem_data_send_def ok_then_def flash_blocks_result split: if_splits)

interpretation hsic: modem_transfer "\<lambda>fd data address s. Some (xmm626_hsic_modem_data_send fd data address s)" flash_image
proof
  fix fd data address s rc t
  assume "Some (xmm626_hsic_modem_data_send fd data address s) = Some (rc, t)" and "0 \<le> rc"
  then have "xmm626_hsic_modem_data_send fd data address s = (0, t)"
    using modem_data_result [of fd data address s] by simp
  then show "\<exists>bs. port_sent fd t = port_sent fd s @ bs \<and> flash_image bs = Some (address, data)"
    by (rule modem_data_sent)
qed

subsection \<open>A modem that answers\<close>

lemma answered_ack: "answered (xmm626_hsic_ack_read ack) [bytes16 ack]"
proof -
  have "answered (ack_attempts (Suc n) ack) [bytes16 ack]" for n
    by (simp add: answered_def answers_def port_read_def bytes16_def)
  from this [of 49] show ?thesis
    unfolding xmm626_hsic_ack_read_def by simp
qed

definition reply :: "u16 \<Rightarrow> nat \<Rightarrow> u8 list list" where
  "reply code n = [bytes16 0 @ bytes16 code @ bytes32 0, replicate n 0]"

lemma answered_command:
  assumes "0 \<le> fd" and "data \<noteq> []" and "length data \<le> n"
  shows "answered (xmm626_hsic_command_send fd code data n False) []" and "answered (xmm626_hsic_command_send fd code data n True) (reply code n)"
proof -
  let ?sent = "write_once fd (command_bytes code data n)"
  have send: "xmm626_hsic_command_send fd code data n ack = (\<lambda>s. ok_then (?sent s) (\<lambda>s. if \<not> ack then (0, s)
      else let (r, s) = select_read 8 s in case r of None \<Rightarrow> (-1, s) | Some header \<Rightarrow>
        ok_then (select_skip n s) (\<lambda>s. (if take 2 (drop 2 header) = bytes16 code then 0 else -1, s))))" for ack
    using assms by (intro ext) (auto simp: xmm626_hsic_command_send_def)
  show "answered (xmm626_hsic_command_send fd code data n False) []"
    using answered_write_once by (simp add: send answered_then)
  have "answered (\<lambda>s. let (r, s) = select_read 8 s in case r of None \<Rightarrow> (-1, s) | Some header \<Rightarrow>
      ok_then (select_skip n s) (\<lambda>s. (if take 2 (drop 2 header) = bytes16 code then 0 else -1, s))) (reply code n)" (is "answered ?f _")
    unfolding answered_def
  proof (intro allI impI)
    fix s rest
    assume "answers s (reply code n @ rest)"
    then obtain t where "select_read 8 s = (Some (bytes16 0 @ bytes16 code @ bytes32 0), t)" "answers t (replicate n 0 # rest)"
      using select_read_answered [of s "bytes16 0 @ bytes16 code @ bytes32 0" "replicate n 0 # rest" 8]
      by (auto simp: reply_def bytes16_def bytes32_def)
    then show "fst (?f s) = 0 \<and> answers (snd (?f s)) rest"
      using answered_select_skip [of "replicate n 0" n] by (auto simp: answered_def ok_then_def bytes16_def)
  qed
  then show "answered (xmm626_hsic_command_send fd code data n True) (reply code n)"
    using answered_write_once by (simp add: send answered_skip)
qed

lemma answered_blocks: "0 \<le> fd \<Longrightarrow> answered (flash_blocks fd data) []"
proof (induction "length data" arbitrary: data rule: less_induct)
  case less
  show ?case
  proof (cases "data = []")
    case True
    then show ?thesis
      by (simp add: answered_def flash_blocks.simps)
  next
    case False
    define n where "n = (if XMM626_HSIC_MODEM_DATA_CHUNK < length data then XMM626_HSIC_MODEM_DATA_CHUNK else length data)"
    have n: "0 < n" "n \<le> XMM626_HSIC_FLASH_WRITE_BLOCK_SIZE"
      using False by (auto simp: n_def XMM626_HSIC_MODEM_DATA_CHUNK_def XMM626_HSIC_FLASH_WRITE_BLOCK_SIZE_def)
    have "answered (flash_blocks fd (drop n data)) []"
      using less(1) [of "drop n data"] less(2) n(1) False by simp
    moreover have "flash_blocks fd data = (\<lambda>s. ok_then (xmm626_hsic_command_send fd XMM626_COMMAND_FLASH_WRITE_BLOCK (take n data)
        XMM626_HSIC_FLASH_WRITE_BLOCK_SIZE False s) (flash_blocks fd (drop n data)))"
      using False by (intro ext) (simp add: flash_blocks.simps [of fd data] n_def Let_def)
    ultimately show ?thesis
      using answered_command(1) [OF less(2), of "take n data"] n False by (simp add: answered_then)
  qed
qed

lemma answered_modem_data:
  assumes "0 \<le> fd" and "data \<noteq> []"
  shows "answered (xmm626_hsic_modem_data_send fd data address) (reply XMM626_COMMAND_FLASH_SET_ADDRESS 0x4000)"
proof -
  have "xmm626_hsic_modem_data_send fd data address =
      (\<lambda>s. ok_then (xmm626_hsic_command_send fd XMM626_COMMAND_FLASH_SET_ADDRESS (bytes32 address) 0x4000 True s) (flash_blocks fd data))"
    using assms by (intro ext) (simp add: xmm626_hsic_modem_data_send_def)
  then show ?thesis
    using answered_command(2) [OF assms(1), of "bytes32 address" "0x4000"] answered_blocks [OF assms(1)] by (simp add: answered_then bytes32_def)
qed


text \<open>What the modem sends while it is started.\<close>

definition psi_answers :: "u8 list list" where
  "psi_answers = [0] # [0] # concat (replicate 22 [[0]]) @ concat (replicate 2 [[0]]) @ [bytes16 XMM626_HSIC_PSI_ACK]"

lemma answered_psi_send: "0 \<le> fd \<Longrightarrow> psi_data \<noteq> [] \<Longrightarrow> answered (xmm626_hsic_psi_send fd psi_data) psi_answers"
proof -
  assume "0 \<le> fd" and data: "psi_data \<noteq> []"
  then have send: "xmm626_hsic_psi_send fd psi_data = (\<lambda>s. ok_then (psi_at 51 fd s) (\<lambda>s.
       ok_then (select_skip 1 s) (\<lambda>s.
       ok_then (select_skip 1 s) (\<lambda>s.
       ok_then (write_once fd (psi_header_bytes (of_nat (length psi_data))) s) (\<lambda>s.
       ok_then (write_chunks (length psi_data) fd psi_data s) (\<lambda>s.
       ok_then (write_once fd [xmm626_crc_calculate psi_data] s) (\<lambda>s.
       ok_then (repeat_ok 22 (select_skip 1) s) (\<lambda>s.
       ok_then (repeat_ok 2 (select_skip 1) s) (\<lambda>s.
       ok_then (xmm626_hsic_ack_read XMM626_HSIC_PSI_ACK s) (Pair 0))))))))))"
    by (intro ext) (simp add: xmm626_hsic_psi_send_def)
  have one: "answered (select_skip 1) [[0]]"
    by (rule answered_select_skip) simp
  have pieces: "psi_answers = [[0]] @ [[0]] @ concat (replicate 22 [[0]]) @ concat (replicate 2 [[0]]) @ [bytes16 XMM626_HSIC_PSI_ACK]"
    by (simp add: psi_answers_def)
  show ?thesis
    unfolding send pieces using data
    by (intro answered_skip [OF answered_psi_at] answered_ok_then [OF one] answered_skip [OF answered_write_once] answered_skip [OF answered_chunks]
      answered_ok_then [OF answered_repeat [OF one]] answered_then [OF answered_ack] answered_return) simp
qed

lemma answered_ebl_send:
  "0 \<le> fd \<Longrightarrow> ebl_data \<noteq> [] \<Longrightarrow> answered (xmm626_hsic_ebl_send fd ebl_data) [bytes16 XMM626_HSIC_EBL_SIZE_ACK, bytes16 XMM626_HSIC_EBL_ACK]"
proof -
  assume "0 \<le> fd" "ebl_data \<noteq> []"
  then have send: "xmm626_hsic_ebl_send fd ebl_data = (\<lambda>s. ok_then (write_once fd (bytes32 (of_nat (length ebl_data))) s) (\<lambda>s.
       ok_then (xmm626_hsic_ack_read XMM626_HSIC_EBL_SIZE_ACK s) (\<lambda>s.
       ok_then (write_chunks 0x4000 fd ebl_data s) (\<lambda>s.
       ok_then (write_once fd [xmm626_crc_calculate ebl_data] s) (\<lambda>s.
       ok_then (xmm626_hsic_ack_read XMM626_HSIC_EBL_ACK s) (Pair 0))))))"
    by (intro ext) (simp add: xmm626_hsic_ebl_send_def)
  have pieces: "[bytes16 XMM626_HSIC_EBL_SIZE_ACK, bytes16 XMM626_HSIC_EBL_ACK] = [bytes16 XMM626_HSIC_EBL_SIZE_ACK] @ [bytes16 XMM626_HSIC_EBL_ACK]"
    by simp
  show ?thesis
    unfolding send pieces
    by (intro answered_skip [OF answered_write_once] answered_ok_then [OF answered_ack] answered_skip [OF answered_chunks]
      answered_then [OF answered_ack] answered_return) simp
qed

lemma answered_port_config:
  assumes "0 \<le> fd"
  shows "answered (xmm626_hsic_port_config_send fd) (replicate 0x4C 0 # reply XMM626_COMMAND_SET_PORT_CONFIG 0x800)"
  unfolding answered_def
proof (intro allI impI)
  fix s rest
  let ?reply = "reply XMM626_COMMAND_SET_PORT_CONFIG 0x800 @ rest"
  assume a: "answers s ((replicate 0x4C 0 # reply XMM626_COMMAND_SET_PORT_CONFIG 0x800) @ rest)"
  then obtain t where "select_read 0x4C s = (Some (replicate 0x4C 0), t)" "answers t ?reply"
    using select_read_answered [of s "replicate 0x4C 0" ?reply "0x4C"] by auto
  moreover have "answered (xmm626_hsic_command_send fd XMM626_COMMAND_SET_PORT_CONFIG (replicate 0x4C 0) 0x800 True) (reply XMM626_COMMAND_SET_PORT_CONFIG 0x800)"
    using assms by (intro answered_command) simp_all
  ultimately show "fst (xmm626_hsic_port_config_send fd s) = 0 \<and> answers (snd (xmm626_hsic_port_config_send fd s)) rest"
    using assms answers_call [OF a, of 1] by (simp add: xmm626_hsic_port_config_send_def answered_def ok_then_def)
qed

lemma answered_sends:
  "0 \<le> fd \<Longrightarrow> sec_data \<noteq> [] \<Longrightarrow> length sec_data \<le> 0x4000 \<Longrightarrow>
    answered (xmm626_hsic_sec_start_send fd sec_data) (reply XMM626_COMMAND_SEC_START 0x4000)"
  "0 \<le> fd \<Longrightarrow> answered (xmm626_hsic_sec_end_send fd) (reply XMM626_COMMAND_SEC_END 0x4000)"
  "0 \<le> fd \<Longrightarrow> answered (xmm626_hsic_hw_reset_send fd) []"
  "0 \<le> fd \<Longrightarrow> firmware_data \<noteq> [] \<Longrightarrow> answered (xmm626_hsic_firmware_send fd firmware_data) (reply XMM626_COMMAND_FLASH_SET_ADDRESS 0x4000)"
  using answered_command(2) [of fd sec_data "0x4000"] answered_command(2) [of fd "bytes16 0" "0x4000"] answered_command(1) [of fd "bytes32 0x111001" "0x4000"]
    answered_modem_data [of fd firmware_data]
  by (simp_all add: xmm626_hsic_sec_start_send_def xmm626_hsic_sec_end_send_def xmm626_hsic_hw_reset_send_def xmm626_hsic_firmware_send_def
    bytes16_def bytes32_def answered_def ok_then_def)


end
