(* ===== verification/Dev_Hsic.thy ===== *)
theory Dev_Hsic
  imports Xmm626_Hsic
begin

section \<open>libsamsung-ipc: phones with an XMM626 over HSIC\<close>

text \<open>
  \<open>devices/galaxys2/galaxys2.c\<close>, \<open>i9300/i9300.c\<close> and \<open>n7100/n7100.c\<close>. The three boot sequences differ in where the parts of the modem's software are and in how the modem is turned off and on;
  the rest is \<open>hsic_boot\<close>. The locale \<open>hsic_phone\<close> is what the common part needs of a phone; each phone is an interpretation of it.
\<close>

subsection \<open>The common boot sequence\<close>

definition link_switch :: "int \<Rightarrow> bool \<Rightarrow> modem_port \<Rightarrow> int \<times> modem_port" where
  "link_switch link_fd on = run_all [xmm626_sec_modem_link_control_enable link_fd on, xmm626_sec_modem_hci_power on,
     xmm626_sec_modem_link_control_active link_fd on]"

text \<open>The steps up to the firmware, and those after the modem's data.\<close>

type_synonym switch = "int \<Rightarrow> int \<Rightarrow> modem_port \<Rightarrow> int \<times> modem_port"

definition hsic_loaders :: "modem_layout \<Rightarrow> switch \<Rightarrow> switch \<Rightarrow> u8 list \<Rightarrow> int \<Rightarrow> int \<Rightarrow> modem_port \<Rightarrow> int \<times> modem_port" where
  "hsic_loaders layout off on img boot_fd link_fd s =
     ok_then (off boot_fd link_fd s) (\<lambda>s.
     ok_then (on boot_fd link_fd s) (\<lambda>s.
     ok_then (xmm626_sec_modem_link_connected_wait link_fd s) (\<lambda>s.
     ok_then (xmm626_hsic_psi_send boot_fd (image_part (layout_psi layout) img) s) (\<lambda>s.
     ok_then (xmm626_hsic_ebl_send boot_fd (image_part (layout_ebl layout) img) s) (\<lambda>s.
     ok_then (xmm626_hsic_port_config_send boot_fd s) (\<lambda>s.
     xmm626_hsic_sec_start_send boot_fd (image_part (layout_sec_start layout) img) s))))))"

definition boot_finish :: "int \<Rightarrow> int \<Rightarrow> modem_port \<Rightarrow> int \<times> modem_port" where
  "boot_finish boot_fd link_fd s =
     ok_then (xmm626_hsic_sec_end_send boot_fd s) (\<lambda>s.
     ok_then (xmm626_hsic_hw_reset_send boot_fd s) (\<lambda>s.
     let (_, s) = xmm626_sec_modem_link_get_hostwake_wait link_fd s in
     ok_then (link_switch link_fd False s) (\<lambda>s.
     ok_then (xmm626_sec_modem_link_get_hostwake_wait link_fd s) (\<lambda>s.
     ok_then (link_switch link_fd True s) (\<lambda>s.
     ok_then (xmm626_sec_modem_link_connected_wait link_fd s) (\<lambda>s. (0, s)))))))"

definition hsic_boot_steps :: "modem_layout \<Rightarrow> switch \<Rightarrow> switch \<Rightarrow> md5_fun \<Rightarrow> u8 list \<Rightarrow> int \<Rightarrow> int \<Rightarrow> boot_world \<Rightarrow> int \<times> boot_world" where
  "hsic_boot_steps layout off on md5 img boot_fd link_fd w =
     ok_then (on_port (hsic_loaders layout off on img boot_fd link_fd) w) (\<lambda>w.
     ok_then (on_port (xmm626_hsic_firmware_send boot_fd (image_part (layout_firmware layout) img)) w) (\<lambda>w.
     ok_then (xmm626_hsic_nv_data_send md5 boot_fd w) (\<lambda>w.
     on_port (boot_finish boot_fd link_fd) w)))"

text \<open>\<open>img\<close> is what mapping the modem's software into memory gives, the bytes of the partition, or \<open>None\<close> when it fails.\<close>

definition hsic_boot :: "modem_layout \<Rightarrow> switch \<Rightarrow> switch \<Rightarrow> md5_fun \<Rightarrow> u8 list option \<Rightarrow> boot_world \<Rightarrow> int \<times> boot_world" where
  "hsic_boot layout off on md5 img w =
     (let (image_fd, w) = boot_open (layout_device layout) w in
      if image_fd < 0 then (-1, w)
      else case img of
          None \<Rightarrow> (-1, boot_close image_fd w)
        | Some data \<Rightarrow>
            let (boot_fd, w) = boot_open ''/dev/umts_boot0'' w in
            if boot_fd < 0 then (-1, boot_close image_fd w)
            else
              let (link_fd, w) = boot_open ''/dev/link_pm'' w in
              if link_fd < 0 then (-1, boot_close boot_fd (boot_close image_fd w))
              else
                let (rc, w) = hsic_boot_steps layout off on md5 data boot_fd link_fd w in
                (if rc < 0 then -1 else 0, boot_close link_fd (boot_close boot_fd (boot_close image_fd w))))"

subsection \<open>Galaxy S II (galaxys2.c)\<close>

definition galaxys2_layout :: modem_layout where
  "galaxys2_layout = \<lparr>layout_device = ''/dev/block/mmcblk0p8'', layout_psi = (0, 0xF000), layout_ebl = (0xF000, 0x19000),
     layout_sec_start = (0x9FF800, 0x800), layout_firmware = (0x28000, 0x9D8000)\<rparr>"

definition galaxys2_switch :: "bool \<Rightarrow> switch" where
  "galaxys2_switch on boot_fd link_fd = run_all [xmm626_sec_modem_power boot_fd on, xmm626_sec_modem_link_control_enable link_fd on,
     xmm626_sec_modem_hci_power on, xmm626_sec_modem_link_control_active link_fd on]"

definition galaxys2_boot :: "md5_fun \<Rightarrow> u8 list option \<Rightarrow> boot_world \<Rightarrow> int \<times> boot_world" where
  "galaxys2_boot = hsic_boot galaxys2_layout (galaxys2_switch False) (galaxys2_switch True)"

definition galaxys2_open :: "int option \<Rightarrow> int \<Rightarrow> modem_port \<Rightarrow> (int \<times> int option) \<times> modem_port" where "galaxys2_open = transport_open"
definition galaxys2_close :: "int option \<Rightarrow> modem_port \<Rightarrow> (int \<times> int option) \<times> modem_port" where "galaxys2_close = transport_close"
definition galaxys2_read :: "int option \<Rightarrow> nat \<Rightarrow> modem_port \<Rightarrow> u8 list option \<times> modem_port" where "galaxys2_read = transport_read"
definition galaxys2_write :: "int option \<Rightarrow> u8 list \<Rightarrow> modem_port \<Rightarrow> int \<times> modem_port" where "galaxys2_write = transport_write"
definition galaxys2_poll :: "int option \<Rightarrow> int list \<Rightarrow> int \<Rightarrow> int list \<Rightarrow> modem_port \<Rightarrow> ((int \<times> int list \<times> nat) \<times> modem_port) option" where "galaxys2_poll = transport_poll"
definition galaxys2_power_off :: "modem_port \<Rightarrow> int \<times> modem_port" where "galaxys2_power_off = transport_power_off"
definition galaxys2_data_create :: "int \<times> int option" where "galaxys2_data_create = transport_data_create"
definition galaxys2_data_destroy :: "int option \<Rightarrow> int" where "galaxys2_data_destroy = transport_data_destroy"

definition galaxys2_nv_data_specs :: "ipc_client_nv_data_specs option" where
  "galaxys2_nv_data_specs = nv_specs ''/efs/nv_data.bin'' ''/efs/nv_data.bin.md5'' ''/efs/.nv_data.bak'' ''/efs/.nv_data.bak.md5'' ''Samsung_Android_RIL''
     0x200000 0x1000"

subsection \<open>Galaxy S III (i9300.c)\<close>

definition i9300_layout :: modem_layout where
  "i9300_layout = \<lparr>layout_device = ''/dev/block/mmcblk0p7'', layout_psi = (0x1000, 0xE000), layout_ebl = (0xF000, 0x19000),
     layout_sec_start = (0x9FF800, 0x800), layout_firmware = (0x28000, 0x9D7800)\<rparr>"

text \<open>The modem itself is not turned off before it is turned on.\<close>

definition i9300_switch :: "bool \<Rightarrow> switch" where
  "i9300_switch on boot_fd link_fd = (if on then run_all [xmm626_sec_modem_power boot_fd True, xmm626_sec_modem_hci_power True]
     else xmm626_sec_modem_hci_power False)"

definition i9300_boot :: "md5_fun \<Rightarrow> u8 list option \<Rightarrow> boot_world \<Rightarrow> int \<times> boot_world" where
  "i9300_boot = hsic_boot i9300_layout (i9300_switch False) (i9300_switch True)"

definition i9300_open :: "int option \<Rightarrow> int \<Rightarrow> modem_port \<Rightarrow> (int \<times> int option) \<times> modem_port" where "i9300_open = transport_open"
definition i9300_close :: "int option \<Rightarrow> modem_port \<Rightarrow> (int \<times> int option) \<times> modem_port" where "i9300_close = transport_close"
definition i9300_read :: "int option \<Rightarrow> nat \<Rightarrow> modem_port \<Rightarrow> u8 list option \<times> modem_port" where "i9300_read = transport_read"
definition i9300_write :: "int option \<Rightarrow> u8 list \<Rightarrow> modem_port \<Rightarrow> int \<times> modem_port" where "i9300_write = transport_write"
definition i9300_poll :: "int option \<Rightarrow> int list \<Rightarrow> int \<Rightarrow> int list \<Rightarrow> modem_port \<Rightarrow> ((int \<times> int list \<times> nat) \<times> modem_port) option" where "i9300_poll = transport_poll"
definition i9300_power_off :: "modem_port \<Rightarrow> int \<times> modem_port" where "i9300_power_off = transport_power_off"
definition i9300_data_create :: "int \<times> int option" where "i9300_data_create = transport_data_create"
definition i9300_data_destroy :: "int option \<Rightarrow> int" where "i9300_data_destroy = transport_data_destroy"

definition i9300_nv_data_specs :: "ipc_client_nv_data_specs option" where
  "i9300_nv_data_specs = galaxys2_nv_data_specs"

subsection \<open>Galaxy Note II (n7100.c)\<close>

definition n7100_layout :: modem_layout where
  "n7100_layout = i9300_layout\<lparr>layout_device := ''/dev/block/mmcblk0p10''\<rparr>"

definition n7100_boot :: "md5_fun \<Rightarrow> u8 list option \<Rightarrow> boot_world \<Rightarrow> int \<times> boot_world" where
  "n7100_boot = hsic_boot n7100_layout (i9300_switch False) (i9300_switch True)"

definition n7100_open :: "int option \<Rightarrow> int \<Rightarrow> modem_port \<Rightarrow> (int \<times> int option) \<times> modem_port" where "n7100_open = transport_open"
definition n7100_close :: "int option \<Rightarrow> modem_port \<Rightarrow> (int \<times> int option) \<times> modem_port" where "n7100_close = transport_close"
definition n7100_read :: "int option \<Rightarrow> nat \<Rightarrow> modem_port \<Rightarrow> u8 list option \<times> modem_port" where "n7100_read = transport_read"
definition n7100_write :: "int option \<Rightarrow> u8 list \<Rightarrow> modem_port \<Rightarrow> int \<times> modem_port" where "n7100_write = transport_write"
definition n7100_poll :: "int option \<Rightarrow> int list \<Rightarrow> int \<Rightarrow> int list \<Rightarrow> modem_port \<Rightarrow> ((int \<times> int list \<times> nat) \<times> modem_port) option" where "n7100_poll = transport_poll"
definition n7100_power_off :: "modem_port \<Rightarrow> int \<times> modem_port" where "n7100_power_off = transport_power_off"
definition n7100_data_create :: "int \<times> int option" where "n7100_data_create = transport_data_create"
definition n7100_data_destroy :: "int option \<Rightarrow> int" where "n7100_data_destroy = transport_data_destroy"

definition n7100_nv_data_specs :: "ipc_client_nv_data_specs option" where
  "n7100_nv_data_specs = galaxys2_nv_data_specs"

subsection \<open>What a phone promises\<close>

lemma extends_switch: "extends s (snd (link_switch fd b s))"
  unfolding link_switch_def by (rule extends_run_all) (auto simp: extends_link)

lemma answered_switch: "0 \<le> link_fd \<Longrightarrow> answered (link_switch link_fd b) []"
  unfolding link_switch_def by (rule answered_run_all) (simp add: answered_link)

lemma extends_finish: "extends s (snd (boot_finish boot_fd link_fd s))"
proof -
  have "extends u (snd (ok_then (link_switch link_fd False u) f))" if "\<And>u. extends u (snd (f u))" for u f
    using that by (simp add: extends_ok_then extends_switch)
  then have "extends u (snd (ok_then (link_switch link_fd False (snd (xmm626_sec_modem_link_get_hostwake_wait link_fd u))) f))"
    if "\<And>u. extends u (snd (f u))" for u f
    using that extends_trans [OF extends_link(5)] by blast
  then show ?thesis
    unfolding boot_finish_def split_beta by (simp add: extends_ok_then extends_switch extends_link)
qed

lemma answered_finish:
  assumes "0 \<le> fd" and "0 \<le> link_fd"
  shows "answered (boot_finish fd link_fd) (reply XMM626_COMMAND_SEC_END 0x4000)"
proof -
  define f where "f = (\<lambda>s. ok_then (link_switch link_fd False s) (\<lambda>s.
     ok_then (xmm626_sec_modem_link_get_hostwake_wait link_fd s) (\<lambda>s.
     ok_then (link_switch link_fd True s) (\<lambda>s.
     ok_then (xmm626_sec_modem_link_connected_wait link_fd s) (Pair 0)))))"
  have "answered f []"
    unfolding f_def using answered_skip [OF answered_switch [OF assms(2)] answered_skip [OF answered_link(6) [OF assms(2)]
      answered_skip [OF answered_switch [OF assms(2)] answered_skip [OF answered_link(5) [OF assms(2)] answered_return]]]] .
  then have "answered (\<lambda>s. let (_, s) = xmm626_sec_modem_link_get_hostwake_wait link_fd s in f s) []"
    using answered_link(6) [OF assms(2)] by (simp add: answered_def split_beta) blast
  then have "answered (\<lambda>s. ok_then (xmm626_hsic_sec_end_send fd s) (\<lambda>s. ok_then (xmm626_hsic_hw_reset_send fd s)
      (\<lambda>s. let (_, s) = xmm626_sec_modem_link_get_hostwake_wait link_fd s in f s))) (reply XMM626_COMMAND_SEC_END 0x4000)"
    using answered_then [OF answered_sends(2) [OF assms(1)] answered_skip [OF answered_sends(3) [OF assms(1)]]] by blast
  then show ?thesis
    unfolding boot_finish_def f_def .
qed

definition part_inside :: "nat \<times> nat \<Rightarrow> bool" where
  "part_inside part \<longleftrightarrow> 0 < snd part \<and> fst part < 0xA00000"

lemma image_part_nonempty: "part_inside part \<Longrightarrow> 0xA00000 \<le> length img \<Longrightarrow> image_part part img \<noteq> []"
  by (auto simp: part_inside_def image_part_def)

text \<open>What the modem sends while it is started.\<close>

definition hsic_answers :: "u8 list list" where
  "hsic_answers = psi_answers @ [bytes16 XMM626_HSIC_EBL_SIZE_ACK, bytes16 XMM626_HSIC_EBL_ACK] @
     (replicate 0x4C 0 # reply XMM626_COMMAND_SET_PORT_CONFIG 0x800) @ reply XMM626_COMMAND_SEC_START 0x4000"

definition hsic_boot_answers :: "u8 list list" where
  "hsic_boot_answers = hsic_answers @ reply XMM626_COMMAND_FLASH_SET_ADDRESS 0x4000 @ reply XMM626_COMMAND_FLASH_SET_ADDRESS 0x4000 @
     reply XMM626_COMMAND_SEC_END 0x4000"

locale hsic_phone =
  fixes layout :: modem_layout and off :: switch and on :: switch
  assumes switch_extends: "extends s (snd (off fd link_fd s))" "extends s (snd (on fd link_fd s))"
    and switch_answered: "0 \<le> fd \<Longrightarrow> 0 \<le> link_fd \<Longrightarrow> answered (off fd link_fd) []" "0 \<le> fd \<Longrightarrow> 0 \<le> link_fd \<Longrightarrow> answered (on fd link_fd) []"
    and parts: "part_inside (layout_psi layout)" "part_inside (layout_ebl layout)" "part_inside (layout_sec_start layout)" "part_inside (layout_firmware layout)"
    and sec_size: "snd (layout_sec_start layout) \<le> 0x4000"
begin

lemma loaders_extend: "extends s (snd (hsic_loaders layout off on img fd link_fd s))"
  unfolding hsic_loaders_def by (intro extends_ok_then) (simp_all add: switch_extends extends_link)

lemma loaders_answered:
  assumes "0 \<le> fd" and "0 \<le> link_fd" and "0xA00000 \<le> length img"
  shows "answered (hsic_loaders layout off on img fd link_fd) hsic_answers"
proof -
  have size: "length (image_part (layout_sec_start layout) img) \<le> 0x4000"
    using sec_size by (simp add: image_part_def)
  note part = image_part_nonempty [OF _ assms(3)]
  show ?thesis
    unfolding hsic_loaders_def hsic_answers_def
    using answered_skip [OF switch_answered(1) [OF assms(1,2)] answered_skip [OF switch_answered(2) [OF assms(1,2)]
      answered_skip [OF answered_link(5) [OF assms(2)] answered_ok_then [OF answered_psi_send [OF assms(1) part [OF parts(1)]]
      answered_ok_then [OF answered_ebl_send [OF assms(1) part [OF parts(2)]] answered_ok_then [OF answered_port_config [OF assms(1)]
      answered_sends(1) [OF assms(1) part [OF parts(3)] size]]]]]]] .
qed

lemma steps_delivered:
  assumes "hsic_boot_steps layout off on md5 img fd link_fd w = (rc, w')" and "0 \<le> rc" and "digest_ok md5"
    and "boot_specs w = nv_specs p m b bm sec sz c" and "distinct [p, m, b, bm]"
  shows "\<exists>pre fw nv post data. port_sent fd (boot_port w') = port_sent fd (boot_port w) @ pre @ fw @ nv @ post \<and>
    flash_image fw = Some (XMM626_FIRMWARE_ADDRESS, image_part (layout_firmware layout) img) \<and> flash_image nv = Some (XMM626_NV_DATA_ADDRESS, data) \<and>
    intact md5 sec sz p m (boot_files w') \<and> files (boot_files w') p = Some data"
proof -
  let ?fw = "image_part (layout_firmware layout) img"
  define s1 where "s1 = snd (hsic_loaders layout off on img fd link_fd (boot_port w))"
  obtain rc2 s2 where s2: "xmm626_hsic_modem_data_send fd ?fw XMM626_FIRMWARE_ADDRESS s1 = (rc2, s2)"
    by fastforce
  obtain r fs where load: "ipc_nv_data_load md5 (boot_specs w) (boot_files w) = (r, fs)"
    by fastforce
  obtain rc3 w3 where w3: "xmm626_hsic_nv_data_send md5 fd (w\<lparr>boot_port := s2\<rparr>) = (rc3, w3)"
    by fastforce
  have ok: "0 \<le> rc2" "0 \<le> rc3" and w': "w' = w3\<lparr>boot_port := snd (boot_finish fd link_fd (boot_port w3))\<rparr>"
    using assms(1,2) s2 w3
    by (auto simp: hsic_boot_steps_def xmm626_hsic_firmware_send_def on_port_parts ok_then_def s1_def [symmetric] split: if_splits)
  obtain data where data: "r = Some data"
    using ok(2) w3 load by (cases r) (auto simp: xmm626_hsic_nv_data_send_def split: if_splits)
  obtain rc4 s4 where s4: "xmm626_hsic_modem_data_send fd data XMM626_NV_DATA_ADDRESS s2 = (rc4, s4)"
    by fastforce
  have "0 \<le> rc4" and w3': "w3 = w\<lparr>boot_files := fs, boot_port := s4\<rparr>"
    using ok(2) w3 load data s4 by (simp_all add: xmm626_hsic_nv_data_send_def on_port_def ok_then_def Let_def split: if_splits)
  then have "\<exists>pre fw nv post. port_sent fd (snd (boot_finish fd link_fd s4)) = port_sent fd (boot_port w) @ pre @ fw @ nv @ post \<and>
      flash_image fw = Some (XMM626_FIRMWARE_ADDRESS, ?fw) \<and> flash_image nv = Some (XMM626_NV_DATA_ADDRESS, data) \<and>
      intact md5 sec sz p m fs \<and> files fs p = Some data"
    using hsic.software_delivered [of "boot_port w" s1 fd ?fw XMM626_FIRMWARE_ADDRESS rc2 s2 md5 p m b bm sec sz c "boot_files w" data fs
      XMM626_NV_DATA_ADDRESS rc4 s4 "snd (boot_finish fd link_fd s4)"]
      assms(3-5) ok(1) s2 s4 load data loaders_extend extends_finish by (simp add: s1_def)
  then show ?thesis
    by (auto simp: w' w3')
qed

lemma boot_delivered:
  assumes "hsic_boot layout off on md5 img w = (0, w')" and "digest_ok md5" and "boot_specs w = nv_specs p m b bm sec sz c" and "distinct [p, m, b, bm]"
  shows "\<exists>image_data fd pre fw nv post data. img = Some image_data \<and>
    port_sent fd (boot_port w') = port_sent fd (boot_port w) @ pre @ fw @ nv @ post \<and>
    flash_image fw = Some (XMM626_FIRMWARE_ADDRESS, image_part (layout_firmware layout) image_data) \<and> flash_image nv = Some (XMM626_NV_DATA_ADDRESS, data) \<and>
    intact md5 sec sz p m (boot_files w') \<and> files (boot_files w') p = Some data"
proof -
  define w3 where "w3 = snd (boot_open ''/dev/link_pm'' (snd (boot_open ''/dev/umts_boot0'' (snd (boot_open (layout_device layout) w)))))"
  have w3: "port_sent fd (boot_port w3) = port_sent fd (boot_port w)" "boot_specs w3 = boot_specs w" for fd
    by (simp_all add: w3_def boot_open_def on_port_parts)
  have close: "port_sent fd (boot_port (boot_close fd' u)) = port_sent fd (boot_port u)" "boot_files (boot_close fd' u) = boot_files u" for fd fd' u
    by (simp_all add: boot_close_def)
  obtain image_data fd link_fd rc w4 image_fd where steps: "img = Some image_data" "hsic_boot_steps layout off on md5 image_data fd link_fd w3 = (rc, w4)"
    "0 \<le> rc" and w': "w' = boot_close link_fd (boot_close fd (boot_close image_fd w4))"
    using assms(1)
    by (auto simp: hsic_boot_def Let_def split_beta w3_def split: if_splits option.splits) (metis linorder_not_less prod.collapse)
  then show ?thesis
    using steps_delivered [OF steps(2,3) assms(2) _ assms(4)] w3 assms(3) close by metis
qed

lemma steps_succeed:
  assumes "answers (boot_port w) hsic_boot_answers" and "0 \<le> fd" and "0 \<le> link_fd" and "0xA00000 \<le> length img"
    and "ipc_nv_data_load md5 (boot_specs w) (boot_files w) = (Some nv_data, fs)" and "nv_data \<noteq> []" and "ipc_client_nv_data_size (boot_specs w) \<noteq> 0"
  shows "fst (hsic_boot_steps layout off on md5 img fd link_fd w) = 0"
proof -
  let ?address = "reply XMM626_COMMAND_FLASH_SET_ADDRESS 0x4000" and ?last = "reply XMM626_COMMAND_SEC_END 0x4000"
  let ?fw = "image_part (layout_firmware layout) img"
  obtain s1 where s1: "hsic_loaders layout off on img fd link_fd (boot_port w) = (0, s1)" "answers s1 (?address @ ?address @ ?last)"
    using loaders_answered [OF assms(2-4)] assms(1) unfolding answered_def hsic_boot_answers_def by (metis prod.collapse)
  obtain s2 where s2: "xmm626_hsic_firmware_send fd ?fw s1 = (0, s2)" "answers s2 (?address @ ?last)"
    using answered_sends(4) [OF assms(2) image_part_nonempty [OF parts(4) assms(4)]] s1(2) unfolding answered_def by (metis prod.collapse)
  obtain s3 where s3: "xmm626_hsic_modem_data_send fd nv_data XMM626_NV_DATA_ADDRESS s2 = (0, s3)" "answers s3 ?last"
    using answered_modem_data [OF assms(2,6)] s2(2) unfolding answered_def by (metis prod.collapse)
  have "xmm626_hsic_nv_data_send md5 fd (w\<lparr>boot_port := s2\<rparr>) = (0, w\<lparr>boot_port := s3, boot_files := fs\<rparr>)"
    using assms(2,5,7) s3(1) by (simp add: xmm626_hsic_nv_data_send_def on_port_parts ok_then_def)
  moreover have "fst (boot_finish fd link_fd s3) = 0"
    using answered_finish [OF assms(2,3)] s3(2) unfolding answered_def by (metis append.right_neutral)
  ultimately show ?thesis
    using s1(1) s2(1) by (simp add: hsic_boot_steps_def on_port_parts ok_then_def)
qed

lemma boot_succeeds:
  assumes "answers (boot_port w) hsic_boot_answers" and "0xA00000 \<le> length img"
    and "ipc_nv_data_load md5 (boot_specs w) (boot_files w) = (Some nv_data, fs)" and "nv_data \<noteq> []" and "ipc_client_nv_data_size (boot_specs w) \<noteq> 0"
  shows "fst (hsic_boot layout off on md5 (Some img) w) = 0"
proof -
  have "answers (boot_port u) as \<Longrightarrow> boot_open path u = (0, u\<lparr>boot_port := port_emit (Port_opened path) (boot_port u)\<rparr>)" for path u as
    by (simp add: boot_open_def on_port_parts answers_call)
  then show ?thesis
    using steps_succeed [of _ 0 0 img md5 nv_data fs] assms by (simp add: hsic_boot_def Let_def split_beta)
qed

end

lemma galaxys2_switch_extends: "extends s (snd (galaxys2_switch b fd link_fd s))"
  unfolding galaxys2_switch_def by (rule extends_run_all) (auto simp: extends_link)

lemma galaxys2_switch_answered: "0 \<le> fd \<Longrightarrow> 0 \<le> link_fd \<Longrightarrow> answered (galaxys2_switch b fd link_fd) []"
  unfolding galaxys2_switch_def by (rule answered_run_all) (simp add: answered_link)

lemma i9300_switch_extends: "extends s (snd (i9300_switch b fd link_fd s))"
  unfolding i9300_switch_def by (cases b) (auto simp: extends_link intro!: extends_run_all)

lemma i9300_switch_answered: "0 \<le> fd \<Longrightarrow> 0 \<le> link_fd \<Longrightarrow> answered (i9300_switch b fd link_fd) []"
  unfolding i9300_switch_def by (cases b) (auto simp: answered_link intro!: answered_run_all)

interpretation galaxys2: hsic_phone galaxys2_layout "galaxys2_switch False" "galaxys2_switch True"
  by unfold_locales (simp_all add: galaxys2_switch_extends galaxys2_switch_answered galaxys2_layout_def part_inside_def)

interpretation i9300: hsic_phone i9300_layout "i9300_switch False" "i9300_switch True"
  by unfold_locales (simp_all add: i9300_switch_extends i9300_switch_answered i9300_layout_def part_inside_def)

interpretation n7100: hsic_phone n7100_layout "i9300_switch False" "i9300_switch True"
  by unfold_locales (simp_all add: i9300_switch_extends i9300_switch_answered n7100_layout_def i9300_layout_def part_inside_def)

subsection \<open>Properties\<close>

definition hsic_phones :: "((md5_fun \<Rightarrow> u8 list option \<Rightarrow> boot_world \<Rightarrow> int \<times> boot_world) \<times> modem_layout) list" where
  "hsic_phones = [(galaxys2_boot, galaxys2_layout), (i9300_boot, i9300_layout), (n7100_boot, n7100_layout)]"

text \<open>C8. A boot that reports success has delivered the phone's software: the modem was sent, on one descriptor and in this order, a transfer that puts the firmware of the image
  at its address and a transfer that puts the modem's data at its address, each command with a correct checksum, and the data are what the file holds and its digest confirms. This holds for
  each of the phones with HSIC.\<close>

theorem hsic_boot_delivers:
  assumes "(boot, layout) \<in> set hsic_phones" and "boot md5 img w = (0, w')" and "digest_ok md5" and "boot_specs w = nv_specs p m b bm sec sz c"
    and "distinct [p, m, b, bm]"
  shows "\<exists>image_data fd pre fw nv post data. img = Some image_data \<and>
    port_sent fd (boot_port w') = port_sent fd (boot_port w) @ pre @ fw @ nv @ post \<and>
    flash_image fw = Some (XMM626_FIRMWARE_ADDRESS, image_part (layout_firmware layout) image_data) \<and> flash_image nv = Some (XMM626_NV_DATA_ADDRESS, data) \<and>
    intact md5 sec sz p m (boot_files w') \<and> files (boot_files w') p = Some data"
  using assms galaxys2.boot_delivered i9300.boot_delivered n7100.boot_delivered
  unfolding hsic_phones_def galaxys2_boot_def i9300_boot_def n7100_boot_def by auto

lemma hsic_boot_completes:
  assumes "(boot, layout) \<in> set hsic_phones" and "answers (boot_port w) hsic_boot_answers" and "0xA00000 \<le> length img"
    and "ipc_nv_data_load md5 (boot_specs w) (boot_files w) = (Some nv_data, fs)" and "nv_data \<noteq> []" and "ipc_client_nv_data_size (boot_specs w) \<noteq> 0"
  shows "fst (boot md5 (Some img) w) = 0"
  using assms galaxys2.boot_succeeds [OF assms(2-6)] i9300.boot_succeeds [OF assms(2-6)] n7100.boot_succeeds [OF assms(2-6)]
  unfolding hsic_phones_def galaxys2_boot_def i9300_boot_def n7100_boot_def by auto

text \<open>C15. A modem that answers is started: when no system call fails, the modem acknowledges what the protocol has it acknowledge and the phone's data can be loaded, the boot
  succeeds, whatever the software and the data are, on each of the phones with HSIC.\<close>

theorem hsic_boot_succeeds:
  assumes "(boot, layout) \<in> set hsic_phones" and "answers (boot_port w) hsic_boot_answers" and "0xA00000 \<le> length img"
    and "ipc_nv_data_load md5 (boot_specs w) (boot_files w) = (Some nv_data, fs)" and "nv_data \<noteq> []" and "ipc_client_nv_data_size (boot_specs w) \<noteq> 0"
  shows "fst (boot md5 (Some img) w) = 0"
  using assms by (rule hsic_boot_completes)

subsection \<open>Witnesses\<close>

definition toy_boot :: boot_world where
  "toy_boot = \<lparr>boot_port = toy_port hsic_boot_answers, boot_files = toy_files\<lparr>files := (files toy_files)(''nv'' := None)\<rparr>, boot_specs = toy_specs\<rparr>"

lemma toy_boot_loads: "\<exists>fs. ipc_nv_data_load toy_md5 (boot_specs toy_boot) (boot_files toy_boot) = (Some [5, 6, 7, 8], fs)"
proof -
  have "\<not> intact toy_md5 ''x'' 4 ''nv'' ''nv.md5'' (boot_files toy_boot)" "intact toy_md5 ''x'' 4 ''bak'' ''bak.md5'' (boot_files toy_boot)"
    "no_faults (boot_files toy_boot)"
    using toy_facts by (simp_all add: intact_def toy_boot_def)
  moreover have "files (boot_files toy_boot) ''bak'' = Some [5, 6, 7, 8]"
    by (simp add: toy_boot_def toy_files_def)
  ultimately show ?thesis
    using nv_load_from_backup [OF toy_digest, of "boot_files toy_boot" "''nv''" "''nv.md5''" "''bak''" "''bak.md5''" 2 4 "''x''"]
    by (auto simp: toy_boot_def toy_specs_def)
qed

lemma toy_boot_answers: "answers (boot_port toy_boot) hsic_boot_answers" "boot_specs toy_boot = toy_specs"
  by (simp_all add: toy_boot_def toy_port_def answers_def)

lemma toy_phone: "(i9300_boot, i9300_layout) \<in> set hsic_phones"
  by (simp add: hsic_phones_def)

theorem hsic_boot_succeeds_witness: "fst (i9300_boot toy_md5 (Some (replicate 0xA00000 1)) toy_boot) = 0"
proof -
  obtain fs where "ipc_nv_data_load toy_md5 (boot_specs toy_boot) (boot_files toy_boot) = (Some [5, 6, 7, 8], fs)"
    using toy_boot_loads by blast
  then show ?thesis
    using hsic_boot_succeeds [OF toy_phone toy_boot_answers(1), of "replicate 0xA00000 1"] toy_boot_answers(2) by (simp add: toy_specs_def)
qed

theorem hsic_boot_delivers_witness:
  "\<exists>fd pre fw nv post data. port_sent fd (boot_port (snd (i9300_boot toy_md5 (Some (replicate 0xA00000 1)) toy_boot))) = pre @ fw @ nv @ post \<and>
    flash_image fw = Some (XMM626_FIRMWARE_ADDRESS, replicate 0x9D7800 1) \<and> flash_image nv = Some (XMM626_NV_DATA_ADDRESS, data)"
proof -
  let ?r = "i9300_boot toy_md5 (Some (replicate 0xA00000 1)) toy_boot"
  obtain fs where "ipc_nv_data_load toy_md5 (boot_specs toy_boot) (boot_files toy_boot) = (Some [5, 6, 7, 8], fs)"
    using toy_boot_loads by blast
  then have "fst ?r = 0"
    using hsic_boot_completes [OF toy_phone toy_boot_answers(1), of "replicate 0xA00000 1"] toy_boot_answers(2) by (simp add: toy_specs_def)
  then have "?r = (0, snd ?r)"
    by (simp add: prod_eq_iff)
  moreover have "port_sent fd (boot_port toy_boot) = []" for fd
    by (simp add: toy_boot_def toy_port_def port_sent_def)
  moreover have "image_part (layout_firmware i9300_layout) (replicate 0xA00000 1) = replicate 0x9D7800 1"
    by (simp add: image_part_def i9300_layout_def)
  ultimately obtain fd pre fw nv post data where "port_sent fd (boot_port (snd ?r)) = pre @ fw @ nv @ post"
    "flash_image fw = Some (XMM626_FIRMWARE_ADDRESS, replicate 0x9D7800 1)" "flash_image nv = Some (XMM626_NV_DATA_ADDRESS, data)"
    using hsic_boot_delivers [OF toy_phone _ toy_digest, of "Some (replicate 0xA00000 1)" toy_boot "snd ?r" "''nv''" "''nv.md5''" "''bak''" "''bak.md5''" "''x''" 4 2]
    by (auto simp: toy_boot_answers(2) toy_specs_def)
  then show ?thesis
    by blast
qed

end
