(* ===== verification/Xmm626_Mipi.thy ===== *)
theory Xmm626_Mipi
  imports Modem_Boot
begin

section \<open>libsamsung-ipc: starting an XMM626 modem over MIPI\<close>

text \<open>
  \<open>devices/xmm626/xmm626_mipi.c\<close>, the protocol by which the boot loaders, the firmware and the modem's data are sent over MIPI HSI. The modem answers a command with a length and that many bytes, which
  are read in words of four bytes; where a read would leave the buffer that was allocated for the answer, or the answer is shorter than the header that is read from it, the value is \<open>None\<close>.
  Memory is assumed to be available.
\<close>

subsection \<open>Acknowledgements\<close>

definition XMM626_MIPI_BOOT0_ACK :: u16 where "XMM626_MIPI_BOOT0_ACK = 0xFFFF"
definition XMM626_MIPI_BOOT1_MAGIC :: u16 where "XMM626_MIPI_BOOT1_MAGIC = 0x02"
definition XMM626_MIPI_BOOT1_ACK :: u16 where "XMM626_MIPI_BOOT1_ACK = 0xAA00"
definition XMM626_MIPI_PSI_ACK :: u16 where "XMM626_MIPI_PSI_ACK = 0xDD01"
definition XMM626_MIPI_EBL_SIZE_ACK :: u16 where "XMM626_MIPI_EBL_SIZE_ACK = 0xCCCC"
definition XMM626_MIPI_EBL_ACK :: u16 where "XMM626_MIPI_EBL_ACK = 0xA551"
definition XMM626_MIPI_EBL_CHUNK :: nat where "XMM626_MIPI_EBL_CHUNK = 0xDFC"
definition XMM626_MIPI_MODEM_DATA_CHUNK :: nat where "XMM626_MIPI_MODEM_DATA_CHUNK = 0xDF2"
definition XMM626_MIPI_COMMAND_HEADER_MAGIC :: u16 where "XMM626_MIPI_COMMAND_HEADER_MAGIC = 0x02"
definition XMM626_MIPI_COMMAND_FOOTER_MAGIC :: u16 where "XMM626_MIPI_COMMAND_FOOTER_MAGIC = 0x03"
definition XMM626_MIPI_COMMAND_FOOTER_UNKNOWN :: u16 where "XMM626_MIPI_COMMAND_FOOTER_UNKNOWN = 0xEAEA"

definition xmm626_mipi_crc_calculate :: "u8 list \<Rightarrow> u32" where
  "xmm626_mipi_crc_calculate data = push_bit 24 (ucast (xmm626_crc_calculate data)) OR 0xffffff"

fun mipi_ack_attempts :: "nat \<Rightarrow> u16 \<Rightarrow> modem_port \<Rightarrow> int \<times> modem_port" where
  "mipi_ack_attempts 0 ack s = (-1, s)"
| "mipi_ack_attempts (Suc n) ack s = (let (rc, s) = port_call 1 s in
     if rc \<le> 0 then (-1, s)
     else let (r, s) = port_read 4 s in (case r of
         Some [a, b, c, d] \<Rightarrow> if le32 a b c d AND 0xffff = ucast ack then (0, s) else mipi_ack_attempts n ack s
       | _ \<Rightarrow> mipi_ack_attempts n ack s))"

definition xmm626_mipi_ack_read :: "u16 \<Rightarrow> modem_port \<Rightarrow> int \<times> modem_port" where
  "xmm626_mipi_ack_read ack s = mipi_ack_attempts 50 ack s"

subsection \<open>The boot loaders\<close>

text \<open>The size has its bytes swapped.\<close>

definition mipi_psi_header_bytes :: "u16 \<Rightarrow> u8 list" where
  "mipi_psi_header_bytes psi_size = [0xFF] @ bytes16 ((drop_bit 8 psi_size AND 0xff) OR push_bit 8 (psi_size AND 0xff)) @ [0x30]"

definition xmm626_mipi_psi_send :: "int \<Rightarrow> u8 list \<Rightarrow> modem_port \<Rightarrow> int \<times> modem_port" where
  "xmm626_mipi_psi_send fd psi_data s = (if fd < 0 \<or> psi_data = [] then (-1, s)
     else ok_then (psi_at 51 fd s) (\<lambda>s.
       ok_then (xmm626_mipi_ack_read XMM626_MIPI_BOOT0_ACK s) (\<lambda>s.
       ok_then (write_once fd (mipi_psi_header_bytes (of_nat (length psi_data))) s) (\<lambda>s.
       ok_then (write_chunks (length psi_data) fd psi_data s) (\<lambda>s.
       ok_then (write_once fd (bytes32 (xmm626_mipi_crc_calculate psi_data)) s) (\<lambda>s.
       ok_then (xmm626_mipi_ack_read XMM626_MIPI_PSI_ACK s) (\<lambda>s. (0, s))))))))"

definition xmm626_mipi_ebl_send :: "int \<Rightarrow> u8 list \<Rightarrow> modem_port \<Rightarrow> int \<times> modem_port" where
  "xmm626_mipi_ebl_send fd ebl_data s = (if fd < 0 \<or> ebl_data = [] then (-1, s)
     else
       let boot_magic = bytes16 0 @ bytes16 0 @ bytes16 XMM626_MIPI_BOOT1_MAGIC @ bytes16 XMM626_MIPI_BOOT1_MAGIC; ebl_size = of_nat (length ebl_data) :: u32 in
       ok_then (write_once fd (bytes32 8) s) (\<lambda>s.
       ok_then (write_once fd boot_magic s) (\<lambda>s.
       ok_then (xmm626_mipi_ack_read XMM626_MIPI_BOOT1_ACK s) (\<lambda>s.
       ok_then (write_once fd (bytes32 4) s) (\<lambda>s.
       ok_then (write_once fd (bytes32 ebl_size) s) (\<lambda>s.
       ok_then (xmm626_mipi_ack_read XMM626_MIPI_EBL_SIZE_ACK s) (\<lambda>s.
       ok_then (write_once fd (bytes32 (ebl_size + 1)) s) (\<lambda>s.
       ok_then (write_chunks XMM626_MIPI_EBL_CHUNK fd ebl_data s) (\<lambda>s.
       ok_then (write_once fd [xmm626_crc_calculate ebl_data] s) (\<lambda>s.
       ok_then (xmm626_mipi_ack_read XMM626_MIPI_EBL_ACK s) (\<lambda>s. (0, s))))))))))))"

subsection \<open>Commands\<close>

definition mipi_command_bytes :: "u16 \<Rightarrow> u8 list \<Rightarrow> bool \<Rightarrow> u8 list" where
  "mipi_command_bytes code data short_footer =
     bytes32 (of_nat (length data + 10)) @ bytes16 XMM626_MIPI_COMMAND_HEADER_MAGIC @ bytes16 code @ bytes16 (of_nat (length data)) @
     data @ bytes16 (command_checksum code data) @ bytes16 XMM626_MIPI_COMMAND_FOOTER_MAGIC @
     (if short_footer then [] else bytes16 XMM626_MIPI_COMMAND_FOOTER_UNKNOWN)"

text \<open>The words of an answer are read into a buffer of \<open>len\<close> bytes, of which \<open>c\<close> are there.\<close>

function mipi_words :: "nat \<Rightarrow> nat \<Rightarrow> modem_port \<Rightarrow> (u8 list option \<times> modem_port) option" where
  "mipi_words c len s = (if len \<le> c then Some (Some [], s)
     else case port_call 1 s of (rc, s) \<Rightarrow>
       if rc \<le> 0 then Some (None, s)
       else case port_read 4 s of (r, s) \<Rightarrow>
         case r of
           None \<Rightarrow> Some (None, s)
         | Some bs \<Rightarrow>
             if c + length bs > len then None
             else if length bs < 4 then Some (None, s)
             else map_option (\<lambda>(rest, s). (map_option (\<lambda>rest. bs @ rest) rest, s)) (mipi_words (c + 4) len s))"
  by pat_completeness auto
termination
  by (relation "measure (\<lambda>(c, len, s). len - c)") auto

declare mipi_words.simps [simp del]

text \<open>The length that the modem announces, with the four bytes that hold it, and what is added when it is no multiple of four.\<close>

definition mipi_reply_length :: "u32 \<Rightarrow> u32" where
  "mipi_reply_length len = (let len = len + 4 in if len mod 4 \<noteq> 0 then len + len mod 4 else len)"

definition mipi_reply :: "u16 \<Rightarrow> modem_port \<Rightarrow> (int \<times> modem_port) option" where
  "mipi_reply code s =
     (case select_read 4 s of (r, s) \<Rightarrow>
      case r of
        Some [a, b, c, d] \<Rightarrow>
          if le32 a b c d = 0 then Some (-1, s)
          else
            let len = unat (mipi_reply_length (le32 a b c d)) in
            if len < 4 then Some (-1, s)
            else Option.bind (mipi_words 4 len s) (\<lambda>(r, s).
              case r of
                None \<Rightarrow> Some (-1, s)
              | Some bs \<Rightarrow> if length bs + 4 < 10 then None else Some (if take 2 (drop 2 bs) = bytes16 code then 0 else -1, s))
      | _ \<Rightarrow> Some (-1, s))"

definition xmm626_mipi_command_send :: "int \<Rightarrow> u16 \<Rightarrow> u8 list \<Rightarrow> bool \<Rightarrow> bool \<Rightarrow> modem_port \<Rightarrow> (int \<times> modem_port) option" where
  "xmm626_mipi_command_send fd code data ack short_footer s = (if fd < 0 \<or> data = [] then Some (-1, s)
     else ok_do (Some (write_once fd (mipi_command_bytes code data short_footer) s)) (\<lambda>s.
       if \<not> ack then Some (0, s) else mipi_reply code s))"

function mipi_blocks :: "int \<Rightarrow> u8 list \<Rightarrow> modem_port \<Rightarrow> (int \<times> modem_port) option" where
  "mipi_blocks fd data s = (if data = [] then Some (0, s)
     else
       let count = (if XMM626_MIPI_MODEM_DATA_CHUNK < length data then XMM626_MIPI_MODEM_DATA_CHUNK else length data) in
       ok_do (xmm626_mipi_command_send fd XMM626_COMMAND_FLASH_WRITE_BLOCK (take count data) True True s) (mipi_blocks fd (drop count data)))"
  by pat_completeness auto
termination
  by (relation "measure (\<lambda>(fd, data, s). length data)") (auto simp: XMM626_MIPI_MODEM_DATA_CHUNK_def)

declare mipi_blocks.simps [simp del]

definition xmm626_mipi_modem_data_send :: "int \<Rightarrow> u8 list \<Rightarrow> u32 \<Rightarrow> modem_port \<Rightarrow> (int \<times> modem_port) option" where
  "xmm626_mipi_modem_data_send fd data address s = (if fd < 0 \<or> data = [] then Some (-1, s)
     else ok_do (xmm626_mipi_command_send fd XMM626_COMMAND_FLASH_SET_ADDRESS (bytes32 address) True False s) (mipi_blocks fd data))"

text \<open>The port configuration is read in words, the last of which may be shorter.\<close>

function mipi_config_words :: "nat \<Rightarrow> modem_port \<Rightarrow> u8 list option \<times> modem_port" where
  "mipi_config_words n s = (if n = 0 then (Some [], s)
     else case select_read (if 4 < n then 4 else n) s of (r, s) \<Rightarrow>
       case r of
         None \<Rightarrow> (None, s)
       | Some bs \<Rightarrow> case mipi_config_words (n - (if 4 < n then 4 else n)) s of (rest, s) \<Rightarrow> (map_option (\<lambda>rest. bs @ rest) rest, s))"
  by pat_completeness auto
termination
  by (relation "measure (\<lambda>(n, s). n)") auto

declare mipi_config_words.simps [simp del]

definition xmm626_mipi_port_config_send :: "int \<Rightarrow> modem_port \<Rightarrow> (int \<times> modem_port) option" where
  "xmm626_mipi_port_config_send fd s = (if fd < 0 then Some (-1, s)
     else case select_read 4 s of (r, s) \<Rightarrow>
       case r of
         Some [a, b, c, d] \<Rightarrow>
           if le32 a b c d = 0 then Some (-1, s)
           else case mipi_config_words (unat (le32 a b c d)) s of (r, s) \<Rightarrow>
             (case r of
                None \<Rightarrow> Some (-1, s)
              | Some buffer \<Rightarrow> ok_do (xmm626_mipi_command_send fd XMM626_COMMAND_SET_PORT_CONFIG buffer True False s) (\<lambda>s. Some (0, s)))
       | _ \<Rightarrow> Some (-1, s))"

definition xmm626_mipi_sec_start_send :: "int \<Rightarrow> u8 list \<Rightarrow> modem_port \<Rightarrow> (int \<times> modem_port) option" where
  "xmm626_mipi_sec_start_send fd sec_data s = (if fd < 0 \<or> sec_data = [] then Some (-1, s)
     else ok_do (xmm626_mipi_command_send fd XMM626_COMMAND_SEC_START sec_data True False s) (\<lambda>s. Some (0, s)))"

definition xmm626_mipi_sec_end_send :: "int \<Rightarrow> modem_port \<Rightarrow> (int \<times> modem_port) option" where
  "xmm626_mipi_sec_end_send fd s = (if fd < 0 then Some (-1, s)
     else ok_do (xmm626_mipi_command_send fd XMM626_COMMAND_SEC_END (bytes16 0) True True s) (\<lambda>s. Some (0, s)))"

definition xmm626_mipi_firmware_send :: "int \<Rightarrow> u8 list \<Rightarrow> modem_port \<Rightarrow> (int \<times> modem_port) option" where
  "xmm626_mipi_firmware_send fd firmware_data s = (if fd < 0 \<or> firmware_data = [] then Some (-1, s)
     else ok_do (xmm626_mipi_modem_data_send fd firmware_data XMM626_FIRMWARE_ADDRESS s) (\<lambda>s. Some (0, s)))"

definition on_port_do :: "(modem_port \<Rightarrow> (int \<times> modem_port) option) \<Rightarrow> boot_world \<Rightarrow> (int \<times> boot_world) option" where
  "on_port_do f w = map_option (\<lambda>(rc, s). (rc, w\<lparr>boot_port := s\<rparr>)) (f (boot_port w))"

definition xmm626_mipi_nv_data_send :: "md5_fun \<Rightarrow> int \<Rightarrow> boot_world \<Rightarrow> (int \<times> boot_world) option" where
  "xmm626_mipi_nv_data_send md5 fd w = (if fd < 0 then Some (-1, w)
     else if ipc_client_nv_data_size (boot_specs w) = 0 then Some (-1, w)
     else
       let (r, fs) = ipc_nv_data_load md5 (boot_specs w) (boot_files w); w = w\<lparr>boot_files := fs\<rparr> in
       case r of None \<Rightarrow> Some (-1, w) | Some nv_data \<Rightarrow>
         ok_do (on_port_do (xmm626_mipi_modem_data_send fd nv_data XMM626_NV_DATA_ADDRESS) w) (\<lambda>w. Some (0, w)))"

definition xmm626_mipi_mps_data_send :: "int \<Rightarrow> u8 list \<Rightarrow> modem_port \<Rightarrow> (int \<times> modem_port) option" where
  "xmm626_mipi_mps_data_send fd mps_data s = (if fd < 0 \<or> mps_data = [] then Some (-1, s)
     else ok_do (xmm626_mipi_modem_data_send fd mps_data XMM626_MPS_DATA_ADDRESS s) (\<lambda>s. Some (0, s)))"

definition xmm626_mipi_hw_reset_send :: "int \<Rightarrow> modem_port \<Rightarrow> (int \<times> modem_port) option" where
  "xmm626_mipi_hw_reset_send fd s = (if fd < 0 then Some (-1, s)
     else ok_do (xmm626_mipi_command_send fd XMM626_COMMAND_HW_RESET (bytes32 0x111001) False True s) (\<lambda>s. Some (0, s)))"

subsection \<open>What the modem receives\<close>

fun mipi_parse :: "bool \<Rightarrow> u8 list \<Rightarrow> (u16 \<times> u8 list \<times> u8 list) option" where
  "mipi_parse short_footer (a # b # c # d # m # m' # e # f # g # h # bs) =
     (let code = le16 e f; n = unat (le32 a b c d) - 10; data = take n bs; footer = drop n bs in
      if le16 m m' = XMM626_MIPI_COMMAND_HEADER_MAGIC \<and> le16 g h = of_nat n \<and> n \<le> length bs \<and>
         take (if short_footer then 4 else 6) footer = bytes16 (command_checksum code data) @ bytes16 XMM626_MIPI_COMMAND_FOOTER_MAGIC @
           (if short_footer then [] else bytes16 XMM626_MIPI_COMMAND_FOOTER_UNKNOWN)
      then Some (code, data, drop (if short_footer then 4 else 6) footer) else None)"
| "mipi_parse _ _ = None"

lemma mipi_parse_shorter: "mipi_parse short_footer bs = Some (code, data, rest) \<Longrightarrow> length rest < length bs"
  by (cases "(short_footer, bs)" rule: mipi_parse.cases) (auto simp: Let_def split: if_splits)

function mipi_data :: "u8 list \<Rightarrow> u8 list option" where
  "mipi_data bs = (if bs = [] then Some []
     else case mipi_parse True bs of
         None \<Rightarrow> None
       | Some (code, data, rest) \<Rightarrow>
           if code = XMM626_COMMAND_FLASH_WRITE_BLOCK then map_option (\<lambda>d. data @ d) (mipi_data rest) else None)"
  by pat_completeness auto
termination
  by (relation "measure length") (auto dest: mipi_parse_shorter)

declare mipi_data.simps [simp del]

definition mipi_image :: "u8 list \<Rightarrow> (u32 \<times> u8 list) option" where
  "mipi_image bs = (case mipi_parse False bs of
      Some (code, [a, b, c, d], rest) \<Rightarrow>
        if code = XMM626_COMMAND_FLASH_SET_ADDRESS then map_option (\<lambda>data. (le32 a b c d, data)) (mipi_data rest) else None
    | _ \<Rightarrow> None)"

subsection \<open>Deliveries\<close>

lemma mipi_parse_bytes:
  assumes "length data + 10 < 2 ^ 32"
  shows "mipi_parse short_footer (mipi_command_bytes code data short_footer @ rest) = Some (code, data, rest)"
proof -
  have "unat (of_nat (length data + 10) :: u32) = length data + 10"
    unfolding unat_of_nat using assms by (simp add: take_bit_nat_eq_self)
  then show ?thesis
    by (simp add: mipi_command_bytes_def bytes16_def bytes32_def Let_def del: of_nat_add)
qed

text \<open>Reading an answer sends nothing.\<close>

lemma mipi_words_sent: "mipi_words c len s = Some (r, t) \<Longrightarrow> port_sent fd t = port_sent fd s"
proof (induction c len s arbitrary: r t rule: mipi_words.induct)
  case (1 c len s)
  obtain rc u where u: "port_call 1 s = (rc, u)"
    by fastforce
  obtain q v where v: "port_read 4 u = (q, v)"
    by fastforce
  have "port_sent fd v = port_sent fd s"
    using port_sent_call [of fd 1 s] port_read_sent [of fd 4 u] u v by simp
  moreover have "port_sent fd u = port_sent fd s"
    using port_sent_call [of fd 1 s] u by simp
  ultimately show ?case
    using 1(2) 1(1) [OF _ u [symmetric] _ v [symmetric]]
    by (auto simp: mipi_words.simps [of c len s] u v split: if_splits option.splits)
qed

lemma mipi_reply_sent:
  assumes "mipi_reply code s = Some (rc, t)"
  shows "port_sent fd t = port_sent fd s"
proof -
  obtain r u where u: "select_read 4 s = (r, u)"
    by fastforce
  have "port_sent fd u = port_sent fd s"
    using select_read_sent [of fd 4 s] u by simp
  moreover have "t = u \<or> (\<exists>len q. mipi_words 4 len u = Some (q, t))"
    using assms by (auto simp: mipi_reply_def u Let_def bind_eq_Some_conv split: if_splits option.splits list.splits)
  ultimately show ?thesis
    using mipi_words_sent by metis
qed

lemma mipi_reply_result: "mipi_reply code s = Some (rc, t) \<Longrightarrow> rc = 0 \<or> rc = -1"
  by (auto simp: mipi_reply_def Let_def bind_eq_Some_conv split: if_splits option.splits list.splits prod.splits)

lemma mipi_command_sent:
  assumes "xmm626_mipi_command_send fd code data ack short_footer s = Some (rc, t)" and "0 \<le> rc"
  shows "port_sent fd t = port_sent fd s @ mipi_command_bytes code data short_footer" and "rc = 0"
proof -
  obtain q u where u: "write_once fd (mipi_command_bytes code data short_footer) s = (q, u)"
    by fastforce
  have "q = 0" and rest: "ack \<Longrightarrow> mipi_reply code u = Some (rc, t)" "\<not> ack \<Longrightarrow> rc = 0 \<and> t = u"
    using assms u by (auto simp: xmm626_mipi_command_send_def ok_do_def write_once_def split_beta split: if_splits)
  have "port_sent fd t = port_sent fd u" "rc = 0"
    using rest mipi_reply_sent mipi_reply_result assms(2) by (cases ack; force)+
  then show "port_sent fd t = port_sent fd s @ mipi_command_bytes code data short_footer" and "rc = 0"
    using write_once_sent [OF u [unfolded \<open>q = 0\<close>]] by simp_all
qed

lemma mipi_data_block:
  assumes "length data + 10 < 2 ^ 32"
  shows "mipi_data (mipi_command_bytes XMM626_COMMAND_FLASH_WRITE_BLOCK data True @ rest) = map_option (\<lambda>d. data @ d) (mipi_data rest)"
proof -
  have "mipi_command_bytes c data b \<noteq> []" for c b
    by (simp add: mipi_command_bytes_def bytes32_def)
  then show ?thesis
    using mipi_parse_bytes [OF assms, of True XMM626_COMMAND_FLASH_WRITE_BLOCK rest] by (subst mipi_data.simps) simp
qed

lemma mipi_blocks_sent:
  assumes "mipi_blocks fd data s = Some (rc, t)" and "0 \<le> rc"
  shows "\<exists>bs. port_sent fd t = port_sent fd s @ bs \<and> mipi_data bs = Some data"
  using assms
proof (induction fd data s rule: mipi_blocks.induct)
  case (1 fd data s)
  show ?case
  proof (cases "data = []")
    case True
    then show ?thesis
      using 1(2) by (auto simp: mipi_blocks.simps mipi_data.simps)
  next
    case False
    define n where "n = (if XMM626_MIPI_MODEM_DATA_CHUNK < length data then XMM626_MIPI_MODEM_DATA_CHUNK else length data)"
    have "length (take n data) + 10 < 2 ^ 32"
      by (simp add: n_def XMM626_MIPI_MODEM_DATA_CHUNK_def)
    note block = mipi_data_block [OF this]
    obtain q u where u: "xmm626_mipi_command_send fd XMM626_COMMAND_FLASH_WRITE_BLOCK (take n data) True True s = Some (q, u)" "0 \<le> q"
      and rest: "mipi_blocks fd (drop n data) u = Some (rc, t)"
      using 1(2,3) False unfolding mipi_blocks.simps [of fd data s] Let_def n_def [symmetric]
      by (auto simp: ok_do_def bind_eq_Some_conv split: if_splits)
    obtain bs where "port_sent fd t = port_sent fd u @ bs" "mipi_data bs = Some (drop n data)"
      using 1(1) [OF False n_def rest 1(3)] by blast
    then show ?thesis
      using mipi_command_sent(1) [OF u] block [of bs] by auto
  qed
qed

lemma mipi_modem_data_sent:
  assumes "xmm626_mipi_modem_data_send fd data address s = Some (rc, t)" and "0 \<le> rc"
  shows "\<exists>bs. port_sent fd t = port_sent fd s @ bs \<and> mipi_image bs = Some (address, data)"
proof -
  obtain q u where u: "xmm626_mipi_command_send fd XMM626_COMMAND_FLASH_SET_ADDRESS (bytes32 address) True False s = Some (q, u)" "0 \<le> q"
    and rest: "mipi_blocks fd data u = Some (rc, t)"
    using assms by (auto simp: xmm626_mipi_modem_data_send_def ok_do_def bind_eq_Some_conv split: if_splits)
  obtain bs where "port_sent fd t = port_sent fd u @ bs" "mipi_data bs = Some data"
    using mipi_blocks_sent [OF rest assms(2)] by blast
  then show ?thesis
    using mipi_command_sent(1) [OF u] mipi_parse_bytes [of "bytes32 address" False XMM626_COMMAND_FLASH_SET_ADDRESS bs]
    by (auto simp: mipi_image_def bytes32_def)
qed

interpretation mipi: modem_transfer xmm626_mipi_modem_data_send mipi_image
  by unfold_locales (rule mipi_modem_data_sent)

subsection \<open>Nothing is taken back\<close>

definition extends_do :: "(modem_port \<Rightarrow> (int \<times> modem_port) option) \<Rightarrow> bool" where
  "extends_do f \<longleftrightarrow> (\<forall>s rc t. f s = Some (rc, t) \<longrightarrow> extends s t)"

lemma extends_doD: "extends_do f \<Longrightarrow> f s = Some (rc, t) \<Longrightarrow> extends s t"
  by (auto simp: extends_do_def)

lemma extends_do_some [intro]: "(\<And>s. extends s (snd (f s))) \<Longrightarrow> extends_do (\<lambda>s. Some (f s))"
  unfolding extends_do_def by (metis option.inject snd_conv)

lemma extends_ok_do [intro]: "extends_do f \<Longrightarrow> extends_do g \<Longrightarrow> extends_do (\<lambda>s. ok_do (f s) g)"
  unfolding extends_do_def ok_do_def by (auto simp: bind_eq_Some_conv split: if_splits) (blast intro: extends_trans)

lemma extends_do_if [intro]: "extends_do f \<Longrightarrow> extends_do (\<lambda>s. if b then Some (-1, s) else f s)"
  by (auto simp: extends_do_def)

lemma extends_mipi_ack [simp]: "extends s (snd (xmm626_mipi_ack_read ack s))"
proof -
  have "extends s (snd (mipi_ack_attempts n ack s))" for n
  proof (induction n arbitrary: s)
    case (Suc n)
    let ?t = "snd (port_call 1 s)"
    have "extends s (snd (mipi_ack_attempts n ack (snd (port_read 4 ?t))))" "extends s (snd (port_read 4 ?t))"
      by (auto intro: extends_trans [OF _ Suc])
    then show ?case
      by (simp add: Let_def split_beta split: option.split list.split)
  qed simp
  then show ?thesis
    by (simp add: xmm626_mipi_ack_read_def)
qed

lemma extends_mipi_psi_send: "extends s (snd (xmm626_mipi_psi_send fd data s))"
  unfolding xmm626_mipi_psi_send_def by (simp, intro impI extends_ok_then) simp_all

lemma extends_mipi_ebl_send: "extends s (snd (xmm626_mipi_ebl_send fd data s))"
  unfolding xmm626_mipi_ebl_send_def Let_def by (simp, intro impI extends_ok_then) simp_all

lemma extends_mipi_reply: "extends_do (mipi_reply code)"
  unfolding extends_do_def extends_def using mipi_reply_sent by (metis append_Nil2)

lemma extends_mipi_command: "extends_do (xmm626_mipi_command_send fd code data ack short_footer)"
proof -
  have "extends_do (\<lambda>s. if \<not> ack then Some (0, s) else mipi_reply code s)"
    using extends_mipi_reply [of code] by (cases ack) (auto simp: extends_do_def)
  then show ?thesis
    unfolding xmm626_mipi_command_send_def by (intro extends_do_if extends_ok_do extends_do_some) simp
qed

lemma extends_mipi_blocks: "extends_do (mipi_blocks fd data)"
proof (induction "length data" arbitrary: data rule: less_induct)
  case less
  define n where "n = (if XMM626_MIPI_MODEM_DATA_CHUNK < length data then XMM626_MIPI_MODEM_DATA_CHUNK else length data)"
  show ?case
  proof (cases "data = []")
    case True
    then show ?thesis
      by (simp add: extends_do_def mipi_blocks.simps)
  next
    case False
    then have "extends_do (mipi_blocks fd (drop n data))"
      by (intro less) (simp add: n_def XMM626_MIPI_MODEM_DATA_CHUNK_def)
    with False show ?thesis
      unfolding mipi_blocks.simps [of fd data] Let_def n_def [symmetric] by (auto intro: extends_mipi_command)
  qed
qed

lemma extends_mipi_modem_data: "extends_do (xmm626_mipi_modem_data_send fd data address)"
  unfolding xmm626_mipi_modem_data_send_def by (intro extends_do_if extends_ok_do extends_mipi_command extends_mipi_blocks)

lemma extends_mipi_config: "extends_do (xmm626_mipi_port_config_send fd)"
proof -
  have words: "port_sent x (snd (mipi_config_words n s)) = port_sent x s" for x n s
  proof (induction n s rule: mipi_config_words.induct)
    case (1 n s)
    let ?k = "if 4 < n then 4 else n"
    obtain r u where u: "select_read ?k s = (r, u)"
      by fastforce
    have "port_sent x u = port_sent x s"
      using select_read_sent [of x ?k s] u by simp
    then show ?case
      using 1 [OF _ u [symmetric]] by (cases r) (auto simp: mipi_config_words.simps [of n s] u split_beta)
  qed
  have "extends s u" if "mipi_config_words n t = (r, u)" "select_read 4 s = (q, t)" for s t u n r q
    using words [of _ n t] select_read_sent [of _ 4 s] that by (simp add: extends_def)
  moreover have "extends s t" if "select_read 4 s = (q, t)" for s t q
    using select_read_sent [of _ 4 s] that by (simp add: extends_def)
  moreover have "extends_do (\<lambda>s. ok_do (xmm626_mipi_command_send fd XMM626_COMMAND_SET_PORT_CONFIG bs True False s) (\<lambda>s. Some (0, s)))" for bs
    by (intro extends_ok_do extends_mipi_command extends_do_some) simp
  ultimately show ?thesis
    unfolding extends_do_def xmm626_mipi_port_config_send_def
    by (auto split: if_splits option.splits list.splits prod.splits) (meson extends_trans)+
qed

lemma extends_mipi_sends:
  "extends_do (xmm626_mipi_sec_start_send fd data)" "extends_do (xmm626_mipi_sec_end_send fd)" "extends_do (xmm626_mipi_hw_reset_send fd)"
  "extends_do (xmm626_mipi_firmware_send fd data)" "extends_do (xmm626_mipi_mps_data_send fd data)"
  unfolding xmm626_mipi_sec_start_send_def xmm626_mipi_sec_end_send_def xmm626_mipi_hw_reset_send_def xmm626_mipi_firmware_send_def xmm626_mipi_mps_data_send_def
  by (intro extends_do_if extends_ok_do extends_mipi_command extends_mipi_modem_data extends_do_some; simp)+

subsection \<open>A modem that answers\<close>

definition answered_do :: "(modem_port \<Rightarrow> (int \<times> modem_port) option) \<Rightarrow> u8 list list \<Rightarrow> bool" where
  "answered_do f pieces \<longleftrightarrow> (\<forall>s rest. answers s (pieces @ rest) \<longrightarrow> (\<exists>t. f s = Some (0, t) \<and> answers t rest))"

lemma answered_doE:
  assumes "answered_do f as" and "answers s (as @ rest)"
  obtains t where "f s = Some (0, t)" and "answers t rest"
  using assms unfolding answered_do_def by blast

lemma answered_ok_do: "answered_do f as \<Longrightarrow> answered_do g bs \<Longrightarrow> answered_do (\<lambda>s. ok_do (f s) g) (as @ bs)"
  unfolding answered_do_def ok_do_def append.assoc by fastforce

lemma answered_do_some: "answered f as \<Longrightarrow> answered_do (\<lambda>s. Some (f s)) as"
  unfolding answered_def answered_do_def by (metis prod.collapse)

lemma answered_do_return: "answered_do (\<lambda>s. Some (0, s)) []"
  by (simp add: answered_do_def)

lemma answered_do_then: "answered_do f as \<Longrightarrow> answered_do g [] \<Longrightarrow> answered_do (\<lambda>s. ok_do (f s) g) as"
  using answered_ok_do [of f as g "[]"] by simp

lemma answered_do_skip: "answered_do f [] \<Longrightarrow> answered_do g bs \<Longrightarrow> answered_do (\<lambda>s. ok_do (f s) g) bs"
  using answered_ok_do [of f "[]" g bs] by simp

lemma answered_do_if: "\<not> b \<Longrightarrow> answered_do f as \<Longrightarrow> answered_do (\<lambda>s. if b then Some (-1, s) else f s) as"
  by simp

lemma le32_low: "le32 a b 0 0 AND 0xffff = ucast (le16 a b)"
proof (rule bit_eqI)
  fix n
  have "bit (0xffff :: u32) n \<longleftrightarrow> n < 32 \<and> n < 16"
    using bit_mask_iff [of 16 n, where 'a = u32] by (simp add: mask_eq_exp_minus_1)
  then show "bit (le32 a b 0 0 AND 0xffff) n \<longleftrightarrow> bit (ucast (le16 a b) :: u32) n"
    by (auto simp: le32_def le16_def bit_and_iff bit_or_iff bit_push_bit_iff bit_ucast_iff)
qed

lemma answered_mipi_ack: "answered (xmm626_mipi_ack_read ack) [bytes16 ack @ [0, 0]]"
proof -
  have "answered (mipi_ack_attempts (Suc n) ack) [bytes16 ack @ [0, 0]]" for n
    by (simp add: answered_def answers_def port_read_def bytes16_def le32_low)
  from this [of 49] show ?thesis
    unfolding xmm626_mipi_ack_read_def by simp
qed

definition mipi_answer :: "u16 \<Rightarrow> u8 list list" where
  "mipi_answer code = [bytes32 8, bytes16 XMM626_MIPI_COMMAND_HEADER_MAGIC @ bytes16 code, [0, 0, 0, 0]]"

lemma answered_mipi_reply: "answered_do (mipi_reply code) (mipi_answer code)"
  unfolding answered_do_def
proof (intro allI impI)
  fix s rest
  assume a: "answers s (mipi_answer code @ rest)"
  then obtain t where t: "select_read 4 s = (Some (bytes32 8), t)"
    "answers t ((bytes16 XMM626_MIPI_COMMAND_HEADER_MAGIC @ bytes16 code) # [0, 0, 0, 0] # rest)"
    using select_read_answered [of s "bytes32 8" _ 4] by (auto simp: mipi_answer_def bytes32_def)
  have "unat (mipi_reply_length 8) = 12" "le32 8 0 0 0 = 8"
    by (simp_all add: mipi_reply_length_def le32_def)
  then show "\<exists>t. mipi_reply code s = Some (0, t) \<and> answers t rest"
    using t by (simp add: mipi_reply_def bytes32_def mipi_words.simps answers_def port_read_def bytes16_def)
qed

lemma answered_mipi_command:
  assumes "0 \<le> fd" and "data \<noteq> []"
  shows "answered_do (xmm626_mipi_command_send fd code data False short_footer) []"
    and "answered_do (xmm626_mipi_command_send fd code data True short_footer) (mipi_answer code)"
proof -
  have send: "xmm626_mipi_command_send fd code data ack short_footer =
      (\<lambda>s. ok_do (Some (write_once fd (mipi_command_bytes code data short_footer) s)) (\<lambda>s. if \<not> ack then Some (0, s) else mipi_reply code s))" for ack
    using assms by (intro ext) (simp add: xmm626_mipi_command_send_def)
  note first = answered_do_some [OF answered_write_once]
  show "answered_do (xmm626_mipi_command_send fd code data False short_footer) []"
    unfolding send using answered_do_skip [OF first answered_do_return] by simp
  show "answered_do (xmm626_mipi_command_send fd code data True short_footer) (mipi_answer code)"
    unfolding send using answered_do_skip [OF first answered_mipi_reply] by simp
qed

function mipi_block_answers :: "nat \<Rightarrow> u8 list list" where
  "mipi_block_answers n = (if n = 0 then [] else mipi_answer XMM626_COMMAND_FLASH_WRITE_BLOCK @ mipi_block_answers (n - XMM626_MIPI_MODEM_DATA_CHUNK))"
  by pat_completeness auto
termination
  by (relation "measure id") (auto simp: XMM626_MIPI_MODEM_DATA_CHUNK_def)

declare mipi_block_answers.simps [simp del]

lemma answered_mipi_blocks: "0 \<le> fd \<Longrightarrow> answered_do (mipi_blocks fd data) (mipi_block_answers (length data))"
proof (induction "length data" arbitrary: data rule: less_induct)
  case less
  show ?case
  proof (cases "data = []")
    case True
    then show ?thesis
      by (simp add: answered_do_def mipi_blocks.simps mipi_block_answers.simps)
  next
    case False
    define n where "n = (if XMM626_MIPI_MODEM_DATA_CHUNK < length data then XMM626_MIPI_MODEM_DATA_CHUNK else length data)"
    have n: "0 < n" "take n data \<noteq> []" "length data - n = length data - XMM626_MIPI_MODEM_DATA_CHUNK"
      using False by (auto simp: n_def XMM626_MIPI_MODEM_DATA_CHUNK_def)
    have "answered_do (mipi_blocks fd (drop n data)) (mipi_block_answers (length data - XMM626_MIPI_MODEM_DATA_CHUNK))"
      using less(1) [of "drop n data"] less(2) n(1) False by (simp add: n(3) [symmetric])
    then show ?thesis
      using answered_ok_do [OF answered_mipi_command(2) [OF less(2) n(2)]] False
      unfolding mipi_blocks.simps [of fd data] mipi_block_answers.simps [of "length data"] Let_def n_def [symmetric] by simp
  qed
qed

definition mipi_data_answers :: "u8 list \<Rightarrow> u8 list list" where
  "mipi_data_answers data = mipi_answer XMM626_COMMAND_FLASH_SET_ADDRESS @ mipi_block_answers (length data)"

lemma answered_mipi_modem_data:
  assumes "0 \<le> fd" and "data \<noteq> []"
  shows "answered_do (xmm626_mipi_modem_data_send fd data address) (mipi_data_answers data)"
proof -
  have "bytes32 address \<noteq> []"
    by (simp add: bytes32_def)
  then show ?thesis
    unfolding xmm626_mipi_modem_data_send_def mipi_data_answers_def using assms
    by (intro answered_do_if answered_ok_do answered_mipi_command(2) answered_mipi_blocks) auto
qed

lemma answered_mipi_psi_send:
  assumes "0 \<le> fd" and "psi_data \<noteq> []"
  shows "answered (xmm626_mipi_psi_send fd psi_data) ([bytes16 XMM626_MIPI_BOOT0_ACK @ [0, 0]] @ [bytes16 XMM626_MIPI_PSI_ACK @ [0, 0]])"
proof -
  have send: "xmm626_mipi_psi_send fd psi_data = (\<lambda>s. ok_then (psi_at 51 fd s) (\<lambda>s.
       ok_then (xmm626_mipi_ack_read XMM626_MIPI_BOOT0_ACK s) (\<lambda>s.
       ok_then (write_once fd (mipi_psi_header_bytes (of_nat (length psi_data))) s) (\<lambda>s.
       ok_then (write_chunks (length psi_data) fd psi_data s) (\<lambda>s.
       ok_then (write_once fd (bytes32 (xmm626_mipi_crc_calculate psi_data)) s) (\<lambda>s.
       ok_then (xmm626_mipi_ack_read XMM626_MIPI_PSI_ACK s) (Pair 0)))))))"
    using assms by (intro ext) (simp add: xmm626_mipi_psi_send_def)
  show ?thesis
    unfolding send using assms(2)
    by (intro answered_skip [OF answered_psi_at] answered_ok_then [OF answered_mipi_ack] answered_skip [OF answered_write_once] answered_skip [OF answered_chunks]
      answered_then [OF answered_mipi_ack] answered_return) simp
qed

definition mipi_ebl_answers :: "u8 list list" where
  "mipi_ebl_answers = [bytes16 XMM626_MIPI_BOOT1_ACK @ [0, 0]] @ [bytes16 XMM626_MIPI_EBL_SIZE_ACK @ [0, 0]] @ [bytes16 XMM626_MIPI_EBL_ACK @ [0, 0]]"

lemma answered_mipi_ebl_send:
  assumes "0 \<le> fd" and "ebl_data \<noteq> []"
  shows "answered (xmm626_mipi_ebl_send fd ebl_data) mipi_ebl_answers"
proof -
  have send: "xmm626_mipi_ebl_send fd ebl_data = (\<lambda>s.
       ok_then (write_once fd (bytes32 8) s) (\<lambda>s.
       ok_then (write_once fd (bytes16 0 @ bytes16 0 @ bytes16 XMM626_MIPI_BOOT1_MAGIC @ bytes16 XMM626_MIPI_BOOT1_MAGIC) s) (\<lambda>s.
       ok_then (xmm626_mipi_ack_read XMM626_MIPI_BOOT1_ACK s) (\<lambda>s.
       ok_then (write_once fd (bytes32 4) s) (\<lambda>s.
       ok_then (write_once fd (bytes32 (of_nat (length ebl_data))) s) (\<lambda>s.
       ok_then (xmm626_mipi_ack_read XMM626_MIPI_EBL_SIZE_ACK s) (\<lambda>s.
       ok_then (write_once fd (bytes32 (of_nat (length ebl_data) + 1)) s) (\<lambda>s.
       ok_then (write_chunks XMM626_MIPI_EBL_CHUNK fd ebl_data s) (\<lambda>s.
       ok_then (write_once fd [xmm626_crc_calculate ebl_data] s) (\<lambda>s.
       ok_then (xmm626_mipi_ack_read XMM626_MIPI_EBL_ACK s) (Pair 0)))))))))))"
    using assms by (intro ext) (simp add: xmm626_mipi_ebl_send_def Let_def)
  show ?thesis
    unfolding send mipi_ebl_answers_def
    by (intro answered_skip [OF answered_write_once] answered_ok_then [OF answered_mipi_ack] answered_skip [OF answered_chunks]
      answered_then [OF answered_mipi_ack] answered_return) (simp add: XMM626_MIPI_EBL_CHUNK_def)
qed

definition mipi_config_answers :: "u8 list list" where
  "mipi_config_answers = [bytes32 4, [0, 0, 0, 0]] @ mipi_answer XMM626_COMMAND_SET_PORT_CONFIG"

lemma answered_mipi_config:
  assumes "0 \<le> fd"
  shows "answered_do (xmm626_mipi_port_config_send fd) mipi_config_answers"
  unfolding answered_do_def
proof (intro allI impI)
  fix s rest
  let ?send = "\<lambda>s. ok_do (xmm626_mipi_command_send fd XMM626_COMMAND_SET_PORT_CONFIG [0, 0, 0, 0] True False s) (\<lambda>s. Some (0, s))"
  assume a: "answers s (mipi_config_answers @ rest)"
  then obtain t where t: "select_read 4 s = (Some (bytes32 4), t)" "answers t ([0, 0, 0, 0] # mipi_answer XMM626_COMMAND_SET_PORT_CONFIG @ rest)"
    using select_read_answered [of s "bytes32 4" _ 4] by (auto simp: mipi_config_answers_def bytes32_def)
  then obtain u where u: "select_read 4 t = (Some [0, 0, 0, 0], u)" "answers u (mipi_answer XMM626_COMMAND_SET_PORT_CONFIG @ rest)"
    using select_read_answered [of t "[0, 0, 0, 0]" _ 4] by auto
  have "answered_do ?send (mipi_answer XMM626_COMMAND_SET_PORT_CONFIG)"
    by (intro answered_do_then answered_mipi_command(2) answered_do_return assms) simp
  then obtain v where v: "?send u = Some (0, v)" "answers v rest"
    using u(2) by (rule answered_doE)
  have "le32 4 0 0 0 = 4"
    by (simp add: le32_def)
  then show "\<exists>t. xmm626_mipi_port_config_send fd s = Some (0, t) \<and> answers t rest"
    using assms t(1) u(1) v by (simp add: xmm626_mipi_port_config_send_def bytes32_def mipi_config_words.simps)
qed

lemma answered_mipi_sends:
  "0 \<le> fd \<Longrightarrow> sec_data \<noteq> [] \<Longrightarrow> answered_do (xmm626_mipi_sec_start_send fd sec_data) (mipi_answer XMM626_COMMAND_SEC_START)"
  "0 \<le> fd \<Longrightarrow> answered_do (xmm626_mipi_sec_end_send fd) (mipi_answer XMM626_COMMAND_SEC_END)"
  "0 \<le> fd \<Longrightarrow> answered_do (xmm626_mipi_hw_reset_send fd) []"
  "0 \<le> fd \<Longrightarrow> data \<noteq> [] \<Longrightarrow> answered_do (xmm626_mipi_firmware_send fd data) (mipi_data_answers data)"
  "0 \<le> fd \<Longrightarrow> data \<noteq> [] \<Longrightarrow> answered_do (xmm626_mipi_mps_data_send fd data) (mipi_data_answers data)"
  unfolding xmm626_mipi_sec_start_send_def xmm626_mipi_sec_end_send_def xmm626_mipi_hw_reset_send_def xmm626_mipi_firmware_send_def xmm626_mipi_mps_data_send_def
  by (intro answered_do_if answered_do_then answered_mipi_command answered_mipi_modem_data answered_do_return; simp add: bytes16_def bytes32_def)+

subsection \<open>Answers of an odd length\<close>

lemma mipi_words_overflow:
  assumes "port_calls s = []" and "port_reads s = words @ rest" and "\<forall>w \<in> set words. length w = 4" and "c mod 4 = 0" and "len mod 4 = 2" and "c < len"
    and "len \<le> c + 4 * length words"
  shows "mipi_words c len s = None"
  using assms
proof (induction words arbitrary: c s)
  case (Cons w words)
  let ?t = "s\<lparr>port_reads := words @ rest\<rparr>"
  have read: "port_call 1 s = (1, s)" "port_read 4 s = (Some w, ?t)"
    using Cons(2-4) by (simp_all add: port_read_def)
  show ?case
  proof (cases "c + 4 > len")
    case True
    then show ?thesis
      using read Cons(4,7) by (simp add: mipi_words.simps [of c len s])
  next
    case False
    then have "c + 4 < len"
      using Cons(5,6) by presburger
    then have "mipi_words (c + 4) len ?t = None"
      using Cons(2-8) by (intro Cons(1)) (auto simp: mod_add_self2)
    then show ?thesis
      using read Cons(4,7) False by (simp add: mipi_words.simps [of c len s])
  qed
qed simp

lemma mipi_reply_length_odd:
  assumes "n + 8 < 2 ^ 32" and "n mod 4 = 1 \<or> n mod 4 = 3"
  shows "unat (mipi_reply_length (of_nat n)) = n + 4 + n mod 4"
proof -
  define x :: u32 where "x = of_nat (n + 4)"
  have x: "unat x = n + 4"
    unfolding x_def unat_of_nat using assms(1) by (simp add: take_bit_nat_eq_self)
  have "unat (x mod 4) = n mod 4"
    by (simp add: unat_mod_distrib x)
  then have "x mod 4 = of_nat (n mod 4)"
    by (metis of_nat_unat ucast_id)
  then have sum: "x + x mod 4 = of_nat (n + 4 + n mod 4)" and "x mod 4 \<noteq> 0"
    using \<open>unat (x mod 4) = n mod 4\<close> assms(2) by (auto simp: x_def)
  moreover have "mipi_reply_length (of_nat n) = (if x mod 4 \<noteq> 0 then x + x mod 4 else x)"
    by (simp add: mipi_reply_length_def x_def Let_def)
  moreover have "unat (of_nat (n + 4 + n mod 4) :: u32) = n + 4 + n mod 4"
    unfolding unat_of_nat using assms by (auto simp: take_bit_nat_eq_self)
  ultimately show ?thesis
    by simp
qed

text \<open>An answer whose announced length is odd overflows the buffer: the length is rounded by adding its remainder instead of what is missing to a multiple of four, so for a remainder of one or
  three the last word of the answer is read past the end of the memory that was allocated.\<close>

theorem mipi_reply_overflow:
  assumes "0 \<le> fd" and "data \<noteq> []" and "answers s (bytes32 (of_nat n) # words @ rest)" and "n + 8 < 2 ^ 32" and "n mod 4 = 1 \<or> n mod 4 = 3"
    and "\<forall>w \<in> set words. length w = 4" and "n + 3 \<le> 4 * length words"
  shows "xmm626_mipi_command_send fd code data True short_footer s = None"
proof -
  let ?len = "n + 4 + n mod 4" and ?bytes = "mipi_command_bytes code data short_footer"
  obtain t where t: "write_once fd ?bytes s = (0, t)" "answers t (bytes32 (of_nat n) # words @ rest)"
    using answered_write_once [of fd ?bytes] assms(3) unfolding answered_def by (metis append_Nil prod.collapse)
  obtain u where u: "select_read 4 t = (Some (bytes32 (of_nat n)), u)" "answers u (words @ rest)"
    using select_read_answered [OF t(2), of 4] by (auto simp: bytes32_def)
  have "?len mod 4 = 2"
    using assms(5) by presburger
  then have "mipi_words 4 ?len u = None"
    using u(2) assms(5-7) by (intro mipi_words_overflow [of _ words rest]) (auto simp: answers_def)
  moreover have "of_nat n \<noteq> (0 :: u32)"
  proof
    assume "of_nat n = (0 :: u32)"
    then have "unat (of_nat n :: u32) = 0"
      by simp
    then show False
      using assms(4,5) unfolding unat_of_nat by (auto simp: take_bit_nat_eq_self)
  qed
  ultimately have "mipi_reply code t = None"
    using u(1) mipi_reply_length_odd [OF assms(4,5)] by (simp add: mipi_reply_def bytes32_def)
  then show ?thesis
    using assms(1,2) t(1) by (simp add: xmm626_mipi_command_send_def ok_do_def)
qed

theorem mipi_reply_overflow_witness:
  "xmm626_mipi_command_send 3 XMM626_COMMAND_SEC_END [0, 0] True True (toy_port [[5, 0, 0, 0], [2, 0, 5, 2], [2, 0, 0, 0]]) = None"
  using mipi_reply_overflow [of 3 "[0, 0]" "toy_port [[5, 0, 0, 0], [2, 0, 5, 2], [2, 0, 0, 0]]" 5 "[[2, 0, 5, 2], [2, 0, 0, 0]]" "[]"
    XMM626_COMMAND_SEC_END True]
  by (simp add: answers_def toy_port_def bytes32_def)

end
