(* ===== verification/Dev_Mipi.thy ===== *)
theory Dev_Mipi
  imports Xmm626_Mipi
begin

section \<open>libsamsung-ipc: phones with an XMM626 over MIPI\<close>

text \<open>
  \<open>devices/maguro/maguro.c\<close> and \<open>piranha/piranha.c\<close>. The boot sequences share \<open>mipi_boot\<close>; the first one also sends the data of a further file and waits for the modem at the end.
  The locale \<open>mipi_phone\<close> is what the common part needs of a phone; each phone is an interpretation of it.
\<close>

subsection \<open>The common boot sequence\<close>

text \<open>The steps up to the first boot loader, those up to the firmware, and those after the modem's data.\<close>

definition mipi_start :: "modem_layout \<Rightarrow> u8 list \<Rightarrow> int \<Rightarrow> modem_port \<Rightarrow> int \<times> modem_port" where
  "mipi_start layout img boot_fd s =
     ok_then (xmm626_sec_modem_power boot_fd False s) (\<lambda>s.
     ok_then (xmm626_sec_modem_power boot_fd True s) (\<lambda>s.
     xmm626_mipi_psi_send boot_fd (image_part (layout_psi layout) img) s))"

definition mipi_loaders :: "modem_layout \<Rightarrow> u8 list \<Rightarrow> int \<Rightarrow> modem_port \<Rightarrow> (int \<times> modem_port) option" where
  "mipi_loaders layout img boot_fd s =
     ok_do (Some (xmm626_mipi_ebl_send boot_fd (image_part (layout_ebl layout) img) s)) (\<lambda>s.
     ok_do (xmm626_mipi_port_config_send boot_fd s) (\<lambda>s.
     xmm626_mipi_sec_start_send boot_fd (image_part (layout_sec_start layout) img) s))"

definition mipi_finish :: "(int \<Rightarrow> modem_port \<Rightarrow> int \<times> modem_port) \<Rightarrow> int \<Rightarrow> modem_port \<Rightarrow> (int \<times> modem_port) option" where
  "mipi_finish online boot_fd s =
     ok_do (xmm626_mipi_sec_end_send boot_fd s) (\<lambda>s.
     ok_do (xmm626_mipi_hw_reset_send boot_fd s) (\<lambda>s. Some (online boot_fd s)))"

type_synonym further = "int \<Rightarrow> boot_world \<Rightarrow> (int \<times> boot_world) option"

definition mipi_boot_steps :: "modem_layout \<Rightarrow> further \<Rightarrow> (int \<Rightarrow> modem_port \<Rightarrow> int \<times> modem_port) \<Rightarrow> md5_fun \<Rightarrow> u8 list \<Rightarrow> int \<Rightarrow> boot_world \<Rightarrow>
    (int \<times> boot_world) option" where
  "mipi_boot_steps layout further online md5 img boot_fd w =
     ok_do (on_port_do (mipi_loaders layout img boot_fd) w) (\<lambda>w.
     ok_do (on_port_do (xmm626_mipi_firmware_send boot_fd (image_part (layout_firmware layout) img)) w) (\<lambda>w.
     ok_do (xmm626_mipi_nv_data_send md5 boot_fd w) (\<lambda>w.
     ok_do (further boot_fd w) (\<lambda>w.
     on_port_do (mipi_finish online boot_fd) w))))"

definition mipi_boot :: "modem_layout \<Rightarrow> further \<Rightarrow> (int \<Rightarrow> modem_port \<Rightarrow> int \<times> modem_port) \<Rightarrow> md5_fun \<Rightarrow> u8 list option \<Rightarrow> boot_world \<Rightarrow>
    (int \<times> boot_world) option" where
  "mipi_boot layout further online md5 img w =
     (let (image_fd, w) = boot_open (layout_device layout) w in
      if image_fd < 0 then Some (-1, w)
      else case img of
          None \<Rightarrow> Some (-1, boot_close image_fd w)
        | Some data \<Rightarrow>
            let (boot_fd, w) = boot_open ''/dev/umts_boot0'' w in
            if boot_fd < 0 then Some (-1, boot_close image_fd w)
            else
              let (rc, w) = on_port (mipi_start layout data boot_fd) w in
              if rc < 0 then Some (-1, boot_close boot_fd (boot_close image_fd w))
              else
                let (boot_fd, w) = boot_open ''/dev/umts_boot1'' (boot_close boot_fd w) in
                if boot_fd < 0 then Some (-1, boot_close image_fd w)
                else map_option (\<lambda>(rc, w). (if rc < 0 then -1 else 0, boot_close boot_fd (boot_close image_fd w)))
                  (mipi_boot_steps layout further online md5 data boot_fd w))"

subsection \<open>Galaxy Nexus (maguro.c)\<close>

definition maguro_layout :: modem_layout where
  "maguro_layout = \<lparr>layout_device = ''/dev/block/platform/omap/omap_hsmmc.0/by-name/radio'', layout_psi = (0, 0xF000), layout_ebl = (0xF000, 0x19000),
     layout_sec_start = (0x9FF800, 0x800), layout_firmware = (0x28000, 0x9D8000)\<rparr>"

text \<open>The data of the file with the MPS code are sent to an address of their own.\<close>

definition maguro_further :: further where
  "maguro_further boot_fd w =
     (let (r, fs) = file_data_read (Some ''/factory/imei/mps_code.dat'') 3 3 0 (boot_files w); w = w\<lparr>boot_files := fs\<rparr> in
      case r of None \<Rightarrow> Some (-1, w) | Some mps_data \<Rightarrow> on_port_do (xmm626_mipi_mps_data_send boot_fd mps_data) w)"

definition maguro_online :: "int \<Rightarrow> modem_port \<Rightarrow> int \<times> modem_port" where
  "maguro_online boot_fd s = ok_then (xmm626_sec_modem_status_online_wait boot_fd s) (xmm626_sec_modem_boot_power boot_fd False)"

definition maguro_boot :: "md5_fun \<Rightarrow> u8 list option \<Rightarrow> boot_world \<Rightarrow> (int \<times> boot_world) option" where
  "maguro_boot = mipi_boot maguro_layout maguro_further maguro_online"

definition maguro_open :: "int option \<Rightarrow> int \<Rightarrow> modem_port \<Rightarrow> (int \<times> int option) \<times> modem_port" where "maguro_open = transport_open"
definition maguro_close :: "int option \<Rightarrow> modem_port \<Rightarrow> (int \<times> int option) \<times> modem_port" where "maguro_close = transport_close"
definition maguro_read :: "int option \<Rightarrow> nat \<Rightarrow> modem_port \<Rightarrow> u8 list option \<times> modem_port" where "maguro_read = transport_read"
definition maguro_write :: "int option \<Rightarrow> u8 list \<Rightarrow> modem_port \<Rightarrow> int \<times> modem_port" where "maguro_write = transport_write"
definition maguro_poll :: "int option \<Rightarrow> int list \<Rightarrow> int \<Rightarrow> int list \<Rightarrow> modem_port \<Rightarrow> ((int \<times> int list \<times> nat) \<times> modem_port) option" where "maguro_poll = transport_poll"
definition maguro_power_off :: "modem_port \<Rightarrow> int \<times> modem_port" where "maguro_power_off = transport_power_off"
definition maguro_data_create :: "int \<times> int option" where "maguro_data_create = transport_data_create"
definition maguro_data_destroy :: "int option \<Rightarrow> int" where "maguro_data_destroy = transport_data_destroy"

definition maguro_nv_data_specs :: "ipc_client_nv_data_specs option" where
  "maguro_nv_data_specs = nv_specs ''/factory/nv_data.bin'' ''/factory/nv_data.bin.md5'' ''/factory/.nv_data.bak'' ''/factory/.nv_data.bak.md5'' ''Samsung_Android_RIL''
     0x200000 0x1000"

subsection \<open>Galaxy Tab 2 (piranha.c)\<close>

definition piranha_layout :: modem_layout where
  "piranha_layout = \<lparr>layout_device = ''/dev/block/mmcblk0p8'', layout_psi = (0x1000, 0xE000), layout_ebl = (0xF000, 0x19000),
     layout_sec_start = (0x9FF800, 0x800), layout_firmware = (0x28000, 0x9D7800)\<rparr>"

definition piranha_boot :: "md5_fun \<Rightarrow> u8 list option \<Rightarrow> boot_world \<Rightarrow> (int \<times> boot_world) option" where
  "piranha_boot = mipi_boot piranha_layout (\<lambda>boot_fd w. Some (0, w)) (\<lambda>boot_fd s. (0, s))"

definition piranha_open :: "int option \<Rightarrow> int \<Rightarrow> modem_port \<Rightarrow> (int \<times> int option) \<times> modem_port" where "piranha_open = transport_open"
definition piranha_close :: "int option \<Rightarrow> modem_port \<Rightarrow> (int \<times> int option) \<times> modem_port" where "piranha_close = transport_close"
definition piranha_read :: "int option \<Rightarrow> nat \<Rightarrow> modem_port \<Rightarrow> u8 list option \<times> modem_port" where "piranha_read = transport_read"
definition piranha_write :: "int option \<Rightarrow> u8 list \<Rightarrow> modem_port \<Rightarrow> int \<times> modem_port" where "piranha_write = transport_write"
definition piranha_poll :: "int option \<Rightarrow> int list \<Rightarrow> int \<Rightarrow> int list \<Rightarrow> modem_port \<Rightarrow> ((int \<times> int list \<times> nat) \<times> modem_port) option" where "piranha_poll = transport_poll"
definition piranha_power_off :: "modem_port \<Rightarrow> int \<times> modem_port" where "piranha_power_off = transport_power_off"
definition piranha_data_create :: "int \<times> int option" where "piranha_data_create = transport_data_create"
definition piranha_data_destroy :: "int option \<Rightarrow> int" where "piranha_data_destroy = transport_data_destroy"

definition piranha_nv_data_specs :: "ipc_client_nv_data_specs option" where
  "piranha_nv_data_specs = nv_specs ''/efs/nv_data.bin'' ''/efs/nv_data.bin.md5'' ''/efs/.nv_data.bak'' ''/efs/.nv_data.bak.md5'' ''Samsung_Android_RIL''
     0x200000 0x1000"

subsection \<open>What a phone promises\<close>

lemma extends_start: "extends s (snd (mipi_start layout img fd s))"
  unfolding mipi_start_def by (intro extends_ok_then) (simp_all add: extends_link extends_mipi_psi_send)

lemma extends_loaders: "extends_do (mipi_loaders layout img fd)"
  unfolding mipi_loaders_def
  by (intro extends_ok_do extends_do_some extends_mipi_config extends_mipi_sends) (simp add: extends_mipi_ebl_send)

lemma on_port_do_Some: "on_port_do f w = Some (rc, w') \<longleftrightarrow> (\<exists>s. f (boot_port w) = Some (rc, s) \<and> w' = w\<lparr>boot_port := s\<rparr>)"
  by (auto simp: on_port_do_def)

lemma mipi_part_nonempty: "snd part \<noteq> 0 \<Longrightarrow> fst part < 0xA00000 \<Longrightarrow> 0xA00000 \<le> length img \<Longrightarrow> image_part part img \<noteq> []"
  by (auto simp: image_part_def)

definition mipi_start_answers :: "u8 list list" where
  "mipi_start_answers = [bytes16 XMM626_MIPI_BOOT0_ACK @ [0, 0]] @ [bytes16 XMM626_MIPI_PSI_ACK @ [0, 0]]"

definition mipi_loader_answers :: "u8 list list" where
  "mipi_loader_answers = mipi_ebl_answers @ mipi_config_answers @ mipi_answer XMM626_COMMAND_SEC_START"

locale mipi_phone =
  fixes layout :: modem_layout and further :: further and online :: "int \<Rightarrow> modem_port \<Rightarrow> int \<times> modem_port"
    and ready :: "file_world \<Rightarrow> bool" and pieces :: "u8 list list"
  assumes further_keeps: "further fd w = Some (rc, w') \<Longrightarrow> extends (boot_port w) (boot_port w') \<and> files (boot_files w') = files (boot_files w)"
    and online_extends: "extends s (snd (online fd s))"
    and further_answered: "0 \<le> fd \<Longrightarrow> ready (boot_files w) \<Longrightarrow> answers (boot_port w) (pieces @ rest) \<Longrightarrow>
      \<exists>w'. further fd w = Some (0, w') \<and> answers (boot_port w') rest"
    and online_answered: "0 \<le> fd \<Longrightarrow> answered (online fd) []"
    and parts: "snd (layout_psi layout) \<noteq> 0" "fst (layout_psi layout) < 0xA00000" "snd (layout_ebl layout) \<noteq> 0" "fst (layout_ebl layout) < 0xA00000"
      "snd (layout_sec_start layout) \<noteq> 0" "fst (layout_sec_start layout) < 0xA00000" "snd (layout_firmware layout) \<noteq> 0" "fst (layout_firmware layout) < 0xA00000"
begin

lemma finish_extends: "extends_do (mipi_finish online fd)"
  unfolding mipi_finish_def by (intro extends_ok_do extends_mipi_sends extends_do_some) (rule online_extends)

lemma steps_delivered:
  assumes "mipi_boot_steps layout further online md5 img fd w = Some (rc, w')" and "0 \<le> rc" and "digest_ok md5"
    and "boot_specs w = nv_specs p m b bm sec sz c" and "distinct [p, m, b, bm]"
  shows "\<exists>pre fw nv post data. port_sent fd (boot_port w') = port_sent fd (boot_port w) @ pre @ fw @ nv @ post \<and>
    mipi_image fw = Some (XMM626_FIRMWARE_ADDRESS, image_part (layout_firmware layout) img) \<and> mipi_image nv = Some (XMM626_NV_DATA_ADDRESS, data) \<and>
    intact md5 sec sz p m (boot_files w') \<and> files (boot_files w') p = Some data"
proof -
  let ?fw = "image_part (layout_firmware layout) img"
  obtain q1 w1 where w1: "on_port_do (mipi_loaders layout img fd) w = Some (q1, w1)" "0 \<le> q1"
    and k1: "ok_do (on_port_do (xmm626_mipi_firmware_send fd ?fw) w1) (\<lambda>w. ok_do (xmm626_mipi_nv_data_send md5 fd w) (\<lambda>w.
      ok_do (further fd w) (\<lambda>w. on_port_do (mipi_finish online fd) w))) = Some (rc, w')"
    using ok_do_Some [OF assms(1) [unfolded mipi_boot_steps_def] assms(2)] by blast
  obtain q2 w2 where w2: "on_port_do (xmm626_mipi_firmware_send fd ?fw) w1 = Some (q2, w2)" "0 \<le> q2"
    and k2: "ok_do (xmm626_mipi_nv_data_send md5 fd w2) (\<lambda>w. ok_do (further fd w) (\<lambda>w. on_port_do (mipi_finish online fd) w)) = Some (rc, w')"
    using ok_do_Some [OF k1 assms(2)] by blast
  obtain q3 w3 where w3: "xmm626_mipi_nv_data_send md5 fd w2 = Some (q3, w3)" "0 \<le> q3"
    and k3: "ok_do (further fd w3) (\<lambda>w. on_port_do (mipi_finish online fd) w) = Some (rc, w')"
    using ok_do_Some [OF k2 assms(2)] by blast
  obtain q4 w4 where w4: "further fd w3 = Some (q4, w4)" and k4: "on_port_do (mipi_finish online fd) w4 = Some (rc, w')"
    using ok_do_Some [OF k3 assms(2)] by blast
  obtain s1 where s1: "mipi_loaders layout img fd (boot_port w) = Some (q1, s1)" "w1 = w\<lparr>boot_port := s1\<rparr>"
    using w1(1) by (auto simp: on_port_do_Some)
  obtain q2' s2 where s2: "xmm626_mipi_modem_data_send fd ?fw XMM626_FIRMWARE_ADDRESS s1 = Some (q2', s2)" "0 \<le> q2'" "w2 = w\<lparr>boot_port := s2\<rparr>"
    using w2 s1(2) by (auto simp: on_port_do_Some xmm626_mipi_firmware_send_def ok_do_def bind_eq_Some_conv split: if_splits)
  obtain r fs where load: "ipc_nv_data_load md5 (boot_specs w) (boot_files w) = (r, fs)"
    by fastforce
  obtain data where data: "r = Some data"
    using w3 load s2(3) by (cases r) (auto simp: xmm626_mipi_nv_data_send_def Let_def split: if_splits)
  obtain q3' s3 where s3: "xmm626_mipi_modem_data_send fd data XMM626_NV_DATA_ADDRESS s2 = Some (q3', s3)" "0 \<le> q3'"
    "boot_port w3 = s3" "boot_files w3 = fs"
    using w3 load data s2(3)
    by (auto simp: xmm626_mipi_nv_data_send_def on_port_do_def Let_def ok_do_def bind_eq_Some_conv split: if_splits)
  obtain s5 where s5: "mipi_finish online fd (boot_port w4) = Some (rc, s5)" "w' = w4\<lparr>boot_port := s5\<rparr>"
    using k4 by (auto simp: on_port_do_Some)
  have "extends s3 s5" and files: "files (boot_files w') = files fs"
    using further_keeps [OF w4] extends_doD [OF finish_extends s5(1)] s3(3,4) s5(2) by (auto intro: extends_trans)
  then have "\<exists>pre fw nv post. port_sent fd s5 = port_sent fd (boot_port w) @ pre @ fw @ nv @ post \<and> mipi_image fw = Some (XMM626_FIRMWARE_ADDRESS, ?fw) \<and>
      mipi_image nv = Some (XMM626_NV_DATA_ADDRESS, data) \<and> intact md5 sec sz p m fs \<and> files fs p = Some data"
    using mipi.software_delivered [OF extends_doD [OF extends_loaders s1(1)] s2(1,2) assms(3,5) load [unfolded data assms(4)] s3(1,2)] by blast
  moreover have "boot_port w' = s5" "intact md5 sec sz p m (boot_files w') = intact md5 sec sz p m fs"
    unfolding intact_def files by (simp_all add: s5(2))
  ultimately show ?thesis
    unfolding files by auto
qed

lemma boot_delivered:
  assumes "mipi_boot layout further online md5 img w = Some (0, w')" and "digest_ok md5" and "boot_specs w = nv_specs p m b bm sec sz c"
    and "distinct [p, m, b, bm]"
  shows "\<exists>image_data fd pre fw nv post data. img = Some image_data \<and> port_sent fd (boot_port w') = port_sent fd (boot_port w) @ pre @ fw @ nv @ post \<and>
    mipi_image fw = Some (XMM626_FIRMWARE_ADDRESS, image_part (layout_firmware layout) image_data) \<and> mipi_image nv = Some (XMM626_NV_DATA_ADDRESS, data) \<and>
    intact md5 sec sz p m (boot_files w') \<and> files (boot_files w') p = Some data"
proof -
  have opened: "extends (boot_port u) (boot_port (snd (boot_open path u)))" "boot_specs (snd (boot_open path u)) = boot_specs u" for path u
    by (auto simp: boot_open_def on_port_parts)
  have close: "port_sent fd (boot_port (boot_close fd' u)) = port_sent fd (boot_port u)" "boot_files (boot_close fd' u) = boot_files u"
    "boot_specs (boot_close fd' u) = boot_specs u" for fd fd' u
    by (simp_all add: boot_close_def)
  obtain image_data where image_data: "img = Some image_data"
    using assms(1) by (cases img) (auto simp: mipi_boot_def Let_def split_beta split: if_splits)
  define w2 where "w2 = snd (boot_open ''/dev/umts_boot0'' (snd (boot_open (layout_device layout) w)))"
  define boot_fd where "boot_fd = fst (boot_open ''/dev/umts_boot0'' (snd (boot_open (layout_device layout) w)))"
  define w3 where "w3 = snd (on_port (mipi_start layout image_data boot_fd) w2)"
  define w4 where "w4 = snd (boot_open ''/dev/umts_boot1'' (boot_close boot_fd w3))"
  define fd where "fd = fst (boot_open ''/dev/umts_boot1'' (boot_close boot_fd w3))"
  obtain rc w5 image_fd where steps: "mipi_boot_steps layout further online md5 image_data fd w4 = Some (rc, w5)" "0 \<le> rc"
    and w': "w' = boot_close fd (boot_close image_fd w5)"
    using assms(1) image_data
    by (auto simp: mipi_boot_def Let_def split_beta w2_def [symmetric] boot_fd_def [symmetric] w3_def [symmetric] w4_def [symmetric] fd_def [symmetric]
        split: if_splits)
  have "extends (boot_port w) (boot_port w2)"
    unfolding w2_def using opened(1) extends_trans by blast
  moreover have "extends (boot_port w2) (boot_port w3)"
    unfolding w3_def on_port_parts using extends_start by simp
  moreover have "extends (boot_port w3) (boot_port (boot_close boot_fd w3))"
    by (simp add: extends_def close)
  moreover have "extends (boot_port (boot_close boot_fd w3)) (boot_port w4)"
    unfolding w4_def by (rule opened)
  ultimately have "extends (boot_port w) (boot_port w4)"
    by (blast intro: extends_trans)
  then obtain pre where pre: "port_sent fd (boot_port w4) = port_sent fd (boot_port w) @ pre"
    unfolding extends_def by blast
  have "boot_specs w4 = boot_specs w"
    unfolding w4_def w3_def w2_def by (simp add: opened close on_port_parts)
  then obtain pre' fw nv post data where sent: "port_sent fd (boot_port w5) = port_sent fd (boot_port w4) @ pre' @ fw @ nv @ post"
    "mipi_image fw = Some (XMM626_FIRMWARE_ADDRESS, image_part (layout_firmware layout) image_data)" "mipi_image nv = Some (XMM626_NV_DATA_ADDRESS, data)"
    "intact md5 sec sz p m (boot_files w5)" "files (boot_files w5) p = Some data"
    using steps_delivered [OF steps assms(2) _ assms(4)] assms(3) by metis
  then have "port_sent fd (boot_port w') = port_sent fd (boot_port w) @ (pre @ pre') @ fw @ nv @ post"
    using pre by (simp add: w' close)
  then show ?thesis
    using sent(2-5) image_data unfolding w' close by blast
qed

lemma start_answered: "0 \<le> fd \<Longrightarrow> 0xA00000 \<le> length img \<Longrightarrow> answered (mipi_start layout img fd) mipi_start_answers"
  unfolding mipi_start_def mipi_start_answers_def
  using answered_skip [OF answered_link(1) answered_skip [OF answered_link(1) answered_mipi_psi_send]] mipi_part_nonempty [OF parts(1,2)] by blast

lemma loaders_answered:
  assumes "0 \<le> fd" and "0xA00000 \<le> length img"
  shows "answered_do (mipi_loaders layout img fd) mipi_loader_answers"
  unfolding mipi_loaders_def mipi_loader_answers_def
  by (intro answered_ok_do answered_do_some answered_mipi_ebl_send answered_mipi_config answered_mipi_sends assms mipi_part_nonempty parts)

lemma finish_answered: "0 \<le> fd \<Longrightarrow> answered_do (mipi_finish online fd) (mipi_answer XMM626_COMMAND_SEC_END)"
  unfolding mipi_finish_def
  by (intro answered_do_then answered_mipi_sends answered_do_some online_answered)

lemma steps_succeed:
  assumes "answers (boot_port w) (mipi_loader_answers @ mipi_data_answers (image_part (layout_firmware layout) img) @ mipi_data_answers nv_data @ pieces @
      mipi_answer XMM626_COMMAND_SEC_END)"
    and "0 \<le> fd" and "0xA00000 \<le> length img" and "ipc_nv_data_load md5 (boot_specs w) (boot_files w) = (Some nv_data, fs)" and "nv_data \<noteq> []"
    and "ipc_client_nv_data_size (boot_specs w) \<noteq> 0" and "ready fs"
  shows "\<exists>w'. mipi_boot_steps layout further online md5 img fd w = Some (0, w')"
proof -
  let ?fw = "image_part (layout_firmware layout) img" and ?last = "mipi_answer XMM626_COMMAND_SEC_END"
  obtain s1 where s1: "mipi_loaders layout img fd (boot_port w) = Some (0, s1)"
    "answers s1 (mipi_data_answers ?fw @ mipi_data_answers nv_data @ pieces @ ?last)"
    using answered_doE [OF loaders_answered [OF assms(2,3)] assms(1)] .
  obtain s2 where s2: "xmm626_mipi_firmware_send fd ?fw s1 = Some (0, s2)" "answers s2 (mipi_data_answers nv_data @ pieces @ ?last)"
    using answered_doE [OF answered_mipi_sends(4) [OF assms(2) mipi_part_nonempty [OF parts(7,8) assms(3)]] s1(2)] .
  obtain s3 where s3: "xmm626_mipi_modem_data_send fd nv_data XMM626_NV_DATA_ADDRESS s2 = Some (0, s3)" "answers s3 (pieces @ ?last)"
    using answered_doE [OF answered_mipi_modem_data [OF assms(2,5)] s2(2)] .
  have nv: "xmm626_mipi_nv_data_send md5 fd (w\<lparr>boot_port := s2\<rparr>) = Some (0, w\<lparr>boot_port := s3, boot_files := fs\<rparr>)"
    using assms(2,4,6) s3(1) by (simp add: xmm626_mipi_nv_data_send_def on_port_do_def ok_do_def)
  obtain w4 where w4: "further fd (w\<lparr>boot_port := s3, boot_files := fs\<rparr>) = Some (0, w4)" "answers (boot_port w4) ?last"
    using further_answered [OF assms(2), of "w\<lparr>boot_port := s3, boot_files := fs\<rparr>" ?last] s3(2) assms(7) by auto
  have "answers (boot_port w4) (?last @ [])"
    using w4(2) by simp
  then obtain s5 where "mipi_finish online fd (boot_port w4) = Some (0, s5)"
    by (rule answered_doE [OF finish_answered [OF assms(2)]])
  then show ?thesis
    using s1(1) s2(1) nv w4(1) by (simp add: mipi_boot_steps_def on_port_do_def ok_do_def)
qed

lemma boot_succeeds:
  assumes "answers (boot_port w) (mipi_start_answers @ mipi_loader_answers @ mipi_data_answers (image_part (layout_firmware layout) img) @
      mipi_data_answers nv_data @ pieces @ mipi_answer XMM626_COMMAND_SEC_END)"
    and "0xA00000 \<le> length img" and "ipc_nv_data_load md5 (boot_specs w) (boot_files w) = (Some nv_data, fs)" and "nv_data \<noteq> []"
    and "ipc_client_nv_data_size (boot_specs w) \<noteq> 0" and "ready fs"
  shows "\<exists>w'. mipi_boot layout further online md5 (Some img) w = Some (0, w')"
proof -
  let ?rest = "mipi_loader_answers @ mipi_data_answers (image_part (layout_firmware layout) img) @ mipi_data_answers nv_data @ pieces @
    mipi_answer XMM626_COMMAND_SEC_END"
  have opened: "answers (boot_port u) as \<Longrightarrow> boot_open path u = (0, u\<lparr>boot_port := port_emit (Port_opened path) (boot_port u)\<rparr>)" for path u as
    by (simp add: boot_open_def on_port_parts answers_call)
  define s2 where "s2 = port_emit (Port_opened ''/dev/umts_boot0'') (port_emit (Port_opened (layout_device layout)) (boot_port w))"
  have "answers s2 (mipi_start_answers @ ?rest)"
    using assms(1) by (simp add: s2_def)
  then obtain s3 where s3: "mipi_start layout img 0 s2 = (0, s3)" "answers s3 ?rest"
    using start_answered [of 0, OF _ assms(2)] unfolding answered_def by (metis order_refl prod.collapse)
  let ?w4 = "w\<lparr>boot_port := port_emit (Port_opened ''/dev/umts_boot1'') (port_emit (Port_closed 0) s3)\<rparr>"
  obtain w5 where "mipi_boot_steps layout further online md5 img 0 ?w4 = Some (0, w5)"
    using steps_succeed [of ?w4 img nv_data 0 md5 fs] s3(2) assms(2-6) by auto
  moreover have "boot_open ''/dev/umts_boot1'' (boot_close 0 (w\<lparr>boot_port := s3\<rparr>)) = (0, ?w4)"
    using opened [of "boot_close 0 (w\<lparr>boot_port := s3\<rparr>)" ?rest] s3(2) by (simp add: boot_close_def)
  ultimately show ?thesis
    using s3(1) opened [OF assms(1)] opened [of "w\<lparr>boot_port := port_emit (Port_opened (layout_device layout)) (boot_port w)\<rparr>"] assms(1)
    by (simp add: mipi_boot_def Let_def on_port_parts s2_def)
qed

end

text \<open>The file with the MPS code can be read.\<close>

definition mps_readable :: "file_world \<Rightarrow> bool" where
  "mps_readable fs \<longleftrightarrow> fst (file_data_read (Some ''/factory/imei/mps_code.dat'') 3 3 0 fs) \<noteq> None"

definition mps_answers :: "u8 list list" where
  "mps_answers = mipi_answer XMM626_COMMAND_FLASH_SET_ADDRESS @ mipi_block_answers 3"

lemma maguro_further_keeps:
  assumes "maguro_further fd w = Some (rc, w')"
  shows "extends (boot_port w) (boot_port w') \<and> files (boot_files w') = files (boot_files w)"
proof -
  obtain r fs where r: "file_data_read (Some ''/factory/imei/mps_code.dat'') 3 3 0 (boot_files w) = (r, fs)"
    by fastforce
  then have "files fs = files (boot_files w)"
    using file_data_read_result by blast
  then show ?thesis
    using assms r extends_doD [OF extends_mipi_sends(5)]
    by (cases r) (auto simp: maguro_further_def on_port_do_Some)
qed

lemma maguro_further_answered:
  assumes "0 \<le> fd" and "mps_readable (boot_files w)" and "answers (boot_port w) (mps_answers @ rest)"
  shows "\<exists>w'. maguro_further fd w = Some (0, w') \<and> answers (boot_port w') rest"
proof -
  obtain data fs where r: "file_data_read (Some ''/factory/imei/mps_code.dat'') 3 3 0 (boot_files w) = (Some data, fs)"
    using assms(2) unfolding mps_readable_def by (metis not_None_eq prod.collapse)
  then have "length data = 3"
    using file_data_read_result by blast
  then have data: "data \<noteq> []" "mipi_data_answers data = mps_answers"
    by (auto simp: mipi_data_answers_def mps_answers_def)
  obtain s where "xmm626_mipi_mps_data_send fd data (boot_port w) = Some (0, s)" "answers s rest"
    using answered_doE [OF answered_mipi_sends(5) [OF assms(1) data(1)], unfolded data(2), OF assms(3)] .
  then show ?thesis
    using r by (simp add: maguro_further_def on_port_do_def)
qed

lemma extends_online: "extends s (snd (maguro_online fd s))"
proof -
  have "extends u (snd (xmm626_sec_modem_boot_power fd False u))" "extends s (snd (xmm626_sec_modem_status_online_wait fd s))" for u
    by (simp_all add: xmm626_sec_modem_boot_power_def xmm626_sec_modem_status_online_wait_def)
  then show ?thesis
    unfolding maguro_online_def by (intro extends_ok_then)
qed

lemma answered_online: "0 \<le> fd \<Longrightarrow> answered (maguro_online fd) []"
proof -
  assume "0 \<le> fd"
  then have "answered (xmm626_sec_modem_status_online_wait fd) []" "answered (xmm626_sec_modem_boot_power fd False) []"
    using answered_ioctls by (auto simp: answered_def xmm626_sec_modem_boot_power_def xmm626_sec_modem_status_online_wait_def STATE_ONLINE_def)
  then show ?thesis
    unfolding maguro_online_def by (rule answered_skip)
qed

interpretation maguro: mipi_phone maguro_layout maguro_further maguro_online mps_readable mps_answers
  by unfold_locales (simp_all add: maguro_further_keeps maguro_further_answered extends_online answered_online maguro_layout_def)

interpretation piranha: mipi_phone piranha_layout "\<lambda>boot_fd w. Some (0, w)" "\<lambda>boot_fd s. (0, s)" "\<lambda>fs. True" "[]"
  by unfold_locales (simp_all add: piranha_layout_def)

subsection \<open>Properties\<close>

definition mipi_phones :: "((md5_fun \<Rightarrow> u8 list option \<Rightarrow> boot_world \<Rightarrow> (int \<times> boot_world) option) \<times> modem_layout) list" where
  "mipi_phones = [(maguro_boot, maguro_layout), (piranha_boot, piranha_layout)]"

text \<open>C14. Over MIPI too a boot that reports success has delivered the phone's software: the modem was sent, on one descriptor and in this order, a transfer of the firmware to its
  address and a transfer of verified data to its address, cut into the blocks of this link and each with its header, checksum and footer.\<close>

theorem mipi_boot_delivers:
  assumes "(boot, layout) \<in> set mipi_phones" and "boot md5 img w = Some (0, w')" and "digest_ok md5" and "boot_specs w = nv_specs p m b bm sec sz c"
    and "distinct [p, m, b, bm]"
  shows "\<exists>image_data fd pre fw nv post data. img = Some image_data \<and>
    port_sent fd (boot_port w') = port_sent fd (boot_port w) @ pre @ fw @ nv @ post \<and>
    mipi_image fw = Some (XMM626_FIRMWARE_ADDRESS, image_part (layout_firmware layout) image_data) \<and> mipi_image nv = Some (XMM626_NV_DATA_ADDRESS, data) \<and>
    intact md5 sec sz p m (boot_files w') \<and> files (boot_files w') p = Some data"
  using assms maguro.boot_delivered piranha.boot_delivered unfolding mipi_phones_def maguro_boot_def piranha_boot_def by auto

subsection \<open>Witnesses\<close>

definition toy_mipi :: boot_world where
  "toy_mipi = \<lparr>boot_port = toy_port (mipi_start_answers @ mipi_loader_answers @ mipi_data_answers (image_part (layout_firmware piranha_layout) (replicate 0xA00000 1)) @
     mipi_data_answers [5, 6, 7, 8] @ mipi_answer XMM626_COMMAND_SEC_END),
   boot_files = toy_files\<lparr>files := (files toy_files)(''nv'' := None)\<rparr>, boot_specs = toy_specs\<rparr>"

lemma toy_mipi_loads: "\<exists>fs. ipc_nv_data_load toy_md5 (boot_specs toy_mipi) (boot_files toy_mipi) = (Some [5, 6, 7, 8], fs)"
proof -
  have "\<not> intact toy_md5 ''x'' 4 ''nv'' ''nv.md5'' (boot_files toy_mipi)" "intact toy_md5 ''x'' 4 ''bak'' ''bak.md5'' (boot_files toy_mipi)"
    "no_faults (boot_files toy_mipi)"
    using toy_facts by (simp_all add: intact_def toy_mipi_def)
  moreover have "files (boot_files toy_mipi) ''bak'' = Some [5, 6, 7, 8]"
    by (simp add: toy_mipi_def toy_files_def)
  ultimately show ?thesis
    using nv_load_from_backup [OF toy_digest, of "boot_files toy_mipi" "''nv''" "''nv.md5''" "''bak''" "''bak.md5''" 2 4 "''x''"]
    by (auto simp: toy_mipi_def toy_specs_def)
qed

lemma toy_mipi_starts: "\<exists>w'. piranha_boot toy_md5 (Some (replicate 0xA00000 1)) toy_mipi = Some (0, w')"
proof -
  obtain fs where load: "ipc_nv_data_load toy_md5 (boot_specs toy_mipi) (boot_files toy_mipi) = (Some [5, 6, 7, 8], fs)"
    using toy_mipi_loads by blast
  have "ipc_client_nv_data_size (boot_specs toy_mipi) \<noteq> 0"
    by (simp add: toy_mipi_def toy_specs_def)
  moreover have "answers (boot_port toy_mipi) (mipi_start_answers @ mipi_loader_answers @
      mipi_data_answers (image_part (layout_firmware piranha_layout) (replicate 0xA00000 1)) @ mipi_data_answers [5, 6, 7, 8] @ [] @ mipi_answer XMM626_COMMAND_SEC_END)"
    by (simp add: toy_mipi_def toy_port_def answers_def)
  ultimately show ?thesis
    unfolding piranha_boot_def
    using load piranha.boot_succeeds [of toy_mipi "replicate 0xA00000 1" "[5, 6, 7, 8]" toy_md5 fs] by simp
qed

theorem mipi_boot_delivers_witness:
  "\<exists>w' fd pre fw nv post data. piranha_boot toy_md5 (Some (replicate 0xA00000 1)) toy_mipi = Some (0, w') \<and> port_sent fd (boot_port w') = pre @ fw @ nv @ post \<and>
    mipi_image fw = Some (XMM626_FIRMWARE_ADDRESS, replicate 0x9D7800 1) \<and> mipi_image nv = Some (XMM626_NV_DATA_ADDRESS, data)"
proof -
  obtain w' where boot: "piranha_boot toy_md5 (Some (replicate 0xA00000 1)) toy_mipi = Some (0, w')"
    using toy_mipi_starts by blast
  have phone: "(piranha_boot, piranha_layout) \<in> set mipi_phones"
    by (simp add: mipi_phones_def)
  have "port_sent fd (boot_port toy_mipi) = []" for fd
    by (simp add: toy_mipi_def toy_port_def port_sent_def)
  moreover have "image_part (layout_firmware piranha_layout) (replicate 0xA00000 1) = replicate 0x9D7800 1"
    by (simp add: image_part_def piranha_layout_def)
  ultimately obtain fd pre fw nv post data where "port_sent fd (boot_port w') = pre @ fw @ nv @ post"
    "mipi_image fw = Some (XMM626_FIRMWARE_ADDRESS, replicate 0x9D7800 1)" "mipi_image nv = Some (XMM626_NV_DATA_ADDRESS, data)"
    using mipi_boot_delivers [OF phone boot toy_digest, of "''nv''" "''nv.md5''" "''bak''" "''bak.md5''" "''x''" 4 2]
    by (auto simp: toy_mipi_def toy_specs_def)
  then show ?thesis
    using boot by blast
qed

end
