(* ===== verification/Xmm616.thy ===== *)
theory Xmm616
  imports Modem_Boot
begin

section \<open>libsamsung-ipc: starting an XMM616 modem\<close>

text \<open>
  \<open>devices/xmm616/xmm616.c\<close>, the protocol of the older modems: a boot loader goes over a serial line, and the firmware and the modem's data go either to a device or into
  memory that the modem shares. Three notions, each of which composes along \<open>ok_then\<close>, carry the proofs: \<open>sends\<close>, what a step that succeeds has sent to which descriptor; \<open>emits\<close>,
  which actions a step takes whether it succeeds or not; and \<open>answered\<close> of \<open>Modem_Boot\<close>, when a step succeeds.
\<close>

subsection \<open>Constants (xmm616.h)\<close>

definition XMM616_AT :: string where "XMM616_AT = ''AT''"
definition XMM616_AT_COUNT :: nat where "XMM616_AT_COUNT = 20"
definition XMM616_PSI_MAGIC :: u8 where "XMM616_PSI_MAGIC = 0x30"
definition XMM616_PSI_ACK :: u8 where "XMM616_PSI_ACK = 0x01"
definition XMM616_BOOTCORE_VERSION :: u8 where "XMM616_BOOTCORE_VERSION = 0xF0"

definition xmm616_nv_data_specs :: "ipc_client_nv_data_specs option" where
  "xmm616_nv_data_specs = nv_specs ''/efs/nv_data.bin'' ''/efs/nv_data.bin.md5'' ''/efs/.nv_data.bak'' ''/efs/.nv_data.bak.md5'' ''Samsung_Android_RIL''
     0x200000 0x1000"

subsection \<open>The boot loader\<close>

text \<open>A \<open>read\<close> that must return all \<open>n\<close> bytes, and a \<open>write\<close> of a whole buffer after \<open>select\<close>.\<close>

definition read_full :: "nat \<Rightarrow> modem_port \<Rightarrow> u8 list option \<times> modem_port" where
  "read_full n s = (let (r, s) = port_read n s in
     (case r of None \<Rightarrow> (None, s) | Some bs \<Rightarrow> (if length bs < n then None else Some bs, s)))"

definition select_write :: "int \<Rightarrow> u8 list \<Rightarrow> modem_port \<Rightarrow> int \<times> modem_port" where
  "select_write fd bs s = (let (rc, s) = port_call 1 s in if rc \<le> 0 then (-1, s) else write_once fd bs s)"

definition bootcore_version :: "modem_port \<Rightarrow> int \<times> modem_port" where
  "bootcore_version s = (let (r, s) = read_full 1 s in (if r = Some [XMM616_BOOTCORE_VERSION] then 0 else -1, s))"

definition info_size :: "modem_port \<Rightarrow> int \<times> modem_port" where
  "info_size s = (let (r, s) = read_full 1 s in (if r = None then -1 else 0, s))"

fun write_each :: "int \<Rightarrow> u8 list \<Rightarrow> modem_port \<Rightarrow> int \<times> modem_port" where
  "write_each fd [] s = (0, s)"
| "write_each fd (b # bs) s = ok_then (select_write fd [b] s) (write_each fd bs)"

text \<open>The loop that reads values of \<open>k\<close> bytes until the expected one comes; \<open>n\<close> is \<open>52 - i\<close>. In the last pass even the expected value comes too late.\<close>

fun await :: "nat \<Rightarrow> nat \<Rightarrow> u8 list \<Rightarrow> modem_port \<Rightarrow> int \<times> modem_port" where
  "await 0 k wanted s = (-1, s)"
| "await (Suc n) k wanted s = (let (r, s) = select_read k s in
     if r = None \<or> n = 0 then (-1, s) else if r = Some wanted then (0, s) else await n k wanted s)"

definition xmm616_psi_send :: "int \<Rightarrow> u8 list \<Rightarrow> modem_port \<Rightarrow> int \<times> modem_port" where
  "xmm616_psi_send fd psi s = (if fd < 0 \<or> psi = [] then (-1, s)
     else ok_then (repeat_ok XMM616_AT_COUNT (write_once fd (string_bytes XMM616_AT)) s) (\<lambda>s.
       ok_then (bootcore_version s) (\<lambda>s.
       ok_then (info_size s) (\<lambda>s.
       ok_then (write_once fd [XMM616_PSI_MAGIC] s) (\<lambda>s.
       ok_then (write_once fd (bytes16 (of_nat (length psi))) s) (\<lambda>s.
       ok_then (write_each fd psi s) (\<lambda>s.
       ok_then (select_write fd [xmm626_crc_calculate psi] s) (\<lambda>s.
       await 52 1 [XMM616_PSI_ACK] s))))))))"

subsection \<open>The firmware and the modem's data\<close>

text \<open>\<open>shared\<close> is the memory that is mapped while the modem is started. A copy that leaves it is undefined. An address is an offset in this memory; \<open>None\<close> is \<open>NULL\<close>, and then
  the data is written to a descriptor.\<close>

record shared_world =
  phone :: boot_world
  shared :: "u8 list"

definition on_phone :: "(boot_world \<Rightarrow> int \<times> boot_world) \<Rightarrow> shared_world \<Rightarrow> int \<times> shared_world" where
  "on_phone f w = (let (rc, v) = f (phone w) in (rc, w\<lparr>phone := v\<rparr>))"

definition on_line :: "(modem_port \<Rightarrow> int \<times> modem_port) \<Rightarrow> shared_world \<Rightarrow> int \<times> shared_world" where
  "on_line f w = on_phone (on_port f) w"

definition shared_open :: "string \<Rightarrow> shared_world \<Rightarrow> int \<times> shared_world" where
  "shared_open path w = on_phone (boot_open path) w"

definition shared_close :: "int \<Rightarrow> shared_world \<Rightarrow> shared_world" where
  "shared_close fd w = w\<lparr>phone := boot_close fd (phone w)\<rparr>"

definition data_copy :: "int \<Rightarrow> nat option \<Rightarrow> u8 list \<Rightarrow> shared_world \<Rightarrow> (int \<times> shared_world) option" where
  "data_copy fd address data w = (case address of
      Some a \<Rightarrow> if length (shared w) < a + length data then None
        else Some (0, w\<lparr>phone := (phone w)\<lparr>boot_port := port_emit (Port_stored a data) (boot_port (phone w))\<rparr>, shared := overwrite a data (shared w)\<rparr>)
    | None \<Rightarrow> Some (on_line (write_chunks (length data) fd data) w))"

definition xmm616_firmware_send :: "int \<Rightarrow> nat option \<Rightarrow> u8 list \<Rightarrow> shared_world \<Rightarrow> (int \<times> shared_world) option" where
  "xmm616_firmware_send fd address firmware w =
     (if (fd < 0 \<and> address = None) \<or> firmware = [] then Some (-1, w) else data_copy fd address firmware w)"

definition xmm616_nv_data_send :: "md5_fun \<Rightarrow> int \<Rightarrow> nat option \<Rightarrow> shared_world \<Rightarrow> (int \<times> shared_world) option" where
  "xmm616_nv_data_send md5 fd address w =
     (if (fd < 0 \<and> address = None) \<or> ipc_client_nv_data_size (boot_specs (phone w)) = 0 then Some (-1, w)
      else case ipc_nv_data_load md5 (boot_specs (phone w)) (boot_files (phone w)) of (r, fs) \<Rightarrow>
        let w = w\<lparr>phone := (phone w)\<lparr>boot_files := fs\<rparr>\<rparr> in
        case r of None \<Rightarrow> Some (-1, w) | Some nv_data \<Rightarrow> data_copy fd address nv_data w)"

subsection \<open>What is sent\<close>

text \<open>The bytes of a step, for each descriptor.\<close>

definition on_fd :: "int \<Rightarrow> u8 list \<Rightarrow> int \<Rightarrow> u8 list" where
  "on_fd fd bs = (\<lambda>fd'. if fd' = fd then bs else [])"

definition sends :: "(modem_port \<Rightarrow> int \<times> modem_port) \<Rightarrow> (int \<Rightarrow> u8 list) \<Rightarrow> bool" where
  "sends f bs \<longleftrightarrow> (\<forall>s rc t. f s = (rc, t) \<longrightarrow> 0 \<le> rc \<longrightarrow> (\<forall>fd. port_sent fd t = port_sent fd s @ bs fd))"

lemma sendsD: "sends f bs \<Longrightarrow> f s = (rc, t) \<Longrightarrow> 0 \<le> rc \<Longrightarrow> port_sent fd t = port_sent fd s @ bs fd"
  by (simp add: sends_def)

lemma sends_ok_then: "sends f as \<Longrightarrow> sends g bs \<Longrightarrow> sends (\<lambda>s. ok_then (f s) g) (\<lambda>fd. as fd @ bs fd)"
  unfolding sends_def ok_then_def by (auto simp: split_beta split: if_splits) (metis linorder_not_less prod.collapse append.assoc)

lemma sends_nothing: "(\<And>s fd. port_sent fd (snd (f s)) = port_sent fd s) \<Longrightarrow> sends f (\<lambda>fd. [])"
  unfolding sends_def by (metis append_Nil2 snd_conv)

lemma sends_eq: "sends f as \<Longrightarrow> as = bs \<Longrightarrow> sends f bs"
  by simp

lemma port_write_sends: "port_write fd bs s = (rc, t) \<Longrightarrow> port_sent fd' t = port_sent fd' s @ (if fd' = fd then take (nat rc) bs else [])"
  by (auto simp: port_write_def Let_def split_beta)

lemma sends_write_once: "sends (write_once fd bs) (on_fd fd bs)"
  unfolding sends_def
proof (intro allI impI)
  show "port_sent fd' t = port_sent fd' s @ on_fd fd bs fd'" if "write_once fd bs s = (rc, t)" "0 \<le> rc" for s rc t fd'
    using port_write_sends [of fd bs s "fst (port_write fd bs s)" t fd'] that
    by (auto simp: write_once_def on_fd_def split_beta split: if_splits)
qed

lemma sends_chunks: "sends (write_chunks chunk fd bs) (on_fd fd bs)"
  unfolding sends_def
proof (intro allI impI)
  show "port_sent fd' t = port_sent fd' s @ on_fd fd bs fd'" if "write_chunks chunk fd bs s = (rc, t)" "0 \<le> rc" for s rc t fd'
    using that
  proof (induction chunk fd bs s rule: write_chunks.induct)
    case (1 chunk fd bs s)
    let ?p = "take (if chunk < length bs then chunk else length bs) bs"
    obtain n u where u: "port_write fd ?p s = (n, u)"
      by fastforce
    show ?case
    proof (cases "bs = []")
      case True
      then show ?thesis
        using 1(2) by (simp add: write_chunks.simps on_fd_def)
    next
      case False
      then have pos: "0 < n" and rest: "write_chunks chunk fd (drop (nat n) bs) u = (rc, t)"
        using 1(2,3) u by (auto simp: write_chunks.simps [of chunk fd bs s] split: if_splits)
      have "n \<le> int (length ?p)"
        using port_write_sent(2) [OF u] .
      then have "take (nat n) ?p = take (nat n) bs"
        by (auto simp: min_def split: if_splits)
      then show ?thesis
        using 1(1) [OF False u [symmetric] _ rest 1(3)] pos port_write_sends [OF u, of fd'] by (simp add: on_fd_def)
    qed
  qed
qed

lemma read_full_sent [simp]: "port_sent fd (snd (read_full n s)) = port_sent fd s"
  by (simp add: read_full_def Let_def split_beta split: option.split)

lemma sends_checks: "sends bootcore_version (\<lambda>fd. [])" "sends info_size (\<lambda>fd. [])"
  by (rule sends_nothing; simp add: bootcore_version_def info_size_def split_beta)+

lemma sends_await: "sends (await n k wanted) (\<lambda>fd. [])"
proof (rule sends_nothing)
  show "port_sent fd (snd (await n k wanted s)) = port_sent fd s" for s fd
    by (induction n arbitrary: s) (simp_all add: Let_def split_beta)
qed

lemma sends_select_write: "sends (select_write fd bs) (on_fd fd bs)"
  unfolding sends_def select_write_def
  by (auto simp: Let_def split_beta split: if_splits) (metis port_sent_call prod.collapse sendsD sends_write_once)

lemma sends_each: "sends (write_each fd bs) (on_fd fd bs)"
proof (induction bs)
  case Nil
  then show ?case
    by (auto simp: sends_def on_fd_def)
next
  case (Cons b bs)
  have "sends (\<lambda>s. ok_then (select_write fd [b] s) (write_each fd bs)) (on_fd fd (b # bs))"
    using sends_ok_then [OF sends_select_write Cons] by (rule sends_eq) (auto simp: on_fd_def)
  then show ?case
    by (simp add: sends_def)
qed

lemma repeat_ok_Suc: "repeat_ok (Suc n) f = (\<lambda>s. ok_then (f s) (repeat_ok n f))"
  by (rule ext) simp

lemma sends_repeat: "sends f bs \<Longrightarrow> sends (repeat_ok n f) (\<lambda>fd. concat (replicate n (bs fd)))"
proof (induction n)
  case 0
  then show ?case
    by (simp add: sends_def)
next
  case (Suc n)
  show ?case
    using sends_ok_then [OF Suc.prems Suc.IH [OF Suc.prems]] by (simp add: repeat_ok_Suc del: repeat_ok.simps)
qed

text \<open>The boot loader as the modem gets it.\<close>

definition psi_frame :: "u8 list \<Rightarrow> u8 list" where
  "psi_frame psi = concat (replicate XMM616_AT_COUNT (string_bytes XMM616_AT)) @ [XMM616_PSI_MAGIC] @ bytes16 (of_nat (length psi)) @ psi @
     [xmm626_crc_calculate psi]"

lemma psi_send_steps:
  assumes "0 \<le> fd" and "psi \<noteq> []"
  shows "xmm616_psi_send fd psi = (\<lambda>s. ok_then (repeat_ok XMM616_AT_COUNT (write_once fd (string_bytes XMM616_AT)) s) (\<lambda>s.
       ok_then (bootcore_version s) (\<lambda>s. ok_then (info_size s) (\<lambda>s. ok_then (write_once fd [XMM616_PSI_MAGIC] s) (\<lambda>s.
       ok_then (write_once fd (bytes16 (of_nat (length psi))) s) (\<lambda>s. ok_then (write_each fd psi s) (\<lambda>s.
       ok_then (select_write fd [xmm626_crc_calculate psi] s) (await 52 1 [XMM616_PSI_ACK]))))))))"
  using assms by (intro ext) (auto simp: xmm616_psi_send_def)

lemma sends_psi: "sends (xmm616_psi_send fd psi) (on_fd fd (psi_frame psi))"
proof (cases "fd < 0 \<or> psi = []")
  case True
  then show ?thesis
    by (auto simp: sends_def xmm616_psi_send_def)
next
  case False
  have "sends (xmm616_psi_send fd psi) (\<lambda>fd'. concat (replicate XMM616_AT_COUNT (on_fd fd (string_bytes XMM616_AT) fd')) @ [] @ [] @
      on_fd fd [XMM616_PSI_MAGIC] fd' @ on_fd fd (bytes16 (of_nat (length psi))) fd' @ on_fd fd psi fd' @ on_fd fd [xmm626_crc_calculate psi] fd' @ [])"
    unfolding psi_send_steps [of fd psi, OF leI False [unfolded de_Morgan_disj, THEN conjunct2], OF False [unfolded de_Morgan_disj, THEN conjunct1]]
    by (intro sends_ok_then sends_repeat sends_write_once sends_checks sends_each sends_select_write sends_await)
  then show ?thesis
    by (rule sends_eq) (auto simp: on_fd_def psi_frame_def)
qed

subsection \<open>Which actions are taken\<close>

definition emits :: "(port_action \<Rightarrow> bool) \<Rightarrow> (modem_port \<Rightarrow> int \<times> modem_port) \<Rightarrow> bool" where
  "emits P f \<longleftrightarrow> (\<forall>s. \<exists>as. port_trace (snd (f s)) = port_trace s @ as \<and> (\<forall>a \<in> set as. P a))"

lemma emits_ok_then: "emits P f \<Longrightarrow> emits P g \<Longrightarrow> emits P (\<lambda>s. ok_then (f s) g)"
  unfolding emits_def
proof
  fix s
  assume f: "\<forall>s. \<exists>as. port_trace (snd (f s)) = port_trace s @ as \<and> (\<forall>a \<in> set as. P a)"
    and g: "\<forall>s. \<exists>as. port_trace (snd (g s)) = port_trace s @ as \<and> (\<forall>a \<in> set as. P a)"
  obtain as where "port_trace (snd (f s)) = port_trace s @ as" "\<forall>a \<in> set as. P a"
    using f by blast
  moreover obtain bs where "port_trace (snd (g (snd (f s)))) = port_trace (snd (f s)) @ bs" "\<forall>a \<in> set bs. P a"
    using g by blast
  ultimately show "\<exists>as. port_trace (snd (ok_then (f s) g)) = port_trace s @ as \<and> (\<forall>a \<in> set as. P a)"
    by (auto simp: ok_then_def)
qed

lemma emits_nothing: "(\<And>s. port_trace (snd (f s)) = port_trace s) \<Longrightarrow> emits P f"
  by (simp add: emits_def)

lemma port_trace_call [simp]: "port_trace (snd (port_call rc s)) = port_trace s"
  by (simp add: port_call_def)

lemma port_trace_read [simp]: "port_trace (snd (port_read n s)) = port_trace s"
  by (simp add: port_read_def split: list.split)

lemma port_trace_emit [simp]: "port_trace (port_emit a s) = port_trace s @ [a]"
  by (simp add: port_emit_def)

lemma port_trace_select_read [simp]: "port_trace (snd (select_read n s)) = port_trace s"
  by (simp add: select_read_def Let_def split_beta split: option.split)

lemma port_trace_read_full [simp]: "port_trace (snd (read_full n s)) = port_trace s"
  by (simp add: read_full_def Let_def split_beta split: option.split)

lemma emits_write_once: "(\<And>bs. P (Port_wrote fd bs)) \<Longrightarrow> emits P (write_once fd bs)"
  by (simp add: emits_def write_once_def port_write_def Let_def split_beta)

lemma emits_select_write: "(\<And>bs. P (Port_wrote fd bs)) \<Longrightarrow> emits P (select_write fd bs)"
  using emits_write_once [of P fd bs] unfolding emits_def select_write_def
  by (simp add: Let_def split_beta) (metis port_trace_call append_Nil2 empty_iff empty_set)

lemma emits_each: "(\<And>bs. P (Port_wrote fd bs)) \<Longrightarrow> emits P (write_each fd bs)"
proof (induction bs)
  case (Cons b bs)
  have "emits P (\<lambda>s. ok_then (select_write fd [b] s) (write_each fd bs))"
    using Cons emits_select_write by (intro emits_ok_then) auto
  then show ?case
    by (simp add: emits_def)
qed (simp add: emits_def)

lemma emits_repeat: "emits P f \<Longrightarrow> emits P (repeat_ok n f)"
proof (induction n)
  case (Suc n)
  show ?case
    unfolding repeat_ok_Suc using Suc by (intro emits_ok_then) auto
qed (simp add: emits_def)

lemma emits_checks: "emits P bootcore_version" "emits P info_size" "emits P (await n k wanted)"
proof -
  show "emits P (await n k wanted)"
    by (rule emits_nothing, induction n) (simp_all add: Let_def split_beta)
qed (rule emits_nothing; simp add: bootcore_version_def info_size_def split_beta)+

lemma emits_psi: "(\<And>bs. P (Port_wrote fd bs)) \<Longrightarrow> emits P (xmm616_psi_send fd psi)"
proof (cases "0 \<le> fd \<and> psi \<noteq> []")
  case True
  assume P: "\<And>bs. P (Port_wrote fd bs)"
  show ?thesis
    unfolding psi_send_steps [OF True [THEN conjunct1] True [THEN conjunct2]]
    by (intro emits_ok_then emits_repeat emits_write_once emits_checks emits_each emits_select_write P)
qed (auto simp: emits_def xmm616_psi_send_def)

subsection \<open>A modem that answers\<close>

lemma answered_checks: "answered bootcore_version [[XMM616_BOOTCORE_VERSION]]" "answered info_size [[b]]"
  by (simp_all add: answered_def answers_def bootcore_version_def info_size_def read_full_def port_read_def)

lemma answered_select_write: "answered (select_write fd bs) []"
  using answered_write_once [of fd bs] by (simp add: answered_def select_write_def answers_call)

lemma answered_each: "answered (write_each fd bs) []"
proof (induction bs)
  case (Cons b bs)
  have "answered (\<lambda>s. ok_then (select_write fd [b] s) (write_each fd bs)) []"
    using answered_skip [OF answered_select_write Cons] .
  then show ?case
    by (simp add: answered_def)
qed (simp add: answered_def)

text \<open>Wrong values may come before the expected one, up to fifty of them.\<close>

lemma answered_await:
  "\<lbrakk>length junk + 1 < n; \<forall>bs \<in> set junk. length bs = length wanted \<and> bs \<noteq> wanted\<rbrakk> \<Longrightarrow> answered (await n (length wanted) wanted) (junk @ [wanted])"
proof (induction junk arbitrary: n)
  case Nil
  then obtain k where n: "n = Suc (Suc k)"
    using Suc_le_D [of 1 n] by (auto simp: less_eq_Suc_le dest: Suc_le_D)
  show ?case
    unfolding answered_def
  proof (intro allI impI)
    fix s rest
    assume "answers s (([] @ [wanted]) @ rest)"
    then obtain t where "select_read (length wanted) s = (Some wanted, t)" "answers t rest"
      using select_read_answered [of s wanted rest] by auto
    then show "fst (await n (length wanted) wanted s) = 0 \<and> answers (snd (await n (length wanted) wanted s)) rest"
      by (simp add: n)
  qed
next
  case (Cons bs junk)
  obtain k where n: "n = Suc k" "length junk + 1 < k"
    using Cons.prems(1) by (cases n) simp_all
  have bs: "length bs = length wanted" "bs \<noteq> wanted" and IH: "answered (await k (length wanted) wanted) (junk @ [wanted])"
    using Cons.IH [OF n(2)] Cons.prems(2) by simp_all
  show ?case
    unfolding answered_def
  proof (intro allI impI)
    fix s rest
    assume "answers s (((bs # junk) @ [wanted]) @ rest)"
    then obtain t where t: "select_read (length wanted) s = (Some bs, t)" "answers t ((junk @ [wanted]) @ rest)"
      using select_read_answered [of s bs "(junk @ [wanted]) @ rest" "length wanted"] bs(1) by auto
    have "await n (length wanted) wanted s = await k (length wanted) wanted t"
      using t(1) bs(2) n by simp
    then show "fst (await n (length wanted) wanted s) = 0 \<and> answers (snd (await n (length wanted) wanted s)) rest"
      using IH t(2) unfolding answered_def by simp
  qed
qed

definition psi_616_answers :: "u8 \<Rightarrow> u8 list list" where
  "psi_616_answers info = [[XMM616_BOOTCORE_VERSION], [info], [XMM616_PSI_ACK]]"

lemma answered_psi_616: "0 \<le> fd \<Longrightarrow> psi \<noteq> [] \<Longrightarrow> answered (xmm616_psi_send fd psi) (psi_616_answers info)"
proof -
  assume "0 \<le> fd" "psi \<noteq> []"
  have at: "answered (repeat_ok XMM616_AT_COUNT (write_once fd (string_bytes XMM616_AT))) []"
    using answered_repeat [OF answered_write_once, of XMM616_AT_COUNT fd "string_bytes XMM616_AT"] by (simp del: repeat_ok.simps)
  have ack: "answered (await 52 1 [XMM616_PSI_ACK]) [[XMM616_PSI_ACK]]"
    using answered_await [of "[]" 52 "[XMM616_PSI_ACK]"] by simp
  show ?thesis
    unfolding psi_send_steps [OF \<open>0 \<le> fd\<close> \<open>psi \<noteq> []\<close>] psi_616_answers_def
    using answered_skip [OF at answered_ok_then [OF answered_checks(1) answered_ok_then [OF answered_checks(2) [of info]
      answered_skip [OF answered_write_once answered_skip [OF answered_write_once answered_skip [OF answered_each
      answered_skip [OF answered_select_write ack]]]]]]] by simp
qed

lemma psi_answered:
  assumes "answers s (psi_616_answers info)" and "0 \<le> fd" and "psi \<noteq> []"
  shows "\<exists>t as. xmm616_psi_send fd psi s = (0, t) \<and> answers t [] \<and> port_trace t = port_trace s @ as \<and> (\<forall>a \<in> set as. \<exists>bs. a = Port_wrote fd bs)"
proof -
  obtain rc t where t: "xmm616_psi_send fd psi s = (rc, t)"
    by fastforce
  have "rc = 0" "answers t []"
    using answered_psi_616 [OF assms(2,3), of info, unfolded answered_def, rule_format, of s "[]"] assms(1) t by simp_all
  moreover have "\<exists>as. port_trace t = port_trace s @ as \<and> (\<forall>a \<in> set as. \<exists>bs. a = Port_wrote fd bs)"
    using emits_psi [of "\<lambda>a. \<exists>bs. a = Port_wrote fd bs" fd psi] t unfolding emits_def by (metis snd_conv)
  ultimately show ?thesis
    using t by blast
qed

subsection \<open>Steps on the phone\<close>

abbreviation line :: "shared_world \<Rightarrow> modem_port" where
  "line w \<equiv> boot_port (phone w)"

lemma on_line_eq: "on_line f w = (fst (f (line w)), w\<lparr>phone := (phone w)\<lparr>boot_port := snd (f (line w))\<rparr>\<rparr>)"
  by (simp add: on_line_def on_phone_def on_port_parts)

lemma shared_open_eq: "shared_open path w = on_line (\<lambda>s. port_call 0 (port_emit (Port_opened path) s)) w"
  by (simp add: shared_open_def boot_open_def on_line_def on_phone_def)

lemma on_line_sends:
  assumes "sends f bs" and "on_line f w = (rc, w')" and "0 \<le> rc"
  shows "port_sent fd (line w') = port_sent fd (line w) @ bs fd" and "boot_files (phone w') = boot_files (phone w)"
    and "boot_specs (phone w') = boot_specs (phone w)" and "shared w' = shared w"
  using sendsD [OF assms(1), of "line w" "fst (f (line w))" "snd (f (line w))" fd] assms(2,3) by (auto simp: on_line_eq)

lemma sends_silent: "sends (port_ioctl fd name arg rc) (\<lambda>fd. [])" "sends (\<lambda>s. port_call rc (port_emit (Port_opened path) s)) (\<lambda>fd. [])"
  by (rule sends_nothing; simp add: port_ioctl_def)+

lemma shared_close_eq [simp]:
  "port_sent fd (line (shared_close fd' w)) = port_sent fd (line w)" "boot_files (phone (shared_close fd' w)) = boot_files (phone w)"
  by (simp_all add: shared_close_def boot_close_def)

lemma take_overwrite: "n \<le> pos \<Longrightarrow> n \<le> length old \<Longrightarrow> take n (overwrite pos bs old) = take n old"
  by (auto simp: overwrite_def)

end
