(* ===== verification/Dev_Crespo.thy ===== *)
theory Dev_Crespo
  imports Xmm616
begin

section \<open>libsamsung-ipc: the Nexus S\<close>

text \<open>
  \<open>devices/crespo/crespo.c\<close>. The modem's device takes the firmware and the data at the position that \<open>lseek\<close> sets, and later exchanges messages as structures \<open>modem_io\<close> through
  \<open>ioctl\<close>. What the device makes of the boot is \<open>device_after\<close>, a reading of the actions that were taken.
\<close>

subsection \<open>Constants (crespo.h)\<close>

definition CRESPO_MODEM_IMAGE_SIZE :: nat where "CRESPO_MODEM_IMAGE_SIZE = 0xD80000"
definition CRESPO_PSI_SIZE :: nat where "CRESPO_PSI_SIZE = 0x5000"
definition CRESPO_MODEM_CTL_NV_DATA_OFFSET :: nat where "CRESPO_MODEM_CTL_NV_DATA_OFFSET = 0xD80000"
definition CRESPO_BUFFER_LENGTH :: nat where "CRESPO_BUFFER_LENGTH = 0x50000"
definition CRESPO_GPRS_IFACE_COUNT :: nat where "CRESPO_GPRS_IFACE_COUNT = 3"
definition CRESPO_MODEM_IMAGE_DEVICE :: string where "CRESPO_MODEM_IMAGE_DEVICE = ''/dev/mtd/mtd5ro''"
definition CRESPO_MODEM_SERIAL_DEVICE :: string where "CRESPO_MODEM_SERIAL_DEVICE = ''/dev/s3c2410_serial3''"
definition CRESPO_MODEM_CTL_DEVICE :: string where "CRESPO_MODEM_CTL_DEVICE = ''/dev/modem_ctl''"
definition CRESPO_MODEM_FMT_DEVICE :: string where "CRESPO_MODEM_FMT_DEVICE = ''/dev/modem_fmt''"
definition CRESPO_MODEM_RFS_DEVICE :: string where "CRESPO_MODEM_RFS_DEVICE = ''/dev/modem_rfs''"

subsection \<open>Starting the modem\<close>

text \<open>\<open>lseek\<close>; the code ignores its result.\<close>

definition port_seek :: "int \<Rightarrow> nat \<Rightarrow> modem_port \<Rightarrow> int \<times> modem_port" where
  "port_seek fd off s = (let (rc, s) = port_call (int off) s in (0, if rc < 0 then s else port_emit (Port_seek fd (int off)) s))"

definition crespo_load :: "md5_fun \<Rightarrow> u8 list \<Rightarrow> int \<Rightarrow> int \<Rightarrow> shared_world \<Rightarrow> (int \<times> shared_world) option" where
  "crespo_load md5 img ctl_fd serial_fd w =
     ok_do (Some (on_line (xmm616_psi_send serial_fd (take CRESPO_PSI_SIZE img)) w)) (\<lambda>w.
     ok_do (Some (on_line (port_seek ctl_fd 0) w)) (\<lambda>w.
     ok_do (xmm616_firmware_send ctl_fd None (drop CRESPO_PSI_SIZE img) w) (\<lambda>w.
     ok_do (Some (on_line (port_seek ctl_fd CRESPO_MODEM_CTL_NV_DATA_OFFSET) w)) (\<lambda>w.
     xmm616_nv_data_send md5 ctl_fd None w))))"

definition crespo_boot :: "md5_fun \<Rightarrow> shared_world \<Rightarrow> (int \<times> shared_world) option" where
  "crespo_boot md5 w =
     (case file_data_read (Some CRESPO_MODEM_IMAGE_DEVICE) CRESPO_MODEM_IMAGE_SIZE 0x1000 0 (boot_files (phone w)) of (r, fs) \<Rightarrow>
      let w = w\<lparr>phone := (phone w)\<lparr>boot_files := fs\<rparr>\<rparr> in
      case r of
        None \<Rightarrow> Some (-1, w)
      | Some img \<Rightarrow>
          let (ctl_fd, w) = shared_open CRESPO_MODEM_CTL_DEVICE w in
          if ctl_fd < 0 then Some (-1, w)
          else
            let (rc, w) = on_line (port_ioctl ctl_fd ''IOCTL_MODEM_RESET'' 0 0) w in
            if rc < 0 then Some (-1, shared_close ctl_fd w)
            else
              let (serial_fd, w) = shared_open CRESPO_MODEM_SERIAL_DEVICE w in
              if serial_fd < 0 then Some (-1, shared_close ctl_fd w)
              else map_option (\<lambda>(rc, w). (if rc < 0 then -1 else 0, shared_close ctl_fd (shared_close serial_fd w)))
                (crespo_load md5 img ctl_fd serial_fd w))"

subsection \<open>The device\<close>

definition crespo_open :: "int option \<Rightarrow> int \<Rightarrow> modem_port \<Rightarrow> (int \<times> int option) \<times> modem_port" where
  "crespo_open data type s = (if data = None then ((-1, data), s)
     else if type \<noteq> IPC_CLIENT_TYPE_FMT \<and> type \<noteq> IPC_CLIENT_TYPE_RFS then ((-1, data), s)
     else
       let (fd, s) = port_call 0 (port_emit (Port_opened (if type = IPC_CLIENT_TYPE_FMT then CRESPO_MODEM_FMT_DEVICE else CRESPO_MODEM_RFS_DEVICE)) s) in
       (if fd < 0 then (-1, data) else (0, Some fd), s))"

definition crespo_close :: "int option \<Rightarrow> modem_port \<Rightarrow> (int \<times> int option) \<times> modem_port" where
  "crespo_close data s = (case data of None \<Rightarrow> ((-1, data), s)
     | Some fd \<Rightarrow> if fd < 0 then ((-1, data), s) else ((0, Some (-1)), port_emit (Port_closed fd) s))"

text \<open>The descriptors and their count as \<open>select\<close> leaves them; asking the set about a negative descriptor is undefined.\<close>

definition crespo_poll :: "int option \<Rightarrow> int list \<Rightarrow> int \<Rightarrow> int list \<Rightarrow> (int \<times> int list \<times> nat) option" where
  "crespo_poll data fds rc ready = (case data of None \<Rightarrow> Some (-1, fds, length fds)
     | Some fd \<Rightarrow> if fd < 0 then Some (-1, fds, length fds)
       else if \<exists>x \<in> set fds. x < 0 then None
       else Some (rc, map (\<lambda>x. if x \<in> set ready then x else -1) fds, length (filter (\<lambda>x. x \<in> set ready) fds)))"

definition crespo_modem_ioctl :: "string \<Rightarrow> modem_port \<Rightarrow> int \<times> modem_port" where
  "crespo_modem_ioctl name s =
     (let (fd, s) = port_call 0 (port_emit (Port_opened CRESPO_MODEM_CTL_DEVICE) s) in
      if fd < 0 then (-1, s)
      else let (rc, s) = port_ioctl fd name 0 0 s in (if rc < 0 then -1 else 0, port_emit (Port_closed fd) s))"

definition crespo_power_on :: "modem_port \<Rightarrow> int \<times> modem_port" where "crespo_power_on = crespo_modem_ioctl ''IOCTL_MODEM_START''"
definition crespo_power_off :: "modem_port \<Rightarrow> int \<times> modem_port" where "crespo_power_off = crespo_modem_ioctl ''IOCTL_MODEM_OFF''"

definition crespo_data_create :: "int \<times> int option" where "crespo_data_create = (0, Some 0)"

definition crespo_data_destroy :: "int option \<Rightarrow> int" where
  "crespo_data_destroy data = (if data = None then -1 else 0)"

definition crespo_gprs_activate :: "u32 \<Rightarrow> int" where "crespo_gprs_activate cid = 0"
definition crespo_gprs_deactivate :: "u32 \<Rightarrow> int" where "crespo_gprs_deactivate cid = 0"

definition crespo_gprs_get_iface_single :: "u32 \<Rightarrow> string" where
  "crespo_gprs_get_iface_single cid = ''rmnet'' @ print_int 0"

definition crespo_gprs_get_capabilities_single :: nat where "crespo_gprs_get_capabilities_single = 1"

definition crespo_gprs_get_iface :: "u32 \<Rightarrow> string option" where
  "crespo_gprs_get_iface cid = (if unat cid > CRESPO_GPRS_IFACE_COUNT then None else Some (''rmnet'' @ print_int (sint (cid - 1))))"

definition crespo_gprs_get_capabilities :: nat where "crespo_gprs_get_capabilities = CRESPO_GPRS_IFACE_COUNT"

definition crespo_nv_data_specs :: "ipc_client_nv_data_specs option" where "crespo_nv_data_specs = xmm616_nv_data_specs"

subsection \<open>Messages (crespo_modem_ctl.h)\<close>

text \<open>The structure that the \<open>ioctl\<close> of the driver reads or fills. \<open>io_data\<close> are the bytes that its pointer leads to, \<open>None\<close> for \<open>NULL\<close>.\<close>

record modem_io =
  io_size :: u32
  io_id :: u32
  io_cmd :: u32
  io_data :: "u8 list option"

text \<open>The driver's side: results of the calls as for \<open>modem_port\<close>, the structures that reading will fill in, and those that were sent.\<close>

record modem_link =
  link_calls :: "int list"
  link_arrived :: "modem_io list"
  link_sent :: "modem_io list"

definition link_call :: "modem_link \<Rightarrow> int \<times> modem_link" where
  "link_call s = (case link_calls s of [] \<Rightarrow> 0 | r # _ \<Rightarrow> r, s\<lparr>link_calls := drop 1 (link_calls s)\<rparr>)"

definition crespo_write :: "int option \<Rightarrow> modem_io \<Rightarrow> modem_link \<Rightarrow> int \<times> modem_link" where
  "crespo_write data mio s = (case data of None \<Rightarrow> (-1, s)
     | Some fd \<Rightarrow> if fd < 0 then (-1, s)
       else let (rc, s) = link_call s in if rc < 0 then (-1, s) else (0, s\<lparr>link_sent := link_sent s @ [mio]\<rparr>))"

definition crespo_read :: "int option \<Rightarrow> modem_link \<Rightarrow> modem_io option \<times> modem_link" where
  "crespo_read data s = (case data of None \<Rightarrow> (None, s)
     | Some fd \<Rightarrow> if fd < 0 then (None, s)
       else let (rc, s) = link_call s in
         if rc < 0 then (None, s)
         else case link_arrived s of [] \<Rightarrow> (None, s) | mio # rest \<Rightarrow> (Some mio, s\<lparr>link_arrived := rest\<rparr>))"

text \<open>What a buffer that was cleared holds after the driver has written to it.\<close>

definition io_buffer :: "u8 list \<Rightarrow> u8 list" where
  "io_buffer bs = take CRESPO_BUFFER_LENGTH (bs @ replicate (CRESPO_BUFFER_LENGTH - length bs) 0)"

text \<open>Copying into a buffer that is too small because its size has wrapped around is undefined.\<close>

definition crespo_fmt_send :: "int option \<Rightarrow> ipc_message \<Rightarrow> modem_link \<Rightarrow> (int \<times> modem_link) option" where
  "crespo_fmt_send data message s =
     (let io_sz = of_nat (length (msg_data message)) + 7 in
      if unat io_sz < 7 + length (msg_data message) then None
      else
        let mio = \<lparr>io_size = io_sz, io_id = 0, io_cmd = 0,
              io_data = Some (fmt_header_bytes (ipc_fmt_header_setup message) @ msg_data message)\<rparr>;
            (rc, s) = crespo_write data mio s in
        Some (if rc < 0 then -1 else 0, s))"

definition crespo_fmt_recv :: "int option \<Rightarrow> modem_link \<Rightarrow> ipc_message option \<times> modem_link" where
  "crespo_fmt_recv data s =
     (case crespo_read data s of
        (None, s) \<Rightarrow> (None, s)
      | (Some mio, s) \<Rightarrow> (case io_data mio of
          None \<Rightarrow> (None, s)
        | Some bs \<Rightarrow>
            if unat (io_size mio) < 7 \<or> CRESPO_BUFFER_LENGTH < unat (io_size mio) then (None, s)
            else (map_option (\<lambda>header. (ipc_fmt_message_setup header)\<lparr>msg_data := drop 7 (take (unat (io_size mio)) (io_buffer bs))\<rparr>)
              (fmt_header_read (io_buffer bs)), s)))"

definition crespo_rfs_send :: "int option \<Rightarrow> ipc_message \<Rightarrow> modem_link \<Rightarrow> int \<times> modem_link" where
  "crespo_rfs_send data message s =
     (let mio = \<lparr>io_size = of_nat (length (msg_data message)), io_id = ucast (msg_mseq message), io_cmd = ucast (IPC_INDEX (msg_command message)),
            io_data = (if msg_data message = [] then None else Some (msg_data message))\<rparr>;
          (rc, s) = crespo_write data mio s in
      (if rc < 0 then -1 else 0, s))"

definition crespo_rfs_recv :: "int option \<Rightarrow> modem_link \<Rightarrow> ipc_message option \<times> modem_link" where
  "crespo_rfs_recv data s =
     (case crespo_read data s of
        (None, s) \<Rightarrow> (None, s)
      | (Some mio, s) \<Rightarrow> (case io_data mio of
          None \<Rightarrow> (None, s)
        | Some bs \<Rightarrow>
            if io_size mio = 0 \<or> CRESPO_BUFFER_LENGTH < unat (io_size mio) then (None, s)
            else (Some \<lparr>msg_mseq = 0, msg_aseq = ucast (io_id mio), msg_command = ucast (push_bit 8 (ucast IPC_GROUP_RFS :: u32) OR io_cmd mio), msg_type = 0,
              msg_data = take (unat (io_size mio)) (io_buffer bs)\<rparr>, s)))"

subsection \<open>What a boot has sent\<close>

lemma sends_seek: "sends (port_seek fd off) (\<lambda>fd. [])"
  by (rule sends_nothing) (simp add: port_seek_def Let_def split_beta)

lemma firmware_sent:
  assumes "xmm616_firmware_send fd None data w = Some (rc, w')" and "0 \<le> rc"
  shows "port_sent fd' (line w') = port_sent fd' (line w) @ on_fd fd data fd'" and "boot_files (phone w') = boot_files (phone w)"
    and "boot_specs (phone w') = boot_specs (phone w)"
proof -
  have "on_line (write_chunks (length data) fd data) w = (rc, w')"
    using assms by (simp add: xmm616_firmware_send_def data_copy_def split: if_splits)
  note on_line_sends [OF sends_chunks this assms(2)]
  then show "port_sent fd' (line w') = port_sent fd' (line w) @ on_fd fd data fd'" "boot_files (phone w') = boot_files (phone w)"
    "boot_specs (phone w') = boot_specs (phone w)"
    by blast+
qed

lemma nv_data_sent:
  assumes "xmm616_nv_data_send md5 fd None w = Some (rc, w')" and "0 \<le> rc" and "digest_ok md5" and "distinct [p, m, b, bm]"
    and "boot_specs (phone w) = nv_specs p m b bm sec sz c"
  shows "\<exists>data. (\<forall>fd'. port_sent fd' (line w') = port_sent fd' (line w) @ on_fd fd data fd') \<and>
    intact md5 sec sz p m (boot_files (phone w')) \<and> files (boot_files (phone w')) p = Some data"
proof -
  obtain r fs where load: "ipc_nv_data_load md5 (boot_specs (phone w)) (boot_files (phone w)) = (r, fs)"
    by fastforce
  let ?w = "w\<lparr>phone := (phone w)\<lparr>boot_files := fs\<rparr>\<rparr>"
  obtain data where data: "r = Some data" "on_line (write_chunks (length data) fd data) ?w = (rc, w')"
    using assms(1,2) load by (auto simp: xmm616_nv_data_send_def data_copy_def Let_def split: if_splits option.splits)
  have "intact md5 sec sz p m fs \<and> files fs p = Some data"
    using nv_load_sound [OF assms(3,4)] load data(1) assms(5) by simp
  then show ?thesis
    using on_line_sends [OF sends_chunks data(2) assms(2)] by auto
qed

lemma crespo_load_sent:
  assumes "crespo_load md5 img ctl_fd serial_fd w = Some (rc, w')" and "0 \<le> rc" and "digest_ok md5" and "distinct [p, m, b, bm]"
    and "boot_specs (phone w) = nv_specs p m b bm sec sz c"
  shows "\<exists>data. (\<forall>fd. port_sent fd (line w') = port_sent fd (line w) @ on_fd serial_fd (psi_frame (take CRESPO_PSI_SIZE img)) fd @
      on_fd ctl_fd (drop CRESPO_PSI_SIZE img @ data) fd) \<and>
    intact md5 sec sz p m (boot_files (phone w')) \<and> files (boot_files (phone w')) p = Some data"
proof -
  note steps = assms(1) [unfolded crespo_load_def]
  obtain q1 w1 where 1: "on_line (xmm616_psi_send serial_fd (take CRESPO_PSI_SIZE img)) w = (q1, w1)" "0 \<le> q1"
    and r1: "ok_do (Some (on_line (port_seek ctl_fd 0) w1)) (\<lambda>w. ok_do (xmm616_firmware_send ctl_fd None (drop CRESPO_PSI_SIZE img) w) (\<lambda>w.
      ok_do (Some (on_line (port_seek ctl_fd CRESPO_MODEM_CTL_NV_DATA_OFFSET) w)) (xmm616_nv_data_send md5 ctl_fd None))) = Some (rc, w')"
    using ok_do_Some [OF steps assms(2)] by auto
  obtain q2 w2 where 2: "on_line (port_seek ctl_fd 0) w1 = (q2, w2)" "0 \<le> q2"
    and r2: "ok_do (xmm616_firmware_send ctl_fd None (drop CRESPO_PSI_SIZE img) w2) (\<lambda>w.
      ok_do (Some (on_line (port_seek ctl_fd CRESPO_MODEM_CTL_NV_DATA_OFFSET) w)) (xmm616_nv_data_send md5 ctl_fd None)) = Some (rc, w')"
    using ok_do_Some [OF r1 assms(2)] by auto
  obtain q3 w3 where 3: "xmm616_firmware_send ctl_fd None (drop CRESPO_PSI_SIZE img) w2 = Some (q3, w3)" "0 \<le> q3"
    and r3: "ok_do (Some (on_line (port_seek ctl_fd CRESPO_MODEM_CTL_NV_DATA_OFFSET) w3)) (xmm616_nv_data_send md5 ctl_fd None) = Some (rc, w')"
    using ok_do_Some [OF r2 assms(2)] by auto
  obtain q4 w4 where 4: "on_line (port_seek ctl_fd CRESPO_MODEM_CTL_NV_DATA_OFFSET) w3 = (q4, w4)" "0 \<le> q4"
    and nv: "xmm616_nv_data_send md5 ctl_fd None w4 = Some (rc, w')"
    using ok_do_Some [OF r3 assms(2)] by auto
  note s1 = on_line_sends [OF sends_psi 1] and s2 = on_line_sends [OF sends_seek 2] and s4 = on_line_sends [OF sends_seek 4]
  have "boot_specs (phone w4) = nv_specs p m b bm sec sz c"
    using s1(3) s2(3) firmware_sent(3) [OF 3] s4(3) assms(5) by simp
  from nv_data_sent [OF nv assms(2-4) this] obtain data where data: "\<forall>fd. port_sent fd (line w') = port_sent fd (line w4) @ on_fd ctl_fd data fd"
    "intact md5 sec sz p m (boot_files (phone w'))" "files (boot_files (phone w')) p = Some data"
    by blast
  have "port_sent fd (line w') = port_sent fd (line w) @ on_fd serial_fd (psi_frame (take CRESPO_PSI_SIZE img)) fd @
      on_fd ctl_fd (drop CRESPO_PSI_SIZE img @ data) fd" for fd
    using data(1) s1(1) [of fd] s2(1) [of fd] s4(1) [of fd] firmware_sent(1) [OF 3, of fd] by (simp add: on_fd_def)
  then show ?thesis
    using data(2,3) by blast
qed

lemma crespo_boot_sent:
  assumes "crespo_boot md5 w = Some (0, w')" and "digest_ok md5" and "distinct [p, m, b, bm]" and "boot_specs (phone w) = nv_specs p m b bm sec sz c"
  shows "\<exists>img ctl_fd serial_fd data. img = take CRESPO_MODEM_IMAGE_SIZE (content CRESPO_MODEM_IMAGE_DEVICE (boot_files (phone w))) \<and>
    length img = CRESPO_MODEM_IMAGE_SIZE \<and>
    (\<forall>fd. port_sent fd (line w') = port_sent fd (line w) @ on_fd serial_fd (psi_frame (take CRESPO_PSI_SIZE img)) fd @
      on_fd ctl_fd (drop CRESPO_PSI_SIZE img @ data) fd) \<and>
    intact md5 sec sz p m (boot_files (phone w')) \<and> files (boot_files (phone w')) p = Some data"
proof -
  obtain r fs where rd: "file_data_read (Some CRESPO_MODEM_IMAGE_DEVICE) CRESPO_MODEM_IMAGE_SIZE 0x1000 0 (boot_files (phone w)) = (r, fs)"
    by fastforce
  define w1 where "w1 = w\<lparr>phone := (phone w)\<lparr>boot_files := fs\<rparr>\<rparr>"
  obtain ctl_fd w2 where 2: "shared_open CRESPO_MODEM_CTL_DEVICE w1 = (ctl_fd, w2)"
    by fastforce
  obtain rc3 w3 where 3: "on_line (port_ioctl ctl_fd ''IOCTL_MODEM_RESET'' 0 0) w2 = (rc3, w3)"
    by fastforce
  obtain serial_fd w4 where 4: "shared_open CRESPO_MODEM_SERIAL_DEVICE w3 = (serial_fd, w4)"
    by fastforce
  obtain img rc5 w5 where r: "r = Some img" and fds: "0 \<le> ctl_fd" "0 \<le> rc3" "0 \<le> serial_fd"
    and 5: "crespo_load md5 img ctl_fd serial_fd w4 = Some (rc5, w5)" "0 \<le> rc5" and w': "w' = shared_close ctl_fd (shared_close serial_fd w5)"
    using assms(1) rd 2 3 4 by (auto simp: crespo_boot_def w1_def [symmetric] Let_def split: if_splits option.splits)
  note s2 = on_line_sends [OF sends_silent(2) 2 [unfolded shared_open_eq] fds(1)] and s3 = on_line_sends [OF sends_silent(1) 3 fds(2)]
    and s4 = on_line_sends [OF sends_silent(2) 4 [unfolded shared_open_eq] fds(3)]
  have specs: "boot_specs (phone w4) = nv_specs p m b bm sec sz c"
    using s2(3) s3(3) s4(3) assms(4) by (simp add: w1_def)
  have image: "img = take CRESPO_MODEM_IMAGE_SIZE (content CRESPO_MODEM_IMAGE_DEVICE (boot_files (phone w)))" "length img = CRESPO_MODEM_IMAGE_SIZE"
    using file_data_read_result [OF rd] r unfolding start_of_zero by (metis drop_0)+
  have "port_sent fd (line w4) = port_sent fd (line w)" for fd
    using s2(1) [of fd] s3(1) [of fd] s4(1) [of fd] by (simp add: w1_def)
  then show ?thesis
    using crespo_load_sent [OF 5 assms(2,3) specs] image unfolding w' shared_close_eq by metis
qed

subsection \<open>What the device makes of it\<close>

text \<open>The position and the contents of a device, as the actions of a trace change them.\<close>

fun device_step :: "int \<Rightarrow> port_action \<Rightarrow> nat \<times> u8 list \<Rightarrow> nat \<times> u8 list" where
  "device_step fd (Port_wrote fd' bs) (pos, memory) = (if fd' = fd then (pos + length bs, overwrite pos bs memory) else (pos, memory))"
| "device_step fd (Port_seek fd' off) (pos, memory) = (if fd' = fd then nat off else pos, memory)"
| "device_step fd _ device = device"

definition device_after :: "int \<Rightarrow> port_action list \<Rightarrow> nat \<times> u8 list \<Rightarrow> nat \<times> u8 list" where
  "device_after fd as device = fold (device_step fd) as device"

lemma device_after_simps [simp]:
  "device_after fd [] device = device" "device_after fd (a # as) device = device_after fd as (device_step fd a device)"
  "device_after fd (as @ bs) device = device_after fd bs (device_after fd as device)"
  by (simp_all add: device_after_def)

lemma device_after_other: "\<forall>a \<in> set as. \<exists>bs. a = Port_wrote fd' bs \<Longrightarrow> fd' \<noteq> fd \<Longrightarrow> device_after fd as device = device"
proof (induction as arbitrary: device)
  case (Cons a as)
  then show ?case
    by (cases device) auto
qed simp

text \<open>What an answering modem makes of the steps.\<close>

lemma write_chunks_answered:
  assumes "answers s as" and "data \<noteq> []"
  shows "write_chunks (length data) fd data s = (0, port_emit (Port_wrote fd data) s)"
  using assms by (simp add: write_chunks.simps [of "length data"] port_write_quiet [OF assms(1)] write_chunks.simps [of "length data" fd "[]"])

lemma port_seek_answered: "answers s as \<Longrightarrow> port_seek fd off s = (0, port_emit (Port_seek fd (int off)) s)"
  by (simp add: port_seek_def answers_call)

lemma crespo_load_answered:
  assumes "answers (line w) (psi_616_answers info)" and "0 \<le> ctl_fd" and "0 \<le> serial_fd" and "length img = CRESPO_MODEM_IMAGE_SIZE"
    and "ipc_nv_data_load md5 (boot_specs (phone w)) (boot_files (phone w)) = (Some data, fs)" and "data \<noteq> []"
    and "ipc_client_nv_data_size (boot_specs (phone w)) \<noteq> 0"
  shows "\<exists>w' as. crespo_load md5 img ctl_fd serial_fd w = Some (0, w') \<and> (\<forall>a \<in> set as. \<exists>bs. a = Port_wrote serial_fd bs) \<and>
    port_trace (line w') = port_trace (line w) @ as @ [Port_seek ctl_fd 0, Port_wrote ctl_fd (drop CRESPO_PSI_SIZE img),
      Port_seek ctl_fd (int CRESPO_MODEM_CTL_NV_DATA_OFFSET), Port_wrote ctl_fd data]"
proof -
  have parts: "take CRESPO_PSI_SIZE img \<noteq> []" "drop CRESPO_PSI_SIZE img \<noteq> []"
    using assms(4) by (auto simp: CRESPO_PSI_SIZE_def CRESPO_MODEM_IMAGE_SIZE_def)
  obtain t as where t: "xmm616_psi_send serial_fd (take CRESPO_PSI_SIZE img) (line w) = (0, t)" "answers t []"
    and as: "port_trace t = port_trace (line w) @ as" "\<forall>a \<in> set as. \<exists>bs. a = Port_wrote serial_fd bs"
    using psi_answered [OF assms(1,3) parts(1)] by blast
  have quiet: "answers (port_emit a u) []" if "answers u []" for a u
    using that by simp
  note a1 = t(2) and a2 = quiet [OF t(2)] and a3 = quiet [OF quiet [OF t(2)]] and a4 = quiet [OF quiet [OF quiet [OF t(2)]]]
  have "\<exists>w'. crespo_load md5 img ctl_fd serial_fd w = Some (0, w') \<and>
    line w' = port_emit (Port_wrote ctl_fd data) (port_emit (Port_seek ctl_fd (int CRESPO_MODEM_CTL_NV_DATA_OFFSET))
      (port_emit (Port_wrote ctl_fd (drop CRESPO_PSI_SIZE img)) (port_emit (Port_seek ctl_fd 0) t)))"
    using assms(2,5-7) parts t(1)
    by (simp add: crespo_load_def ok_do_def on_line_eq xmm616_firmware_send_def xmm616_nv_data_send_def data_copy_def Let_def
      port_seek_answered [OF a1] write_chunks_answered [OF a2 parts(2), simplified] port_seek_answered [OF a3] write_chunks_answered [OF a4 assms(6)])
  then show ?thesis
    using as by force
qed

text \<open>The boot of a phone on which no system call fails: the script gives the two opened descriptors.\<close>

lemma crespo_boot_answered:
  assumes "port_calls (line w) = [ctl_fd, 0, serial_fd]" and "0 \<le> ctl_fd" and "0 \<le> serial_fd" and "port_reads (line w) = psi_616_answers info"
    and "file_data_read (Some CRESPO_MODEM_IMAGE_DEVICE) CRESPO_MODEM_IMAGE_SIZE 0x1000 0 (boot_files (phone w)) = (Some img, fs)"
    and "ipc_nv_data_load md5 (boot_specs (phone w)) fs = (Some data, fs')" and "data \<noteq> []" and "ipc_client_nv_data_size (boot_specs (phone w)) \<noteq> 0"
  shows "\<exists>w' as. crespo_boot md5 w = Some (0, w') \<and> (\<forall>a \<in> set as. \<exists>bs. a = Port_wrote serial_fd bs) \<and>
    port_trace (line w') = port_trace (line w) @ [Port_opened CRESPO_MODEM_CTL_DEVICE, Port_ioctl ctl_fd ''IOCTL_MODEM_RESET'' 0,
        Port_opened CRESPO_MODEM_SERIAL_DEVICE] @ as @ [Port_seek ctl_fd 0, Port_wrote ctl_fd (drop CRESPO_PSI_SIZE img),
        Port_seek ctl_fd (int CRESPO_MODEM_CTL_NV_DATA_OFFSET), Port_wrote ctl_fd data, Port_closed serial_fd, Port_closed ctl_fd]"
proof -
  have len: "length img = CRESPO_MODEM_IMAGE_SIZE"
    using file_data_read_result [OF assms(5)] by blast
  define s where "s = port_emit (Port_opened CRESPO_MODEM_SERIAL_DEVICE) (port_emit (Port_ioctl ctl_fd ''IOCTL_MODEM_RESET'' 0)
    (port_emit (Port_opened CRESPO_MODEM_CTL_DEVICE) (line w)))\<lparr>port_calls := []\<rparr>"
  define v where "v = w\<lparr>phone := (phone w)\<lparr>boot_files := fs, boot_port := s\<rparr>\<rparr>"
  have "answers (line v) (psi_616_answers info)"
    using assms(4) by (simp add: v_def s_def answers_def port_emit_def)
  moreover have "boot_specs (phone v) = boot_specs (phone w)" "boot_files (phone v) = fs"
    by (simp_all add: v_def)
  ultimately obtain w5 as where 5: "crespo_load md5 img ctl_fd serial_fd v = Some (0, w5)" "\<forall>a \<in> set as. \<exists>bs. a = Port_wrote serial_fd bs"
    "port_trace (line w5) = port_trace (line v) @ as @ [Port_seek ctl_fd 0, Port_wrote ctl_fd (drop CRESPO_PSI_SIZE img),
      Port_seek ctl_fd (int CRESPO_MODEM_CTL_NV_DATA_OFFSET), Port_wrote ctl_fd data]"
    using crespo_load_answered [of v info ctl_fd serial_fd img md5 data fs'] assms(2,3,6-8) len by auto
  have "crespo_boot md5 w = Some (0, shared_close ctl_fd (shared_close serial_fd w5))"
    using assms(1-3,5) 5(1)
    by (simp add: crespo_boot_def shared_open_eq on_line_eq port_call_def port_ioctl_def port_emit_def v_def s_def)
  then show ?thesis
    using 5(2,3) assms(2,3) by (simp add: shared_close_def boot_close_def v_def s_def)
qed

subsection \<open>Properties\<close>

text \<open>A boot of the Nexus S that reports success, whatever single calls returned, has read the whole image of the modem's software, has sent the boot loader with its length and its checksum to
  the serial line and after it the rest of the image and the phone's verified data to the modem's device, all of it and in order, and nothing else.\<close>

theorem crespo_boot_delivers:
  assumes "crespo_boot md5 w = Some (0, w')" and "digest_ok md5" and "distinct [p, m, b, bm]" and "boot_specs (phone w) = nv_specs p m b bm sec sz c"
  shows "\<exists>img ctl_fd serial_fd data. img = take CRESPO_MODEM_IMAGE_SIZE (content CRESPO_MODEM_IMAGE_DEVICE (boot_files (phone w))) \<and>
    length img = CRESPO_MODEM_IMAGE_SIZE \<and>
    (\<forall>fd. port_sent fd (line w') = port_sent fd (line w) @ on_fd serial_fd (psi_frame (take CRESPO_PSI_SIZE img)) fd @
      on_fd ctl_fd (drop CRESPO_PSI_SIZE img @ data) fd) \<and>
    intact md5 sec sz p m (boot_files (phone w')) \<and> files (boot_files (phone w')) p = Some data"
  using assms by (rule crespo_boot_sent)

text \<open>C17. When the modem answers and no call fails, the boot succeeds and the memory behind the modem's device holds the firmware at its beginning and the phone's data at their address,
  whatever was there before.\<close>

theorem crespo_boot_places:
  assumes "port_calls (line w) = [ctl_fd, 0, serial_fd]" and "0 \<le> ctl_fd" and "0 \<le> serial_fd" and "ctl_fd \<noteq> serial_fd"
    and "port_reads (line w) = psi_616_answers info"
    and "file_data_read (Some CRESPO_MODEM_IMAGE_DEVICE) CRESPO_MODEM_IMAGE_SIZE 0x1000 0 (boot_files (phone w)) = (Some img, fs)"
    and "ipc_nv_data_load md5 (boot_specs (phone w)) fs = (Some data, fs')" and "data \<noteq> []" and "ipc_client_nv_data_size (boot_specs (phone w)) \<noteq> 0"
  shows "\<exists>w' as. crespo_boot md5 w = Some (0, w') \<and> port_trace (line w') = port_trace (line w) @ as \<and>
    (\<forall>device. let memory = snd (device_after ctl_fd as device) in
       take (CRESPO_MODEM_IMAGE_SIZE - CRESPO_PSI_SIZE) memory = drop CRESPO_PSI_SIZE img \<and>
       take (length data) (drop CRESPO_MODEM_CTL_NV_DATA_OFFSET memory) = data)"
proof -
  have len: "length (drop CRESPO_PSI_SIZE img) = CRESPO_MODEM_IMAGE_SIZE - CRESPO_PSI_SIZE"
    using file_data_read_result [OF assms(6)] by (metis length_drop)
  have "take (CRESPO_MODEM_IMAGE_SIZE - CRESPO_PSI_SIZE) (overwrite CRESPO_MODEM_CTL_NV_DATA_OFFSET data (overwrite 0 (drop CRESPO_PSI_SIZE img) memory)) =
    drop CRESPO_PSI_SIZE img" for memory
  proof -
    have "take (CRESPO_MODEM_IMAGE_SIZE - CRESPO_PSI_SIZE) (overwrite CRESPO_MODEM_CTL_NV_DATA_OFFSET data (overwrite 0 (drop CRESPO_PSI_SIZE img) memory)) =
      take (CRESPO_MODEM_IMAGE_SIZE - CRESPO_PSI_SIZE) (overwrite 0 (drop CRESPO_PSI_SIZE img) memory)"
      using len by (intro take_overwrite) (auto simp: length_overwrite CRESPO_MODEM_IMAGE_SIZE_def CRESPO_PSI_SIZE_def CRESPO_MODEM_CTL_NV_DATA_OFFSET_def)
    also have "\<dots> = drop CRESPO_PSI_SIZE img"
      using overwrite_slice [of "drop CRESPO_PSI_SIZE img" 0 memory] len by simp
    finally show ?thesis .
  qed
  moreover obtain w' as where boot: "crespo_boot md5 w = Some (0, w')" "\<forall>a \<in> set as. \<exists>bs. a = Port_wrote serial_fd bs"
    "port_trace (line w') = port_trace (line w) @ [Port_opened CRESPO_MODEM_CTL_DEVICE, Port_ioctl ctl_fd ''IOCTL_MODEM_RESET'' 0,
        Port_opened CRESPO_MODEM_SERIAL_DEVICE] @ as @ [Port_seek ctl_fd 0, Port_wrote ctl_fd (drop CRESPO_PSI_SIZE img),
        Port_seek ctl_fd (int CRESPO_MODEM_CTL_NV_DATA_OFFSET), Port_wrote ctl_fd data, Port_closed serial_fd, Port_closed ctl_fd]"
    (is "_ = _ @ ?as")
    using crespo_boot_answered [OF assms(1-3,5-9)] by blast
  moreover have "snd (device_after ctl_fd ?as (pos, memory)) = overwrite CRESPO_MODEM_CTL_NV_DATA_OFFSET data (overwrite 0 (drop CRESPO_PSI_SIZE img) memory)"
    for pos memory
    using device_after_other [OF boot(2)] assms(4) by simp
  ultimately have "take (CRESPO_MODEM_IMAGE_SIZE - CRESPO_PSI_SIZE) (snd (device_after ctl_fd ?as device)) = drop CRESPO_PSI_SIZE img \<and>
      take (length data) (drop CRESPO_MODEM_CTL_NV_DATA_OFFSET (snd (device_after ctl_fd ?as device))) = data" for device
    by (cases device) (simp only: overwrite_slice simp_thms)
  then show ?thesis
    using boot(1,3) unfolding Let_def by blast
qed

text \<open>Messages cross the modem's device unchanged, with up to 327673 bytes of data: the size of the structure counts, so that a message survives whose length no longer fits the header.\<close>

theorem crespo_message_crosses:
  assumes "0 \<le> fd" and "0 \<le> fd'" and "link_calls s = []" and "length (msg_data message) + 7 \<le> CRESPO_BUFFER_LENGTH"
  shows "\<exists>mio. crespo_fmt_send (Some fd) message s = Some (0, s\<lparr>link_sent := link_sent s @ [mio]\<rparr>) \<and>
    (\<forall>t rest. link_calls t = [] \<longrightarrow> link_arrived t = mio # rest \<longrightarrow>
      crespo_fmt_recv (Some fd') t = (Some message, t\<lparr>link_arrived := rest\<rparr>))"
proof -
  let ?bytes = "fmt_header_bytes (ipc_fmt_header_setup message) @ msg_data message"
  define mio where "mio = \<lparr>io_size = of_nat (length (msg_data message)) + 7, io_id = 0, io_cmd = 0, io_data = Some ?bytes\<rparr>"
  have "unat (of_nat (length (msg_data message) + 7) :: u32) = length (msg_data message) + 7"
    using assms(4) by (subst unat_of_nat) (simp add: CRESPO_BUFFER_LENGTH_def take_bit_nat_eq_self)
  then have size: "unat (io_size mio) = length (msg_data message) + 7"
    by (simp add: mio_def add.commute)
  have buffer: "take (length (msg_data message) + 7) (io_buffer ?bytes) = ?bytes"
    using assms(4) by (simp add: io_buffer_def)
  have "io_buffer ?bytes = fmt_header_bytes (ipc_fmt_header_setup message) @ take (CRESPO_BUFFER_LENGTH - 7)
      (msg_data message @ replicate (CRESPO_BUFFER_LENGTH - length ?bytes) 0)"
    by (simp add: io_buffer_def CRESPO_BUFFER_LENGTH_def)
  then have header: "fmt_header_read (io_buffer ?bytes) = Some (ipc_fmt_header_setup message)"
    by simp
  have same: "(ipc_fmt_message_setup (ipc_fmt_header_setup message))\<lparr>msg_data := msg_data message\<rparr> = message"
    by (cases message) (simp add: ipc_fmt_message_setup_def ipc_fmt_header_setup_def)
  have "crespo_fmt_recv (Some fd') t = (Some message, t\<lparr>link_arrived := rest\<rparr>)" if "link_calls t = []" "link_arrived t = mio # rest" for t rest
    using that assms(2,4) size buffer header same by (simp add: crespo_fmt_recv_def crespo_read_def link_call_def mio_def [symmetric]) (simp add: mio_def)
  moreover have "crespo_fmt_send (Some fd) message s = Some (0, s\<lparr>link_sent := link_sent s @ [mio]\<rparr>)"
    using size assms(1,3) by (simp add: crespo_fmt_send_def crespo_write_def link_call_def mio_def Let_def)
  ultimately show ?thesis
    by blast
qed

text \<open>A file message without data is sent, and refused where it arrives.\<close>

lemma crespo_empty_refused:
  assumes "msg_data message = []"
  shows "\<exists>mio. crespo_rfs_send (Some fd) message s = (fst (crespo_write (Some fd) mio s), snd (crespo_write (Some fd) mio s)) \<and>
    (\<forall>t rest. link_arrived t = mio # rest \<longrightarrow> fst (crespo_rfs_recv (Some fd') t) = None)"
  by (rule exI [of _ "\<lparr>io_size = 0, io_id = ucast (msg_mseq message), io_cmd = ucast (IPC_INDEX (msg_command message)), io_data = None\<rparr>"])
    (auto simp: assms crespo_rfs_send_def crespo_rfs_recv_def crespo_read_def crespo_write_def Let_def link_call_def split: prod.splits option.splits list.splits)

subsection \<open>Witnesses\<close>

definition toy_crespo :: shared_world where
  "toy_crespo = \<lparr>phone = \<lparr>boot_port = \<lparr>port_calls = [3, 0, 4], port_reads = psi_616_answers 7, port_trace = []\<rparr>,
     boot_files = toy_files\<lparr>files := (files toy_files)(''nv'' := None, CRESPO_MODEM_IMAGE_DEVICE := Some (replicate CRESPO_MODEM_IMAGE_SIZE 1))\<rparr>,
     boot_specs = toy_specs\<rparr>, shared = []\<rparr>"

lemma toy_crespo_reads:
  "\<exists>fs fs'. file_data_read (Some CRESPO_MODEM_IMAGE_DEVICE) CRESPO_MODEM_IMAGE_SIZE 0x1000 0 (boot_files (phone toy_crespo)) =
      (Some (replicate CRESPO_MODEM_IMAGE_SIZE 1), fs) \<and> ipc_nv_data_load toy_md5 (boot_specs (phone toy_crespo)) fs = (Some [5, 6, 7, 8], fs')"
proof -
  let ?f = "boot_files (phone toy_crespo)"
  obtain r fs where rd: "file_data_read (Some CRESPO_MODEM_IMAGE_DEVICE) CRESPO_MODEM_IMAGE_SIZE 0x1000 0 ?f = (r, fs)"
    by fastforce
  have img: "files ?f CRESPO_MODEM_IMAGE_DEVICE = Some (replicate CRESPO_MODEM_IMAGE_SIZE 1)" "no_faults ?f"
    using toy_facts(1) by (simp_all add: toy_crespo_def)
  have "CRESPO_MODEM_IMAGE_SIZE \<ge> 0x1000"
    by (simp add: CRESPO_MODEM_IMAGE_SIZE_def)
  then have r: "r = Some (replicate CRESPO_MODEM_IMAGE_SIZE 1)" and fs: "files fs = files ?f" "no_faults fs"
    using file_data_read_result [OF rd] img by (auto simp: readable_def content_def)
  have "\<not> intact toy_md5 ''x'' 4 ''nv'' ''nv.md5'' fs" "intact toy_md5 ''x'' 4 ''bak'' ''bak.md5'' fs"
    using toy_facts by (simp_all add: intact_def fs(1) toy_crespo_def CRESPO_MODEM_IMAGE_DEVICE_def)
  moreover have "files fs ''bak'' = Some [5, 6, 7, 8]"
    by (simp add: fs(1) toy_crespo_def toy_files_def CRESPO_MODEM_IMAGE_DEVICE_def)
  ultimately have "\<exists>fs'. ipc_nv_data_load toy_md5 toy_specs fs = (Some [5, 6, 7, 8], fs')"
    using nv_load_from_backup [OF toy_digest fs(2), of "''nv''" "''nv.md5''" "''bak''" "''bak.md5''" 2 4 "''x''"] by (auto simp: toy_specs_def)
  then show ?thesis
    using rd r by (simp add: toy_crespo_def)
qed

lemma toy_crespo_facts: "port_calls (line toy_crespo) = [3, 0, 4]" "port_reads (line toy_crespo) = psi_616_answers 7" "port_trace (line toy_crespo) = []"
  "boot_specs (phone toy_crespo) = toy_specs" "ipc_client_nv_data_size (boot_specs (phone toy_crespo)) \<noteq> 0"
  by (simp_all add: toy_crespo_def toy_specs_def)

theorem crespo_boot_places_witness:
  "\<exists>w'. crespo_boot toy_md5 toy_crespo = Some (0, w') \<and>
    take 4 (drop CRESPO_MODEM_CTL_NV_DATA_OFFSET (snd (device_after 3 (port_trace (line w')) (0, [])))) = [5, 6, 7, 8]"
proof -
  obtain fs fs' where "file_data_read (Some CRESPO_MODEM_IMAGE_DEVICE) CRESPO_MODEM_IMAGE_SIZE 0x1000 0 (boot_files (phone toy_crespo)) =
      (Some (replicate CRESPO_MODEM_IMAGE_SIZE 1), fs)" "ipc_nv_data_load toy_md5 (boot_specs (phone toy_crespo)) fs = (Some [5, 6, 7, 8], fs')"
    using toy_crespo_reads by blast
  from crespo_boot_places [OF toy_crespo_facts(1) _ _ _ toy_crespo_facts(2) this _ toy_crespo_facts(5)] obtain w' as where
    "crespo_boot toy_md5 toy_crespo = Some (0, w')" "port_trace (line w') = as"
    "\<forall>device. take (length [5, 6, 7, 8 :: u8]) (drop CRESPO_MODEM_CTL_NV_DATA_OFFSET (snd (device_after 3 as device))) = [5, 6, 7, 8]"
    unfolding toy_crespo_facts(3) Let_def by auto
  then show ?thesis
    by (intro exI [of _ w']) (simp add: eval_nat_numeral)
qed

theorem crespo_boot_delivers_witness:
  "\<exists>w' ctl_fd serial_fd data. crespo_boot toy_md5 toy_crespo = Some (0, w') \<and> files (boot_files (phone w')) ''nv'' = Some data \<and>
    port_sent fd (line w') = on_fd serial_fd (psi_frame (replicate CRESPO_PSI_SIZE 1)) fd @
      on_fd ctl_fd (replicate (CRESPO_MODEM_IMAGE_SIZE - CRESPO_PSI_SIZE) 1 @ data) fd"
proof -
  obtain fs fs' where "file_data_read (Some CRESPO_MODEM_IMAGE_DEVICE) CRESPO_MODEM_IMAGE_SIZE 0x1000 0 (boot_files (phone toy_crespo)) =
      (Some (replicate CRESPO_MODEM_IMAGE_SIZE 1), fs)" "ipc_nv_data_load toy_md5 (boot_specs (phone toy_crespo)) fs = (Some [5, 6, 7, 8], fs')"
    using toy_crespo_reads by blast
  from crespo_boot_answered [OF toy_crespo_facts(1) _ _ toy_crespo_facts(2) this _ toy_crespo_facts(5)] obtain w' where
    w': "crespo_boot toy_md5 toy_crespo = Some (0, w')"
    by auto
  have img: "content CRESPO_MODEM_IMAGE_DEVICE (boot_files (phone toy_crespo)) = replicate CRESPO_MODEM_IMAGE_SIZE 1" "port_sent fd (line toy_crespo) = []"
    by (simp_all add: toy_crespo_def content_def port_sent_def)
  have "CRESPO_PSI_SIZE \<le> CRESPO_MODEM_IMAGE_SIZE"
    by (simp add: CRESPO_PSI_SIZE_def CRESPO_MODEM_IMAGE_SIZE_def)
  then show ?thesis
    using crespo_boot_delivers [OF w' toy_digest, of "''nv''" "''nv.md5''" "''bak''" "''bak.md5''" "''x''" 4 2] w' img
    by (fastforce simp: toy_crespo_facts(4) toy_specs_def min_def)
qed

theorem crespo_message_crosses_witness:
  "\<exists>mio. crespo_fmt_send (Some 3) \<lparr>msg_mseq = 1, msg_aseq = 2, msg_command = 0x0102, msg_type = 2, msg_data = [9]\<rparr> \<lparr>link_calls = [], link_arrived = [], link_sent = []\<rparr> =
      Some (0, \<lparr>link_calls = [], link_arrived = [], link_sent = [mio]\<rparr>) \<and>
    fst (crespo_fmt_recv (Some 4) \<lparr>link_calls = [], link_arrived = [mio], link_sent = []\<rparr>) =
      Some \<lparr>msg_mseq = 1, msg_aseq = 2, msg_command = 0x0102, msg_type = 2, msg_data = [9]\<rparr>"
  using crespo_message_crosses [of 3 4 "\<lparr>link_calls = [], link_arrived = [], link_sent = []\<rparr>"
    "\<lparr>msg_mseq = 1, msg_aseq = 2, msg_command = 0x0102, msg_type = 2, msg_data = [9]\<rparr>"] by (fastforce simp: CRESPO_BUFFER_LENGTH_def)

end
