(* ===== verification/Dev_Aries.thy ===== *)
theory Dev_Aries
  imports Xmm616
begin

section \<open>libsamsung-ipc: the Galaxy S\<close>

text \<open>
  \<open>devices/aries/aries.c\<close>. The modem shares the OneDRAM with the phone: the firmware and the modem's data are copied into the memory that is mapped, and a handshake of three values passes
  the memory on. Messages go as datagrams of at most 4032 bytes through a Phonet socket. The helpers of \<open>samsung-ipc/utils.c\<close> for network interfaces and for
  attributes of the kernel that only this driver uses are here too.
\<close>

subsection \<open>Constants (aries.h)\<close>

definition ARIES_MODEM_IMAGE_SIZE :: nat where "ARIES_MODEM_IMAGE_SIZE = 0xA00000"
definition ARIES_PSI_SIZE :: nat where "ARIES_PSI_SIZE = 0x5000"
definition ARIES_ONEDRAM_NV_DATA_OFFSET :: nat where "ARIES_ONEDRAM_NV_DATA_OFFSET = 0xD80000"
definition ARIES_ONEDRAM_MEMORY_SIZE :: nat where "ARIES_ONEDRAM_MEMORY_SIZE = 0xFFF000"
definition ARIES_ONEDRAM_INIT :: u32 where "ARIES_ONEDRAM_INIT = 0x12341234"
definition ARIES_ONEDRAM_MAGIC :: u32 where "ARIES_ONEDRAM_MAGIC = 0x45674567"
definition ARIES_ONEDRAM_DEINIT :: u32 where "ARIES_ONEDRAM_DEINIT = 0xABCDABCD"
definition ARIES_SOCKET_RFS_MAGIC :: int where "ARIES_SOCKET_RFS_MAGIC = 0x80000"
definition ARIES_BUFFER_LENGTH :: nat where "ARIES_BUFFER_LENGTH = 4032"
definition ARIES_DATA_SIZE_LIMIT :: nat where "ARIES_DATA_SIZE_LIMIT = 0x80000"
definition ARIES_MODEM_FMT_SPN :: u8 where "ARIES_MODEM_FMT_SPN = 0x01"
definition ARIES_MODEM_RFS_SPN :: u8 where "ARIES_MODEM_RFS_SPN = 0x41"
definition ARIES_GPRS_IFACE_COUNT :: nat where "ARIES_GPRS_IFACE_COUNT = 3"
definition ARIES_MODEM_IMAGE_DEVICE :: string where "ARIES_MODEM_IMAGE_DEVICE = ''/dev/block/bml12''"
definition ARIES_MODEM_SERIAL_DEVICE :: string where "ARIES_MODEM_SERIAL_DEVICE = ''/dev/s3c2410_serial3''"
definition ARIES_ONEDRAM_DEVICE :: string where "ARIES_ONEDRAM_DEVICE = ''/dev/onedram''"
definition ARIES_MODEMCTL_STATUS_SYSFS :: string where "ARIES_MODEMCTL_STATUS_SYSFS = ''/sys/class/modemctl/xmm/status''"
definition ARIES_MODEMCTL_CONTROL_SYSFS :: string where "ARIES_MODEMCTL_CONTROL_SYSFS = ''/sys/class/modemctl/xmm/control''"
definition ARIES_MODEM_IFACE :: string where "ARIES_MODEM_IFACE = ''svnet0''"
definition ARIES_MODEM_PDP_ACTIVATE_SYSFS :: string where "ARIES_MODEM_PDP_ACTIVATE_SYSFS = ''/sys/class/net/svnet0/pdp/activate''"
definition ARIES_MODEM_PDP_DEACTIVATE_SYSFS :: string where "ARIES_MODEM_PDP_DEACTIVATE_SYSFS = ''/sys/class/net/svnet0/pdp/deactivate''"

subsection \<open>Attributes of the kernel and network interfaces (utils.c)\<close>

text \<open>\<open>atoi\<close> on the bytes that were read. They have no final zero, so that a number that they end with is read on into memory that was never written: \<open>None\<close>, as for a number that is no \<open>int\<close>.\<close>

fun buffer_digits :: "nat \<Rightarrow> u8 list \<Rightarrow> nat option" where
  "buffer_digits n [] = None"
| "buffer_digits n (b # bs) = (if 48 \<le> b \<and> b \<le> 57 then buffer_digits (10 * n + (unat b - 48)) bs else Some n)"

definition buffer_signed :: "u8 list \<Rightarrow> int option" where
  "buffer_signed bs = (if take 1 bs = [45] then map_option (\<lambda>n. - int n) (buffer_digits 0 (drop 1 bs))
     else map_option int (buffer_digits 0 (if take 1 bs = [43] then drop 1 bs else bs)))"

definition buffer_atoi :: "u8 list \<Rightarrow> int option" where
  "buffer_atoi bs = Option.bind (buffer_signed (dropWhile (\<lambda>b. b = 32 \<or> (9 \<le> b \<and> b \<le> 13)) bs)) (\<lambda>v. if - (2 ^ 31) \<le> v \<and> v < 2 ^ 31 then Some v else None)"

definition sysfs_value_read :: "string \<Rightarrow> modem_port \<Rightarrow> (int \<times> modem_port) option" where
  "sysfs_value_read path s =
     (let (fd, s) = port_call 0 (port_emit (Port_opened path) s) in
      if fd < 0 then Some (-1, s)
      else let (r, s) = port_read 100 s; s = port_emit (Port_closed fd) s in
        if r = None \<or> r = Some [] then Some (-1, s) else map_option (\<lambda>v. (v, s)) (buffer_atoi (the r)))"

definition sysfs_string_write :: "string \<Rightarrow> u8 list \<Rightarrow> modem_port \<Rightarrow> int \<times> modem_port" where
  "sysfs_string_write path buffer s = (if buffer = [] then (-1, s)
     else
       let (fd, s) = port_call 0 (port_emit (Port_opened path) s) in
       if fd < 0 then (-1, s)
       else let (rc, s) = port_write fd buffer s in (if rc < int (length buffer) then -1 else 0, port_emit (Port_closed fd) s))"

text \<open>The flags of an interface are read, changed and written back through a socket. What the first call reports is a further value of the script.\<close>

definition IFF_UP :: "16 word" where "IFF_UP = 1"

definition network_iface_set :: "bool \<Rightarrow> string \<Rightarrow> modem_port \<Rightarrow> int \<times> modem_port" where
  "network_iface_set up iface s =
     (let (fd, s) = port_call 0 (port_emit (Port_opened ''AF_PHONET'') s) in
      if fd < 0 then (-1, s)
      else let (rc, s) = port_ioctl fd (''SIOCGIFFLAGS '' @ take 16 iface) 0 0 s in
        if rc < 0 then (-1, port_emit (Port_closed fd) s)
        else
          let (flags, s) = port_call 0 s;
              flags = (if up then of_int flags OR IFF_UP else of_int flags AND NOT IFF_UP);
              (rc, s) = port_ioctl fd (''SIOCSIFFLAGS '' @ take 16 iface) (uint flags) 0 s in
          (if rc < 0 then -1 else 0, port_emit (Port_closed fd) s))"

definition network_iface_up :: "string \<Rightarrow> modem_port \<Rightarrow> int \<times> modem_port" where "network_iface_up = network_iface_set True"
definition network_iface_down :: "string \<Rightarrow> modem_port \<Rightarrow> int \<times> modem_port" where "network_iface_down = network_iface_set False"

subsection \<open>Power\<close>

definition aries_power_set :: "int \<Rightarrow> u8 list \<Rightarrow> modem_port \<Rightarrow> (int \<times> modem_port) option" where
  "aries_power_set already buffer s = Option.bind (sysfs_value_read ARIES_MODEMCTL_STATUS_SYSFS s) (\<lambda>(val, s).
     if val < 0 then Some (-1, s)
     else if val = already then Some (0, s)
     else let (rc, s) = sysfs_string_write ARIES_MODEMCTL_CONTROL_SYSFS buffer s in Some (if rc < 0 then -1 else 0, s))"

definition aries_power_on :: "modem_port \<Rightarrow> (int \<times> modem_port) option" where
  "aries_power_on = aries_power_set 1 (string_bytes [CHR ''o'', CHR ''n'', CHR 0x0A])"

definition aries_power_off :: "modem_port \<Rightarrow> (int \<times> modem_port) option" where
  "aries_power_off = aries_power_set 0 (string_bytes [CHR ''o'', CHR ''f'', CHR ''f'', CHR 0x0A])"

subsection \<open>Starting the modem\<close>

definition on_line_do :: "(modem_port \<Rightarrow> (int \<times> modem_port) option) \<Rightarrow> shared_world \<Rightarrow> (int \<times> shared_world) option" where
  "on_line_do f w = map_option (\<lambda>(rc, s). (rc, w\<lparr>phone := (phone w)\<lparr>boot_port := s\<rparr>\<rparr>)) (f (line w))"

text \<open>The two calls are swapped against their messages in the log: first the modem is turned on, then off.\<close>

definition aries_prepare :: "shared_world \<Rightarrow> (int \<times> shared_world) option" where
  "aries_prepare w =
     ok_do (Some (on_line (network_iface_down ARIES_MODEM_IFACE) w)) (\<lambda>w.
     ok_do (on_line_do aries_power_on w) (on_line_do aries_power_off))"

text \<open>The boot loader, and waiting until it has set up the memory, which is then mapped.\<close>

definition aries_begin :: "int \<Rightarrow> u8 list \<Rightarrow> modem_port \<Rightarrow> int \<times> modem_port" where
  "aries_begin serial_fd psi s =
     ok_then (xmm616_psi_send serial_fd psi s) (\<lambda>s.
     ok_then (await 52 4 (bytes32 ARIES_ONEDRAM_INIT) s) (port_call 0))"

text \<open>The memory is handed over to the modem.\<close>

definition aries_hand_over :: "int \<Rightarrow> modem_port \<Rightarrow> int \<times> modem_port" where
  "aries_hand_over onedram_fd s =
     ok_then (port_ioctl onedram_fd ''ONEDRAM_REL_SEM'' 0 0 s) (\<lambda>s.
     ok_then (write_once onedram_fd (bytes32 ARIES_ONEDRAM_MAGIC) s) (await 52 4 (bytes32 ARIES_ONEDRAM_DEINIT)))"

definition aries_load :: "md5_fun \<Rightarrow> u8 list \<Rightarrow> int \<Rightarrow> int \<Rightarrow> shared_world \<Rightarrow> (int \<times> shared_world) option" where
  "aries_load md5 img onedram_fd serial_fd w =
     ok_do (Some (on_line (aries_begin serial_fd (take ARIES_PSI_SIZE img)) w)) (\<lambda>w.
     ok_do (xmm616_firmware_send (-1) (Some 0) (drop ARIES_PSI_SIZE img) w) (\<lambda>w.
     ok_do (xmm616_nv_data_send md5 (-1) (Some ARIES_ONEDRAM_NV_DATA_OFFSET) w) (\<lambda>w.
     Some (on_line (aries_hand_over onedram_fd) w))))"

definition aries_boot :: "md5_fun \<Rightarrow> shared_world \<Rightarrow> (int \<times> shared_world) option" where
  "aries_boot md5 w =
     (case file_data_read (Some ARIES_MODEM_IMAGE_DEVICE) ARIES_MODEM_IMAGE_SIZE 0x1000 0 (boot_files (phone w)) of (r, fs) \<Rightarrow>
      let w = w\<lparr>phone := (phone w)\<lparr>boot_files := fs\<rparr>\<rparr> in
      case r of
        None \<Rightarrow> Some (-1, w)
      | Some img \<Rightarrow>
          let (onedram_fd, w) = shared_open ARIES_ONEDRAM_DEVICE w in
          if onedram_fd < 0 then Some (-1, w)
          else Option.bind (aries_prepare w) (\<lambda>(rc, w).
            if rc < 0 then Some (-1, shared_close onedram_fd w)
            else
              let (serial_fd, w) = shared_open ARIES_MODEM_SERIAL_DEVICE w in
              if serial_fd < 0 then Some (-1, shared_close onedram_fd w)
              else map_option (\<lambda>(rc, w). (if rc < 0 then -1 else 0, shared_close onedram_fd (shared_close serial_fd w)))
                (aries_load md5 img onedram_fd serial_fd w)))"

subsection \<open>Datagrams\<close>

text \<open>The socket: results of its calls, the datagrams that arrive and those that were sent. What does not fit the buffer of a \<open>recvfrom\<close> is lost.\<close>

record phonet_link =
  pn_calls :: "int list"
  pn_arrived :: "u8 list list"
  pn_sent :: "u8 list list"

definition pn_call :: "int \<Rightarrow> phonet_link \<Rightarrow> int \<times> phonet_link" where
  "pn_call rc s = (case pn_calls s of [] \<Rightarrow> rc | r # _ \<Rightarrow> r, s\<lparr>pn_calls := drop 1 (pn_calls s)\<rparr>)"

definition aries_read :: "int option \<Rightarrow> nat \<Rightarrow> phonet_link \<Rightarrow> u8 list option \<times> phonet_link" where
  "aries_read data n s = (case data of None \<Rightarrow> (None, s)
     | Some fd \<Rightarrow> if fd < 0 \<or> n = 0 then (None, s)
       else let (rc, s) = pn_call 0 s in
         if rc < 0 then (None, s)
         else case pn_arrived s of [] \<Rightarrow> (None, s) | d # rest \<Rightarrow> (Some (take n d), s\<lparr>pn_arrived := rest\<rparr>))"

definition aries_write :: "int option \<Rightarrow> u8 list \<Rightarrow> phonet_link \<Rightarrow> int \<times> phonet_link" where
  "aries_write data bs s = (case data of None \<Rightarrow> (-1, s)
     | Some fd \<Rightarrow> if fd < 0 \<or> bs = [] then (-1, s)
       else let (rc, s) = pn_call (int (length bs)) s; rc = min rc (int (length bs)) in
         (rc, if rc < 0 then s else s\<lparr>pn_sent := pn_sent s @ [take (nat rc) bs]\<rparr>))"

text \<open>The loops over chunks. A call that transfers nothing is repeated.\<close>

function aries_write_all :: "int option \<Rightarrow> u8 list \<Rightarrow> phonet_link \<Rightarrow> int \<times> phonet_link" where
  "aries_write_all data bs s = (if bs = [] then (0, s)
     else case aries_write data (take (if length bs < ARIES_BUFFER_LENGTH then length bs else ARIES_BUFFER_LENGTH) bs) s of (rc, s) \<Rightarrow>
       if rc < 0 then (-1, s) else aries_write_all data (drop (nat rc) bs) s)"
  by pat_completeness auto

lemma aries_write_progress:
  assumes "aries_write data bs s = (rc, t)" and "0 \<le> rc"
  shows "0 < rc \<or> length (pn_calls t) < length (pn_calls s)"
  using assms by (auto simp: aries_write_def pn_call_def Let_def split: option.splits if_splits list.splits)

termination aries_write_all
proof (relation "measures [\<lambda>(data, bs, s). length bs, \<lambda>(data, bs, s). length (pn_calls s)]", goal_cases)
  case (2 data bs s rc t)
  then show ?case
    using aries_write_progress [OF 2(2) [symmetric]] by (cases "0 < rc") auto
qed simp

declare aries_write_all.simps [simp del]

function aries_read_all :: "int option \<Rightarrow> nat \<Rightarrow> phonet_link \<Rightarrow> u8 list option \<times> phonet_link" where
  "aries_read_all data n s = (if n = 0 then (Some [], s)
     else case aries_read data (if n < ARIES_BUFFER_LENGTH then n else ARIES_BUFFER_LENGTH) s of (r, s) \<Rightarrow>
       if r = None then (None, s)
       else case aries_read_all data (n - length (the r)) s of (r', s) \<Rightarrow> (map_option (\<lambda>bs. the r @ bs) r', s))"
  by pat_completeness auto

lemma aries_read_progress:
  assumes "aries_read data n s = (Some bs, t)"
  shows "length (pn_arrived t) < length (pn_arrived s)"
  using assms by (auto simp: aries_read_def pn_call_def Let_def split: option.splits if_splits list.splits)

termination aries_read_all
proof (relation "measure (\<lambda>(data, n, s). length (pn_arrived s))", goal_cases)
  case (2 data n s r t)
  then obtain bs where "r = Some bs"
    by auto
  from aries_read_progress [OF 2(2) [symmetric, unfolded this]] show ?case
    by simp
qed simp

declare aries_read_all.simps [simp del]

subsection \<open>Messages\<close>

text \<open>The buffer has the length that the header announces; when the length was truncated to the width of its field, copying the data into the buffer is undefined.\<close>

definition aries_fmt_send :: "int option \<Rightarrow> ipc_message \<Rightarrow> phonet_link \<Rightarrow> (int \<times> phonet_link) option" where
  "aries_fmt_send data message s =
     (let header = ipc_fmt_header_setup message in
      if unat (fh_length header) < 7 + length (msg_data message) then None
      else Some (aries_write_all data (fmt_header_bytes header @ msg_data message) s))"

definition aries_rfs_send :: "int option \<Rightarrow> ipc_message \<Rightarrow> phonet_link \<Rightarrow> (int \<times> phonet_link) option" where
  "aries_rfs_send data message s =
     (let header = ipc_rfs_header_setup message in
      if unat (rh_length header) < 6 + length (msg_data message) then None
      else Some (aries_write_all data (rfs_header_bytes header @ msg_data message) s))"

text \<open>What follows the header of \<open>h\<close> bytes: \<open>len\<close> is the length of the header, \<open>bs\<close> what the first datagram brought besides the header. A length below \<open>h\<close> wraps around
  to almost \<open>2^32\<close>, for which there is no memory: with bytes to copy this is undefined, and otherwise the next read is refused. More bytes than the length has are copied out of bounds.\<close>

definition aries_recv_rest :: "int option \<Rightarrow> nat \<Rightarrow> nat \<Rightarrow> u8 list \<Rightarrow> ipc_message \<Rightarrow> phonet_link \<Rightarrow> (ipc_message option \<times> phonet_link) option" where
  "aries_recv_rest data h len bs message s =
     (if len < h then (if bs = [] then Some (None, s) else None)
      else if len = h then Some (Some message, s)
      else if len - h < length bs then None
      else Some (case aries_read_all data (len - h - length bs) s of (r, s) \<Rightarrow> (map_option (\<lambda>rest. message\<lparr>msg_data := bs @ rest\<rparr>) r, s)))"

definition aries_fmt_recv :: "int option \<Rightarrow> phonet_link \<Rightarrow> (ipc_message option \<times> phonet_link) option" where
  "aries_fmt_recv data s =
     (case aries_read data ARIES_BUFFER_LENGTH s of (r, s) \<Rightarrow>
      case Option.bind r fmt_header_read of
        None \<Rightarrow> Some (None, s)
      | Some header \<Rightarrow> aries_recv_rest data 7 (unat (fh_length header)) (drop 7 (the r)) (ipc_fmt_message_setup header) s)"

definition aries_rfs_recv :: "int option \<Rightarrow> phonet_link \<Rightarrow> (ipc_message option \<times> phonet_link) option" where
  "aries_rfs_recv data s =
     (case aries_read data ARIES_BUFFER_LENGTH s of (r, s) \<Rightarrow>
      case Option.bind r rfs_header_read of
        None \<Rightarrow> Some (None, s)
      | Some header \<Rightarrow>
          if unat (rh_length header) > ARIES_DATA_SIZE_LIMIT then Some (None, s)
          else aries_recv_rest data 6 (unat (rh_length header)) (drop 6 (the r)) (ipc_rfs_message_setup header) s)"

subsection \<open>The socket\<close>

text \<open>The calls on the socket, in their order; each stops the function when it fails. The memory of the transport data is cleared first, so that its descriptor is \<open>0\<close> when the function
  fails early.\<close>

fun phonet_setup :: "(string \<times> int) list \<Rightarrow> int \<Rightarrow> modem_port \<Rightarrow> int \<times> modem_port" where
  "phonet_setup [] fd s = (0, s)"
| "phonet_setup ((name, arg) # steps) fd s = ok_then (port_ioctl fd name arg 0 s) (phonet_setup steps fd)"

definition aries_spn_resource :: "int \<Rightarrow> u8" where
  "aries_spn_resource type = (if type = IPC_CLIENT_TYPE_FMT then ARIES_MODEM_FMT_SPN else if type = IPC_CLIENT_TYPE_RFS then ARIES_MODEM_RFS_SPN else 0)"

definition aries_open :: "int option \<Rightarrow> int \<Rightarrow> modem_port \<Rightarrow> (int \<times> int option) \<times> modem_port" where
  "aries_open data type s = (if data = None then ((-1, data), s)
     else
       let (fd, s) = port_call 0 (port_emit (Port_opened ''AF_PHONET'') s) in
       if fd < 0 then ((-1, Some 0), s)
       else
         let (rc, s) = phonet_setup [(''SO_BINDTODEVICE'', 0), (''SIOCGIFINDEX'', 0), (''SO_REUSEADDR'', 1),
                (''bind'', uint (aries_spn_resource type))] fd s in
         if rc < 0 then ((-1, Some 0), s)
         else
           let (rc, s) = (if type = IPC_CLIENT_TYPE_RFS then port_ioctl fd ''SO_IPC_RFS'' ARIES_SOCKET_RFS_MAGIC 0 s else (0, s)) in
           if rc < 0 then ((-1, Some fd), s)
           else let (rc, s) = network_iface_up ARIES_MODEM_IFACE s in ((if rc < 0 then -1 else 0, Some fd), s))"

definition aries_close :: "int option \<Rightarrow> modem_port \<Rightarrow> (int \<times> int option) \<times> modem_port" where
  "aries_close data s = (case data of None \<Rightarrow> ((-1, data), s)
     | Some fd \<Rightarrow> if fd < 0 then ((-1, data), s) else ((0, Some (-1)), port_emit (Port_closed fd) s))"

definition aries_poll :: "int option \<Rightarrow> int list \<Rightarrow> int \<Rightarrow> int list \<Rightarrow> (int \<times> int list \<times> nat) option" where
  "aries_poll data fds rc ready = (case data of None \<Rightarrow> Some (-1, fds, length fds)
     | Some fd \<Rightarrow> if fd < 0 then Some (-1, fds, length fds)
       else if \<exists>x \<in> set fds. x < 0 then None
       else Some (rc, map (\<lambda>x. if x \<in> set ready then x else -1) fds, length (filter (\<lambda>x. x \<in> set ready) fds)))"

definition aries_data_create :: "int \<times> int option" where "aries_data_create = (0, Some 0)"

definition aries_data_destroy :: "int option \<Rightarrow> int" where
  "aries_data_destroy data = (if data = None then -1 else 0)"

definition aries_gprs_activate :: "u32 \<Rightarrow> modem_port \<Rightarrow> int \<times> modem_port" where
  "aries_gprs_activate cid s = (let (rc, s) = sysfs_value_write ARIES_MODEM_PDP_ACTIVATE_SYSFS (sint cid) s in (if rc < 0 then -1 else 0, s))"

definition aries_gprs_deactivate :: "u32 \<Rightarrow> modem_port \<Rightarrow> int \<times> modem_port" where
  "aries_gprs_deactivate cid s = (let (rc, s) = sysfs_value_write ARIES_MODEM_PDP_DEACTIVATE_SYSFS (sint cid) s in (if rc < 0 then -1 else 0, s))"

definition aries_gprs_get_iface :: "u32 \<Rightarrow> string option" where
  "aries_gprs_get_iface cid = (if unat cid > ARIES_GPRS_IFACE_COUNT then None else Some (''pdp'' @ print_int (sint (cid - 1))))"

definition aries_gprs_get_capabilities :: nat where "aries_gprs_get_capabilities = ARIES_GPRS_IFACE_COUNT"

definition aries_nv_data_specs :: "ipc_client_nv_data_specs option" where "aries_nv_data_specs = xmm616_nv_data_specs"

subsection \<open>Datagrams of a message\<close>

lemma aries_write_sent:
  assumes "aries_write data bs s = (rc, t)" and "0 \<le> rc"
  shows "pn_sent t = pn_sent s @ [take (nat rc) bs]" and "rc \<le> int (length bs)"
  using assms by (auto simp: aries_write_def pn_call_def Let_def min_def split: option.splits if_splits)

text \<open>A buffer that was sent was cut into datagrams that fit the receiver's buffer and of which the last is not empty.\<close>

definition pieces_of :: "u8 list \<Rightarrow> u8 list list \<Rightarrow> bool" where
  "pieces_of bs ps \<longleftrightarrow> concat ps = bs \<and> (\<forall>p \<in> set ps. length p \<le> ARIES_BUFFER_LENGTH) \<and> (ps = [] \<or> last ps \<noteq> [])"

lemma pieces_of_Cons: "pieces_of bs ps \<Longrightarrow> length p \<le> ARIES_BUFFER_LENGTH \<Longrightarrow> ps \<noteq> [] \<or> p \<noteq> [] \<Longrightarrow> pieces_of (p @ bs) (p # ps)"
  by (auto simp: pieces_of_def)

lemma aries_write_all_sent:
  "aries_write_all data bs s = (0, t) \<Longrightarrow> \<exists>ps. pn_sent t = pn_sent s @ ps \<and> pieces_of bs ps"
proof (induction data bs s rule: aries_write_all.induct)
  case (1 data bs s)
  let ?p = "take (if length bs < ARIES_BUFFER_LENGTH then length bs else ARIES_BUFFER_LENGTH) bs"
  show ?case
  proof (cases "bs = []")
    case True
    then show ?thesis
      using 1(2) by (auto simp: aries_write_all.simps pieces_of_def)
  next
    case False
    obtain rc u where u: "aries_write data ?p s = (rc, u)"
      by fastforce
    have rc: "0 \<le> rc" and rest: "aries_write_all data (drop (nat rc) bs) u = (0, t)"
      using 1(2) False u by (auto simp: aries_write_all.simps [of data bs s] split: if_splits)
    obtain ps where ps: "pn_sent t = pn_sent u @ ps" "pieces_of (drop (nat rc) bs) ps"
      using 1(1) [OF False u [symmetric] _ rest] rc by auto
    have le: "rc \<le> int (length ?p)" and sent: "pn_sent u = pn_sent s @ [take (nat rc) ?p]"
      using aries_write_sent [OF u rc] by auto
    have p: "take (nat rc) ?p = take (nat rc) bs" "length (take (nat rc) bs) \<le> ARIES_BUFFER_LENGTH"
      using le by (auto simp: min_def split: if_splits)
    have "ps \<noteq> [] \<or> take (nat rc) bs \<noteq> []"
      using ps(2) False by (auto simp: pieces_of_def)
    then have "pieces_of (take (nat rc) bs @ drop (nat rc) bs) (take (nat rc) bs # ps)"
      using pieces_of_Cons [OF ps(2) p(2)] by blast
    then show ?thesis
      using ps(1) sent p(1) by auto
  qed
qed

lemma aries_read_piece:
  "0 \<le> fd \<Longrightarrow> pn_calls s = [] \<Longrightarrow> pn_arrived s = p # rest \<Longrightarrow> length p \<le> n \<Longrightarrow> 0 < n \<Longrightarrow>
    aries_read (Some fd) n s = (Some p, s\<lparr>pn_arrived := rest\<rparr>)"
  by (simp add: aries_read_def pn_call_def)

lemma aries_read_all_pieces:
  "0 \<le> fd \<Longrightarrow> pn_calls s = [] \<Longrightarrow> pieces_of bs ps \<Longrightarrow> pn_arrived s = ps @ rest \<Longrightarrow>
    aries_read_all (Some fd) (length bs) s = (Some bs, s\<lparr>pn_arrived := rest\<rparr>)"
proof (induction ps arbitrary: bs s)
  case Nil
  then show ?case
    by (simp add: pieces_of_def aries_read_all.simps [of "Some fd"])
next
  case (Cons p ps)
  define cs where "cs = concat ps"
  have bs: "bs = p @ cs" and p: "length p \<le> ARIES_BUFFER_LENGTH" and ps: "pieces_of cs ps"
    using Cons.prems(3) by (auto simp: pieces_of_def cs_def split: if_splits)
  have "bs \<noteq> []"
    using Cons.prems(3) last_in_set [of "p # ps"] by (auto simp: pieces_of_def)
  moreover have "aries_read_all (Some fd) (length cs) (s\<lparr>pn_arrived := ps @ rest\<rparr>) = (Some cs, s\<lparr>pn_arrived := rest\<rparr>)"
    using Cons.IH [OF Cons.prems(1) _ ps, of "s\<lparr>pn_arrived := ps @ rest\<rparr>"] Cons.prems(2) by simp
  moreover define n where "n = (if length bs < ARIES_BUFFER_LENGTH then length bs else ARIES_BUFFER_LENGTH)"
  moreover have "0 < n" "length p \<le> n"
    using p \<open>bs \<noteq> []\<close> by (auto simp: n_def bs ARIES_BUFFER_LENGTH_def)
  then have "aries_read (Some fd) n s = (Some p, s\<lparr>pn_arrived := ps @ rest\<rparr>)"
    using aries_read_piece [OF Cons.prems(1,2), of p "ps @ rest" n] Cons.prems(4) by simp
  ultimately show ?case
    by (simp add: aries_read_all.simps [of "Some fd" "length bs"] flip: n_def) (simp add: bs)
qed

text \<open>What is received for the datagrams of one message whose first has the whole header.\<close>

lemma aries_recv_pieces:
  assumes "0 \<le> fd" and "pn_calls t = []" and "pieces_of (header @ body) (p # ps)" and "h = length header" and "h \<le> length p" and "0 < h"
    and "pn_arrived t = (p # ps) @ rest"
  shows "\<exists>u. aries_read (Some fd) ARIES_BUFFER_LENGTH t = (Some p, u) \<and> take h p = header \<and>
    aries_recv_rest (Some fd) h (length (header @ body)) (drop h p) message u =
      Some (Some (if body = [] then message else message\<lparr>msg_data := body\<rparr>), t\<lparr>pn_arrived := rest\<rparr>)"
proof -
  have p: "length p \<le> ARIES_BUFFER_LENGTH" and cat: "p @ concat ps = header @ body" and last: "last (p # ps) \<noteq> []"
    using assms(3) by (auto simp: pieces_of_def)
  define u where "u = t\<lparr>pn_arrived := ps @ rest\<rparr>"
  have "take h p = take h (header @ body)" "drop h p @ concat ps = drop h (header @ body)"
    using assms(5) unfolding cat [symmetric] by simp_all
  then have head: "take h p = header" and body: "drop h p @ concat ps = body"
    by (simp_all add: assms(4))
  have "pieces_of (concat ps) ps"
    using assms(3) by (auto simp: pieces_of_def split: if_splits)
  then have rest: "aries_read_all (Some fd) (length (concat ps)) u = (Some (concat ps), t\<lparr>pn_arrived := rest\<rparr>)"
    using aries_read_all_pieces [OF assms(1), of u "concat ps" ps rest] assms(2) by (simp add: u_def)
  have "ps = []" if "body = []"
    using that body last by (cases ps rule: rev_cases) auto
  moreover have "length (header @ body) - h - length (drop h p) = length (concat ps)"
    using body assms(4) by (metis add_diff_cancel_left' length_append)
  moreover have "length (drop h p) \<le> length body"
    using body by (metis le_add1 length_append)
  ultimately have "aries_recv_rest (Some fd) h (length (header @ body)) (drop h p) message u =
      Some (Some (if body = [] then message else message\<lparr>msg_data := body\<rparr>), t\<lparr>pn_arrived := rest\<rparr>)"
    using rest body assms(4) by (auto simp: aries_recv_rest_def u_def)
  moreover have "aries_read (Some fd) ARIES_BUFFER_LENGTH t = (Some p, u)"
    using aries_read_piece [OF assms(1,2), of p "ps @ rest" ARIES_BUFFER_LENGTH] assms(7) p by (simp add: u_def ARIES_BUFFER_LENGTH_def)
  ultimately show ?thesis
    using head by blast
qed

lemma rfs_header_read_bytes [simp]: "rfs_header_read (rfs_header_bytes h @ bs) = Some h"
  by (simp add: rfs_header_bytes_def bytes32_def)

lemma length_rfs_header_bytes [simp]: "length (rfs_header_bytes h) = 6"
  by (simp add: rfs_header_bytes_def)

lemma header_read_take: "take 7 p = fmt_header_bytes h \<Longrightarrow> fmt_header_read p = Some h" "take 6 p = rfs_header_bytes r \<Longrightarrow> rfs_header_read p = Some r"
  by (metis append_take_drop_id fmt_header_read_bytes, metis append_take_drop_id rfs_header_read_bytes)

lemma fmt_message_restored: "(if msg_data m = [] then ipc_fmt_message_setup (ipc_fmt_header_setup m)
    else (ipc_fmt_message_setup (ipc_fmt_header_setup m))\<lparr>msg_data := msg_data m\<rparr>) = m"
  by (cases m) (simp add: ipc_fmt_message_setup_def ipc_fmt_header_setup_def)

lemma sent_pieces_first:
  assumes "pieces_of (header @ body) ps" and "header \<noteq> []"
  obtains p qs where "ps = p # qs"
  using assms by (cases ps) (auto simp: pieces_of_def)

subsection \<open>Steps of a boot\<close>

text \<open>From \<open>s\<close> to \<open>t\<close> only actions in \<open>P\<close> were taken.\<close>

definition steps :: "(port_action \<Rightarrow> bool) \<Rightarrow> modem_port \<Rightarrow> modem_port \<Rightarrow> bool" where
  "steps P s t \<longleftrightarrow> (\<exists>as. port_trace t = port_trace s @ as \<and> (\<forall>a \<in> set as. P a))"

lemma steps_trans: "steps P s t \<Longrightarrow> steps P t u \<Longrightarrow> steps P s u"
  unfolding steps_def by (metis append.assoc set_append Un_iff)

text \<open>Neither the shared memory is changed nor the modem is given access to it.\<close>

definition kept_back :: "port_action \<Rightarrow> bool" where
  "kept_back a \<longleftrightarrow> (\<forall>fd arg. a \<noteq> Port_ioctl fd ''ONEDRAM_REL_SEM'' arg) \<and> (\<forall>address data. a \<noteq> Port_stored address data)"

lemma emits_call: "emits P (port_call rc)" "P (Port_ioctl fd name arg) \<Longrightarrow> emits P (port_ioctl fd name arg rc)"
  by (auto simp: emits_def port_ioctl_def)

lemma sends_call: "sends (port_call rc) (\<lambda>fd. [])"
  by (rule sends_nothing) simp

lemma await_trace: "port_trace (snd (await n k wanted s)) = port_trace s"
proof -
  have "emits (\<lambda>_. False) (await n k wanted)"
    by (rule emits_checks)
  then show ?thesis
    by (force simp: emits_def)
qed

definition same_data :: "shared_world \<Rightarrow> shared_world \<Rightarrow> bool" where
  "same_data w w' \<longleftrightarrow> boot_files (phone w') = boot_files (phone w) \<and> boot_specs (phone w') = boot_specs (phone w) \<and> shared w' = shared w"

lemma line_results:
  "on_line f w = (rc, w') \<Longrightarrow> f (line w) = (rc, line w') \<and> same_data w w'"
  "on_line_do g w = Some (rc, w') \<Longrightarrow> g (line w) = Some (rc, line w') \<and> same_data w w'"
  by (auto simp: on_line_eq on_line_do_def same_data_def)

text \<open>Copies into the shared memory.\<close>

lemma memory_copied:
  assumes "data_copy fd (Some a) data w = Some (rc, w')"
  shows "w' = w\<lparr>phone := (phone w)\<lparr>boot_port := port_emit (Port_stored a data) (line w)\<rparr>, shared := overwrite a data (shared w)\<rparr>"
    and "a + length data \<le> length (shared w)" and "rc = 0"
  using assms by (auto simp: data_copy_def split: if_splits)

lemma nv_data_copied:
  assumes "xmm616_nv_data_send md5 fd (Some a) w = Some (rc, w')" and "0 \<le> rc" and "digest_ok md5" and "distinct [p, m, b, bm]"
    and "boot_specs (phone w) = nv_specs p m b bm sec sz c"
  shows "\<exists>data. shared w' = overwrite a data (shared w) \<and> a + length data \<le> length (shared w) \<and> line w' = port_emit (Port_stored a data) (line w) \<and>
    boot_specs (phone w') = boot_specs (phone w) \<and> intact md5 sec sz p m (boot_files (phone w')) \<and> files (boot_files (phone w')) p = Some data"
proof -
  obtain r fs where load: "ipc_nv_data_load md5 (boot_specs (phone w)) (boot_files (phone w)) = (r, fs)"
    by fastforce
  let ?w = "w\<lparr>phone := (phone w)\<lparr>boot_files := fs\<rparr>\<rparr>"
  obtain data where data: "r = Some data" "data_copy fd (Some a) data ?w = Some (rc, w')"
    using assms(1,2) load by (auto simp: xmm616_nv_data_send_def Let_def split: if_splits option.splits)
  have "intact md5 sec sz p m fs \<and> files fs p = Some data"
    using nv_load_sound [OF assms(3,4)] load data(1) assms(5) by simp
  then show ?thesis
    using memory_copied [OF data(2)] by auto
qed

text \<open>The boot loader is all that is sent before the copies.\<close>

lemma begin_result:
  assumes "aries_begin serial_fd psi s = (rc, t)" and "0 \<le> rc"
  shows "\<exists>as. port_trace t = port_trace s @ as \<and> (\<forall>a \<in> set as. \<exists>bytes. a = Port_wrote serial_fd bytes) \<and>
    concat (map (action_bytes serial_fd) as) = psi_frame psi"
proof -
  have "sends (aries_begin serial_fd psi) (\<lambda>fd'. on_fd serial_fd (psi_frame psi) fd' @ [] @ [])"
    unfolding aries_begin_def by (intro sends_ok_then sends_psi sends_await sends_call)
  then have "port_sent serial_fd t = port_sent serial_fd s @ psi_frame psi"
    using assms sendsD [of "aries_begin serial_fd psi" _ s rc t serial_fd] by (simp add: on_fd_def)
  moreover have "emits (\<lambda>a. \<exists>bytes. a = Port_wrote serial_fd bytes) (aries_begin serial_fd psi)"
    unfolding aries_begin_def by (intro emits_ok_then emits_psi emits_checks emits_call; simp)
  then obtain as where "port_trace t = port_trace s @ as" "\<forall>a \<in> set as. \<exists>bytes. a = Port_wrote serial_fd bytes"
    using assms(1) unfolding emits_def by (metis snd_conv)
  ultimately show ?thesis
    by (auto simp: port_sent_def)
qed

text \<open>Handing the memory over is releasing it and then writing the value that the modem waits for.\<close>

lemma hand_over_result:
  assumes "aries_hand_over fd s = (rc, t)" and "0 \<le> rc"
  shows "port_trace t = port_trace s @ [Port_ioctl fd ''ONEDRAM_REL_SEM'' 0, Port_wrote fd (bytes32 ARIES_ONEDRAM_MAGIC)]"
  using assms await_trace [of 52 4 "bytes32 ARIES_ONEDRAM_DEINIT"]
  by (auto simp: aries_hand_over_def ok_then_def port_ioctl_def write_once_def port_write_def Let_def split_beta split: if_splits
    dest!: arg_cong [where f = "\<lambda>r. port_trace (snd r)"])

lemma aries_load_result:
  assumes "aries_load md5 img onedram_fd serial_fd w = Some (rc, w')" and "0 \<le> rc" and "digest_ok md5" and "distinct [p, m, b, bm]"
    and "boot_specs (phone w) = nv_specs p m b bm sec sz c"
  shows "\<exists>data as. port_trace (line w') = port_trace (line w) @ as @ [Port_stored 0 (drop ARIES_PSI_SIZE img), Port_stored ARIES_ONEDRAM_NV_DATA_OFFSET data,
      Port_ioctl onedram_fd ''ONEDRAM_REL_SEM'' 0, Port_wrote onedram_fd (bytes32 ARIES_ONEDRAM_MAGIC)] \<and>
    (\<forall>a \<in> set as. \<exists>bytes. a = Port_wrote serial_fd bytes) \<and> concat (map (action_bytes serial_fd) as) = psi_frame (take ARIES_PSI_SIZE img) \<and>
    shared w' = overwrite ARIES_ONEDRAM_NV_DATA_OFFSET data (overwrite 0 (drop ARIES_PSI_SIZE img) (shared w)) \<and>
    intact md5 sec sz p m (boot_files (phone w')) \<and> files (boot_files (phone w')) p = Some data"
proof -
  let ?fw = "drop ARIES_PSI_SIZE img"
  obtain q1 w1 where 1: "on_line (aries_begin serial_fd (take ARIES_PSI_SIZE img)) w = (q1, w1)" "0 \<le> q1"
    and r1: "ok_do (xmm616_firmware_send (-1) (Some 0) ?fw w1) (\<lambda>w. ok_do (xmm616_nv_data_send md5 (-1) (Some ARIES_ONEDRAM_NV_DATA_OFFSET) w)
      (\<lambda>w. Some (on_line (aries_hand_over onedram_fd) w))) = Some (rc, w')"
    using ok_do_Some [OF assms(1) [unfolded aries_load_def] assms(2)] by auto
  obtain q2 w2 where 2: "xmm616_firmware_send (-1) (Some 0) ?fw w1 = Some (q2, w2)" "0 \<le> q2"
    and r2: "ok_do (xmm616_nv_data_send md5 (-1) (Some ARIES_ONEDRAM_NV_DATA_OFFSET) w2) (\<lambda>w. Some (on_line (aries_hand_over onedram_fd) w)) = Some (rc, w')"
    using ok_do_Some [OF r1 assms(2)] by auto
  obtain q3 w3 where 3: "xmm616_nv_data_send md5 (-1) (Some ARIES_ONEDRAM_NV_DATA_OFFSET) w2 = Some (q3, w3)" "0 \<le> q3"
    and 4: "on_line (aries_hand_over onedram_fd) w3 = (rc, w')"
    using ok_do_Some [OF r2 assms(2)] by auto
  note l1 = line_results(1) [OF 1(1)] and l4 = line_results(1) [OF 4]
  obtain as where as: "port_trace (line w1) = port_trace (line w) @ as" "\<forall>a \<in> set as. \<exists>bytes. a = Port_wrote serial_fd bytes"
    "concat (map (action_bytes serial_fd) as) = psi_frame (take ARIES_PSI_SIZE img)"
    using begin_result [OF l1 [THEN conjunct1] 1(2)] by blast
  have "data_copy (-1) (Some 0) ?fw w1 = Some (q2, w2)"
    using 2 by (auto simp: xmm616_firmware_send_def split: if_splits)
  note w2 = memory_copied [OF this]
  have "boot_specs (phone w2) = nv_specs p m b bm sec sz c"
    using l1 assms(5) by (simp add: w2(1) same_data_def)
  from nv_data_copied [OF 3 assms(3,4) this] obtain data where data: "shared w3 = overwrite ARIES_ONEDRAM_NV_DATA_OFFSET data (shared w2)"
    "line w3 = port_emit (Port_stored ARIES_ONEDRAM_NV_DATA_OFFSET data) (line w2)"
    "intact md5 sec sz p m (boot_files (phone w3))" "files (boot_files (phone w3)) p = Some data"
    by blast
  show ?thesis
    using as data l1 l4 hand_over_result [OF l4 [THEN conjunct1] assms(2)]
    by (intro exI [of _ data] exI [of _ as]) (simp add: w2(1) same_data_def)
qed

text \<open>Before that, the modem is turned on and then off.\<close>

lemma steps_power: "aries_power_set already bs s = Some (rc, t) \<Longrightarrow> steps kept_back s t"
  by (auto simp: aries_power_set_def sysfs_value_read_def sysfs_string_write_def port_write_def bind_eq_Some_conv Let_def split_beta steps_def kept_back_def
    split: if_splits)

lemma steps_iface: "steps kept_back s (snd (network_iface_set up iface s))"
  by (auto simp: network_iface_set_def port_ioctl_def Let_def split_beta steps_def kept_back_def)

text \<open>What the status of the modem is, and which calls read it.\<close>

lemma port_read_cong:
  "port_reads s = port_reads t \<Longrightarrow> fst (port_read n s) = fst (port_read n t) \<and> port_reads (snd (port_read n s)) = port_reads (snd (port_read n t))"
  by (simp add: port_read_def split: list.split)

lemma port_reads_simps [simp]: "port_reads (snd (port_call rc s)) = port_reads s" "port_reads (port_emit a s) = port_reads s"
  by (simp_all add: port_call_def port_emit_def)

lemma iface_reads: "port_reads (snd (network_iface_set up iface s)) = port_reads s"
  by (simp add: network_iface_set_def port_ioctl_def Let_def split_beta)

lemma sysfs_read_result:
  assumes "sysfs_value_read path s = Some (val, t)" and "0 \<le> val"
  shows "\<exists>status fd. fst (port_read 100 s) = Some status \<and> buffer_atoi status = Some val \<and> port_reads t = port_reads (snd (port_read 100 s)) \<and>
    port_trace t = port_trace s @ [Port_opened path, Port_closed fd]"
proof -
  let ?s = "snd (port_call 0 (port_emit (Port_opened path) s))"
  have same: "fst (port_read 100 ?s) = fst (port_read 100 s)" "port_reads (snd (port_read 100 ?s)) = port_reads (snd (port_read 100 s))"
    using port_read_cong [of ?s s 100] by simp_all
  show ?thesis
    using assms same by (auto simp: sysfs_value_read_def Let_def split_beta split: if_splits)
qed

lemma string_write_result:
  "0 \<le> fst (sysfs_string_write path bs s) \<Longrightarrow>
    \<exists>fd. port_trace (snd (sysfs_string_write path bs s)) = port_trace s @ [Port_opened path, Port_wrote fd bs, Port_closed fd]"
  "port_reads (snd (sysfs_string_write path bs s)) = port_reads s"
  by (auto simp: sysfs_string_write_def port_write_def Let_def split_beta split: if_splits)

lemma power_set_result:
  assumes "aries_power_set already bs s = Some (rc, t)" and "0 \<le> rc"
  shows "\<exists>status pre fd. fst (port_read 100 s) = Some status \<and> port_reads t = port_reads (snd (port_read 100 s)) \<and>
    port_trace t = pre @ (if buffer_atoi status = Some already then [Port_opened ARIES_MODEMCTL_STATUS_SYSFS, Port_closed fd]
      else [Port_opened ARIES_MODEMCTL_CONTROL_SYSFS, Port_wrote fd bs, Port_closed fd])"
proof -
  obtain val u where u: "sysfs_value_read ARIES_MODEMCTL_STATUS_SYSFS s = Some (val, u)" "0 \<le> val"
    and t: "val = already \<and> t = u \<or> val \<noteq> already \<and> 0 \<le> fst (sysfs_string_write ARIES_MODEMCTL_CONTROL_SYSFS bs u) \<and>
      t = snd (sysfs_string_write ARIES_MODEMCTL_CONTROL_SYSFS bs u)"
    using assms by (auto simp: aries_power_set_def bind_eq_Some_conv Let_def split_beta split: if_splits)
  obtain status fd where status: "fst (port_read 100 s) = Some status" "buffer_atoi status = Some val" "port_reads u = port_reads (snd (port_read 100 s))"
    "port_trace u = port_trace s @ [Port_opened ARIES_MODEMCTL_STATUS_SYSFS, Port_closed fd]"
    using sysfs_read_result [OF u] by blast
  show ?thesis
  proof (cases "val = already")
    case True
    then show ?thesis
      using t status by auto
  next
    case False
    then obtain fd' where "port_trace t = port_trace u @ [Port_opened ARIES_MODEMCTL_CONTROL_SYSFS, Port_wrote fd' bs, Port_closed fd']" "port_reads t = port_reads u"
      using t string_write_result [of ARIES_MODEMCTL_CONTROL_SYSFS bs u] by auto
    then show ?thesis
      using False status by auto
  qed
qed

lemma aries_prepare_result:
  assumes "aries_prepare w = Some (rc, w')" and "0 \<le> rc"
  shows "\<exists>s. aries_power_off s = Some (rc, line w') \<and> port_reads s = port_reads (snd (port_read 100 (line w))) \<and> steps kept_back (line w) (line w') \<and> same_data w w'"
proof -
  obtain q1 w1 where 1: "on_line (network_iface_down ARIES_MODEM_IFACE) w = (q1, w1)"
    and r1: "ok_do (on_line_do aries_power_on w1) (on_line_do aries_power_off) = Some (rc, w')"
    using ok_do_Some [OF assms(1) [unfolded aries_prepare_def] assms(2)] by auto
  obtain q2 w2 where 2: "on_line_do aries_power_on w1 = Some (q2, w2)" "0 \<le> q2" and 3: "on_line_do aries_power_off w2 = Some (rc, w')"
    using ok_do_Some [OF r1 assms(2)] by auto
  note r = line_results(1) [OF 1] line_results(2) [OF 2(1)] line_results(2) [OF 3]
  have "steps kept_back (line w) (line w1)" "port_reads (line w1) = port_reads (line w)"
    using r(1) steps_iface iface_reads unfolding network_iface_down_def by (metis snd_conv)+
  moreover have "steps kept_back (line w1) (line w2)" "steps kept_back (line w2) (line w')"
    using r(2,3) steps_power unfolding aries_power_on_def aries_power_off_def by blast+
  moreover have "port_reads (line w2) = port_reads (snd (port_read 100 (line w1)))"
    using power_set_result [OF _ 2(2)] r(2) unfolding aries_power_on_def by blast
  ultimately show ?thesis
    using r steps_trans port_read_cong [of "line w1" "line w" 100] unfolding same_data_def by metis
qed

text \<open>The steps of a boot that succeeds.\<close>

lemma aries_boot_steps:
  assumes "aries_boot md5 w = Some (0, w')"
  shows "\<exists>img onedram_fd serial_fd s q w1 rc w2 w3. img = take ARIES_MODEM_IMAGE_SIZE (content ARIES_MODEM_IMAGE_DEVICE (boot_files (phone w))) \<and>
    length img = ARIES_MODEM_IMAGE_SIZE \<and> aries_power_off s = Some (q, line w1) \<and> 0 \<le> q \<and> port_reads s = port_reads (snd (port_read 100 (line w))) \<and>
    steps kept_back (line w) (line w1) \<and> boot_specs (phone w1) = boot_specs (phone w) \<and> shared w1 = shared w \<and>
    shared_open ARIES_MODEM_SERIAL_DEVICE w1 = (serial_fd, w2) \<and> aries_load md5 img onedram_fd serial_fd w2 = Some (rc, w3) \<and> 0 \<le> rc \<and>
    w' = shared_close onedram_fd (shared_close serial_fd w3)"
proof -
  obtain r fs where rd: "file_data_read (Some ARIES_MODEM_IMAGE_DEVICE) ARIES_MODEM_IMAGE_SIZE 0x1000 0 (boot_files (phone w)) = (r, fs)"
    by fastforce
  define w0 where "w0 = w\<lparr>phone := (phone w)\<lparr>boot_files := fs\<rparr>\<rparr>"
  obtain onedram_fd v where v: "shared_open ARIES_ONEDRAM_DEVICE w0 = (onedram_fd, v)"
    by fastforce
  obtain img q w1 serial_fd w2 rc w3 where r: "r = Some img" and w1: "aries_prepare v = Some (q, w1)" "0 \<le> q"
    and w2: "shared_open ARIES_MODEM_SERIAL_DEVICE w1 = (serial_fd, w2)" and w3: "aries_load md5 img onedram_fd serial_fd w2 = Some (rc, w3)" "0 \<le> rc"
    and w': "w' = shared_close onedram_fd (shared_close serial_fd w3)"
    using assms rd v by (auto simp: aries_boot_def w0_def [symmetric] Let_def bind_eq_Some_conv split: if_splits option.splits prod.splits)
  have image: "img = take ARIES_MODEM_IMAGE_SIZE (content ARIES_MODEM_IMAGE_DEVICE (boot_files (phone w)))" "length img = ARIES_MODEM_IMAGE_SIZE"
    using file_data_read_result [OF rd] r unfolding start_of_zero by (metis drop_0)+
  obtain s where s: "aries_power_off s = Some (q, line w1)" "port_reads s = port_reads (snd (port_read 100 (line v)))" "steps kept_back (line v) (line w1)" "same_data v w1"
    using aries_prepare_result [OF w1] by blast
  have "steps kept_back (line w) (line v)" "boot_specs (phone v) = boot_specs (phone w)" "shared v = shared w" "port_reads (line v) = port_reads (line w)"
    using v by (auto simp: shared_open_eq on_line_eq w0_def steps_def kept_back_def)
  then have "steps kept_back (line w) (line w1)" "boot_specs (phone w1) = boot_specs (phone w)" "shared w1 = shared w"
    "port_reads s = port_reads (snd (port_read 100 (line w)))"
    using s(2-4) steps_trans port_read_cong [of "line v" "line w" 100] by (auto simp: same_data_def)
  then show ?thesis
    using image s(1) w1(2) w2 w3 w' by blast
qed

lemma boots_closed: "steps (\<lambda>a. \<exists>fd. a = Port_closed fd) (line w) (line (shared_close fd1 (shared_close fd2 w)))"
  by (auto simp: steps_def shared_close_def boot_close_def)

subsection \<open>A modem that answers\<close>

lemma answered_iface: "answered (network_iface_set up iface) []"
  unfolding answered_def
proof (intro allI impI)
  fix s rest
  assume "answers s ([] @ rest)"
  then show "fst (network_iface_set up iface s) = 0 \<and> answers (snd (network_iface_set up iface s)) rest"
    by (cases up) (simp_all add: network_iface_set_def port_ioctl_def Let_def answers_call [of _ rest])
qed

definition status_bytes :: "u8 list \<Rightarrow> bool" where
  "status_bytes bs \<longleftrightarrow> bs \<noteq> [] \<and> length bs \<le> 100 \<and> (\<exists>v \<ge> 0. buffer_atoi bs = Some v)"

lemma power_answered:
  assumes "answers s (val # rest)" and "status_bytes val" and "buffer \<noteq> []"
  shows "\<exists>t. aries_power_set already buffer s = Some (0, t) \<and> answers t rest"
proof -
  obtain v where v: "buffer_atoi val = Some v" "0 \<le> v"
    using assms(2) by (auto simp: status_bytes_def)
  obtain t where t: "sysfs_value_read ARIES_MODEMCTL_STATUS_SYSFS s = Some (v, t)" "answers t rest"
    using assms(1,2) v by (auto simp: status_bytes_def sysfs_value_read_def port_call_def port_read_def port_emit_def answers_def)
  have "fst (sysfs_string_write ARIES_MODEMCTL_CONTROL_SYSFS buffer t) = 0 \<and> answers (snd (sysfs_string_write ARIES_MODEMCTL_CONTROL_SYSFS buffer t)) rest"
  proof -
    have open': "answers (port_emit (Port_opened ARIES_MODEMCTL_CONTROL_SYSFS) t) rest"
      using t(2) by simp
    show ?thesis
      using assms(3) open' by (simp add: sysfs_string_write_def answers_call [OF open'] port_write_quiet [OF open'])
  qed
  then show ?thesis
    using t v(2) by (auto simp: aries_power_set_def Let_def split_beta)
qed

lemma line_answered:
  "answered f as \<Longrightarrow> answers (line w) (as @ rest) \<Longrightarrow> \<exists>w'. on_line f w = (0, w') \<and> answers (line w') rest \<and> same_data w w'"
  unfolding answered_def by (simp add: on_line_eq same_data_def)

lemma line_do_answered:
  "f (line w) = Some (0, t) \<Longrightarrow> answers t rest \<Longrightarrow> \<exists>w'. on_line_do f w = Some (0, w') \<and> answers (line w') rest \<and> same_data w w'"
  by (simp add: on_line_do_def same_data_def)

lemma aries_prepare_answered:
  assumes "answers (line w) (val1 # val2 # rest)" and "status_bytes val1" and "status_bytes val2"
  shows "\<exists>w'. aries_prepare w = Some (0, w') \<and> answers (line w') rest \<and> same_data w w'"
proof -
  obtain w1 where 1: "on_line (network_iface_down ARIES_MODEM_IFACE) w = (0, w1)" "answers (line w1) (val1 # val2 # rest)" "same_data w w1"
    using line_answered [OF answered_iface, of w "val1 # val2 # rest" False ARIES_MODEM_IFACE] assms(1) by (auto simp: network_iface_down_def)
  obtain t1 where "aries_power_on (line w1) = Some (0, t1)" "answers t1 (val2 # rest)"
    using power_answered [OF 1(2) assms(2)] unfolding aries_power_on_def by (metis list.distinct(1) list.simps(9) string_bytes_def)
  then obtain w2 where 2: "on_line_do aries_power_on w1 = Some (0, w2)" "answers (line w2) (val2 # rest)" "same_data w1 w2"
    using line_do_answered by blast
  obtain t2 where "aries_power_off (line w2) = Some (0, t2)" "answers t2 rest"
    using power_answered [OF 2(2) assms(3)] unfolding aries_power_off_def by (metis list.distinct(1) list.simps(9) string_bytes_def)
  then obtain w3 where 3: "on_line_do aries_power_off w2 = Some (0, w3)" "answers (line w3) rest" "same_data w2 w3"
    using line_do_answered by blast
  show ?thesis
    using 1 2 3 by (auto simp: aries_prepare_def ok_do_def same_data_def)
qed

definition onedram_answers :: "u8 \<Rightarrow> u8 list list" where
  "onedram_answers info = psi_616_answers info @ [bytes32 ARIES_ONEDRAM_INIT, bytes32 ARIES_ONEDRAM_DEINIT]"

lemma answered_onedram:
  "0 \<le> fd \<Longrightarrow> psi \<noteq> [] \<Longrightarrow> answered (aries_begin fd psi) (psi_616_answers info @ [bytes32 ARIES_ONEDRAM_INIT])"
  "answered (aries_hand_over fd') [bytes32 ARIES_ONEDRAM_DEINIT]"
proof -
  have await: "answered (await 52 4 (bytes32 v)) [bytes32 v]" for v
    using answered_await [of "[]" 52 "bytes32 v"] by simp
  have call: "answered (port_call 0) []"
    by (simp add: answered_def answers_call)
  show "answered (aries_begin fd psi) (psi_616_answers info @ [bytes32 ARIES_ONEDRAM_INIT])" if "0 \<le> fd" "psi \<noteq> []"
    unfolding aries_begin_def using answered_ok_then [OF answered_psi_616 [OF that] answered_then [OF await call]] .
  have "answered (port_ioctl fd' ''ONEDRAM_REL_SEM'' 0 0) []"
    by (simp add: answered_def port_ioctl_def answers_call)
  then show "answered (aries_hand_over fd') [bytes32 ARIES_ONEDRAM_DEINIT]"
    unfolding aries_hand_over_def using answered_skip answered_skip [OF answered_write_once await] by blast
qed

lemma aries_load_answered:
  assumes "answers (line w) (onedram_answers info)" and "0 \<le> serial_fd" and "length img = ARIES_MODEM_IMAGE_SIZE"
    and "ipc_nv_data_load md5 (boot_specs (phone w)) (boot_files (phone w)) = (Some data, fs)" and "ipc_client_nv_data_size (boot_specs (phone w)) \<noteq> 0"
    and "ARIES_ONEDRAM_NV_DATA_OFFSET + length data \<le> length (shared w)"
  shows "\<exists>w'. aries_load md5 img onedram_fd serial_fd w = Some (0, w')"
proof -
  let ?fw = "drop ARIES_PSI_SIZE img"
  have parts: "take ARIES_PSI_SIZE img \<noteq> []" "?fw \<noteq> []" "length ?fw \<le> length (shared w)"
    using assms(3,6) by (auto simp: ARIES_PSI_SIZE_def ARIES_MODEM_IMAGE_SIZE_def ARIES_ONEDRAM_NV_DATA_OFFSET_def)
  obtain w1 where 1: "on_line (aries_begin serial_fd (take ARIES_PSI_SIZE img)) w = (0, w1)" "answers (line w1) [bytes32 ARIES_ONEDRAM_DEINIT]" "same_data w w1"
    using line_answered [OF answered_onedram(1) [OF assms(2) parts(1), of info], of w "[bytes32 ARIES_ONEDRAM_DEINIT]"] assms(1)
    by (auto simp: onedram_answers_def)
  define w2 where "w2 = w1\<lparr>phone := (phone w1)\<lparr>boot_port := port_emit (Port_stored 0 ?fw) (line w1)\<rparr>, shared := overwrite 0 ?fw (shared w1)\<rparr>"
  have 2: "xmm616_firmware_send (-1) (Some 0) ?fw w1 = Some (0, w2)"
    using 1(3) parts by (simp add: xmm616_firmware_send_def data_copy_def w2_def same_data_def)
  define w3 where "w3 = w2\<lparr>phone := (phone w2)\<lparr>boot_files := fs, boot_port := port_emit (Port_stored ARIES_ONEDRAM_NV_DATA_OFFSET data) (line w2)\<rparr>, shared := overwrite ARIES_ONEDRAM_NV_DATA_OFFSET data (shared w2)\<rparr>"
  have "length (shared w) \<le> length (shared w2)"
    using 1(3) parts(2) by (simp add: w2_def same_data_def length_overwrite)
  then have 3: "xmm616_nv_data_send md5 (-1) (Some ARIES_ONEDRAM_NV_DATA_OFFSET) w2 = Some (0, w3)"
    using 1(3) assms(4-6) by (simp add: xmm616_nv_data_send_def data_copy_def w2_def w3_def same_data_def)
  have "answers (line w3) ([bytes32 ARIES_ONEDRAM_DEINIT] @ [])"
    using 1(2) by (simp add: w3_def w2_def)
  then obtain w4 where "on_line (aries_hand_over onedram_fd) w3 = (0, w4)"
    using line_answered [OF answered_onedram(2)] by blast
  then show ?thesis
    using 1(1) 2 3 by (simp add: aries_load_def ok_do_def)
qed

lemma aries_boot_answered:
  assumes "answers (line w) (val1 # val2 # onedram_answers info)" and "status_bytes val1" and "status_bytes val2"
    and "file_data_read (Some ARIES_MODEM_IMAGE_DEVICE) ARIES_MODEM_IMAGE_SIZE 0x1000 0 (boot_files (phone w)) = (Some img, fs)"
    and "ipc_nv_data_load md5 (boot_specs (phone w)) fs = (Some data, fs')" and "ipc_client_nv_data_size (boot_specs (phone w)) \<noteq> 0"
    and "ARIES_ONEDRAM_NV_DATA_OFFSET + length data \<le> length (shared w)"
  shows "\<exists>w'. aries_boot md5 w = Some (0, w')"
proof -
  define w0 where "w0 = w\<lparr>phone := (phone w)\<lparr>boot_files := fs\<rparr>\<rparr>"
  have len: "length img = ARIES_MODEM_IMAGE_SIZE"
    using file_data_read_result [OF assms(4)] by blast
  have opens: "\<exists>u. shared_open path v = (0, u) \<and> answers (line u) as \<and> same_data v u" if "answers (line v) as" for path v as
    using that by (simp add: shared_open_eq on_line_eq answers_call [of _ as] same_data_def)
  obtain w1 where 1: "shared_open ARIES_ONEDRAM_DEVICE w0 = (0, w1)" "answers (line w1) (val1 # val2 # onedram_answers info)" "same_data w0 w1"
    using opens [of w0] assms(1) by (auto simp: w0_def)
  obtain w2 where 2: "aries_prepare w1 = Some (0, w2)" "answers (line w2) (onedram_answers info)" "same_data w1 w2"
    using aries_prepare_answered [OF 1(2) assms(2,3)] by blast
  obtain w3 where 3: "shared_open ARIES_MODEM_SERIAL_DEVICE w2 = (0, w3)" "answers (line w3) (onedram_answers info)" "same_data w2 w3"
    using opens [OF 2(2)] by blast
  have same: "boot_files (phone w3) = fs" "boot_specs (phone w3) = boot_specs (phone w)" "shared w3 = shared w"
    using 1(3) 2(3) 3(3) by (simp_all add: same_data_def w0_def)
  obtain w4 where "aries_load md5 img 0 0 w3 = Some (0, w4)"
    using aries_load_answered [OF 3(2) _ len, of 0 md5 data fs' 0] assms(5-7) unfolding same by auto
  then show ?thesis
    using assms(4) 1(1) 2(1) 3(1) by (simp add: aries_boot_def Let_def flip: w0_def)
qed

subsection \<open>Properties\<close>

text \<open>C16. A boot of the Galaxy S that reports success has sent the boot loader with its length and checksum to the serial line, then put the firmware at the beginning of the memory
  that the modem shares and the phone's verified data at their address, inside the memory, and only after that has handed the memory over: until then the semaphore was not released
  and nothing else was stored in the memory, and after it only descriptors are closed.\<close>

theorem aries_boot_places:
  assumes "aries_boot md5 w = Some (0, w')" and "digest_ok md5" and "distinct [p, m, b, bm]" and "boot_specs (phone w) = nv_specs p m b bm sec sz c"
  shows "\<exists>img onedram_fd serial_fd data as bs cs. img = take ARIES_MODEM_IMAGE_SIZE (content ARIES_MODEM_IMAGE_DEVICE (boot_files (phone w))) \<and>
    length img = ARIES_MODEM_IMAGE_SIZE \<and>
    port_trace (line w') = port_trace (line w) @ as @ Port_opened ARIES_MODEM_SERIAL_DEVICE # bs @
      [Port_stored 0 (drop ARIES_PSI_SIZE img), Port_stored ARIES_ONEDRAM_NV_DATA_OFFSET data,
       Port_ioctl onedram_fd ''ONEDRAM_REL_SEM'' 0, Port_wrote onedram_fd (bytes32 ARIES_ONEDRAM_MAGIC)] @ cs \<and>
    (\<forall>a \<in> set as. kept_back a) \<and>
    (\<forall>a \<in> set bs. \<exists>bytes. a = Port_wrote serial_fd bytes) \<and> concat (map (action_bytes serial_fd) bs) = psi_frame (take ARIES_PSI_SIZE img) \<and>
    (\<forall>a \<in> set cs. \<exists>fd. a = Port_closed fd) \<and>
    take (ARIES_MODEM_IMAGE_SIZE - ARIES_PSI_SIZE) (shared w') = drop ARIES_PSI_SIZE img \<and>
    take (length data) (drop ARIES_ONEDRAM_NV_DATA_OFFSET (shared w')) = data \<and>
    intact md5 sec sz p m (boot_files (phone w')) \<and> files (boot_files (phone w')) p = Some data"
proof -
  obtain img onedram_fd serial_fd w1 rc w2 w3 where img: "img = take ARIES_MODEM_IMAGE_SIZE (content ARIES_MODEM_IMAGE_DEVICE (boot_files (phone w)))"
    "length img = ARIES_MODEM_IMAGE_SIZE" and w1: "steps kept_back (line w) (line w1)" "boot_specs (phone w1) = boot_specs (phone w)"
    and w2: "shared_open ARIES_MODEM_SERIAL_DEVICE w1 = (serial_fd, w2)" and w3: "aries_load md5 img onedram_fd serial_fd w2 = Some (rc, w3)" "0 \<le> rc"
    and w': "w' = shared_close onedram_fd (shared_close serial_fd w3)"
    using aries_boot_steps [OF assms(1)] by metis
  have specs: "boot_specs (phone w2) = nv_specs p m b bm sec sz c" and opened: "port_trace (line w2) = port_trace (line w1) @ [Port_opened ARIES_MODEM_SERIAL_DEVICE]"
    using w2 w1(2) assms(4) by (auto simp: shared_open_eq on_line_eq)
  obtain as where as: "port_trace (line w1) = port_trace (line w) @ as" "\<forall>a \<in> set as. kept_back a"
    using w1(1) by (auto simp: steps_def)
  obtain data bs where bs: "port_trace (line w3) = port_trace (line w2) @ bs @ [Port_stored 0 (drop ARIES_PSI_SIZE img), Port_stored ARIES_ONEDRAM_NV_DATA_OFFSET data,
      Port_ioctl onedram_fd ''ONEDRAM_REL_SEM'' 0, Port_wrote onedram_fd (bytes32 ARIES_ONEDRAM_MAGIC)]"
    "\<forall>a \<in> set bs. \<exists>bytes. a = Port_wrote serial_fd bytes" "concat (map (action_bytes serial_fd) bs) = psi_frame (take ARIES_PSI_SIZE img)"
    and memory: "shared w3 = overwrite ARIES_ONEDRAM_NV_DATA_OFFSET data (overwrite 0 (drop ARIES_PSI_SIZE img) (shared w2))"
    and nv: "intact md5 sec sz p m (boot_files (phone w3))" "files (boot_files (phone w3)) p = Some data"
    using aries_load_result [OF w3 assms(2,3) specs] by blast
  have len: "length (drop ARIES_PSI_SIZE img) = ARIES_MODEM_IMAGE_SIZE - ARIES_PSI_SIZE" "drop ARIES_PSI_SIZE img \<noteq> []"
    using img(2) by (simp_all add: ARIES_PSI_SIZE_def ARIES_MODEM_IMAGE_SIZE_def)
  have fw: "take (ARIES_MODEM_IMAGE_SIZE - ARIES_PSI_SIZE) (shared w3) = drop ARIES_PSI_SIZE img"
    using overwrite_slice [of "drop ARIES_PSI_SIZE img" 0 "shared w2"] len
    by (simp add: memory take_overwrite length_overwrite ARIES_PSI_SIZE_def ARIES_MODEM_IMAGE_SIZE_def ARIES_ONEDRAM_NV_DATA_OFFSET_def)
  obtain cs where cs: "port_trace (line w') = port_trace (line w3) @ cs" "\<forall>a \<in> set cs. \<exists>fd. a = Port_closed fd"
    using boots_closed [of w3 onedram_fd serial_fd] unfolding w' steps_def by blast
  have "shared w' = shared w3" "take (length data) (drop ARIES_ONEDRAM_NV_DATA_OFFSET (shared w3)) = data"
    by (simp_all add: w' shared_close_def memory overwrite_slice)
  moreover have "boot_files (phone w') = boot_files (phone w3)"
    by (simp add: w' shared_close_eq)
  moreover have "port_trace (line w') = port_trace (line w) @ as @ Port_opened ARIES_MODEM_SERIAL_DEVICE # bs @
      [Port_stored 0 (drop ARIES_PSI_SIZE img), Port_stored ARIES_ONEDRAM_NV_DATA_OFFSET data,
       Port_ioctl onedram_fd ''ONEDRAM_REL_SEM'' 0, Port_wrote onedram_fd (bytes32 ARIES_ONEDRAM_MAGIC)] @ cs"
    by (simp add: cs(1) bs(1) opened as(1))
  ultimately show ?thesis
    using img fw nv as(2) bs(2,3) cs(2) by metis
qed

text \<open>C18. The modem is off when its software is sent: in every boot that reports success, the last thing that is done with the modem's power, before the serial line is opened for the last
  time, is to turn it off, unless the status that was read after it had been turned on, the second that is read, is that it is off already. The log says the opposite.\<close>

theorem aries_boot_turns_off:
  assumes "aries_boot md5 w = Some (0, w')" and "digest_ok md5" and "distinct [p, m, b, bm]" and "boot_specs (phone w) = nv_specs p m b bm sec sz c"
  shows "\<exists>status pre fd as. fst (port_read 100 (snd (port_read 100 (line w)))) = Some status \<and>
    port_trace (line w') = pre @
      (if buffer_atoi status = Some 0 then [Port_opened ARIES_MODEMCTL_STATUS_SYSFS, Port_closed fd]
       else [Port_opened ARIES_MODEMCTL_CONTROL_SYSFS, Port_wrote fd (string_bytes [CHR ''o'', CHR ''f'', CHR ''f'', CHR 0x0A]), Port_closed fd]) @
      Port_opened ARIES_MODEM_SERIAL_DEVICE # as \<and>
    (\<forall>path. Port_opened path \<notin> set as)"
proof -
  obtain img onedram_fd serial_fd s q w1 rc w2 w3 where w1: "aries_power_off s = Some (q, line w1)" "0 \<le> q" "port_reads s = port_reads (snd (port_read 100 (line w)))"
    "boot_specs (phone w1) = boot_specs (phone w)"
    and w2: "shared_open ARIES_MODEM_SERIAL_DEVICE w1 = (serial_fd, w2)" and w3: "aries_load md5 img onedram_fd serial_fd w2 = Some (rc, w3)" "0 \<le> rc"
    and w': "w' = shared_close onedram_fd (shared_close serial_fd w3)"
    using aries_boot_steps [OF assms(1)] by metis
  have specs: "boot_specs (phone w2) = nv_specs p m b bm sec sz c" and opened: "port_trace (line w2) = port_trace (line w1) @ [Port_opened ARIES_MODEM_SERIAL_DEVICE]"
    using w2 w1(4) assms(4) by (auto simp: shared_open_eq on_line_eq)
  obtain as where as: "port_trace (line w3) = port_trace (line w2) @ as" "\<forall>path. Port_opened path \<notin> set as"
    using aries_load_result [OF w3 assms(2,3) specs] by fastforce
  obtain cs where cs: "port_trace (line w') = port_trace (line w3) @ cs" "\<forall>a \<in> set cs. \<exists>fd. a = Port_closed fd"
    using boots_closed [of w3 onedram_fd serial_fd] unfolding w' steps_def by blast
  obtain status pre fd where status: "fst (port_read 100 s) = Some status"
    "port_trace (line w1) = pre @ (if buffer_atoi status = Some 0 then [Port_opened ARIES_MODEMCTL_STATUS_SYSFS, Port_closed fd]
      else [Port_opened ARIES_MODEMCTL_CONTROL_SYSFS, Port_wrote fd (string_bytes [CHR ''o'', CHR ''f'', CHR ''f'', CHR 0x0A]), Port_closed fd])"
    using power_set_result [OF w1(1) [unfolded aries_power_off_def] w1(2)] by blast
  have "\<forall>path. Port_opened path \<notin> set (as @ cs)"
    using as(2) cs(2) by auto
  moreover have "port_trace (line w') = port_trace (line w1) @ Port_opened ARIES_MODEM_SERIAL_DEVICE # as @ cs"
    by (simp add: cs(1) as(1) opened)
  moreover have "fst (port_read 100 (snd (port_read 100 (line w)))) = Some status"
    using status(1) port_read_cong [OF w1(3), of 100] by simp
  ultimately show ?thesis
    unfolding status(2) by (intro exI [of _ status] exI [of _ pre] exI [of _ fd] exI [of _ "as @ cs"]) simp
qed

text \<open>When the modem and the kernel answer as the protocol has it and no call fails, the boot succeeds, whatever the status of the modem was.\<close>

theorem aries_boot_succeeds:
  assumes "answers (line w) (val1 # val2 # onedram_answers info)" and "status_bytes val1" and "status_bytes val2"
    and "file_data_read (Some ARIES_MODEM_IMAGE_DEVICE) ARIES_MODEM_IMAGE_SIZE 0x1000 0 (boot_files (phone w)) = (Some img, fs)"
    and "ipc_nv_data_load md5 (boot_specs (phone w)) fs = (Some data, fs')" and "ipc_client_nv_data_size (boot_specs (phone w)) \<noteq> 0"
    and "ARIES_ONEDRAM_NV_DATA_OFFSET + length data \<le> length (shared w)"
  shows "\<exists>w'. aries_boot md5 w = Some (0, w')"
  using assms by (rule aries_boot_answered)

text \<open>C19. A message crosses the socket unchanged however its bytes are cut into datagrams, empty ones among them, when sending has succeeded and the first of them holds the header.\<close>

theorem aries_message_crosses:
  assumes "aries_fmt_send data message s = Some (0, s')" and "0 \<le> fd"
  shows "\<exists>p ps. pn_sent s' = pn_sent s @ p # ps \<and>
    (7 \<le> length p \<longrightarrow> (\<forall>t rest. pn_calls t = [] \<longrightarrow> pn_arrived t = (p # ps) @ rest \<longrightarrow>
      aries_fmt_recv (Some fd) t = Some (Some message, t\<lparr>pn_arrived := rest\<rparr>)))"
proof -
  let ?h = "ipc_fmt_header_setup message"
  have fits: "7 + length (msg_data message) \<le> unat (fh_length ?h)" and sent: "aries_write_all data (fmt_header_bytes ?h @ msg_data message) s = (0, s')"
    using assms(1) by (auto simp: aries_fmt_send_def Let_def split: if_splits)
  have "unat (fh_length ?h) = (length (msg_data message) + 7) mod 2 ^ 16"
    by (simp add: ipc_fmt_header_setup_def unat_of_nat take_bit_eq_mod flip: of_nat_add)
  with fits have len: "unat (fh_length ?h) = length (fmt_header_bytes ?h @ msg_data message)"
    using mod_less_eq_dividend [of "length (msg_data message) + 7" "2 ^ 16"] by simp
  obtain p ps where ps: "pn_sent s' = pn_sent s @ p # ps" "pieces_of (fmt_header_bytes ?h @ msg_data message) (p # ps)"
    using aries_write_all_sent [OF sent] sent_pieces_first by (metis length_fmt_header_bytes list.size(3) zero_neq_numeral)
  have "aries_fmt_recv (Some fd) t = Some (Some message, t\<lparr>pn_arrived := rest\<rparr>)"
    if "7 \<le> length p" "pn_calls t = []" "pn_arrived t = (p # ps) @ rest" for t rest
  proof -
    note arrived = that
    obtain u where u: "aries_read (Some fd) ARIES_BUFFER_LENGTH t = (Some p, u)" "take 7 p = fmt_header_bytes ?h"
      "aries_recv_rest (Some fd) 7 (unat (fh_length ?h)) (drop 7 p) (ipc_fmt_message_setup ?h) u = Some (Some message, t\<lparr>pn_arrived := rest\<rparr>)"
      using aries_recv_pieces [OF assms(2) arrived(2) ps(2), of 7 rest "ipc_fmt_message_setup ?h"] arrived(1,3) unfolding len fmt_message_restored by auto
    then show ?thesis
      by (simp add: aries_fmt_recv_def header_read_take)
  qed
  then show ?thesis
    using ps(1) by blast
qed

text \<open>C39. Receiving is undefined exactly when the datagram that begins a message brings data although the header's length is below seven, or brings more than the length says; in
  all other cases, whatever datagrams follow, the function returns.\<close>

theorem aries_recv_undefined_iff:
  assumes "0 \<le> fd" and "pn_calls t = []" and "pn_arrived t = d # rest" and "fmt_header_read (take ARIES_BUFFER_LENGTH d) = Some header"
  shows "aries_fmt_recv (Some fd) t = None \<longleftrightarrow>
    unat (fh_length header) \<noteq> 7 \<and> 7 < length (take ARIES_BUFFER_LENGTH d) \<and> unat (fh_length header) < length (take ARIES_BUFFER_LENGTH d)"
proof -
  define u where "u = t\<lparr>pn_arrived := rest\<rparr>"
  have "aries_read (Some fd) ARIES_BUFFER_LENGTH t = (Some (take ARIES_BUFFER_LENGTH d), u)"
    using assms(1-3) by (simp add: aries_read_def pn_call_def u_def ARIES_BUFFER_LENGTH_def)
  moreover have "7 \<le> length (take ARIES_BUFFER_LENGTH d)"
    using assms(4) by (cases "take ARIES_BUFFER_LENGTH d" rule: fmt_header_read.cases) (auto simp del: length_take)
  ultimately show ?thesis
    using assms(4) by (simp add: aries_fmt_recv_def aries_recv_rest_def del: length_take) (auto simp del: length_take)
qed

subsection \<open>Witnesses\<close>

definition toy_aries :: shared_world where
  "toy_aries = \<lparr>phone = \<lparr>boot_port = \<lparr>port_calls = [], port_reads = [49, 10] # [49, 10] # onedram_answers 7, port_trace = []\<rparr>,
     boot_files = toy_files\<lparr>files := (files toy_files)(''nv'' := None, ARIES_MODEM_IMAGE_DEVICE := Some (replicate ARIES_MODEM_IMAGE_SIZE 1))\<rparr>,
     boot_specs = toy_specs\<rparr>, shared = replicate ARIES_ONEDRAM_MEMORY_SIZE 0\<rparr>"

lemma toy_aries_facts: "answers (line toy_aries) ([49, 10] # [49, 10] # onedram_answers 7)" "status_bytes [49, 10]" "boot_specs (phone toy_aries) = toy_specs"
  "ipc_client_nv_data_size (boot_specs (phone toy_aries)) \<noteq> 0" "ARIES_ONEDRAM_NV_DATA_OFFSET + length [5, 6, 7, 8 :: u8] \<le> length (shared toy_aries)"
  by (simp_all add: toy_aries_def toy_specs_def answers_def status_bytes_def buffer_atoi_def buffer_signed_def ARIES_ONEDRAM_NV_DATA_OFFSET_def
    ARIES_ONEDRAM_MEMORY_SIZE_def)

lemma toy_aries_reads:
  "\<exists>fs fs'. file_data_read (Some ARIES_MODEM_IMAGE_DEVICE) ARIES_MODEM_IMAGE_SIZE 0x1000 0 (boot_files (phone toy_aries)) =
      (Some (replicate ARIES_MODEM_IMAGE_SIZE 1), fs) \<and> ipc_nv_data_load toy_md5 (boot_specs (phone toy_aries)) fs = (Some [5, 6, 7, 8], fs')"
proof -
  let ?f = "boot_files (phone toy_aries)"
  obtain r fs where rd: "file_data_read (Some ARIES_MODEM_IMAGE_DEVICE) ARIES_MODEM_IMAGE_SIZE 0x1000 0 ?f = (r, fs)"
    by fastforce
  have img: "files ?f ARIES_MODEM_IMAGE_DEVICE = Some (replicate ARIES_MODEM_IMAGE_SIZE 1)" "no_faults ?f"
    using toy_facts(1) by (simp_all add: toy_aries_def)
  have "ARIES_MODEM_IMAGE_SIZE \<ge> 0x1000"
    by (simp add: ARIES_MODEM_IMAGE_SIZE_def)
  then have r: "r = Some (replicate ARIES_MODEM_IMAGE_SIZE 1)" and fs: "files fs = files ?f" "no_faults fs"
    using file_data_read_result [OF rd] img by (auto simp: readable_def content_def)
  have "\<not> intact toy_md5 ''x'' 4 ''nv'' ''nv.md5'' fs" "intact toy_md5 ''x'' 4 ''bak'' ''bak.md5'' fs"
    using toy_facts by (simp_all add: intact_def fs(1) toy_aries_def ARIES_MODEM_IMAGE_DEVICE_def)
  moreover have "files fs ''bak'' = Some [5, 6, 7, 8]"
    by (simp add: fs(1) toy_aries_def toy_files_def ARIES_MODEM_IMAGE_DEVICE_def)
  ultimately have "\<exists>fs'. ipc_nv_data_load toy_md5 toy_specs fs = (Some [5, 6, 7, 8], fs')"
    using nv_load_from_backup [OF toy_digest fs(2), of "''nv''" "''nv.md5''" "''bak''" "''bak.md5''" 2 4 "''x''"] by (auto simp: toy_specs_def)
  then show ?thesis
    using rd r by (simp add: toy_aries_def)
qed

theorem aries_boot_succeeds_witness: "\<exists>w'. aries_boot toy_md5 toy_aries = Some (0, w')"
  using aries_boot_succeeds [OF toy_aries_facts(1,2,2) _ _ toy_aries_facts(4,5)] toy_aries_reads by blast

lemma toy_aries_boots: "\<exists>w'. aries_boot toy_md5 toy_aries = Some (0, w')"
  using aries_boot_answered [OF toy_aries_facts(1,2,2) _ _ toy_aries_facts(4,5)] toy_aries_reads by blast

theorem aries_boot_places_witness:
  "\<exists>w' data. aries_boot toy_md5 toy_aries = Some (0, w') \<and> files (boot_files (phone w')) ''nv'' = Some data \<and>
    take (length data) (drop ARIES_ONEDRAM_NV_DATA_OFFSET (shared w')) = data"
proof -
  obtain w' where w': "aries_boot toy_md5 toy_aries = Some (0, w')"
    using toy_aries_boots by blast
  then show ?thesis
    using aries_boot_places [OF w' toy_digest, of "''nv''" "''nv.md5''" "''bak''" "''bak.md5''" "''x''" 4 2] by (auto simp: toy_aries_facts(3) toy_specs_def)
qed

theorem aries_boot_turns_off_witness:
  "\<exists>w' pre fd as. aries_boot toy_md5 toy_aries = Some (0, w') \<and>
    port_trace (line w') = pre @ [Port_opened ARIES_MODEMCTL_CONTROL_SYSFS, Port_wrote fd (string_bytes [CHR ''o'', CHR ''f'', CHR ''f'', CHR 0x0A]), Port_closed fd] @
      Port_opened ARIES_MODEM_SERIAL_DEVICE # as"
proof -
  obtain w' where w': "aries_boot toy_md5 toy_aries = Some (0, w')"
    using toy_aries_boots by blast
  have specs: "boot_specs (phone toy_aries) = nv_specs ''nv'' ''nv.md5'' ''bak'' ''bak.md5'' ''x'' 4 2"
    by (simp add: toy_aries_facts(3) toy_specs_def)
  have "distinct [''nv'', ''nv.md5'', ''bak'', ''bak.md5'']"
    by simp
  moreover have "fst (port_read 100 (snd (port_read 100 (line toy_aries)))) = Some [49, 10]" "buffer_atoi [49, 10] = Some 1"
    by (simp_all add: toy_aries_def port_read_def buffer_atoi_def buffer_signed_def)
  ultimately show ?thesis
    using aries_boot_turns_off [OF w' toy_digest _ specs] w' by auto
qed

definition toy_socket :: "u8 list list \<Rightarrow> int list \<Rightarrow> phonet_link" where
  "toy_socket arrived results = \<lparr>pn_calls = results, pn_arrived = arrived, pn_sent = []\<rparr>"

definition toy_datagrams :: ipc_message where
  "toy_datagrams = \<lparr>msg_mseq = 1, msg_aseq = 2, msg_command = 0x0102, msg_type = 2, msg_data = [9, 8]\<rparr>"

text \<open>A message of nine bytes, which the socket takes in pieces of eight bytes, none and one byte.\<close>

lemma toy_datagrams_sent:
  "aries_fmt_send (Some 3) toy_datagrams (toy_socket [] [8, 0]) = Some (0, \<lparr>pn_calls = [], pn_arrived = [], pn_sent = [[9, 0, 1, 2, 1, 2, 2, 9], [], [8]]\<rparr>)"
  by (simp add: aries_fmt_send_def toy_datagrams_def toy_socket_def ipc_fmt_header_setup_def IPC_GROUP_def IPC_INDEX_def fmt_header_bytes_def bytes16_def
    aries_write_all.simps aries_write_def pn_call_def ARIES_BUFFER_LENGTH_def)

theorem aries_message_crosses_witness:
  "aries_fmt_recv (Some 3) (toy_socket [[9, 0, 1, 2, 1, 2, 2, 9], [], [8]] []) = Some (Some toy_datagrams, toy_socket [] [])"
  using aries_message_crosses [OF toy_datagrams_sent, of 3] by (simp add: toy_socket_def)

theorem aries_recv_undefined_iff_witness: "aries_fmt_recv (Some 3) (toy_socket [[8, 0, 1, 2, 1, 2, 2, 9, 8]] []) = None"
  using aries_recv_undefined_iff [of 3 "toy_socket [[8, 0, 1, 2, 1, 2, 2, 9, 8]] []" "[8, 0, 1, 2, 1, 2, 2, 9, 8]" "[]"]
  by (simp add: toy_socket_def ARIES_BUFFER_LENGTH_def le16_def)

end
