(* ===== verification/Ipc_Device.thy ===== *)
theory Ipc_Device
  imports Xmm626_Modem
begin

section \<open>libsamsung-ipc: which phone this is\<close>

text \<open>
  \<open>samsung-ipc/ipc.c\<close>, \<open>ipc_device_detect\<close> and \<open>ipc_client_create\<close>, and the table of \<open>ipc_devices.c\<close>. The macros that the build may define
  (\<open>IPC_DEVICE_NAME\<close> and the like), the contents of \<open>/proc/cpuinfo\<close> and the release that \<open>uname\<close> reports are arguments. Operations, handlers and specifications
  of a device are the names of the C objects.
\<close>

subsection \<open>Strings\<close>

definition NEWLINE :: char where "NEWLINE = CHR 0x0A"

text \<open>\<open>strncmp\<close> of Android's C library returns the difference of the first characters that differ; the standard promises its sign only.\<close>

fun strncmp :: "nat \<Rightarrow> string \<Rightarrow> string \<Rightarrow> int" where
  "strncmp 0 a b = 0"
| "strncmp (Suc n) [] [] = 0"
| "strncmp (Suc n) (c # a) [] = of_char c"
| "strncmp (Suc n) [] (d # b) = - of_char d"
| "strncmp (Suc n) (c # a) (d # b) = (if c = d then strncmp n a b else of_char c - of_char d)"

definition tolower :: "char \<Rightarrow> char" where
  "tolower c = (if 65 \<le> (of_char c :: nat) \<and> (of_char c :: nat) \<le> 90 then char_of (of_char c + 32 :: nat) else c)"

subsection \<open>The board's name\<close>

text \<open>The search for the line that names the hardware, in a buffer with all its bytes. \<open>None\<close> where the code would leave the buffer, and \<open>Some None\<close> where no line is found.
  The eleven characters before the name are skipped without a look at the line's length.\<close>

definition line_end :: "char \<Rightarrow> bool" where
  "line_end c \<longleftrightarrow> c = NEWLINE \<or> c = NUL"

function board_scan :: "string \<Rightarrow> string option option" where
  "board_scan buffer =
     (let s = dropWhile (\<lambda>c. c = NEWLINE) buffer; line = takeWhile (\<lambda>c. \<not> line_end c) s in
      if length line = length s then None
      else if line = [] then Some None
      else if strncmp 9 line ''Hardware'' = 9 then
        (let p = drop 11 (s[length line := NUL]); board = takeWhile (\<lambda>c. \<not> line_end c) p in
         if length board = length p then None else Some (Some (map tolower board)))
      else board_scan (drop (length line) s))"
  by pat_completeness auto
termination
proof (relation "measure length")
  fix buffer :: string and s line
  assume s: "s = dropWhile (\<lambda>c. c = NEWLINE) buffer" and line: "line = takeWhile (\<lambda>c. \<not> line_end c) s" "length line \<noteq> length s" "line \<noteq> []"
  have "length s \<le> length buffer"
    by (simp add: s length_dropWhile_le)
  moreover have "length s - length line < length s"
    using line by (intro diff_less) auto
  ultimately show "(drop (length line) s, buffer) \<in> measure length"
    by simp
qed simp

declare board_scan.simps [simp del]

subsection \<open>The table (ipc_devices.c)\<close>

record ipc_device_desc =
  dev_name :: "string option"
  dev_board_name :: "string option"
  dev_kernel_version :: "string option"
  dev_fmt_ops :: string
  dev_rfs_ops :: string
  dev_handlers :: string
  dev_gprs_specs :: string
  dev_nv_data_specs :: string

definition device_desc :: "string \<Rightarrow> string \<Rightarrow> string option \<Rightarrow> ipc_device_desc" where
  "device_desc name board_name kernel_version =
     \<lparr>dev_name = Some name, dev_board_name = Some board_name, dev_kernel_version = kernel_version,
      dev_fmt_ops = name @ ''_fmt_ops'', dev_rfs_ops = name @ ''_rfs_ops'', dev_handlers = name @ ''_handlers'',
      dev_gprs_specs = name @ ''_gprs_specs'', dev_nv_data_specs = name @ ''_nv_data_specs''\<rparr>"

definition ipc_devices :: "ipc_device_desc list" where
  "ipc_devices =
    [(device_desc ''crespo'' ''herring'' (Some ''2.6.35''))\<lparr>dev_gprs_specs := ''crespo_gprs_specs_single''\<rparr>,
     device_desc ''crespo'' ''herring'' (Some ''3.0''),
     device_desc ''aries'' ''aries'' None,
     device_desc ''aries'' ''gt-p1000'' None,
     device_desc ''galaxys2'' ''smdk4210'' None,
     device_desc ''galaxys2'' ''i9100'' None,
     device_desc ''maguro'' ''tuna'' None,
     device_desc ''piranha'' ''espresso10'' None,
     device_desc ''piranha'' ''espresso'' None,
     device_desc ''i9300'' ''smdk4x12'' None,
     device_desc ''n7100'' ''smdk4x12'' None]"

definition ipc_devices_count :: nat where
  "ipc_devices_count = length ipc_devices"

subsection \<open>Detection (ipc.c)\<close>

text \<open>The loop over the table; \<open>i\<close> counts and \<open>index\<close> is the best match so far.\<close>

fun detect_loop :: "string option \<Rightarrow> string option \<Rightarrow> string option \<Rightarrow> nat \<Rightarrow> int \<Rightarrow> ipc_device_desc list \<Rightarrow> int" where
  "detect_loop name board_name kernel_version i index [] = index"
| "detect_loop name board_name kernel_version i index (d # ds) =
     (if dev_name d = None \<and> dev_board_name d = None then detect_loop name board_name kernel_version (Suc i) index ds
      else if name \<noteq> None \<and> dev_name d \<noteq> None \<and> name \<noteq> dev_name d then detect_loop name board_name kernel_version (Suc i) index ds
      else if board_name \<noteq> None \<and> dev_board_name d \<noteq> None \<and> board_name \<noteq> dev_board_name d
        then detect_loop name board_name kernel_version (Suc i) index ds
      else if kernel_version = None \<or> dev_kernel_version d = None then detect_loop name board_name kernel_version (Suc i) (int i) ds
      else if kernel_version \<noteq> dev_kernel_version d then detect_loop name board_name kernel_version (Suc i) (int i) ds
      else int i)"

definition detect_index :: "string option \<Rightarrow> string option \<Rightarrow> string option \<Rightarrow> int" where
  "detect_index name board_name kernel_version =
     (if name = None \<and> board_name = None then -1 else detect_loop name board_name kernel_version 0 (-1) ipc_devices)"

definition ipc_device_detect :: "string option \<Rightarrow> string option \<Rightarrow> string option \<Rightarrow> string option \<Rightarrow> string \<Rightarrow> int option" where
  "ipc_device_detect name_macro board_macro kernel_macro cpuinfo release =
     (let kernel_version = (case kernel_macro of None \<Rightarrow> Some release | Some v \<Rightarrow> Some v) in
      case board_macro of
        Some board_name \<Rightarrow> Some (detect_index name_macro (Some board_name) kernel_version)
      | None \<Rightarrow> (case cpuinfo of
            None \<Rightarrow> Some (-1)
          | Some contents \<Rightarrow>
              map_option (\<lambda>board_name. detect_index name_macro board_name kernel_version) (board_scan (take 4096 (contents @ replicate 4096 NUL)))))"

subsection \<open>Clients\<close>

record ipc_client =
  client_type :: int
  client_ops :: string
  client_handlers :: string
  client_gprs_specs :: string
  client_nv_data_specs :: string

text \<open>\<open>detected\<close> is what \<open>ipc_device_detect\<close> returned; the outer \<open>None\<close> is an access outside the table.\<close>

definition ipc_client_create :: "int \<Rightarrow> int \<Rightarrow> ipc_client option option" where
  "ipc_client_create type detected =
     (if type < 0 \<or> type > IPC_CLIENT_TYPE_RFS then Some None
      else if detected < 0 then Some None
      else if nat detected > ipc_devices_count then Some None
      else if nat detected = ipc_devices_count then None
      else
        let d = ipc_devices ! nat detected in
        Some (Some \<lparr>client_type = type,
          client_ops = (if type = IPC_CLIENT_TYPE_RFS then dev_rfs_ops d else dev_fmt_ops d), client_handlers = dev_handlers d,
          client_gprs_specs = dev_gprs_specs d, client_nv_data_specs = dev_nv_data_specs d\<rparr>))"

subsection \<open>What is chosen\<close>

definition device_matches :: "string option \<Rightarrow> string option \<Rightarrow> ipc_device_desc \<Rightarrow> bool" where
  "device_matches name board_name d \<longleftrightarrow> (dev_name d \<noteq> None \<or> dev_board_name d \<noteq> None) \<and>
     (name = None \<or> dev_name d = None \<or> name = dev_name d) \<and> (board_name = None \<or> dev_board_name d = None \<or> board_name = dev_board_name d)"

definition kernel_matches :: "string option \<Rightarrow> ipc_device_desc \<Rightarrow> bool" where
  "kernel_matches kernel_version d \<longleftrightarrow> kernel_version \<noteq> None \<and> kernel_version = dev_kernel_version d"

text \<open>The first device that matches in everything, else the last one that matches in its names.\<close>

definition best_device :: "string option \<Rightarrow> string option \<Rightarrow> string option \<Rightarrow> ipc_device_desc list \<Rightarrow> nat option" where
  "best_device name board_name kernel_version ds =
     (let named = filter (\<lambda>i. device_matches name board_name (ds ! i)) [0..<length ds];
          full = filter (\<lambda>i. kernel_matches kernel_version (ds ! i)) named in
      if full \<noteq> [] then Some (hd full) else if named \<noteq> [] then Some (last named) else None)"

definition as_index :: "nat option \<Rightarrow> int" where
  "as_index r = (case r of None \<Rightarrow> -1 | Some i \<Rightarrow> int i)"

lemma detect_loop_Cons:
  "detect_loop name board krn i index (d # ds) =
    (if \<not> device_matches name board d then detect_loop name board krn (Suc i) index ds
     else if kernel_matches krn d then int i else detect_loop name board krn (Suc i) (int i) ds)"
  by (auto simp: device_matches_def kernel_matches_def)

lemma best_device_Cons:
  "best_device name board krn (d # ds) =
    (if device_matches name board d \<and> kernel_matches krn d then Some 0
     else case best_device name board krn ds of Some i \<Rightarrow> Some (Suc i) | None \<Rightarrow> if device_matches name board d then Some 0 else None)"
proof -
  have "[0..<length (d # ds)] = 0 # map Suc [0..<length ds]"
    by (simp add: map_Suc_upt upt_conv_Cons del: upt_Suc)
  then show ?thesis
    unfolding best_device_def Let_def by (auto simp: filter_map comp_def hd_map last_map filter_empty_conv simp del: upt_Suc)
qed

lemma detect_loop_best:
  "detect_loop name board krn i index ds =
    (case best_device name board krn ds of None \<Rightarrow> index | Some j \<Rightarrow> int (i + j))"
proof (induction ds arbitrary: i index)
  case Nil
  then show ?case
    by (simp add: best_device_def)
next
  case (Cons d ds)
  show ?case
    by (simp add: detect_loop_Cons best_device_Cons Cons del: detect_loop.simps split: option.split)
qed

lemma best_device_sound:
  assumes "best_device name board krn ds = Some i"
  shows "i < length ds" and "device_matches name board (ds ! i)"
proof -
  have "i \<in> set (filter (\<lambda>i. device_matches name board (ds ! i)) [0..<length ds])"
    using assms hd_in_set last_in_set unfolding best_device_def Let_def by (metis (no_types, lifting) filter_is_subset option.distinct(1) option.inject subsetD)
  then show "i < length ds" and "device_matches name board (ds ! i)"
    by simp_all
qed

subsection \<open>Properties\<close>

text \<open>C38. The phone that is detected is the first one of the table that matches in its names and in the kernel's version, or else the last one that matches in its names, and none is detected
  exactly when nothing is known or nothing matches.\<close>

theorem detect_index_best:
  "detect_index name board krn = (if name = None \<and> board = None then -1 else as_index (best_device name board krn ipc_devices))"
  by (simp add: detect_index_def detect_loop_best as_index_def split: option.split)

text \<open>Creating a client never reads outside the table, although the bound that is checked is one too large: what was detected is an entry of the table, and the client has the
  operations of an entry that matches.\<close>

theorem client_create_in_table:
  "\<exists>r. ipc_client_create type (detect_index name board krn) = Some r \<and>
    (case r of
       None \<Rightarrow> type < 0 \<or> IPC_CLIENT_TYPE_RFS < type \<or> detect_index name board krn = -1
     | Some c \<Rightarrow> \<exists>d. d \<in> set ipc_devices \<and> device_matches name board d \<and> client_handlers c = dev_handlers d \<and>
         client_ops c = (if type = IPC_CLIENT_TYPE_RFS then dev_rfs_ops d else dev_fmt_ops d))"
proof (cases "(name = None \<and> board = None) \<or> best_device name board krn ipc_devices = None")
  case True
  then have "detect_index name board krn = -1"
    by (auto simp: detect_index_def detect_loop_best)
  then show ?thesis
    by (simp add: ipc_client_create_def)
next
  case False
  then obtain i where i: "best_device name board krn ipc_devices = Some i"
    by blast
  have index: "detect_index name board krn = int i"
    using False i by (auto simp: detect_index_def detect_loop_best)
  have "ipc_devices ! i \<in> set ipc_devices"
    using best_device_sound(1) [OF i] by simp
  then show ?thesis
    using best_device_sound [OF i] unfolding index
    by (auto simp: ipc_client_create_def ipc_devices_count_def Let_def intro!: exI [of _ "ipc_devices ! i"])
qed

lemma device_of_board:
  "map (\<lambda>board. detect_index None (Some board) (Some ''3.0.101''))
    [''herring'', ''aries'', ''gt-p1000'', ''smdk4210'', ''i9100'', ''tuna'', ''espresso10'', ''espresso'', ''smdk4x12'', ''unknown''] =
    [1, 2, 3, 4, 5, 6, 7, 8, 10, -1]"
  by (simp add: detect_index_def ipc_devices_def device_desc_def)


lemma board_scan_finds:
  "board_scan (''Processor'' @ [CHR 0x09] @ '': ARMv7'' @ [NEWLINE] @ ''Hardware'' @ [CHR 0x09] @ '': SMDK4210'' @ [NEWLINE, NUL]) = Some (Some ''smdk4210'')"
  by code_simp

text \<open>A line that begins with a letter nine places after the H of ``Hardware'' is taken for it, and a line without the expected nine is not.\<close>

lemma board_scan_mistakes:
  "board_scan (''Quirks'' @ [CHR 0x09] @ '' : NONE'' @ [NEWLINE] @ ''Hardware'' @ [CHR 0x09] @ '': SMDK4210'' @ [NEWLINE, NUL]) = Some (Some ''one'')"
  "board_scan (''Hardware: SMDK4210'' @ [NEWLINE, NUL]) = Some None"
  by code_simp+

end
