(* ===== verification/Ipc_Client.thy ===== *)
theory Ipc_Client
  imports Ipc_Nv
begin

section \<open>libsamsung-ipc: the client and its operations\<close>

text \<open>
  The rest of \<open>samsung-ipc/ipc.c\<close>: a client is an object with operations of a device, a copy of the device's handlers, in which the program may replace entries, and the device's
  specifications (\<open>ipc.h\<close>). Every pointer may be \<open>NULL\<close>, which is \<open>None\<close>. \<open>'d\<close> is what the data pointers of the handlers lead to, and \<open>'s\<close> the state that handlers and operations
  change; a handler that changes its data returns it. Logging is left out, apart from the callback that is stored.
\<close>

subsection \<open>Structures (ipc.h)\<close>

datatype data_slot = Transport_slot | Power_slot | Gprs_slot

record ('d, 's) ipc_client_handlers =
  h_open :: "('d option \<Rightarrow> int \<Rightarrow> 's \<Rightarrow> (int \<times> 'd option) \<times> 's) option"
  h_close :: "('d option \<Rightarrow> 's \<Rightarrow> (int \<times> 'd option) \<times> 's) option"
  h_read :: "('d option \<Rightarrow> nat \<Rightarrow> 's \<Rightarrow> u8 list option \<times> 's) option"
  h_write :: "('d option \<Rightarrow> u8 list \<Rightarrow> 's \<Rightarrow> int \<times> 's) option"
  h_poll :: "('d option \<Rightarrow> int list \<Rightarrow> 's \<Rightarrow> (int \<times> int list) \<times> 's) option"
  h_transport_data :: "'d option"
  h_power_on :: "('d option \<Rightarrow> 's \<Rightarrow> int \<times> 's) option"
  h_power_off :: "('d option \<Rightarrow> 's \<Rightarrow> int \<times> 's) option"
  h_power_data :: "'d option"
  h_gprs_activate :: "('d option \<Rightarrow> u32 \<Rightarrow> 's \<Rightarrow> int \<times> 's) option"
  h_gprs_deactivate :: "('d option \<Rightarrow> u32 \<Rightarrow> 's \<Rightarrow> int \<times> 's) option"
  h_gprs_data :: "'d option"
  h_data_create :: "(int \<times> (data_slot \<times> 'd option) list) option"
  h_data_destroy :: "('d option \<Rightarrow> 'd option \<Rightarrow> 'd option \<Rightarrow> int) option"

text \<open>\<open>data_create\<close> gets three addresses and stores through them: the list has its assignments in their order. Operations get the client and use its handlers and its specifications.\<close>

record ('d, 's) ipc_client_ops =
  op_boot :: "(('d, 's) ipc_client_handlers option \<Rightarrow> ipc_client_nv_data_specs option \<Rightarrow> 's \<Rightarrow> int \<times> 's) option"
  op_send :: "(('d, 's) ipc_client_handlers option \<Rightarrow> ipc_message \<Rightarrow> 's \<Rightarrow> int \<times> 's) option"
  op_recv :: "(('d, 's) ipc_client_handlers option \<Rightarrow> 's \<Rightarrow> (int \<times> ipc_message) \<times> 's) option"

record ipc_client_gprs_specs =
  spec_gprs_get_iface :: "(u32 \<Rightarrow> string option) option"
  spec_gprs_get_capabilities :: "(int \<times> nat) option"

record ('d, 's) client_object =
  cl_type :: int
  cl_log_callback :: bool
  cl_ops :: "('d, 's) ipc_client_ops option"
  cl_handlers :: "('d, 's) ipc_client_handlers option"
  cl_gprs_specs :: "ipc_client_gprs_specs option"
  cl_nv_data_specs :: "ipc_client_nv_data_specs option"

subsection \<open>Registering handlers\<close>

definition replaced :: "'a option \<Rightarrow> 'a option \<Rightarrow> 'a option" where
  "replaced new old = (if new = None then old else new)"

definition on_handlers :: "(('d, 's) ipc_client_handlers \<Rightarrow> ('d, 's) ipc_client_handlers) \<Rightarrow> ('d, 's) client_object option \<Rightarrow>
    int \<times> ('d, 's) client_object option" where
  "on_handlers f client = (case client of None \<Rightarrow> (-1, client) | Some c \<Rightarrow> (case cl_handlers c of
      None \<Rightarrow> (-1, client) | Some h \<Rightarrow> (0, Some (c\<lparr>cl_handlers := Some (f h)\<rparr>))))"

definition ipc_client_transport_handlers_register :: "('d option \<Rightarrow> int \<Rightarrow> 's \<Rightarrow> (int \<times> 'd option) \<times> 's) option \<Rightarrow>
    ('d option \<Rightarrow> 's \<Rightarrow> (int \<times> 'd option) \<times> 's) option \<Rightarrow> ('d option \<Rightarrow> nat \<Rightarrow> 's \<Rightarrow> u8 list option \<times> 's) option \<Rightarrow>
    ('d option \<Rightarrow> u8 list \<Rightarrow> 's \<Rightarrow> int \<times> 's) option \<Rightarrow> ('d option \<Rightarrow> int list \<Rightarrow> 's \<Rightarrow> (int \<times> int list) \<times> 's) option \<Rightarrow> 'd option \<Rightarrow>
    ('d, 's) client_object option \<Rightarrow> int \<times> ('d, 's) client_object option" where
  "ipc_client_transport_handlers_register open_fun close_fun read_fun write_fun poll_fun data = on_handlers (\<lambda>h.
     h\<lparr>h_read := replaced read_fun (h_read h), h_write := replaced write_fun (h_write h), h_poll := replaced poll_fun (h_poll h),
       h_open := replaced open_fun (h_open h), h_close := replaced close_fun (h_close h), h_transport_data := replaced data (h_transport_data h)\<rparr>)"

definition ipc_client_power_handlers_register :: "('d option \<Rightarrow> 's \<Rightarrow> int \<times> 's) option \<Rightarrow> ('d option \<Rightarrow> 's \<Rightarrow> int \<times> 's) option \<Rightarrow> 'd option \<Rightarrow>
    ('d, 's) client_object option \<Rightarrow> int \<times> ('d, 's) client_object option" where
  "ipc_client_power_handlers_register power_on power_off data = on_handlers (\<lambda>h.
     h\<lparr>h_power_on := replaced power_on (h_power_on h), h_power_off := replaced power_off (h_power_off h), h_power_data := replaced data (h_power_data h)\<rparr>)"

definition ipc_client_gprs_handlers_register :: "('d option \<Rightarrow> u32 \<Rightarrow> 's \<Rightarrow> int \<times> 's) option \<Rightarrow> ('d option \<Rightarrow> u32 \<Rightarrow> 's \<Rightarrow> int \<times> 's) option \<Rightarrow> 'd option \<Rightarrow>
    ('d, 's) client_object option \<Rightarrow> int \<times> ('d, 's) client_object option" where
  "ipc_client_gprs_handlers_register activate deactivate data = on_handlers (\<lambda>h.
     h\<lparr>h_gprs_activate := replaced activate (h_gprs_activate h), h_gprs_deactivate := replaced deactivate (h_gprs_deactivate h),
       h_gprs_data := replaced data (h_gprs_data h)\<rparr>)"

definition ipc_client_log_callback_register :: "bool \<Rightarrow> ('d, 's) client_object option \<Rightarrow> int \<times> ('d, 's) client_object option" where
  "ipc_client_log_callback_register callback client = (case client of None \<Rightarrow> (-1, client) | Some c \<Rightarrow> (0, Some (c\<lparr>cl_log_callback := callback\<rparr>)))"

definition ipc_client_destroy :: "('d, 's) client_object option \<Rightarrow> int" where
  "ipc_client_destroy client = (if client = None then -1 else 0)"

subsection \<open>Calling operations and handlers\<close>

definition op_of :: "(('d, 's) ipc_client_ops \<Rightarrow> 'f option) \<Rightarrow> ('d, 's) client_object option \<Rightarrow> 'f option" where
  "op_of field client = Option.bind client (\<lambda>c. Option.bind (cl_ops c) field)"

definition handlers_of :: "('d, 's) client_object option \<Rightarrow> ('d, 's) ipc_client_handlers option" where
  "handlers_of client = Option.bind client cl_handlers"

definition ipc_client_boot :: "('d, 's) client_object option \<Rightarrow> 's \<Rightarrow> int \<times> 's" where
  "ipc_client_boot client s = (case op_of op_boot client of None \<Rightarrow> (-1, s) | Some f \<Rightarrow> f (handlers_of client) (cl_nv_data_specs (the client)) s)"

definition ipc_client_send :: "u8 \<Rightarrow> u16 \<Rightarrow> u8 \<Rightarrow> u8 list \<Rightarrow> ('d, 's) client_object option \<Rightarrow> 's \<Rightarrow> int \<times> 's" where
  "ipc_client_send mseq command type data client s = (case op_of op_send client of None \<Rightarrow> (-1, s)
     | Some f \<Rightarrow> f (handlers_of client) \<lparr>msg_mseq = mseq, msg_aseq = 0xff, msg_command = command, msg_type = type, msg_data = data\<rparr> s)"

text \<open>The message is what the caller's structure holds afterwards; \<open>None\<close> when the function is not called.\<close>

definition ipc_client_recv :: "('d, 's) client_object option \<Rightarrow> 's \<Rightarrow> (int \<times> ipc_message option) \<times> 's" where
  "ipc_client_recv client s = (case op_of op_recv client of None \<Rightarrow> ((-1, None), s)
     | Some f \<Rightarrow> (case f (handlers_of client) s of ((rc, message), s) \<Rightarrow> ((rc, Some message), s)))"

definition with_transport :: "'d option \<Rightarrow> ('d, 's) client_object option \<Rightarrow> ('d, 's) client_object option" where
  "with_transport data client = map_option (\<lambda>c. c\<lparr>cl_handlers := map_option (\<lambda>h. h\<lparr>h_transport_data := data\<rparr>) (cl_handlers c)\<rparr>) client"

definition ipc_client_open :: "('d, 's) client_object option \<Rightarrow> 's \<Rightarrow> (int \<times> ('d, 's) client_object option) \<times> 's" where
  "ipc_client_open client s = (case handlers_of client of None \<Rightarrow> ((-1, client), s) | Some h \<Rightarrow> (case h_open h of
      None \<Rightarrow> ((-1, client), s)
    | Some f \<Rightarrow> (case f (h_transport_data h) (cl_type (the client)) s of ((rc, data), s) \<Rightarrow> ((rc, with_transport data client), s))))"

definition ipc_client_close :: "('d, 's) client_object option \<Rightarrow> 's \<Rightarrow> (int \<times> ('d, 's) client_object option) \<times> 's" where
  "ipc_client_close client s = (case handlers_of client of None \<Rightarrow> ((-1, client), s) | Some h \<Rightarrow> (case h_close h of
      None \<Rightarrow> ((-1, client), s)
    | Some f \<Rightarrow> (case f (h_transport_data h) s of ((rc, data), s) \<Rightarrow> ((rc, with_transport data client), s))))"

definition ipc_client_poll :: "int list \<Rightarrow> ('d, 's) client_object option \<Rightarrow> 's \<Rightarrow> (int \<times> int list) \<times> 's" where
  "ipc_client_poll fds client s = (case handlers_of client of None \<Rightarrow> ((-1, fds), s) | Some h \<Rightarrow> (case h_poll h of
      None \<Rightarrow> ((-1, fds), s) | Some f \<Rightarrow> f (h_transport_data h) fds s))"

definition ipc_client_power_on :: "('d, 's) client_object option \<Rightarrow> 's \<Rightarrow> int \<times> 's" where
  "ipc_client_power_on client s = (case handlers_of client of None \<Rightarrow> (-1, s) | Some h \<Rightarrow> (case h_power_on h of
      None \<Rightarrow> (-1, s) | Some f \<Rightarrow> f (h_power_data h) s))"

definition ipc_client_power_off :: "('d, 's) client_object option \<Rightarrow> 's \<Rightarrow> int \<times> 's" where
  "ipc_client_power_off client s = (case handlers_of client of None \<Rightarrow> (-1, s) | Some h \<Rightarrow> (case h_power_off h of
      None \<Rightarrow> (-1, s) | Some f \<Rightarrow> f (h_power_data h) s))"

definition ipc_client_gprs_activate :: "u32 \<Rightarrow> ('d, 's) client_object option \<Rightarrow> 's \<Rightarrow> int \<times> 's" where
  "ipc_client_gprs_activate cid client s = (case handlers_of client of None \<Rightarrow> (-1, s) | Some h \<Rightarrow> (case h_gprs_activate h of
      None \<Rightarrow> (-1, s) | Some f \<Rightarrow> f (h_gprs_data h) cid s))"

definition ipc_client_gprs_deactivate :: "u32 \<Rightarrow> ('d, 's) client_object option \<Rightarrow> 's \<Rightarrow> int \<times> 's" where
  "ipc_client_gprs_deactivate cid client s = (case handlers_of client of None \<Rightarrow> (-1, s) | Some h \<Rightarrow> (case h_gprs_deactivate h of
      None \<Rightarrow> (-1, s) | Some f \<Rightarrow> f (h_gprs_data h) cid s))"

definition ipc_client_gprs_get_iface :: "u32 \<Rightarrow> ('d, 's) client_object option \<Rightarrow> string option" where
  "ipc_client_gprs_get_iface cid client =
     Option.bind (Option.bind (Option.bind client cl_gprs_specs) spec_gprs_get_iface) (\<lambda>f. f cid)"

definition ipc_client_gprs_get_capabilities :: "('d, 's) client_object option \<Rightarrow> int \<times> nat option" where
  "ipc_client_gprs_get_capabilities client = (case Option.bind (Option.bind client cl_gprs_specs) spec_gprs_get_capabilities of
      None \<Rightarrow> (-1, None) | Some (rc, count) \<Rightarrow> (rc, Some count))"

subsection \<open>The data of the handlers\<close>

text \<open>Storing through an address. The third address that \<open>ipc_client_data_create\<close> passes is that of \<open>power_data\<close> again.\<close>

fun slot_store :: "data_slot \<Rightarrow> 'd option \<Rightarrow> ('d, 's) ipc_client_handlers \<Rightarrow> ('d, 's) ipc_client_handlers" where
  "slot_store Transport_slot d h = h\<lparr>h_transport_data := d\<rparr>"
| "slot_store Power_slot d h = h\<lparr>h_power_data := d\<rparr>"
| "slot_store Gprs_slot d h = h\<lparr>h_gprs_data := d\<rparr>"

fun slot_passed :: "data_slot \<Rightarrow> data_slot" where
  "slot_passed Transport_slot = Transport_slot"
| "slot_passed Power_slot = Power_slot"
| "slot_passed Gprs_slot = Power_slot"

definition ipc_client_data_create :: "('d, 's) client_object option \<Rightarrow> int \<times> ('d, 's) client_object option" where
  "ipc_client_data_create client = (case handlers_of client of None \<Rightarrow> (-1, client) | Some h \<Rightarrow> (case h_data_create h of
      None \<Rightarrow> (-1, client)
    | Some (rc, stores) \<Rightarrow> (rc, map_option (\<lambda>c. c\<lparr>cl_handlers := Some (fold (\<lambda>(slot, d). slot_store (slot_passed slot) d) stores h)\<rparr>) client)))"

definition ipc_client_data_destroy :: "('d, 's) client_object option \<Rightarrow> int" where
  "ipc_client_data_destroy client = (case handlers_of client of None \<Rightarrow> -1 | Some h \<Rightarrow> (case h_data_destroy h of
      None \<Rightarrow> -1 | Some f \<Rightarrow> f (h_transport_data h) (h_power_data h) (h_power_data h)))"

subsection \<open>Properties\<close>

text \<open>The handler that was registered is the one that is called, and a handler or data that was not given stays.\<close>

lemma power_registered:
  assumes "ipc_client_power_handlers_register (Some f) None d (Some c) = (0, client)" and "cl_handlers c = Some h"
  shows "ipc_client_power_on client s = f (if d = None then h_power_data h else d) s"
    and "d = None \<Longrightarrow> ipc_client_power_off client s = ipc_client_power_off (Some c) s"
  using assms by (auto simp: ipc_client_power_handlers_register_def on_handlers_def ipc_client_power_on_def ipc_client_power_off_def
    handlers_of_def replaced_def split: option.splits)

text \<open>C40. A driver's packet data is lost: whatever a driver stores when its data is created, the client's pointer for the packet-data handlers stays as it was, and what was meant for it becomes
  the data of the power handlers when it is stored after them. Only a driver that stores no packet data, as all drivers of the library, gets what it stored.\<close>

theorem data_create_aliased:
  assumes "cl_handlers c = Some h" and "h_data_create h = Some (rc, stores)"
  shows "\<exists>h'. ipc_client_data_create (Some c) = (rc, Some (c\<lparr>cl_handlers := Some h'\<rparr>)) \<and> h_gprs_data h' = h_gprs_data h \<and>
    (\<forall>pre d. stores = pre @ [(Gprs_slot, d)] \<longrightarrow> h_power_data h' = d) \<and>
    (Gprs_slot \<notin> fst ` set stores \<longrightarrow> h' = fold (\<lambda>(slot, d). slot_store slot d) stores h)"
proof -
  define h' where "h' = fold (\<lambda>(slot, d). slot_store (slot_passed slot) d) stores h"
  have "h_gprs_data (fold (\<lambda>(slot, d). slot_store (slot_passed slot) d) stores k) = h_gprs_data k" for k :: "('a, 'b) ipc_client_handlers"
  proof (induction stores arbitrary: k)
    case (Cons a stores)
    have "h_gprs_data (slot_store (slot_passed (fst a)) (snd a) k) = h_gprs_data k"
      by (cases "fst a") simp_all
    then show ?case
      using Cons by (simp add: split_beta)
  qed simp
  moreover have "Gprs_slot \<notin> fst ` set stores \<Longrightarrow> fold (\<lambda>(slot, d). slot_store (slot_passed slot) d) stores k = fold (\<lambda>(slot, d). slot_store slot d) stores k"
    for k :: "('a, 'b) ipc_client_handlers"
  proof (induction stores arbitrary: k)
    case (Cons a stores)
    then have "slot_passed (fst a) = fst a"
      by (cases "fst a") auto
    then show ?case
      using Cons by (simp add: split_beta)
  qed simp
  ultimately show ?thesis
    using assms by (intro exI [of _ h']) (auto simp: ipc_client_data_create_def handlers_of_def h'_def)
qed

definition no_handlers :: "(nat, unit) ipc_client_handlers" where
  "no_handlers = \<lparr>h_open = None, h_close = None, h_read = None, h_write = None, h_poll = None, h_transport_data = None, h_power_on = None, h_power_off = None,
     h_power_data = None, h_gprs_activate = None, h_gprs_deactivate = None, h_gprs_data = None, h_data_create = None, h_data_destroy = None\<rparr>"

theorem data_create_aliased_witness:
  "\<exists>h'. ipc_client_data_create (Some \<lparr>cl_type = 0, cl_log_callback = False, cl_ops = None,
      cl_handlers = Some (no_handlers\<lparr>h_data_create := Some (0, [(Power_slot, Some 1), (Gprs_slot, Some 2)])\<rparr>), cl_gprs_specs = None, cl_nv_data_specs = None\<rparr>) =
    (0, Some \<lparr>cl_type = 0, cl_log_callback = False, cl_ops = None, cl_handlers = Some h', cl_gprs_specs = None, cl_nv_data_specs = None\<rparr>) \<and>
    h_gprs_data h' = None \<and> h_power_data h' = Some 2"
  using data_create_aliased [of "\<lparr>cl_type = 0, cl_log_callback = False, cl_ops = None,
      cl_handlers = Some (no_handlers\<lparr>h_data_create := Some (0, [(Power_slot, Some 1), (Gprs_slot, Some 2)])\<rparr>), cl_gprs_specs = None, cl_nv_data_specs = None\<rparr>"
      "no_handlers\<lparr>h_data_create := Some (0, [(Power_slot, Some 1), (Gprs_slot, Some 2)])\<rparr>" 0 "[(Power_slot, Some 1), (Gprs_slot, Some 2)]"]
  by (auto simp: no_handlers_def)

end
