(* ===== verification/Ipc_Log.thy ===== *)
theory Ipc_Log
  imports Xmm626_Modem
begin

section \<open>The log: names of commands and dumps of data\<close>

text \<open>
  What the library and the RIL write to the log: the names of commands and types and the dump of bytes (\<open>samsung-ipc/ipc_utils.c\<close>, \<open>data_dump\<close> of the RIL's \<open>utils.c\<close>),
  \<open>ipc_client_log\<close> (\<open>ipc.c\<close>), and the lines for a message that is sent or received. The dump prints into an array of 81 characters; a character past its end is undefined.
\<close>

subsection \<open>Names (ipc_utils.c)\<close>

definition IPC_TYPE_CFRM :: u8 where "IPC_TYPE_CFRM = 0x04"
definition IPC_TYPE_EVENT :: u8 where "IPC_TYPE_EVENT = 0x05"

text \<open>\<open>%02x\<close> and \<open>%04x\<close>.\<close>

definition hex_padded :: "nat \<Rightarrow> nat \<Rightarrow> string" where
  "hex_padded width n = replicate (width - length (hexadecimal n)) (CHR ''0'') @ hexadecimal n"

definition ipc_request_type_string :: "u8 \<Rightarrow> string" where
  "ipc_request_type_string type =
     (if type = IPC_TYPE_EXEC then ''IPC_TYPE_EXEC''
      else if type = IPC_TYPE_GET then ''IPC_TYPE_GET''
      else if type = IPC_TYPE_SET then ''IPC_TYPE_SET''
      else if type = IPC_TYPE_CFRM then ''IPC_TYPE_CFRM''
      else if type = IPC_TYPE_EVENT then ''IPC_TYPE_EVENT''
      else ''0x'' @ hex_padded 2 (unat type))"

definition ipc_response_type_string :: "u8 \<Rightarrow> string" where
  "ipc_response_type_string type =
     (if type = IPC_TYPE_INDI then ''IPC_TYPE_INDI''
      else if type = IPC_TYPE_RESP then ''IPC_TYPE_RESP''
      else if type = IPC_TYPE_NOTI then ''IPC_TYPE_NOTI''
      else ''0x'' @ hex_padded 2 (unat type))"

definition ipc_command_names :: "(u16 \<times> string) list" where
  "ipc_command_names = [(0x0101, ''IPC_PWR_PHONE_PWR_UP''), (0x0102, ''IPC_PWR_PHONE_PWR_OFF''), (0x0103, ''IPC_PWR_PHONE_RESET''), (0x0104, ''IPC_PWR_BATT_STATUS''),
     (0x0105, ''IPC_PWR_BATT_TYPE''), (0x0106, ''IPC_PWR_BATT_COMP''), (0x0107, ''IPC_PWR_PHONE_STATE''), (0x0201, ''IPC_CALL_OUTGOING''), (0x0202, ''IPC_CALL_INCOMING''),
     (0x0203, ''IPC_CALL_RELEASE''), (0x0204, ''IPC_CALL_ANSWER''), (0x0205, ''IPC_CALL_STATUS''), (0x0206, ''IPC_CALL_LIST''), (0x0207, ''IPC_CALL_BURST_DTMF''),
     (0x0208, ''IPC_CALL_CONT_DTMF''), (0x0209, ''IPC_CALL_WAITING''), (0x020a, ''IPC_CALL_LINE_ID''), (0x0401, ''IPC_SMS_SEND_MSG''), (0x0402, ''IPC_SMS_INCOMING_MSG''),
     (0x0403, ''IPC_SMS_READ_MSG''), (0x0404, ''IPC_SMS_SAVE_MSG''), (0x0405, ''IPC_SMS_DEL_MSG''), (0x0406, ''IPC_SMS_DELIVER_REPORT''), (0x0407, ''IPC_SMS_DEVICE_READY''),
     (0x0408, ''IPC_SMS_SEL_MEM''), (0x0409, ''IPC_SMS_STORED_MSG_COUNT''), (0x040a, ''IPC_SMS_SVC_CENTER_ADDR''), (0x040b, ''IPC_SMS_SVC_OPTION''),
     (0x040c, ''IPC_SMS_MEM_STATUS''), (0x040d, ''IPC_SMS_CBS_MSG''), (0x040e, ''IPC_SMS_CBS_CFG''), (0x040f, ''IPC_SMS_STORED_MSG_STATUS''),
     (0x0410, ''IPC_SMS_PARAM_COUNT''), (0x0411, ''IPC_SMS_PARAM''), (0x0501, ''IPC_SEC_PIN_STATUS''), (0x0502, ''IPC_SEC_PHONE_LOCK''),
     (0x0503, ''IPC_SEC_CHANGE_LOCKING_PW''), (0x0504, ''IPC_SEC_SIM_LANG''), (0x0505, ''IPC_SEC_RSIM_ACCESS''), (0x0506, ''IPC_SEC_GSIM_ACCESS''),
     (0x0507, ''IPC_SEC_SIM_ICC_TYPE''), (0x0508, ''IPC_SEC_LOCK_INFOMATION''), (0x0509, ''IPC_SEC_IMS_AUTH''), (0x0601, ''IPC_PB_ACCESS''), (0x0602, ''IPC_PB_STORAGE''),
     (0x0603, ''IPC_PB_STORAGE_LIST''), (0x0604, ''IPC_PB_ENTRY_INFO''), (0x0605, ''IPC_PB_3GPB_CAPA''), (0x0701, ''IPC_DISP_ICON_INFO''),
     (0x0702, ''IPC_DISP_HOMEZONE_INFO''), (0x0706, ''IPC_DISP_RSSI_INFO''), (0x0801, ''IPC_NET_PREF_PLMN''), (0x0802, ''IPC_NET_PLMN_SEL''),
     (0x0803, ''IPC_NET_SERVING_NETWORK''), (0x0804, ''IPC_NET_PLMN_LIST''), (0x0805, ''IPC_NET_REGIST''), (0x0806, ''IPC_NET_SUBSCRIBER_NUM''),
     (0x0807, ''IPC_NET_BAND_SEL''), (0x0808, ''IPC_NET_SERVICE_DOMAIN_CONFIG''), (0x0809, ''IPC_NET_POWERON_ATTACH''), (0x080a, ''IPC_NET_MODE_SEL''),
     (0x080b, ''IPC_NET_ACQ_ORDER''), (0x080c, ''IPC_NET_IDENTITY''), (0x080d, ''IPC_NET_PREFERRED_NETWORK_INFO''), (0x0901, ''IPC_SND_SPKR_VOLUME_CTRL''),
     (0x0902, ''IPC_SND_MIC_MUTE_CTRL''), (0x0903, ''IPC_SND_AUDIO_PATH_CTRL''), (0x0904, ''IPC_SND_AUDIO_SOURCE_CTRL''), (0x0905, ''IPC_SND_LOOPBACK_CTRL''),
     (0x0906, ''IPC_SND_VOICE_RECORDING_CTRL''), (0x0907, ''IPC_SND_VIDEO_CALL_CTRL''), (0x0908, ''IPC_SND_RINGBACK_TONE_CTRL''), (0x0909, ''IPC_SND_CLOCK_CTRL''),
     (0x090a, ''IPC_SND_WB_AMR_STATUS''), (0x0a01, ''IPC_MISC_ME_VERSION''), (0x0a02, ''IPC_MISC_ME_IMSI''), (0x0a03, ''IPC_MISC_ME_SN''), (0x0a05, ''IPC_MISC_TIME_INFO''),
     (0x0a0c, ''IPC_MISC_DEBUG_LEVEL''), (0x0b01, ''IPC_SVC_ENTER''), (0x0b02, ''IPC_SVC_END''), (0x0b03, ''IPC_SVC_PRO_KEYCODE''), (0x0b04, ''IPC_SVC_SCREEN_CFG''),
     (0x0b05, ''IPC_SVC_DISPLAY_SCREEN''), (0x0b06, ''IPC_SVC_CHANGE_SVC_MODE''), (0x0b07, ''IPC_SVC_DEVICE_TEST''), (0x0b08, ''IPC_SVC_DEBUG_DUMP''),
     (0x0b09, ''IPC_SVC_DEBUG_STRING''), (0x0c01, ''IPC_SS_WAITING''), (0x0c02, ''IPC_SS_CLI''), (0x0c03, ''IPC_SS_BARRING''), (0x0c04, ''IPC_SS_BARRING_PW''),
     (0x0c05, ''IPC_SS_FORWARDING''), (0x0c06, ''IPC_SS_INFO''), (0x0c07, ''IPC_SS_MANAGE_CALL''), (0x0c08, ''IPC_SS_USSD''), (0x0c09, ''IPC_SS_AOC''),
     (0x0c0a, ''IPC_SS_RELEASE_COMPLETE''), (0x0d01, ''IPC_GPRS_DEFINE_PDP_CONTEXT''), (0x0d02, ''IPC_GPRS_QOS''), (0x0d03, ''IPC_GPRS_PS''),
     (0x0d04, ''IPC_GPRS_PDP_CONTEXT''), (0x0d05, ''IPC_GPRS_ENTER_DATA''), (0x0d06, ''IPC_GPRS_SHOW_PDP_ADDR''), (0x0d07, ''IPC_GPRS_MS_CLASS''),
     (0x0d08, ''IPC_GPRS_3G_QUAL_SRVC_PROFILE''), (0x0d09, ''IPC_GPRS_IP_CONFIGURATION''), (0x0d0a, ''IPC_GPRS_DEFINE_SEC_PDP_CONTEXT''), (0x0d0b, ''IPC_GPRS_TFT''),
     (0x0d0c, ''IPC_GPRS_HSDPA_STATUS''), (0x0d0d, ''IPC_GPRS_CURRENT_SESSION_DATA_COUNTER''), (0x0d0e, ''IPC_GPRS_DATA_DORMANT''), (0x0d0f, ''IPC_GPRS_PIN_CTRL''),
     (0x0d10, ''IPC_GPRS_CALL_STATUS''), (0x0d11, ''IPC_GPRS_PORT_LIST''), (0x0e01, ''IPC_SAT_PROFILE_DOWNLOAD''), (0x0e02, ''IPC_SAT_ENVELOPE_CMD''),
     (0x0e03, ''IPC_SAT_PROACTIVE_CMD''), (0x0e04, ''IPC_SAT_TERMINATE_USAT_SESSION''), (0x0e05, ''IPC_SAT_EVENT_DOWNLOAD''), (0x0e06, ''IPC_SAT_PROVIDE_LOCAL_INFO''),
     (0x0e07, ''IPC_SAT_POLLING''), (0x0e08, ''IPC_SAT_REFRESH''), (0x0e09, ''IPC_SAT_SETUP_EVENT_LIST''), (0x0e0a, ''IPC_SAT_CALL_CONTROL_RESULT''),
     (0x0e0b, ''IPC_SAT_IMAGE_CLUT''), (0x0e0c, ''IPC_SAT_SETUP_CALL_PROCESSING''), (0x1001, ''IPC_IMEI_START''), (0x1002, ''IPC_IMEI_CHECK_DEVICE_INFO''),
     (0x4201, ''IPC_RFS_NV_READ_ITEM''), (0x4202, ''IPC_RFS_NV_WRITE_ITEM''), (0x8001, ''IPC_GEN_PHONE_RES'')]"

definition ipc_command_string :: "u16 \<Rightarrow> string" where
  "ipc_command_string command = (case map_of ipc_command_names command of
      Some name \<Rightarrow> name | None \<Rightarrow> ''0x'' @ hex_padded 4 (unat command))"

subsection \<open>Printing into an array\<close>

text \<open>The array and the offset of \<open>print\<close>. \<open>snprintf\<close> ends its text with a zero and cuts it off at the end of the array; \<open>print\<close> is advanced by the length of the whole text,
  and must not leave the array.\<close>

type_synonym print_line = "string \<times> nat"

definition put_char :: "char \<Rightarrow> print_line \<Rightarrow> print_line option" where
  "put_char c l = (case l of (b, p) \<Rightarrow> if p < length b then Some (b[p := c], p + 1) else None)"

definition put_text :: "string \<Rightarrow> print_line \<Rightarrow> print_line option" where
  "put_text t l = (case l of (b, p) \<Rightarrow>
     if p + length t < length b then Some (take p b @ t @ NUL # drop (p + length t + 1) b, p + length t)
     else if p + length t = length b then Some (take p b @ butlast t @ [NUL], p + length t)
     else None)"

primrec put_blanks :: "nat \<Rightarrow> print_line \<Rightarrow> print_line option" where
  "put_blanks 0 l = Some l"
| "put_blanks (Suc n) l = Option.bind (put_char (CHR '' '') l) (put_blanks n)"

definition c_string :: "string \<Rightarrow> string" where
  "c_string b = takeWhile (\<lambda>c. c \<noteq> NUL) b"

subsection \<open>Dumping data (ipc_utils.c, utils.c)\<close>

definition DUMP_COLS :: nat where "DUMP_COLS = 8"
definition DUMP_COLS_COUNT :: nat where "DUMP_COLS_COUNT = 2"
definition DUMP_STRING_SIZE :: nat where "DUMP_STRING_SIZE = 81"
definition DUMP_FINAL_SIZE :: nat where "DUMP_FINAL_SIZE = 161"

definition dump_spacer :: nat where
  "dump_spacer = (DUMP_STRING_SIZE - 1 - 6 - (3 * DUMP_COLS * DUMP_COLS_COUNT - 1 + (DUMP_COLS_COUNT - 1)) - (DUMP_COLS * DUMP_COLS_COUNT + DUMP_COLS_COUNT - 1)) div 3"

definition sprintf_02X :: "u8 \<Rightarrow> string" where
  "sprintf_02X b = [''0123456789ABCDEF'' ! (unat b div 16), ''0123456789ABCDEF'' ! (unat b mod 16)]"

definition hex_separator :: "nat \<Rightarrow> nat" where
  "hex_separator col = (if col mod DUMP_COLS \<noteq> DUMP_COLS - 1 then 1 else if col div DUMP_COLS \<noteq> DUMP_COLS_COUNT - 1 then 2 else 0)"

text \<open>The columns of a line, and the bytes from the line's offset to the end of the data.\<close>

fun dump_data :: "nat list \<Rightarrow> u8 list \<Rightarrow> print_line \<Rightarrow> print_line option" where
  "dump_data [] bytes l = Some l"
| "dump_data (col # cols) bytes l = do {
     l \<leftarrow> (case bytes of [] \<Rightarrow> put_blanks 2 l | b # _ \<Rightarrow> put_text (sprintf_02X b) l);
     l \<leftarrow> put_blanks (hex_separator col) l;
     dump_data cols (tl bytes) l
   }"

definition dump_char :: "u8 \<Rightarrow> char" where
  "dump_char b = (if unat b < 128 \<and> isprint b then byte_char b else CHR ''.'')"

definition ascii_separator :: "nat \<Rightarrow> nat" where
  "ascii_separator col = (if col mod DUMP_COLS = DUMP_COLS - 1 \<and> col div DUMP_COLS \<noteq> DUMP_COLS_COUNT - 1 then 1 else 0)"

fun dump_ascii :: "nat list \<Rightarrow> u8 list \<Rightarrow> print_line \<Rightarrow> print_line option" where
  "dump_ascii [] bytes l = Some l"
| "dump_ascii (col # cols) bytes l = do {
     l \<leftarrow> (case bytes of [] \<Rightarrow> Some l | b # _ \<Rightarrow> put_char (dump_char b) l);
     l \<leftarrow> put_blanks (if tl bytes \<noteq> [] then ascii_separator col else 0) l;
     dump_ascii cols (tl bytes) l
   }"

definition dump_line :: "nat \<Rightarrow> u8 list \<Rightarrow> string \<Rightarrow> string option" where
  "dump_line offset bytes b = do {
     l \<leftarrow> put_text (''['' @ hex_padded 4 offset @ '']'') (b, 0);
     l \<leftarrow> put_blanks dump_spacer l;
     l \<leftarrow> dump_data [0..<DUMP_COLS * DUMP_COLS_COUNT] bytes l;
     l \<leftarrow> put_blanks dump_spacer l;
     l \<leftarrow> dump_ascii [0..<DUMP_COLS * DUMP_COLS_COUNT] bytes l;
     (b, _) \<leftarrow> put_char NUL l;
     Some b
   }"

text \<open>The RIL's copy prints each line as it is; its array is not initialised.\<close>

function dump_lines :: "nat \<Rightarrow> u8 list \<Rightarrow> string \<Rightarrow> string list option" where
  "dump_lines offset bytes b =
     (if bytes = [] then Some []
      else do {
        b \<leftarrow> dump_line offset bytes b;
        rest \<leftarrow> dump_lines (offset + DUMP_COLS * DUMP_COLS_COUNT) (drop (DUMP_COLS * DUMP_COLS_COUNT) bytes) b;
        Some (c_string b # rest)
      })"
  by pat_completeness auto

termination dump_lines
  by (relation "measure (\<lambda>(offset, bytes, b). length bytes)") (auto simp: DUMP_COLS_def DUMP_COLS_COUNT_def)

declare dump_lines.simps [simp del]

definition data_dump :: "string \<Rightarrow> u8 list \<Rightarrow> (int \<times> string list) option" where
  "data_dump garbage data = (if data = [] then Some (-1, []) else map_option (\<lambda>ls. (0, ls)) (dump_lines 0 data garbage))"

text \<open>The library's copy doubles each per cent sign, of the whole array, because the line is the format of \<open>ipc_client_log\<close>.\<close>

fun escape_percent :: "string \<Rightarrow> print_line \<Rightarrow> print_line option" where
  "escape_percent [] l = Some l"
| "escape_percent (c # cs) l = do {
     l \<leftarrow> (if c = CHR ''%'' then put_char c l else Some l);
     l \<leftarrow> put_char c l;
     escape_percent cs l
   }"

text \<open>A format without arguments: any conversion would read an argument.\<close>

fun format_plain :: "string \<Rightarrow> string option" where
  "format_plain [] = Some []"
| "format_plain (c # cs) = (if c = CHR ''%''
     then (case cs of d # ds \<Rightarrow> if d = CHR ''%'' then map_option ((#) c) (format_plain ds) else None | [] \<Rightarrow> None)
     else map_option ((#) c) (format_plain cs))"

definition ipc_client_log :: "bool \<Rightarrow> string \<Rightarrow> string list" where
  "ipc_client_log callback message = (if callback then [take 4095 message] else [])"

function ipc_dump_lines :: "bool \<Rightarrow> nat \<Rightarrow> u8 list \<Rightarrow> string \<Rightarrow> string \<Rightarrow> string list option" where
  "ipc_dump_lines callback offset bytes b final =
     (if bytes = [] then Some []
      else do {
        b \<leftarrow> dump_line offset bytes b;
        (final, _) \<leftarrow> escape_percent b (final, 0);
        message \<leftarrow> (if callback then format_plain (c_string final) else Some []);
        rest \<leftarrow> ipc_dump_lines callback (offset + DUMP_COLS * DUMP_COLS_COUNT) (drop (DUMP_COLS * DUMP_COLS_COUNT) bytes) b final;
        Some (ipc_client_log callback message @ rest)
      })"
  by pat_completeness auto

termination ipc_dump_lines
  by (relation "measure (\<lambda>(callback, offset, bytes, b, final). length bytes)") (auto simp: DUMP_COLS_def DUMP_COLS_COUNT_def)

declare ipc_dump_lines.simps [simp del]

definition ipc_data_dump :: "bool \<Rightarrow> u8 list \<Rightarrow> (int \<times> string list) option" where
  "ipc_data_dump callback data = (if data = [] then Some (-1, [])
     else map_option (\<lambda>ls. (0, ls)) (ipc_dump_lines callback 0 data (replicate DUMP_STRING_SIZE NUL) (replicate DUMP_FINAL_SIZE NUL)))"

subsection \<open>Messages\<close>

text \<open>The lines that \<open>DEBUG\<close> adds: the data up to 256 bytes.\<close>

definition log_data :: "bool \<Rightarrow> bool \<Rightarrow> string \<Rightarrow> u8 list \<Rightarrow> string list option" where
  "log_data debug callback title data =
     (if debug \<and> data \<noteq> []
      then map_option (\<lambda>(rc, ls). ipc_client_log callback title @ ls @ ipc_client_log callback (replicate 80 (CHR ''='')))
        (ipc_data_dump callback (take 0x100 data))
      else Some [])"

definition log_title :: "string \<Rightarrow> string" where
  "log_title name = replicate 33 (CHR ''='') @ '' IPC '' @ name @ '' data '' @ replicate 33 (CHR ''='')"

definition log_size :: "ipc_message \<Rightarrow> string" where
  "log_size message = print_int (sint (of_nat (length (msg_data message)) :: u32))"

definition ipc_client_log_send :: "bool \<Rightarrow> bool \<Rightarrow> int \<Rightarrow> ipc_message option \<Rightarrow> string option \<Rightarrow> string list option" where
  "ipc_client_log_send debug callback type message prefix = (case (message, prefix) of
      (Some message, Some prefix) \<Rightarrow>
        if type = IPC_CLIENT_TYPE_FMT then
          map_option (\<lambda>ls. ipc_client_log callback [CHR 0x0A] @ ipc_client_log callback (prefix @ '': Sent FMT message'') @
            ipc_client_log callback (prefix @ '': Message: mseq=0x'' @ hex_padded 2 (unat (msg_mseq message)) @ '', command='' @ ipc_command_string (msg_command message) @
              '', type='' @ ipc_request_type_string (msg_type message) @ '', size='' @ log_size message) @ ls)
            (log_data debug callback (log_title ''FMT'') (msg_data message))
        else if type = IPC_CLIENT_TYPE_RFS then
          map_option (\<lambda>ls. ipc_client_log callback [CHR 0x0A] @ ipc_client_log callback (prefix @ '': Sent RFS message'') @
            ipc_client_log callback (prefix @ '': Message: mseq=0x'' @ hex_padded 2 (unat (msg_mseq message)) @ '', command='' @ ipc_command_string (msg_command message) @
              '', size='' @ log_size message) @ ls)
            (log_data debug callback (log_title ''RFS'') (msg_data message))
        else Some []
    | _ \<Rightarrow> Some [])"

definition ipc_client_log_recv :: "bool \<Rightarrow> bool \<Rightarrow> int \<Rightarrow> ipc_message option \<Rightarrow> string option \<Rightarrow> string list option" where
  "ipc_client_log_recv debug callback type message prefix = (case (message, prefix) of
      (Some message, Some prefix) \<Rightarrow>
        if type = IPC_CLIENT_TYPE_FMT then
          map_option (\<lambda>ls. ipc_client_log callback [CHR 0x0A] @ ipc_client_log callback (prefix @ '': Received FMT message'') @
            ipc_client_log callback (prefix @ '': Message: aseq=0x'' @ hex_padded 2 (unat (msg_aseq message)) @ '', command='' @ ipc_command_string (msg_command message) @
              '', type='' @ ipc_response_type_string (msg_type message) @ '', size='' @ log_size message) @ ls)
            (log_data debug callback (log_title ''FMT'') (msg_data message))
        else if type = IPC_CLIENT_TYPE_RFS then
          map_option (\<lambda>ls. ipc_client_log callback [CHR 0x0A] @ ipc_client_log callback (prefix @ '': Received RFS message'') @
            ipc_client_log callback (prefix @ '': Message: aseq=0x'' @ hex_padded 2 (unat (msg_aseq message)) @ '', command='' @ ipc_command_string (msg_command message) @
              '', size='' @ log_size message) @ ls)
            (log_data debug callback (log_title ''RFS'') (msg_data message))
        else Some []
    | _ \<Rightarrow> Some [])"

subsection \<open>Names identify commands\<close>

fun hex_read :: "nat \<Rightarrow> string \<Rightarrow> nat" where
  "hex_read n [] = n"
| "hex_read n (c # cs) = hex_read (16 * n + the (hex_value c)) cs"

lemma hex_read_append: "hex_read n (cs @ ds) = hex_read (hex_read n cs) ds"
  by (induction n cs rule: hex_read.induct) simp_all

lemma hex_read_hexadecimal: "hex_read 0 (hexadecimal n) = n"
  by (induction n rule: hexadecimal.induct) (subst hexadecimal.simps, simp add: hex_read_append hex_digit_parse)

lemma hex_read_padded: "hex_read 0 (hex_padded w n) = n"
proof -
  have "hex_read 0 (replicate k (CHR ''0'')) = 0" for k
    by (induction k) (simp_all add: hex_value_def)
  then show ?thesis
    by (simp add: hex_padded_def hex_read_append hex_read_hexadecimal)
qed

lemma hex_padded_inj: "hex_padded w m = hex_padded w n \<longleftrightarrow> m = n"
  by (metis hex_read_padded)

lemma length_hexadecimal: "n < 16 ^ k \<Longrightarrow> 0 < k \<Longrightarrow> length (hexadecimal n) \<le> k"
proof (induction n arbitrary: k rule: hexadecimal.induct)
  case (1 n)
  show ?case
  proof (cases "n < 16")
    case True
    then show ?thesis using 1(3) by (subst hexadecimal.simps) simp
  next
    case False
    have "k \<noteq> 1" "k \<noteq> 0"
      using False 1(2,3) by auto
    then obtain j where j: "k = Suc j" "0 < j"
      by (cases k) auto
    with 1(2) have "n div 16 < 16 ^ j"
      by (simp add: less_mult_imp_div_less mult.commute)
    with 1(1) [OF False this j(2)] False show ?thesis
      by (subst hexadecimal.simps) (simp add: j)
  qed
qed

lemma length_hexadecimal_ge: "16 ^ k \<le> n \<Longrightarrow> k < length (hexadecimal n)"
proof (induction n arbitrary: k rule: hexadecimal.induct)
  case (1 n)
  show ?case
  proof (cases k)
    case 0
    then show ?thesis by (subst hexadecimal.simps) simp
  next
    case (Suc j)
    then have "16 \<le> n" "16 ^ j \<le> n div 16"
      using 1(2) by (auto simp: less_eq_div_iff_mult_less_eq mult.commute intro: order_trans [of 16 "16 * 16 ^ j"])
    with 1(1) [of j] show ?thesis
      by (subst hexadecimal.simps) (simp add: Suc)
  qed
qed

lemma hex_digits: "set (hexadecimal n) \<subseteq> set ''0123456789abcdef''"
proof (induction n rule: hexadecimal.induct)
  case (1 n)
  have "hex_digit m \<in> set ''0123456789abcdef''" if "m < 16" for m
    using that unfolding hex_digit_def by (intro nth_mem) simp
  then show ?case
    using 1 by (subst hexadecimal.simps) auto
qed

text \<open>The names are distinct because their remainders are, which are easier to compare.\<close>

definition name_key :: "string \<Rightarrow> int" where
  "name_key n = fold (\<lambda>c h. (31 * h + of_char c) mod 1398) n 0"

lemma name_keys: "map (name_key \<circ> snd) ipc_command_names =
    [177, 879, 43, 37, 1273, 996, 317, 1122, 408, 241, 702, 710, 224, 810, 76, 517, 974, 437, 651, 555, 916, 418, 1039, 401, 947, 1392, 179, 1049, 1281, 631, 404, 373,
     670, 248, 245, 1291, 1207, 695, 471, 586, 273, 895, 699, 366, 1149, 312, 609, 890, 1046, 654, 1352, 262, 831, 236, 313, 623, 1294, 353, 294, 479, 327, 3, 275, 892,
     664, 674, 147, 569, 220, 1227, 75, 459, 903, 268, 67, 1089, 884, 196, 106, 824, 675, 1396, 1163, 811, 989, 1115, 84, 545, 267, 828, 877, 1079, 1229, 816, 234, 25,
     391, 243, 2, 627, 667, 1100, 867, 1010, 731, 175, 242, 508, 436, 23, 1330, 1162, 1265, 1343, 904, 1350, 1075, 458, 446, 1045, 286, 1097, 185, 219, 838, 360, 902, 512,
     222, 266, 1169, 753]"
  unfolding ipc_command_names_def name_key_def by code_simp

lemma command_names_distinct: "distinct (map snd ipc_command_names)"
proof -
  have "distinct (map (name_key \<circ> snd) ipc_command_names)"
    unfolding name_keys by simp
  then show ?thesis
    by (simp flip: map_map add: distinct_map)
qed

lemma command_names_form: "list_all (\<lambda>n. take 4 n = ''IPC_'' \<and> CHR '','' \<notin> set n) (map snd ipc_command_names)"
  by (simp add: ipc_command_names_def)

lemma command_string_cases:
  obtains (name) "(c, ipc_command_string c) \<in> set ipc_command_names" "take 4 (ipc_command_string c) = ''IPC_''" "CHR '','' \<notin> set (ipc_command_string c)"
    | (number) "ipc_command_string c = ''0x'' @ hex_padded 4 (unat c)"
proof (cases "map_of ipc_command_names c")
  case None
  then show thesis by (intro number) (simp add: ipc_command_string_def)
next
  case (Some n)
  then have "(c, n) \<in> set ipc_command_names" "ipc_command_string c = n"
    by (auto simp: ipc_command_string_def dest: map_of_SomeD)
  moreover from this have "take 4 n = ''IPC_'' \<and> CHR '','' \<notin> set n"
    using command_names_form by (auto simp: list_all_iff)
  ultimately show thesis by (intro name) auto
qed

lemma command_string_inj: "ipc_command_string c = ipc_command_string d \<longleftrightarrow> c = d"
proof
  assume same: "ipc_command_string c = ipc_command_string d"
  show "c = d"
  proof (cases c rule: command_string_cases)
    case name
    then show ?thesis
      using same command_names_distinct inj_onD [of snd "set ipc_command_names" "(c, ipc_command_string c)" "(d, ipc_command_string d)"]
      by (cases d rule: command_string_cases) (auto simp: distinct_map)
  next
    case number
    then show ?thesis
      using same by (cases d rule: command_string_cases) (auto simp: hex_padded_inj word_unat_eq_iff)
  qed
qed simp

lemma hex_padded_no_comma: "CHR '','' \<notin> set (hex_padded w n)"
  using hex_digits [of n] by (auto simp: hex_padded_def)

lemma command_string_no_comma: "CHR '','' \<notin> set (ipc_command_string c)"
  by (cases c rule: command_string_cases) (auto simp: hex_padded_no_comma)

lemma response_type_string_inj: "ipc_response_type_string s = ipc_response_type_string t \<longleftrightarrow> s = t"
  by (auto simp: ipc_response_type_string_def hex_padded_inj word_unat_eq_iff [symmetric] split: if_splits)

lemma response_type_string_no_comma: "CHR '','' \<notin> set (ipc_response_type_string s)"
  by (simp add: ipc_response_type_string_def hex_padded_no_comma)

subsection \<open>The text of a line\<close>

text \<open>What a line is meant to be.\<close>

fun hex_field :: "nat list \<Rightarrow> u8 list \<Rightarrow> string" where
  "hex_field [] bytes = []"
| "hex_field (col # cols) bytes = (case bytes of [] \<Rightarrow> ''  '' | b # _ \<Rightarrow> sprintf_02X b) @ replicate (hex_separator col) (CHR '' '') @ hex_field cols (tl bytes)"

fun ascii_field :: "nat list \<Rightarrow> u8 list \<Rightarrow> string" where
  "ascii_field [] bytes = []"
| "ascii_field (col # cols) bytes = map dump_char (take 1 bytes) @ replicate (if tl bytes \<noteq> [] then ascii_separator col else 0) (CHR '' '') @ ascii_field cols (tl bytes)"

definition dump_text :: "nat \<Rightarrow> u8 list \<Rightarrow> string" where
  "dump_text offset bytes = ''['' @ hex_padded 4 offset @ '']'' @ replicate 3 (CHR '' '') @ hex_field [0..<16] bytes @ replicate 3 (CHR '' '') @ ascii_field [0..<16] bytes"

lemma dump_sizes [simp]: "DUMP_COLS * DUMP_COLS_COUNT = 16" "dump_spacer = 3"
  by (simp_all add: DUMP_COLS_def DUMP_COLS_COUNT_def dump_spacer_def DUMP_STRING_SIZE_def)

lemma length_sprintf_02X [simp]: "length (sprintf_02X b) = 2"
  by (simp add: sprintf_02X_def)

lemma length_hex_field: "length (hex_field cols bytes) = sum_list (map (\<lambda>col. 2 + hex_separator col) cols)"
  by (induction cols bytes rule: hex_field.induct) (auto split: list.splits)

lemma hex_field_16: "length (hex_field [0..<16] bytes) = 48"
proof -
  have "sum_list (map (\<lambda>col. 2 + hex_separator col) [0..<16]) = 48"
    by code_simp
  then show ?thesis
    by (simp only: length_hex_field)
qed

lemma ascii_field_le: "length (ascii_field cols bytes) \<le> min (length cols) (length bytes) + sum_list (map ascii_separator cols)"
proof (induction cols bytes rule: ascii_field.induct)
  case (2 col cols bytes)
  then show ?case by (cases bytes) auto
qed simp

lemma ascii_field_full:
  assumes "length cols \<le> length bytes" and "cols \<noteq> [] \<Longrightarrow> ascii_separator (last cols) = 0"
  shows "length (ascii_field cols bytes) = length cols + sum_list (map ascii_separator cols)"
  using assms
proof (induction cols bytes rule: ascii_field.induct)
  case (2 col cols bytes)
  then obtain b bs where bytes: "bytes = b # bs" "length cols \<le> length bs"
    by (cases bytes) auto
  show ?case
  proof (cases "cols = []")
    case True
    then show ?thesis using 2(3) by (simp add: bytes)
  next
    case False
    then have "bs \<noteq> []" using bytes(2) by auto
    then show ?thesis using 2(1) 2(3) False bytes by simp
  qed
qed simp

lemma ascii_separators: "sum_list (map ascii_separator [0..<16]) = 1"
  by code_simp

lemma ascii_field_16:
  "length (ascii_field [0..<16] bytes) \<le> 17" "length (ascii_field [0..<16] bytes) = 17 \<longleftrightarrow> 16 \<le> length bytes"
proof -
  have "ascii_separator 15 = 0"
    by (simp add: ascii_separator_def DUMP_COLS_def DUMP_COLS_COUNT_def)
  then have "16 \<le> length bytes \<Longrightarrow> length (ascii_field [0..<16] bytes) = 17"
    using ascii_field_full [of "[0..<16]" bytes] by (simp add: ascii_separators)
  moreover have "length (ascii_field [0..<16] bytes) \<le> min 16 (length bytes) + 1"
    using ascii_field_le [of "[0..<16]" bytes] by (simp add: ascii_separators)
  ultimately show "length (ascii_field [0..<16] bytes) \<le> 17" "length (ascii_field [0..<16] bytes) = 17 \<longleftrightarrow> 16 \<le> length bytes"
    by auto
qed

lemma length_dump_text: "length (dump_text offset bytes) = 56 + length (hex_padded 4 offset) + length (ascii_field [0..<16] bytes)"
  by (simp add: dump_text_def hex_field_16)

lemma upper_digit: "n < 16 \<Longrightarrow> ''0123456789ABCDEF'' ! n \<in> set ''0123456789ABCDEF''"
  by (rule nth_mem) simp

lemma sprintf_02X_chars: "set (sprintf_02X b) \<subseteq> set ''0123456789ABCDEF''"
  using upper_digit [of "unat b div 16"] upper_digit [of "unat b mod 16"] unat_u8_less [of b]
  unfolding sprintf_02X_def by (auto simp del: unat_u8_less nth_Cons_numeral simp: less_mult_imp_div_less)

lemma of_byte_char: "of_char (byte_char b) = unat b"
  by (simp add: byte_char_def)

lemma dump_char_printable: "dump_char b \<noteq> NUL"
proof
  assume "dump_char b = NUL"
  then have "isprint b" "byte_char b = CHR 0x00"
    by (auto simp: dump_char_def NUL_def split: if_splits)
  then show False
    using of_byte_char [of b] by (simp add: isprint_def)
qed

lemma dump_text_no_NUL: "NUL \<notin> set (dump_text offset bytes)"
proof -
  have "NUL \<notin> set (hex_field cols bytes)" for cols
    using sprintf_02X_chars by (induction cols bytes rule: hex_field.induct) (auto simp: NUL_def split: list.splits)
  moreover have "NUL \<notin> set (ascii_field cols bytes)" for cols
    using dump_char_printable [symmetric] by (induction cols bytes rule: ascii_field.induct) (auto simp: NUL_def split: if_splits)
  ultimately show ?thesis
    using hex_digits [of offset] by (auto simp: dump_text_def hex_padded_def NUL_def)
qed

subsection \<open>Printing a line\<close>

text \<open>After the text \<open>t\<close> has been printed into the array.\<close>

definition printed :: "string \<Rightarrow> print_line \<Rightarrow> bool" where
  "printed t l \<longleftrightarrow> length (fst l) = DUMP_STRING_SIZE \<and> snd l = length t \<and> length t \<le> DUMP_STRING_SIZE \<and> take (length t) (fst l) = t"

text \<open>A function prints a text, as long as no more than \<open>m\<close> characters of the array are used.\<close>

definition puts :: "nat \<Rightarrow> (print_line \<Rightarrow> print_line option) \<Rightarrow> string \<Rightarrow> bool" where
  "puts m f s \<longleftrightarrow> (\<forall>t l. printed t l \<longrightarrow> length t + length s \<le> m \<longrightarrow> (\<exists>l'. f l = Some l' \<and> printed (t @ s) l'))"

lemma putsD: "puts m f s \<Longrightarrow> printed t l \<Longrightarrow> length t + length s \<le> m \<Longrightarrow> \<exists>l'. f l = Some l' \<and> printed (t @ s) l'"
  unfolding puts_def by blast

lemma puts_mono: "puts m f s \<Longrightarrow> n \<le> m \<Longrightarrow> puts n f s"
  unfolding puts_def by (meson order_trans)

lemma puts_nothing: "puts m Some []"
  by (simp add: puts_def)

lemma puts_bind:
  assumes "puts m f s" and "puts m g t"
  shows "puts m (\<lambda>l. Option.bind (f l) g) (s @ t)"
  unfolding puts_def
proof (intro allI impI)
  fix u l
  assume l: "printed u l" "length u + length (s @ t) \<le> m"
  then obtain l' where "f l = Some l'" "printed (u @ s) l'"
    using putsD [OF assms(1), of u l] by auto
  then show "\<exists>l'. Option.bind (f l) g = Some l' \<and> printed (u @ s @ t) l'"
    using putsD [OF assms(2), of "u @ s" l'] l(2) by auto
qed

lemma puts_char: "m \<le> DUMP_STRING_SIZE \<Longrightarrow> puts m (put_char c) [c]"
  by (auto simp: puts_def printed_def put_char_def take_Suc_conv_app_nth split: prod.splits)

lemma puts_text: "m < DUMP_STRING_SIZE \<Longrightarrow> puts m (put_text s) s"
  by (auto simp: puts_def printed_def put_text_def split: prod.splits)

lemma puts_blanks: "m \<le> DUMP_STRING_SIZE \<Longrightarrow> puts m (put_blanks n) (replicate n (CHR '' ''))"
proof (induction n)
  case (Suc n)
  then show ?case
    using puts_bind [OF puts_char [of m "CHR '' ''"] Suc.IH] by simp
qed (simp add: puts_def)

lemma puts_data: "m < DUMP_STRING_SIZE \<Longrightarrow> puts m (dump_data cols bytes) (hex_field cols bytes)"
proof (induction cols bytes rule: hex_field.induct)
  case (2 col cols bytes)
  have "puts m (\<lambda>l. case bytes of [] \<Rightarrow> put_blanks 2 l | b # _ \<Rightarrow> put_text (sprintf_02X b) l) (case bytes of [] \<Rightarrow> ''  '' | b # _ \<Rightarrow> sprintf_02X b)"
    using 2(2) puts_text puts_blanks [of m 2] by (cases bytes) (simp_all add: numeral_2_eq_2 del: put_blanks.simps)
  from puts_bind [OF this puts_bind [OF puts_blanks 2(1)]] show ?case
    using 2(2) by simp
qed (simp add: puts_def)

lemma puts_ascii: "m \<le> DUMP_STRING_SIZE \<Longrightarrow> puts m (dump_ascii cols bytes) (ascii_field cols bytes)"
proof (induction cols bytes rule: ascii_field.induct)
  case (2 col cols bytes)
  have "puts m (\<lambda>l. case bytes of [] \<Rightarrow> Some l | b # _ \<Rightarrow> put_char (dump_char b) l) (map dump_char (take 1 bytes))"
    using 2(2) puts_char puts_nothing by (cases bytes) auto
  from puts_bind [OF this puts_bind [OF puts_blanks 2(1)]] show ?case
    using 2(2) by simp
qed (simp add: puts_def)

lemma printed_start: "length b = DUMP_STRING_SIZE \<Longrightarrow> printed [] (b, 0)"
  by (simp add: printed_def)

lemma put_end:
  assumes "printed t l" and "NUL \<notin> set t"
  shows "put_char NUL l = None \<longleftrightarrow> length t = DUMP_STRING_SIZE"
    and "put_char NUL l = Some (b, p) \<Longrightarrow> length b = DUMP_STRING_SIZE \<and> NUL \<in> set b \<and> c_string b = t"
proof -
  show "put_char NUL l = None \<longleftrightarrow> length t = DUMP_STRING_SIZE"
    using assms(1) by (cases l) (auto simp: printed_def put_char_def)
  assume "put_char NUL l = Some (b, p)"
  then obtain a where a: "length t < length a" "b = a[length t := NUL]" "take (length t) a = t" "length a = DUMP_STRING_SIZE"
    using assms(1) by (cases l) (auto simp: printed_def put_char_def split: if_splits)
  then have "b = t @ NUL # drop (Suc (length t)) a"
    by (simp add: upd_conv_take_nth_drop)
  then show "length b = DUMP_STRING_SIZE \<and> NUL \<in> set b \<and> c_string b = t"
    using assms(2) a by (auto simp: c_string_def) (subst takeWhile_append2; auto)
qed

text \<open>A line is printed unless its text and the final zero need more than the array.\<close>

lemma dump_line_result:
  assumes "length b = DUMP_STRING_SIZE" and "offset < 2 ^ 32"
  shows "dump_line offset bytes b = None \<longleftrightarrow> length (dump_text offset bytes) = DUMP_STRING_SIZE"
    and "dump_line offset bytes b = Some b' \<Longrightarrow> length b' = DUMP_STRING_SIZE \<and> NUL \<in> set b' \<and> c_string b' = dump_text offset bytes"
proof -
  have digits: "length (hex_padded 4 offset) \<le> 8"
    using length_hexadecimal [of offset 8] assms(2) by (auto simp: hex_padded_def)
  let ?head = "(''['' @ hex_padded 4 offset @ '']'') @ replicate 3 (CHR '' '') @ hex_field [0..<16] bytes"
  let ?tail = "replicate 3 (CHR '' '') @ ascii_field [0..<16] bytes"
  have "puts 80 (\<lambda>l. Option.bind (put_text (''['' @ hex_padded 4 offset @ '']'') l) (\<lambda>l. Option.bind (put_blanks 3 l) (dump_data [0..<16] bytes))) ?head"
    by (intro puts_bind puts_text puts_blanks puts_data) (simp_all add: DUMP_STRING_SIZE_def)
  moreover have "length ?head \<le> 80"
    using digits by (simp add: hex_field_16)
  ultimately obtain l where l: "Option.bind (put_text (''['' @ hex_padded 4 offset @ '']'') (b, 0)) (\<lambda>l. Option.bind (put_blanks 3 l) (dump_data [0..<16] bytes)) = Some l"
    "printed ?head l"
    using putsD [OF _ printed_start [OF assms(1)]] by fastforce
  have "puts 81 (\<lambda>l. Option.bind (put_blanks 3 l) (dump_ascii [0..<16] bytes)) ?tail"
    by (intro puts_bind puts_blanks puts_ascii) (simp_all add: DUMP_STRING_SIZE_def)
  moreover have "length ?head + length ?tail \<le> 81"
    using digits ascii_field_16(1) [of bytes] by (simp add: hex_field_16)
  ultimately obtain l' where l': "Option.bind (put_blanks 3 l) (dump_ascii [0..<16] bytes) = Some l'" "printed (?head @ ?tail) l'"
    using putsD [OF _ l(2)] by blast
  have "?head @ ?tail = dump_text offset bytes"
    by (simp add: dump_text_def)
  then have at_end: "printed (dump_text offset bytes) l'"
    using l'(2) by simp
  have run: "dump_line offset bytes b = Option.bind (put_char NUL l') (\<lambda>(b, _). Some b)"
    using l(1) l'(1) by (auto simp: dump_line_def bind_eq_Some_conv)
  show "dump_line offset bytes b = None \<longleftrightarrow> length (dump_text offset bytes) = DUMP_STRING_SIZE"
    using put_end(1) [OF at_end dump_text_no_NUL] unfolding run by (cases "put_char NUL l'") auto
  show "dump_line offset bytes b = Some b' \<Longrightarrow> length b' = DUMP_STRING_SIZE \<and> NUL \<in> set b' \<and> c_string b' = dump_text offset bytes"
    using put_end(2) [OF at_end dump_text_no_NUL] unfolding run by (cases "put_char NUL l'") auto
qed

subsection \<open>Dumps\<close>

function dump_texts :: "nat \<Rightarrow> u8 list \<Rightarrow> string list" where
  "dump_texts offset bytes = (if bytes = [] then [] else dump_text offset bytes # dump_texts (offset + 16) (drop 16 bytes))"
  by pat_completeness auto

termination dump_texts
  by (relation "measure (\<lambda>(offset, bytes). length bytes)") auto

declare dump_texts.simps [simp del]

lemma padded_wide: "offset < 2 ^ 32 \<Longrightarrow> length (hex_padded 4 offset) = 8 \<longleftrightarrow> 2 ^ 28 \<le> offset"
  using length_hexadecimal [of offset 8] length_hexadecimal [of offset 7] length_hexadecimal_ge [of 7 offset]
  by (cases "2 ^ 28 \<le> offset") (auto simp: hex_padded_def)

lemma padded_bound: "offset < 2 ^ 32 \<Longrightarrow> length (hex_padded 4 offset) \<le> 8"
  using length_hexadecimal [of offset 8] by (auto simp: hex_padded_def)

lemma dump_line_fits:
  assumes "length b = DUMP_STRING_SIZE" and "offset < 2 ^ 32"
  shows "dump_line offset bytes b = None \<longleftrightarrow> 2 ^ 28 \<le> offset \<and> 16 \<le> length bytes"
proof -
  have "length (dump_text offset bytes) = DUMP_STRING_SIZE \<longleftrightarrow> length (hex_padded 4 offset) = 8 \<and> length (ascii_field [0..<16] bytes) = 17"
    using padded_bound [OF assms(2)] ascii_field_16(1) [of bytes] by (auto simp: length_dump_text DUMP_STRING_SIZE_def)
  then show ?thesis
    by (simp only: dump_line_result(1) [OF assms] ascii_field_16(2) padded_wide [OF assms(2)])
qed

lemma dump_lines_result:
  assumes "length b = DUMP_STRING_SIZE" and "offset + length bytes < 2 ^ 32" and "16 dvd offset"
  shows "dump_lines offset bytes b = (if 16 \<le> length bytes \<and> 2 ^ 28 + 16 \<le> offset + length bytes then None else Some (dump_texts offset bytes))"
  using assms
proof (induction offset bytes b rule: dump_lines.induct)
  case (1 offset bytes b)
  show ?case
  proof (cases "bytes = []")
    case True
    then show ?thesis by (subst dump_lines.simps, subst dump_texts.simps) simp
  next
    case False
    then have off: "offset < 2 ^ 32" using 1(3) by (cases bytes) auto
    show ?thesis
    proof (cases "dump_line offset bytes b")
      case None
      then show ?thesis
        using dump_line_fits [OF 1(2) off, of bytes] False by (subst dump_lines.simps) auto
    next
      case (Some b')
      have fits: "\<not> (2 ^ 28 \<le> offset \<and> 16 \<le> length bytes)" and line: "length b' = DUMP_STRING_SIZE" "c_string b' = dump_text offset bytes"
        using dump_line_fits [OF 1(2) off, of bytes] dump_line_result(2) [OF 1(2) off, of bytes b'] Some by auto
      have small: "offset + length (drop 16 bytes) < 2 ^ 32 - 16 \<or> length bytes \<le> 16"
        using 1(3) by auto
      have rest: "dump_lines (offset + 16) (drop 16 bytes) b' =
          (if 16 \<le> length bytes \<and> 2 ^ 28 + 16 \<le> offset + length bytes then None else Some (dump_texts (offset + 16) (drop 16 bytes)))"
      proof (cases "length bytes \<le> 16")
        case True
        then have "\<not> (16 \<le> length bytes \<and> 2 ^ 28 + 16 \<le> offset + length bytes)"
          using fits by auto
        with True show ?thesis
          by (subst dump_lines.simps, subst dump_texts.simps) simp
      next
        case large: False
        have "16 dvd offset + 16" "offset < 2 ^ 28"
          using 1(4) fits large by auto
        then have "offset + 16 \<le> 2 ^ 28"
          by (auto elim!: dvdE)
        moreover have "offset + 16 + length (drop 16 bytes) = offset + length bytes"
          using large by simp
        ultimately show ?thesis
  using 1(1) [OF False Some] line(1) 1(3) \<open>16 dvd offset + 16\<close> large by auto
      qed
      show ?thesis
        using False Some rest line(2) by (subst dump_lines.simps, subst dump_texts.simps) auto
    qed
  qed
qed

subsection \<open>Escaping\<close>

definition escaped :: "string \<Rightarrow> string" where
  "escaped cs = concat (map (\<lambda>c. if c = CHR ''%'' then [c, c] else [c]) cs)"

lemma length_escaped: "length (escaped cs) \<le> 2 * length cs"
  by (induction cs) (auto simp: escaped_def)

lemma format_escaped: "format_plain (escaped cs) = Some cs"
  by (induction cs) (simp_all add: escaped_def)

lemma put_char_eq: "p < length f \<Longrightarrow> put_char c (f, p) = Some (take p f @ c # drop (Suc p) f, Suc p)"
  by (simp add: put_char_def upd_conv_take_nth_drop)

lemma escape_percent_printed:
  "p + length (escaped cs) \<le> length f \<Longrightarrow> escape_percent cs (f, p) = Some (take p f @ escaped cs @ drop (p + length (escaped cs)) f, p + length (escaped cs))"
proof (induction cs arbitrary: f p)
  case (Cons c cs)
  show ?case
  proof (cases "c = CHR ''%''")
    case True
    then have "p + 2 + length (escaped cs) \<le> length f" "escaped (c # cs) = [c, c] @ escaped cs"
      using Cons.prems by (simp_all add: escaped_def)
    then show ?thesis
      using Cons.IH [of "p + 2" "take p f @ [c, c] @ drop (p + 2) f"] True by (simp add: put_char_eq min_def add.commute)
  next
    case False
    then have "p + 1 + length (escaped cs) \<le> length f" "escaped (c # cs) = [c] @ escaped cs"
      using Cons.prems by (simp_all add: escaped_def)
    then show ?thesis
      using Cons.IH [of "p + 1" "take p f @ [c] @ drop (p + 1) f"] False by (simp add: put_char_eq min_def add.commute)
  qed
qed (simp add: escaped_def)

lemma c_string_escaped:
  assumes "NUL \<in> set b"
  shows "c_string (escaped b @ rest) = escaped (c_string b)"
  using assms by (induction b) (auto simp: escaped_def c_string_def NUL_def)

lemma escaped_room:
  assumes "length b = DUMP_STRING_SIZE" and "NUL \<in> set b"
  shows "length (escaped b) \<le> DUMP_FINAL_SIZE"
proof -
  obtain xs ys where b: "b = xs @ NUL # ys"
    using assms(2) by (meson split_list)
  then have "escaped b = escaped xs @ NUL # escaped ys"
    by (simp add: escaped_def NUL_def)
  then show ?thesis
    using length_escaped [of xs] length_escaped [of ys] assms(1) b by (simp add: DUMP_STRING_SIZE_def DUMP_FINAL_SIZE_def)
qed

lemma length_dump_text_le: "offset < 2 ^ 32 \<Longrightarrow> length (dump_text offset bytes) \<le> 81"
  using padded_bound [of offset] ascii_field_16(1) [of bytes] by (simp add: length_dump_text)

text \<open>The library logs the lines that the RIL prints.\<close>

lemma ipc_dump_lines_eq:
  assumes "length b = DUMP_STRING_SIZE" and "length final = DUMP_FINAL_SIZE" and "offset + length bytes < 2 ^ 32"
  shows "ipc_dump_lines callback offset bytes b final = map_option (\<lambda>ls. if callback then ls else []) (dump_lines offset bytes b)"
  using assms
proof (induction callback offset bytes b final rule: ipc_dump_lines.induct)
  case (1 callback offset bytes b final)
  show ?case
  proof (cases "bytes = []")
    case True
    then show ?thesis by (subst ipc_dump_lines.simps, subst dump_lines.simps) simp
  next
    case False
    then have off: "offset < 2 ^ 32" using 1(4) by (cases bytes) auto
    show ?thesis
    proof (cases "dump_line offset bytes b")
      case None
      then show ?thesis using False by (subst ipc_dump_lines.simps, subst dump_lines.simps) simp
    next
      case (Some b')
      have line: "length b' = DUMP_STRING_SIZE" "NUL \<in> set b'" "c_string b' = dump_text offset bytes"
        using dump_line_result(2) [OF 1(2) off Some] by auto
      define final' where "final' = escaped b' @ drop (length (escaped b')) final"
      have final: "escape_percent b' (final, 0) = Some (final', length (escaped b'))" "length final' = DUMP_FINAL_SIZE"
        "format_plain (c_string final') = Some (dump_text offset bytes)"
        using escape_percent_printed [of 0 b' final] escaped_room [OF line(1,2)] 1(3) line(3)
        by (simp_all add: final'_def c_string_escaped [OF line(2)] format_escaped)
      have room: "offset + 16 + length (drop 16 bytes) < 2 ^ 32 \<or> drop 16 bytes = []"
        using 1(4) by auto
      have short: "take 4095 (dump_text offset bytes) = dump_text offset bytes"
        using length_dump_text_le [OF off, of bytes] by simp
      have rest: "ipc_dump_lines callback (offset + 16) (drop 16 bytes) b' final' = map_option (\<lambda>ls. if callback then ls else []) (dump_lines (offset + 16) (drop 16 bytes) b')"
      proof (cases "drop 16 bytes = []")
        case True
        then show ?thesis by (subst ipc_dump_lines.simps, subst dump_lines.simps) simp
      next
        case False
        then show ?thesis
          using 1(1) [OF \<open>bytes \<noteq> []\<close> Some final(1) refl, of "if callback then dump_text offset bytes else []"] room line(1) final(2,3) by auto
      qed
      show ?thesis
        using False Some final rest line(3) short
        by (subst ipc_dump_lines.simps, subst dump_lines.simps) (cases "dump_lines (offset + 16) (drop 16 bytes) b'"; simp add: ipc_client_log_def)
    qed
  qed
qed

subsection \<open>Properties\<close>

text \<open>Sixteen bytes are printed to a line, with their offset, their digits and their characters, by the RIL and by the library alike; the library's lines are formats without arguments and
  log as they are. From 268435472 bytes on the eight digits of the offset leave no room for the final zero of a full line, which is written behind the array.\<close>

theorem data_dump_result:
  assumes "length garbage = DUMP_STRING_SIZE" and "length data < 2 ^ 32"
  shows "(data_dump garbage data = None \<longleftrightarrow> 2 ^ 28 + 16 \<le> length data) \<and>
    (data \<noteq> [] \<longrightarrow> length data < 2 ^ 28 + 16 \<longrightarrow> data_dump garbage data = Some (0, dump_texts 0 data)) \<and>
    ipc_data_dump True data = data_dump garbage data"
proof -
  have lines: "dump_lines 0 data b = (if 2 ^ 28 + 16 \<le> length data then None else Some (dump_texts 0 data))" if "length b = DUMP_STRING_SIZE" for b
    using dump_lines_result [OF that, of 0 data] assms(2) by auto
  have "ipc_dump_lines True 0 data (replicate DUMP_STRING_SIZE NUL) (replicate DUMP_FINAL_SIZE NUL) = dump_lines 0 data garbage"
    using ipc_dump_lines_eq [of "replicate DUMP_STRING_SIZE NUL" "replicate DUMP_FINAL_SIZE NUL" 0 data True] assms(2) lines assms(1) by simp
  then show ?thesis
    using lines [OF assms(1)] by (auto simp: data_dump_def ipc_data_dump_def)
qed

text \<open>No two commands have the same name in the log, whether they are in the list or not, and no two types of responses.\<close>

theorem command_names_identify:
  "ipc_command_string c = ipc_command_string d \<longleftrightarrow> c = d" "ipc_response_type_string s = ipc_response_type_string t \<longleftrightarrow> s = t"
  by (rule command_string_inj, rule response_type_string_inj)

theorem data_dump_result_witness:
  "\<exists>line. data_dump (replicate 81 NUL) [0x25, 0x41] = Some (0, [line]) \<and> ipc_data_dump True [0x25, 0x41] = Some (0, [line])"
  using data_dump_result [of "replicate 81 NUL" "[0x25, 0x41]"] by (simp add: DUMP_STRING_SIZE_def dump_texts.simps)

end
