(* ===== verification/Spec2Isabelle.thy ===== *)
theory Spec2Isabelle
  imports List_Head Ril_Client Srs_Client Srs_Threads Dev_Hsic Dev_Mipi Dev_Crespo Dev_Aries Ipc_Device Ipc_Client Ipc_Log
begin

section \<open>Samsung-RIL and libsamsung-ipc: a verification development\<close>

text \<open>
  \<^bold>\<open>The program.\<close> The repository collects radio interface layers for Samsung phones. Its own program is Samsung-RIL
  (\<open>src/old resources/hardware_ril_samsung-ril\<close>), written in C, with the library libsamsung-ipc
  (\<open>src/old resources/external_libsamsung-ipc\<close>) that encodes and decodes the messages of the modem. Android's \<open>rild\<close> hands requests with
  a token to the RIL (\<open>ril_on_request\<close>); a loop in a thread of its own dispatches them to handlers; a handler sends a message to the modem
  under a sequence number or completes the request at once; a second thread receives messages and dispatches them to handlers that complete
  requests (\<open>ril_request_complete\<close>) or tell the framework something unasked (\<open>ril_request_unsolicited\<close>). The model is that of
  \<open>RIL_VERSION\<close> 7 (\<open>libril2/include/telephony/ril.h\<close>) on the 32-bit targets.

  \<^bold>\<open>How the model is written.\<close> Each C function is a definition of the same name. The global state (\<open>struct ril_data\<close>,
  \<open>struct ipc_fmt_data\<close>, \<open>struct ril_client\<close>) is the record \<open>ril_world\<close>; a function that changes it takes the world and returns
  \<open>(result, world)\<close>. Undefined behaviour, such as reading past a message or through a freed pointer, is the value \<open>None\<close> of an option type
  around that, so that a theorem that a function returns \<open>Some\<close> says that the C code is defined there. Queued objects are lists of
  nodes with addresses; that the pointer code of the queues implements these lists is proved in \<open>List_Head\<close>. Results of the driver and the kernel
  are read from the script \<open>io\<close> of the world; the calls of the RIL to its environment are recorded in \<open>trace\<close>. Integers are words where
  wrap-around matters, and strings are lists of bytes or characters without the final zero. All loops are total functions or have a proof that they
  end; no fuel is used.

  \<^bold>\<open>Theories.\<close>
  \<^item> \<open>Prelude\<close>: bytes and words, the \<open>wp\<close> calculus for \<open>(result, world) option\<close>, node lists.
  \<^item> \<open>List_Head\<close> (\<open>utils.c\<close>): the doubly linked list on a heap, and the loops that append, unlink and flush, against lists of nodes.
  \<^item> \<open>Ipc_Utils\<close>, \<open>Ipc_Call\<close>, \<open>Ipc_Sms\<close>, \<open>Ipc_Codecs\<close> (\<open>samsung-ipc/utils.c\<close>, \<open>ipc_utils.c\<close>, \<open>call.c\<close>, \<open>gen.c\<close>, \<open>sms.c\<close>, \<open>sec.c\<close>,
    \<open>net.c\<close>, \<open>gprs.c\<close>, \<open>misc.c\<close>, \<open>svc.c\<close>): message layouts, their round trips and their out-of-bounds reads. The lists of fixed-size entries share the
    locale \<open>entry_list\<close>.
  \<^item> \<open>Ril_State\<close>: the record \<open>ril_world\<close>, payloads and responses, the values of \<open>ril.h\<close>, and the state invariant \<open>ril_inv\<close>.
  \<^item> \<open>Ipc_Fmt\<close> (\<open>ipc.c\<close>, \<open>gen.c\<close>, \<open>client.c\<close>): sending, sequence numbers, the mirror of the request queue, expected responses.
  \<^item> \<open>Ril_Request\<close>, \<open>Ril_Radio\<close> (\<open>samsung-ril.c\<close>, \<open>data.c\<close>): the request queue and the request data, the radio state and the data connections;
    \<open>quiet\<close>, the relation of steps that neither complete nor queue anything.
  \<^item> \<open>Ril_Handler\<close>: the contracts \<open>request_handler\<close>, \<open>message_handler\<close>, \<open>completing_handler\<close> and \<open>safe_handler\<close> as locales, each message contract a
    sublocale of the next weaker one, and \<open>ipc_gen_phone_res\<close>.
  \<^item> \<open>Ril_Power\<close>, \<open>Ril_Call\<close>, \<open>Ril_Sms\<close>, \<open>Ril_Sim\<close>, \<open>Ril_Data\<close>, \<open>Ril_Network\<close>, \<open>Ril_Misc\<close> (\<open>power.c\<close>, \<open>call.c\<close>, \<open>sms.c\<close>, \<open>sim.c\<close>, \<open>data.c\<close>,
    \<open>network.c\<close>, \<open>misc.c\<close>, \<open>sound.c\<close>, \<open>oem.c\<close>): every handler, an interpretation of its contract, and what the module promises.
    \<open>Plmn_List\<close> is the table of operators of \<open>include/plmn_list.h\<close>.
  \<^item> \<open>Ril_Loop\<close>, \<open>Ril_Dispatch\<close> (\<open>samsung-ril.c\<close>, \<open>ipc.c\<close>): the request loop and the interface to \<open>rild\<close> over the locale \<open>handler_table\<close>, the two tables of
    handlers, and the dispatch of messages; both tables are shown to keep the contracts.
  \<^item> \<open>Ril_System\<close>: the interleaving of requests, cancellations, rounds of the loop and messages as a step relation.
  \<^item> \<open>Client_Loop\<close>, \<open>Ril_Client\<close> (\<open>client.c\<close>, \<open>ipc.c\<close>, \<open>samsung-ril.c\<close>): select loops as rounds over the inputs of the environment, the thread that
    reopens a client after an error (locale over the operations of a client), the FMT client, and \<open>RIL_Init\<close>, which creates, opens and starts all of them.
  \<^item> \<open>Srs_Socket\<close>, \<open>Ril_Srs\<close> (\<open>srs.c\<close>, \<open>samsung-ril-socket.h\<close>): the sound server with its two threads, whose rounds are functions on \<open>srs_world\<close>.
    \<open>Srs_Threads\<close>: the same threads cut at every critical section, as a step relation whose steps interleave freely, and the rounds as sequences of these steps.
    \<open>Srs_Client\<close> (\<open>srs-client.c\<close>): the library that other processes use to talk to it, connected to the server through the bytes of the socket.
  \<^item> \<open>Ipc_Files\<close>, \<open>Ipc_Nv\<close> (\<open>samsung-ipc/utils.c\<close>, \<open>rfs.c\<close>, \<open>ipc.c\<close>): files whose system calls fail or transfer short on demand of a script, the
    chunked reading and writing, and the modem's data with its sum and backup. The digest is a parameter of which \<open>digest_ok\<close> is assumed: it
    has sixteen bytes. \<open>Ril_Rfs\<close> (\<open>rfs.c\<close>, \<open>ipc.c\<close>): the client that serves these data to the modem.
  \<^item> \<open>Xmm626_Modem\<close> (\<open>devices/xmm626/xmm626_sec_modem.c\<close>): the link to the modem over a port, whose record holds the bytes sent, the pieces that arrive and a script of results.
  \<^item> \<open>Modem_Boot\<close>, \<open>Xmm626_Hsic\<close>, \<open>Xmm626_Mipi\<close> (\<open>xmm626.c\<close>, \<open>xmm626_hsic.c\<close>, \<open>xmm626_mipi.c\<close>): the two protocols that load the software into the modem,
    each an instance of the locale \<open>modem_transfer\<close>, whose laws say that what is sent reads back as an address and an image. \<open>Dev_Hsic\<close> (\<open>galaxys2.c\<close>,
    \<open>i9300.c\<close>, \<open>n7100.c\<close>) and \<open>Dev_Mipi\<close> (\<open>maguro.c\<close>, \<open>piranha.c\<close>): the phones, as instances of the locales \<open>hsic_phone\<close> and \<open>mipi_phone\<close>.
  \<^item> \<open>Xmm616\<close> (\<open>xmm616.c\<close>), \<open>Dev_Crespo\<close> (\<open>crespo.c\<close>), \<open>Dev_Aries\<close> (\<open>aries.c\<close>, \<open>samsung-ipc/utils.c\<close>): the older modem, whose boot loader goes over a serial line and
    whose software is written to a device (Nexus S) or copied into memory that phone and modem share (Galaxy S), and the links of these phones: structures passed to a device, and
    datagrams of a phonet socket.
  \<^item> \<open>Ipc_Device\<close>, \<open>Ipc_Client\<close> (\<open>ipc.c\<close>, \<open>ipc.h\<close>, \<open>ipc_devices.c\<close>): the table of phones, their detection, and the client, whose functions look up an entry of the driver's
    tables and call it; the entries are functions on an arbitrary state, given as arguments.
  \<^item> \<open>Ipc_Log\<close> (\<open>ipc_utils.c\<close>, \<open>utils.c\<close> of the RIL, \<open>ipc.c\<close>): the names of commands and types, the dump of bytes into an array, and the lines for a message.

  \<^bold>\<open>What is shown.\<close> In every reachable state of the system each submitted request is queued, cancelled, or completed exactly once, and no step
  is undefined or fails to return (\<open>Ril_System\<close>), provided that requests come with the objects of their kind (\<open>request_payloads\<close>) and messages keep
  to the guards of \<open>message_guards\<close>; the state in which \<open>RIL_Init\<close> leaves the RIL is a start of that system. The guards are the places where the code is undefined
  or unsafe; the component theories prove what happens
  there: the double free when the radio goes off with an open data connection, the use of a freed request after a PUK, reads past truncated call lists and
  screens, the walk through PDUs without bounds, and others listed with the properties. The component theories further show the outcome of a
  generic response, the delivery of calls, messages, registration, SIM status and networks, the life of a data call, and the layouts of messages.
  Below the RIL: an idle FMT client that meets errors and messages without a handler ends after five failures and never loops forever (\<open>Ril_Client\<close>). The sound server
  accounts for every connection as long as only one of its threads handles a looked-up client at a time; the code does not ensure this, and the double close, the use after free and the
  leak that follow are reachable states (\<open>Srs_Threads\<close>). Its library and the server understand each other. The modem's data is only handed out when its sum is right, and is restored from
  its backup. A message survives every cutting of the link's bytes behind its header, which has to arrive whole. A boot that reports success has put the firmware and verified data at
  their addresses, on each of the seven phones; for the Galaxy S the order is shown too: the memory is handed over after both copies. A modem that answers is booted by the drivers of the
  Galaxy S2, the Galaxy S3, the Note 2, the Nexus S and the Galaxy S. The phone detected is the best entry of the table.

  \<^bold>\<open>Bounds.\<close> A list of inputs stands for what the environment does to a select loop: a loop that has consumed it waits, so that no fuel is involved. The retry loops
  have the bounds of the code (five openings, the attempts of each acknowledgement, fifty or a hundred polls of a driver), written as recursion on the number that is left.

  \<^bold>\<open>Not modelled.\<close> What the functions themselves log, apart from the messages and dumps of \<open>Ipc_Log\<close>; the release of memory that nothing reads again; time. The names of the sound server's commands in its log are left out. The kernel's
  drivers behind the system calls are the environment: a script gives the results of the calls, and theorems quantify over it. The older copy of the library is not built with
  this RIL. The rest of the repository, Android's libril, rild and reference implementations, is vendored framework code.
\<close>

end
